(* ===== verification/Prelude.thy ===== *)
theory Prelude
  imports Main "HOL-Library.Word" "HOL-Library.Multiset"
begin

text \<open>
  Shared vocabulary of the development: the machine-integer types of the driver
  (\<^verbatim>\<open>include/rtmp_type.h\<close>), the memory faults that plain C would leave undefined, and the
  generic lemmas on words, byte strings and lists that the component theories use.
\<close>

unbundle bit_operations_syntax


type_synonym u8 = "8 word"
type_synonym u16 = "16 word"
type_synonym u32 = "32 word"
type_synonym bytes = "8 word list"

text \<open>\<^verbatim>\<open>ULONG\<close> is \<^verbatim>\<open>unsigned long\<close>, 64 bits on the machines the driver is built for.\<close>

type_synonym ulong = "64 word"

text \<open>
  What the C program does when it leaves its buffers: the model returns the fault instead of a
  value, so every theorem that says \<open>Inr\<close> also says that the code stays inside its arrays.
\<close>

datatype c_fault = OOBRead | OOBWrite | DivByZero | NullDeref

text \<open>The status codes of \<^verbatim>\<open>include/os/rt_linux.h\<close>.\<close>

definition NDIS_STATUS_SUCCESS :: nat where "NDIS_STATUS_SUCCESS = 0"
definition NDIS_STATUS_FAILURE :: nat where "NDIS_STATUS_FAILURE = 1"
definition NDIS_STATUS_RESOURCES :: nat where "NDIS_STATUS_RESOURCES = 3"
definition NDIS_STATUS_MICERROR :: nat where "NDIS_STATUS_MICERROR = 4"

text \<open>The states of a task and of its queue (\<^verbatim>\<open>include/rtmp_os.h\<close>).\<close>

definition RTMP_TASK_STAT_UNKNOWN :: nat where "RTMP_TASK_STAT_UNKNOWN = 0"
definition RTMP_TASK_STAT_INITED :: nat where "RTMP_TASK_STAT_INITED = 1"
definition RTMP_TASK_STAT_RUNNING :: nat where "RTMP_TASK_STAT_RUNNING = 2"
definition RTMP_TASK_STAT_STOPED :: nat where "RTMP_TASK_STAT_STOPED = 4"

text \<open>\<^verbatim>\<open>state & RTMP_TASK_CAN_DO_INSERT\<close>.\<close>

definition RTMP_TASK_CAN_DO_INSERT :: "nat \<Rightarrow> bool" where
  "RTMP_TASK_CAN_DO_INSERT st \<longleftrightarrow>
     st AND (RTMP_TASK_STAT_INITED OR RTMP_TASK_STAT_RUNNING) \<noteq> 0"

subsection \<open>Exclusive or on words and byte strings\<close>

lemma xor_cancel_left [simp]: "a XOR (a XOR b) = (b :: 'a::len word)"
  by (simp add: xor.assoc [symmetric])

lemma xor_cancel_right [simp]: "(b XOR a) XOR a = (b :: 'a::len word)"
  by (simp add: xor.assoc)

lemma xor_left_inj [simp]: "a XOR b = a XOR c \<longleftrightarrow> b = (c :: 'a::len word)"
  by (metis xor_cancel_left)

lemma xor_right_inj [simp]: "b XOR a = c XOR a \<longleftrightarrow> b = (c :: 'a::len word)"
  by (metis xor_cancel_right)

text \<open>Byte-wise exclusive or, as the \<^verbatim>\<open>for\<close> loops over two arrays do it.\<close>

definition xor_bytes :: "bytes \<Rightarrow> bytes \<Rightarrow> bytes" where
  "xor_bytes xs ys = map2 (XOR) xs ys"

lemma length_xor_bytes [simp]: "length (xor_bytes xs ys) = min (length xs) (length ys)"
  by (simp add: xor_bytes_def)

lemma xor_bytes_Cons [simp]: "xor_bytes (x # xs) (y # ys) = (x XOR y) # xor_bytes xs ys"
  by (simp add: xor_bytes_def)

lemma xor_bytes_Nil [simp]: "xor_bytes [] ys = []" "xor_bytes xs [] = []"
  by (simp_all add: xor_bytes_def)

lemma xor_bytes_cancel [simp]:
  "length xs \<le> length ks \<Longrightarrow> xor_bytes (xor_bytes xs ks) ks = xs"
  by (induction xs ks rule: list_induct2') auto

lemma xor_bytes_cancel_take:
  "length xs \<le> length ks \<Longrightarrow> xor_bytes (xor_bytes xs ks) (take (length xs) ks) = xs"
  by (induction xs ks rule: list_induct2') auto

lemma xor_bytes_append:
  "length xs = length ks \<Longrightarrow>
   xor_bytes (xs @ ys) (ks @ ls) = xor_bytes xs ks @ xor_bytes ys ls"
  by (simp add: xor_bytes_def)

subsection \<open>Little-endian byte order\<close>

text \<open>
  The driver is built with \<^verbatim>\<open>CONFIG_LITTLE_ENDIAN\<close> (\<^verbatim>\<open>Makefile\<close>): \<^verbatim>\<open>cpu2le32\<close> is the
  identity and a \<^verbatim>\<open>memmove\<close> of a 32-bit integer copies its low byte first.
\<close>

definition le32_bytes :: "u32 \<Rightarrow> bytes" where
  "le32_bytes w = [ucast w, ucast (drop_bit 8 w), ucast (drop_bit 16 w), ucast (drop_bit 24 w)]"

definition le32_word :: "bytes \<Rightarrow> u32" where
  "le32_word bs = ucast (bs ! 0) OR push_bit 8 (ucast (bs ! 1)) OR
     push_bit 16 (ucast (bs ! 2)) OR push_bit 24 (ucast (bs ! 3))"

lemma length_le32_bytes [simp]: "length (le32_bytes w) = 4"
  by (simp add: le32_bytes_def)

lemma le32_word_bytes [simp]: "le32_word (le32_bytes w) = w"
proof (rule bit_word_eqI)
  fix n assume "n < LENGTH(32)"
  then consider "n < 8" | "8 \<le> n" "n < 16" | "16 \<le> n" "n < 24" | "24 \<le> n" "n < 32"
    by fastforce
  then show "bit (le32_word (le32_bytes w)) n = bit w n"
    by cases (auto simp: le32_word_def le32_bytes_def bit_or_iff bit_push_bit_iff bit_ucast_iff
        bit_drop_bit_eq)
qed

lemma le32_bytes_word:
  assumes "length bs = 4"
  shows "le32_bytes (le32_word bs) = bs"
proof -
  obtain a b c d where bs: "bs = [a, b, c, d]"
    using assms by (auto simp: numeral_eq_Suc length_Suc_conv)
  have ge: "\<not> bit (x :: u8) n" if "8 \<le> n" for x n
    using bit_imp_le_length [of x n] that by auto
  show ?thesis
    by (simp add: bs le32_bytes_def le32_word_def)
      (intro conjI bit_word_eqI; auto simp: bit_simps ge)
qed

lemma le32_word_inj:
  "length xs = 4 \<Longrightarrow> length ys = 4 \<Longrightarrow> le32_word xs = le32_word ys \<longleftrightarrow> xs = ys"
  by (metis le32_bytes_word)

lemma unat_of_nat_u16: "n < 65536 \<Longrightarrow> unat (word_of_nat n :: u16) = n"
  by (simp add: unsigned_of_nat take_bit_nat_eq_self)

subsection \<open>Enumerating the byte values\<close>

lemma all_bytes_upt:
  assumes "list_all P (map word_of_nat [0..<256])"
  shows "P (x :: u8)"
proof -
  have "unat x < 256" using unsigned_less [of x] by simp
  then have "word_of_nat (unat x) \<in> set (map word_of_nat [0..<256] :: u8 list)" by force
  with assms show ?thesis by (auto simp: list_all_iff)
qed

lemma unat_u8_less [simp]: "unat (x :: u8) < 256"
  using unsigned_less [of x] by simp

lemma map_bytes_nth:
  assumes "map (\<lambda>n. f (word_of_nat n)) [0..<256] = xs"
  shows "xs ! unat (x :: u8) = f x"
proof -
  have "xs ! unat x = map (\<lambda>n. f (word_of_nat n)) [0..<256] ! unat x"
    using assms by simp
  also have "\<dots> = f x" by (simp del: upt_rec_numeral)
  finally show ?thesis .
qed

subsection \<open>Tables of linear functions\<close>

text \<open>
  The lookup tables of the CRC and of the AES field multiplications list a function that is
  linear for exclusive or, so they are spanned by its values at the eight single-bit bytes:
  \<open>xor_span_nth\<close> checks such a table with 255 exclusive ors.
\<close>

definition xor_linear :: "(u8 \<Rightarrow> 'a::len word) \<Rightarrow> bool" where
  "xor_linear f \<longleftrightarrow> (\<forall>x y. f (x XOR y) = f x XOR f y)"

fun xor_span :: "'a::len word list \<Rightarrow> 'a word list" where
  "xor_span [] = [0]"
| "xor_span (b # bs) = xor_span bs @ map (\<lambda>v. v XOR b) (xor_span bs)"

lemma length_xor_span [simp]: "length (xor_span bs) = 2 ^ length bs"
  by (induction bs) simp_all

lemma nat_add_exp_eq_xor: "m < 2 ^ k \<Longrightarrow> m + 2 ^ k = m XOR (2 ^ k :: nat)"
proof (rule disjunctive_add_eq_xor)
  assume "m < 2 ^ k"
  then have "\<not> bit m k" by (simp add: bit_iff_odd)
  then show "m AND 2 ^ k = 0"
    by (auto intro!: bit_eqI simp: bit_simps)
qed

lemma word_of_nat_add_exp:
  "m < 2 ^ k \<Longrightarrow> (word_of_nat (m + 2 ^ k) :: 'a::len word) = word_of_nat m XOR 2 ^ k"
  by (simp add: nat_add_exp_eq_xor of_nat_xor_eq)

lemma xor_linear_0: "xor_linear f \<Longrightarrow> f 0 = 0"
  unfolding xor_linear_def by (metis xor_self_eq)

lemma xor_span_linear:
  assumes "xor_linear f" and "n < 2 ^ k"
  shows "xor_span (map (\<lambda>i. f (2 ^ i)) (rev [0..<k])) ! n = f (word_of_nat n)"
  using assms(2)
proof (induction k arbitrary: n)
  case 0
  then show ?case using xor_linear_0 [OF assms(1)] by simp
next
  case (Suc k)
  let ?bs = "map (\<lambda>i. f (2 ^ i)) (rev [0..<k])"
  show ?case
  proof (cases "n < 2 ^ k")
    case True
    then show ?thesis using Suc.IH [of n] by (simp add: nth_append)
  next
    case False
    define m where "m = n - 2 ^ k"
    with False Suc.prems have n: "n = m + 2 ^ k" and m: "m < 2 ^ k" by simp_all
    have "f (word_of_nat n) = f (word_of_nat m) XOR f (2 ^ k)"
      using assms(1) by (simp only: n word_of_nat_add_exp [OF m] xor_linear_def)
    with Suc.IH [OF m] m show ?thesis by (simp add: n nth_append)
  qed
qed

lemma xor_span_nth:
  assumes "xor_linear f" and "xor_span [f 128, f 64, f 32, f 16, f 8, f 4, f 2, f 1] = xs"
  shows "xs ! unat x = f x"
  using xor_span_linear [OF assms(1), of "unat x" 8] assms(2)
  by (simp add: upt_rec)

lemma and_1_odd: "x AND 1 = 1 \<longleftrightarrow> odd (x :: 'a::len word)"
  by (simp add: and_one_eq mod_2_eq_odd)

lemma and_ff_take_bit: "x AND 0xff = take_bit 8 (x :: 'a::len word)"
proof -
  have "(0xff :: 'a word) = mask 8" by (simp add: mask_eq_exp_minus_1)
  then show ?thesis by (simp add: take_bit_eq_mask)
qed

lemma funpow_8: "(f ^^ 8) x = f (f (f (f (f (f (f (f x)))))))"
  by (simp add: numeral_eq_Suc)

subsection \<open>Lists updated by index\<close>

text \<open>The exchange of two cells, the step of every ARC4 loop.\<close>

definition swap_cells :: "'a list \<Rightarrow> nat \<Rightarrow> nat \<Rightarrow> 'a list" where
  "swap_cells xs i j = xs[i := xs ! j, j := xs ! i]"

lemma length_swap_cells [simp]: "length (swap_cells xs i j) = length xs"
  by (simp add: swap_cells_def)

lemma mset_swap_cells:
  "i < length xs \<Longrightarrow> j < length xs \<Longrightarrow> mset (swap_cells xs i j) = mset xs"
  by (simp add: swap_cells_def mset_swap)

lemma distinct_swap_cells [simp]:
  "i < length xs \<Longrightarrow> j < length xs \<Longrightarrow> distinct (swap_cells xs i j) = distinct xs"
  by (simp add: swap_cells_def)

lemma set_swap_cells [simp]:
  "i < length xs \<Longrightarrow> j < length xs \<Longrightarrow> set (swap_cells xs i j) = set xs"
  using mset_swap_cells mset_eq_setD by metis

text \<open>A \<^verbatim>\<open>for\<close> loop with a \<^verbatim>\<open>break\<close> at the first index that satisfies a test.\<close>

lemma find_upt_Some:
  assumes "find P [a..<b] = Some i"
  shows "a \<le> i \<and> i < b \<and> P i"
  using assms by (auto simp: find_Some_iff)

lemma find_upt_None:
  "find P [a..<b] = None \<longleftrightarrow> (\<forall>i. a \<le> i \<and> i < b \<longrightarrow> \<not> P i)"
  by (auto simp: find_None_iff)

subsection \<open>Buffers\<close>

text \<open>\<open>slice_at i n xs\<close> reads \<open>n\<close> cells from offset \<open>i\<close>; \<open>put_at i ys xs\<close> overwrites them.\<close>

definition slice_at :: "nat \<Rightarrow> nat \<Rightarrow> 'a list \<Rightarrow> 'a list" where
  "slice_at i n xs = take n (drop i xs)"

definition put_at :: "nat \<Rightarrow> 'a list \<Rightarrow> 'a list \<Rightarrow> 'a list" where
  "put_at i ys xs = take i xs @ ys @ drop (i + length ys) xs"

lemma length_slice_at [simp]: "length (slice_at i n xs) = min n (length xs - i)"
  by (simp add: slice_at_def min.commute)

lemma length_put_at [simp]: "i + length ys \<le> length xs \<Longrightarrow> length (put_at i ys xs) = length xs"
  by (simp add: put_at_def)

lemma slice_put_same [simp]:
  "i + length ys \<le> length xs \<Longrightarrow> slice_at i (length ys) (put_at i ys xs) = ys"
  by (simp add: slice_at_def put_at_def)

lemma put_at_slice:
  assumes "i + n \<le> length xs"
  shows "put_at i (slice_at i n xs) xs = xs"
proof -
  have "take i xs @ take n (drop i xs) = take (i + n) xs" by (simp add: take_add)
  moreover have "length (take n (drop i xs)) = n" using assms by simp
  ultimately show ?thesis
    by (simp only: slice_at_def put_at_def append_assoc [symmetric] append_take_drop_id)
qed

lemma put_at_put_at [simp]:
  "length ys = length zs \<Longrightarrow> i + length ys \<le> length xs \<Longrightarrow>
   put_at i zs (put_at i ys xs) = put_at i zs xs"
  by (simp add: put_at_def)

subsection \<open>Loops that may fault\<close>

definition f_bind :: "c_fault + 'a \<Rightarrow> ('a \<Rightarrow> c_fault + 'b) \<Rightarrow> c_fault + 'b" where
  "f_bind r f = (case r of Inl e \<Rightarrow> Inl e | Inr x \<Rightarrow> f x)"

lemma f_bind_simps [simp]: "f_bind (Inl e) f = Inl e" "f_bind (Inr x) f = f x"
  by (simp_all add: f_bind_def)

text \<open>A \<^verbatim>\<open>for\<close> loop over the given indices that stops at the first fault.\<close>

fun fold_fault :: "('s \<Rightarrow> 'i \<Rightarrow> c_fault + 's) \<Rightarrow> 's \<Rightarrow> 'i list \<Rightarrow> c_fault + 's" where
  "fold_fault f s [] = Inr s"
| "fold_fault f s (i # is) = (case f s i of Inl e \<Rightarrow> Inl e | Inr s' \<Rightarrow> fold_fault f s' is)"

lemma fold_fault_foldl:
  assumes "I s" and "\<And>s i. I s \<Longrightarrow> i \<in> set is \<Longrightarrow> f s i = Inr (g s i) \<and> I (g s i)"
  shows "fold_fault f s is = Inr (foldl g s is) \<and> I (foldl g s is)"
  using assms
proof (induction "is" arbitrary: s)
  case (Cons i "is")
  then have "f s i = Inr (g s i)" "I (g s i)" by simp_all
  with Cons show ?case by simp
qed simp

lemma fold_fault_append: "fold_fault f s (xs @ ys) = f_bind (fold_fault f s xs) (\<lambda>s1. fold_fault f s1 ys)"
  by (induction xs arbitrary: s) (simp_all add: f_bind_def split: sum.split)

lemma fold_fault_snoc: "fold_fault f s (xs @ [x]) = f_bind (fold_fault f s xs) (\<lambda>s1. f s1 x)"
  by (simp add: fold_fault_append f_bind_def split: sum.split)

text \<open>Undoing the steps of a loop in the reverse order.\<close>

lemma foldl_undo:
  assumes "I s" and "\<And>s i. I s \<Longrightarrow> i \<in> set is \<Longrightarrow> I (g s i) \<and> h (g s i) i = s"
  shows "foldl h (foldl g s is) (rev is) = s"
  using assms
proof (induction "is" arbitrary: s)
  case (Cons i "is")
  then have "I (g s i)" "h (g s i) i = s" by simp_all
  moreover from this Cons have "foldl h (foldl g (g s i) is) (rev is) = g s i" by simp
  ultimately show ?case by simp
qed simp

subsection \<open>Runs that may fault or not return\<close>

text \<open>
  The result of code that follows pointers: \<open>None\<close> when it never returns, otherwise a fault or a value.
\<close>

type_synonym 'a run = "(c_fault + 'a) option"

definition r_return :: "'a \<Rightarrow> 'a run" where
  "r_return x = Some (Inr x)"

definition r_bind :: "'a run \<Rightarrow> ('a \<Rightarrow> 'b run) \<Rightarrow> 'b run" where
  "r_bind m f = (case m of None \<Rightarrow> None | Some (Inl e) \<Rightarrow> Some (Inl e) | Some (Inr x) \<Rightarrow> f x)"

text \<open>Code that returns, but may fault, inside such a run.\<close>

definition r_lift :: "c_fault + 'a \<Rightarrow> 'a run" where
  "r_lift r = Some r"

lemma r_bind_simps [simp]:
  "r_bind (r_return x) f = f x" "r_bind (Some (Inr x)) f = f x" "r_bind None f = None"
  "r_bind (Some (Inl e)) f = Some (Inl e)"
  by (simp_all add: r_bind_def r_return_def)

lemma r_lift_simps [simp]: "r_lift (Inr x) = r_return x" "r_lift (Inl e) = Some (Inl e)"
  by (simp_all add: r_lift_def r_return_def)

lemma r_return_inject [simp]: "r_return x = r_return y \<longleftrightarrow> x = y" "r_return x = Some (Inr y) \<longleftrightarrow> x = y"
  by (auto simp: r_return_def)

lemma r_bind_return [simp]: "r_bind m r_return = m"
  by (simp add: r_bind_def r_return_def split: option.split sum.split)

lemma r_bind_assoc: "r_bind (r_bind m f) g = r_bind m (\<lambda>x. r_bind (f x) g)"
  by (simp add: r_bind_def split: option.split sum.split)

lemma r_bind_eq_return:
  "r_bind m f = r_return y \<longleftrightarrow> (\<exists>x. m = r_return x \<and> f x = r_return y)"
  by (auto simp: r_bind_def r_return_def split: option.split sum.split)

end
