(* ===== verification/Arc4.thy ===== *)
theory Arc4
  imports Prelude
begin

text \<open>
  The ARC4 stream cipher of \<^verbatim>\<open>common/crypt_arc4.c\<close>: the context (\<^verbatim>\<open>ARC4_CTX_STRUC\<close> of
  \<^verbatim>\<open>include/crypt_arc4.h\<close>), the key schedule \<^verbatim>\<open>ARC4_INIT\<close>, the generator \<^verbatim>\<open>ARC4_Compute\<close> and
  \<^verbatim>\<open>ARC4_Discard_KeyLength\<close>. The context invariant \<open>arc4_wf\<close> (a permutation of the byte values
  and two indices inside it) is established by the key schedule and kept by the generator; the
  locale \<open>stream_cipher\<close> is the interface WEP and TKIP use.
\<close>

subsection \<open>The context\<close>

record arc4_ctx =
  BlockIndex1 :: u32
  BlockIndex2 :: u32
  KeyBlock :: "u8 list"

definition arc4_wf :: "arc4_ctx \<Rightarrow> bool" where
  "arc4_wf c \<longleftrightarrow> length (KeyBlock c) = 256 \<and> distinct (KeyBlock c) \<and>
     BlockIndex1 c < 256 \<and> BlockIndex2 c < 256"

subsection \<open>ARC4_INIT\<close>

text \<open>
  The body of the key-schedule loop at \<open>BlockIndex\<close>; the state is \<open>(KeyBlock, SWAPIndex)\<close>.
\<close>

definition arc4_ksa_step :: "bytes \<Rightarrow> nat \<Rightarrow> u8 list \<times> u32 \<Rightarrow> nat \<Rightarrow> u8 list \<times> u32" where
  "arc4_ksa_step key klen st b =
     (let blk = fst st; TempValue = blk ! b;
          swp = (snd st + ucast TempValue + ucast (key ! (b mod klen))) AND 0xff
      in (swap_cells blk b (unat swp), swp))"

text \<open>
  \<open>BlockIndex % KeyLength\<close> traps for an empty key, and the loop reads \<open>pKey[0 .. KeyLength-1]\<close>
  (as far as 256 rounds reach).
\<close>

definition ARC4_INIT :: "bytes \<Rightarrow> nat \<Rightarrow> c_fault + arc4_ctx" where
  "ARC4_INIT pKey KeyLength =
     (if KeyLength = 0 then Inl DivByZero
      else if length pKey < min KeyLength 256 then Inl OOBRead
      else Inr \<lparr>BlockIndex1 = 0, BlockIndex2 = 0,
             KeyBlock = fst (foldl (arc4_ksa_step pKey KeyLength)
                               (map word_of_nat [0..<256], 0) [0..<256])\<rparr>)"

subsection \<open>ARC4_Compute and ARC4_Discard_KeyLength\<close>

text \<open>The three statements both loops share: advance the indices and exchange two cells.\<close>

definition arc4_advance :: "arc4_ctx \<Rightarrow> arc4_ctx" where
  "arc4_advance c =
     (let i = (BlockIndex1 c + 1) AND 0xff;
          TempValue = KeyBlock c ! unat i;
          j = (BlockIndex2 c + ucast TempValue) AND 0xff
      in c\<lparr>BlockIndex1 := i, BlockIndex2 := j,
            KeyBlock := swap_cells (KeyBlock c) (unat i) (unat j)\<rparr>)"

text \<open>
  The key byte of the advanced context. \<open>TempValue\<close> still holds the old \<open>KeyBlock[BlockIndex1]\<close>,
  which the exchange has put at \<open>KeyBlock[BlockIndex2]\<close>.
\<close>

definition arc4_key_byte :: "arc4_ctx \<Rightarrow> u8" where
  "arc4_key_byte c =
     KeyBlock c ! unat (KeyBlock c ! unat (BlockIndex2 c) + KeyBlock c ! unat (BlockIndex1 c))"

fun ARC4_Compute :: "arc4_ctx \<Rightarrow> bytes \<Rightarrow> arc4_ctx \<times> bytes" where
  "ARC4_Compute c [] = (c, [])"
| "ARC4_Compute c (x # xs) =
     (let c1 = arc4_advance c; r = ARC4_Compute c1 xs
      in (fst r, (x XOR arc4_key_byte c1) # snd r))"

fun ARC4_Discard_KeyLength :: "arc4_ctx \<Rightarrow> nat \<Rightarrow> arc4_ctx" where
  "ARC4_Discard_KeyLength c 0 = c"
| "ARC4_Discard_KeyLength c (Suc n) = ARC4_Discard_KeyLength (arc4_advance c) n"

subsection \<open>The context invariant\<close>

lemma and_ff_less: "(x :: u32) AND 0xff < 256"
proof -
  have "x AND 0xff \<le> 0xff" by (rule word_and_le1)
  then show ?thesis by (rule le_less_trans) simp
qed

lemma unat_and_ff [simp]: "unat ((x :: u32) AND 0xff) < 256"
  using and_ff_less [of x] by (simp add: word_less_nat_alt)

lemma arc4_ksa_step_wf:
  assumes "length (fst st) = 256" "distinct (fst st)" "b < 256"
  shows "length (fst (arc4_ksa_step key klen st b)) = 256 \<and>
    distinct (fst (arc4_ksa_step key klen st b))"
  using assms by (simp add: arc4_ksa_step_def Let_def)

lemma arc4_ksa_wf:
  assumes "length (fst st) = 256" "distinct (fst st)" "\<forall>b\<in>set bs. b < 256"
  shows "length (fst (foldl (arc4_ksa_step key klen) st bs)) = 256 \<and>
    distinct (fst (foldl (arc4_ksa_step key klen) st bs))"
  using assms
proof (induction bs arbitrary: st)
  case Nil
  then show ?case by simp
next
  case (Cons b bs)
  with arc4_ksa_step_wf [of st b key klen] show ?case by simp
qed

lemma distinct_identity_block: "distinct (map word_of_nat [0..<256] :: u8 list)"
proof (subst distinct_map, intro conjI)
  show "inj_on (word_of_nat :: nat \<Rightarrow> u8) (set [0..<256])"
    by (rule inj_onI) (simp add: word_of_nat_eq_iff take_bit_nat_eq_self)
qed simp

lemma ARC4_INIT_wf:
  assumes "ARC4_INIT key klen = Inr c"
  shows "arc4_wf c"
  using assms
    arc4_ksa_wf [of "(map word_of_nat [0..<256], 0)" "[0..<256]" key klen]
    distinct_identity_block
  by (auto simp: ARC4_INIT_def arc4_wf_def simp del: upt_rec_numeral split: if_splits)

lemma arc4_advance_wf: "arc4_wf c \<Longrightarrow> arc4_wf (arc4_advance c)"
  by (simp add: arc4_wf_def arc4_advance_def Let_def and_ff_less)

lemma arc4_advance_set: "arc4_wf c \<Longrightarrow> set (KeyBlock (arc4_advance c)) = set (KeyBlock c)"
  by (simp add: arc4_wf_def arc4_advance_def Let_def)

lemma ARC4_Compute_wf: "arc4_wf c \<Longrightarrow> arc4_wf (fst (ARC4_Compute c xs))"
  by (induction c xs rule: ARC4_Compute.induct) (simp_all add: Let_def arc4_advance_wf)

lemma ARC4_Discard_wf: "arc4_wf c \<Longrightarrow> arc4_wf (ARC4_Discard_KeyLength c n)"
  by (induction c n rule: ARC4_Discard_KeyLength.induct) (simp_all add: arc4_advance_wf)

text \<open>
  The key byte as the C statements compute it: \<open>TempValue\<close> is read before the exchange.
\<close>

lemma arc4_key_byte_source:
  assumes "arc4_wf c"
  defines "i \<equiv> (BlockIndex1 c + 1) AND 0xff"
  defines "t \<equiv> KeyBlock c ! unat i"
  shows "arc4_key_byte (arc4_advance c) =
    KeyBlock (arc4_advance c) ! unat (t + KeyBlock (arc4_advance c) ! unat i)"
  using assms(1)
  by (simp add: arc4_key_byte_def arc4_advance_def Let_def swap_cells_def arc4_wf_def
      i_def t_def)

subsection \<open>The key stream\<close>

fun arc4_stream :: "arc4_ctx \<Rightarrow> nat \<Rightarrow> bytes" where
  "arc4_stream c 0 = []"
| "arc4_stream c (Suc n) = arc4_key_byte (arc4_advance c) # arc4_stream (arc4_advance c) n"

lemma length_arc4_stream [simp]: "length (arc4_stream c n) = n"
  by (induction c n rule: arc4_stream.induct) simp_all

lemma ARC4_Compute_stream:
  "ARC4_Compute c xs =
     (ARC4_Discard_KeyLength c (length xs), xor_bytes xs (arc4_stream c (length xs)))"
  by (induction c xs rule: ARC4_Compute.induct) (simp_all add: Let_def)

lemma length_ARC4_Compute [simp]: "length (snd (ARC4_Compute c xs)) = length xs"
  by (simp add: ARC4_Compute_stream)

lemma ARC4_Compute_append:
  "snd (ARC4_Compute c (xs @ ys)) =
     snd (ARC4_Compute c xs) @ snd (ARC4_Compute (fst (ARC4_Compute c xs)) ys)"
  by (induction c xs rule: ARC4_Compute.induct) (simp_all add: Let_def)

lemma ARC4_Compute_nth:
  "n < length xs \<Longrightarrow> snd (ARC4_Compute c xs) ! n = xs ! n XOR arc4_stream c (length xs) ! n"
  by (simp add: ARC4_Compute_stream xor_bytes_def)

lemma ARC4_Discard_stream:
  "arc4_stream (ARC4_Discard_KeyLength c n) m = drop n (arc4_stream c (n + m))"
  by (induction c n rule: ARC4_Discard_KeyLength.induct) simp_all

subsection \<open>The interface of a stream cipher\<close>

text \<open>
  What WEP relies on: running the cipher twice from the same context gives the text back, the
  length is kept, and one output byte depends on the input byte of the same position only.
\<close>

locale stream_cipher =
  fixes crypt :: "'c \<Rightarrow> bytes \<Rightarrow> bytes"
  assumes crypt_crypt: "crypt c (crypt c xs) = xs"
    and length_crypt: "length (crypt c xs) = length xs"
    and crypt_pointwise: "n < length xs \<Longrightarrow> n < length ys \<Longrightarrow> length xs = length ys \<Longrightarrow>
          xs ! n = ys ! n \<longleftrightarrow> crypt c xs ! n = crypt c ys ! n"
begin

lemma crypt_inj: "crypt c xs = crypt c ys \<Longrightarrow> xs = ys"
  by (metis crypt_crypt)

lemma crypt_differs_at:
  assumes "n < length xs" "xs[n := b] \<noteq> xs"
  shows "\<exists>b'. crypt c (xs[n := b]) = (crypt c xs)[n := b'] \<and> b' \<noteq> crypt c xs ! n"
proof (intro exI conjI)
  let ?ys = "xs[n := b]"
  show "crypt c ?ys = (crypt c xs)[n := crypt c ?ys ! n]"
  proof (rule nth_equalityI)
    fix k assume k: "k < length (crypt c ?ys)"
    show "crypt c ?ys ! k = (crypt c xs)[n := crypt c ?ys ! n] ! k"
      using k crypt_pointwise [of k ?ys xs c] by (cases "k = n") (auto simp: length_crypt)
  qed (simp add: length_crypt)
  show "crypt c ?ys ! n \<noteq> crypt c xs ! n"
    using assms crypt_pointwise [of n ?ys xs c] by (metis length_list_update list_update_id
        nth_list_update_eq)
qed

end

interpretation arc4: stream_cipher "\<lambda>c xs. snd (ARC4_Compute c xs)"
  by unfold_locales (simp_all add: ARC4_Compute_stream xor_bytes_def xor_bytes_cancel
      [unfolded xor_bytes_def])

end
