(* ===== verification/Wep.thy ===== *)
theory Wep
  imports Arc4
begin

text \<open>
  WEP encapsulation of \<^verbatim>\<open>common/cmm_wep.c\<close>: the table-driven CRC-32 (\<^verbatim>\<open>RTMP_CALC_FCS32\<close> over
  \<^verbatim>\<open>FCSTAB_32\<close>), the per-frame key set-up, the IV header and the two data paths
  \<^verbatim>\<open>RTMPSoftEncryptWEP\<close> and \<^verbatim>\<open>RTMPSoftDecryptWEP\<close>, which work in place on a caller's buffer.
  The CRC is proved equal to the bit-serial definition, and the two data paths to be inverse.
\<close>

subsection \<open>CRC-32\<close>

definition FCSTAB_32 :: "u32 list" where
  "FCSTAB_32 =
    [0x00000000, 0x77073096, 0xee0e612c, 0x990951ba,
     0x076dc419, 0x706af48f, 0xe963a535, 0x9e6495a3,
     0x0edb8832, 0x79dcb8a4, 0xe0d5e91e, 0x97d2d988,
     0x09b64c2b, 0x7eb17cbd, 0xe7b82d07, 0x90bf1d91,
     0x1db71064, 0x6ab020f2, 0xf3b97148, 0x84be41de,
     0x1adad47d, 0x6ddde4eb, 0xf4d4b551, 0x83d385c7,
     0x136c9856, 0x646ba8c0, 0xfd62f97a, 0x8a65c9ec,
     0x14015c4f, 0x63066cd9, 0xfa0f3d63, 0x8d080df5,
     0x3b6e20c8, 0x4c69105e, 0xd56041e4, 0xa2677172,
     0x3c03e4d1, 0x4b04d447, 0xd20d85fd, 0xa50ab56b,
     0x35b5a8fa, 0x42b2986c, 0xdbbbc9d6, 0xacbcf940,
     0x32d86ce3, 0x45df5c75, 0xdcd60dcf, 0xabd13d59,
     0x26d930ac, 0x51de003a, 0xc8d75180, 0xbfd06116,
     0x21b4f4b5, 0x56b3c423, 0xcfba9599, 0xb8bda50f,
     0x2802b89e, 0x5f058808, 0xc60cd9b2, 0xb10be924,
     0x2f6f7c87, 0x58684c11, 0xc1611dab, 0xb6662d3d,
     0x76dc4190, 0x01db7106, 0x98d220bc, 0xefd5102a,
     0x71b18589, 0x06b6b51f, 0x9fbfe4a5, 0xe8b8d433,
     0x7807c9a2, 0x0f00f934, 0x9609a88e, 0xe10e9818,
     0x7f6a0dbb, 0x086d3d2d, 0x91646c97, 0xe6635c01,
     0x6b6b51f4, 0x1c6c6162, 0x856530d8, 0xf262004e,
     0x6c0695ed, 0x1b01a57b, 0x8208f4c1, 0xf50fc457,
     0x65b0d9c6, 0x12b7e950, 0x8bbeb8ea, 0xfcb9887c,
     0x62dd1ddf, 0x15da2d49, 0x8cd37cf3, 0xfbd44c65,
     0x4db26158, 0x3ab551ce, 0xa3bc0074, 0xd4bb30e2,
     0x4adfa541, 0x3dd895d7, 0xa4d1c46d, 0xd3d6f4fb,
     0x4369e96a, 0x346ed9fc, 0xad678846, 0xda60b8d0,
     0x44042d73, 0x33031de5, 0xaa0a4c5f, 0xdd0d7cc9,
     0x5005713c, 0x270241aa, 0xbe0b1010, 0xc90c2086,
     0x5768b525, 0x206f85b3, 0xb966d409, 0xce61e49f,
     0x5edef90e, 0x29d9c998, 0xb0d09822, 0xc7d7a8b4,
     0x59b33d17, 0x2eb40d81, 0xb7bd5c3b, 0xc0ba6cad,
     0xedb88320, 0x9abfb3b6, 0x03b6e20c, 0x74b1d29a,
     0xead54739, 0x9dd277af, 0x04db2615, 0x73dc1683,
     0xe3630b12, 0x94643b84, 0x0d6d6a3e, 0x7a6a5aa8,
     0xe40ecf0b, 0x9309ff9d, 0x0a00ae27, 0x7d079eb1,
     0xf00f9344, 0x8708a3d2, 0x1e01f268, 0x6906c2fe,
     0xf762575d, 0x806567cb, 0x196c3671, 0x6e6b06e7,
     0xfed41b76, 0x89d32be0, 0x10da7a5a, 0x67dd4acc,
     0xf9b9df6f, 0x8ebeeff9, 0x17b7be43, 0x60b08ed5,
     0xd6d6a3e8, 0xa1d1937e, 0x38d8c2c4, 0x4fdff252,
     0xd1bb67f1, 0xa6bc5767, 0x3fb506dd, 0x48b2364b,
     0xd80d2bda, 0xaf0a1b4c, 0x36034af6, 0x41047a60,
     0xdf60efc3, 0xa867df55, 0x316e8eef, 0x4669be79,
     0xcb61b38c, 0xbc66831a, 0x256fd2a0, 0x5268e236,
     0xcc0c7795, 0xbb0b4703, 0x220216b9, 0x5505262f,
     0xc5ba3bbe, 0xb2bd0b28, 0x2bb45a92, 0x5cb36a04,
     0xc2d7ffa7, 0xb5d0cf31, 0x2cd99e8b, 0x5bdeae1d,
     0x9b64c2b0, 0xec63f226, 0x756aa39c, 0x026d930a,
     0x9c0906a9, 0xeb0e363f, 0x72076785, 0x05005713,
     0x95bf4a82, 0xe2b87a14, 0x7bb12bae, 0x0cb61b38,
     0x92d28e9b, 0xe5d5be0d, 0x7cdcefb7, 0x0bdbdf21,
     0x86d3d2d4, 0xf1d4e242, 0x68ddb3f8, 0x1fda836e,
     0x81be16cd, 0xf6b9265b, 0x6fb077e1, 0x18b74777,
     0x88085ae6, 0xff0f6a70, 0x66063bca, 0x11010b5c,
     0x8f659eff, 0xf862ae69, 0x616bffd3, 0x166ccf45,
     0xa00ae278, 0xd70dd2ee, 0x4e048354, 0x3903b3c2,
     0xa7672661, 0xd06016f7, 0x4969474d, 0x3e6e77db,
     0xaed16a4a, 0xd9d65adc, 0x40df0b66, 0x37d83bf0,
     0xa9bcae53, 0xdebb9ec5, 0x47b2cf7f, 0x30b5ffe9,
     0xbdbdf21c, 0xcabac28a, 0x53b39330, 0x24b4a3a6,
     0xbad03605, 0xcdd70693, 0x54de5729, 0x23d967bf,
     0xb3667a2e, 0xc4614ab8, 0x5d681b02, 0x2a6f2b94,
     0xb40bbe37, 0xc30c8ea1, 0x5a05df1b, 0x2d02ef8d]"

definition fcs32_step :: "u32 \<Rightarrow> u8 \<Rightarrow> u32" where
  "fcs32_step Fcs c = drop_bit 8 Fcs XOR FCSTAB_32 ! unat ((Fcs XOR ucast c) AND 0xff)"

text \<open>
  \<^verbatim>\<open>while (Len--)\<close>: a negative length never reaches 0 and runs off the buffer.
\<close>

fun RTMP_CALC_FCS32 :: "u32 \<Rightarrow> bytes \<Rightarrow> int \<Rightarrow> c_fault + u32" where
  "RTMP_CALC_FCS32 Fcs [] Len = (if Len = 0 then Inr Fcs else Inl OOBRead)"
| "RTMP_CALC_FCS32 Fcs (c # cp) Len =
     (if Len = 0 then Inr Fcs else RTMP_CALC_FCS32 (fcs32_step Fcs c) cp (Len - 1))"

subsection \<open>Key set-up and IV header\<close>

text \<open>
  The 16-byte seed is allocated per call. If that allocation fails the function returns without
  touching the context (\<open>c0\<close>, fresh memory of the caller). A key of more than 13 bytes would
  be copied past the end of the seed.
\<close>

definition RTMPInitWepEngine ::
    "bool \<Rightarrow> bytes \<Rightarrow> bytes \<Rightarrow> nat \<Rightarrow> arc4_ctx \<Rightarrow> c_fault + arc4_ctx" where
  "RTMPInitWepEngine kmalloc_ok pIv pKey KeyLen c0 =
     (if \<not> kmalloc_ok then Inr c0
      else if length pIv < 3 \<or> length pKey < KeyLen then Inl OOBRead
      else if 16 < 3 + KeyLen then Inl OOBWrite
      else ARC4_INIT (take 3 pIv @ take KeyLen pKey @ replicate (13 - KeyLen) 0) (3 + KeyLen))"

definition RTMPConstructWEPIVHdr :: "u8 \<Rightarrow> bytes \<Rightarrow> c_fault + bytes" where
  "RTMPConstructWEPIVHdr key_idx pn =
     (if length pn < 3 then Inl OOBRead else Inr (take 3 pn @ [push_bit 6 key_idx]))"

text \<open>The two members of \<^verbatim>\<open>CIPHER_KEY\<close> (\<^verbatim>\<open>include/wpa_cmm.h\<close>) that WEP reads.\<close>

record cipher_key =
  ck_Key :: bytes
  ck_KeyLen :: nat

subsection \<open>RTMPSoftEncryptWEP\<close>

text \<open>
  \<open>ctx_ok\<close> and \<open>seed_ok\<close> say whether the two allocations of the call succeed, \<open>junk\<close> is what the
  freshly allocated context holds. The result is the return value and the data buffer.
\<close>

definition RTMPSoftEncryptWEP ::
    "bool \<Rightarrow> bool \<Rightarrow> arc4_ctx \<Rightarrow> bytes \<Rightarrow> cipher_key \<Rightarrow> bytes \<Rightarrow> nat \<Rightarrow> c_fault + bool \<times> bytes" where
  "RTMPSoftEncryptWEP ctx_ok seed_ok junk pIvHdr pKey pData DataByteCnt =
     (if \<not> ctx_ok then Inr (False, pData)
      else if ck_KeyLen pKey = 0 then Inr (False, pData)
      else case RTMPInitWepEngine seed_ok pIvHdr (ck_Key pKey) (ck_KeyLen pKey) junk of
        Inl e \<Rightarrow> Inl e
      | Inr ctx \<Rightarrow>
        (case RTMP_CALC_FCS32 0xffffffff pData (int DataByteCnt) of
           Inl e \<Rightarrow> Inl e
         | Inr fcs \<Rightarrow>
           if length pData < DataByteCnt + 4 then Inl OOBWrite
           else let icv = le32_bytes (fcs XOR 0xffffffff);
                    out = snd (ARC4_Compute ctx (take DataByteCnt pData @ icv))
                in Inr (True, out @ drop (DataByteCnt + 4) pData)))"

subsection \<open>RTMPSoftDecryptWEP\<close>

text \<open>
  The byte counts are \<^verbatim>\<open>uint16_t\<close>, and both subtractions wrap. The plaintext is written over the
  IV header, four bytes below the byte being read, so no unread byte is overwritten.
\<close>

definition RTMPSoftDecryptWEP ::
    "bool \<Rightarrow> bool \<Rightarrow> arc4_ctx \<Rightarrow> cipher_key \<Rightarrow> bytes \<Rightarrow> u16 \<Rightarrow> c_fault + bool \<times> bytes \<times> u16" where
  "RTMPSoftDecryptWEP ctx_ok seed_ok junk pKey pData DataByteCnt =
     (if \<not> ctx_ok then Inr (False, pData, DataByteCnt)
      else if ck_KeyLen pKey = 0 then Inr (False, pData, DataByteCnt)
      else case RTMPInitWepEngine seed_ok pData (ck_Key pKey) (ck_KeyLen pKey) junk of
        Inl e \<Rightarrow> Inl e
      | Inr ctx \<Rightarrow>
        (let ciphertext_len = DataByteCnt - 4 in
         if DataByteCnt \<le> 4 then Inr (False, pData, DataByteCnt)
         else if length pData < 4 + unat ciphertext_len then Inl OOBRead
         else
           let out = snd (ARC4_Compute ctx (take (unat ciphertext_len) (drop 4 pData)));
               buf = out @ drop (unat ciphertext_len) pData;
               plaintext_len = ciphertext_len - 4
           in if length buf < unat plaintext_len + 4 then Inl OOBRead
              else let trailfcs = le32_word (take 4 (drop (unat plaintext_len) buf)) in
                (case RTMP_CALC_FCS32 0xffffffff buf (uint plaintext_len) of
                   Inl e \<Rightarrow> Inl e
                 | Inr crc \<Rightarrow>
                   if crc XOR 0xffffffff \<noteq> trailfcs then Inr (False, buf, DataByteCnt)
                   else Inr (True, buf, plaintext_len))))"

subsection \<open>The table is the polynomial\<close>

text \<open>One step of the reflected CRC-32 shift register, polynomial 0x04C11DB7.\<close>

definition crc_bit :: "u32 \<Rightarrow> u32" where
  "crc_bit x = (if x AND 1 = 1 then drop_bit 1 x XOR 0xEDB88320 else drop_bit 1 x)"

text \<open>The reference: shift the eight bits of every byte through the register.\<close>

definition crc_byte_ref :: "u32 \<Rightarrow> u8 \<Rightarrow> u32" where
  "crc_byte_ref r c = (crc_bit ^^ 8) (r XOR ucast c)"

lemma crc_bit_odd:
  "crc_bit x = (if odd x then drop_bit 1 x XOR 0xEDB88320 else drop_bit 1 x)"
  by (simp add: crc_bit_def and_1_odd)

lemma crc_bit_xor: "crc_bit (x XOR y) = crc_bit x XOR crc_bit y"
  by (cases "odd x"; cases "odd y") (simp_all add: crc_bit_odd even_xor_iff ac_simps)

lemma crc_bit_pow_xor: "(crc_bit ^^ n) (x XOR y) = (crc_bit ^^ n) x XOR (crc_bit ^^ n) y"
  by (induction n) (simp_all add: crc_bit_xor)

lemma crc_byte_linear: "xor_linear (\<lambda>c :: u8. (crc_bit ^^ 8) (ucast c))"
  by (simp add: xor_linear_def unsigned_xor_eq crc_bit_pow_xor)

lemma crc_byte_basis:
  "map (\<lambda>c :: u8. (crc_bit ^^ 8) (ucast c)) [128, 64, 32, 16, 8, 4, 2, 1] =
   [0xedb88320, 0x76dc4190, 0x3b6e20c8, 0x1db71064, 0x0edb8832, 0x076dc419, 0xee0e612c, 0x77073096]"
  by (simp add: funpow_8 crc_bit_def)

lemma FCSTAB_32_span:
  "xor_span [0xedb88320, 0x76dc4190, 0x3b6e20c8, 0x1db71064, 0x0edb8832, 0x076dc419,
     0xee0e612c, 0x77073096] = FCSTAB_32"
  by (simp add: FCSTAB_32_def)

lemma FCSTAB_32_nth: "FCSTAB_32 ! unat (c :: u8) = (crc_bit ^^ 8) (ucast c)"
  using xor_span_nth [OF crc_byte_linear] crc_byte_basis FCSTAB_32_span by simp

lemma length_FCSTAB_32 [simp]: "length FCSTAB_32 = 256"
  by (simp add: FCSTAB_32_span [symmetric] del: xor_span.simps)

subsection \<open>The table-driven CRC is the bit-serial CRC\<close>

lemma crc_bit_pow_drop: "take_bit n x = 0 \<Longrightarrow> (crc_bit ^^ n) x = drop_bit n x"
proof (induction n arbitrary: x)
  case 0
  then show ?case by simp
next
  case (Suc n)
  have bits: "\<not> bit x k" if "k < Suc n" for k
    using Suc.prems that by (metis bit_take_bit_iff bit_0_eq bot_apply bot_bool_def)
  then have "even x" using bit_0 [of x] by blast
  moreover have "take_bit n (drop_bit 1 x) = 0"
    using bits by (auto intro!: bit_word_eqI simp: bit_take_bit_iff bit_drop_bit_eq)
  moreover have "crc_bit x = drop_bit 1 x" if "even x" using that by (simp add: crc_bit_odd)
  ultimately have "(crc_bit ^^ Suc n) x = drop_bit n (drop_bit 1 x)"
    using Suc.IH [of "drop_bit 1 x"] by (simp only: funpow_Suc_right o_apply)
  then show ?case by simp
qed

lemma split_low_byte:
  "(x :: u32) = push_bit 8 (drop_bit 8 x) XOR ucast (ucast x :: u8)"
  by (rule bit_word_eqI) (auto simp: bit_simps)

lemma unat_low_byte: "unat ((x :: u32) AND 0xff) = unat (ucast x :: u8)"
  by (simp add: and_ff_take_bit unsigned_take_bit_eq unsigned_ucast_eq)

lemma bit_u8_ge: "8 \<le> n \<Longrightarrow> \<not> bit (c :: u8) n"
  using bit_imp_le_length [of c n] by auto

lemma bit_u32_ge: "24 \<le> n \<Longrightarrow> \<not> bit (x :: u32) (8 + n)"
  using bit_imp_le_length [of x "8 + n"] by auto

lemma fcs32_step_ref: "fcs32_step Fcs c = crc_byte_ref Fcs c"
proof -
  let ?z = "Fcs XOR ucast c :: u32"
  have "(crc_bit ^^ 8) ?z =
      (crc_bit ^^ 8) (push_bit 8 (drop_bit 8 ?z)) XOR (crc_bit ^^ 8) (ucast (ucast ?z :: u8))"
    by (metis split_low_byte crc_bit_pow_xor)
  also have "(crc_bit ^^ 8) (push_bit 8 (drop_bit 8 ?z)) = drop_bit 8 Fcs"
    by (subst crc_bit_pow_drop)
      (auto intro!: bit_word_eqI simp: bit_simps bit_u8_ge bit_u32_ge,
       metis bit_u32_ge not_less)
  finally show ?thesis
    by (simp add: crc_byte_ref_def fcs32_step_def unat_low_byte FCSTAB_32_nth)
qed

lemma RTMP_CALC_FCS32_foldl:
  "RTMP_CALC_FCS32 Fcs cp Len =
     (if 0 \<le> Len \<and> Len \<le> int (length cp)
      then Inr (foldl fcs32_step Fcs (take (nat Len) cp)) else Inl OOBRead)"
proof (induction Fcs cp Len rule: RTMP_CALC_FCS32.induct)
  case (2 Fcs c cp Len)
  show ?case
  proof (cases "1 \<le> Len")
    case True
    then have "nat Len = Suc (nat (Len - 1))" by simp
    with 2 True show ?thesis by simp
  next
    case False
    with 2 show ?thesis by auto
  qed
qed auto

subsection \<open>The CRC tells single-byte corruptions apart\<close>

lemma crc_bit_eq_0: "crc_bit x = 0 \<Longrightarrow> x = 0"
proof (cases "odd x")
  case True
  assume "crc_bit x = 0"
  with True have "drop_bit 1 x = 0xEDB88320"
    by (simp add: crc_bit_odd) (metis xor_cancel_right xor.left_neutral)
  then have "bit (drop_bit 1 x) 31 = bit (0xEDB88320 :: u32) 31" by simp
  then have "bit x 32" by (simp add: bit_drop_bit_eq)
  then show ?thesis using bit_imp_le_length [of x 32] by simp
next
  case False
  assume "crc_bit x = 0"
  with False have d: "drop_bit 1 x = 0" by (simp add: crc_bit_odd)
  show ?thesis
  proof (rule bit_word_eqI)
    fix n
    show "bit x n = bit 0 n"
    proof (cases n)
      case 0
      with False show ?thesis by (simp add: bit_0)
    next
      case (Suc k)
      with d have "\<not> bit (drop_bit 1 x) k" by simp
      with Suc show ?thesis by (simp add: bit_drop_bit_eq)
    qed
  qed
qed

lemma crc_bit_inj: "crc_bit x = crc_bit y \<longleftrightarrow> x = y"
proof
  assume "crc_bit x = crc_bit y"
  then have "crc_bit (x XOR y) = 0" by (simp add: crc_bit_xor)
  then have "x XOR y = 0" by (rule crc_bit_eq_0)
  then show "x = y" by (metis xor_cancel_left xor.right_neutral)
qed simp

lemma crc_bit_pow_inj: "(crc_bit ^^ n) x = (crc_bit ^^ n) y \<longleftrightarrow> x = y"
  by (induction n) (simp_all add: crc_bit_inj)

lemma ucast_u8_u32_inj: "(ucast (c :: u8) :: u32) = ucast d \<longleftrightarrow> c = d"
proof
  assume eq: "(ucast c :: u32) = ucast d"
  show "c = d"
  proof (rule bit_word_eqI)
    fix n assume "n < LENGTH(8)"
    moreover have "bit (ucast c :: u32) n = bit (ucast d :: u32) n" by (simp add: eq)
    ultimately show "bit c n = bit d n" by (simp add: bit_simps)
  qed
qed simp

lemma fcs32_step_inj:
  shows fcs32_step_inj_fcs: "fcs32_step f c = fcs32_step g c \<longleftrightarrow> f = g"
    and fcs32_step_inj_byte: "fcs32_step f c = fcs32_step f d \<longleftrightarrow> c = d"
  by (simp_all add: fcs32_step_ref crc_byte_ref_def crc_bit_pow_inj ucast_u8_u32_inj)

lemma foldl_fcs32_inj: "foldl fcs32_step f xs = foldl fcs32_step g xs \<longleftrightarrow> f = g"
  by (induction xs arbitrary: f g) (simp_all add: fcs32_step_inj_fcs)

lemma fcs32_detects_byte:
  assumes "n < length xs" and "b \<noteq> xs ! n"
  shows "foldl fcs32_step f (xs[n := b]) \<noteq> foldl fcs32_step f xs"
proof -
  let ?g = "foldl fcs32_step f (take n xs)"
  have "foldl fcs32_step f xs = foldl fcs32_step (fcs32_step ?g (xs ! n)) (drop (Suc n) xs)"
    by (subst id_take_nth_drop [OF assms(1)]) (simp only: foldl_append foldl.simps)
  moreover have "foldl fcs32_step f (xs[n := b]) =
      foldl fcs32_step (fcs32_step ?g b) (drop (Suc n) xs)"
    by (subst upd_conv_take_nth_drop [OF assms(1)]) (simp only: foldl_append foldl.simps)
  ultimately show ?thesis
    using assms(2) by (simp add: foldl_fcs32_inj fcs32_step_inj_byte)
qed

subsection \<open>The data paths\<close>

definition wep_key_ok :: "cipher_key \<Rightarrow> bool" where
  "wep_key_ok k \<longleftrightarrow> 0 < ck_KeyLen k \<and> ck_KeyLen k \<le> 13 \<and> ck_KeyLen k \<le> length (ck_Key k)"

lemma wep_engine_eq:
  assumes "wep_key_ok k" "3 \<le> length iv"
  shows "RTMPInitWepEngine True iv (ck_Key k) (ck_KeyLen k) c0 =
    ARC4_INIT (take 3 iv @ take (ck_KeyLen k) (ck_Key k) @ replicate (13 - ck_KeyLen k) 0)
      (3 + ck_KeyLen k)"
  using assms by (auto simp: RTMPInitWepEngine_def wep_key_ok_def)

lemma wep_engine_Inr:
  assumes "wep_key_ok k" "3 \<le> length iv"
  shows "\<exists>c. RTMPInitWepEngine True iv (ck_Key k) (ck_KeyLen k) c0 = Inr c \<and> arc4_wf c"
proof -
  have "\<exists>c. RTMPInitWepEngine True iv (ck_Key k) (ck_KeyLen k) c0 = Inr c"
    using assms by (simp add: wep_engine_eq ARC4_INIT_def wep_key_ok_def)
  with assms ARC4_INIT_wf show ?thesis by (auto simp: wep_engine_eq)
qed

text \<open>The sealed body: the text and its ICV, run through the key stream.\<close>

definition wep_icv :: "bytes \<Rightarrow> bytes" where
  "wep_icv data = le32_bytes (foldl fcs32_step 0xffffffff data XOR 0xffffffff)"

lemma length_wep_icv [simp]: "length (wep_icv data) = 4"
  by (simp add: wep_icv_def)

lemma wep_encrypt_eq:
  assumes "wep_key_ok k" "3 \<le> length iv" "4 \<le> length room"
    and "RTMPInitWepEngine True iv (ck_Key k) (ck_KeyLen k) junk = Inr ctx"
  shows "RTMPSoftEncryptWEP True True junk iv k (data @ room) (length data) =
    Inr (True, snd (ARC4_Compute ctx (data @ wep_icv data)) @ drop 4 room)"
  using assms
  by (simp add: RTMPSoftEncryptWEP_def RTMP_CALC_FCS32_foldl wep_key_ok_def wep_icv_def Let_def)

lemma wep_decrypt_eq:
  assumes key: "wep_key_ok k" and iv: "length iv = 4"
    and n: "length body = n + 4" "n + 8 < 65536"
    and ctx: "RTMPInitWepEngine True iv (ck_Key k) (ck_KeyLen k) junk = Inr ctx"
  defines "p \<equiv> snd (ARC4_Compute ctx body)"
  defines "buf \<equiv> p @ drop (n + 4) (iv @ body)"
  shows "RTMPSoftDecryptWEP True True junk k (iv @ body) (word_of_nat (n + 8)) =
    (if wep_icv (take n p) = drop n p then Inr (True, buf, word_of_nat n)
     else Inr (False, buf, word_of_nat (n + 8)))"
proof -
  have ctx': "RTMPInitWepEngine True (iv @ body) (ck_Key k) (ck_KeyLen k) junk = Inr ctx"
    using ctx key iv by (simp add: wep_engine_eq)
  have len: "word_of_nat (n + 8) - 4 = (word_of_nat (n + 4) :: u16)"
      "word_of_nat (n + 4) - 4 = (word_of_nat n :: u16)"
    by simp_all
  have un: "unat (word_of_nat (n + 4) :: u16) = n + 4" "unat (word_of_nat n :: u16) = n"
      "unat (word_of_nat (n + 8) :: u16) = n + 8"
    using n by (simp_all only: unat_of_nat_u16)
  have gt: "\<not> (word_of_nat (n + 8) :: u16) \<le> 4"
    by (simp only: word_le_nat_alt un) simp
  have lp: "length p = n + 4" by (simp add: p_def n)
  have ui: "uint (word_of_nat n :: u16) = int n"
    by (simp only: uint_nat un)
  have trail: "take 4 (drop n buf) = drop n p" and body: "take n buf = take n p"
    by (simp_all add: buf_def lp)
  have icv: "foldl fcs32_step 0xffffffff (take n p) XOR 0xffffffff = le32_word (drop n p)
      \<longleftrightarrow> wep_icv (take n p) = drop n p"
    using le32_word_inj [of "wep_icv (take n p)" "drop n p"] by (simp add: wep_icv_def lp)
  have out: "snd (ARC4_Compute ctx (take (n + 4) (drop 4 (iv @ body)))) = p"
    using iv n by (simp add: p_def)
  show ?thesis
    using key n(1) iv
    by (simp only: RTMPSoftDecryptWEP_def ctx' len un gt ui out Let_def sum.case buf_def [symmetric]
        trail not_True_eq_False if_False RTMP_CALC_FCS32_foldl)
      (simp add: wep_key_ok_def buf_def lp icv)
qed

lemma wep_body_icv:
  assumes "length body = n + 4"
  shows "wep_icv (take n (snd (ARC4_Compute ctx body))) = drop n (snd (ARC4_Compute ctx body))
    \<longleftrightarrow> (\<exists>data. length data = n \<and> body = snd (ARC4_Compute ctx (data @ wep_icv data)))"
    (is "?l \<longleftrightarrow> ?r")
proof
  let ?p = "snd (ARC4_Compute ctx body)"
  assume ?l
  then have "body = snd (ARC4_Compute ctx (take n ?p @ wep_icv (take n ?p)))"
    by (simp add: arc4.crypt_crypt)
  moreover have "length (take n ?p) = n" using assms by simp
  ultimately show ?r by blast
next
  assume ?r
  then show ?l by (auto simp: arc4.crypt_crypt)
qed

text \<open>One changed byte of the sealed body is one changed byte of text or ICV.\<close>

lemma wep_icv_detects:
  assumes "i < length data + 4" and "b \<noteq> (data @ wep_icv data) ! i"
    and "p = (data @ wep_icv data)[i := b]"
  shows "wep_icv (take (length data) p) \<noteq> drop (length data) p"
proof (cases "i < length data")
  case True
  then have p: "p = data[i := b] @ wep_icv data" using assms(3) by (simp add: list_update_append)
  have "foldl fcs32_step 0xffffffff (data[i := b]) \<noteq> foldl fcs32_step 0xffffffff data"
    using True assms(2) by (intro fcs32_detects_byte) (simp_all add: nth_append)
  then show ?thesis
    by (simp add: p wep_icv_def) (metis le32_word_bytes xor_right_inj)
next
  case False
  then have p: "p = data @ (wep_icv data)[i - length data := b]"
    using assms(3) by (simp add: list_update_append)
  have "(wep_icv data)[i - length data := b] ! (i - length data) \<noteq> wep_icv data ! (i - length data)"
    using False assms(1,2) by (simp add: nth_append)
  then show ?thesis by (auto simp: p)
qed

subsection \<open>Properties\<close>

text \<open>The table-driven \<^verbatim>\<open>RTMP_CALC_FCS32\<close> computes the bit-serial CRC-32 (reflected polynomial
  0x04C11DB7) of the first \<open>Len\<close> bytes, and faults exactly when \<open>Len\<close> is not a length inside the
  buffer.\<close>

theorem RTMP_CALC_FCS32_is_crc32:
  "RTMP_CALC_FCS32 Fcs cp Len =
     (if 0 \<le> Len \<and> Len \<le> int (length cp)
      then Inr (foldl crc_byte_ref Fcs (take (nat Len) cp)) else Inl OOBRead)"
proof -
  have "fcs32_step = crc_byte_ref" by (intro ext) (rule fcs32_step_ref)
  then show ?thesis using RTMP_CALC_FCS32_foldl by simp
qed

text \<open>A frame sealed by \<^verbatim>\<open>RTMPSoftEncryptWEP\<close> and put behind its IV header is opened by
  \<^verbatim>\<open>RTMPSoftDecryptWEP\<close> under the same key: it reports success, leaves the text at the start of the
  buffer and returns the text's length. The caller's buffer needs four spare bytes for the ICV.\<close>

theorem wep_roundtrip:
  assumes "wep_key_ok k" and "length iv = 4" and "length data + 8 < 65536" and "4 \<le> length room"
  shows "\<exists>sealed buf.
    RTMPSoftEncryptWEP True True junk iv k (data @ room) (length data) =
      Inr (True, sealed @ drop 4 room) \<and> length sealed = length data + 4 \<and>
    RTMPSoftDecryptWEP True True junk' k (iv @ sealed) (word_of_nat (length data + 8)) =
      Inr (True, buf, word_of_nat (length data)) \<and> take (length data) buf = data"
proof -
  obtain ctx where "RTMPInitWepEngine True iv (ck_Key k) (ck_KeyLen k) junk = Inr ctx"
    using wep_engine_Inr [OF assms(1), of iv junk] assms(2) by auto
  then have ctx: "RTMPInitWepEngine True iv (ck_Key k) (ck_KeyLen k) j = Inr ctx" for j
    using assms(1,2) by (simp add: wep_engine_eq)
  let ?s = "snd (ARC4_Compute ctx (data @ wep_icv data))"
  have "snd (ARC4_Compute ctx ?s) = data @ wep_icv data" by (rule arc4.crypt_crypt)
  then show ?thesis
    using wep_encrypt_eq [OF assms(1) _ assms(4) ctx [of junk]]
      wep_decrypt_eq [OF assms(1,2) _ assms(3) ctx [of junk'], of ?s] assms(2)
    by (intro exI [of _ ?s] exI [of _ "data @ wep_icv data @ drop (length data) ?s"]) simp
qed

lemma wep_roundtrip_witness:
  "\<exists>sealed buf.
    RTMPSoftEncryptWEP True True \<lparr>BlockIndex1 = 0, BlockIndex2 = 0, KeyBlock = []\<rparr> [1, 2, 3, 0]
        \<lparr>ck_Key = [1, 2, 3, 4, 5], ck_KeyLen = 5\<rparr> ([72, 105] @ [0, 0, 0, 0]) (length [72, 105 :: u8]) =
      Inr (True, sealed @ drop 4 [0, 0, 0, 0]) \<and> length sealed = length [72, 105 :: u8] + 4 \<and>
    RTMPSoftDecryptWEP True True \<lparr>BlockIndex1 = 7, BlockIndex2 = 7, KeyBlock = []\<rparr>
        \<lparr>ck_Key = [1, 2, 3, 4, 5], ck_KeyLen = 5\<rparr> ([1, 2, 3, 0] @ sealed)
        (word_of_nat (length [72, 105 :: u8] + 8)) =
      Inr (True, buf, word_of_nat (length [72, 105 :: u8])) \<and>
      take (length [72, 105 :: u8]) buf = [72, 105]"
  by (rule wep_roundtrip) (simp_all add: wep_key_ok_def)

text \<open>\<^verbatim>\<open>RTMPSoftDecryptWEP\<close> rejects a frame in which any one byte of the sealed body (text or
  ICV) was altered: the return value is false and the byte count is left alone.\<close>

theorem wep_rejects_single_byte_corruption:
  assumes "wep_key_ok k" and "length iv = 4" and "length data + 8 < 65536" and "4 \<le> length room"
    and "RTMPSoftEncryptWEP True True junk iv k (data @ room) (length data) =
      Inr (True, sealed @ drop 4 room)"
    and "i < length sealed" and "b \<noteq> sealed ! i"
  shows "\<exists>buf. RTMPSoftDecryptWEP True True junk' k (iv @ sealed[i := b])
      (word_of_nat (length data + 8)) = Inr (False, buf, word_of_nat (length data + 8))"
proof -
  obtain ctx where "RTMPInitWepEngine True iv (ck_Key k) (ck_KeyLen k) junk = Inr ctx"
    using wep_engine_Inr [OF assms(1), of iv junk] assms(2) by auto
  then have ctx: "RTMPInitWepEngine True iv (ck_Key k) (ck_KeyLen k) j = Inr ctx" for j
    using assms(1,2) by (simp add: wep_engine_eq)
  let ?d = "data @ wep_icv data"
  have s: "sealed = snd (ARC4_Compute ctx ?d)"
    using wep_encrypt_eq [OF assms(1) _ assms(4) ctx [of junk]] assms(2,5) by simp
  then have p: "snd (ARC4_Compute ctx sealed) = ?d" by (simp add: arc4.crypt_crypt)
  have "sealed[i := b] \<noteq> sealed"
    using assms(6,7) nth_list_update_eq [OF assms(6), of b] by metis
  then obtain b' where
    b': "snd (ARC4_Compute ctx (sealed[i := b])) = ?d[i := b']" "b' \<noteq> ?d ! i"
    using arc4.crypt_differs_at [OF assms(6), of b ctx] p by auto
  have "i < length data + 4" using assms(6) s by simp
  then have "wep_icv (take (length data) (?d[i := b'])) \<noteq> drop (length data) (?d[i := b'])"
    using b'(2) by (intro wep_icv_detects) simp_all
  then show ?thesis
    using wep_decrypt_eq [OF assms(1,2) _ assms(3) ctx [of junk'], of "sealed[i := b]"] b' s
    by simp
qed

lemma wep_rejects_single_byte_corruption_witness:
  "\<exists>sealed :: bytes. length sealed = 6 \<and>
    (\<exists>buf. RTMPSoftDecryptWEP True True \<lparr>BlockIndex1 = 0, BlockIndex2 = 0, KeyBlock = []\<rparr>
      \<lparr>ck_Key = [1, 2, 3, 4, 5], ck_KeyLen = 5\<rparr> ([1, 2, 3, 0] @ sealed[0 := sealed ! 0 + 1])
      (word_of_nat (length [72, 105 :: u8] + 8)) =
      Inr (False, buf, word_of_nat (length [72, 105 :: u8] + 8)))"
proof -
  let ?k = "\<lparr>ck_Key = [1, 2, 3, 4, 5], ck_KeyLen = 5\<rparr>"
  let ?j = "\<lparr>BlockIndex1 = 0, BlockIndex2 = 0, KeyBlock = []\<rparr>"
  have k: "wep_key_ok ?k" by (simp add: wep_key_ok_def)
  obtain ctx where ctx: "RTMPInitWepEngine True [1, 2, 3, 0] (ck_Key ?k) (ck_KeyLen ?k) ?j = Inr ctx"
    using wep_engine_Inr [OF k, of "[1, 2, 3, 0]" ?j] by auto
  define s where "s = snd (ARC4_Compute ctx ([72, 105] @ wep_icv [72, 105]))"
  have l: "length s = 6" by (simp only: s_def length_ARC4_Compute) simp
  have e: "RTMPSoftEncryptWEP True True ?j [1, 2, 3, 0] ?k ([72, 105] @ [0, 0, 0, 0])
      (length [72, 105 :: u8]) = Inr (True, s @ drop 4 [0, 0, 0, 0])"
    unfolding s_def using k ctx by (intro wep_encrypt_eq) simp_all
  have "\<exists>buf. RTMPSoftDecryptWEP True True ?j ?k ([1, 2, 3, 0] @ s[0 := s ! 0 + 1])
      (word_of_nat (length [72, 105 :: u8] + 8)) =
      Inr (False, buf, word_of_nat (length [72, 105 :: u8] + 8))"
    using k e l by (intro wep_rejects_single_byte_corruption [of ?k "[1, 2, 3, 0]" "[72, 105]"
          "[0, 0, 0, 0]" ?j s 0 "s ! 0 + 1"]) simp_all
  with l show ?thesis by (intro exI [of _ s]) simp
qed

text \<open>A frame of 5, 6 or 7 bytes is not rejected: the plaintext length wraps below zero and
  the ICV is fetched some 64 kB behind the buffer, so for every buffer of less than 65536 bytes the
  function reads out of bounds.\<close>

theorem wep_short_frame_overread:
  assumes "wep_key_ok k" and "cnt \<in> {5, 6, 7}" and "unat cnt \<le> length pData"
    and "length pData < 65536"
  shows "RTMPSoftDecryptWEP True True junk k pData cnt = Inl OOBRead"
proof -
  obtain ctx where ctx: "RTMPInitWepEngine True pData (ck_Key k) (ck_KeyLen k) junk = Inr ctx"
    using wep_engine_Inr [OF assms(1), of pData junk] assms(2,3) by auto
  have *: "4 + unat (cnt - 4) \<le> length pData \<and> length pData < unat (cnt - 4 - 4) + 4 \<and>
      unat (cnt - 4) \<le> 3 \<and> \<not> cnt \<le> 4"
    using assms(2,3,4) by (auto simp: unsigned_minus_1_eq_mask mask_eq_exp_minus_1)
  then have "min (length pData - 4) (unat (cnt - 4)) = unat (cnt - 4)" by (auto simp: min_def)
  with * show ?thesis
    using ctx assms(1) by (simp add: RTMPSoftDecryptWEP_def wep_key_ok_def Let_def)
qed

lemma wep_short_frame_overread_witness:
  "RTMPSoftDecryptWEP True True \<lparr>BlockIndex1 = 0, BlockIndex2 = 0, KeyBlock = []\<rparr>
     \<lparr>ck_Key = [1, 2, 3, 4, 5], ck_KeyLen = 5\<rparr> [1, 2, 3, 0, 9, 9] 6 = Inl OOBRead"
  by (rule wep_short_frame_overread) (simp_all add: wep_key_ok_def)

end
