(* ===== verification/Aes.thy ===== *)
theory Aes
  imports Prelude
begin

text \<open>
  The AES block cipher of \<^verbatim>\<open>common/crypt_aes.c\<close>: its tables, \<^verbatim>\<open>RT_AES_KeyExpansion\<close>,
  \<^verbatim>\<open>RT_AES_Encrypt\<close> and \<^verbatim>\<open>RT_AES_Decrypt\<close>. The state array \<^verbatim>\<open>State[4][4]\<close> is kept by columns, as
  the code fills it (\<^verbatim>\<open>State[Row][Column] = PlainBlock[Row + 4*Column]\<close>), and
  \<^verbatim>\<open>KeyWordExpansion[.][i]\<close> is the \<open>i\<close>-th column of a list. The tables are proved to be the field
  operations they stand for, and decryption to invert encryption for every key length. The locale
  \<open>block_cipher\<close> is the interface the modes of operation (theory \<open>AesModes\<close>) are proved against.
\<close>

subsection \<open>Tables\<close>

definition aes_rcon :: "u32 list" where
  "aes_rcon =
    [0x00000000, 0x01000000, 0x02000000, 0x04000000, 0x08000000, 0x10000000, 0x20000000, 0x40000000, 0x80000000, 0x1B000000, 0x36000000]"

definition aes_sbox_enc :: "u8 list" where
  "aes_sbox_enc =
    [0x63, 0x7c, 0x77, 0x7b, 0xf2, 0x6b, 0x6f, 0xc5, 0x30, 0x01, 0x67, 0x2b, 0xfe, 0xd7, 0xab, 0x76,
     0xca, 0x82, 0xc9, 0x7d, 0xfa, 0x59, 0x47, 0xf0, 0xad, 0xd4, 0xa2, 0xaf, 0x9c, 0xa4, 0x72, 0xc0,
     0xb7, 0xfd, 0x93, 0x26, 0x36, 0x3f, 0xf7, 0xcc, 0x34, 0xa5, 0xe5, 0xf1, 0x71, 0xd8, 0x31, 0x15,
     0x04, 0xc7, 0x23, 0xc3, 0x18, 0x96, 0x05, 0x9a, 0x07, 0x12, 0x80, 0xe2, 0xeb, 0x27, 0xb2, 0x75,
     0x09, 0x83, 0x2c, 0x1a, 0x1b, 0x6e, 0x5a, 0xa0, 0x52, 0x3b, 0xd6, 0xb3, 0x29, 0xe3, 0x2f, 0x84,
     0x53, 0xd1, 0x00, 0xed, 0x20, 0xfc, 0xb1, 0x5b, 0x6a, 0xcb, 0xbe, 0x39, 0x4a, 0x4c, 0x58, 0xcf,
     0xd0, 0xef, 0xaa, 0xfb, 0x43, 0x4d, 0x33, 0x85, 0x45, 0xf9, 0x02, 0x7f, 0x50, 0x3c, 0x9f, 0xa8,
     0x51, 0xa3, 0x40, 0x8f, 0x92, 0x9d, 0x38, 0xf5, 0xbc, 0xb6, 0xda, 0x21, 0x10, 0xff, 0xf3, 0xd2,
     0xcd, 0x0c, 0x13, 0xec, 0x5f, 0x97, 0x44, 0x17, 0xc4, 0xa7, 0x7e, 0x3d, 0x64, 0x5d, 0x19, 0x73,
     0x60, 0x81, 0x4f, 0xdc, 0x22, 0x2a, 0x90, 0x88, 0x46, 0xee, 0xb8, 0x14, 0xde, 0x5e, 0x0b, 0xdb,
     0xe0, 0x32, 0x3a, 0x0a, 0x49, 0x06, 0x24, 0x5c, 0xc2, 0xd3, 0xac, 0x62, 0x91, 0x95, 0xe4, 0x79,
     0xe7, 0xc8, 0x37, 0x6d, 0x8d, 0xd5, 0x4e, 0xa9, 0x6c, 0x56, 0xf4, 0xea, 0x65, 0x7a, 0xae, 0x08,
     0xba, 0x78, 0x25, 0x2e, 0x1c, 0xa6, 0xb4, 0xc6, 0xe8, 0xdd, 0x74, 0x1f, 0x4b, 0xbd, 0x8b, 0x8a,
     0x70, 0x3e, 0xb5, 0x66, 0x48, 0x03, 0xf6, 0x0e, 0x61, 0x35, 0x57, 0xb9, 0x86, 0xc1, 0x1d, 0x9e,
     0xe1, 0xf8, 0x98, 0x11, 0x69, 0xd9, 0x8e, 0x94, 0x9b, 0x1e, 0x87, 0xe9, 0xce, 0x55, 0x28, 0xdf,
     0x8c, 0xa1, 0x89, 0x0d, 0xbf, 0xe6, 0x42, 0x68, 0x41, 0x99, 0x2d, 0x0f, 0xb0, 0x54, 0xbb, 0x16]"

definition aes_sbox_dec :: "u8 list" where
  "aes_sbox_dec =
    [0x52, 0x09, 0x6a, 0xd5, 0x30, 0x36, 0xa5, 0x38, 0xbf, 0x40, 0xa3, 0x9e, 0x81, 0xf3, 0xd7, 0xfb,
     0x7c, 0xe3, 0x39, 0x82, 0x9b, 0x2f, 0xff, 0x87, 0x34, 0x8e, 0x43, 0x44, 0xc4, 0xde, 0xe9, 0xcb,
     0x54, 0x7b, 0x94, 0x32, 0xa6, 0xc2, 0x23, 0x3d, 0xee, 0x4c, 0x95, 0x0b, 0x42, 0xfa, 0xc3, 0x4e,
     0x08, 0x2e, 0xa1, 0x66, 0x28, 0xd9, 0x24, 0xb2, 0x76, 0x5b, 0xa2, 0x49, 0x6d, 0x8b, 0xd1, 0x25,
     0x72, 0xf8, 0xf6, 0x64, 0x86, 0x68, 0x98, 0x16, 0xd4, 0xa4, 0x5c, 0xcc, 0x5d, 0x65, 0xb6, 0x92,
     0x6c, 0x70, 0x48, 0x50, 0xfd, 0xed, 0xb9, 0xda, 0x5e, 0x15, 0x46, 0x57, 0xa7, 0x8d, 0x9d, 0x84,
     0x90, 0xd8, 0xab, 0x00, 0x8c, 0xbc, 0xd3, 0x0a, 0xf7, 0xe4, 0x58, 0x05, 0xb8, 0xb3, 0x45, 0x06,
     0xd0, 0x2c, 0x1e, 0x8f, 0xca, 0x3f, 0x0f, 0x02, 0xc1, 0xaf, 0xbd, 0x03, 0x01, 0x13, 0x8a, 0x6b,
     0x3a, 0x91, 0x11, 0x41, 0x4f, 0x67, 0xdc, 0xea, 0x97, 0xf2, 0xcf, 0xce, 0xf0, 0xb4, 0xe6, 0x73,
     0x96, 0xac, 0x74, 0x22, 0xe7, 0xad, 0x35, 0x85, 0xe2, 0xf9, 0x37, 0xe8, 0x1c, 0x75, 0xdf, 0x6e,
     0x47, 0xf1, 0x1a, 0x71, 0x1d, 0x29, 0xc5, 0x89, 0x6f, 0xb7, 0x62, 0x0e, 0xaa, 0x18, 0xbe, 0x1b,
     0xfc, 0x56, 0x3e, 0x4b, 0xc6, 0xd2, 0x79, 0x20, 0x9a, 0xdb, 0xc0, 0xfe, 0x78, 0xcd, 0x5a, 0xf4,
     0x1f, 0xdd, 0xa8, 0x33, 0x88, 0x07, 0xc7, 0x31, 0xb1, 0x12, 0x10, 0x59, 0x27, 0x80, 0xec, 0x5f,
     0x60, 0x51, 0x7f, 0xa9, 0x19, 0xb5, 0x4a, 0x0d, 0x2d, 0xe5, 0x7a, 0x9f, 0x93, 0xc9, 0x9c, 0xef,
     0xa0, 0xe0, 0x3b, 0x4d, 0xae, 0x2a, 0xf5, 0xb0, 0xc8, 0xeb, 0xbb, 0x3c, 0x83, 0x53, 0x99, 0x61,
     0x17, 0x2b, 0x04, 0x7e, 0xba, 0x77, 0xd6, 0x26, 0xe1, 0x69, 0x14, 0x63, 0x55, 0x21, 0x0c, 0x7d]"

definition aes_mul_2 :: "u8 list" where
  "aes_mul_2 =
    [0x00, 0x02, 0x04, 0x06, 0x08, 0x0a, 0x0c, 0x0e, 0x10, 0x12, 0x14, 0x16, 0x18, 0x1a, 0x1c, 0x1e,
     0x20, 0x22, 0x24, 0x26, 0x28, 0x2a, 0x2c, 0x2e, 0x30, 0x32, 0x34, 0x36, 0x38, 0x3a, 0x3c, 0x3e,
     0x40, 0x42, 0x44, 0x46, 0x48, 0x4a, 0x4c, 0x4e, 0x50, 0x52, 0x54, 0x56, 0x58, 0x5a, 0x5c, 0x5e,
     0x60, 0x62, 0x64, 0x66, 0x68, 0x6a, 0x6c, 0x6e, 0x70, 0x72, 0x74, 0x76, 0x78, 0x7a, 0x7c, 0x7e,
     0x80, 0x82, 0x84, 0x86, 0x88, 0x8a, 0x8c, 0x8e, 0x90, 0x92, 0x94, 0x96, 0x98, 0x9a, 0x9c, 0x9e,
     0xa0, 0xa2, 0xa4, 0xa6, 0xa8, 0xaa, 0xac, 0xae, 0xb0, 0xb2, 0xb4, 0xb6, 0xb8, 0xba, 0xbc, 0xbe,
     0xc0, 0xc2, 0xc4, 0xc6, 0xc8, 0xca, 0xcc, 0xce, 0xd0, 0xd2, 0xd4, 0xd6, 0xd8, 0xda, 0xdc, 0xde,
     0xe0, 0xe2, 0xe4, 0xe6, 0xe8, 0xea, 0xec, 0xee, 0xf0, 0xf2, 0xf4, 0xf6, 0xf8, 0xfa, 0xfc, 0xfe,
     0x1b, 0x19, 0x1f, 0x1d, 0x13, 0x11, 0x17, 0x15, 0x0b, 0x09, 0x0f, 0x0d, 0x03, 0x01, 0x07, 0x05,
     0x3b, 0x39, 0x3f, 0x3d, 0x33, 0x31, 0x37, 0x35, 0x2b, 0x29, 0x2f, 0x2d, 0x23, 0x21, 0x27, 0x25,
     0x5b, 0x59, 0x5f, 0x5d, 0x53, 0x51, 0x57, 0x55, 0x4b, 0x49, 0x4f, 0x4d, 0x43, 0x41, 0x47, 0x45,
     0x7b, 0x79, 0x7f, 0x7d, 0x73, 0x71, 0x77, 0x75, 0x6b, 0x69, 0x6f, 0x6d, 0x63, 0x61, 0x67, 0x65,
     0x9b, 0x99, 0x9f, 0x9d, 0x93, 0x91, 0x97, 0x95, 0x8b, 0x89, 0x8f, 0x8d, 0x83, 0x81, 0x87, 0x85,
     0xbb, 0xb9, 0xbf, 0xbd, 0xb3, 0xb1, 0xb7, 0xb5, 0xab, 0xa9, 0xaf, 0xad, 0xa3, 0xa1, 0xa7, 0xa5,
     0xdb, 0xd9, 0xdf, 0xdd, 0xd3, 0xd1, 0xd7, 0xd5, 0xcb, 0xc9, 0xcf, 0xcd, 0xc3, 0xc1, 0xc7, 0xc5,
     0xfb, 0xf9, 0xff, 0xfd, 0xf3, 0xf1, 0xf7, 0xf5, 0xeb, 0xe9, 0xef, 0xed, 0xe3, 0xe1, 0xe7, 0xe5]"

definition aes_mul_3 :: "u8 list" where
  "aes_mul_3 =
    [0x00, 0x03, 0x06, 0x05, 0x0c, 0x0f, 0x0a, 0x09, 0x18, 0x1b, 0x1e, 0x1d, 0x14, 0x17, 0x12, 0x11,
     0x30, 0x33, 0x36, 0x35, 0x3c, 0x3f, 0x3a, 0x39, 0x28, 0x2b, 0x2e, 0x2d, 0x24, 0x27, 0x22, 0x21,
     0x60, 0x63, 0x66, 0x65, 0x6c, 0x6f, 0x6a, 0x69, 0x78, 0x7b, 0x7e, 0x7d, 0x74, 0x77, 0x72, 0x71,
     0x50, 0x53, 0x56, 0x55, 0x5c, 0x5f, 0x5a, 0x59, 0x48, 0x4b, 0x4e, 0x4d, 0x44, 0x47, 0x42, 0x41,
     0xc0, 0xc3, 0xc6, 0xc5, 0xcc, 0xcf, 0xca, 0xc9, 0xd8, 0xdb, 0xde, 0xdd, 0xd4, 0xd7, 0xd2, 0xd1,
     0xf0, 0xf3, 0xf6, 0xf5, 0xfc, 0xff, 0xfa, 0xf9, 0xe8, 0xeb, 0xee, 0xed, 0xe4, 0xe7, 0xe2, 0xe1,
     0xa0, 0xa3, 0xa6, 0xa5, 0xac, 0xaf, 0xaa, 0xa9, 0xb8, 0xbb, 0xbe, 0xbd, 0xb4, 0xb7, 0xb2, 0xb1,
     0x90, 0x93, 0x96, 0x95, 0x9c, 0x9f, 0x9a, 0x99, 0x88, 0x8b, 0x8e, 0x8d, 0x84, 0x87, 0x82, 0x81,
     0x9b, 0x98, 0x9d, 0x9e, 0x97, 0x94, 0x91, 0x92, 0x83, 0x80, 0x85, 0x86, 0x8f, 0x8c, 0x89, 0x8a,
     0xab, 0xa8, 0xad, 0xae, 0xa7, 0xa4, 0xa1, 0xa2, 0xb3, 0xb0, 0xb5, 0xb6, 0xbf, 0xbc, 0xb9, 0xba,
     0xfb, 0xf8, 0xfd, 0xfe, 0xf7, 0xf4, 0xf1, 0xf2, 0xe3, 0xe0, 0xe5, 0xe6, 0xef, 0xec, 0xe9, 0xea,
     0xcb, 0xc8, 0xcd, 0xce, 0xc7, 0xc4, 0xc1, 0xc2, 0xd3, 0xd0, 0xd5, 0xd6, 0xdf, 0xdc, 0xd9, 0xda,
     0x5b, 0x58, 0x5d, 0x5e, 0x57, 0x54, 0x51, 0x52, 0x43, 0x40, 0x45, 0x46, 0x4f, 0x4c, 0x49, 0x4a,
     0x6b, 0x68, 0x6d, 0x6e, 0x67, 0x64, 0x61, 0x62, 0x73, 0x70, 0x75, 0x76, 0x7f, 0x7c, 0x79, 0x7a,
     0x3b, 0x38, 0x3d, 0x3e, 0x37, 0x34, 0x31, 0x32, 0x23, 0x20, 0x25, 0x26, 0x2f, 0x2c, 0x29, 0x2a,
     0x0b, 0x08, 0x0d, 0x0e, 0x07, 0x04, 0x01, 0x02, 0x13, 0x10, 0x15, 0x16, 0x1f, 0x1c, 0x19, 0x1a]"

definition aes_mul_9 :: "u8 list" where
  "aes_mul_9 =
    [0x00, 0x09, 0x12, 0x1b, 0x24, 0x2d, 0x36, 0x3f, 0x48, 0x41, 0x5a, 0x53, 0x6c, 0x65, 0x7e, 0x77,
     0x90, 0x99, 0x82, 0x8b, 0xb4, 0xbd, 0xa6, 0xaf, 0xd8, 0xd1, 0xca, 0xc3, 0xfc, 0xf5, 0xee, 0xe7,
     0x3b, 0x32, 0x29, 0x20, 0x1f, 0x16, 0x0d, 0x04, 0x73, 0x7a, 0x61, 0x68, 0x57, 0x5e, 0x45, 0x4c,
     0xab, 0xa2, 0xb9, 0xb0, 0x8f, 0x86, 0x9d, 0x94, 0xe3, 0xea, 0xf1, 0xf8, 0xc7, 0xce, 0xd5, 0xdc,
     0x76, 0x7f, 0x64, 0x6d, 0x52, 0x5b, 0x40, 0x49, 0x3e, 0x37, 0x2c, 0x25, 0x1a, 0x13, 0x08, 0x01,
     0xe6, 0xef, 0xf4, 0xfd, 0xc2, 0xcb, 0xd0, 0xd9, 0xae, 0xa7, 0xbc, 0xb5, 0x8a, 0x83, 0x98, 0x91,
     0x4d, 0x44, 0x5f, 0x56, 0x69, 0x60, 0x7b, 0x72, 0x05, 0x0c, 0x17, 0x1e, 0x21, 0x28, 0x33, 0x3a,
     0xdd, 0xd4, 0xcf, 0xc6, 0xf9, 0xf0, 0xeb, 0xe2, 0x95, 0x9c, 0x87, 0x8e, 0xb1, 0xb8, 0xa3, 0xaa,
     0xec, 0xe5, 0xfe, 0xf7, 0xc8, 0xc1, 0xda, 0xd3, 0xa4, 0xad, 0xb6, 0xbf, 0x80, 0x89, 0x92, 0x9b,
     0x7c, 0x75, 0x6e, 0x67, 0x58, 0x51, 0x4a, 0x43, 0x34, 0x3d, 0x26, 0x2f, 0x10, 0x19, 0x02, 0x0b,
     0xd7, 0xde, 0xc5, 0xcc, 0xf3, 0xfa, 0xe1, 0xe8, 0x9f, 0x96, 0x8d, 0x84, 0xbb, 0xb2, 0xa9, 0xa0,
     0x47, 0x4e, 0x55, 0x5c, 0x63, 0x6a, 0x71, 0x78, 0x0f, 0x06, 0x1d, 0x14, 0x2b, 0x22, 0x39, 0x30,
     0x9a, 0x93, 0x88, 0x81, 0xbe, 0xb7, 0xac, 0xa5, 0xd2, 0xdb, 0xc0, 0xc9, 0xf6, 0xff, 0xe4, 0xed,
     0x0a, 0x03, 0x18, 0x11, 0x2e, 0x27, 0x3c, 0x35, 0x42, 0x4b, 0x50, 0x59, 0x66, 0x6f, 0x74, 0x7d,
     0xa1, 0xa8, 0xb3, 0xba, 0x85, 0x8c, 0x97, 0x9e, 0xe9, 0xe0, 0xfb, 0xf2, 0xcd, 0xc4, 0xdf, 0xd6,
     0x31, 0x38, 0x23, 0x2a, 0x15, 0x1c, 0x07, 0x0e, 0x79, 0x70, 0x6b, 0x62, 0x5d, 0x54, 0x4f, 0x46]"

definition aes_mul_b :: "u8 list" where
  "aes_mul_b =
    [0x00, 0x0b, 0x16, 0x1d, 0x2c, 0x27, 0x3a, 0x31, 0x58, 0x53, 0x4e, 0x45, 0x74, 0x7f, 0x62, 0x69,
     0xb0, 0xbb, 0xa6, 0xad, 0x9c, 0x97, 0x8a, 0x81, 0xe8, 0xe3, 0xfe, 0xf5, 0xc4, 0xcf, 0xd2, 0xd9,
     0x7b, 0x70, 0x6d, 0x66, 0x57, 0x5c, 0x41, 0x4a, 0x23, 0x28, 0x35, 0x3e, 0x0f, 0x04, 0x19, 0x12,
     0xcb, 0xc0, 0xdd, 0xd6, 0xe7, 0xec, 0xf1, 0xfa, 0x93, 0x98, 0x85, 0x8e, 0xbf, 0xb4, 0xa9, 0xa2,
     0xf6, 0xfd, 0xe0, 0xeb, 0xda, 0xd1, 0xcc, 0xc7, 0xae, 0xa5, 0xb8, 0xb3, 0x82, 0x89, 0x94, 0x9f,
     0x46, 0x4d, 0x50, 0x5b, 0x6a, 0x61, 0x7c, 0x77, 0x1e, 0x15, 0x08, 0x03, 0x32, 0x39, 0x24, 0x2f,
     0x8d, 0x86, 0x9b, 0x90, 0xa1, 0xaa, 0xb7, 0xbc, 0xd5, 0xde, 0xc3, 0xc8, 0xf9, 0xf2, 0xef, 0xe4,
     0x3d, 0x36, 0x2b, 0x20, 0x11, 0x1a, 0x07, 0x0c, 0x65, 0x6e, 0x73, 0x78, 0x49, 0x42, 0x5f, 0x54,
     0xf7, 0xfc, 0xe1, 0xea, 0xdb, 0xd0, 0xcd, 0xc6, 0xaf, 0xa4, 0xb9, 0xb2, 0x83, 0x88, 0x95, 0x9e,
     0x47, 0x4c, 0x51, 0x5a, 0x6b, 0x60, 0x7d, 0x76, 0x1f, 0x14, 0x09, 0x02, 0x33, 0x38, 0x25, 0x2e,
     0x8c, 0x87, 0x9a, 0x91, 0xa0, 0xab, 0xb6, 0xbd, 0xd4, 0xdf, 0xc2, 0xc9, 0xf8, 0xf3, 0xee, 0xe5,
     0x3c, 0x37, 0x2a, 0x21, 0x10, 0x1b, 0x06, 0x0d, 0x64, 0x6f, 0x72, 0x79, 0x48, 0x43, 0x5e, 0x55,
     0x01, 0x0a, 0x17, 0x1c, 0x2d, 0x26, 0x3b, 0x30, 0x59, 0x52, 0x4f, 0x44, 0x75, 0x7e, 0x63, 0x68,
     0xb1, 0xba, 0xa7, 0xac, 0x9d, 0x96, 0x8b, 0x80, 0xe9, 0xe2, 0xff, 0xf4, 0xc5, 0xce, 0xd3, 0xd8,
     0x7a, 0x71, 0x6c, 0x67, 0x56, 0x5d, 0x40, 0x4b, 0x22, 0x29, 0x34, 0x3f, 0x0e, 0x05, 0x18, 0x13,
     0xca, 0xc1, 0xdc, 0xd7, 0xe6, 0xed, 0xf0, 0xfb, 0x92, 0x99, 0x84, 0x8f, 0xbe, 0xb5, 0xa8, 0xa3]"

definition aes_mul_d :: "u8 list" where
  "aes_mul_d =
    [0x00, 0x0d, 0x1a, 0x17, 0x34, 0x39, 0x2e, 0x23, 0x68, 0x65, 0x72, 0x7f, 0x5c, 0x51, 0x46, 0x4b,
     0xd0, 0xdd, 0xca, 0xc7, 0xe4, 0xe9, 0xfe, 0xf3, 0xb8, 0xb5, 0xa2, 0xaf, 0x8c, 0x81, 0x96, 0x9b,
     0xbb, 0xb6, 0xa1, 0xac, 0x8f, 0x82, 0x95, 0x98, 0xd3, 0xde, 0xc9, 0xc4, 0xe7, 0xea, 0xfd, 0xf0,
     0x6b, 0x66, 0x71, 0x7c, 0x5f, 0x52, 0x45, 0x48, 0x03, 0x0e, 0x19, 0x14, 0x37, 0x3a, 0x2d, 0x20,
     0x6d, 0x60, 0x77, 0x7a, 0x59, 0x54, 0x43, 0x4e, 0x05, 0x08, 0x1f, 0x12, 0x31, 0x3c, 0x2b, 0x26,
     0xbd, 0xb0, 0xa7, 0xaa, 0x89, 0x84, 0x93, 0x9e, 0xd5, 0xd8, 0xcf, 0xc2, 0xe1, 0xec, 0xfb, 0xf6,
     0xd6, 0xdb, 0xcc, 0xc1, 0xe2, 0xef, 0xf8, 0xf5, 0xbe, 0xb3, 0xa4, 0xa9, 0x8a, 0x87, 0x90, 0x9d,
     0x06, 0x0b, 0x1c, 0x11, 0x32, 0x3f, 0x28, 0x25, 0x6e, 0x63, 0x74, 0x79, 0x5a, 0x57, 0x40, 0x4d,
     0xda, 0xd7, 0xc0, 0xcd, 0xee, 0xe3, 0xf4, 0xf9, 0xb2, 0xbf, 0xa8, 0xa5, 0x86, 0x8b, 0x9c, 0x91,
     0x0a, 0x07, 0x10, 0x1d, 0x3e, 0x33, 0x24, 0x29, 0x62, 0x6f, 0x78, 0x75, 0x56, 0x5b, 0x4c, 0x41,
     0x61, 0x6c, 0x7b, 0x76, 0x55, 0x58, 0x4f, 0x42, 0x09, 0x04, 0x13, 0x1e, 0x3d, 0x30, 0x27, 0x2a,
     0xb1, 0xbc, 0xab, 0xa6, 0x85, 0x88, 0x9f, 0x92, 0xd9, 0xd4, 0xc3, 0xce, 0xed, 0xe0, 0xf7, 0xfa,
     0xb7, 0xba, 0xad, 0xa0, 0x83, 0x8e, 0x99, 0x94, 0xdf, 0xd2, 0xc5, 0xc8, 0xeb, 0xe6, 0xf1, 0xfc,
     0x67, 0x6a, 0x7d, 0x70, 0x53, 0x5e, 0x49, 0x44, 0x0f, 0x02, 0x15, 0x18, 0x3b, 0x36, 0x21, 0x2c,
     0x0c, 0x01, 0x16, 0x1b, 0x38, 0x35, 0x22, 0x2f, 0x64, 0x69, 0x7e, 0x73, 0x50, 0x5d, 0x4a, 0x47,
     0xdc, 0xd1, 0xc6, 0xcb, 0xe8, 0xe5, 0xf2, 0xff, 0xb4, 0xb9, 0xae, 0xa3, 0x80, 0x8d, 0x9a, 0x97]"

definition aes_mul_e :: "u8 list" where
  "aes_mul_e =
    [0x00, 0x0e, 0x1c, 0x12, 0x38, 0x36, 0x24, 0x2a, 0x70, 0x7e, 0x6c, 0x62, 0x48, 0x46, 0x54, 0x5a,
     0xe0, 0xee, 0xfc, 0xf2, 0xd8, 0xd6, 0xc4, 0xca, 0x90, 0x9e, 0x8c, 0x82, 0xa8, 0xa6, 0xb4, 0xba,
     0xdb, 0xd5, 0xc7, 0xc9, 0xe3, 0xed, 0xff, 0xf1, 0xab, 0xa5, 0xb7, 0xb9, 0x93, 0x9d, 0x8f, 0x81,
     0x3b, 0x35, 0x27, 0x29, 0x03, 0x0d, 0x1f, 0x11, 0x4b, 0x45, 0x57, 0x59, 0x73, 0x7d, 0x6f, 0x61,
     0xad, 0xa3, 0xb1, 0xbf, 0x95, 0x9b, 0x89, 0x87, 0xdd, 0xd3, 0xc1, 0xcf, 0xe5, 0xeb, 0xf9, 0xf7,
     0x4d, 0x43, 0x51, 0x5f, 0x75, 0x7b, 0x69, 0x67, 0x3d, 0x33, 0x21, 0x2f, 0x05, 0x0b, 0x19, 0x17,
     0x76, 0x78, 0x6a, 0x64, 0x4e, 0x40, 0x52, 0x5c, 0x06, 0x08, 0x1a, 0x14, 0x3e, 0x30, 0x22, 0x2c,
     0x96, 0x98, 0x8a, 0x84, 0xae, 0xa0, 0xb2, 0xbc, 0xe6, 0xe8, 0xfa, 0xf4, 0xde, 0xd0, 0xc2, 0xcc,
     0x41, 0x4f, 0x5d, 0x53, 0x79, 0x77, 0x65, 0x6b, 0x31, 0x3f, 0x2d, 0x23, 0x09, 0x07, 0x15, 0x1b,
     0xa1, 0xaf, 0xbd, 0xb3, 0x99, 0x97, 0x85, 0x8b, 0xd1, 0xdf, 0xcd, 0xc3, 0xe9, 0xe7, 0xf5, 0xfb,
     0x9a, 0x94, 0x86, 0x88, 0xa2, 0xac, 0xbe, 0xb0, 0xea, 0xe4, 0xf6, 0xf8, 0xd2, 0xdc, 0xce, 0xc0,
     0x7a, 0x74, 0x66, 0x68, 0x42, 0x4c, 0x5e, 0x50, 0x0a, 0x04, 0x16, 0x18, 0x32, 0x3c, 0x2e, 0x20,
     0xec, 0xe2, 0xf0, 0xfe, 0xd4, 0xda, 0xc8, 0xc6, 0x9c, 0x92, 0x80, 0x8e, 0xa4, 0xaa, 0xb8, 0xb6,
     0x0c, 0x02, 0x10, 0x1e, 0x34, 0x3a, 0x28, 0x26, 0x7c, 0x72, 0x60, 0x6e, 0x44, 0x4a, 0x58, 0x56,
     0x37, 0x39, 0x2b, 0x25, 0x0f, 0x01, 0x13, 0x1d, 0x47, 0x49, 0x5b, 0x55, 0x7f, 0x71, 0x63, 0x6d,
     0xd7, 0xd9, 0xcb, 0xc5, 0xef, 0xe1, 0xf3, 0xfd, 0xa7, 0xa9, 0xbb, 0xb5, 0x9f, 0x91, 0x83, 0x8d]"


subsection \<open>Columns and the state\<close>

datatype aes_col = Col u8 u8 u8 u8
datatype aes_state = State aes_col aes_col aes_col aes_col

fun col_xor :: "aes_col \<Rightarrow> aes_col \<Rightarrow> aes_col" where
  "col_xor (Col a b c d) (Col a' b' c' d') = Col (a XOR a') (b XOR b') (c XOR c') (d XOR d')"

fun col_map :: "(u8 \<Rightarrow> u8) \<Rightarrow> aes_col \<Rightarrow> aes_col" where
  "col_map f (Col a b c d) = Col (f a) (f b) (f c) (f d)"

definition bytes_col :: "bytes \<Rightarrow> nat \<Rightarrow> aes_col" where
  "bytes_col bs i = Col (bs ! i) (bs ! (i + 1)) (bs ! (i + 2)) (bs ! (i + 3))"

fun col_bytes :: "aes_col \<Rightarrow> bytes" where
  "col_bytes (Col a b c d) = [a, b, c, d]"

definition block_state :: "bytes \<Rightarrow> aes_state" where
  "block_state bs = State (bytes_col bs 0) (bytes_col bs 4) (bytes_col bs 8) (bytes_col bs 12)"

fun state_block :: "aes_state \<Rightarrow> bytes" where
  "state_block (State p q r s) = col_bytes p @ col_bytes q @ col_bytes r @ col_bytes s"

subsection \<open>Key expansion\<close>

definition aes_sub :: "u8 \<Rightarrow> u8" where "aes_sub x = aes_sbox_enc ! unat x"
definition aes_inv_sub :: "u8 \<Rightarrow> u8" where "aes_inv_sub x = aes_sbox_dec ! unat x"

text \<open>The rotated, substituted word exclusive-or the four bytes of the round constant.\<close>

fun rot_sub_rcon :: "u32 \<Rightarrow> aes_col \<Rightarrow> aes_col" where
  "rot_sub_rcon rc (Col t0 t1 t2 t3) =
     Col (aes_sub t1 XOR ucast (drop_bit 24 rc AND 0xff))
         (aes_sub t2 XOR ucast (drop_bit 16 rc AND 0xff))
         (aes_sub t3 XOR ucast (drop_bit 8 rc AND 0xff))
         (aes_sub t0 XOR ucast (rc AND 0xff))"

text \<open>The body of the second loop: the word at \<open>i\<close> from the words before it, \<open>nk\<close> words of key.\<close>

definition aes_next_word :: "nat \<Rightarrow> aes_col list \<Rightarrow> nat \<Rightarrow> aes_col" where
  "aes_next_word nk w i =
     (let t = w ! (i - 1);
          t' = (if i mod nk = 0 then rot_sub_rcon (aes_rcon ! (i div nk)) t
                else if 6 < nk \<and> i mod nk = 4 then col_map aes_sub t
                else t)
      in col_xor (w ! (i - nk)) t')"

definition RT_AES_KeyExpansion :: "bytes \<Rightarrow> nat \<Rightarrow> aes_col list" where
  "RT_AES_KeyExpansion Key KeyLength =
     (let nk = KeyLength div 4
      in foldl (\<lambda>w i. w @ [aes_next_word nk w i])
           (map (\<lambda>i. bytes_col Key (4 * i)) [0..<nk]) [nk..<4 * (nk + 6 + 1)])"

subsection \<open>The round operations\<close>

fun AES_AddRoundKey :: "aes_col list \<Rightarrow> nat \<Rightarrow> aes_state \<Rightarrow> aes_state" where
  "AES_AddRoundKey w r (State p q s t) =
     State (col_xor p (w ! (r * 4))) (col_xor q (w ! (r * 4 + 1)))
           (col_xor s (w ! (r * 4 + 2))) (col_xor t (w ! (r * 4 + 3)))"

fun AES_SubBytes :: "aes_state \<Rightarrow> aes_state" where
  "AES_SubBytes (State p q s t) =
     State (col_map aes_sub p) (col_map aes_sub q) (col_map aes_sub s) (col_map aes_sub t)"

fun AES_InvSubBytes :: "aes_state \<Rightarrow> aes_state" where
  "AES_InvSubBytes (State p q s t) =
     State (col_map aes_inv_sub p) (col_map aes_inv_sub q)
           (col_map aes_inv_sub s) (col_map aes_inv_sub t)"

text \<open>\<open>Col aRC\<close>: row \<open>R\<close> of column \<open>C\<close>; row 1 moves one place left, row 2 two, row 3 three.\<close>

fun AES_ShiftRows :: "aes_state \<Rightarrow> aes_state" where
  "AES_ShiftRows (State (Col a00 a10 a20 a30) (Col a01 a11 a21 a31)
                        (Col a02 a12 a22 a32) (Col a03 a13 a23 a33)) =
     State (Col a00 a11 a22 a33) (Col a01 a12 a23 a30)
           (Col a02 a13 a20 a31) (Col a03 a10 a21 a32)"

fun AES_InvShiftRows :: "aes_state \<Rightarrow> aes_state" where
  "AES_InvShiftRows (State (Col a00 a10 a20 a30) (Col a01 a11 a21 a31)
                           (Col a02 a12 a22 a32) (Col a03 a13 a23 a33)) =
     State (Col a00 a13 a22 a31) (Col a01 a10 a23 a32)
           (Col a02 a11 a20 a33) (Col a03 a12 a21 a30)"

fun mix_col :: "aes_col \<Rightarrow> aes_col" where
  "mix_col (Col r0 r1 r2 r3) =
     Col (aes_mul_2 ! unat r0 XOR aes_mul_3 ! unat r1 XOR r2 XOR r3)
         (r0 XOR aes_mul_2 ! unat r1 XOR aes_mul_3 ! unat r2 XOR r3)
         (r0 XOR r1 XOR aes_mul_2 ! unat r2 XOR aes_mul_3 ! unat r3)
         (aes_mul_3 ! unat r0 XOR r1 XOR r2 XOR aes_mul_2 ! unat r3)"

fun inv_mix_col :: "aes_col \<Rightarrow> aes_col" where
  "inv_mix_col (Col r0 r1 r2 r3) =
     Col (aes_mul_e ! unat r0 XOR aes_mul_b ! unat r1 XOR aes_mul_d ! unat r2 XOR aes_mul_9 ! unat r3)
         (aes_mul_9 ! unat r0 XOR aes_mul_e ! unat r1 XOR aes_mul_b ! unat r2 XOR aes_mul_d ! unat r3)
         (aes_mul_d ! unat r0 XOR aes_mul_9 ! unat r1 XOR aes_mul_e ! unat r2 XOR aes_mul_b ! unat r3)
         (aes_mul_b ! unat r0 XOR aes_mul_d ! unat r1 XOR aes_mul_9 ! unat r2 XOR aes_mul_e ! unat r3)"

fun AES_MixColumns :: "aes_state \<Rightarrow> aes_state" where
  "AES_MixColumns (State p q s t) = State (mix_col p) (mix_col q) (mix_col s) (mix_col t)"

fun AES_InvMixColumns :: "aes_state \<Rightarrow> aes_state" where
  "AES_InvMixColumns (State p q s t) =
     State (inv_mix_col p) (inv_mix_col q) (inv_mix_col s) (inv_mix_col t)"

subsection \<open>The rounds\<close>

definition aes_enc_round :: "aes_col list \<Rightarrow> aes_state \<Rightarrow> nat \<Rightarrow> aes_state" where
  "aes_enc_round w s r = AES_AddRoundKey w r (AES_MixColumns (AES_ShiftRows (AES_SubBytes s)))"

definition aes_dec_round :: "aes_col list \<Rightarrow> aes_state \<Rightarrow> nat \<Rightarrow> aes_state" where
  "aes_dec_round w s r =
     AES_InvMixColumns (AES_AddRoundKey w r (AES_InvSubBytes (AES_InvShiftRows s)))"

definition aes_cipher :: "aes_col list \<Rightarrow> nat \<Rightarrow> aes_state \<Rightarrow> aes_state" where
  "aes_cipher w nr s =
     AES_AddRoundKey w nr (AES_ShiftRows (AES_SubBytes
       (foldl (aes_enc_round w) (AES_AddRoundKey w 0 s) [1..<nr])))"

definition aes_inv_cipher :: "aes_col list \<Rightarrow> nat \<Rightarrow> aes_state \<Rightarrow> aes_state" where
  "aes_inv_cipher w nr s =
     AES_AddRoundKey w 0 (AES_InvSubBytes (AES_InvShiftRows
       (foldl (aes_dec_round w) (AES_AddRoundKey w nr s) (rev [1..<nr]))))"

subsection \<open>RT_AES_Encrypt and RT_AES_Decrypt\<close>

definition aes_key_len_ok :: "nat \<Rightarrow> bool" where
  "aes_key_len_ok n \<longleftrightarrow> n = 16 \<or> n = 24 \<or> n = 32"

text \<open>
  Both are \<^verbatim>\<open>void\<close>: on a bad size, or when the context cannot be allocated (\<open>kmalloc_ok\<close>), they
  return with the output buffer and its size untouched. Otherwise the first 16 bytes of the output
  are written and the size becomes 16.
\<close>

definition RT_AES_Encrypt ::
    "bool \<Rightarrow> bytes \<Rightarrow> nat \<Rightarrow> bytes \<Rightarrow> nat \<Rightarrow> bytes \<Rightarrow> nat \<Rightarrow> c_fault + bytes \<times> nat" where
  "RT_AES_Encrypt kmalloc_ok PlainBlock PlainBlockSize Key KeyLength CipherBlock CipherBlockSize =
     (if PlainBlockSize \<noteq> 16 then Inr (CipherBlock, CipherBlockSize)
      else if \<not> aes_key_len_ok KeyLength then Inr (CipherBlock, CipherBlockSize)
      else if CipherBlockSize < 16 then Inr (CipherBlock, CipherBlockSize)
      else if \<not> kmalloc_ok then Inr (CipherBlock, CipherBlockSize)
      else if length PlainBlock < 16 \<or> length Key < KeyLength then Inl OOBRead
      else if length CipherBlock < 16 then Inl OOBWrite
      else let w = RT_AES_KeyExpansion Key KeyLength;
               out = state_block (aes_cipher w (KeyLength div 4 + 6) (block_state PlainBlock))
           in Inr (out @ drop 16 CipherBlock, 16))"

definition RT_AES_Decrypt ::
    "bool \<Rightarrow> bytes \<Rightarrow> nat \<Rightarrow> bytes \<Rightarrow> nat \<Rightarrow> bytes \<Rightarrow> nat \<Rightarrow> c_fault + bytes \<times> nat" where
  "RT_AES_Decrypt kmalloc_ok CipherBlock CipherBlockSize Key KeyLength PlainBlock PlainBlockSize =
     (if PlainBlockSize < 16 then Inr (PlainBlock, PlainBlockSize)
      else if \<not> aes_key_len_ok KeyLength then Inr (PlainBlock, PlainBlockSize)
      else if CipherBlockSize \<noteq> 16 then Inr (PlainBlock, PlainBlockSize)
      else if \<not> kmalloc_ok then Inr (PlainBlock, PlainBlockSize)
      else if length CipherBlock < 16 \<or> length Key < KeyLength then Inl OOBRead
      else if length PlainBlock < 16 then Inl OOBWrite
      else let w = RT_AES_KeyExpansion Key KeyLength;
               out = state_block (aes_inv_cipher w (KeyLength div 4 + 6) (block_state CipherBlock))
           in Inr (out @ drop 16 PlainBlock, 16))"

subsection \<open>The tables are the field operations\<close>

text \<open>Multiplication by \<open>x\<close> in GF(2^8) modulo \<open>x^8 + x^4 + x^3 + x + 1\<close>.\<close>

definition xtime :: "u8 \<Rightarrow> u8" where
  "xtime x = (if bit x 7 then push_bit 1 x XOR 0x1b else push_bit 1 x)"

text \<open>Russian-peasant multiplication in the field, least significant bit of \<open>m\<close> first.\<close>

fun gf_mul :: "bool list \<Rightarrow> u8 \<Rightarrow> u8" where
  "gf_mul [] x = 0"
| "gf_mul (b # bs) x = (if b then x else 0) XOR gf_mul bs (xtime x)"

lemma xtime_xor: "xtime (x XOR y) = xtime x XOR xtime y"
  by (cases "bit x 7"; cases "bit y 7") (simp_all add: xtime_def bit_xor_iff ac_simps)

lemma gf_mul_xor: "gf_mul bs (x XOR y) = gf_mul bs x XOR gf_mul bs y"
  by (induction bs arbitrary: x y) (simp_all add: xtime_xor ac_simps)

lemma gf_mul_linear: "xor_linear (gf_mul bs)"
  by (simp add: xor_linear_def gf_mul_xor)

lemma aes_mul_table:
  assumes "xor_span [gf_mul bs 128, gf_mul bs 64, gf_mul bs 32, gf_mul bs 16,
    gf_mul bs 8, gf_mul bs 4, gf_mul bs 2, gf_mul bs 1] = tab"
  shows "tab ! unat x = gf_mul bs x"
  by (rule xor_span_nth [OF gf_mul_linear assms])

lemma aes_mul_2_nth: "aes_mul_2 ! unat x = gf_mul [False, True] x"
  by (rule aes_mul_table) (simp add: xtime_def aes_mul_2_def)

lemma aes_mul_3_nth: "aes_mul_3 ! unat x = gf_mul [True, True] x"
  by (rule aes_mul_table) (simp add: xtime_def aes_mul_3_def)

lemma aes_mul_9_nth: "aes_mul_9 ! unat x = gf_mul [True, False, False, True] x"
  by (rule aes_mul_table) (simp add: xtime_def aes_mul_9_def)

lemma aes_mul_b_nth: "aes_mul_b ! unat x = gf_mul [True, True, False, True] x"
  by (rule aes_mul_table) (simp add: xtime_def aes_mul_b_def)

lemma aes_mul_d_nth: "aes_mul_d ! unat x = gf_mul [True, False, True, True] x"
  by (rule aes_mul_table) (simp add: xtime_def aes_mul_d_def)

lemma aes_mul_e_nth: "aes_mul_e ! unat x = gf_mul [False, True, True, True] x"
  by (rule aes_mul_table) (simp add: xtime_def aes_mul_e_def)

lemmas aes_mul_nth =
  aes_mul_2_nth aes_mul_3_nth aes_mul_9_nth aes_mul_b_nth aes_mul_d_nth aes_mul_e_nth

subsection \<open>Every round operation is inverted\<close>

lemma inv_mix_mix_col: "inv_mix_col (mix_col c) = c"
  by (cases c) (simp add: aes_mul_nth xtime_xor ac_simps)

lemma mix_inv_mix_col: "mix_col (inv_mix_col c) = c"
  by (cases c) (simp add: aes_mul_nth xtime_xor ac_simps)

lemma col_xor_cancel [simp]: "col_xor (col_xor c k) k = c"
  by (cases c; cases k) simp

lemma AddRoundKey_cancel [simp]: "AES_AddRoundKey w r (AES_AddRoundKey w r s) = s"
  by (cases s) simp

lemma InvShiftRows_ShiftRows [simp]: "AES_InvShiftRows (AES_ShiftRows s) = s"
  by (cases s rule: AES_ShiftRows.cases) simp

lemma ShiftRows_InvShiftRows [simp]: "AES_ShiftRows (AES_InvShiftRows s) = s"
  by (cases s rule: AES_InvShiftRows.cases) simp

lemma InvMixColumns_MixColumns [simp]: "AES_InvMixColumns (AES_MixColumns s) = s"
  by (cases s) (simp add: inv_mix_mix_col)

lemma MixColumns_InvMixColumns [simp]: "AES_MixColumns (AES_InvMixColumns s) = s"
  by (cases s) (simp add: mix_inv_mix_col)

lemma aes_sbox_inverse:
  "map (\<lambda>y. aes_sbox_dec ! unat y) aes_sbox_enc = map word_of_nat [0..<256]"
  unfolding aes_sbox_enc_def by (simp add: aes_sbox_dec_def upt_rec)

lemma aes_inv_sub_sub [simp]: "aes_inv_sub (aes_sub x) = x"
proof -
  have "length aes_sbox_enc = 256" by (simp add: aes_sbox_enc_def)
  then have "aes_inv_sub (aes_sub x) = map (\<lambda>y. aes_sbox_dec ! unat y) aes_sbox_enc ! unat x"
    by (simp add: aes_inv_sub_def aes_sub_def)
  also have "\<dots> = x" by (simp only: aes_sbox_inverse nth_map length_upt) simp
  finally show ?thesis .
qed

lemma aes_sub_inv_sub [simp]: "aes_sub (aes_inv_sub x) = x"
proof -
  have "inj aes_sub" by (metis injI aes_inv_sub_sub)
  moreover have "finite (UNIV :: u8 set)" by simp
  ultimately have "surj aes_sub" by (intro finite_UNIV_inj_surj)
  then obtain y where "x = aes_sub y" by (metis surjD)
  then show ?thesis by simp
qed

lemma col_map_inv_sub [simp]: "col_map aes_inv_sub (col_map aes_sub c) = c"
  and col_map_sub_inv [simp]: "col_map aes_sub (col_map aes_inv_sub c) = c"
  by (cases c; simp)+

lemma InvSubBytes_SubBytes [simp]: "AES_InvSubBytes (AES_SubBytes s) = s"
  and SubBytes_InvSubBytes [simp]: "AES_SubBytes (AES_InvSubBytes s) = s"
  by (cases s; simp)+

lemma aes_dec_rounds_enc_rounds:
  "foldl (aes_dec_round w)
     (AES_ShiftRows (AES_SubBytes (foldl (aes_enc_round w) s [1..<n]))) (rev [1..<n]) =
   AES_ShiftRows (AES_SubBytes s)"
proof (induction n)
  case (Suc n)
  then show ?case
    by (cases "1 \<le> n") (simp_all add: aes_dec_round_def aes_enc_round_def)
qed simp

lemma aes_enc_rounds_dec_rounds:
  "foldl (aes_enc_round w)
     (AES_InvSubBytes (AES_InvShiftRows (foldl (aes_dec_round w) s (rev rs)))) rs =
   AES_InvSubBytes (AES_InvShiftRows s)"
proof (induction rs)
  case (Cons r rs)
  then show ?case by (simp add: aes_dec_round_def aes_enc_round_def)
qed simp

lemma aes_inv_cipher_cipher: "aes_inv_cipher w nr (aes_cipher w nr s) = s"
  by (simp add: aes_inv_cipher_def aes_cipher_def aes_dec_rounds_enc_rounds del: One_nat_def)

lemma aes_cipher_inv_cipher: "aes_cipher w nr (aes_inv_cipher w nr s) = s"
  by (simp add: aes_inv_cipher_def aes_cipher_def aes_enc_rounds_dec_rounds)

subsection \<open>Blocks\<close>

lemma col_bytes_col: "i + 4 \<le> length bs \<Longrightarrow> col_bytes (bytes_col bs i) = take 4 (drop i bs)"
proof -
  assume "i + 4 \<le> length bs"
  then show ?thesis
    by (intro nth_equalityI) (auto simp: bytes_col_def nth_Cons numeral_eq_Suc less_Suc_eq)
qed

lemma state_block_state [simp]: "length b = 16 \<Longrightarrow> state_block (block_state b) = b"
  by (auto simp: numeral_eq_Suc length_Suc_conv block_state_def bytes_col_def)

lemma block_state_block [simp]: "block_state (state_block s) = s"
proof -
  obtain p q r t where "s = State p q r t" by (cases s)
  then show ?thesis
    by (cases p; cases q; cases r; cases t) (simp add: block_state_def bytes_col_def)
qed

lemma block_state_append [simp]: "16 \<le> length b \<Longrightarrow> block_state (b @ c) = block_state b"
proof -
  assume "16 \<le> length b"
  then have "(b @ c) ! i = b ! i" if "i < 16" for i using that by (simp add: nth_append)
  then show ?thesis by (simp add: block_state_def bytes_col_def)
qed

lemma length_state_block [simp]: "length (state_block s) = 16"
proof -
  have "length (col_bytes c) = 4" for c by (cases c) simp
  then show ?thesis by (cases s) simp
qed

text \<open>The two block functions under an expanded key.\<close>

definition aes_enc_block :: "bytes \<Rightarrow> nat \<Rightarrow> bytes \<Rightarrow> bytes" where
  "aes_enc_block key klen b =
     state_block (aes_cipher (RT_AES_KeyExpansion key klen) (klen div 4 + 6) (block_state b))"

definition aes_dec_block :: "bytes \<Rightarrow> nat \<Rightarrow> bytes \<Rightarrow> bytes" where
  "aes_dec_block key klen b =
     state_block (aes_inv_cipher (RT_AES_KeyExpansion key klen) (klen div 4 + 6) (block_state b))"

lemma RT_AES_Encrypt_ok:
  assumes "aes_key_len_ok klen" "klen \<le> length key" "16 \<le> length b" "16 \<le> csz" "16 \<le> length out"
  shows "RT_AES_Encrypt True b 16 key klen out csz = Inr (aes_enc_block key klen b @ drop 16 out, 16)"
  using assms by (simp add: RT_AES_Encrypt_def aes_enc_block_def Let_def)

lemma RT_AES_Decrypt_ok:
  assumes "aes_key_len_ok klen" "klen \<le> length key" "16 \<le> length b" "16 \<le> psz" "16 \<le> length out"
  shows "RT_AES_Decrypt True b 16 key klen out psz = Inr (aes_dec_block key klen b @ drop 16 out, 16)"
  using assms by (simp add: RT_AES_Decrypt_def aes_dec_block_def Let_def)

subsection \<open>The interface of a block cipher\<close>

locale block_cipher =
  fixes enc dec :: "bytes \<Rightarrow> bytes"
  assumes length_enc: "length (enc b) = 16"
    and length_dec: "length (dec b) = 16"
    and dec_enc: "length b = 16 \<Longrightarrow> dec (enc b) = b"
    and enc_dec: "length b = 16 \<Longrightarrow> enc (dec b) = b"
begin

lemma enc_inj: "length a = 16 \<Longrightarrow> length b = 16 \<Longrightarrow> enc a = enc b \<longleftrightarrow> a = b"
  by (metis dec_enc)

lemma dec_inj: "length a = 16 \<Longrightarrow> length b = 16 \<Longrightarrow> dec a = dec b \<longleftrightarrow> a = b"
  by (metis enc_dec)

end

interpretation aes: block_cipher "aes_enc_block key klen" "aes_dec_block key klen" for key klen
  by unfold_locales
    (simp_all add: aes_enc_block_def aes_dec_block_def aes_inv_cipher_cipher aes_cipher_inv_cipher)

subsection \<open>Properties\<close>

text \<open>The six multiplication tables \<^verbatim>\<open>aes_mul_2\<close> to \<^verbatim>\<open>aes_mul_e\<close> list multiplication by 2, 3, 9,
  11, 13 and 14 in the AES field GF(2^8), and the two S-box tables are inverse permutations.\<close>

theorem aes_tables_correct:
  "aes_mul_2 ! unat x = gf_mul [False, True] x \<and>
   aes_mul_3 ! unat x = gf_mul [True, True] x \<and>
   aes_mul_9 ! unat x = gf_mul [True, False, False, True] x \<and>
   aes_mul_b ! unat x = gf_mul [True, True, False, True] x \<and>
   aes_mul_d ! unat x = gf_mul [True, False, True, True] x \<and>
   aes_mul_e ! unat x = gf_mul [False, True, True, True] x \<and>
   aes_sbox_dec ! unat (aes_sbox_enc ! unat x) = x \<and>
   aes_sbox_enc ! unat (aes_sbox_dec ! unat x) = x"
  using aes_inv_sub_sub [of x] aes_sub_inv_sub [of x]
  by (simp only: aes_mul_nth aes_sub_def aes_inv_sub_def simp_thms)

text \<open>C30: \<^verbatim>\<open>RT_AES_Decrypt\<close> inverts \<^verbatim>\<open>RT_AES_Encrypt\<close> for 128-, 192- and 256-bit keys: both
  report 16 bytes, write only the first 16 bytes of the output buffer, and the block comes back.\<close>

theorem RT_AES_roundtrip:
  assumes "KeyLength \<in> {16, 24, 32}" and "KeyLength \<le> length Key" and "length Plain = 16"
    and "16 \<le> csz" and "16 \<le> length out" and "16 \<le> psz" and "16 \<le> length out'"
  shows "\<exists>cipher. RT_AES_Encrypt True Plain 16 Key KeyLength out csz = Inr (cipher, 16) \<and>
    drop 16 cipher = drop 16 out \<and> length cipher = length out \<and>
    RT_AES_Decrypt True (take 16 cipher) 16 Key KeyLength out' psz = Inr (Plain @ drop 16 out', 16)"
proof -
  have "aes_key_len_ok KeyLength" using assms(1) by (auto simp: aes_key_len_ok_def)
  then show ?thesis
    using assms by (simp add: RT_AES_Encrypt_ok RT_AES_Decrypt_ok aes.length_enc aes.dec_enc)
qed

lemma RT_AES_roundtrip_witness:
  "\<exists>cipher. RT_AES_Encrypt True (replicate 16 7) 16 (replicate 24 1) 24 (replicate 20 0) 20 =
      Inr (cipher, 16) \<and>
    drop 16 cipher = drop 16 (replicate 20 0) \<and> length cipher = length (replicate 20 (0 :: u8)) \<and>
    RT_AES_Decrypt True (take 16 cipher) 16 (replicate 24 1) 24 (replicate 16 0) 16 =
      Inr (replicate 16 7 @ drop 16 (replicate 16 0), 16)"
  by (rule RT_AES_roundtrip) simp_all

end
