(* ===== verification/AesModes.thy ===== *)
theory AesModes
  imports Aes
begin

text \<open>
  The modes of operation of \<^verbatim>\<open>common/crypt_aes.c\<close> built on the block cipher of theory \<open>Aes\<close>: CBC
  with PKCS-style padding, the RFC 3394 key wrap, CCM. Each is modelled over the caller's buffers and
  proved against the locale \<open>block_cipher\<close>. The calls to \<^verbatim>\<open>RT_AES_Encrypt\<close> and
  \<^verbatim>\<open>RT_AES_Decrypt\<close> are made with their context allocation succeeding.
\<close>

subsection \<open>AES_CBC_Encrypt\<close>

text \<open>The block chained into the next one: the IV first, then the last cipher block written.\<close>

definition cbc_chain :: "bytes \<Rightarrow> bytes \<Rightarrow> nat \<Rightarrow> bytes" where
  "cbc_chain IV C start = (if start = 0 then take 16 IV else slice_at (start - 16) 16 C)"

text \<open>
  The \<^verbatim>\<open>while\<close> loop over whole blocks; \<open>ps\<close> and \<open>cs\<close> are \<^verbatim>\<open>PlainBlockStart\<close> and
  \<^verbatim>\<open>CipherBlockStart\<close>, \<open>ctl\<close> the value of \<^verbatim>\<open>*CipherTextLength\<close>.
\<close>

function cbc_enc_loop :: "bytes \<Rightarrow> nat \<Rightarrow> bytes \<Rightarrow> nat \<Rightarrow> bytes \<Rightarrow> nat \<Rightarrow>
    nat \<Rightarrow> nat \<Rightarrow> bytes \<Rightarrow> c_fault + nat \<times> nat \<times> bytes" where
  "cbc_enc_loop P plen Key klen IV ctl ps cs C =
     (if 16 \<le> plen - ps then
        if length P < ps + 16 \<or> length C < cs then Inl OOBRead
        else (case RT_AES_Encrypt True (xor_bytes (slice_at ps 16 P) (cbc_chain IV C cs)) 16
                Key klen (drop cs C) (ctl - cs) of
            Inl e \<Rightarrow> Inl e
          | Inr (out, sz) \<Rightarrow>
              cbc_enc_loop P plen Key klen IV ctl (ps + 16) (cs + sz) (take cs C @ out))
      else Inr (ps, cs, C))"
  by pat_completeness auto
termination
  by (relation "measure (\<lambda>(P, plen, Key, klen, IV, ctl, ps, cs, C). plen - ps)") auto

definition AES_CBC_Encrypt :: "bytes \<Rightarrow> nat \<Rightarrow> bytes \<Rightarrow> nat \<Rightarrow> bytes \<Rightarrow> nat \<Rightarrow>
    bytes \<Rightarrow> nat \<Rightarrow> c_fault + bytes \<times> nat" where
  "AES_CBC_Encrypt P plen Key klen IV ivlen C ctl =
     (let pad = 16 - plen mod 16 in
      if ctl < plen + pad then Inr (C, ctl)
      else if \<not> aes_key_len_ok klen then Inr (C, ctl)
      else if ivlen \<noteq> 16 then Inr (C, ctl)
      else case cbc_enc_loop P plen Key klen IV ctl 0 0 C of
        Inl e \<Rightarrow> Inl e
      | Inr (ps, cs, C1) \<Rightarrow>
        if length P < plen then Inl OOBRead
        else let block = slice_at ps (plen - ps) P @ replicate pad (word_of_nat pad) in
          (case RT_AES_Encrypt True (xor_bytes block (cbc_chain IV C1 cs)) 16
              Key klen (drop cs C1) (ctl - cs) of
             Inl e \<Rightarrow> Inl e
           | Inr (out, sz) \<Rightarrow> Inr (take cs C1 @ out, cs + sz)))"

subsection \<open>AES_CBC_Decrypt\<close>

function cbc_dec_loop :: "bytes \<Rightarrow> nat \<Rightarrow> bytes \<Rightarrow> nat \<Rightarrow> bytes \<Rightarrow> nat \<Rightarrow>
    nat \<Rightarrow> nat \<Rightarrow> bytes \<Rightarrow> c_fault + nat \<times> nat \<times> bytes" where
  "cbc_dec_loop C clen Key klen IV ptl cs ps P =
     (if 16 \<le> clen - cs then
        if length C < cs + 16 then Inl OOBRead
        else (case RT_AES_Decrypt True (drop cs C) 16 Key klen (drop ps P) (ptl - ps) of
            Inl e \<Rightarrow> Inl e
          | Inr (out, sz) \<Rightarrow>
              if length out < 16 then Inl OOBWrite
              else let chain = (if ps = 0 then take 16 IV else slice_at (cs - 16) 16 C)
                in cbc_dec_loop C clen Key klen IV ptl (cs + 16) (ps + sz)
                     (take ps P @ xor_bytes (take 16 out) chain @ drop 16 out))
      else Inr (cs, ps, P))"
  by pat_completeness auto
termination
  by (relation "measure (\<lambda>(C, clen, Key, klen, IV, ptl, cs, ps, P). clen - cs)") auto

text \<open>
  The padding size is the last plain byte, unchecked: the 32-bit length wraps when it exceeds the
  text.
\<close>

definition AES_CBC_Decrypt :: "bytes \<Rightarrow> nat \<Rightarrow> bytes \<Rightarrow> nat \<Rightarrow> bytes \<Rightarrow> nat \<Rightarrow>
    bytes \<Rightarrow> nat \<Rightarrow> c_fault + bytes \<times> nat" where
  "AES_CBC_Decrypt C clen Key klen IV ivlen P ptl =
     (if clen mod 16 \<noteq> 0 then Inr (P, ptl)
      else if \<not> aes_key_len_ok klen then Inr (P, ptl)
      else if ivlen \<noteq> 16 then Inr (P, ptl)
      else case cbc_dec_loop C clen Key klen IV ptl 0 0 P of
        Inl e \<Rightarrow> Inl e
      | Inr (cs, ps, P1) \<Rightarrow>
        if ps = 0 \<or> length P1 < ps then Inl OOBRead
        else Inr (P1, nat ((int ps - uint (P1 ! (ps - 1))) mod 2 ^ 32)))"

subsection \<open>AES_Key_Wrap and AES_Key_Unwrap\<close>

text \<open>
  One step of the wrap: \<open>IV\<close> and block \<open>i\<close> of the result go through the cipher; the step counter
  is exclusive-or'ed into the last byte of the IV only.
\<close>

definition key_wrap_step :: "bytes \<Rightarrow> nat \<Rightarrow> nat \<Rightarrow> bytes \<times> bytes \<Rightarrow> nat \<times> nat \<Rightarrow>
    c_fault + bytes \<times> bytes" where
  "key_wrap_step Key klen n st ji =
     (case RT_AES_Encrypt True (fst st @ slice_at (snd ji * 8) 8 (snd st)) 16 Key klen
        (replicate 16 0) 16 of
        Inl e \<Rightarrow> Inl e
      | Inr (Block_B, _) \<Rightarrow>
          Inr ((take 8 Block_B)[7 := Block_B ! 7 XOR word_of_nat (n * fst ji + snd ji + 1)],
               put_at (snd ji * 8) (drop 8 Block_B) (snd st)))"

definition key_unwrap_step :: "bytes \<Rightarrow> nat \<Rightarrow> nat \<Rightarrow> bytes \<times> bytes \<Rightarrow> nat \<times> nat \<Rightarrow>
    c_fault + bytes \<times> bytes" where
  "key_unwrap_step Key klen n st ji =
     (let IV = (fst st)[7 := fst st ! 7 XOR word_of_nat (n * fst ji + snd ji + 1)] in
      case RT_AES_Decrypt True (IV @ slice_at (snd ji * 8) 8 (snd st)) 16 Key klen
        (replicate 16 0) 16 of
        Inl e \<Rightarrow> Inl e
      | Inr (Block_B, _) \<Rightarrow>
          Inr (take 8 Block_B, put_at (snd ji * 8) (drop 8 Block_B) (snd st)))"

text \<open>The indices of the two nested loops, \<open>j\<close> outer and \<open>i\<close> inner, in the order they run.\<close>

definition wrap_indices :: "nat \<Rightarrow> (nat \<times> nat) list" where
  "wrap_indices n = List.product [0..<6] [0..<n]"

text \<open>The result is the return value, the output buffer and the output length.\<close>

definition AES_Key_Wrap :: "bool \<Rightarrow> bytes \<Rightarrow> nat \<Rightarrow> bytes \<Rightarrow> nat \<Rightarrow> bytes \<Rightarrow> nat \<Rightarrow>
    c_fault + int \<times> bytes \<times> nat" where
  "AES_Key_Wrap kmalloc_ok P plen Key klen C ctl =
     (if \<not> aes_key_len_ok klen then Inr (- 1, C, ctl)
      else if \<not> kmalloc_ok then Inr (- 2, C, ctl)
      else if length P < plen then Inl OOBRead
      else let n = plen div 8 in
        case fold_fault (key_wrap_step Key klen n) (replicate 8 0xa6, take plen P) (wrap_indices n) of
          Inl e \<Rightarrow> Inl e
        | Inr (IV, R) \<Rightarrow>
            if length C < plen + 8 then Inl OOBWrite
            else Inr (0, IV @ R @ drop (plen + 8) C, plen + 8))"

definition AES_Key_Unwrap :: "bool \<Rightarrow> bytes \<Rightarrow> nat \<Rightarrow> bytes \<Rightarrow> nat \<Rightarrow> bytes \<Rightarrow> nat \<Rightarrow>
    c_fault + int \<times> bytes \<times> nat" where
  "AES_Key_Unwrap kmalloc_ok C clen Key klen P ptl =
     (let plen = nat ((int clen - 8) mod 2 ^ 32) in
      if \<not> aes_key_len_ok klen then Inr (- 1, P, ptl)
      else if \<not> kmalloc_ok then Inr (- 2, P, ptl)
      else if length C < 8 + plen then Inl OOBRead
      else let n = plen div 8 in
        case fold_fault (key_unwrap_step Key klen n) (take 8 C, slice_at 8 plen C)
            (rev (wrap_indices n)) of
          Inl e \<Rightarrow> Inl e
        | Inr (IV, R) \<Rightarrow>
            if length P < plen then Inl OOBWrite
            else Inr (0, R @ drop plen P, plen))"

subsection \<open>CBC over byte strings\<close>

function cbc_ref :: "(bytes \<Rightarrow> bytes) \<Rightarrow> bytes \<Rightarrow> bytes \<Rightarrow> bytes" where
  "cbc_ref E X bs =
     (if length bs < 16 then []
      else let c = E (xor_bytes (take 16 bs) X) in c @ cbc_ref E c (drop 16 bs))"
  by pat_completeness auto
termination by (relation "measure (\<lambda>(E, X, bs). length bs)") auto

function cbc_inv_ref :: "(bytes \<Rightarrow> bytes) \<Rightarrow> bytes \<Rightarrow> bytes \<Rightarrow> bytes" where
  "cbc_inv_ref D X cs =
     (if length cs < 16 then []
      else xor_bytes (D (take 16 cs)) X @ cbc_inv_ref D (take 16 cs) (drop 16 cs))"
  by pat_completeness auto
termination by (relation "measure (\<lambda>(D, X, cs). length cs)") auto

declare cbc_ref.simps [simp del] cbc_inv_ref.simps [simp del]
declare cbc_enc_loop.simps [simp del] cbc_dec_loop.simps [simp del]

text \<open>The chaining value after the blocks \<open>out\<close> have been written.\<close>

definition cbc_last :: "bytes \<Rightarrow> bytes \<Rightarrow> bytes" where
  "cbc_last X out = (if out = [] then X else drop (length out - 16) out)"

lemma cbc_ref_short [simp]: "length bs < 16 \<Longrightarrow> cbc_ref E X bs = []"
  by (simp add: cbc_ref.simps)

lemma cbc_inv_ref_short [simp]: "length bs < 16 \<Longrightarrow> cbc_inv_ref E X bs = []"
  by (simp add: cbc_inv_ref.simps)

lemma cbc_ref_block:
  "length b = 16 \<Longrightarrow>
   cbc_ref E X (b @ bs) = E (xor_bytes b X) @ cbc_ref E (E (xor_bytes b X)) bs"
  by (simp add: cbc_ref.simps [of E X "b @ bs"] Let_def)

lemma cbc_inv_ref_block:
  "length c = 16 \<Longrightarrow> cbc_inv_ref D X (c @ cs) = xor_bytes (D c) X @ cbc_inv_ref D c cs"
  by (simp add: cbc_inv_ref.simps [of D X "c @ cs"])

text \<open>Every text of whole blocks is empty or starts with a block.\<close>

lemma blocks_cases:
  assumes "length bs = 16 * Suc k"
  obtains b rest where "bs = b @ rest" "length b = 16" "length rest = 16 * k"
  using that [of "take 16 bs" "drop 16 bs"] assms by simp

context block_cipher
begin

lemma length_cbc_ref: "length bs = 16 * k \<Longrightarrow> length (cbc_ref enc X bs) = 16 * k"
proof (induction k arbitrary: X bs)
  case (Suc k)
  then obtain b rest where "bs = b @ rest" "length b = 16" "length rest = 16 * k"
    by (metis blocks_cases)
  with Suc.IH show ?case by (simp add: cbc_ref_block length_enc)
qed simp

lemma length_cbc_inv_ref:
  "length cs = 16 * k \<Longrightarrow> length X = 16 \<Longrightarrow> length (cbc_inv_ref dec X cs) = 16 * k"
proof (induction k arbitrary: X cs)
  case (Suc k)
  then obtain b rest where "cs = b @ rest" "length b = 16" "length rest = 16 * k"
    by (metis blocks_cases)
  with Suc show ?case by (simp add: cbc_inv_ref_block length_dec)
qed simp

lemma cbc_inv_cbc:
  "length bs = 16 * k \<Longrightarrow> length X = 16 \<Longrightarrow> cbc_inv_ref dec X (cbc_ref enc X bs) = bs"
proof (induction k arbitrary: X bs)
  case (Suc k)
  then obtain b rest where "bs = b @ rest" "length b = 16" "length rest = 16 * k"
    by (metis blocks_cases)
  with Suc show ?case
    by (simp add: cbc_ref_block cbc_inv_ref_block length_enc dec_enc)
qed simp

lemma length_cbc_last:
  "length X = 16 \<Longrightarrow> length out = 16 * k \<Longrightarrow> length (cbc_last X out) = 16"
  by (cases k) (auto simp: cbc_last_def)

end

subsection \<open>The loops compute CBC\<close>

lemma slice_at_add: "slice_at i (m + n) xs = slice_at i m xs @ slice_at (i + m) n xs"
  by (simp add: slice_at_def take_add add.commute)

lemma cbc_last_block: "length c = 16 \<Longrightarrow> cbc_last X (pre @ c) = c"
  by (auto simp: cbc_last_def)

lemma cbc_chain_last:
  assumes "length pre = 16 * m"
  shows "cbc_chain IV (pre @ rest) (16 * m) = cbc_last (take 16 IV) pre"
  using assms by (cases m) (auto simp: cbc_chain_def cbc_last_def slice_at_def)

lemma aes_key_lenD: "aes_key_len_ok klen \<Longrightarrow> 16 \<le> klen"
  by (auto simp: aes_key_len_ok_def)

lemma cbc_enc_loop_run:
  assumes key: "aes_key_len_ok klen" "klen \<le> length Key" and iv: "16 \<le> length IV"
    and plen: "plen \<le> length P" "plen - 16 * m = 16 * k + r" "r < 16"
    and room: "length pre = 16 * m" "16 * k + 16 \<le> length rest" "16 * (m + k) + 16 \<le> ctl"
  shows "cbc_enc_loop P plen Key klen IV ctl (16 * m) (16 * m) (pre @ rest) =
    Inr (16 * (m + k), 16 * (m + k),
      pre @ cbc_ref (aes_enc_block Key klen) (cbc_last (take 16 IV) pre) (slice_at (16 * m) (16 * k) P)
        @ drop (16 * k) rest)"
  using plen room
proof (induction k arbitrary: m pre rest)
  case 0
  then show ?case by (subst cbc_enc_loop.simps) simp
next
  case (Suc k)
  let ?X = "cbc_last (take 16 IV) pre"
  let ?b = "xor_bytes (slice_at (16 * m) 16 P) ?X"
  let ?c = "aes_enc_block Key klen ?b"
  have X: "length ?X = 16" using iv Suc.prems by (intro aes.length_cbc_last) simp_all
  have b: "length (slice_at (16 * m) 16 P) = 16" using Suc.prems by simp
  have step: "RT_AES_Encrypt True ?b 16 Key klen rest (ctl - 16 * m) = Inr (?c @ drop 16 rest, 16)"
    using key Suc.prems X b by (intro RT_AES_Encrypt_ok) simp_all
  have IH: "cbc_enc_loop P plen Key klen IV ctl (16 * Suc m) (16 * Suc m) ((pre @ ?c) @ drop 16 rest) =
    Inr (16 * (Suc m + k), 16 * (Suc m + k),
      (pre @ ?c) @ cbc_ref (aes_enc_block Key klen) (cbc_last (take 16 IV) (pre @ ?c))
        (slice_at (16 * Suc m) (16 * k) P) @ drop (16 * k) (drop 16 rest))"
    using Suc.prems by (intro Suc.IH) (simp_all add: aes.length_enc)
  have ref: "cbc_ref (aes_enc_block Key klen) ?X (slice_at (16 * m) (16 * Suc k) P) =
      ?c @ cbc_ref (aes_enc_block Key klen) ?c (slice_at (16 * Suc m) (16 * k) P)"
    using b slice_at_add [of "16 * m" 16 "16 * k" P] by (simp add: cbc_ref_block add.commute)
  show ?case
    using IH step ref Suc.prems
    by (subst cbc_enc_loop.simps)
      (simp add: cbc_chain_last cbc_last_block aes.length_enc add.commute)
qed

lemma cbc_dec_loop_run:
  assumes key: "aes_key_len_ok klen" "klen \<le> length Key" and iv: "16 \<le> length IV"
    and clen: "16 * (m + k) \<le> length C" "clen = 16 * (m + k)"
    and room: "length pre = 16 * m" "16 * k \<le> length rest" "16 * (m + k) \<le> ptl"
  shows "cbc_dec_loop C clen Key klen IV ptl (16 * m) (16 * m) (pre @ rest) =
    Inr (16 * (m + k), 16 * (m + k),
      pre @ cbc_inv_ref (aes_dec_block Key klen) (cbc_last (take 16 IV) (take (16 * m) C))
          (slice_at (16 * m) (16 * k) C)
        @ drop (16 * k) rest)"
  using clen room
proof (induction k arbitrary: m pre rest)
  case 0
  then show ?case by (subst cbc_dec_loop.simps) simp
next
  case (Suc k)
  let ?D = "aes_dec_block Key klen"
  let ?X = "cbc_last (take 16 IV) (take (16 * m) C)"
  let ?c = "slice_at (16 * m) 16 C"
  let ?p = "xor_bytes (?D ?c) ?X"
  have X: "length ?X = 16"
    using iv Suc.prems by (intro aes.length_cbc_last [of _ _ m]) simp_all
  have c: "length ?c = 16" using Suc.prems by simp
  have "RT_AES_Decrypt True (drop (16 * m) C) 16 Key klen rest (ptl - 16 * m) =
      Inr (aes_dec_block Key klen (drop (16 * m) C) @ drop 16 rest, 16)"
    using key Suc.prems by (intro RT_AES_Decrypt_ok) simp_all
  moreover have "aes_dec_block Key klen (drop (16 * m) C) = ?D ?c"
    using block_state_append [of ?c "drop 16 (drop (16 * m) C)"] c
    by (simp add: aes_dec_block_def slice_at_def del: drop_drop)
  ultimately have step: "RT_AES_Decrypt True (drop (16 * m) C) 16 Key klen rest (ptl - 16 * m) =
      Inr (?D ?c @ drop 16 rest, 16)" by simp
  have chain: "(if 16 * m = 0 then take 16 IV else slice_at (16 * m - 16) 16 C) = ?X"
    using Suc.prems by (cases m) (auto simp: cbc_last_def slice_at_def drop_take)
  have last: "cbc_last (take 16 IV) (take (16 * Suc m) C) = ?c"
    using cbc_last_block [OF c, of "take 16 IV" "take (16 * m) C"] take_add [of "16 * m" 16 C]
    by (simp add: slice_at_def add.commute)
  have IH: "cbc_dec_loop C clen Key klen IV ptl (16 * Suc m) (16 * Suc m) ((pre @ ?p) @ drop 16 rest) =
    Inr (16 * (Suc m + k), 16 * (Suc m + k),
      (pre @ ?p) @ cbc_inv_ref ?D (cbc_last (take 16 IV) (take (16 * Suc m) C))
        (slice_at (16 * Suc m) (16 * k) C) @ drop (16 * k) (drop 16 rest))"
    using Suc.prems X by (intro Suc.IH) (simp_all add: aes.length_dec)
  have ref: "cbc_inv_ref ?D ?X (slice_at (16 * m) (16 * Suc k) C) =
      ?p @ cbc_inv_ref ?D ?c (slice_at (16 * Suc m) (16 * k) C)"
    using c slice_at_add [of "16 * m" 16 "16 * k" C] by (simp add: cbc_inv_ref_block add.commute)
  have guards: "(16 \<le> clen - 16 * m) = True" "(length C < 16 * m + 16) = False"
      "(length (?D ?c @ drop 16 rest) < 16) = False"
    using Suc.prems by (simp_all add: aes.length_dec)
  have parts: "drop (16 * m) (pre @ rest) = rest" "take (16 * m) (pre @ rest) = pre"
      "take 16 (?D ?c @ drop 16 rest) = ?D ?c" "drop 16 (?D ?c @ drop 16 rest) = drop 16 rest"
    using Suc.prems by (simp_all add: aes.length_dec)
  have "cbc_dec_loop C clen Key klen IV ptl (16 * m) (16 * m) (pre @ rest) =
      cbc_dec_loop C clen Key klen IV ptl (16 * m + 16) (16 * m + 16) (pre @ ?p @ drop 16 rest)"
    by (subst cbc_dec_loop.simps)
      (simp only: guards parts step chain if_True if_False sum.case prod.case Let_def)
  with IH [unfolded last] ref show ?case by (simp add: add.commute)
qed

subsection \<open>Properties of CBC\<close>

text \<open>The padded text: each of the 1 to 16 padding bytes holds their number.\<close>

definition cbc_pad :: "bytes \<Rightarrow> bytes" where
  "cbc_pad bs = bs @ replicate (16 - length bs mod 16) (word_of_nat (16 - length bs mod 16))"

lemma length_cbc_pad: "length (cbc_pad bs) = 16 * (length bs div 16 + 1)"
proof -
  have "length bs + (16 - length bs mod 16) = 16 * (length bs div 16 + 1)" by presburger
  then show ?thesis by (simp add: cbc_pad_def)
qed

lemma cbc_ref_append:
  "length bs = 16 * k \<Longrightarrow> length X = 16 \<Longrightarrow> cbc_ref (aes_enc_block Key klen) X (bs @ ys) =
   cbc_ref (aes_enc_block Key klen) X bs @
   cbc_ref (aes_enc_block Key klen) (cbc_last X (cbc_ref (aes_enc_block Key klen) X bs)) ys"
proof (induction k arbitrary: X bs)
  case (Suc k)
  let ?E = "aes_enc_block Key klen"
  obtain b rest where bs: "bs = b @ rest" "length b = 16" "length rest = 16 * k"
    using Suc.prems(1) by (metis blocks_cases)
  let ?c = "?E (xor_bytes b X)"
  have c: "length ?c = 16" by (rule aes.length_enc)
  have "cbc_last X (?c @ cbc_ref ?E ?c rest) = cbc_last ?c (cbc_ref ?E ?c rest)"
    using c aes.length_cbc_ref [OF bs(3), of Key klen ?c] by (cases k) (auto simp: cbc_last_def)
  with bs c Suc.IH [OF bs(3) c] show ?case by (simp add: cbc_ref_block)
qed (simp add: cbc_last_def)

lemma AES_CBC_Encrypt_eq:
  assumes key: "aes_key_len_ok klen" "klen \<le> length Key" and iv: "length IV = 16"
    and room: "length C = ctl" "length (cbc_pad P) \<le> ctl"
  shows "AES_CBC_Encrypt P (length P) Key klen IV 16 C ctl =
    Inr (cbc_ref (aes_enc_block Key klen) IV (cbc_pad P) @ drop (length (cbc_pad P)) C,
         length (cbc_pad P))"
proof -
  let ?E = "aes_enc_block Key klen" and ?k = "length P div 16" and ?r = "length P mod 16"
  let ?q = "16 * ?k" and ?pad = "16 - length P mod 16"
  let ?out = "cbc_ref ?E IV (take ?q P)"
  let ?tail = "drop ?q P @ replicate ?pad (word_of_nat ?pad)"
  let ?b = "xor_bytes ?tail (cbc_last IV ?out)"
  have r: "length P = ?q + ?r" "?r < 16" by simp_all
  then have pad: "length P + ?pad = ?q + 16" by linarith
  have len: "length (cbc_pad P) = ?q + 16" by (simp add: length_cbc_pad)
  have split: "cbc_pad P = take ?q P @ ?tail" by (simp add: cbc_pad_def)
  have lo: "length ?out = ?q" by (rule aes.length_cbc_ref) simp
  have lt: "length ?tail = 16" using r by simp
  have X: "length (cbc_last IV ?out) = 16" using iv lo by (rule aes.length_cbc_last)
  have loop: "cbc_enc_loop P (length P) Key klen IV ctl 0 0 C = Inr (?q, ?q, ?out @ drop ?q C)"
    using cbc_enc_loop_run [OF key, of IV "length P" P 0 ?k ?r "[]" C ctl] iv r room len
    by (simp add: slice_at_def cbc_last_def)
  have step: "RT_AES_Encrypt True ?b 16 Key klen (drop ?q C) (ctl - ?q) =
      Inr (?E ?b @ drop 16 (drop ?q C), 16)"
    using key X lt room len by (intro RT_AES_Encrypt_ok) simp_all
  have "cbc_ref ?E IV (cbc_pad P) = ?out @ ?E ?b"
    using cbc_ref_append [of "take ?q P" ?k IV Key klen ?tail] iv lt
      cbc_ref_block [of ?tail ?E "cbc_last IV ?out" "[]"] split by simp
  moreover have "slice_at ?q (length P - ?q) P = drop ?q P" by (simp add: slice_at_def)
  moreover have "cbc_chain IV (?out @ drop ?q C) ?q = cbc_last IV ?out"
    using cbc_chain_last [OF lo, of IV] iv by simp
  ultimately show ?thesis
    using key room len pad loop step lo
    by (simp add: AES_CBC_Encrypt_def Let_def add.commute)
qed

lemma AES_CBC_Decrypt_eq:
  assumes key: "aes_key_len_ok klen" "klen \<le> length Key" and iv: "length IV = 16"
    and C: "length C = 16 * Suc k" and room: "length P = ptl" "length C \<le> ptl"
  defines "T \<equiv> cbc_inv_ref (aes_dec_block Key klen) IV C"
  shows "AES_CBC_Decrypt C (length C) Key klen IV 16 P ptl =
    Inr (T @ drop (length C) P, nat ((int (length C) - uint (last T)) mod 2 ^ 32))"
proof -
  have lT: "length T = length C" using aes.length_cbc_inv_ref [OF C iv] C by (simp add: T_def)
  then have last: "(T @ drop (length C) P) ! (length C - 1) = last T"
    using C by (subst last_conv_nth) (auto simp: nth_append)
  have "cbc_dec_loop C (length C) Key klen IV ptl 0 0 P =
      Inr (length C, length C, T @ drop (length C) P)"
    using cbc_dec_loop_run [OF key, of IV 0 "Suc k" C "length C" "[]" P ptl] iv C room
    by (simp add: T_def slice_at_def cbc_last_def)
  then show ?thesis
    using key C room lT last by (simp add: AES_CBC_Decrypt_def)
qed

text \<open>\<^verbatim>\<open>AES_CBC_Encrypt\<close> then \<^verbatim>\<open>AES_CBC_Decrypt\<close> give the text and its length back, for every
  text length (a multiple of 16 gets a whole block of padding) and every key length; the cipher text
  is the text rounded up to the next multiple of 16.\<close>

theorem AES_CBC_roundtrip:
  assumes "KeyLength \<in> {16, 24, 32}" and "KeyLength \<le> length Key" and "length IV = 16"
    and "length C = ctl" and "length P + (16 - length P mod 16) \<le> ctl"
    and "length out = ptl" and "length P + (16 - length P mod 16) \<le> ptl" and "length P < 2 ^ 32"
  shows "\<exists>cipher n rest.
    AES_CBC_Encrypt P (length P) Key KeyLength IV 16 C ctl = Inr (cipher, n) \<and>
    n = length P + (16 - length P mod 16) \<and> drop n cipher = drop n C \<and>
    AES_CBC_Decrypt (take n cipher) n Key KeyLength IV 16 out ptl = Inr (P @ rest, length P)"
proof -
  let ?n = "length (cbc_pad P)" and ?E = "aes_enc_block Key KeyLength"
  let ?c = "cbc_ref ?E IV (cbc_pad P)"
  have key: "aes_key_len_ok KeyLength" using assms(1) by (auto simp: aes_key_len_ok_def)
  have n: "?n = length P + (16 - length P mod 16)" by (simp add: cbc_pad_def)
  have k: "?n = 16 * Suc (length P div 16)" by (simp add: length_cbc_pad)
  have lc: "length ?c = ?n" using aes.length_cbc_ref [OF k] k by simp
  have inv: "cbc_inv_ref (aes_dec_block Key KeyLength) IV ?c = cbc_pad P"
    by (rule aes.cbc_inv_cbc [OF k assms(3)])
  define m where "m = 16 - length P mod 16"
  then have m: "0 < m" "m \<le> 16" by simp_all
  have "cbc_pad P = P @ replicate m (word_of_nat m)" by (simp only: cbc_pad_def m_def)
  then have "last (cbc_pad P) = word_of_nat m" using m by simp
  then have "uint (last (cbc_pad P)) = int (16 - length P mod 16)"
    using m by (simp add: unsigned_of_nat take_bit_nat_eq_self m_def [symmetric])
  then have pl: "nat ((int ?n - uint (last (cbc_pad P))) mod 2 ^ 32) = length P"
    using assms(8) n by simp
  have e: "AES_CBC_Encrypt P (length P) Key KeyLength IV 16 C ctl = Inr (?c @ drop ?n C, ?n)"
    using assms(5) by (intro AES_CBC_Encrypt_eq [OF key assms(2,3,4)]) (simp only: n)
  have "AES_CBC_Decrypt ?c (length ?c) Key KeyLength IV 16 out ptl =
      Inr (cbc_pad P @ drop ?n out, length P)"
    using AES_CBC_Decrypt_eq [OF key assms(2,3) trans [OF lc k] assms(6)] assms(7) n inv lc pl
    by simp
  then have d: "AES_CBC_Decrypt (take ?n (?c @ drop ?n C)) ?n Key KeyLength IV 16 out ptl =
      Inr (cbc_pad P @ drop ?n out, length P)" using lc by simp
  have r: "cbc_pad P @ drop ?n out = P @ replicate (16 - length P mod 16)
      (word_of_nat (16 - length P mod 16)) @ drop ?n out" by (simp only: cbc_pad_def append_assoc)
  have t: "drop ?n (?c @ drop ?n C) = drop ?n C" using lc by simp
  show ?thesis using e n t d [unfolded r] by blast
qed

lemma AES_CBC_roundtrip_witness:
  "\<exists>cipher n rest.
    AES_CBC_Encrypt [1, 2, 3] (length [1, 2, 3 :: u8]) (replicate 16 5) 16 (replicate 16 9) 16
        (replicate 16 0) 16 = Inr (cipher, n) \<and>
    n = length [1, 2, 3 :: u8] + (16 - length [1, 2, 3 :: u8] mod 16) \<and>
    drop n cipher = drop n (replicate 16 0) \<and>
    AES_CBC_Decrypt (take n cipher) n (replicate 16 5) 16 (replicate 16 9) 16 (replicate 20 0) 20 =
      Inr ([1, 2, 3] @ rest, length [1, 2, 3 :: u8])"
  by (rule AES_CBC_roundtrip) simp_all

text \<open>\<^verbatim>\<open>AES_CBC_Decrypt\<close> does not check the padding: under every key and IV there is a one-block
  cipher text that decrypts to sixteen bytes 255, for which it reports a text of \<open>2^32 - 239\<close>
  bytes in a 16-byte result.\<close>

theorem AES_CBC_padding_unchecked:
  assumes "KeyLength \<in> {16, 24, 32}" and "KeyLength \<le> length Key" and "length IV = 16"
    and "length out = 16"
  shows "\<exists>C. length C = 16 \<and>
    AES_CBC_Decrypt C 16 Key KeyLength IV 16 out 16 = Inr (replicate 16 255, 2 ^ 32 - 239)"
proof -
  let ?E = "aes_enc_block Key KeyLength" and ?T = "replicate 16 (255 :: u8)"
  let ?C = "?E (xor_bytes ?T IV)"
  have key: "aes_key_len_ok KeyLength" using assms(1) by (auto simp: aes_key_len_ok_def)
  have C: "length ?C = 16" by (rule aes.length_enc)
  have "aes_dec_block Key KeyLength ?C = xor_bytes ?T IV"
    using assms(3) by (intro aes.dec_enc) simp
  then have "cbc_inv_ref (aes_dec_block Key KeyLength) IV ?C = ?T"
    using cbc_inv_ref_block [OF C, of "aes_dec_block Key KeyLength" IV "[]"] assms(3) by simp
  moreover have "last ?T = 255" by (simp add: numeral_eq_Suc)
  ultimately show ?thesis
    using AES_CBC_Decrypt_eq [OF key assms(2,3), of ?C 0 out 16] assms(4) C
    by (intro exI [of _ ?C]) simp
qed

lemma AES_CBC_padding_unchecked_witness:
  "\<exists>C. length C = 16 \<and>
    AES_CBC_Decrypt C 16 (replicate 16 1) 16 (replicate 16 2) 16 (replicate 16 0) 16 =
      Inr (replicate 16 255, 2 ^ 32 - 239)"
  by (rule AES_CBC_padding_unchecked) simp_all

subsection \<open>Key wrap\<close>

text \<open>The two steps without the fault plumbing.\<close>

definition wrap_step :: "(bytes \<Rightarrow> bytes) \<Rightarrow> nat \<Rightarrow> bytes \<times> bytes \<Rightarrow> nat \<times> nat \<Rightarrow> bytes \<times> bytes" where
  "wrap_step E n st ji =
     (let B = E (fst st @ slice_at (snd ji * 8) 8 (snd st))
      in ((take 8 B)[7 := B ! 7 XOR word_of_nat (n * fst ji + snd ji + 1)],
          put_at (snd ji * 8) (drop 8 B) (snd st)))"

definition unwrap_step :: "(bytes \<Rightarrow> bytes) \<Rightarrow> nat \<Rightarrow> bytes \<times> bytes \<Rightarrow> nat \<times> nat \<Rightarrow> bytes \<times> bytes" where
  "unwrap_step D n st ji =
     (let B = D ((fst st)[7 := fst st ! 7 XOR word_of_nat (n * fst ji + snd ji + 1)] @
                 slice_at (snd ji * 8) 8 (snd st))
      in (take 8 B, put_at (snd ji * 8) (drop 8 B) (snd st)))"

definition wrap_inv :: "nat \<Rightarrow> bytes \<times> bytes \<Rightarrow> bool" where
  "wrap_inv L st \<longleftrightarrow> length (fst st) = 8 \<and> length (snd st) = L"

context block_cipher
begin

lemma wrap_step_inv:
  assumes "wrap_inv L st" "8 * n \<le> L" "snd ji < n"
  shows "wrap_inv L (wrap_step enc n st ji)" and "wrap_inv L (unwrap_step dec n st ji)"
  using assms by (simp_all add: wrap_inv_def wrap_step_def unwrap_step_def Let_def length_enc length_dec)

lemma unwrap_wrap_step:
  assumes "wrap_inv L st" "8 * n \<le> L" "snd ji < n"
  shows "unwrap_step dec n (wrap_step enc n st ji) ji = st"
proof -
  let ?i = "snd ji * 8"
  let ?B = "enc (fst st @ slice_at ?i 8 (snd st))"
  have i: "?i + 8 \<le> length (snd st)" using assms by (simp add: wrap_inv_def)
  have len: "length ?B = 16" "length (fst st) = 8" using assms by (simp_all add: length_enc wrap_inv_def)
  then have d: "dec ?B = fst st @ slice_at ?i 8 (snd st)" using i by (intro dec_enc) simp
  have iv: "((take 8 ?B)[7 := ?B ! 7 XOR t])[7 := (take 8 ?B)[7 := ?B ! 7 XOR t] ! 7 XOR t] = take 8 ?B"
    for t using len list_update_id [of "take 8 ?B" 7] by simp
  have sl: "slice_at ?i 8 (put_at ?i (drop 8 ?B) (snd st)) = drop 8 ?B"
    using slice_put_same [of ?i "drop 8 ?B" "snd st"] i len by simp
  have "put_at ?i (slice_at ?i 8 (snd st)) (put_at ?i (drop 8 ?B) (snd st)) = snd st"
    using i len put_at_slice [OF i] by simp
  with iv sl d len show ?thesis
    by (simp add: unwrap_step_def wrap_step_def Let_def prod_eq_iff)
qed

end

lemma wrap_indices_bound: "ji \<in> set (wrap_indices n) \<Longrightarrow> snd ji < n"
  by (auto simp: wrap_indices_def)

lemma key_wrap_step_eq:
  assumes "aes_key_len_ok klen" "klen \<le> length Key" "wrap_inv L st" "8 * n \<le> L" "snd ji < n"
  shows "key_wrap_step Key klen n st ji = Inr (wrap_step (aes_enc_block Key klen) n st ji)"
    and "key_unwrap_step Key klen n st ji = Inr (unwrap_step (aes_dec_block Key klen) n st ji)"
  using assms
  by (simp_all add: key_wrap_step_def key_unwrap_step_def wrap_step_def unwrap_step_def Let_def
      RT_AES_Encrypt_ok RT_AES_Decrypt_ok wrap_inv_def)

lemma key_wrap_loop:
  assumes key: "aes_key_len_ok klen" "klen \<le> length Key" and "wrap_inv L st" "8 * n \<le> L"
    and is_sub: "set is \<subseteq> set (wrap_indices n)"
  shows "fold_fault (key_wrap_step Key klen n) st is =
      Inr (foldl (wrap_step (aes_enc_block Key klen) n) st is) \<and>
      wrap_inv L (foldl (wrap_step (aes_enc_block Key klen) n) st is)" (is ?wrap)
    and "fold_fault (key_unwrap_step Key klen n) st is =
      Inr (foldl (unwrap_step (aes_dec_block Key klen) n) st is) \<and>
      wrap_inv L (foldl (unwrap_step (aes_dec_block Key klen) n) st is)" (is ?unwrap)
proof -
  have bound: "snd ji < n" if "ji \<in> set is" for ji using that is_sub wrap_indices_bound by blast
  show ?wrap
    using assms(3,4) bound key_wrap_step_eq(1) [OF key] aes.wrap_step_inv(1)
    by (intro fold_fault_foldl) auto
  show ?unwrap
    using assms(3,4) bound key_wrap_step_eq(2) [OF key] aes.wrap_step_inv(2)
    by (intro fold_fault_foldl) auto
qed

lemma key_wrap_inverse:
  assumes "KeyLength \<in> {16, 24, 32}" and "KeyLength \<le> length Key"
    and "length P + 8 \<le> length C" and "length P \<le> length out" and "length P < 2 ^ 32"
  shows "\<exists>cipher. AES_Key_Wrap True P (length P) Key KeyLength C ctl =
      Inr (0, cipher @ drop (length P + 8) C, length P + 8) \<and> length cipher = length P + 8 \<and>
    AES_Key_Unwrap True cipher (length P + 8) Key KeyLength out ptl =
      Inr (0, P @ drop (length P) out, length P)"
proof -
  have key: "aes_key_len_ok KeyLength" using assms(1) by (auto simp: aes_key_len_ok_def)
  let ?n = "length P div 8" and ?L = "length P"
  let ?wrap = "wrap_step (aes_enc_block Key KeyLength) ?n"
  let ?unwrap = "unwrap_step (aes_dec_block Key KeyLength) ?n"
  let ?st0 = "(replicate 8 0xa6, P)"
  obtain IV R where st: "foldl ?wrap ?st0 (wrap_indices ?n) = (IV, R)" by fastforce
  have i0: "wrap_inv ?L ?st0" and n: "8 * ?n \<le> ?L" by (simp_all add: wrap_inv_def)
  have w: "fold_fault (key_wrap_step Key KeyLength ?n) ?st0 (wrap_indices ?n) = Inr (IV, R)"
    and i1: "wrap_inv ?L (IV, R)"
    using key_wrap_loop(1) [OF key assms(2) i0 n, of "wrap_indices ?n"] st by simp_all
  have "foldl ?unwrap (foldl ?wrap ?st0 (wrap_indices ?n)) (rev (wrap_indices ?n)) = ?st0"
    using i0 n aes.wrap_step_inv(1) aes.unwrap_wrap_step wrap_indices_bound
    by (intro foldl_undo [where I = "wrap_inv ?L"]) blast+
  then have u: "fold_fault (key_unwrap_step Key KeyLength ?n) (IV, R) (rev (wrap_indices ?n)) = Inr ?st0"
    using key_wrap_loop(2) [OF key assms(2) i1 n, of "rev (wrap_indices ?n)"] st by simp
  have len: "length IV = 8" "length R = ?L" using i1 by (simp_all add: wrap_inv_def)
  have pl: "nat ((int (?L + 8) - 8) mod 2 ^ 32) = ?L" using assms(5) by simp
  have parts: "take 8 (IV @ R) = IV" "slice_at 8 ?L (IV @ R) = R"
    using len by (simp_all add: slice_at_def)
  show ?thesis
    using key assms w len u
    by (intro exI [of _ "IV @ R"], simp only: AES_Key_Unwrap_def pl parts Let_def)
      (simp add: AES_Key_Wrap_def Let_def)
qed

text \<open>\<^verbatim>\<open>AES_Key_Unwrap\<close> inverts \<^verbatim>\<open>AES_Key_Wrap\<close>: both return 0, the wrapped key is eight bytes
  longer, and unwrapping it gives the key data and its length back (also when the length is not a
  multiple of eight).\<close>

theorem AES_Key_Wrap_roundtrip:
  assumes "KeyLength \<in> {16, 24, 32}" and "KeyLength \<le> length Key"
    and "length P + 8 \<le> length C" and "length P \<le> length out" and "length P < 2 ^ 32"
  shows "\<exists>cipher. AES_Key_Wrap True P (length P) Key KeyLength C ctl =
      Inr (0, cipher @ drop (length P + 8) C, length P + 8) \<and> length cipher = length P + 8 \<and>
    AES_Key_Unwrap True cipher (length P + 8) Key KeyLength out ptl =
      Inr (0, P @ drop (length P) out, length P)"
  using key_wrap_inverse [OF assms] .

lemma AES_Key_Wrap_roundtrip_witness:
  "\<exists>cipher. AES_Key_Wrap True (replicate 16 3) (length (replicate 16 (3 :: u8))) (replicate 16 1) 16
        (replicate 24 0) 0 =
      Inr (0, cipher @ drop (length (replicate 16 (3 :: u8)) + 8) (replicate 24 0),
           length (replicate 16 (3 :: u8)) + 8) \<and>
    length cipher = length (replicate 16 (3 :: u8)) + 8 \<and>
    AES_Key_Unwrap True cipher (length (replicate 16 (3 :: u8)) + 8) (replicate 16 1) 16
        (replicate 16 0) 0 =
      Inr (0, replicate 16 3 @ drop (length (replicate 16 (3 :: u8))) (replicate 16 0),
           length (replicate 16 (3 :: u8)))"
  by (rule AES_Key_Wrap_roundtrip) simp_all

text \<open>\<^verbatim>\<open>AES_Key_Unwrap\<close> never compares the recovered IV with the constant of RFC 3394: it
  returns 0 for every input of at least eight bytes, so a wrapped key that was altered, or wrapped
  under another key, is accepted.\<close>

theorem AES_Key_Unwrap_accepts_all:
  assumes "KeyLength \<in> {16, 24, 32}" and "KeyLength \<le> length Key"
    and "length C = n + 8" and "n \<le> length out" and "n < 2 ^ 32"
  shows "\<exists>P. length P = n \<and>
    AES_Key_Unwrap True C (n + 8) Key KeyLength out ptl = Inr (0, P @ drop n out, n)"
proof -
  have key: "aes_key_len_ok KeyLength" using assms(1) by (auto simp: aes_key_len_ok_def)
  let ?k = "n div 8" and ?st = "(take 8 C, slice_at 8 n C)"
  have i0: "wrap_inv n ?st" and k: "8 * ?k \<le> n" using assms(3) by (simp_all add: wrap_inv_def)
  obtain IV R where st:
    "fold_fault (key_unwrap_step Key KeyLength ?k) ?st (rev (wrap_indices ?k)) = Inr (IV, R)"
    "wrap_inv n (IV, R)"
    using key_wrap_loop(2) [OF key assms(2) i0 k, of "rev (wrap_indices ?k)"]
    by (metis set_rev subset_refl prod.collapse)
  have pl: "nat ((int (n + 8) - 8) mod 2 ^ 32) = n" using assms(5) by simp
  show ?thesis
    using key assms(3,4) st
    by (intro exI [of _ R], simp only: AES_Key_Unwrap_def pl Let_def) (simp add: wrap_inv_def)
qed

lemma AES_Key_Unwrap_accepts_all_witness:
  "\<exists>P. length P = 16 \<and>
    AES_Key_Unwrap True (replicate 24 0) (16 + 8) (replicate 16 1) 16 (replicate 16 0) 0 =
      Inr (0, P @ drop 16 (replicate 16 0), 16)"
  by (rule AES_Key_Unwrap_accepts_all) simp_all

end
