(* ===== verification/AesCcm.thy ===== *)
theory AesCcm
  imports AesModes
begin

text \<open>
  CCM (counter mode with CBC-MAC, RFC 3610) of \<^verbatim>\<open>common/crypt_aes.c\<close>: \<^verbatim>\<open>AES_CCM_MAC\<close>,
  \<^verbatim>\<open>AES_CCM_Encrypt\<close> and \<^verbatim>\<open>AES_CCM_Decrypt\<close>. The loops consume the remaining text instead of moving
  an index over it; lengths are \<^verbatim>\<open>UINT\<close>, and the sums that can wrap are written modulo \<open>2^32\<close>.
\<close>

subsection \<open>AES_CCM_MAC\<close>

definition pad16 :: "bytes \<Rightarrow> bytes" where
  "pad16 bs = bs @ replicate (16 - length bs) 0"

text \<open>The encryption of one block into a 16-byte block, whose old content is replaced.\<close>

definition ccm_encrypt_block :: "bytes \<Rightarrow> nat \<Rightarrow> bytes \<Rightarrow> c_fault + bytes" where
  "ccm_encrypt_block Key klen b =
     (case RT_AES_Encrypt True b 16 Key klen (replicate 16 0) 16 of
        Inl e \<Rightarrow> Inl e | Inr (out, _) \<Rightarrow> Inr out)"

text \<open>Block \<open>B0\<close>: flags, nonce, and the low bytes of the payload length in what is left.\<close>

definition ccm_b0 :: "nat \<Rightarrow> bytes \<Rightarrow> nat \<Rightarrow> nat \<Rightarrow> nat \<Rightarrow> bytes" where
  "ccm_b0 plen Nonce nlen alen mlen =
     (let flags = (if 0 < alen then 0x40 else 0) OR
            ucast (push_bit 3 (drop_bit 1 (word_of_nat mlen - 2 :: u32))) OR
            ucast (15 - word_of_nat nlen - 1 :: u32);
          b0 = pad16 (flags # take nlen Nonce);
          b1 = (if nlen < 12 then b0[12 := word_of_nat (plen div 2 ^ 24)] else b0);
          b2 = (if nlen < 13 then b1[13 := word_of_nat (plen div 2 ^ 16)] else b1)
      in b2[14 := word_of_nat (plen div 2 ^ 8), 15 := word_of_nat plen])"

text \<open>The length prefix of the additional data; a long one leaves the first two bytes zero.\<close>

definition ccm_aad_prefix :: "nat \<Rightarrow> bytes" where
  "ccm_aad_prefix alen =
     (if 0 < alen \<and> alen < 0xFF00 then [word_of_nat (alen div 2 ^ 8), word_of_nat alen]
      else [0, 0, word_of_nat (alen div 2 ^ 24), word_of_nat (alen div 2 ^ 16),
            word_of_nat (alen div 2 ^ 8), word_of_nat alen])"

text \<open>
  \<open>hdr\<close> is what the block already holds before additional data is copied behind it
  (\<^verbatim>\<open>Block_Index\<close> bytes; none after the first round).
\<close>

function ccm_aad_loop :: "bytes \<Rightarrow> nat \<Rightarrow> bytes \<Rightarrow> bytes \<Rightarrow> bytes \<Rightarrow> c_fault + bytes" where
  "ccm_aad_loop Key klen mac hdr AAD =
     (if AAD = [] \<or> 16 \<le> length hdr then Inr mac
      else let n = min (length AAD) (16 - length hdr) in
        case ccm_encrypt_block Key klen (xor_bytes (pad16 (hdr @ take n AAD)) mac) of
          Inl e \<Rightarrow> Inl e
        | Inr mac' \<Rightarrow> ccm_aad_loop Key klen mac' [] (drop n AAD))"
  by pat_completeness auto
termination
  by (relation "measure (\<lambda>(Key, klen, mac, hdr, AAD). length AAD)") auto

function ccm_payload_loop :: "bytes \<Rightarrow> nat \<Rightarrow> bytes \<Rightarrow> bytes \<Rightarrow> c_fault + bytes" where
  "ccm_payload_loop Key klen mac Payload =
     (if Payload = [] then Inr mac
      else case ccm_encrypt_block Key klen (xor_bytes (pad16 (take 16 Payload)) mac) of
          Inl e \<Rightarrow> Inl e
        | Inr mac' \<Rightarrow> ccm_payload_loop Key klen mac' (drop 16 Payload))"
  by pat_completeness auto
termination
  by (relation "measure (\<lambda>(Key, klen, mac, Payload). length Payload)") auto

declare ccm_aad_loop.simps [simp del] ccm_payload_loop.simps [simp del]

definition AES_CCM_MAC :: "bytes \<Rightarrow> nat \<Rightarrow> bytes \<Rightarrow> nat \<Rightarrow> bytes \<Rightarrow> nat \<Rightarrow> bytes \<Rightarrow> nat \<Rightarrow> nat \<Rightarrow>
    c_fault + bytes" where
  "AES_CCM_MAC Payload plen Key klen Nonce nlen AAD alen mlen =
     (if length Nonce < nlen \<or> length AAD < alen \<or> length Payload < plen \<or> 16 < mlen then Inl OOBRead
      else if 15 < nlen then Inl OOBWrite
      else case ccm_encrypt_block Key klen (ccm_b0 plen Nonce nlen alen mlen) of
        Inl e \<Rightarrow> Inl e
      | Inr mac0 \<Rightarrow>
        (case ccm_aad_loop Key klen mac0 (ccm_aad_prefix alen) (take alen AAD) of
          Inl e \<Rightarrow> Inl e
        | Inr mac1 \<Rightarrow>
          (case ccm_payload_loop Key klen mac1 (take plen Payload) of
            Inl e \<Rightarrow> Inl e
          | Inr mac2 \<Rightarrow> Inr (take mlen mac2))))"

subsection \<open>AES_CCM_Encrypt and AES_CCM_Decrypt\<close>

definition ccm_ctr0 :: "bytes \<Rightarrow> nat \<Rightarrow> bytes" where
  "ccm_ctr0 Nonce nlen = pad16 (ucast (15 - word_of_nat nlen - 1 :: u32) # take nlen Nonce)"

text \<open>The counter is the last byte of the block only, and wraps.\<close>

function ccm_ctr_loop :: "bytes \<Rightarrow> nat \<Rightarrow> bytes \<Rightarrow> bytes \<Rightarrow> c_fault + bytes" where
  "ccm_ctr_loop Key klen CTR Text =
     (if Text = [] then Inr []
      else let CTR' = CTR[15 := CTR ! 15 + 1] in
        case ccm_encrypt_block Key klen CTR' of
          Inl e \<Rightarrow> Inl e
        | Inr ks \<Rightarrow>
          (case ccm_ctr_loop Key klen CTR' (drop 16 Text) of
             Inl e \<Rightarrow> Inl e
           | Inr rest \<Rightarrow> Inr (xor_bytes (take 16 Text) ks @ rest)))"
  by pat_completeness auto
termination
  by (relation "measure (\<lambda>(Key, klen, CTR, Text). length Text)") auto

declare ccm_ctr_loop.simps [simp del]

definition ccm_mac_len_ok :: "nat \<Rightarrow> bool" where
  "ccm_mac_len_ok m \<longleftrightarrow> m = 4 \<or> m = 6 \<or> m = 8 \<or> m = 10 \<or> m = 12 \<or> m = 14 \<or> m = 16"

text \<open>The result is the return value, the output buffer and the output length.\<close>

definition AES_CCM_Encrypt :: "bytes \<Rightarrow> nat \<Rightarrow> bytes \<Rightarrow> nat \<Rightarrow> bytes \<Rightarrow> nat \<Rightarrow> bytes \<Rightarrow> nat \<Rightarrow> nat \<Rightarrow>
    bytes \<Rightarrow> nat \<Rightarrow> c_fault + int \<times> bytes \<times> nat" where
  "AES_CCM_Encrypt PlainText plen Key klen Nonce nlen AAD alen mlen C ctl =
     (if klen \<noteq> 16 then Inr (- 1, C, ctl)
      else if nlen < 7 \<or> 13 < nlen then Inr (- 2, C, ctl)
      else if \<not> ccm_mac_len_ok mlen then Inr (- 3, C, ctl)
      else if ctl < (plen + mlen) mod 2 ^ 32 then Inr (- 4, C, ctl)
      else case AES_CCM_MAC PlainText plen Key klen Nonce nlen AAD alen mlen of
        Inl e \<Rightarrow> Inl e
      | Inr mac \<Rightarrow>
        (case ccm_encrypt_block Key klen (ccm_ctr0 Nonce nlen) of
          Inl e \<Rightarrow> Inl e
        | Inr ks0 \<Rightarrow>
          (case ccm_ctr_loop Key klen (ccm_ctr0 Nonce nlen) (take plen PlainText) of
            Inl e \<Rightarrow> Inl e
          | Inr out \<Rightarrow>
            if length C < plen + mlen then Inl OOBWrite
            else Inr (0, out @ xor_bytes mac (take mlen ks0) @ drop (plen + mlen) C,
                      (plen + mlen) mod 2 ^ 32))))"

definition AES_CCM_Decrypt :: "bytes \<Rightarrow> nat \<Rightarrow> bytes \<Rightarrow> nat \<Rightarrow> bytes \<Rightarrow> nat \<Rightarrow> bytes \<Rightarrow> nat \<Rightarrow> nat \<Rightarrow>
    bytes \<Rightarrow> nat \<Rightarrow> c_fault + int \<times> bytes \<times> nat" where
  "AES_CCM_Decrypt C clen Key klen Nonce nlen AAD alen mlen P ptl =
     (let plen = nat ((int clen - int mlen) mod 2 ^ 32) in
      if klen \<noteq> 16 then Inr (- 1, P, ptl)
      else if nlen < 7 \<or> 13 < nlen then Inr (- 2, P, ptl)
      else if \<not> ccm_mac_len_ok mlen then Inr (- 3, P, ptl)
      else if ptl < plen then Inr (- 4, P, ptl)
      else if length Nonce < nlen then Inl OOBRead
      else case ccm_encrypt_block Key klen (ccm_ctr0 Nonce nlen) of
        Inl e \<Rightarrow> Inl e
      | Inr ks0 \<Rightarrow>
        if clen < mlen \<or> length C < clen then Inl OOBRead
        else let mac_c = xor_bytes (slice_at plen mlen C) (take mlen ks0) in
          (case ccm_ctr_loop Key klen (ccm_ctr0 Nonce nlen) (take plen C) of
            Inl e \<Rightarrow> Inl e
          | Inr out \<Rightarrow>
            if length P < plen then Inl OOBWrite
            else let P' = out @ drop plen P in
              (case AES_CCM_MAC P' plen Key klen Nonce nlen AAD alen mlen of
                 Inl e \<Rightarrow> Inl e
               | Inr mac \<Rightarrow> Inr (if mac_c \<noteq> mac then - 5 else 0, P', plen))))"

subsection \<open>Counter mode and CBC-MAC over byte strings\<close>

text \<open>The two loops over an arbitrary cipher \<open>E\<close>, without buffers and faults.\<close>

function ctr_xor :: "(bytes \<Rightarrow> bytes) \<Rightarrow> bytes \<Rightarrow> bytes \<Rightarrow> bytes" where
  "ctr_xor E CTR bs =
     (if bs = [] then []
      else let CTR' = CTR[15 := CTR ! 15 + 1]
           in xor_bytes (take 16 bs) (E CTR') @ ctr_xor E CTR' (drop 16 bs))"
  by pat_completeness auto
termination by (relation "measure (\<lambda>(E, CTR, bs). length bs)") auto

function chunks16 :: "bytes \<Rightarrow> bytes list" where
  "chunks16 bs = (if bs = [] then [] else pad16 (take 16 bs) # chunks16 (drop 16 bs))"
  by pat_completeness auto
termination by (relation "measure length") auto

definition cbc_mac :: "(bytes \<Rightarrow> bytes) \<Rightarrow> bytes \<Rightarrow> bytes list \<Rightarrow> bytes" where
  "cbc_mac E mac bss = foldl (\<lambda>m b. E (xor_bytes b m)) mac bss"

declare ctr_xor.simps [simp del] chunks16.simps [simp del]

lemma ctr_xor_Nil [simp]: "ctr_xor E CTR [] = []"
  by (simp add: ctr_xor.simps)

lemma chunks16_Nil [simp]: "chunks16 [] = []"
  by (simp add: chunks16.simps)

lemma ctr_xor_block:
  "bs \<noteq> [] \<Longrightarrow> ctr_xor E CTR bs = xor_bytes (take 16 bs) (E (CTR[15 := CTR ! 15 + 1])) @
     ctr_xor E (CTR[15 := CTR ! 15 + 1]) (drop 16 bs)"
  by (subst ctr_xor.simps) (simp only: Let_def if_False)

lemma chunks16_block: "bs \<noteq> [] \<Longrightarrow> chunks16 bs = pad16 (take 16 bs) # chunks16 (drop 16 bs)"
  by (subst chunks16.simps) simp

lemma length_pad16: "length (pad16 bs) = max 16 (length bs)"
  by (simp add: pad16_def)

lemma bytes_chunk_induct [case_names Nil chunk]:
  assumes "P []" and "\<And>bs. bs \<noteq> [] \<Longrightarrow> P (drop 16 bs) \<Longrightarrow> P bs"
  shows "P (bs :: bytes)"
proof (induction "length bs" arbitrary: bs rule: less_induct)
  case less
  then show ?case using assms(1) assms(2) [of bs] by (cases "bs = []") simp_all
qed

context block_cipher
begin

lemma length_ctr_xor [simp]: "length (ctr_xor enc CTR bs) = length bs"
  by (induction bs arbitrary: CTR rule: bytes_chunk_induct) (simp_all add: ctr_xor_block length_enc)

lemma ctr_xor_involution: "ctr_xor enc CTR (ctr_xor enc CTR bs) = bs"
proof (induction bs arbitrary: CTR rule: bytes_chunk_induct)
  case (chunk bs)
  let ?C = "CTR[15 := CTR ! 15 + 1]"
  let ?x = "xor_bytes (take 16 bs) (enc ?C)" and ?r = "ctr_xor enc ?C (drop 16 bs)"
  have split: "ctr_xor enc CTR bs = ?x @ ?r" using chunk.hyps by (rule ctr_xor_block)
  have parts: "take 16 (?x @ ?r) = ?x" "drop 16 (?x @ ?r) = ?r"
    by (cases "16 \<le> length bs"; simp add: length_enc)+
  have ne: "?x @ ?r \<noteq> []" using chunk.hyps length_ctr_xor [of CTR bs] split by fastforce
  have "ctr_xor enc CTR (?x @ ?r) = xor_bytes ?x (enc ?C) @ ctr_xor enc ?C ?r"
    using ctr_xor_block [OF ne] by (simp only: parts)
  also have "xor_bytes ?x (enc ?C) = take 16 bs" by (simp add: length_enc)
  also have "ctr_xor enc ?C ?r = drop 16 bs" by (rule chunk.IH)
  finally show ?case by (simp only: split append_take_drop_id)
qed simp

lemma length_cbc_mac: "length mac = 16 \<Longrightarrow> length (cbc_mac enc mac bss) = 16"
  unfolding cbc_mac_def by (induction bss arbitrary: mac) (simp_all add: length_enc)

end

subsection \<open>The loops run the pure functions\<close>

lemma ccm_encrypt_block_ok:
  "16 \<le> length Key \<Longrightarrow> 16 \<le> length b \<Longrightarrow>
   ccm_encrypt_block Key 16 b = Inr (aes_enc_block Key 16 b)"
  by (simp add: ccm_encrypt_block_def RT_AES_Encrypt_ok aes_key_len_ok_def)

lemma ccm_ctr_loop_eq:
  assumes "16 \<le> length Key"
  shows "length CTR = 16 \<Longrightarrow>
    ccm_ctr_loop Key 16 CTR bs = Inr (ctr_xor (aes_enc_block Key 16) CTR bs)"
proof (induction bs arbitrary: CTR rule: bytes_chunk_induct)
  case Nil
  show ?case by (simp add: ccm_ctr_loop.simps)
next
  case (chunk bs)
  then show ?case
    by (subst ccm_ctr_loop.simps) (simp add: Let_def ccm_encrypt_block_ok assms ctr_xor_block)
qed

lemma ccm_payload_loop_eq:
  assumes "16 \<le> length Key"
  shows "length mac = 16 \<Longrightarrow>
    ccm_payload_loop Key 16 mac bs = Inr (cbc_mac (aes_enc_block Key 16) mac (chunks16 bs))"
proof (induction bs arbitrary: mac rule: bytes_chunk_induct)
  case Nil
  show ?case by (simp add: ccm_payload_loop.simps cbc_mac_def)
next
  case (chunk bs)
  then show ?case
    by (subst ccm_payload_loop.simps)
      (simp add: ccm_encrypt_block_ok assms chunks16_block cbc_mac_def length_pad16 aes.length_enc)
qed

text \<open>
  The loop over the additional data copies its first chunk behind the length prefix: it chains the
  blocks of prefix and data together.
\<close>

lemma ccm_aad_loop_nohdr:
  assumes "16 \<le> length Key"
  shows "length mac = 16 \<Longrightarrow>
    ccm_aad_loop Key 16 mac [] bs = Inr (cbc_mac (aes_enc_block Key 16) mac (chunks16 bs))"
proof (induction bs arbitrary: mac rule: bytes_chunk_induct)
  case Nil
  show ?case by (simp add: ccm_aad_loop.simps cbc_mac_def)
next
  case (chunk bs)
  have n: "take (min (length bs) 16) bs = take 16 bs" "drop (min (length bs) 16) bs = drop 16 bs"
    by (simp_all add: min_def)
  from chunk show ?case
    by (subst ccm_aad_loop.simps)
      (simp add: Let_def n ccm_encrypt_block_ok assms chunks16_block cbc_mac_def length_pad16
        aes.length_enc)
qed

lemma ccm_aad_loop_eq:
  assumes "16 \<le> length Key" "length mac = 16" "length hdr < 16" "bs \<noteq> []"
  shows "ccm_aad_loop Key 16 mac hdr bs =
    Inr (cbc_mac (aes_enc_block Key 16) mac (chunks16 (hdr @ bs)))"
proof -
  let ?n = "min (length bs) (16 - length hdr)"
  have n: "hdr @ take ?n bs = take 16 (hdr @ bs)" "drop ?n bs = drop 16 (hdr @ bs)"
    using assms(3) by (simp_all add: min_def)
  have b: "16 \<le> length (xor_bytes (pad16 (take 16 (hdr @ bs))) mac)"
    using assms(2) by (simp add: length_pad16)
  have g: "\<not> (bs = [] \<or> 16 \<le> length hdr)" using assms(3,4) by simp
  have "ccm_aad_loop Key 16 mac hdr bs = ccm_aad_loop Key 16
      (aes_enc_block Key 16 (xor_bytes (pad16 (take 16 (hdr @ bs))) mac)) [] (drop 16 (hdr @ bs))"
    by (subst ccm_aad_loop.simps)
      (simp only: g if_False Let_def n ccm_encrypt_block_ok [OF assms(1) b] sum.case)
  also have "\<dots> = Inr (cbc_mac (aes_enc_block Key 16) mac (chunks16 (hdr @ bs)))"
    using assms(4)
    by (simp add: ccm_aad_loop_nohdr [OF assms(1)] aes.length_enc chunks16_block cbc_mac_def
        del: drop_append take_append)
  finally show ?thesis .
qed

subsection \<open>The MAC of RFC 3610\<close>

text \<open>The first block as the standard writes it: flags, nonce, length in the bytes left over.\<close>

definition be_bytes :: "nat \<Rightarrow> nat \<Rightarrow> bytes" where
  "be_bytes q n = map (\<lambda>i. word_of_nat (n div 256 ^ i)) (rev [0..<q])"

definition rfc3610_flags :: "nat \<Rightarrow> nat \<Rightarrow> nat \<Rightarrow> u8" where
  "rfc3610_flags nlen alen mlen =
     word_of_nat (64 * (if 0 < alen then 1 else 0) + 8 * ((mlen - 2) div 2) + (14 - nlen))"

definition rfc3610_b0 :: "nat \<Rightarrow> bytes \<Rightarrow> nat \<Rightarrow> nat \<Rightarrow> bytes" where
  "rfc3610_b0 plen nonce alen mlen =
     rfc3610_flags (length nonce) alen mlen # nonce @ be_bytes (15 - length nonce) plen"

definition rfc3610_aad :: "bytes \<Rightarrow> bytes" where
  "rfc3610_aad aad = (if aad = [] then [] else be_bytes 2 (length aad) @ aad)"

definition rfc3610_mac :: "(bytes \<Rightarrow> bytes) \<Rightarrow> bytes \<Rightarrow> bytes \<Rightarrow> nat \<Rightarrow> bytes \<Rightarrow> bytes" where
  "rfc3610_mac E nonce aad mlen msg =
     take mlen (cbc_mac E (E (rfc3610_b0 (length msg) nonce (length aad) mlen))
       (chunks16 (rfc3610_aad aad) @ chunks16 msg))"

lemma nonce_len_cases:
  assumes "7 \<le> n" "n \<le> (13::nat)"
  obtains "n = 7" | "n = 8" | "n = 9" | "n = 10" | "n = 11" | "n = 12" | "n = 13"
  using assms by fastforce

lemma ccm_flags_eq:
  assumes "7 \<le> nlen" "nlen \<le> 13" "ccm_mac_len_ok mlen"
  shows "(if 0 < alen then 0x40 else 0 :: u8) OR
            ucast (push_bit 3 (drop_bit 1 (word_of_nat mlen - 2 :: u32))) OR
            ucast (15 - word_of_nat nlen - 1 :: u32) = rfc3610_flags nlen alen mlen"
  using assms(1,2)
proof (rule nonce_len_cases)
qed (use assms(3) in \<open>auto simp: ccm_mac_len_ok_def rfc3610_flags_def\<close>)

lemma ccm_b0_layout:
  assumes "length nonce = nlen" "7 \<le> nlen" "nlen \<le> 13"
  shows "(let b0 = pad16 (F # nonce);
              b1 = (if nlen < 12 then b0[12 := p] else b0);
              b2 = (if nlen < 13 then b1[13 := q] else b1)
          in b2[14 := r, 15 := s]) =
         F # nonce @ replicate (11 - nlen) 0 @ drop (nlen - 11) [p, q, r, s]"
  using assms(2,3)
  by (rule nonce_len_cases; insert assms(1))
    (auto simp: pad16_def numeral_eq_Suc length_Suc_conv)

lemma be_bytes_len:
  assumes "7 \<le> nlen" "nlen \<le> 13" "plen < 2 ^ 32"
  shows "be_bytes (15 - nlen) plen = replicate (11 - nlen) 0 @ drop (nlen - 11)
    [word_of_nat (plen div 2 ^ 24), word_of_nat (plen div 2 ^ 16), word_of_nat (plen div 2 ^ 8),
     word_of_nat plen]"
proof -
  have big: "plen div 4294967296 = 0" "plen div 1099511627776 = 0" "plen div 281474976710656 = 0"
    "plen div 72057594037927936 = 0"
    using assms(3) by simp_all
  have rep: "replicate 2 x = [x, x]" "replicate 3 x = [x, x, x]" "replicate 4 x = [x, x, x, x]"
    for x :: u8
    by (simp_all add: numeral_eq_Suc)
  show ?thesis
    using assms(1,2) by (rule nonce_len_cases) (simp_all add: be_bytes_def upt_rec big rep)
qed

lemma ccm_b0_eq:
  assumes "length nonce = nlen" "7 \<le> nlen" "nlen \<le> 13" "ccm_mac_len_ok mlen" "plen < 2 ^ 32"
  shows "ccm_b0 plen nonce nlen alen mlen = rfc3610_b0 plen nonce alen mlen"
proof -
  have nz: "take nlen nonce = nonce" using assms(1) by simp
  show ?thesis
    by (simp only: ccm_b0_def ccm_flags_eq [OF assms(2,3,4)] nz Let_def
        ccm_b0_layout [OF assms(1,2,3), unfolded Let_def] rfc3610_b0_def assms(1)
        be_bytes_len [OF assms(2,3,5)])
qed

lemma AES_CCM_MAC_eq:
  assumes "16 \<le> length Key" "7 \<le> length nonce" "length nonce \<le> 13" "ccm_mac_len_ok mlen"
    "length msg < 2 ^ 32" "length aad < 0xFF00"
  shows "AES_CCM_MAC msg (length msg) Key 16 nonce (length nonce) aad (length aad) mlen =
    Inr (rfc3610_mac (aes_enc_block Key 16) nonce aad mlen msg)"
proof -
  let ?E = "aes_enc_block Key 16"
  let ?b0 = "rfc3610_b0 (length msg) nonce (length aad) mlen"
  have b0: "ccm_b0 (length msg) nonce (length nonce) (length aad) mlen = ?b0"
    using assms by (intro ccm_b0_eq) simp_all
  have m: "mlen \<le> 16" using assms(4) by (auto simp: ccm_mac_len_ok_def)
  have e0: "ccm_encrypt_block Key 16 ?b0 = Inr (?E ?b0)"
    using assms by (intro ccm_encrypt_block_ok) (simp_all add: rfc3610_b0_def be_bytes_def)
  have aad: "ccm_aad_loop Key 16 (?E ?b0) (ccm_aad_prefix (length aad)) aad =
      Inr (cbc_mac ?E (?E ?b0) (chunks16 (rfc3610_aad aad)))"
  proof (cases "aad = []")
    case True
    then show ?thesis by (simp add: ccm_aad_loop.simps rfc3610_aad_def cbc_mac_def)
  next
    case False
    then have "ccm_aad_prefix (length aad) = be_bytes 2 (length aad)"
      using assms(6) by (simp add: ccm_aad_prefix_def be_bytes_def upt_rec)
    with False show ?thesis
      using ccm_aad_loop_eq [OF assms(1) aes.length_enc, of "be_bytes 2 (length aad)" aad]
      by (simp add: rfc3610_aad_def be_bytes_def)
  qed
  have pay: "ccm_payload_loop Key 16 (cbc_mac ?E (?E ?b0) (chunks16 (rfc3610_aad aad))) msg =
      Inr (cbc_mac ?E (?E ?b0) (chunks16 (rfc3610_aad aad) @ chunks16 msg))"
    using ccm_payload_loop_eq [OF assms(1) aes.length_cbc_mac [OF aes.length_enc]]
    by (simp add: cbc_mac_def)
  show ?thesis
    using m assms(3) by (simp add: AES_CCM_MAC_def b0 e0 aad pay rfc3610_mac_def)
qed

subsection \<open>Encryption and decryption as functions of the message\<close>

definition ccm_seal :: "(bytes \<Rightarrow> bytes) \<Rightarrow> bytes \<Rightarrow> bytes \<Rightarrow> nat \<Rightarrow> bytes \<Rightarrow> bytes" where
  "ccm_seal E nonce aad mlen msg =
     ctr_xor E (ccm_ctr0 nonce (length nonce)) msg @
     xor_bytes (rfc3610_mac E nonce aad mlen msg) (take mlen (E (ccm_ctr0 nonce (length nonce))))"

definition ccm_params :: "bytes \<Rightarrow> bytes \<Rightarrow> bytes \<Rightarrow> nat \<Rightarrow> bool" where
  "ccm_params Key nonce aad mlen \<longleftrightarrow> 16 \<le> length Key \<and> 7 \<le> length nonce \<and> length nonce \<le> 13 \<and>
     ccm_mac_len_ok mlen \<and> length aad < 0xFF00"

lemma ccm_mac_len_le: "ccm_mac_len_ok mlen \<Longrightarrow> 4 \<le> mlen \<and> mlen \<le> 16"
  by (auto simp: ccm_mac_len_ok_def)

lemma length_ccm_ctr0: "length nonce \<le> 13 \<Longrightarrow> length (ccm_ctr0 nonce (length nonce)) = 16"
  by (simp add: ccm_ctr0_def length_pad16)

lemma length_rfc3610_mac:
  "mlen \<le> 16 \<Longrightarrow> length (rfc3610_mac (aes_enc_block Key 16) nonce aad mlen msg) = mlen"
  by (simp add: rfc3610_mac_def aes.length_cbc_mac aes.length_enc)

lemma length_ccm_seal:
  "mlen \<le> 16 \<Longrightarrow> length (ccm_seal (aes_enc_block Key 16) nonce aad mlen msg) = length msg + mlen"
  by (simp add: ccm_seal_def length_rfc3610_mac aes.length_enc)

lemma AES_CCM_Encrypt_eq:
  assumes "ccm_params Key nonce aad mlen" "length msg + mlen < 2 ^ 32"
    "length msg + mlen \<le> ctl" "length msg + mlen \<le> length C"
  shows "AES_CCM_Encrypt msg (length msg) Key 16 nonce (length nonce) aad (length aad) mlen C ctl =
    Inr (0, ccm_seal (aes_enc_block Key 16) nonce aad mlen msg @ drop (length msg + mlen) C,
         length msg + mlen)"
proof -
  let ?E = "aes_enc_block Key 16" and ?c = "ccm_ctr0 nonce (length nonce)"
  have k: "16 \<le> length Key" "7 \<le> length nonce" "length nonce \<le> 13" "ccm_mac_len_ok mlen"
    "length aad < 0xFF00" "length msg < 2 ^ 32"
    using assms(1,2) by (simp_all add: ccm_params_def)
  have c: "length ?c = 16" using k by (simp add: length_ccm_ctr0)
  have e: "ccm_encrypt_block Key 16 ?c = Inr (?E ?c)" using k c by (simp add: ccm_encrypt_block_ok)
  show ?thesis
    using assms(2,3,4) k(2,3,4)
    by (simp add: AES_CCM_Encrypt_def AES_CCM_MAC_eq [OF k(1,2,3,4,6,5)] e
        ccm_ctr_loop_eq [OF k(1) c] ccm_seal_def)
qed

lemma AES_CCM_Decrypt_eq:
  assumes "ccm_params Key nonce aad mlen" "length C < 2 ^ 32" "mlen \<le> length C"
    "length C - mlen \<le> ptl" "length C - mlen = length P"
  defines "E \<equiv> aes_enc_block Key 16" and "c \<equiv> ccm_ctr0 nonce (length nonce)"
  defines "msg \<equiv> ctr_xor E c (take (length C - mlen) C)"
  shows "AES_CCM_Decrypt C (length C) Key 16 nonce (length nonce) aad (length aad) mlen P ptl =
    Inr (if xor_bytes (drop (length C - mlen) C) (take mlen (E c)) \<noteq> rfc3610_mac E nonce aad mlen msg
         then - 5 else 0, msg, length C - mlen)"
proof -
  have k: "16 \<le> length Key" "7 \<le> length nonce" "length nonce \<le> 13" "ccm_mac_len_ok mlen"
    "length aad < 0xFF00"
    using assms(1) by (simp_all add: ccm_params_def)
  have c: "length c = 16" using k by (simp add: c_def length_ccm_ctr0)
  have e: "ccm_encrypt_block Key 16 c = Inr (E c)"
    using k c by (simp add: E_def ccm_encrypt_block_ok)
  have pl: "nat ((int (length C) - int mlen) mod 2 ^ 32) = length C - mlen"
    using assms(2,3) by (subst mod_pos_pos_trivial) simp_all
  have ml: "length msg = length C - mlen" by (simp add: msg_def E_def)
  have loop: "ccm_ctr_loop Key 16 c (take (length C - mlen) C) = Inr msg"
    by (simp add: ccm_ctr_loop_eq [OF k(1) c] msg_def E_def)
  have mac: "AES_CCM_MAC msg (length msg) Key 16 nonce (length nonce) aad (length aad) mlen =
      Inr (rfc3610_mac E nonce aad mlen msg)"
    unfolding E_def using ml assms(2) by (intro AES_CCM_MAC_eq k) simp
  have sl: "slice_at (length C - mlen) mlen C = drop (length C - mlen) C"
    using assms(3) by (simp add: slice_at_def)
  show ?thesis
    using assms(3,4,5) k(2,3,4) mac
    unfolding AES_CCM_Decrypt_def pl c_def [symmetric]
    by (simp add: e loop [simplified assms(5)] loop sl [simplified assms(5)] ml Let_def)
qed

lemma ccm_open_seal:
  fixes Key nonce :: bytes
  assumes "mlen \<le> 16" "length C = length P + mlen"
  defines "E \<equiv> aes_enc_block Key 16" and "c \<equiv> ccm_ctr0 nonce (length nonce)"
  shows "(ctr_xor E c (take (length P) C) = P \<and>
          xor_bytes (drop (length P) C) (take mlen (E c)) = rfc3610_mac E nonce aad mlen P) =
         (C = ccm_seal E nonce aad mlen P)"
proof
  let ?ks = "take mlen (E c)"
  have ks: "length ?ks = mlen" using assms(1) by (simp add: E_def aes.length_enc)
  {
    assume l: "ctr_xor E c (take (length P) C) = P \<and>
          xor_bytes (drop (length P) C) ?ks = rfc3610_mac E nonce aad mlen P"
    have "take (length P) C = ctr_xor E c P"
      using l aes.ctr_xor_involution [of Key 16 c "take (length P) C"] by (simp add: E_def)
    moreover have "drop (length P) C = xor_bytes (rfc3610_mac E nonce aad mlen P) ?ks"
      using l assms(2) ks xor_bytes_cancel [of "drop (length P) C" ?ks] by simp
    ultimately have "take (length P) C @ drop (length P) C = ccm_seal E nonce aad mlen P"
      by (simp add: ccm_seal_def c_def)
    then show "C = ccm_seal E nonce aad mlen P" by simp
  next
    assume r: "C = ccm_seal E nonce aad mlen P"
    have x: "length (ctr_xor E c P) = length P" by (simp add: E_def)
    have "take (length P) C = ctr_xor E c P"
      "drop (length P) C = xor_bytes (rfc3610_mac E nonce aad mlen P) ?ks"
      using r x by (simp_all add: ccm_seal_def c_def)
    then show "ctr_xor E c (take (length P) C) = P \<and>
          xor_bytes (drop (length P) C) ?ks = rfc3610_mac E nonce aad mlen P"
      using aes.ctr_xor_involution [of Key 16 c P] ks
        length_rfc3610_mac [OF assms(1), of Key nonce aad P]
      by (simp add: E_def xor_bytes_cancel)
  }
qed

subsection \<open>Properties\<close>

text \<open>C32: for the parameters the driver accepts (16-byte key, nonce of 7 to 13 bytes, additional
  data below 0xFF00 bytes), \<^verbatim>\<open>AES_CCM_MAC\<close> computes the CBC-MAC of RFC 3610: over the first block
  of flags, nonce and length, the length-prefixed additional data and the zero-padded payload.\<close>

theorem AES_CCM_MAC_is_rfc3610:
  assumes "16 \<le> length Key" "7 \<le> length nonce" "length nonce \<le> 13" "ccm_mac_len_ok mlen"
    "length msg < 2 ^ 32" "length aad < 0xFF00"
  shows "AES_CCM_MAC msg (length msg) Key 16 nonce (length nonce) aad (length aad) mlen =
    Inr (rfc3610_mac (aes_enc_block Key 16) nonce aad mlen msg)"
  using assms by (rule AES_CCM_MAC_eq)

lemma AES_CCM_MAC_is_rfc3610_witness:
  "AES_CCM_MAC (replicate 20 1) (length (replicate 20 (1 :: u8))) (replicate 16 2) 16
     (replicate 13 3) (length (replicate 13 (3 :: u8))) (replicate 30 4)
     (length (replicate 30 (4 :: u8))) 8 =
   Inr (rfc3610_mac (aes_enc_block (replicate 16 2) 16) (replicate 13 3) (replicate 30 4) 8
     (replicate 20 1))"
  by (rule AES_CCM_MAC_is_rfc3610) (simp_all add: ccm_mac_len_ok_def)

text \<open>C31: \<^verbatim>\<open>AES_CCM_Encrypt\<close> succeeds and makes of the plain text \<open>P\<close> the one cipher text for which
  \<^verbatim>\<open>AES_CCM_Decrypt\<close> returns 0 and \<open>P\<close>: decryption inverts encryption, and every other cipher text
  of that length is rejected or decrypts to another text.\<close>

theorem AES_CCM_decrypt_iff_encrypt:
  assumes "ccm_params Key nonce aad mlen" "length P + mlen < 2 ^ 32"
    "length out = length P" "length out2 = length P + mlen"
  shows "\<exists>C. length C = length P + mlen \<and>
    AES_CCM_Encrypt P (length P) Key 16 nonce (length nonce) aad (length aad) mlen
      out2 (length C) = Inr (0, C, length C) \<and>
    (\<forall>D. length D = length C \<longrightarrow>
      (AES_CCM_Decrypt D (length D) Key 16 nonce (length nonce) aad (length aad) mlen
         out (length P) = Inr (0, P, length P)) = (D = C))"
proof -
  have m: "mlen \<le> 16" using assms(1) ccm_mac_len_le by (simp add: ccm_params_def)
  let ?C = "ccm_seal (aes_enc_block Key 16) nonce aad mlen P"
  have len: "length ?C = length P + mlen" using m by (rule length_ccm_seal)
  have enc: "AES_CCM_Encrypt P (length P) Key 16 nonce (length nonce) aad (length aad) mlen
      out2 (length ?C) = Inr (0, ?C, length ?C)"
    using assms(2,4) by (subst AES_CCM_Encrypt_eq [OF assms(1)]) (auto simp: len)
  have dec: "(AES_CCM_Decrypt D (length D) Key 16 nonce (length nonce) aad (length aad) mlen
         out (length P) = Inr (0, P, length P)) = (D = ?C)" if "length D = length ?C" for D
    using that assms(2,3) ccm_open_seal [OF m, of D P Key nonce aad]
    by (subst AES_CCM_Decrypt_eq [OF assms(1)]) (auto simp: len)
  show ?thesis using len enc dec by (intro exI [of _ ?C]) simp
qed

lemma AES_CCM_decrypt_iff_encrypt_witness:
  "\<exists>C. length C = length [1, 2, 3 :: u8] + 8 \<and>
    AES_CCM_Encrypt [1, 2, 3] (length [1, 2, 3 :: u8]) (replicate 16 2) 16
      (replicate 13 3) (length (replicate 13 (3 :: u8))) [9, 9] (length [9 :: u8, 9]) 8
      (replicate 11 0) (length C) = Inr (0, C, length C) \<and>
    (\<forall>D. length D = length C \<longrightarrow>
      (AES_CCM_Decrypt D (length D) (replicate 16 2) 16
         (replicate 13 3) (length (replicate 13 (3 :: u8))) [9, 9] (length [9 :: u8, 9]) 8
         (replicate 3 0) (length [1, 2, 3 :: u8]) = Inr (0, [1, 2, 3], length [1, 2, 3 :: u8])) =
      (D = C))"
  by (rule AES_CCM_decrypt_iff_encrypt) (simp_all add: ccm_params_def ccm_mac_len_ok_def)

end
