(* ===== verification/AesCmac.thy ===== *)
theory AesCmac
  imports Aes
begin

text \<open>
  \<^verbatim>\<open>AES_CMAC_GenerateSubKey\<close> and \<^verbatim>\<open>AES_CMAC\<close> of \<^verbatim>\<open>common/crypt_aes.c\<close>, which authenticate the EAPOL
  key frames, and their equality with RFC 4493.
\<close>

unbundle bit_operations_syntax

subsection \<open>The code\<close>

definition Const_Zero :: bytes where "Const_Zero = replicate 16 0"
definition Const_Rb :: bytes where "Const_Rb = replicate 15 0 @ [0x87]"

text \<open>The bit that moves from one byte into the byte before it.\<close>

definition top_bit :: "u8 \<Rightarrow> u8" where
  "top_bit b = (if b AND 0x80 \<noteq> 0 then 1 else 0)"

text \<open>The shift of \<^verbatim>\<open>SubKey1\<close> in its own buffer, and from \<^verbatim>\<open>SubKey1\<close> into \<^verbatim>\<open>SubKey2\<close>.\<close>

definition cmac_shift_here :: "bytes \<Rightarrow> bytes" where
  "cmac_shift_here s =
     (let s1 = foldl (\<lambda>s i. s[i := push_bit 1 (s ! i) OR top_bit (s ! (i + 1))]) s [0..<15]
      in s1[15 := push_bit 1 (s1 ! 15)])"

definition cmac_shift_into :: "bytes \<Rightarrow> bytes \<Rightarrow> bytes" where
  "cmac_shift_into src dst =
     (foldl (\<lambda>d i. d[i := push_bit 1 (src ! i) OR top_bit (src ! (i + 1))]) dst [0..<15])[15 := push_bit 1 (src ! 15)]"

definition AES_CMAC_GenerateSubKey :: "bytes \<Rightarrow> nat \<Rightarrow> bytes \<Rightarrow> bytes \<Rightarrow> c_fault + bytes \<times> bytes" where
  "AES_CMAC_GenerateSubKey Key KeyLength SubKey1 SubKey2 =
     (if KeyLength \<noteq> 16 then Inr (SubKey1, SubKey2)
      else f_bind (RT_AES_Encrypt True Const_Zero 16 Key KeyLength SubKey1 16) (\<lambda>(L, _).
        let K1 = cmac_shift_here L;
            K1 = (if L ! 0 AND 0x80 \<noteq> 0 then xor_bytes K1 Const_Rb else K1);
            K2 = cmac_shift_into K1 SubKey2;
            K2 = (if K1 ! 0 AND 0x80 \<noteq> 0 then xor_bytes K2 Const_Rb else K2)
        in Inr (K1, K2)))"

function cmac_loop :: "bytes \<Rightarrow> nat \<Rightarrow> bytes \<Rightarrow> nat \<Rightarrow> nat \<Rightarrow> bytes \<Rightarrow> c_fault + nat \<times> bytes" where
  "cmac_loop P plen Key klen start X =
     (if 16 < plen - start then
        if length P < start + 16 then Inl OOBRead
        else case RT_AES_Encrypt True (xor_bytes (slice_at start 16 P) X) 16 Key klen X 16 of
            Inl e \<Rightarrow> Inl e
          | Inr (X1, _) \<Rightarrow> cmac_loop P plen Key klen (start + 16) X1
      else Inr (start, X))"
  by pat_completeness auto
termination
  by (relation "measure (\<lambda>(P, plen, Key, klen, start, X). plen - start)") auto

declare cmac_loop.simps [simp del]

definition AES_CMAC :: "bytes \<Rightarrow> nat \<Rightarrow> bytes \<Rightarrow> nat \<Rightarrow> bytes \<Rightarrow> nat \<Rightarrow> c_fault + bytes \<times> nat" where
  "AES_CMAC P plen Key klen MACText MACTextLength =
     (if MACTextLength < 16 then Inr (MACText, MACTextLength)
      else if klen \<noteq> 16 then Inr (MACText, MACTextLength)
      else
        f_bind (AES_CMAC_GenerateSubKey Key klen (replicate 16 0) (replicate 16 0)) (\<lambda>(K1, K2).
        f_bind (cmac_loop P plen Key klen 0 Const_Zero) (\<lambda>(start, X).
          if length P < plen then Inl OOBRead
          else
            let Y = (if plen - start = 16 then xor_bytes (xor_bytes (slice_at start 16 P) X) K1
                     else xor_bytes (xor_bytes
                       ((put_at 0 (slice_at start (plen - start) P) (replicate 16 0))[plen - start := 0x80]) X) K2)
            in RT_AES_Encrypt True Y 16 Key klen MACText MACTextLength)))"

subsection \<open>The standard\<close>

text \<open>Blocks as numbers of 128 bits, the first byte highest, and doubling in the field of RFC 4493.\<close>

definition be128_bytes :: "128 word \<Rightarrow> bytes" where
  "be128_bytes w = map (\<lambda>i. ucast (drop_bit (8 * (15 - i)) w)) [0..<16]"

definition rfc4493_double :: "128 word \<Rightarrow> 128 word" where
  "rfc4493_double w = (if bit w 127 then push_bit 1 w XOR 0x87 else push_bit 1 w)"

definition rfc4493_subkeys :: "(bytes \<Rightarrow> bytes) \<Rightarrow> bytes \<times> bytes" where
  "rfc4493_subkeys E = (let K1 = rfc4493_double (word_rcat (E (replicate 16 0)))
     in (be128_bytes K1, be128_bytes (rfc4493_double K1)))"

definition rfc4493_pad :: "bytes \<Rightarrow> bytes" where
  "rfc4493_pad M = M @ 0x80 # replicate (15 - length M) 0"

definition rfc4493_cmac :: "(bytes \<Rightarrow> bytes) \<Rightarrow> bytes \<Rightarrow> bytes" where
  "rfc4493_cmac E M =
     (let (K1, K2) = rfc4493_subkeys E;
          n = max 1 ((length M + 15) div 16);
          B = (\<lambda>i. slice_at (16 * i) 16 M);
          X = foldl (\<lambda>X i. E (xor_bytes X (B i))) (replicate 16 0) [0..<n - 1];
          M_last = (if M \<noteq> [] \<and> length M mod 16 = 0 then xor_bytes (B (n - 1)) K1
                    else xor_bytes (rfc4493_pad (B (n - 1))) K2)
      in E (xor_bytes X M_last))"

subsection \<open>Subkeys\<close>

lemma and_80: "a AND 0x80 \<noteq> 0 \<longleftrightarrow> bit (a :: u8) 7"
  using and_exp_eq_0_iff_not_bit [of a 7] by simp

lemma bit_word_rcat:
  assumes "length bs = 16" "n < 128"
  shows "bit (word_rcat bs :: 128 word) n \<longleftrightarrow> bit (bs ! (15 - n div 8) :: u8) (n mod 8)"
proof -
  have "n div 8 < 16" using assms(2) by simp
  then have "rev bs ! (n div 8) = bs ! (15 - n div 8)" using assms(1) by (simp add: rev_nth)
  then show ?thesis using assms \<open>n div 8 < 16\<close> bit_horner_sum_uint_exp_iff [of "rev bs" n]
    by (simp add: word_rcat_def bit_word_of_int_iff)
qed

lemma bit_be128_bytes:
  assumes "i < 16" "k < 8"
  shows "bit (be128_bytes w ! i) k \<longleftrightarrow> bit w (8 * (15 - i) + k)"
  using assms by (simp add: be128_bytes_def bit_ucast_iff bit_drop_bit_eq del: upt_rec_numeral)

lemma length_be128_bytes [simp]: "length (be128_bytes w) = 16"
  by (simp add: be128_bytes_def del: upt_rec_numeral)

lemma be128_bytes_nth:
  assumes "length bs = 16" "\<And>i k. i < 16 \<Longrightarrow> k < 8 \<Longrightarrow> bit (bs ! i) k \<longleftrightarrow> bit w (8 * (15 - i) + k)"
  shows "be128_bytes w = bs"
proof (rule nth_equalityI)
  show "length (be128_bytes w) = length bs" using assms(1) by simp
  fix i assume "i < length (be128_bytes w)"
  then show "be128_bytes w ! i = bs ! i"
    using assms(2) by (intro bit_word_eqI) (simp add: bit_be128_bytes)
qed

lemma be128_bytes_rcat: "length bs = 16 \<Longrightarrow> be128_bytes (word_rcat bs) = bs"
  by (rule be128_bytes_nth) (simp_all add: bit_word_rcat)

lemma word_rcat_be128: "word_rcat (be128_bytes w) = (w :: 128 word)"
proof (rule bit_word_eqI)
  fix n assume "n < LENGTH(128)"
  then have "n < 128" "n div 8 < 16" by simp_all
  moreover from this have "8 * (15 - (15 - n div 8)) + n mod 8 = n" by simp
  ultimately show "bit (word_rcat (be128_bytes w) :: 128 word) n = bit w n"
    by (simp only: bit_word_rcat length_be128_bytes bit_be128_bytes)
qed

text \<open>What both shifts compute.\<close>

definition shift_block :: "bytes \<Rightarrow> bytes" where
  "shift_block s = map (\<lambda>i. if i < 15 then push_bit 1 (s ! i) OR top_bit (s ! (i + 1)) else push_bit 1 (s ! i)) [0..<16]"

lemma upt_15: "[0..<15] = [0, 1, 2, 3, 4, 5, 6, 7, 8, 9, 10, 11, 12, 13, 14::nat]"
  "[0..<16] = [0, 1, 2, 3, 4, 5, 6, 7, 8, 9, 10, 11, 12, 13, 14, 15::nat]"
  by (simp_all add: upt_rec)

lemma list16: "length xs = 16 \<Longrightarrow> \<exists>a b c d e f g h i j k l m n p q.
    xs = [a, b, c, d, e, f, g, h, i, j, k, l, m, n, p, q]"
  by (auto simp: numeral_eq_Suc length_Suc_conv)

lemma cmac_shifts:
  assumes "length s = 16" "length d = 16"
  shows "cmac_shift_here s = shift_block s" "cmac_shift_into s d = shift_block s"
  using list16 [OF assms(1)] list16 [OF assms(2)]
  by (auto simp: cmac_shift_here_def cmac_shift_into_def shift_block_def upt_15 Let_def)

lemma bit_shift_block:
  assumes "length s = 16" "i < 16" "k < 8"
  shows "bit (shift_block s ! i) k \<longleftrightarrow> bit (push_bit 1 (word_rcat s :: 128 word)) (8 * (15 - i) + k)"
proof (cases k)
  case 0
  show ?thesis
  proof (cases "i < 15")
    case True
    then have "8 * (15 - i) - 1 = 8 * (14 - i) + 7" "8 * (15 - i) < 128" by simp_all
    moreover have "(8 * (14 - i) + 7) div 8 = 14 - i" "(8 * (14 - i) + 7) mod 8 = 7" "15 - (14 - i) = i + 1"
      using True by simp_all
    ultimately show ?thesis using True assms 0
      by (simp add: shift_block_def bit_push_bit_iff bit_or_iff bit_word_rcat top_bit_def and_80
          del: upt_rec_numeral One_nat_def) auto
  qed (use assms 0 in \<open>simp add: shift_block_def bit_push_bit_iff del: upt_rec_numeral One_nat_def\<close>)
next
  case (Suc j)
  then have "8 * (15 - i) + k - 1 = 8 * (15 - i) + j" "8 * (15 - i) + j < 128" using assms by simp_all
  moreover have "(8 * (15 - i) + j) div 8 = 15 - i" "(8 * (15 - i) + j) mod 8 = j" "15 - (15 - i) = i"
    using assms Suc by simp_all
  ultimately show ?thesis using assms Suc
    by (simp add: shift_block_def bit_push_bit_iff bit_or_iff bit_word_rcat top_bit_def bit_1_iff
        del: upt_rec_numeral One_nat_def) auto
qed

lemma bit_Const_Rb:
  assumes "i < 16" "k < 8"
  shows "bit (Const_Rb ! i) k \<longleftrightarrow> bit (0x87 :: 128 word) (8 * (15 - i) + k)"
proof -
  have "list_all (\<lambda>i. list_all (\<lambda>k. bit (Const_Rb ! i) k = bit (0x87 :: 128 word) (8 * (15 - i) + k)) [0..<8]) [0..<16]"
    by code_simp
  then show ?thesis using assms by (simp only: list_all_iff set_upt) simp
qed

text \<open>One step of the subkey generation is a doubling.\<close>

lemma double_block:
  assumes "length s = 16"
  shows "(if s ! 0 AND 0x80 \<noteq> 0 then xor_bytes (shift_block s) Const_Rb else shift_block s) =
    be128_bytes (rfc4493_double (word_rcat s))"
proof (rule be128_bytes_nth [symmetric])
  have l: "length (shift_block s) = 16" "length Const_Rb = 16" by (simp_all add: shift_block_def Const_Rb_def upt_15)
  then show "length (if s ! 0 AND 0x80 \<noteq> 0 then xor_bytes (shift_block s) Const_Rb else shift_block s) = 16" by simp
  have m: "bit (word_rcat s :: 128 word) 127 \<longleftrightarrow> bit (s ! 0) 7" using bit_word_rcat [OF assms, of 127] by simp
  fix i k :: nat assume i: "i < 16" "k < 8"
  then have "bit (xor_bytes (shift_block s) Const_Rb ! i) k \<longleftrightarrow> bit (shift_block s ! i) k \<noteq> bit (Const_Rb ! i) k"
    using l by (simp add: xor_bytes_def bit_xor_iff)
  then show "bit ((if s ! 0 AND 0x80 \<noteq> 0 then xor_bytes (shift_block s) Const_Rb else shift_block s) ! i) k =
      bit (rfc4493_double (word_rcat s)) (8 * (15 - i) + k)"
    using bit_shift_block [OF assms i] bit_Const_Rb [OF i] m
    by (simp add: and_80 rfc4493_double_def bit_xor_iff)
qed

lemma AES_CMAC_GenerateSubKey_rfc:
  assumes "16 \<le> length Key" "length S1 = 16" "length S2 = 16"
  shows "AES_CMAC_GenerateSubKey Key 16 S1 S2 = Inr (rfc4493_subkeys (aes_enc_block Key 16))"
proof -
  let ?L = "aes_enc_block Key 16 Const_Zero" and ?d = "\<lambda>s. be128_bytes (rfc4493_double (word_rcat s))"
  have L: "length ?L = 16" by (rule aes.length_enc)
  have enc: "RT_AES_Encrypt True Const_Zero 16 Key 16 S1 16 = Inr (?L, 16)"
    using assms RT_AES_Encrypt_ok [of 16 Key Const_Zero 16 S1] by (simp add: aes_key_len_ok_def Const_Zero_def)
  have K1: "(if ?L ! 0 AND 0x80 \<noteq> 0 then xor_bytes (cmac_shift_here ?L) Const_Rb else cmac_shift_here ?L) = ?d ?L"
    unfolding cmac_shifts(1) [OF L assms(3)] by (rule double_block [OF L])
  have K2: "(if ?d ?L ! 0 AND 0x80 \<noteq> 0 then xor_bytes (cmac_shift_into (?d ?L) S2) Const_Rb
      else cmac_shift_into (?d ?L) S2) = ?d (?d ?L)"
    unfolding cmac_shifts(2) [OF length_be128_bytes assms(3)] by (rule double_block [OF length_be128_bytes])
  show ?thesis
    unfolding AES_CMAC_GenerateSubKey_def enc f_bind_simps Let_def prod.case K1 K2
    by (simp add: rfc4493_subkeys_def Let_def word_rcat_be128 Const_Zero_def)
qed

subsection \<open>The message authentication code\<close>

lemma xor_bytes_commute: "xor_bytes xs ys = xor_bytes ys xs"
  by (induction xs ys rule: list_induct2') (simp_all add: xor.commute)

lemma xor_bytes_assoc: "xor_bytes (xor_bytes xs ys) zs = xor_bytes xs (xor_bytes ys zs)"
proof (induction xs arbitrary: ys zs)
  case (Cons x xs)
  then show ?case by (cases ys; cases zs) (simp_all add: xor.assoc)
qed simp

lemma cmac_loop_run:
  assumes "16 \<le> length Key" "length P = plen" "length X = 16" "start \<le> plen"
  defines "E \<equiv> aes_enc_block Key 16" and "k \<equiv> (plen - start - 1) div 16"
  shows "cmac_loop P plen Key 16 start X =
    Inr (start + 16 * k, foldl (\<lambda>X i. E (xor_bytes X (slice_at (start + 16 * i) 16 P))) X [0..<k])"
  using assms(2-4) unfolding k_def
proof (induction "plen - start" arbitrary: start X rule: less_induct)
  case less
  show ?case
  proof (cases "16 < plen - start")
    case False
    then have "(plen - start - 1) div 16 = 0" by simp
    then show ?thesis using False by (simp add: cmac_loop.simps)
  next
    case True
    let ?b = "xor_bytes (slice_at start 16 P) X" and ?k = "(plen - (start + 16) - 1) div 16"
    have b: "?b = xor_bytes X (slice_at start 16 P)" by (rule xor_bytes_commute)
    have "RT_AES_Encrypt True ?b 16 Key 16 X 16 = Inr (E ?b, 16)"
      using less.prems assms(1) True RT_AES_Encrypt_ok [of 16 Key ?b 16 X] by (simp add: aes_key_len_ok_def E_def)
    then have s: "cmac_loop P plen Key 16 start X = cmac_loop P plen Key 16 (start + 16) (E ?b)"
      using True less.prems by (subst cmac_loop.simps) auto
    have k: "(plen - start - 1) div 16 = Suc ?k" using True by simp
    have "cmac_loop P plen Key 16 (start + 16) (E ?b) = Inr (start + 16 + 16 * ?k,
        foldl (\<lambda>X i. E (xor_bytes X (slice_at (start + 16 + 16 * i) 16 P))) (E ?b) [0..<?k])"
      by (rule less.hyps) (use True less.prems in \<open>simp_all add: E_def aes.length_enc\<close>)
    moreover have "[0..<Suc ?k] = 0 # map Suc [0..<?k]" by (simp only: map_Suc_upt upt_conv_Cons [OF zero_less_Suc])
    ultimately show ?thesis unfolding s k b by (simp add: foldl_map add.assoc)
  qed
qed

lemma cmac_last_block:
  assumes "start + r = length P" "r < 16"
  shows "(put_at 0 (slice_at start r P) (replicate 16 0))[r := 0x80] = rfc4493_pad (slice_at start 16 P)"
proof -
  have s: "slice_at start 16 P = slice_at start r P" "length (slice_at start r P) = r"
    using assms by (simp_all add: slice_at_def)
  have "16 - r = Suc (15 - r)" using assms(2) by simp
  then have "drop r (replicate 16 (0 :: u8)) = 0 # replicate (15 - r) 0" by (simp only: drop_replicate replicate_Suc)
  then show ?thesis using s(2) by (simp add: put_at_def rfc4493_pad_def s(1) list_update_append)
qed

text \<open>The number of blocks before the last one, and the length of the last one.\<close>

lemma cmac_block_count:
  fixes P :: bytes
  defines "k \<equiv> (length P - 1) div 16"
  shows "max 1 ((length P + 15) div 16) - 1 = k" "16 * k \<le> length P" "length P - 16 * k \<le> 16"
    "length P - 16 * k = 16 \<longleftrightarrow> P \<noteq> [] \<and> length P mod 16 = 0"
proof -
  show "16 * k \<le> length P" "length P - 16 * k \<le> 16" unfolding k_def by simp_all
  show "max 1 ((length P + 15) div 16) - 1 = k"
  proof (cases "length P")
    case (Suc m)
    then have "(length P + 15) div 16 = Suc (m div 16)" by (simp add: div_add_self2 [symmetric])
    then show ?thesis using Suc by (simp add: k_def)
  qed (simp add: k_def)
  show "length P - 16 * k = 16 \<longleftrightarrow> P \<noteq> [] \<and> length P mod 16 = 0"
  proof (cases "length P")
    case (Suc m)
    have "Suc m - 16 * (m div 16) = Suc (m mod 16)"
      using div_mult_mod_eq [of m 16] by linarith
    moreover have "Suc (m mod 16) = 16 \<longleftrightarrow> Suc m mod 16 = 0" by (simp add: mod_Suc)
    moreover have "P \<noteq> []" using Suc by auto
    ultimately show ?thesis using Suc by (simp add: k_def)
  qed (simp add: k_def)
qed

text \<open>C35: AES_CMAC with a key of 16 bytes writes the RFC 4493 code of the message, for messages of any length (empty, ending inside a block, or at the end of one), into the first 16 bytes of the caller's buffer, and reports the length 16; its subkeys are the ones that doubling in GF(2^128) gives.\<close>

theorem AES_CMAC_is_rfc4493:
  assumes "16 \<le> length Key" "16 \<le> len" "16 \<le> length MAC"
  shows "AES_CMAC P (length P) Key 16 MAC len = Inr (rfc4493_cmac (aes_enc_block Key 16) P @ drop 16 MAC, 16)"
proof -
  let ?E = "aes_enc_block Key 16" and ?n = "length P"
  define k where "k = (?n - 1) div 16"
  define X where "X = foldl (\<lambda>X i. ?E (xor_bytes X (slice_at (16 * i) 16 P))) (replicate 16 0) [0..<k]"
  obtain K1 K2 where K: "rfc4493_subkeys ?E = (K1, K2)" by force
  then have lK: "length K1 = 16" "length K2 = 16" by (auto simp: rfc4493_subkeys_def Let_def)
  have loop: "cmac_loop P ?n Key 16 0 Const_Zero = Inr (16 * k, X)"
    using cmac_loop_run [OF assms(1) refl, of Const_Zero 0] by (simp add: X_def k_def Const_Zero_def)
  have lX: "length X = 16" unfolding X_def by (cases k) (simp_all add: aes.length_enc)
  note blocks = cmac_block_count [of P, folded k_def]
  let ?Y = "if ?n - 16 * k = 16 then xor_bytes (xor_bytes (slice_at (16 * k) 16 P) X) K1
      else xor_bytes (xor_bytes ((put_at 0 (slice_at (16 * k) (?n - 16 * k) P) (replicate 16 0))[?n - 16 * k := 0x80]) X) K2"
  have Y: "?Y = xor_bytes X (if P \<noteq> [] \<and> ?n mod 16 = 0 then xor_bytes (slice_at (16 * k) 16 P) K1
      else xor_bytes (rfc4493_pad (slice_at (16 * k) 16 P)) K2)"
  proof -
    have sw: "xor_bytes (xor_bytes a X) b = xor_bytes X (xor_bytes a b)" for a b
      by (metis xor_bytes_assoc xor_bytes_commute)
    show ?thesis
    proof (cases "?n - 16 * k = 16")
      case False
      then have "?n - 16 * k < 16" "16 * k + (?n - 16 * k) = ?n" using blocks(2,3) by simp_all
      from cmac_last_block [OF this(2,1)] show ?thesis using False blocks(4) by (simp only: sw if_False)
    qed (use blocks(4) in \<open>simp only: sw if_True simp_thms\<close>)
  qed
  have "length ?Y = 16" using blocks(2,3) lX lK by (simp add: put_at_def)
  then have enc: "RT_AES_Encrypt True ?Y 16 Key 16 MAC len = Inr (?E ?Y @ drop 16 MAC, 16)"
    using assms by (intro RT_AES_Encrypt_ok) (simp_all add: aes_key_len_ok_def)
  have run: "AES_CMAC P ?n Key 16 MAC len = RT_AES_Encrypt True ?Y 16 Key 16 MAC len"
    using assms AES_CMAC_GenerateSubKey_rfc [OF assms(1), of "replicate 16 0" "replicate 16 0"]
    by (simp add: AES_CMAC_def K loop Let_def)
  have "rfc4493_cmac ?E P = ?E ?Y"
    unfolding Y rfc4493_cmac_def K Let_def prod.case blocks(1) X_def [symmetric] ..
  then show ?thesis by (simp only: run enc)
qed

theorem AES_CMAC_is_rfc4493_witness:
  "AES_CMAC [1, 2, 3] 3 (replicate 16 7) 16 (replicate 16 0) 16 =
    Inr (rfc4493_cmac (aes_enc_block (replicate 16 7) 16) [1, 2, 3], 16)"
  using AES_CMAC_is_rfc4493 [of "replicate 16 7" 16 "replicate 16 0" "[1, 2, 3]"] by (simp add: numeral_eq_Suc)

end
