(* ===== verification/StreamHash.thy ===== *)
theory StreamHash
  imports Prelude
begin

text \<open>
  What MD5, SHA-1 and SHA-256 in \<^verbatim>\<open>common/crypt_md5.c\<close> and \<^verbatim>\<open>common/crypt_sha2.c\<close> share: a context that
  collects a message in blocks of 64 bytes, the padding, and the interface \<open>stream_hash\<close> that the message
  authentication codes use. \<open>compress\<close> is the computation for one block.
\<close>

subsection \<open>The context\<close>

record hash_ctx =
  HashValue :: "u32 list"
  MessageLen :: "64 word"
  Block :: bytes
  BlockLen :: nat

definition hash_init :: "u32 list \<Rightarrow> hash_ctx" where
  "hash_init iv = \<lparr>HashValue = iv, MessageLen = 0, Block = replicate 64 0, BlockLen = 0\<rparr>"

definition hash_block :: "(u32 list \<Rightarrow> bytes \<Rightarrow> u32 list) \<Rightarrow> hash_ctx \<Rightarrow> hash_ctx" where
  "hash_block compress c =
     c\<lparr>HashValue := compress (HashValue c) (Block c), Block := replicate 64 0, BlockLen := 0\<rparr>"

text \<open>
  The loop over the message that is still to append. The block's length and the message's length are
  unsigned ints: where their sum wraps, the copy leaves the block.
\<close>

function append_loop :: "(u32 list \<Rightarrow> bytes \<Rightarrow> u32 list) \<Rightarrow> hash_ctx \<Rightarrow> bytes \<Rightarrow> c_fault + hash_ctx" where
  "append_loop compress c msg =
     (if msg = [] then Inr c
      else if 64 < BlockLen c \<or> 2 ^ 32 \<le> BlockLen c + length msg then Inl OOBWrite
      else if BlockLen c + length msg < 64 then
        Inr (c\<lparr>Block := put_at (BlockLen c) msg (Block c), BlockLen := BlockLen c + length msg\<rparr>)
      else
        let n = 64 - BlockLen c in
        append_loop compress
          (hash_block compress (c\<lparr>Block := put_at (BlockLen c) (take n msg) (Block c), BlockLen := 64\<rparr>)) (drop n msg))"
  by pat_completeness auto
termination
  by (relation "measure (\<lambda>(_, c, msg). length msg + BlockLen c)") (auto simp: hash_block_def)

declare append_loop.simps [simp del]

definition hash_append :: "(u32 list \<Rightarrow> bytes \<Rightarrow> u32 list) \<Rightarrow> hash_ctx \<Rightarrow> bytes \<Rightarrow> c_fault + hash_ctx" where
  "hash_append compress c msg =
     f_bind (append_loop compress c msg) (\<lambda>c. Inr (c\<lparr>MessageLen := MessageLen c + word_of_nat (length msg)\<rparr>))"

text \<open>\<open>len_bytes\<close> and \<open>word_bytes\<close>: the order of bytes in the length and in the digest.\<close>

definition hash_end :: "(u32 list \<Rightarrow> bytes \<Rightarrow> u32 list) \<Rightarrow> (64 word \<Rightarrow> bytes) \<Rightarrow> (u32 \<Rightarrow> bytes) \<Rightarrow> hash_ctx \<Rightarrow>
    c_fault + bytes" where
  "hash_end compress len_bytes word_bytes c =
     (if 64 \<le> BlockLen c then Inl OOBWrite
      else
        let c1 = c\<lparr>Block := (Block c)[BlockLen c := 0x80]\<rparr>;
            c2 = (if 55 < BlockLen c1 then hash_block compress c1 else c1);
            c3 = c2\<lparr>Block := put_at 56 (len_bytes (MessageLen c2 * 8)) (Block c2)\<rparr>
        in Inr (concat (map word_bytes (HashValue (hash_block compress c3)))))"

subsection \<open>Bytes and words\<close>

definition be32_word :: "bytes \<Rightarrow> u32" where
  "be32_word bs = le32_word (rev (take 4 bs))"

definition be32_bytes :: "u32 \<Rightarrow> bytes" where
  "be32_bytes w = rev (le32_bytes w)"

definition le64_bytes :: "64 word \<Rightarrow> bytes" where
  "le64_bytes w = map (\<lambda>i. ucast (drop_bit (8 * i) w)) [0..<8]"

definition be64_bytes :: "64 word \<Rightarrow> bytes" where
  "be64_bytes w = rev (le64_bytes w)"

lemma length_word_bytes [simp]:
  "length (be32_bytes w) = 4" "length (le64_bytes v) = 8" "length (be64_bytes v) = 8"
  by (simp_all add: be32_bytes_def le64_bytes_def be64_bytes_def)

text \<open>The 16 words of a block.\<close>

definition block_words :: "(bytes \<Rightarrow> u32) \<Rightarrow> bytes \<Rightarrow> u32 list" where
  "block_words word b = map (\<lambda>i. word (slice_at (4 * i) 4 b)) [0..<16]"

lemma length_block_words [simp]: "length (block_words word b) = 16"
  by (simp add: block_words_def)

definition rotl :: "nat \<Rightarrow> u32 \<Rightarrow> u32" where
  "rotl n x = push_bit n x OR drop_bit (32 - n) x"

definition rotr :: "nat \<Rightarrow> u32 \<Rightarrow> u32" where
  "rotr n x = drop_bit n x OR push_bit (32 - n) x"

lemma rotl_word_rotl: "0 < n \<Longrightarrow> n < 32 \<Longrightarrow> rotl n x = word_rotl n x"
proof (rule bit_word_eqI)
  fix m assume n: "0 < n" "n < 32" and m: "m < LENGTH(32)"
  have ge: "\<not> bit x k" if "32 \<le> k" for k using bit_imp_le_length [of x k] that by auto
  show "bit (rotl n x) m = bit (word_rotl n x) m"
  proof (cases "n \<le> m")
    case True
    then have "m + (32 - n) = 32 + (m - n)" "m - n < 32" using n m by simp_all
    then have "(m + (32 - n)) mod 32 = m - n" by (simp only: mod_add_self1 mod_less)
    moreover have "32 \<le> 32 - n + m" using n True by arith
    ultimately show ?thesis using n m True ge [of "32 - n + m"]
      by (simp add: rotl_def bit_word_rotl_iff bit_or_iff bit_push_bit_iff bit_drop_bit_eq)
  next
    case False
    then have "m + (32 - n) < 32" "m + (32 - n) = 32 - n + m" using n by arith+
    then have "(m + (32 - n)) mod 32 = 32 - n + m" by (simp only: mod_less)
    then show ?thesis using n m False
      by (simp add: rotl_def bit_word_rotl_iff bit_or_iff bit_push_bit_iff bit_drop_bit_eq)
  qed
qed

lemma rotr_word_rotr:
  assumes "0 < n" "n < 32"
  shows "rotr n x = word_rotr n x"
proof -
  have "rotr n x = rotl (32 - n) x" using assms by (simp add: rotr_def rotl_def or.commute)
  also have "\<dots> = word_rotl (32 - n) x" by (rule rotl_word_rotl) (use assms in simp_all)
  also have "\<dots> = word_rotr n x"
  proof (rule bit_word_eqI)
    fix m assume "m < LENGTH(32)"
    moreover have "32 - (32 - n) = n" using assms by simp
    ultimately show "bit (word_rotl (32 - n) x) m = bit (word_rotr n x) m"
      using assms by (simp add: bit_word_rotl_iff bit_word_rotr_iff)
  qed
  finally show ?thesis .
qed

subsection \<open>The specification\<close>

text \<open>
  The message is followed by a one bit, zeros and its length in bits, so that the whole is a number of
  blocks, which are compressed one after the other.
\<close>

function blocks64 :: "bytes \<Rightarrow> bytes list" where
  "blocks64 bs = (if bs = [] then [] else take 64 bs # blocks64 (drop 64 bs))"
  by pat_completeness auto
termination
  by (relation "measure length") auto

declare blocks64.simps [simp del]

lemma blocks64_Nil [simp]: "blocks64 [] = []"
  by (simp add: blocks64.simps)

definition md_padding :: "(64 word \<Rightarrow> bytes) \<Rightarrow> nat \<Rightarrow> bytes" where
  "md_padding len_bytes n = 0x80 # replicate ((119 - n mod 64) mod 64) 0 @ len_bytes (word_of_nat (8 * n))"

definition md_hash :: "(u32 list \<Rightarrow> bytes \<Rightarrow> u32 list) \<Rightarrow> u32 list \<Rightarrow> (64 word \<Rightarrow> bytes) \<Rightarrow> (u32 \<Rightarrow> bytes) \<Rightarrow>
    bytes \<Rightarrow> bytes" where
  "md_hash compress iv len_bytes word_bytes m =
     concat (map word_bytes (foldl compress iv (blocks64 (m @ md_padding len_bytes (length m)))))"

lemma blocks64_append: "length xs mod 64 = 0 \<Longrightarrow> blocks64 (xs @ ys) = blocks64 xs @ blocks64 ys"
proof (induction xs rule: blocks64.induct)
  case (1 xs)
  show ?case
  proof (cases "xs = []")
    case False
    then have l: "64 \<le> length xs" using 1(2) by (cases "length xs < 64") auto
    then have "length (drop 64 xs) mod 64 = 0" using 1(2) by (simp add: le_mod_geq)
    then show ?thesis using 1(1) [OF False] l False
      by (subst (1 2) blocks64.simps) simp
  qed simp
qed

lemma blocks64_one: "length b = 64 \<Longrightarrow> blocks64 b = [b]"
  by (subst blocks64.simps) auto

subsection \<open>The context after a message\<close>

definition full_part :: "bytes \<Rightarrow> bytes" where
  "full_part m = take (64 * (length m div 64)) m"

definition rest_part :: "bytes \<Rightarrow> bytes" where
  "rest_part m = drop (64 * (length m div 64)) m"

lemma full_rest: "m = full_part m @ rest_part m"
  by (simp add: full_part_def rest_part_def)

lemma length_parts [simp]:
  "length (rest_part m) = length m mod 64" "length (full_part m) = 64 * (length m div 64)"
proof -
  have "64 * (length m div 64) \<le> length m" by simp
  then show "length (full_part m) = 64 * (length m div 64)" by (simp add: full_part_def)
  show "length (rest_part m) = length m mod 64" by (simp add: rest_part_def minus_mult_div_eq_mod)
qed

lemma parts_unique:
  assumes "length a mod 64 = 0" "length b < 64"
  shows "full_part (a @ b) = a" "rest_part (a @ b) = b"
proof -
  obtain k where k: "length a = 64 * k" using assms(1) by (auto simp: mod_eq_0_iff_dvd dvd_def)
  have "length (a @ b) div 64 = k" using k assms(2) by simp
  then show "full_part (a @ b) = a" "rest_part (a @ b) = b" using k by (simp_all add: full_part_def rest_part_def)
qed

definition ctx_of :: "(u32 list \<Rightarrow> bytes \<Rightarrow> u32 list) \<Rightarrow> u32 list \<Rightarrow> bytes \<Rightarrow> hash_ctx" where
  "ctx_of compress iv m = \<lparr>HashValue = foldl compress iv (blocks64 (full_part m)),
     MessageLen = word_of_nat (length m), Block = rest_part m @ replicate (64 - length m mod 64) 0,
     BlockLen = length m mod 64\<rparr>"

lemma ctx_of_simps [simp]:
  "HashValue (ctx_of f iv m) = foldl f iv (blocks64 (full_part m))" "BlockLen (ctx_of f iv m) = length m mod 64"
  "MessageLen (ctx_of f iv m) = word_of_nat (length m)"
  "Block (ctx_of f iv m) = rest_part m @ replicate (64 - length m mod 64) 0"
  by (simp_all add: ctx_of_def)

lemma append_loop_ctx:
  assumes "64 + length x \<le> 2 ^ 32"
  shows "append_loop f ((ctx_of f iv m)\<lparr>MessageLen := l\<rparr>) x = Inr ((ctx_of f iv (m @ x))\<lparr>MessageLen := l\<rparr>)"
  using assms
proof (induction "length x" arbitrary: m x rule: less_induct)
  case less
  let ?r = "length m mod 64"
  have r: "?r < 64" by simp
  show ?case
  proof (cases "x = []")
    case True
    then show ?thesis by (simp add: append_loop.simps ctx_of_def)
  next
    case ne: False
    show ?thesis
    proof (cases "?r + length x < 64")
      case True
      have e: "m @ x = full_part m @ (rest_part m @ x)" using full_rest [of m] by simp
      have p: "full_part (m @ x) = full_part m" "rest_part (m @ x) = rest_part m @ x"
        unfolding e by (rule parts_unique; use True in simp)+
      have l: "length (m @ x) mod 64 = ?r + length x" using True by (metis length_parts(1) p(2) length_append)
      show ?thesis using ne True less.prems l
        by (subst append_loop.simps) (simp add: ctx_of_def p put_at_def)
    next
      case False
      let ?n = "64 - ?r" and ?b = "rest_part m @ take (64 - ?r) x" and ?m = "m @ take (64 - ?r) x"
      have b: "length ?b = 64" using False r by simp
      have e: "?m = (full_part m @ ?b) @ []" using full_rest [of m] by simp
      have l0: "length (full_part m @ ?b) mod 64 = 0" using b by (simp del: length_append add: length_append)
      have p: "full_part ?m = full_part m @ ?b" "rest_part ?m = []"
        unfolding e by (rule parts_unique [OF l0]; simp)+
      have l: "length ?m mod 64 = 0" using arg_cong [OF p(2), of length] by (simp del: length_append)
      let ?c = "(ctx_of f iv m)\<lparr>MessageLen := l\<rparr>"
      have put: "put_at (BlockLen ?c) (take ?n x) (Block ?c) = ?b"
        using False r by (simp add: put_at_def)
      have step: "hash_block f (?c\<lparr>Block := put_at (BlockLen ?c) (take ?n x) (Block ?c), BlockLen := 64\<rparr>) =
          (ctx_of f iv ?m)\<lparr>MessageLen := l\<rparr>"
        unfolding put using p l b by (simp add: hash_block_def ctx_of_def blocks64_append blocks64_one)
      have "append_loop f ?c x = append_loop f ((ctx_of f iv ?m)\<lparr>MessageLen := l\<rparr>) (drop ?n x)"
      proof -
        have "\<not> (64 < BlockLen ?c \<or> 2 ^ 32 \<le> BlockLen ?c + length x)" "\<not> BlockLen ?c + length x < 64"
            "64 - BlockLen ?c = ?n"
          using False less.prems r unfolding ctx_of_simps not_le by (simp_all, linarith)
        then show ?thesis using ne step by (subst append_loop.simps) (simp only: if_False Let_def)
      qed
      also have "\<dots> = Inr ((ctx_of f iv (?m @ drop ?n x))\<lparr>MessageLen := l\<rparr>)"
      proof (rule less.hyps)
        have "0 < ?n" "0 < length x" using ne r by (arith, simp)
        then show "length (drop ?n x) < length x" by (simp only: length_drop diff_less)
        show "64 + length (drop ?n x) \<le> 2 ^ 32" using less.prems by simp
      qed
      finally show ?thesis by simp
    qed
  qed
qed

lemma hash_append_ctx:
  assumes "64 + length x \<le> 2 ^ 32"
  shows "hash_append f (ctx_of f iv m) x = Inr (ctx_of f iv (m @ x))"
proof -
  have "ctx_of f iv m = (ctx_of f iv m)\<lparr>MessageLen := word_of_nat (length m)\<rparr>" by (simp add: ctx_of_def)
  then have "append_loop f (ctx_of f iv m) x = Inr ((ctx_of f iv (m @ x))\<lparr>MessageLen := word_of_nat (length m)\<rparr>)"
    using append_loop_ctx [OF assms, where l = "word_of_nat (length m)"] by metis
  then show ?thesis by (simp add: hash_append_def ctx_of_def)
qed

lemma hash_end_cases:
  "BlockLen c \<le> 55 \<Longrightarrow> hash_end f lb wb c = Inr (concat (map wb
     (f (HashValue c) (put_at 56 (lb (MessageLen c * 8)) ((Block c)[BlockLen c := 0x80])))))"
  "55 < BlockLen c \<Longrightarrow> BlockLen c < 64 \<Longrightarrow> hash_end f lb wb c = Inr (concat (map wb
     (f (f (HashValue c) ((Block c)[BlockLen c := 0x80])) (put_at 56 (lb (MessageLen c * 8)) (replicate 64 0)))))"
  by (simp_all add: hash_end_def hash_block_def Let_def)

lemma hash_end_ctx:
  assumes "\<And>w. length (lb w) = 8"
  shows "hash_end f lb wb (ctx_of f iv m) = Inr (md_hash f iv lb wb m)"
proof -
  let ?r = "length m mod 64" and ?L = "lb (word_of_nat (8 * length m))"
  have r: "?r < 64" by simp
  have bits: "word_of_nat (length m) * 8 = (word_of_nat (8 * length m) :: 64 word)" by (simp add: mult.commute)
  have set: "(rest_part m @ replicate (64 - ?r) 0)[?r := 0x80] = rest_part m @ 0x80 # replicate (63 - ?r) 0"
  proof -
    have "64 - ?r = Suc (63 - ?r)" using r by arith
    then have "replicate (64 - ?r) (0 :: u8) = 0 # replicate (63 - ?r) 0" by (simp only: replicate_Suc)
    then show ?thesis by (simp add: list_update_append)
  qed
  have fin: "Inr (concat (map wb (foldl f (foldl f iv (blocks64 (full_part m))) (blocks64 t)))) =
      (Inr (md_hash f iv lb wb m) :: c_fault + bytes)" if "t = rest_part m @ md_padding lb (length m)" for t
  proof -
    have "m @ md_padding lb (length m) = full_part m @ t" unfolding that by (simp add: full_rest [symmetric])
    then show ?thesis by (simp add: md_hash_def blocks64_append)
  qed
  show ?thesis
  proof (cases "55 < ?r")
    case True
    let ?b1 = "rest_part m @ 0x80 # replicate (63 - ?r) 0" and ?b2 = "replicate 56 0 @ ?L"
    have "119 - ?r < 64" "119 - ?r = (63 - ?r) + 56" using True r by arith+
    then have "(119 - ?r) mod 64 = (63 - ?r) + 56" by (simp only: mod_less)
    then have "rest_part m @ md_padding lb (length m) = ?b1 @ ?b2"
      unfolding md_padding_def by (simp only: replicate_add append_assoc append.simps)
    moreover have l: "length ?b1 = 64" "length ?b2 = 64" using r assms by simp_all
    moreover have "put_at 56 ?L (replicate 64 0) = ?b2"
      using assms by (simp add: put_at_def)
    ultimately have "blocks64 (?b1 @ ?b2) = [?b1, ?b2]" "put_at 56 ?L (replicate 64 0) = ?b2"
        "rest_part m @ md_padding lb (length m) = ?b1 @ ?b2"
      by (simp_all only: blocks64_append blocks64_one mod_self append.simps)
    note fin [OF this(3) [symmetric], unfolded this(1)] this(2)
    then show ?thesis using True r by (simp add: hash_end_cases(2) set bits)
  next
    case False
    let ?b = "rest_part m @ 0x80 # replicate (55 - ?r) 0 @ ?L"
    have "119 - ?r = 64 + (55 - ?r)" "55 - ?r < 64" using False by arith+
    then have "(119 - ?r) mod 64 = 55 - ?r" by (simp only: mod_add_self1 mod_less)
    then have t: "rest_part m @ md_padding lb (length m) = ?b" by (simp add: md_padding_def)
    have "put_at 56 ?L (rest_part m @ 0x80 # replicate (63 - ?r) 0) = ?b"
      using False assms by (simp add: put_at_def take_Cons')
    moreover have "length ?b = 64" using False assms by simp
    ultimately show ?thesis using fin [OF t [symmetric]] False
      by (simp add: hash_end_cases(1) set bits blocks64_one)
  qed
qed

subsection \<open>The interface: a hash function fed in pieces\<close>

text \<open>
  \<open>ok m c\<close>: context \<open>c\<close> has taken in the message \<open>m\<close>. The laws are what HMAC relies on: a context starts
  empty, pieces add up, and the end gives the hash of the whole.
\<close>

locale stream_hash =
  fixes init :: 'c and app :: "'c \<Rightarrow> bytes \<Rightarrow> c_fault + 'c" and fin :: "'c \<Rightarrow> c_fault + bytes"
    and ok :: "bytes \<Rightarrow> 'c \<Rightarrow> bool" and H :: "bytes \<Rightarrow> bytes" and L :: nat
  assumes init: "ok [] init"
    and app: "ok m c \<Longrightarrow> 64 + length x \<le> 2 ^ 32 \<Longrightarrow> \<exists>c1. app c x = Inr c1 \<and> ok (m @ x) c1"
    and fin: "ok m c \<Longrightarrow> fin c = Inr (H m)"
    and len: "length (H m) = L" "L \<le> 64"
begin

lemma pieces:
  assumes "ok m c" "\<forall>x\<in>set xs. 64 + length x \<le> 2 ^ 32"
  shows "f_bind (fold_fault app c xs) fin = Inr (H (m @ concat xs))"
  using assms
proof (induction xs arbitrary: m c)
  case (Cons x xs)
  obtain c1 where c1: "app c x = Inr c1" "ok (m @ x) c1" using app [OF Cons.prems(1), of x] Cons.prems(2) by auto
  show ?case using Cons.IH [OF c1(2)] Cons.prems(2) c1(1) by simp
qed (simp add: fin)

lemma one_shot: "64 + length m \<le> 2 ^ 32 \<Longrightarrow> f_bind (app init m) fin = Inr (H m)"
  using pieces [OF init, of "[m]"] by (cases "app init m") simp_all

lemma two_pieces:
  assumes "64 + length x \<le> 2 ^ 32" "64 + length y \<le> 2 ^ 32"
  shows "f_bind (app init x) (\<lambda>c. f_bind (app c y) fin) = Inr (H (x @ y))"
proof -
  have "f_bind (app init x) (\<lambda>c. f_bind (app c y) fin) = f_bind (fold_fault app init [x, y]) fin"
    by (cases "app init x") (simp_all add: f_bind_def split: sum.split)
  then show ?thesis using pieces [OF init, of "[x, y]"] assms by simp
qed

end

lemma md_stream:
  assumes "\<And>w. length (lb w) = 8" "\<And>w. length (wb w) = 4"
    "\<And>v b. length v = length iv \<Longrightarrow> length (f v b) = length iv" "length iv \<le> 16"
  shows "stream_hash (hash_init iv) (hash_append f) (hash_end f lb wb) (\<lambda>m c. c = ctx_of f iv m)
    (md_hash f iv lb wb) (4 * length iv)"
proof
  show "hash_init iv = ctx_of f iv []"
    by (simp add: hash_init_def ctx_of_def full_part_def rest_part_def)
  have "length v = length iv \<Longrightarrow> length (foldl f v bs) = length iv" for v bs
    by (induction bs arbitrary: v) (simp_all add: assms(3))
  then have fl: "length (foldl f iv bs) = length iv" for bs by simp
  have "length (concat (map wb ws)) = 4 * length ws" for ws by (induction ws) (simp_all add: assms(2))
  then show "length (md_hash f iv lb wb m) = 4 * length iv" for m by (simp add: md_hash_def fl)
  show "4 * length iv \<le> 64" using assms(4) by simp
qed (auto simp: hash_append_ctx hash_end_ctx assms(1))

end
