(* ===== verification/Md5.thy ===== *)
theory Md5
  imports StreamHash
begin

text \<open>
  MD5, \<^verbatim>\<open>common/crypt_md5.c\<close>: the 64 unrolled steps of a block on the variables \<^verbatim>\<open>a\<close> to \<^verbatim>\<open>d\<close>, and the
  equality with the loop of RFC 1321, which turns the variables instead.
\<close>

unbundle bit_operations_syntax

subsection \<open>The code\<close>

definition md5_F :: "u32 \<Rightarrow> u32 \<Rightarrow> u32 \<Rightarrow> u32" where "md5_F x y z = (x AND y) OR (NOT x AND z)"
definition md5_G :: "u32 \<Rightarrow> u32 \<Rightarrow> u32 \<Rightarrow> u32" where "md5_G x y z = (x AND z) OR (y AND NOT z)"
definition md5_H :: "u32 \<Rightarrow> u32 \<Rightarrow> u32 \<Rightarrow> u32" where "md5_H x y z = x XOR y XOR z"
definition md5_I :: "u32 \<Rightarrow> u32 \<Rightarrow> u32 \<Rightarrow> u32" where "md5_I x y z = y XOR (x OR NOT z)"

definition MD5_DefaultHashValue :: "u32 list" where
  "MD5_DefaultHashValue = [0x67452301, 0xefcdab89, 0x98badcfe, 0x10325476]"

text \<open>
  The arguments of the 64 macro calls: the variable that is computed (0 for \<^verbatim>\<open>a\<close>; the other three follow
  in turn), the word, the rotation and the constant.
\<close>

definition md5_calls :: "(nat \<times> nat \<times> nat \<times> u32) list" where
  "md5_calls =
     [(0, 0, 7, 0xd76aa478), (3, 1, 12, 0xe8c7b756), (2, 2, 17, 0x242070db), (1, 3, 22, 0xc1bdceee),
      (0, 4, 7, 0xf57c0faf), (3, 5, 12, 0x4787c62a), (2, 6, 17, 0xa8304613), (1, 7, 22, 0xfd469501),
      (0, 8, 7, 0x698098d8), (3, 9, 12, 0x8b44f7af), (2, 10, 17, 0xffff5bb1), (1, 11, 22, 0x895cd7be),
      (0, 12, 7, 0x6b901122), (3, 13, 12, 0xfd987193), (2, 14, 17, 0xa679438e), (1, 15, 22, 0x49b40821),
      (0, 1, 5, 0xf61e2562), (3, 6, 9, 0xc040b340), (2, 11, 14, 0x265e5a51), (1, 0, 20, 0xe9b6c7aa),
      (0, 5, 5, 0xd62f105d), (3, 10, 9, 0x2441453), (2, 15, 14, 0xd8a1e681), (1, 4, 20, 0xe7d3fbc8),
      (0, 9, 5, 0x21e1cde6), (3, 14, 9, 0xc33707d6), (2, 3, 14, 0xf4d50d87), (1, 8, 20, 0x455a14ed),
      (0, 13, 5, 0xa9e3e905), (3, 2, 9, 0xfcefa3f8), (2, 7, 14, 0x676f02d9), (1, 12, 20, 0x8d2a4c8a),
      (0, 5, 4, 0xfffa3942), (3, 8, 11, 0x8771f681), (2, 11, 16, 0x6d9d6122), (1, 14, 23, 0xfde5380c),
      (0, 1, 4, 0xa4beea44), (3, 4, 11, 0x4bdecfa9), (2, 7, 16, 0xf6bb4b60), (1, 10, 23, 0xbebfbc70),
      (0, 13, 4, 0x289b7ec6), (3, 0, 11, 0xeaa127fa), (2, 3, 16, 0xd4ef3085), (1, 6, 23, 0x4881d05),
      (0, 9, 4, 0xd9d4d039), (3, 12, 11, 0xe6db99e5), (2, 15, 16, 0x1fa27cf8), (1, 2, 23, 0xc4ac5665),
      (0, 0, 6, 0xf4292244), (3, 7, 10, 0x432aff97), (2, 14, 15, 0xab9423a7), (1, 5, 21, 0xfc93a039),
      (0, 12, 6, 0x655b59c3), (3, 3, 10, 0x8f0ccc92), (2, 10, 15, 0xffeff47d), (1, 1, 21, 0x85845dd1),
      (0, 8, 6, 0x6fa87e4f), (3, 15, 10, 0xfe2ce6e0), (2, 6, 15, 0xa3014314), (1, 13, 21, 0x4e0811a1),
      (0, 4, 6, 0xf7537e82), (3, 11, 10, 0xbd3af235), (2, 2, 15, 0x2ad7d2bb), (1, 9, 21, 0xeb86d391)]"

definition md5_round_fun :: "nat \<Rightarrow> u32 \<Rightarrow> u32 \<Rightarrow> u32 \<Rightarrow> u32" where
  "md5_round_fun i = (if i < 16 then md5_F else if i < 32 then md5_G else if i < 48 then md5_H else md5_I)"

text \<open>\<^verbatim>\<open>ROUND1\<close> to \<^verbatim>\<open>ROUND4\<close>.\<close>

definition md5_call :: "u32 list \<Rightarrow> u32 list \<Rightarrow> nat \<times> nat \<times> nat \<times> nat \<times> u32 \<Rightarrow> u32 list" where
  "md5_call X v = (\<lambda>(i, a, x, s, ac).
     let b = v ! ((a + 1) mod 4); c = v ! ((a + 2) mod 4); d = v ! ((a + 3) mod 4) in
     v[a := rotl s (v ! a + (md5_round_fun i b c d + X ! x + ac)) + b])"

definition md5_compress :: "u32 list \<Rightarrow> bytes \<Rightarrow> u32 list" where
  "md5_compress hv b =
     (let X = block_words le32_word b;
          v = foldl (md5_call X) (take 4 hv) (zip [0..<64] md5_calls)
      in map2 (+) hv v)"

definition RT_MD5_Init :: hash_ctx where
  "RT_MD5_Init = hash_init MD5_DefaultHashValue"

definition RT_MD5_Hash :: "hash_ctx \<Rightarrow> hash_ctx" where
  "RT_MD5_Hash = hash_block md5_compress"

definition RT_MD5_Append :: "hash_ctx \<Rightarrow> bytes \<Rightarrow> c_fault + hash_ctx" where
  "RT_MD5_Append = hash_append md5_compress"

definition RT_MD5_End :: "hash_ctx \<Rightarrow> c_fault + bytes" where
  "RT_MD5_End = hash_end md5_compress le64_bytes le32_bytes"

definition RT_MD5 :: "bytes \<Rightarrow> c_fault + bytes" where
  "RT_MD5 Message = f_bind (RT_MD5_Append RT_MD5_Init Message) RT_MD5_End"

subsection \<open>The standard\<close>

text \<open>The constants are the first 32 bits of the absolute sines of 1 to 64.\<close>

definition rfc1321_T :: "u32 list" where
  "rfc1321_T =
     [0xd76aa478, 0xe8c7b756, 0x242070db, 0xc1bdceee, 0xf57c0faf, 0x4787c62a, 0xa8304613, 0xfd469501,
      0x698098d8, 0x8b44f7af, 0xffff5bb1, 0x895cd7be, 0x6b901122, 0xfd987193, 0xa679438e, 0x49b40821,
      0xf61e2562, 0xc040b340, 0x265e5a51, 0xe9b6c7aa, 0xd62f105d, 0x02441453, 0xd8a1e681, 0xe7d3fbc8,
      0x21e1cde6, 0xc33707d6, 0xf4d50d87, 0x455a14ed, 0xa9e3e905, 0xfcefa3f8, 0x676f02d9, 0x8d2a4c8a,
      0xfffa3942, 0x8771f681, 0x6d9d6122, 0xfde5380c, 0xa4beea44, 0x4bdecfa9, 0xf6bb4b60, 0xbebfbc70,
      0x289b7ec6, 0xeaa127fa, 0xd4ef3085, 0x04881d05, 0xd9d4d039, 0xe6db99e5, 0x1fa27cf8, 0xc4ac5665,
      0xf4292244, 0x432aff97, 0xab9423a7, 0xfc93a039, 0x655b59c3, 0x8f0ccc92, 0xffeff47d, 0x85845dd1,
      0x6fa87e4f, 0xfe2ce6e0, 0xa3014314, 0x4e0811a1, 0xf7537e82, 0xbd3af235, 0x2ad7d2bb, 0xeb86d391]"

definition rfc1321_k :: "nat \<Rightarrow> nat" where
  "rfc1321_k i = (if i < 16 then i else if i < 32 then 5 * i + 1 else if i < 48 then 3 * i + 5 else 7 * i) mod 16"

definition rfc1321_s :: "nat \<Rightarrow> nat" where
  "rfc1321_s i = [[7, 12, 17, 22], [5, 9, 14, 20], [4, 11, 16, 23], [6, 10, 15, 21]] ! (i div 16) ! (i mod 4)"

definition rfc1321_step :: "u32 list \<Rightarrow> u32 \<times> u32 \<times> u32 \<times> u32 \<Rightarrow> nat \<Rightarrow> u32 \<times> u32 \<times> u32 \<times> u32" where
  "rfc1321_step X = (\<lambda>(a, b, c, d) i.
     (d, b + word_rotl (rfc1321_s i) (a + md5_round_fun i b c d + X ! rfc1321_k i + rfc1321_T ! i), b, c))"

definition rfc1321_compress :: "u32 list \<Rightarrow> bytes \<Rightarrow> u32 list" where
  "rfc1321_compress hv b =
     (case foldl (rfc1321_step (block_words le32_word b)) (hv ! 0, hv ! 1, hv ! 2, hv ! 3) [0..<64] of
        (a, b, c, d) \<Rightarrow> [hv ! 0 + a, hv ! 1 + b, hv ! 2 + c, hv ! 3 + d])"

definition rfc1321_md5 :: "bytes \<Rightarrow> bytes" where
  "rfc1321_md5 = md_hash rfc1321_compress [0x67452301, 0xefcdab89, 0x98badcfe, 0x10325476] le64_bytes le32_bytes"

subsection \<open>The code computes the standard\<close>

lemma md5_calls_rfc:
  "md5_calls = map (\<lambda>i. ((4 - i mod 4) mod 4, rfc1321_k i, rfc1321_s i, rfc1321_T ! i)) [0..<64]"
  by code_simp

text \<open>The variables after \<open>i\<close> steps, as the standard names them.\<close>

definition turned :: "nat \<Rightarrow> u32 list \<Rightarrow> u32 \<times> u32 \<times> u32 \<times> u32" where
  "turned i v = (let a = (4 - i mod 4) mod 4 in
     (v ! a, v ! ((a + 1) mod 4), v ! ((a + 2) mod 4), v ! ((a + 3) mod 4)))"

lemma rfc1321_s_range: "i < 64 \<Longrightarrow> 0 < rfc1321_s i \<and> rfc1321_s i < 32"
proof -
  assume "i < 64"
  moreover have "list_all (\<lambda>i. 0 < rfc1321_s i \<and> rfc1321_s i < 32) [0..<64]" by code_simp
  ultimately show ?thesis by (simp add: list_all_iff)
qed

lemma md5_call_turned:
  assumes "i < 64" "length v = 4"
  shows "turned (Suc i) (md5_call X v (i, (4 - i mod 4) mod 4, rfc1321_k i, rfc1321_s i, rfc1321_T ! i)) =
    rfc1321_step X (turned i v) i"
proof -
  obtain p q r s where v: "v = [p, q, r, s]" using assms(2) by (auto simp: numeral_eq_Suc length_Suc_conv)
  note rot = rotl_word_rotl [OF conjunct1 [OF rfc1321_s_range [OF assms(1)]] conjunct2 [OF rfc1321_s_range [OF assms(1)]]]
  have "i mod 4 = 0 \<or> i mod 4 = 1 \<or> i mod 4 = 2 \<or> i mod 4 = 3" by linarith
  then show ?thesis
    by (elim disjE) (simp_all add: v turned_def md5_call_def rfc1321_step_def rot mod_Suc Let_def ac_simps)
qed

lemma length_md5_call [simp]: "length (md5_call X v row) = length v"
  by (simp add: md5_call_def Let_def split_beta)

lemma md5_calls_turned:
  assumes "length v = 4" "n \<le> 64"
  shows "turned n (foldl (md5_call X) v (take n (zip [0..<64] md5_calls))) =
      foldl (rfc1321_step X) (turned 0 v) [0..<n] \<and>
    length (foldl (md5_call X) v (take n (zip [0..<64] md5_calls))) = 4"
  using assms(2)
proof (induction n)
  case 0
  then show ?case using assms(1) by simp
next
  case (Suc n)
  let ?z = "zip [0..<64] md5_calls"
  have z: "length ?z = 64" "?z ! n = (n, (4 - n mod 4) mod 4, rfc1321_k n, rfc1321_s n, rfc1321_T ! n)"
    using Suc.prems unfolding md5_calls_rfc by simp_all
  have "take (Suc n) ?z = take n ?z @ [?z ! n]" using Suc.prems z(1) by (simp add: take_Suc_conv_app_nth)
  then show ?case using Suc md5_call_turned [of n _ X] z(2) by simp
qed

lemma md5_compress_rfc:
  assumes "length hv = 4"
  shows "md5_compress hv b = rfc1321_compress hv b"
proof -
  obtain p q r s where hv: "hv = [p, q, r, s]" using assms by (auto simp: numeral_eq_Suc length_Suc_conv)
  let ?X = "block_words le32_word b" and ?z = "zip [0..<64] md5_calls"
  let ?v = "foldl (md5_call ?X) hv ?z"
  have "length ?z = 64" by (simp add: md5_calls_rfc)
  then have t: "turned 64 ?v = foldl (rfc1321_step ?X) (turned 0 hv) [0..<64]" "length ?v = 4"
    using md5_calls_turned [OF assms, of 64 ?X] by simp_all
  obtain a b c d where v: "?v = [a, b, c, d]" using t(2) by (auto simp: numeral_eq_Suc length_Suc_conv)
  have "foldl (rfc1321_step ?X) (p, q, r, s) [0..<64] = (a, b, c, d)"
    using t(1) unfolding v by (simp add: turned_def hv del: foldl_append upt_rec_numeral)
  then show ?thesis using v by (simp add: md5_compress_def rfc1321_compress_def hv Let_def del: upt_rec_numeral)
qed

lemma length_md5_compress: "length v = 4 \<Longrightarrow> length (md5_compress v b) = 4"
  by (simp add: md5_compress_rfc rfc1321_compress_def split: prod.split)

end
