(* ===== verification/Sha.thy ===== *)
theory Sha
  imports StreamHash
begin

text \<open>
  SHA-1 and SHA-256, \<^verbatim>\<open>common/crypt_sha2.c\<close>: the computation for one block with its message schedule,
  and the equality with FIPS 180-4.
\<close>

unbundle bit_operations_syntax

subsection \<open>The code\<close>

definition Ch :: "u32 \<Rightarrow> u32 \<Rightarrow> u32 \<Rightarrow> u32" where "Ch x y z = (x AND y) XOR (NOT x AND z)"
definition Maj :: "u32 \<Rightarrow> u32 \<Rightarrow> u32 \<Rightarrow> u32" where "Maj x y z = (x AND y) XOR (x AND z) XOR (y AND z)"
definition Parity :: "u32 \<Rightarrow> u32 \<Rightarrow> u32 \<Rightarrow> u32" where "Parity x y z = x XOR y XOR z"

definition SHA1_K :: "u32 list" where
  "SHA1_K = [0x5a827999, 0x6ed9eba1, 0x8f1bbcdc, 0xca62c1d6]"

definition SHA1_DefaultHashValue :: "u32 list" where
  "SHA1_DefaultHashValue = [0x67452301, 0xefcdab89, 0x98badcfe, 0x10325476, 0xc3d2e1f0]"

definition sha1_schedule :: "bytes \<Rightarrow> u32 list" where
  "sha1_schedule b =
     foldl (\<lambda>W i. W @ [rotl 1 (W ! (i - 3) XOR W ! (i - 8) XOR W ! (i - 14) XOR W ! (i - 16))])
       (block_words be32_word b) [16..<80]"

type_synonym sha1_vars = "u32 \<times> u32 \<times> u32 \<times> u32 \<times> u32"

definition sha1_round :: "(u32 \<Rightarrow> u32 \<Rightarrow> u32 \<Rightarrow> u32) \<Rightarrow> u32 \<Rightarrow> u32 list \<Rightarrow> sha1_vars \<Rightarrow> nat \<Rightarrow> sha1_vars" where
  "sha1_round f k W = (\<lambda>(a, b, c, d, e) t.
     let f_t = f b c d;
         T = rotl 5 a + f_t + e + k + W ! t
     in (T, a, rotl 30 b, c, d))"

text \<open>The four \<^verbatim>\<open>for\<close> loops.\<close>

definition sha1_compress :: "u32 list \<Rightarrow> bytes \<Rightarrow> u32 list" where
  "sha1_compress hv blk =
     (let W = sha1_schedule blk;
          v = (hv ! 0, hv ! 1, hv ! 2, hv ! 3, hv ! 4);
          v = foldl (sha1_round Ch (SHA1_K ! 0) W) v [0..<20];
          v = foldl (sha1_round Parity (SHA1_K ! 1) W) v [20..<40];
          v = foldl (sha1_round Maj (SHA1_K ! 2) W) v [40..<60]
      in case foldl (sha1_round Parity (SHA1_K ! 3) W) v [60..<80] of
           (a, b, c, d, e) \<Rightarrow> map2 (+) hv [a, b, c, d, e])"

definition RT_SHA1_Init :: hash_ctx where
  "RT_SHA1_Init = hash_init SHA1_DefaultHashValue"

definition RT_SHA1_Hash :: "hash_ctx \<Rightarrow> hash_ctx" where
  "RT_SHA1_Hash = hash_block sha1_compress"

definition RT_SHA1_Append :: "hash_ctx \<Rightarrow> bytes \<Rightarrow> c_fault + hash_ctx" where
  "RT_SHA1_Append = hash_append sha1_compress"

definition RT_SHA1_End :: "hash_ctx \<Rightarrow> c_fault + bytes" where
  "RT_SHA1_End = hash_end sha1_compress be64_bytes be32_bytes"

definition RT_SHA1 :: "bytes \<Rightarrow> c_fault + bytes" where
  "RT_SHA1 Message = f_bind (RT_SHA1_Append RT_SHA1_Init Message) RT_SHA1_End"

definition Zsigma_256_0 :: "u32 \<Rightarrow> u32" where "Zsigma_256_0 x = rotr 2 x XOR rotr 13 x XOR rotr 22 x"
definition Zsigma_256_1 :: "u32 \<Rightarrow> u32" where "Zsigma_256_1 x = rotr 6 x XOR rotr 11 x XOR rotr 25 x"
definition Sigma_256_0 :: "u32 \<Rightarrow> u32" where "Sigma_256_0 x = rotr 7 x XOR rotr 18 x XOR drop_bit 3 x"
definition Sigma_256_1 :: "u32 \<Rightarrow> u32" where "Sigma_256_1 x = rotr 17 x XOR rotr 19 x XOR drop_bit 10 x"

definition SHA256_K :: "u32 list" where
  "SHA256_K = concat
     [[0x428a2f98, 0x71374491, 0xb5c0fbcf, 0xe9b5dba5], [0x3956c25b, 0x59f111f1, 0x923f82a4, 0xab1c5ed5],
      [0xd807aa98, 0x12835b01, 0x243185be, 0x550c7dc3], [0x72be5d74, 0x80deb1fe, 0x9bdc06a7, 0xc19bf174],
      [0xe49b69c1, 0xefbe4786, 0x0fc19dc6, 0x240ca1cc], [0x2de92c6f, 0x4a7484aa, 0x5cb0a9dc, 0x76f988da],
      [0x983e5152, 0xa831c66d, 0xb00327c8, 0xbf597fc7], [0xc6e00bf3, 0xd5a79147, 0x06ca6351, 0x14292967],
      [0x27b70a85, 0x2e1b2138, 0x4d2c6dfc, 0x53380d13], [0x650a7354, 0x766a0abb, 0x81c2c92e, 0x92722c85],
      [0xa2bfe8a1, 0xa81a664b, 0xc24b8b70, 0xc76c51a3], [0xd192e819, 0xd6990624, 0xf40e3585, 0x106aa070],
      [0x19a4c116, 0x1e376c08, 0x2748774c, 0x34b0bcb5], [0x391c0cb3, 0x4ed8aa4a, 0x5b9cca4f, 0x682e6ff3],
      [0x748f82ee, 0x78a5636f, 0x84c87814, 0x8cc70208], [0x90befffa, 0xa4506ceb, 0xbef9a3f7, 0xc67178f2]]"

definition SHA256_DefaultHashValue :: "u32 list" where
  "SHA256_DefaultHashValue =
     [0x6a09e667, 0xbb67ae85, 0x3c6ef372, 0xa54ff53a, 0x510e527f, 0x9b05688c, 0x1f83d9ab, 0x5be0cd19]"

type_synonym sha256_vars = "u32 \<times> u32 \<times> u32 \<times> u32 \<times> u32 \<times> u32 \<times> u32 \<times> u32"

text \<open>The schedule is extended while the rounds run.\<close>

definition sha256_round :: "u32 list \<times> sha256_vars \<Rightarrow> nat \<Rightarrow> u32 list \<times> sha256_vars" where
  "sha256_round = (\<lambda>(W, a, b, c, d, e, f, g, h) t.
     let W = (if 15 < t
              then W @ [Sigma_256_1 (W ! (t - 2)) + W ! (t - 7) + Sigma_256_0 (W ! (t - 15)) + W ! (t - 16)]
              else W);
         T1 = h + Zsigma_256_1 e + Ch e f g + SHA256_K ! t + W ! t;
         T2 = Zsigma_256_0 a + Maj a b c
     in (W, T1 + T2, a, b, c, d + T1, e, f, g))"

definition sha256_compress :: "u32 list \<Rightarrow> bytes \<Rightarrow> u32 list" where
  "sha256_compress hv blk =
     (case foldl sha256_round
        (block_words be32_word blk, hv ! 0, hv ! 1, hv ! 2, hv ! 3, hv ! 4, hv ! 5, hv ! 6, hv ! 7) [0..<64] of
        (W, a, b, c, d, e, f, g, h) \<Rightarrow> map2 (+) hv [a, b, c, d, e, f, g, h])"

definition RT_SHA256_Init :: hash_ctx where
  "RT_SHA256_Init = hash_init SHA256_DefaultHashValue"

definition RT_SHA256_Hash :: "hash_ctx \<Rightarrow> hash_ctx" where
  "RT_SHA256_Hash = hash_block sha256_compress"

definition RT_SHA256_Append :: "hash_ctx \<Rightarrow> bytes \<Rightarrow> c_fault + hash_ctx" where
  "RT_SHA256_Append = hash_append sha256_compress"

definition RT_SHA256_End :: "hash_ctx \<Rightarrow> c_fault + bytes" where
  "RT_SHA256_End = hash_end sha256_compress be64_bytes be32_bytes"

definition RT_SHA256 :: "bytes \<Rightarrow> c_fault + bytes" where
  "RT_SHA256 Message = f_bind (RT_SHA256_Append RT_SHA256_Init Message) RT_SHA256_End"

subsection \<open>The standard\<close>

text \<open>FIPS 180-4, sections 4.1, 4.2, 6.1 and 6.2.\<close>

function fips_W1 :: "u32 list \<Rightarrow> nat \<Rightarrow> u32" where
  "fips_W1 M t = (if t < 16 then M ! t
     else word_rotl 1 (fips_W1 M (t - 3) XOR fips_W1 M (t - 8) XOR fips_W1 M (t - 14) XOR fips_W1 M (t - 16)))"
  by pat_completeness auto
termination by (relation "measure snd") auto

definition fips_f1 :: "nat \<Rightarrow> u32 \<Rightarrow> u32 \<Rightarrow> u32 \<Rightarrow> u32" where
  "fips_f1 t x y z =
     (if t < 20 then (x AND y) XOR (NOT x AND z)
      else if 40 \<le> t \<and> t < 60 then (x AND y) XOR (x AND z) XOR (y AND z)
      else x XOR y XOR z)"

definition fips_K1 :: "nat \<Rightarrow> u32" where
  "fips_K1 t = (if t < 20 then 0x5a827999 else if t < 40 then 0x6ed9eba1 else if t < 60 then 0x8f1bbcdc else 0xca62c1d6)"

definition fips_sha1_step :: "u32 list \<Rightarrow> sha1_vars \<Rightarrow> nat \<Rightarrow> sha1_vars" where
  "fips_sha1_step M = (\<lambda>(a, b, c, d, e) t.
     (word_rotl 5 a + fips_f1 t b c d + e + fips_K1 t + fips_W1 M t, a, word_rotl 30 b, c, d))"

definition fips_sha1_compress :: "u32 list \<Rightarrow> bytes \<Rightarrow> u32 list" where
  "fips_sha1_compress H blk =
     (case foldl (fips_sha1_step (block_words be32_word blk)) (H ! 0, H ! 1, H ! 2, H ! 3, H ! 4) [0..<80] of
        (a, b, c, d, e) \<Rightarrow> [a + H ! 0, b + H ! 1, c + H ! 2, d + H ! 3, e + H ! 4])"

definition fips_sha1 :: "bytes \<Rightarrow> bytes" where
  "fips_sha1 = md_hash fips_sha1_compress
     [0x67452301, 0xefcdab89, 0x98badcfe, 0x10325476, 0xc3d2e1f0] be64_bytes be32_bytes"

function fips_W2 :: "u32 list \<Rightarrow> nat \<Rightarrow> u32" where
  "fips_W2 M t = (if t < 16 then M ! t
     else (let w = fips_W2 M (t - 2); v = fips_W2 M (t - 15) in
       (word_rotr 17 w XOR word_rotr 19 w XOR drop_bit 10 w) + fips_W2 M (t - 7) +
       (word_rotr 7 v XOR word_rotr 18 v XOR drop_bit 3 v) + fips_W2 M (t - 16)))"
  by pat_completeness auto
termination by (relation "measure snd") auto

declare fips_W1.simps [simp del] fips_W2.simps [simp del]

definition fips_sha256_step :: "u32 list \<Rightarrow> sha256_vars \<Rightarrow> nat \<Rightarrow> sha256_vars" where
  "fips_sha256_step M = (\<lambda>(a, b, c, d, e, f, g, h) t.
     let T1 = h + (word_rotr 6 e XOR word_rotr 11 e XOR word_rotr 25 e) + ((e AND f) XOR (NOT e AND g)) +
           SHA256_K ! t + fips_W2 M t;
         T2 = (word_rotr 2 a XOR word_rotr 13 a XOR word_rotr 22 a) + ((a AND b) XOR (a AND c) XOR (b AND c))
     in (T1 + T2, a, b, c, d + T1, e, f, g))"

definition fips_sha256_compress :: "u32 list \<Rightarrow> bytes \<Rightarrow> u32 list" where
  "fips_sha256_compress H blk =
     (case foldl (fips_sha256_step (block_words be32_word blk))
        (H ! 0, H ! 1, H ! 2, H ! 3, H ! 4, H ! 5, H ! 6, H ! 7) [0..<64] of
        (a, b, c, d, e, f, g, h) \<Rightarrow>
          [a + H ! 0, b + H ! 1, c + H ! 2, d + H ! 3, e + H ! 4, f + H ! 5, g + H ! 6, h + H ! 7])"

definition fips_sha256 :: "bytes \<Rightarrow> bytes" where
  "fips_sha256 = md_hash fips_sha256_compress
     [0x6a09e667, 0xbb67ae85, 0x3c6ef372, 0xa54ff53a, 0x510e527f, 0x9b05688c, 0x1f83d9ab, 0x5be0cd19]
     be64_bytes be32_bytes"

text \<open>
  The 64 constants: the first 32 bits of the fractional parts of the cube roots of the first 64 primes,
  that is, the root of the prime \<open>p\<close> lies between \<open>n / 2 ^ 32\<close> and \<open>(n + 1) / 2 ^ 32\<close> where the constant
  is \<open>n\<close> without its integer part.
\<close>

definition first_primes :: "int list" where
  "first_primes = [2, 3, 5, 7, 11, 13, 17, 19, 23, 29, 31, 37, 41, 43, 47, 53, 59, 61, 67, 71, 73, 79, 83, 89, 97,
     101, 103, 107, 109, 113, 127, 131, 137, 139, 149, 151, 157, 163, 167, 173, 179, 181, 191, 193, 197, 199,
     211, 223, 227, 229, 233, 239, 241, 251, 257, 263, 269, 271, 277, 281, 283, 293, 307, 311]"

definition cube_root_fraction :: "int \<Rightarrow> u32 \<Rightarrow> bool" where
  "cube_root_fraction p k \<longleftrightarrow>
     (\<exists>i\<in>set [1, 2, 3, 4, 5, 6]. let n = i * 2 ^ 32 + uint k in n ^ 3 \<le> p * 2 ^ 96 \<and> p * 2 ^ 96 < (n + 1) ^ 3)"

lemma SHA256_K_cube_roots: "list_all2 cube_root_fraction first_primes SHA256_K"
  by code_simp

subsection \<open>The code computes the standard\<close>

lemma sha1_schedule_fips:
  assumes "length M = 16" "16 \<le> n"
  shows "foldl (\<lambda>W i. W @ [rotl 1 (W ! (i - 3) XOR W ! (i - 8) XOR W ! (i - 14) XOR W ! (i - 16))]) M [16..<n] =
    map (fips_W1 M) [0..<n]"
  using assms(2)
proof (induction n rule: dec_induct)
  case base
  have "map (fips_W1 M) [0..<16] = map ((!) M) [0..<length M]"
    using assms(1) by (intro map_cong) (simp_all add: fips_W1.simps)
  then show ?case by (simp add: map_nth)
next
  case (step n)
  have "fips_W1 M n = word_rotl 1 (fips_W1 M (n - 3) XOR fips_W1 M (n - 8) XOR fips_W1 M (n - 14) XOR fips_W1 M (n - 16))"
    using step(1) by (subst fips_W1.simps) simp
  with step show ?case by (simp add: rotl_word_rotl)
qed

lemma sha1_schedule_nth: "t < 80 \<Longrightarrow> sha1_schedule b ! t = fips_W1 (block_words be32_word b) t"
  using sha1_schedule_fips [of "block_words be32_word b" 80] unfolding sha1_schedule_def
  by (simp del: upt_rec_numeral One_nat_def)

lemma sha1_rounds_fips:
  assumes "n \<le> 80" "\<And>t. m \<le> t \<Longrightarrow> t < n \<Longrightarrow> f = fips_f1 t \<and> k = fips_K1 t"
  shows "foldl (sha1_round f k (sha1_schedule b)) v [m..<n] = foldl (fips_sha1_step (block_words be32_word b)) v [m..<n]"
proof (rule foldl_cong)
  fix v :: sha1_vars and t assume "t \<in> set [m..<n]"
  then show "sha1_round f k (sha1_schedule b) v t = fips_sha1_step (block_words be32_word b) v t"
    using assms(1) assms(2) [of t]
    by (cases v) (simp add: sha1_round_def fips_sha1_step_def rotl_word_rotl sha1_schedule_nth)
qed simp_all

lemma sha1_compress_fips:
  assumes "length hv = 5"
  shows "sha1_compress hv b = fips_sha1_compress hv b"
proof -
  have upt: "[0..<80] = [0..<20] @ [20..<40] @ [40..<60] @ [60..<80::nat]"
    using upt_add_eq_append [of 0 20 60] upt_add_eq_append [of 20 40 40] upt_add_eq_append [of 40 60 20]
    by (simp del: upt_rec_numeral)
  obtain h0 h1 h2 h3 h4 where hv: "hv = [h0, h1, h2, h3, h4]"
    using assms by (auto simp: numeral_eq_Suc length_Suc_conv)
  have r: "foldl (sha1_round Ch (SHA1_K ! 0) (sha1_schedule b)) v [0..<20] = foldl (fips_sha1_step (block_words be32_word b)) v [0..<20]"
    "foldl (sha1_round Parity (SHA1_K ! 1) (sha1_schedule b)) v [20..<40] = foldl (fips_sha1_step (block_words be32_word b)) v [20..<40]"
    "foldl (sha1_round Maj (SHA1_K ! 2) (sha1_schedule b)) v [40..<60] = foldl (fips_sha1_step (block_words be32_word b)) v [40..<60]"
    "foldl (sha1_round Parity (SHA1_K ! 3) (sha1_schedule b)) v [60..<80] = foldl (fips_sha1_step (block_words be32_word b)) v [60..<80]" for v
    by (rule sha1_rounds_fips; simp add: fips_f1_def fips_K1_def SHA1_K_def fun_eq_iff Ch_def Parity_def Maj_def)+
  show ?thesis
    unfolding sha1_compress_def fips_sha1_compress_def Let_def r upt foldl_append
    by (simp add: hv add.commute split: prod.split del: upt_rec_numeral)
qed

lemma length_sha1_compress: "length hv = 5 \<Longrightarrow> length (sha1_compress hv b) = 5"
  by (simp add: sha1_compress_fips fips_sha1_compress_def split: prod.split)

lemmas sigma_fips = Zsigma_256_0_def Zsigma_256_1_def Sigma_256_0_def Sigma_256_1_def Ch_def Maj_def rotr_word_rotr

lemma sha256_rounds_fips:
  assumes "length M = 16"
  shows "foldl sha256_round (M, v) [0..<n] = (map (fips_W2 M) [0..<max 16 n], foldl (fips_sha256_step M) v [0..<n])"
proof (induction n)
  case 0
  have "map (fips_W2 M) [0..<16] = map ((!) M) [0..<length M]"
    using assms by (intro map_cong) (simp_all add: fips_W2.simps)
  then show ?case by (simp add: map_nth del: upt_rec_numeral)
next
  case (Suc n)
  obtain a b c d e f g h where v: "foldl (fips_sha256_step M) v [0..<n] = (a, b, c, d, e, f, g, h)"
    by (cases "foldl (fips_sha256_step M) v [0..<n]") auto
  show ?case
  proof (cases "n < 16")
    case True
    then have "max 16 (Suc n) = 16" "max 16 n = 16" "n < 16" by simp_all
    with Suc v show ?thesis
      by (simp add: sha256_round_def fips_sha256_step_def sigma_fips Let_def del: upt_rec_numeral)
  next
    case False
    then have "max 16 (Suc n) = Suc n" "max 16 n = n" "15 < n" by simp_all
    moreover have "fips_W2 M n = (let w = fips_W2 M (n - 2); v = fips_W2 M (n - 15) in
       (word_rotr 17 w XOR word_rotr 19 w XOR drop_bit 10 w) + fips_W2 M (n - 7) +
       (word_rotr 7 v XOR word_rotr 18 v XOR drop_bit 3 v) + fips_W2 M (n - 16))"
      using False by (subst fips_W2.simps) simp
    ultimately show ?thesis using Suc v
      by (simp add: sha256_round_def fips_sha256_step_def sigma_fips Let_def nth_append del: upt_rec_numeral)
  qed
qed

lemma sha256_compress_fips:
  assumes "length hv = 8"
  shows "sha256_compress hv b = fips_sha256_compress hv b"
proof -
  obtain h0 h1 h2 h3 h4 h5 h6 h7 where hv: "hv = [h0, h1, h2, h3, h4, h5, h6, h7]"
    using assms by (auto simp: numeral_eq_Suc length_Suc_conv)
  show ?thesis
    by (simp add: sha256_compress_def fips_sha256_compress_def sha256_rounds_fips hv add.commute split: prod.split
        del: upt_rec_numeral)
qed

lemma length_sha256_compress: "length hv = 8 \<Longrightarrow> length (sha256_compress hv b) = 8"
  by (simp add: sha256_compress_fips fips_sha256_compress_def split: prod.split)

end
