(* ===== verification/Hmac.thy ===== *)
theory Hmac
  imports Md5 Sha
begin

text \<open>
  The hash functions fed in pieces against their standards, and HMAC (\<^verbatim>\<open>common/crypt_hmac.c\<close>), proved
  once for any hash function that satisfies the interface \<open>stream_hash\<close> and used for MD5, SHA-1 and SHA-256.
\<close>

subsection \<open>The three hash functions provide the interface\<close>

lemma foldl_same:
  "length v = k \<Longrightarrow> (\<And>v b. length v = k \<Longrightarrow> f v b = g v b) \<Longrightarrow> (\<And>v b. length v = k \<Longrightarrow> length (f v b) = k) \<Longrightarrow>
   foldl f v bs = foldl g v bs"
  by (induction bs arbitrary: v) simp_all

lemma md_hash_fips:
  "md_hash md5_compress MD5_DefaultHashValue le64_bytes le32_bytes = rfc1321_md5"
  "md_hash sha1_compress SHA1_DefaultHashValue be64_bytes be32_bytes = fips_sha1"
  "md_hash sha256_compress SHA256_DefaultHashValue be64_bytes be32_bytes = fips_sha256"
  by (simp_all add: fun_eq_iff md_hash_def rfc1321_md5_def fips_sha1_def fips_sha256_def
      foldl_same [where k = 4, OF _ md5_compress_rfc length_md5_compress] MD5_DefaultHashValue_def
      foldl_same [where k = 5, OF _ sha1_compress_fips length_sha1_compress] SHA1_DefaultHashValue_def
      foldl_same [where k = 8, OF _ sha256_compress_fips length_sha256_compress] SHA256_DefaultHashValue_def)

lemma length_DefaultHashValue [simp]:
  "length MD5_DefaultHashValue = 4" "length SHA1_DefaultHashValue = 5" "length SHA256_DefaultHashValue = 8"
  by (simp_all add: MD5_DefaultHashValue_def SHA1_DefaultHashValue_def SHA256_DefaultHashValue_def)

interpretation md5: stream_hash RT_MD5_Init RT_MD5_Append RT_MD5_End
    "\<lambda>m c. c = ctx_of md5_compress MD5_DefaultHashValue m" rfc1321_md5 16
  using md_stream [of le64_bytes le32_bytes MD5_DefaultHashValue md5_compress] length_md5_compress
  by (simp add: RT_MD5_Init_def RT_MD5_Append_def RT_MD5_End_def md_hash_fips)

interpretation sha1: stream_hash RT_SHA1_Init RT_SHA1_Append RT_SHA1_End
    "\<lambda>m c. c = ctx_of sha1_compress SHA1_DefaultHashValue m" fips_sha1 20
  using md_stream [of be64_bytes be32_bytes SHA1_DefaultHashValue sha1_compress] length_sha1_compress
  by (simp add: RT_SHA1_Init_def RT_SHA1_Append_def RT_SHA1_End_def md_hash_fips)

interpretation sha256: stream_hash RT_SHA256_Init RT_SHA256_Append RT_SHA256_End
    "\<lambda>m c. c = ctx_of sha256_compress SHA256_DefaultHashValue m" fips_sha256 32
  using md_stream [of be64_bytes be32_bytes SHA256_DefaultHashValue sha256_compress] length_sha256_compress
  by (simp add: RT_SHA256_Init_def RT_SHA256_Append_def RT_SHA256_End_def md_hash_fips)

subsection \<open>HMAC\<close>

definition hmac :: "(bytes \<Rightarrow> c_fault + bytes) \<Rightarrow> 'c \<Rightarrow> ('c \<Rightarrow> bytes \<Rightarrow> c_fault + 'c) \<Rightarrow> ('c \<Rightarrow> c_fault + bytes) \<Rightarrow>
    nat \<Rightarrow> bytes \<Rightarrow> bytes \<Rightarrow> nat \<Rightarrow> c_fault + bytes" where
  "hmac hash init app fin L Key Message MACLen =
     f_bind (if length Key \<le> 64 then Inr Key else hash Key) (\<lambda>k.
     let Ki = map (\<lambda>x. x XOR 0x36) (put_at 0 k (replicate 64 0)) in
     f_bind (app init Ki) (\<lambda>c. f_bind (app c Message) (\<lambda>c. f_bind (fin c) (\<lambda>Digest.
     let Ko = map (\<lambda>x. x XOR (0x36 XOR 0x5c)) Ki in
     f_bind (app init Ko) (\<lambda>c. f_bind (app c (take L Digest)) (\<lambda>c. f_bind (fin c) (\<lambda>Digest.
     Inr (if L < MACLen then take L Digest else take MACLen Digest))))))))"

definition RT_HMAC_SHA1 :: "bytes \<Rightarrow> bytes \<Rightarrow> nat \<Rightarrow> c_fault + bytes" where
  "RT_HMAC_SHA1 = hmac RT_SHA1 RT_SHA1_Init RT_SHA1_Append RT_SHA1_End 20"

definition RT_HMAC_SHA256 :: "bytes \<Rightarrow> bytes \<Rightarrow> nat \<Rightarrow> c_fault + bytes" where
  "RT_HMAC_SHA256 = hmac RT_SHA256 RT_SHA256_Init RT_SHA256_Append RT_SHA256_End 32"

definition RT_HMAC_MD5 :: "bytes \<Rightarrow> bytes \<Rightarrow> nat \<Rightarrow> c_fault + bytes" where
  "RT_HMAC_MD5 = hmac RT_MD5 RT_MD5_Init RT_MD5_Append RT_MD5_End 16"

text \<open>RFC 2104, for a hash function with blocks of 64 bytes.\<close>

definition rfc2104_key :: "(bytes \<Rightarrow> bytes) \<Rightarrow> bytes \<Rightarrow> bytes" where
  "rfc2104_key H K = (let k = if length K \<le> 64 then K else H K in k @ replicate (64 - length k) 0)"

definition rfc2104_hmac :: "(bytes \<Rightarrow> bytes) \<Rightarrow> bytes \<Rightarrow> bytes \<Rightarrow> bytes" where
  "rfc2104_hmac H K m =
     H (xor_bytes (rfc2104_key H K) (replicate 64 0x5c) @ H (xor_bytes (rfc2104_key H K) (replicate 64 0x36) @ m))"

lemma xor_bytes_replicate: "n = length xs \<Longrightarrow> xor_bytes xs (replicate n y) = map (\<lambda>x. x XOR y) xs"
  by (induction xs arbitrary: n) simp_all

context stream_hash
begin

lemma hmac_rfc2104:
  assumes "64 + length K \<le> 2 ^ 32" "64 + length m \<le> 2 ^ 32"
  shows "hmac (\<lambda>m. f_bind (app init m) fin) init app fin L K m n = Inr (take n (rfc2104_hmac H K m))"
proof -
  define k where "k = (if length K \<le> 64 then K else H K)"
  have k: "f_bind (if length K \<le> 64 then Inr K else f_bind (app init K) fin) G = G k" for G :: "bytes \<Rightarrow> c_fault + bytes"
    using one_shot [OF assms(1)] by (simp add: k_def)
  have lk: "length k \<le> 64" using len by (simp add: k_def)
  let ?K0 = "rfc2104_key H K"
  have K0: "put_at 0 k (replicate 64 0) = ?K0" "length ?K0 = 64"
    using lk by (simp_all add: put_at_def rfc2104_key_def k_def [symmetric] Let_def)
  let ?Ki = "xor_bytes ?K0 (replicate 64 0x36)" and ?Ko = "xor_bytes ?K0 (replicate 64 0x5c)"
  have Ki: "map (\<lambda>x. x XOR 0x36) ?K0 = ?Ki" using K0(2) by (simp add: xor_bytes_replicate)
  have Ko: "map (\<lambda>x. x XOR (0x36 XOR 0x5c)) ?Ki = ?Ko"
    using K0(2) by (simp add: xor_bytes_replicate o_def xor.assoc)
  have lKi: "64 + length ?Ki \<le> 2 ^ 32" "64 + length ?Ko \<le> 2 ^ 32" using K0(2) by simp_all
  have L: "64 + length (H x) \<le> 2 ^ 32" for x using len by simp
  have two: "f_bind (app init x) (\<lambda>c. f_bind (app c y) (\<lambda>c. f_bind (fin c) G)) = G (H (x @ y))"
    if "64 + length x \<le> 2 ^ 32" "64 + length y \<le> 2 ^ 32" for x y and G :: "bytes \<Rightarrow> c_fault + bytes"
  proof -
    have "f_bind (app init x) (\<lambda>c. f_bind (app c y) (\<lambda>c. f_bind (fin c) G)) =
        f_bind (f_bind (app init x) (\<lambda>c. f_bind (app c y) fin)) G"
      by (simp add: f_bind_def split: sum.split)
    then show ?thesis by (simp only: two_pieces [OF that] f_bind_simps)
  qed
  show ?thesis
    unfolding hmac_def k K0(1) Ki Let_def two [OF lKi(1) assms(2)] Ko
    using two [OF lKi(2) L] len by (simp add: rfc2104_hmac_def)
qed

end

lemma RT_HMAC_eq:
  assumes "64 + length Key \<le> 2 ^ 32" "64 + length Message \<le> 2 ^ 32"
  shows "RT_HMAC_MD5 Key Message n = Inr (take n (rfc2104_hmac rfc1321_md5 Key Message))"
    "RT_HMAC_SHA1 Key Message n = Inr (take n (rfc2104_hmac fips_sha1 Key Message))"
    "RT_HMAC_SHA256 Key Message n = Inr (take n (rfc2104_hmac fips_sha256 Key Message))"
  unfolding RT_HMAC_MD5_def RT_HMAC_SHA1_def RT_HMAC_SHA256_def RT_MD5_def RT_SHA1_def RT_SHA256_def
  by (rule md5.hmac_rfc2104 [OF assms] sha1.hmac_rfc2104 [OF assms] sha256.hmac_rfc2104 [OF assms])+

lemma length_rfc2104 [simp]:
  "length (rfc2104_hmac rfc1321_md5 K m) = 16" "length (rfc2104_hmac fips_sha1 K m) = 20"
  "length (rfc2104_hmac fips_sha256 K m) = 32"
  by (simp_all add: rfc2104_hmac_def md5.len sha1.len sha256.len)

subsection \<open>Results\<close>

text \<open>C33: MD5, SHA-1 and SHA-256, started by their Init, fed the message in any pieces by their Append and closed by their End, give the digests that RFC 1321 and FIPS 180-4 define for the concatenation of the pieces, and write outside no block on the way; a piece may have any length that does not wrap the unsigned lengths of the code.\<close>

theorem hash_pieces_standard:
  assumes "\<forall>x\<in>set xs. 64 + length x \<le> 2 ^ 32"
  shows "f_bind (fold_fault RT_MD5_Append RT_MD5_Init xs) RT_MD5_End = Inr (rfc1321_md5 (concat xs)) \<and>
    f_bind (fold_fault RT_SHA1_Append RT_SHA1_Init xs) RT_SHA1_End = Inr (fips_sha1 (concat xs)) \<and>
    f_bind (fold_fault RT_SHA256_Append RT_SHA256_Init xs) RT_SHA256_End = Inr (fips_sha256 (concat xs))"
  using md5.pieces [OF md5.init assms] sha1.pieces [OF sha1.init assms] sha256.pieces [OF sha256.init assms] by simp

text \<open>The standard's example, the digest of the three letters abc, here in two pieces.\<close>

theorem hash_pieces_standard_witness:
  "f_bind (fold_fault RT_SHA1_Append RT_SHA1_Init [[0x61], [0x62, 0x63]]) RT_SHA1_End = Inr (fips_sha1 [0x61, 0x62, 0x63])"
  using hash_pieces_standard [of "[[0x61], [0x62, 0x63]]"] by simp

text \<open>C34: RT_HMAC_MD5, RT_HMAC_SHA1 and RT_HMAC_SHA256 give the first MACLen bytes of the RFC 2104 code of the message under the key, for keys shorter than, as long as and longer than a block.\<close>

theorem hmac_standard:
  assumes "64 + length Key \<le> 2 ^ 32" "64 + length Message \<le> 2 ^ 32"
  shows "RT_HMAC_MD5 Key Message n = Inr (take n (rfc2104_hmac rfc1321_md5 Key Message)) \<and>
    RT_HMAC_SHA1 Key Message n = Inr (take n (rfc2104_hmac fips_sha1 Key Message)) \<and>
    RT_HMAC_SHA256 Key Message n = Inr (take n (rfc2104_hmac fips_sha256 Key Message))"
  by (simp add: RT_HMAC_eq [OF assms])

theorem hmac_standard_witness:
  "RT_HMAC_SHA1 [1, 2] [3] 12 = Inr (take 12 (rfc2104_hmac fips_sha1 [1, 2] [3]))"
  using hmac_standard [of "[1, 2]" "[3]" 12] by simp

end
