(* ===== verification/BaSeq.thy ===== *)
theory BaSeq
  imports Prelude
begin

text \<open>
  Sequence-number arithmetic of the block-ack code: the macros \<^verbatim>\<open>SEQ_STEPONE\<close>, \<^verbatim>\<open>SEQ_SMALLER\<close>,
  \<^verbatim>\<open>SEQ_LARGER\<close> and \<^verbatim>\<open>SEQ_WITHIN_WIN\<close> of \<^verbatim>\<open>include/mlme.h\<close>, used by \<^verbatim>\<open>common/ba_action.c\<close> with the
  limit \<^verbatim>\<open>MAXSEQ\<close> of \<^verbatim>\<open>include/rtmp.h\<close>. The macros compute in C's \<^verbatim>\<open>int\<close> and read only bits 0 to
  11 of the result, so 16-bit words give the same answers.

  The lemmas translate the macros into \<open>seq_off l s\<close>, the distance of \<open>s\<close> ahead of \<open>l\<close> modulo 4096,
  in which the component's invariants are stated.
\<close>

definition MAXSEQ :: u16 where "MAXSEQ = 0xFFF"
definition RESET_RCV_SEQ :: u16 where "RESET_RCV_SEQ = 0xFFFF"

definition SEQ_STEPONE :: "u16 \<Rightarrow> u16 \<Rightarrow> u16 \<Rightarrow> bool" where
  "SEQ_STEPONE s1 s2 limit \<longleftrightarrow> s1 = (s2 + 1) AND limit"

definition SEQ_SMALLER :: "u16 \<Rightarrow> u16 \<Rightarrow> u16 \<Rightarrow> bool" where
  "SEQ_SMALLER s1 s2 limit \<longleftrightarrow> (s1 - s2) AND drop_bit 1 (limit + 1) \<noteq> 0"

definition SEQ_LARGER :: "u16 \<Rightarrow> u16 \<Rightarrow> u16 \<Rightarrow> bool" where
  "SEQ_LARGER s1 s2 limit \<longleftrightarrow> s1 \<noteq> s2 \<and> \<not> SEQ_SMALLER s1 s2 limit"

definition SEQ_WITHIN_WIN :: "u16 \<Rightarrow> u16 \<Rightarrow> u16 \<Rightarrow> u16 \<Rightarrow> bool" where
  "SEQ_WITHIN_WIN s1 s2 win limit \<longleftrightarrow>
     SEQ_LARGER s1 s2 limit \<and> SEQ_SMALLER s1 ((s2 + win + 1) AND limit) limit"

subsection \<open>Distances modulo 4096\<close>

definition seq_ok :: "u16 \<Rightarrow> bool" where
  "seq_ok s \<longleftrightarrow> s AND MAXSEQ = s"

definition q12 :: "u16 \<Rightarrow> 12 word" where
  "q12 s = ucast s"

definition seq_off :: "u16 \<Rightarrow> u16 \<Rightarrow> nat" where
  "seq_off l s = unat (q12 s - q12 l)"

lemma q12_take_bit: "q12 (word_of_int k) = word_of_int k"
  unfolding q12_def by (rule bit_word_eqI) (simp add: bit_simps)

lemma q12_add: "q12 (a + b) = q12 a + q12 b"
proof -
  have "a + b = word_of_int (uint a + uint b)" by simp
  then have "q12 (a + b) = word_of_int (uint a + uint b)" by (simp only: q12_take_bit)
  also have "\<dots> = q12 (word_of_int (uint a)) + q12 (word_of_int (uint b))"
    by (simp only: q12_take_bit of_int_add)
  finally show ?thesis by simp
qed

lemma q12_diff: "q12 (a - b) = q12 a - q12 b"
  using q12_add [of "a - b" b] by (simp add: algebra_simps)

lemma q12_0 [simp]: "q12 0 = 0" and q12_1 [simp]: "q12 1 = 1"
  by (simp_all add: q12_def)

lemma q12_and_MAXSEQ [simp]: "q12 (s AND MAXSEQ) = q12 s"
proof -
  have "MAXSEQ = mask 12" by (simp add: MAXSEQ_def mask_eq_exp_minus_1)
  show ?thesis
    unfolding \<open>MAXSEQ = mask 12\<close> q12_def by (rule bit_word_eqI) (simp add: bit_simps)
qed

lemma seq_ok_and [simp]: "seq_ok (s AND MAXSEQ)"
  by (simp add: seq_ok_def and.assoc)

lemma seq_ok_unat: "seq_ok s \<longleftrightarrow> unat s < 4096"
proof -
  have "MAXSEQ = mask 12" by (simp add: MAXSEQ_def mask_eq_exp_minus_1)
  then have "seq_ok s \<longleftrightarrow> take_bit 12 s = s" by (simp add: seq_ok_def take_bit_eq_mask)
  also have "\<dots> \<longleftrightarrow> unat s mod 4096 = unat s"
    by (simp add: word_unat_eq_iff unsigned_take_bit_eq take_bit_eq_mod unat_mod)
  finally show ?thesis by (simp add: mod_eq_self_iff_div_eq_0 div_eq_0_iff)
qed

lemma seq_ok_not_RESET: "seq_ok s \<Longrightarrow> s \<noteq> RESET_RCV_SEQ"
  by (auto simp: seq_ok_def RESET_RCV_SEQ_def MAXSEQ_def)

lemma q12_inj:
  assumes "seq_ok s" "seq_ok t"
  shows "q12 s = q12 t \<longleftrightarrow> s = t"
proof
  assume eq: "q12 s = q12 t"
  have mask: "MAXSEQ = mask 12" by (simp add: MAXSEQ_def mask_eq_exp_minus_1)
  show "s = t"
  proof (rule bit_word_eqI)
    fix n assume "n < LENGTH(16)"
    show "bit s n = bit t n"
    proof (cases "n < 12")
      case True
      then show ?thesis using arg_cong [OF eq, of "\<lambda>w. bit w n"] by (simp add: q12_def bit_simps)
    next
      case False
      have "bit (s AND mask 12) n = bit s n" "bit (t AND mask 12) n = bit t n"
        using assms by (simp_all add: seq_ok_def mask)
      then show ?thesis using False by (simp add: bit_simps)
    qed
  qed
qed simp

lemma unat_q12_less: "unat (x :: 12 word) < 4096"
  using unsigned_less [of x] by simp

lemma seq_off_less: "seq_off l s < 4096"
  by (simp add: seq_off_def unat_q12_less)

lemma seq_off_0: "seq_ok l \<Longrightarrow> seq_ok s \<Longrightarrow> seq_off l s = 0 \<longleftrightarrow> s = l"
  by (simp add: seq_off_def unat_eq_0 q12_inj)

lemma seq_off_self [simp]: "seq_off l l = 0"
  by (simp add: seq_off_def)

lemma bit11_iff: "bit x 11 \<longleftrightarrow> 2048 \<le> unat (x :: 12 word)"
proof -
  have lt: "unat x < 4096" using unsigned_less [of x] by simp
  then have "unat x div 2048 < 2" by (simp add: less_mult_imp_div_less)
  then have "odd (unat x div 2048) \<longleftrightarrow> 2048 \<le> unat x"
    by (cases "unat x div 2048 = 0") (auto simp: div_eq_0_iff less_2_cases_iff)
  moreover have "bit x 11 = bit (unat x) 11" by (simp add: bit_unsigned_iff bit_imp_le_length)
  ultimately show ?thesis by (simp add: bit_iff_odd)
qed

lemma SEQ_SMALLER_bit: "SEQ_SMALLER s t MAXSEQ \<longleftrightarrow> bit (s - t) 11"
proof -
  have m: "drop_bit 1 (MAXSEQ + 1) = 2 ^ 11" by (simp add: MAXSEQ_def)
  show ?thesis unfolding SEQ_SMALLER_def m and_exp_eq_0_iff_not_bit by simp
qed

lemma SEQ_SMALLER_off: "SEQ_SMALLER s t MAXSEQ \<longleftrightarrow> 2048 \<le> seq_off t s"
proof -
  have "bit (s - t) 11 = bit (q12 (s - t)) 11" by (simp add: q12_def bit_simps)
  then show ?thesis by (simp add: SEQ_SMALLER_bit bit11_iff seq_off_def q12_diff)
qed

lemma SEQ_STEPONE_off: "seq_ok s \<Longrightarrow> SEQ_STEPONE s l MAXSEQ \<longleftrightarrow> seq_off l s = 1"
proof -
  assume "seq_ok s"
  then have "SEQ_STEPONE s l MAXSEQ \<longleftrightarrow> q12 s = q12 ((l + 1) AND MAXSEQ)"
    by (simp add: SEQ_STEPONE_def q12_inj del: q12_and_MAXSEQ)
  also have "\<dots> \<longleftrightarrow> q12 s - q12 l = 1" by (auto simp: q12_add algebra_simps)
  also have "\<dots> \<longleftrightarrow> seq_off l s = 1" by (simp add: seq_off_def word_unat_eq_iff)
  finally show ?thesis .
qed

text \<open>Changing the base of the distances.\<close>

lemma unat_q12_diff:
  "unat (x - y :: 12 word) = (if unat y \<le> unat x then unat x - unat y else 4096 + unat x - unat y)"
  by (simp add: unat_sub_if') (simp add: add.commute [of 4096])

lemma seq_off_diff:
  "seq_off t s = (if seq_off l t \<le> seq_off l s then seq_off l s - seq_off l t
                  else 4096 + seq_off l s - seq_off l t)"
proof -
  have "q12 s - q12 t = (q12 s - q12 l) - (q12 t - q12 l)" by simp
  then show ?thesis unfolding seq_off_def by (simp only: unat_q12_diff [of "q12 s - q12 l"])
qed

lemma seq_off_shift: "seq_off l t \<le> seq_off l s \<Longrightarrow> seq_off t s = seq_off l s - seq_off l t"
  by (simp add: seq_off_diff [of t s l])

lemma seq_off_add: "seq_off l (l + word_of_nat k) = k mod 4096"
  by (simp add: seq_off_def q12_add) (simp add: q12_def unsigned_of_nat take_bit_eq_mod mod_mod_cancel)

lemma SEQ_SMALLER_window:
  "seq_off l s < 2048 \<Longrightarrow> seq_off l t < 2048 \<Longrightarrow>
   SEQ_SMALLER s t MAXSEQ \<longleftrightarrow> seq_off l s < seq_off l t"
  by (auto simp: SEQ_SMALLER_off seq_off_diff [of t s l])

lemma seq_off_inj:
  assumes "seq_ok s" "seq_ok t"
  shows "seq_off l s = seq_off l t \<longleftrightarrow> s = t"
proof
  assume "seq_off l s = seq_off l t"
  then have "q12 s - q12 l = q12 t - q12 l" by (simp add: seq_off_def word_unat_eq_iff)
  then show "s = t" using q12_inj [OF assms] by simp
qed simp

end
