(* ===== verification/BaReorder.thy ===== *)
theory BaReorder
  imports BaSeq
begin

text \<open>
  The receive reordering buffer of a block-ack session, \<^verbatim>\<open>common/ba_action.c\<close>: the pool of
  reordering blocks, the sorted list of buffered frames of one \<^verbatim>\<open>BA_REC_ENTRY\<close>, and the steps that
  release frames to the upper layer.

  A chain of blocks linked by \<^verbatim>\<open>next\<close> is a list beside the counter \<^verbatim>\<open>qlen\<close> that the code keeps
  separately; a block has an address. What the code hands to other layers (a frame announced from the
  buffer, a frame indicated directly, a socket buffer freed) is appended to a log.
\<close>

subsection \<open>Data\<close>

record 'a reordering_list =
  chain :: "'a list"
  qlen :: int

record reordering_mpdu =
  mpdu_addr :: nat
  mpdu_pPacket :: nat
  mpdu_Sequence :: u16
  mpdu_bAMSDU :: bool
  mpdu_OpMode :: u8

datatype rec_status = Recipient_NONE | Recipient_USED | Recipient_HandleRes | Recipient_Accept

record ba_rec_entry =
  rec_Wcid :: u8
  rec_TID :: u8
  rec_BAWinSize :: u8
  LastIndSeq :: u16
  rec_TimeOutValue :: u16
  LastIndSeqAtTimer :: ulong
  nDropPacket :: ulong
  rcvSeq :: ulong
  REC_BA_Status :: rec_status
  reord :: "reordering_mpdu reordering_list"

record rx_blk =
  rx_wcid :: u8
  rx_TID :: u8
  rx_Sequence :: u16
  rx_DataSize :: nat
  rx_AMSDU :: bool
  rx_EAP :: bool
  rx_OpMode :: u8
  rx_pRxPacket :: nat

datatype rx_kind = Indicate_AMSDU | Indicate_EAPOL | Indicate_Legacy

datatype rx_event =
    Announce (ev_packet: nat) (ev_seq: u16) bool u8
  | Indicate rx_kind (ev_packet: nat) (ev_seq: u16)
  | FreeSkb (ev_packet: nat)

text \<open>The part of the adapter the steps share: the pool of free blocks and the log.\<close>

record rx_state =
  freelist :: "nat reordering_list"
  rx_out :: "rx_event list"

subsection \<open>Lists and the block pool\<close>

fun ba_insert_chain :: "reordering_mpdu list \<Rightarrow> reordering_mpdu \<Rightarrow> reordering_mpdu list option" where
  "ba_insert_chain [] m = Some [m]"
| "ba_insert_chain (x # xs) m =
     (if SEQ_SMALLER (mpdu_Sequence x) (mpdu_Sequence m) MAXSEQ
      then map_option ((#) x) (ba_insert_chain xs m)
      else if mpdu_Sequence x = mpdu_Sequence m then None
      else Some (m # x # xs))"

definition ba_reordering_mpdu_insertsorted ::
    "reordering_mpdu reordering_list \<Rightarrow> reordering_mpdu \<Rightarrow> bool \<times> reordering_mpdu reordering_list" where
  "ba_reordering_mpdu_insertsorted l m =
     (case ba_insert_chain (chain l) m of
        None \<Rightarrow> (False, l)
      | Some c \<Rightarrow> (True, l\<lparr>chain := c, qlen := qlen l + 1\<rparr>))"

definition ba_enqueue :: "'a reordering_list \<Rightarrow> 'a \<Rightarrow> 'a reordering_list" where
  "ba_enqueue l b = l\<lparr>chain := b # chain l, qlen := qlen l + 1\<rparr>"

text \<open>With a nonzero counter and no block the counter is decremented all the same.\<close>

definition ba_dequeue :: "'a reordering_list \<Rightarrow> 'a option \<times> 'a reordering_list" where
  "ba_dequeue l =
     (if qlen l \<noteq> 0 then
        (case chain l of
           [] \<Rightarrow> (None, l\<lparr>qlen := qlen l - 1\<rparr>)
         | b # bs \<Rightarrow> (Some b, l\<lparr>chain := bs, qlen := qlen l - 1\<rparr>))
      else (None, l))"

definition ba_reordering_mpdu_probe :: "'a reordering_list \<Rightarrow> 'a option" where
  "ba_reordering_mpdu_probe l = (case chain l of [] \<Rightarrow> None | b # _ \<Rightarrow> Some b)"

text \<open>The blocks of the pool's memory are numbered; the last one is at the head of the free list.\<close>

definition ba_reordering_resource_init :: "bool \<Rightarrow> nat \<Rightarrow> bool \<times> nat reordering_list" where
  "ba_reordering_resource_init kmalloc_ok num =
     (let freelist0 = \<lparr>chain = [], qlen = 0\<rparr> in
      if \<not> kmalloc_ok then (False, freelist0)
      else (True, foldl ba_enqueue freelist0 [0..<num]))"

definition ba_mpdu_blk_alloc :: "rx_state \<Rightarrow> nat option \<times> rx_state" where
  "ba_mpdu_blk_alloc st =
     (let (b, fl) = ba_dequeue (freelist st) in (b, st\<lparr>freelist := fl\<rparr>))"

definition ba_mpdu_blk_free :: "rx_state \<Rightarrow> nat \<Rightarrow> rx_state" where
  "ba_mpdu_blk_free st b = st\<lparr>freelist := ba_enqueue (freelist st) b\<rparr>"

definition log_event :: "rx_event \<Rightarrow> rx_state \<Rightarrow> rx_state" where
  "log_event ev st = st\<lparr>rx_out := rx_out st @ [ev]\<rparr>"

definition Announce_Reordering_Packet :: "rx_state \<Rightarrow> reordering_mpdu \<Rightarrow> rx_state" where
  "Announce_Reordering_Packet st m =
     log_event (Announce (mpdu_pPacket m) (mpdu_Sequence m) (mpdu_bAMSDU m) (mpdu_OpMode m)) st"

subsection \<open>Releasing frames\<close>

text \<open>
  The loops take the list of the entry and return it with the last sequence number indicated. A probe
  that finds a block which the dequeue then does not return (a counter of zero) is a null dereference.
\<close>

function ba_in_order_loop :: "reordering_mpdu reordering_list \<Rightarrow> rx_state \<Rightarrow> u16 \<Rightarrow> u16 \<Rightarrow>
    c_fault + u16 \<times> reordering_mpdu reordering_list \<times> rx_state" where
  "ba_in_order_loop l st StartSeq Last =
     (case ba_reordering_mpdu_probe l of
        None \<Rightarrow> Inr (Last, l, st)
      | Some p \<Rightarrow>
        if \<not> SEQ_STEPONE (mpdu_Sequence p) StartSeq MAXSEQ then Inr (Last, l, st)
        else (case ba_dequeue l of
            (None, l') \<Rightarrow> Inl NullDeref
          | (Some m, l') \<Rightarrow>
              ba_in_order_loop l'
                (ba_mpdu_blk_free (Announce_Reordering_Packet st m) (mpdu_addr m))
                (mpdu_Sequence m) (mpdu_Sequence m)))"
  by pat_completeness auto
termination
  by (relation "measure (\<lambda>(l, st, s, e). length (chain l))")
    (auto simp: ba_dequeue_def split: if_splits list.splits)

definition ba_indicate_reordering_mpdus_in_order :: "ba_rec_entry \<Rightarrow> rx_state \<Rightarrow> u16 \<Rightarrow>
    c_fault + u16 \<times> ba_rec_entry \<times> rx_state" where
  "ba_indicate_reordering_mpdus_in_order e st StartSeq =
     (case ba_in_order_loop (reord e) st StartSeq RESET_RCV_SEQ of
        Inl f \<Rightarrow> Inl f
      | Inr (s, l, st') \<Rightarrow> Inr (s, e\<lparr>reord := l\<rparr>, st'))"

function ba_le_seq_loop :: "reordering_mpdu reordering_list \<Rightarrow> rx_state \<Rightarrow> u16 \<Rightarrow>
    c_fault + reordering_mpdu reordering_list \<times> rx_state" where
  "ba_le_seq_loop l st Sequence =
     (case ba_reordering_mpdu_probe l of
        None \<Rightarrow> Inr (l, st)
      | Some p \<Rightarrow>
        if mpdu_Sequence p = Sequence \<or> SEQ_SMALLER (mpdu_Sequence p) Sequence MAXSEQ
        then (case ba_dequeue l of
            (None, l') \<Rightarrow> Inl NullDeref
          | (Some m, l') \<Rightarrow>
              ba_le_seq_loop l'
                (ba_mpdu_blk_free (Announce_Reordering_Packet st m) (mpdu_addr m)) Sequence)
        else Inr (l, st))"
  by pat_completeness auto
termination
  by (relation "measure (\<lambda>(l, st, s). length (chain l))")
    (auto simp: ba_dequeue_def split: if_splits list.splits)

definition ba_indicate_reordering_mpdus_le_seq :: "ba_rec_entry \<Rightarrow> rx_state \<Rightarrow> u16 \<Rightarrow>
    c_fault + ba_rec_entry \<times> rx_state" where
  "ba_indicate_reordering_mpdus_le_seq e st Sequence =
     (case ba_le_seq_loop (reord e) st Sequence of
        Inl f \<Rightarrow> Inl f
      | Inr (l, st') \<Rightarrow> Inr (e\<lparr>reord := l\<rparr>, st'))"

function ba_refresh_loop :: "reordering_mpdu reordering_list \<Rightarrow> rx_state \<Rightarrow>
    reordering_mpdu reordering_list \<times> rx_state" where
  "ba_refresh_loop l st =
     (case ba_dequeue l of
        (None, l') \<Rightarrow> (l', st)
      | (Some m, l') \<Rightarrow>
          ba_refresh_loop l' (ba_mpdu_blk_free (Announce_Reordering_Packet st m) (mpdu_addr m)))"
  by pat_completeness auto
termination
  by (relation "measure (\<lambda>(l, st). length (chain l))")
    (auto simp: ba_dequeue_def split: if_splits list.splits)

text \<open>The loop's assignments to \<^verbatim>\<open>LastIndSeq\<close> are overwritten by the reset after it.\<close>

definition ba_refresh_reordering_mpdus :: "ba_rec_entry \<Rightarrow> rx_state \<Rightarrow> ba_rec_entry \<times> rx_state" where
  "ba_refresh_reordering_mpdus e st =
     (let (l, st') = ba_refresh_loop (reord e) st
      in (e\<lparr>reord := l, LastIndSeq := RESET_RCV_SEQ\<rparr>, st'))"

declare ba_in_order_loop.simps [simp del] ba_le_seq_loop.simps [simp del]
  ba_refresh_loop.simps [simp del]

subsection \<open>Timeouts\<close>

text \<open>\<^verbatim>\<open>RTMP_TIME_AFTER\<close> of \<^verbatim>\<open>include/os/rt_linux.h\<close>; \<open>hz\<close> is the kernel's tick rate.\<close>

definition RTMP_TIME_AFTER :: "ulong \<Rightarrow> ulong \<Rightarrow> bool" where
  "RTMP_TIME_AFTER a b \<longleftrightarrow> sint (b - a) < 0"

definition REORDERING_PACKET_TIMEOUT :: "nat \<Rightarrow> ulong" where
  "REORDERING_PACKET_TIMEOUT hz = word_of_nat (100 * hz div 1000)"

definition MAX_REORDERING_PACKET_TIMEOUT :: "nat \<Rightarrow> ulong" where
  "MAX_REORDERING_PACKET_TIMEOUT hz = word_of_nat (3000 * hz div 1000)"

definition ba_flush_reordering_timeout_mpdus :: "nat \<Rightarrow> ba_rec_entry \<Rightarrow> rx_state \<Rightarrow> ulong \<Rightarrow>
    c_fault + ba_rec_entry \<times> rx_state" where
  "ba_flush_reordering_timeout_mpdus hz e st Now32 =
     (if qlen (reord e) \<le> 0 then Inr (e, st)
      else if RTMP_TIME_AFTER Now32
                (LastIndSeqAtTimer e + MAX_REORDERING_PACKET_TIMEOUT hz div 6) \<and> 1 < qlen (reord e)
      then let (e1, st1) = ba_refresh_reordering_mpdus e st
           in Inr (e1\<lparr>LastIndSeqAtTimer := Now32\<rparr>, st1)
      else if RTMP_TIME_AFTER Now32 (LastIndSeqAtTimer e + REORDERING_PACKET_TIMEOUT hz) \<and>
              0 < qlen (reord e)
      then let Sequence = (LastIndSeq e + 1) AND MAXSEQ in
        (case ba_indicate_reordering_mpdus_le_seq e st Sequence of
           Inl f \<Rightarrow> Inl f
         | Inr (e1, st1) \<Rightarrow>
           (case ba_indicate_reordering_mpdus_in_order
                (e1\<lparr>LastIndSeqAtTimer := Now32, LastIndSeq := Sequence\<rparr>) st1 Sequence of
              Inl f \<Rightarrow> Inl f
            | Inr (s, e2, st2) \<Rightarrow>
                Inr (if s \<noteq> RESET_RCV_SEQ then e2\<lparr>LastIndSeq := s\<rparr> else e2, st2)))
      else Inr (e, st))"

subsection \<open>Receiving a frame\<close>

definition INDICATE_LEGACY_OR_AMSDU :: "rx_state \<Rightarrow> rx_blk \<Rightarrow> rx_state" where
  "INDICATE_LEGACY_OR_AMSDU st rx =
     log_event (Indicate (if rx_AMSDU rx then Indicate_AMSDU
                          else if rx_EAP rx then Indicate_EAPOL else Indicate_Legacy)
                 (rx_pRxPacket rx) (rx_Sequence rx)) st"

text \<open>
  The allocation comes before the test of the EAPOL flag, and the \<^verbatim>\<open>else\<close> branch does not return
  an allocated block to the pool.
\<close>

definition ba_enqueue_reordering_packet :: "ba_rec_entry \<Rightarrow> rx_state \<Rightarrow> rx_blk \<Rightarrow>
    c_fault + ba_rec_entry \<times> rx_state" where
  "ba_enqueue_reordering_packet e st rx =
     (let (b, st1) = ba_mpdu_blk_alloc st in
      if b \<noteq> None \<and> \<not> rx_EAP rx then
        let m = \<lparr>mpdu_addr = the b, mpdu_pPacket = rx_pRxPacket rx, mpdu_Sequence = rx_Sequence rx,
                 mpdu_bAMSDU = rx_AMSDU rx, mpdu_OpMode = rx_OpMode rx\<rparr>;
            (ok, l) = ba_reordering_mpdu_insertsorted (reord e) m;
            st2 = (if \<not> ok then ba_mpdu_blk_free (log_event (FreeSkb (rx_pRxPacket rx)) st1) (the b)
                   else st1)
        in Inr (e\<lparr>reord := l\<rparr>, st2)
      else
        (case ba_indicate_reordering_mpdus_le_seq e st1 (rx_Sequence rx) of
           Inl f \<Rightarrow> Inl f
         | Inr (e1, st2) \<Rightarrow>
             Inr (e1\<lparr>LastIndSeq := rx_Sequence rx\<rparr>, INDICATE_LEGACY_OR_AMSDU st2 rx)))"

text \<open>The part of \<^verbatim>\<open>Indicate_AMPDU_Packet\<close> that compares sequence numbers, from the reset on.\<close>

definition ba_check_sequence :: "ba_rec_entry \<Rightarrow> rx_state \<Rightarrow> rx_blk \<Rightarrow> ulong \<Rightarrow>
    c_fault + ba_rec_entry \<times> rx_state" where
  "ba_check_sequence e st rx Now32 =
     (let Sequence = rx_Sequence rx; win = ucast (rec_BAWinSize e) :: u16 in
      if LastIndSeq e = RESET_RCV_SEQ then
        Inr (e\<lparr>LastIndSeq := Sequence, LastIndSeqAtTimer := Now32\<rparr>, INDICATE_LEGACY_OR_AMSDU st rx)
      else if SEQ_STEPONE Sequence (LastIndSeq e) MAXSEQ then
        (case ba_indicate_reordering_mpdus_in_order (e\<lparr>LastIndSeq := Sequence\<rparr>)
            (INDICATE_LEGACY_OR_AMSDU st rx) Sequence of
           Inl f \<Rightarrow> Inl f
         | Inr (s, e1, st1) \<Rightarrow>
             let e2 = (if s \<noteq> RESET_RCV_SEQ then e1\<lparr>LastIndSeq := s\<rparr> else e1)
             in Inr (e2\<lparr>LastIndSeqAtTimer := Now32\<rparr>, st1))
      else if Sequence = LastIndSeq e \<or> SEQ_SMALLER Sequence (LastIndSeq e) MAXSEQ then
        Inr (e\<lparr>nDropPacket := nDropPacket e + 1\<rparr>, log_event (FreeSkb (rx_pRxPacket rx)) st)
      else if SEQ_SMALLER Sequence ((LastIndSeq e + win + 1) AND MAXSEQ) MAXSEQ then
        ba_enqueue_reordering_packet e st rx
      else
        let Tmp0 = uint Sequence - uint (rec_BAWinSize e) - 1;
            TmpSeq = (if Tmp0 < 0 then (uint MAXSEQ + 1) + Tmp0 else Tmp0);
            WinStartSeq = word_of_int (TmpSeq + 1) AND MAXSEQ in
        (case ba_indicate_reordering_mpdus_le_seq e st WinStartSeq of
           Inl f \<Rightarrow> Inl f
         | Inr (e1, st1) \<Rightarrow>
           (case ba_enqueue_reordering_packet
                (e1\<lparr>LastIndSeq := WinStartSeq, LastIndSeqAtTimer := Now32\<rparr>) st1 rx of
              Inl f \<Rightarrow> Inl f
            | Inr (e2, st2) \<Rightarrow>
              (case ba_indicate_reordering_mpdus_in_order e2 st2 (LastIndSeq e2) of
                 Inl f \<Rightarrow> Inl f
               | Inr (s, e3, st3) \<Rightarrow>
                   Inr (if s \<noteq> RESET_RCV_SEQ then e3\<lparr>LastIndSeq := s\<rparr> else e3, st3)))))"

text \<open>The rest of \<^verbatim>\<open>Indicate_AMPDU_Packet\<close> once the session entry is found.\<close>

definition ba_receive :: "nat \<Rightarrow> ba_rec_entry \<Rightarrow> rx_state \<Rightarrow> rx_blk \<Rightarrow> ulong \<Rightarrow>
    c_fault + ba_rec_entry \<times> rx_state" where
  "ba_receive hz e st rx Now32 =
     (case ba_flush_reordering_timeout_mpdus hz (e\<lparr>rcvSeq := ucast (rx_Sequence rx)\<rparr>) st Now32 of
        Inl f \<Rightarrow> Inl f
      | Inr (e1, st1) \<Rightarrow> ba_check_sequence (e1\<lparr>LastIndSeqAtTimer := Now32\<rparr>) st1 rx Now32)"

text \<open>The part of \<^verbatim>\<open>CntlEnqueueForRecv\<close> that handles a block-ack request for a session.\<close>

definition ba_handle_bar :: "ba_rec_entry \<Rightarrow> rx_state \<Rightarrow> u16 \<Rightarrow> c_fault + ba_rec_entry \<times> rx_state" where
  "ba_handle_bar e st StartSeq =
     (if SEQ_SMALLER (LastIndSeq e) StartSeq MAXSEQ then
        (case ba_indicate_reordering_mpdus_le_seq e st StartSeq of
           Inl f \<Rightarrow> Inl f
         | Inr (e1, st1) \<Rightarrow>
             Inr (e1\<lparr>LastIndSeq := (if StartSeq = 0 then MAXSEQ else StartSeq - 1)\<rparr>, st1))
      else Inr (e, st))"

text \<open>\<^verbatim>\<open>BARecSessionIdleTimeout\<close>; the period is compared in ticks.\<close>

definition REC_BA_SESSION_IDLE_TIMEOUT :: ulong where
  "REC_BA_SESSION_IDLE_TIMEOUT = 1000"

definition BARecSessionIdleTimeout :: "ba_rec_entry \<Rightarrow> rx_state \<Rightarrow> ulong \<Rightarrow> ba_rec_entry \<times> rx_state" where
  "BARecSessionIdleTimeout e st Now32 =
     (if REC_BA_Status e = Recipient_Accept \<and>
         RTMP_TIME_AFTER Now32 (LastIndSeqAtTimer e + REC_BA_SESSION_IDLE_TIMEOUT)
      then ba_refresh_reordering_mpdus e st else (e, st))"

subsection \<open>The release loops as list functions\<close>

definition list_wf :: "'a reordering_list \<Rightarrow> bool" where
  "list_wf l \<longleftrightarrow> qlen l = int (length (chain l))"

text \<open>What releasing the frames \<open>ms\<close> does to the pool and the log.\<close>

definition release_event :: "reordering_mpdu \<Rightarrow> rx_event" where
  "release_event m = Announce (mpdu_pPacket m) (mpdu_Sequence m) (mpdu_bAMSDU m) (mpdu_OpMode m)"

definition release_all :: "reordering_mpdu list \<Rightarrow> rx_state \<Rightarrow> rx_state" where
  "release_all ms st =
     st\<lparr>freelist := \<lparr>chain = rev (map mpdu_addr ms) @ chain (freelist st),
                     qlen = qlen (freelist st) + int (length ms)\<rparr>,
        rx_out := rx_out st @ map release_event ms\<rparr>"

lemma release_all_Nil [simp]: "release_all [] st = st"
  by (simp add: release_all_def)

lemma release_all_step:
  "release_all ms (ba_mpdu_blk_free (Announce_Reordering_Packet st m) (mpdu_addr m)) =
   release_all (m # ms) st"
  by (simp add: release_all_def ba_mpdu_blk_free_def Announce_Reordering_Packet_def log_event_def
      ba_enqueue_def release_event_def)

lemma rx_out_release_all: "rx_out (release_all ms st) = rx_out st @ map release_event ms"
  by (simp add: release_all_def)

lemma list_wf_Cons:
  "list_wf l \<Longrightarrow> chain l = m # ms \<Longrightarrow>
   ba_dequeue l = (Some m, l\<lparr>chain := ms, qlen := int (length ms)\<rparr>) \<and>
   list_wf (l\<lparr>chain := ms, qlen := int (length ms)\<rparr>)"
  by (simp add: list_wf_def ba_dequeue_def)

lemma list_wf_Nil: "list_wf l \<Longrightarrow> chain l = [] \<Longrightarrow> ba_dequeue l = (None, l)"
  by (simp add: list_wf_def ba_dequeue_def)

fun in_order_count :: "u16 \<Rightarrow> reordering_mpdu list \<Rightarrow> nat" where
  "in_order_count s [] = 0"
| "in_order_count s (m # ms) =
     (if SEQ_STEPONE (mpdu_Sequence m) s MAXSEQ then Suc (in_order_count (mpdu_Sequence m) ms) else 0)"

definition set_chain :: "'a reordering_list \<Rightarrow> 'a list \<Rightarrow> 'a reordering_list" where
  "set_chain l ms = l\<lparr>chain := ms, qlen := int (length ms)\<rparr>"

lemma set_chain_simps [simp]:
  "chain (set_chain l ms) = ms" "qlen (set_chain l ms) = int (length ms)"
  "list_wf (set_chain l ms)" "set_chain (set_chain l ms) ns = set_chain l ns"
  by (simp_all add: set_chain_def list_wf_def)

lemma set_chain_same: "list_wf l \<Longrightarrow> set_chain l (chain l) = l"
  by (simp add: set_chain_def list_wf_def)

lemma ba_in_order_loop_run:
  assumes "list_wf l"
  shows "ba_in_order_loop l st s d =
    (let n = in_order_count s (chain l)
     in Inr (if n = 0 then d else mpdu_Sequence (chain l ! (n - 1)),
             set_chain l (drop n (chain l)), release_all (take n (chain l)) st))"
  using assms
proof (induction "chain l" arbitrary: l st s d)
  case Nil
  then show ?case
    by (subst ba_in_order_loop.simps) (simp add: ba_reordering_mpdu_probe_def set_chain_def list_wf_def)
next
  case (Cons m ms)
  note dq = list_wf_Cons [OF Cons.prems Cons.hyps(2) [symmetric]]
  have IH: "ba_in_order_loop (set_chain l ms) st' (mpdu_Sequence m) (mpdu_Sequence m) =
    (let n = in_order_count (mpdu_Sequence m) ms
     in Inr (if n = 0 then mpdu_Sequence m else mpdu_Sequence (ms ! (n - 1)),
             set_chain l (drop n ms), release_all (take n ms) st'))" for st'
    using Cons.hyps(1) [of "set_chain l ms" st' "mpdu_Sequence m" "mpdu_Sequence m"]
    by (simp cong: if_cong)
  show ?case
    using dq Cons.hyps(2) [symmetric] Cons.prems set_chain_same [OF Cons.prems]
    by (subst ba_in_order_loop.simps)
      (simp add: ba_reordering_mpdu_probe_def set_chain_same IH set_chain_def [symmetric] Let_def
        release_all_step nth_Cons split: nat.split cong: if_cong)
qed

lemma ba_le_seq_loop_run:
  assumes "list_wf l"
  defines "P \<equiv> \<lambda>s m. mpdu_Sequence m = s \<or> SEQ_SMALLER (mpdu_Sequence m) s MAXSEQ"
  shows "ba_le_seq_loop l st s =
    Inr (set_chain l (dropWhile (P s) (chain l)), release_all (takeWhile (P s) (chain l)) st)"
  using assms(1)
proof (induction "chain l" arbitrary: l st)
  case Nil
  then show ?case
    by (subst ba_le_seq_loop.simps) (simp add: ba_reordering_mpdu_probe_def set_chain_def list_wf_def)
next
  case (Cons m ms)
  note dq = list_wf_Cons [OF Cons.prems Cons.hyps(2) [symmetric]]
  have IH: "ba_le_seq_loop (set_chain l ms) st' s =
    Inr (set_chain l (dropWhile (P s) ms), release_all (takeWhile (P s) ms) st')" for st'
    using Cons.hyps(1) [of "set_chain l ms" st'] by simp
  show ?case
    using dq Cons.hyps(2) [symmetric] Cons.prems set_chain_same [OF Cons.prems]
    by (subst ba_le_seq_loop.simps)
      (simp add: ba_reordering_mpdu_probe_def IH set_chain_def [symmetric] release_all_step P_def)
qed

lemma ba_refresh_loop_run:
  assumes "list_wf l"
  shows "ba_refresh_loop l st = (set_chain l [], release_all (chain l) st)"
  using assms
proof (induction "chain l" arbitrary: l st)
  case Nil
  then show ?case
    by (subst ba_refresh_loop.simps) (simp add: list_wf_Nil set_chain_def list_wf_def)
next
  case (Cons m ms)
  note dq = list_wf_Cons [OF Cons.prems Cons.hyps(2) [symmetric]]
  show ?case
    using dq Cons.hyps(1) [of "set_chain l ms"] Cons.hyps(2) [symmetric]
    by (subst ba_refresh_loop.simps) (simp add: set_chain_def [symmetric] release_all_step)
qed

subsection \<open>The window invariant\<close>

abbreviation moff :: "u16 \<Rightarrow> reordering_mpdu \<Rightarrow> nat" where
  "moff l m \<equiv> seq_off l (mpdu_Sequence m)"

text \<open>
  The buffered frames lie 1 to \<open>w\<close> ahead of \<open>l\<close>, in increasing order and without duplicates.
\<close>

definition ba_window :: "u16 \<Rightarrow> nat \<Rightarrow> reordering_mpdu list \<Rightarrow> bool" where
  "ba_window l w ms \<longleftrightarrow> sorted_wrt (\<lambda>a b. moff l a < moff l b) ms \<and>
     (\<forall>m\<in>set ms. seq_ok (mpdu_Sequence m) \<and> 1 \<le> moff l m \<and> moff l m \<le> w)"

lemma ba_window_Nil [simp]: "ba_window l w []"
  by (simp add: ba_window_def)

lemma ba_window_length: "ba_window l w ms \<Longrightarrow> length ms \<le> w"
proof -
  assume win: "ba_window l w ms"
  then have "sorted_wrt (<) (map (moff l) ms)" by (simp add: ba_window_def sorted_wrt_map)
  then have "distinct (map (moff l) ms)" using strict_sorted_iff by blast
  then have "length ms = card (set (map (moff l) ms))" by (simp only: distinct_card length_map)
  also have "\<dots> \<le> card {1..w}" using win by (intro card_mono) (auto simp: ba_window_def)
  finally show ?thesis by simp
qed

lemma seq_off_trans: "seq_off l t + seq_off t s < 4096 \<Longrightarrow> seq_off l s = seq_off l t + seq_off t s"
  using seq_off_less [of l s] seq_off_less [of l t] by (auto simp: seq_off_diff [of t s l] split: if_splits)

text \<open>Moving the base of the window forward to \<open>t\<close>, below the frames that stay.\<close>

lemma ba_window_shift:
  assumes "ba_window l w ms" and "\<forall>m\<in>set ms. seq_off l t < moff l m"
  shows "ba_window t (w - seq_off l t) ms"
proof -
  have eq: "moff t m = moff l m - seq_off l t" if "m \<in> set ms" for m
    using that assms(2) by (intro seq_off_shift) auto
  have "sorted_wrt (\<lambda>a b. moff t a < moff t b) ms"
    using assms unfolding ba_window_def
    by (elim conjE sorted_wrt_mono_rel [rotated]) (auto simp: eq intro: diff_less_mono less_imp_le)
  then show ?thesis using assms by (fastforce simp: ba_window_def eq)
qed

lemma ba_window_mono: "ba_window l v ms \<Longrightarrow> v \<le> w \<Longrightarrow> ba_window l w ms"
  by (auto simp: ba_window_def)

lemma ba_window_Cons:
  "ba_window l w (m # ms) \<longleftrightarrow> seq_ok (mpdu_Sequence m) \<and> 1 \<le> moff l m \<and> moff l m \<le> w \<and>
     ba_window l w ms \<and> (\<forall>x\<in>set ms. moff l m < moff l x)"
  by (auto simp: ba_window_def)

lemma in_order_window:
  assumes "ba_window l w ms" "w < 2048" "n = in_order_count l ms"
    "l' = (if n = 0 then l else mpdu_Sequence (ms ! (n - 1)))"
  shows "n \<le> length ms \<and> seq_off l l' = n \<and> ba_window l' w (drop n ms) \<and>
         map (moff l) (take n ms) = [1..<Suc n] \<and> (n = 0 \<or> seq_ok l')"
  using assms
proof (induction ms arbitrary: l w n l')
  case Nil
  then show ?case by simp
next
  case (Cons m ms)
  show ?case
  proof (cases "SEQ_STEPONE (mpdu_Sequence m) l MAXSEQ")
    case False
    with Cons.prems show ?thesis by simp
  next
    case True
    let ?s = "mpdu_Sequence m"
    have m: "seq_ok ?s" "moff l m = 1" "ba_window l w ms" "\<forall>x\<in>set ms. moff l m < moff l x"
      using Cons.prems(1) True by (simp_all add: ba_window_Cons SEQ_STEPONE_off)
    have win: "ba_window ?s w ms"
      using ba_window_shift [OF m(3,4)] by (rule ba_window_mono) simp
    define k where "k = in_order_count ?s ms"
    define t where "t = (if k = 0 then ?s else mpdu_Sequence (ms ! (k - 1)))"
    note IH = Cons.IH [OF win Cons.prems(2) k_def t_def]
    have n: "n = Suc k" and l': "l' = t"
      using True Cons.prems(3,4) by (simp_all add: k_def t_def nth_Cons')
    have len: "k \<le> length ms" and kw: "length ms \<le> w"
      using IH ba_window_length [OF m(3)] by simp_all
    have off: "seq_off l x = 1 + seq_off ?s x" if "seq_off ?s x \<le> 2048" for x
      using seq_off_trans [of l ?s x] that m(2) by simp
    have "map (moff l) (take k ms) = map Suc (map (moff ?s) (take k ms))"
    proof -
      have "moff l x = Suc (moff ?s x)" if "x \<in> set (take k ms)" for x
      proof -
        have "moff ?s x \<le> w" using win in_set_takeD [OF that] by (auto simp: ba_window_def)
        then show ?thesis using off [of "mpdu_Sequence x"] Cons.prems(2) by simp
      qed
      then show ?thesis by simp
    qed
    also have "\<dots> = [2..<Suc n]"
      using IH by (simp add: n map_Suc_upt numeral_2_eq_2 del: upt_Suc)
    finally have "map (moff l) (take n (m # ms)) = [1..<Suc n]"
      using m(2) n by (simp add: upt_conv_Cons numeral_2_eq_2 del: upt_Suc)
    moreover have "seq_off l l' = n" using off [of t] IH len kw Cons.prems(2) by (simp add: l' n)
    moreover have "seq_ok l'" using IH m(1) by (cases "k = 0") (simp_all add: l' t_def)
    ultimately show ?thesis using IH len by (simp add: n l')
  qed
qed

lemma le_seq_pred:
  assumes "ba_window l w ms" "w < 2048" "1 \<le> seq_off l t" "seq_off l t \<le> 2048" "seq_ok t"
    and "m \<in> set ms"
  shows "(mpdu_Sequence m = t \<or> SEQ_SMALLER (mpdu_Sequence m) t MAXSEQ) = (moff l m \<le> seq_off l t)"
proof -
  have m: "seq_ok (mpdu_Sequence m)" "moff l m < 2048" "1 \<le> moff l m"
    using assms by (auto simp: ba_window_def)
  have "SEQ_SMALLER (mpdu_Sequence m) t MAXSEQ = (moff l m < seq_off l t)"
    using m(2,3) assms(3,4) by (auto simp: SEQ_SMALLER_off seq_off_diff [of t "mpdu_Sequence m" l])
  then show ?thesis using seq_off_inj [OF m(1) assms(5), of l] by auto
qed

lemma le_seq_window:
  assumes "ba_window l w ms" "w < 2048" "1 \<le> seq_off l t" "seq_off l t \<le> 2048" "seq_ok t"
  defines "P \<equiv> \<lambda>m. mpdu_Sequence m = t \<or> SEQ_SMALLER (mpdu_Sequence m) t MAXSEQ"
  shows "takeWhile P ms = filter (\<lambda>m. moff l m \<le> seq_off l t) ms \<and>
         dropWhile P ms = filter (\<lambda>m. seq_off l t < moff l m) ms \<and>
         ba_window t (w - seq_off l t) (dropWhile P ms)"
proof -
  have sorted: "sorted_wrt (\<lambda>a b. moff l a < moff l b) ms" using assms(1) by (simp add: ba_window_def)
  have P: "P m = (moff l m \<le> seq_off l t)" if "m \<in> set ms" for m
    using le_seq_pred [OF assms(1-5) that] by (simp add: P_def)
  have tw: "takeWhile P ms = filter (\<lambda>m. moff l m \<le> seq_off l t) ms \<and>
         dropWhile P ms = filter (\<lambda>m. seq_off l t < moff l m) ms"
    using sorted P
  proof (induction ms)
    case (Cons x xs)
    show ?case
    proof (cases "P x")
      case False
      then have "seq_off l t < moff l x" using Cons.prems by auto
      then have "seq_off l t < moff l y" if "y \<in> set xs" for y using Cons.prems(1) that by force
      then have "filter (\<lambda>m. moff l m \<le> seq_off l t) xs = []"
        "filter (\<lambda>m. seq_off l t < moff l m) xs = xs"
        by (auto simp: filter_empty_conv filter_id_conv not_le)
      with False \<open>seq_off l t < moff l x\<close> show ?thesis by simp
    next
      case True
      with Cons show ?thesis by simp
    qed
  qed simp
  have "ba_window l w (filter (\<lambda>m. seq_off l t < moff l m) ms)"
    using assms(1) by (simp add: ba_window_def sorted_wrt_filter)
  then have "ba_window t (w - seq_off l t) (filter (\<lambda>m. seq_off l t < moff l m) ms)"
    by (rule ba_window_shift) simp
  with tw show ?thesis by simp
qed

lemma insert_window:
  assumes "ba_window l w ms" "w < 2048" "seq_ok (mpdu_Sequence m)" "1 \<le> moff l m" "moff l m \<le> w"
  shows "(case ba_insert_chain ms m of
      None \<Rightarrow> mpdu_Sequence m \<in> mpdu_Sequence ` set ms
    | Some ms' \<Rightarrow> mset ms' = add_mset m (mset ms) \<and> ba_window l w ms')"
  using assms(1)
proof (induction ms)
  case Nil
  then show ?case using assms by (simp add: ba_window_def)
next
  case (Cons x xs)
  have x: "moff l x < 2048" "seq_ok (mpdu_Sequence x)" and xs: "ba_window l w xs"
    "\<forall>y\<in>set xs. moff l x < moff l y"
    using Cons.prems assms(2) by (auto simp: ba_window_Cons)
  have m: "moff l m < 2048" using assms by simp
  have smaller: "SEQ_SMALLER (mpdu_Sequence x) (mpdu_Sequence m) MAXSEQ = (moff l x < moff l m)"
    using SEQ_SMALLER_window [OF x(1) m] .
  show ?case
  proof (cases "moff l x < moff l m")
    case True
    show ?thesis
    proof (cases "ba_insert_chain xs m")
      case None
      then show ?thesis using Cons.IH [OF xs(1)] True smaller by simp
    next
      case (Some ms')
      then have "mset ms' = add_mset m (mset xs)" "ba_window l w ms'" using Cons.IH [OF xs(1)] by simp_all
      moreover from this(1) have "set ms' = insert m (set xs)" by (metis set_mset_mset set_mset_add_mset_insert)
      ultimately show ?thesis
        using Some True smaller Cons.prems xs(2) by (simp add: ba_window_Cons)
    qed
  next
    case False
    show ?thesis
    proof (cases "mpdu_Sequence x = mpdu_Sequence m")
      case True
      then show ?thesis using smaller False by simp
    next
      case neq: False
      then have "moff l m < moff l x" using False seq_off_inj [OF x(2) assms(3), of l] by simp
      then show ?thesis
        using neq smaller False Cons.prems assms xs(2) by (auto simp: ba_window_Cons)
    qed
  qed
qed

end
