(* ===== verification/BaReorderProps.thy ===== *)
theory BaReorderProps
  imports BaReorder
begin

text \<open>
  Correctness of the reordering buffer: the window invariant and its preservation by every operation
  on an entry, the order of delivery, ownership of socket buffers and of reordering blocks, progress
  of the timeout, and the two situations in which the code leaves this behaviour.
\<close>

subsection \<open>The invariant of a session entry\<close>

text \<open>
  A reset entry buffers nothing. Otherwise the buffered frames lie in the window ahead of
  \<^verbatim>\<open>LastIndSeq\<close>, in order, and the next frame in order is not among them.
\<close>

definition ba_entry_wf :: "ba_rec_entry \<Rightarrow> bool" where
  "ba_entry_wf e \<longleftrightarrow> list_wf (reord e) \<and> rec_BAWinSize e \<noteq> 0 \<and>
     (if LastIndSeq e = RESET_RCV_SEQ then chain (reord e) = []
      else seq_ok (LastIndSeq e) \<and>
           ba_window (LastIndSeq e) (unat (rec_BAWinSize e)) (chain (reord e)) \<and>
           in_order_count (LastIndSeq e) (chain (reord e)) = 0)"

abbreviation win_of :: "ba_rec_entry \<Rightarrow> nat" where
  "win_of e \<equiv> unat (rec_BAWinSize e)"

abbreviation buffered :: "ba_rec_entry \<Rightarrow> reordering_mpdu list" where
  "buffered e \<equiv> chain (reord e)"

text \<open>An active entry, which has indicated a frame; the next one in order may be buffered.\<close>

definition ba_active :: "ba_rec_entry \<Rightarrow> bool" where
  "ba_active e \<longleftrightarrow> list_wf (reord e) \<and> rec_BAWinSize e \<noteq> 0 \<and> seq_ok (LastIndSeq e) \<and>
     ba_window (LastIndSeq e) (win_of e) (buffered e)"

lemma ba_entry_wf_active:
  "LastIndSeq e \<noteq> RESET_RCV_SEQ \<Longrightarrow>
   ba_entry_wf e = (ba_active e \<and> in_order_count (LastIndSeq e) (buffered e) = 0)"
  by (auto simp: ba_entry_wf_def ba_active_def)

lemma ba_active_wf:
  "ba_active e \<Longrightarrow> in_order_count (LastIndSeq e) (buffered e) = 0 \<Longrightarrow> ba_entry_wf e"
  by (auto simp: ba_entry_wf_def ba_active_def dest: seq_ok_not_RESET)

lemma win_of_less: "win_of e < 2048"
  using unat_u8_less [of "rec_BAWinSize e"] by linarith

lemma win_of_pos: "rec_BAWinSize e \<noteq> 0 \<Longrightarrow> 1 \<le> win_of e"
  by (simp add: Suc_le_eq unat_gt_0)

lemma in_order_count_0:
  "ba_window l w ms \<Longrightarrow> (in_order_count l ms = 0) = (\<forall>m\<in>set ms. 2 \<le> moff l m)"
  by (cases ms) (auto simp: ba_window_Cons SEQ_STEPONE_off Suc_le_eq dest: le_neq_implies_less
      intro: order_less_trans)

lemma in_order_count_drop:
  "in_order_count (if in_order_count l ms = 0 then l else mpdu_Sequence (ms ! (in_order_count l ms - 1)))
     (drop (in_order_count l ms) ms) = 0"
proof (induction ms arbitrary: l)
  case (Cons m ms)
  show ?case using Cons.IH [of "mpdu_Sequence m"] by (auto simp: nth_Cons' cong: if_cong)
qed simp

subsection \<open>The steps on an entry as equations\<close>

text \<open>Indicating in order and moving \<^verbatim>\<open>LastIndSeq\<close> to the last frame indicated.\<close>

definition last_after :: "u16 \<Rightarrow> reordering_mpdu list \<Rightarrow> u16" where
  "last_after l ms =
     (if in_order_count l ms = 0 then l else mpdu_Sequence (ms ! (in_order_count l ms - 1)))"

lemma in_order_eq:
  assumes "list_wf (reord e)"
  shows "ba_indicate_reordering_mpdus_in_order e st l =
    (let n = in_order_count l (buffered e) in
     Inr (if n = 0 then RESET_RCV_SEQ else last_after l (buffered e),
          e\<lparr>reord := set_chain (reord e) (drop n (buffered e))\<rparr>,
          release_all (take n (buffered e)) st))"
  by (simp add: ba_indicate_reordering_mpdus_in_order_def ba_in_order_loop_run [OF assms]
      last_after_def Let_def)

lemma last_after_window:
  assumes "ba_window l w ms" "w < 2048" "seq_ok l"
  shows "in_order_count l ms \<le> length ms"
    "seq_off l (last_after l ms) = in_order_count l ms"
    "ba_window (last_after l ms) w (drop (in_order_count l ms) ms)"
    "map (moff l) (take (in_order_count l ms) ms) = [1..<Suc (in_order_count l ms)]"
    "seq_ok (last_after l ms)"
    "in_order_count (last_after l ms) (drop (in_order_count l ms) ms) = 0"
  using in_order_window [OF assms(1,2) refl refl] assms(3) in_order_count_drop [of l ms]
  by (auto simp: last_after_def)

definition advance :: "ba_rec_entry \<Rightarrow> ba_rec_entry" where
  "advance e = (let n = in_order_count (LastIndSeq e) (buffered e) in
     e\<lparr>LastIndSeq := last_after (LastIndSeq e) (buffered e),
       reord := set_chain (reord e) (drop n (buffered e))\<rparr>)"

definition advance_out :: "ba_rec_entry \<Rightarrow> reordering_mpdu list" where
  "advance_out e = take (in_order_count (LastIndSeq e) (buffered e)) (buffered e)"

lemma advance_eq:
  assumes "ba_active e"
  shows "(case ba_indicate_reordering_mpdus_in_order e st (LastIndSeq e) of
            Inl f \<Rightarrow> Inl f
          | Inr (s, e1, st1) \<Rightarrow> Inr (if s \<noteq> RESET_RCV_SEQ then e1\<lparr>LastIndSeq := s\<rparr> else e1, st1)) =
         Inr (advance e, release_all (advance_out e) st)"
proof -
  have w: "list_wf (reord e)" "seq_ok (LastIndSeq e)"
    "ba_window (LastIndSeq e) (win_of e) (buffered e)"
    using assms by (simp_all add: ba_active_def)
  have ok: "last_after (LastIndSeq e) (buffered e) \<noteq> RESET_RCV_SEQ"
    using last_after_window(5) [OF w(3) win_of_less w(2)] by (rule seq_ok_not_RESET)
  show ?thesis
    using ok by (simp add: in_order_eq [OF w(1)] advance_def advance_out_def Let_def)
      (simp add: last_after_def)
qed

lemma advance_wf: "ba_active e \<Longrightarrow> ba_entry_wf (advance e) \<and> LastIndSeq (advance e) \<noteq> RESET_RCV_SEQ"
  using last_after_window(3,5,6) [of "LastIndSeq e" "win_of e" "buffered e"]
  by (auto simp: ba_active_def ba_entry_wf_def advance_def Let_def win_of_less
      dest: seq_ok_not_RESET)

text \<open>Releasing every frame up to \<open>t\<close>.\<close>

definition skip_to :: "ba_rec_entry \<Rightarrow> u16 \<Rightarrow> ba_rec_entry" where
  "skip_to e t = e\<lparr>reord := set_chain (reord e)
     (filter (\<lambda>m. seq_off (LastIndSeq e) t < moff (LastIndSeq e) m) (buffered e))\<rparr>"

definition skip_out :: "ba_rec_entry \<Rightarrow> u16 \<Rightarrow> reordering_mpdu list" where
  "skip_out e t = filter (\<lambda>m. moff (LastIndSeq e) m \<le> seq_off (LastIndSeq e) t) (buffered e)"

lemma le_seq_eq:
  assumes "ba_active e" "seq_ok t" "1 \<le> seq_off (LastIndSeq e) t" "seq_off (LastIndSeq e) t \<le> 2048"
  shows "ba_indicate_reordering_mpdus_le_seq e st t =
    Inr (skip_to e t, release_all (skip_out e t) st)"
    and "ba_window t (win_of e - seq_off (LastIndSeq e) t) (buffered (skip_to e t))"
proof -
  have wf: "list_wf (reord e)" and w: "ba_window (LastIndSeq e) (win_of e) (buffered e)"
    using assms(1) by (simp_all add: ba_active_def)
  note lw = le_seq_window [OF w win_of_less assms(3,4,2)]
  show "ba_indicate_reordering_mpdus_le_seq e st t =
    Inr (skip_to e t, release_all (skip_out e t) st)"
    using lw by (simp add: ba_indicate_reordering_mpdus_le_seq_def ba_le_seq_loop_run [OF wf]
        skip_to_def skip_out_def)
  show "ba_window t (win_of e - seq_off (LastIndSeq e) t) (buffered (skip_to e t))"
    using lw by (elim conjE) (simp add: skip_to_def)
qed

lemma skip_to_active:
  assumes "ba_active e" "seq_ok t" "1 \<le> seq_off (LastIndSeq e) t" "seq_off (LastIndSeq e) t \<le> 2048"
  shows "ba_active ((skip_to e t)\<lparr>LastIndSeq := t\<rparr>)"
  using assms le_seq_eq(2) [OF assms, THEN ba_window_mono, of "win_of e"]
  by (simp add: ba_active_def skip_to_def)

subsection \<open>Queueing a frame\<close>

text \<open>The entry and state after a frame is put into the list; a duplicate is freed.\<close>

definition rx_mpdu :: "rx_blk \<Rightarrow> nat \<Rightarrow> reordering_mpdu" where
  "rx_mpdu rx b = \<lparr>mpdu_addr = b, mpdu_pPacket = rx_pRxPacket rx, mpdu_Sequence = rx_Sequence rx,
     mpdu_bAMSDU = rx_AMSDU rx, mpdu_OpMode = rx_OpMode rx\<rparr>"

lemma rx_mpdu_simps [simp]:
  "mpdu_Sequence (rx_mpdu rx b) = rx_Sequence rx" "mpdu_pPacket (rx_mpdu rx b) = rx_pRxPacket rx"
  "mpdu_addr (rx_mpdu rx b) = b"
  by (simp_all add: rx_mpdu_def)

lemma ba_enqueue_dequeue:
  assumes "list_wf fl" "ba_dequeue fl = (Some b, fl')"
  shows "ba_enqueue fl' b = fl"
  using assms by (cases fl) (auto simp: ba_dequeue_def ba_enqueue_def list_wf_def split: if_splits list.splits)

text \<open>A frame that takes a block: it is in the list afterwards, or it was there already.\<close>

lemma enqueue_packet_cases:
  assumes "ba_active e" "list_wf (freelist st)" "chain (freelist st) = b # bs" "\<not> rx_EAP rx"
    and "seq_ok (rx_Sequence rx)" "1 \<le> seq_off (LastIndSeq e) (rx_Sequence rx)"
    "seq_off (LastIndSeq e) (rx_Sequence rx) \<le> win_of e"
  obtains (dup) "rx_Sequence rx \<in> mpdu_Sequence ` set (buffered e)"
      "ba_enqueue_reordering_packet e st rx = Inr (e, log_event (FreeSkb (rx_pRxPacket rx)) st)"
  | (new) ms where
      "ba_enqueue_reordering_packet e st rx =
        Inr (e\<lparr>reord := set_chain (reord e) ms\<rparr>, st\<lparr>freelist := set_chain (freelist st) bs\<rparr>)"
      "mset ms = add_mset (rx_mpdu rx b) (mset (buffered e))"
      "ba_window (LastIndSeq e) (win_of e) ms"
proof -
  have w: "list_wf (reord e)" "ba_window (LastIndSeq e) (win_of e) (buffered e)"
    using assms(1) by (simp_all add: ba_active_def)
  have dq: "ba_dequeue (freelist st) = (Some b, set_chain (freelist st) bs)"
    using assms(2,3) by (simp add: ba_dequeue_def list_wf_def set_chain_def)
  note iw = insert_window [OF w(2) win_of_less, of "rx_mpdu rx b"]
  show thesis
  proof (cases "ba_insert_chain (buffered e) (rx_mpdu rx b)")
    case None
    have "ba_mpdu_blk_free (log_event ev (st\<lparr>freelist := set_chain (freelist st) bs\<rparr>)) b =
        log_event ev st" for ev
      using ba_enqueue_dequeue [OF assms(2) dq] by (simp add: ba_mpdu_blk_free_def log_event_def)
    then have "ba_enqueue_reordering_packet e st rx = Inr (e, log_event (FreeSkb (rx_pRxPacket rx)) st)"
      using assms(4) None
      by (simp add: ba_enqueue_reordering_packet_def ba_mpdu_blk_alloc_def dq
          ba_reordering_mpdu_insertsorted_def rx_mpdu_def [symmetric])
    then show thesis using iw assms(5-7) None by (intro dup) simp_all
  next
    case (Some ms)
    have ms: "mset ms = add_mset (rx_mpdu rx b) (mset (buffered e))"
      "ba_window (LastIndSeq e) (win_of e) ms"
      using iw assms(5-7) Some by simp_all
    have "length ms = Suc (length (buffered e))"
      using arg_cong [OF ms(1), of size] by simp
    then have "ba_enqueue_reordering_packet e st rx =
        Inr (e\<lparr>reord := set_chain (reord e) ms\<rparr>, st\<lparr>freelist := set_chain (freelist st) bs\<rparr>)"
      using assms(4) Some w(1)
      by (simp add: ba_enqueue_reordering_packet_def ba_mpdu_blk_alloc_def dq list_wf_def
          ba_reordering_mpdu_insertsorted_def rx_mpdu_def [symmetric] set_chain_def)
    then show thesis using ms by (rule new)
  qed
qed

text \<open>A frame that cannot be queued, because it is EAPOL or because the pool is empty.\<close>

definition cannot_queue :: "rx_state \<Rightarrow> rx_blk \<Rightarrow> bool" where
  "cannot_queue st rx \<longleftrightarrow> rx_EAP rx \<or> chain (freelist st) = []"

definition take_block :: "rx_state \<Rightarrow> rx_state" where
  "take_block st = st\<lparr>freelist := set_chain (freelist st) (tl (chain (freelist st)))\<rparr>"

lemma take_block_dequeue:
  "list_wf (freelist st) \<Longrightarrow>
   ba_mpdu_blk_alloc st = (case chain (freelist st) of [] \<Rightarrow> None | b # _ \<Rightarrow> Some b, take_block st)"
  by (cases "chain (freelist st)")
    (auto simp: ba_mpdu_blk_alloc_def ba_dequeue_def list_wf_def take_block_def set_chain_def)

lemma enqueue_packet_fallback:
  assumes "ba_active e" "list_wf (freelist st)" "cannot_queue st rx"
    and "seq_ok (rx_Sequence rx)" "1 \<le> seq_off (LastIndSeq e) (rx_Sequence rx)"
    "seq_off (LastIndSeq e) (rx_Sequence rx) \<le> 2048"
  shows "ba_enqueue_reordering_packet e st rx =
    Inr ((skip_to e (rx_Sequence rx))\<lparr>LastIndSeq := rx_Sequence rx\<rparr>,
         INDICATE_LEGACY_OR_AMSDU (release_all (skip_out e (rx_Sequence rx)) (take_block st)) rx)"
  using assms(3) le_seq_eq(1) [OF assms(1,4,5,6)]
  by (auto simp: ba_enqueue_reordering_packet_def take_block_dequeue [OF assms(2)] cannot_queue_def
      split: list.splits)

subsection \<open>The cases of the sequence check\<close>

lemma SEQ_cases:
  assumes "ba_active e" "seq_ok s"
  defines "d \<equiv> seq_off (LastIndSeq e) s"
  shows "SEQ_STEPONE s (LastIndSeq e) MAXSEQ = (d = 1)"
    "(s = LastIndSeq e \<or> SEQ_SMALLER s (LastIndSeq e) MAXSEQ) = (d = 0 \<or> 2048 \<le> d)"
    "2 \<le> d \<Longrightarrow> d < 2048 \<Longrightarrow>
     SEQ_SMALLER s ((LastIndSeq e + ucast (rec_BAWinSize e) + 1) AND MAXSEQ) MAXSEQ = (d \<le> win_of e)"
proof -
  have ok: "seq_ok (LastIndSeq e)" using assms(1) by (simp add: ba_active_def)
  show "SEQ_STEPONE s (LastIndSeq e) MAXSEQ = (d = 1)"
    using assms(2) by (simp add: d_def SEQ_STEPONE_off)
  show "(s = LastIndSeq e \<or> SEQ_SMALLER s (LastIndSeq e) MAXSEQ) = (d = 0 \<or> 2048 \<le> d)"
    using seq_off_0 [OF ok assms(2)] by (simp add: d_def SEQ_SMALLER_off)
  let ?t = "(LastIndSeq e + ucast (rec_BAWinSize e) + 1) AND MAXSEQ"
  have "ucast (rec_BAWinSize e) + 1 = (word_of_nat (win_of e + 1) :: u16)" by simp
  then have "?t = (LastIndSeq e + word_of_nat (win_of e + 1)) AND MAXSEQ"
    by (simp only: add.assoc)
  then have "seq_off (LastIndSeq e) ?t = seq_off (LastIndSeq e) (LastIndSeq e + word_of_nat (win_of e + 1))"
    by (simp add: seq_off_def)
  also have "\<dots> = win_of e + 1" unfolding seq_off_add by (rule mod_less) (use unat_u8_less [of "rec_BAWinSize e"] in linarith)
  finally have t: "seq_off (LastIndSeq e) ?t = win_of e + 1" .
  assume d: "2 \<le> d" "d < 2048"
  show "SEQ_SMALLER s ?t MAXSEQ = (d \<le> win_of e)"
    using SEQ_SMALLER_window [of "LastIndSeq e" s ?t] t d win_of_less [of e]
      unat_u8_less [of "rec_BAWinSize e"] by (auto simp: d_def)
qed

text \<open>The start of the window whose last frame is \<open>s\<close>.\<close>

definition win_start :: "ba_rec_entry \<Rightarrow> u16 \<Rightarrow> u16" where
  "win_start e s = (let Tmp0 = uint s - uint (rec_BAWinSize e) - 1;
      TmpSeq = (if Tmp0 < 0 then (uint MAXSEQ + 1) + Tmp0 else Tmp0)
    in word_of_int (TmpSeq + 1) AND MAXSEQ)"

lemma q12_win_start: "q12 (win_start e s) = q12 s - word_of_nat (win_of e)"
proof -
  let ?d = "uint s - uint (rec_BAWinSize e)"
  define T where "T = (if ?d - 1 < 0 then (uint MAXSEQ + 1) + (?d - 1) else ?d - 1)"
  have "q12 (win_start e s) = word_of_int (T + 1)"
    by (simp only: win_start_def Let_def T_def [symmetric] q12_and_MAXSEQ q12_take_bit)
  also have "\<dots> = word_of_int ?d" by (simp add: T_def MAXSEQ_def)
  also have "\<dots> = q12 s - word_of_nat (win_of e)" by (simp add: q12_def)
  finally show ?thesis .
qed

lemma win_start_off:
  assumes "win_of e < seq_off l s"
  shows "seq_off l (win_start e s) = seq_off l s - win_of e" "seq_off (win_start e s) s = win_of e"
    "seq_ok (win_start e s)"
proof -
  have w: "unat (word_of_nat (win_of e) :: 12 word) = win_of e"
    using win_of_less [of e] by (simp add: unsigned_ucast_eq take_bit_nat_eq_self)
  have "q12 (win_start e s) - q12 l = (q12 s - q12 l) - word_of_nat (win_of e)"
    by (simp add: q12_win_start)
  then show "seq_off l (win_start e s) = seq_off l s - win_of e"
    unfolding seq_off_def using assms by (simp only: unat_q12_diff [of "q12 s - q12 l"] w seq_off_def)
      simp
  show "seq_off (win_start e s) s = win_of e"
    using w by (simp add: seq_off_def q12_win_start)
  show "seq_ok (win_start e s)" by (simp add: win_start_def Let_def)
qed

lemma ba_active_at:
  assumes "ba_entry_wf e" "LastIndSeq e \<noteq> RESET_RCV_SEQ" "seq_ok s" "seq_off (LastIndSeq e) s = 1"
  shows "ba_active (e\<lparr>LastIndSeq := s\<rparr>)"
proof -
  have a: "ba_active e" and n: "in_order_count (LastIndSeq e) (buffered e) = 0"
    using assms(1,2) by (simp_all add: ba_entry_wf_active)
  have w: "ba_window (LastIndSeq e) (win_of e) (buffered e)" using a by (simp add: ba_active_def)
  have "\<forall>m\<in>set (buffered e). seq_off (LastIndSeq e) s < moff (LastIndSeq e) m"
    using n in_order_count_0 [OF w] assms(4) by fastforce
  then have "ba_window s (win_of e) (buffered e)"
    using ba_window_shift [OF w] ba_window_mono diff_le_self by blast
  then show ?thesis using a assms(3) by (simp add: ba_active_def)
qed

lemma ba_active_timer [simp]:
  "ba_active (e\<lparr>LastIndSeqAtTimer := t\<rparr>) = ba_active e"
  "ba_entry_wf (e\<lparr>LastIndSeqAtTimer := t\<rparr>) = ba_entry_wf e"
  "ba_active (e\<lparr>nDropPacket := n\<rparr>) = ba_active e"
  "ba_entry_wf (e\<lparr>nDropPacket := n\<rparr>) = ba_entry_wf e"
  "ba_active (e\<lparr>rcvSeq := q\<rparr>) = ba_active e"
  "ba_entry_wf (e\<lparr>rcvSeq := q\<rparr>) = ba_entry_wf e"
  by (simp_all add: ba_active_def ba_entry_wf_def)

lemma check_sequence_in_order:
  assumes "ba_entry_wf e" "LastIndSeq e \<noteq> RESET_RCV_SEQ" "seq_ok (rx_Sequence rx)"
    "seq_off (LastIndSeq e) (rx_Sequence rx) = 1"
  defines "e1 \<equiv> e\<lparr>LastIndSeq := rx_Sequence rx\<rparr>"
  shows "ba_check_sequence e st rx now =
    Inr ((advance e1)\<lparr>LastIndSeqAtTimer := now\<rparr>,
         release_all (advance_out e1) (INDICATE_LEGACY_OR_AMSDU st rx))"
proof -
  have step: "SEQ_STEPONE (rx_Sequence rx) (LastIndSeq e) MAXSEQ"
    using assms(3,4) by (simp add: SEQ_STEPONE_off)
  have a: "ba_active e1" unfolding e1_def by (rule ba_active_at [OF assms(1-4)])
  have l: "LastIndSeq e1 = rx_Sequence rx" by (simp add: e1_def)
  show ?thesis
    using advance_eq [OF a, of "INDICATE_LEGACY_OR_AMSDU st rx"]
    unfolding ba_check_sequence_def Let_def e1_def [symmetric] l
    by (auto simp: step assms(2) split: sum.splits prod.splits if_splits)
qed

lemma check_sequence_old:
  assumes "ba_active e" "LastIndSeq e \<noteq> RESET_RCV_SEQ" "seq_ok (rx_Sequence rx)"
    "seq_off (LastIndSeq e) (rx_Sequence rx) = 0 \<or> 2048 \<le> seq_off (LastIndSeq e) (rx_Sequence rx)"
  shows "ba_check_sequence e st rx now =
    Inr (e\<lparr>nDropPacket := nDropPacket e + 1\<rparr>, log_event (FreeSkb (rx_pRxPacket rx)) st)"
proof -
  have "\<not> SEQ_STEPONE (rx_Sequence rx) (LastIndSeq e) MAXSEQ"
    using SEQ_cases(1) [OF assms(1,3)] assms(4) by auto
  then show ?thesis
    using SEQ_cases(2) [OF assms(1,3)] assms(2,4)
    by (simp only: ba_check_sequence_def Let_def if_False if_True simp_thms)
qed

lemma check_sequence_queue:
  assumes "ba_active e" "LastIndSeq e \<noteq> RESET_RCV_SEQ" "seq_ok (rx_Sequence rx)"
    "2 \<le> seq_off (LastIndSeq e) (rx_Sequence rx)" "seq_off (LastIndSeq e) (rx_Sequence rx) \<le> win_of e"
  shows "ba_check_sequence e st rx now = ba_enqueue_reordering_packet e st rx"
proof -
  have lt: "seq_off (LastIndSeq e) (rx_Sequence rx) < 2048" using assms(5) win_of_less [of e] by simp
  have "\<not> SEQ_STEPONE (rx_Sequence rx) (LastIndSeq e) MAXSEQ"
    "\<not> (rx_Sequence rx = LastIndSeq e \<or> SEQ_SMALLER (rx_Sequence rx) (LastIndSeq e) MAXSEQ)"
    "SEQ_SMALLER (rx_Sequence rx) ((LastIndSeq e + ucast (rec_BAWinSize e) + 1) AND MAXSEQ) MAXSEQ"
    using SEQ_cases [OF assms(1,3)] assms(4,5) lt by simp_all
  then show ?thesis using assms(2) by (simp only: ba_check_sequence_def Let_def if_False if_True simp_thms)
qed

text \<open>Beyond the window: the entry moves to the window that ends with the frame, then queues it.\<close>

definition moved :: "ba_rec_entry \<Rightarrow> u16 \<Rightarrow> ulong \<Rightarrow> ba_rec_entry" where
  "moved e s now = (skip_to e (win_start e s))\<lparr>LastIndSeq := win_start e s, LastIndSeqAtTimer := now\<rparr>"

lemma moved_active:
  assumes "ba_active e" "win_of e < seq_off (LastIndSeq e) s" "seq_off (LastIndSeq e) s < 2048"
  shows "ba_active (moved e s now)"
proof -
  note o = win_start_off [OF assms(2)]
  have "1 \<le> seq_off (LastIndSeq e) (win_start e s)" "seq_off (LastIndSeq e) (win_start e s) \<le> 2048"
    using assms(2,3) o(1) by simp_all
  then show ?thesis using skip_to_active [OF assms(1) o(3)] by (simp add: moved_def)
qed

lemma check_sequence_beyond:
  assumes "ba_active e" "LastIndSeq e \<noteq> RESET_RCV_SEQ" "seq_ok (rx_Sequence rx)"
    "2 \<le> seq_off (LastIndSeq e) (rx_Sequence rx)"
    "win_of e < seq_off (LastIndSeq e) (rx_Sequence rx)" "seq_off (LastIndSeq e) (rx_Sequence rx) < 2048"
    and "ba_enqueue_reordering_packet (moved e (rx_Sequence rx) now)
          (release_all (skip_out e (win_start e (rx_Sequence rx))) st) rx = Inr (e2, st2)"
      "ba_active e2"
  shows "ba_check_sequence e st rx now = Inr (advance e2, release_all (advance_out e2) st2)"
proof -
  let ?s = "rx_Sequence rx"
  have nots: "\<not> SEQ_STEPONE ?s (LastIndSeq e) MAXSEQ"
    "\<not> (?s = LastIndSeq e \<or> SEQ_SMALLER ?s (LastIndSeq e) MAXSEQ)"
    "\<not> SEQ_SMALLER ?s ((LastIndSeq e + ucast (rec_BAWinSize e) + 1) AND MAXSEQ) MAXSEQ"
    using SEQ_cases [OF assms(1,3)] assms(4-6) by simp_all
  note o = win_start_off [OF assms(5)]
  have o1: "1 \<le> seq_off (LastIndSeq e) (win_start e ?s)" "seq_off (LastIndSeq e) (win_start e ?s) \<le> 2048"
    using assms(5,6) o(1) by simp_all
  show ?thesis
    using advance_eq [OF assms(8), of st2] assms(2)
    unfolding ba_check_sequence_def Let_def
    by (simp only: nots if_False simp_thms win_start_def [unfolded Let_def, symmetric]
        le_seq_eq(1) [OF assms(1) o(3) o1] sum.case prod.case moved_def [symmetric] assms(7))
qed

subsection \<open>Delivery order and ownership\<close>

text \<open>The sequence numbers handed to the upper layer, in order.\<close>

fun delivered :: "rx_event list \<Rightarrow> u16 list" where
  "delivered [] = []"
| "delivered (FreeSkb p # evs) = delivered evs"
| "delivered (Announce p s a m # evs) = s # delivered evs"
| "delivered (Indicate k p s # evs) = s # delivered evs"

lemma delivered_append [simp]: "delivered (xs @ ys) = delivered xs @ delivered ys"
  by (induction xs rule: delivered.induct) simp_all

lemma delivered_release [simp]: "delivered (map release_event ms) = map mpdu_Sequence ms"
  by (induction ms) (simp_all add: release_event_def)

text \<open>Delivered in increasing order, more than \<open>a\<close> and at most \<open>b\<close> ahead of \<open>l\<close>.\<close>

definition delivers :: "u16 \<Rightarrow> nat \<Rightarrow> nat \<Rightarrow> u16 list \<Rightarrow> bool" where
  "delivers l a b ss \<longleftrightarrow> sorted_wrt (<) (map (seq_off l) ss) \<and> (\<forall>s\<in>set ss. a < seq_off l s \<and> seq_off l s \<le> b)"

lemma delivers_Nil [simp]: "delivers l a b []"
  by (simp add: delivers_def)

lemma delivers_append:
  "delivers l a b xs \<Longrightarrow> delivers l b c ys \<Longrightarrow> a \<le> b \<Longrightarrow> b \<le> c \<Longrightarrow> delivers l a c (xs @ ys)"
  by (fastforce simp: delivers_def sorted_wrt_append)

lemma delivers_base:
  assumes "delivers t 0 n ss" "seq_off l t + n < 4096"
  shows "delivers l (seq_off l t) (seq_off l t + n) ss"
proof -
  have eq: "seq_off l s = seq_off l t + seq_off t s" if "s \<in> set ss" for s
    using assms that by (intro seq_off_trans) (auto simp: delivers_def)
  have "map (seq_off l) ss = map ((+) (seq_off l t)) (map (seq_off t) ss)" using eq by simp
  moreover have "sorted_wrt (<) (map ((+) (seq_off l t)) (map (seq_off t) ss))"
    using assms(1) by (simp add: delivers_def sorted_wrt_map)
  ultimately have "sorted_wrt (<) (map (seq_off l) ss)" by (simp only:)
  then show ?thesis using assms(1) eq by (simp add: delivers_def)
qed

lemma advance_delivers:
  assumes "ba_active e"
  shows "delivers (LastIndSeq e) 0 (seq_off (LastIndSeq e) (LastIndSeq (advance e)))
           (map mpdu_Sequence (advance_out e))"
    and "seq_off (LastIndSeq e) (LastIndSeq (advance e)) \<le> win_of e"
proof -
  have w: "seq_ok (LastIndSeq e)" "ba_window (LastIndSeq e) (win_of e) (buffered e)"
    using assms by (simp_all add: ba_active_def)
  note la = last_after_window [OF w(2) win_of_less w(1)]
  have m: "map (seq_off (LastIndSeq e)) (map mpdu_Sequence (advance_out e)) =
      [1..<Suc (in_order_count (LastIndSeq e) (buffered e))]"
    using la(4) by (simp add: advance_out_def comp_def)
  have "set (map (seq_off (LastIndSeq e)) (map mpdu_Sequence (advance_out e))) =
      {1..<Suc (in_order_count (LastIndSeq e) (buffered e))}"
    by (simp only: m set_upt)
  then have "\<forall>s\<in>set (map mpdu_Sequence (advance_out e)).
      0 < seq_off (LastIndSeq e) s \<and> seq_off (LastIndSeq e) s \<le> in_order_count (LastIndSeq e) (buffered e)"
    by (metis (no_types, lifting) atLeastLessThan_iff image_eqI less_Suc_eq_le list.set_map
        One_nat_def Suc_le_lessD)
  then show "delivers (LastIndSeq e) 0 (seq_off (LastIndSeq e) (LastIndSeq (advance e)))
           (map mpdu_Sequence (advance_out e))"
    unfolding delivers_def m using la(2) by (simp add: advance_def Let_def del: upt_Suc)
  show "seq_off (LastIndSeq e) (LastIndSeq (advance e)) \<le> win_of e"
    using la(1,2) ba_window_length [OF w(2)] by (simp add: advance_def Let_def)
qed

lemma skip_delivers:
  assumes "ba_active e"
  shows "delivers (LastIndSeq e) 0 (seq_off (LastIndSeq e) t) (map mpdu_Sequence (skip_out e t))"
  using assms
  by (auto simp: delivers_def skip_out_def ba_active_def ba_window_def sorted_wrt_map
      intro!: sorted_wrt_filter)

text \<open>
  Socket buffers: those handed on or freed so far, and those of the buffered frames. Blocks: those in
  the pool and those of the buffered frames.
\<close>

definition skbs :: "ba_rec_entry \<Rightarrow> rx_state \<Rightarrow> nat multiset" where
  "skbs e st = mset (map ev_packet (rx_out st)) + mset (map mpdu_pPacket (buffered e))"

definition blocks :: "ba_rec_entry \<Rightarrow> rx_state \<Rightarrow> nat multiset" where
  "blocks e st = mset (chain (freelist st)) + mset (map mpdu_addr (buffered e))"

lemma skbs_log [simp]: "skbs e (log_event ev st) = add_mset (ev_packet ev) (skbs e st)"
  by (simp add: skbs_def log_event_def)

lemma blocks_log [simp]: "blocks e (log_event ev st) = blocks e st"
  by (simp add: blocks_def log_event_def)

lemma skbs_indicate [simp]:
  "skbs e (INDICATE_LEGACY_OR_AMSDU st rx) = add_mset (rx_pRxPacket rx) (skbs e st)"
  "blocks e (INDICATE_LEGACY_OR_AMSDU st rx) = blocks e st"
  "freelist (INDICATE_LEGACY_OR_AMSDU st rx) = freelist st"
  "rx_out (INDICATE_LEGACY_OR_AMSDU st rx) = rx_out st @
     [Indicate (if rx_AMSDU rx then Indicate_AMSDU else if rx_EAP rx then Indicate_EAPOL
                else Indicate_Legacy) (rx_pRxPacket rx) (rx_Sequence rx)]"
  by (simp_all add: INDICATE_LEGACY_OR_AMSDU_def) (simp_all add: log_event_def)

lemma ev_packet_release [simp]: "ev_packet (release_event m) = mpdu_pPacket m"
  by (simp add: release_event_def)

lemma release_conserves:
  assumes "mset (buffered e) = mset rel + mset (buffered e')"
  shows "skbs e' (release_all rel st) = skbs e st" "blocks e' (release_all rel st) = blocks e st"
  using assms
  by (simp_all add: skbs_def blocks_def release_all_def comp_def)

lemma list_wf_release [simp]: "list_wf (freelist st) \<Longrightarrow> list_wf (freelist (release_all ms st))"
  by (simp add: list_wf_def release_all_def)

lemma advance_split: "mset (buffered e) = mset (advance_out e) + mset (buffered (advance e))"
  by (simp add: advance_out_def advance_def Let_def mset_append [symmetric] del: mset_append)

lemma skip_split: "mset (buffered e) = mset (skip_out e t) + mset (buffered (skip_to e t))"
  by (simp add: skip_out_def skip_to_def not_le [symmetric] multiset_partition)

subsection \<open>The effect of one frame\<close>

text \<open>
  What holds after a step that leads from \<open>(e, st)\<close> to \<open>(e', st')\<close> and takes in the socket buffers
  \<open>new\<close>: nothing is lost or used twice, and the frames delivered lie between the two values of
  \<^verbatim>\<open>LastIndSeq\<close>, in order.
\<close>

definition ba_step_ok :: "nat multiset \<Rightarrow> ba_rec_entry \<Rightarrow> rx_state \<Rightarrow> ba_rec_entry \<Rightarrow> rx_state \<Rightarrow> bool" where
  "ba_step_ok new e st e' st' \<longleftrightarrow>
     list_wf (freelist st') \<and> rec_BAWinSize e' = rec_BAWinSize e \<and>
     skbs e' st' = new + skbs e st \<and> blocks e' st' = blocks e st \<and>
     (\<exists>evs. rx_out st' = rx_out st @ evs \<and>
       (LastIndSeq e \<noteq> RESET_RCV_SEQ \<longrightarrow> LastIndSeq e' \<noteq> RESET_RCV_SEQ \<longrightarrow>
        delivers (LastIndSeq e) 0 (seq_off (LastIndSeq e) (LastIndSeq e')) (delivered evs)))"

lemma skbs_cong: "reord e' = reord e \<Longrightarrow> skbs e' st = skbs e st"
  and blocks_cong: "reord e' = reord e \<Longrightarrow> blocks e' st = blocks e st"
  by (simp_all add: skbs_def blocks_def)

lemma delivers_one: "0 < seq_off l s \<Longrightarrow> delivers l 0 (seq_off l s) [s]"
  by (simp add: delivers_def)

lemma advance_win [simp]: "rec_BAWinSize (advance e) = rec_BAWinSize e"
  by (simp add: advance_def Let_def)

lemma step_in_order:
  assumes "ba_entry_wf e" "LastIndSeq e \<noteq> RESET_RCV_SEQ" "list_wf (freelist st)"
    "seq_ok (rx_Sequence rx)" "seq_off (LastIndSeq e) (rx_Sequence rx) = 1"
  shows "\<exists>e' st'. ba_check_sequence e st rx now = Inr (e', st') \<and> ba_entry_wf e' \<and>
    LastIndSeq e' \<noteq> RESET_RCV_SEQ \<and> ba_step_ok {#rx_pRxPacket rx#} e st e' st'"
proof -
  let ?e1 = "e\<lparr>LastIndSeq := rx_Sequence rx\<rparr>"
  have a: "ba_active ?e1" by (rule ba_active_at [OF assms(1,2,4,5)])
  let ?n = "seq_off (rx_Sequence rx) (LastIndSeq (advance ?e1))"
  have adv: "delivers (rx_Sequence rx) 0 ?n (map mpdu_Sequence (advance_out ?e1))" "?n \<le> win_of e"
    using advance_delivers [OF a] by simp_all
  have off: "seq_off (LastIndSeq e) (LastIndSeq (advance ?e1)) = 1 + ?n"
    using seq_off_trans [of "LastIndSeq e" "rx_Sequence rx"] adv(2) win_of_less [of e] assms(5) by simp
  have "delivers (LastIndSeq e) 1 (1 + ?n) (map mpdu_Sequence (advance_out ?e1))"
    using delivers_base [OF adv(1), of "LastIndSeq e"] adv(2) win_of_less [of e] assms(5) by simp
  then have dl: "delivers (LastIndSeq e) 0 (1 + ?n) (rx_Sequence rx # map mpdu_Sequence (advance_out ?e1))"
    using delivers_append [OF delivers_one, of "LastIndSeq e" "rx_Sequence rx" "1 + ?n"] assms(5) by simp
  have split: "mset (buffered ?e1) = mset (advance_out ?e1) +
      mset (buffered ((advance ?e1)\<lparr>LastIndSeqAtTimer := now\<rparr>))"
    using advance_split [of ?e1] by simp
  have "ba_step_ok {#rx_pRxPacket rx#} e st ((advance ?e1)\<lparr>LastIndSeqAtTimer := now\<rparr>)
      (release_all (advance_out ?e1) (INDICATE_LEGACY_OR_AMSDU st rx))"
    using release_conserves [OF split] assms(3) dl off
    by (simp add: ba_step_ok_def rx_out_release_all skbs_cong [of ?e1 e] blocks_cong [of ?e1 e])
  then show ?thesis
    using check_sequence_in_order [OF assms(1,2,4,5)] advance_wf [OF a] by auto
qed

lemma enqueue_step:
  assumes "ba_active e" "list_wf (freelist st)" "\<not> cannot_queue st rx"
    and "seq_ok (rx_Sequence rx)" "1 \<le> seq_off (LastIndSeq e) (rx_Sequence rx)"
    "seq_off (LastIndSeq e) (rx_Sequence rx) \<le> win_of e"
  shows "\<exists>e' st' evs. ba_enqueue_reordering_packet e st rx = Inr (e', st') \<and> ba_active e' \<and>
    LastIndSeq e' = LastIndSeq e \<and> rec_BAWinSize e' = rec_BAWinSize e \<and> list_wf (freelist st') \<and>
    set (buffered e') \<subseteq> insert (rx_mpdu rx (hd (chain (freelist st)))) (set (buffered e)) \<and>
    skbs e' st' = add_mset (rx_pRxPacket rx) (skbs e st) \<and> blocks e' st' = blocks e st \<and>
    rx_out st' = rx_out st @ evs \<and> delivered evs = []"
proof -
  obtain b bs where fl: "chain (freelist st) = b # bs"
    using assms(3) by (cases "chain (freelist st)") (auto simp: cannot_queue_def)
  have eap: "\<not> rx_EAP rx" using assms(3) by (simp add: cannot_queue_def)
  from assms(1,2) fl eap assms(4-6) show ?thesis
  proof (cases rule: enqueue_packet_cases)
    case dup
    then show ?thesis using assms(1,2)
      by (intro exI [of _ e] exI [of _ "log_event (FreeSkb (rx_pRxPacket rx)) st"]
          exI [of _ "[FreeSkb (rx_pRxPacket rx)]"]) (auto simp: log_event_def skbs_def blocks_def)
  next
    case (new ms)
    have set_ms: "set ms = insert (rx_mpdu rx b) (set (buffered e))"
      using arg_cong [OF new(2), of set_mset] by simp
    have img: "mset (map f ms) = add_mset (f (rx_mpdu rx b)) (mset (map f (buffered e)))" for f :: "reordering_mpdu \<Rightarrow> nat"
      using arg_cong [OF new(2), of "image_mset f"] by simp
    show ?thesis using new(1,3) assms(1,2) set_ms img fl
      by (intro exI [of _ "e\<lparr>reord := set_chain (reord e) ms\<rparr>"]
          exI [of _ "st\<lparr>freelist := set_chain (freelist st) bs\<rparr>"] exI [of _ "[]"])
        (simp add: ba_active_def skbs_def blocks_def)
  qed
qed

lemma active_gap:
  "ba_active e \<Longrightarrow> \<forall>m\<in>set (buffered e). 2 \<le> moff (LastIndSeq e) m \<Longrightarrow> ba_entry_wf e"
  by (rule ba_active_wf) (auto simp: ba_active_def intro: in_order_count_0 [THEN iffD2])

lemma wf_gap:
  "ba_entry_wf e \<Longrightarrow> LastIndSeq e \<noteq> RESET_RCV_SEQ \<Longrightarrow> m \<in> set (buffered e) \<Longrightarrow> 2 \<le> moff (LastIndSeq e) m"
  using in_order_count_0 by (fastforce simp: ba_entry_wf_def)

lemma step_queue:
  assumes "ba_entry_wf e" "LastIndSeq e \<noteq> RESET_RCV_SEQ" "list_wf (freelist st)"
    "\<not> cannot_queue st rx" "seq_ok (rx_Sequence rx)"
    "2 \<le> seq_off (LastIndSeq e) (rx_Sequence rx)" "seq_off (LastIndSeq e) (rx_Sequence rx) \<le> win_of e"
  shows "\<exists>e' st'. ba_check_sequence e st rx now = Inr (e', st') \<and> ba_entry_wf e' \<and>
    LastIndSeq e' \<noteq> RESET_RCV_SEQ \<and> ba_step_ok {#rx_pRxPacket rx#} e st e' st'"
proof -
  have a: "ba_active e" using assms(1,2) by (simp add: ba_entry_wf_active)
  have o: "1 \<le> seq_off (LastIndSeq e) (rx_Sequence rx)" using assms(6) by simp
  obtain e' st' evs where r: "ba_enqueue_reordering_packet e st rx = Inr (e', st')" "ba_active e'"
    "LastIndSeq e' = LastIndSeq e" "rec_BAWinSize e' = rec_BAWinSize e" "list_wf (freelist st')"
    "set (buffered e') \<subseteq> insert (rx_mpdu rx (hd (chain (freelist st)))) (set (buffered e))"
    "skbs e' st' = add_mset (rx_pRxPacket rx) (skbs e st)" "blocks e' st' = blocks e st"
    "rx_out st' = rx_out st @ evs" "delivered evs = []"
    using enqueue_step [OF a assms(3,4,5) o assms(7)] by blast
  have "\<forall>m\<in>set (buffered e'). 2 \<le> moff (LastIndSeq e') m"
    using r(3,6) wf_gap [OF assms(1,2)] assms(6) by auto
  then have "ba_entry_wf e'" using r(2) by (rule active_gap [rotated])
  then show ?thesis
    using r check_sequence_queue [OF a assms(2,5,6,7)] assms(2) by (auto simp: ba_step_ok_def)
qed

lemma step_beyond:
  assumes "ba_entry_wf e" "LastIndSeq e \<noteq> RESET_RCV_SEQ" "list_wf (freelist st)"
    "\<not> cannot_queue st rx" "seq_ok (rx_Sequence rx)" "2 \<le> seq_off (LastIndSeq e) (rx_Sequence rx)"
    "win_of e < seq_off (LastIndSeq e) (rx_Sequence rx)" "seq_off (LastIndSeq e) (rx_Sequence rx) < 2048"
  shows "\<exists>e' st'. ba_check_sequence e st rx now = Inr (e', st') \<and> ba_entry_wf e' \<and>
    LastIndSeq e' \<noteq> RESET_RCV_SEQ \<and> ba_step_ok {#rx_pRxPacket rx#} e st e' st'"
proof -
  let ?s = "rx_Sequence rx" and ?l = "LastIndSeq e"
  let ?w = "win_start e ?s" and ?e1 = "moved e ?s now"
  let ?st1 = "release_all (skip_out e ?w) st"
  have a: "ba_active e" using assms(1,2) by (simp add: ba_entry_wf_active)
  have a1: "ba_active ?e1" by (rule moved_active [OF a assms(7,8)])
  have l1: "LastIndSeq ?e1 = ?w" and b1: "buffered ?e1 = buffered (skip_to e ?w)"
    and win1: "rec_BAWinSize ?e1 = rec_BAWinSize e"
    by (simp_all add: moved_def skip_to_def)
  have fl1: "list_wf (freelist ?st1)" "\<not> cannot_queue ?st1 rx"
    using assms(3,4) by (simp_all add: cannot_queue_def) (simp_all add: release_all_def)
  note o = win_start_off [OF assms(7)]
  have wpos: "1 \<le> win_of e" using a by (intro win_of_pos) (simp add: ba_active_def)
  have o1: "1 \<le> seq_off (LastIndSeq ?e1) ?s" "seq_off (LastIndSeq ?e1) ?s \<le> win_of ?e1"
    using o(2) wpos by (simp_all add: l1 win1)
  obtain e2 st2 evs where r: "ba_enqueue_reordering_packet ?e1 ?st1 rx = Inr (e2, st2)" "ba_active e2"
    "LastIndSeq e2 = ?w" "rec_BAWinSize e2 = rec_BAWinSize e" "list_wf (freelist st2)"
    "skbs e2 st2 = add_mset (rx_pRxPacket rx) (skbs ?e1 ?st1)" "blocks e2 st2 = blocks ?e1 ?st1"
    "rx_out st2 = rx_out ?st1 @ evs" "delivered evs = []"
    using enqueue_step [OF a1 fl1 assms(5) o1] l1 win1 by auto
  have cons: "skbs ?e1 ?st1 = skbs e st" "blocks ?e1 ?st1 = blocks e st"
    using release_conserves [of e "skip_out e ?w" ?e1 st] skip_split [of e ?w] b1 by simp_all
  have cons2: "skbs (advance e2) (release_all (advance_out e2) st2) = skbs e2 st2"
    "blocks (advance e2) (release_all (advance_out e2) st2) = blocks e2 st2"
    using release_conserves [OF advance_split] by simp_all
  let ?n = "seq_off ?w (LastIndSeq (advance e2))"
  have adv: "delivers ?w 0 ?n (map mpdu_Sequence (advance_out e2))" "?n \<le> win_of e"
    using advance_delivers [OF r(2)] r(3,4) by simp_all
  have lt: "seq_off ?l ?w + ?n < 4096" using o(1) adv(2) win_of_less [of e] assms(8) by simp
  have off: "seq_off ?l (LastIndSeq (advance e2)) = seq_off ?l ?w + ?n" using lt by (rule seq_off_trans)
  have dl: "delivers ?l 0 (seq_off ?l ?w + ?n)
      (map mpdu_Sequence (skip_out e ?w) @ map mpdu_Sequence (advance_out e2))"
    using delivers_append [OF skip_delivers [OF a] delivers_base [OF adv(1) lt]] by simp
  have "ba_step_ok {#rx_pRxPacket rx#} e st (advance e2) (release_all (advance_out e2) st2)"
    using r cons cons2 dl off by (simp add: ba_step_ok_def rx_out_release_all)
  then show ?thesis
    using check_sequence_beyond [OF a assms(2,5-8) r(1,2)] advance_wf [OF r(2)] by auto
qed

theorem check_sequence_step:
  assumes "ba_entry_wf e" "list_wf (freelist st)" "\<not> cannot_queue st rx" "seq_ok (rx_Sequence rx)"
  shows "\<exists>e' st'. ba_check_sequence e st rx now = Inr (e', st') \<and> ba_entry_wf e' \<and>
    LastIndSeq e' \<noteq> RESET_RCV_SEQ \<and> ba_step_ok {#rx_pRxPacket rx#} e st e' st'"
proof (cases "LastIndSeq e = RESET_RCV_SEQ")
  case True
  let ?e = "e\<lparr>LastIndSeq := rx_Sequence rx, LastIndSeqAtTimer := now\<rparr>"
  have "ba_entry_wf ?e" "rx_Sequence rx \<noteq> RESET_RCV_SEQ"
    using True assms(1,4) by (simp_all add: ba_entry_wf_def seq_ok_not_RESET)
  then show ?thesis
    using True assms(2) by (simp add: ba_check_sequence_def ba_step_ok_def Let_def skbs_cong [of ?e e]
        blocks_cong [of ?e e])
next
  case False
  have a: "ba_active e" using assms(1) False by (simp add: ba_entry_wf_active)
  consider "seq_off (LastIndSeq e) (rx_Sequence rx) = 1"
    | "seq_off (LastIndSeq e) (rx_Sequence rx) = 0 \<or> 2048 \<le> seq_off (LastIndSeq e) (rx_Sequence rx)"
    | "2 \<le> seq_off (LastIndSeq e) (rx_Sequence rx)" "seq_off (LastIndSeq e) (rx_Sequence rx) \<le> win_of e"
    | "2 \<le> seq_off (LastIndSeq e) (rx_Sequence rx)" "win_of e < seq_off (LastIndSeq e) (rx_Sequence rx)"
      "seq_off (LastIndSeq e) (rx_Sequence rx) < 2048"
    by linarith
  then show ?thesis
  proof cases
    case 1
    then show ?thesis using step_in_order [OF assms(1) False assms(2,4)] by blast
  next
    case 2
    let ?e = "e\<lparr>nDropPacket := nDropPacket e + 1\<rparr>"
    have "ba_step_ok {#rx_pRxPacket rx#} e st ?e (log_event (FreeSkb (rx_pRxPacket rx)) st)"
      using assms(2) by (simp add: ba_step_ok_def skbs_cong [of ?e e] blocks_cong [of ?e e])
        (simp add: log_event_def)
    then show ?thesis using check_sequence_old [OF a False assms(4) 2] assms(1) False by simp
  next
    case 3
    then show ?thesis using step_queue [OF assms(1) False assms(2-4)] by blast
  next
    case 4
    then show ?thesis using step_beyond [OF assms(1) False assms(2-4)] by blast
  qed
qed

subsection \<open>Timeouts, reset and block-ack requests\<close>

lemma refresh_step:
  assumes "list_wf (reord e)" "list_wf (freelist st)" "rec_BAWinSize e \<noteq> 0"
  defines "r \<equiv> ba_refresh_reordering_mpdus e st"
  shows "ba_entry_wf (fst r)" "buffered (fst r) = []" "LastIndSeq (fst r) = RESET_RCV_SEQ"
    "rx_out (snd r) = rx_out st @ map release_event (buffered e)"
    "ba_step_ok {#} e st (fst r) (snd r)"
proof -
  have eq: "r = (e\<lparr>reord := set_chain (reord e) [], LastIndSeq := RESET_RCV_SEQ\<rparr>,
      release_all (buffered e) st)"
    by (simp add: r_def ba_refresh_reordering_mpdus_def ba_refresh_loop_run [OF assms(1)])
  have "mset (buffered e) = mset (buffered e) + mset (buffered (fst r))" by (simp add: eq)
  note rc = release_conserves [OF this, of st]
  show "ba_entry_wf (fst r)" "buffered (fst r) = []" "LastIndSeq (fst r) = RESET_RCV_SEQ"
    "rx_out (snd r) = rx_out st @ map release_event (buffered e)"
    using assms(3) by (simp_all add: eq ba_entry_wf_def rx_out_release_all)
  show "ba_step_ok {#} e st (fst r) (snd r)"
    using rc assms(2) by (simp add: eq ba_step_ok_def rx_out_release_all)
qed

text \<open>The flush of one gap: the missing frame is given up and what follows it is released.\<close>

lemma flush_one_step:
  fixes now :: ulong
  assumes "ba_entry_wf e" "LastIndSeq e \<noteq> RESET_RCV_SEQ" "list_wf (freelist st)"
  defines "t \<equiv> (LastIndSeq e + 1) AND MAXSEQ"
  defines "e1 \<equiv> (skip_to e t)\<lparr>LastIndSeqAtTimer := now, LastIndSeq := t\<rparr>"
  shows "(case ba_indicate_reordering_mpdus_le_seq e st t of
           Inl f \<Rightarrow> Inl f
         | Inr (e1, st1) \<Rightarrow>
           (case ba_indicate_reordering_mpdus_in_order
                (e1\<lparr>LastIndSeqAtTimer := now, LastIndSeq := t\<rparr>) st1 t of
              Inl f \<Rightarrow> Inl f
            | Inr (s, e2, st2) \<Rightarrow>
                Inr (if s \<noteq> RESET_RCV_SEQ then e2\<lparr>LastIndSeq := s\<rparr> else e2, st2))) =
      Inr (advance e1, release_all (advance_out e1) st)"
    "ba_entry_wf (advance e1)" "LastIndSeq (advance e1) \<noteq> RESET_RCV_SEQ"
    "ba_step_ok {#} e st (advance e1) (release_all (advance_out e1) st)"
proof -
  have a: "ba_active e" using assms(1,2) by (simp add: ba_entry_wf_active)
  have t: "seq_ok t" "seq_off (LastIndSeq e) t = 1"
    by (simp_all add: t_def seq_off_def q12_add)
  have none: "skip_out e t = []" "buffered (skip_to e t) = buffered e"
    using wf_gap [OF assms(1,2)] t(2) by (force simp: skip_out_def skip_to_def filter_empty_conv
        filter_id_conv)+
  have le: "ba_indicate_reordering_mpdus_le_seq e st t = Inr (skip_to e t, st)"
    using le_seq_eq(1) [OF a t(1)] t(2) none by simp
  have a1: "ba_active e1"
    using skip_to_active [OF a t(1)] t(2) by (simp add: e1_def ba_active_def)
  have l1: "LastIndSeq e1 = t" and w1: "rec_BAWinSize e1 = rec_BAWinSize e" and b1: "buffered e1 = buffered e"
    by (simp_all add: e1_def none) (simp add: skip_to_def)
  show "(case ba_indicate_reordering_mpdus_le_seq e st t of
           Inl f \<Rightarrow> Inl f
         | Inr (e1, st1) \<Rightarrow>
           (case ba_indicate_reordering_mpdus_in_order
                (e1\<lparr>LastIndSeqAtTimer := now, LastIndSeq := t\<rparr>) st1 t of
              Inl f \<Rightarrow> Inl f
            | Inr (s, e2, st2) \<Rightarrow>
                Inr (if s \<noteq> RESET_RCV_SEQ then e2\<lparr>LastIndSeq := s\<rparr> else e2, st2))) =
      Inr (advance e1, release_all (advance_out e1) st)"
    using advance_eq [OF a1, of st] by (simp only: le sum.case prod.case e1_def [symmetric] l1)
  show "ba_entry_wf (advance e1)" "LastIndSeq (advance e1) \<noteq> RESET_RCV_SEQ"
    using advance_wf [OF a1] by simp_all
  note adv = advance_delivers [OF a1, unfolded l1 w1]
  have lt: "seq_off (LastIndSeq e) t + seq_off t (LastIndSeq (advance e1)) < 4096"
    using adv(2) win_of_less [of e] t(2) by simp
  have "delivers (LastIndSeq e) 0 (seq_off (LastIndSeq e) (LastIndSeq (advance e1)))
      (map mpdu_Sequence (advance_out e1))"
    using delivers_append [OF delivers_Nil delivers_base [OF adv(1) lt], of 0]
    by (simp add: seq_off_trans [OF lt])
  moreover have "mset (buffered e) = mset (advance_out e1) + mset (buffered (advance e1))"
    using advance_split [of e1] b1 by simp
  ultimately show "ba_step_ok {#} e st (advance e1) (release_all (advance_out e1) st)"
    using release_conserves [of e "advance_out e1" "advance e1" st] assms(3) w1
    by (simp add: ba_step_ok_def rx_out_release_all)
qed

lemma release_cannot_queue: "\<not> cannot_queue st rx \<Longrightarrow> \<not> cannot_queue (release_all ms st) rx"
  by (auto simp: cannot_queue_def release_all_def)

lemma refresh_cannot_queue:
  "list_wf (reord e) \<Longrightarrow> \<not> cannot_queue st rx \<Longrightarrow>
   \<not> cannot_queue (snd (ba_refresh_reordering_mpdus e st)) rx"
  by (simp add: ba_refresh_reordering_mpdus_def ba_refresh_loop_run release_cannot_queue)

lemma ba_step_ok_timer [simp]:
  "ba_step_ok new e st (e'\<lparr>LastIndSeqAtTimer := t\<rparr>) st' = ba_step_ok new e st e' st'"
  by (simp add: ba_step_ok_def skbs_def blocks_def)

lemma wf_buffered_active: "ba_entry_wf e \<Longrightarrow> buffered e \<noteq> [] \<Longrightarrow> LastIndSeq e \<noteq> RESET_RCV_SEQ"
  by (auto simp: ba_entry_wf_def)

lemma ba_entry_wfD:
  "ba_entry_wf e \<Longrightarrow> list_wf (reord e)" "ba_entry_wf e \<Longrightarrow> rec_BAWinSize e \<noteq> 0"
  "ba_entry_wf e \<Longrightarrow> qlen (reord e) = int (length (buffered e))"
  by (simp_all add: ba_entry_wf_def list_wf_def)

text \<open>The three outcomes of the timeout check.\<close>

lemma flush_cases:
  assumes "ba_entry_wf e" "list_wf (freelist st)"
  obtains (idle) "ba_flush_reordering_timeout_mpdus hz e st now = Inr (e, st)"
      "buffered e = [] \<or> \<not> RTMP_TIME_AFTER now (LastIndSeqAtTimer e + REORDERING_PACKET_TIMEOUT hz)"
  | (all) "ba_flush_reordering_timeout_mpdus hz e st now =
        Inr ((fst (ba_refresh_reordering_mpdus e st))\<lparr>LastIndSeqAtTimer := now\<rparr>,
             snd (ba_refresh_reordering_mpdus e st))"
  | (one) e1 where "buffered e \<noteq> []"
      "e1 = (skip_to e ((LastIndSeq e + 1) AND MAXSEQ))\<lparr>LastIndSeqAtTimer := now,
              LastIndSeq := (LastIndSeq e + 1) AND MAXSEQ\<rparr>"
      "ba_flush_reordering_timeout_mpdus hz e st now =
        Inr (advance e1, release_all (advance_out e1) st)"
proof -
  note q = ba_entry_wfD(3) [OF assms(1)]
  let ?late = "RTMP_TIME_AFTER now (LastIndSeqAtTimer e + MAX_REORDERING_PACKET_TIMEOUT hz div 6) \<and>
    1 < qlen (reord e)"
  let ?some = "RTMP_TIME_AFTER now (LastIndSeqAtTimer e + REORDERING_PACKET_TIMEOUT hz)"
  show thesis
  proof (cases "buffered e = []")
    case True
    then show thesis using q by (intro idle) (simp_all add: ba_flush_reordering_timeout_mpdus_def)
  next
    case ne: False
    then have q0: "\<not> qlen (reord e) \<le> 0" using q by simp
    show thesis
    proof (cases ?late)
      case True
      then show thesis
        using q0 by (intro all) (simp add: ba_flush_reordering_timeout_mpdus_def case_prod_unfold Let_def)
    next
      case nlate: False
      show thesis
      proof (cases ?some)
        case False
        then show thesis using nlate q0
          by (intro idle) (simp_all only: ba_flush_reordering_timeout_mpdus_def if_False simp_thms)
      next
        case True
        have pos: "0 < qlen (reord e)" using q0 by simp
        show thesis
          using flush_one_step(1) [OF assms(1) wf_buffered_active [OF assms(1) ne] assms(2), of now]
          by (intro one [OF ne refl]) (simp only: ba_flush_reordering_timeout_mpdus_def Let_def
            nlate True q0 pos if_True if_False simp_thms)
      qed
    qed
  qed
qed

lemma flush_step:
  assumes "ba_entry_wf e" "list_wf (freelist st)"
  shows "\<exists>e' st'. ba_flush_reordering_timeout_mpdus hz e st now = Inr (e', st') \<and> ba_entry_wf e' \<and>
    ba_step_ok {#} e st e' st' \<and> (\<not> cannot_queue st rx \<longrightarrow> \<not> cannot_queue st' rx)"
  using assms
proof (cases rule: flush_cases [of e st hz now])
  case idle
  have "ba_step_ok {#} e st e st" using assms(2) by (simp add: ba_step_ok_def)
  then show ?thesis using idle assms(1) by simp
next
  case all
  then show ?thesis
    using refresh_step [OF ba_entry_wfD(1) [OF assms(1)] assms(2) ba_entry_wfD(2) [OF assms(1)]]
      refresh_cannot_queue [OF ba_entry_wfD(1) [OF assms(1)]] by simp
next
  case (one e1)
  then show ?thesis
    using flush_one_step(2,4) [OF assms(1) wf_buffered_active [OF assms(1) one(1)] assms(2), of now]
      release_cannot_queue by auto
qed

lemma ba_step_ok_trans_skbs:
  assumes "ba_step_ok a e st e1 st1" "ba_step_ok b e1 st1 e2 st2"
  shows "skbs e2 st2 = b + a + skbs e st" "blocks e2 st2 = blocks e st" "list_wf (freelist st2)"
  using assms by (simp_all add: ba_step_ok_def)

lemma receive_step:
  assumes "ba_entry_wf e" "list_wf (freelist st)" "\<not> cannot_queue st rx" "seq_ok (rx_Sequence rx)"
  shows "\<exists>e' st'. ba_receive hz e st rx now = Inr (e', st') \<and> ba_entry_wf e' \<and>
    list_wf (freelist st') \<and> skbs e' st' = add_mset (rx_pRxPacket rx) (skbs e st) \<and>
    blocks e' st' = blocks e st"
proof -
  let ?e = "e\<lparr>rcvSeq := ucast (rx_Sequence rx)\<rparr>"
  have wf: "ba_entry_wf ?e" using assms(1) by simp
  obtain e1 st1 where f: "ba_flush_reordering_timeout_mpdus hz ?e st now = Inr (e1, st1)"
    "ba_entry_wf e1" "ba_step_ok {#} ?e st e1 st1" "\<not> cannot_queue st1 rx"
    using flush_step [OF wf assms(2), of hz now rx] assms(3) by blast
  let ?e1 = "e1\<lparr>LastIndSeqAtTimer := now\<rparr>"
  have "list_wf (freelist st1)" using f(3) by (simp add: ba_step_ok_def)
  then obtain e2 st2 where c: "ba_check_sequence ?e1 st1 rx now = Inr (e2, st2)" "ba_entry_wf e2"
    "ba_step_ok {#rx_pRxPacket rx#} ?e1 st1 e2 st2"
    using check_sequence_step [of ?e1 st1 rx now] f(2,4) assms(4) by auto
  have "ba_step_ok {#} ?e st ?e1 st1" using f(3) by simp
  note tr = ba_step_ok_trans_skbs [OF this c(3)]
  show ?thesis
    using f(1) c(1,2) tr by (simp add: ba_receive_def skbs_cong [of ?e e] blocks_cong [of ?e e])
qed

lemma bar_prev:
  assumes "seq_ok t"
  defines "p \<equiv> if t = 0 then MAXSEQ else t - 1"
  shows "q12 p = q12 t - 1" "seq_ok p"
proof -
  have "q12 MAXSEQ = - 1" by (simp add: q12_def MAXSEQ_def)
  then show "q12 p = q12 t - 1" by (simp add: p_def q12_diff)
  show "seq_ok p"
    using assms(1) by (auto simp: p_def seq_ok_unat MAXSEQ_def unat_minus_one)
qed

lemma bar_off:
  assumes "SEQ_SMALLER l t MAXSEQ"
  shows "1 \<le> seq_off l t" "seq_off l t \<le> 2048"
  using assms seq_off_diff [of t l l] by (auto simp: SEQ_SMALLER_off split: if_splits)

lemma bar_eq:
  assumes "ba_active e" "seq_ok t" "SEQ_SMALLER (LastIndSeq e) t MAXSEQ"
  defines "p \<equiv> if t = 0 then MAXSEQ else t - 1"
  shows "ba_handle_bar e st t =
    Inr ((skip_to e t)\<lparr>LastIndSeq := p\<rparr>, release_all (skip_out e t) st)"
    "ba_entry_wf ((skip_to e t)\<lparr>LastIndSeq := p\<rparr>)"
proof -
  let ?l = "LastIndSeq e" and ?e' = "(skip_to e t)\<lparr>LastIndSeq := p\<rparr>"
  note o = bar_off [OF assms(3)]
  note p = bar_prev [OF assms(2), folded p_def]
  show "ba_handle_bar e st t = Inr (?e', release_all (skip_out e t) st)"
    using assms(3) le_seq_eq(1) [OF assms(1,2) o] by (simp add: ba_handle_bar_def p_def)
  have "seq_off p t = 1" by (simp add: seq_off_def p(1))
  then have lp: "seq_off ?l p = seq_off ?l t - 1"
    using seq_off_diff [of p t ?l] o seq_off_less [of ?l p] by (auto split: if_splits)
  have w: "ba_window ?l (win_of e) (buffered (skip_to e t))"
    using assms(1) by (simp add: ba_active_def ba_window_def skip_to_def sorted_wrt_filter)
  have gt: "seq_off ?l t < moff ?l m" if "m \<in> set (buffered (skip_to e t))" for m
    using that by (simp add: skip_to_def)
  have "ba_window p (win_of e) (buffered (skip_to e t))"
  proof (rule ba_window_mono [OF ba_window_shift [OF w]])
    show "\<forall>m\<in>set (buffered (skip_to e t)). seq_off ?l p < moff ?l m" using gt lp by fastforce
  qed simp
  moreover have "2 \<le> moff p m" if "m \<in> set (buffered (skip_to e t))" for m
    using gt [OF that] lp o(1) seq_off_shift [of ?l p "mpdu_Sequence m"] by simp
  ultimately show "ba_entry_wf ?e'"
    using assms(1) p(2) by (intro active_gap) (simp_all add: ba_active_def skip_to_def)
qed

subsection \<open>Repeated timeouts\<close>

text \<open>The timeout check at each of the times \<open>nows\<close>, as the periodic \<^verbatim>\<open>BaReOrderingBufferMaintain\<close>
  makes it.\<close>

fun flush_run :: "nat \<Rightarrow> ba_rec_entry \<Rightarrow> rx_state \<Rightarrow> ulong list \<Rightarrow> c_fault + ba_rec_entry \<times> rx_state" where
  "flush_run hz e st [] = Inr (e, st)"
| "flush_run hz e st (now # nows) =
     (case ba_flush_reordering_timeout_mpdus hz e st now of
        Inl f \<Rightarrow> Inl f
      | Inr (e1, st1) \<Rightarrow> flush_run hz e1 st1 nows)"

fun late_run :: "nat \<Rightarrow> ulong \<Rightarrow> ulong list \<Rightarrow> bool" where
  "late_run hz t [] = True"
| "late_run hz t (now # nows) =
     (RTMP_TIME_AFTER now (t + REORDERING_PACKET_TIMEOUT hz) \<and> late_run hz now nows)"

text \<open>How far the last buffered frame is ahead.\<close>

definition reach :: "ba_rec_entry \<Rightarrow> nat" where
  "reach e = (if buffered e = [] then 0 else moff (LastIndSeq e) (last (buffered e)))"

lemma reach_le: "ba_entry_wf e \<Longrightarrow> reach e \<le> win_of e"
  by (cases "LastIndSeq e = RESET_RCV_SEQ") (auto simp: reach_def ba_entry_wf_def ba_window_def)

lemma reach_0: "ba_entry_wf e \<Longrightarrow> reach e = 0 \<Longrightarrow> buffered e = []"
  using wf_gap [of e "last (buffered e)"] wf_buffered_active [of e]
  by (fastforce simp: reach_def split: if_splits)

lemma flush_late_reach:
  assumes "ba_entry_wf e" "list_wf (freelist st)"
    "RTMP_TIME_AFTER now (LastIndSeqAtTimer e + REORDERING_PACKET_TIMEOUT hz)"
  shows "\<exists>e' st'. ba_flush_reordering_timeout_mpdus hz e st now = Inr (e', st') \<and> ba_entry_wf e' \<and>
    list_wf (freelist st') \<and> (buffered e' = [] \<or> (reach e' < reach e \<and> LastIndSeqAtTimer e' = now))"
  using assms(1,2)
proof (cases rule: flush_cases [of e st hz now])
  case idle
  then show ?thesis using assms by auto
next
  case all
  then show ?thesis
    using refresh_step [OF ba_entry_wfD(1) [OF assms(1)] assms(2) ba_entry_wfD(2) [OF assms(1)]]
    by (simp add: ba_step_ok_def)
next
  case (one e1)
  let ?l = "LastIndSeq e" and ?t = "(LastIndSeq e + 1) AND MAXSEQ"
  have nr: "?l \<noteq> RESET_RCV_SEQ" by (rule wf_buffered_active [OF assms(1) one(1)])
  have a: "ba_active e" using assms(1) nr by (simp add: ba_entry_wf_active)
  have t: "seq_ok ?t" "seq_off ?l ?t = 1" by (simp_all add: seq_off_def q12_add)
  have b1: "buffered e1 = buffered e"
    using wf_gap [OF assms(1) nr] t(2) one(2) by (force simp: skip_to_def filter_id_conv)
  have a1: "ba_active e1"
    using skip_to_active [OF a t(1)] t(2) one(2) by (simp add: ba_active_def)
  have l1: "LastIndSeq e1 = ?t" using one(2) by simp
  have w1: "ba_window ?t (win_of e1) (buffered e1)" using a1 l1 by (simp add: ba_active_def)
  note la = last_after_window [OF w1 win_of_less t(1)]
  have "reach (advance e1) < reach e" if ne: "buffered (advance e1) \<noteq> []"
  proof -
    let ?n = "in_order_count ?t (buffered e1)" and ?l' = "last_after ?t (buffered e1)"
    have lst: "last (buffered (advance e1)) = last (buffered e)"
      using ne by (simp add: advance_def Let_def l1 b1)
    let ?m = "last (buffered e)"
    have mem: "?m \<in> set (buffered e)" using one(1) by simp
    have memd: "?m \<in> set (drop ?n (buffered e1))"
    proof -
      have "buffered (advance e1) = drop ?n (buffered e1)" by (simp add: advance_def Let_def l1)
      then show ?thesis using last_in_set [OF ne] lst by metis
    qed
    have m1: "moff ?l ?m = 1 + moff ?t ?m"
      using seq_off_shift [of ?l ?t "mpdu_Sequence ?m"] t(2) wf_gap [OF assms(1) nr mem] by simp
    have lt: "seq_off ?t ?l' + moff ?l' ?m < 4096"
      using la(1,2) ba_window_length [OF w1] la(3) memd win_of_less [of e1] by (auto simp: ba_window_def)
    have "moff ?t ?m = seq_off ?t ?l' + moff ?l' ?m" using lt by (rule seq_off_trans)
    moreover have "LastIndSeq (advance e1) = ?l'" by (simp add: advance_def Let_def l1)
    ultimately show ?thesis using m1 lst ne one(1) by (simp add: reach_def)
  qed
  moreover have "LastIndSeqAtTimer (advance e1) = now" by (simp add: advance_def Let_def one(2))
  moreover have "list_wf (freelist (release_all (advance_out e1) st))" using assms(2) by simp
  ultimately show ?thesis
    using one(3) flush_one_step(2) [OF assms(1) nr assms(2), of now, folded one(2)] by blast
qed

lemma flush_run_empty:
  "ba_entry_wf e \<Longrightarrow> list_wf (freelist st) \<Longrightarrow> buffered e = [] \<Longrightarrow> flush_run hz e st nows = Inr (e, st)"
  using ba_entry_wfD(3) [of e]
  by (induction nows) (simp_all add: ba_flush_reordering_timeout_mpdus_def)

lemma flush_run_drains:
  "ba_entry_wf e \<Longrightarrow> list_wf (freelist st) \<Longrightarrow> late_run hz (LastIndSeqAtTimer e) nows \<Longrightarrow>
   reach e \<le> length nows \<Longrightarrow>
   \<exists>e' st'. flush_run hz e st nows = Inr (e', st') \<and> ba_entry_wf e' \<and> buffered e' = []"
proof (induction nows arbitrary: e st)
  case Nil
  then show ?case using reach_0 by simp
next
  case (Cons now nows)
  obtain e1 st1 where f: "ba_flush_reordering_timeout_mpdus hz e st now = Inr (e1, st1)"
    "ba_entry_wf e1" "list_wf (freelist st1)"
    "buffered e1 = [] \<or> (reach e1 < reach e \<and> LastIndSeqAtTimer e1 = now)"
    using flush_late_reach [OF Cons.prems(1,2), of now hz] Cons.prems(3) by auto
  show ?case
  proof (cases "buffered e1 = []")
    case True
    then show ?thesis using f flush_run_empty by auto
  next
    case False
    then show ?thesis using f Cons.IH [OF f(2,3)] Cons.prems(3,4) by auto
  qed
qed

subsection \<open>Properties\<close>

text \<open>A session with window 8 that has indicated frame 4094 and buffers frames 0 and 2, and a pool of two blocks.\<close>

definition sample_mpdu :: "nat \<Rightarrow> u16 \<Rightarrow> reordering_mpdu" where
  "sample_mpdu a s = \<lparr>mpdu_addr = a, mpdu_pPacket = a + 100, mpdu_Sequence = s,
     mpdu_bAMSDU = False, mpdu_OpMode = 0\<rparr>"

definition sample_entry :: ba_rec_entry where
  "sample_entry = \<lparr>rec_Wcid = 1, rec_TID = 0, rec_BAWinSize = 8, LastIndSeq = 4094,
     rec_TimeOutValue = 0, LastIndSeqAtTimer = 0, nDropPacket = 0, rcvSeq = 0,
     REC_BA_Status = Recipient_Accept,
     reord = \<lparr>chain = [sample_mpdu 1 0, sample_mpdu 2 2], qlen = 2\<rparr>\<rparr>"

definition sample_state :: rx_state where
  "sample_state = \<lparr>freelist = \<lparr>chain = [3, 4], qlen = 2\<rparr>, rx_out = []\<rparr>"

definition sample_rx :: "bool \<Rightarrow> u16 \<Rightarrow> rx_blk" where
  "sample_rx eap s = \<lparr>rx_wcid = 1, rx_TID = 0, rx_Sequence = s, rx_DataSize = 100, rx_AMSDU = False,
     rx_EAP = eap, rx_OpMode = 0, rx_pRxPacket = 50\<rparr>"

lemma sample_off: "seq_off 4094 0 = 2" "seq_off 4094 2 = 4" "seq_off 4094 1 = 3"
  by (simp_all add: seq_off_def q12_def)

lemma sample_ok:
  "ba_entry_wf sample_entry" "list_wf (freelist sample_state)" "chain (freelist sample_state) = [3, 4]"
  "LastIndSeq sample_entry = 4094" "4094 \<noteq> RESET_RCV_SEQ" "\<not> rx_EAP (sample_rx False s)"
  "rx_EAP (sample_rx True s)" "rx_Sequence (sample_rx eap s) = s"
  "buffered sample_entry = [sample_mpdu 1 0, sample_mpdu 2 2]" "rec_BAWinSize sample_entry = 8"
  "mpdu_Sequence (sample_mpdu a s) = s" "LastIndSeqAtTimer sample_entry = 0"
  by (simp_all add: ba_entry_wf_def sample_entry_def list_wf_def sample_state_def sample_rx_def
      RESET_RCV_SEQ_def seq_ok_unat ba_window_def sample_mpdu_def sample_off SEQ_STEPONE_def MAXSEQ_def)

text \<open>C7: receiving a frame keeps the reordering buffer of a session sound. Whatever the sequence
  number and the time, \<^verbatim>\<open>Indicate_AMPDU_Packet\<close> stays inside its data and leaves a buffer sorted
  without duplicates inside the window ahead of \<^verbatim>\<open>LastIndSeq\<close>, holding at most \<^verbatim>\<open>BAWinSize\<close> frames
  (the assertion in \<^verbatim>\<open>ba_enqueue_reordering_packet\<close>), with no frame buffered that is next in order.
  The frame is not EAPOL and the pool has a block: without these a frame next in order can stay behind
  (\<open>ba_eapol_frame_leaks_block\<close>).\<close>

theorem ba_receive_keeps_window:
  assumes "ba_entry_wf e" "list_wf (freelist st)" "chain (freelist st) \<noteq> []" "\<not> rx_EAP rx"
    "unat (rx_Sequence rx) < 4096"
  shows "\<exists>e' st'. ba_receive hz e st rx now = Inr (e', st') \<and> ba_entry_wf e' \<and>
    qlen (reord e') = int (length (buffered e')) \<and>
    length (buffered e') \<le> unat (rec_BAWinSize e')"
proof -
  have "\<not> cannot_queue st rx" using assms(3,4) by (simp add: cannot_queue_def)
  then obtain e' st' where r: "ba_receive hz e st rx now = Inr (e', st')" "ba_entry_wf e'"
    using receive_step [OF assms(1,2), of rx hz now] assms(5) by (auto simp: seq_ok_unat)
  have "length (buffered e') \<le> win_of e'"
    using r(2) ba_window_length by (cases "LastIndSeq e' = RESET_RCV_SEQ") (auto simp: ba_entry_wf_def)
  then show ?thesis using r ba_entry_wfD(3) [OF r(2)] by blast
qed

lemma ba_receive_keeps_window_witness:
  "\<exists>e' st'. ba_receive 100 sample_entry sample_state (sample_rx False 1) 5 = Inr (e', st') \<and>
    ba_entry_wf e' \<and> qlen (reord e') = int (length (buffered e')) \<and>
    length (buffered e') \<le> unat (rec_BAWinSize e')"
  by (rule ba_receive_keeps_window) (simp_all add: sample_ok)





text \<open>C10: an EAPOL frame inside the window leaks the block that was allocated for it, and can leave
  the session stuck: a buffered frame that has become the next in order is not delivered.\<close>

theorem ba_eapol_frame_leaks_block:
  assumes "ba_entry_wf e" "LastIndSeq e \<noteq> RESET_RCV_SEQ" "list_wf (freelist st)"
    "chain (freelist st) = b # bs" "rx_EAP rx" "unat (rx_Sequence rx) < 4096"
    "2 \<le> seq_off (LastIndSeq e) (rx_Sequence rx)"
    "seq_off (LastIndSeq e) (rx_Sequence rx) \<le> unat (rec_BAWinSize e)"
    "m \<in> set (buffered e)"
    "seq_off (LastIndSeq e) (mpdu_Sequence m) = seq_off (LastIndSeq e) (rx_Sequence rx) + 1"
  shows "\<exists>e' st'. ba_check_sequence e st rx now = Inr (e', st') \<and>
    add_mset b (mset (chain (freelist st')) + mset (map mpdu_addr (buffered e'))) =
      mset (chain (freelist st)) + mset (map mpdu_addr (buffered e)) \<and>
    m \<in> set (buffered e') \<and> SEQ_STEPONE (mpdu_Sequence m) (LastIndSeq e') MAXSEQ"
proof -
  let ?s = "rx_Sequence rx"
  let ?e' = "(skip_to e ?s)\<lparr>LastIndSeq := ?s\<rparr>"
  let ?st' = "INDICATE_LEGACY_OR_AMSDU (release_all (skip_out e ?s) (take_block st)) rx"
  have a: "ba_active e" using assms(1,2) by (simp add: ba_entry_wf_active)
  have ok: "seq_ok ?s" using assms(6) by (simp add: seq_ok_unat)
  have o: "1 \<le> seq_off (LastIndSeq e) ?s" "seq_off (LastIndSeq e) ?s \<le> 2048"
    using assms(7,8) win_of_less [of e] by simp_all
  have "cannot_queue st rx" using assms(5) by (simp add: cannot_queue_def)
  then have r: "ba_check_sequence e st rx now = Inr (?e', ?st')"
    using check_sequence_queue [OF a assms(2) ok assms(7,8)]
      enqueue_packet_fallback [OF a assms(3) _ ok o] by simp
  have "blocks ?e' ?st' = blocks e (take_block st)"
    using release_conserves(2) [of e "skip_out e ?s" ?e' "take_block st"] skip_split [of e ?s] by simp
  then have leak: "add_mset b (blocks ?e' ?st') = blocks e st"
    using assms(4) by (simp add: blocks_def take_block_def)
  have m: "m \<in> set (buffered ?e')" using assms(9,10) by (simp add: skip_to_def)
  have "seq_ok (mpdu_Sequence m)" using a assms(9) by (auto simp: ba_active_def ba_window_def)
  then have "SEQ_STEPONE (mpdu_Sequence m) ?s MAXSEQ"
    using seq_off_shift [of "LastIndSeq e" ?s "mpdu_Sequence m"] assms(10) by (simp add: SEQ_STEPONE_off)
  then show ?thesis using r leak m by (auto simp: blocks_def)
qed

lemma ba_eapol_frame_leaks_block_witness:
  "\<exists>e' st'. ba_check_sequence sample_entry sample_state (sample_rx True 1) 5 = Inr (e', st') \<and>
    add_mset 3 (mset (chain (freelist st')) + mset (map mpdu_addr (buffered e'))) =
      mset (chain (freelist sample_state)) + mset (map mpdu_addr (buffered sample_entry)) \<and>
    sample_mpdu 2 2 \<in> set (buffered e') \<and>
    SEQ_STEPONE (mpdu_Sequence (sample_mpdu 2 2)) (LastIndSeq e') MAXSEQ"
  by (rule ba_eapol_frame_leaks_block [where bs = "[4]"]) (simp_all add: sample_ok sample_off)

text \<open>A block-ack request whose starting sequence number is buffered makes the driver deliver
  that frame twice when the originator then retransmits it: \<^verbatim>\<open>CntlEnqueueForRecv\<close> releases the
  frame but sets \<^verbatim>\<open>LastIndSeq\<close> to the number before it.\<close>

theorem bar_start_frame_delivered_twice:
  assumes "ba_entry_wf e" "LastIndSeq e \<noteq> RESET_RCV_SEQ" "m \<in> set (buffered e)"
    "rx_Sequence rx = mpdu_Sequence m"
  shows "\<exists>e1 st1 e2 st2 evs. ba_handle_bar e st (mpdu_Sequence m) = Inr (e1, st1) \<and>
    ba_check_sequence e1 st1 rx now = Inr (e2, st2) \<and> rx_out st2 = rx_out st @ evs \<and>
    2 \<le> count_list (delivered evs) (mpdu_Sequence m)"
proof -
  let ?t = "mpdu_Sequence m" and ?l = "LastIndSeq e"
  have a: "ba_active e" using assms(1,2) by (simp add: ba_entry_wf_active)
  have t: "seq_ok ?t" "1 \<le> seq_off ?l ?t" "seq_off ?l ?t \<le> win_of e"
    using a assms(3) by (auto simp: ba_active_def ba_window_def)
  have sm: "SEQ_SMALLER ?l ?t MAXSEQ"
    using seq_off_diff [of ?t ?l ?l] t(2,3) win_of_less [of e] by (auto simp: SEQ_SMALLER_off)
  define p where "p = (if ?t = 0 then MAXSEQ else ?t - 1)"
  let ?e1 = "(skip_to e ?t)\<lparr>LastIndSeq := p\<rparr>" and ?st1 = "release_all (skip_out e ?t) st"
  note bar = bar_eq [OF a t(1) sm, folded p_def]
  note p = bar_prev [OF t(1), folded p_def]
  have off: "seq_off (LastIndSeq ?e1) (rx_Sequence rx) = 1"
    using p(1) assms(4) by (simp add: seq_off_def)
  have nr: "LastIndSeq ?e1 \<noteq> RESET_RCV_SEQ" using p(2) seq_ok_not_RESET by simp
  have okr: "seq_ok (rx_Sequence rx)" using t(1) assms(4) by simp
  let ?e1' = "?e1\<lparr>LastIndSeq := rx_Sequence rx\<rparr>"
  let ?evs = "map release_event (skip_out e ?t) @
      Indicate (if rx_AMSDU rx then Indicate_AMSDU else if rx_EAP rx then Indicate_EAPOL
                else Indicate_Legacy) (rx_pRxPacket rx) (rx_Sequence rx) #
      map release_event (advance_out ?e1')"
  have "?t \<in> set (map mpdu_Sequence (skip_out e ?t))" using assms(3) by (simp add: skip_out_def)
  then have "1 \<le> count_list (map mpdu_Sequence (skip_out e ?t)) ?t"
    by (metis Suc_le_eq One_nat_def count_list_0_iff neq0_conv)
  then have "2 \<le> count_list (delivered ?evs) ?t" using assms(4) by simp
  then show ?thesis
    using bar(1) [of st] check_sequence_in_order [OF bar(2) nr okr off, of ?st1 now]
    by (intro exI conjI) (assumption | rule refl | simp add: rx_out_release_all)+
qed

lemma bar_start_frame_delivered_twice_witness:
  "\<exists>e1 st1 e2 st2 evs.
    ba_handle_bar sample_entry sample_state (mpdu_Sequence (sample_mpdu 1 0)) = Inr (e1, st1) \<and>
    ba_check_sequence e1 st1 (sample_rx False 0) 5 = Inr (e2, st2) \<and>
    rx_out st2 = rx_out sample_state @ evs \<and>
    2 \<le> count_list (delivered evs) (mpdu_Sequence (sample_mpdu 1 0))"
  by (rule bar_start_frame_delivered_twice) (simp_all add: sample_ok)

text \<open>C9: buffered frames do not wait for ever. When the missing frame never comes, checks that find
  the reordering timeout expired empty the buffer after at most \<^verbatim>\<open>BAWinSize\<close> of them.\<close>

theorem ba_timeouts_drain_buffer:
  assumes "ba_entry_wf e" "list_wf (freelist st)" "late_run hz (LastIndSeqAtTimer e) nows"
    "unat (rec_BAWinSize e) \<le> length nows"
  shows "\<exists>e' st'. flush_run hz e st nows = Inr (e', st') \<and> buffered e' = []"
  using flush_run_drains [OF assms(1-3)] reach_le [OF assms(1)] assms(4) by fastforce

lemma ba_timeouts_drain_buffer_witness:
  "\<exists>e' st'. flush_run 100 sample_entry sample_state [100, 200, 300, 400, 500, 600, 700, 800] =
     Inr (e', st') \<and> buffered e' = []"
  by (rule ba_timeouts_drain_buffer)
    (simp_all add: sample_ok RTMP_TIME_AFTER_def REORDERING_PACKET_TIMEOUT_def)

end
