(* ===== verification/BaSession.thy ===== *)
theory BaSession
  imports BaReorderProps
begin

text \<open>
  Block-ack sessions, \<^verbatim>\<open>common/ba_action.c\<close>: the two tables of session entries (recipient and
  originator), the index arrays of the peers that point into them, set-up, tear-down and timeouts of a
  session, and the handlers of the ADDBA and DELBA action frames. The checks on the frames
  (\<^verbatim>\<open>common/cmm_sanity.c\<close>) come in as fields of the parsed frame.

  Entry 0 of each table is reserved: an index of 0 in a peer's array means no session. A pointer to an
  entry is its index; an index outside an array is a fault. Frames sent, timers and the hardware's
  session mask are entries of a log.
\<close>

subsection \<open>Data\<close>

definition MAX_LEN_OF_MAC_TABLE :: nat where "MAX_LEN_OF_MAC_TABLE = 116"
definition NUM_OF_TID :: nat where "NUM_OF_TID = 8"
definition MAX_LEN_OF_BA_TABLE :: nat where
  "MAX_LEN_OF_BA_TABLE = NUM_OF_TID * MAX_LEN_OF_MAC_TABLE div 2"

datatype ori_status = Originator_NONE | Originator_USED | Originator_WaitRes | Originator_Done

record ba_ori_entry =
  ori_Wcid :: u8
  ori_TID :: u8
  ori_BAWinSize :: u8
  ori_Token :: u8
  ori_amsdu_cap :: bool
  ori_Sequence :: u16
  ori_TimeOutValue :: u16
  ORI_BA_Status :: ori_status

text \<open>The fields of \<^verbatim>\<open>MAC_TABLE_ENTRY\<close> that the sessions use.\<close>

record ba_peer =
  peer_wcid :: u8
  TXBAbitmap :: u16
  RXBAbitmap :: u16
  BADeclineBitmap :: u16
  BARecWcidArray :: "u16 list"
  BAOriWcidArray :: "u16 list"
  TxSeq :: "u16 list"
  MaxRAmpduFactor :: u8
  is_ralink :: bool
  mode_htmix_or_gf :: bool
  MCSSet2 :: u8
  fixed_tx_ht :: bool
  is_ht_sta :: bool
  is_vht_sta :: bool
  entry_none :: bool

datatype ba_event =
    InitTimer bool nat | CancelTimer bool nat | SetTimer bool nat ulong
  | QueueAddbaReq u8 u8 u8 u8
  | SendAddbaRsp u8 u16 u8 u16 bool
  | SendBar u8 u8 u16
  | SendDelba u8 u8 bool
  | AsicAddSession u8 u8 | AsicDelSession u8 u8

record ba_adapter =
  peers :: "ba_peer list"
  BARecEntry :: "ba_rec_entry list"
  BAOriEntry :: "ba_ori_entry list"
  numAsRecipient :: ulong
  numAsOriginator :: ulong
  numDoneOriginator :: ulong
  ba_rx :: rx_state
  AutoBA :: bool
  bBADecline :: bool
  TxBAWinLimit :: u8
  RxBAWinLimit :: u8
  is_mt76x2u :: bool
  TxPath :: u8
  ba_log :: "ba_event list"

abbreviation peer :: "ba_adapter \<Rightarrow> nat \<Rightarrow> ba_peer" where "peer ad w \<equiv> peers ad ! w"
abbreviation rec_entry :: "ba_adapter \<Rightarrow> nat \<Rightarrow> ba_rec_entry" where "rec_entry ad i \<equiv> BARecEntry ad ! i"
abbreviation ori_entry :: "ba_adapter \<Rightarrow> nat \<Rightarrow> ba_ori_entry" where "ori_entry ad i \<equiv> BAOriEntry ad ! i"

definition upd_peer :: "nat \<Rightarrow> (ba_peer \<Rightarrow> ba_peer) \<Rightarrow> ba_adapter \<Rightarrow> ba_adapter" where
  "upd_peer w f ad = ad\<lparr>peers := (peers ad)[w := f (peers ad ! w)]\<rparr>"

definition upd_rec :: "nat \<Rightarrow> (ba_rec_entry \<Rightarrow> ba_rec_entry) \<Rightarrow> ba_adapter \<Rightarrow> ba_adapter" where
  "upd_rec i f ad = ad\<lparr>BARecEntry := (BARecEntry ad)[i := f (BARecEntry ad ! i)]\<rparr>"

definition upd_ori :: "nat \<Rightarrow> (ba_ori_entry \<Rightarrow> ba_ori_entry) \<Rightarrow> ba_adapter \<Rightarrow> ba_adapter" where
  "upd_ori i f ad = ad\<lparr>BAOriEntry := (BAOriEntry ad)[i := f (BAOriEntry ad ! i)]\<rparr>"

definition ba_emit :: "ba_event \<Rightarrow> ba_adapter \<Rightarrow> ba_adapter" where
  "ba_emit ev ad = ad\<lparr>ba_log := ba_log ad @ [ev]\<rparr>"

definition rec_index :: "ba_peer \<Rightarrow> nat \<Rightarrow> nat" where
  "rec_index p t = unat (BARecWcidArray p ! t)"

definition ori_index :: "ba_peer \<Rightarrow> nat \<Rightarrow> nat" where
  "ori_index p t = unat (BAOriWcidArray p ! t)"

text \<open>Bit \<open>t\<close> of a bitmap, \<^verbatim>\<open>1 << TID\<close>.\<close>

definition tid_bit :: "nat \<Rightarrow> u16" where
  "tid_bit t = push_bit t 1"

subsection \<open>The tables\<close>

definition BATableInit :: "ba_adapter \<Rightarrow> ba_adapter" where
  "BATableInit ad =
     ad\<lparr>numAsOriginator := 0, numAsRecipient := 0, numDoneOriginator := 0,
        BARecEntry := map (\<lambda>e. e\<lparr>REC_BA_Status := Recipient_NONE\<rparr>) (BARecEntry ad),
        BAOriEntry := map (\<lambda>e. e\<lparr>ORI_BA_Status := Originator_NONE\<rparr>) (BAOriEntry ad)\<rparr>"

text \<open>
  The result is the entry returned (if any), the index stored (if any), and the adapter. When the
  count admits a session but no entry is free, the loop leaves its last entry in the result and stores
  no index.
\<close>

definition BATableAllocRecEntry :: "ba_adapter \<Rightarrow> nat option \<times> nat option \<times> ba_adapter" where
  "BATableAllocRecEntry ad =
     (if numAsRecipient ad \<ge> word_of_nat (MAX_LEN_OF_BA_TABLE - 1) then (None, None, ad)
      else case find (\<lambda>i. REC_BA_Status (rec_entry ad i) = Recipient_NONE) [1..<MAX_LEN_OF_BA_TABLE] of
          None \<Rightarrow> (Some (MAX_LEN_OF_BA_TABLE - 1), None, ad)
        | Some i \<Rightarrow>
            (Some i, Some i,
             upd_rec i (\<lambda>e. e\<lparr>REC_BA_Status := Recipient_USED\<rparr>)
               (ad\<lparr>numAsRecipient := numAsRecipient ad + 1\<rparr>)))"

definition BATableAllocOriEntry :: "ba_adapter \<Rightarrow> nat option \<times> nat option \<times> ba_adapter" where
  "BATableAllocOriEntry ad =
     (if numAsOriginator ad \<ge> word_of_nat (MAX_LEN_OF_BA_TABLE - 1) then (None, None, ad)
      else case find (\<lambda>i. ORI_BA_Status (ori_entry ad i) = Originator_NONE) [1..<MAX_LEN_OF_BA_TABLE] of
          None \<Rightarrow> (Some (MAX_LEN_OF_BA_TABLE - 1), None, ad)
        | Some i \<Rightarrow>
            (Some i, Some i,
             upd_ori i (\<lambda>e. e\<lparr>ORI_BA_Status := Originator_USED\<rparr>)
               (ad\<lparr>numAsOriginator := numAsOriginator ad + 1\<rparr>)))"

definition BATableFreeOriEntry :: "nat \<Rightarrow> ba_adapter \<Rightarrow> c_fault + ba_adapter" where
  "BATableFreeOriEntry Idx ad =
     (if Idx = 0 \<or> MAX_LEN_OF_BA_TABLE \<le> Idx then Inr ad
      else let e = ori_entry ad Idx; w = unat (ori_Wcid e); t = unat (ori_TID e) in
        if ORI_BA_Status e = Originator_NONE then Inr ad
        else if MAX_LEN_OF_MAC_TABLE \<le> w \<or> NUM_OF_TID \<le> t then Inl OOBWrite
        else
          let ad1 = upd_peer w (\<lambda>p. p\<lparr>BAOriWcidArray := (BAOriWcidArray p)[t := 0]\<rparr>) ad;
              ad2 = (if ORI_BA_Status e = Originator_Done
                     then upd_peer w (\<lambda>p. p\<lparr>TXBAbitmap := TXBAbitmap p AND NOT (tid_bit t)\<rparr>)
                            (ad1\<lparr>numDoneOriginator := numDoneOriginator ad1 - 1\<rparr>)
                     else ad1)
          in Inr (upd_ori Idx (\<lambda>e. e\<lparr>ORI_BA_Status := Originator_NONE, ori_Token := 0\<rparr>)
                    (ad2\<lparr>numAsOriginator := numAsOriginator ad2 - 1\<rparr>)))"

definition BATableFreeRecEntry :: "nat \<Rightarrow> ba_adapter \<Rightarrow> c_fault + ba_adapter" where
  "BATableFreeRecEntry Idx ad =
     (if Idx = 0 \<or> MAX_LEN_OF_BA_TABLE \<le> Idx then Inr ad
      else let e = rec_entry ad Idx; w = unat (rec_Wcid e); t = unat (rec_TID e) in
        if REC_BA_Status e = Recipient_NONE then Inr ad
        else if MAX_LEN_OF_MAC_TABLE \<le> w \<or> NUM_OF_TID \<le> t then Inl OOBWrite
        else
          let ad1 = upd_peer w (\<lambda>p. p\<lparr>BARecWcidArray := (BARecWcidArray p)[t := 0]\<rparr>) ad
          in Inr (upd_rec Idx (\<lambda>e. e\<lparr>REC_BA_Status := Recipient_NONE\<rparr>)
                    (ad1\<lparr>numAsRecipient := numAsRecipient ad1 - 1\<rparr>)))"

subsection \<open>Setting up a session\<close>

text \<open>\<^verbatim>\<open>BA_MaxWinSizeReasign\<close>; the peer's factor is a 2-bit field.\<close>

definition BA_MaxWinSizeReasign :: "ba_adapter \<Rightarrow> ba_peer \<Rightarrow> u8 \<Rightarrow> u8" where
  "BA_MaxWinSizeReasign ad p WinSize =
     (let f = unat (MaxRAmpduFactor p);
          MaxPeerRxSize = (if is_ralink p then word_of_nat (2 ^ (f + 3))
                           else word_of_nat (2 ^ (f + 3) * 10 div 16 - 1));
          MaxSize0 = (if is_mt76x2u ad then
                        (if mode_htmix_or_gf p \<and> MCSSet2 p \<noteq> 0xff then 31 else 47)
                      else if TxPath ad = 3 \<and> MCSSet2 p \<noteq> 0 then 31 else 20);
          MaxSize = min MaxPeerRxSize MaxSize0
      in if MaxSize < WinSize then MaxSize else WinSize)"

definition BAOriSessionSetUp :: "nat \<Rightarrow> nat \<Rightarrow> u16 \<Rightarrow> ulong \<Rightarrow> bool \<Rightarrow> ba_adapter \<Rightarrow>
    c_fault + ba_adapter" where
  "BAOriSessionSetUp w TID TimeOut DelayTime isForced ad =
     (let p = peer ad w in
      if NUM_OF_TID \<le> TID then Inr ad
      else if \<not> AutoBA ad \<and> \<not> isForced then Inr ad
      else if \<not> fixed_tx_ht p then Inr ad
      else
        let Delay = (if BADeclineBitmap p AND tid_bit TID \<noteq> 0 \<and> \<not> isForced then 3000 else DelayTime);
            Idx0 = ori_index p TID;
            (E, Idx, ad1) = (if Idx0 = 0 then (case BATableAllocOriEntry ad of
                               (E, si, ad') \<Rightarrow> (E, case si of None \<Rightarrow> 0 | Some i \<Rightarrow> i, ad'))
                             else (Some Idx0, Idx0, ad))
        in case E of
             None \<Rightarrow> Inr ad1
           | Some i \<Rightarrow>
             if MAX_LEN_OF_BA_TABLE \<le> i then Inl OOBRead
             else if ORI_BA_Status (ori_entry ad1 i) = Originator_WaitRes \<or>
                     ORI_BA_Status (ori_entry ad1 i) = Originator_Done then Inr ad1
             else
               let ad2 = upd_peer w (\<lambda>p. p\<lparr>BAOriWcidArray :=
                            (BAOriWcidArray p)[TID := word_of_nat Idx]\<rparr>) ad1;
                   ad3 = upd_ori i (\<lambda>e. e\<lparr>ORI_BA_Status := Originator_WaitRes,
                            ori_Wcid := peer_wcid p, ori_BAWinSize := TxBAWinLimit ad,
                            ori_Sequence := TxSeq p ! TID, ori_Token := 1,
                            ori_TID := word_of_nat TID, ori_TimeOutValue := TimeOut\<rparr>) ad2;
                   ad4 = ba_emit (if TXBAbitmap p AND tid_bit TID = 0 then InitTimer False i
                                  else CancelTimer False i) ad3
               in Inr (ba_emit (SetTimer False i Delay) ad4))"

text \<open>The parsed frames: the BA parameter set, and whether the sanity check passes.\<close>

record addba_frame =
  fr_sane :: bool
  fr_TID :: nat
  fr_BufSize :: nat
  fr_AMSDU :: bool
  fr_TimeOut :: u16
  fr_StatusCode :: u16
  fr_Token :: u8

definition BAOriSessionAdd :: "bool \<Rightarrow> nat \<Rightarrow> addba_frame \<Rightarrow> ba_adapter \<Rightarrow> c_fault + ba_adapter" where
  "BAOriSessionAdd kmalloc_ok w fr ad =
     (let p = peer ad w; TID = fr_TID fr in
      if NUM_OF_TID \<le> TID then Inl OOBRead
      else let Idx = ori_index p TID in
        if MAX_LEN_OF_BA_TABLE \<le> Idx then Inl OOBRead
        else let e = ori_entry ad Idx in
          if Idx \<noteq> 0 \<and> unat (ori_TID e) = TID \<and> ORI_BA_Status e = Originator_WaitRes then
            let MaxPeerBufSize = (word_of_nat (fr_BufSize fr) :: u8);
                MaxPeer = (if 0 < MaxPeerBufSize then MaxPeerBufSize - 1 else 0);
                Win = BA_MaxWinSizeReasign ad p (min (ori_BAWinSize e) MaxPeer);
                ad1 = upd_ori Idx (\<lambda>e. e\<lparr>ori_BAWinSize := Win, ori_TimeOutValue := fr_TimeOut fr,
                         ori_amsdu_cap := fr_AMSDU fr, ORI_BA_Status := Originator_Done,
                         ori_Sequence := TxSeq p ! TID\<rparr>)
                        (ad\<lparr>numDoneOriginator := numDoneOriginator ad + 1\<rparr>);
                ad2 = ba_emit (CancelTimer False Idx)
                        (upd_peer w (\<lambda>p. p\<lparr>TXBAbitmap := TXBAbitmap p OR tid_bit TID\<rparr>) ad1)
            in if \<not> kmalloc_ok then Inr ad2
               else if MAX_LEN_OF_MAC_TABLE \<le> unat (ori_Wcid e) then Inl OOBRead
               else Inr (ba_emit (SendBar (ori_Wcid e) (ori_TID e) (TxSeq p ! TID)) ad2)
          else Inr ad)"

definition BARecSessionAdd :: "nat \<Rightarrow> addba_frame \<Rightarrow> ba_adapter \<Rightarrow> c_fault + bool \<times> ba_adapter" where
  "BARecSessionAdd w fr ad =
     (let p = peer ad w; TID = fr_TID fr;
          Win0 = min (word_of_nat (fr_BufSize fr)) (RxBAWinLimit ad) :: u8;
          BAWinSize = (if Win0 = 0 then 64 else Win0) in
      if NUM_OF_TID \<le> TID then Inl OOBRead
      else
        let Idx0 = rec_index p TID in
        if MAX_LEN_OF_BA_TABLE \<le> Idx0 then Inl OOBRead
        else
          let (E, Idx, ad1) =
                (if Idx0 = 0 then (case BATableAllocRecEntry ad of
                    (E, si, ad') \<Rightarrow> (E, case si of None \<Rightarrow> 0 | Some i \<Rightarrow> i, ad'))
                 else let (e', st') = ba_refresh_reordering_mpdus (rec_entry ad Idx0) (ba_rx ad)
                      in (Some Idx0, Idx0, upd_rec Idx0 (\<lambda>_. e') (ad\<lparr>ba_rx := st'\<rparr>)))
          in case E of
               None \<Rightarrow> Inr (False, ad1)
             | Some i \<Rightarrow>
                 let ad2 = upd_rec i (\<lambda>e. e\<lparr>rec_BAWinSize := BAWinSize, rec_Wcid := peer_wcid p,
                              rec_TID := word_of_nat TID, rec_TimeOutValue := fr_TimeOut fr,
                              REC_BA_Status := Recipient_Accept, LastIndSeq := RESET_RCV_SEQ\<rparr>) ad1;
                     ad3 = ba_emit (if RXBAbitmap p AND tid_bit TID \<noteq> 0 then CancelTimer True i
                                    else InitTimer True i) ad2;
                     ad4 = upd_peer w (\<lambda>p. p\<lparr>RXBAbitmap := RXBAbitmap p OR tid_bit TID,
                              BARecWcidArray := (BARecWcidArray p)[TID := word_of_nat Idx],
                              BADeclineBitmap := BADeclineBitmap p AND NOT (tid_bit TID)\<rparr>) ad3
                 in Inr (True, ba_emit (AsicAddSession (peer_wcid p) (word_of_nat TID)) ad4))"

subsection \<open>Tearing a session down\<close>

definition BAOriSessionTearDown :: "bool \<Rightarrow> nat \<Rightarrow> nat \<Rightarrow> bool \<Rightarrow> bool \<Rightarrow> ba_adapter \<Rightarrow>
    c_fault + ba_adapter" where
  "BAOriSessionTearDown kmalloc_ok w TID bPassive bForceSend ad =
     (if MAX_LEN_OF_MAC_TABLE \<le> w then Inr ad
      else if NUM_OF_TID \<le> TID then Inl OOBRead
      else let Idx = ori_index (peer ad w) TID in
        if Idx = 0 \<or> MAX_LEN_OF_BA_TABLE \<le> Idx then
          (if bForceSend \<and> kmalloc_ok
           then Inr (ba_emit (SendDelba (word_of_nat w) (word_of_nat TID) True) ad) else Inr ad)
        else let e = ori_entry ad Idx;
                 del = \<not> bPassive \<and> TID = unat (ori_TID e) \<and> ORI_BA_Status e = Originator_Done in
          if del \<and> \<not> kmalloc_ok then Inr ad
          else let ad1 = (if del then ba_emit (SendDelba (word_of_nat w) (ori_TID e) True) ad else ad)
               in BATableFreeOriEntry Idx (ba_emit (CancelTimer False Idx) ad1))"

definition BARecSessionTearDown :: "bool \<Rightarrow> nat \<Rightarrow> nat \<Rightarrow> bool \<Rightarrow> ba_adapter \<Rightarrow>
    c_fault + ba_adapter" where
  "BARecSessionTearDown kmalloc_ok w TID bPassive ad =
     (if MAX_LEN_OF_MAC_TABLE \<le> w then Inr ad
      else if NUM_OF_TID \<le> TID then Inl OOBRead
      else let Idx = rec_index (peer ad w) TID in
        if Idx = 0 then Inr ad
        else if MAX_LEN_OF_BA_TABLE \<le> Idx then Inl OOBRead
        else let e = rec_entry ad Idx in
          if TID = unat (rec_TID e) \<and> REC_BA_Status e = Recipient_Accept then
            let ad1 = ba_emit (CancelTimer True Idx) ad in
            if \<not> bPassive \<and> \<not> kmalloc_ok then Inr ad1
            else
              let ad2 = (if \<not> bPassive then ba_emit (SendDelba (word_of_nat w) (word_of_nat TID) False) ad1
                         else ad1);
                  (e', st') = ba_refresh_reordering_mpdus e (ba_rx ad2);
                  ad3 = upd_rec Idx (\<lambda>_. e'\<lparr>LastIndSeq := RESET_RCV_SEQ, rec_BAWinSize := 0\<rparr>)
                          (ad2\<lparr>ba_rx := st'\<rparr>);
                  ad4 = upd_peer w (\<lambda>p. p\<lparr>RXBAbitmap := RXBAbitmap p AND NOT (tid_bit (unat (rec_TID e))),
                            BARecWcidArray := (BARecWcidArray p)[TID := 0]\<rparr>) ad3
              in BATableFreeRecEntry Idx (ba_emit (AsicDelSession (word_of_nat w) (word_of_nat TID)) ad4)
          else BATableFreeRecEntry Idx ad)"

text \<open>The loop over the TIDs; \<open>oks\<close> tells for each TID whether the two allocations succeed.\<close>

definition ba_teardown_tid :: "(nat \<Rightarrow> bool \<times> bool) \<Rightarrow> nat \<Rightarrow> ba_adapter \<Rightarrow> nat \<Rightarrow>
    c_fault + ba_adapter" where
  "ba_teardown_tid oks w ad i =
     (case BAOriSessionTearDown (fst (oks i)) w i False False ad of
        Inl f \<Rightarrow> Inl f
      | Inr ad1 \<Rightarrow> BARecSessionTearDown (snd (oks i)) w i False ad1)"

definition BASessionTearDownALL :: "(nat \<Rightarrow> bool \<times> bool) \<Rightarrow> nat \<Rightarrow> ba_adapter \<Rightarrow>
    c_fault + ba_adapter" where
  "BASessionTearDownALL oks w ad = fold_fault (ba_teardown_tid oks w) ad [0..<NUM_OF_TID]"

subsection \<open>Timers of a session\<close>

definition ORI_SESSION_MAX_RETRY :: u8 where "ORI_SESSION_MAX_RETRY = 8"
definition ORI_BA_SESSION_TIMEOUT :: ulong where "ORI_BA_SESSION_TIMEOUT = 2000"

text \<open>
  \<open>scanning\<close>: a station is connected and scans, so the request waits for another period;
  \<open>monitor\<close>: monitor mode is on.
\<close>

definition BAOriSessionSetupTimeout :: "bool \<Rightarrow> bool \<Rightarrow> nat \<Rightarrow> ba_adapter \<Rightarrow> c_fault + ba_adapter" where
  "BAOriSessionSetupTimeout monitor scanning i ad =
     (let e = ori_entry ad i; w = unat (ori_Wcid e) in
      if monitor then Inr ad
      else if MAX_LEN_OF_MAC_TABLE \<le> w then Inl OOBRead
      else if ORI_BA_Status e = Originator_WaitRes \<and> ori_Token e < ORI_SESSION_MAX_RETRY then
        if scanning then Inr (ba_emit (SetTimer False i ORI_BA_SESSION_TIMEOUT) ad)
        else Inr (ba_emit (SetTimer False i ORI_BA_SESSION_TIMEOUT)
               (upd_ori i (\<lambda>e. e\<lparr>ori_Token := ori_Token e + 1\<rparr>)
                 (ba_emit (QueueAddbaReq (peer_wcid (peer ad w)) (ori_TID e) (RxBAWinLimit ad)
                    (ori_Token e)) ad)))
      else if NUM_OF_TID \<le> unat (ori_TID e) then Inl OOBRead
      else BATableFreeOriEntry (ori_index (peer ad w) (unat (ori_TID e))) ad)"

subsection \<open>Action frames\<close>

definition PeerAddBAReqAction :: "bool \<Rightarrow> nat \<Rightarrow> addba_frame \<Rightarrow> ba_adapter \<Rightarrow> c_fault + ba_adapter" where
  "PeerAddBAReqAction kmalloc_ok w fr ad =
     (if MAX_LEN_OF_MAC_TABLE \<le> w then Inr ad
      else
        (case (if \<not> fr_sane fr then Inr (1, ad)
               else if \<not> bBADecline ad \<and> is_ht_sta (peer ad w) then
                 (case BARecSessionAdd w fr ad of
                    Inl f \<Rightarrow> Inl f
                  | Inr (ok, ad1) \<Rightarrow> Inr (if ok then 0 else 38, ad1))
               else Inr (37, ad)) of
           Inl f \<Rightarrow> Inl f
         | Inr (Status, ad1) \<Rightarrow>
             if \<not> kmalloc_ok then Inr ad1
             else
               let amsdu = is_vht_sta (peer ad1 w) \<and> Status = 0 \<and> fr_AMSDU fr;
                   Buf0 = min (word_of_nat (fr_BufSize fr)) (RxBAWinLimit ad1) :: u8;
                   Buf = (if Buf0 = 0 then 64 else ucast Buf0)
               in Inr (ba_emit (SendAddbaRsp (word_of_nat w) Status (word_of_nat (fr_TID fr)) Buf amsdu)
                         ad1)))"

text \<open>\<open>sta_tgn\<close>: a station with the TGn test mode on takes every refusal as a decline.\<close>

definition PeerAddBARspAction :: "bool \<Rightarrow> bool \<Rightarrow> nat \<Rightarrow> addba_frame \<Rightarrow> ba_adapter \<Rightarrow>
    c_fault + ba_adapter" where
  "PeerAddBARspAction kmalloc_ok sta_tgn w fr ad =
     (if MAX_LEN_OF_MAC_TABLE \<le> w then Inr ad
      else if \<not> fr_sane fr then Inr ad
      else
        (case (if fr_StatusCode fr = 0 then BAOriSessionAdd kmalloc_ok w fr ad
               else BAOriSessionTearDown kmalloc_ok w (fr_TID fr) True False ad) of
           Inl f \<Rightarrow> Inl f
         | Inr ad1 \<Rightarrow>
             if fr_StatusCode fr = 37 \<or> (sta_tgn \<and> fr_StatusCode fr \<noteq> 0)
             then Inr (upd_peer w (\<lambda>p. p\<lparr>BADeclineBitmap := BADeclineBitmap p OR tid_bit (fr_TID fr)\<rparr>) ad1)
             else Inr ad1))"

record delba_frame =
  db_sane :: bool
  db_TID :: nat
  db_Initiator :: bool

definition PeerDelBAAction :: "bool \<Rightarrow> nat \<Rightarrow> delba_frame \<Rightarrow> ba_adapter \<Rightarrow> c_fault + ba_adapter" where
  "PeerDelBAAction kmalloc_ok w fr ad =
     (if \<not> db_sane fr then Inr ad
      else if db_Initiator fr then BARecSessionTearDown kmalloc_ok w (db_TID fr) True ad
      else BAOriSessionTearDown kmalloc_ok w (db_TID fr) True False ad)"

subsection \<open>Data frames and block-ack requests of a session\<close>

definition MAX_RX_PKT_LEN :: nat where "MAX_RX_PKT_LEN = 1520"

definition Indicate_AMPDU_Packet :: "nat \<Rightarrow> rx_blk \<Rightarrow> ulong \<Rightarrow> ba_adapter \<Rightarrow> c_fault + ba_adapter" where
  "Indicate_AMPDU_Packet hz rx Now32 ad =
     (if \<not> rx_AMSDU rx \<and> MAX_RX_PKT_LEN < rx_DataSize rx
      then Inr (ad\<lparr>ba_rx := log_event (FreeSkb (rx_pRxPacket rx)) (ba_rx ad)\<rparr>)
      else if MAX_LEN_OF_MAC_TABLE \<le> unat (rx_wcid rx)
      then Inr (ad\<lparr>ba_rx := log_event (FreeSkb (rx_pRxPacket rx)) (ba_rx ad)\<rparr>)
      else if NUM_OF_TID \<le> unat (rx_TID rx) then Inl OOBRead
      else let Idx = rec_index (peer ad (unat (rx_wcid rx))) (unat (rx_TID rx)) in
        if Idx = 0 then Inr (ad\<lparr>ba_rx := INDICATE_LEGACY_OR_AMSDU (ba_rx ad) rx\<rparr>)
        else if MAX_LEN_OF_BA_TABLE \<le> Idx then Inl OOBRead
        else (case ba_receive hz (rec_entry ad Idx) (ba_rx ad) rx Now32 of
            Inl f \<Rightarrow> Inl f
          | Inr (e', st') \<Rightarrow> Inr (upd_rec Idx (\<lambda>_. e') (ad\<lparr>ba_rx := st'\<rparr>))))"

definition FRAME_BA_REQ_size :: nat where "FRAME_BA_REQ_size = 20"

definition CntlEnqueueForRecv :: "bool \<Rightarrow> nat \<Rightarrow> nat \<Rightarrow> nat \<Rightarrow> u16 \<Rightarrow> ba_adapter \<Rightarrow>
    c_fault + bool \<times> ba_adapter" where
  "CntlEnqueueForRecv halting w MsgLen TID StartSeq ad =
     (if halting then Inr (False, ad)
      else if MsgLen \<noteq> FRAME_BA_REQ_size then Inr (False, ad)
      else if MAX_LEN_OF_MAC_TABLE \<le> w \<or> 8 \<le> TID then Inr (False, ad)
      else let Idx = rec_index (peer ad w) TID in
        if MAX_LEN_OF_BA_TABLE \<le> Idx then Inl OOBRead
        else (case ba_handle_bar (rec_entry ad Idx) (ba_rx ad) StartSeq of
            Inl f \<Rightarrow> Inl f
          | Inr (e', st') \<Rightarrow> Inr (True, upd_rec Idx (\<lambda>_. e') (ad\<lparr>ba_rx := st'\<rparr>))))"

definition ba_maintain_tid :: "nat \<Rightarrow> ulong \<Rightarrow> ba_adapter \<Rightarrow> nat \<times> nat \<Rightarrow> c_fault + ba_adapter" where
  "ba_maintain_tid hz Now32 ad wt =
     (if entry_none (peer ad (fst wt)) then Inr ad
      else let Idx = rec_index (peer ad (fst wt)) (snd wt) in
        if MAX_LEN_OF_BA_TABLE \<le> Idx then Inl OOBRead
        else (case ba_flush_reordering_timeout_mpdus hz (rec_entry ad Idx) (ba_rx ad) Now32 of
            Inl f \<Rightarrow> Inl f
          | Inr (e', st') \<Rightarrow> Inr (upd_rec Idx (\<lambda>_. e') (ad\<lparr>ba_rx := st'\<rparr>))))"

definition BaReOrderingBufferMaintain :: "nat \<Rightarrow> ulong \<Rightarrow> ba_adapter \<Rightarrow> c_fault + ba_adapter" where
  "BaReOrderingBufferMaintain hz Now32 ad =
     fold_fault (ba_maintain_tid hz Now32) ad
       (List.product [1..<MAX_LEN_OF_MAC_TABLE] [0..<NUM_OF_TID])"

end
