(* ===== verification/BaSessionProps.thy ===== *)
theory BaSessionProps
  imports BaSession
begin

text \<open>
  The invariant of the session tables and its preservation by every handler: the counters count the
  entries in use, the index arrays of the peers and the entries point at each other, and so no handler
  leaves its arrays as long as the TID of a frame is below 8; and what happens when it is not.
\<close>

subsection \<open>Index arrays and tables, abstractly\<close>

text \<open>
  \<open>a x y\<close> is the index that peer \<open>x\<close> keeps for TID \<open>y\<close>; entry \<open>i\<close> is in use when \<open>u i\<close> and then
  belongs to peer \<open>w i\<close> and TID \<open>t i\<close>; \<open>n\<close> counts the entries in use.
\<close>

definition idx_inv :: "(nat \<Rightarrow> nat \<Rightarrow> nat) \<Rightarrow> (nat \<Rightarrow> bool) \<Rightarrow> (nat \<Rightarrow> nat) \<Rightarrow> (nat \<Rightarrow> nat) \<Rightarrow> nat \<Rightarrow> bool" where
  "idx_inv a u w t n \<longleftrightarrow> n = card {i \<in> {1..<MAX_LEN_OF_BA_TABLE}. u i} \<and>
     (\<forall>x<MAX_LEN_OF_MAC_TABLE. \<forall>y<NUM_OF_TID. a x y \<noteq> 0 \<longrightarrow>
        a x y < MAX_LEN_OF_BA_TABLE \<and> u (a x y) \<and> w (a x y) = x \<and> t (a x y) = y) \<and>
     (\<forall>i. 0 < i \<longrightarrow> i < MAX_LEN_OF_BA_TABLE \<longrightarrow> u i \<longrightarrow> a (w i) (t i) = i) \<and>
     (\<forall>i<MAX_LEN_OF_BA_TABLE. w i < MAX_LEN_OF_MAC_TABLE \<and> t i < NUM_OF_TID)"

lemma idx_inv_link:
  assumes "idx_inv a u w t n" "0 < i" "i < MAX_LEN_OF_BA_TABLE" "\<not> u i"
    "x < MAX_LEN_OF_MAC_TABLE" "y < NUM_OF_TID" "a x y = 0"
  shows "idx_inv (\<lambda>x' y'. if x' = x \<and> y' = y then i else a x' y') (u(i := True)) (w(i := x))
    (t(i := y)) (Suc n)"
proof -
  have "{j \<in> {1..<MAX_LEN_OF_BA_TABLE}. (u(i := True)) j} =
      insert i {j \<in> {1..<MAX_LEN_OF_BA_TABLE}. u j}"
    using assms(2,3) by auto
  then have "card {j \<in> {1..<MAX_LEN_OF_BA_TABLE}. (u(i := True)) j} = Suc n"
    using assms(1,4) by (simp add: idx_inv_def)
  moreover have "a (w j) (t j) \<noteq> a x y" if "0 < j" "j < MAX_LEN_OF_BA_TABLE" "u j" for j
    using assms(1,7) that by (simp add: idx_inv_def)
  ultimately show ?thesis using assms unfolding idx_inv_def by fastforce
qed

lemma idx_invD:
  assumes "idx_inv a u w t n" "x < MAX_LEN_OF_MAC_TABLE" "y < NUM_OF_TID" "a x y \<noteq> 0"
  shows "a x y < MAX_LEN_OF_BA_TABLE" "u (a x y)" "w (a x y) = x" "t (a x y) = y"
  using assms by (auto simp: idx_inv_def)

lemma idx_inv_unlink:
  assumes "idx_inv a u w t n" "0 < i" "i < MAX_LEN_OF_BA_TABLE" "u i"
  shows "idx_inv (\<lambda>x' y'. if x' = w i \<and> y' = t i then 0 else a x' y') (u(i := False)) w t (n - 1)"
    and "0 < n"
proof -
  let ?U = "{j \<in> {1..<MAX_LEN_OF_BA_TABLE}. u j}"
  have "i \<in> ?U" using assms(2-4) by simp
  moreover have "{j \<in> {1..<MAX_LEN_OF_BA_TABLE}. (u(i := False)) j} = ?U - {i}" by auto
  ultimately have c: "card {j \<in> {1..<MAX_LEN_OF_BA_TABLE}. (u(i := False)) j} = n - 1" "0 < n"
    using assms(1) by (auto simp: idx_inv_def card_gt_0_iff)
  show "idx_inv (\<lambda>x' y'. if x' = w i \<and> y' = t i then 0 else a x' y') (u(i := False)) w t (n - 1)"
    unfolding idx_inv_def
  proof (intro conjI allI impI)
    fix x y
    assume xy: "x < MAX_LEN_OF_MAC_TABLE" "y < NUM_OF_TID"
      and nz: "(if x = w i \<and> y = t i then 0 else a x y) \<noteq> 0"
    then have "a x y \<noteq> 0" "\<not> (x = w i \<and> y = t i)" by (auto split: if_splits)
    then show "(if x = w i \<and> y = t i then 0 else a x y) < MAX_LEN_OF_BA_TABLE"
      "(u(i := False)) (if x = w i \<and> y = t i then 0 else a x y)"
      "w (if x = w i \<and> y = t i then 0 else a x y) = x" "t (if x = w i \<and> y = t i then 0 else a x y) = y"
      using idx_invD [OF assms(1) xy] by auto
  next
    fix j assume j: "0 < j" "j < MAX_LEN_OF_BA_TABLE" "(u(i := False)) j"
    then have "j \<noteq> i" "u j" by (auto split: if_splits)
    then have "a (w j) (t j) = j" "a (w i) (t i) = i" using assms j by (simp_all add: idx_inv_def)
    then show "(if w j = w i \<and> t j = t i then 0 else a (w j) (t j)) = j" using \<open>j \<noteq> i\<close> by auto
  qed (use c(1) assms(1) in \<open>auto simp: idx_inv_def\<close>)
  show "0 < n" by (rule c(2))
qed

lemma idx_inv_free:
  assumes "idx_inv a u w t n" "n < MAX_LEN_OF_BA_TABLE - 1"
  shows "\<exists>i. 0 < i \<and> i < MAX_LEN_OF_BA_TABLE \<and> \<not> u i"
proof (rule ccontr)
  assume "\<not> ?thesis"
  then have "{i \<in> {1..<MAX_LEN_OF_BA_TABLE}. u i} = {1..<MAX_LEN_OF_BA_TABLE}" by auto
  then show False using assms by (simp add: idx_inv_def)
qed

lemma idx_inv_bound: "idx_inv a u w t n \<Longrightarrow> n \<le> MAX_LEN_OF_BA_TABLE - 1"
proof -
  assume "idx_inv a u w t n"
  then have "n = card {i \<in> {1..<MAX_LEN_OF_BA_TABLE}. u i}" by (simp add: idx_inv_def)
  also have "\<dots> \<le> card {1..<MAX_LEN_OF_BA_TABLE}" by (rule card_mono) auto
  finally show ?thesis by simp
qed

subsection \<open>The invariant of the adapter\<close>

definition ra :: "ba_adapter \<Rightarrow> nat \<Rightarrow> nat \<Rightarrow> nat" where "ra ad x y = rec_index (peer ad x) y"
definition ru :: "ba_adapter \<Rightarrow> nat \<Rightarrow> bool" where
  "ru ad i \<longleftrightarrow> REC_BA_Status (rec_entry ad i) \<noteq> Recipient_NONE"
definition rw :: "ba_adapter \<Rightarrow> nat \<Rightarrow> nat" where "rw ad i = unat (rec_Wcid (rec_entry ad i))"
definition rt :: "ba_adapter \<Rightarrow> nat \<Rightarrow> nat" where "rt ad i = unat (rec_TID (rec_entry ad i))"

definition oa :: "ba_adapter \<Rightarrow> nat \<Rightarrow> nat \<Rightarrow> nat" where "oa ad x y = ori_index (peer ad x) y"
definition ou :: "ba_adapter \<Rightarrow> nat \<Rightarrow> bool" where
  "ou ad i \<longleftrightarrow> ORI_BA_Status (ori_entry ad i) \<noteq> Originator_NONE"
definition ow :: "ba_adapter \<Rightarrow> nat \<Rightarrow> nat" where "ow ad i = unat (ori_Wcid (ori_entry ad i))"
definition ot :: "ba_adapter \<Rightarrow> nat \<Rightarrow> nat" where "ot ad i = unat (ori_TID (ori_entry ad i))"

definition rec_inv :: "ba_adapter \<Rightarrow> bool" where
  "rec_inv ad \<longleftrightarrow> idx_inv (ra ad) (ru ad) (rw ad) (rt ad) (unat (numAsRecipient ad))"

definition ori_inv :: "ba_adapter \<Rightarrow> bool" where
  "ori_inv ad \<longleftrightarrow> idx_inv (oa ad) (ou ad) (ow ad) (ot ad) (unat (numAsOriginator ad))"

text \<open>
  Sizes of the arrays, the number in the record of a peer that can have sessions, and the reordering
  lists of the entries.
\<close>

definition peer_id :: "ba_peer \<Rightarrow> u8 option" where
  "peer_id p = (if is_ht_sta p \<or> fixed_tx_ht p then Some (peer_wcid p) else None)"

lemma peer_id_simps [simp]:
  "peer_id (p\<lparr>TXBAbitmap := b\<rparr>) = peer_id p" "peer_id (p\<lparr>RXBAbitmap := b\<rparr>) = peer_id p"
  "peer_id (p\<lparr>BADeclineBitmap := b\<rparr>) = peer_id p" "peer_id (p\<lparr>BARecWcidArray := xs\<rparr>) = peer_id p"
  "peer_id (p\<lparr>BAOriWcidArray := xs\<rparr>) = peer_id p"
  by (simp_all add: peer_id_def)

definition shape_ok :: "ba_adapter \<Rightarrow> bool" where
  "shape_ok ad \<longleftrightarrow> length (peers ad) = MAX_LEN_OF_MAC_TABLE \<and>
     (\<forall>w<MAX_LEN_OF_MAC_TABLE. length (BARecWcidArray (peer ad w)) = NUM_OF_TID \<and>
        length (BAOriWcidArray (peer ad w)) = NUM_OF_TID \<and> (\<forall>n. peer_id (peer ad w) = Some n \<longrightarrow> unat n = w)) \<and>
     length (BARecEntry ad) = MAX_LEN_OF_BA_TABLE \<and> length (BAOriEntry ad) = MAX_LEN_OF_BA_TABLE"

definition rec_ok :: "ba_rec_entry \<Rightarrow> bool" where
  "rec_ok e \<longleftrightarrow> list_wf (reord e) \<and>
     (REC_BA_Status e = Recipient_NONE \<and> chain (reord e) = [] \<or> REC_BA_Status e = Recipient_Accept)"

definition lists_ok :: "ba_adapter \<Rightarrow> bool" where
  "lists_ok ad \<longleftrightarrow> list_wf (freelist (ba_rx ad)) \<and>
     (\<forall>i<MAX_LEN_OF_BA_TABLE. rec_ok (rec_entry ad i))"

definition ba_sessions_ok :: "ba_adapter \<Rightarrow> bool" where
  "ba_sessions_ok ad \<longleftrightarrow> shape_ok ad \<and> lists_ok ad \<and> rec_inv ad \<and> ori_inv ad"

lemma upd_simps [simp]:
  "peers (upd_peer w f ad) = (peers ad)[w := f (peer ad w)]"
  "BARecEntry (upd_peer w f ad) = BARecEntry ad" "BAOriEntry (upd_peer w f ad) = BAOriEntry ad"
  "numAsRecipient (upd_peer w f ad) = numAsRecipient ad"
  "numAsOriginator (upd_peer w f ad) = numAsOriginator ad"
  "numDoneOriginator (upd_peer w f ad) = numDoneOriginator ad" "ba_rx (upd_peer w f ad) = ba_rx ad"
  "peers (upd_rec i g ad) = peers ad"
  "BARecEntry (upd_rec i g ad) = (BARecEntry ad)[i := g (rec_entry ad i)]"
  "BAOriEntry (upd_rec i g ad) = BAOriEntry ad" "numAsRecipient (upd_rec i g ad) = numAsRecipient ad"
  "numAsOriginator (upd_rec i g ad) = numAsOriginator ad"
  "numDoneOriginator (upd_rec i g ad) = numDoneOriginator ad" "ba_rx (upd_rec i g ad) = ba_rx ad"
  "peers (upd_ori i h ad) = peers ad" "BARecEntry (upd_ori i h ad) = BARecEntry ad"
  "BAOriEntry (upd_ori i h ad) = (BAOriEntry ad)[i := h (ori_entry ad i)]"
  "numAsRecipient (upd_ori i h ad) = numAsRecipient ad"
  "numAsOriginator (upd_ori i h ad) = numAsOriginator ad"
  "numDoneOriginator (upd_ori i h ad) = numDoneOriginator ad" "ba_rx (upd_ori i h ad) = ba_rx ad"
  by (simp_all add: upd_peer_def upd_rec_def upd_ori_def)

lemma emit_simps [simp]:
  "peers (ba_emit ev ad) = peers ad" "BARecEntry (ba_emit ev ad) = BARecEntry ad"
  "BAOriEntry (ba_emit ev ad) = BAOriEntry ad" "numAsRecipient (ba_emit ev ad) = numAsRecipient ad"
  "numAsOriginator (ba_emit ev ad) = numAsOriginator ad"
  "numDoneOriginator (ba_emit ev ad) = numDoneOriginator ad" "ba_rx (ba_emit ev ad) = ba_rx ad"
  by (simp_all add: ba_emit_def)

text \<open>The views depend on one array each, the invariants on nothing else.\<close>

lemma views_cong:
  "peers ad' = peers ad \<Longrightarrow> ra ad' = ra ad" "peers ad' = peers ad \<Longrightarrow> oa ad' = oa ad"
  "BARecEntry ad' = BARecEntry ad \<Longrightarrow> ru ad' = ru ad"
  "BARecEntry ad' = BARecEntry ad \<Longrightarrow> rw ad' = rw ad"
  "BARecEntry ad' = BARecEntry ad \<Longrightarrow> rt ad' = rt ad"
  "BAOriEntry ad' = BAOriEntry ad \<Longrightarrow> ou ad' = ou ad"
  "BAOriEntry ad' = BAOriEntry ad \<Longrightarrow> ow ad' = ow ad"
  "BAOriEntry ad' = BAOriEntry ad \<Longrightarrow> ot ad' = ot ad"
  by (simp_all add: fun_eq_iff ra_def oa_def ru_def rw_def rt_def ou_def ow_def ot_def)

lemma sessions_cong:
  assumes "peers ad' = peers ad" "BARecEntry ad' = BARecEntry ad" "BAOriEntry ad' = BAOriEntry ad"
    "numAsRecipient ad' = numAsRecipient ad" "numAsOriginator ad' = numAsOriginator ad"
  shows "shape_ok ad' = shape_ok ad" "rec_inv ad' = rec_inv ad" "ori_inv ad' = ori_inv ad"
    "ba_rx ad' = ba_rx ad \<Longrightarrow> lists_ok ad' = lists_ok ad"
    "ba_rx ad' = ba_rx ad \<Longrightarrow> ba_sessions_ok ad' = ba_sessions_ok ad"
  using views_cong [of ad' ad] assms
  by (simp_all add: ba_sessions_ok_def shape_ok_def lists_ok_def rec_inv_def ori_inv_def)

lemma ok_emit [simp]: "ba_sessions_ok (ba_emit ev ad) = ba_sessions_ok ad"
  by (rule sessions_cong(5)) simp_all

text \<open>An update of a peer that keeps its two index arrays.\<close>

lemma nth_upd_same: "f (xs ! i) = f v \<Longrightarrow> f (xs[i := v] ! j) = f (xs ! j)"
  by (cases "i < length xs"; cases "i = j") (simp_all add: list_update_beyond)

lemma ok_peer_keep:
  assumes "\<And>p. BARecWcidArray (f p) = BARecWcidArray p" "\<And>p. BAOriWcidArray (f p) = BAOriWcidArray p"
    "\<And>p. peer_id (f p) = peer_id p"
  shows "ba_sessions_ok (upd_peer w f ad) = ba_sessions_ok ad"
proof -
  have e: "BARecWcidArray ((peers ad)[w := f (peer ad w)] ! x) = BARecWcidArray (peer ad x)"
    "BAOriWcidArray ((peers ad)[w := f (peer ad w)] ! x) = BAOriWcidArray (peer ad x)"
    "peer_id ((peers ad)[w := f (peer ad w)] ! x) = peer_id (peer ad x)" for x
    using assms by (simp_all add: nth_upd_same)
  have "ra (upd_peer w f ad) = ra ad" "oa (upd_peer w f ad) = oa ad"
    by (simp_all add: fun_eq_iff ra_def oa_def rec_index_def ori_index_def e)
  then show ?thesis
    using views_cong [of "upd_peer w f ad" ad]
    by (simp add: ba_sessions_ok_def shape_ok_def lists_ok_def rec_inv_def ori_inv_def e)
qed

subsection \<open>Linking and unlinking an entry\<close>

lemma unat_pred: "0 < unat (n :: ulong) \<Longrightarrow> unat (n - 1) = unat n - 1"
  by (simp add: unat_minus_one unat_gt_0)

lemma unat_succ: "unat (n :: ulong) < 1000 \<Longrightarrow> unat (n + 1) = Suc (unat n)"
  using unat_add_lem [of n 1] by simp

lemma table_len: "MAX_LEN_OF_BA_TABLE = 464" "MAX_LEN_OF_MAC_TABLE = 116" "NUM_OF_TID = 8"
  by (simp_all add: MAX_LEN_OF_BA_TABLE_def MAX_LEN_OF_MAC_TABLE_def NUM_OF_TID_def)

lemma rec_unlink:
  assumes "shape_ok ad" "rec_inv ad" "0 < i" "i < MAX_LEN_OF_BA_TABLE" "ru ad i"
    and "peers ad' = (peers ad)[rw ad i := p']"
      "BARecWcidArray p' = (BARecWcidArray (peer ad (rw ad i)))[rt ad i := 0]"
      "BARecEntry ad' = (BARecEntry ad)[i := e']" "REC_BA_Status e' = Recipient_NONE"
      "rec_Wcid e' = rec_Wcid (rec_entry ad i)" "rec_TID e' = rec_TID (rec_entry ad i)"
      "numAsRecipient ad' = numAsRecipient ad - 1"
  shows "rec_inv ad'"
proof -
  note inv = assms(2) [unfolded rec_inv_def]
  have b: "rw ad i < MAX_LEN_OF_MAC_TABLE" "rt ad i < NUM_OF_TID"
    using inv assms(4) by (simp_all add: idx_inv_def)
  have len: "length (peers ad) = MAX_LEN_OF_MAC_TABLE" "length (BARecEntry ad) = MAX_LEN_OF_BA_TABLE"
    "length (BARecWcidArray (peer ad (rw ad i))) = NUM_OF_TID"
    using assms(1) b by (simp_all add: shape_ok_def)
  have "ra ad' = (\<lambda>x y. if x = rw ad i \<and> y = rt ad i then 0 else ra ad x y)"
    using assms(6,7) b len by (auto simp: fun_eq_iff ra_def rec_index_def nth_list_update)
  moreover have "ru ad' = (ru ad)(i := False)" "rw ad' = rw ad" "rt ad' = rt ad"
    using assms(4,8-11) len by (auto simp: fun_eq_iff ru_def rw_def rt_def nth_list_update)
  ultimately show ?thesis
    using idx_inv_unlink [OF inv assms(3-5)] assms(12) by (simp add: rec_inv_def unat_pred)
qed

lemma ori_unlink:
  assumes "shape_ok ad" "ori_inv ad" "0 < i" "i < MAX_LEN_OF_BA_TABLE" "ou ad i"
    and "peers ad' = (peers ad)[ow ad i := p']"
      "BAOriWcidArray p' = (BAOriWcidArray (peer ad (ow ad i)))[ot ad i := 0]"
      "BAOriEntry ad' = (BAOriEntry ad)[i := e']" "ORI_BA_Status e' = Originator_NONE"
      "ori_Wcid e' = ori_Wcid (ori_entry ad i)" "ori_TID e' = ori_TID (ori_entry ad i)"
      "numAsOriginator ad' = numAsOriginator ad - 1"
  shows "ori_inv ad'"
proof -
  note inv = assms(2) [unfolded ori_inv_def]
  have b: "ow ad i < MAX_LEN_OF_MAC_TABLE" "ot ad i < NUM_OF_TID"
    using inv assms(4) by (simp_all add: idx_inv_def)
  have len: "length (peers ad) = MAX_LEN_OF_MAC_TABLE" "length (BAOriEntry ad) = MAX_LEN_OF_BA_TABLE"
    "length (BAOriWcidArray (peer ad (ow ad i))) = NUM_OF_TID"
    using assms(1) b by (simp_all add: shape_ok_def)
  have "oa ad' = (\<lambda>x y. if x = ow ad i \<and> y = ot ad i then 0 else oa ad x y)"
    using assms(6,7) b len by (auto simp: fun_eq_iff oa_def ori_index_def nth_list_update)
  moreover have "ou ad' = (ou ad)(i := False)" "ow ad' = ow ad" "ot ad' = ot ad"
    using assms(4,8-11) len by (auto simp: fun_eq_iff ou_def ow_def ot_def nth_list_update)
  ultimately show ?thesis
    using idx_inv_unlink [OF inv assms(3-5)] assms(12) by (simp add: ori_inv_def unat_pred)
qed

lemma rec_link:
  assumes "shape_ok ad" "rec_inv ad" "0 < i" "i < MAX_LEN_OF_BA_TABLE" "\<not> ru ad i"
    "x < MAX_LEN_OF_MAC_TABLE" "y < NUM_OF_TID" "ra ad x y = 0"
    and "peers ad' = (peers ad)[x := p']"
      "BARecWcidArray p' = (BARecWcidArray (peer ad x))[y := word_of_nat i]"
      "BARecEntry ad' = (BARecEntry ad)[i := e']" "REC_BA_Status e' \<noteq> Recipient_NONE"
      "unat (rec_Wcid e') = x" "unat (rec_TID e') = y"
      "numAsRecipient ad' = numAsRecipient ad + 1"
  shows "rec_inv ad'"
proof -
  note inv = assms(2) [unfolded rec_inv_def]
  have len: "length (peers ad) = MAX_LEN_OF_MAC_TABLE" "length (BARecEntry ad) = MAX_LEN_OF_BA_TABLE"
    "length (BARecWcidArray (peer ad x)) = NUM_OF_TID"
    using assms(1,6) by (simp_all add: shape_ok_def)
  have "unat (word_of_nat i :: u16) = i" using assms(4) by (intro unat_of_nat_u16) (simp add: table_len)
  then have "ra ad' = (\<lambda>x' y'. if x' = x \<and> y' = y then i else ra ad x' y')"
    using assms(6,7,9,10) len by (auto simp: fun_eq_iff ra_def rec_index_def nth_list_update)
  moreover have "ru ad' = (ru ad)(i := True)" "rw ad' = (rw ad)(i := x)" "rt ad' = (rt ad)(i := y)"
    using assms(4,11-14) len by (auto simp: fun_eq_iff ru_def rw_def rt_def nth_list_update)
  moreover have "unat (numAsRecipient ad + 1) = Suc (unat (numAsRecipient ad))"
    using idx_inv_bound [OF inv] by (intro unat_succ) (simp add: table_len)
  ultimately show ?thesis
    using idx_inv_link [OF inv assms(3-8)] assms(15) by (simp add: rec_inv_def)
qed

lemma ori_link:
  assumes "shape_ok ad" "ori_inv ad" "0 < i" "i < MAX_LEN_OF_BA_TABLE" "\<not> ou ad i"
    "x < MAX_LEN_OF_MAC_TABLE" "y < NUM_OF_TID" "oa ad x y = 0"
    and "peers ad' = (peers ad)[x := p']"
      "BAOriWcidArray p' = (BAOriWcidArray (peer ad x))[y := word_of_nat i]"
      "BAOriEntry ad' = (BAOriEntry ad)[i := e']" "ORI_BA_Status e' \<noteq> Originator_NONE"
      "unat (ori_Wcid e') = x" "unat (ori_TID e') = y"
      "numAsOriginator ad' = numAsOriginator ad + 1"
  shows "ori_inv ad'"
proof -
  note inv = assms(2) [unfolded ori_inv_def]
  have len: "length (peers ad) = MAX_LEN_OF_MAC_TABLE" "length (BAOriEntry ad) = MAX_LEN_OF_BA_TABLE"
    "length (BAOriWcidArray (peer ad x)) = NUM_OF_TID"
    using assms(1,6) by (simp_all add: shape_ok_def)
  have "unat (word_of_nat i :: u16) = i" using assms(4) by (intro unat_of_nat_u16) (simp add: table_len)
  then have "oa ad' = (\<lambda>x' y'. if x' = x \<and> y' = y then i else oa ad x' y')"
    using assms(6,7,9,10) len by (auto simp: fun_eq_iff oa_def ori_index_def nth_list_update)
  moreover have "ou ad' = (ou ad)(i := True)" "ow ad' = (ow ad)(i := x)" "ot ad' = (ot ad)(i := y)"
    using assms(4,11-14) len by (auto simp: fun_eq_iff ou_def ow_def ot_def nth_list_update)
  moreover have "unat (numAsOriginator ad + 1) = Suc (unat (numAsOriginator ad))"
    using idx_inv_bound [OF inv] by (intro unat_succ) (simp add: table_len)
  ultimately show ?thesis
    using idx_inv_link [OF inv assms(3-8)] assms(15) by (simp add: ori_inv_def)
qed

text \<open>What the other table and the arrays' sizes do not depend on.\<close>

lemma ori_keep:
  assumes "\<And>x. BAOriWcidArray (peer ad' x) = BAOriWcidArray (peer ad x)"
    "BAOriEntry ad' = BAOriEntry ad" "numAsOriginator ad' = numAsOriginator ad"
  shows "ori_inv ad' = ori_inv ad" "oa ad' = oa ad"
proof -
  show "oa ad' = oa ad" using assms(1) by (simp add: fun_eq_iff oa_def ori_index_def)
  then show "ori_inv ad' = ori_inv ad" using assms views_cong(6-8) [of ad' ad] by (simp add: ori_inv_def)
qed

lemma rec_keep:
  assumes "\<And>x. BARecWcidArray (peer ad' x) = BARecWcidArray (peer ad x)"
    "\<And>i. (REC_BA_Status (rec_entry ad' i) = Recipient_NONE) =
          (REC_BA_Status (rec_entry ad i) = Recipient_NONE)"
    "\<And>i. rec_Wcid (rec_entry ad' i) = rec_Wcid (rec_entry ad i)"
    "\<And>i. rec_TID (rec_entry ad' i) = rec_TID (rec_entry ad i)"
    "numAsRecipient ad' = numAsRecipient ad"
  shows "rec_inv ad' = rec_inv ad" "ra ad' = ra ad"
proof -
  show "ra ad' = ra ad" using assms(1) by (simp add: fun_eq_iff ra_def rec_index_def)
  moreover have "ru ad' = ru ad" "rw ad' = rw ad" "rt ad' = rt ad"
    using assms(2-4) by (simp_all add: fun_eq_iff ru_def rw_def rt_def)
  ultimately show "rec_inv ad' = rec_inv ad" using assms(5) by (simp add: rec_inv_def)
qed

lemma shape_keep:
  assumes "shape_ok ad" "length (peers ad') = length (peers ad)"
    "\<And>x. length (BARecWcidArray (peer ad' x)) = length (BARecWcidArray (peer ad x))"
    "\<And>x. length (BAOriWcidArray (peer ad' x)) = length (BAOriWcidArray (peer ad x))"
    "\<And>x. peer_id (peer ad' x) = peer_id (peer ad x)"
    "length (BARecEntry ad') = length (BARecEntry ad)" "length (BAOriEntry ad') = length (BAOriEntry ad)"
  shows "shape_ok ad'"
  using assms by (simp add: shape_ok_def)

lemma lists_keep:
  assumes "lists_ok ad" "list_wf (freelist (ba_rx ad'))" "length (BARecEntry ad) = MAX_LEN_OF_BA_TABLE"
    "BARecEntry ad' = (BARecEntry ad)[i := e']" "rec_ok e'"
  shows "lists_ok ad'"
  unfolding lists_ok_def
proof (intro conjI allI impI)
  fix j assume "j < MAX_LEN_OF_BA_TABLE"
  then show "rec_ok (rec_entry ad' j)"
    using assms by (cases "j = i") (simp_all add: lists_ok_def)
qed (rule assms(2))

lemma nth_upd_f: "i < length xs \<Longrightarrow> f v = f (xs ! i) \<Longrightarrow> f (xs[i := v] ! j) = f (xs ! j)"
  by (cases "i = j") simp_all

lemma refresh_eq:
  "list_wf (reord e) \<Longrightarrow> ba_refresh_reordering_mpdus e st =
     (e\<lparr>reord := set_chain (reord e) [], LastIndSeq := RESET_RCV_SEQ\<rparr>, release_all (chain (reord e)) st)"
  by (simp add: ba_refresh_reordering_mpdus_def ba_refresh_loop_run)

lemma okD:
  assumes "ba_sessions_ok ad"
  shows "shape_ok ad" "lists_ok ad" "rec_inv ad" "ori_inv ad"
    "list_wf (freelist (ba_rx ad))" "i < MAX_LEN_OF_BA_TABLE \<Longrightarrow> list_wf (reord (rec_entry ad i))"
    "length (peers ad) = MAX_LEN_OF_MAC_TABLE" "length (BARecEntry ad) = MAX_LEN_OF_BA_TABLE"
    "length (BAOriEntry ad) = MAX_LEN_OF_BA_TABLE"
    "i < MAX_LEN_OF_BA_TABLE \<Longrightarrow> rec_ok (rec_entry ad i)"
  using assms by (simp_all add: ba_sessions_ok_def lists_ok_def shape_ok_def rec_ok_def)

text \<open>The entry behind a nonzero index.\<close>

lemma rec_indexed:
  assumes "ba_sessions_ok ad" "w < MAX_LEN_OF_MAC_TABLE" "t < NUM_OF_TID"
    "rec_index (peer ad w) t = i" "i \<noteq> 0"
  shows "i < MAX_LEN_OF_BA_TABLE" "REC_BA_Status (rec_entry ad i) \<noteq> Recipient_NONE"
    "unat (rec_Wcid (rec_entry ad i)) = w" "unat (rec_TID (rec_entry ad i)) = t"
  using idx_invD [OF okD(3) [OF assms(1), unfolded rec_inv_def] assms(2,3)] assms(4,5)
  by (auto simp: ra_def ru_def rw_def rt_def)

lemma ori_indexed:
  assumes "ba_sessions_ok ad" "w < MAX_LEN_OF_MAC_TABLE" "t < NUM_OF_TID"
    "ori_index (peer ad w) t = i" "i \<noteq> 0"
  shows "i < MAX_LEN_OF_BA_TABLE" "ORI_BA_Status (ori_entry ad i) \<noteq> Originator_NONE"
    "unat (ori_Wcid (ori_entry ad i)) = w" "unat (ori_TID (ori_entry ad i)) = t"
  using idx_invD [OF okD(4) [OF assms(1), unfolded ori_inv_def] assms(2,3)] assms(4,5)
  by (auto simp: oa_def ou_def ow_def ot_def)

lemma rec_index_bound:
  assumes "ba_sessions_ok ad" "w < MAX_LEN_OF_MAC_TABLE" "t < NUM_OF_TID"
  shows "rec_index (peer ad w) t < MAX_LEN_OF_BA_TABLE"
  using rec_indexed(1) [OF assms refl] by (cases "rec_index (peer ad w) t = 0") (simp_all add: table_len)

lemma ori_index_bound:
  assumes "ba_sessions_ok ad" "w < MAX_LEN_OF_MAC_TABLE" "t < NUM_OF_TID"
  shows "ori_index (peer ad w) t < MAX_LEN_OF_BA_TABLE"
  using ori_indexed(1) [OF assms refl] by (cases "ori_index (peer ad w) t = 0") (simp_all add: table_len)

text \<open>The owner's index of an entry in use.\<close>

lemma rec_owner:
  assumes "ba_sessions_ok ad" "i < MAX_LEN_OF_BA_TABLE"
  shows "rw ad i < MAX_LEN_OF_MAC_TABLE" "rt ad i < NUM_OF_TID"
    "0 < i \<Longrightarrow> ru ad i \<Longrightarrow> ra ad (rw ad i) (rt ad i) = i"
  using okD(3) [OF assms(1)] assms(2) by (simp_all add: rec_inv_def idx_inv_def)

lemma ori_owner:
  assumes "ba_sessions_ok ad" "i < MAX_LEN_OF_BA_TABLE"
  shows "ow ad i < MAX_LEN_OF_MAC_TABLE" "ot ad i < NUM_OF_TID"
    "0 < i \<Longrightarrow> ou ad i \<Longrightarrow> oa ad (ow ad i) (ot ad i) = i"
  using okD(4) [OF assms(1)] assms(2) by (simp_all add: ori_inv_def idx_inv_def)

subsection \<open>Freeing and tearing down\<close>

definition without :: "(nat \<Rightarrow> nat \<Rightarrow> nat) \<Rightarrow> nat \<Rightarrow> nat \<Rightarrow> nat \<Rightarrow> nat \<Rightarrow> nat" where
  "without a x y = (\<lambda>x' y'. if x' = x \<and> y' = y then 0 else a x' y')"

lemma free_ori_ok:
  assumes "ba_sessions_ok ad" "0 < i" "i < MAX_LEN_OF_BA_TABLE" "ou ad i"
  shows "\<exists>ad'. BATableFreeOriEntry i ad = Inr ad' \<and> ba_sessions_ok ad' \<and>
    oa ad' = without (oa ad) (ow ad i) (ot ad i) \<and> ra ad' = ra ad"
proof -
  let ?w = "ow ad i" and ?t = "ot ad i" and ?e = "ori_entry ad i"
  note b = ori_owner(1,2) [OF assms(1,3)]
  note ok = okD [OF assms(1)]
  have lw: "?w < length (peers ad)" using b ok(7) by simp
  obtain ad' where r: "BATableFreeOriEntry i ad = Inr ad'"
    using assms(2-4) b by (simp add: BATableFreeOriEntry_def Let_def ou_def ow_def ot_def not_le)
  define p' where "p' = peer ad' ?w"
  have rest: "BARecEntry ad' = BARecEntry ad" "ba_rx ad' = ba_rx ad"
      "numAsRecipient ad' = numAsRecipient ad" "numAsOriginator ad' = numAsOriginator ad - 1"
      "BAOriEntry ad' = (BAOriEntry ad)[i := ?e\<lparr>ORI_BA_Status := Originator_NONE, ori_Token := 0\<rparr>]"
    using r assms(2-4) b
    by (auto simp: BATableFreeOriEntry_def Let_def ou_def ow_def ot_def split: if_splits)
  have p: "peers ad' = (peers ad)[?w := p']"
    "BAOriWcidArray p' = (BAOriWcidArray (peer ad ?w))[?t := 0]"
    "BARecWcidArray p' = BARecWcidArray (peer ad ?w)" "peer_id p' = peer_id (peer ad ?w)"
    using r assms(2-4) b lw
    by (auto simp: BATableFreeOriEntry_def Let_def ou_def ow_def ot_def p'_def split: if_splits)
  have keep: "BARecWcidArray (peer ad' x) = BARecWcidArray (peer ad x)"
    "peer_id (peer ad' x) = peer_id (peer ad x)"
    "length (BAOriWcidArray (peer ad' x)) = length (BAOriWcidArray (peer ad x))" for x
    using p lw by (simp_all add: nth_list_update)
  have "length (peers ad') = length (peers ad)" by (simp add: p)
  then have sh: "shape_ok ad'" using ok(1) by (intro shape_keep [of ad ad']) (simp_all add: keep rest)
  have "ori_inv ad'"
    by (rule ori_unlink [OF ok(1,4) assms(2-4) p(1,2) rest(5)]) (simp_all add: rest)
  moreover have "rec_inv ad' = rec_inv ad" "ra ad' = ra ad"
    using rec_keep [of ad' ad] keep(1) rest by simp_all
  moreover have "lists_ok ad' = lists_ok ad" by (simp add: lists_ok_def rest)
  moreover have "oa ad' = without (oa ad) ?w ?t"
  proof -
    have "length (BAOriWcidArray (peer ad ?w)) = NUM_OF_TID" using ok(1) b by (simp add: shape_ok_def)
    then show ?thesis using p(1,2) lw b
      by (auto simp: fun_eq_iff oa_def ori_index_def without_def nth_list_update)
  qed
  ultimately show ?thesis using r sh ok by (simp add: ba_sessions_ok_def)
qed

lemma ori_teardown_ok:
  assumes "ba_sessions_ok ad" "w < MAX_LEN_OF_MAC_TABLE" "t < NUM_OF_TID"
  shows "\<exists>ad'. BAOriSessionTearDown k w t pas frc ad = Inr ad' \<and> ba_sessions_ok ad' \<and> ra ad' = ra ad \<and>
    oa ad' = (if oa ad w t \<noteq> 0 \<and> \<not> pas \<and> \<not> k \<and>
                 ORI_BA_Status (ori_entry ad (oa ad w t)) = Originator_Done
              then oa ad else without (oa ad) w t)"
proof -
  let ?i = "oa ad w t"
  have i: "ori_index (peer ad w) t = ?i" by (simp add: oa_def)
  show ?thesis
  proof (cases "?i = 0")
    case True
    have "without (oa ad) w t = oa ad" using True by (auto simp: without_def fun_eq_iff)
    then show ?thesis
      using assms True i
      by (auto simp: BAOriSessionTearDown_def views_cong [of "ba_emit ev ad" ad for ev])
  next
    case False
    note e = ori_indexed [OF assms i False]
    have uw: "ou ad ?i" "ow ad ?i = w" "ot ad ?i = t" using e by (simp_all add: ou_def ow_def ot_def)
    let ?del = "\<not> pas \<and> ORI_BA_Status (ori_entry ad ?i) = Originator_Done"
    let ?ad1 = "ba_emit (CancelTimer False ?i) (if ?del then ba_emit (SendDelba (word_of_nat w)
        (ori_TID (ori_entry ad ?i)) True) ad else ad)"
    have same: "peers ?ad1 = peers ad" "BAOriEntry ?ad1 = BAOriEntry ad" by simp_all
    have ok1: "ba_sessions_ok ?ad1" using assms(1) by simp
    have v: "ou ?ad1 = ou ad" "ow ?ad1 = ow ad" "ot ?ad1 = ot ad" "oa ?ad1 = oa ad" "ra ?ad1 = ra ad"
      using views_cong(1,2) [OF same(1)] views_cong(6-8) [OF same(2)] by simp_all
    have step: "BAOriSessionTearDown k w t pas frc ad =
        (if ?del \<and> \<not> k then Inr ad else BATableFreeOriEntry ?i ?ad1)"
      using assms(2,3) i False e(1,4)
      by (simp only: BAOriSessionTearDown_def Let_def not_le [symmetric]) auto
    show ?thesis
    proof (cases "?del \<and> \<not> k")
      case True
      then show ?thesis using step assms(1) False by auto
    next
      case nk: False
      obtain ad' where "BATableFreeOriEntry ?i ?ad1 = Inr ad'" "ba_sessions_ok ad'"
        "oa ad' = without (oa ad) w t" "ra ad' = ra ad"
        using free_ori_ok [OF ok1, of ?i] False e(1) uw v by auto
      then show ?thesis using step nk by auto
    qed
  qed
qed

text \<open>The state after the entry of a recipient session is freed, however its entry was changed before.\<close>

lemma free_rec_ok:
  assumes "ba_sessions_ok ad" "0 < i" "i < MAX_LEN_OF_BA_TABLE" "ru ad i"
    and "peers ad1 = (peers ad)[rw ad i := pn]"
      "BARecWcidArray pn = BARecWcidArray (peer ad (rw ad i)) \<or>
       BARecWcidArray pn = (BARecWcidArray (peer ad (rw ad i)))[rt ad i := 0]"
      "BAOriWcidArray pn = BAOriWcidArray (peer ad (rw ad i))"
      "peer_id pn = peer_id (peer ad (rw ad i))"
      "BARecEntry ad1 = (BARecEntry ad)[i := en]" "REC_BA_Status en = REC_BA_Status (rec_entry ad i)"
      "rec_Wcid en = rec_Wcid (rec_entry ad i)" "rec_TID en = rec_TID (rec_entry ad i)"
      "list_wf (reord en) \<and> chain (reord en) = []" "list_wf (freelist (ba_rx ad1))" "BAOriEntry ad1 = BAOriEntry ad"
      "numAsRecipient ad1 = numAsRecipient ad" "numAsOriginator ad1 = numAsOriginator ad"
  shows "\<exists>ad'. BATableFreeRecEntry i ad1 = Inr ad' \<and> ba_sessions_ok ad' \<and>
    ra ad' = without (ra ad) (rw ad i) (rt ad i) \<and> oa ad' = oa ad \<and> ba_rx ad' = ba_rx ad1"
proof -
  let ?w = "rw ad i" and ?t = "rt ad i"
  note b = rec_owner(1,2) [OF assms(1,3)]
  note ok = okD [OF assms(1)]
  have lw: "?w < length (peers ad)" and li: "i < length (BARecEntry ad)" using b ok(7,8) assms(3) by simp_all
  have en: "rec_entry ad1 i = en" "peer ad1 ?w = pn" using assms(5,9) lw li by simp_all
  have used: "REC_BA_Status en \<noteq> Recipient_NONE" using assms(4,10) by (simp add: ru_def)
  have we: "unat (rec_Wcid en) = ?w" "unat (rec_TID en) = ?t" using assms(11,12) by (simp_all add: rw_def rt_def)
  let ?p' = "pn\<lparr>BARecWcidArray := (BARecWcidArray pn)[?t := 0]\<rparr>"
  let ?e' = "en\<lparr>REC_BA_Status := Recipient_NONE\<rparr>"
  obtain ad' where r: "BATableFreeRecEntry i ad1 = Inr ad'"
    and q: "peers ad' = (peers ad)[?w := ?p']" "BARecEntry ad' = (BARecEntry ad)[i := ?e']"
      "BAOriEntry ad' = BAOriEntry ad" "ba_rx ad' = ba_rx ad1"
      "numAsRecipient ad' = numAsRecipient ad - 1" "numAsOriginator ad' = numAsOriginator ad"
    using assms(2,3,5,9,15-17) b used en we by (simp add: BATableFreeRecEntry_def Let_def not_le)
  have arr: "BARecWcidArray ?p' = (BARecWcidArray (peer ad ?w))[?t := 0]" using assms(6) by auto
  have sh: "shape_ok ad'"
    using ok(1) by (rule shape_keep)
      (use lw arr assms(7,8) in \<open>simp_all add: q nth_list_update\<close>)
  have "rec_inv ad'"
    by (rule rec_unlink [OF ok(1,3) assms(2-4) q(1) arr q(2)]) (simp_all add: q assms(11,12))
  moreover have "BAOriWcidArray (peer ad' x) = BAOriWcidArray (peer ad x)" for x
    using lw assms(7) q(1) by (simp add: nth_list_update)
  then have "ori_inv ad' = ori_inv ad" "oa ad' = oa ad"
    using ori_keep [of ad' ad] q(3,6) by simp_all
  moreover have "lists_ok ad'"
    by (rule lists_keep [OF ok(2) _ ok(8) q(2)]) (simp_all add: q assms(13,14) rec_ok_def)
  moreover have "ra ad' = without (ra ad) ?w ?t"
  proof -
    have "length (BARecWcidArray (peer ad ?w)) = NUM_OF_TID" using ok(1) b by (simp add: shape_ok_def)
    then show ?thesis using q(1) arr lw b
      by (auto simp: fun_eq_iff ra_def rec_index_def without_def nth_list_update)
  qed
  ultimately show ?thesis using r sh ok q(4) by (simp add: ba_sessions_ok_def)
qed

lemma rec_teardown_ok:
  assumes "ba_sessions_ok ad" "w < MAX_LEN_OF_MAC_TABLE" "t < NUM_OF_TID"
  shows "\<exists>ad'. BARecSessionTearDown k w t pas ad = Inr ad' \<and> ba_sessions_ok ad' \<and> oa ad' = oa ad \<and>
    ra ad' = (if ra ad w t \<noteq> 0 \<and> \<not> pas \<and> \<not> k then ra ad else without (ra ad) w t) \<and>
    ba_rx ad' = (if ra ad w t \<noteq> 0 \<and> (pas \<or> k)
                 then release_all (buffered (rec_entry ad (ra ad w t))) (ba_rx ad) else ba_rx ad)"
proof -
  let ?i = "ra ad w t"
  have i: "rec_index (peer ad w) t = ?i" by (simp add: ra_def)
  show ?thesis
  proof (cases "?i = 0")
    case True
    have "without (ra ad) w t = ra ad" using True by (auto simp: without_def fun_eq_iff)
    then show ?thesis using assms True i by (simp add: BARecSessionTearDown_def not_le)
  next
    case False
    note e = rec_indexed [OF assms i False]
    have uw: "ru ad ?i" "rw ad ?i = w" "rt ad ?i = t" using e by (simp_all add: ru_def rw_def rt_def)
    have pos: "0 < ?i" using False by simp
    let ?e = "rec_entry ad ?i"
    note lwf = okD(6) [OF assms(1) e(1)]
    show ?thesis
    proof (cases "REC_BA_Status ?e = Recipient_Accept")
      case acc: True
      show ?thesis
      proof (cases "\<not> pas \<and> \<not> k")
        case True
        then have "BARecSessionTearDown k w t pas ad = Inr (ba_emit (CancelTimer True ?i) ad)"
          using assms(2,3) i False e(1,4) acc by (simp add: BARecSessionTearDown_def Let_def not_le)
        then show ?thesis
          using assms(1) True False acc by (simp add: views_cong [of "ba_emit ev ad" ad for ev])
      next
        case nk: False
        let ?ad2 = "(if \<not> pas then ba_emit (SendDelba (word_of_nat w) (word_of_nat t) False)
            (ba_emit (CancelTimer True ?i) ad) else ba_emit (CancelTimer True ?i) ad)"
        let ?e1 = "?e\<lparr>reord := set_chain (reord ?e) [], LastIndSeq := RESET_RCV_SEQ, rec_BAWinSize := 0\<rparr>"
        let ?ad3 = "upd_rec ?i (\<lambda>_. ?e1) (?ad2\<lparr>ba_rx := release_all (chain (reord ?e)) (ba_rx ?ad2)\<rparr>)"
        let ?ad4 = "ba_emit (AsicDelSession (word_of_nat w) (word_of_nat t))
            (upd_peer w (\<lambda>p. p\<lparr>RXBAbitmap := RXBAbitmap p AND NOT (tid_bit (unat (rec_TID ?e))),
                            BARecWcidArray := (BARecWcidArray p)[t := 0]\<rparr>) ?ad3)"
        have step: "BARecSessionTearDown k w t pas ad = BATableFreeRecEntry ?i ?ad4"
          using assms(2,3) i False e(1,4) acc nk lwf
          by (auto simp: BARecSessionTearDown_def Let_def not_le refresh_eq)
        have "\<exists>ad'. BATableFreeRecEntry ?i ?ad4 = Inr ad' \<and> ba_sessions_ok ad' \<and>
            ra ad' = without (ra ad) (rw ad ?i) (rt ad ?i) \<and> oa ad' = oa ad \<and> ba_rx ad' = ba_rx ?ad4"
          by (rule free_rec_ok [OF assms(1) pos e(1) uw(1), where pn = "(peer ad w)\<lparr>RXBAbitmap :=
                RXBAbitmap (peer ad w) AND NOT (tid_bit (unat (rec_TID ?e))),
                BARecWcidArray := (BARecWcidArray (peer ad w))[t := 0]\<rparr>" and en = ?e1])
            (use okD(5) [OF assms(1)] in \<open>simp_all add: uw\<close>)
        then show ?thesis using step nk uw pos by auto
      qed
    next
      case False
      then show ?thesis using okD(10) [OF assms(1) e(1)] e(2) by (simp add: rec_ok_def)
    qed
  qed
qed

subsection \<open>Operations on the buffer of an entry\<close>

text \<open>
  What every operation on an entry's buffer keeps, without the window invariant: it does not fault,
  the lists stay well-formed and the entry belongs to the same session.
\<close>

definition keeps :: "ba_rec_entry \<Rightarrow> c_fault + ba_rec_entry \<times> rx_state \<Rightarrow> bool" where
  "keeps e r \<longleftrightarrow> (\<exists>e' st'. r = Inr (e', st') \<and> list_wf (reord e') \<and> list_wf (freelist st') \<and>
     rec_Wcid e' = rec_Wcid e \<and> rec_TID e' = rec_TID e \<and> REC_BA_Status e' = REC_BA_Status e)"

lemma keepsI:
  "list_wf (reord e') \<Longrightarrow> list_wf (freelist st') \<Longrightarrow> rec_Wcid e' = rec_Wcid e \<Longrightarrow> rec_TID e' = rec_TID e \<Longrightarrow>
   REC_BA_Status e' = REC_BA_Status e \<Longrightarrow> keeps e (Inr (e', st'))"
  by (simp add: keeps_def)

lemma keeps_cong:
  "keeps e1 r \<Longrightarrow> rec_Wcid e1 = rec_Wcid e \<Longrightarrow> rec_TID e1 = rec_TID e \<Longrightarrow>
   REC_BA_Status e1 = REC_BA_Status e \<Longrightarrow> keeps e r"
  by (auto simp: keeps_def)

lemma keeps_bind:
  assumes "keeps e r" and "\<And>e' st'. r = Inr (e', st') \<Longrightarrow> list_wf (reord e') \<Longrightarrow> list_wf (freelist st') \<Longrightarrow>
    rec_Wcid e' = rec_Wcid e \<Longrightarrow> rec_TID e' = rec_TID e \<Longrightarrow> REC_BA_Status e' = REC_BA_Status e \<Longrightarrow>
    keeps e (f e' st')"
  shows "keeps e (case r of Inl x \<Rightarrow> Inl x | Inr (e', st') \<Rightarrow> f e' st')"
  using assms by (auto simp: keeps_def)

lemma log_wf [simp]: "freelist (log_event ev st) = freelist st"
  by (simp add: log_event_def)

lemma free_wf [simp]: "list_wf (freelist st) \<Longrightarrow> list_wf (freelist (ba_mpdu_blk_free st b))"
  by (simp add: ba_mpdu_blk_free_def ba_enqueue_def list_wf_def)

lemma take_block_wf [simp]: "list_wf (freelist st) \<Longrightarrow> list_wf (freelist (take_block st))"
  by (simp add: take_block_def)

lemma in_order_keeps:
  assumes "list_wf (reord e)" "list_wf (freelist st)"
  shows "keeps e (case ba_indicate_reordering_mpdus_in_order e st l of
      Inl f \<Rightarrow> Inl f
    | Inr (s, e1, st1) \<Rightarrow> Inr ((if s \<noteq> RESET_RCV_SEQ then e1\<lparr>LastIndSeq := s\<rparr> else e1), st1))"
  using assms by (auto simp: in_order_eq Let_def intro!: keepsI)

lemma le_seq_keeps:
  assumes "list_wf (reord e)" "list_wf (freelist st)"
  shows "keeps e (ba_indicate_reordering_mpdus_le_seq e st t)"
  using assms by (simp add: ba_indicate_reordering_mpdus_le_seq_def ba_le_seq_loop_run keepsI)

lemma insert_chain_length: "ba_insert_chain ms m = Some ns \<Longrightarrow> length ns = Suc (length ms)"
  by (induction ms arbitrary: ns) (auto split: if_splits)

lemma insertsorted_wf:
  "list_wf l \<Longrightarrow> ba_reordering_mpdu_insertsorted l m = (ok, l') \<Longrightarrow> list_wf l'"
  by (auto simp: ba_reordering_mpdu_insertsorted_def list_wf_def dest: insert_chain_length
      split: option.splits)

lemma enqueue_keeps:
  assumes "list_wf (reord e)" "list_wf (freelist st)"
  shows "keeps e (ba_enqueue_reordering_packet e st rx)"
proof (cases "cannot_queue st rx")
  case True
  have "keeps e (case ba_indicate_reordering_mpdus_le_seq e (take_block st) (rx_Sequence rx) of
      Inl f \<Rightarrow> Inl f
    | Inr (e1, st2) \<Rightarrow> Inr (e1\<lparr>LastIndSeq := rx_Sequence rx\<rparr>, INDICATE_LEGACY_OR_AMSDU st2 rx))"
    using assms by (intro keeps_bind [OF le_seq_keeps] keepsI) simp_all
  then show ?thesis using True
    by (auto simp: ba_enqueue_reordering_packet_def take_block_dequeue [OF assms(2)] cannot_queue_def
        split: list.splits)
next
  case False
  then obtain b bs where fl: "chain (freelist st) = b # bs" and "\<not> rx_EAP rx"
    by (cases "chain (freelist st)") (auto simp: cannot_queue_def)
  obtain ok l where i: "ba_reordering_mpdu_insertsorted (reord e) (rx_mpdu rx b) = (ok, l)" by fastforce
  show ?thesis
    using fl \<open>\<not> rx_EAP rx\<close> i insertsorted_wf [OF assms(1) i] assms(2)
    by (simp add: ba_enqueue_reordering_packet_def take_block_dequeue [OF assms(2)]
        rx_mpdu_def [symmetric] keepsI)
qed

lemma check_sequence_keeps:
  assumes "list_wf (reord e)" "list_wf (freelist st)"
  shows "keeps e (ba_check_sequence e st rx now)"
proof -
  let ?e1 = "e\<lparr>LastIndSeq := rx_Sequence rx\<rparr>" and ?st1 = "INDICATE_LEGACY_OR_AMSDU st rx"
  have "keeps ?e1 (case ba_indicate_reordering_mpdus_in_order ?e1 ?st1 (rx_Sequence rx) of
      Inl f \<Rightarrow> Inl f
    | Inr (s, e1, st1) \<Rightarrow> Inr ((if s \<noteq> RESET_RCV_SEQ then e1\<lparr>LastIndSeq := s\<rparr> else e1), st1))"
    using assms by (intro in_order_keeps) simp_all
  then have ord: "keeps e (case ba_indicate_reordering_mpdus_in_order ?e1 ?st1 (rx_Sequence rx) of
      Inl f \<Rightarrow> Inl f
    | Inr (s, e1, st1) \<Rightarrow> let e2 = (if s \<noteq> RESET_RCV_SEQ then e1\<lparr>LastIndSeq := s\<rparr> else e1)
        in Inr (e2\<lparr>LastIndSeqAtTimer := now\<rparr>, st1))"
    by (auto simp: keeps_def Let_def split: sum.splits prod.splits if_splits)
  have win: "keeps e (case ba_indicate_reordering_mpdus_le_seq e st ws of
           Inl f \<Rightarrow> Inl f
         | Inr (e1, st1) \<Rightarrow>
           (case ba_enqueue_reordering_packet
                (e1\<lparr>LastIndSeq := ws, LastIndSeqAtTimer := now\<rparr>) st1 rx of
              Inl f \<Rightarrow> Inl f
            | Inr (e2, st2) \<Rightarrow>
              (case ba_indicate_reordering_mpdus_in_order e2 st2 (LastIndSeq e2) of
                 Inl f \<Rightarrow> Inl f
               | Inr (s, e3, st3) \<Rightarrow>
                   Inr (if s \<noteq> RESET_RCV_SEQ then e3\<lparr>LastIndSeq := s\<rparr> else e3, st3))))" for ws
  proof (rule keeps_bind [OF le_seq_keeps [OF assms]])
    fix e1 :: ba_rec_entry and st1 :: rx_state
    assume w: "list_wf (reord e1)" "list_wf (freelist st1)" "rec_Wcid e1 = rec_Wcid e"
      "rec_TID e1 = rec_TID e" "REC_BA_Status e1 = REC_BA_Status e"
    let ?e = "e1\<lparr>LastIndSeq := ws, LastIndSeqAtTimer := now\<rparr>"
    show "keeps e (case ba_enqueue_reordering_packet ?e st1 rx of
              Inl f \<Rightarrow> Inl f
            | Inr (e2, st2) \<Rightarrow>
              (case ba_indicate_reordering_mpdus_in_order e2 st2 (LastIndSeq e2) of
                 Inl f \<Rightarrow> Inl f
               | Inr (s, e3, st3) \<Rightarrow>
                   Inr (if s \<noteq> RESET_RCV_SEQ then e3\<lparr>LastIndSeq := s\<rparr> else e3, st3)))"
    proof (rule keeps_bind)
      show "keeps e (ba_enqueue_reordering_packet ?e st1 rx)"
        by (rule keeps_cong [OF enqueue_keeps]) (use w in simp_all)
    qed (rule keeps_cong [OF in_order_keeps]; simp)
  qed
  have old: "keeps e (Inr (e\<lparr>nDropPacket := nDropPacket e + 1\<rparr>, log_event (FreeSkb (rx_pRxPacket rx)) st))"
    "keeps e (Inr (e\<lparr>LastIndSeq := rx_Sequence rx, LastIndSeqAtTimer := now\<rparr>, ?st1))"
    using assms by (auto intro!: keepsI)
  show ?thesis
    unfolding ba_check_sequence_def Let_def
    using ord [unfolded Let_def] win old enqueue_keeps [OF assms] by (simp only: if_split) blast
qed

lemma flush_keeps:
  assumes "list_wf (reord e)" "list_wf (freelist st)"
  shows "keeps e (ba_flush_reordering_timeout_mpdus hz e st now)"
proof -
  have one: "keeps e (case ba_indicate_reordering_mpdus_le_seq e st t of
           Inl f \<Rightarrow> Inl f
         | Inr (e1, st1) \<Rightarrow>
           (case ba_indicate_reordering_mpdus_in_order
                (e1\<lparr>LastIndSeqAtTimer := now, LastIndSeq := t\<rparr>) st1 t of
              Inl f \<Rightarrow> Inl f
            | Inr (s, e2, st2) \<Rightarrow>
                Inr (if s \<noteq> RESET_RCV_SEQ then e2\<lparr>LastIndSeq := s\<rparr> else e2, st2)))" for t
  proof (rule keeps_bind [OF le_seq_keeps [OF assms]])
    fix e1 :: ba_rec_entry and st1 :: rx_state
    assume w: "list_wf (reord e1)" "list_wf (freelist st1)" "rec_Wcid e1 = rec_Wcid e"
      "rec_TID e1 = rec_TID e" "REC_BA_Status e1 = REC_BA_Status e"
    show "keeps e (case ba_indicate_reordering_mpdus_in_order
                (e1\<lparr>LastIndSeqAtTimer := now, LastIndSeq := t\<rparr>) st1 t of
              Inl f \<Rightarrow> Inl f
            | Inr (s, e2, st2) \<Rightarrow>
                Inr (if s \<noteq> RESET_RCV_SEQ then e2\<lparr>LastIndSeq := s\<rparr> else e2, st2))"
      by (rule keeps_cong [OF in_order_keeps]) (use w in simp_all)
  qed
  have "keeps e (let (e1, st1) = ba_refresh_reordering_mpdus e st
           in Inr (e1\<lparr>LastIndSeqAtTimer := now\<rparr>, st1))"
    using assms by (simp add: refresh_eq keepsI)
  moreover have "keeps e (Inr (e, st))" using assms by (simp add: keepsI)
  ultimately show ?thesis
    unfolding ba_flush_reordering_timeout_mpdus_def Let_def
    using one by (simp only: if_split) (simp add: Let_def)
qed

lemma receive_keeps:
  assumes "list_wf (reord e)" "list_wf (freelist st)"
  shows "keeps e (ba_receive hz e st rx now)"
  unfolding ba_receive_def
proof (rule keeps_bind)
  show "keeps e (ba_flush_reordering_timeout_mpdus hz (e\<lparr>rcvSeq := ucast (rx_Sequence rx)\<rparr>) st now)"
    by (rule keeps_cong [OF flush_keeps]) (use assms in simp_all)
qed (rule keeps_cong [OF check_sequence_keeps]; simp)

lemma handle_bar_keeps:
  assumes "list_wf (reord e)" "list_wf (freelist st)"
  shows "keeps e (ba_handle_bar e st t)"
proof -
  have "keeps e (case ba_indicate_reordering_mpdus_le_seq e st t of
           Inl f \<Rightarrow> Inl f
         | Inr (e1, st1) \<Rightarrow> Inr (e1\<lparr>LastIndSeq := (if t = 0 then MAXSEQ else t - 1)\<rparr>, st1))"
    by (intro keeps_bind [OF le_seq_keeps [OF assms]] keepsI) simp_all
  then show ?thesis using assms by (simp add: ba_handle_bar_def keepsI)
qed

subsection \<open>Setting up\<close>

definition with_index :: "(nat \<Rightarrow> nat \<Rightarrow> nat) \<Rightarrow> nat \<Rightarrow> nat \<Rightarrow> nat \<Rightarrow> nat \<Rightarrow> nat \<Rightarrow> nat" where
  "with_index a x y i = (\<lambda>x' y'. if x' = x \<and> y' = y then i else a x' y')"

lemma count_full: "(n :: ulong) \<ge> word_of_nat (MAX_LEN_OF_BA_TABLE - 1) \<longleftrightarrow> MAX_LEN_OF_BA_TABLE - 1 \<le> unat n"
proof -
  have "unat (word_of_nat (MAX_LEN_OF_BA_TABLE - 1) :: ulong) = MAX_LEN_OF_BA_TABLE - 1"
    by (simp add: table_len)
  then show ?thesis by (simp only: word_le_nat_alt)
qed

lemma rec_alloc_cases:
  assumes "ba_sessions_ok ad"
  obtains (full) "BATableAllocRecEntry ad = (None, None, ad)"
      "unat (numAsRecipient ad) = MAX_LEN_OF_BA_TABLE - 1"
  | (found) i where "0 < i" "i < MAX_LEN_OF_BA_TABLE" "\<not> ru ad i"
      "BATableAllocRecEntry ad = (Some i, Some i,
         upd_rec i (\<lambda>e. e\<lparr>REC_BA_Status := Recipient_USED\<rparr>)
           (ad\<lparr>numAsRecipient := numAsRecipient ad + 1\<rparr>))"
proof -
  note inv = okD(3) [OF assms, unfolded rec_inv_def]
  show thesis
  proof (cases "numAsRecipient ad \<ge> word_of_nat (MAX_LEN_OF_BA_TABLE - 1)")
    case True
    then have "MAX_LEN_OF_BA_TABLE - 1 \<le> unat (numAsRecipient ad)"
      by (simp only: count_full)
    with idx_inv_bound [OF inv] show thesis by (intro full) (simp_all only: BATableAllocRecEntry_def True if_True le_antisym)
  next
    case False
    then have "unat (numAsRecipient ad) < MAX_LEN_OF_BA_TABLE - 1"
      by (simp only: count_full not_le)
    from idx_inv_free [OF inv this] obtain j where j: "0 < j" "j < MAX_LEN_OF_BA_TABLE" "\<not> ru ad j" by blast
    let ?P = "\<lambda>i. REC_BA_Status (rec_entry ad i) = Recipient_NONE"
    have "find ?P [1..<MAX_LEN_OF_BA_TABLE] \<noteq> None" using j by (auto simp: find_upt_None ru_def Suc_le_eq)
    then obtain i where i: "find ?P [1..<MAX_LEN_OF_BA_TABLE] = Some i" by blast
    show thesis
      using find_upt_Some [OF i] by (intro found [of i]) (auto simp only: BATableAllocRecEntry_def False i ru_def if_False option.case)
  qed
qed

lemma ori_alloc_cases:
  assumes "ba_sessions_ok ad"
  obtains (full) "BATableAllocOriEntry ad = (None, None, ad)"
      "unat (numAsOriginator ad) = MAX_LEN_OF_BA_TABLE - 1"
  | (found) i where "0 < i" "i < MAX_LEN_OF_BA_TABLE" "\<not> ou ad i"
      "BATableAllocOriEntry ad = (Some i, Some i,
         upd_ori i (\<lambda>e. e\<lparr>ORI_BA_Status := Originator_USED\<rparr>)
           (ad\<lparr>numAsOriginator := numAsOriginator ad + 1\<rparr>))"
proof -
  note inv = okD(4) [OF assms, unfolded ori_inv_def]
  show thesis
  proof (cases "numAsOriginator ad \<ge> word_of_nat (MAX_LEN_OF_BA_TABLE - 1)")
    case True
    then have "MAX_LEN_OF_BA_TABLE - 1 \<le> unat (numAsOriginator ad)"
      by (simp only: count_full)
    with idx_inv_bound [OF inv] show thesis by (intro full) (simp_all only: BATableAllocOriEntry_def True if_True le_antisym)
  next
    case False
    then have "unat (numAsOriginator ad) < MAX_LEN_OF_BA_TABLE - 1"
      by (simp only: count_full not_le)
    from idx_inv_free [OF inv this] obtain j where j: "0 < j" "j < MAX_LEN_OF_BA_TABLE" "\<not> ou ad j" by blast
    let ?P = "\<lambda>i. ORI_BA_Status (ori_entry ad i) = Originator_NONE"
    have "find ?P [1..<MAX_LEN_OF_BA_TABLE] \<noteq> None" using j by (auto simp: find_upt_None ou_def Suc_le_eq)
    then obtain i where i: "find ?P [1..<MAX_LEN_OF_BA_TABLE] = Some i" by blast
    show thesis
      using find_upt_Some [OF i] by (intro found [of i]) (auto simp only: BATableAllocOriEntry_def False i ou_def if_False option.case)
  qed
qed

end
