(* ===== verification/BaSessionOps.thy ===== *)
theory BaSessionOps
  imports BaSessionProps
begin

text \<open>
  Session set-up, data frames and timers keep the invariant of the session tables; the handlers as one
  step relation; what the peers' frames can and cannot do to the tables.
\<close>

subsection \<open>An entry changes in place\<close>

lemma entry_update_ok:
  assumes "ba_sessions_ok ad" "i < MAX_LEN_OF_BA_TABLE" "BARecEntry ad' = (BARecEntry ad)[i := e']"
    "peers ad' = peers ad" "BAOriEntry ad' = BAOriEntry ad" "numAsRecipient ad' = numAsRecipient ad"
    "numAsOriginator ad' = numAsOriginator ad" "list_wf (freelist (ba_rx ad'))" "rec_ok e'"
    "rec_Wcid e' = rec_Wcid (rec_entry ad i)" "rec_TID e' = rec_TID (rec_entry ad i)"
    "REC_BA_Status e' = REC_BA_Status (rec_entry ad i)"
  shows "ba_sessions_ok ad'" "ra ad' = ra ad" "oa ad' = oa ad"
proof -
  note ok = okD [OF assms(1)]
  have li: "i < length (BARecEntry ad)" using ok(8) assms(2) by simp
  have e: "f e' = f (rec_entry ad i) \<Longrightarrow> f (rec_entry ad' j) = f (rec_entry ad j)"
    for f :: "ba_rec_entry \<Rightarrow> 'a" and j
    unfolding assms(3) by (rule nth_upd_f [OF li])
  have r: "rec_inv ad' = rec_inv ad" "ra ad' = ra ad"
    by (rule rec_keep; simp add: assms(4,6) e [of rec_Wcid] e [of rec_TID] e [of REC_BA_Status] assms(10-12))+
  have o': "ori_inv ad' = ori_inv ad" "oa ad' = oa ad" by (rule ori_keep; simp add: assms)+
  have "shape_ok ad'" using ok(1) by (rule shape_keep) (simp_all add: assms)
  moreover have "lists_ok ad'" by (rule lists_keep [OF ok(2) assms(8) ok(8) assms(3,9)])
  ultimately show "ba_sessions_ok ad'" using ok(3,4) r o' by (simp add: ba_sessions_ok_def)
  show "ra ad' = ra ad" "oa ad' = oa ad" by (rule r(2), rule o'(2))
qed

subsection \<open>A recipient session is set up\<close>

definition accepted_entry :: "ba_adapter \<Rightarrow> nat \<Rightarrow> addba_frame \<Rightarrow> ba_rec_entry \<Rightarrow> bool" where
  "accepted_entry ad w fr e \<longleftrightarrow> ba_entry_wf e \<and> buffered e = [] \<and> LastIndSeq e = RESET_RCV_SEQ \<and>
     REC_BA_Status e = Recipient_Accept \<and> unat (rec_Wcid e) = w \<and> unat (rec_TID e) = fr_TID fr \<and>
     rec_BAWinSize e = (let b = min (word_of_nat (fr_BufSize fr)) (RxBAWinLimit ad)
                        in if b = 0 then 64 else b)"

lemma unat_tid: "t < NUM_OF_TID \<Longrightarrow> unat (word_of_nat t :: u8) = t"
  by (simp add: unat_of_nat table_len)

lemma rec_add_ok:
  assumes "ba_sessions_ok ad" "w < MAX_LEN_OF_MAC_TABLE" "fr_TID fr < NUM_OF_TID" "is_ht_sta (peer ad w)"
  shows "\<exists>acc ad'. BARecSessionAdd w fr ad = Inr (acc, ad') \<and> ba_sessions_ok ad' \<and> oa ad' = oa ad \<and>
    (if acc then ra ad' w (fr_TID fr) \<noteq> 0 \<and> ra ad' = with_index (ra ad) w (fr_TID fr) (ra ad' w (fr_TID fr)) \<and>
       accepted_entry ad w fr (rec_entry ad' (ra ad' w (fr_TID fr)))
     else ad' = ad \<and> ra ad w (fr_TID fr) = 0 \<and> unat (numAsRecipient ad) = MAX_LEN_OF_BA_TABLE - 1)"
proof -
  let ?t = "fr_TID fr" and ?i0 = "ra ad w (fr_TID fr)" and ?p = "peer ad w"
  let ?b = "min (word_of_nat (fr_BufSize fr)) (RxBAWinLimit ad) :: u8"
  let ?win = "if ?b = 0 then 64 else ?b"
  note ok = okD [OF assms(1)]
  have i0: "rec_index ?p ?t = ?i0" "?i0 < MAX_LEN_OF_BA_TABLE"
    using rec_index_bound [OF assms(1-3)] by (simp_all add: ra_def)
  have lw: "w < length (peers ad)" using ok(7) assms(2) by simp
  have arr: "length (BARecWcidArray ?p) = NUM_OF_TID" "unat (peer_wcid ?p) = w"
    using ok(1) assms(2,4) by (simp_all add: shape_ok_def peer_id_def)
  let ?ent = "\<lambda>e. e\<lparr>rec_BAWinSize := ?win, rec_Wcid := peer_wcid ?p,
                 rec_TID := word_of_nat ?t, rec_TimeOutValue := fr_TimeOut fr,
                 REC_BA_Status := Recipient_Accept, LastIndSeq := RESET_RCV_SEQ\<rparr>"
  let ?peer = "\<lambda>i p. p\<lparr>RXBAbitmap := RXBAbitmap p OR tid_bit ?t,
                 BARecWcidArray := (BARecWcidArray p)[?t := word_of_nat i],
                 BADeclineBitmap := BADeclineBitmap p AND NOT (tid_bit ?t)\<rparr>"
  let ?fin = "\<lambda>i ad1. ba_emit (AsicAddSession (peer_wcid ?p) (word_of_nat ?t)) (upd_peer w (?peer i)
      (ba_emit (if RXBAbitmap ?p AND tid_bit ?t \<noteq> 0 then CancelTimer True i else InitTimer True i)
        (upd_rec i ?ent ad1)))"
  have acc: "accepted_entry ad w fr (?ent e)" if "list_wf (reord e)" "chain (reord e) = []" for e
    using that assms(3) arr by (simp add: accepted_entry_def ba_entry_wf_def unat_tid Let_def)
  show ?thesis
  proof (cases "?i0 = 0")
    case new: True
    from assms(1) show ?thesis
    proof (cases rule: rec_alloc_cases)
      case full
      then show ?thesis using assms new i0
        by (intro exI [of _ False] exI [of _ ad]) (simp add: BARecSessionAdd_def Let_def not_le)
    next
      case (found i)
      let ?ad1 = "upd_rec i (\<lambda>e. e\<lparr>REC_BA_Status := Recipient_USED\<rparr>)
          (ad\<lparr>numAsRecipient := numAsRecipient ad + 1\<rparr>)"
      let ?ad = "?fin i ?ad1" and ?e = "?ent (rec_entry ad i)"
      have li: "i < length (BARecEntry ad)" using ok(8) found(2) by simp
      have run: "BARecSessionAdd w fr ad = Inr (True, ?ad)"
        using assms(3) new i0 found(4) by (simp add: BARecSessionAdd_def Let_def not_le)
      have q: "peers ?ad = (peers ad)[w := ?peer i ?p]" "BARecEntry ?ad = (BARecEntry ad)[i := ?e]"
        "BAOriEntry ?ad = BAOriEntry ad" "numAsRecipient ?ad = numAsRecipient ad + 1"
        "numAsOriginator ?ad = numAsOriginator ad" "ba_rx ?ad = ba_rx ad"
        using li by simp_all
      have ro: "list_wf (reord (rec_entry ad i))" "buffered (rec_entry ad i) = []"
        using ok(10) [OF found(2)] found(3) by (simp_all add: rec_ok_def ru_def)
      have iu: "unat (word_of_nat i :: u16) = i"
        using found(2) by (intro unat_of_nat_u16) (simp add: table_len)
      have "rec_inv ?ad"
        by (rule rec_link [OF ok(1,3) found(1-3) assms(2,3) new q(1) _ q(2)])
          (use assms(3) arr in \<open>simp_all add: unat_tid\<close>)
      moreover have ori: "ori_inv ?ad = ori_inv ad" "oa ?ad = oa ad"
        by (rule ori_keep; use lw in \<open>simp add: nth_list_update\<close>)+
      moreover have "shape_ok ?ad"
        using ok(1) by (rule shape_keep) (use lw in \<open>simp_all add: nth_list_update\<close>)
      moreover have "lists_ok ?ad"
        by (rule lists_keep [OF ok(2) _ ok(8) q(2)]) (use ok(5) ro in \<open>simp_all add: rec_ok_def\<close>)
      ultimately have "ba_sessions_ok ?ad" using ok(4) by (simp only: ba_sessions_ok_def ori simp_thms)
      moreover have "ra ?ad = with_index (ra ad) w ?t i"
        using q(1) lw arr assms(3) iu
        by (auto simp: fun_eq_iff ra_def rec_index_def with_index_def nth_list_update)
      then have "ra ?ad w ?t = i" "ra ?ad = with_index (ra ad) w ?t (ra ?ad w ?t)"
        by (simp_all add: with_index_def)
      moreover have "accepted_entry ad w fr (rec_entry ?ad i)"
        using acc [OF ro] q(2) li by simp
      ultimately show ?thesis using run ori(2) found(1) by (intro exI [of _ True] exI [of _ ?ad]) simp
    qed
  next
    case old: False
    note e = rec_indexed [OF assms(1-3) i0(1) old]
    let ?old = "rec_entry ad ?i0"
    let ?ref = "?old\<lparr>reord := set_chain (reord ?old) [], LastIndSeq := RESET_RCV_SEQ\<rparr>"
    let ?ad1 = "upd_rec ?i0 (\<lambda>_. ?ref) (ad\<lparr>ba_rx := release_all (buffered ?old) (ba_rx ad)\<rparr>)"
    let ?ad = "?fin ?i0 ?ad1"
    have li: "?i0 < length (BARecEntry ad)" using ok(8) i0(2) by simp
    have run: "BARecSessionAdd w fr ad = Inr (True, ?ad)"
      using assms(3) old i0 ok(6) [OF e(1)] by (simp add: BARecSessionAdd_def Let_def not_le refresh_eq)
    have wc: "peer_wcid ?p = rec_Wcid ?old" "word_of_nat ?t = rec_TID ?old"
      using arr(2) e(3,4) assms(3) by (simp_all add: word_unat_eq_iff unat_tid)
    have st: "REC_BA_Status ?old = Recipient_Accept"
      using ok(10) [OF e(1)] e(2) by (simp add: rec_ok_def)
    have "word_of_nat ?i0 = BARecWcidArray ?p ! ?t" by (simp add: ra_def rec_index_def)
    then have same: "(BARecWcidArray ?p)[?t := word_of_nat ?i0] = BARecWcidArray ?p" by simp
    have okp: "ba_sessions_ok (upd_peer w (\<lambda>p. p\<lparr>RXBAbitmap := RXBAbitmap p OR tid_bit ?t,
        BADeclineBitmap := BADeclineBitmap p AND NOT (tid_bit ?t)\<rparr>) ad)" (is "ba_sessions_ok ?adp")
      using ok_peer_keep [of "\<lambda>p. p\<lparr>RXBAbitmap := RXBAbitmap p OR tid_bit ?t,
        BADeclineBitmap := BADeclineBitmap p AND NOT (tid_bit ?t)\<rparr>" w ad] assms(1) by simp
    have views: "ra ?adp = ra ad" "oa ?adp = oa ad"
      using lw by (simp_all add: fun_eq_iff ra_def oa_def rec_index_def ori_index_def nth_list_update)
    have ent: "BARecEntry ?ad = (BARecEntry ad)[?i0 := ?ent ?ref]" using li by simp
    have "peers ?ad = peers ?adp" using same by simp
    then have fin0: "ba_sessions_ok ?ad" "ra ?ad = ra ?adp" "oa ?ad = oa ?adp"
      by (intro entry_update_ok [OF okp e(1), where e' = "?ent ?ref"];
          use li ok(5) st wc ok(6) [OF e(1)] in \<open>simp add: rec_ok_def\<close>)+
    have fin: "ba_sessions_ok ?ad" "ra ?ad = ra ad" "oa ?ad = oa ad"
      using fin0(1) fin0(2,3) [unfolded views] by simp_all
    have "ra ad = with_index (ra ad) w ?t ?i0" by (auto simp: fun_eq_iff with_index_def)
    moreover have "accepted_entry ad w fr (?ent ?ref)" using ok(6) [OF e(1)] by (intro acc) simp_all
    then have "accepted_entry ad w fr (rec_entry ?ad ?i0)" unfolding ent using li by simp
    ultimately show ?thesis using run fin old by (intro exI [of _ True] exI [of _ ?ad]) simp
  qed
qed

subsection \<open>An originator session is set up\<close>

text \<open>An originator entry changes in place.\<close>

lemma ori_entry_update_ok:
  assumes "ba_sessions_ok ad" "i < MAX_LEN_OF_BA_TABLE" "BAOriEntry ad' = (BAOriEntry ad)[i := e']"
    "peers ad' = peers ad" "BARecEntry ad' = BARecEntry ad" "numAsRecipient ad' = numAsRecipient ad"
    "numAsOriginator ad' = numAsOriginator ad" "ba_rx ad' = ba_rx ad"
    "ori_Wcid e' = ori_Wcid (ori_entry ad i)" "ori_TID e' = ori_TID (ori_entry ad i)"
    "(ORI_BA_Status e' = Originator_NONE) = (ORI_BA_Status (ori_entry ad i) = Originator_NONE)"
  shows "ba_sessions_ok ad'" "ra ad' = ra ad" "oa ad' = oa ad"
proof -
  note ok = okD [OF assms(1)]
  have li: "i < length (BAOriEntry ad)" using ok(9) assms(2) by simp
  have e: "f e' = f (ori_entry ad i) \<Longrightarrow> f (ori_entry ad' j) = f (ori_entry ad j)"
    for f :: "ba_ori_entry \<Rightarrow> 'a" and j
    unfolding assms(3) by (rule nth_upd_f [OF li])
  have v: "oa ad' = oa ad" "ow ad' = ow ad" "ot ad' = ot ad" "ou ad' = ou ad"
    using views_cong(2) [OF assms(4)] e [of ori_Wcid] e [of ori_TID]
      e [of "\<lambda>e. ORI_BA_Status e = Originator_NONE"] assms(9-11)
    by (simp_all add: fun_eq_iff ow_def ot_def ou_def)
  have r: "rec_inv ad' = rec_inv ad" "ra ad' = ra ad" by (rule rec_keep; simp add: assms)+
  have "shape_ok ad'" using ok(1) by (rule shape_keep) (simp_all add: assms)
  moreover have "lists_ok ad'" using ok(2) by (simp add: lists_ok_def assms)
  moreover have "ori_inv ad'" using ok(4) v assms(7) by (simp add: ori_inv_def)
  ultimately show "ba_sessions_ok ad'" using ok(3) r by (simp add: ba_sessions_ok_def)
  show "ra ad' = ra ad" "oa ad' = oa ad" by (rule r(2), rule v(1))
qed

lemma ori_setup_ok:
  assumes "ba_sessions_ok ad" "w < MAX_LEN_OF_MAC_TABLE"
  shows "\<exists>ad'. BAOriSessionSetUp w t to delay frc ad = Inr ad' \<and> ba_sessions_ok ad' \<and> ra ad' = ra ad \<and>
    (ad' = ad \<or> t < NUM_OF_TID \<and> oa ad' w t \<noteq> 0 \<and> oa ad' = with_index (oa ad) w t (oa ad' w t) \<and>
       ORI_BA_Status (ori_entry ad' (oa ad' w t)) = Originator_WaitRes)"
proof (cases "NUM_OF_TID \<le> t \<or> \<not> AutoBA ad \<and> \<not> frc \<or> \<not> fixed_tx_ht (peer ad w)")
  case True
  then have "BAOriSessionSetUp w t to delay frc ad = Inr ad" by (auto simp: BAOriSessionSetUp_def Let_def)
  then show ?thesis using assms(1) by simp
next
  case False
  then have g: "t < NUM_OF_TID" "(NUM_OF_TID \<le> t) = False" "(\<not> AutoBA ad \<and> \<not> frc) = False"
    "(\<not> fixed_tx_ht (peer ad w)) = False" by auto
  note ungated = g(2-4) if_False
  let ?p = "peer ad w" and ?i0 = "oa ad w t"
  let ?delay = "if BADeclineBitmap ?p AND tid_bit t \<noteq> 0 \<and> \<not> frc then 3000 else delay"
  note ok = okD [OF assms(1)]
  have i0: "ori_index ?p t = ?i0" "?i0 < MAX_LEN_OF_BA_TABLE"
    using ori_index_bound [OF assms g(1)] by (simp_all add: oa_def)
  have lw: "w < length (peers ad)" using ok(7) assms(2) by simp
  have arr: "length (BAOriWcidArray ?p) = NUM_OF_TID" "unat (peer_wcid ?p) = w"
    using ok(1) assms(2) g(4) by (simp_all add: shape_ok_def peer_id_def)
  let ?ent = "\<lambda>e. e\<lparr>ORI_BA_Status := Originator_WaitRes, ori_Wcid := peer_wcid ?p,
      ori_BAWinSize := TxBAWinLimit ad, ori_Sequence := TxSeq ?p ! t, ori_Token := 1,
      ori_TID := word_of_nat t, ori_TimeOutValue := to\<rparr>"
  let ?peer = "\<lambda>i p. p\<lparr>BAOriWcidArray := (BAOriWcidArray p)[t := word_of_nat i]\<rparr>"
  let ?fin = "\<lambda>i ad1. ba_emit (SetTimer False i ?delay)
      (ba_emit (if TXBAbitmap ?p AND tid_bit t = 0 then InitTimer False i else CancelTimer False i)
        (upd_ori i ?ent (upd_peer w (?peer i) ad1)))"
  show ?thesis
  proof (cases "?i0 = 0")
    case new: True
    from assms(1) show ?thesis
    proof (cases rule: ori_alloc_cases)
      case full
      then have "BAOriSessionSetUp w t to delay frc ad = Inr ad"
        using new i0 by (simp add: BAOriSessionSetUp_def Let_def)
      then show ?thesis using assms(1) by simp
    next
      case (found i)
      let ?ad1 = "upd_ori i (\<lambda>e. e\<lparr>ORI_BA_Status := Originator_USED\<rparr>)
          (ad\<lparr>numAsOriginator := numAsOriginator ad + 1\<rparr>)"
      let ?ad = "?fin i ?ad1" and ?e = "?ent (ori_entry ad i)"
      have li: "i < length (BAOriEntry ad)" using ok(9) found(2) by simp
      have run: "BAOriSessionSetUp w t to delay frc ad = Inr ?ad"
        unfolding BAOriSessionSetUp_def Let_def ungated using new i0(1) found(2,4) li by simp
      have q: "peers ?ad = (peers ad)[w := ?peer i ?p]" "BAOriEntry ?ad = (BAOriEntry ad)[i := ?e]"
        "BARecEntry ?ad = BARecEntry ad" "numAsOriginator ?ad = numAsOriginator ad + 1"
        "numAsRecipient ?ad = numAsRecipient ad" "ba_rx ?ad = ba_rx ad"
        using li by simp_all
      have "ori_inv ?ad"
        by (rule ori_link [OF ok(1,4) found(1-3) assms(2) g(1) new q(1) _ q(2)])
          (use g(1) arr in \<open>simp_all add: unat_tid\<close>)
      moreover have r: "rec_inv ?ad = rec_inv ad" "ra ?ad = ra ad"
        by (rule rec_keep; use lw in \<open>simp add: nth_list_update\<close>)+
      moreover have "shape_ok ?ad"
        using ok(1) by (rule shape_keep) (use lw in \<open>simp_all add: nth_list_update\<close>)
      moreover have "lists_ok ?ad" using ok(2) by (simp add: lists_ok_def)
      ultimately have "ba_sessions_ok ?ad" using ok(3) by (simp only: ba_sessions_ok_def r simp_thms)
      moreover have iu: "unat (word_of_nat i :: u16) = i"
        using found(2) by (intro unat_of_nat_u16) (simp add: table_len)
      have "oa ?ad = with_index (oa ad) w t i"
        using q(1) lw arr g(1) iu
        by (auto simp: fun_eq_iff oa_def ori_index_def with_index_def nth_list_update)
      then have "oa ?ad w t = i" "oa ?ad = with_index (oa ad) w t (oa ?ad w t)"
        by (simp_all add: with_index_def)
      moreover have "ORI_BA_Status (ori_entry ?ad i) = Originator_WaitRes" using li by simp
      ultimately show ?thesis using run r(2) found(1) g(1) by (intro exI [of _ ?ad]) simp
    qed
  next
    case old: False
    note e = ori_indexed [OF assms g(1) i0(1) old]
    let ?old = "ori_entry ad ?i0"
    show ?thesis
    proof (cases "ORI_BA_Status ?old = Originator_WaitRes \<or> ORI_BA_Status ?old = Originator_Done")
      case True
      then have "BAOriSessionSetUp w t to delay frc ad = Inr ad"
        unfolding BAOriSessionSetUp_def Let_def ungated using old i0 by simp
      then show ?thesis using assms(1) by simp
    next
      case False
      let ?ad = "?fin ?i0 ad"
      have run: "BAOriSessionSetUp w t to delay frc ad = Inr ?ad"
        unfolding BAOriSessionSetUp_def Let_def ungated using old i0 False by simp
      have "word_of_nat ?i0 = BAOriWcidArray ?p ! t" by (simp add: oa_def ori_index_def)
      then have same: "(BAOriWcidArray ?p)[t := word_of_nat ?i0] = BAOriWcidArray ?p" by simp
      have li: "?i0 < length (BAOriEntry ad)" using ok(9) i0(2) by simp
      have wc: "peer_wcid ?p = ori_Wcid ?old" "word_of_nat t = ori_TID ?old"
        using arr(2) e(3,4) g(1) by (simp_all add: word_unat_eq_iff unat_tid)
      have fin: "ba_sessions_ok ?ad" "ra ?ad = ra ad" "oa ?ad = oa ad"
        by (rule ori_entry_update_ok [OF assms(1) e(1), where e' = "?ent ?old"];
            use same wc e(2) in simp)+
      have "oa ad = with_index (oa ad) w t ?i0" by (auto simp: fun_eq_iff with_index_def)
      moreover have "ORI_BA_Status (ori_entry ?ad ?i0) = Originator_WaitRes" using li by simp
      ultimately show ?thesis using run fin g(1) old by (intro exI [of _ ?ad]) simp
    qed
  qed
qed

lemma ori_add_ok:
  assumes "ba_sessions_ok ad" "w < MAX_LEN_OF_MAC_TABLE" "fr_TID fr < NUM_OF_TID"
  shows "\<exists>ad'. BAOriSessionAdd k w fr ad = Inr ad' \<and> ba_sessions_ok ad' \<and> ra ad' = ra ad \<and> oa ad' = oa ad"
proof -
  let ?i = "ori_index (peer ad w) (fr_TID fr)" and ?p = "peer ad w"
  let ?e = "ori_entry ad ?i"
  note i = ori_index_bound [OF assms]
  show ?thesis
  proof (cases "?i \<noteq> 0 \<and> unat (ori_TID ?e) = fr_TID fr \<and> ORI_BA_Status ?e = Originator_WaitRes")
    case False
    then have "BAOriSessionAdd k w fr ad = Inr ad"
      using assms(3) i by (auto simp: BAOriSessionAdd_def Let_def)
    then show ?thesis using assms(1) by simp
  next
    case True
    let ?m = "word_of_nat (fr_BufSize fr) :: u8"
    let ?win = "BA_MaxWinSizeReasign ad ?p (min (ori_BAWinSize ?e) (if 0 < ?m then ?m - 1 else 0))"
    let ?upd = "\<lambda>e. e\<lparr>ori_BAWinSize := ?win, ori_TimeOutValue := fr_TimeOut fr,
                         ori_amsdu_cap := fr_AMSDU fr, ORI_BA_Status := Originator_Done,
                         ori_Sequence := TxSeq ?p ! fr_TID fr\<rparr>"
    let ?bit = "\<lambda>p. p\<lparr>TXBAbitmap := TXBAbitmap p OR tid_bit (fr_TID fr)\<rparr>"
    let ?ad2 = "ba_emit (CancelTimer False ?i) (upd_peer w ?bit
        (upd_ori ?i ?upd (ad\<lparr>numDoneOriginator := numDoneOriginator ad + 1\<rparr>)))"
    let ?ad3 = "if k then ba_emit (SendBar (ori_Wcid ?e) (ori_TID ?e) (TxSeq ?p ! fr_TID fr)) ?ad2 else ?ad2"
    have "\<not> MAX_LEN_OF_MAC_TABLE \<le> unat (ori_Wcid ?e)"
      using ori_owner(1) [OF assms(1) i] by (simp add: ow_def)
    then have run: "BAOriSessionAdd k w fr ad = Inr ?ad3"
      using True assms(3) i by (simp add: BAOriSessionAdd_def Let_def not_le)
    have ok2: "ba_sessions_ok (upd_peer w ?bit ad)" using ok_peer_keep [of ?bit w ad] assms(1) by simp
    have lw: "w < length (peers ad)" using okD(7) [OF assms(1)] assms(2) by simp
    have views: "ra (upd_peer w ?bit ad) = ra ad" "oa (upd_peer w ?bit ad) = oa ad"
      using lw by (simp_all add: fun_eq_iff ra_def oa_def rec_index_def ori_index_def nth_list_update)
    have "ba_sessions_ok ?ad3" "ra ?ad3 = ra (upd_peer w ?bit ad)" "oa ?ad3 = oa (upd_peer w ?bit ad)"
      by (rule ori_entry_update_ok [OF ok2 i, where e' = "?upd ?e"]; use True in simp)+
    then show ?thesis unfolding views using run by blast
  qed
qed

lemma ori_timeout_ok:
  assumes "ba_sessions_ok ad" "i < MAX_LEN_OF_BA_TABLE"
  shows "\<exists>ad'. BAOriSessionSetupTimeout mon scan i ad = Inr ad' \<and> ba_sessions_ok ad' \<and> ra ad' = ra ad"
proof -
  let ?e = "ori_entry ad i"
  note own = ori_owner(1,2) [OF assms, unfolded ow_def ot_def]
  let ?j = "ori_index (peer ad (unat (ori_Wcid ?e))) (unat (ori_TID ?e))"
  have free: "\<exists>ad'. BATableFreeOriEntry ?j ad = Inr ad' \<and> ba_sessions_ok ad' \<and> ra ad' = ra ad"
  proof (cases "?j = 0")
    case True
    then show ?thesis using assms(1) by (simp add: BATableFreeOriEntry_def)
  next
    case False
    then show ?thesis
      using free_ori_ok [OF assms(1), of ?j] ori_indexed(1,2) [OF assms(1) own refl] by (auto simp: ou_def)
  qed
  let ?ad1 = "ba_emit (SetTimer False i ORI_BA_SESSION_TIMEOUT)
               (upd_ori i (\<lambda>e. e\<lparr>ori_Token := ori_Token e + 1\<rparr>)
                 (ba_emit (QueueAddbaReq (peer_wcid (peer ad (unat (ori_Wcid ?e)))) (ori_TID ?e)
                   (RxBAWinLimit ad) (ori_Token ?e)) ad))"
  have "ba_sessions_ok ?ad1" "ra ?ad1 = ra ad"
    by (rule ori_entry_update_ok [OF assms, where e' = "?e\<lparr>ori_Token := ori_Token ?e + 1\<rparr>"]; simp)+
  moreover have "ra (ba_emit ev ad) = ra ad" for ev by (rule views_cong(1)) simp
  ultimately show ?thesis
    using free own assms(1) by (auto simp: BAOriSessionSetupTimeout_def Let_def not_le)
qed

subsection \<open>All sessions of a peer are torn down\<close>

lemma teardown_tid_ok:
  assumes "ba_sessions_ok ad" "w < MAX_LEN_OF_MAC_TABLE" "t < NUM_OF_TID"
  shows "\<exists>ad'. ba_teardown_tid oks w ad t = Inr ad' \<and> ba_sessions_ok ad' \<and>
    (\<forall>x y. (x \<noteq> w \<or> y \<noteq> t) \<longrightarrow> oa ad' x y = oa ad x y \<and> ra ad' x y = ra ad x y) \<and>
    (oks t = (True, True) \<longrightarrow> oa ad' w t = 0 \<and> ra ad' w t = 0)"
proof -
  obtain ad1 where o1: "BAOriSessionTearDown (fst (oks t)) w t False False ad = Inr ad1"
    "ba_sessions_ok ad1" "ra ad1 = ra ad"
    "oa ad1 = oa ad \<and> \<not> fst (oks t) \<or> oa ad1 = without (oa ad) w t"
    using ori_teardown_ok [OF assms, of "fst (oks t)" False False] by (auto split: if_splits)
  obtain ad2 where r1: "BARecSessionTearDown (snd (oks t)) w t False ad1 = Inr ad2"
    "ba_sessions_ok ad2" "oa ad2 = oa ad1"
    "ra ad2 = ra ad1 \<and> \<not> snd (oks t) \<or> ra ad2 = without (ra ad1) w t"
    using rec_teardown_ok [OF o1(2) assms(2,3), of "snd (oks t)" False] by (auto split: if_splits)
  have "ba_teardown_tid oks w ad t = Inr ad2" using o1(1) r1(1) by (simp add: ba_teardown_tid_def)
  then show ?thesis using o1(3,4) r1(2-4) by (intro exI [of _ ad2]) (auto simp: without_def)
qed

lemma teardown_all_ok:
  assumes "ba_sessions_ok ad" "w < MAX_LEN_OF_MAC_TABLE"
  shows "\<exists>ad'. BASessionTearDownALL oks w ad = Inr ad' \<and> ba_sessions_ok ad' \<and>
    (\<forall>x\<noteq>w. \<forall>y. oa ad' x y = oa ad x y \<and> ra ad' x y = ra ad x y) \<and>
    (\<forall>t<NUM_OF_TID. oks t = (True, True) \<longrightarrow> oa ad' w t = 0 \<and> ra ad' w t = 0)"
proof -
  have "\<exists>ad'. fold_fault (ba_teardown_tid oks w) ad ts = Inr ad' \<and> ba_sessions_ok ad' \<and>
    (\<forall>x\<noteq>w. \<forall>y. oa ad' x y = oa ad x y \<and> ra ad' x y = ra ad x y) \<and>
    (\<forall>t. t \<notin> set ts \<longrightarrow> oa ad' w t = oa ad w t \<and> ra ad' w t = ra ad w t) \<and>
    (\<forall>t\<in>set ts. oks t = (True, True) \<longrightarrow> oa ad' w t = 0 \<and> ra ad' w t = 0)"
    if "set ts \<subseteq> {..<NUM_OF_TID}" "distinct ts" for ts
    using that assms(1)
  proof (induction ts arbitrary: ad)
    case (Cons t ts)
    obtain ad1 where s: "ba_teardown_tid oks w ad t = Inr ad1" "ba_sessions_ok ad1"
      "\<forall>x y. (x \<noteq> w \<or> y \<noteq> t) \<longrightarrow> oa ad1 x y = oa ad x y \<and> ra ad1 x y = ra ad x y"
      "oks t = (True, True) \<longrightarrow> oa ad1 w t = 0 \<and> ra ad1 w t = 0"
      using teardown_tid_ok [OF Cons.prems(3) assms(2), of t oks] Cons.prems(1) by auto
    show ?case
      using Cons.IH [of ad1] s Cons.prems by (fastforce)
  qed simp
  moreover have "set [0..<NUM_OF_TID] \<subseteq> {..<NUM_OF_TID}" "distinct [0..<NUM_OF_TID]" by auto
  ultimately obtain ad' where "fold_fault (ba_teardown_tid oks w) ad [0..<NUM_OF_TID] = Inr ad'"
    "ba_sessions_ok ad'" "\<forall>x\<noteq>w. \<forall>y. oa ad' x y = oa ad x y \<and> ra ad' x y = ra ad x y"
    "\<forall>t\<in>set [0..<NUM_OF_TID]. oks t = (True, True) \<longrightarrow> oa ad' w t = 0 \<and> ra ad' w t = 0" by blast
  then show ?thesis by (simp add: BASessionTearDownALL_def)
qed

subsection \<open>Data frames, block-ack requests and the periodic check\<close>

text \<open>An operation that keeps the lists and the owner of the entry an index leads to.\<close>

lemma op_entry_ok:
  assumes "ba_sessions_ok ad" "i < MAX_LEN_OF_BA_TABLE" "keeps (rec_entry ad i) r"
    "\<And>e' st'. r = Inr (e', st') \<Longrightarrow> buffered (rec_entry ad i) = [] \<Longrightarrow>
       REC_BA_Status (rec_entry ad i) = Recipient_NONE \<Longrightarrow> buffered e' = []"
  shows "\<exists>e' st'. r = Inr (e', st') \<and> ba_sessions_ok (upd_rec i (\<lambda>_. e') (ad\<lparr>ba_rx := st'\<rparr>)) \<and>
    ra (upd_rec i (\<lambda>_. e') (ad\<lparr>ba_rx := st'\<rparr>)) = ra ad \<and> oa (upd_rec i (\<lambda>_. e') (ad\<lparr>ba_rx := st'\<rparr>)) = oa ad"
proof -
  obtain e' st' where r: "r = Inr (e', st')" "list_wf (reord e')" "list_wf (freelist st')"
    "rec_Wcid e' = rec_Wcid (rec_entry ad i)" "rec_TID e' = rec_TID (rec_entry ad i)"
    "REC_BA_Status e' = REC_BA_Status (rec_entry ad i)"
    using assms(3) by (auto simp: keeps_def)
  let ?ad = "upd_rec i (\<lambda>_. e') (ad\<lparr>ba_rx := st'\<rparr>)"
  have "rec_ok e'" using okD(10) [OF assms(1,2)] r assms(4) [OF r(1)] by (auto simp: rec_ok_def)
  then have "ba_sessions_ok ?ad" "ra ?ad = ra ad" "oa ?ad = oa ad"
    by (intro entry_update_ok [OF assms(1,2), where e' = e']; use r in simp)+
  then show ?thesis using r(1) by blast
qed

lemma rx_log_ok:
  "ba_sessions_ok ad \<Longrightarrow> list_wf (freelist st) \<Longrightarrow> ba_sessions_ok (ad\<lparr>ba_rx := st\<rparr>)"
  using sessions_cong(1-3) [of "ad\<lparr>ba_rx := st\<rparr>" ad] by (simp add: ba_sessions_ok_def lists_ok_def)

lemma indicate_wf [simp]: "freelist (INDICATE_LEGACY_OR_AMSDU st rx) = freelist st"
  by (simp add: INDICATE_LEGACY_OR_AMSDU_def)

lemma ampdu_ok:
  assumes "ba_sessions_ok ad" "unat (rx_TID rx) < NUM_OF_TID"
  shows "\<exists>ad'. Indicate_AMPDU_Packet hz rx now ad = Inr ad' \<and> ba_sessions_ok ad'"
proof (cases "(\<not> rx_AMSDU rx \<and> MAX_RX_PKT_LEN < rx_DataSize rx) \<or>
    MAX_LEN_OF_MAC_TABLE \<le> unat (rx_wcid rx)")
  case True
  then show ?thesis
    using rx_log_ok [OF assms(1)] okD(5) [OF assms(1)] by (auto simp: Indicate_AMPDU_Packet_def)
next
  case False
  then have w: "unat (rx_wcid rx) < MAX_LEN_OF_MAC_TABLE"
    "(\<not> rx_AMSDU rx \<and> MAX_RX_PKT_LEN < rx_DataSize rx) = False" by auto
  let ?i = "rec_index (peer ad (unat (rx_wcid rx))) (unat (rx_TID rx))"
  show ?thesis
  proof (cases "?i = 0")
    case True
    then show ?thesis
      using w assms rx_log_ok [OF assms(1)] okD(5) [OF assms(1)]
      unfolding Indicate_AMPDU_Packet_def w(2) by (simp add: not_le)
  next
    case nz: False
    note e = rec_indexed(1,2) [OF assms(1) w(1) assms(2) refl nz]
    have "keeps (rec_entry ad ?i) (ba_receive hz (rec_entry ad ?i) (ba_rx ad) rx now)"
      using okD(5,6) [OF assms(1)] e(1) by (intro receive_keeps)
    from op_entry_ok [OF assms(1) e(1) this] e(2)
    obtain e' st' where "ba_receive hz (rec_entry ad ?i) (ba_rx ad) rx now = Inr (e', st')"
      "ba_sessions_ok (upd_rec ?i (\<lambda>_. e') (ad\<lparr>ba_rx := st'\<rparr>))" by blast
    then show ?thesis
      using w(1) assms(2) nz e(1) unfolding Indicate_AMPDU_Packet_def w(2) by (simp add: Let_def not_le)
  qed
qed

lemma bar_ok:
  assumes "ba_sessions_ok ad"
  shows "\<exists>b ad'. CntlEnqueueForRecv halting w len t ssn ad = Inr (b, ad') \<and> ba_sessions_ok ad'"
proof (cases "halting \<or> len \<noteq> FRAME_BA_REQ_size \<or> MAX_LEN_OF_MAC_TABLE \<le> w \<or> 8 \<le> t")
  case True
  then show ?thesis using assms by (auto simp: CntlEnqueueForRecv_def)
next
  case False
  then have w: "w < MAX_LEN_OF_MAC_TABLE" "t < NUM_OF_TID" by (simp_all add: table_len)
  let ?i = "rec_index (peer ad w) t" and ?r = "\<lambda>e. ba_handle_bar e (ba_rx ad) ssn"
  note b = rec_index_bound [OF assms w]
  note lwf = okD(6) [OF assms b]
  have "keeps (rec_entry ad ?i) (?r (rec_entry ad ?i))"
    using okD(5) [OF assms] lwf by (intro handle_bar_keeps)
  moreover have "buffered e' = []" if "?r (rec_entry ad ?i) = Inr (e', st')" "buffered (rec_entry ad ?i) = []"
    for e' st'
    using that lwf
    by (auto simp: ba_handle_bar_def ba_indicate_reordering_mpdus_le_seq_def ba_le_seq_loop_run
        split: if_splits)
  ultimately obtain e' st' where "?r (rec_entry ad ?i) = Inr (e', st')"
      "ba_sessions_ok (upd_rec ?i (\<lambda>_. e') (ad\<lparr>ba_rx := st'\<rparr>))"
    using op_entry_ok [OF assms b, of "?r (rec_entry ad ?i)"] by blast
  then have "CntlEnqueueForRecv halting w len t ssn ad =
      Inr (True, upd_rec ?i (\<lambda>_. e') (ad\<lparr>ba_rx := st'\<rparr>))"
    using False b by (simp add: CntlEnqueueForRecv_def Let_def)
  then show ?thesis using \<open>ba_sessions_ok (upd_rec ?i (\<lambda>_. e') (ad\<lparr>ba_rx := st'\<rparr>))\<close> by blast
qed

lemma maintain_ok:
  assumes "ba_sessions_ok ad"
  shows "\<exists>ad'. BaReOrderingBufferMaintain hz now ad = Inr ad' \<and> ba_sessions_ok ad'"
proof -
  have one: "\<exists>ad'. ba_maintain_tid hz now ad wt = Inr ad' \<and> ba_sessions_ok ad'"
    if h: "ba_sessions_ok ad" "fst wt < MAX_LEN_OF_MAC_TABLE" "snd wt < NUM_OF_TID" for ad wt
  proof -
    let ?i = "rec_index (peer ad (fst wt)) (snd wt)"
    let ?r = "ba_flush_reordering_timeout_mpdus hz (rec_entry ad ?i) (ba_rx ad) now"
    note b = rec_index_bound [OF h]
    note lwf = okD(6) [OF h(1) b]
    have "keeps (rec_entry ad ?i) ?r" using okD(5) [OF h(1)] lwf by (intro flush_keeps)
    moreover have "buffered e' = []" if "?r = Inr (e', st')" "buffered (rec_entry ad ?i) = []" for e' st'
      using that lwf by (auto simp: ba_flush_reordering_timeout_mpdus_def list_wf_def)
    ultimately obtain e' st' where "?r = Inr (e', st')"
        "ba_sessions_ok (upd_rec ?i (\<lambda>_. e') (ad\<lparr>ba_rx := st'\<rparr>))"
      using op_entry_ok [OF h(1) b, of ?r] by blast
    then show ?thesis using h(1) b by (simp add: ba_maintain_tid_def Let_def not_le)
  qed
  have "\<exists>ad'. fold_fault (ba_maintain_tid hz now) ad wts = Inr ad' \<and> ba_sessions_ok ad'"
    if "\<forall>wt\<in>set wts. fst wt < MAX_LEN_OF_MAC_TABLE \<and> snd wt < NUM_OF_TID" for wts
    using that assms
  proof (induction wts arbitrary: ad)
    case (Cons wt wts)
    then obtain ad1 where "ba_maintain_tid hz now ad wt = Inr ad1" "ba_sessions_ok ad1"
      using one [of ad wt] by auto
    then show ?case using Cons by auto
  qed simp
  then show ?thesis unfolding BaReOrderingBufferMaintain_def by force
qed

end
