(* ===== verification/BaSystem.thy ===== *)
theory BaSystem
  imports BaSessionOps
begin

text \<open>
  The block-ack sessions as one machine: the frames, timers and requests that reach the handlers are
  its inputs, a run starts after \<^verbatim>\<open>BATableInit\<close>, and the properties hold in every state reached.
\<close>

subsection \<open>The machine\<close>

datatype ba_input =
    AddbaReq bool nat addba_frame
  | AddbaRsp bool bool nat addba_frame
  | Delba bool nat delba_frame
  | OriSetUp nat nat u16 ulong bool
  | OriTearDown bool nat nat bool bool
  | RecTearDown bool nat nat bool
  | PeerLeaves "nat \<Rightarrow> bool \<times> bool" nat
  | SetupTimeout bool bool nat
  | DataFrame nat rx_blk ulong
  | BarFrame bool nat nat nat u16
  | Maintain nat ulong

fun ba_exec :: "ba_input \<Rightarrow> ba_adapter \<Rightarrow> c_fault + ba_adapter" where
  "ba_exec (AddbaReq k w fr) ad = PeerAddBAReqAction k w fr ad"
| "ba_exec (AddbaRsp k tgn w fr) ad = PeerAddBARspAction k tgn w fr ad"
| "ba_exec (Delba k w fr) ad = PeerDelBAAction k w fr ad"
| "ba_exec (OriSetUp w t to delay forced) ad = BAOriSessionSetUp w t to delay forced ad"
| "ba_exec (OriTearDown k w t passive send) ad = BAOriSessionTearDown k w t passive send ad"
| "ba_exec (RecTearDown k w t passive) ad = BARecSessionTearDown k w t passive ad"
| "ba_exec (PeerLeaves oks w) ad = BASessionTearDownALL oks w ad"
| "ba_exec (SetupTimeout monitor scanning i) ad = BAOriSessionSetupTimeout monitor scanning i ad"
| "ba_exec (DataFrame hz rx now) ad = Indicate_AMPDU_Packet hz rx now ad"
| "ba_exec (BarFrame halting w len t ssn) ad = map_sum id snd (CntlEnqueueForRecv halting w len t ssn ad)"
| "ba_exec (Maintain hz now) ad = BaReOrderingBufferMaintain hz now ad"

text \<open>
  The TIDs are those of a QoS data frame, 0 to 7; peers and timers come from the driver's own tables.
\<close>

fun ba_input_ok :: "ba_input \<Rightarrow> bool" where
  "ba_input_ok (AddbaReq k w fr) \<longleftrightarrow> fr_TID fr < NUM_OF_TID"
| "ba_input_ok (AddbaRsp k tgn w fr) \<longleftrightarrow> fr_TID fr < NUM_OF_TID"
| "ba_input_ok (Delba k w fr) \<longleftrightarrow> db_TID fr < NUM_OF_TID"
| "ba_input_ok (OriSetUp w t to delay forced) \<longleftrightarrow> w < MAX_LEN_OF_MAC_TABLE"
| "ba_input_ok (OriTearDown k w t passive send) \<longleftrightarrow> t < NUM_OF_TID"
| "ba_input_ok (RecTearDown k w t passive) \<longleftrightarrow> t < NUM_OF_TID"
| "ba_input_ok (PeerLeaves oks w) \<longleftrightarrow> w < MAX_LEN_OF_MAC_TABLE"
| "ba_input_ok (SetupTimeout monitor scanning i) \<longleftrightarrow> i < MAX_LEN_OF_BA_TABLE"
| "ba_input_ok (DataFrame hz rx now) \<longleftrightarrow> unat (rx_TID rx) < NUM_OF_TID"
| "ba_input_ok (BarFrame halting w len t ssn) \<longleftrightarrow> True"
| "ba_input_ok (Maintain hz now) \<longleftrightarrow> True"

text \<open>
  The adapter's memory before \<^verbatim>\<open>BATableInit\<close>: arrays of their sizes, no index set, empty lists; each
  peer's record has its number.
\<close>

definition ba_memory_ok :: "ba_adapter \<Rightarrow> bool" where
  "ba_memory_ok ad \<longleftrightarrow> shape_ok ad \<and> list_wf (freelist (ba_rx ad)) \<and>
     (\<forall>w<MAX_LEN_OF_MAC_TABLE. \<forall>t<NUM_OF_TID. rec_index (peer ad w) t = 0 \<and> ori_index (peer ad w) t = 0) \<and>
     (\<forall>i<MAX_LEN_OF_BA_TABLE. list_wf (reord (rec_entry ad i)) \<and> buffered (rec_entry ad i) = [] \<and>
        rw ad i < MAX_LEN_OF_MAC_TABLE \<and> rt ad i < NUM_OF_TID \<and>
        ow ad i < MAX_LEN_OF_MAC_TABLE \<and> ot ad i < NUM_OF_TID)"

inductive ba_reachable :: "ba_adapter \<Rightarrow> bool" where
  init: "ba_memory_ok ad \<Longrightarrow> ba_reachable (BATableInit ad)"
| step: "ba_reachable ad \<Longrightarrow> ba_input_ok inp \<Longrightarrow> ba_exec inp ad = Inr ad' \<Longrightarrow> ba_reachable ad'"

lemma init_ok:
  assumes "ba_memory_ok ad"
  shows "ba_sessions_ok (BATableInit ad)"
proof -
  let ?ad = "BATableInit ad"
  have len: "length (BARecEntry ad) = MAX_LEN_OF_BA_TABLE" "length (BAOriEntry ad) = MAX_LEN_OF_BA_TABLE"
    using assms by (simp_all add: ba_memory_ok_def shape_ok_def)
  have s: "peers ?ad = peers ad" "ba_rx ?ad = ba_rx ad" "numAsRecipient ?ad = 0" "numAsOriginator ?ad = 0"
    by (simp_all add: BATableInit_def)
  have v: "ra ?ad = ra ad" "oa ?ad = oa ad" by (rule views_cong(1) [OF s(1)], rule views_cong(2) [OF s(1)])
  have e: "rec_entry ?ad i = (rec_entry ad i)\<lparr>REC_BA_Status := Recipient_NONE\<rparr>"
    "ori_entry ?ad i = (ori_entry ad i)\<lparr>ORI_BA_Status := Originator_NONE\<rparr>" if "i < MAX_LEN_OF_BA_TABLE" for i
    using that len by (simp_all add: BATableInit_def)
  have u: "\<not> ru ?ad i" "\<not> ou ?ad i" "rw ?ad i = rw ad i" "rt ?ad i = rt ad i" "ow ?ad i = ow ad i"
    "ot ?ad i = ot ad i" if "i < MAX_LEN_OF_BA_TABLE" for i
    using e [OF that] by (simp_all add: ru_def ou_def rw_def rt_def ow_def ot_def)
  have "{i \<in> {1..<MAX_LEN_OF_BA_TABLE}. ru ?ad i} = {}" "{i \<in> {1..<MAX_LEN_OF_BA_TABLE}. ou ?ad i} = {}"
    using u by auto
  then have "rec_inv ?ad" "ori_inv ?ad"
    using assms u s by (auto simp: rec_inv_def ori_inv_def idx_inv_def v ra_def oa_def ba_memory_ok_def)
  moreover have "shape_ok ?ad" using assms len by (simp add: ba_memory_ok_def shape_ok_def BATableInit_def)
  moreover have "lists_ok ?ad" using assms e s by (simp add: ba_memory_ok_def lists_ok_def rec_ok_def)
  ultimately show ?thesis by (simp add: ba_sessions_ok_def)
qed

lemma decline_ok:
  "ba_sessions_ok ad \<Longrightarrow>
   ba_sessions_ok (upd_peer w (\<lambda>p. p\<lparr>BADeclineBitmap := BADeclineBitmap p OR b\<rparr>) ad)"
  using ok_peer_keep [of "\<lambda>p. p\<lparr>BADeclineBitmap := BADeclineBitmap p OR b\<rparr>" w ad] by simp

lemma addba_req_ok:
  assumes "ba_sessions_ok ad" "fr_TID fr < NUM_OF_TID"
  shows "\<exists>ad'. PeerAddBAReqAction k w fr ad = Inr ad' \<and> ba_sessions_ok ad'"
proof (cases "MAX_LEN_OF_MAC_TABLE \<le> w \<or> \<not> is_ht_sta (peer ad w)")
  case True
  then show ?thesis using assms(1) by (auto simp: PeerAddBAReqAction_def Let_def)
next
  case False
  then obtain acc ad1 where "BARecSessionAdd w fr ad = Inr (acc, ad1)" "ba_sessions_ok ad1"
    using rec_add_ok [OF assms(1) _ assms(2), of w] by auto
  then show ?thesis using False assms(1) by (simp add: PeerAddBAReqAction_def Let_def)
qed

lemma addba_rsp_ok:
  assumes "ba_sessions_ok ad" "fr_TID fr < NUM_OF_TID"
  shows "\<exists>ad'. PeerAddBARspAction k tgn w fr ad = Inr ad' \<and> ba_sessions_ok ad'"
proof (cases "MAX_LEN_OF_MAC_TABLE \<le> w")
  case False
  then have w: "w < MAX_LEN_OF_MAC_TABLE" by simp
  obtain ad1 ad2 where "BAOriSessionAdd k w fr ad = Inr ad1" "ba_sessions_ok ad1"
    "BAOriSessionTearDown k w (fr_TID fr) True False ad = Inr ad2" "ba_sessions_ok ad2"
    using ori_add_ok [OF assms(1) w assms(2), of k] ori_teardown_ok [OF assms(1) w assms(2), of k True False]
    by blast
  then show ?thesis using False assms(1) by (simp add: PeerAddBARspAction_def decline_ok)
qed (use assms in \<open>simp add: PeerAddBARspAction_def\<close>)

lemma teardowns_ok:
  assumes "ba_sessions_ok ad" "t < NUM_OF_TID"
  shows "\<exists>ad'. BAOriSessionTearDown k w t pas frc ad = Inr ad' \<and> ba_sessions_ok ad'"
    "\<exists>ad'. BARecSessionTearDown k w t pas ad = Inr ad' \<and> ba_sessions_ok ad'"
proof -
  have "\<exists>ad'. BAOriSessionTearDown k w t pas frc ad = Inr ad' \<and> ba_sessions_ok ad'"
    "\<exists>ad'. BARecSessionTearDown k w t pas ad = Inr ad' \<and> ba_sessions_ok ad'"
    if "w < MAX_LEN_OF_MAC_TABLE"
    using ori_teardown_ok [OF assms(1) that assms(2), of k pas frc]
      rec_teardown_ok [OF assms(1) that assms(2), of k pas] by blast+
  then show "\<exists>ad'. BAOriSessionTearDown k w t pas frc ad = Inr ad' \<and> ba_sessions_ok ad'"
    "\<exists>ad'. BARecSessionTearDown k w t pas ad = Inr ad' \<and> ba_sessions_ok ad'"
    using assms(1) by (cases "w < MAX_LEN_OF_MAC_TABLE",
        simp_all add: BAOriSessionTearDown_def BARecSessionTearDown_def)
qed

lemma exec_ok:
  assumes "ba_sessions_ok ad" "ba_input_ok inp"
  shows "\<exists>ad'. ba_exec inp ad = Inr ad' \<and> ba_sessions_ok ad'"
proof (cases inp)
  case (Delba k w fr)
  then show ?thesis using assms teardowns_ok [OF assms(1), of "db_TID fr"] by (simp add: PeerDelBAAction_def)
next
  case (OriSetUp w t to delay forced)
  then show ?thesis using assms ori_setup_ok [of ad w t to delay forced] by auto
next
  case (PeerLeaves oks w)
  then show ?thesis using assms teardown_all_ok [of ad w oks] by auto
next
  case (SetupTimeout monitor scanning i)
  then show ?thesis using assms ori_timeout_ok [of ad i monitor scanning] by auto
next
  case (BarFrame halting w len t ssn)
  then show ?thesis using bar_ok [OF assms(1), of halting w len t ssn] by auto
qed (use assms addba_req_ok addba_rsp_ok teardowns_ok ampdu_ok maintain_ok in simp_all)

lemma reachable_ok: "ba_reachable ad \<Longrightarrow> ba_sessions_ok ad"
proof (induction rule: ba_reachable.induct)
  case (step ad inp ad')
  then show ?case using exec_ok [of ad inp] by auto
qed (rule init_ok)

subsection \<open>A concrete adapter\<close>

definition sample_peer :: "nat \<Rightarrow> ba_peer" where
  "sample_peer w = \<lparr>peer_wcid = word_of_nat w, TXBAbitmap = 0, RXBAbitmap = 0, BADeclineBitmap = 0,
     BARecWcidArray = replicate NUM_OF_TID 0, BAOriWcidArray = replicate NUM_OF_TID 0,
     TxSeq = replicate NUM_OF_TID 0, MaxRAmpduFactor = 3, is_ralink = False, mode_htmix_or_gf = True,
     MCSSet2 = 0, fixed_tx_ht = True, is_ht_sta = True, is_vht_sta = False, entry_none = False\<rparr>"

definition sample_rec :: ba_rec_entry where
  "sample_rec = \<lparr>rec_Wcid = 0, rec_TID = 0, rec_BAWinSize = 0, LastIndSeq = 0, rec_TimeOutValue = 0,
     LastIndSeqAtTimer = 0, nDropPacket = 0, rcvSeq = 0, REC_BA_Status = Recipient_NONE,
     reord = \<lparr>chain = [], qlen = 0\<rparr>\<rparr>"

definition sample_ori :: ba_ori_entry where
  "sample_ori = \<lparr>ori_Wcid = 0, ori_TID = 0, ori_BAWinSize = 0, ori_Token = 0, ori_amsdu_cap = False,
     ori_Sequence = 0, ori_TimeOutValue = 0, ORI_BA_Status = Originator_NONE\<rparr>"

definition sample_adapter :: ba_adapter where
  "sample_adapter = \<lparr>peers = map sample_peer [0..<MAX_LEN_OF_MAC_TABLE],
     BARecEntry = replicate MAX_LEN_OF_BA_TABLE sample_rec,
     BAOriEntry = replicate MAX_LEN_OF_BA_TABLE sample_ori,
     numAsRecipient = 0, numAsOriginator = 0, numDoneOriginator = 0, ba_rx = sample_state,
     AutoBA = True, bBADecline = False, TxBAWinLimit = 64, RxBAWinLimit = 32, is_mt76x2u = True,
     TxPath = 2, ba_log = []\<rparr>"

definition sample_addba :: "nat \<Rightarrow> addba_frame" where
  "sample_addba t = \<lparr>fr_sane = True, fr_TID = t, fr_BufSize = 64, fr_AMSDU = False, fr_TimeOut = 0,
     fr_StatusCode = 0, fr_Token = 1\<rparr>"

lemma sample_memory: "ba_memory_ok sample_adapter"
proof -
  have "unat (peer_wcid (peer sample_adapter w)) = w" if "w < MAX_LEN_OF_MAC_TABLE" for w
    using that by (simp add: sample_adapter_def sample_peer_def unat_of_nat table_len)
  then show ?thesis
    by (simp add: ba_memory_ok_def shape_ok_def peer_id_def sample_adapter_def sample_peer_def sample_rec_def
        sample_ori_def rec_index_def ori_index_def rw_def rt_def ow_def ot_def list_wf_def
        sample_state_def table_len)
qed

abbreviation booted :: ba_adapter where "booted \<equiv> BATableInit sample_adapter"

lemma booted_reachable: "ba_reachable booted"
  by (rule ba_reachable.init [OF sample_memory])

lemma booted_peer [simp]:
  "w < MAX_LEN_OF_MAC_TABLE \<Longrightarrow> peer booted w = sample_peer w"
  "bBADecline booted = False" "numAsRecipient booted = 0"
  by (simp_all add: BATableInit_def sample_adapter_def)

lemma ref_simps [simp]: "RxBAWinLimit (upd_rec i f ad) = RxBAWinLimit ad"
  "RxBAWinLimit (upd_peer w g ad) = RxBAWinLimit ad" "RxBAWinLimit (ba_emit ev ad) = RxBAWinLimit ad"
  by (simp_all add: upd_rec_def upd_peer_def ba_emit_def)

lemma rec_add_limit:
  assumes "BARecSessionAdd w fr ad = Inr (acc, ad')"
  shows "RxBAWinLimit ad' = RxBAWinLimit ad"
proof -
  obtain E si ad1 where al: "BATableAllocRecEntry ad = (E, si, ad1)" by (cases "BATableAllocRecEntry ad")
  then have "RxBAWinLimit ad1 = RxBAWinLimit ad"
    by (auto simp: BATableAllocRecEntry_def split: if_splits option.splits)
  then show ?thesis using assms al
    by (auto simp: BARecSessionAdd_def Let_def split: if_splits option.splits prod.splits)
qed

subsection \<open>Properties\<close>

text \<open>C11: in every run, whatever frames, timers and requests arrive, no handler of the block-ack
  sessions leaves its arrays as long as the TIDs are below 8, and afterwards the tables are
  consistent: an index that a peer keeps for a TID leads to an accepted session of that peer and TID,
  and the count of recipient sessions is the number of entries in use.\<close>

theorem ba_sessions_stay_consistent:
  assumes "ba_reachable ad" "ba_input_ok inp"
  shows "\<exists>ad'. ba_exec inp ad = Inr ad' \<and> ba_reachable ad' \<and>
    (\<forall>w<MAX_LEN_OF_MAC_TABLE. \<forall>t<NUM_OF_TID. let i = rec_index (peer ad' w) t in i \<noteq> 0 \<longrightarrow>
       i < MAX_LEN_OF_BA_TABLE \<and> REC_BA_Status (rec_entry ad' i) = Recipient_Accept \<and>
       unat (rec_Wcid (rec_entry ad' i)) = w \<and> unat (rec_TID (rec_entry ad' i)) = t) \<and>
    unat (numAsRecipient ad') =
      card {i. 0 < i \<and> i < MAX_LEN_OF_BA_TABLE \<and> REC_BA_Status (rec_entry ad' i) \<noteq> Recipient_NONE} \<and>
    unat (numAsOriginator ad') =
      card {i. 0 < i \<and> i < MAX_LEN_OF_BA_TABLE \<and> ORI_BA_Status (ori_entry ad' i) \<noteq> Originator_NONE}"
proof -
  obtain ad' where r: "ba_exec inp ad = Inr ad'" "ba_sessions_ok ad'"
    using exec_ok [OF reachable_ok [OF assms(1)] assms(2)] by blast
  have "REC_BA_Status (rec_entry ad' i) = Recipient_Accept"
    if "i < MAX_LEN_OF_BA_TABLE" "REC_BA_Status (rec_entry ad' i) \<noteq> Recipient_NONE" for i
    using okD(10) [OF r(2) that(1)] that(2) by (simp add: rec_ok_def)
  moreover have "{i. 0 < i \<and> i < MAX_LEN_OF_BA_TABLE \<and> u i} = {i \<in> {1..<MAX_LEN_OF_BA_TABLE}. u i}" for u
    by auto
  ultimately show ?thesis
    using r assms ba_reachable.step rec_indexed [OF r(2) _ _ refl] okD(3,4) [OF r(2)]
    by (simp add: Let_def rec_inv_def ori_inv_def idx_inv_def ru_def ou_def)
qed

lemma ba_sessions_stay_consistent_witness:
  "\<exists>ad'. ba_exec (AddbaReq True 1 (sample_addba 5)) booted = Inr ad' \<and> ba_reachable ad' \<and>
    (\<forall>w<MAX_LEN_OF_MAC_TABLE. \<forall>t<NUM_OF_TID. let i = rec_index (peer ad' w) t in i \<noteq> 0 \<longrightarrow>
       i < MAX_LEN_OF_BA_TABLE \<and> REC_BA_Status (rec_entry ad' i) = Recipient_Accept \<and>
       unat (rec_Wcid (rec_entry ad' i)) = w \<and> unat (rec_TID (rec_entry ad' i)) = t) \<and>
    unat (numAsRecipient ad') =
      card {i. 0 < i \<and> i < MAX_LEN_OF_BA_TABLE \<and> REC_BA_Status (rec_entry ad' i) \<noteq> Recipient_NONE} \<and>
    unat (numAsOriginator ad') =
      card {i. 0 < i \<and> i < MAX_LEN_OF_BA_TABLE \<and> ORI_BA_Status (ori_entry ad' i) \<noteq> Originator_NONE}"
  by (rule ba_sessions_stay_consistent [OF booted_reachable]) (simp add: sample_addba_def table_len)

text \<open>An ADDBA request of an HT peer is answered with status 0 exactly when a session was set up,
  with an empty window of the size that the answer announces; the only other answer is status 38,
  when the table is full.\<close>

theorem addba_request_answer:
  assumes "ba_reachable ad" "w < MAX_LEN_OF_MAC_TABLE" "fr_sane fr" "fr_TID fr < NUM_OF_TID"
    "\<not> bBADecline ad" "is_ht_sta (peer ad w)"
  shows "\<exists>ad' evs amsdu. PeerAddBAReqAction True w fr ad = Inr ad' \<and>
    (let i = rec_index (peer ad' w) (fr_TID fr); e = rec_entry ad' i in
     if i \<noteq> 0
     then ba_entry_wf e \<and> buffered e = [] \<and> unat (rec_Wcid e) = w \<and> unat (rec_TID e) = fr_TID fr \<and>
       ba_log ad' = evs @ [SendAddbaRsp (word_of_nat w) 0 (word_of_nat (fr_TID fr))
                             (ucast (rec_BAWinSize e)) amsdu]
     else unat (numAsRecipient ad) = MAX_LEN_OF_BA_TABLE - 1 \<and>
       ba_log ad' = evs @ [SendAddbaRsp (word_of_nat w) 38 (word_of_nat (fr_TID fr))
                             (if min (word_of_nat (fr_BufSize fr)) (RxBAWinLimit ad) = 0 then 64
                              else ucast (min (word_of_nat (fr_BufSize fr)) (RxBAWinLimit ad))) False])"
proof -
  let ?t = "fr_TID fr" and ?b = "min (word_of_nat (fr_BufSize fr)) (RxBAWinLimit ad) :: u8"
  obtain acc ad1 where r: "BARecSessionAdd w fr ad = Inr (acc, ad1)"
    "if acc then ra ad1 w ?t \<noteq> 0 \<and> accepted_entry ad w fr (rec_entry ad1 (ra ad1 w ?t))
     else ad1 = ad \<and> ra ad w ?t = 0 \<and> unat (numAsRecipient ad) = MAX_LEN_OF_BA_TABLE - 1"
    using rec_add_ok [OF reachable_ok [OF assms(1)] assms(2,4,6)] by (auto split: if_splits)
  note lim = rec_add_limit [OF r(1)]
  let ?st = "if acc then 0 else 38 :: u16"
  let ?am = "is_vht_sta (peer ad1 w) \<and> acc \<and> fr_AMSDU fr"
  let ?ad = "ba_emit (SendAddbaRsp (word_of_nat w) ?st (word_of_nat ?t)
      (if ?b = 0 then 64 else ucast ?b) ?am) ad1"
  have run: "PeerAddBAReqAction True w fr ad = Inr ?ad"
    using assms(2,3,5,6) r(1) lim by (simp add: PeerAddBAReqAction_def Let_def)
  have "ra ?ad = ra ad1" by (rule views_cong(1)) simp
  then have ix: "rec_index (peer ?ad w) ?t = ra ad1 w ?t" by (simp add: ra_def)
  have log: "ba_log ?ad = ba_log ad1 @ [SendAddbaRsp (word_of_nat w) ?st (word_of_nat ?t)
      (if ?b = 0 then 64 else ucast ?b) ?am]" by (simp add: ba_emit_def)
  show ?thesis
  proof (cases acc)
    case True
    then show ?thesis using run ix log r(2)
      by (intro exI [of _ ?ad] exI [of _ "ba_log ad1"] exI [of _ ?am])
        (simp add: Let_def accepted_entry_def)
  next
    case False
    then show ?thesis using run ix log r(2)
      by (intro exI [of _ ?ad] exI [of _ "ba_log ad1"] exI [of _ False]) (simp add: Let_def)
  qed
qed

lemma addba_request_answer_witness:
  "\<exists>ad' evs amsdu. PeerAddBAReqAction True 1 (sample_addba 5) booted = Inr ad' \<and>
    (let i = rec_index (peer ad' 1) (fr_TID (sample_addba 5)); e = rec_entry ad' i in
     if i \<noteq> 0
     then ba_entry_wf e \<and> buffered e = [] \<and> unat (rec_Wcid e) = 1 \<and> unat (rec_TID e) = fr_TID (sample_addba 5) \<and>
       ba_log ad' = evs @ [SendAddbaRsp (word_of_nat 1) 0 (word_of_nat (fr_TID (sample_addba 5)))
                             (ucast (rec_BAWinSize e)) amsdu]
     else unat (numAsRecipient booted) = MAX_LEN_OF_BA_TABLE - 1 \<and>
       ba_log ad' = evs @ [SendAddbaRsp (word_of_nat 1) 38 (word_of_nat (fr_TID (sample_addba 5)))
          (if min (word_of_nat (fr_BufSize (sample_addba 5))) (RxBAWinLimit booted) = 0 then 64
           else ucast (min (word_of_nat (fr_BufSize (sample_addba 5))) (RxBAWinLimit booted))) False])"
  by (rule addba_request_answer [OF booted_reachable])
    (simp_all add: sample_addba_def sample_peer_def table_len)

text \<open>A DELBA of the originator ends the session: the frames that wait in its buffer go to the
  upper layer in the order of the buffer and their blocks back to the pool, the peer's index is
  cleared, and no other index changes.\<close>

theorem delba_ends_session:
  assumes "ba_reachable ad" "w < MAX_LEN_OF_MAC_TABLE" "db_sane fr" "db_Initiator fr" "db_TID fr < NUM_OF_TID"
  shows "\<exists>ad'. PeerDelBAAction k w fr ad = Inr ad' \<and>
    (\<forall>x y. rec_index (peer ad' x) y = (if x = w \<and> y = db_TID fr then 0 else rec_index (peer ad x) y)) \<and>
    (\<forall>x y. ori_index (peer ad' x) y = ori_index (peer ad x) y) \<and>
    (let i = rec_index (peer ad w) (db_TID fr); e = rec_entry ad i in
     if i = 0 then ba_rx ad' = ba_rx ad
     else rx_out (ba_rx ad') = rx_out (ba_rx ad) @ map release_event (buffered e) \<and>
       mset (chain (freelist (ba_rx ad'))) =
         mset (chain (freelist (ba_rx ad))) + mset (map mpdu_addr (buffered e)))"
proof -
  obtain ad' where r: "BARecSessionTearDown k w (db_TID fr) True ad = Inr ad'" "oa ad' = oa ad"
    "ra ad' = without (ra ad) w (db_TID fr)"
    "ba_rx ad' = (if ra ad w (db_TID fr) \<noteq> 0
       then release_all (buffered (rec_entry ad (ra ad w (db_TID fr)))) (ba_rx ad) else ba_rx ad)"
    using rec_teardown_ok [OF reachable_ok [OF assms(1)] assms(2,5), of k True] by auto
  have "rec_index (peer ad' x) y = (if x = w \<and> y = db_TID fr then 0 else rec_index (peer ad x) y)"
    "ori_index (peer ad' x) y = ori_index (peer ad x) y" for x y
    using fun_cong [OF fun_cong [OF r(2)], of x y] fun_cong [OF fun_cong [OF r(3)], of x y]
    by (simp_all add: ra_def oa_def without_def)
  then show ?thesis using r(1,4) assms(3,4)
    by (intro exI [of _ ad']) (auto simp: PeerDelBAAction_def Let_def ra_def release_all_def)
qed

abbreviation sample_delba :: "nat \<Rightarrow> delba_frame" where
  "sample_delba t \<equiv> \<lparr>db_sane = True, db_TID = t, db_Initiator = True\<rparr>"

lemma delba_ends_session_witness:
  "\<exists>ad'. PeerDelBAAction True 1 (sample_delba 5) booted = Inr ad' \<and>
    (\<forall>x y. rec_index (peer ad' x) y =
       (if x = 1 \<and> y = db_TID (sample_delba 5) then 0 else rec_index (peer booted x) y)) \<and>
    (\<forall>x y. ori_index (peer ad' x) y = ori_index (peer booted x) y) \<and>
    (let i = rec_index (peer booted 1) (db_TID (sample_delba 5)); e = rec_entry booted i in
     if i = 0 then ba_rx ad' = ba_rx booted
     else rx_out (ba_rx ad') = rx_out (ba_rx booted) @ map release_event (buffered e) \<and>
       mset (chain (freelist (ba_rx ad'))) =
         mset (chain (freelist (ba_rx booted))) + mset (map mpdu_addr (buffered e)))"
  by (rule delba_ends_session [OF booted_reachable]) (simp_all add: table_len)

text \<open>\<^verbatim>\<open>BASessionTearDownALL\<close> leaves a peer without a session, and the other peers' sessions alone,
  when the frames it sends can be allocated. When one cannot, the session stays in the table.\<close>

theorem teardown_all_clears_peer:
  assumes "ba_reachable ad" "w < MAX_LEN_OF_MAC_TABLE"
  shows "\<exists>ad'. BASessionTearDownALL oks w ad = Inr ad' \<and> ba_reachable ad' \<and>
    (\<forall>x\<noteq>w. \<forall>t. rec_index (peer ad' x) t = rec_index (peer ad x) t \<and>
       ori_index (peer ad' x) t = ori_index (peer ad x) t) \<and>
    (\<forall>t<NUM_OF_TID. oks t = (True, True) \<longrightarrow> rec_index (peer ad' w) t = 0 \<and> ori_index (peer ad' w) t = 0)"
proof -
  obtain ad' where "BASessionTearDownALL oks w ad = Inr ad'"
    "\<forall>x\<noteq>w. \<forall>y. oa ad' x y = oa ad x y \<and> ra ad' x y = ra ad x y"
    "\<forall>t<NUM_OF_TID. oks t = (True, True) \<longrightarrow> oa ad' w t = 0 \<and> ra ad' w t = 0"
    using teardown_all_ok [OF reachable_ok [OF assms(1)] assms(2)] by blast
  then show ?thesis
    using ba_reachable.step [OF assms(1), of "PeerLeaves oks w"] assms(2) by (simp add: ra_def oa_def)
qed

lemma teardown_all_clears_peer_witness:
  "\<exists>ad'. BASessionTearDownALL (\<lambda>t. (True, True)) 1 booted = Inr ad' \<and> ba_reachable ad' \<and>
    (\<forall>x\<noteq>1. \<forall>t. rec_index (peer ad' x) t = rec_index (peer booted x) t \<and>
       ori_index (peer ad' x) t = ori_index (peer booted x) t) \<and>
    (\<forall>t<NUM_OF_TID. ((\<lambda>t::nat. (True, True)) t) = (True, True) \<longrightarrow>
       rec_index (peer ad' 1) t = 0 \<and> ori_index (peer ad' 1) t = 0)"
  by (rule teardown_all_clears_peer [OF booted_reachable]) (simp add: table_len)

text \<open>The allocators agree with the count: an entry is given exactly when fewer than 463 are in use,
  and the loops never run off the end of the table with the last entry in hand.\<close>

theorem ba_allocation_matches_count:
  assumes "ba_reachable ad"
  shows "(case BATableAllocRecEntry ad of (E, i, ad') \<Rightarrow> E = i \<and>
      (E = None \<longleftrightarrow> unat (numAsRecipient ad) = MAX_LEN_OF_BA_TABLE - 1) \<and>
      (\<forall>j. E = Some j \<longrightarrow> 0 < j \<and> j < MAX_LEN_OF_BA_TABLE \<and>
         REC_BA_Status (rec_entry ad j) = Recipient_NONE)) \<and>
    (case BATableAllocOriEntry ad of (E, i, ad') \<Rightarrow> E = i \<and>
      (E = None \<longleftrightarrow> unat (numAsOriginator ad) = MAX_LEN_OF_BA_TABLE - 1) \<and>
      (\<forall>j. E = Some j \<longrightarrow> 0 < j \<and> j < MAX_LEN_OF_BA_TABLE \<and>
         ORI_BA_Status (ori_entry ad j) = Originator_NONE))"
    (is "?rec \<and> ?ori")
proof
  note ok = reachable_ok [OF assms]
  have count: "unat n \<noteq> MAX_LEN_OF_BA_TABLE - 1" if "\<not> word_of_nat (MAX_LEN_OF_BA_TABLE - 1) \<le> n" for n :: ulong
    using that unfolding count_full by simp
  from ok show ?rec
  proof (cases rule: rec_alloc_cases)
    case (found i)
    then have "\<not> word_of_nat (MAX_LEN_OF_BA_TABLE - 1) \<le> numAsRecipient ad"
      by (auto simp only: BATableAllocRecEntry_def split: if_splits)
    then show ?thesis using found count by (simp add: ru_def)
  qed simp
  from ok show ?ori
  proof (cases rule: ori_alloc_cases)
    case (found i)
    then have "\<not> word_of_nat (MAX_LEN_OF_BA_TABLE - 1) \<le> numAsOriginator ad"
      by (auto simp only: BATableAllocOriEntry_def split: if_splits)
    then show ?thesis using found count by (simp add: ou_def)
  qed simp
qed

lemma ba_allocation_matches_count_witness:
  "(case BATableAllocRecEntry booted of (E, i, ad') \<Rightarrow> E = i \<and>
      (E = None \<longleftrightarrow> unat (numAsRecipient booted) = MAX_LEN_OF_BA_TABLE - 1) \<and>
      (\<forall>j. E = Some j \<longrightarrow> 0 < j \<and> j < MAX_LEN_OF_BA_TABLE \<and>
         REC_BA_Status (rec_entry booted j) = Recipient_NONE)) \<and>
    (case BATableAllocOriEntry booted of (E, i, ad') \<Rightarrow> E = i \<and>
      (E = None \<longleftrightarrow> unat (numAsOriginator booted) = MAX_LEN_OF_BA_TABLE - 1) \<and>
      (\<forall>j. E = Some j \<longrightarrow> 0 < j \<and> j < MAX_LEN_OF_BA_TABLE \<and>
         ORI_BA_Status (ori_entry booted j) = Originator_NONE))"
  by (rule ba_allocation_matches_count [OF booted_reachable])

text \<open>The TID of an ADDBA or DELBA frame has four bits, and no check on the way rejects 8 to 15,
  for which the handlers index past the eight entries of the peer's arrays.\<close>

theorem peer_tid_leaves_array:
  assumes "w < MAX_LEN_OF_MAC_TABLE" "8 \<le> t" "\<not> bBADecline ad" "is_ht_sta (peer ad w)"
  shows "PeerAddBAReqAction k w \<lparr>fr_sane = True, fr_TID = t, fr_BufSize = sz, fr_AMSDU = am, fr_TimeOut = to,
      fr_StatusCode = sc, fr_Token = tok\<rparr> ad = Inl OOBRead \<and>
    PeerDelBAAction k w \<lparr>db_sane = True, db_TID = t, db_Initiator = ini\<rparr> ad = Inl OOBRead"
  using assms
  by (simp add: PeerAddBAReqAction_def PeerDelBAAction_def BARecSessionAdd_def BARecSessionTearDown_def
      BAOriSessionTearDown_def Let_def NUM_OF_TID_def)

lemma peer_tid_leaves_array_witness:
  "PeerAddBAReqAction True 1 \<lparr>fr_sane = True, fr_TID = 8, fr_BufSize = 64, fr_AMSDU = False, fr_TimeOut = 0,
      fr_StatusCode = 0, fr_Token = 1\<rparr> booted = Inl OOBRead \<and>
    PeerDelBAAction True 1 \<lparr>db_sane = True, db_TID = 8, db_Initiator = False\<rparr> booted = Inl OOBRead"
  by (rule peer_tid_leaves_array) (simp_all add: table_len sample_peer_def)

lemma less_then_min: "(if (a :: u8) < b then a else b) = min a b"
  by (auto simp: min_def)

lemma min3_bounds:
  assumes "(b :: u8) \<le> 47"
  shows "min (min a b) c \<le> c" "min (min a b) c \<le> 47" "unat (min (min a b) c) \<le> unat a"
proof -
  show "min (min a b) c \<le> c" by simp
  have le: "min (min a b) c \<le> b" "min (min a b) c \<le> a" by (simp_all add: min.coboundedI1)
  show "min (min a b) c \<le> 47" using le(1) assms by (rule order_trans)
  show "unat (min (min a b) c) \<le> unat a" using le(2) by (simp only: word_le_nat_alt)
qed

text \<open>C36: the window offered to a peer never exceeds the wanted one, the driver's 47 frames, nor what
  the peer's receive-buffer factor (a 2-bit field) announces.\<close>

theorem ba_window_size_bounded:
  assumes "unat (MaxRAmpduFactor p) \<le> 3"
  shows "BA_MaxWinSizeReasign ad p WinSize \<le> WinSize \<and> BA_MaxWinSizeReasign ad p WinSize \<le> 47 \<and>
    unat (BA_MaxWinSizeReasign ad p WinSize) \<le>
      (if is_ralink p then 2 ^ (unat (MaxRAmpduFactor p) + 3) else 2 ^ (unat (MaxRAmpduFactor p) + 3) * 10 div 16 - 1)"
proof -
  let ?f = "unat (MaxRAmpduFactor p)"
  let ?peer = "if is_ralink p then word_of_nat (2 ^ (?f + 3))
      else word_of_nat (2 ^ (?f + 3) * 10 div 16 - 1) :: u8"
  let ?own = "if is_mt76x2u ad then (if mode_htmix_or_gf p \<and> MCSSet2 p \<noteq> 0xff then 31 else 47)
      else if TxPath ad = 3 \<and> MCSSet2 p \<noteq> 0 then 31 else 20 :: u8"
  have e: "BA_MaxWinSizeReasign ad p WinSize = min (min ?peer ?own) WinSize"
    unfolding BA_MaxWinSizeReasign_def Let_def by (rule less_then_min)
  have "?own \<le> 47" by simp
  note b = min3_bounds [OF this, of ?peer WinSize]
  have "?f = 0 \<or> ?f = 1 \<or> ?f = 2 \<or> ?f = 3" using assms by linarith
  then have "unat ?peer = (if is_ralink p then 2 ^ (?f + 3) else 2 ^ (?f + 3) * 10 div 16 - 1)"
    by (elim disjE) simp_all
  then show ?thesis unfolding e by (intro conjI b(1,2)) (rule ord_le_eq_trans [OF b(3)])
qed

lemma ba_window_size_bounded_witness:
  "BA_MaxWinSizeReasign booted (sample_peer 1) 64 \<le> 64 \<and> BA_MaxWinSizeReasign booted (sample_peer 1) 64 \<le> 47 \<and>
    unat (BA_MaxWinSizeReasign booted (sample_peer 1) 64) \<le>
      (if is_ralink (sample_peer 1) then 2 ^ (unat (MaxRAmpduFactor (sample_peer 1)) + 3)
       else 2 ^ (unat (MaxRAmpduFactor (sample_peer 1)) + 3) * 10 div 16 - 1)"
  by (rule ba_window_size_bounded) (simp add: sample_peer_def)

end
