(* ===== verification/MacTab.thy ===== *)
theory MacTab
  imports BaSystem
begin

text \<open>
  The table of stations, \<^verbatim>\<open>mgmt/mgmt_entrytb.c\<close>: an array of entries and 256 hash chains through
  their \<^verbatim>\<open>pNext\<close> pointers. A pointer to an entry is its index in the array. The loops follow pointers
  and need not return; \<open>run\<close> makes that a value. The part of an entry that the block-ack sessions
  use is the peer of the session component with the same index.
\<close>

subsection \<open>Data\<close>

datatype entry_type = ENTRY_NONE | ENTRY_CLIENT | ENTRY_WDS | ENTRY_APCLI | ENTRY_MESH | ENTRY_DLS
  | ENTRY_TDLS | ENTRY_MCAST | ENTRY_WDEV

datatype sta_state = SST_NOT_AUTH | SST_AUTH | SST_ASSOC

datatype auth_state = AS_NOT_AUTH | AS_AUTH_OPEN | AS_AUTH_KEY | AS_AUTHENTICATING

datatype auth_mode = AuthModeOpen | AuthModeShared | AuthModeAutoSwitch | AuthModeWPA | AuthModeWPAPSK
  | AuthModeWPANone | AuthModeWPA2 | AuthModeWPA2PSK | AuthModeWPA1WPA2 | AuthModeWPA1PSKWPA2PSK

text \<open>The order of the C enumeration, which the code compares with \<^verbatim>\<open><\<close>.\<close>

fun auth_mode_number :: "auth_mode \<Rightarrow> nat" where
  "auth_mode_number AuthModeOpen = 0" | "auth_mode_number AuthModeShared = 1"
| "auth_mode_number AuthModeAutoSwitch = 2" | "auth_mode_number AuthModeWPA = 3"
| "auth_mode_number AuthModeWPAPSK = 4" | "auth_mode_number AuthModeWPANone = 5"
| "auth_mode_number AuthModeWPA2 = 6" | "auth_mode_number AuthModeWPA2PSK = 7"
| "auth_mode_number AuthModeWPA1WPA2 = 8" | "auth_mode_number AuthModeWPA1PSKWPA2PSK = 9"

instantiation auth_mode :: linorder
begin

definition less_eq_auth_mode :: "auth_mode \<Rightarrow> auth_mode \<Rightarrow> bool" where
  "less_eq_auth_mode a b \<longleftrightarrow> auth_mode_number a \<le> auth_mode_number b"

definition less_auth_mode :: "auth_mode \<Rightarrow> auth_mode \<Rightarrow> bool" where
  "less_auth_mode a b \<longleftrightarrow> auth_mode_number a < auth_mode_number b"

instance
proof
  fix a b :: auth_mode
  assume "a \<le> b" "b \<le> a"
  then show "a = b" unfolding less_eq_auth_mode_def by (cases a; cases b; simp)
qed (auto simp: less_eq_auth_mode_def less_auth_mode_def)

end

datatype wpa_state = AS_NOTUSE | AS_DISCONNECT | AS_DISCONNECTED | AS_INITIALIZE | AS_AUTHENTICATION
  | AS_AUTHENTICATION2 | AS_INITPMK | AS_INITPSK | AS_PTKSTART | AS_PTKINIT_NEGOTIATING
  | AS_PTKINITDONE | AS_UPDATEKEYS | AS_INTEGRITY_FAILURE | AS_KEYUPDATE

text \<open>
  The fields of \<^verbatim>\<open>MAC_TABLE_ENTRY\<close> that decide which station an entry is and what it may do; those
  for rates, keys, power saving and statistics are not modelled.
\<close>

record mac_entry =
  EntryType :: entry_type
  pNext :: "nat option"
  ent_wcid :: u8
  ent_apidx :: u8
  Addr :: bytes
  ent_bssid :: bytes
  Aid :: u16
  Sst :: sta_state
  AuthState :: auth_state
  AuthMode :: auth_mode
  WpaState :: wpa_state
  PortSecured :: bool
  bIAmBadAtheros :: bool
  CMTimerRunning :: bool

text \<open>What \<^verbatim>\<open>memset(pEntry, 0, ...)\<close> leaves.\<close>

definition zero_entry :: mac_entry where
  "zero_entry = \<lparr>EntryType = ENTRY_NONE, pNext = None, ent_wcid = 0, ent_apidx = 0,
     Addr = replicate 6 0, ent_bssid = replicate 6 0, Aid = 0, Sst = SST_NOT_AUTH,
     AuthState = AS_NOT_AUTH, AuthMode = AuthModeOpen, WpaState = AS_NOTUSE, PortSecured = False,
     bIAmBadAtheros = False, CMTimerRunning = False\<rparr>"

definition zero_peer :: ba_peer where
  "zero_peer = \<lparr>peer_wcid = 0, TXBAbitmap = 0, RXBAbitmap = 0, BADeclineBitmap = 0,
     BARecWcidArray = replicate NUM_OF_TID 0, BAOriWcidArray = replicate NUM_OF_TID 0,
     TxSeq = replicate NUM_OF_TID 0, MaxRAmpduFactor = 0, is_ralink = False, mode_htmix_or_gf = False,
     MCSSet2 = 0, fixed_tx_ht = False, is_ht_sta = False, is_vht_sta = False, entry_none = True\<rparr>"

text \<open>
  A network of the access point; \<open>mb_if_dev\<close> is nothing for a null \<^verbatim>\<open>if_dev\<close>, otherwise whether the device runs.
\<close>

record mbss =
  mb_bssid :: bytes
  MaxStaNum :: u8
  StaCount :: u8
  mb_AuthMode :: auth_mode
  mb_if_dev :: "bool option"
  IEEE8021X :: bool
  AuthFailRssiThreshold :: int
  AuthNoRspRssiThreshold :: int

datatype mac_event =
    AsicAddEntry nat | AsicDelEntry nat | AsicRemovePairwiseKey nat | UpdateProtect
  | SendDeauth bytes u16 | SendAuthRsp bytes u16 u16 u16 | SendChallenge bytes u16 u16 bytes
  | WirelessEvent bytes | AtherosProtect | Dot1xDisconnect bytes | SendDisassoc bytes u16

record mac_tab =
  Content :: "mac_entry list"
  Hash :: "nat option list"
  TabSize :: u16
  mt_ap :: bool
  mt_infra :: bool
  MBSSID :: "mbss list"
  BssidNum :: u8
  BcnMaxNum :: u8
  EntryClientCount :: u8
  sta_AuthMode :: auth_mode
  mt_ba :: ba_adapter
  mt_log :: "mac_event list"

definition HASH_TABLE_SIZE :: nat where "HASH_TABLE_SIZE = 256"
definition HW_BEACON_MAX_NUM :: nat where "HW_BEACON_MAX_NUM = 16"
definition BSSID_WCID :: nat where "BSSID_WCID = 1"
definition MCAST_WCID :: nat where "MCAST_WCID = 0"
definition REASON_NO_LONGER_VALID :: u16 where "REASON_NO_LONGER_VALID = 2"

definition upd_entry :: "nat \<Rightarrow> (mac_entry \<Rightarrow> mac_entry) \<Rightarrow> mac_tab \<Rightarrow> mac_tab" where
  "upd_entry i f t = t\<lparr>Content := (Content t)[i := f (Content t ! i)]\<rparr>"

definition upd_mbss :: "nat \<Rightarrow> (mbss \<Rightarrow> mbss) \<Rightarrow> mac_tab \<Rightarrow> mac_tab" where
  "upd_mbss i f t = t\<lparr>MBSSID := (MBSSID t)[i := f (MBSSID t ! i)]\<rparr>"

definition upd_ba :: "(ba_adapter \<Rightarrow> ba_adapter) \<Rightarrow> mac_tab \<Rightarrow> mac_tab" where
  "upd_ba f t = t\<lparr>mt_ba := f (mt_ba t)\<rparr>"

definition mac_emit :: "mac_event \<Rightarrow> mac_tab \<Rightarrow> mac_tab" where
  "mac_emit ev t = t\<lparr>mt_log := mt_log t @ [ev]\<rparr>"

subsection \<open>Hash chains\<close>

definition MAC_ADDR_HASH_INDEX :: "bytes \<Rightarrow> nat" where
  "MAC_ADDR_HASH_INDEX a = unat ((a ! 0 XOR a ! 1 XOR a ! 2 XOR a ! 3 XOR a ! 4 XOR a ! 5) AND 0xff)"

text \<open>The loop of the look-up: \<open>Some None\<close> is the null pointer, \<open>None\<close> a loop that never ends.\<close>

partial_function (option) mac_walk :: "mac_entry list \<Rightarrow> bytes \<Rightarrow> nat option \<Rightarrow> nat option option" where
  [code]: "mac_walk es a p =
     (case p of
        None \<Rightarrow> Some None
      | Some i \<Rightarrow> if EntryType (es ! i) = ENTRY_NONE then Some (Some i)
                 else if Addr (es ! i) = a then Some (Some i)
                 else mac_walk es a (pNext (es ! i)))"

definition MacTableLookup :: "mac_tab \<Rightarrow> bytes \<Rightarrow> nat option run" where
  "MacTableLookup t pAddr =
     map_option Inr (mac_walk (Content t) pAddr (Hash t ! MAC_ADDR_HASH_INDEX pAddr))"

text \<open>The last entry of a chain, and the append of an entry to its bucket.\<close>

partial_function (option) mac_tail :: "mac_entry list \<Rightarrow> nat \<Rightarrow> nat option" where
  [code]: "mac_tail es i = (case pNext (es ! i) of None \<Rightarrow> Some i | Some j \<Rightarrow> mac_tail es j)"

definition mac_hash_append :: "nat \<Rightarrow> bytes \<Rightarrow> mac_tab \<Rightarrow> mac_tab run" where
  "mac_hash_append i pAddr t =
     (case Hash t ! MAC_ADDR_HASH_INDEX pAddr of
        None \<Rightarrow> r_return (t\<lparr>Hash := (Hash t)[MAC_ADDR_HASH_INDEX pAddr := Some i]\<rparr>)
      | Some j \<Rightarrow>
          (case mac_tail (Content t) j of
             None \<Rightarrow> None
           | Some l \<Rightarrow> r_return (upd_entry l (\<lambda>e. e\<lparr>pNext := Some i\<rparr>) t)))"

text \<open>
  The search of an entry in its chain: whether it is found, and then the entry before it.
\<close>

partial_function (option) mac_probe :: "mac_entry list \<Rightarrow> nat \<Rightarrow> nat option \<Rightarrow> nat \<Rightarrow>
    nat option option option" where
  [code]: "mac_probe es target prev i =
     (if i = target then Some (Some prev)
      else case pNext (es ! i) of
             None \<Rightarrow> Some None
           | Some j \<Rightarrow> mac_probe es target (Some i) j)"

definition mac_hash_remove :: "nat \<Rightarrow> bytes \<Rightarrow> mac_tab \<Rightarrow> mac_tab run" where
  "mac_hash_remove i pAddr t =
     (let h = MAC_ADDR_HASH_INDEX pAddr; nxt = pNext (Content t ! i) in
      case Hash t ! h of
        None \<Rightarrow> r_return t
      | Some j \<Rightarrow>
          (case mac_probe (Content t) i None j of
             None \<Rightarrow> None
           | Some None \<Rightarrow> r_return t
           | Some (Some None) \<Rightarrow> r_return (t\<lparr>Hash := (Hash t)[h := nxt]\<rparr>)
           | Some (Some (Some p)) \<Rightarrow> r_return (upd_entry p (\<lambda>e. e\<lparr>pNext := nxt\<rparr>) t)))"

subsection \<open>Operations\<close>

definition mgmt_tb_set_mcast_entry :: "mac_tab \<Rightarrow> mac_tab" where
  "mgmt_tb_set_mcast_entry t =
     upd_entry MCAST_WCID (\<lambda>e. e\<lparr>EntryType := ENTRY_WDEV, Sst := SST_ASSOC,
       Aid := word_of_nat MCAST_WCID, ent_wcid := word_of_nat MCAST_WCID\<rparr>)
       (upd_ba (upd_peer MCAST_WCID (\<lambda>p. p\<lparr>peer_wcid := word_of_nat MCAST_WCID, entry_none := False\<rparr>)) t)"

text \<open>The entry is zeroed before the limit of the interface is tested.\<close>

definition mac_clear_slot :: "nat \<Rightarrow> mac_tab \<Rightarrow> mac_tab" where
  "mac_clear_slot i t = upd_entry i (\<lambda>_. zero_entry) (upd_ba (upd_peer i (\<lambda>_. zero_peer)) t)"

definition mac_bss_full :: "u8 \<Rightarrow> mac_tab \<Rightarrow> bool" where
  "mac_bss_full apidx t \<longleftrightarrow> mt_ap t \<and> apidx < BssidNum t \<and> apidx < BcnMaxNum t \<and>
     unat apidx < HW_BEACON_MAX_NUM \<and> MaxStaNum (MBSSID t ! unat apidx) \<noteq> 0 \<and>
     MaxStaNum (MBSSID t ! unat apidx) \<le> StaCount (MBSSID t ! unat apidx)"

text \<open>The first free slot; entry 0, and 1 in an infrastructure network, are not for stations.\<close>

definition mac_first_free :: "mac_tab \<Rightarrow> nat option" where
  "mac_first_free t = find (\<lambda>i. EntryType (Content t ! i) = ENTRY_NONE)
     [(if \<not> mt_ap t \<and> mt_infra t then 2 else 1)..<MAX_LEN_OF_MAC_TABLE]"

text \<open>\<^verbatim>\<open>MBSS_MR_APIDX_SANITY_CHECK\<close>, and the authentication mode a new entry takes over.\<close>

definition mac_ap_index :: "u8 \<Rightarrow> mac_tab \<Rightarrow> u8" where
  "mac_ap_index apidx t =
     (if mt_ap t \<and> (BcnMaxNum t \<le> apidx \<or> HW_BEACON_MAX_NUM \<le> unat apidx) then 0 else apidx)"

definition mac_new_mode :: "u8 \<Rightarrow> mac_tab \<Rightarrow> auth_mode" where
  "mac_new_mode apidx t =
     (if mt_ap t then mb_AuthMode (MBSSID t ! unat (mac_ap_index apidx t)) else sta_AuthMode t)"

definition mac_new_client :: "nat \<Rightarrow> bytes \<Rightarrow> u8 \<Rightarrow> bool \<Rightarrow> mac_tab \<Rightarrow> mac_entry \<Rightarrow> mac_entry" where
  "mac_new_client i pAddr apidx OpModeAP t e =
     e\<lparr>EntryType := ENTRY_CLIENT, ent_wcid := word_of_nat i, ent_apidx := apidx,
       AuthMode := mac_new_mode apidx t,
       WpaState := (if mt_ap t \<and> AuthModeWPA \<le> mac_new_mode apidx t then AS_INITIALIZE else AS_NOTUSE),
       PortSecured := False, Addr := pAddr,
       ent_bssid := (if OpModeAP then mb_bssid (MBSSID t ! unat (mac_ap_index apidx t)) else pAddr),
       Sst := SST_NOT_AUTH, AuthState := AS_NOT_AUTH, Aid := word_of_nat i\<rparr>"

text \<open>The slot is filled and counted.\<close>

definition mac_fill_slot :: "nat \<Rightarrow> bytes \<Rightarrow> u8 \<Rightarrow> bool \<Rightarrow> mac_tab \<Rightarrow> mac_tab" where
  "mac_fill_slot i pAddr apidx OpModeAP t =
     (let t1 = upd_ba (upd_peer i (\<lambda>p. p\<lparr>peer_wcid := word_of_nat i, entry_none := False\<rparr>))
                 (upd_entry i (mac_new_client i pAddr apidx OpModeAP t) t);
          t2 = (if mt_ap t
                then upd_mbss (unat (mac_ap_index apidx t)) (\<lambda>m. m\<lparr>StaCount := StaCount m + 1\<rparr>)
                       (t1\<lparr>EntryClientCount := EntryClientCount t1 + 1\<rparr>)
                else t1)
      in mac_emit (AsicAddEntry i) (mac_emit (AsicRemovePairwiseKey i)
           (t2\<lparr>TabSize := TabSize t2 + 1\<rparr>)))"

definition MacTableInsertEntry :: "bytes \<Rightarrow> u8 \<Rightarrow> bool \<Rightarrow> mac_tab \<Rightarrow> (nat option \<times> mac_tab) run" where
  "MacTableInsertEntry pAddr apidx OpModeAP t =
     (if MAX_LEN_OF_MAC_TABLE \<le> unat (TabSize t) then r_return (None, t)
      else case mac_first_free t of
          None \<Rightarrow> r_return (None, t)
        | Some i \<Rightarrow>
            let t1 = mac_clear_slot i t in
            if mac_bss_full apidx t then r_return (None, t1)
            else if OpModeAP \<and> HW_BEACON_MAX_NUM \<le> unat (mac_ap_index apidx t) then Some (Inl OOBRead)
            else r_bind (mac_hash_append i pAddr (mac_fill_slot i pAddr apidx OpModeAP t1)) (\<lambda>t2.
                   r_return (Some i, t2)))"

text \<open>The 802.1x daemon hears of a station that leaves.\<close>

definition mac_dot1x_notify :: "mac_entry \<Rightarrow> mac_tab \<Rightarrow> mac_tab" where
  "mac_dot1x_notify e t =
     (if AuthMode e = AuthModeWPA \<or> AuthMode e = AuthModeWPA2 \<or> IEEE8021X (MBSSID t ! unat (ent_apidx e))
      then mac_emit (Dot1xDisconnect (Addr e)) t else t)"

text \<open>\<open>oks\<close> tells for each TID whether the frames that end the block-ack sessions can be allocated.\<close>

definition MacTableDeleteEntry :: "(nat \<Rightarrow> bool \<times> bool) \<Rightarrow> nat \<Rightarrow> bytes \<Rightarrow> mac_tab \<Rightarrow>
    (bool \<times> mac_tab) run" where
  "MacTableDeleteEntry oks wcid pAddr t =
     (if MAX_LEN_OF_MAC_TABLE \<le> wcid then r_return (False, t)
      else
        let e = Content t ! wcid in
        r_bind
          (if EntryType e = ENTRY_NONE \<or> Addr e \<noteq> pAddr then r_return t
           else
             r_bind (r_lift (BASessionTearDownALL oks (unat (ent_wcid e)) (mt_ba t))) (\<lambda>ba.
               let t1 = mac_emit (AsicDelEntry wcid) (t\<lparr>mt_ba := ba\<rparr>) in
               if EntryType e = ENTRY_CLIENT \<and> HW_BEACON_MAX_NUM \<le> unat (ent_apidx e)
               then Some (Inl OOBWrite)
               else
                 let t2 = (if EntryType e = ENTRY_CLIENT
                           then upd_mbss (unat (ent_apidx e)) (\<lambda>m. m\<lparr>StaCount := StaCount m - 1\<rparr>)
                                  ((mac_dot1x_notify e t1)\<lparr>EntryClientCount := EntryClientCount t1 - 1\<rparr>)
                           else t1)
                 in r_bind (mac_hash_remove wcid pAddr t2) (\<lambda>t3.
                      r_return
                        ((upd_ba (upd_peer wcid (\<lambda>p. p\<lparr>entry_none := True\<rparr>))
                           (upd_entry wcid (\<lambda>e. e\<lparr>Addr := replicate 6 0, EntryType := ENTRY_NONE,
                              PortSecured := False\<rparr>) t3))\<lparr>TabSize := TabSize t3 - 1\<rparr>))))
          (\<lambda>t4. r_return (True, if TabSize t4 = 0 then mac_emit UpdateProtect t4 else t4)))"

text \<open>\<open>deauth i\<close>: the deauthentication frame for entry \<open>i\<close> can be allocated.\<close>

fun mac_reset_loop :: "(nat \<Rightarrow> bool) \<Rightarrow> (nat \<Rightarrow> nat \<Rightarrow> bool \<times> bool) \<Rightarrow> nat list \<Rightarrow> mac_tab \<Rightarrow>
    (bool \<times> mac_tab) run" where
  "mac_reset_loop deauth oks [] t = r_return (True, t)"
| "mac_reset_loop deauth oks (i # is) t =
     (let e = Content t ! i;
          send = EntryType e = ENTRY_CLIENT \<and> mt_ap t \<and> Sst e = SST_ASSOC in
      if send \<and> \<not> deauth i then r_return (False, t)
      else
        let t1 = (if send then mac_emit (SendDeauth (Addr e) REASON_NO_LONGER_VALID) t else t)
        in r_bind (MacTableDeleteEntry (oks i) i (Addr e) t1) (\<lambda>(_, t2). mac_reset_loop deauth oks is t2))"

definition MacTableReset :: "(nat \<Rightarrow> bool) \<Rightarrow> (nat \<Rightarrow> nat \<Rightarrow> bool \<times> bool) \<Rightarrow> mac_tab \<Rightarrow> mac_tab run" where
  "MacTableReset deauth oks t =
     r_bind (mac_reset_loop deauth oks [1..<MAX_LEN_OF_MAC_TABLE] t) (\<lambda>(done, t1).
       if done \<and> mt_ap t1
       then r_return (foldl (\<lambda>t i. upd_mbss i (\<lambda>m. m\<lparr>StaCount := 0\<rparr>) t) t1 [0..<unat (BssidNum t1)]
                        \<lparr>TabSize := 0\<rparr>)
       else r_return t1)"

text \<open>
  The end of \<^verbatim>\<open>StaUpdateMacTableEntry\<close> in an infrastructure network: the entry of the access point is
  linked into the chain of its address.
\<close>

definition StaUpdateMacTableEntry_link :: "bytes \<Rightarrow> mac_tab \<Rightarrow> mac_tab run" where
  "StaUpdateMacTableEntry_link Bssid t =
     r_bind (mac_hash_append BSSID_WCID Bssid t) (\<lambda>t1.
       r_return ((upd_ba (upd_peer BSSID_WCID (\<lambda>p. p\<lparr>peer_wcid := word_of_nat BSSID_WCID,
                                                      entry_none := False\<rparr>))
          (upd_entry BSSID_WCID (\<lambda>e. e\<lparr>Addr := Bssid, Aid := word_of_nat BSSID_WCID,
             ent_wcid := word_of_nat BSSID_WCID, EntryType := ENTRY_CLIENT\<rparr>) t1))
            \<lparr>TabSize := TabSize t1 + 1\<rparr>))"

end
