(* ===== verification/MacTabProps.thy ===== *)
theory MacTabProps
  imports MacTab
begin

text \<open>
  The station table refines a finite map from addresses to entries: chains are finite paths through the
  entries, look-up, insertion and deletion return and do to the map what their names say; and how the
  table and the block-ack sessions of its stations fit together.
\<close>

subsection \<open>Paths through the entries\<close>

fun mac_path :: "mac_entry list \<Rightarrow> nat option \<Rightarrow> nat list \<Rightarrow> bool" where
  "mac_path es p [] \<longleftrightarrow> p = None"
| "mac_path es p (i # is) \<longleftrightarrow> p = Some i \<and> i < length es \<and> mac_path es (pNext (es ! i)) is"

lemma mac_path_unique: "mac_path es p is \<Longrightarrow> mac_path es p js \<Longrightarrow> is = js"
proof (induction "is" arbitrary: p js)
  case (Cons i "is")
  then show ?case by (cases js) auto
next
  case Nil
  then show ?case by (cases js) auto
qed

lemma mac_path_suffix: "mac_path es p (is @ j # js) \<Longrightarrow> mac_path es (Some j) (j # js)"
  by (induction "is" arbitrary: p) auto

lemma mac_path_distinct: "mac_path es p is \<Longrightarrow> distinct is"
proof (induction "is" arbitrary: p)
  case (Cons i "is")
  have "i \<notin> set is"
  proof
    assume "i \<in> set is"
    then obtain xs ys where "is = xs @ i # ys" by (meson split_list)
    then have "mac_path es (Some i) (i # ys)" "mac_path es (Some i) (i # is)"
      using Cons.prems mac_path_suffix [of es "Some i" "i # xs" i ys] by simp_all
    then show False using mac_path_unique \<open>is = xs @ i # ys\<close> by fastforce
  qed
  then show ?case using Cons by auto
qed simp

lemma mac_path_upd [simp]: "i \<notin> set is \<Longrightarrow> mac_path (es[i := v]) p is = mac_path es p is"
  by (induction "is" arbitrary: p) auto

lemma mac_path_length: "mac_path es p is \<Longrightarrow> j \<in> set is \<Longrightarrow> j < length es"
  by (induction "is" arbitrary: p) auto

lemma mac_walk_path:
  assumes "mac_path es p is" "\<forall>i\<in>set is. EntryType (es ! i) \<noteq> ENTRY_NONE"
  shows "mac_walk es a p = Some (find (\<lambda>i. Addr (es ! i) = a) is)"
  using assms
proof (induction "is" arbitrary: p)
  case Nil
  then show ?case by (simp add: mac_walk.simps)
next
  case (Cons i "is")
  then show ?case by (subst mac_walk.simps) simp
qed

lemma mac_tail_path: "mac_path es (Some j) is \<Longrightarrow> mac_tail es j = Some (last is)"
proof (induction "is" arbitrary: j)
  case (Cons i "is")
  then show ?case by (subst mac_tail.simps) (cases "is", auto)
qed simp

lemma mac_path_append:
  assumes "mac_path es p is" "is \<noteq> []" "i \<notin> set is" "i < length es" "pNext (es ! i) = None"
  shows "mac_path (es[last is := (es ! last is)\<lparr>pNext := Some i\<rparr>]) p (is @ [i])"
  using assms
proof (induction "is" arbitrary: p)
  case (Cons j js)
  note d = mac_path_distinct [OF Cons.prems(1)]
  show ?case
  proof (cases "js = []")
    case True
    then show ?thesis using Cons.prems by auto
  next
    case False
    then have "last js \<in> set js" by simp
    then have "last js \<noteq> j" using d by auto
    then show ?thesis using Cons False by simp
  qed
qed simp

lemma mac_probe_path:
  assumes "mac_path es (Some j) (xs @ i # ys)"
  shows "mac_probe es i prev j = Some (Some (if xs = [] then prev else Some (last xs)))"
  using assms
proof (induction xs arbitrary: j prev)
  case Nil
  then show ?case by (simp add: mac_probe.simps)
next
  case (Cons x xs)
  have "x \<noteq> i" using mac_path_distinct [OF Cons.prems] by auto
  then show ?case using Cons by (subst mac_probe.simps) (cases xs; auto)
qed

lemma mac_path_remove:
  assumes "mac_path es p (xs @ i # ys)" "xs \<noteq> []"
  shows "mac_path (es[last xs := (es ! last xs)\<lparr>pNext := pNext (es ! i)\<rparr>]) p (xs @ ys)"
  using assms
proof (induction xs arbitrary: p)
  case (Cons x xs)
  note d = mac_path_distinct [OF Cons.prems(1)]
  show ?case
  proof (cases "xs = []")
    case True
    then have "mac_path es (pNext (es ! i)) ys" "x \<notin> set ys" "x < length es" "p = Some x"
      using Cons.prems(1) d by auto
    then show ?thesis using True by simp
  next
    case False
    then have "last xs \<noteq> x" using d by auto
    then show ?thesis using Cons False by simp
  qed
qed simp

lemma mac_path_first: "mac_path es p (i # ys) \<Longrightarrow> mac_path es (pNext (es ! i)) ys"
  by simp

subsection \<open>The invariant and the map\<close>

definition mac_slot :: "mac_entry list \<Rightarrow> nat \<Rightarrow> bool" where
  "mac_slot es i \<longleftrightarrow> 1 \<le> i \<and> i < MAX_LEN_OF_MAC_TABLE \<and> EntryType (es ! i) \<noteq> ENTRY_NONE"

definition mac_chains_ok :: "mac_entry list \<Rightarrow> nat option list \<Rightarrow> bool" where
  "mac_chains_ok es hs \<longleftrightarrow> (\<forall>h<HASH_TABLE_SIZE. \<exists>is. mac_path es (hs ! h) is \<and>
     set is = {i. mac_slot es i \<and> MAC_ADDR_HASH_INDEX (Addr (es ! i)) = h})"

definition mac_inv :: "mac_tab \<Rightarrow> bool" where
  "mac_inv t \<longleftrightarrow> length (Content t) = MAX_LEN_OF_MAC_TABLE \<and> length (Hash t) = HASH_TABLE_SIZE \<and>
     length (MBSSID t) = HW_BEACON_MAX_NUM \<and> mac_chains_ok (Content t) (Hash t) \<and>
     inj_on (\<lambda>i. Addr (Content t ! i)) {i. mac_slot (Content t) i} \<and>
     unat (TabSize t) = card {i. mac_slot (Content t) i} \<and>
     (\<forall>i. mac_slot (Content t) i \<longrightarrow> unat (ent_wcid (Content t ! i)) = i \<and> unat (Aid (Content t ! i)) = i \<and>
        (EntryType (Content t ! i) = ENTRY_CLIENT \<longrightarrow> unat (ent_apidx (Content t ! i)) < HW_BEACON_MAX_NUM))"

text \<open>The map: which entry, if any, belongs to an address.\<close>

definition mac_map :: "mac_tab \<Rightarrow> bytes \<Rightarrow> nat option" where
  "mac_map t a = find (\<lambda>i. EntryType (Content t ! i) \<noteq> ENTRY_NONE \<and> Addr (Content t ! i) = a)
     [1..<MAX_LEN_OF_MAC_TABLE]"

lemma hash_less: "MAC_ADDR_HASH_INDEX a < HASH_TABLE_SIZE"
  unfolding MAC_ADDR_HASH_INDEX_def HASH_TABLE_SIZE_def
  using unsigned_less [of "(a ! 0 XOR a ! 1 XOR a ! 2 XOR a ! 3 XOR a ! 4 XOR a ! 5) AND 0xff"] by simp

lemma mac_invD:
  assumes "mac_inv t"
  shows "length (Content t) = MAX_LEN_OF_MAC_TABLE" "length (Hash t) = HASH_TABLE_SIZE"
    "length (MBSSID t) = HW_BEACON_MAX_NUM" "mac_chains_ok (Content t) (Hash t)"
    "mac_slot (Content t) i \<Longrightarrow> mac_slot (Content t) j \<Longrightarrow> Addr (Content t ! i) = Addr (Content t ! j) \<Longrightarrow> i = j"
    "unat (TabSize t) = card {i. mac_slot (Content t) i}"
    "mac_slot (Content t) i \<Longrightarrow> unat (ent_wcid (Content t ! i)) = i"
    "mac_slot (Content t) i \<Longrightarrow> EntryType (Content t ! i) = ENTRY_CLIENT \<Longrightarrow>
       unat (ent_apidx (Content t ! i)) < HW_BEACON_MAX_NUM"
    "mac_slot (Content t) i \<Longrightarrow> unat (Aid (Content t ! i)) = i"
  using assms by (auto simp: mac_inv_def inj_on_def)

lemma finite_slots [simp]: "finite {i. mac_slot es i}"
  by (rule finite_subset [of _ "{..<MAX_LEN_OF_MAC_TABLE}"]) (auto simp: mac_slot_def)

lemma card_slots: "card {i. mac_slot es i} \<le> MAX_LEN_OF_MAC_TABLE - 1"
proof -
  have "card {i. mac_slot es i} \<le> card {1..<MAX_LEN_OF_MAC_TABLE}"
    by (rule card_mono) (auto simp: mac_slot_def)
  then show ?thesis by simp
qed

lemma mac_map_slot:
  assumes "mac_map t a = Some i"
  shows "mac_slot (Content t) i" "Addr (Content t ! i) = a"
  using find_upt_Some [OF assms [unfolded mac_map_def]] by (simp_all add: mac_slot_def)

lemma mac_map_Some:
  assumes "mac_inv t"
  shows "mac_map t a = Some i \<longleftrightarrow> mac_slot (Content t) i \<and> Addr (Content t ! i) = a"
proof
  assume "mac_map t a = Some i"
  then show "mac_slot (Content t) i \<and> Addr (Content t ! i) = a" using mac_map_slot by blast
next
  assume i: "mac_slot (Content t) i \<and> Addr (Content t ! i) = a"
  then have "mac_map t a \<noteq> None" by (auto simp: mac_map_def find_upt_None mac_slot_def)
  then obtain j where j: "mac_map t a = Some j" by blast
  then show "mac_map t a = Some i" using mac_map_slot [OF j] i mac_invD(5) [OF assms, of i j] by simp
qed

lemma mac_map_None:
  "mac_map t a = None \<longleftrightarrow> (\<forall>i. mac_slot (Content t) i \<longrightarrow> Addr (Content t ! i) \<noteq> a)"
  by (auto simp: mac_map_def find_upt_None mac_slot_def)

lemma mac_slot_map: "mac_inv t \<Longrightarrow> mac_slot (Content t) i \<longleftrightarrow> (\<exists>a. mac_map t a = Some i)"
  using mac_map_Some by auto

lemma mac_map_eqI:
  assumes "mac_inv t" "\<And>i. g a = Some i \<longleftrightarrow> mac_slot (Content t) i \<and> Addr (Content t ! i) = a"
  shows "mac_map t a = g a"
  using mac_map_Some [OF assms(1), of a] assms(2) by (metis option.exhaust)

subsection \<open>Look-up\<close>

lemma find_in_set: "find P xs = Some x \<Longrightarrow> x \<in> set xs \<and> P x"
  by (induction xs) (auto split: if_splits)

lemma lookup_eq:
  assumes "mac_inv t"
  shows "MacTableLookup t a = r_return (mac_map t a)"
proof -
  let ?h = "MAC_ADDR_HASH_INDEX a" and ?es = "Content t"
  obtain "is" where c: "mac_path ?es (Hash t ! ?h) is"
    "set is = {i. mac_slot ?es i \<and> MAC_ADDR_HASH_INDEX (Addr (?es ! i)) = ?h}"
    using mac_invD(4) [OF assms] hash_less [of a] by (auto simp: mac_chains_ok_def)
  have "mac_walk ?es a (Hash t ! ?h) = Some (find (\<lambda>i. Addr (?es ! i) = a) is)"
    by (rule mac_walk_path [OF c(1)]) (simp add: c(2) mac_slot_def)
  moreover have "find (\<lambda>i. Addr (?es ! i) = a) is = mac_map t a"
  proof (cases "find (\<lambda>i. Addr (?es ! i) = a) is")
    case None
    then have "\<forall>i\<in>set is. Addr (?es ! i) \<noteq> a" by (simp add: find_None_iff)
    then have "mac_map t a = None" unfolding c(2) mac_map_None by blast
    then show ?thesis using None by simp
  next
    case (Some i)
    then have "i \<in> set is \<and> Addr (?es ! i) = a" by (rule find_in_set)
    then have "mac_map t a = Some i" unfolding c(2) mac_map_Some [OF assms] by blast
    then show ?thesis using Some by simp
  qed
  ultimately show ?thesis by (simp add: MacTableLookup_def r_return_def)
qed

subsection \<open>Linking an entry into its chain and out of it\<close>

definition mac_bucket :: "mac_entry list \<Rightarrow> nat \<Rightarrow> nat set" where
  "mac_bucket es h = {i. mac_slot es i \<and> MAC_ADDR_HASH_INDEX (Addr (es ! i)) = h}"

text \<open>Entries that differ at most in their links.\<close>

definition mac_same :: "mac_entry list \<Rightarrow> mac_entry list \<Rightarrow> bool" where
  "mac_same es es' \<longleftrightarrow> length es' = length es \<and>
     (\<forall>i. (es' ! i)\<lparr>pNext := None\<rparr> = (es ! i)\<lparr>pNext := None\<rparr>)"

lemma mac_same_refl [simp]: "mac_same es es"
  by (simp add: mac_same_def)

lemma mac_same_link [simp]: "mac_same es (es[k := (es ! k)\<lparr>pNext := p\<rparr>])"
  by (cases "k < length es") (auto simp: mac_same_def nth_list_update list_update_beyond)

lemma mac_sameD:
  assumes "mac_same es es'"
  shows "length es' = length es" "EntryType (es' ! i) = EntryType (es ! i)" "Addr (es' ! i) = Addr (es ! i)"
    "ent_wcid (es' ! i) = ent_wcid (es ! i)" "ent_apidx (es' ! i) = ent_apidx (es ! i)"
    "Aid (es' ! i) = Aid (es ! i)"
proof -
  have e: "(es' ! i)\<lparr>pNext := None\<rparr> = (es ! i)\<lparr>pNext := None\<rparr>" using assms by (simp add: mac_same_def)
  have f: "f ((es' ! i)\<lparr>pNext := None\<rparr>) = f ((es ! i)\<lparr>pNext := None\<rparr>)" for f :: "mac_entry \<Rightarrow> 'a"
    by (simp only: e)
  show "length es' = length es" using assms by (simp add: mac_same_def)
  show "EntryType (es' ! i) = EntryType (es ! i)" using f [of EntryType] by simp
  show "Addr (es' ! i) = Addr (es ! i)" using f [of Addr] by simp
  show "ent_wcid (es' ! i) = ent_wcid (es ! i)" using f [of ent_wcid] by simp
  show "ent_apidx (es' ! i) = ent_apidx (es ! i)" using f [of ent_apidx] by simp
  show "Aid (es' ! i) = Aid (es ! i)" using f [of Aid] by simp
qed

lemma mac_same_slot:
  assumes "mac_same es es'"
  shows "mac_slot es' = mac_slot es" "mac_bucket es' = mac_bucket es"
  using mac_sameD [OF assms] by (auto simp: fun_eq_iff mac_slot_def mac_bucket_def)

lemma mac_chainsD:
  assumes "mac_chains_ok es hs" "h < HASH_TABLE_SIZE"
  obtains "is" where "mac_path es (hs ! h) is" "set is = mac_bucket es h"
  using assms unfolding mac_chains_ok_def mac_bucket_def by blast

lemma mac_chainsI:
  assumes "\<And>h. h < HASH_TABLE_SIZE \<Longrightarrow> \<exists>is. mac_path es (hs ! h) is \<and> set is = mac_bucket es h"
  shows "mac_chains_ok es hs"
  using assms unfolding mac_chains_ok_def mac_bucket_def by blast

lemma upd_entry_simps [simp]:
  "Content (upd_entry i f t) = (Content t)[i := f (Content t ! i)]" "Hash (upd_entry i f t) = Hash t"
  "TabSize (upd_entry i f t) = TabSize t" "MBSSID (upd_entry i f t) = MBSSID t"
  "mt_ba (upd_entry i f t) = mt_ba t"
  "Content (upd_ba g t) = Content t" "Hash (upd_ba g t) = Hash t" "TabSize (upd_ba g t) = TabSize t"
  "MBSSID (upd_ba g t) = MBSSID t" "mt_ba (upd_ba g t) = g (mt_ba t)"
  "Content (upd_mbss j k t) = Content t" "Hash (upd_mbss j k t) = Hash t"
  "TabSize (upd_mbss j k t) = TabSize t" "length (MBSSID (upd_mbss j k t)) = length (MBSSID t)"
  "mt_ba (upd_mbss j k t) = mt_ba t"
  "Content (mac_emit ev t) = Content t" "Hash (mac_emit ev t) = Hash t"
  "TabSize (mac_emit ev t) = TabSize t" "MBSSID (mac_emit ev t) = MBSSID t"
  "mt_ba (mac_emit ev t) = mt_ba t"
  by (simp_all add: upd_entry_def upd_ba_def upd_mbss_def mac_emit_def)

text \<open>What linking leaves unchanged.\<close>

definition mac_relinked :: "mac_tab \<Rightarrow> mac_tab \<Rightarrow> bool" where
  "mac_relinked t t' \<longleftrightarrow> mac_same (Content t) (Content t') \<and> length (Hash t') = length (Hash t) \<and>
     t' = t\<lparr>Content := Content t', Hash := Hash t'\<rparr>"

lemma mac_relinkedD:
  assumes "mac_relinked t t'"
  shows "mac_same (Content t) (Content t')" "length (Hash t') = length (Hash t)" "TabSize t' = TabSize t"
    "MBSSID t' = MBSSID t" "mt_ba t' = mt_ba t"
proof -
  have e: "t' = t\<lparr>Content := Content t', Hash := Hash t'\<rparr>" using assms by (simp add: mac_relinked_def)
  show "TabSize t' = TabSize t" "MBSSID t' = MBSSID t" "mt_ba t' = mt_ba t" by (subst e; simp)+
qed (use assms in \<open>simp_all add: mac_relinked_def\<close>)

lemma hash_append_ok:
  assumes "mac_chains_ok es hs" "length hs = HASH_TABLE_SIZE" "1 \<le> i" "i < MAX_LEN_OF_MAC_TABLE"
    "length es = MAX_LEN_OF_MAC_TABLE" "EntryType (es ! i) = ENTRY_NONE"
    "Content t = es[i := e]" "Hash t = hs" "EntryType e \<noteq> ENTRY_NONE" "pNext e = None"
    "MAC_ADDR_HASH_INDEX (Addr e) = MAC_ADDR_HASH_INDEX a"
  shows "\<exists>t'. mac_hash_append i a t = r_return t' \<and> mac_chains_ok (Content t') (Hash t') \<and> mac_relinked t t'"
proof -
  let ?h = "MAC_ADDR_HASH_INDEX a" and ?es = "es[i := e]"
  have li: "i < length es" using assms(4,5) by simp
  have b: "mac_bucket ?es h = (if h = ?h then insert i (mac_bucket es h) else mac_bucket es h)" for h
    using assms(3,4,6,9,11) li by (auto simp: mac_bucket_def mac_slot_def nth_list_update)
  have old: "\<exists>is. mac_path ?es (hs ! h) is \<and> set is = mac_bucket es h \<and> i \<notin> set is"
    if hl: "h < HASH_TABLE_SIZE" for h
  proof -
    obtain "is" where c: "mac_path es (hs ! h) is" "set is = mac_bucket es h"
      using mac_chainsD [OF assms(1) hl] .
    moreover have "i \<notin> set is" using c(2) assms(6) by (simp add: mac_bucket_def mac_slot_def)
    ultimately show ?thesis by (intro exI [of _ "is"]) simp
  qed
  obtain "is" where c: "mac_path ?es (hs ! ?h) is" "set is = mac_bucket es ?h" "i \<notin> set is"
    using old [OF hash_less] by blast
  show ?thesis
  proof (cases "hs ! ?h")
    case None
    let ?t = "t\<lparr>Hash := hs[?h := Some i]\<rparr>"
    have nil: "is = []" using c(1) None by (cases "is") simp_all
    have "mac_chains_ok ?es (hs[?h := Some i])"
    proof (rule mac_chainsI)
      fix h assume h: "h < HASH_TABLE_SIZE"
      show "\<exists>is. mac_path ?es (hs[?h := Some i] ! h) is \<and> set is = mac_bucket ?es h"
      proof (cases "h = ?h")
        case True
        have "mac_path ?es (hs[?h := Some i] ! h) [i] \<and> set [i] = mac_bucket ?es h"
          using True h assms(2,10) li b c(2) nil by simp
        then show ?thesis by blast
      next
        case False
        then show ?thesis using old [OF h] b by (simp add: nth_list_update) blast
      qed
    qed
    moreover have "mac_hash_append i a t = r_return ?t" using None assms(8) by (simp add: mac_hash_append_def)
    moreover have "mac_relinked t ?t" using assms(7,8) by (simp add: mac_relinked_def)
    ultimately show ?thesis using assms(7) by (intro exI [of _ ?t]) simp
  next
    case (Some j)
    then have ne: "is \<noteq> []" using c(1) by auto
    let ?l = "last is"
    let ?t = "upd_entry ?l (\<lambda>e. e\<lparr>pNext := Some i\<rparr>) t" and ?es' = "?es[?l := (?es ! ?l)\<lparr>pNext := Some i\<rparr>]"
    have l: "?l \<in> mac_bucket es ?h" using ne c(2) last_in_set by blast
    have "mac_chains_ok ?es' hs"
    proof (rule mac_chainsI)
      fix h assume h: "h < HASH_TABLE_SIZE"
      have bs: "mac_bucket ?es' h = mac_bucket ?es h" by (simp only: mac_same_slot [OF mac_same_link])
      show "\<exists>is. mac_path ?es' (hs ! h) is \<and> set is = mac_bucket ?es' h"
      proof (cases "h = ?h")
        case True
        have "mac_path ?es' (hs ! h) (is @ [i])"
          using mac_path_append [OF c(1) ne c(3)] True li assms(10) by simp
        moreover have "set (is @ [i]) = mac_bucket ?es' h" using True b bs c(2) by simp
        ultimately show ?thesis by blast
      next
        case False
        obtain js where js: "mac_path ?es (hs ! h) js" "set js = mac_bucket es h" using old [OF h] by blast
        have "?l \<notin> set js" using l js(2) False by (simp add: mac_bucket_def)
        then have "mac_path ?es' (hs ! h) js" using js(1) by simp
        then show ?thesis using js(2) False b bs by auto
      qed
    qed
    moreover have "mac_hash_append i a t = r_return ?t"
      using Some assms(7,8) mac_tail_path [of ?es j "is"] c(1) by (simp add: mac_hash_append_def)
    moreover have "Content ?t = ?es'" "Hash ?t = hs" using assms(7,8) by simp_all
    moreover have "mac_relinked t ?t" using assms(7) by (simp add: mac_relinked_def upd_entry_def)
    ultimately show ?thesis by (intro exI [of _ ?t]) (simp only: simp_thms)
  qed
qed

lemma hash_remove_ok:
  assumes "mac_chains_ok es hs" "length hs = HASH_TABLE_SIZE" "mac_slot es i"
    "MAC_ADDR_HASH_INDEX (Addr (es ! i)) = MAC_ADDR_HASH_INDEX a" "Content t = es" "Hash t = hs"
  shows "\<exists>t'. mac_hash_remove i a t = r_return t' \<and> mac_relinked t t' \<and>
    (\<forall>h<HASH_TABLE_SIZE. \<exists>is. mac_path (Content t') (Hash t' ! h) is \<and> set is = mac_bucket es h - {i})"
proof -
  let ?h = "MAC_ADDR_HASH_INDEX a"
  have ib: "i \<in> mac_bucket es ?h" using assms(3,4) by (simp add: mac_bucket_def)
  obtain "is" where c: "mac_path es (hs ! ?h) is" "set is = mac_bucket es ?h"
    using mac_chainsD [OF assms(1) hash_less] .
  obtain xs ys where sp: "is = xs @ i # ys" using ib c(2) split_list by metis
  obtain j where j: "hs ! ?h = Some j" using c(1) sp by (cases xs) auto
  have d: "distinct is" by (rule mac_path_distinct [OF c(1)])
  have set': "set (xs @ ys) = mac_bucket es ?h - {i}" using c(2) sp d by auto
  have pr: "mac_probe es i None j = Some (Some (if xs = [] then None else Some (last xs)))"
    using mac_probe_path [of es j xs i ys] c(1) sp j by simp
  have other: "\<exists>js. mac_path es (hs ! h) js \<and> set js = mac_bucket es h - {i} \<and> set js \<inter> set is = {}"
    if hl: "h < HASH_TABLE_SIZE" "h \<noteq> ?h" for h
  proof -
    obtain js where "mac_path es (hs ! h) js" "set js = mac_bucket es h"
      using mac_chainsD [OF assms(1) hl(1)] .
    then show ?thesis using ib c(2) hl(2) by (intro exI [of _ js]) (auto simp: mac_bucket_def)
  qed
  show ?thesis
  proof (cases "xs = []")
    case True
    let ?t = "t\<lparr>Hash := hs[?h := pNext (es ! i)]\<rparr>"
    have "\<exists>is. mac_path es (hs[?h := pNext (es ! i)] ! h) is \<and> set is = mac_bucket es h - {i}"
      if h: "h < HASH_TABLE_SIZE" for h
    proof (cases "h = ?h")
      case True
      have "mac_path es (pNext (es ! i)) ys" using c(1) sp \<open>xs = []\<close> by simp
      then show ?thesis using set' \<open>xs = []\<close> True h assms(2) by (intro exI [of _ ys]) simp
    next
      case False
      then show ?thesis using other [OF h False] by (simp add: nth_list_update) blast
    qed
    moreover have "mac_hash_remove i a t = r_return ?t"
      using j pr True assms(5,6) by (simp add: mac_hash_remove_def Let_def)
    moreover have "mac_relinked t ?t" using assms(6) by (simp add: mac_relinked_def)
    ultimately show ?thesis using assms(5) by (intro exI [of _ ?t]) simp
  next
    case False
    let ?l = "last xs" and ?f = "\<lambda>e. e\<lparr>pNext := pNext (es ! i)\<rparr>"
    let ?t = "upd_entry ?l ?f t" and ?es = "es[last xs := (es ! last xs)\<lparr>pNext := pNext (es ! i)\<rparr>]"
    have l: "?l \<in> set is" using False sp by simp
    have "\<exists>is. mac_path ?es (hs ! h) is \<and> set is = mac_bucket es h - {i}" if h: "h < HASH_TABLE_SIZE" for h
    proof (cases "h = ?h")
      case True
      have "mac_path ?es (hs ! ?h) (xs @ ys)" using mac_path_remove c(1) sp False by simp
      then show ?thesis using set' True by blast
    next
      case False
      obtain js where js: "mac_path es (hs ! h) js" "set js = mac_bucket es h - {i}" "set js \<inter> set is = {}"
        using other [OF h False] by blast
      then have "mac_path ?es (hs ! h) js" using l by auto
      then show ?thesis using js(2) by blast
    qed
    moreover have "mac_hash_remove i a t = r_return ?t"
      using j pr False assms(5,6) by (simp add: mac_hash_remove_def Let_def)
    moreover have "mac_relinked t ?t" using assms(5) by (simp add: mac_relinked_def upd_entry_def)
    ultimately show ?thesis using assms(5,6) by (intro exI [of _ ?t]) simp
  qed
qed

subsection \<open>Insertion\<close>

text \<open>A table whose used entries differ from another's in nothing that the table itself reads.\<close>

definition mac_key :: "mac_entry \<Rightarrow> entry_type \<times> bytes \<times> u8 \<times> u16 \<times> u8" where
  "mac_key e = (EntryType e, Addr e, ent_wcid e, Aid e, ent_apidx e)"

lemma inv_cong:
  assumes "mac_inv t" "mac_chains_ok (Content t') (Hash t')" "length (Content t') = MAX_LEN_OF_MAC_TABLE"
    "length (Hash t') = HASH_TABLE_SIZE" "length (MBSSID t') = HW_BEACON_MAX_NUM" "TabSize t' = TabSize t"
    "\<And>i. mac_slot (Content t') i = mac_slot (Content t) i"
    "\<And>i. mac_slot (Content t) i \<Longrightarrow> mac_key (Content t' ! i) = mac_key (Content t ! i)"
  shows "mac_inv t'" "mac_map t' = mac_map t"
proof -
  have e: "EntryType (Content t' ! i) = EntryType (Content t ! i)" "Addr (Content t' ! i) = Addr (Content t ! i)"
    "ent_wcid (Content t' ! i) = ent_wcid (Content t ! i)"
    "ent_apidx (Content t' ! i) = ent_apidx (Content t ! i)" "Aid (Content t' ! i) = Aid (Content t ! i)"
    if "mac_slot (Content t) i" for i
    using assms(8) [OF that] by (simp_all add: mac_key_def)
  show inv: "mac_inv t'"
    unfolding mac_inv_def assms(6,7)
    using assms(2-5) mac_invD(5-9) [OF assms(1)] e by (auto simp: inj_on_def)
  have "mac_map t' a = mac_map t a" for a
    by (rule mac_map_eqI [OF inv]) (use e assms(7) mac_map_Some [OF assms(1)] in auto)
  then show "mac_map t' = mac_map t" by (rule ext)
qed

lemma clear_slot_ok:
  assumes "mac_inv t" "1 \<le> i" "EntryType (Content t ! i) = ENTRY_NONE"
  shows "mac_inv (mac_clear_slot i t)" "mac_map (mac_clear_slot i t) = mac_map t"
proof -
  let ?t = "mac_clear_slot i t"
  have c: "Content ?t = (Content t)[i := zero_entry]" by (simp add: mac_clear_slot_def)
  have s: "mac_slot (Content ?t) j = mac_slot (Content t) j" for j
    using assms(3) unfolding c
    by (cases "i < length (Content t)") (auto simp: mac_slot_def nth_list_update zero_entry_def list_update_beyond)
  have ne: "mac_slot (Content t) j \<Longrightarrow> j \<noteq> i" for j using assms(3) by (auto simp: mac_slot_def)
  have eq: "mac_slot (Content t) j \<Longrightarrow> Content ?t ! j = Content t ! j" for j
    using ne [of j] by (simp add: c)
  have b: "mac_bucket (Content ?t) h = mac_bucket (Content t) h" for h
    unfolding mac_bucket_def s using eq by auto
  have "mac_chains_ok (Content ?t) (Hash ?t)"
  proof (rule mac_chainsI)
    fix h assume h: "h < HASH_TABLE_SIZE"
    obtain "is" where p: "mac_path (Content t) (Hash t ! h) is" "set is = mac_bucket (Content t) h"
      using mac_chainsD [OF mac_invD(4) [OF assms(1)] h] .
    have "i \<notin> set is" using p(2) ne by (auto simp: mac_bucket_def)
    then have "mac_path (Content ?t) (Hash ?t ! h) is" unfolding c using p(1) by (simp add: mac_clear_slot_def)
    moreover have "set is = mac_bucket (Content ?t) h" using p(2) b by simp
    ultimately show "\<exists>is. mac_path (Content ?t) (Hash ?t ! h) is \<and> set is = mac_bucket (Content ?t) h"
      by blast
  qed
  moreover have "mac_key (Content ?t ! j) = mac_key (Content t ! j)" if "mac_slot (Content t) j" for j
    using ne [OF that] by (simp add: c)
  moreover have "length (Content ?t) = MAX_LEN_OF_MAC_TABLE" "length (Hash ?t) = HASH_TABLE_SIZE"
    "length (MBSSID ?t) = HW_BEACON_MAX_NUM" "TabSize ?t = TabSize t"
    using mac_invD(1-3) [OF assms(1)] by (simp_all add: mac_clear_slot_def)
  ultimately show "mac_inv ?t" "mac_map ?t = mac_map t"
    using inv_cong [OF assms(1) _ _ _ _ _ s] by blast+
qed

lemma unat_pred16: "0 < unat (n :: u16) \<Longrightarrow> unat (n - 1) = unat n - 1"
  by (simp add: unat_minus_one unat_gt_0)

lemma unat_succ16: "unat (n :: u16) < 1000 \<Longrightarrow> unat (n + 1) = Suc (unat n)"
  using unat_add_lem [of n 1] by simp

text \<open>A used entry appears in an unused slot.\<close>

lemma insert_slot_ok:
  assumes "mac_inv t" "1 \<le> i" "i < MAX_LEN_OF_MAC_TABLE" "EntryType (Content t ! i) = ENTRY_NONE"
    "Content t' = (Content t)[i := e]" "Hash t' = Hash t" "TabSize t' = TabSize t + 1"
    "length (MBSSID t') = HW_BEACON_MAX_NUM" "EntryType e \<noteq> ENTRY_NONE" "pNext e = None"
    "unat (ent_wcid e) = i" "EntryType e = ENTRY_CLIENT \<longrightarrow> unat (ent_apidx e) < HW_BEACON_MAX_NUM"
    "mac_map t (Addr e) = None" "unat (Aid e) = i"
  shows "\<exists>t''. mac_hash_append i (Addr e) t' = r_return t'' \<and> mac_inv t'' \<and> mac_relinked t' t'' \<and>
    mac_map t'' = (mac_map t)(Addr e \<mapsto> i)"
proof -
  note inv = mac_invD [OF assms(1)]
  have li: "i < length (Content t)" using inv(1) assms(3) by simp
  have fresh: "mac_slot (Content t) j \<Longrightarrow> Addr (Content t ! j) \<noteq> Addr e" for j
    using assms(13) unfolding mac_map_None by blast
  have ne: "mac_slot (Content t) j \<Longrightarrow> j \<noteq> i" for j using assms(4) by (auto simp: mac_slot_def)
  obtain t'' where r: "mac_hash_append i (Addr e) t' = r_return t''"
    "mac_chains_ok (Content t'') (Hash t'')" "mac_relinked t' t''"
    using hash_append_ok [OF inv(4,2) assms(2,3) inv(1) assms(4,5,6,9,10) refl] by blast
  note rl = mac_relinkedD [OF r(3)]
  have s: "mac_slot (Content t'') j \<longleftrightarrow> j = i \<or> mac_slot (Content t) j" for j
    using mac_same_slot(1) [OF rl(1)] assms(2,3,5,9) li by (auto simp: mac_slot_def nth_list_update)
  have e: "EntryType (Content t'' ! j) = EntryType ((Content t)[i := e] ! j)"
    "Addr (Content t'' ! j) = Addr ((Content t)[i := e] ! j)"
    "ent_wcid (Content t'' ! j) = ent_wcid ((Content t)[i := e] ! j)"
    "ent_apidx (Content t'' ! j) = ent_apidx ((Content t)[i := e] ! j)"
    "Aid (Content t'' ! j) = Aid ((Content t)[i := e] ! j)" for j
    using mac_sameD(2-6) [OF rl(1), of j] unfolding assms(5) by simp_all
  have "{j. mac_slot (Content t'') j} = insert i {j. mac_slot (Content t) j}" using s by auto
  moreover have "i \<notin> {j. mac_slot (Content t) j}" using assms(4) by (simp add: mac_slot_def)
  ultimately have card: "card {j. mac_slot (Content t'') j} = Suc (card {j. mac_slot (Content t) j})"
    by simp
  have size: "unat (TabSize t'') = Suc (card {j. mac_slot (Content t) j})"
    using rl(3) assms(7) inv(6) card_slots [of "Content t"] by (simp add: unat_succ16 table_len)
  have inv'': "mac_inv t''"
    unfolding mac_inv_def
  proof (intro conjI)
    show "inj_on (\<lambda>j. Addr (Content t'' ! j)) {j. mac_slot (Content t'') j}"
      using s e(2) fresh inv(5) li ne by (fastforce simp: inj_on_def nth_list_update)
    show "\<forall>j. mac_slot (Content t'') j \<longrightarrow> unat (ent_wcid (Content t'' ! j)) = j \<and> unat (Aid (Content t'' ! j)) = j \<and>
      (EntryType (Content t'' ! j) = ENTRY_CLIENT \<longrightarrow> unat (ent_apidx (Content t'' ! j)) < HW_BEACON_MAX_NUM)"
      using s e inv(7-9) assms(11,12,14) li by (auto simp: nth_list_update)
  qed (use r(2) rl mac_sameD(1) [OF rl(1)] inv assms size card in simp_all)
  have ni: "\<not> mac_slot (Content t) i" using assms(4) by (simp add: mac_slot_def)
  have "mac_map t'' a = ((mac_map t)(Addr e \<mapsto> i)) a" for a
    by (rule mac_map_eqI [OF inv''])
      (use s e(2) li mac_map_Some [OF assms(1)] fresh ni in \<open>auto simp: nth_list_update\<close>)
  then have "mac_map t'' = (mac_map t)(Addr e \<mapsto> i)" by (rule ext)
  then show ?thesis using r inv'' by blast
qed

definition fresh_client :: "mac_tab \<Rightarrow> nat \<Rightarrow> bytes \<Rightarrow> u8 \<Rightarrow> bool" where
  "fresh_client t i a apidx \<longleftrightarrow> (let e = Content t ! i in EntryType e = ENTRY_CLIENT \<and> Addr e = a \<and>
     unat (ent_wcid e) = i \<and> unat (Aid e) = i \<and> ent_apidx e = apidx \<and> Sst e = SST_NOT_AUTH \<and>
     AuthState e = AS_NOT_AUTH \<and> \<not> PortSecured e)"

definition mac_insert_full :: "u8 \<Rightarrow> mac_tab \<Rightarrow> bool" where
  "mac_insert_full apidx t \<longleftrightarrow> mac_bss_full apidx t \<or>
     (\<forall>i. (if \<not> mt_ap t \<and> mt_infra t then 2 else 1) \<le> i \<and> i < MAX_LEN_OF_MAC_TABLE \<longrightarrow>
        EntryType (Content t ! i) \<noteq> ENTRY_NONE)"

lemma mac_first_free_Some:
  "mac_first_free t = Some i \<Longrightarrow> 1 \<le> i \<and> i < MAX_LEN_OF_MAC_TABLE \<and> EntryType (Content t ! i) = ENTRY_NONE"
  unfolding mac_first_free_def using find_upt_Some by (fastforce split: if_splits)

lemma clear_slot_simps [simp]:
  "Content (mac_clear_slot i t) = (Content t)[i := zero_entry]" "Hash (mac_clear_slot i t) = Hash t"
  "TabSize (mac_clear_slot i t) = TabSize t" "MBSSID (mac_clear_slot i t) = MBSSID t"
  "mt_ba (mac_clear_slot i t) = upd_peer i (\<lambda>_. zero_peer) (mt_ba t)"
  by (simp_all add: mac_clear_slot_def)

lemma fill_slot_simps [simp]:
  "Content (mac_fill_slot i a ap om t) = (Content t)[i := mac_new_client i a ap om t (Content t ! i)]"
  "Hash (mac_fill_slot i a ap om t) = Hash t" "TabSize (mac_fill_slot i a ap om t) = TabSize t + 1"
  "length (MBSSID (mac_fill_slot i a ap om t)) = length (MBSSID t)"
  "mt_ba (mac_fill_slot i a ap om t) =
     upd_peer i (\<lambda>p. p\<lparr>peer_wcid := word_of_nat i, entry_none := False\<rparr>) (mt_ba t)"
  by (simp_all add: mac_fill_slot_def Let_def)

lemma new_client_simps [simp]:
  "EntryType (mac_new_client i a ap om t e) = ENTRY_CLIENT" "pNext (mac_new_client i a ap om t e) = pNext e"
  "Addr (mac_new_client i a ap om t e) = a" "ent_apidx (mac_new_client i a ap om t e) = ap"
  "ent_wcid (mac_new_client i a ap om t e) = word_of_nat i" "Aid (mac_new_client i a ap om t e) = word_of_nat i"
  "Sst (mac_new_client i a ap om t e) = SST_NOT_AUTH" "AuthState (mac_new_client i a ap om t e) = AS_NOT_AUTH"
  "\<not> PortSecured (mac_new_client i a ap om t e)"
  by (simp_all add: mac_new_client_def)

lemma insert_ok:
  assumes "mac_inv t" "mac_map t a = None" "unat apidx < HW_BEACON_MAX_NUM"
  shows "\<exists>r t'. MacTableInsertEntry a apidx om t = r_return (r, t') \<and> mac_inv t' \<and>
    (case r of
       None \<Rightarrow> mac_map t' = mac_map t \<and> mac_insert_full apidx t \<and>
         (mt_ba t' = mt_ba t \<or> (\<exists>i. mac_first_free t = Some i \<and> mt_ba t' = upd_peer i (\<lambda>_. zero_peer) (mt_ba t)))
     | Some i \<Rightarrow> mac_map t' = (mac_map t)(a \<mapsto> i) \<and> mac_first_free t = Some i \<and> fresh_client t' i a apidx \<and>
         mt_ba t' = upd_peer i (\<lambda>p. p\<lparr>peer_wcid := word_of_nat i, entry_none := False\<rparr>)
                      (upd_peer i (\<lambda>_. zero_peer) (mt_ba t)))"
proof -
  have size: "(MAX_LEN_OF_MAC_TABLE \<le> unat (TabSize t)) = False"
    using mac_invD(6) [OF assms(1)] card_slots [of "Content t"] by (simp add: table_len)
  note def = MacTableInsertEntry_def [of a apidx om t, unfolded size if_False Let_def]
  show ?thesis
  proof (cases "mac_first_free t")
    case None
    then have "mac_insert_full apidx t"
      unfolding mac_first_free_def mac_insert_full_def find_upt_None by blast
    moreover have "MacTableInsertEntry a apidx om t = r_return (None, t)" using None by (simp add: def)
    ultimately show ?thesis using assms(1) by (intro exI [of _ None] exI [of _ t]) simp
  next
    case (Some i)
    note i = mac_first_free_Some [OF Some]
    then have si: "1 \<le> i" "EntryType (Content t ! i) = ENTRY_NONE" by simp_all
    let ?t1 = "mac_clear_slot i t"
    note cl = clear_slot_ok [OF assms(1) si]
    show ?thesis
    proof (cases "mac_bss_full apidx t")
      case True
      then have "MacTableInsertEntry a apidx om t = r_return (None, ?t1)" using Some by (simp add: def)
      then show ?thesis using True cl Some
        by (intro exI [of _ None] exI [of _ ?t1]) (simp add: mac_insert_full_def)
    next
      case False
      let ?e = "mac_new_client i a apidx om ?t1 zero_entry" and ?t5 = "mac_fill_slot i a apidx om ?t1"
      have "\<not> HW_BEACON_MAX_NUM \<le> unat (mac_ap_index apidx t)"
        using assms(3) by (simp add: mac_ap_index_def HW_BEACON_MAX_NUM_def)
      then have run: "MacTableInsertEntry a apidx om t =
          r_bind (mac_hash_append i (Addr ?e) ?t5) (\<lambda>t6. r_return (Some i, t6))"
        using Some False by (simp add: def)
      have li: "i < length (Content t)" using i mac_invD(1) [OF assms(1)] by simp
      have c: "Content ?t5 = (Content ?t1)[i := ?e]" using li by simp
      have w: "unat (ent_wcid ?e) = i" "unat (Aid ?e) = i" using i by (simp_all add: unat_of_nat table_len)
      have none: "EntryType (Content ?t1 ! i) = ENTRY_NONE" using li by (simp add: zero_entry_def)
      have "mac_map ?t1 (Addr ?e) = None" "length (MBSSID ?t5) = HW_BEACON_MAX_NUM"
        using cl(2) assms(2) mac_invD(3) [OF assms(1)] by simp_all
      then obtain t6 where h: "mac_hash_append i (Addr ?e) ?t5 = r_return t6" "mac_inv t6" "mac_relinked ?t5 t6"
        "mac_map t6 = (mac_map ?t1)(Addr ?e \<mapsto> i)"
        using insert_slot_ok [OF cl(1) si(1) _ none c] i w assms(3) by (auto simp: zero_entry_def)
      note rl = mac_relinkedD [OF h(3)]
      have "(Content t6 ! i)\<lparr>pNext := None\<rparr> = ?e\<lparr>pNext := None\<rparr>"
        using rl(1) li unfolding mac_same_def c by simp
      then obtain p where "Content t6 ! i = ?e\<lparr>pNext := p\<rparr>"
        by (metis mac_entry.surjective mac_entry.update_convs(2))
      then have "fresh_client t6 i a apidx" using w unfolding fresh_client_def Let_def by simp
      moreover have "mt_ba t6 = upd_peer i (\<lambda>p. p\<lparr>peer_wcid := word_of_nat i, entry_none := False\<rparr>)
          (upd_peer i (\<lambda>_. zero_peer) (mt_ba t))" using rl(5) by simp
      ultimately show ?thesis using run h cl(2) Some by (intro exI [of _ "Some i"] exI [of _ t6]) simp
    qed
  qed
qed

subsection \<open>Deletion\<close>

lemma delete_slot_ok:
  assumes "mac_inv t" "mac_slot (Content t) i" "Content t' = Content t" "Hash t' = Hash t"
    "TabSize t' = TabSize t" "length (MBSSID t') = HW_BEACON_MAX_NUM"
  shows "\<exists>t1. mac_hash_remove i (Addr (Content t ! i)) t' = r_return t1 \<and> mt_ba t1 = mt_ba t' \<and>
    TabSize t1 = TabSize t \<and>
    (\<forall>t2. Content t2 = (Content t1)[i := (Content t1 ! i)\<lparr>Addr := z, EntryType := ENTRY_NONE, PortSecured := False\<rparr>] \<longrightarrow>
       Hash t2 = Hash t1 \<longrightarrow> TabSize t2 = TabSize t1 - 1 \<longrightarrow> length (MBSSID t2) = length (MBSSID t1) \<longrightarrow>
       mac_inv t2 \<and> mac_map t2 = (mac_map t)(Addr (Content t ! i) := None))"
proof -
  note inv = mac_invD [OF assms(1)]
  obtain t1 where r: "mac_hash_remove i (Addr (Content t ! i)) t' = r_return t1" "mac_relinked t' t1"
    and chains: "\<forall>h<HASH_TABLE_SIZE. \<exists>is. mac_path (Content t1) (Hash t1 ! h) is \<and>
      set is = mac_bucket (Content t) h - {i}"
    using hash_remove_ok [OF inv(4,2) assms(2) refl assms(3,4)] by blast
  note rl = mac_relinkedD [OF r(2)]
  note same = mac_sameD [OF rl(1), unfolded assms(3)]
  have li: "i < length (Content t1)" using assms(2) inv(1) same(1) by (simp add: mac_slot_def)
  have "mac_inv t2 \<and> mac_map t2 = (mac_map t)(Addr (Content t ! i) := None)"
    if t2: "Content t2 = (Content t1)[i := (Content t1 ! i)\<lparr>Addr := z, EntryType := ENTRY_NONE, PortSecured := False\<rparr>]"
      "Hash t2 = Hash t1" "TabSize t2 = TabSize t1 - 1" "length (MBSSID t2) = length (MBSSID t1)" for t2
  proof -
    have s: "mac_slot (Content t2) j \<longleftrightarrow> j \<noteq> i \<and> mac_slot (Content t) j" for j
      using li same(2) unfolding mac_slot_def t2(1) by (auto simp: nth_list_update)
    have e: "EntryType (Content t2 ! j) = EntryType (Content t ! j)" "Addr (Content t2 ! j) = Addr (Content t ! j)"
      "ent_wcid (Content t2 ! j) = ent_wcid (Content t ! j)"
      "ent_apidx (Content t2 ! j) = ent_apidx (Content t ! j)" "Aid (Content t2 ! j) = Aid (Content t ! j)"
      if "j \<noteq> i" for j
      using that same(2-6) by (simp_all add: t2(1))
    have b: "mac_bucket (Content t2) h = mac_bucket (Content t) h - {i}" for h
      using s e(2) by (auto simp: mac_bucket_def)
    have "mac_chains_ok (Content t2) (Hash t2)"
    proof (rule mac_chainsI)
      fix h assume "h < HASH_TABLE_SIZE"
      then obtain "is" where p: "mac_path (Content t1) (Hash t1 ! h) is" "set is = mac_bucket (Content t) h - {i}"
        using chains by blast
      then have "mac_path (Content t2) (Hash t2 ! h) is" unfolding t2(1,2) by simp
      then show "\<exists>is. mac_path (Content t2) (Hash t2 ! h) is \<and> set is = mac_bucket (Content t2) h"
        using p(2) b by blast
    qed
    moreover have "{j. mac_slot (Content t2) j} = {j. mac_slot (Content t) j} - {i}" using s by auto
    then have "card {j. mac_slot (Content t2) j} = card {j. mac_slot (Content t) j} - 1" using assms(2) by simp
    moreover have "0 < card {j. mac_slot (Content t) j}" using assms(2) by (auto simp: card_gt_0_iff)
    then have "unat (TabSize t2) = card {j. mac_slot (Content t) j} - 1"
      using t2(3) rl(3) assms(5) inv(6) unat_pred16 [of "TabSize t"] by simp
    moreover have "inj_on (\<lambda>j. Addr (Content t2 ! j)) {j. mac_slot (Content t2) j}"
      using s e(2) inv(5) by (auto simp: inj_on_def)
    moreover have "\<forall>j. mac_slot (Content t2) j \<longrightarrow> unat (ent_wcid (Content t2 ! j)) = j \<and> unat (Aid (Content t2 ! j)) = j \<and>
      (EntryType (Content t2 ! j) = ENTRY_CLIENT \<longrightarrow> unat (ent_apidx (Content t2 ! j)) < HW_BEACON_MAX_NUM)"
      using s e inv(7-9) by auto
    ultimately have i2: "mac_inv t2"
      using same(1) inv(1,2) rl(2,4) t2 assms(4,6) unfolding mac_inv_def by simp
    have "mac_map t2 a = ((mac_map t)(Addr (Content t ! i) := None)) a" for a
      by (rule mac_map_eqI [OF i2]) (use s e(2) mac_map_Some [OF assms(1)] inv(5) assms(2) in auto)
    then have "mac_map t2 = (mac_map t)(Addr (Content t ! i) := None)" by (rule ext)
    with i2 show ?thesis by simp
  qed
  then show ?thesis using r rl(3,5) assms(5) by (intro exI [of _ t1]) simp
qed

lemma dot1x_notify_simps [simp]:
  "Content (mac_dot1x_notify e t) = Content t" "Hash (mac_dot1x_notify e t) = Hash t"
  "TabSize (mac_dot1x_notify e t) = TabSize t" "MBSSID (mac_dot1x_notify e t) = MBSSID t"
  "mt_ba (mac_dot1x_notify e t) = mt_ba t"
  by (simp_all add: mac_dot1x_notify_def)

lemma delete_ok:
  assumes "mac_inv t" "mac_slot (Content t) i" "ba_sessions_ok (mt_ba t)"
  shows "\<exists>t' ba. MacTableDeleteEntry oks i (Addr (Content t ! i)) t = r_return (True, t') \<and> mac_inv t' \<and>
    mac_map t' = (mac_map t)(Addr (Content t ! i) := None) \<and>
    BASessionTearDownALL oks i (mt_ba t) = Inr ba \<and>
    mt_ba t' = upd_peer i (\<lambda>p. p\<lparr>entry_none := True\<rparr>) ba \<and>
    EntryType (Content t' ! i) = ENTRY_NONE \<and> (\<forall>j. j \<noteq> i \<longrightarrow> EntryType (Content t' ! j) = EntryType (Content t ! j))"
proof -
  note inv = mac_invD [OF assms(1)]
  let ?e = "Content t ! i"
  have i: "i < MAX_LEN_OF_MAC_TABLE" "EntryType ?e \<noteq> ENTRY_NONE" "unat (ent_wcid ?e) = i"
    using assms(2) inv(7) by (simp_all add: mac_slot_def)
  obtain ba where ba: "BASessionTearDownALL oks i (mt_ba t) = Inr ba"
    using teardown_all_ok [OF assms(3) i(1)] by blast
  let ?t1 = "mac_emit (AsicDelEntry i) (t\<lparr>mt_ba := ba\<rparr>)"
  let ?t2 = "if EntryType ?e = ENTRY_CLIENT
             then upd_mbss (unat (ent_apidx ?e)) (\<lambda>m. m\<lparr>StaCount := StaCount m - 1\<rparr>)
                    ((mac_dot1x_notify ?e ?t1)\<lparr>EntryClientCount := EntryClientCount ?t1 - 1\<rparr>) else ?t1"
  have ap: "(EntryType ?e = ENTRY_CLIENT \<and> HW_BEACON_MAX_NUM \<le> unat (ent_apidx ?e)) = False"
    using inv(8) [OF assms(2)] by auto
  have t2: "Content ?t2 = Content t" "Hash ?t2 = Hash t" "TabSize ?t2 = TabSize t"
    "length (MBSSID ?t2) = HW_BEACON_MAX_NUM" "mt_ba ?t2 = ba" using inv(3) by simp_all
  let ?f = "\<lambda>e. e\<lparr>Addr := replicate 6 0, EntryType := ENTRY_NONE, PortSecured := False\<rparr>"
  obtain t3 where t3: "mac_hash_remove i (Addr ?e) ?t2 = r_return t3" "mt_ba t3 = ba" "TabSize t3 = TabSize t"
    "\<And>t4. Content t4 = (Content t3)[i := ?f (Content t3 ! i)] \<Longrightarrow> Hash t4 = Hash t3 \<Longrightarrow>
       TabSize t4 = TabSize t3 - 1 \<Longrightarrow> length (MBSSID t4) = length (MBSSID t3) \<Longrightarrow>
       mac_inv t4 \<and> mac_map t4 = (mac_map t)(Addr ?e := None)"
    using delete_slot_ok [OF assms(1,2) t2(1-4), where z = "replicate 6 0", unfolded t2(5)] by blast
  have same: "mac_same (Content t) (Content t3)"
    using hash_remove_ok [OF inv(4,2) assms(2) refl t2(1,2)] t3(1) mac_relinkedD(1) t2(1) by fastforce
  let ?t4 = "(upd_ba (upd_peer i (\<lambda>p. p\<lparr>entry_none := True\<rparr>)) (upd_entry i ?f t3))\<lparr>TabSize := TabSize t3 - 1\<rparr>"
  let ?t5 = "if TabSize ?t4 = 0 then mac_emit UpdateProtect ?t4 else ?t4"
  have run: "MacTableDeleteEntry oks i (Addr ?e) t = r_return (True, ?t5)"
    using i ba t3(1) unfolding MacTableDeleteEntry_def Let_def i(3) ba r_lift_simps r_bind_simps ap if_False
    by (simp add: not_le)
  have li: "i < length (Content t3)" using mac_sameD(1) [OF same] inv(1) i(1) by simp
  have t5: "Content ?t5 = (Content t3)[i := ?f (Content t3 ! i)]" "Hash ?t5 = Hash t3"
    "TabSize ?t5 = TabSize t3 - 1" "length (MBSSID ?t5) = length (MBSSID t3)"
    "mt_ba ?t5 = upd_peer i (\<lambda>p. p\<lparr>entry_none := True\<rparr>) ba" using t3(2) by simp_all
  have "EntryType (Content ?t5 ! i) = ENTRY_NONE"
    "\<forall>j. j \<noteq> i \<longrightarrow> EntryType (Content ?t5 ! j) = EntryType (Content t ! j)"
    using li mac_sameD(2) [OF same] unfolding t5(1) by simp_all
  then show ?thesis using run t3(4) [OF t5(1-4)] ba t5(5) by blast
qed

end
