(* ===== verification/StationTable.thy ===== *)
theory StationTable
  imports MacTabProps
begin

text \<open>
  The station table as the store its clients rely on: a locale states what look-up, insertion and
  deletion promise, and the table and its block-ack sessions together provide it. A failed allocation
  while a station is deleted breaks the tie between the two.
\<close>

subsection \<open>A record of a peer is replaced\<close>

lemma idx_inv_cong:
  assumes "idx_inv a u w t n" "\<And>x y. y < NUM_OF_TID \<Longrightarrow> a' x y = a x y"
  shows "idx_inv a' u w t n"
  using assms unfolding idx_inv_def by auto

lemma peer_replace_ok:
  assumes "ba_sessions_ok ad" "w < MAX_LEN_OF_MAC_TABLE" "peers ad' = (peers ad)[w := p]"
    "BARecEntry ad' = BARecEntry ad" "BAOriEntry ad' = BAOriEntry ad" "ba_rx ad' = ba_rx ad"
    "numAsRecipient ad' = numAsRecipient ad" "numAsOriginator ad' = numAsOriginator ad"
    "length (BARecWcidArray p) = NUM_OF_TID" "length (BAOriWcidArray p) = NUM_OF_TID"
    "\<And>n. peer_id p = Some n \<Longrightarrow> unat n = w"
    "\<And>t. t < NUM_OF_TID \<Longrightarrow> rec_index p t = ra ad w t \<and> ori_index p t = oa ad w t"
  shows "ba_sessions_ok ad'" "t < NUM_OF_TID \<Longrightarrow> ra ad' x t = ra ad x t"
    "t < NUM_OF_TID \<Longrightarrow> oa ad' x t = oa ad x t"
proof -
  note ok = okD [OF assms(1)]
  have lw: "w < length (peers ad)" using ok(7) assms(2) by simp
  show r: "ra ad' x t = ra ad x t" if "t < NUM_OF_TID" for x t
    using assms(12) [OF that] lw unfolding ra_def assms(3) by (cases "x = w") (simp_all add: ra_def)
  show o': "oa ad' x t = oa ad x t" if "t < NUM_OF_TID" for x t
    using assms(12) [OF that] lw unfolding oa_def assms(3) by (cases "x = w") (simp_all add: oa_def)
  have v: "ru ad' = ru ad" "rw ad' = rw ad" "rt ad' = rt ad" "ou ad' = ou ad" "ow ad' = ow ad" "ot ad' = ot ad"
    using views_cong(3-5) [OF assms(4)] views_cong(6-8) [OF assms(5)] by simp_all
  have "rec_inv ad'" using idx_inv_cong [OF ok(3) [unfolded rec_inv_def] r] v assms(7) by (simp add: rec_inv_def)
  moreover have "ori_inv ad'" using idx_inv_cong [OF ok(4) [unfolded ori_inv_def] o'] v assms(8)
    by (simp add: ori_inv_def)
  moreover have "lists_ok ad'" using ok(2) by (simp add: lists_ok_def assms(4,6))
  moreover have "shape_ok ad'"
    using ok(1) assms(9-11) lw unfolding shape_ok_def assms(3,4,5) by (auto simp: nth_list_update)
  ultimately show "ba_sessions_ok ad'" by (simp add: ba_sessions_ok_def)
qed

text \<open>A peer without a session.\<close>

definition no_sessions :: "ba_adapter \<Rightarrow> nat \<Rightarrow> bool" where
  "no_sessions ad w \<longleftrightarrow> (\<forall>t<NUM_OF_TID. ra ad w t = 0 \<and> oa ad w t = 0)"

lemma blank_peer_ok:
  assumes "ba_sessions_ok ad" "w < MAX_LEN_OF_MAC_TABLE" "no_sessions ad w"
    "ad' = ad\<lparr>peers := (peers ad)[w := p]\<rparr>" "p = zero_peer\<lparr>peer_wcid := n, entry_none := b\<rparr>"
  shows "ba_sessions_ok ad'" "no_sessions ad' x = no_sessions ad x"
proof -
  have z: "rec_index p t = ra ad w t \<and> ori_index p t = oa ad w t" if "t < NUM_OF_TID" for t
    using assms(3) that by (simp add: no_sessions_def rec_index_def ori_index_def zero_peer_def assms(5))
  have id: "peer_id p = Some n' \<Longrightarrow> unat n' = w" for n' by (simp add: peer_id_def zero_peer_def assms(5))
  have len: "length (BARecWcidArray p) = NUM_OF_TID" "length (BAOriWcidArray p) = NUM_OF_TID"
    by (simp_all add: zero_peer_def assms(5))
  have rest: "peers ad' = (peers ad)[w := p]" "BARecEntry ad' = BARecEntry ad" "BAOriEntry ad' = BAOriEntry ad"
    "ba_rx ad' = ba_rx ad" "numAsRecipient ad' = numAsRecipient ad" "numAsOriginator ad' = numAsOriginator ad"
    by (simp_all add: assms(4))
  note r = peer_replace_ok [OF assms(1,2) rest len id z]
  show "ba_sessions_ok ad'" by (rule r(1))
  show "no_sessions ad' x = no_sessions ad x" using r(2,3) by (simp add: no_sessions_def)
qed

lemma new_peer_ok:
  assumes "ba_sessions_ok ad" "w < MAX_LEN_OF_MAC_TABLE" "no_sessions ad w"
  shows "ba_sessions_ok (upd_peer w (\<lambda>_. zero_peer) ad)"
    "no_sessions (upd_peer w (\<lambda>_. zero_peer) ad) x = no_sessions ad x"
    "ba_sessions_ok (upd_peer w (\<lambda>p. p\<lparr>peer_wcid := n, entry_none := False\<rparr>) (upd_peer w (\<lambda>_. zero_peer) ad))"
    "no_sessions (upd_peer w (\<lambda>p. p\<lparr>peer_wcid := n, entry_none := False\<rparr>) (upd_peer w (\<lambda>_. zero_peer) ad)) x =
     no_sessions ad x"
proof -
  have lw: "w < length (peers ad)" using okD(7) [OF assms(1)] assms(2) by simp
  have e: "upd_peer w (\<lambda>_. zero_peer) ad =
      ad\<lparr>peers := (peers ad)[w := zero_peer\<lparr>peer_wcid := 0, entry_none := True\<rparr>]\<rparr>"
    "upd_peer w (\<lambda>p. p\<lparr>peer_wcid := n, entry_none := False\<rparr>) (upd_peer w (\<lambda>_. zero_peer) ad) =
      ad\<lparr>peers := (peers ad)[w := zero_peer\<lparr>peer_wcid := n, entry_none := False\<rparr>]\<rparr>"
    using lw by (simp_all add: upd_peer_def zero_peer_def)
  show "ba_sessions_ok (upd_peer w (\<lambda>_. zero_peer) ad)"
    "no_sessions (upd_peer w (\<lambda>_. zero_peer) ad) x = no_sessions ad x"
    using blank_peer_ok [OF assms e(1) refl] by simp_all
  show "ba_sessions_ok (upd_peer w (\<lambda>p. p\<lparr>peer_wcid := n, entry_none := False\<rparr>) (upd_peer w (\<lambda>_. zero_peer) ad))"
    "no_sessions (upd_peer w (\<lambda>p. p\<lparr>peer_wcid := n, entry_none := False\<rparr>) (upd_peer w (\<lambda>_. zero_peer) ad)) x =
     no_sessions ad x"
    using blank_peer_ok [OF assms e(2) refl] by simp_all
qed

lemma mark_peer_ok:
  assumes "ba_sessions_ok ad" "w < MAX_LEN_OF_MAC_TABLE"
  shows "ba_sessions_ok (upd_peer w (\<lambda>p. p\<lparr>entry_none := b\<rparr>) ad)"
    "no_sessions (upd_peer w (\<lambda>p. p\<lparr>entry_none := b\<rparr>) ad) x = no_sessions ad x"
proof -
  let ?p = "(peer ad w)\<lparr>entry_none := b\<rparr>" and ?ad = "upd_peer w (\<lambda>p. p\<lparr>entry_none := b\<rparr>) ad"
  have "peer_id ?p = peer_id (peer ad w)" by (simp add: peer_id_def)
  moreover have "shape_ok ad" by (rule okD(1) [OF assms(1)])
  ultimately have s: "length (BARecWcidArray ?p) = NUM_OF_TID" "length (BAOriWcidArray ?p) = NUM_OF_TID"
    "\<And>n. peer_id ?p = Some n \<Longrightarrow> unat n = w"
    using assms(2) by (auto simp: shape_ok_def)
  have p: "peers ?ad = (peers ad)[w := ?p]" by simp
  have z: "rec_index ?p t = ra ad w t \<and> ori_index ?p t = oa ad w t" if "t < NUM_OF_TID" for t
    by (simp add: ra_def oa_def rec_index_def ori_index_def)
  have rest: "BARecEntry ?ad = BARecEntry ad" "BAOriEntry ?ad = BAOriEntry ad" "ba_rx ?ad = ba_rx ad"
    "numAsRecipient ?ad = numAsRecipient ad" "numAsOriginator ?ad = numAsOriginator ad" by simp_all
  note r = peer_replace_ok [OF assms p rest s z]
  show "ba_sessions_ok ?ad" by (rule r(1))
  show "no_sessions ?ad x = no_sessions ad x" using r(2,3) by (simp add: no_sessions_def)
qed

subsection \<open>The table and the sessions of its stations\<close>

definition station_inv :: "mac_tab \<Rightarrow> bool" where
  "station_inv t \<longleftrightarrow> mac_inv t \<and> ba_sessions_ok (mt_ba t) \<and>
     (\<forall>i. 1 \<le> i \<longrightarrow> i < MAX_LEN_OF_MAC_TABLE \<longrightarrow> EntryType (Content t ! i) = ENTRY_NONE \<longrightarrow>
        no_sessions (mt_ba t) i)"

lemma station_invD:
  assumes "station_inv t"
  shows "mac_inv t" "ba_sessions_ok (mt_ba t)"
    "1 \<le> i \<Longrightarrow> i < MAX_LEN_OF_MAC_TABLE \<Longrightarrow> \<not> mac_slot (Content t) i \<Longrightarrow> no_sessions (mt_ba t) i"
  using assms by (auto simp: station_inv_def mac_slot_def)

lemma station_invI:
  assumes "mac_inv t" "ba_sessions_ok (mt_ba t)"
    "\<And>i. 1 \<le> i \<Longrightarrow> i < MAX_LEN_OF_MAC_TABLE \<Longrightarrow> \<not> mac_slot (Content t) i \<Longrightarrow> no_sessions (mt_ba t) i"
  shows "station_inv t"
  using assms by (auto simp: station_inv_def mac_slot_def)

lemma station_insert:
  assumes "station_inv t" "mac_map t a = None" "unat apidx < HW_BEACON_MAX_NUM"
  shows "\<exists>r t'. MacTableInsertEntry a apidx om t = r_return (r, t') \<and> station_inv t' \<and>
    (case r of None \<Rightarrow> mac_map t' = mac_map t \<and> mac_insert_full apidx t
     | Some i \<Rightarrow> mac_map t' = (mac_map t)(a \<mapsto> i) \<and> mac_first_free t = Some i \<and> fresh_client t' i a apidx)"
proof -
  note inv = station_invD [OF assms(1)]
  obtain r t' where r: "MacTableInsertEntry a apidx om t = r_return (r, t')" "mac_inv t'"
    "case r of
       None \<Rightarrow> mac_map t' = mac_map t \<and> mac_insert_full apidx t \<and>
         (mt_ba t' = mt_ba t \<or> (\<exists>i. mac_first_free t = Some i \<and> mt_ba t' = upd_peer i (\<lambda>_. zero_peer) (mt_ba t)))
     | Some i \<Rightarrow> mac_map t' = (mac_map t)(a \<mapsto> i) \<and> mac_first_free t = Some i \<and> fresh_client t' i a apidx \<and>
         mt_ba t' = upd_peer i (\<lambda>p. p\<lparr>peer_wcid := word_of_nat i, entry_none := False\<rparr>)
                      (upd_peer i (\<lambda>_. zero_peer) (mt_ba t))"
    using insert_ok [OF inv(1) assms(2,3)] by blast
  have free: "i < MAX_LEN_OF_MAC_TABLE \<and> no_sessions (mt_ba t) i" if "mac_first_free t = Some i" for i
    using mac_first_free_Some [OF that] inv(3) by (simp add: mac_slot_def)
  have "station_inv t'"
  proof (cases r)
    case None
    then have "mac_map t' = mac_map t" "mt_ba t' = mt_ba t \<or>
        (\<exists>i. mac_first_free t = Some i \<and> mt_ba t' = upd_peer i (\<lambda>_. zero_peer) (mt_ba t))"
      using r(3) by simp_all
    then have ba: "ba_sessions_ok (mt_ba t') \<and> no_sessions (mt_ba t') = no_sessions (mt_ba t)"
      using inv(2) free new_peer_ok(1,2) [OF inv(2)] by (auto simp: fun_eq_iff simp del: upd_simps)
    have "mac_slot (Content t') i = mac_slot (Content t) i" for i
      unfolding mac_slot_map [OF r(2)] mac_slot_map [OF inv(1)] using r(3) None by simp
    then show ?thesis using ba r(2) inv(3) by (intro station_invI) simp_all
  next
    case (Some i)
    then have m: "mac_map t' = (mac_map t)(a \<mapsto> i)" "mac_first_free t = Some i"
      "mt_ba t' = upd_peer i (\<lambda>p. p\<lparr>peer_wcid := word_of_nat i, entry_none := False\<rparr>)
                    (upd_peer i (\<lambda>_. zero_peer) (mt_ba t))" using r(3) by simp_all
    have "mac_slot (Content t') j" if sl: "mac_slot (Content t) j" for j
    proof -
      obtain b where b: "mac_map t b = Some j" using sl mac_slot_map [OF inv(1)] by blast
      then have "b \<noteq> a" using assms(2) by auto
      then have "mac_map t' b = Some j" using b m(1) by simp
      then show ?thesis by (rule mac_map_slot)
    qed
    then have un: "\<not> mac_slot (Content t') j \<Longrightarrow> \<not> mac_slot (Content t) j" for j by blast
    note f = free [OF m(2)]
    have ba: "ba_sessions_ok (mt_ba t')" "no_sessions (mt_ba t') x = no_sessions (mt_ba t) x" for x
      unfolding m(3) using new_peer_ok(3,4) [OF inv(2), of i] f by blast+
    show ?thesis by (rule station_invI [OF r(2) ba(1)]) (use un inv(3) ba(2) in blast)
  qed
  then show ?thesis using r by (intro exI [of _ r] exI [of _ t']) (auto split: option.splits)
qed

lemma station_delete:
  assumes "station_inv t" "mac_map t a = Some i" "\<And>t. oks t = (True, True)"
  shows "\<exists>t'. MacTableDeleteEntry oks i a t = r_return (True, t') \<and> station_inv t' \<and>
    mac_map t' = (mac_map t)(a := None)"
proof -
  note inv = station_invD [OF assms(1)]
  note sl = mac_map_slot [OF assms(2)]
  have i: "i < MAX_LEN_OF_MAC_TABLE" using sl(1) by (simp add: mac_slot_def)
  obtain t' ba where d: "MacTableDeleteEntry oks i a t = r_return (True, t')" "mac_inv t'"
    "mac_map t' = (mac_map t)(a := None)" "BASessionTearDownALL oks i (mt_ba t) = Inr ba"
    "mt_ba t' = upd_peer i (\<lambda>p. p\<lparr>entry_none := True\<rparr>) ba"
    using delete_ok [OF inv(1) sl(1) inv(2)] sl(2) by blast
  have ba: "ba_sessions_ok ba" "no_sessions ba i" "\<And>x. x \<noteq> i \<Longrightarrow> no_sessions ba x = no_sessions (mt_ba t) x"
  proof -
    obtain ba' where b: "BASessionTearDownALL oks i (mt_ba t) = Inr ba'" "ba_sessions_ok ba'"
      "\<forall>x\<noteq>i. \<forall>y. oa ba' x y = oa (mt_ba t) x y \<and> ra ba' x y = ra (mt_ba t) x y"
      "\<forall>t<NUM_OF_TID. oks t = (True, True) \<longrightarrow> oa ba' i t = 0 \<and> ra ba' i t = 0"
      using teardown_all_ok [OF inv(2) i] by blast
    have "ba' = ba" using b(1) d(4) by simp
    then show "ba_sessions_ok ba" "no_sessions ba i" "\<And>x. x \<noteq> i \<Longrightarrow> no_sessions ba x = no_sessions (mt_ba t) x"
      using b(2-4) assms(3) by (simp_all add: no_sessions_def)
  qed
  have "mac_slot (Content t') j" if sl: "mac_slot (Content t) j" "j \<noteq> i" for j
  proof -
    obtain b where b: "mac_map t b = Some j" using sl(1) mac_slot_map [OF inv(1)] by blast
    then have "b \<noteq> a" using assms(2) sl(2) by auto
    then have "mac_map t' b = Some j" using b d(3) by simp
    then show ?thesis by (rule mac_map_slot)
  qed
  then have un: "\<not> mac_slot (Content t') j \<Longrightarrow> j = i \<or> \<not> mac_slot (Content t) j" for j by blast
  have ba': "ba_sessions_ok (mt_ba t')" "no_sessions (mt_ba t') x = no_sessions ba x" for x
    unfolding d(5) by (rule mark_peer_ok [OF ba(1) i])+
  have "station_inv t'"
    by (rule station_invI [OF d(2) ba'(1)]) (use un inv(3) ba(2,3) ba'(2) in metis)
  then show ?thesis using d(1,3) by blast
qed

lemma log_cong:
  assumes "Content t' = Content t" "Hash t' = Hash t" "MBSSID t' = MBSSID t" "TabSize t' = TabSize t"
    "mt_ba t' = mt_ba t"
  shows "station_inv t' = station_inv t" "mac_map t' = mac_map t"
  unfolding station_inv_def mac_inv_def mac_map_def fun_eq_iff assms by simp_all

lemma emit_ok [simp]:
  "station_inv (mac_emit ev t) = station_inv t" "mac_map (mac_emit ev t) = mac_map t"
  "station_inv (mac_dot1x_notify e t) = station_inv t" "mac_map (mac_dot1x_notify e t) = mac_map t"
  by (rule log_cong; simp)+

text \<open>Deletion of an entry that may or may not be used; the entry of number 0 is not for stations.\<close>

lemma expel_ok:
  assumes "station_inv t" "1 \<le> i" "i < MAX_LEN_OF_MAC_TABLE" "\<And>n. oks n = (True, True)"
  shows "\<exists>t'. MacTableDeleteEntry oks i a t = r_return (True, t') \<and> station_inv t' \<and>
    mac_map t' = (if mac_map t a = Some i then (mac_map t)(a := None) else mac_map t)"
proof (cases "mac_map t a = Some i")
  case True
  then show ?thesis using station_delete [OF assms(1) True assms(4)] by auto
next
  case False
  then have "EntryType (Content t ! i) = ENTRY_NONE \<or> Addr (Content t ! i) \<noteq> a"
    using mac_map_Some [OF station_invD(1) [OF assms(1)]] assms(2,3) by (auto simp: mac_slot_def)
  then have "MacTableDeleteEntry oks i a t =
      r_return (True, if TabSize t = 0 then mac_emit UpdateProtect t else t)"
    using assms(3) by (auto simp: MacTableDeleteEntry_def Let_def not_le)
  then show ?thesis using False assms(1) by simp
qed

subsection \<open>The settings stay\<close>

text \<open>What no operation on the table changes: the networks up to their counts of stations.\<close>

definition net_conf :: "mac_tab \<Rightarrow> bool \<times> u8 \<times> u8 \<times> mbss list" where
  "net_conf t = (mt_ap t, BssidNum t, BcnMaxNum t, map (\<lambda>m. m\<lparr>StaCount := 0\<rparr>) (MBSSID t))"

lemma conf_simps [simp]:
  "net_conf (upd_entry i f t) = net_conf t" "net_conf (upd_ba g t) = net_conf t"
  "net_conf (mac_emit ev t) = net_conf t" "net_conf (mac_dot1x_notify e t) = net_conf t"
  "net_conf (t\<lparr>TabSize := n\<rparr>) = net_conf t" "net_conf (t\<lparr>mt_ba := ba\<rparr>) = net_conf t"
  "net_conf (t\<lparr>Hash := h\<rparr>) = net_conf t" "net_conf (t\<lparr>EntryClientCount := c\<rparr>) = net_conf t"
  by (simp_all add: net_conf_def upd_entry_def upd_ba_def mac_emit_def mac_dot1x_notify_def)

lemma conf_count [simp]: "net_conf (upd_mbss i (\<lambda>m. m\<lparr>StaCount := g m\<rparr>) t) = net_conf t"
  by (cases "i < length (MBSSID t)")
    (auto simp: net_conf_def upd_mbss_def map_update list_update_beyond list_update_same_conv)

lemma conf_append: "mac_hash_append i a t = r_return t' \<Longrightarrow> net_conf t' = net_conf t"
  by (auto simp: mac_hash_append_def r_return_def split: option.splits)

lemma conf_remove: "mac_hash_remove i a t = r_return t' \<Longrightarrow> net_conf t' = net_conf t"
  by (auto simp: mac_hash_remove_def Let_def r_return_def split: option.splits)

lemma r_return_not_fault [simp]: "Some (Inl e) \<noteq> r_return x" "r_return x \<noteq> Some (Inl e)"
  by (simp_all add: r_return_def)

lemma conf_insert:
  assumes "MacTableInsertEntry a apidx om t = r_return (r, t')"
  shows "net_conf t' = net_conf t"
proof -
  have c: "net_conf (mac_fill_slot i a apidx om t1) = net_conf t1" "net_conf (mac_clear_slot i t1) = net_conf t1" for i t1
    by (simp_all add: mac_fill_slot_def mac_clear_slot_def Let_def)
  consider "t' = t" | i where "t' = mac_clear_slot i t"
    | i where "mac_hash_append i a (mac_fill_slot i a apidx om (mac_clear_slot i t)) = r_return t'"
    using assms by (auto simp only: MacTableInsertEntry_def Let_def r_bind_eq_return r_return_inject
        r_return_not_fault prod.inject split: if_split_asm option.split_asm)
  then show ?thesis by cases (simp_all add: c conf_append [THEN trans])
qed

lemma conf_delete:
  assumes "MacTableDeleteEntry oks w a t = r_return (r, t')"
  shows "net_conf t' = net_conf t"
proof (cases "MAX_LEN_OF_MAC_TABLE \<le> w \<or> EntryType (Content t ! w) = ENTRY_NONE \<or> Addr (Content t ! w) \<noteq> a")
  case True
  then show ?thesis using assms by (auto simp: MacTableDeleteEntry_def Let_def split: if_splits)
next
  case False
  show ?thesis
    by (cases "EntryType (Content t ! w) = ENTRY_CLIENT")
      (use assms False in \<open>auto simp: MacTableDeleteEntry_def Let_def r_bind_eq_return
         dest!: conf_remove split: if_split_asm\<close>)
qed

lemma confD:
  assumes "net_conf t' = net_conf t"
  shows "BssidNum t' = BssidNum t" "length (MBSSID t') = length (MBSSID t)"
    "i < length (MBSSID t) \<Longrightarrow> mb_AuthMode (MBSSID t' ! i) = mb_AuthMode (MBSSID t ! i)"
    "i < length (MBSSID t) \<Longrightarrow> mb_bssid (MBSSID t' ! i) = mb_bssid (MBSSID t ! i)"
    "i < length (MBSSID t) \<Longrightarrow> AuthFailRssiThreshold (MBSSID t' ! i) = AuthFailRssiThreshold (MBSSID t ! i) \<and>
       AuthNoRspRssiThreshold (MBSSID t' ! i) = AuthNoRspRssiThreshold (MBSSID t ! i)"
    "mt_ap t' = mt_ap t"
proof -
  have m: "map (\<lambda>m. m\<lparr>StaCount := 0\<rparr>) (MBSSID t') = map (\<lambda>m. m\<lparr>StaCount := 0\<rparr>) (MBSSID t)"
    and "BssidNum t' = BssidNum t" using assms by (simp_all add: net_conf_def)
  then show "BssidNum t' = BssidNum t" "length (MBSSID t') = length (MBSSID t)"
    by (auto dest: map_eq_imp_length_eq)
  then have e: "(MBSSID t' ! i)\<lparr>StaCount := 0\<rparr> = (MBSSID t ! i)\<lparr>StaCount := 0\<rparr>" if "i < length (MBSSID t)"
    using that arg_cong [OF m, of "\<lambda>l. l ! i"] by simp
  have f: "f ((MBSSID t' ! i)\<lparr>StaCount := 0\<rparr>) = f ((MBSSID t ! i)\<lparr>StaCount := 0\<rparr>)"
    if "i < length (MBSSID t)" for f :: "mbss \<Rightarrow> 'a" by (simp only: e [OF that])
  show "i < length (MBSSID t) \<Longrightarrow> mb_AuthMode (MBSSID t' ! i) = mb_AuthMode (MBSSID t ! i)"
    using f [of mb_AuthMode] by simp
  show "i < length (MBSSID t) \<Longrightarrow> mb_bssid (MBSSID t' ! i) = mb_bssid (MBSSID t ! i)"
    using f [of mb_bssid] by simp
  show "i < length (MBSSID t) \<Longrightarrow> AuthFailRssiThreshold (MBSSID t' ! i) = AuthFailRssiThreshold (MBSSID t ! i) \<and>
       AuthNoRspRssiThreshold (MBSSID t' ! i) = AuthNoRspRssiThreshold (MBSSID t ! i)"
    using f [of AuthFailRssiThreshold] f [of AuthNoRspRssiThreshold] by simp
  show "mt_ap t' = mt_ap t" using assms by (simp add: net_conf_def)
qed

subsection \<open>The interface of the table\<close>

text \<open>
  What a client of the table relies on: a look-up returns what the abstract map holds, an insertion of
  an unknown key adds it or leaves the map as it was, a deletion removes the key, and all of them
  return.
\<close>

locale station_store =
  fixes inv :: "'t \<Rightarrow> bool"
    and abs :: "'t \<Rightarrow> 'k \<Rightarrow> 'i option"
    and look :: "'t \<Rightarrow> 'k \<Rightarrow> 'i option run"
    and add :: "'k \<Rightarrow> 't \<Rightarrow> ('i option \<times> 't) run"
    and del :: "'i \<Rightarrow> 'k \<Rightarrow> 't \<Rightarrow> (bool \<times> 't) run"
  assumes look: "inv t \<Longrightarrow> look t k = r_return (abs t k)"
    and add: "inv t \<Longrightarrow> abs t k = None \<Longrightarrow> \<exists>r t'. add k t = r_return (r, t') \<and> inv t' \<and>
      abs t' = (case r of None \<Rightarrow> abs t | Some i \<Rightarrow> (abs t)(k \<mapsto> i))"
    and del: "inv t \<Longrightarrow> abs t k = Some i \<Longrightarrow> \<exists>t'. del i k t = r_return (True, t') \<and> inv t' \<and>
      abs t' = (abs t)(k := None)"
begin

lemma look_or_add:
  assumes "inv t"
  shows "\<exists>r t'. r_bind (look t k) (\<lambda>p. case p of Some i \<Rightarrow> r_return (Some i, t) | None \<Rightarrow> add k t) =
      r_return (r, t') \<and> inv t' \<and> abs t' k = r \<and> (\<forall>k'. k' \<noteq> k \<longrightarrow> abs t' k' = abs t k')"
proof (cases "abs t k")
  case None
  obtain r t' where "add k t = r_return (r, t')" "inv t'"
    "abs t' = (case r of None \<Rightarrow> abs t | Some i \<Rightarrow> (abs t)(k \<mapsto> i))"
    using add [OF assms None] by blast
  then show ?thesis using None look [OF assms]
    by (intro exI [of _ r] exI [of _ t']) (simp split: option.split)
next
  case (Some i)
  then show ?thesis using assms look [OF assms] by (intro exI [of _ "Some i"] exI [of _ t]) simp
qed

lemma look_after_del:
  assumes "inv t" "abs t k = Some i"
  shows "\<exists>t'. del i k t = r_return (True, t') \<and> look t' k = r_return None \<and>
    (\<forall>k'. k' \<noteq> k \<longrightarrow> look t' k' = look t k')"
  using del [OF assms] look [OF assms(1)] look by fastforce

lemma add_del_add:
  assumes "inv t" "abs t k = None" "add k t = r_return (Some i, t1)"
  shows "\<exists>t2. del i k t1 = r_return (True, t2) \<and> abs t2 = abs t"
proof -
  have "inv t1" "abs t1 = (abs t)(k \<mapsto> i)" using add [OF assms(1,2)] assms(3) by auto
  then show ?thesis using del [of t1 k i] assms(2) by (auto simp: fun_upd_idem)
qed

end

text \<open>
  The table provides it for every interface of the access point, while the frames that end the
  sessions of a deleted station can be allocated.
\<close>

interpretation stations: station_store station_inv mac_map MacTableLookup
  "\<lambda>a. MacTableInsertEntry a (apidx AND 15) om" "MacTableDeleteEntry (\<lambda>_. (True, True))"
  for apidx :: u8 and om :: bool
proof
  fix t :: mac_tab and a :: bytes
  assume inv: "station_inv t"
  show "MacTableLookup t a = r_return (mac_map t a)" by (rule lookup_eq [OF station_invD(1) [OF inv]])
  have ap: "unat (apidx AND 15) < HW_BEACON_MAX_NUM"
  proof -
    have "apidx AND 15 \<le> 15" by (rule word_and_le1)
    then show ?thesis by (simp add: word_le_nat_alt HW_BEACON_MAX_NUM_def)
  qed
  show "\<exists>r t'. MacTableInsertEntry a (apidx AND 15) om t = r_return (r, t') \<and> station_inv t' \<and>
      mac_map t' = (case r of None \<Rightarrow> mac_map t | Some i \<Rightarrow> (mac_map t)(a \<mapsto> i))" if "mac_map t a = None"
    using station_insert [OF inv that ap, of om] by (fastforce split: option.splits)
  show "\<exists>t'. MacTableDeleteEntry (\<lambda>_. (True, True)) i a t = r_return (True, t') \<and> station_inv t' \<and>
      mac_map t' = (mac_map t)(a := None)" if "mac_map t a = Some i" for i
    using station_delete [OF inv that] by simp
qed

subsection \<open>A concrete table\<close>

definition sample_mbss :: mbss where
  "sample_mbss = \<lparr>mb_bssid = [2, 0, 0, 0, 0, 1], MaxStaNum = 0, StaCount = 0, mb_AuthMode = AuthModeOpen,
     mb_if_dev = Some True, IEEE8021X = False, AuthFailRssiThreshold = 0, AuthNoRspRssiThreshold = 0\<rparr>"

definition sample_table :: mac_tab where
  "sample_table = \<lparr>Content = replicate MAX_LEN_OF_MAC_TABLE zero_entry, Hash = replicate HASH_TABLE_SIZE None,
     TabSize = 0, mt_ap = True, mt_infra = False, MBSSID = replicate HW_BEACON_MAX_NUM sample_mbss,
     BssidNum = 1, BcnMaxNum = 16, EntryClientCount = 0, sta_AuthMode = AuthModeOpen, mt_ba = booted,
     mt_log = []\<rparr>"

lemma sample_table_ok: "station_inv sample_table" "mac_map sample_table a = None"
proof -
  have none: "\<not> mac_slot (Content sample_table) i" for i
    by (auto simp: mac_slot_def sample_table_def zero_entry_def)
  have "mac_chains_ok (Content sample_table) (Hash sample_table)"
    using none by (intro mac_chainsI exI [of _ "[]"]) (simp add: mac_bucket_def sample_table_def)
  then have "mac_inv sample_table"
    using none by (simp add: mac_inv_def sample_table_def)
  moreover have "ba_sessions_ok (mt_ba sample_table)"
    using reachable_ok [OF booted_reachable] by (simp add: sample_table_def)
  moreover have "no_sessions (mt_ba sample_table) i" if "i < MAX_LEN_OF_MAC_TABLE" for i
    using that by (simp add: no_sessions_def ra_def oa_def rec_index_def ori_index_def sample_table_def sample_peer_def)
  ultimately show "station_inv sample_table" by (intro station_invI) simp_all
  show "mac_map sample_table a = None" using none by (simp add: mac_map_None)
qed

end
