(* ===== verification/ApAuth.thy ===== *)
theory ApAuth
  imports StationTable
begin

text \<open>
  Authentication of stations by the access point, \<^verbatim>\<open>ap/ap_auth.c\<close> with the checks of
  \<^verbatim>\<open>ap/ap_sanity.c\<close> and the access control list of \<^verbatim>\<open>ap/ap.c\<close>, on the station table.

  Frames and events sent are entries of the table's log. \<open>kmalloc_ok\<close> tells whether the buffer of the
  frame to send can be allocated, \<open>oks\<close> the same for the frames that end block-ack sessions; \<open>stack\<close>
  is what an uninitialised local buffer holds, \<open>rnd\<close> the bytes that \<^verbatim>\<open>RandomByte\<close> returns.
\<close>

subsection \<open>Data\<close>

record mgmt_frame =
  mf_Addr1 :: bytes
  mf_Addr2 :: bytes
  mf_Wep :: bool
  mf_Octet :: bytes

record mlme_elem =
  el_Wcid :: nat
  el_Frame :: mgmt_frame
  el_Rssi :: int

record acl =
  acl_Policy :: nat
  acl_Entry :: "bytes list"

record ap_mlme =
  ap_tab :: mac_tab
  ApMlmeAux_Addr :: bytes
  ApMlmeAux_Challenge :: bytes
  AccessControlList :: "acl list"
  aMICFailTime :: ulong
  PrevaMICFailTime :: ulong

definition AUTH_MODE_OPEN :: u16 where "AUTH_MODE_OPEN = 0"
definition AUTH_MODE_KEY :: u16 where "AUTH_MODE_KEY = 1"
definition MLME_SUCCESS :: u16 where "MLME_SUCCESS = 0"
definition MLME_UNSPECIFY_FAIL :: u16 where "MLME_UNSPECIFY_FAIL = 1"
definition MLME_ALG_NOT_SUPPORT :: u16 where "MLME_ALG_NOT_SUPPORT = 13"
definition MLME_REJ_CHALLENGE_FAILURE :: u16 where "MLME_REJ_CHALLENGE_FAILURE = 15"
definition CIPHER_TEXT_LEN :: nat where "CIPHER_TEXT_LEN = 128"
definition REASON_CLS2ERR :: u16 where "REASON_CLS2ERR = 6"

definition octet16 :: "bytes \<Rightarrow> nat \<Rightarrow> u16" where
  "octet16 bs i = ucast (bs ! i) OR push_bit 8 (ucast (bs ! (i + 1)))"

subsection \<open>Checks\<close>

text \<open>
  The fields of an authentication frame; the challenge text is copied for sequence numbers 2 and 3 of
  the shared-key algorithm only. The message length is not tested.
\<close>

definition APPeerAuthSanity :: "bytes \<Rightarrow> mgmt_frame \<Rightarrow> (u16 \<times> u16 \<times> u16 \<times> bytes) option" where
  "APPeerAuthSanity stack fr =
     (let Alg = octet16 (mf_Octet fr) 0; Seq = octet16 (mf_Octet fr) 2; Status = octet16 (mf_Octet fr) 4 in
      if Alg = AUTH_MODE_OPEN then
        (if Seq = 1 \<or> Seq = 2 then Some (Alg, Seq, Status, stack) else None)
      else if Alg = AUTH_MODE_KEY then
        (if Seq = 1 \<or> Seq = 4 then Some (Alg, Seq, Status, stack)
         else if Seq = 2 \<or> Seq = 3 then Some (Alg, Seq, Status, slice_at 8 CIPHER_TEXT_LEN (mf_Octet fr))
         else None)
      else None)"

definition get_apidx_by_addr :: "mac_tab \<Rightarrow> bytes \<Rightarrow> nat" where
  "get_apidx_by_addr t addr =
     (case find (\<lambda>i. mb_bssid (MBSSID t ! i) = addr) [0..<unat (BssidNum t)] of
        None \<Rightarrow> unat (BssidNum t) | Some i \<Rightarrow> i)"

definition ApCheckAccessControlList :: "ap_mlme \<Rightarrow> bytes \<Rightarrow> nat \<Rightarrow> bool" where
  "ApCheckAccessControlList st pAddr Apidx =
     (let a = AccessControlList st ! Apidx in
      if acl_Policy a = 0 then True
      else if pAddr \<in> set (acl_Entry a) then acl_Policy a = 1 else acl_Policy a \<noteq> 1)"

definition auth_rssi_refused :: "mbss \<Rightarrow> int \<Rightarrow> bool" where
  "auth_rssi_refused m rssi \<longleftrightarrow>
     AuthFailRssiThreshold m \<noteq> 0 \<and> rssi < AuthFailRssiThreshold m \<or>
     AuthNoRspRssiThreshold m \<noteq> 0 \<and> rssi < AuthNoRspRssiThreshold m"

definition APPeerAuthSimpleRspGenAndSend :: "bool \<Rightarrow> mgmt_frame \<Rightarrow> u16 \<Rightarrow> u16 \<Rightarrow> u16 \<Rightarrow>
    mac_tab \<Rightarrow> mac_tab" where
  "APPeerAuthSimpleRspGenAndSend kmalloc_ok fr Alg Seq StatusCode t =
     (if kmalloc_ok then mac_emit (SendAuthRsp (mf_Addr2 fr) Alg Seq StatusCode) t else t)"

subsection \<open>Handlers\<close>

text \<open>A station that is known already: its entry is deleted when it changed to another network of
  the access point, otherwise its sessions end.\<close>

definition auth_known_station :: "(nat \<Rightarrow> bool \<times> bool) \<Rightarrow> bytes \<Rightarrow> nat \<Rightarrow> mac_tab \<Rightarrow>
    (nat option \<times> mac_tab) run" where
  "auth_known_station oks Addr1 i t =
     (let e = Content t ! i in
      if EntryType e \<noteq> ENTRY_CLIENT then r_return (Some i, t)
      else if HW_BEACON_MAX_NUM \<le> unat (ent_apidx e) then Some (Inl OOBRead)
      else if Addr1 \<noteq> mb_bssid (MBSSID t ! unat (ent_apidx e)) then
        r_bind (MacTableDeleteEntry oks (unat (ent_wcid e)) (Addr e) t) (\<lambda>(_, t1). r_return (None, t1))
      else
        let t1 = (if bIAmBadAtheros e
                  then upd_entry i (\<lambda>e. e\<lparr>bIAmBadAtheros := False\<rparr>) (mac_emit AtherosProtect t) else t)
        in r_bind (r_lift (BASessionTearDownALL oks (unat (ent_wcid e)) (mt_ba t1))) (\<lambda>ba.
             r_return (Some i, t1\<lparr>mt_ba := ba\<rparr>)))"

text \<open>A station that exists is deleted; \<open>num\<close> is its number, kept as \<^verbatim>\<open>wcid\<close> and as \<^verbatim>\<open>Aid\<close>.\<close>

definition delete_station :: "(mac_entry \<Rightarrow> nat) \<Rightarrow> (nat \<Rightarrow> bool \<times> bool) \<Rightarrow> nat option \<Rightarrow> mac_tab \<Rightarrow>
    mac_tab run" where
  "delete_station num oks p t =
     (case p of
        None \<Rightarrow> r_return t
      | Some i \<Rightarrow> r_bind (MacTableDeleteEntry oks (num (Content t ! i)) (Addr (Content t ! i)) t)
                    (\<lambda>(_, t1). r_return t1))"

definition insert_if_new :: "bytes \<Rightarrow> u8 \<Rightarrow> nat option \<Rightarrow> mac_tab \<Rightarrow> (nat option \<times> mac_tab) run" where
  "insert_if_new a apidx p t =
     (case p of None \<Rightarrow> MacTableInsertEntry a apidx True t | Some i \<Rightarrow> r_return (Some i, t))"

definition auth_decide :: "(nat \<Rightarrow> bool \<times> bool) \<Rightarrow> bool \<Rightarrow> bytes \<Rightarrow> mlme_elem \<Rightarrow> nat \<Rightarrow> u16 \<Rightarrow> u16 \<Rightarrow>
    nat option \<Rightarrow> ap_mlme \<Rightarrow> ap_mlme run" where
  "auth_decide oks kmalloc_ok rnd el apidx Alg Seq p st =
     (let fr = el_Frame el; a = mf_Addr2 fr; m = MBSSID (ap_tab st) ! apidx; t = ap_tab st;
          rsp = APPeerAuthSimpleRspGenAndSend kmalloc_ok fr Alg (Seq + 1) in
      if auth_rssi_refused m (el_Rssi el) then
        r_bind (delete_station (\<lambda>e. unat (Aid e)) oks p
                 (if AuthFailRssiThreshold m \<noteq> 0 \<and> el_Rssi el < AuthFailRssiThreshold m
                  then rsp MLME_UNSPECIFY_FAIL t else t))
          (\<lambda>t1. r_return (st\<lparr>ap_tab := mac_emit (WirelessEvent a) t1\<rparr>))
      else if \<not> ApCheckAccessControlList st a apidx then
        r_bind (delete_station (\<lambda>e. unat (ent_wcid e)) oks p (rsp MLME_UNSPECIFY_FAIL t))
          (\<lambda>t1. r_return (st\<lparr>ap_tab := mac_emit (WirelessEvent a) t1\<rparr>))
      else if Alg = AUTH_MODE_OPEN \<and> mb_AuthMode m \<noteq> AuthModeShared then
        r_bind (insert_if_new a (word_of_nat apidx) p t) (\<lambda>(q, t1).
          case q of
            None \<Rightarrow> r_return (st\<lparr>ap_tab := t1\<rparr>)
          | Some i \<Rightarrow> r_return (st\<lparr>ap_tab := rsp MLME_SUCCESS
                        (upd_entry i (\<lambda>e. e\<lparr>AuthState := AS_AUTH_OPEN, Sst := SST_AUTH\<rparr>) t1)\<rparr>))
      else if Alg = AUTH_MODE_KEY \<and> (mb_AuthMode m = AuthModeShared \<or> mb_AuthMode m = AuthModeAutoSwitch) then
        r_bind (insert_if_new a (word_of_nat apidx) p t) (\<lambda>(q, t1).
          case q of
            None \<Rightarrow> r_return (st\<lparr>ap_tab := t1\<rparr>)
          | Some i \<Rightarrow>
              let t2 = upd_entry i (\<lambda>e. e\<lparr>AuthState := AS_AUTHENTICATING, Sst := SST_NOT_AUTH\<rparr>) t1
              in r_return (st\<lparr>ApMlmeAux_Addr := a, ApMlmeAux_Challenge := rnd,
                   ap_tab := (if kmalloc_ok then mac_emit (SendChallenge a Alg (Seq + 1) rnd) t2 else t2)\<rparr>))
      else
        r_bind (delete_station (\<lambda>e. unat (ent_wcid e)) oks p (rsp MLME_ALG_NOT_SUPPORT t)) (\<lambda>t1. r_return (st\<lparr>ap_tab := t1\<rparr>)))"

definition APPeerAuthReqAtIdleAction :: "(nat \<Rightarrow> bool \<times> bool) \<Rightarrow> bool \<Rightarrow> bytes \<Rightarrow> bytes \<Rightarrow> mlme_elem \<Rightarrow>
    ap_mlme \<Rightarrow> ap_mlme run" where
  "APPeerAuthReqAtIdleAction oks kmalloc_ok rnd stack el st =
     (let fr = el_Frame el in
      case APPeerAuthSanity stack fr of
        None \<Rightarrow> r_return st
      | Some (Alg, Seq, Status, Chtxt) \<Rightarrow>
          let apidx = get_apidx_by_addr (ap_tab st) (mf_Addr1 fr) in
          if unat (BssidNum (ap_tab st)) \<le> apidx then r_return st
          else if HW_BEACON_MAX_NUM \<le> apidx then Some (Inl OOBRead)
          else if mb_if_dev (MBSSID (ap_tab st) ! apidx) \<noteq> Some True then r_return st
          else
            r_bind (MacTableLookup (ap_tab st) (mf_Addr2 fr)) (\<lambda>p.
            r_bind (case p of None \<Rightarrow> r_return (None, ap_tab st)
                            | Some i \<Rightarrow> auth_known_station oks (mf_Addr1 fr) i (ap_tab st)) (\<lambda>(p1, t1).
            auth_decide oks kmalloc_ok rnd el apidx Alg Seq p1 (st\<lparr>ap_tab := t1\<rparr>))))"

text \<open>The third frame of the shared-key algorithm: the station must return the challenge encrypted.\<close>

definition auth_confirm :: "(nat \<Rightarrow> bool \<times> bool) \<Rightarrow> bool \<Rightarrow> mgmt_frame \<Rightarrow> u16 \<Rightarrow> u16 \<Rightarrow> bytes \<Rightarrow>
    nat option \<Rightarrow> ap_mlme \<Rightarrow> ap_mlme run" where
  "auth_confirm oks kmalloc_ok fr Alg Seq Chtxt p st =
     (let t = ap_tab st; rsp = APPeerAuthSimpleRspGenAndSend kmalloc_ok fr Alg (Seq + 1) in
      if p \<noteq> None \<and> mf_Addr2 fr = ApMlmeAux_Addr st then
        (if mf_Wep fr \<and> Chtxt = ApMlmeAux_Challenge st
         then r_return (st\<lparr>ap_tab := upd_entry (the p) (\<lambda>e. e\<lparr>AuthState := AS_AUTH_KEY, Sst := SST_AUTH\<rparr>)
                (rsp MLME_SUCCESS t)\<rparr>)
         else r_bind (delete_station (\<lambda>e. unat (ent_wcid e)) oks p (rsp MLME_REJ_CHALLENGE_FAILURE
                (mac_emit (WirelessEvent (Addr (Content t ! the p))) t)))
                (\<lambda>t1. r_return (st\<lparr>ap_tab := t1\<rparr>)))
      else r_bind (delete_station (\<lambda>e. unat (ent_wcid e)) oks p (rsp MLME_UNSPECIFY_FAIL t)) (\<lambda>t1. r_return (st\<lparr>ap_tab := t1\<rparr>)))"

definition APPeerAuthConfirmAction :: "(nat \<Rightarrow> bool \<times> bool) \<Rightarrow> bool \<Rightarrow> bytes \<Rightarrow> mlme_elem \<Rightarrow>
    ap_mlme \<Rightarrow> ap_mlme run" where
  "APPeerAuthConfirmAction oks kmalloc_ok stack el st =
     (let fr = el_Frame el in
      case APPeerAuthSanity stack fr of
        None \<Rightarrow> r_return st
      | Some (Alg, Seq, Status, Chtxt) \<Rightarrow>
          let apidx = get_apidx_by_addr (ap_tab st) (mf_Addr1 fr) in
          if unat (BssidNum (ap_tab st)) \<le> apidx then r_return st
          else if HW_BEACON_MAX_NUM \<le> apidx then Some (Inl OOBRead)
          else if mb_if_dev (MBSSID (ap_tab st) ! apidx) = Some False then r_return st
          else if MAX_LEN_OF_MAC_TABLE \<le> el_Wcid el then r_return st
          else
            r_bind (auth_known_station oks (mf_Addr1 fr) (el_Wcid el) (ap_tab st)) (\<lambda>(p1, t1).
            auth_confirm oks kmalloc_ok fr Alg Seq Chtxt p1 (st\<lparr>ap_tab := t1\<rparr>)))"

definition APMlmeDeauthReqAction :: "(nat \<Rightarrow> bool \<times> bool) \<Rightarrow> bool \<Rightarrow> nat \<Rightarrow> bytes \<Rightarrow> u16 \<Rightarrow> ap_mlme \<Rightarrow>
    ap_mlme run" where
  "APMlmeDeauthReqAction oks kmalloc_ok Wcid a Reason st =
     (if MAX_LEN_OF_MAC_TABLE \<le> Wcid then r_return st
      else
        r_bind (MacTableDeleteEntry oks Wcid a (mac_emit (WirelessEvent a) (ap_tab st))) (\<lambda>(_, t1).
          if kmalloc_ok \<and> HW_BEACON_MAX_NUM \<le> unat (ent_apidx (Content (ap_tab st) ! Wcid))
          then Some (Inl OOBRead)
          else r_return (st\<lparr>ap_tab := (if kmalloc_ok then mac_emit (SendDeauth a Reason) t1 else t1)\<rparr>)))"

definition APPeerDeauthReqAction :: "(nat \<Rightarrow> bool \<times> bool) \<Rightarrow> nat \<Rightarrow> bytes \<Rightarrow> ap_mlme \<Rightarrow> ap_mlme run" where
  "APPeerDeauthReqAction oks Wcid Addr2 st =
     (if MAX_LEN_OF_MAC_TABLE \<le> Wcid then r_return st
      else
        let e = Content (ap_tab st) ! Wcid in
        if AuthMode e \<noteq> AuthModeWPA \<and> AuthMode e \<noteq> AuthModeWPA2 \<and> HW_BEACON_MAX_NUM \<le> unat (ent_apidx e)
        then Some (Inl OOBRead)
        else
          let t1 = mac_emit (WirelessEvent Addr2) (mac_dot1x_notify e (ap_tab st));
              st1 = (if CMTimerRunning e then st\<lparr>aMICFailTime := PrevaMICFailTime st\<rparr> else st)
          in r_bind (MacTableDeleteEntry oks Wcid Addr2 t1) (\<lambda>(_, t2). r_return (st1\<lparr>ap_tab := t2\<rparr>)))"

definition APCls2errAction :: "(nat \<Rightarrow> bool \<times> bool) \<Rightarrow> bool \<Rightarrow> nat \<Rightarrow> bytes \<Rightarrow> bytes \<Rightarrow> ap_mlme \<Rightarrow>
    ap_mlme run" where
  "APCls2errAction oks kmalloc_ok Wcid Addr1 Addr2 st =
     (let t = ap_tab st; send = (\<lambda>t. if kmalloc_ok then mac_emit (SendDeauth Addr2 REASON_CLS2ERR) t else t) in
      if Wcid < MAX_LEN_OF_MAC_TABLE \<and> EntryType (Content t ! Wcid) = ENTRY_CLIENT then
        r_bind (MacTableDeleteEntry oks (unat (ent_wcid (Content t ! Wcid))) Addr2 t) (\<lambda>(_, t1).
          r_return (st\<lparr>ap_tab := send t1\<rparr>))
      else if unat (BssidNum t) \<le> get_apidx_by_addr t Addr1 then r_return st
      else r_return (st\<lparr>ap_tab := send t\<rparr>))"

end
