(* ===== verification/StationProps.thy ===== *)
theory StationProps
  imports StationTable
begin

text \<open>
  The properties of the station table: it refines a finite map from addresses to entries, its look-ups
  return, its insertions fail only when there is no room. The last section is about a station that
  leaves while memory is short: the block-ack session it had is lost.
\<close>

subsection \<open>The specification: a map of addresses\<close>

datatype table_op = Look bytes | Admit bytes u8 bool | Expel bytes

text \<open>
  A step of the map, with the entry it answers. Admission of an unknown address may fail, and answers
  nothing then; the index that a new address gets is free before.
\<close>

inductive map_step :: "(bytes \<Rightarrow> nat option) \<Rightarrow> table_op \<Rightarrow> nat option \<Rightarrow> (bytes \<Rightarrow> nat option) \<Rightarrow> bool" where
  look: "map_step m (Look a) (m a) m"
| known: "m a = Some i \<Longrightarrow> map_step m (Admit a apidx om) (Some i) m"
| full: "m a = None \<Longrightarrow> map_step m (Admit a apidx om) None m"
| admit: "m a = None \<Longrightarrow> i \<notin> ran m \<Longrightarrow> map_step m (Admit a apidx om) (Some i) (m(a \<mapsto> i))"
| expel: "map_step m (Expel a) (m a) (m(a := None))"

inductive_simps map_step_look [simp]: "map_step m (Look a) r m'"

inductive map_run :: "(bytes \<Rightarrow> nat option) \<Rightarrow> table_op list \<Rightarrow> nat option list \<Rightarrow>
    (bytes \<Rightarrow> nat option) \<Rightarrow> bool" where
  nil: "map_run m [] [] m"
| cons: "map_step m opn r m1 \<Longrightarrow> map_run m1 ops rs m2 \<Longrightarrow> map_run m (opn # ops) (r # rs) m2"

text \<open>The table's operations in the way the handlers use them: each starts with a look-up.\<close>

fun table_step :: "table_op \<Rightarrow> mac_tab \<Rightarrow> (nat option \<times> mac_tab) run" where
  "table_step (Look a) t = r_bind (MacTableLookup t a) (\<lambda>p. r_return (p, t))"
| "table_step (Admit a apidx om) t = r_bind (MacTableLookup t a) (\<lambda>p.
     case p of Some i \<Rightarrow> r_return (Some i, t) | None \<Rightarrow> MacTableInsertEntry a (apidx AND 15) om t)"
| "table_step (Expel a) t = r_bind (MacTableLookup t a) (\<lambda>p.
     case p of
       Some i \<Rightarrow> r_bind (MacTableDeleteEntry (\<lambda>_. (True, True)) i a t) (\<lambda>(_, t1). r_return (Some i, t1))
     | None \<Rightarrow> r_return (None, t))"

fun table_run :: "table_op list \<Rightarrow> mac_tab \<Rightarrow> (nat option list \<times> mac_tab) run" where
  "table_run [] t = r_return ([], t)"
| "table_run (opn # ops) t = r_bind (table_step opn t) (\<lambda>(r, t1).
     r_bind (table_run ops t1) (\<lambda>(rs, t2). r_return (r # rs, t2)))"

lemma unat_and15: "unat ((x :: u8) AND 15) < HW_BEACON_MAX_NUM"
proof -
  have "x AND 15 \<le> 15" by (rule word_and_le1)
  then show ?thesis by (simp add: word_le_nat_alt HW_BEACON_MAX_NUM_def)
qed

lemma table_step_refines:
  assumes "station_inv t"
  shows "\<exists>r t'. table_step opn t = r_return (r, t') \<and> station_inv t' \<and> map_step (mac_map t) opn r (mac_map t')"
proof (cases opn)
  case (Look a)
  then show ?thesis using assms stations.look [OF assms] by auto
next
  case (Admit a apidx om)
  show ?thesis
  proof (cases "mac_map t a")
    case (Some i)
    then show ?thesis using assms stations.look [OF assms] by (auto simp: Admit intro: map_step.known)
  next
    case None
    obtain r t' where r: "MacTableInsertEntry a (apidx AND 15) om t = r_return (r, t')" "station_inv t'"
      "case r of None \<Rightarrow> mac_map t' = mac_map t \<and> mac_insert_full (apidx AND 15) t
       | Some i \<Rightarrow> mac_map t' = (mac_map t)(a \<mapsto> i) \<and> mac_first_free t = Some i \<and>
           fresh_client t' i a (apidx AND 15)"
      using station_insert [OF assms None unat_and15, of apidx om] by blast
    have "i \<notin> ran (mac_map t)" if "mac_first_free t = Some i" for i
      using mac_first_free_Some [OF that] mac_map_slot by (auto simp: ran_def mac_slot_def)
    then have "map_step (mac_map t) (Admit a apidx om) r (mac_map t')"
      using r(3) None by (auto split: option.splits intro: map_step.full map_step.admit)
    then show ?thesis using r(1,2) stations.look [OF assms] None by (simp add: Admit)
  qed
next
  case (Expel a)
  show ?thesis
  proof (cases "mac_map t a")
    case None
    then have "map_step (mac_map t) (Expel a) None (mac_map t)"
      using map_step.expel [of "mac_map t" a] by (simp add: fun_upd_idem)
    then show ?thesis using assms stations.look [OF assms] None by (simp add: Expel)
  next
    case (Some i)
    obtain t' where "MacTableDeleteEntry (\<lambda>_. (True, True)) i a t = r_return (True, t')" "station_inv t'"
      "mac_map t' = (mac_map t)(a := None)" using stations.del [OF assms Some] by blast
    then show ?thesis using stations.look [OF assms] Some map_step.expel [of "mac_map t" a]
      by (simp add: Expel)
  qed
qed

subsection \<open>Properties of the table\<close>

text \<open>C17: in any sequence of look-ups, admissions and deletions the table behaves as a map from addresses
  to entries: every operation returns, none leaves its arrays, and the answers are those of the map.\<close>

theorem station_table_refines_map:
  assumes "station_inv t"
  shows "\<exists>rs t'. table_run ops t = r_return (rs, t') \<and> station_inv t' \<and>
    map_run (mac_map t) ops rs (mac_map t')"
  using assms
proof (induction ops arbitrary: t)
  case Nil
  then show ?case by (auto intro: map_run.nil)
next
  case (Cons opn ops)
  obtain r t1 where s: "table_step opn t = r_return (r, t1)" "station_inv t1"
    "map_step (mac_map t) opn r (mac_map t1)" using table_step_refines [OF Cons.prems] by blast
  then show ?case using Cons.IH [OF s(2)] by (auto intro: map_run.cons)
qed

lemma station_table_refines_map_witness:
  "\<exists>rs t'. table_run [Admit [2, 0, 0, 0, 0, 9] 0 True, Admit [2, 0, 0, 0, 9, 0] 0 True,
       Expel [2, 0, 0, 0, 0, 9], Look [2, 0, 0, 0, 9, 0]] sample_table = r_return (rs, t') \<and>
    station_inv t' \<and> map_run (mac_map sample_table) [Admit [2, 0, 0, 0, 0, 9] 0 True,
      Admit [2, 0, 0, 0, 9, 0] 0 True, Expel [2, 0, 0, 0, 0, 9], Look [2, 0, 0, 0, 9, 0]] rs (mac_map t')"
  by (rule station_table_refines_map [OF sample_table_ok(1)])

text \<open>After any such sequence the look-up of any address ends, although it follows pointers, and
  finds an entry exactly when one in use has the address.\<close>

theorem station_lookup_returns:
  assumes "station_inv t" "table_run ops t = r_return (rs, t')"
  shows "\<exists>p. MacTableLookup t' a = r_return p \<and>
    (case p of
       None \<Rightarrow> \<forall>i. 1 \<le> i \<and> i < MAX_LEN_OF_MAC_TABLE \<longrightarrow>
         EntryType (Content t' ! i) = ENTRY_NONE \<or> Addr (Content t' ! i) \<noteq> a
     | Some i \<Rightarrow> 1 \<le> i \<and> i < MAX_LEN_OF_MAC_TABLE \<and> EntryType (Content t' ! i) \<noteq> ENTRY_NONE \<and>
         Addr (Content t' ! i) = a)"
proof -
  have "station_inv t'" if "station_inv t" "table_run ops t = r_return (rs, t')" for ops t rs t'
    using that
  proof (induction ops arbitrary: t rs)
    case (Cons opn ops)
    obtain r t1 where "table_step opn t = r_return (r, t1)" "station_inv t1"
      using table_step_refines [OF Cons.prems(1)] by blast
    then show ?case using Cons by (auto simp: r_bind_eq_return)
  qed simp
  note inv = this [OF assms]
  show ?thesis using stations.look [OF inv, of a] mac_map_slot [of t' a]
    by (cases "mac_map t' a") (auto simp: mac_slot_def mac_map_None)
qed

lemma station_lookup_returns_witness:
  "\<exists>p. MacTableLookup sample_table [2, 0, 0, 0, 0, 9] = r_return p \<and>
    (case p of
       None \<Rightarrow> \<forall>i. 1 \<le> i \<and> i < MAX_LEN_OF_MAC_TABLE \<longrightarrow>
         EntryType (Content sample_table ! i) = ENTRY_NONE \<or> Addr (Content sample_table ! i) \<noteq> [2, 0, 0, 0, 0, 9]
     | Some i \<Rightarrow> 1 \<le> i \<and> i < MAX_LEN_OF_MAC_TABLE \<and> EntryType (Content sample_table ! i) \<noteq> ENTRY_NONE \<and>
         Addr (Content sample_table ! i) = [2, 0, 0, 0, 0, 9])"
  by (rule station_lookup_returns [OF sample_table_ok(1), of "[]"]) simp

text \<open>An address that the table does not hold gets the first free entry, as a client that is neither
  authenticated nor associated; it is turned away only when every entry is in use or the limit of its
  network is reached, and then no address is found that was not found before.\<close>

theorem station_insert_outcome:
  assumes "station_inv t" "mac_map t a = None" "unat apidx < HW_BEACON_MAX_NUM"
  shows "\<exists>r t'. MacTableInsertEntry a apidx om t = r_return (r, t') \<and> station_inv t' \<and>
    (case r of
       None \<Rightarrow> mac_map t' = mac_map t \<and> mac_insert_full apidx t
     | Some i \<Rightarrow> mac_map t' = (mac_map t)(a \<mapsto> i) \<and> mac_first_free t = Some i \<and>
         EntryType (Content t' ! i) = ENTRY_CLIENT \<and> Addr (Content t' ! i) = a \<and>
         Sst (Content t' ! i) = SST_NOT_AUTH \<and> \<not> PortSecured (Content t' ! i))"
  using station_insert [OF assms, of om] by (fastforce simp: fresh_client_def Let_def split: option.splits)

lemma station_insert_outcome_witness:
  "\<exists>r t'. MacTableInsertEntry [2, 0, 0, 0, 0, 9] 0 True sample_table = r_return (r, t') \<and> station_inv t' \<and>
    (case r of
       None \<Rightarrow> mac_map t' = mac_map sample_table \<and> mac_insert_full 0 sample_table
     | Some i \<Rightarrow> mac_map t' = (mac_map sample_table)([2, 0, 0, 0, 0, 9] \<mapsto> i) \<and>
         mac_first_free sample_table = Some i \<and>
         EntryType (Content t' ! i) = ENTRY_CLIENT \<and> Addr (Content t' ! i) = [2, 0, 0, 0, 0, 9] \<and>
         Sst (Content t' ! i) = SST_NOT_AUTH \<and> \<not> PortSecured (Content t' ! i))"
  by (rule station_insert_outcome [OF sample_table_ok]) (simp add: HW_BEACON_MAX_NUM_def)


subsection \<open>The table is emptied\<close>

lemma reset_loop_ok:
  assumes "station_inv t" "set is \<subseteq> {1..<MAX_LEN_OF_MAC_TABLE}" "\<And>i. deauth i" "\<And>i n. oks i n = (True, True)"
  shows "\<exists>t'. mac_reset_loop deauth oks is t = r_return (True, t') \<and> station_inv t' \<and>
    (\<forall>b i. mac_map t' b = Some i \<longleftrightarrow> mac_map t b = Some i \<and> i \<notin> set is)"
  using assms(1,2)
proof (induction "is" arbitrary: t)
  case (Cons i "is")
  let ?a = "Addr (Content t ! i)"
  let ?t1 = "if EntryType (Content t ! i) = ENTRY_CLIENT \<and> mt_ap t \<and> Sst (Content t ! i) = SST_ASSOC
    then mac_emit (SendDeauth ?a REASON_NO_LONGER_VALID) t else t"
  have i: "1 \<le> i" "i < MAX_LEN_OF_MAC_TABLE" using Cons.prems(2) by simp_all
  have t1: "station_inv ?t1" "mac_map ?t1 = mac_map t" using Cons.prems(1) by simp_all
  obtain t2 where t2: "MacTableDeleteEntry (oks i) i ?a ?t1 = r_return (True, t2)" "station_inv t2"
    "mac_map t2 = (if mac_map t ?a = Some i then (mac_map t)(?a := None) else mac_map t)"
    using expel_ok [where oks = "oks i" and a = ?a, OF t1(1) i assms(4)] unfolding t1(2) by blast
  have uniq: "b = ?a" if "mac_map t b = Some i" for b using mac_map_slot(2) [OF that] by simp
  have m: "mac_map t2 b = Some j \<longleftrightarrow> mac_map t b = Some j \<and> j \<noteq> i" for b j
  proof (cases "mac_map t ?a = Some i")
    case True
    then have "mac_map t2 b = (if b = ?a then None else mac_map t b)" using t2(3) by simp
    moreover have "b = ?a \<or> mac_map t b \<noteq> Some i" using uniq [of b] by blast
    ultimately show ?thesis using True by (elim disjE) auto
  next
    case False
    then have "mac_map t b \<noteq> Some i" using uniq [of b] by blast
    then show ?thesis using False t2(3) by auto
  qed
  obtain t' where t': "mac_reset_loop deauth oks is t2 = r_return (True, t')" "station_inv t'"
    "\<forall>b j. mac_map t' b = Some j \<longleftrightarrow> mac_map t2 b = Some j \<and> j \<notin> set is"
    using Cons.IH [OF t2(2)] Cons.prems(2) by auto
  have "mac_reset_loop deauth oks (i # is) t = mac_reset_loop deauth oks is t2"
    using assms(3) t2(1) by (simp add: Let_def)
  then show ?case using t' m by auto
qed simp

lemma conf_reset_loop:
  "mac_reset_loop deauth oks is t = r_return (d, t') \<Longrightarrow> net_conf t' = net_conf t"
proof (induction "is" arbitrary: t)
  case (Cons i "is")
  then show ?case by (fastforce simp: Let_def r_bind_eq_return dest: conf_delete split: if_split_asm)
qed simp

lemma count_reset:
  fixes t :: mac_tab
  defines "zero \<equiv> \<lambda>is t. foldl (\<lambda>t i. upd_mbss i (\<lambda>m. m\<lparr>StaCount := 0\<rparr>) t) t is"
  assumes "set is \<subseteq> {..<length (MBSSID t)}"
  shows "Content (zero is t) = Content t" "Hash (zero is t) = Hash t" "TabSize (zero is t) = TabSize t"
    "mt_ba (zero is t) = mt_ba t" "length (MBSSID (zero is t)) = length (MBSSID t)"
    "j \<in> set is \<Longrightarrow> StaCount (MBSSID (zero is t) ! j) = 0"
proof -
  show *: "Content (zero is t) = Content t" "Hash (zero is t) = Hash t" "TabSize (zero is t) = TabSize t"
    "mt_ba (zero is t) = mt_ba t" "length (MBSSID (zero is t)) = length (MBSSID t)"
    unfolding zero_def by (induction "is" arbitrary: t) simp_all
  show "StaCount (MBSSID (zero is t) ! j) = 0" if "j \<in> set is"
    using assms(2) that unfolding zero_def
  proof (induction "is" rule: rev_induct)
    case (snoc i "is")
    have "length (MBSSID (foldl (\<lambda>t i. upd_mbss i (\<lambda>m. m\<lparr>StaCount := 0\<rparr>) t) t is)) = length (MBSSID t)"
      by (induction "is" arbitrary: t) simp_all
    then show ?case using snoc by (cases "j = i") (auto simp: upd_mbss_def)
  qed simp
qed

text \<open>A reset of the table of an access point that has its memory leaves a table in which no address
  is found, no entry is used and no network counts a station.\<close>

theorem station_reset_empties:
  assumes "station_inv t" "mt_ap t" "unat (BssidNum t) \<le> HW_BEACON_MAX_NUM"
    "deauth = (\<lambda>_. True)" "oks = (\<lambda>_ _. (True, True))"
  shows "\<exists>t'. MacTableReset deauth oks t = r_return t' \<and> station_inv t' \<and> mac_map t' = Map.empty \<and>
    TabSize t' = 0 \<and> (\<forall>i<unat (BssidNum t). StaCount (MBSSID t' ! i) = 0)"
proof -
  let ?is = "[1..<MAX_LEN_OF_MAC_TABLE]"
  obtain t1 where t1: "mac_reset_loop deauth oks ?is t = r_return (True, t1)" "station_inv t1"
    "\<forall>b i. mac_map t1 b = Some i \<longleftrightarrow> mac_map t b = Some i \<and> i \<notin> set ?is"
    using reset_loop_ok [OF assms(1), of ?is deauth oks] assms(4,5) by auto
  note conf = confD [OF conf_reset_loop [OF t1(1)]]
  have "mac_map t1 b = None" for b
    using t1(3) mac_map_slot(1) [of t b] by (cases "mac_map t1 b") (auto simp: mac_slot_def)
  then have none: "mac_map t1 = Map.empty" by (rule ext)
  have free: "\<not> mac_slot (Content t1) i" for i
    using mac_slot_map [OF station_invD(1) [OF t1(2)]] none by simp
  note inv = mac_invD [OF station_invD(1) [OF t1(2)]]
  have size: "TabSize t1 = 0" using inv(6) free by (simp add: unat_eq_0)
  let ?t' = "foldl (\<lambda>t i. upd_mbss i (\<lambda>m. m\<lparr>StaCount := 0\<rparr>) t) t1 [0..<unat (BssidNum t1)]\<lparr>TabSize := 0\<rparr>"
  have sub: "set [0..<unat (BssidNum t1)] \<subseteq> {..<length (MBSSID t1)}"
    using assms(3) conf(1) inv(3) by auto
  note c = count_reset [OF sub]
  have run: "MacTableReset deauth oks t = r_return ?t'"
    using t1(1) conf assms(2) by (simp add: MacTableReset_def)
  have "mac_inv ?t'" unfolding mac_inv_def
    using station_invD(1) [OF t1(2)] c(1,2,5) size unfolding mac_inv_def by simp
  then have "station_inv ?t'"
    by (rule station_invI) (use station_invD(2,3) [OF t1(2)] c(1,4) in simp_all)
  moreover have "mac_map ?t' = Map.empty" using none c(1) by (simp add: mac_map_def fun_eq_iff)
  moreover have "\<forall>i<unat (BssidNum t). StaCount (MBSSID ?t' ! i) = 0" using c(6) conf(1) by simp
  ultimately show ?thesis using run by (intro exI [of _ ?t']) simp
qed

subsection \<open>A session survives its station\<close>

lemma teardown_all_keeps:
  assumes "ba_sessions_ok ad" "w < MAX_LEN_OF_MAC_TABLE" "t < NUM_OF_TID" "\<not> snd (oks t)" "ra ad w t \<noteq> 0"
    "BASessionTearDownALL oks w ad = Inr ad'"
  shows "ra ad' w t = ra ad w t"
proof -
  have "ra ad' w t = ra ad w t"
    if "fold_fault (ba_teardown_tid oks w) ad ts = Inr ad'" "set ts \<subseteq> {..<NUM_OF_TID}" "ba_sessions_ok ad"
      "ra ad w t \<noteq> 0" for ts ad
    using that
  proof (induction ts arbitrary: ad)
    case (Cons x ts)
    have x: "x < NUM_OF_TID" using Cons.prems(2) by simp
    obtain ad1 where o1: "BAOriSessionTearDown (fst (oks x)) w x False False ad = Inr ad1"
      "ba_sessions_ok ad1" "ra ad1 = ra ad"
      using ori_teardown_ok [OF Cons.prems(3) assms(2) x, of "fst (oks x)" False False] by auto
    obtain ad2 where r1: "BARecSessionTearDown (snd (oks x)) w x False ad1 = Inr ad2" "ba_sessions_ok ad2"
      "ra ad2 = (if ra ad1 w x \<noteq> 0 \<and> \<not> False \<and> \<not> snd (oks x) then ra ad1 else without (ra ad1) w x)"
      using rec_teardown_ok [OF o1(2) assms(2) x, of "snd (oks x)" False] by blast
    have keep: "ra ad2 w t = ra ad w t" using r1(3) o1(3) assms(4) Cons.prems(4) by (auto simp: without_def)
    have "ba_teardown_tid oks w ad x = Inr ad2" using o1(1) r1(1) by (simp add: ba_teardown_tid_def)
    then have "fold_fault (ba_teardown_tid oks w) ad2 ts = Inr ad'" using Cons.prems(1) by simp
    then show ?case using Cons.IH [of ad2] Cons.prems(2,4) r1(2) keep by simp
  qed simp
  from this [of ad "[0..<NUM_OF_TID]"] show ?thesis
    using assms by (simp add: BASessionTearDownALL_def atLeast0LessThan)
qed

text \<open>An index into the table of recipient sessions that no station keeps.\<close>

definition unreachable_session :: "mac_tab \<Rightarrow> nat \<Rightarrow> bool" where
  "unreachable_session t i \<longleftrightarrow> REC_BA_Status (rec_entry (mt_ba t) i) \<noteq> Recipient_NONE \<and>
     (\<forall>x<MAX_LEN_OF_MAC_TABLE. \<forall>y<NUM_OF_TID. rec_index (peer (mt_ba t) x) y \<noteq> i)"

lemma zeroed_peer_loses:
  assumes "ba_sessions_ok ad" "w < MAX_LEN_OF_MAC_TABLE" "y < NUM_OF_TID" "ra ad w y = i" "i \<noteq> 0"
    "peers ad' = (peers ad)[w := p]" "\<forall>y<NUM_OF_TID. rec_index p y = 0" "BARecEntry ad' = BARecEntry ad"
  shows "REC_BA_Status (rec_entry ad' i) \<noteq> Recipient_NONE"
    "x < MAX_LEN_OF_MAC_TABLE \<Longrightarrow> y' < NUM_OF_TID \<Longrightarrow> rec_index (peer ad' x) y' \<noteq> i"
proof -
  note e = rec_indexed [OF assms(1-3) assms(4) [unfolded ra_def] assms(5)]
  show "REC_BA_Status (rec_entry ad' i) \<noteq> Recipient_NONE" using e(2) assms(8) by simp
  show "rec_index (peer ad' x) y' \<noteq> i" if xy: "x < MAX_LEN_OF_MAC_TABLE" "y' < NUM_OF_TID"
  proof (cases "x = w")
    case True
    then show ?thesis using assms(2,5,6,7) xy okD(7) [OF assms(1)] by simp
  next
    case False
    then have "peer ad' x = peer ad x" using assms(6) by simp
    then show ?thesis using rec_indexed(3) [OF assms(1) xy _ assms(5)] e(3) False by auto
  qed
qed

text \<open>A table with one station, whose peer has a session for TID 5.\<close>

definition sample_session :: ba_adapter where
  "sample_session = (case BARecSessionAdd 1 (sample_addba 5) booted of Inr (_, ad) \<Rightarrow> ad | Inl _ \<Rightarrow> booted)"

definition sample_busy_table :: mac_tab where
  "sample_busy_table = sample_table\<lparr>
     Content := (Content sample_table)[1 := zero_entry\<lparr>EntryType := ENTRY_CLIENT, ent_wcid := 1, Aid := 1,
       Addr := [2, 0, 0, 0, 0, 9]\<rparr>],
     Hash := (Hash sample_table)[11 := Some 1], TabSize := 1, mt_ba := sample_session\<rparr>"

lemma sample_session_ok:
  "ba_sessions_ok sample_session" "rec_index (peer sample_session 1) 5 \<noteq> 0"
  "1 < x \<Longrightarrow> x < MAX_LEN_OF_MAC_TABLE \<Longrightarrow> no_sessions sample_session x"
proof -
  have ht: "fr_TID (sample_addba 5) < NUM_OF_TID" "is_ht_sta (peer booted 1)"
    by (simp_all add: sample_addba_def table_len sample_peer_def)
  obtain acc ad where r: "BARecSessionAdd 1 (sample_addba 5) booted = Inr (acc, ad)" "ba_sessions_ok ad"
    "oa ad = oa booted"
    "if acc then ra ad 1 5 \<noteq> 0 \<and> ra ad = with_index (ra booted) 1 5 (ra ad 1 5)
     else unat (numAsRecipient booted) = MAX_LEN_OF_BA_TABLE - 1"
    using rec_add_ok [OF reachable_ok [OF booted_reachable] _ ht] by (auto simp: table_len sample_addba_def split: if_splits)
  have s: "sample_session = ad" using r(1) by (simp add: sample_session_def)
  have acc: "acc" using r(4) by (simp add: table_len split: if_splits)
  show "ba_sessions_ok sample_session" using r(2) s by simp
  show "rec_index (peer sample_session 1) 5 \<noteq> 0" using r(4) acc s by (simp add: ra_def)
  show "no_sessions sample_session x" if x: "1 < x" "x < MAX_LEN_OF_MAC_TABLE"
  proof -
    have eq: "ra ad = with_index (ra booted) 1 5 (ra ad 1 5)" using r(4) unfolding if_P [OF acc] by blast
    have "ra ad x y = with_index (ra booted) 1 5 (ra ad 1 5) x y" for y
      by (rule fun_cong [OF fun_cong [OF eq]])
    also have "with_index (ra booted) 1 5 (ra ad 1 5) x y = ra booted x y" for y
      using x(1) by (simp add: with_index_def)
    finally have "ra ad x y = ra booted x y" for y .
    moreover have "ra booted x y = 0" "oa booted x y = 0" if "y < NUM_OF_TID" for y
      using x that by (simp_all add: ra_def oa_def rec_index_def ori_index_def sample_peer_def)
    ultimately show ?thesis using r(3) s by (simp add: no_sessions_def)
  qed
qed

lemma sample_busy_table_ok: "station_inv sample_busy_table" "mac_map sample_busy_table [2, 0, 0, 0, 0, 9] = Some 1"
proof -
  let ?t = sample_busy_table and ?a = "[2, 0, 0, 0, 0, 9] :: bytes"
  have slot: "mac_slot (Content ?t) i \<longleftrightarrow> i = 1" for i
    by (auto simp: mac_slot_def sample_busy_table_def sample_table_def zero_entry_def nth_list_update table_len)
  have e: "Addr (Content ?t ! 1) = ?a" "pNext (Content ?t ! 1) = None" "ent_wcid (Content ?t ! 1) = 1"
    "ent_apidx (Content ?t ! 1) = 0" "EntryType (Content ?t ! 1) = ENTRY_CLIENT" "Aid (Content ?t ! 1) = 1"
    by (simp_all add: sample_busy_table_def sample_table_def zero_entry_def table_len)
  have h: "MAC_ADDR_HASH_INDEX ?a = 11" by (simp add: MAC_ADDR_HASH_INDEX_def)
  have l: "length (Content ?t) = MAX_LEN_OF_MAC_TABLE" by (simp add: sample_busy_table_def sample_table_def)
  have "mac_chains_ok (Content ?t) (Hash ?t)"
  proof (rule mac_chainsI)
    fix k assume k: "k < HASH_TABLE_SIZE"
    have "mac_bucket (Content ?t) k = {i. i = 1 \<and> MAC_ADDR_HASH_INDEX (Addr (Content ?t ! i)) = k}"
      unfolding mac_bucket_def slot ..
    then have b: "mac_bucket (Content ?t) k = (if k = 11 then {1} else {})"
      using e(1) h by (cases "k = 11") fastforce+
    have "Hash ?t ! k = (if k = 11 then Some 1 else None)"
      using k by (simp add: sample_busy_table_def sample_table_def nth_list_update)
    then have "mac_path (Content ?t) (Hash ?t ! k) (if k = 11 then [1] else [])"
      using e(2) l by (simp add: table_len)
    then show "\<exists>is. mac_path (Content ?t) (Hash ?t ! k) is \<and> set is = mac_bucket (Content ?t) k"
      using b by (intro exI [of _ "if k = 11 then [1] else []"]) simp
  qed
  then have inv: "mac_inv ?t"
    using slot e l by (simp add: mac_inv_def sample_busy_table_def sample_table_def HW_BEACON_MAX_NUM_def)
  have m: "mt_ba ?t = sample_session" by (simp add: sample_busy_table_def)
  show "station_inv ?t"
    by (rule station_invI [OF inv]) (use slot sample_session_ok(1,3) m in auto)
  show "mac_map ?t ?a = Some 1" using mac_map_Some [OF inv] slot e(1) by simp
qed

text \<open>When the frame that ends a block-ack session cannot be allocated while its station is deleted,
  the session stays, and the next station that gets the entry loses it: no station's index leads to it
  any more, so that no operation frees it.\<close>

theorem deleted_station_leaks_session:
  assumes "station_inv t" "mac_map t a = Some i" "tid < NUM_OF_TID" "\<not> snd (oks tid)"
    "rec_index (peer (mt_ba t) i) tid = idx" "idx \<noteq> 0"
  shows "\<exists>t1. MacTableDeleteEntry oks i a t = r_return (True, t1) \<and>
    (\<forall>b apidx om t2. mac_map t1 b = None \<longrightarrow> unat apidx < HW_BEACON_MAX_NUM \<longrightarrow>
       MacTableInsertEntry b apidx om t1 = r_return (Some i, t2) \<longrightarrow> unreachable_session t2 idx)"
proof -
  note inv = station_invD [OF assms(1)]
  note sl = mac_map_slot [OF assms(2)]
  have i: "i < MAX_LEN_OF_MAC_TABLE" using sl(1) by (simp add: mac_slot_def)
  obtain t1 ba where d: "MacTableDeleteEntry oks i a t = r_return (True, t1)" "mac_inv t1"
    "BASessionTearDownALL oks i (mt_ba t) = Inr ba" "mt_ba t1 = upd_peer i (\<lambda>p. p\<lparr>entry_none := True\<rparr>) ba"
    using delete_ok [OF inv(1) sl(1) inv(2)] sl(2) by blast
  have ba: "ba_sessions_ok ba" using teardown_all_ok [OF inv(2) i, of oks] d(3) by auto
  have idx: "ra ba i tid = idx"
    using teardown_all_keeps [of "mt_ba t" i tid oks, OF inv(2) i assms(3,4) _ d(3)] assms(5,6)
    by (simp add: ra_def)
  let ?p = "zero_peer\<lparr>peer_wcid := word_of_nat i, entry_none := False\<rparr>"
  have zero: "\<forall>y<NUM_OF_TID. rec_index ?p y = 0" by (simp add: rec_index_def zero_peer_def)
  have "unreachable_session t2 idx" if h: "mac_map t1 b = None" "unat apidx < HW_BEACON_MAX_NUM"
      "MacTableInsertEntry b apidx om t1 = r_return (Some i, t2)" for b apidx om t2
  proof -
    have "mt_ba t2 = upd_peer i (\<lambda>p. p\<lparr>peer_wcid := word_of_nat i, entry_none := False\<rparr>)
        (upd_peer i (\<lambda>_. zero_peer) (mt_ba t1))"
      using insert_ok [OF d(2) h(1,2), of om] h(3) by auto
    then have e: "peers (mt_ba t2) = (peers ba)[i := ?p]" "BARecEntry (mt_ba t2) = BARecEntry ba"
      using i okD(7) [OF ba] unfolding d(4) by (simp_all add: upd_peer_def)
    show ?thesis
      unfolding unreachable_session_def
      using zeroed_peer_loses [OF ba i assms(3) idx assms(6) e(1) zero e(2)] by blast
  qed
  then show ?thesis using d(1) by blast
qed


lemma deleted_station_leaks_session_witness:
  "rec_index (peer (mt_ba sample_busy_table) 1) 5 \<noteq> 0 \<and>
   (\<exists>t1. MacTableDeleteEntry (\<lambda>_. (True, False)) 1 [2, 0, 0, 0, 0, 9] sample_busy_table = r_return (True, t1) \<and>
    (\<forall>b apidx om t2. mac_map t1 b = None \<longrightarrow> unat apidx < HW_BEACON_MAX_NUM \<longrightarrow>
       MacTableInsertEntry b apidx om t1 = r_return (Some 1, t2) \<longrightarrow>
       unreachable_session t2 (rec_index (peer (mt_ba sample_busy_table) 1) 5)))"
proof
  have m: "mt_ba sample_busy_table = sample_session" by (simp add: sample_busy_table_def)
  show n: "rec_index (peer (mt_ba sample_busy_table) 1) 5 \<noteq> 0" using sample_session_ok(2) m by simp
  show "\<exists>t1. MacTableDeleteEntry (\<lambda>_. (True, False)) 1 [2, 0, 0, 0, 0, 9] sample_busy_table = r_return (True, t1) \<and>
    (\<forall>b apidx om t2. mac_map t1 b = None \<longrightarrow> unat apidx < HW_BEACON_MAX_NUM \<longrightarrow>
       MacTableInsertEntry b apidx om t1 = r_return (Some 1, t2) \<longrightarrow>
       unreachable_session t2 (rec_index (peer (mt_ba sample_busy_table) 1) 5))"
    by (rule deleted_station_leaks_session [OF sample_busy_table_ok]) (use n in \<open>simp_all add: table_len\<close>)
qed

lemma station_reset_empties_witness:
  "\<exists>t'. MacTableReset (\<lambda>_. True) (\<lambda>_ _. (True, True)) sample_busy_table = r_return t' \<and> station_inv t' \<and>
    mac_map t' = Map.empty \<and> TabSize t' = 0 \<and>
    (\<forall>i<unat (BssidNum sample_busy_table). StaCount (MBSSID t' ! i) = 0)"
  by (rule station_reset_empties [OF sample_busy_table_ok(1)])
    (simp_all add: sample_busy_table_def sample_table_def HW_BEACON_MAX_NUM_def)

end
