(* ===== verification/ApAuthProps.thy ===== *)
theory ApAuthProps
  imports ApAuth StationProps
begin

text \<open>
  The properties of authentication: every handler returns with the station table and the block-ack
  sessions consistent, and the outcome of each exchange is the one the access point's settings call for.
\<close>

subsection \<open>Steps of the handlers on the table\<close>

lemma mac_path_links:
  assumes "length es' = length es" "\<And>j. j < length es \<Longrightarrow> pNext (es' ! j) = pNext (es ! j)"
  shows "mac_path es' p is = mac_path es p is"
  using assms by (induction "is" arbitrary: p) auto

lemma touch_ok:
  assumes "station_inv t" "\<And>e. mac_key (f e) = mac_key e" "\<And>e. pNext (f e) = pNext e"
  shows "station_inv (upd_entry i f t)" "mac_map (upd_entry i f t) = mac_map t"
proof -
  let ?t = "upd_entry i f t"
  note inv = station_invD [OF assms(1)] and mi = mac_invD [OF station_invD(1) [OF assms(1)]]
  have e: "mac_key (Content ?t ! j) = mac_key (Content t ! j)" "pNext (Content ?t ! j) = pNext (Content t ! j)" for j
    using assms(2,3) by (cases "i < length (Content t)"; cases "j = i"; simp add: list_update_beyond)+
  have a: "Addr (Content ?t ! j) = Addr (Content t ! j)" "EntryType (Content ?t ! j) = EntryType (Content t ! j)" for j
    using e(1) [of j] by (simp_all add: mac_key_def)
  have s: "mac_slot (Content ?t) j = mac_slot (Content t) j" for j using a(2) by (simp add: mac_slot_def)
  have b: "mac_bucket (Content ?t) h = mac_bucket (Content t) h" for h
    using a(1) s by (auto simp: mac_bucket_def)
  have "mac_chains_ok (Content ?t) (Hash ?t)"
  proof (rule mac_chainsI)
    fix h assume "h < HASH_TABLE_SIZE"
    then obtain "is" where "mac_path (Content t) (Hash t ! h) is" "set is = mac_bucket (Content t) h"
      using mac_chainsD [OF mi(4)] by blast
    moreover have "mac_path (Content ?t) (Hash ?t ! h) is = mac_path (Content t) (Hash t ! h) is"
      using mac_path_links [of "Content ?t" "Content t", OF _ e(2)] by simp
    ultimately show "\<exists>is. mac_path (Content ?t) (Hash ?t ! h) is \<and> set is = mac_bucket (Content ?t) h"
      using b by blast
  qed
  then have i: "mac_inv ?t" "mac_map ?t = mac_map t"
    using inv_cong [of t ?t, OF inv(1) _ _ _ _ _ s e(1)] mi(1-3) by simp_all
  show "mac_map ?t = mac_map t" by (rule i(2))
  show "station_inv ?t" by (rule station_invI [OF i(1)]) (use inv(2,3) s in auto)
qed

lemma rsp_ok [simp]:
  "station_inv (APPeerAuthSimpleRspGenAndSend k fr Alg Seq s t) = station_inv t"
  "mac_map (APPeerAuthSimpleRspGenAndSend k fr Alg Seq s t) = mac_map t"
  "Content (APPeerAuthSimpleRspGenAndSend k fr Alg Seq s t) = Content t"
  "net_conf (APPeerAuthSimpleRspGenAndSend k fr Alg Seq s t) = net_conf t"
  by (simp_all add: APPeerAuthSimpleRspGenAndSend_def)

lemma teardown_ok:
  assumes "station_inv t" "i < MAX_LEN_OF_MAC_TABLE" "\<And>n. oks n = (True, True)"
  shows "\<exists>ba. BASessionTearDownALL oks i (mt_ba t) = Inr ba \<and> station_inv (t\<lparr>mt_ba := ba\<rparr>) \<and>
    mac_map (t\<lparr>mt_ba := ba\<rparr>) = mac_map t \<and> no_sessions ba i"
proof -
  note inv = station_invD [OF assms(1)]
  obtain ba where ba: "BASessionTearDownALL oks i (mt_ba t) = Inr ba" "ba_sessions_ok ba"
    "\<forall>x\<noteq>i. \<forall>y. oa ba x y = oa (mt_ba t) x y \<and> ra ba x y = ra (mt_ba t) x y"
    "\<forall>n<NUM_OF_TID. oks n = (True, True) \<longrightarrow> oa ba i n = 0 \<and> ra ba i n = 0"
    using teardown_all_ok [OF inv(2) assms(2)] by blast
  have n: "no_sessions ba i" "x \<noteq> i \<Longrightarrow> no_sessions ba x = no_sessions (mt_ba t) x" for x
    using ba(3,4) assms(3) by (simp_all add: no_sessions_def)
  have mi: "mac_inv (t\<lparr>mt_ba := ba\<rparr>)" using inv(1) by (simp add: mac_inv_def)
  have "station_inv (t\<lparr>mt_ba := ba\<rparr>)"
    by (rule station_invI [OF mi]) (use ba(2) n inv(3) in \<open>simp_all, metis\<close>)
  moreover have "mac_map (t\<lparr>mt_ba := ba\<rparr>) = mac_map t" by (simp add: mac_map_def fun_eq_iff)
  ultimately show ?thesis using ba(1) n(1) by blast
qed

subsection \<open>A known station\<close>

lemma known_ok:
  assumes "station_inv t" "1 \<le> i" "i < MAX_LEN_OF_MAC_TABLE" "\<And>n. oks n = (True, True)"
  shows "\<exists>p t'. auth_known_station oks b i t = r_return (p, t') \<and> station_inv t' \<and> net_conf t' = net_conf t \<and>
    (case p of
       None \<Rightarrow> mac_map t' = (mac_map t)(Addr (Content t ! i) := None) \<and> EntryType (Content t ! i) = ENTRY_CLIENT \<and>
         b \<noteq> mb_bssid (MBSSID t ! unat (ent_apidx (Content t ! i)))
     | Some j \<Rightarrow> j = i \<and> mac_map t' = mac_map t \<and>
         (EntryType (Content t ! i) = ENTRY_CLIENT \<longrightarrow> no_sessions (mt_ba t') i \<and>
            b = mb_bssid (MBSSID t ! unat (ent_apidx (Content t ! i)))))"
proof (cases "EntryType (Content t ! i) = ENTRY_CLIENT")
  case False
  then show ?thesis using assms(1) by (intro exI [of _ "Some i"] exI [of _ t]) (simp add: auth_known_station_def)
next
  case True
  let ?e = "Content t ! i"
  note inv = station_invD [OF assms(1)]
  have sl: "mac_slot (Content t) i" using True assms(2,3) by (simp add: mac_slot_def)
  have w: "unat (ent_wcid ?e) = i" "\<not> HW_BEACON_MAX_NUM \<le> unat (ent_apidx ?e)"
    using mac_invD(7,8) [OF inv(1) sl] True by simp_all
  have m: "mac_map t (Addr ?e) = Some i" using mac_map_Some [OF inv(1)] sl by simp
  show ?thesis
  proof (cases "b = mb_bssid (MBSSID t ! unat (ent_apidx ?e))")
    case False
    obtain t' where d: "MacTableDeleteEntry oks i (Addr ?e) t = r_return (True, t')" "station_inv t'"
      "mac_map t' = (mac_map t)(Addr ?e := None)" using station_delete [where oks = oks, OF assms(1) m assms(4)] by blast
    then show ?thesis using True False w conf_delete [OF d(1)]
      by (intro exI [of _ None] exI [of _ t']) (simp add: auth_known_station_def Let_def)
  next
    case same: True
    let ?t1 = "if bIAmBadAtheros ?e then upd_entry i (\<lambda>e. e\<lparr>bIAmBadAtheros := False\<rparr>) (mac_emit AtherosProtect t) else t"
    have t1: "station_inv ?t1" "mac_map ?t1 = mac_map t" "net_conf ?t1 = net_conf t"
      using assms(1) touch_ok [of "mac_emit AtherosProtect t" "\<lambda>e. e\<lparr>bIAmBadAtheros := False\<rparr>"]
      by (simp_all add: mac_key_def)
    obtain ba where ba: "BASessionTearDownALL oks i (mt_ba ?t1) = Inr ba" "station_inv (?t1\<lparr>mt_ba := ba\<rparr>)"
      "mac_map (?t1\<lparr>mt_ba := ba\<rparr>) = mac_map ?t1" "no_sessions ba i"
      using teardown_ok [where oks = oks, OF t1(1) assms(3,4)] by blast
    have run: "auth_known_station oks b i t = r_return (Some i, ?t1\<lparr>mt_ba := ba\<rparr>)"
      unfolding auth_known_station_def Let_def w(1) ba(1) using True same w(2) by simp
    have "net_conf (?t1\<lparr>mt_ba := ba\<rparr>) = net_conf t" "mac_map (?t1\<lparr>mt_ba := ba\<rparr>) = mac_map t"
      using t1(2,3) ba(3) by (simp_all only: conf_simps)
    then show ?thesis using run ba(2,4) same
      by (intro exI [of _ "Some i"] exI [of _ "?t1\<lparr>mt_ba := ba\<rparr>"]) simp
  qed
qed

lemma delete_station_ok:
  assumes "station_inv t" "\<And>n. oks n = (True, True)" "p = None \<or> (\<exists>i. p = Some i \<and> mac_map t a = Some i)"
    "num = (\<lambda>e. unat (Aid e)) \<or> num = (\<lambda>e. unat (ent_wcid e))"
  shows "\<exists>t'. delete_station num oks p t = r_return t' \<and> station_inv t' \<and> net_conf t' = net_conf t \<and>
    mac_map t' = (if p = None then mac_map t else (mac_map t)(a := None))"
proof (cases p)
  case None
  then show ?thesis using assms(1) by (simp add: delete_station_def)
next
  case (Some i)
  then have m: "mac_map t a = Some i" using assms(3) by simp
  note sl = mac_map_slot [OF m]
  have "num (Content t ! i) = i"
    using assms(4) mac_invD(7,9) [OF station_invD(1) [OF assms(1)] sl(1)] by auto
  moreover obtain t' where d: "MacTableDeleteEntry oks i a t = r_return (True, t')" "station_inv t'"
    "mac_map t' = (mac_map t)(a := None)" using station_delete [where oks = oks, OF assms(1) m assms(2)] by blast
  ultimately show ?thesis using Some sl(2) conf_delete [OF d(1)] by (simp add: delete_station_def)
qed

lemma insert_none_full:
  assumes "station_inv t" "MacTableInsertEntry a apidx om t = r_return (None, t')"
  shows "mac_insert_full apidx t'"
proof -
  have size: "(MAX_LEN_OF_MAC_TABLE \<le> unat (TabSize t)) = False"
    using mac_invD(6) [OF station_invD(1) [OF assms(1)]] card_slots [of "Content t"] by (simp add: table_len)
  show ?thesis
  proof (cases "mac_first_free t")
    case None
    then have "t' = t" using assms(2) size by (simp add: MacTableInsertEntry_def)
    then show ?thesis using None unfolding mac_first_free_def mac_insert_full_def find_upt_None by blast
  next
    case (Some i)
    have "t' = mac_clear_slot i t \<and> mac_bss_full apidx t"
      using assms(2) Some size by (auto simp: MacTableInsertEntry_def Let_def r_bind_eq_return split: if_splits)
    then have "mac_bss_full apidx t'"
      by (simp add: mac_bss_full_def mac_clear_slot_def upd_entry_def upd_ba_def)
    then show ?thesis by (simp add: mac_insert_full_def)
  qed
qed

lemma insert_if_new_ok:
  assumes "station_inv t" "mac_map t a = p" "unat apidx < HW_BEACON_MAX_NUM"
  shows "\<exists>q t'. insert_if_new a apidx p t = r_return (q, t') \<and> station_inv t' \<and>
    mac_map t' = (mac_map t)(a := q) \<and> (q = None \<longrightarrow> p = None \<and> mac_insert_full apidx t')"
proof (cases p)
  case None
  then obtain r t' where r: "MacTableInsertEntry a apidx True t = r_return (r, t')" "station_inv t'"
    "case r of None \<Rightarrow> mac_map t' = mac_map t \<and> mac_insert_full apidx t
     | Some i \<Rightarrow> mac_map t' = (mac_map t)(a \<mapsto> i) \<and> mac_first_free t = Some i \<and> fresh_client t' i a apidx"
    using station_insert [OF assms(1) _ assms(3), of a True] assms(2) by blast
  then have "mac_map t' = (mac_map t)(a := r)"
    using assms(2) None by (auto simp: fun_upd_idem split: option.splits)
  then show ?thesis using None r(1,2) insert_none_full [OF assms(1)] by (auto simp: insert_if_new_def)
next
  case (Some i)
  then show ?thesis using assms by (simp add: insert_if_new_def fun_upd_idem)
qed

subsection \<open>What the settings call for\<close>

text \<open>The answer to an authentication request, in terms of the settings of the network only.\<close>

datatype auth_verdict = Refused | Admitted | Challenged

definition acl_allows :: "acl \<Rightarrow> bytes \<Rightarrow> bool" where
  "acl_allows l a \<longleftrightarrow> acl_Policy l = 0 \<or> (acl_Policy l = 1 \<longleftrightarrow> a \<in> set (acl_Entry l))"

definition auth_verdict :: "mbss \<Rightarrow> acl \<Rightarrow> bytes \<Rightarrow> int \<Rightarrow> u16 \<Rightarrow> auth_verdict" where
  "auth_verdict m l a rssi Alg =
     (if auth_rssi_refused m rssi \<or> \<not> acl_allows l a then Refused
      else if Alg = AUTH_MODE_OPEN \<and> mb_AuthMode m \<noteq> AuthModeShared then Admitted
      else if Alg = AUTH_MODE_KEY \<and> mb_AuthMode m \<in> {AuthModeShared, AuthModeAutoSwitch} then Challenged
      else Refused)"

lemma acl_check: "ApCheckAccessControlList st a i = acl_allows (AccessControlList st ! i) a"
  by (auto simp: ApCheckAccessControlList_def acl_allows_def Let_def)

text \<open>The state of the station \<open>a\<close> after its request: unknown when it was refused or when there was no
  room for it, else in the state its algorithm calls for. Other stations are as before.\<close>

definition auth_effect :: "auth_verdict \<Rightarrow> u8 \<Rightarrow> bytes \<Rightarrow> bytes \<Rightarrow> ap_mlme \<Rightarrow> ap_mlme \<Rightarrow> bool" where
  "auth_effect v apidx a rnd st st' \<longleftrightarrow>
     (\<forall>b. b \<noteq> a \<longrightarrow> mac_map (ap_tab st') b = mac_map (ap_tab st) b) \<and>
     (case mac_map (ap_tab st') a of
        None \<Rightarrow> v \<noteq> Refused \<longrightarrow> mac_insert_full apidx (ap_tab st')
      | Some i \<Rightarrow> (case v of
          Refused \<Rightarrow> False
        | Admitted \<Rightarrow> Sst (Content (ap_tab st') ! i) = SST_AUTH \<and>
            AuthState (Content (ap_tab st') ! i) = AS_AUTH_OPEN
        | Challenged \<Rightarrow> Sst (Content (ap_tab st') ! i) = SST_NOT_AUTH \<and>
            AuthState (Content (ap_tab st') ! i) = AS_AUTHENTICATING \<and>
            ApMlmeAux_Addr st' = a \<and> ApMlmeAux_Challenge st' = rnd))"

lemma decide_ok:
  fixes st :: ap_mlme
  defines "t \<equiv> ap_tab st"
  assumes "station_inv t" "\<And>n. oks n = (True, True)" "mac_map t (mf_Addr2 (el_Frame el)) = p"
    "apidx < HW_BEACON_MAX_NUM"
  shows "\<exists>st'. auth_decide oks k rnd el apidx Alg Seq p st = r_return st' \<and> station_inv (ap_tab st') \<and>
    auth_effect (auth_verdict (MBSSID t ! apidx) (AccessControlList st ! apidx) (mf_Addr2 (el_Frame el))
      (el_Rssi el) Alg) (word_of_nat apidx) (mf_Addr2 (el_Frame el)) rnd st st'"
proof -
  let ?fr = "el_Frame el" and ?a = "mf_Addr2 (el_Frame el)" and ?m = "MBSSID t ! apidx"
  let ?v = "auth_verdict ?m (AccessControlList st ! apidx) ?a (el_Rssi el) Alg"
  let ?rsp = "APPeerAuthSimpleRspGenAndSend k ?fr Alg (Seq + 1)"
  have p: "p = None \<or> (\<exists>i. p = Some i \<and> mac_map t ?a = Some i)" using assms(4) by (cases p) auto
  have gone: "\<exists>t'. delete_station num oks p t1 = r_return t' \<and> station_inv t' \<and>
      mac_map t' = (mac_map t)(?a := None)"
    if "num = (\<lambda>e. unat (Aid e)) \<or> num = (\<lambda>e. unat (ent_wcid e))" "station_inv t1" "mac_map t1 = mac_map t" for num t1
    using delete_station_ok [where oks = oks, OF that(2) assms(3) _ that(1), of p ?a] p assms(4) that(3)
    by (auto simp: fun_upd_idem split: if_splits)
  obtain q t' where q: "insert_if_new ?a (word_of_nat apidx) p t = r_return (q, t')" "station_inv t'"
    "mac_map t' = (mac_map t)(?a := q)" "q = None \<longrightarrow> p = None \<and> mac_insert_full (word_of_nat apidx) t'"
    using insert_if_new_ok [OF assms(2,4), of "word_of_nat apidx"] assms(5)
    by (auto simp: unat_of_nat HW_BEACON_MAX_NUM_def)
  have li: "i < length (Content t')" if "q = Some i" for i
    using mac_map_slot [of t' ?a i] q(3) that mac_invD(1) [OF station_invD(1) [OF q(2)]]
    by (simp add: mac_slot_def)
  show ?thesis
  proof (cases ?v)
    case Refused
    have eff: "auth_effect Refused (word_of_nat apidx) ?a rnd st st'"
      if "mac_map (ap_tab st') = (mac_map t)(?a := None)" for st'
      using that by (simp add: auth_effect_def t_def)
    let ?t1 = "if AuthFailRssiThreshold ?m \<noteq> 0 \<and> el_Rssi el < AuthFailRssiThreshold ?m
               then ?rsp MLME_UNSPECIFY_FAIL t else t"
    have t1: "station_inv ?t1" "mac_map ?t1 = mac_map t" using assms(2) by simp_all
    obtain u1 where u1: "delete_station (\<lambda>e. unat (Aid e)) oks p ?t1 = r_return u1" "station_inv u1"
      "mac_map u1 = (mac_map t)(?a := None)" using gone [OF _ t1, of "\<lambda>e. unat (Aid e)"] by blast
    have "\<exists>u2. delete_station (\<lambda>e. unat (ent_wcid e)) oks p (?rsp c t) = r_return u2 \<and> station_inv u2 \<and>
        mac_map u2 = (mac_map t)(?a := None)" for c using gone assms(2) by simp
    then obtain u2 where u2: "\<And>c. delete_station (\<lambda>e. unat (ent_wcid e)) oks p (?rsp c t) = r_return (u2 c)"
      "\<And>c. station_inv (u2 c)" "\<And>c. mac_map (u2 c) = (mac_map t)(?a := None)" by metis
    have "\<exists>u. auth_decide oks k rnd el apidx Alg Seq p st = r_return (st\<lparr>ap_tab := u\<rparr>) \<and> station_inv u \<and>
        mac_map u = (mac_map t)(?a := None)"
    proof (cases "auth_rssi_refused ?m (el_Rssi el)")
      case True
      have "auth_decide oks k rnd el apidx Alg Seq p st = r_bind (delete_station (\<lambda>e. unat (Aid e)) oks p ?t1)
          (\<lambda>t1. r_return (st\<lparr>ap_tab := mac_emit (WirelessEvent ?a) t1\<rparr>))"
        using True unfolding auth_decide_def Let_def t_def by (simp only: if_True)
      then show ?thesis using u1 by (intro exI [of _ "mac_emit (WirelessEvent ?a) u1"]) simp
    next
      case False
      show ?thesis
      proof (cases "acl_allows (AccessControlList st ! apidx) ?a")
        case True
        then have "auth_decide oks k rnd el apidx Alg Seq p st = r_return (st\<lparr>ap_tab := u2 MLME_ALG_NOT_SUPPORT\<rparr>)"
          using False Refused u2(1) [of MLME_ALG_NOT_SUPPORT] unfolding t_def
          by (auto simp: auth_decide_def auth_verdict_def acl_check Let_def split: if_splits)
        then show ?thesis using u2(2,3) by blast
      next
        case no: False
        have "auth_decide oks k rnd el apidx Alg Seq p st =
            r_return (st\<lparr>ap_tab := mac_emit (WirelessEvent ?a) (u2 MLME_UNSPECIFY_FAIL)\<rparr>)"
          using False no u2(1) [of MLME_UNSPECIFY_FAIL] unfolding t_def
          by (simp add: auth_decide_def acl_check Let_def)
        then show ?thesis using u2(2,3) by (intro exI [of _ "mac_emit (WirelessEvent ?a) (u2 MLME_UNSPECIFY_FAIL)"]) simp
      qed
    qed
    then show ?thesis using Refused eff by auto
  next
    case Admitted
    let ?f = "\<lambda>e. e\<lparr>AuthState := AS_AUTH_OPEN, Sst := SST_AUTH\<rparr>"
    let ?t2 = "\<lambda>i. ?rsp MLME_SUCCESS (upd_entry i ?f t')"
    have f: "station_inv (?t2 i)" "mac_map (?t2 i) = mac_map t'" for i
      using touch_ok [OF q(2), of ?f i] by (simp_all add: mac_key_def)
    have run: "auth_decide oks k rnd el apidx Alg Seq p st =
        r_return (st\<lparr>ap_tab := (case q of None \<Rightarrow> t' | Some i \<Rightarrow> ?t2 i)\<rparr>)"
      using Admitted q(1) unfolding t_def
      by (auto simp: auth_decide_def auth_verdict_def acl_check Let_def split: if_splits option.splits)
    have "auth_effect Admitted (word_of_nat apidx) ?a rnd st (st\<lparr>ap_tab := (case q of None \<Rightarrow> t' | Some i \<Rightarrow> ?t2 i)\<rparr>)"
      using q(3,4) f(2) li by (auto simp: auth_effect_def t_def split: option.splits)
    then show ?thesis using Admitted run f(1) q(2) by (auto split: option.splits)
  next
    case Challenged
    let ?f = "\<lambda>e. e\<lparr>AuthState := AS_AUTHENTICATING, Sst := SST_NOT_AUTH\<rparr>"
    let ?t2 = "\<lambda>i. if k then mac_emit (SendChallenge ?a Alg (Seq + 1) rnd) (upd_entry i ?f t') else upd_entry i ?f t'"
    let ?st = "case q of None \<Rightarrow> st\<lparr>ap_tab := t'\<rparr>
      | Some i \<Rightarrow> st\<lparr>ApMlmeAux_Addr := ?a, ApMlmeAux_Challenge := rnd, ap_tab := ?t2 i\<rparr>"
    have f: "station_inv (?t2 i)" "mac_map (?t2 i) = mac_map t'" for i
      using touch_ok [OF q(2), of ?f i] by (simp_all add: mac_key_def)
    have run: "auth_decide oks k rnd el apidx Alg Seq p st = r_return ?st"
      using Challenged q(1) unfolding t_def
      by (auto simp: auth_decide_def auth_verdict_def acl_check Let_def split: if_splits option.splits)
    have "auth_effect Challenged (word_of_nat apidx) ?a rnd st ?st"
      using q(3,4) f(2) li by (auto simp: auth_effect_def t_def split: option.splits)
    then show ?thesis using Challenged run f(1) q(2) by (auto split: option.splits)
  qed
qed

subsection \<open>The invariant of the handlers\<close>

text \<open>Each entry, used or not, keeps the number of one of the 16 networks the arrays have room for.\<close>

definition apidx_ok :: "mac_tab \<Rightarrow> bool" where
  "apidx_ok t \<longleftrightarrow> (\<forall>i<length (Content t). unat (ent_apidx (Content t ! i)) < HW_BEACON_MAX_NUM)"

lemma apidx_upd [simp]:
  "apidx_ok t \<Longrightarrow> unat (ent_apidx (f (Content t ! i))) < HW_BEACON_MAX_NUM \<Longrightarrow> apidx_ok (upd_entry i f t)"
  by (cases "i < length (Content t)") (auto simp: apidx_ok_def nth_list_update list_update_beyond)

lemma apidx_same:
  "apidx_ok t \<Longrightarrow> (\<And>e. ent_apidx (f e) = ent_apidx e) \<Longrightarrow> apidx_ok (upd_entry i f t)"
  by (cases "i < length (Content t)") (auto simp: apidx_ok_def nth_list_update list_update_beyond)

lemma apidx_log [simp]:
  "apidx_ok (mac_emit ev t) = apidx_ok t" "apidx_ok (upd_ba g t) = apidx_ok t"
  "apidx_ok (t\<lparr>mt_ba := ba\<rparr>) = apidx_ok t" "apidx_ok (t\<lparr>TabSize := n\<rparr>) = apidx_ok t"
  "apidx_ok (t\<lparr>Hash := h\<rparr>) = apidx_ok t" "apidx_ok (t\<lparr>EntryClientCount := c\<rparr>) = apidx_ok t"
  "apidx_ok (upd_mbss j k t) = apidx_ok t" "apidx_ok (mac_dot1x_notify e t) = apidx_ok t"
  "apidx_ok (APPeerAuthSimpleRspGenAndSend kk fr Alg Seq code t) = apidx_ok t"
  by (simp_all add: apidx_ok_def APPeerAuthSimpleRspGenAndSend_def)

lemma apidx_append: "mac_hash_append i a t = r_return t' \<Longrightarrow> apidx_ok t \<Longrightarrow> apidx_ok t'"
  by (auto simp: mac_hash_append_def r_return_def intro!: apidx_same split: option.splits)

lemma apidx_remove: "mac_hash_remove i a t = r_return t' \<Longrightarrow> apidx_ok t \<Longrightarrow> apidx_ok t'"
  by (auto simp: mac_hash_remove_def Let_def r_return_def intro!: apidx_same split: option.splits)

lemma apidx_insert:
  assumes "MacTableInsertEntry a apidx om t = r_return (r, t')" "apidx_ok t" "unat apidx < HW_BEACON_MAX_NUM"
  shows "apidx_ok t'"
proof -
  have c: "apidx_ok (mac_clear_slot i t)" for i
    unfolding mac_clear_slot_def using assms(2) by (intro apidx_upd) (simp_all add: zero_entry_def HW_BEACON_MAX_NUM_def)
  have f: "apidx_ok (mac_fill_slot i a apidx om (mac_clear_slot i t))" for i
    using apidx_upd [OF c, of "mac_new_client i a apidx om (mac_clear_slot i t)" i i] assms(3)
    by (simp add: mac_fill_slot_def Let_def)
  consider "t' = t" | i where "t' = mac_clear_slot i t"
    | i where "mac_hash_append i a (mac_fill_slot i a apidx om (mac_clear_slot i t)) = r_return t'"
    using assms(1) by (auto simp only: MacTableInsertEntry_def Let_def r_bind_eq_return r_return_inject
        r_return_not_fault prod.inject split: if_split_asm option.split_asm)
  then show ?thesis by cases (use assms(2) c f apidx_append in blast)+
qed

lemma apidx_delete:
  assumes "MacTableDeleteEntry oks w a t = r_return (r, t')" "apidx_ok t"
  shows "apidx_ok t'"
proof (cases "MAX_LEN_OF_MAC_TABLE \<le> w \<or> EntryType (Content t ! w) = ENTRY_NONE \<or> Addr (Content t ! w) \<noteq> a")
  case True
  then show ?thesis using assms by (auto simp: MacTableDeleteEntry_def Let_def split: if_splits)
next
  case False
  show ?thesis
    by (cases "EntryType (Content t ! w) = ENTRY_CLIENT")
      (use assms False in \<open>auto simp: MacTableDeleteEntry_def Let_def r_bind_eq_return
         dest!: apidx_remove intro!: apidx_same split: if_split_asm\<close>)
qed

text \<open>The handlers keep the networks' settings as well, on which their guards rely.\<close>

definition ap_inv :: "ap_mlme \<Rightarrow> bool" where
  "ap_inv st \<longleftrightarrow> station_inv (ap_tab st) \<and> apidx_ok (ap_tab st) \<and> unat (BssidNum (ap_tab st)) \<le> HW_BEACON_MAX_NUM"

lemma ap_invD:
  assumes "ap_inv st"
  shows "station_inv (ap_tab st)" "apidx_ok (ap_tab st)" "unat (BssidNum (ap_tab st)) \<le> HW_BEACON_MAX_NUM"
  using assms by (simp_all add: ap_inv_def)

text \<open>A step that keeps the settings and the entries' networks.\<close>

definition keeps :: "mac_tab \<Rightarrow> mac_tab \<Rightarrow> bool" where
  "keeps t t' \<longleftrightarrow> net_conf t' = net_conf t \<and> (apidx_ok t \<longrightarrow> apidx_ok t')"

lemma keeps_refl [simp]: "keeps t t"
  by (simp add: keeps_def)

lemma keeps_trans: "keeps t t1 \<Longrightarrow> keeps t1 t2 \<Longrightarrow> keeps t t2"
  by (simp add: keeps_def)

lemma keeps_log [simp]:
  "keeps t (mac_emit ev t') = keeps t t'" "keeps t (mac_dot1x_notify e t') = keeps t t'"
  "keeps t (APPeerAuthSimpleRspGenAndSend k fr Alg Seq code t') = keeps t t'"
  "keeps t (t'\<lparr>mt_ba := ba\<rparr>) = keeps t t'"
  "keeps (mac_emit ev t) t' = keeps t t'" "keeps (mac_dot1x_notify e t) t' = keeps t t'"
  "keeps (APPeerAuthSimpleRspGenAndSend k fr Alg Seq code t) t' = keeps t t'"
  by (simp_all add: keeps_def)

lemma keeps_touch: "keeps t t' \<Longrightarrow> (\<And>e. ent_apidx (f e) = ent_apidx e) \<Longrightarrow> keeps t (upd_entry i f t')"
  by (simp add: keeps_def apidx_same)

lemma keeps_delete: "MacTableDeleteEntry oks w a t = r_return (r, t') \<Longrightarrow> keeps t t'"
  using conf_delete apidx_delete by (auto simp: keeps_def)

lemma keeps_delete_station: "delete_station num oks p t = r_return t' \<Longrightarrow> keeps t t'"
  by (auto simp: delete_station_def r_bind_eq_return dest: keeps_delete split: option.splits)

lemma keeps_known: "auth_known_station oks b i t = r_return (p, t') \<Longrightarrow> keeps t t'"
  by (auto simp: auth_known_station_def Let_def r_bind_eq_return intro!: keeps_touch dest: keeps_delete
      split: if_splits)

lemma keeps_insert_if_new:
  "insert_if_new a apidx p t = r_return (q, t') \<Longrightarrow> unat apidx < HW_BEACON_MAX_NUM \<Longrightarrow> keeps t t'"
  using conf_insert apidx_insert by (auto simp: insert_if_new_def keeps_def split: option.splits)

lemma keeps_decide:
  assumes "auth_decide oks k rnd el apidx Alg Seq p st = r_return st'" "apidx < HW_BEACON_MAX_NUM"
  shows "keeps (ap_tab st) (ap_tab st')"
proof -
  have "unat (word_of_nat apidx :: u8) < HW_BEACON_MAX_NUM"
    using assms(2) by (simp add: unat_of_nat HW_BEACON_MAX_NUM_def)
  then show ?thesis using assms(1)
    by (auto simp: auth_decide_def Let_def r_bind_eq_return keeps_touch
        dest!: keeps_delete_station keeps_insert_if_new split: if_splits option.splits)
qed

lemma keeps_confirm:
  assumes "auth_confirm oks k fr Alg Seq Chtxt p st = r_return st'"
  shows "keeps (ap_tab st) (ap_tab st')"
  using assms by (auto simp: auth_confirm_def Let_def r_bind_eq_return intro!: keeps_touch
      dest!: keeps_delete_station split: if_splits)

lemma ap_inv_keeps:
  assumes "ap_inv st" "keeps (ap_tab st) (ap_tab st')" "station_inv (ap_tab st')"
  shows "ap_inv st'"
  using assms confD(1) [of "ap_tab st'" "ap_tab st"] by (simp add: ap_inv_def keeps_def)

subsection \<open>The handlers\<close>

lemma request_ok:
  assumes "station_inv (ap_tab st)" "APPeerAuthSanity stack (el_Frame el) = Some (Alg, Seq, Status, Chtxt)"
    "get_apidx_by_addr (ap_tab st) (mf_Addr1 (el_Frame el)) = apidx"
    "apidx < unat (BssidNum (ap_tab st))" "unat (BssidNum (ap_tab st)) \<le> HW_BEACON_MAX_NUM"
    "mb_if_dev (MBSSID (ap_tab st) ! apidx) = Some True" "oks = (\<lambda>_. (True, True))"
  shows "\<exists>st'. APPeerAuthReqAtIdleAction oks k rnd stack el st = r_return st' \<and> station_inv (ap_tab st') \<and>
    auth_effect (auth_verdict (MBSSID (ap_tab st) ! apidx) (AccessControlList st ! apidx)
        (mf_Addr2 (el_Frame el)) (el_Rssi el) Alg)
      (word_of_nat apidx) (mf_Addr2 (el_Frame el)) rnd st st'"
proof -
  let ?t = "ap_tab st" and ?a = "mf_Addr2 (el_Frame el)" and ?b = "mf_Addr1 (el_Frame el)"
  have ok: "oks n = (True, True)" for n using assms(7) by simp
  have apidx: "apidx < HW_BEACON_MAX_NUM" using assms(4,5) by simp
  have look: "MacTableLookup ?t ?a = r_return (mac_map ?t ?a)" by (rule stations.look [OF assms(1)])
  let ?known = "\<lambda>p. case p of None \<Rightarrow> r_return (None, ?t) | Some i \<Rightarrow> auth_known_station oks ?b i ?t"
  obtain p t1 where p: "?known (mac_map ?t ?a) = r_return (p, t1)" "station_inv t1" "net_conf t1 = net_conf ?t"
    "mac_map t1 = (mac_map ?t)(?a := p)"
  proof (cases "mac_map ?t ?a")
    case None
    then show ?thesis using assms(1) that [of None ?t] by (simp add: fun_upd_idem)
  next
    case (Some i)
    note sl = mac_map_slot [OF Some]
    obtain p t1 where k: "auth_known_station oks ?b i ?t = r_return (p, t1)" "station_inv t1"
      "net_conf t1 = net_conf ?t"
      "case p of None \<Rightarrow> mac_map t1 = (mac_map ?t)(Addr (Content ?t ! i) := None) \<and> EntryType (Content ?t ! i) = ENTRY_CLIENT \<and>
           ?b \<noteq> mb_bssid (MBSSID ?t ! unat (ent_apidx (Content ?t ! i)))
       | Some j \<Rightarrow> j = i \<and> mac_map t1 = mac_map ?t \<and> (EntryType (Content ?t ! i) = ENTRY_CLIENT \<longrightarrow>
           no_sessions (mt_ba t1) i \<and> ?b = mb_bssid (MBSSID ?t ! unat (ent_apidx (Content ?t ! i))))"
      using known_ok [where oks = oks, OF assms(1) _ _ ok, of i ?b] sl(1) by (auto simp: mac_slot_def)
    have "mac_map t1 = (mac_map ?t)(?a := p)" using k(4) sl(2) Some by (auto simp: fun_upd_idem split: option.splits)
    then show ?thesis using that [of p t1] k(1-3) Some by simp
  qed
  let ?st1 = "st\<lparr>ap_tab := t1\<rparr>"
  have run: "APPeerAuthReqAtIdleAction oks k rnd stack el st = auth_decide oks k rnd el apidx Alg Seq p ?st1"
    unfolding APPeerAuthReqAtIdleAction_def Let_def
    using assms(2-4,6) apidx look p(1) by simp
  have m: "mac_map (ap_tab ?st1) ?a = p" using p(4) by simp
  obtain st' where d: "auth_decide oks k rnd el apidx Alg Seq p ?st1 = r_return st'" "station_inv (ap_tab st')"
    "auth_effect (auth_verdict (MBSSID t1 ! apidx) (AccessControlList st ! apidx) ?a (el_Rssi el) Alg)
      (word_of_nat apidx) ?a rnd ?st1 st'"
    using decide_ok [where oks = oks and st = ?st1 and k = k and rnd = rnd and Alg = Alg and Seq = Seq, OF _ ok m apidx] p(2)
    by auto
  have "length (MBSSID ?t) = HW_BEACON_MAX_NUM" by (rule mac_invD(3) [OF station_invD(1) [OF assms(1)]])
  then have "auth_verdict (MBSSID t1 ! apidx) = auth_verdict (MBSSID ?t ! apidx)"
    using confD(3,5) [OF p(3)] apidx by (auto simp: auth_verdict_def auth_rssi_refused_def fun_eq_iff)
  moreover have "auth_effect v n ?a rnd ?st1 st' = auth_effect v n ?a rnd st st'" for v n
    using p(4) by (simp add: auth_effect_def)
  ultimately show ?thesis using run d by auto
qed

lemma confirm_ok:
  assumes "station_inv (ap_tab st)" "APPeerAuthSanity stack (el_Frame el) = Some (Alg, Seq, Status, Chtxt)"
    "get_apidx_by_addr (ap_tab st) (mf_Addr1 (el_Frame el)) < unat (BssidNum (ap_tab st))"
    "unat (BssidNum (ap_tab st)) \<le> HW_BEACON_MAX_NUM" "oks = (\<lambda>_. (True, True))"
    "mb_if_dev (MBSSID (ap_tab st) ! get_apidx_by_addr (ap_tab st) (mf_Addr1 (el_Frame el))) \<noteq> Some False"
    "mac_map (ap_tab st) a = Some (el_Wcid el)"
  shows "\<exists>st'. APPeerAuthConfirmAction oks k stack el st = r_return st' \<and> station_inv (ap_tab st') \<and>
    (if (EntryType (Content (ap_tab st) ! el_Wcid el) = ENTRY_CLIENT \<longrightarrow> mf_Addr1 (el_Frame el) =
          mb_bssid (MBSSID (ap_tab st) ! unat (ent_apidx (Content (ap_tab st) ! el_Wcid el)))) \<and>
        mf_Addr2 (el_Frame el) = ApMlmeAux_Addr st \<and> mf_Wep (el_Frame el) \<and> Chtxt = ApMlmeAux_Challenge st
     then mac_map (ap_tab st') = mac_map (ap_tab st) \<and> Sst (Content (ap_tab st') ! el_Wcid el) = SST_AUTH \<and>
       AuthState (Content (ap_tab st') ! el_Wcid el) = AS_AUTH_KEY
     else mac_map (ap_tab st') = (mac_map (ap_tab st))(a := None))"
proof -
  let ?t = "ap_tab st" and ?fr = "el_Frame el" and ?i = "el_Wcid el"
  let ?b = "mb_bssid (MBSSID ?t ! unat (ent_apidx (Content ?t ! ?i)))"
  have ok: "oks n = (True, True)" for n using assms(5) by simp
  note sl = mac_map_slot [OF assms(7)]
  have i: "1 \<le> ?i" "?i < MAX_LEN_OF_MAC_TABLE" using sl(1) by (simp_all add: mac_slot_def)
  obtain p t1 where k: "auth_known_station oks (mf_Addr1 ?fr) ?i ?t = r_return (p, t1)" "station_inv t1"
    "case p of None \<Rightarrow> mac_map t1 = (mac_map ?t)(Addr (Content ?t ! ?i) := None) \<and>
         EntryType (Content ?t ! ?i) = ENTRY_CLIENT \<and> mf_Addr1 ?fr \<noteq> ?b
     | Some j \<Rightarrow> j = ?i \<and> mac_map t1 = mac_map ?t \<and> (EntryType (Content ?t ! ?i) = ENTRY_CLIENT \<longrightarrow>
         no_sessions (mt_ba t1) ?i \<and> mf_Addr1 ?fr = ?b)"
    using known_ok [where oks = oks, OF assms(1) i ok, of "mf_Addr1 ?fr"] by blast
  have "case p of None \<Rightarrow> mac_map t1 = (mac_map ?t)(a := None) \<and> EntryType (Content ?t ! ?i) = ENTRY_CLIENT \<and>
         mf_Addr1 ?fr \<noteq> ?b
     | Some j \<Rightarrow> j = ?i \<and> mac_map t1 = mac_map ?t \<and> (EntryType (Content ?t ! ?i) = ENTRY_CLIENT \<longrightarrow> mf_Addr1 ?fr = ?b)"
    using k(3) sl(2) by (simp split: option.splits)
  note p = k(1,2) this
  have run: "APPeerAuthConfirmAction oks k stack el st = auth_confirm oks k ?fr Alg Seq Chtxt p (st\<lparr>ap_tab := t1\<rparr>)"
    unfolding APPeerAuthConfirmAction_def Let_def using assms(2,3,4,6) i p(1) by simp
  show ?thesis
  proof (cases p)
    case None
    have ne: "EntryType (Content ?t ! ?i) = ENTRY_CLIENT" "mf_Addr1 ?fr \<noteq> ?b" using p(3) None by simp_all
    have "auth_confirm oks k ?fr Alg Seq Chtxt p (st\<lparr>ap_tab := t1\<rparr>) =
        r_return (st\<lparr>ap_tab := APPeerAuthSimpleRspGenAndSend k ?fr Alg (Seq + 1) MLME_UNSPECIFY_FAIL t1\<rparr>)"
      using None by (simp add: auth_confirm_def delete_station_def)
    then show ?thesis using run p(2,3) None ne by simp
  next
    case (Some j)
    then have j: "p = Some ?i" "mac_map t1 = mac_map ?t"
      "EntryType (Content ?t ! ?i) = ENTRY_CLIENT \<longrightarrow> mf_Addr1 ?fr = ?b" using p(3) by simp_all
    let ?rsp = "APPeerAuthSimpleRspGenAndSend k ?fr Alg (Seq + 1)"
    let ?good = "mf_Addr2 ?fr = ApMlmeAux_Addr st \<and> mf_Wep ?fr \<and> Chtxt = ApMlmeAux_Challenge st"
    show ?thesis
    proof (cases ?good)
      case True
      let ?f = "\<lambda>e. e\<lparr>AuthState := AS_AUTH_KEY, Sst := SST_AUTH\<rparr>"
      let ?t2 = "upd_entry ?i ?f (?rsp MLME_SUCCESS t1)"
      have "auth_confirm oks k ?fr Alg Seq Chtxt p (st\<lparr>ap_tab := t1\<rparr>) = r_return (st\<lparr>ap_tab := ?t2\<rparr>)"
        using True j(1) by (simp add: auth_confirm_def Let_def)
      moreover have "station_inv ?t2" "mac_map ?t2 = mac_map ?t"
        using touch_ok [of "?rsp MLME_SUCCESS t1" ?f ?i] p(2) j(2) by (simp_all add: mac_key_def)
      moreover have "?i < length (Content t1)" using i(2) mac_invD(1) [OF station_invD(1) [OF p(2)]] by simp
      ultimately show ?thesis using run True j(3) by simp
    next
      case False
      have m1: "mac_map t1 a = Some ?i" using j(2) assms(7) by simp
      let ?u = "if mf_Addr2 ?fr = ApMlmeAux_Addr st
        then ?rsp MLME_REJ_CHALLENGE_FAILURE (mac_emit (WirelessEvent (Addr (Content t1 ! ?i))) t1)
        else ?rsp MLME_UNSPECIFY_FAIL t1"
      have u: "station_inv ?u" "mac_map ?u = mac_map t1" using p(2) by simp_all
      obtain t2 where t2: "delete_station (\<lambda>e. unat (ent_wcid e)) oks p ?u = r_return t2" "station_inv t2"
        "mac_map t2 = (mac_map ?t)(a := None)"
        using delete_station_ok [where oks = oks, OF u(1) ok, of p a] u(2) m1 j(1,2) by auto
      have "auth_confirm oks k ?fr Alg Seq Chtxt p (st\<lparr>ap_tab := t1\<rparr>) = r_return (st\<lparr>ap_tab := t2\<rparr>)"
        using False j(1) t2(1) by (auto simp: auth_confirm_def Let_def)
      then show ?thesis using run False t2(2,3) by auto
    qed
  qed
qed


lemma deauth_ok:
  assumes "ap_inv st" "1 \<le> Wcid" "Wcid < MAX_LEN_OF_MAC_TABLE" "oks = (\<lambda>_. (True, True))"
  shows "\<exists>st1 st2. APPeerDeauthReqAction oks Wcid a st = r_return st1 \<and> ap_inv st1 \<and>
    APMlmeDeauthReqAction oks k Wcid a Reason st = r_return st2 \<and> ap_inv st2 \<and>
    mac_map (ap_tab st1) = mac_map (ap_tab st2) \<and>
    mac_map (ap_tab st1) = (if mac_map (ap_tab st) a = Some Wcid then (mac_map (ap_tab st))(a := None)
      else mac_map (ap_tab st))"
proof -
  let ?t = "ap_tab st" and ?e = "Content (ap_tab st) ! Wcid"
  note inv = ap_invD [OF assms(1)]
  have ok: "oks n = (True, True)" for n using assms(4) by simp
  have del: "\<exists>t'. MacTableDeleteEntry oks Wcid a t = r_return (True, t') \<and> station_inv t' \<and> keeps t t' \<and>
      mac_map t' = (if mac_map ?t a = Some Wcid then (mac_map ?t)(a := None) else mac_map ?t)"
    if "station_inv t" "mac_map t = mac_map ?t" for t
    using expel_ok [where oks = oks and a = a, OF that(1) assms(2,3) ok] that(2) keeps_delete by fastforce
  have ap: "\<not> HW_BEACON_MAX_NUM \<le> unat (ent_apidx ?e)"
    using inv(2) assms(3) mac_invD(1) [OF station_invD(1) [OF inv(1)]] by (simp add: apidx_ok_def not_le)
  obtain t1 where t1: "MacTableDeleteEntry oks Wcid a (mac_emit (WirelessEvent a) (mac_dot1x_notify ?e ?t)) = r_return (True, t1)"
    "station_inv t1" "keeps ?t t1" "mac_map t1 = (if mac_map ?t a = Some Wcid then (mac_map ?t)(a := None) else mac_map ?t)"
    using del [of "mac_emit (WirelessEvent a) (mac_dot1x_notify ?e ?t)"] inv(1) by auto
  obtain t2 where t2: "MacTableDeleteEntry oks Wcid a (mac_emit (WirelessEvent a) ?t) = r_return (True, t2)"
    "station_inv t2" "keeps ?t t2" "mac_map t2 = (if mac_map ?t a = Some Wcid then (mac_map ?t)(a := None) else mac_map ?t)"
    using del [of "mac_emit (WirelessEvent a) ?t"] inv(1) by auto
  let ?st1 = "(if CMTimerRunning ?e then st\<lparr>aMICFailTime := PrevaMICFailTime st\<rparr> else st)\<lparr>ap_tab := t1\<rparr>"
  let ?st2 = "st\<lparr>ap_tab := (if k then mac_emit (SendDeauth a Reason) t2 else t2)\<rparr>"
  have "APPeerDeauthReqAction oks Wcid a st = r_return ?st1"
    using assms(3) ap t1(1) by (simp add: APPeerDeauthReqAction_def Let_def)
  moreover have "APMlmeDeauthReqAction oks k Wcid a Reason st = r_return ?st2"
    using assms(3) ap t2(1) by (simp add: APMlmeDeauthReqAction_def)
  moreover have "ap_inv ?st1" by (rule ap_inv_keeps [OF assms(1)]) (use t1(2,3) in simp_all)
  moreover have "ap_inv ?st2" by (rule ap_inv_keeps [OF assms(1)]) (use t2(2,3) in simp_all)
  ultimately show ?thesis using t1(4) t2(4) by (intro exI [of _ ?st1] exI [of _ ?st2]) simp
qed

subsection \<open>Properties of the handlers\<close>


text \<open>C29: the third frame of the shared-key exchange authenticates a station exactly when it is sent to
  the network of the station's entry, comes from the address that was challenged last, was encrypted,
  and returns the challenge; in every other case the station is no longer known afterwards.\<close>

theorem auth_confirm_outcome:
  assumes "station_inv (ap_tab st)" "APPeerAuthSanity stack (el_Frame el) = Some (Alg, Seq, Status, Chtxt)"
    "get_apidx_by_addr (ap_tab st) (mf_Addr1 (el_Frame el)) < unat (BssidNum (ap_tab st))"
    "unat (BssidNum (ap_tab st)) \<le> HW_BEACON_MAX_NUM" "oks = (\<lambda>_. (True, True))"
    "mb_if_dev (MBSSID (ap_tab st) ! get_apidx_by_addr (ap_tab st) (mf_Addr1 (el_Frame el))) \<noteq> Some False"
    "mac_map (ap_tab st) a = Some (el_Wcid el)" "EntryType (Content (ap_tab st) ! el_Wcid el) = ENTRY_CLIENT"
  shows "\<exists>st'. APPeerAuthConfirmAction oks k stack el st = r_return st' \<and> station_inv (ap_tab st') \<and>
    (if mf_Addr1 (el_Frame el) =
          mb_bssid (MBSSID (ap_tab st) ! unat (ent_apidx (Content (ap_tab st) ! el_Wcid el))) \<and>
        mf_Addr2 (el_Frame el) = ApMlmeAux_Addr st \<and> mf_Wep (el_Frame el) \<and> Chtxt = ApMlmeAux_Challenge st
     then mac_map (ap_tab st') = mac_map (ap_tab st) \<and> Sst (Content (ap_tab st') ! el_Wcid el) = SST_AUTH \<and>
       AuthState (Content (ap_tab st') ! el_Wcid el) = AS_AUTH_KEY
     else mac_map (ap_tab st') = (mac_map (ap_tab st))(a := None))"
  using confirm_ok [OF assms(1-7)] assms(8) by simp

text \<open>A deauthentication, received or requested from above, makes the station unknown when it has the
  number and the address of an entry, and changes no other entry; with another number or address it
  changes none at all.\<close>

theorem deauth_forgets_station:
  assumes "ap_inv st" "1 \<le> Wcid" "Wcid < MAX_LEN_OF_MAC_TABLE" "oks = (\<lambda>_. (True, True))"
  shows "\<exists>st1 st2. APPeerDeauthReqAction oks Wcid a st = r_return st1 \<and> ap_inv st1 \<and>
    APMlmeDeauthReqAction oks k Wcid a Reason st = r_return st2 \<and> ap_inv st2 \<and>
    mac_map (ap_tab st1) = mac_map (ap_tab st2) \<and>
    mac_map (ap_tab st1) = (if mac_map (ap_tab st) a = Some Wcid then (mac_map (ap_tab st))(a := None)
      else mac_map (ap_tab st))"
  by (rule deauth_ok [OF assms])

subsection \<open>Runs of the handlers\<close>

datatype ap_auth_input =
    AuthRequest "nat \<Rightarrow> bool \<times> bool" bool bytes bytes mlme_elem
  | AuthConfirm "nat \<Rightarrow> bool \<times> bool" bool bytes mlme_elem
  | DeauthFrame "nat \<Rightarrow> bool \<times> bool" nat bytes
  | DeauthRequest "nat \<Rightarrow> bool \<times> bool" bool nat bytes u16
  | Class2Error "nat \<Rightarrow> bool \<times> bool" bool nat bytes bytes

fun ap_auth_exec :: "ap_auth_input \<Rightarrow> ap_mlme \<Rightarrow> ap_mlme run" where
  "ap_auth_exec (AuthRequest oks k rnd stack el) st = APPeerAuthReqAtIdleAction oks k rnd stack el st"
| "ap_auth_exec (AuthConfirm oks k stack el) st = APPeerAuthConfirmAction oks k stack el st"
| "ap_auth_exec (DeauthFrame oks w a) st = APPeerDeauthReqAction oks w a st"
| "ap_auth_exec (DeauthRequest oks k w a r) st = APMlmeDeauthReqAction oks k w a r st"
| "ap_auth_exec (Class2Error oks k w b a) st = APCls2errAction oks k w b a st"

text \<open>
  Memory suffices for the frames that end sessions; the number of the multicast entry and, in the third
  frame of the shared-key exchange, the number of an unused entry are not a station's.
\<close>

fun ap_auth_input_ok :: "ap_mlme \<Rightarrow> ap_auth_input \<Rightarrow> bool" where
  "ap_auth_input_ok st (AuthRequest oks k rnd stack el) \<longleftrightarrow> oks = (\<lambda>_. (True, True))"
| "ap_auth_input_ok st (AuthConfirm oks k stack el) \<longleftrightarrow> oks = (\<lambda>_. (True, True)) \<and> 1 \<le> el_Wcid el \<and>
     (el_Wcid el < MAX_LEN_OF_MAC_TABLE \<longrightarrow> EntryType (Content (ap_tab st) ! el_Wcid el) \<noteq> ENTRY_NONE)"
| "ap_auth_input_ok st (DeauthFrame oks w a) \<longleftrightarrow> oks = (\<lambda>_. (True, True)) \<and> 1 \<le> w"
| "ap_auth_input_ok st (DeauthRequest oks k w a r) \<longleftrightarrow> oks = (\<lambda>_. (True, True)) \<and> 1 \<le> w"
| "ap_auth_input_ok st (Class2Error oks k w b a) \<longleftrightarrow> oks = (\<lambda>_. (True, True)) \<and> 1 \<le> w"

inductive ap_auth_steps :: "ap_mlme \<Rightarrow> ap_auth_input list \<Rightarrow> ap_mlme \<Rightarrow> bool" where
  start: "ap_auth_steps st [] st"
| step: "ap_auth_steps st inputs st1 \<Longrightarrow> ap_auth_input_ok st1 i \<Longrightarrow> ap_auth_exec i st1 = r_return st2 \<Longrightarrow>
    ap_auth_steps st (inputs @ [i]) st2"

lemma request_inv:
  assumes "ap_inv st" "oks = (\<lambda>_. (True, True))"
  shows "\<exists>st'. APPeerAuthReqAtIdleAction oks k rnd stack el st = r_return st' \<and> ap_inv st'"
proof -
  let ?t = "ap_tab st" and ?i = "get_apidx_by_addr (ap_tab st) (mf_Addr1 (el_Frame el))"
  note inv = ap_invD [OF assms(1)]
  have keep: "keeps ?t (ap_tab st')"
    if "APPeerAuthReqAtIdleAction oks k rnd stack el st = r_return st'" for st'
  proof -
    have "keeps ?t (ap_tab st')" if h: "?i < HW_BEACON_MAX_NUM"
      "auth_decide oks k rnd el ?i Alg Seq p (st\<lparr>ap_tab := t1\<rparr>) = r_return st'" "keeps ?t t1" for Alg Seq p t1
      using keeps_trans [OF h(3)] keeps_decide [OF h(2,1)] by simp
    then show ?thesis using that
      by (auto simp: APPeerAuthReqAtIdleAction_def Let_def r_bind_eq_return not_le dest!: keeps_known
          dest: keeps_decide split: if_splits option.splits prod.splits)
  qed
  have "\<exists>st'. APPeerAuthReqAtIdleAction oks k rnd stack el st = r_return st' \<and> station_inv (ap_tab st')"
  proof (cases "APPeerAuthSanity stack (el_Frame el) = None \<or> unat (BssidNum ?t) \<le> ?i \<or>
      mb_if_dev (MBSSID ?t ! ?i) \<noteq> Some True")
    case True
    then show ?thesis using inv(1,3) by (auto simp: APPeerAuthReqAtIdleAction_def Let_def split: option.split)
  next
    case False
    then obtain Alg Seq Status Ch where "APPeerAuthSanity stack (el_Frame el) = Some (Alg, Seq, Status, Ch)" by auto
    then show ?thesis using request_ok [OF inv(1) _ refl _ inv(3) _ assms(2)] False by fastforce
  qed
  then show ?thesis using ap_inv_keeps [OF assms(1) keep] by blast
qed

lemma confirm_inv:
  assumes "ap_inv st" "oks = (\<lambda>_. (True, True))" "1 \<le> el_Wcid el"
    "el_Wcid el < MAX_LEN_OF_MAC_TABLE \<longrightarrow> EntryType (Content (ap_tab st) ! el_Wcid el) \<noteq> ENTRY_NONE"
  shows "\<exists>st'. APPeerAuthConfirmAction oks k stack el st = r_return st' \<and> ap_inv st'"
proof -
  let ?t = "ap_tab st" and ?i = "get_apidx_by_addr (ap_tab st) (mf_Addr1 (el_Frame el))"
  note inv = ap_invD [OF assms(1)]
  have keep: "keeps ?t (ap_tab st')" if "APPeerAuthConfirmAction oks k stack el st = r_return st'" for st'
  proof -
    have "keeps ?t (ap_tab st')" if h: "keeps ?t t1"
      "auth_confirm oks k (el_Frame el) Alg Seq Ch p (st\<lparr>ap_tab := t1\<rparr>) = r_return st'" for Alg Seq Ch p t1
      using keeps_trans [OF h(1)] keeps_confirm [OF h(2)] by simp
    then show ?thesis using that
      by (auto simp: APPeerAuthConfirmAction_def Let_def r_bind_eq_return dest!: keeps_known
          split: if_splits option.splits)
  qed
  have "\<exists>st'. APPeerAuthConfirmAction oks k stack el st = r_return st' \<and> station_inv (ap_tab st')"
  proof (cases "APPeerAuthSanity stack (el_Frame el) = None \<or> unat (BssidNum ?t) \<le> ?i \<or>
      mb_if_dev (MBSSID ?t ! ?i) = Some False \<or> MAX_LEN_OF_MAC_TABLE \<le> el_Wcid el")
    case True
    then show ?thesis using inv(1,3) by (auto simp: APPeerAuthConfirmAction_def Let_def split: option.split)
  next
    case False
    then obtain Alg Seq Status Ch where s: "APPeerAuthSanity stack (el_Frame el) = Some (Alg, Seq, Status, Ch)" by auto
    have "mac_slot (Content ?t) (el_Wcid el)" using False assms(3,4) by (simp add: mac_slot_def)
    then have "mac_map ?t (Addr (Content ?t ! el_Wcid el)) = Some (el_Wcid el)"
      using mac_map_Some [OF station_invD(1) [OF inv(1)]] by simp
    then show ?thesis using confirm_ok [OF inv(1) s _ inv(3) assms(2)] False by fastforce
  qed
  then show ?thesis using ap_inv_keeps [OF assms(1) keep] by blast
qed

lemma class2_inv:
  assumes "ap_inv st" "oks = (\<lambda>_. (True, True))" "1 \<le> w"
  shows "\<exists>st'. APCls2errAction oks k w b a st = r_return st' \<and> ap_inv st'"
proof (cases "w < MAX_LEN_OF_MAC_TABLE \<and> EntryType (Content (ap_tab st) ! w) = ENTRY_CLIENT")
  case True
  note inv = ap_invD [OF assms(1)]
  have ok: "oks n = (True, True)" for n using assms(2) by simp
  have "unat (ent_wcid (Content (ap_tab st) ! w)) = w"
    using mac_invD(7) [OF station_invD(1) [OF inv(1)]] True assms(3) by (simp add: mac_slot_def)
  moreover obtain t' where "MacTableDeleteEntry oks w a (ap_tab st) = r_return (True, t')" "station_inv t'"
    using expel_ok [where oks = oks, OF inv(1) assms(3) _ ok, of a] True by blast
  ultimately show ?thesis using True assms(1) keeps_delete [of oks w a "ap_tab st" True t']
      ap_inv_keeps [OF assms(1)] by (simp add: APCls2errAction_def Let_def)
next
  case False
  then show ?thesis using assms(1) ap_inv_keeps [OF assms(1)] ap_invD(1) [OF assms(1)]
    by (auto simp: APCls2errAction_def Let_def)
qed

lemma auth_exec_inv:
  assumes "ap_inv st" "ap_auth_input_ok st i"
  shows "\<exists>st'. ap_auth_exec i st = r_return st' \<and> ap_inv st'"
proof (cases i)
  case (DeauthFrame oks w a)
  then show ?thesis using assms deauth_ok [of st w oks a]
    by (cases "w < MAX_LEN_OF_MAC_TABLE") (auto simp: APPeerDeauthReqAction_def)
next
  case (DeauthRequest oks k w a r)
  then show ?thesis using assms deauth_ok [of st w oks a k r]
    by (cases "w < MAX_LEN_OF_MAC_TABLE") (auto simp: APMlmeDeauthReqAction_def)
qed (use assms request_inv confirm_inv class2_inv in simp_all)


subsection \<open>A concrete access point\<close>

definition sample_ap :: ap_mlme where
  "sample_ap = \<lparr>ap_tab = sample_busy_table, ApMlmeAux_Addr = [2, 0, 0, 0, 0, 9],
     ApMlmeAux_Challenge = replicate CIPHER_TEXT_LEN 7, AccessControlList = replicate HW_BEACON_MAX_NUM
       \<lparr>acl_Policy = 0, acl_Entry = []\<rparr>, aMICFailTime = 0, PrevaMICFailTime = 0\<rparr>"

definition sample_frame :: "bytes \<Rightarrow> mlme_elem" where
  "sample_frame body = \<lparr>el_Wcid = 1, el_Frame = \<lparr>mf_Addr1 = [2, 0, 0, 0, 0, 1], mf_Addr2 = [2, 0, 0, 0, 0, 9],
     mf_Wep = True, mf_Octet = body\<rparr>, el_Rssi = -50\<rparr>"

abbreviation open_frame :: mlme_elem where "open_frame \<equiv> sample_frame [0, 0, 1, 0, 0, 0]"
abbreviation third_frame :: mlme_elem where
  "third_frame \<equiv> sample_frame ([1, 0, 3, 0, 0, 0, 16, 128] @ replicate CIPHER_TEXT_LEN 7)"

lemma sample_ap_simps [simp]:
  "ap_tab sample_ap = sample_busy_table" "BssidNum sample_busy_table = 1"
  "mb_if_dev (MBSSID sample_busy_table ! 0) = Some True"
  "get_apidx_by_addr sample_busy_table [2, 0, 0, 0, 0, 1] = 0"
  "EntryType (Content sample_busy_table ! 1) = ENTRY_CLIENT"
  "el_Wcid (sample_frame bs) = 1" "mf_Addr1 (el_Frame (sample_frame bs)) = [2, 0, 0, 0, 0, 1]"
  by (simp_all add: sample_ap_def sample_busy_table_def sample_table_def sample_mbss_def get_apidx_by_addr_def
      sample_frame_def zero_entry_def table_len HW_BEACON_MAX_NUM_def)

lemma sample_sanity:
  "APPeerAuthSanity stack (el_Frame open_frame) = Some (AUTH_MODE_OPEN, 1, 0, stack)"
  "APPeerAuthSanity stack (el_Frame third_frame) = Some (AUTH_MODE_KEY, 3, 0, replicate CIPHER_TEXT_LEN 7)"
  by (simp_all add: APPeerAuthSanity_def sample_frame_def octet16_def AUTH_MODE_OPEN_def AUTH_MODE_KEY_def
      slice_at_def CIPHER_TEXT_LEN_def)

lemma sample_ap_inv: "ap_inv sample_ap"
proof -
  have "apidx_ok sample_busy_table"
    by (auto simp: apidx_ok_def sample_busy_table_def sample_table_def zero_entry_def nth_list_update
        HW_BEACON_MAX_NUM_def table_len)
  then show ?thesis using sample_busy_table_ok(1) by (simp add: ap_inv_def HW_BEACON_MAX_NUM_def)
qed


lemma auth_confirm_outcome_witness:
  "\<exists>st'. APPeerAuthConfirmAction (\<lambda>_. (True, True)) True [] third_frame sample_ap = r_return st' \<and>
    station_inv (ap_tab st') \<and>
    (if mf_Addr1 (el_Frame third_frame) =
          mb_bssid (MBSSID (ap_tab sample_ap) ! unat (ent_apidx (Content (ap_tab sample_ap) ! el_Wcid third_frame))) \<and>
        mf_Addr2 (el_Frame third_frame) = ApMlmeAux_Addr sample_ap \<and> mf_Wep (el_Frame third_frame) \<and>
        replicate CIPHER_TEXT_LEN 7 = ApMlmeAux_Challenge sample_ap
     then mac_map (ap_tab st') = mac_map (ap_tab sample_ap) \<and>
       Sst (Content (ap_tab st') ! el_Wcid third_frame) = SST_AUTH \<and>
       AuthState (Content (ap_tab st') ! el_Wcid third_frame) = AS_AUTH_KEY
     else mac_map (ap_tab st') = (mac_map (ap_tab sample_ap))([2, 0, 0, 0, 0, 9] := None))"
  by (rule auth_confirm_outcome [OF _ sample_sanity(2)])
    (simp_all add: sample_busy_table_ok [simplified] HW_BEACON_MAX_NUM_def del: One_nat_def)

lemma deauth_forgets_station_witness:
  "\<exists>st1 st2. APPeerDeauthReqAction (\<lambda>_. (True, True)) 1 [2, 0, 0, 0, 0, 9] sample_ap = r_return st1 \<and> ap_inv st1 \<and>
    APMlmeDeauthReqAction (\<lambda>_. (True, True)) True 1 [2, 0, 0, 0, 0, 9] 2 sample_ap = r_return st2 \<and> ap_inv st2 \<and>
    mac_map (ap_tab st1) = mac_map (ap_tab st2) \<and>
    mac_map (ap_tab st1) = (if mac_map (ap_tab sample_ap) [2, 0, 0, 0, 0, 9] = Some 1
      then (mac_map (ap_tab sample_ap))([2, 0, 0, 0, 0, 9] := None) else mac_map (ap_tab sample_ap))"
  by (rule deauth_forgets_station [OF sample_ap_inv]) (simp_all add: table_len)


end
