(* ===== verification/Fifo.thy ===== *)
theory Fifo
  imports Prelude
begin

text \<open>
  The interface of the driver's bounded queues: what those who put something in and those who take it
  out rely on. The ring of management messages and the queue of expired timers provide it.
\<close>

subsection \<open>The interface: a bounded queue\<close>

text \<open>
  A message that is taken is appended, it is taken exactly when
  there is room, and messages leave in the order they came.
\<close>

locale bounded_fifo =
  fixes inv :: "'q \<Rightarrow> bool" and abs :: "'q \<Rightarrow> 'm list" and cap :: nat and fits :: "'m \<Rightarrow> bool"
    and put :: "'m \<Rightarrow> 'q \<Rightarrow> bool \<times> 'q" and get :: "'q \<Rightarrow> 'm \<times> 'q"
  assumes put: "inv q \<Longrightarrow> fits m \<Longrightarrow> fst (put m q) = (length (abs q) < cap)"
    "inv q \<Longrightarrow> fits m \<Longrightarrow> inv (snd (put m q))"
    "inv q \<Longrightarrow> fits m \<Longrightarrow> abs (snd (put m q)) = (if length (abs q) < cap then abs q @ [m] else abs q)"
    and get: "inv q \<Longrightarrow> abs q \<noteq> [] \<Longrightarrow> fst (get q) = hd (abs q)"
    "inv q \<Longrightarrow> abs q \<noteq> [] \<Longrightarrow> inv (snd (get q))"
    "inv q \<Longrightarrow> abs q \<noteq> [] \<Longrightarrow> abs (snd (get q)) = tl (abs q)"
begin

lemma puts:
  assumes "inv q" "length (abs q) + length ms \<le> cap" "\<forall>m\<in>set ms. fits m"
  shows "inv (foldl (\<lambda>q m. snd (put m q)) q ms) \<and> abs (foldl (\<lambda>q m. snd (put m q)) q ms) = abs q @ ms"
  using assms
proof (induction ms arbitrary: q)
  case (Cons m ms)
  have "abs (snd (put m q)) = abs q @ [m]" "inv (snd (put m q))" using put(2,3) [of q m] Cons.prems by simp_all
  then show ?case using Cons.IH [of "snd (put m q)"] Cons.prems by simp
qed simp

lemma gets:
  assumes "inv q" "n \<le> length (abs q)"
  shows "inv (((\<lambda>q. snd (get q)) ^^ n) q) \<and> abs (((\<lambda>q. snd (get q)) ^^ n) q) = drop n (abs q) \<and>
    (\<forall>i<n. fst (get (((\<lambda>q. snd (get q)) ^^ i) q)) = abs q ! i)"
  using assms(2)
proof (induction n)
  case 0
  then show ?case using assms(1) by simp
next
  case (Suc n)
  let ?q = "((\<lambda>q. snd (get q)) ^^ n) q"
  have ih: "inv ?q" "abs ?q = drop n (abs q)" "\<forall>i<n. fst (get (((\<lambda>q. snd (get q)) ^^ i) q)) = abs q ! i"
    using Suc by simp_all
  have ne: "abs ?q \<noteq> []" using ih(2) Suc.prems by simp
  have "fst (get ?q) = abs q ! n" using get(1) [OF ih(1) ne] ih(2) Suc.prems by (simp add: hd_drop_conv_nth)
  then show ?case using get(2,3) [OF ih(1) ne] ih by (auto simp: less_Suc_eq drop_Suc tl_drop)
qed

end

end
