(* ===== verification/MlmeFrames.thy ===== *)
theory MlmeFrames
  imports Prelude
begin

text \<open>
  How a received frame finds its state machine: the numbers of machines and message types of
  \<^verbatim>\<open>include/rtmp_def.h\<close>, and the classification of frames in \<^verbatim>\<open>common/mlme.c\<close> (station),
  \<^verbatim>\<open>ap/ap_mlme.c\<close> (access point) and \<^verbatim>\<open>common/cmm_wpa.c\<close> (EAPOL frames). Message types are numbered
  from 0 in each machine.
\<close>

subsection \<open>Numbers\<close>

named_theorems mlme_numbers

definition ASSOC_STATE_MACHINE :: nat where [mlme_numbers]: "ASSOC_STATE_MACHINE = 1"
definition AUTH_STATE_MACHINE :: nat where [mlme_numbers]: "AUTH_STATE_MACHINE = 2"
definition AUTH_RSP_STATE_MACHINE :: nat where [mlme_numbers]: "AUTH_RSP_STATE_MACHINE = 3"
definition SYNC_STATE_MACHINE :: nat where [mlme_numbers]: "SYNC_STATE_MACHINE = 4"
definition MLME_CNTL_STATE_MACHINE :: nat where [mlme_numbers]: "MLME_CNTL_STATE_MACHINE = 5"
definition WPA_PSK_STATE_MACHINE :: nat where [mlme_numbers]: "WPA_PSK_STATE_MACHINE = 6"
definition ACTION_STATE_MACHINE :: nat where [mlme_numbers]: "ACTION_STATE_MACHINE = 9"
definition AP_ASSOC_STATE_MACHINE :: nat where [mlme_numbers]: "AP_ASSOC_STATE_MACHINE = 11"
definition AP_AUTH_STATE_MACHINE :: nat where [mlme_numbers]: "AP_AUTH_STATE_MACHINE = 12"
definition AP_SYNC_STATE_MACHINE :: nat where [mlme_numbers]: "AP_SYNC_STATE_MACHINE = 14"
definition WPA_STATE_MACHINE :: nat where [mlme_numbers]: "WPA_STATE_MACHINE = 23"

text \<open>Station: association, authentication, its answers, synchronisation.\<close>

definition MT2_MLME_ASSOC_REQ :: nat where [mlme_numbers]: "MT2_MLME_ASSOC_REQ = 0"
definition MT2_MLME_REASSOC_REQ :: nat where [mlme_numbers]: "MT2_MLME_REASSOC_REQ = 1"
definition MT2_MLME_DISASSOC_REQ :: nat where [mlme_numbers]: "MT2_MLME_DISASSOC_REQ = 2"
definition MT2_PEER_DISASSOC_REQ :: nat where [mlme_numbers]: "MT2_PEER_DISASSOC_REQ = 3"
definition MT2_PEER_ASSOC_REQ :: nat where [mlme_numbers]: "MT2_PEER_ASSOC_REQ = 4"
definition MT2_PEER_ASSOC_RSP :: nat where [mlme_numbers]: "MT2_PEER_ASSOC_RSP = 5"
definition MT2_PEER_REASSOC_REQ :: nat where [mlme_numbers]: "MT2_PEER_REASSOC_REQ = 6"
definition MT2_PEER_REASSOC_RSP :: nat where [mlme_numbers]: "MT2_PEER_REASSOC_RSP = 7"
definition MT2_DISASSOC_TIMEOUT :: nat where [mlme_numbers]: "MT2_DISASSOC_TIMEOUT = 8"
definition MT2_ASSOC_TIMEOUT :: nat where [mlme_numbers]: "MT2_ASSOC_TIMEOUT = 9"
definition MT2_REASSOC_TIMEOUT :: nat where [mlme_numbers]: "MT2_REASSOC_TIMEOUT = 10"
definition MAX_ASSOC_MSG :: nat where [mlme_numbers]: "MAX_ASSOC_MSG = 11"

definition MT2_MLME_AUTH_REQ :: nat where [mlme_numbers]: "MT2_MLME_AUTH_REQ = 0"
definition MT2_PEER_AUTH_EVEN :: nat where [mlme_numbers]: "MT2_PEER_AUTH_EVEN = 1"
definition MT2_AUTH_TIMEOUT :: nat where [mlme_numbers]: "MT2_AUTH_TIMEOUT = 2"
definition MAX_AUTH_MSG :: nat where [mlme_numbers]: "MAX_AUTH_MSG = 3"

definition MT2_PEER_AUTH_ODD :: nat where [mlme_numbers]: "MT2_PEER_AUTH_ODD = 1"
definition MT2_PEER_DEAUTH :: nat where [mlme_numbers]: "MT2_PEER_DEAUTH = 2"
definition MAX_AUTH_RSP_MSG :: nat where [mlme_numbers]: "MAX_AUTH_RSP_MSG = 3"

definition MT2_MLME_SCAN_REQ :: nat where [mlme_numbers]: "MT2_MLME_SCAN_REQ = 0"
definition MT2_MLME_JOIN_REQ :: nat where [mlme_numbers]: "MT2_MLME_JOIN_REQ = 1"
definition MT2_MLME_START_REQ :: nat where [mlme_numbers]: "MT2_MLME_START_REQ = 2"
definition MT2_PEER_BEACON :: nat where [mlme_numbers]: "MT2_PEER_BEACON = 3"
definition MT2_PEER_PROBE_RSP :: nat where [mlme_numbers]: "MT2_PEER_PROBE_RSP = 4"
definition MT2_PEER_ATIM :: nat where [mlme_numbers]: "MT2_PEER_ATIM = 5"
definition MT2_SCAN_TIMEOUT :: nat where [mlme_numbers]: "MT2_SCAN_TIMEOUT = 6"
definition MT2_BEACON_TIMEOUT :: nat where [mlme_numbers]: "MT2_BEACON_TIMEOUT = 7"
definition MT2_PEER_PROBE_REQ :: nat where [mlme_numbers]: "MT2_PEER_PROBE_REQ = 9"
definition MT2_MLME_FORCE_JOIN_REQ :: nat where [mlme_numbers]: "MT2_MLME_FORCE_JOIN_REQ = 10"
definition MT2_MLME_FORCE_SCAN_REQ :: nat where [mlme_numbers]: "MT2_MLME_FORCE_SCAN_REQ = 11"
definition MAX_SYNC_MSG :: nat where [mlme_numbers]: "MAX_SYNC_MSG = 12"

text \<open>Confirmations to the station's control machine.\<close>

definition MT2_DISASSOC_CONF :: nat where [mlme_numbers]: "MT2_DISASSOC_CONF = 37"
definition MT2_SCAN_CONF :: nat where [mlme_numbers]: "MT2_SCAN_CONF = 41"
definition MT2_RESET_CONF :: nat where [mlme_numbers]: "MT2_RESET_CONF = 45"

text \<open>Action frames: the types from the air are the category codes of the standard.\<close>

definition MT2_PEER_SPECTRUM_CATE :: nat where [mlme_numbers]: "MT2_PEER_SPECTRUM_CATE = 0"
definition MT2_PEER_QOS_CATE :: nat where [mlme_numbers]: "MT2_PEER_QOS_CATE = 1"
definition MT2_PEER_DLS_CATE :: nat where [mlme_numbers]: "MT2_PEER_DLS_CATE = 2"
definition MT2_PEER_BA_CATE :: nat where [mlme_numbers]: "MT2_PEER_BA_CATE = 3"
definition MT2_PEER_PUBLIC_CATE :: nat where [mlme_numbers]: "MT2_PEER_PUBLIC_CATE = 4"
definition MT2_PEER_RM_CATE :: nat where [mlme_numbers]: "MT2_PEER_RM_CATE = 5"
definition MT2_PEER_HT_CATE :: nat where [mlme_numbers]: "MT2_PEER_HT_CATE = 7"
definition MT2_PEER_VHT_CATE :: nat where [mlme_numbers]: "MT2_PEER_VHT_CATE = 21"
definition MAX_PEER_CATE_MSG :: nat where [mlme_numbers]: "MAX_PEER_CATE_MSG = 21"
definition MT2_MLME_ADD_BA_CATE :: nat where [mlme_numbers]: "MT2_MLME_ADD_BA_CATE = 22"
definition MT2_MLME_ORI_DELBA_CATE :: nat where [mlme_numbers]: "MT2_MLME_ORI_DELBA_CATE = 23"
definition MT2_MLME_REC_DELBA_CATE :: nat where [mlme_numbers]: "MT2_MLME_REC_DELBA_CATE = 24"
definition MT2_MLME_QOS_CATE :: nat where [mlme_numbers]: "MT2_MLME_QOS_CATE = 25"
definition MT2_MLME_DLS_CATE :: nat where [mlme_numbers]: "MT2_MLME_DLS_CATE = 26"
definition MT2_ACT_INVALID :: nat where [mlme_numbers]: "MT2_ACT_INVALID = 27"
definition MAX_ACT_MSG :: nat where [mlme_numbers]: "MAX_ACT_MSG = 28"

text \<open>Access point.\<close>

definition APMT2_MLME_DISASSOC_REQ :: nat where [mlme_numbers]: "APMT2_MLME_DISASSOC_REQ = 0"
definition APMT2_PEER_DISASSOC_REQ :: nat where [mlme_numbers]: "APMT2_PEER_DISASSOC_REQ = 1"
definition APMT2_PEER_ASSOC_REQ :: nat where [mlme_numbers]: "APMT2_PEER_ASSOC_REQ = 2"
definition APMT2_PEER_REASSOC_REQ :: nat where [mlme_numbers]: "APMT2_PEER_REASSOC_REQ = 3"
definition AP_MAX_ASSOC_MSG :: nat where [mlme_numbers]: "AP_MAX_ASSOC_MSG = 5"

definition APMT2_MLME_DEAUTH_REQ :: nat where [mlme_numbers]: "APMT2_MLME_DEAUTH_REQ = 0"
definition APMT2_PEER_DEAUTH :: nat where [mlme_numbers]: "APMT2_PEER_DEAUTH = 2"
definition APMT2_PEER_AUTH_REQ :: nat where [mlme_numbers]: "APMT2_PEER_AUTH_REQ = 3"
definition APMT2_PEER_AUTH_CONFIRM :: nat where [mlme_numbers]: "APMT2_PEER_AUTH_CONFIRM = 4"
definition AP_MAX_AUTH_MSG :: nat where [mlme_numbers]: "AP_MAX_AUTH_MSG = 5"

definition APMT2_PEER_PROBE_REQ :: nat where [mlme_numbers]: "APMT2_PEER_PROBE_REQ = 0"
definition APMT2_PEER_BEACON :: nat where [mlme_numbers]: "APMT2_PEER_BEACON = 1"
definition APMT2_PEER_PROBE_RSP :: nat where [mlme_numbers]: "APMT2_PEER_PROBE_RSP = 2"
definition APMT2_MLME_SCAN_REQ :: nat where [mlme_numbers]: "APMT2_MLME_SCAN_REQ = 3"
definition APMT2_SCAN_TIMEOUT :: nat where [mlme_numbers]: "APMT2_SCAN_TIMEOUT = 4"
definition APMT2_MLME_SCAN_CNCL :: nat where [mlme_numbers]: "APMT2_MLME_SCAN_CNCL = 5"
definition AP_MAX_SYNC_MSG :: nat where [mlme_numbers]: "AP_MAX_SYNC_MSG = 6"

text \<open>EAPOL frames, the same numbers in the frame and in the machine.\<close>

definition MT2_EAPPacket :: nat where [mlme_numbers]: "MT2_EAPPacket = 0"
definition MT2_EAPOLStart :: nat where [mlme_numbers]: "MT2_EAPOLStart = 1"
definition MT2_EAPOLLogoff :: nat where [mlme_numbers]: "MT2_EAPOLLogoff = 2"
definition MT2_EAPOLKey :: nat where [mlme_numbers]: "MT2_EAPOLKey = 3"
definition MT2_EAPOLASFAlert :: nat where [mlme_numbers]: "MT2_EAPOLASFAlert = 4"
definition MAX_WPA_MSG :: nat where [mlme_numbers]: "MAX_WPA_MSG = 5"

subsection \<open>Frames\<close>

definition FC_TYPE_MGMT :: u8 where "FC_TYPE_MGMT = 0"
definition FC_TYPE_DATA :: u8 where "FC_TYPE_DATA = 2"

definition SUBTYPE_ASSOC_REQ :: u8 where "SUBTYPE_ASSOC_REQ = 0"
definition SUBTYPE_ASSOC_RSP :: u8 where "SUBTYPE_ASSOC_RSP = 1"
definition SUBTYPE_REASSOC_REQ :: u8 where "SUBTYPE_REASSOC_REQ = 2"
definition SUBTYPE_REASSOC_RSP :: u8 where "SUBTYPE_REASSOC_RSP = 3"
definition SUBTYPE_PROBE_REQ :: u8 where "SUBTYPE_PROBE_REQ = 4"
definition SUBTYPE_PROBE_RSP :: u8 where "SUBTYPE_PROBE_RSP = 5"
definition SUBTYPE_BEACON :: u8 where "SUBTYPE_BEACON = 8"
definition SUBTYPE_ATIM :: u8 where "SUBTYPE_ATIM = 9"
definition SUBTYPE_DISASSOC :: u8 where "SUBTYPE_DISASSOC = 10"
definition SUBTYPE_AUTH :: u8 where "SUBTYPE_AUTH = 11"
definition SUBTYPE_DEAUTH :: u8 where "SUBTYPE_DEAUTH = 12"
definition SUBTYPE_ACTION :: u8 where "SUBTYPE_ACTION = 13"
definition SUBTYPE_ACTION_NO_ACK :: u8 where "SUBTYPE_ACTION_NO_ACK = 14"

lemmas frame_numbers = FC_TYPE_MGMT_def FC_TYPE_DATA_def SUBTYPE_ASSOC_REQ_def SUBTYPE_ASSOC_RSP_def
  SUBTYPE_REASSOC_REQ_def SUBTYPE_REASSOC_RSP_def SUBTYPE_PROBE_REQ_def SUBTYPE_PROBE_RSP_def
  SUBTYPE_BEACON_def SUBTYPE_ATIM_def SUBTYPE_DISASSOC_def SUBTYPE_AUTH_def SUBTYPE_DEAUTH_def
  SUBTYPE_ACTION_def SUBTYPE_ACTION_NO_ACK_def

definition LENGTH_802_11 :: nat where [mlme_numbers]: "LENGTH_802_11 = 24"
definition LENGTH_802_1_H :: nat where [mlme_numbers]: "LENGTH_802_1_H = 8"

text \<open>Type and subtype are the bits 2 to 3 and 4 to 7 of the first byte; \<^verbatim>\<open>Octet\<close> is what follows the header.\<close>

definition fc_Type :: "bytes \<Rightarrow> u8" where
  "fc_Type fr = drop_bit 2 (fr ! 0) AND 3"

definition fc_SubType :: "bytes \<Rightarrow> u8" where
  "fc_SubType fr = drop_bit 4 (fr ! 0)"

definition frame_octet :: "bytes \<Rightarrow> nat \<Rightarrow> u8" where
  "frame_octet fr i = fr ! (LENGTH_802_11 + i)"

definition frame_octet16 :: "bytes \<Rightarrow> nat \<Rightarrow> u16" where
  "frame_octet16 fr i = ucast (frame_octet fr i) OR push_bit 8 (ucast (frame_octet fr (i + 1)))"

subsection \<open>Classification\<close>

text \<open>
  The result tells whether the frame is for some machine; machine and type are written through
  pointers, so they are handed in and returned. The functions do not know the length of the frame: a
  read behind its end is a fault here.
\<close>

type_synonym class_result = "c_fault + (bool \<times> nat \<times> nat)"

definition WpaMsgTypeSubst :: "u8 \<Rightarrow> nat \<Rightarrow> bool \<times> nat" where
  "WpaMsgTypeSubst EAPType MsgType =
     (if EAPType = 0 then (True, MT2_EAPPacket)
      else if EAPType = 1 then (True, MT2_EAPOLStart)
      else if EAPType = 2 then (True, MT2_EAPOLLogoff)
      else if EAPType = 3 then (True, MT2_EAPOLKey)
      else if EAPType = 4 then (True, MT2_EAPOLASFAlert)
      else (False, MsgType))"

definition eapol_class :: "bytes \<Rightarrow> nat \<Rightarrow> class_result" where
  "eapol_class fr MsgType =
     (if length fr \<le> LENGTH_802_11 + LENGTH_802_1_H + 1 then Inl OOBRead
      else let (ok, T) = WpaMsgTypeSubst (fr ! (LENGTH_802_11 + LENGTH_802_1_H + 1)) MsgType in
        Inr (ok, WPA_STATE_MACHINE, T))"

definition action_class :: "bytes \<Rightarrow> class_result" where
  "action_class fr =
     (if length fr \<le> LENGTH_802_11 then Inl OOBRead
      else let c = unat (frame_octet fr 0 AND 0x7F) in
        Inr (True, ACTION_STATE_MACHINE, if MAX_PEER_CATE_MSG < c then MT2_ACT_INVALID else c))"

definition APMsgTypeSubst :: "bytes \<Rightarrow> nat \<Rightarrow> nat \<Rightarrow> class_result" where
  "APMsgTypeSubst fr Machine MsgType =
     (if length fr < 2 then Inl OOBRead
      else if fc_Type fr = FC_TYPE_DATA then eapol_class fr MsgType
      else if fc_Type fr \<noteq> FC_TYPE_MGMT then Inr (False, Machine, MsgType)
      else let s = fc_SubType fr in
        if s = SUBTYPE_ASSOC_REQ then Inr (True, AP_ASSOC_STATE_MACHINE, APMT2_PEER_ASSOC_REQ)
        else if s = SUBTYPE_REASSOC_REQ then Inr (True, AP_ASSOC_STATE_MACHINE, APMT2_PEER_REASSOC_REQ)
        else if s = SUBTYPE_PROBE_REQ then Inr (True, AP_SYNC_STATE_MACHINE, APMT2_PEER_PROBE_REQ)
        else if s = SUBTYPE_PROBE_RSP then Inr (True, AP_SYNC_STATE_MACHINE, APMT2_PEER_PROBE_RSP)
        else if s = SUBTYPE_BEACON then Inr (True, AP_SYNC_STATE_MACHINE, APMT2_PEER_BEACON)
        else if s = SUBTYPE_DISASSOC then Inr (True, AP_ASSOC_STATE_MACHINE, APMT2_PEER_DISASSOC_REQ)
        else if s = SUBTYPE_AUTH then
          (if length fr < LENGTH_802_11 + 4 then Inl OOBRead
           else let Seq = frame_octet16 fr 2 in
             if Seq = 1 then Inr (True, AP_AUTH_STATE_MACHINE, APMT2_PEER_AUTH_REQ)
             else if Seq = 3 then Inr (True, AP_AUTH_STATE_MACHINE, APMT2_PEER_AUTH_CONFIRM)
             else Inr (False, AP_AUTH_STATE_MACHINE, MsgType))
        else if s = SUBTYPE_DEAUTH then Inr (True, AP_AUTH_STATE_MACHINE, APMT2_PEER_DEAUTH)
        else if s = SUBTYPE_ACTION \<or> s = SUBTYPE_ACTION_NO_ACK then action_class fr
        else Inr (False, Machine, MsgType))"

text \<open>The station: control frames are not told from management frames, and an authentication frame of
  even number with an unknown algorithm is accepted although no machine is set.\<close>

definition MsgTypeSubst :: "bytes \<Rightarrow> nat \<Rightarrow> nat \<Rightarrow> class_result" where
  "MsgTypeSubst fr Machine MsgType =
     (if length fr < 2 then Inl OOBRead
      else if fc_Type fr = FC_TYPE_DATA then eapol_class fr MsgType
      else let s = fc_SubType fr in
        if s = SUBTYPE_ASSOC_REQ then Inr (True, ASSOC_STATE_MACHINE, MT2_PEER_ASSOC_REQ)
        else if s = SUBTYPE_ASSOC_RSP then Inr (True, ASSOC_STATE_MACHINE, MT2_PEER_ASSOC_RSP)
        else if s = SUBTYPE_REASSOC_REQ then Inr (True, ASSOC_STATE_MACHINE, MT2_PEER_REASSOC_REQ)
        else if s = SUBTYPE_REASSOC_RSP then Inr (True, ASSOC_STATE_MACHINE, MT2_PEER_REASSOC_RSP)
        else if s = SUBTYPE_PROBE_REQ then Inr (True, SYNC_STATE_MACHINE, MT2_PEER_PROBE_REQ)
        else if s = SUBTYPE_PROBE_RSP then Inr (True, SYNC_STATE_MACHINE, MT2_PEER_PROBE_RSP)
        else if s = SUBTYPE_BEACON then Inr (True, SYNC_STATE_MACHINE, MT2_PEER_BEACON)
        else if s = SUBTYPE_ATIM then Inr (True, SYNC_STATE_MACHINE, MT2_PEER_ATIM)
        else if s = SUBTYPE_DISASSOC then Inr (True, ASSOC_STATE_MACHINE, MT2_PEER_DISASSOC_REQ)
        else if s = SUBTYPE_AUTH then
          (if length fr < LENGTH_802_11 + 4 then Inl OOBRead
           else let Seq = frame_octet16 fr 2; Alg = frame_octet16 fr 0 in
             if Seq = 1 \<or> Seq = 3 then Inr (True, AUTH_RSP_STATE_MACHINE, MT2_PEER_AUTH_ODD)
             else if Seq = 2 \<or> Seq = 4 then
               (if Alg = 0 \<or> Alg = 1 then Inr (True, AUTH_STATE_MACHINE, MT2_PEER_AUTH_EVEN)
                else Inr (True, Machine, MsgType))
             else Inr (False, Machine, MsgType))
        else if s = SUBTYPE_DEAUTH then Inr (True, AUTH_RSP_STATE_MACHINE, MT2_PEER_DEAUTH)
        else if s = SUBTYPE_ACTION \<or> s = SUBTYPE_ACTION_NO_ACK then action_class fr
        else Inr (False, Machine, MsgType))"

text \<open>What \<^verbatim>\<open>MlmeEnqueueForRecv\<close> asks for, by the mode of the device.\<close>

datatype op_mode = OPMODE_STA | OPMODE_AP

definition frame_class :: "op_mode \<Rightarrow> bytes \<Rightarrow> class_result" where
  "frame_class mode fr =
     (case mode of OPMODE_AP \<Rightarrow> APMsgTypeSubst fr 0xff 0 | OPMODE_STA \<Rightarrow> MsgTypeSubst fr 0xff 0)"

subsection \<open>Where frames can go\<close>

text \<open>The machines that frames from the air reach, with the number of their message types.\<close>

definition air_machines :: "op_mode \<Rightarrow> (nat \<times> nat) list" where
  "air_machines mode =
     (case mode of
        OPMODE_AP \<Rightarrow> [(AP_ASSOC_STATE_MACHINE, AP_MAX_ASSOC_MSG), (AP_AUTH_STATE_MACHINE, AP_MAX_AUTH_MSG),
                      (AP_SYNC_STATE_MACHINE, AP_MAX_SYNC_MSG)]
      | OPMODE_STA \<Rightarrow> [(ASSOC_STATE_MACHINE, MAX_ASSOC_MSG), (AUTH_STATE_MACHINE, MAX_AUTH_MSG),
                      (AUTH_RSP_STATE_MACHINE, MAX_AUTH_RSP_MSG), (SYNC_STATE_MACHINE, MAX_SYNC_MSG)]) @
     [(ACTION_STATE_MACHINE, MAX_ACT_MSG), (WPA_STATE_MACHINE, MAX_WPA_MSG)]"

lemma eapol_class_air:
  assumes "eapol_class fr t = Inr (True, M, T)"
  shows "M = WPA_STATE_MACHINE \<and> T < MAX_WPA_MSG"
  using assms by (auto simp: eapol_class_def WpaMsgTypeSubst_def mlme_numbers split: if_splits)

lemma action_class_air:
  assumes "action_class fr = Inr (ok, M, T)"
  shows "ok \<and> M = ACTION_STATE_MACHINE \<and> T < MAX_ACT_MSG \<and> (T = MT2_ACT_INVALID \<or> T \<le> MAX_PEER_CATE_MSG)"
  using assms by (auto simp: action_class_def Let_def mlme_numbers split: if_splits)

lemma frame_class_air:
  assumes "frame_class mode fr = Inr (True, M, T)"
  shows "(\<exists>n. (M, n) \<in> set (air_machines mode) \<and> T < n) \<or> mode = OPMODE_STA \<and> M = 0xff \<and> T = 0"
proof (cases mode)
  case OPMODE_AP
  then have c: "APMsgTypeSubst fr 0xff 0 = Inr (True, M, T)" using assms by (simp add: frame_class_def)
  show ?thesis
  proof (cases "eapol_class fr 0 = Inr (True, M, T) \<or> action_class fr = Inr (True, M, T)")
    case True
    then show ?thesis using eapol_class_air action_class_air by (auto simp: air_machines_def OPMODE_AP)
  next
    case False
    then have n: "eapol_class fr 0 \<noteq> Inr (True, M, T)" "action_class fr \<noteq> Inr (True, M, T)" by simp_all
    show ?thesis using c n unfolding APMsgTypeSubst_def Let_def OPMODE_AP
      by (simp add: air_machines_def mlme_numbers split: if_splits)
  qed
next
  case OPMODE_STA
  then have c: "MsgTypeSubst fr 0xff 0 = Inr (True, M, T)" using assms by (simp add: frame_class_def)
  show ?thesis
  proof (cases "eapol_class fr 0 = Inr (True, M, T) \<or> action_class fr = Inr (True, M, T)")
    case True
    then show ?thesis using eapol_class_air action_class_air by (auto simp: air_machines_def OPMODE_STA)
  next
    case False
    then have n: "eapol_class fr 0 \<noteq> Inr (True, M, T)" "action_class fr \<noteq> Inr (True, M, T)" by simp_all
    show ?thesis using c n unfolding MsgTypeSubst_def Let_def OPMODE_STA
      by (simp add: air_machines_def mlme_numbers split: if_splits)
  qed
qed

text \<open>A frame whose body is long enough for the EAPOL type is classified without a read behind its end.\<close>

lemma frame_class_total:
  assumes "34 \<le> length fr"
  shows "\<exists>r. frame_class mode fr = Inr r"
proof -
  have "\<exists>r. eapol_class fr 0 = Inr r" "\<exists>r. action_class fr = Inr r"
    using assms by (auto simp: eapol_class_def action_class_def mlme_numbers Let_def split_beta)
  then obtain r1 r2 where r: "eapol_class fr 0 = Inr r1" "action_class fr = Inr r2" by blast
  have l: "\<not> length fr < 2" "\<not> length fr < LENGTH_802_11 + 4" using assms by (simp_all add: LENGTH_802_11_def)
  show ?thesis
  proof (cases mode)
    case OPMODE_STA
    show ?thesis unfolding OPMODE_STA frame_class_def op_mode.case MsgTypeSubst_def Let_def
      by (simp only: r l if_False) (simp only: simp_thms sum.inject split: if_split)
  next
    case OPMODE_AP
    show ?thesis unfolding OPMODE_AP frame_class_def op_mode.case APMsgTypeSubst_def Let_def
      by (simp only: r l if_False) (simp only: simp_thms sum.inject split: if_split)
  qed
qed

end
