(* ===== verification/MlmeQueue.thy ===== *)
theory MlmeQueue
  imports Fifo MlmeFrames
begin

text \<open>
  The queue of management messages, \<^verbatim>\<open>common/mlme.c\<close>: a ring of 40 elements that timers, requests from
  the kernel and received frames fill and the MLME task empties. An element is freed after it was
  handled, not when it is taken out. The counters are unsigned longs of 64 bits.
\<close>

subsection \<open>The ring\<close>

definition MAX_LEN_OF_MLME_QUEUE :: nat where "MAX_LEN_OF_MLME_QUEUE = 40"
definition MGMT_DMA_BUFFER_SIZE :: nat where "MGMT_DMA_BUFFER_SIZE = 1600"
definition RESERVED_WCID :: u8 where "RESERVED_WCID = 0xff"

lemma mlme_len: "MAX_LEN_OF_MLME_QUEUE = 40" "MGMT_DMA_BUFFER_SIZE = 1600"
  by (simp_all add: MAX_LEN_OF_MLME_QUEUE_def MGMT_DMA_BUFFER_SIZE_def)

record mlme_msg =
  ms_Msg :: bytes
  ms_Machine :: nat
  ms_MsgType :: nat
  ms_MsgLen :: nat
  ms_TimeStamp :: "u32 \<times> u32"
  ms_Rssi :: "u8 \<times> u8 \<times> u8"
  ms_Signal :: u8
  ms_Channel :: u8
  ms_Wcid :: u8
  ms_Occupied :: bool
  ms_OpMode :: u8
  ms_Priv :: nat

record mlme_queue =
  q_Num :: nat
  q_Head :: nat
  q_Tail :: nat
  q_Entry :: "mlme_msg list"

definition MlmeQueueInit :: "mlme_queue \<Rightarrow> mlme_queue" where
  "MlmeQueueInit q = q\<lparr>q_Num := 0, q_Head := 0, q_Tail := 0,
     q_Entry := map (\<lambda>m. m\<lparr>ms_Occupied := False, ms_MsgLen := 0, ms_Msg := replicate MGMT_DMA_BUFFER_SIZE 0\<rparr>)
                  (q_Entry q)\<rparr>"

definition MlmeQueueDestroy :: "mlme_queue \<Rightarrow> mlme_queue" where
  "MlmeQueueDestroy q = q\<lparr>q_Num := 0, q_Head := 0, q_Tail := 0\<rparr>"

definition MlmeQueueEmpty :: "mlme_queue \<Rightarrow> bool" where
  "MlmeQueueEmpty q \<longleftrightarrow> q_Num q = 0"

text \<open>Received frames may fill half of the queue only; \<open>SendId\<close> 0 is the receive path.\<close>

definition MlmeQueueFull :: "mlme_queue \<Rightarrow> nat \<Rightarrow> bool" where
  "MlmeQueueFull q SendId =
     (if SendId = 0 then MAX_LEN_OF_MLME_QUEUE div 2 \<le> q_Num q \<or> ms_Occupied (q_Entry q ! q_Tail q)
      else q_Num q = MAX_LEN_OF_MLME_QUEUE)"

text \<open>The part of an enqueue under the lock: the element at the tail is taken and filled.\<close>

definition mq_put :: "(mlme_msg \<Rightarrow> mlme_msg) \<Rightarrow> mlme_queue \<Rightarrow> mlme_queue" where
  "mq_put f q = q\<lparr>q_Tail := (if q_Tail q + 1 = MAX_LEN_OF_MLME_QUEUE then 0 else q_Tail q + 1),
     q_Num := (q_Num q + 1) mod 2 ^ 64, q_Entry := (q_Entry q)[q_Tail q := f (q_Entry q ! q_Tail q)]\<rparr>"

definition mq_copy :: "nat \<Rightarrow> bytes option \<Rightarrow> mlme_msg \<Rightarrow> mlme_msg" where
  "mq_copy MsgLen Msg m =
     (case Msg of None \<Rightarrow> m | Some bs \<Rightarrow> m\<lparr>ms_Msg := take MsgLen bs @ drop MsgLen (ms_Msg m)\<rparr>)"

definition mq_own :: "nat \<Rightarrow> nat \<Rightarrow> nat \<Rightarrow> bytes option \<Rightarrow> nat \<Rightarrow> mlme_msg \<Rightarrow> mlme_msg" where
  "mq_own Machine MsgType MsgLen Msg Priv m =
     mq_copy MsgLen Msg (m\<lparr>ms_Wcid := RESERVED_WCID, ms_Occupied := True, ms_Machine := Machine,
       ms_MsgType := MsgType, ms_MsgLen := MsgLen, ms_Priv := Priv\<rparr>)"

text \<open>\<open>halting\<close>: the driver stops or the device is gone.\<close>

definition MlmeEnqueue :: "bool \<Rightarrow> nat \<Rightarrow> nat \<Rightarrow> nat \<Rightarrow> bytes option \<Rightarrow> nat \<Rightarrow> mlme_queue \<Rightarrow>
    bool \<times> mlme_queue" where
  "MlmeEnqueue halting Machine MsgType MsgLen Msg Priv q =
     (if halting then (False, q)
      else if MGMT_DMA_BUFFER_SIZE < MsgLen then (False, q)
      else if MlmeQueueFull q 1 then (False, q)
      else (True, mq_put (mq_own Machine MsgType MsgLen Msg Priv) q))"

record recv_info =
  ri_Wcid :: nat
  ri_TimeStamp :: "u32 \<times> u32"
  ri_Rssi :: "u8 \<times> u8 \<times> u8"
  ri_Signal :: u8
  ri_OpMode :: u8
  ri_Channel :: u8

definition mq_received :: "recv_info \<Rightarrow> nat \<Rightarrow> nat \<Rightarrow> nat \<Rightarrow> bytes \<Rightarrow> mlme_msg \<Rightarrow> mlme_msg" where
  "mq_received ri Machine MsgType MsgLen Msg m =
     mq_copy MsgLen (Some Msg) (m\<lparr>ms_Occupied := True, ms_Machine := Machine, ms_MsgType := MsgType,
       ms_MsgLen := MsgLen, ms_TimeStamp := ri_TimeStamp ri, ms_Rssi := ri_Rssi ri,
       ms_Signal := ri_Signal ri, ms_Wcid := word_of_nat (ri_Wcid ri), ms_OpMode := ri_OpMode ri,
       ms_Channel := ri_Channel ri, ms_Priv := 0\<rparr>)"

text \<open>
  A frame goes to the machine and the message type that its classification names. On success the caller
  starts the handler, which is not part of this function.
\<close>

definition MlmeEnqueueForRecv :: "op_mode \<Rightarrow> bool \<Rightarrow> recv_info \<Rightarrow> nat \<Rightarrow> bytes \<Rightarrow> mlme_queue \<Rightarrow>
    c_fault + (bool \<times> mlme_queue)" where
  "MlmeEnqueueForRecv mode halting ri MsgLen Msg q =
     (if halting then Inr (False, q)
      else if MGMT_DMA_BUFFER_SIZE < MsgLen then Inr (False, q)
      else if MlmeQueueFull q 0 then Inr (False, q)
      else case frame_class mode Msg of
          Inl e \<Rightarrow> Inl e
        | Inr (ok, Machine, MsgType) \<Rightarrow>
            if \<not> ok then Inr (False, q)
            else Inr (True, mq_put (mq_received ri Machine MsgType MsgLen Msg) q))"

text \<open>The result is the index of the element; the count goes down even at zero.\<close>

definition MlmeDequeue :: "mlme_queue \<Rightarrow> nat \<times> mlme_queue" where
  "MlmeDequeue q = (q_Head q, q\<lparr>q_Num := (q_Num q + (2 ^ 64 - 1)) mod 2 ^ 64,
     q_Head := (if q_Head q + 1 = MAX_LEN_OF_MLME_QUEUE then 0 else q_Head q + 1)\<rparr>)"

text \<open>The element is free again.\<close>

definition mq_free :: "nat \<Rightarrow> mlme_queue \<Rightarrow> mlme_queue" where
  "mq_free i q = q\<lparr>q_Entry := (q_Entry q)[i := (q_Entry q ! i)\<lparr>ms_Occupied := False, ms_MsgLen := 0\<rparr>]\<rparr>"

subsection \<open>The ring as a list\<close>

definition mq_slot :: "mlme_queue \<Rightarrow> nat \<Rightarrow> nat" where
  "mq_slot q i = (q_Head q + i) mod MAX_LEN_OF_MLME_QUEUE"

definition mq_msgs :: "mlme_queue \<Rightarrow> mlme_msg list" where
  "mq_msgs q = map (\<lambda>i. q_Entry q ! mq_slot q i) [0..<q_Num q]"

definition mq_ok :: "mlme_queue \<Rightarrow> bool" where
  "mq_ok q \<longleftrightarrow> length (q_Entry q) = MAX_LEN_OF_MLME_QUEUE \<and> q_Num q \<le> MAX_LEN_OF_MLME_QUEUE \<and>
     q_Head q < MAX_LEN_OF_MLME_QUEUE \<and> q_Tail q = mq_slot q (q_Num q)"

lemma mq_okD:
  assumes "mq_ok q"
  shows "length (q_Entry q) = MAX_LEN_OF_MLME_QUEUE" "q_Num q \<le> MAX_LEN_OF_MLME_QUEUE"
    "q_Head q < MAX_LEN_OF_MLME_QUEUE" "q_Tail q = mq_slot q (q_Num q)" "q_Tail q < MAX_LEN_OF_MLME_QUEUE"
  using assms by (simp_all add: mq_ok_def mq_slot_def mlme_len)

lemma ring_inj:
  assumes "(h + i) mod n = (h + j) mod n" "i < n" "j < n"
  shows "i = (j :: nat)"
proof -
  have "j \<le> i" if e: "(h + i) mod n = (h + j) mod n" and j: "j < n" for i j
  proof (rule ccontr)
    assume "\<not> j \<le> i"
    then have "n dvd j - i" using e mod_eq_dvd_iff_nat [of "h + i" "h + j" n] by simp
    then show False using \<open>\<not> j \<le> i\<close> j nat_dvd_not_less [of "j - i" n] by simp
  qed
  from this [of i j] this [of j i] show ?thesis using assms by simp
qed

lemma mq_slot_simps [simp]:
  "mq_slot (q_Tail_update a q) i = mq_slot q i" "mq_slot (q_Num_update b q) i = mq_slot q i"
  "mq_slot (q_Entry_update c q) i = mq_slot q i"
  by (simp_all add: mq_slot_def)

lemma mq_slot_inj:
  "i < MAX_LEN_OF_MLME_QUEUE \<Longrightarrow> j < MAX_LEN_OF_MLME_QUEUE \<Longrightarrow> mq_slot q i = mq_slot q j \<Longrightarrow> i = j"
  unfolding mq_slot_def by (rule ring_inj)

lemma mq_msgs_length [simp]: "length (mq_msgs q) = q_Num q"
  by (simp add: mq_msgs_def)

lemma mq_put_ok:
  assumes "mq_ok q" "q_Num q < MAX_LEN_OF_MLME_QUEUE"
  shows "mq_ok (mq_put f q)" "mq_msgs (mq_put f q) = mq_msgs q @ [f (q_Entry q ! q_Tail q)]"
proof -
  note ok = mq_okD [OF assms(1)]
  have n: "(q_Num q + 1) mod 2 ^ 64 = q_Num q + 1" using assms(2) by (simp add: mlme_len)
  have t: "(if q_Tail q + 1 = MAX_LEN_OF_MLME_QUEUE then 0 else q_Tail q + 1) =
      (q_Head q + (q_Num q + 1)) mod MAX_LEN_OF_MLME_QUEUE"
    unfolding ok(4) mq_slot_def mlme_len by (simp add: mod_Suc)
  show "mq_ok (mq_put f q)"
    using ok assms(2) unfolding mq_ok_def mq_put_def n t by (simp add: mq_slot_def)
  have "q_Tail q \<noteq> mq_slot q i" if "i < q_Num q" for i
    using mq_slot_inj [of i "q_Num q" q] that assms(2) ok(4) by auto
  then show "mq_msgs (mq_put f q) = mq_msgs q @ [f (q_Entry q ! q_Tail q)]"
    unfolding mq_msgs_def mq_put_def n using ok(1,5) by (simp add: ok(4) [symmetric])
qed

lemma mq_dequeue_ok:
  assumes "mq_ok q" "0 < q_Num q"
  shows "mq_ok (snd (MlmeDequeue q))" "mq_msgs q = q_Entry q ! fst (MlmeDequeue q) # mq_msgs (snd (MlmeDequeue q))"
    "q_Entry (snd (MlmeDequeue q)) = q_Entry q" "q_Num (snd (MlmeDequeue q)) = q_Num q - 1"
    "fst (MlmeDequeue q) = q_Head q" "0 < i \<Longrightarrow> mq_slot (snd (MlmeDequeue q)) (i - 1) = mq_slot q i"
proof -
  note ok = mq_okD [OF assms(1)]
  have n: "(q_Num q + (2 ^ 64 - 1)) mod 2 ^ 64 = q_Num q - 1"
  proof -
    have "q_Num q + (2 ^ 64 - 1) = (q_Num q - 1) + 2 ^ 64" using assms(2) by simp
    also have "\<dots> mod 2 ^ 64 = (q_Num q - 1) mod 2 ^ 64" by (rule mod_add_self2)
    also have "\<dots> = q_Num q - 1" using ok(2) by (intro mod_less) (simp add: mlme_len)
    finally show ?thesis .
  qed
  have h: "(if q_Head q + 1 = MAX_LEN_OF_MLME_QUEUE then 0 else q_Head q + 1) =
      (q_Head q + 1) mod MAX_LEN_OF_MLME_QUEUE"
    using ok(3) by (simp add: mlme_len)
  have q': "snd (MlmeDequeue q) = q\<lparr>q_Num := q_Num q - 1, q_Head := (q_Head q + 1) mod MAX_LEN_OF_MLME_QUEUE\<rparr>"
    unfolding MlmeDequeue_def n h by simp
  show e: "q_Entry (snd (MlmeDequeue q)) = q_Entry q" "q_Num (snd (MlmeDequeue q)) = q_Num q - 1"
    by (simp_all add: q')
  show fh: "fst (MlmeDequeue q) = q_Head q" by (simp add: MlmeDequeue_def)
  have sl: "mq_slot (snd (MlmeDequeue q)) i = mq_slot q (Suc i)" for i
    unfolding q' mq_slot_def by (simp add: mod_simps)
  then show "mq_slot (snd (MlmeDequeue q)) (i - 1) = mq_slot q i" if "0 < i" for i using that by simp
  show "mq_ok (snd (MlmeDequeue q))"
    using ok assms(2) sl [of "q_Num q - 1"] unfolding mq_ok_def by (simp add: q' mlme_len)
  have "[0..<q_Num q] = 0 # map Suc [0..<q_Num q - 1]"
    using assms(2) by (simp add: map_Suc_upt upt_conv_Cons del: upt_Suc)
  then show "mq_msgs q = q_Entry q ! fst (MlmeDequeue q) # mq_msgs (snd (MlmeDequeue q))"
    unfolding mq_msgs_def fh e using sl ok(3) by (simp add: mq_slot_def [of q 0] comp_def)
qed

lemma mq_free_ok:
  assumes "mq_ok q" "\<And>j. j < q_Num q \<Longrightarrow> i \<noteq> mq_slot q j"
  shows "mq_ok (mq_free i q)" "mq_msgs (mq_free i q) = mq_msgs q"
  using assms by (auto simp: mq_ok_def mq_free_def mq_msgs_def)

subsection \<open>The ring provides it\<close>

text \<open>What a message says, apart from what the receive path adds: machine, type, body and private word.\<close>

type_synonym mlme_body = "nat \<times> nat \<times> bytes \<times> nat"

definition mq_view :: "mlme_msg \<Rightarrow> mlme_body" where
  "mq_view m = (ms_Machine m, ms_MsgType m, take (ms_MsgLen m) (ms_Msg m), ms_Priv m)"

definition mq_inv :: "mlme_queue \<Rightarrow> bool" where
  "mq_inv q \<longleftrightarrow> mq_ok q \<and> (\<forall>m\<in>set (q_Entry q). length (ms_Msg m) = MGMT_DMA_BUFFER_SIZE) \<and>
     (\<forall>j<MAX_LEN_OF_MLME_QUEUE. ms_Occupied (q_Entry q ! j) \<longleftrightarrow> (\<exists>i<q_Num q. j = mq_slot q i))"

definition mq_send :: "mlme_body \<Rightarrow> mlme_queue \<Rightarrow> bool \<times> mlme_queue" where
  "mq_send m q = (case m of (Machine, MsgType, body, Priv) \<Rightarrow>
     MlmeEnqueue False Machine MsgType (length body) (Some body) Priv q)"

text \<open>One turn of the handler's loop, without the action: the element is taken, read and freed.\<close>

definition mq_next :: "mlme_queue \<Rightarrow> mlme_body \<times> mlme_queue" where
  "mq_next q = (let (i, q1) = MlmeDequeue q in (mq_view (q_Entry q1 ! i), mq_free i q1))"

lemma mq_copy_simps [simp]:
  "ms_Occupied (mq_copy n b m) = ms_Occupied m" "ms_Machine (mq_copy n b m) = ms_Machine m"
  "ms_MsgType (mq_copy n b m) = ms_MsgType m" "ms_MsgLen (mq_copy n b m) = ms_MsgLen m"
  "ms_Priv (mq_copy n b m) = ms_Priv m" "ms_Wcid (mq_copy n b m) = ms_Wcid m"
  "ms_Msg (mq_copy n None m) = ms_Msg m"
  "ms_Msg (mq_copy n (Some bs) m) = take n bs @ drop n (ms_Msg m)"
  by (simp_all add: mq_copy_def split: option.split)

lemma mq_invD:
  assumes "mq_inv q"
  shows "mq_ok q" "j < MAX_LEN_OF_MLME_QUEUE \<Longrightarrow> length (ms_Msg (q_Entry q ! j)) = MGMT_DMA_BUFFER_SIZE"
    "j < MAX_LEN_OF_MLME_QUEUE \<Longrightarrow> ms_Occupied (q_Entry q ! j) = (\<exists>i<q_Num q. j = mq_slot q i)"
  using assms mq_okD(1) [of q] nth_mem [of j "q_Entry q"] by (simp_all add: mq_inv_def)

lemma mq_put_inv:
  assumes "mq_inv q" "q_Num q < MAX_LEN_OF_MLME_QUEUE" "ms_Occupied (f (q_Entry q ! q_Tail q))"
    "length (ms_Msg (f (q_Entry q ! q_Tail q))) = MGMT_DMA_BUFFER_SIZE"
  shows "mq_inv (mq_put f q)" "q_Num (mq_put f q) = q_Num q + 1"
proof -
  note inv = mq_invD [OF assms(1)]
  note ok = mq_okD [OF inv(1)]
  show n: "q_Num (mq_put f q) = q_Num q + 1" using assms(2) by (simp add: mq_put_def mlme_len)
  have s: "mq_slot (mq_put f q) i = mq_slot q i" for i by (simp add: mq_put_def)
  have e: "q_Entry (mq_put f q) = (q_Entry q)[q_Tail q := f (q_Entry q ! q_Tail q)]" by (simp add: mq_put_def)
  have "\<forall>m\<in>set (q_Entry (mq_put f q)). length (ms_Msg m) = MGMT_DMA_BUFFER_SIZE"
    using assms(1,4) set_update_subset_insert [of "q_Entry q"] unfolding e mq_inv_def by fastforce
  moreover have "ms_Occupied (q_Entry (mq_put f q) ! j) = (\<exists>i<q_Num (mq_put f q). j = mq_slot (mq_put f q) i)"
    if "j < MAX_LEN_OF_MLME_QUEUE" for j
  proof (cases "j = q_Tail q")
    case True
    then show ?thesis using assms(3) ok(1,4,5) n s unfolding e by auto
  next
    case False
    then have "(\<exists>i<q_Num q + 1. j = mq_slot q i) = (\<exists>i<q_Num q. j = mq_slot q i)"
      using ok(4) by (auto simp: less_Suc_eq)
    then show ?thesis using False inv(3) [OF that] n s unfolding e by simp
  qed
  ultimately show "mq_inv (mq_put f q)" using mq_put_ok(1) [OF inv(1) assms(2)] by (simp add: mq_inv_def)
qed

lemma mq_next_inv:
  assumes "mq_inv q" "0 < q_Num q"
  shows "mq_inv (snd (mq_next q))" "map mq_view (mq_msgs q) = fst (mq_next q) # map mq_view (mq_msgs (snd (mq_next q)))"
    "q_Num (snd (mq_next q)) = q_Num q - 1" "mq_msgs q = q_Entry q ! q_Head q # mq_msgs (snd (mq_next q))"
proof -
  note inv = mq_invD [OF assms(1)]
  note ok = mq_okD [OF inv(1)]
  let ?q1 = "snd (MlmeDequeue q)" and ?i = "q_Head q"
  note d = mq_dequeue_ok [OF inv(1) assms(2)]
  have ne: "?i \<noteq> mq_slot ?q1 j" if "j < q_Num ?q1" for j
  proof -
    have "Suc j < MAX_LEN_OF_MLME_QUEUE" using that d(4) ok(2) by simp
    then have "mq_slot q 0 \<noteq> mq_slot q (Suc j)" using mq_slot_inj [of 0 "Suc j" q] by auto
    then show ?thesis using d(6) [of "Suc j"] ok(3) by (simp add: mq_slot_def [of q 0])
  qed
  note f = mq_free_ok [OF d(1) ne]
  have nx: "mq_next q = (mq_view (q_Entry q ! ?i), mq_free ?i ?q1)"
    using d(3,5) by (simp add: mq_next_def split_beta)
  have n: "q_Num (mq_free ?i ?q1) = q_Num q - 1" using d(4) by (simp add: mq_free_def)
  show "q_Num (snd (mq_next q)) = q_Num q - 1" using n nx by simp
  show "mq_msgs q = q_Entry q ! q_Head q # mq_msgs (snd (mq_next q))" using d(2,5) f(2) nx by simp
  show "map mq_view (mq_msgs q) = fst (mq_next q) # map mq_view (mq_msgs (snd (mq_next q)))"
    using d(2,5) f(2) nx by simp
  let ?e = "(q_Entry q ! ?i)\<lparr>ms_Occupied := False, ms_MsgLen := 0\<rparr>"
  have e: "q_Entry (mq_free ?i ?q1) = (q_Entry q)[?i := ?e]" using d(3) by (simp add: mq_free_def)
  have s: "mq_slot (mq_free ?i ?q1) j = mq_slot q (Suc j)" for j using d(6) [of "Suc j"] by (simp add: mq_free_def)
  have "\<forall>m\<in>set (q_Entry (mq_free ?i ?q1)). length (ms_Msg m) = MGMT_DMA_BUFFER_SIZE"
    using assms(1) inv(2) [OF ok(3)] set_update_subset_insert [of "q_Entry q" ?i ?e]
    unfolding e mq_inv_def by fastforce
  moreover have "ms_Occupied (q_Entry (mq_free ?i ?q1) ! j) = (\<exists>k<q_Num (mq_free ?i ?q1). j = mq_slot (mq_free ?i ?q1) k)"
    if j: "j < MAX_LEN_OF_MLME_QUEUE" for j
  proof -
    have z: "mq_slot q 0 = ?i" using ok(3) by (simp add: mq_slot_def)
    have "(\<exists>k<q_Num q - 1. j = mq_slot q (Suc k)) = (j \<noteq> ?i \<and> (\<exists>k<q_Num q. j = mq_slot q k))"
    proof
      assume "\<exists>k<q_Num q - 1. j = mq_slot q (Suc k)"
      then show "j \<noteq> ?i \<and> (\<exists>k<q_Num q. j = mq_slot q k)"
        using mq_slot_inj [of 0 "Suc _" q] ok(2) z by (metis Suc_less_eq Suc_pred' assms(2) less_le_trans nat.distinct(1) zero_less_Suc)
    next
      assume h: "j \<noteq> ?i \<and> (\<exists>k<q_Num q. j = mq_slot q k)"
      then obtain k where k: "k < q_Num q" "j = mq_slot q k" by blast
      then have "k \<noteq> 0" using h z by (intro notI) simp
      then show "\<exists>k<q_Num q - 1. j = mq_slot q (Suc k)" using k by (intro exI [of _ "k - 1"]) simp
    qed
    then show ?thesis using inv(3) [OF j] j ok(1) n s unfolding e by (cases "j = ?i") simp_all
  qed
  ultimately show "mq_inv (snd (mq_next q))" using f(1) nx by (simp add: mq_inv_def)
qed

interpretation mlmeq: bounded_fifo mq_inv "\<lambda>q. map mq_view (mq_msgs q)" MAX_LEN_OF_MLME_QUEUE
  "\<lambda>(_, _, body, _). length body \<le> MGMT_DMA_BUFFER_SIZE" mq_send mq_next
proof
  fix q :: mlme_queue and m :: mlme_body
  assume inv: "mq_inv q"
  note i = mq_invD [OF inv]
  note ok = mq_okD [OF i(1)]
  obtain M T b p where m: "m = (M, T, b, p)" by (cases m)
  show "fst (mq_next q) = hd (map mq_view (mq_msgs q))" "mq_inv (snd (mq_next q))"
    "map mq_view (mq_msgs (snd (mq_next q))) = tl (map mq_view (mq_msgs q))" if "map mq_view (mq_msgs q) \<noteq> []"
  proof -
    have "0 < q_Num q" using that by (simp add: mq_msgs_def)
    note n = mq_next_inv [OF inv this]
    show "fst (mq_next q) = hd (map mq_view (mq_msgs q))" "mq_inv (snd (mq_next q))"
      "map mq_view (mq_msgs (snd (mq_next q))) = tl (map mq_view (mq_msgs q))" using n by simp_all
  qed
  assume "case m of (_, _, body, _) \<Rightarrow> length body \<le> MGMT_DMA_BUFFER_SIZE"
  then have b: "length b \<le> MGMT_DMA_BUFFER_SIZE" using m by simp
  let ?f = "mq_own M T (length b) (Some b) p"
  have send: "mq_send m q = (if q_Num q = MAX_LEN_OF_MLME_QUEUE then (False, q) else (True, mq_put ?f q))"
    using b by (simp add: m mq_send_def MlmeEnqueue_def MlmeQueueFull_def)
  have put: "mq_inv (mq_put ?f q)" "map mq_view (mq_msgs (mq_put ?f q)) = map mq_view (mq_msgs q) @ [m]"
    if "q_Num q < MAX_LEN_OF_MLME_QUEUE"
    using mq_put_inv(1) [OF inv that, of ?f] mq_put_ok(2) [OF i(1) that, of ?f] b i(2) [OF ok(5)]
    by (simp_all add: mq_own_def mq_view_def m)
  have "\<not> q_Num q < MAX_LEN_OF_MLME_QUEUE \<Longrightarrow> q_Num q = MAX_LEN_OF_MLME_QUEUE" using ok(2) by simp
  then show "fst (mq_send m q) = (length (map mq_view (mq_msgs q)) < MAX_LEN_OF_MLME_QUEUE)"
    "mq_inv (snd (mq_send m q))"
    "map mq_view (mq_msgs (snd (mq_send m q))) =
      (if length (map mq_view (mq_msgs q)) < MAX_LEN_OF_MLME_QUEUE then map mq_view (mq_msgs q) @ [m]
       else map mq_view (mq_msgs q))"
    using put inv ok(2) by (auto simp: send)
qed

subsection \<open>Specification and properties\<close>

text \<open>What reaches the queue; a turn of the handler takes a message if there is one.\<close>

datatype mlme_op = Send bool mlme_body | Receive bool recv_info bytes | Turn

text \<open>A message is taken or not, or the classification leaves the frame; a turn hands out a message or none.\<close>

datatype mlme_res = Taken bool | Faulted c_fault | Served "mlme_body option"

fun mq_step :: "op_mode \<Rightarrow> mlme_op \<Rightarrow> mlme_queue \<Rightarrow> mlme_res \<times> mlme_queue" where
  "mq_step mode (Send halting (M, T, b, p)) q =
     (let (ok, q') = MlmeEnqueue halting M T (length b) (Some b) p q in (Taken ok, q'))"
| "mq_step mode (Receive halting ri b) q =
     (case MlmeEnqueueForRecv mode halting ri (length b) b q of
        Inl e \<Rightarrow> (Faulted e, q) | Inr (ok, q') \<Rightarrow> (Taken ok, q'))"
| "mq_step mode Turn q =
     (if MlmeQueueEmpty q then (Served None, q) else (let (m, q') = mq_next q in (Served (Some m), q')))"

text \<open>The same on a list: at most 40 messages, 20 when a received frame comes.\<close>

fun fifo_step :: "op_mode \<Rightarrow> mlme_op \<Rightarrow> mlme_body list \<Rightarrow> mlme_res \<times> mlme_body list" where
  "fifo_step mode (Send halting (M, T, b, p)) xs =
     (if \<not> halting \<and> length b \<le> 1600 \<and> length xs < 40 then (Taken True, xs @ [(M, T, b, p)]) else (Taken False, xs))"
| "fifo_step mode (Receive halting ri b) xs =
     (if \<not> halting \<and> length b \<le> 1600 \<and> length xs < 20 then
        (case frame_class mode b of
           Inl e \<Rightarrow> (Faulted e, xs)
         | Inr (ok, M, T) \<Rightarrow> if ok then (Taken True, xs @ [(M, T, b, 0)]) else (Taken False, xs))
      else (Taken False, xs))"
| "fifo_step mode Turn xs = (case xs of [] \<Rightarrow> (Served None, []) | x # xs' \<Rightarrow> (Served (Some x), xs'))"

fun run_steps :: "('o \<Rightarrow> 's \<Rightarrow> 'r \<times> 's) \<Rightarrow> 'o list \<Rightarrow> 's \<Rightarrow> 'r list \<times> 's" where
  "run_steps step [] s = ([], s)"
| "run_steps step (o1 # os) s =
     (let (r, s1) = step o1 s; (rs, s2) = run_steps step os s1 in (r # rs, s2))"

lemma mq_tail_free:
  assumes "mq_inv q" "q_Num q < MAX_LEN_OF_MLME_QUEUE"
  shows "\<not> ms_Occupied (q_Entry q ! q_Tail q)"
proof -
  note i = mq_invD [OF assms(1)]
  note ok = mq_okD [OF i(1)]
  have "mq_slot q (q_Num q) \<noteq> mq_slot q j" if "j < q_Num q" for j
    using mq_slot_inj [of "q_Num q" j q] assms(2) that by auto
  then show ?thesis using i(3) [OF ok(5)] ok(4) by auto
qed

lemma mq_step_refines:
  assumes "mq_inv q"
  shows "mq_inv (snd (mq_step mode opn q))"
    "fifo_step mode opn (map mq_view (mq_msgs q)) =
      (fst (mq_step mode opn q), map mq_view (mq_msgs (snd (mq_step mode opn q))))"
proof -
  note i = mq_invD [OF assms]
  note ok = mq_okD [OF i(1)]
  have "mq_inv (snd (mq_step mode opn q)) \<and> fifo_step mode opn (map mq_view (mq_msgs q)) =
      (fst (mq_step mode opn q), map mq_view (mq_msgs (snd (mq_step mode opn q))))"
  proof (cases opn)
    case (Send halting m)
    obtain M T b p where m: "m = (M, T, b, p)" by (cases m)
    show ?thesis
    proof (cases "halting \<or> 1600 < length b")
      case True
      then show ?thesis using assms by (auto simp: Send m MlmeEnqueue_def mlme_len)
    next
      case False
      then have b: "length b \<le> MGMT_DMA_BUFFER_SIZE" "\<not> halting" by (simp_all add: mlme_len)
      have "mq_step mode opn q = (Taken (fst (mq_send m q)), snd (mq_send m q))"
        using b by (simp add: Send m mq_send_def split_beta)
      moreover have "case m of (_, _, body, _) \<Rightarrow> length body \<le> MGMT_DMA_BUFFER_SIZE" using b m by simp
      note mlmeq.put [OF assms this]
      ultimately show ?thesis using b False by (simp add: Send m mlme_len not_less)
    qed
  next
    case (Receive halting ri b)
    show ?thesis
    proof (cases "halting \<or> 1600 < length b \<or> 20 \<le> q_Num q \<or> (\<nexists>M T. frame_class mode b = Inr (True, M, T))")
      case True
      then show ?thesis using assms
          mq_tail_free [OF assms]
        by (auto simp: Receive MlmeEnqueueForRecv_def MlmeQueueFull_def mlme_len split: sum.split prod.split)
    next
      case False
      then obtain M T where s: "frame_class mode b = Inr (True, M, T)" by auto
      have less: "q_Num q < MAX_LEN_OF_MLME_QUEUE" using False by (simp add: mlme_len)
      note free = mq_tail_free [OF assms less]
      let ?f = "mq_received ri M T (length b) b"
      have run: "mq_step mode (Receive halting ri b) q = (Taken True, mq_put ?f q)"
        using False s free by (simp add: MlmeEnqueueForRecv_def MlmeQueueFull_def mlme_len)
      have b: "length b \<le> MGMT_DMA_BUFFER_SIZE" using False by (simp add: mlme_len)
      have "mq_inv (mq_put ?f q)"
        using mq_put_inv(1) [OF assms less, of ?f] b i(2) [OF ok(5)] by (simp add: mq_received_def)
      moreover have "map mq_view (mq_msgs (mq_put ?f q)) = map mq_view (mq_msgs q) @ [(M, T, b, 0)]"
        using mq_put_ok(2) [OF i(1) less, of ?f] b by (simp add: mq_received_def mq_view_def)
      ultimately show ?thesis unfolding Receive run using False s by (simp add: not_less not_le)
    qed
  next
    case Turn
    show ?thesis
    proof (cases "q_Num q = 0")
      case True
      then show ?thesis using assms by (simp add: Turn MlmeQueueEmpty_def mq_msgs_def)
    next
      case False
      then have ne: "map mq_view (mq_msgs q) \<noteq> []" by (simp add: mq_msgs_def)
      note g = mlmeq.get [OF assms ne]
      have "map mq_view (mq_msgs q) = fst (mq_next q) # map mq_view (mq_msgs (snd (mq_next q)))"
        unfolding g(1,3) using ne by (rule list.collapse [symmetric])
      then show ?thesis using False g(2) by (simp add: Turn MlmeQueueEmpty_def split_beta)
    qed
  qed
  then show "mq_inv (snd (mq_step mode opn q))"
    "fifo_step mode opn (map mq_view (mq_msgs q)) =
      (fst (mq_step mode opn q), map mq_view (mq_msgs (snd (mq_step mode opn q))))" by simp_all
qed


text \<open>The element that is being handled no longer counts but is still in use. When the queue was
  full, a message sent meanwhile, for instance by the action that handles it, overwrites that element,
  and the handler then clears its length: the new message loses its body.\<close>

theorem mlme_full_queue_overwrites:
  assumes "mq_inv q" "q_Num q = MAX_LEN_OF_MLME_QUEUE" "length b \<le> MGMT_DMA_BUFFER_SIZE"
    "MlmeDequeue q = (i, q1)" "MlmeEnqueue False M T (length b) (Some b) p q1 = (ok, q2)"
  shows "ok \<and> mq_view (q_Entry q2 ! i) = (M, T, b, p) \<and>
    mq_view (last (mq_msgs (mq_free i q2))) = (M, T, [], p) \<and> \<not> ms_Occupied (last (mq_msgs (mq_free i q2)))"
proof -
  note iv = mq_invD [OF assms(1)]
  note okq = mq_okD [OF iv(1)]
  have pos: "0 < q_Num q" using assms(2) by (simp add: mlme_len)
  note d = mq_dequeue_ok [OF iv(1) pos, unfolded assms(4) fst_conv snd_conv]
  note ok1 = mq_okD [OF d(1)]
  have n1: "q_Num q1 = 39" using d(4) assms(2) by (simp add: mlme_len)
  have less: "q_Num q1 < MAX_LEN_OF_MLME_QUEUE" using n1 by (simp add: mlme_len)
  let ?f = "mq_own M T (length b) (Some b) p"
  have run: "ok = True" "q2 = mq_put ?f q1"
    using assms(3,5) n1 by (simp_all add: MlmeEnqueue_def MlmeQueueFull_def mlme_len)
  have t: "q_Tail q1 = i"
  proof -
    have "q_Tail q1 = mq_slot q 40" using ok1(4) n1 d(6) [of 40] by simp
    then show ?thesis using d(5) okq(3) by (simp add: mq_slot_def mlme_len)
  qed
  have il: "i < length (q_Entry q1)" using ok1(1,5) t by simp
  have len: "length (ms_Msg (q_Entry q1 ! i)) = MGMT_DMA_BUFFER_SIZE" using iv(2) [of i] d(3,5) okq(3) by simp
  have e2: "q_Entry q2 ! i = ?f (q_Entry q1 ! i)" using il t run(2) by (simp add: mq_put_def)
  have v: "mq_view (q_Entry q2 ! i) = (M, T, b, p)" using e2 assms(3) by (simp add: mq_view_def mq_own_def)
  have "q_Num q2 = 40" using run(2) n1 by (simp add: mq_put_def)
  then have len40: "length (mq_msgs (mq_free i q2)) = 40" by (simp add: mq_free_def)
  then have "mq_msgs (mq_free i q2) \<noteq> []" by (intro notI) simp
  then have "last (mq_msgs (mq_free i q2)) = mq_msgs (mq_free i q2) ! 39" using len40 by (simp add: last_conv_nth)
  then have "last (mq_msgs (mq_free i q2)) = q_Entry (mq_free i q2) ! mq_slot q2 39"
    using \<open>q_Num q2 = 40\<close> by (simp add: mq_msgs_def mq_free_def)
  moreover have "mq_slot q2 39 = i" using run(2) t ok1(4) n1 by (simp add: mq_put_def)
  ultimately have l: "last (mq_msgs (mq_free i q2)) = (q_Entry q2 ! i)\<lparr>ms_Occupied := False, ms_MsgLen := 0\<rparr>"
    using il run(2) by (simp add: mq_free_def mq_put_def)
  then show ?thesis using run(1) v unfolding l by (simp add: mq_view_def)
qed

text \<open>A full queue of messages without a body.\<close>

definition sample_msg :: "nat \<Rightarrow> bool \<Rightarrow> mlme_msg" where
  "sample_msg k occ = \<lparr>ms_Msg = replicate MGMT_DMA_BUFFER_SIZE 0, ms_Machine = 4, ms_MsgType = k, ms_MsgLen = 0,
     ms_TimeStamp = (0, 0), ms_Rssi = (0, 0, 0), ms_Signal = 0, ms_Channel = 1, ms_Wcid = RESERVED_WCID,
     ms_Occupied = occ, ms_OpMode = 0, ms_Priv = 0\<rparr>"

definition sample_queue :: "nat \<Rightarrow> mlme_queue" where
  "sample_queue n = \<lparr>q_Num = n, q_Head = 0, q_Tail = n mod MAX_LEN_OF_MLME_QUEUE,
     q_Entry = map (\<lambda>k. sample_msg k (k < n)) [0..<MAX_LEN_OF_MLME_QUEUE]\<rparr>"

lemma sample_queue_inv: "n \<le> MAX_LEN_OF_MLME_QUEUE \<Longrightarrow> mq_inv (sample_queue n)"
  by (auto simp: mq_inv_def mq_ok_def sample_queue_def mq_slot_def sample_msg_def mlme_len)


lemma mlme_full_queue_overwrites_witness:
  "\<exists>i q1 ok q2. MlmeDequeue (sample_queue 40) = (i, q1) \<and>
    MlmeEnqueue False 2 0 (length [7, 7 :: u8]) (Some [7, 7]) 0 q1 = (ok, q2) \<and>
    ok \<and> mq_view (q_Entry q2 ! i) = (2, 0, [7, 7], 0) \<and>
    mq_view (last (mq_msgs (mq_free i q2))) = (2, 0, [], 0) \<and> \<not> ms_Occupied (last (mq_msgs (mq_free i q2)))"
proof -
  obtain i q1 where d: "MlmeDequeue (sample_queue 40) = (i, q1)" by (cases "MlmeDequeue (sample_queue 40)")
  obtain ok q2 where e: "MlmeEnqueue False 2 0 (length [7, 7 :: u8]) (Some [7, 7]) 0 q1 = (ok, q2)"
    by (cases "MlmeEnqueue False 2 0 (length [7, 7 :: u8]) (Some [7, 7]) 0 q1")
  have inv: "mq_inv (sample_queue 40)" "q_Num (sample_queue 40) = MAX_LEN_OF_MLME_QUEUE"
      "length [7, 7 :: u8] \<le> MGMT_DMA_BUFFER_SIZE"
    by (rule sample_queue_inv) (simp_all add: mlme_len sample_queue_def)
  show ?thesis
    by (rule exI [of _ i], rule exI [of _ q1], rule exI [of _ ok], rule exI [of _ q2],
        rule conjI [OF d], rule conjI [OF e], rule mlme_full_queue_overwrites [OF inv d e])
qed

end
