(* ===== verification/MlmeMachine.thy ===== *)
theory MlmeMachine
  imports MlmeQueue
begin

text \<open>
  The state machines of the management code and their driver: the engine and the MLME task of
  \<^verbatim>\<open>common/mlme.c\<close>, and the tables that \<^verbatim>\<open>ap/ap_auth.c\<close>, \<^verbatim>\<open>ap/ap_assoc.c\<close>, \<^verbatim>\<open>ap/ap_sync.c\<close>,
  \<^verbatim>\<open>sta/assoc.c\<close>, \<^verbatim>\<open>sta/auth.c\<close>, \<^verbatim>\<open>sta/auth_rsp.c\<close>, \<^verbatim>\<open>sta/sync.c\<close>, \<^verbatim>\<open>common/action.c\<close> and
  \<^verbatim>\<open>common/cmm_wpa.c\<close> fill in. A pointer to a handler is the handler's name; what handlers do to the
  MLME state is an argument of the task.
\<close>

subsection \<open>States\<close>

definition CNTL_IDLE :: nat where [mlme_numbers]: "CNTL_IDLE = 0"
definition ASSOC_IDLE :: nat where [mlme_numbers]: "ASSOC_IDLE = 0"
definition ASSOC_WAIT_RSP :: nat where [mlme_numbers]: "ASSOC_WAIT_RSP = 1"
definition REASSOC_WAIT_RSP :: nat where [mlme_numbers]: "REASSOC_WAIT_RSP = 2"
definition DISASSOC_WAIT_RSP :: nat where [mlme_numbers]: "DISASSOC_WAIT_RSP = 3"
definition MAX_ASSOC_STATE :: nat where [mlme_numbers]: "MAX_ASSOC_STATE = 4"
definition AUTH_REQ_IDLE :: nat where [mlme_numbers]: "AUTH_REQ_IDLE = 0"
definition AUTH_WAIT_SEQ2 :: nat where [mlme_numbers]: "AUTH_WAIT_SEQ2 = 1"
definition AUTH_WAIT_SEQ4 :: nat where [mlme_numbers]: "AUTH_WAIT_SEQ4 = 2"
definition MAX_AUTH_STATE :: nat where [mlme_numbers]: "MAX_AUTH_STATE = 3"
definition AUTH_RSP_IDLE :: nat where [mlme_numbers]: "AUTH_RSP_IDLE = 0"
definition AUTH_RSP_WAIT_CHAL :: nat where [mlme_numbers]: "AUTH_RSP_WAIT_CHAL = 1"
definition MAX_AUTH_RSP_STATE :: nat where [mlme_numbers]: "MAX_AUTH_RSP_STATE = 2"
definition SYNC_IDLE :: nat where [mlme_numbers]: "SYNC_IDLE = 0"
definition JOIN_WAIT_BEACON :: nat where [mlme_numbers]: "JOIN_WAIT_BEACON = 1"
definition SCAN_LISTEN :: nat where [mlme_numbers]: "SCAN_LISTEN = 2"
definition SCAN_PENDING :: nat where [mlme_numbers]: "SCAN_PENDING = 3"
definition MAX_SYNC_STATE :: nat where [mlme_numbers]: "MAX_SYNC_STATE = 4"
definition ACT_IDLE :: nat where [mlme_numbers]: "ACT_IDLE = 0"
definition MAX_ACT_STATE :: nat where [mlme_numbers]: "MAX_ACT_STATE = 1"
definition AP_ASSOC_IDLE :: nat where [mlme_numbers]: "AP_ASSOC_IDLE = 0"
definition AP_MAX_ASSOC_STATE :: nat where [mlme_numbers]: "AP_MAX_ASSOC_STATE = 1"
definition AP_AUTH_REQ_IDLE :: nat where [mlme_numbers]: "AP_AUTH_REQ_IDLE = 0"
definition AP_MAX_AUTH_STATE :: nat where [mlme_numbers]: "AP_MAX_AUTH_STATE = 1"
definition AP_SYNC_IDLE :: nat where [mlme_numbers]: "AP_SYNC_IDLE = 0"
definition AP_SCAN_LISTEN :: nat where [mlme_numbers]: "AP_SCAN_LISTEN = 1"
definition AP_MAX_SYNC_STATE :: nat where [mlme_numbers]: "AP_MAX_SYNC_STATE = 2"
definition WPA_PTK :: nat where [mlme_numbers]: "WPA_PTK = 0"
definition MAX_WPA_PTK_STATE :: nat where [mlme_numbers]: "MAX_WPA_PTK_STATE = 1"

text \<open>The sizes of the arrays of function pointers in the MLME structure.\<close>

definition ASSOC_FUNC_SIZE :: nat where "ASSOC_FUNC_SIZE = MAX_ASSOC_STATE * MAX_ASSOC_MSG"
definition AUTH_FUNC_SIZE :: nat where "AUTH_FUNC_SIZE = MAX_AUTH_STATE * MAX_AUTH_MSG"
definition AUTH_RSP_FUNC_SIZE :: nat where "AUTH_RSP_FUNC_SIZE = MAX_AUTH_RSP_STATE * MAX_AUTH_RSP_MSG"
definition SYNC_FUNC_SIZE :: nat where "SYNC_FUNC_SIZE = MAX_SYNC_STATE * MAX_SYNC_MSG"
definition ACT_FUNC_SIZE :: nat where "ACT_FUNC_SIZE = MAX_ACT_STATE * MAX_ACT_MSG"
definition AP_ASSOC_FUNC_SIZE :: nat where "AP_ASSOC_FUNC_SIZE = AP_MAX_ASSOC_STATE * AP_MAX_ASSOC_MSG"
definition AP_AUTH_FUNC_SIZE :: nat where "AP_AUTH_FUNC_SIZE = AP_MAX_AUTH_STATE * AP_MAX_AUTH_MSG"
definition AP_SYNC_FUNC_SIZE :: nat where "AP_SYNC_FUNC_SIZE = AP_MAX_SYNC_STATE * AP_MAX_SYNC_MSG"
definition WPA_FUNC_SIZE :: nat where "WPA_FUNC_SIZE = MAX_WPA_PTK_STATE * MAX_WPA_MSG"

lemmas func_sizes = ASSOC_FUNC_SIZE_def AUTH_FUNC_SIZE_def AUTH_RSP_FUNC_SIZE_def SYNC_FUNC_SIZE_def
  ACT_FUNC_SIZE_def AP_ASSOC_FUNC_SIZE_def AP_AUTH_FUNC_SIZE_def AP_SYNC_FUNC_SIZE_def WPA_FUNC_SIZE_def

text \<open>The handlers. The last three are the bodies of the control machine that have no function of their own.\<close>

datatype (plugins only: size) mlme_action =
    Act_Drop
  | Act_APMlmeDeauthReqAction | Act_APPeerDeauthReqAction | Act_APPeerAuthReqAtIdleAction
  | Act_APPeerAuthConfirmAction
  | Act_APMlmeDisassocReqAction | Act_APPeerDisassocReqAction | Act_APPeerAssocReqAction
  | Act_APPeerReassocReqAction
  | Act_APPeerProbeReqAction | Act_APPeerBeaconAction | Act_APMlmeScanReqAction | Act_APInvalidStateWhenScan
  | Act_APPeerBeaconAtScanAction | Act_APScanTimeoutAction | Act_APScanCnclAction
  | Act_PeerSpectrumAction | Act_PeerQOSAction | Act_ReservedAction | Act_PeerBAAction | Act_PeerHTAction
  | Act_PeerVHTAction | Act_MlmeADDBAAction | Act_MlmeDELBAAction | Act_PeerPublicAction | Act_PeerRMAction
  | Act_MlmeQOSAction | Act_MlmeDLSAction | Act_MlmeInvalidAction
  | Act_WpaEAPPacketAction | Act_WpaEAPOLStartAction | Act_WpaEAPOLLogoffAction | Act_WpaEAPOLKeyAction
  | Act_WpaEAPOLASFAlertAction
  | Act_MlmeAssocReqAction | Act_MlmeReassocReqAction | Act_MlmeDisassocReqAction | Act_PeerDisassocAction
  | Act_InvalidStateWhenAssoc | Act_InvalidStateWhenReassoc | Act_InvalidStateWhenDisassociate
  | Act_PeerAssocRspAction | Act_PeerReassocRspAction | Act_AssocTimeoutAction | Act_ReassocTimeoutAction
  | Act_DisassocTimeoutAction
  | Act_MlmeAuthReqAction | Act_InvalidStateWhenAuth | Act_PeerAuthRspAtSeq2Action
  | Act_PeerAuthRspAtSeq4Action | Act_AuthTimeoutAction | Act_PeerDeauthAction
  | Act_MlmeScanReqAction | Act_MlmeForceScanReqAction | Act_MlmeJoinReqAction | Act_MlmeForceJoinReqAction
  | Act_MlmeStartReqAction | Act_PeerBeacon | Act_PeerProbeReqAction | Act_InvalidStateWhenStart
  | Act_PeerBeaconAtJoinAction | Act_BeaconTimeoutAtJoinAction | Act_PeerBeaconAtScanAction
  | Act_ScanTimeoutAction
  | Act_CntlIdleProc | Act_CntlWaitDisassocProc | Act_CntlWaitJoinProc | Act_CntlWaitReassocProc
  | Act_CntlWaitStartProc | Act_CntlWaitAuthProc | Act_CntlWaitAssocProc | Act_CntlWaitAuthProc2
  | Act_CntlScanDone | Act_CntlDisassocDone | Act_CntlScanForConnectDone

subsection \<open>The engine\<close>

text \<open>\<open>TransFunc\<close> is nothing for a null pointer, and so is a cell that was never set.\<close>

record state_machine =
  sm_Base :: nat
  sm_NrState :: nat
  sm_NrMsg :: nat
  sm_CurrState :: nat
  sm_TransFunc :: "mlme_action option list option"

definition StateMachineInit :: "mlme_action option list \<Rightarrow> nat \<Rightarrow> nat \<Rightarrow> mlme_action \<Rightarrow> nat \<Rightarrow> nat \<Rightarrow>
    c_fault + state_machine" where
  "StateMachineInit Trans StNr MsgNr DefFunc InitState Base =
     (if length Trans < StNr * MsgNr then Inl OOBWrite
      else Inr \<lparr>sm_Base = Base, sm_NrState = StNr, sm_NrMsg = MsgNr, sm_CurrState = InitState,
        sm_TransFunc = Some (fold (\<lambda>i tf. fold (\<lambda>j tf. tf[i * MsgNr + j := Some DefFunc]) [0..<MsgNr] tf)
          [0..<StNr] Trans)\<rparr>)"

text \<open>Unsigned longs: a type below the base wraps to a large number.\<close>

definition StateMachineSetAction :: "nat \<Rightarrow> nat \<Rightarrow> mlme_action \<Rightarrow> state_machine \<Rightarrow> state_machine" where
  "StateMachineSetAction St Msg Act S =
     (let MsgIdx = (Msg + (2 ^ 64 - sm_Base S)) mod 2 ^ 64 in
      if St < sm_NrState S \<and> MsgIdx < sm_NrMsg S
      then S\<lparr>sm_TransFunc := map_option (\<lambda>tf. tf[St * sm_NrMsg S + MsgIdx := Some Act]) (sm_TransFunc S)\<rparr>
      else S)"

text \<open>The handler that is called, or nothing for a null cell.\<close>

definition StateMachinePerformAction :: "state_machine \<Rightarrow> nat \<Rightarrow> nat \<Rightarrow> c_fault + mlme_action option" where
  "StateMachinePerformAction S MsgType CurrState =
     (case sm_TransFunc S of
        None \<Rightarrow> Inl NullDeref
      | Some tf \<Rightarrow>
          let i = (CurrState * sm_NrMsg S + MsgType + (2 ^ 64 - sm_Base S)) mod 2 ^ 64 in
          if i < length tf then Inr (tf ! i) else Inl OOBRead)"

definition set_actions :: "(nat \<times> nat \<times> mlme_action) list \<Rightarrow> state_machine \<Rightarrow> state_machine" where
  "set_actions xs S = fold (\<lambda>(St, Msg, f). StateMachineSetAction St Msg f) xs S"

text \<open>A table: every cell of the states and types is set.\<close>

definition table_ok :: "nat \<Rightarrow> nat \<Rightarrow> state_machine \<Rightarrow> bool" where
  "table_ok n k S \<longleftrightarrow> sm_Base S = 0 \<and> sm_NrState S = n \<and> sm_NrMsg S = k \<and>
     (\<exists>tf. sm_TransFunc S = Some tf \<and> length tf = n * k \<and> None \<notin> set tf)"

lemma length_row: "length (fold (\<lambda>j tf. tf[b + j := v]) js tf) = length tf"
  by (induction js arbitrary: tf) auto

lemma length_rows: "length (fold (\<lambda>i tf. fold (\<lambda>j tf. tf[i * k + j := v]) js tf) is tf) = length tf"
  by (induction "is" arbitrary: tf) (simp_all add: length_row)

lemma set_row:
  "b + n \<le> length tf \<Longrightarrow> fold (\<lambda>j tf. tf[b + j := v]) [0..<n] tf = take b tf @ replicate n v @ drop (b + n) tf"
proof (induction n)
  case (Suc n)
  have d: "drop (b + n) tf = tf ! (b + n) # drop (b + Suc n) tf" using Suc.prems by (simp add: Cons_nth_drop_Suc)
  have "fold (\<lambda>j tf. tf[b + j := v]) [0..<Suc n] tf = (take b tf @ replicate n v @ drop (b + n) tf)[b + n := v]"
    using Suc by simp
  also have "\<dots> = take b tf @ replicate n v @ v # drop (b + Suc n) tf"
    using Suc.prems unfolding d by (simp add: list_update_append min_absorb2)
  finally show ?case by (simp add: replicate_append_same [symmetric])
qed simp

lemma set_rows:
  "n * k \<le> length tf \<Longrightarrow> fold (\<lambda>i tf. fold (\<lambda>j tf. tf[i * k + j := v]) [0..<k] tf) [0..<n] tf =
    replicate (n * k) v @ drop (n * k) tf"
proof (induction n)
  case (Suc n)
  have le: "n * k + k \<le> length (replicate (n * k) v @ drop (n * k) tf)" using Suc.prems by simp
  have "fold (\<lambda>i tf. fold (\<lambda>j tf. tf[i * k + j := v]) [0..<k] tf) [0..<Suc n] tf =
      fold (\<lambda>j tf. tf[n * k + j := v]) [0..<k] (replicate (n * k) v @ drop (n * k) tf)"
    using Suc by simp
  also have "\<dots> = replicate (n * k) v @ replicate k v @ drop (n * k + k) tf"
    unfolding set_row [OF le] by (simp add: add.commute)
  finally show ?case by (simp add: replicate_add [symmetric] add.commute)
qed simp

lemma StateMachineInit_ok:
  "length Trans = n * k \<Longrightarrow> StateMachineInit Trans n k f s 0 =
    Inr \<lparr>sm_Base = 0, sm_NrState = n, sm_NrMsg = k, sm_CurrState = s, sm_TransFunc = Some (replicate (n * k) (Some f))\<rparr>"
  by (simp add: StateMachineInit_def set_rows)

lemma set_action_ok:
  assumes "table_ok n k S"
  shows "table_ok n k (StateMachineSetAction St Msg f S) \<and>
    sm_CurrState (StateMachineSetAction St Msg f S) = sm_CurrState S"
proof -
  obtain tf where "sm_TransFunc S = Some tf" "None \<notin> set tf" using assms by (auto simp: table_ok_def)
  then show ?thesis using assms set_update_subset_insert [of tf _ "Some f"]
    by (auto simp: table_ok_def StateMachineSetAction_def Let_def)
qed

lemma set_actions_ok:
  "table_ok n k S \<Longrightarrow> table_ok n k (set_actions xs S) \<and> sm_CurrState (set_actions xs S) = sm_CurrState S"
  by (induction xs arbitrary: S) (auto simp: set_actions_def set_action_ok)

lemma init_actions_ok:
  assumes "length Trans = n * k"
  shows "\<exists>S. map_sum id (set_actions xs) (StateMachineInit Trans n k f s 0) = Inr S \<and> table_ok n k S \<and>
    sm_CurrState S = s"
proof -
  let ?S = "\<lparr>sm_Base = 0, sm_NrState = n, sm_NrMsg = k, sm_CurrState = s,
    sm_TransFunc = Some (replicate (n * k) (Some f))\<rparr>"
  have "table_ok n k ?S" by (simp add: table_ok_def)
  note set_actions_ok [OF this, of xs]
  moreover have "sm_CurrState ?S = s" by simp
  ultimately show ?thesis unfolding StateMachineInit_ok [OF assms] by simp
qed

lemma cell_index_less: "s < n \<Longrightarrow> m < k \<Longrightarrow> s * k + m < n * (k :: nat)"
proof -
  assume "s < n" "m < k"
  then have "s * k + m < s * k + k" by simp
  also have "\<dots> = Suc s * k" by simp
  also have "\<dots> \<le> n * k" using \<open>s < n\<close> by (intro mult_le_mono1) simp
  finally show "s * k + m < n * k" .
qed

lemma perform_ok:
  assumes "table_ok n k S" "s < n" "t < k" "n * k < 2 ^ 64"
  shows "\<exists>a. StateMachinePerformAction S t s = Inr (Some a)"
proof -
  obtain tf where tf: "sm_TransFunc S = Some tf" "length tf = n * k" "None \<notin> set tf" "sm_Base S = 0" "sm_NrMsg S = k"
    using assms(1) by (auto simp: table_ok_def)
  have i: "s * k + t < n * k" using assms(2,3) by (rule cell_index_less)
  then have "(s * k + t + 2 ^ 64) mod 2 ^ 64 = s * k + t" using assms(4) by (subst mod_add_self2) simp
  moreover have "tf ! (s * k + t) \<noteq> None" using tf(2,3) i by (metis nth_mem)
  ultimately show ?thesis using tf i by (auto simp: StateMachinePerformAction_def)
qed

end
