(* ===== verification/MlmeTask.thy ===== *)
theory MlmeTask
  imports MlmeMachine
begin

text \<open>
  The tables of the state machines, their set-up in \<^verbatim>\<open>MlmeInit\<close>, and the task that takes messages from the
  queue and calls the handler of the message's machine, state and type.
\<close>

subsection \<open>Tables of the access point\<close>

definition APAuthStateMachineInit :: "mlme_action option list \<Rightarrow> c_fault + state_machine" where
  "APAuthStateMachineInit Trans = map_sum id (set_actions
     [(AP_AUTH_REQ_IDLE, APMT2_MLME_DEAUTH_REQ, Act_APMlmeDeauthReqAction),
      (AP_AUTH_REQ_IDLE, APMT2_PEER_DEAUTH, Act_APPeerDeauthReqAction),
      (AP_AUTH_REQ_IDLE, APMT2_PEER_AUTH_REQ, Act_APPeerAuthReqAtIdleAction),
      (AP_AUTH_REQ_IDLE, APMT2_PEER_AUTH_CONFIRM, Act_APPeerAuthConfirmAction)])
     (StateMachineInit Trans AP_MAX_AUTH_STATE AP_MAX_AUTH_MSG Act_Drop AP_AUTH_REQ_IDLE 0)"

definition APAssocStateMachineInit :: "mlme_action option list \<Rightarrow> c_fault + state_machine" where
  "APAssocStateMachineInit Trans = map_sum id (set_actions
     [(AP_ASSOC_IDLE, APMT2_MLME_DISASSOC_REQ, Act_APMlmeDisassocReqAction),
      (AP_ASSOC_IDLE, APMT2_PEER_DISASSOC_REQ, Act_APPeerDisassocReqAction),
      (AP_ASSOC_IDLE, APMT2_PEER_ASSOC_REQ, Act_APPeerAssocReqAction),
      (AP_ASSOC_IDLE, APMT2_PEER_REASSOC_REQ, Act_APPeerReassocReqAction)])
     (StateMachineInit Trans AP_MAX_ASSOC_STATE AP_MAX_ASSOC_MSG Act_Drop AP_ASSOC_IDLE 0)"

definition APSyncStateMachineInit :: "mlme_action option list \<Rightarrow> c_fault + state_machine" where
  "APSyncStateMachineInit Trans = map_sum id (set_actions
     [(AP_SYNC_IDLE, APMT2_PEER_PROBE_REQ, Act_APPeerProbeReqAction),
      (AP_SYNC_IDLE, APMT2_PEER_BEACON, Act_APPeerBeaconAction),
      (AP_SYNC_IDLE, APMT2_MLME_SCAN_REQ, Act_APMlmeScanReqAction),
      (AP_SCAN_LISTEN, APMT2_MLME_SCAN_REQ, Act_APInvalidStateWhenScan),
      (AP_SCAN_LISTEN, APMT2_PEER_BEACON, Act_APPeerBeaconAtScanAction),
      (AP_SCAN_LISTEN, APMT2_PEER_PROBE_RSP, Act_APPeerBeaconAtScanAction),
      (AP_SCAN_LISTEN, APMT2_SCAN_TIMEOUT, Act_APScanTimeoutAction),
      (AP_SCAN_LISTEN, APMT2_MLME_SCAN_CNCL, Act_APScanCnclAction)])
     (StateMachineInit Trans AP_MAX_SYNC_STATE AP_MAX_SYNC_MSG Act_Drop AP_SYNC_IDLE 0)"

subsection \<open>Tables of both modes\<close>

definition ActionStateMachineInit :: "mlme_action option list \<Rightarrow> c_fault + state_machine" where
  "ActionStateMachineInit Trans = map_sum id (set_actions
     [(ACT_IDLE, MT2_PEER_SPECTRUM_CATE, Act_PeerSpectrumAction),
      (ACT_IDLE, MT2_PEER_QOS_CATE, Act_PeerQOSAction),
      (ACT_IDLE, MT2_PEER_DLS_CATE, Act_ReservedAction),
      (ACT_IDLE, MT2_PEER_BA_CATE, Act_PeerBAAction),
      (ACT_IDLE, MT2_PEER_HT_CATE, Act_PeerHTAction),
      (ACT_IDLE, MT2_PEER_VHT_CATE, Act_PeerVHTAction),
      (ACT_IDLE, MT2_MLME_ADD_BA_CATE, Act_MlmeADDBAAction),
      (ACT_IDLE, MT2_MLME_ORI_DELBA_CATE, Act_MlmeDELBAAction),
      (ACT_IDLE, MT2_MLME_REC_DELBA_CATE, Act_MlmeDELBAAction),
      (ACT_IDLE, MT2_PEER_PUBLIC_CATE, Act_PeerPublicAction),
      (ACT_IDLE, MT2_PEER_RM_CATE, Act_PeerRMAction),
      (ACT_IDLE, MT2_MLME_QOS_CATE, Act_MlmeQOSAction),
      (ACT_IDLE, MT2_MLME_DLS_CATE, Act_MlmeDLSAction),
      (ACT_IDLE, MT2_ACT_INVALID, Act_MlmeInvalidAction)])
     (StateMachineInit Trans MAX_ACT_STATE MAX_ACT_MSG Act_Drop ACT_IDLE 0)"

definition WpaStateMachineInit :: "mlme_action option list \<Rightarrow> c_fault + state_machine" where
  "WpaStateMachineInit Trans = map_sum id (set_actions
     [(WPA_PTK, MT2_EAPPacket, Act_WpaEAPPacketAction),
      (WPA_PTK, MT2_EAPOLStart, Act_WpaEAPOLStartAction),
      (WPA_PTK, MT2_EAPOLLogoff, Act_WpaEAPOLLogoffAction),
      (WPA_PTK, MT2_EAPOLKey, Act_WpaEAPOLKeyAction),
      (WPA_PTK, MT2_EAPOLASFAlert, Act_WpaEAPOLASFAlertAction)])
     (StateMachineInit Trans MAX_WPA_PTK_STATE MAX_WPA_MSG Act_Drop WPA_PTK 0)"

subsection \<open>Tables of the station\<close>

definition AssocStateMachineInit :: "mlme_action option list \<Rightarrow> c_fault + state_machine" where
  "AssocStateMachineInit Trans = map_sum id (set_actions
     [(ASSOC_IDLE, MT2_MLME_ASSOC_REQ, Act_MlmeAssocReqAction),
      (ASSOC_IDLE, MT2_MLME_REASSOC_REQ, Act_MlmeReassocReqAction),
      (ASSOC_IDLE, MT2_MLME_DISASSOC_REQ, Act_MlmeDisassocReqAction),
      (ASSOC_IDLE, MT2_PEER_DISASSOC_REQ, Act_PeerDisassocAction),
      (ASSOC_WAIT_RSP, MT2_MLME_ASSOC_REQ, Act_InvalidStateWhenAssoc),
      (ASSOC_WAIT_RSP, MT2_MLME_REASSOC_REQ, Act_InvalidStateWhenReassoc),
      (ASSOC_WAIT_RSP, MT2_MLME_DISASSOC_REQ, Act_InvalidStateWhenDisassociate),
      (ASSOC_WAIT_RSP, MT2_PEER_DISASSOC_REQ, Act_PeerDisassocAction),
      (ASSOC_WAIT_RSP, MT2_PEER_ASSOC_RSP, Act_PeerAssocRspAction),
      (ASSOC_WAIT_RSP, MT2_PEER_REASSOC_RSP, Act_PeerAssocRspAction),
      (ASSOC_WAIT_RSP, MT2_ASSOC_TIMEOUT, Act_AssocTimeoutAction),
      (REASSOC_WAIT_RSP, MT2_MLME_ASSOC_REQ, Act_InvalidStateWhenAssoc),
      (REASSOC_WAIT_RSP, MT2_MLME_REASSOC_REQ, Act_InvalidStateWhenReassoc),
      (REASSOC_WAIT_RSP, MT2_MLME_DISASSOC_REQ, Act_InvalidStateWhenDisassociate),
      (REASSOC_WAIT_RSP, MT2_PEER_DISASSOC_REQ, Act_PeerDisassocAction),
      (REASSOC_WAIT_RSP, MT2_PEER_REASSOC_RSP, Act_PeerReassocRspAction),
      (REASSOC_WAIT_RSP, MT2_PEER_ASSOC_RSP, Act_PeerReassocRspAction),
      (REASSOC_WAIT_RSP, MT2_REASSOC_TIMEOUT, Act_ReassocTimeoutAction),
      (DISASSOC_WAIT_RSP, MT2_MLME_ASSOC_REQ, Act_InvalidStateWhenAssoc),
      (DISASSOC_WAIT_RSP, MT2_MLME_REASSOC_REQ, Act_InvalidStateWhenReassoc),
      (DISASSOC_WAIT_RSP, MT2_MLME_DISASSOC_REQ, Act_InvalidStateWhenDisassociate),
      (DISASSOC_WAIT_RSP, MT2_PEER_DISASSOC_REQ, Act_PeerDisassocAction),
      (DISASSOC_WAIT_RSP, MT2_DISASSOC_TIMEOUT, Act_DisassocTimeoutAction)])
     (StateMachineInit Trans MAX_ASSOC_STATE MAX_ASSOC_MSG Act_Drop ASSOC_IDLE 0)"

definition AuthStateMachineInit :: "mlme_action option list \<Rightarrow> c_fault + state_machine" where
  "AuthStateMachineInit Trans = map_sum id (set_actions
     [(AUTH_REQ_IDLE, MT2_MLME_AUTH_REQ, Act_MlmeAuthReqAction),
      (AUTH_WAIT_SEQ2, MT2_MLME_AUTH_REQ, Act_InvalidStateWhenAuth),
      (AUTH_WAIT_SEQ2, MT2_PEER_AUTH_EVEN, Act_PeerAuthRspAtSeq2Action),
      (AUTH_WAIT_SEQ2, MT2_AUTH_TIMEOUT, Act_AuthTimeoutAction),
      (AUTH_WAIT_SEQ4, MT2_MLME_AUTH_REQ, Act_InvalidStateWhenAuth),
      (AUTH_WAIT_SEQ4, MT2_PEER_AUTH_EVEN, Act_PeerAuthRspAtSeq4Action),
      (AUTH_WAIT_SEQ4, MT2_AUTH_TIMEOUT, Act_AuthTimeoutAction)])
     (StateMachineInit Trans MAX_AUTH_STATE MAX_AUTH_MSG Act_Drop AUTH_REQ_IDLE 0)"

definition AuthRspStateMachineInit :: "mlme_action option list \<Rightarrow> c_fault + state_machine" where
  "AuthRspStateMachineInit Trans = map_sum id (set_actions
     [(AUTH_RSP_IDLE, MT2_PEER_DEAUTH, Act_PeerDeauthAction),
      (AUTH_RSP_WAIT_CHAL, MT2_PEER_DEAUTH, Act_PeerDeauthAction)])
     (StateMachineInit Trans MAX_AUTH_RSP_STATE MAX_AUTH_RSP_MSG Act_Drop AUTH_RSP_IDLE 0)"

definition SyncStateMachineInit :: "mlme_action option list \<Rightarrow> c_fault + state_machine" where
  "SyncStateMachineInit Trans = map_sum id (set_actions
     [(SYNC_IDLE, MT2_MLME_SCAN_REQ, Act_MlmeScanReqAction),
      (SYNC_IDLE, MT2_MLME_FORCE_SCAN_REQ, Act_MlmeForceScanReqAction),
      (SYNC_IDLE, MT2_MLME_JOIN_REQ, Act_MlmeJoinReqAction),
      (SYNC_IDLE, MT2_MLME_FORCE_JOIN_REQ, Act_MlmeForceJoinReqAction),
      (SYNC_IDLE, MT2_MLME_START_REQ, Act_MlmeStartReqAction),
      (SYNC_IDLE, MT2_PEER_BEACON, Act_PeerBeacon),
      (SYNC_IDLE, MT2_PEER_PROBE_REQ, Act_PeerProbeReqAction),
      (JOIN_WAIT_BEACON, MT2_MLME_JOIN_REQ, Act_MlmeJoinReqAction),
      (JOIN_WAIT_BEACON, MT2_MLME_START_REQ, Act_InvalidStateWhenStart),
      (JOIN_WAIT_BEACON, MT2_PEER_BEACON, Act_PeerBeaconAtJoinAction),
      (JOIN_WAIT_BEACON, MT2_BEACON_TIMEOUT, Act_BeaconTimeoutAtJoinAction),
      (JOIN_WAIT_BEACON, MT2_PEER_PROBE_RSP, Act_PeerBeaconAtScanAction),
      (SCAN_LISTEN, MT2_MLME_JOIN_REQ, Act_MlmeJoinReqAction),
      (SCAN_LISTEN, MT2_MLME_START_REQ, Act_InvalidStateWhenStart),
      (SCAN_LISTEN, MT2_PEER_BEACON, Act_PeerBeaconAtScanAction),
      (SCAN_LISTEN, MT2_PEER_PROBE_RSP, Act_PeerBeaconAtScanAction),
      (SCAN_LISTEN, MT2_SCAN_TIMEOUT, Act_ScanTimeoutAction),
      (SCAN_PENDING, MT2_MLME_SCAN_REQ, Act_MlmeScanReqAction),
      (SCAN_PENDING, MT2_PEER_BEACON, Act_PeerBeacon)])
     (StateMachineInit Trans MAX_SYNC_STATE MAX_SYNC_MSG Act_Drop SYNC_IDLE 0)"

subsection \<open>The MLME structure\<close>

text \<open>
  \<open>ml_Halted\<close> stands for the four flags that stop the task. \<open>ml_trace\<close> logs the calls of handlers, with
  nothing for a message that no handler was called for.
\<close>

record mlme =
  ml_OpMode :: op_mode
  ml_Queue :: mlme_queue
  ml_bRunning :: bool
  ml_Halted :: bool
  CntlMachine :: state_machine
  AssocMachine :: state_machine
  AuthMachine :: state_machine
  AuthRspMachine :: state_machine
  SyncMachine :: state_machine
  WpaPskMachine :: state_machine
  ActMachine :: state_machine
  ApAssocMachine :: state_machine
  ApAuthMachine :: state_machine
  ApSyncMachine :: state_machine
  WpaMachine :: state_machine
  ml_trace :: "(mlme_action option \<times> mlme_body) list"

definition cleared :: "nat \<Rightarrow> mlme_action option list" where
  "cleared n = replicate n None"

definition ApMlmeInit :: "mlme \<Rightarrow> c_fault + mlme" where
  "ApMlmeInit st =
     f_bind (APAssocStateMachineInit (cleared AP_ASSOC_FUNC_SIZE)) (\<lambda>s1.
     f_bind (APAuthStateMachineInit (cleared AP_AUTH_FUNC_SIZE)) (\<lambda>s2.
     f_bind (APSyncStateMachineInit (cleared AP_SYNC_FUNC_SIZE)) (\<lambda>s3.
       Inr (st\<lparr>ApAssocMachine := s1, ApAuthMachine := s2, ApSyncMachine := s3\<rparr>))))"

definition sta_mlme_init :: "mlme \<Rightarrow> c_fault + mlme" where
  "sta_mlme_init st =
     f_bind (AssocStateMachineInit (cleared ASSOC_FUNC_SIZE)) (\<lambda>s1.
     f_bind (AuthStateMachineInit (cleared AUTH_FUNC_SIZE)) (\<lambda>s2.
     f_bind (AuthRspStateMachineInit (cleared AUTH_RSP_FUNC_SIZE)) (\<lambda>s3.
     f_bind (SyncStateMachineInit (cleared SYNC_FUNC_SIZE)) (\<lambda>s4.
       Inr (st\<lparr>AssocMachine := s1, AuthMachine := s2, AuthRspMachine := s3, SyncMachine := s4,
         CntlMachine := (CntlMachine st)\<lparr>sm_CurrState := CNTL_IDLE\<rparr>\<rparr>)))))"

text \<open>Timers, the table of networks found and the start of the thread are left out.\<close>

definition MlmeInit :: "mlme \<Rightarrow> c_fault + mlme" where
  "MlmeInit st =
     f_bind ((case ml_OpMode st of OPMODE_STA \<Rightarrow> sta_mlme_init | OPMODE_AP \<Rightarrow> ApMlmeInit)
       (st\<lparr>ml_Queue := MlmeQueueInit (ml_Queue st), ml_bRunning := False\<rparr>)) (\<lambda>st.
     f_bind (WpaStateMachineInit (cleared WPA_FUNC_SIZE)) (\<lambda>s1.
     f_bind (ActionStateMachineInit (cleared ACT_FUNC_SIZE)) (\<lambda>s2.
       Inr (st\<lparr>WpaMachine := s1, ActMachine := s2\<rparr>))))"

subsection \<open>The task\<close>

text \<open>The control machine of the station is a switch over its state, not a table.\<close>

definition MlmeCntlMachinePerformAction :: "nat \<Rightarrow> nat \<Rightarrow> mlme_action option" where
  "MlmeCntlMachinePerformAction CurrState MsgType =
     (if CurrState = 0 then Some Act_CntlIdleProc
      else if CurrState = 1 then Some Act_CntlWaitDisassocProc
      else if CurrState = 2 then Some Act_CntlWaitJoinProc
      else if CurrState = 3 then Some Act_CntlWaitReassocProc
      else if CurrState = 4 then Some Act_CntlWaitStartProc
      else if CurrState = 5 then Some Act_CntlWaitAuthProc
      else if CurrState = 7 then Some Act_CntlWaitAuthProc2
      else if CurrState = 6 then Some Act_CntlWaitAssocProc
      else if CurrState = 8 then (if MsgType = MT2_SCAN_CONF then Some Act_CntlScanDone else None)
      else if CurrState = 9 then (if MsgType = MT2_DISASSOC_CONF then Some Act_CntlDisassocDone else None)
      else if CurrState = 10 then (if MsgType = MT2_SCAN_CONF then Some Act_CntlScanForConnectDone else None)
      else None)"

definition perform_in :: "state_machine \<Rightarrow> nat \<Rightarrow> c_fault + mlme_action option" where
  "perform_in S MsgType = StateMachinePerformAction S MsgType (sm_CurrState S)"

definition mlme_dispatch :: "'a mlme_scheme \<Rightarrow> nat \<Rightarrow> nat \<Rightarrow> c_fault + mlme_action option" where
  "mlme_dispatch st Machine MsgType =
     (if Machine = ASSOC_STATE_MACHINE then perform_in (AssocMachine st) MsgType
      else if Machine = AUTH_STATE_MACHINE then perform_in (AuthMachine st) MsgType
      else if Machine = AUTH_RSP_STATE_MACHINE then perform_in (AuthRspMachine st) MsgType
      else if Machine = SYNC_STATE_MACHINE then perform_in (SyncMachine st) MsgType
      else if Machine = MLME_CNTL_STATE_MACHINE then
        Inr (MlmeCntlMachinePerformAction (sm_CurrState (CntlMachine st)) MsgType)
      else if Machine = WPA_PSK_STATE_MACHINE then perform_in (WpaPskMachine st) MsgType
      else if Machine = ACTION_STATE_MACHINE then perform_in (ActMachine st) MsgType
      else if Machine = AP_ASSOC_STATE_MACHINE then perform_in (ApAssocMachine st) MsgType
      else if Machine = AP_AUTH_STATE_MACHINE then perform_in (ApAuthMachine st) MsgType
      else if Machine = AP_SYNC_STATE_MACHINE then perform_in (ApSyncMachine st) MsgType
      else if Machine = WPA_STATE_MACHINE then perform_in (WpaMachine st) MsgType
      else Inr None)"

text \<open>The states go back to idle; timers, channel and transmission are left out.\<close>

definition to_idle :: "nat \<Rightarrow> state_machine \<Rightarrow> state_machine" where
  "to_idle s S = S\<lparr>sm_CurrState := s\<rparr>"

definition MlmeRestartStateMachine :: "'a mlme_scheme \<Rightarrow> 'a mlme_scheme" where
  "MlmeRestartStateMachine st =
     (case ml_OpMode st of
        OPMODE_AP \<Rightarrow> st
      | OPMODE_STA \<Rightarrow> st\<lparr>CntlMachine := to_idle CNTL_IDLE (CntlMachine st),
          AssocMachine := to_idle ASSOC_IDLE (AssocMachine st),
          AuthMachine := to_idle AUTH_REQ_IDLE (AuthMachine st),
          AuthRspMachine := to_idle AUTH_RSP_IDLE (AuthRspMachine st),
          SyncMachine := to_idle SYNC_IDLE (SyncMachine st),
          ActMachine := to_idle ACT_IDLE (ActMachine st)\<rparr>)"

text \<open>
  \<open>perform a m st\<close> is what handler \<open>a\<close> does with message \<open>m\<close>; the state can have further fields that
  belong to the handlers.
\<close>

type_synonym 'a handlers = "mlme_action \<Rightarrow> mlme_msg \<Rightarrow> 'a mlme_scheme \<Rightarrow> 'a mlme_scheme run"

definition mlme_turn :: "'a handlers \<Rightarrow> 'a mlme_scheme \<Rightarrow> 'a mlme_scheme run" where
  "mlme_turn perform st =
     (let (i, q) = MlmeDequeue (ml_Queue st); Elem = q_Entry q ! i; st1 = st\<lparr>ml_Queue := q\<rparr>;
          free = ml_Queue_update (mq_free i) in
      if ms_MsgType Elem = MT2_RESET_CONF then r_return (free (MlmeRestartStateMachine st1))
      else r_bind (r_lift (mlme_dispatch st1 (ms_Machine Elem) (ms_MsgType Elem))) (\<lambda>a.
        let st2 = st1\<lparr>ml_trace := ml_trace st1 @ [(a, mq_view Elem)]\<rparr> in
        r_bind (case a of None \<Rightarrow> r_return st2 | Some f \<Rightarrow> perform f Elem st2) (\<lambda>st3. r_return (free st3))))"

partial_function (option) mlme_loop :: "'a handlers \<Rightarrow> 'a mlme_scheme \<Rightarrow> 'a mlme_scheme run" where
  "mlme_loop perform st =
     (if MlmeQueueEmpty (ml_Queue st) \<or> ml_Halted st then Some (Inr st)
      else case mlme_turn perform st of
          None \<Rightarrow> None
        | Some (Inl e) \<Rightarrow> Some (Inl e)
        | Some (Inr st1) \<Rightarrow> mlme_loop perform st1)"

definition MlmeHandler :: "'a handlers \<Rightarrow> 'a mlme_scheme \<Rightarrow> 'a mlme_scheme run" where
  "MlmeHandler perform st =
     (if ml_bRunning st then r_return st
      else r_bind (mlme_loop perform (st\<lparr>ml_bRunning := True\<rparr>)) (\<lambda>st1. r_return (st1\<lparr>ml_bRunning := False\<rparr>)))"

subsection \<open>Well-formed machines\<close>

text \<open>A machine is a set-up table in one of its states: handlers change the state only.\<close>

definition machine_of :: "c_fault + state_machine \<Rightarrow> state_machine \<Rightarrow> bool" where
  "machine_of init S \<longleftrightarrow> (\<exists>S0. init = Inr S0 \<and> to_idle (sm_CurrState S0) S = S0 \<and> sm_CurrState S < sm_NrState S)"

definition mlme_wf :: "'a mlme_scheme \<Rightarrow> bool" where
  "mlme_wf st \<longleftrightarrow>
     (case ml_OpMode st of
        OPMODE_AP \<Rightarrow>
          machine_of (APAssocStateMachineInit (cleared AP_ASSOC_FUNC_SIZE)) (ApAssocMachine st) \<and>
          machine_of (APAuthStateMachineInit (cleared AP_AUTH_FUNC_SIZE)) (ApAuthMachine st) \<and>
          machine_of (APSyncStateMachineInit (cleared AP_SYNC_FUNC_SIZE)) (ApSyncMachine st)
      | OPMODE_STA \<Rightarrow>
          machine_of (AssocStateMachineInit (cleared ASSOC_FUNC_SIZE)) (AssocMachine st) \<and>
          machine_of (AuthStateMachineInit (cleared AUTH_FUNC_SIZE)) (AuthMachine st) \<and>
          machine_of (AuthRspStateMachineInit (cleared AUTH_RSP_FUNC_SIZE)) (AuthRspMachine st) \<and>
          machine_of (SyncStateMachineInit (cleared SYNC_FUNC_SIZE)) (SyncMachine st)) \<and>
     machine_of (ActionStateMachineInit (cleared ACT_FUNC_SIZE)) (ActMachine st) \<and>
     machine_of (WpaStateMachineInit (cleared WPA_FUNC_SIZE)) (WpaMachine st)"

end
