(* ===== verification/MlmeTaskProps.thy ===== *)
theory MlmeTaskProps
  imports MlmeTask
begin

text \<open>
  Properties of the state machines and of the task: frames find a handler inside the tables, the access
  point's frames the handler meant for them, and the task serves the whole queue in order and ends.
\<close>

subsection \<open>Tables\<close>

definition good_init :: "c_fault + state_machine \<Rightarrow> nat \<Rightarrow> nat \<Rightarrow> bool" where
  "good_init init n k \<longleftrightarrow> (\<exists>S. init = Inr S \<and> table_ok n k S \<and> sm_CurrState S = 0) \<and> 0 < n \<and> n * k < 2 ^ 64"

lemma good_initI:
  assumes "length Trans = n * k" "0 < n" "n * k < 2 ^ 64"
  shows "good_init (map_sum id (set_actions xs) (StateMachineInit Trans n k f 0 0)) n k"
  using init_actions_ok [OF assms(1), of xs f 0] assms(2,3) by (simp add: good_init_def)

lemma good_inits:
  "good_init (APAssocStateMachineInit (cleared AP_ASSOC_FUNC_SIZE)) 1 AP_MAX_ASSOC_MSG"
  "good_init (APAuthStateMachineInit (cleared AP_AUTH_FUNC_SIZE)) 1 AP_MAX_AUTH_MSG"
  "good_init (APSyncStateMachineInit (cleared AP_SYNC_FUNC_SIZE)) 2 AP_MAX_SYNC_MSG"
  "good_init (AssocStateMachineInit (cleared ASSOC_FUNC_SIZE)) 4 MAX_ASSOC_MSG"
  "good_init (AuthStateMachineInit (cleared AUTH_FUNC_SIZE)) 3 MAX_AUTH_MSG"
  "good_init (AuthRspStateMachineInit (cleared AUTH_RSP_FUNC_SIZE)) 2 MAX_AUTH_RSP_MSG"
  "good_init (SyncStateMachineInit (cleared SYNC_FUNC_SIZE)) 4 MAX_SYNC_MSG"
  "good_init (ActionStateMachineInit (cleared ACT_FUNC_SIZE)) 1 MAX_ACT_MSG"
  "good_init (WpaStateMachineInit (cleared WPA_FUNC_SIZE)) 1 MAX_WPA_MSG"
  unfolding APAssocStateMachineInit_def APAuthStateMachineInit_def APSyncStateMachineInit_def
    AssocStateMachineInit_def AuthStateMachineInit_def AuthRspStateMachineInit_def SyncStateMachineInit_def
    ActionStateMachineInit_def WpaStateMachineInit_def mlme_numbers
  by (rule good_initI; simp add: cleared_def func_sizes mlme_numbers)+

lemma to_idle_table [simp]: "table_ok n k (to_idle s S) = table_ok n k S"
  by (simp add: to_idle_def table_ok_def)

lemma machine_of_init:
  assumes "good_init init n k" "init = Inr S"
  shows "machine_of init S"
proof -
  have S: "table_ok n k S" "sm_CurrState S = 0" "0 < n" using assms by (simp_all add: good_init_def)
  then have "sm_CurrState S < sm_NrState S" by (simp add: table_ok_def)
  moreover have "to_idle (sm_CurrState S) S = S" by (simp add: to_idle_def)
  ultimately show ?thesis using assms(2) unfolding machine_of_def by blast
qed

lemma machine_of_perform:
  assumes "good_init init n k" "machine_of init S" "t < k"
  shows "\<exists>a. perform_in S t = Inr (Some a)"
proof -
  obtain S0 where S0: "init = Inr S0" "to_idle (sm_CurrState S0) S = S0" "sm_CurrState S < sm_NrState S"
    using assms(2) by (auto simp: machine_of_def)
  then have "table_ok n k S0" using assms(1) by (auto simp: good_init_def)
  then have "table_ok n k (to_idle (sm_CurrState S0) S)" by (simp only: S0(2))
  then have "table_ok n k S" by simp
  moreover have "sm_CurrState S < n" using S0(3) \<open>table_ok n k S\<close> by (simp add: table_ok_def)
  ultimately show ?thesis unfolding perform_in_def using assms(1,3) perform_ok by (simp add: good_init_def)
qed

subsection \<open>Initial state\<close>

lemma mlme_init_ready:
  assumes "length (q_Entry (ml_Queue st)) = MAX_LEN_OF_MLME_QUEUE"
  shows "\<exists>st1. MlmeInit st = Inr st1 \<and> mlme_wf st1 \<and> mq_inv (ml_Queue st1) \<and> q_Num (ml_Queue st1) = 0 \<and>
    \<not> ml_bRunning st1 \<and> ml_OpMode st1 = ml_OpMode st \<and> ml_Halted st1 = ml_Halted st \<and> ml_trace st1 = ml_trace st"
proof -
  note g = good_inits [THEN good_init_def [THEN iffD1], THEN conjunct1]
  obtain a1 a2 a3 where ap: "APAssocStateMachineInit (cleared AP_ASSOC_FUNC_SIZE) = Inr a1"
      "APAuthStateMachineInit (cleared AP_AUTH_FUNC_SIZE) = Inr a2"
      "APSyncStateMachineInit (cleared AP_SYNC_FUNC_SIZE) = Inr a3"
    using g(1-3) by blast
  obtain s1 s2 s3 s4 where sta: "AssocStateMachineInit (cleared ASSOC_FUNC_SIZE) = Inr s1"
      "AuthStateMachineInit (cleared AUTH_FUNC_SIZE) = Inr s2"
      "AuthRspStateMachineInit (cleared AUTH_RSP_FUNC_SIZE) = Inr s3"
      "SyncStateMachineInit (cleared SYNC_FUNC_SIZE) = Inr s4"
    using g(4-7) by blast
  obtain c1 c2 where cmn: "ActionStateMachineInit (cleared ACT_FUNC_SIZE) = Inr c1"
      "WpaStateMachineInit (cleared WPA_FUNC_SIZE) = Inr c2"
    using g(8,9) by blast
  note mo = good_inits [THEN machine_of_init]
  note mo_ap = mo(1) [OF ap(1)] mo(2) [OF ap(2)] mo(3) [OF ap(3)]
  note mo_sta = mo(4) [OF sta(1)] mo(5) [OF sta(2)] mo(6) [OF sta(3)] mo(7) [OF sta(4)]
  note mo_cmn = mo(8) [OF cmn(1)] mo(9) [OF cmn(2)]
  have q: "mq_inv (MlmeQueueInit (ml_Queue st))" "q_Num (MlmeQueueInit (ml_Queue st)) = 0"
    using assms by (auto simp: mq_inv_def mq_ok_def mq_slot_def MlmeQueueInit_def mlme_len)
  show ?thesis
  proof (cases "ml_OpMode st")
    case OPMODE_STA
    then show ?thesis using mo_sta mo_cmn q
      by (simp add: MlmeInit_def sta_mlme_init_def sta cmn mlme_wf_def)
  next
    case OPMODE_AP
    then show ?thesis using mo_ap mo_cmn q
      by (simp add: MlmeInit_def ApMlmeInit_def ap cmn mlme_wf_def)
  qed
qed

subsection \<open>Dispatch\<close>

lemma dispatch_air:
  assumes "mlme_wf st" "(M, n) \<in> set (air_machines (ml_OpMode st))" "T < n"
  shows "\<exists>a. mlme_dispatch st M T = Inr (Some a)"
proof -
  note p = good_inits [THEN machine_of_perform]
  show ?thesis
  proof (cases "ml_OpMode st")
    case OPMODE_STA
    then have wf: "machine_of (AssocStateMachineInit (cleared ASSOC_FUNC_SIZE)) (AssocMachine st)"
        "machine_of (AuthStateMachineInit (cleared AUTH_FUNC_SIZE)) (AuthMachine st)"
        "machine_of (AuthRspStateMachineInit (cleared AUTH_RSP_FUNC_SIZE)) (AuthRspMachine st)"
        "machine_of (SyncStateMachineInit (cleared SYNC_FUNC_SIZE)) (SyncMachine st)"
        "machine_of (ActionStateMachineInit (cleared ACT_FUNC_SIZE)) (ActMachine st)"
        "machine_of (WpaStateMachineInit (cleared WPA_FUNC_SIZE)) (WpaMachine st)"
      using assms(1) by (simp_all add: mlme_wf_def)
    have c: "M = ASSOC_STATE_MACHINE \<and> n = MAX_ASSOC_MSG \<or> M = AUTH_STATE_MACHINE \<and> n = MAX_AUTH_MSG \<or>
        M = AUTH_RSP_STATE_MACHINE \<and> n = MAX_AUTH_RSP_MSG \<or> M = SYNC_STATE_MACHINE \<and> n = MAX_SYNC_MSG \<or>
        M = ACTION_STATE_MACHINE \<and> n = MAX_ACT_MSG \<or> M = WPA_STATE_MACHINE \<and> n = MAX_WPA_MSG"
      using assms(2) by (auto simp: air_machines_def OPMODE_STA)
    note r = p(4) [OF wf(1), of T] p(5) [OF wf(2), of T] p(6) [OF wf(3), of T] p(7) [OF wf(4), of T]
      p(8) [OF wf(5), of T] p(9) [OF wf(6), of T]
    show ?thesis using c r assms(3) unfolding mlme_dispatch_def mlme_numbers by (elim disjE conjE) simp_all
  next
    case OPMODE_AP
    then have wf: "machine_of (APAssocStateMachineInit (cleared AP_ASSOC_FUNC_SIZE)) (ApAssocMachine st)"
        "machine_of (APAuthStateMachineInit (cleared AP_AUTH_FUNC_SIZE)) (ApAuthMachine st)"
        "machine_of (APSyncStateMachineInit (cleared AP_SYNC_FUNC_SIZE)) (ApSyncMachine st)"
        "machine_of (ActionStateMachineInit (cleared ACT_FUNC_SIZE)) (ActMachine st)"
        "machine_of (WpaStateMachineInit (cleared WPA_FUNC_SIZE)) (WpaMachine st)"
      using assms(1) by (simp_all add: mlme_wf_def)
    have c: "M = AP_ASSOC_STATE_MACHINE \<and> n = AP_MAX_ASSOC_MSG \<or> M = AP_AUTH_STATE_MACHINE \<and> n = AP_MAX_AUTH_MSG \<or>
        M = AP_SYNC_STATE_MACHINE \<and> n = AP_MAX_SYNC_MSG \<or>
        M = ACTION_STATE_MACHINE \<and> n = MAX_ACT_MSG \<or> M = WPA_STATE_MACHINE \<and> n = MAX_WPA_MSG"
      using assms(2) by (auto simp: air_machines_def OPMODE_AP)
    note r = p(1) [OF wf(1), of T] p(2) [OF wf(2), of T] p(3) [OF wf(3), of T]
      p(8) [OF wf(4), of T] p(9) [OF wf(5), of T]
    show ?thesis using c r assms(3) unfolding mlme_dispatch_def mlme_numbers by (elim disjE conjE) simp_all
  qed
qed


subsection \<open>The handlers of the access point\<close>

text \<open>Which handler a frame is for, read off the standard: \<open>scanning\<close> tells whether the access point scans.\<close>

definition category_handler :: "u8 \<Rightarrow> mlme_action" where
  "category_handler c =
     (if 21 < c then Act_MlmeInvalidAction
      else if c = 0 then Act_PeerSpectrumAction else if c = 1 then Act_PeerQOSAction
      else if c = 2 then Act_ReservedAction else if c = 3 then Act_PeerBAAction
      else if c = 4 then Act_PeerPublicAction else if c = 5 then Act_PeerRMAction
      else if c = 7 then Act_PeerHTAction else if c = 21 then Act_PeerVHTAction else Act_Drop)"

definition eapol_handler :: "u8 \<Rightarrow> mlme_action option" where
  "eapol_handler t =
     (if t = 0 then Some Act_WpaEAPPacketAction else if t = 1 then Some Act_WpaEAPOLStartAction
      else if t = 2 then Some Act_WpaEAPOLLogoffAction else if t = 3 then Some Act_WpaEAPOLKeyAction
      else if t = 4 then Some Act_WpaEAPOLASFAlertAction else None)"

definition ap_handler :: "bool \<Rightarrow> bytes \<Rightarrow> mlme_action option" where
  "ap_handler scanning fr =
     (let s = fc_SubType fr; Seq = frame_octet16 fr 2 in
      if fc_Type fr = 2 then eapol_handler (fr ! 33)
      else if fc_Type fr \<noteq> 0 then None
      else if s = 0 then Some Act_APPeerAssocReqAction
      else if s = 2 then Some Act_APPeerReassocReqAction
      else if s = 4 then Some (if scanning then Act_Drop else Act_APPeerProbeReqAction)
      else if s = 5 then Some (if scanning then Act_APPeerBeaconAtScanAction else Act_Drop)
      else if s = 8 then Some (if scanning then Act_APPeerBeaconAtScanAction else Act_APPeerBeaconAction)
      else if s = 10 then Some Act_APPeerDisassocReqAction
      else if s = 11 then
        (if Seq = 1 then Some Act_APPeerAuthReqAtIdleAction
         else if Seq = 3 then Some Act_APPeerAuthConfirmAction else None)
      else if s = 12 then Some Act_APPeerDeauthReqAction
      else if s = 13 \<or> s = 14 then Some (category_handler (frame_octet fr 0 AND 0x7F))
      else None)"

text \<open>A table as a map: the last action set for a state and a type, otherwise the default.\<close>

definition action_map :: "(nat \<times> nat \<times> mlme_action) list \<Rightarrow> nat \<times> nat \<Rightarrow> mlme_action option" where
  "action_map xs = map_of (rev (map (\<lambda>(s, m, f). ((s, m), f)) xs))"

lemma cell_inj:
  assumes "s * k + m = s' * k + m'" "m < k" "m' < (k :: nat)"
  shows "s = s' \<and> m = m'"
proof -
  have "(s * k + m) div k = s" "(s * k + m) mod k = m" "(s' * k + m') div k = s'" "(s' * k + m') mod k = m'"
    using assms(2,3) by simp_all
  then show ?thesis using assms(1) by metis
qed

lemma perform_table:
  assumes "table_ok n k S" "n * k < 2 ^ 64" "s < n" "t < k" "sm_TransFunc S = Some tf"
  shows "StateMachinePerformAction S t s = Inr (tf ! (s * k + t))"
proof -
  have i: "s * k + t < n * k" using assms(3,4) by (rule cell_index_less)
  then have "(s * k + t + 2 ^ 64) mod 2 ^ 64 = s * k + t" using assms(2) by (subst mod_add_self2) simp
  then show ?thesis using assms i by (auto simp: StateMachinePerformAction_def table_ok_def)
qed

lemma set_action_cell:
  assumes ok: "table_ok n k S" and nk: "n * k < 2 ^ 64" and c: "s < n" "t < k" and "St < n" "Msg < k"
  shows "StateMachinePerformAction (StateMachineSetAction St Msg f S) t s =
    (if St = s \<and> Msg = t then Inr (Some f) else StateMachinePerformAction S t s)"
proof -
  obtain tf where tf: "sm_TransFunc S = Some tf" "length tf = n * k" "sm_Base S = 0" "sm_NrMsg S = k" "sm_NrState S = n"
    using ok by (auto simp: table_ok_def)
  have "k \<le> n * k" using \<open>St < n\<close> by (cases n) simp_all
  then have "Msg < 2 ^ 64" using \<open>Msg < k\<close> nk by linarith
  then have "(Msg + 2 ^ 64) mod 2 ^ 64 = Msg" by (subst mod_add_self2) simp
  then have set: "sm_TransFunc (StateMachineSetAction St Msg f S) = Some (tf[St * k + Msg := Some f])"
    using assms(5,6) tf by (simp add: StateMachineSetAction_def)
  have "table_ok n k (StateMachineSetAction St Msg f S)" using set_action_ok [OF ok] by blast
  note perform_table [OF this nk c set]
  moreover note perform_table [OF ok nk c tf(1)]
  moreover have "St * k + Msg < length tf" unfolding tf(2) using assms(5,6) by (rule cell_index_less)
  ultimately show ?thesis using cell_inj [of St k Msg s t] c(2) assms(6) by (auto simp: nth_list_update)
qed

lemma set_actions_cell:
  assumes "table_ok n k S" "n * k < 2 ^ 64" "s < n" "t < k" "\<forall>(St, Msg, f)\<in>set xs. St < n \<and> Msg < k"
  shows "StateMachinePerformAction (set_actions xs S) t s =
    (case action_map xs (s, t) of Some f \<Rightarrow> Inr (Some f) | None \<Rightarrow> StateMachinePerformAction S t s)"
  using assms(1,5)
proof (induction xs arbitrary: S)
  case (Cons x xs)
  obtain St Msg f where x: "x = (St, Msg, f)" by (cases x)
  let ?S = "StateMachineSetAction St Msg f S"
  have "table_ok n k ?S" using set_action_ok [OF Cons.prems(1)] by blast
  from Cons.IH [OF this] Cons.prems(2)
  have "StateMachinePerformAction (set_actions (x # xs) S) t s =
      (case action_map xs (s, t) of Some f \<Rightarrow> Inr (Some f) | None \<Rightarrow> StateMachinePerformAction ?S t s)"
    by (simp add: set_actions_def x)
  moreover have "StateMachinePerformAction ?S t s =
      (if St = s \<and> Msg = t then Inr (Some f) else StateMachinePerformAction S t s)"
    by (rule set_action_cell [OF Cons.prems(1) assms(2-4)]) (use Cons.prems(2) x in simp_all)
  ultimately show ?case by (auto simp: action_map_def x map_add_def split: option.split)
qed (simp add: set_actions_def action_map_def)

lemma machine_of_cell:
  assumes "machine_of (map_sum id (set_actions xs) (StateMachineInit (cleared (n * k)) n k f s 0)) S"
    "n * k < 2 ^ 64" "t < k" "list_all (\<lambda>(St, Msg, f). St < n \<and> Msg < k) xs"
  shows "perform_in S t = Inr (Some (case action_map xs (sm_CurrState S, t) of Some a \<Rightarrow> a | None \<Rightarrow> f))"
    and "sm_CurrState S < n"
proof -
  let ?S = "\<lparr>sm_Base = 0, sm_NrState = n, sm_NrMsg = k, sm_CurrState = s,
    sm_TransFunc = Some (replicate (n * k) (Some f))\<rparr>"
  have "StateMachineInit (cleared (n * k)) n k f s 0 = Inr ?S"
    by (rule StateMachineInit_ok) (simp add: cleared_def)
  then obtain S0 where S0: "S0 = set_actions xs ?S" "to_idle (sm_CurrState S0) S = S0" "sm_CurrState S < sm_NrState S"
    using assms(1) by (auto simp: machine_of_def)
  have t: "table_ok n k ?S" by (simp add: table_ok_def)
  then have "table_ok n k S0" unfolding S0(1) using set_actions_ok by blast
  then have "table_ok n k (to_idle (sm_CurrState S0) S)" by (simp only: S0(2))
  then show c: "sm_CurrState S < n" using S0(3) by (simp add: table_ok_def to_idle_def)
  have "perform_in S t = StateMachinePerformAction (to_idle (sm_CurrState S0) S) t (sm_CurrState S)"
    by (simp add: to_idle_def StateMachinePerformAction_def perform_in_def split: option.split)
  also have "\<dots> = StateMachinePerformAction (set_actions xs ?S) t (sm_CurrState S)"
    unfolding S0(2) by (simp only: S0(1))
  also have "\<dots> = Inr (Some (case action_map xs (sm_CurrState S, t) of Some a \<Rightarrow> a | None \<Rightarrow> f))"
    using set_actions_cell [OF t assms(2) c assms(3)] assms(4) perform_table [OF t assms(2) c assms(3)]
      cell_index_less [OF c assms(3)]
    by (auto simp: list_all_iff split: option.split)
  finally show "perform_in S t = Inr (Some (case action_map xs (sm_CurrState S, t) of Some a \<Rightarrow> a | None \<Rightarrow> f))" .
qed

lemma ap_cells:
  assumes "mlme_wf st" "ml_OpMode st = OPMODE_AP"
  shows "t < 5 \<Longrightarrow> perform_in (ApAssocMachine st) t = Inr (Some
      ([Act_APMlmeDisassocReqAction, Act_APPeerDisassocReqAction, Act_APPeerAssocReqAction,
        Act_APPeerReassocReqAction, Act_Drop] ! t))"
    "t < 5 \<Longrightarrow> perform_in (ApAuthMachine st) t = Inr (Some
      ([Act_APMlmeDeauthReqAction, Act_Drop, Act_APPeerDeauthReqAction, Act_APPeerAuthReqAtIdleAction,
        Act_APPeerAuthConfirmAction] ! t))"
    "t < 3 \<Longrightarrow> perform_in (ApSyncMachine st) t = Inr (Some
      ((if sm_CurrState (ApSyncMachine st) = 1 then [Act_Drop, Act_APPeerBeaconAtScanAction, Act_APPeerBeaconAtScanAction]
        else [Act_APPeerProbeReqAction, Act_APPeerBeaconAction, Act_Drop]) ! t))"
proof -
  have w: "machine_of (APAssocStateMachineInit (cleared AP_ASSOC_FUNC_SIZE)) (ApAssocMachine st)"
      "machine_of (APAuthStateMachineInit (cleared AP_AUTH_FUNC_SIZE)) (ApAuthMachine st)"
      "machine_of (APSyncStateMachineInit (cleared AP_SYNC_FUNC_SIZE)) (ApSyncMachine st)"
    using assms by (simp_all add: mlme_wf_def)
  note c = machine_of_cell [OF w(1) [unfolded APAssocStateMachineInit_def AP_ASSOC_FUNC_SIZE_def]]
    machine_of_cell [OF w(2) [unfolded APAuthStateMachineInit_def AP_AUTH_FUNC_SIZE_def]]
    machine_of_cell [OF w(3) [unfolded APSyncStateMachineInit_def AP_SYNC_FUNC_SIZE_def]]
  show "perform_in (ApAssocMachine st) t = Inr (Some
      ([Act_APMlmeDisassocReqAction, Act_APPeerDisassocReqAction, Act_APPeerAssocReqAction,
        Act_APPeerReassocReqAction, Act_Drop] ! t))" if "t < 5"
  proof -
    have "t \<in> {0, 1, 2, 3, 4}" using that by auto
    then show ?thesis using c(1,2) [of t] by (auto simp: mlme_numbers action_map_def)
  qed
  show "perform_in (ApAuthMachine st) t = Inr (Some
      ([Act_APMlmeDeauthReqAction, Act_Drop, Act_APPeerDeauthReqAction, Act_APPeerAuthReqAtIdleAction,
        Act_APPeerAuthConfirmAction] ! t))" if "t < 5"
  proof -
    have "t \<in> {0, 1, 2, 3, 4}" using that by auto
    then show ?thesis using c(3,4) [of t] by (auto simp: mlme_numbers action_map_def)
  qed
  show "perform_in (ApSyncMachine st) t = Inr (Some
      ((if sm_CurrState (ApSyncMachine st) = 1 then [Act_Drop, Act_APPeerBeaconAtScanAction, Act_APPeerBeaconAtScanAction]
        else [Act_APPeerProbeReqAction, Act_APPeerBeaconAction, Act_Drop]) ! t))" if "t < 3"
  proof -
    have "t \<in> {0, 1, 2}" using that by auto
    moreover have "sm_CurrState (ApSyncMachine st) = 0 \<or> sm_CurrState (ApSyncMachine st) = 1"
      using c(6) [of 0] by (auto simp: mlme_numbers)
    ultimately show ?thesis using c(5) [of t] by (auto simp: mlme_numbers action_map_def)
  qed
qed

lemma common_cells:
  assumes "mlme_wf st"
  shows "t < 5 \<Longrightarrow> perform_in (WpaMachine st) t = Inr (Some
      ([Act_WpaEAPPacketAction, Act_WpaEAPOLStartAction, Act_WpaEAPOLLogoffAction, Act_WpaEAPOLKeyAction,
        Act_WpaEAPOLASFAlertAction] ! t))"
    "perform_in (ActMachine st) MT2_ACT_INVALID = Inr (Some Act_MlmeInvalidAction)"
    "c \<le> 21 \<Longrightarrow> perform_in (ActMachine st) (unat c) = Inr (Some (category_handler c))"
proof -
  have w: "machine_of (ActionStateMachineInit (cleared ACT_FUNC_SIZE)) (ActMachine st)"
      "machine_of (WpaStateMachineInit (cleared WPA_FUNC_SIZE)) (WpaMachine st)"
    using assms by (simp_all add: mlme_wf_def)
  note c1 = machine_of_cell [OF w(1) [unfolded ActionStateMachineInit_def ACT_FUNC_SIZE_def]]
  note c2 = machine_of_cell [OF w(2) [unfolded WpaStateMachineInit_def WPA_FUNC_SIZE_def]]
  show "perform_in (WpaMachine st) t = Inr (Some
      ([Act_WpaEAPPacketAction, Act_WpaEAPOLStartAction, Act_WpaEAPOLLogoffAction, Act_WpaEAPOLKeyAction,
        Act_WpaEAPOLASFAlertAction] ! t))" if "t < 5"
  proof -
    have "t \<in> {0, 1, 2, 3, 4}" using that by auto
    then show ?thesis using c2 [of t] by (auto simp: mlme_numbers action_map_def)
  qed
  have s: "sm_CurrState (ActMachine st) = 0" using c1(2) [of 0] by (simp add: mlme_numbers)
  show "perform_in (ActMachine st) MT2_ACT_INVALID = Inr (Some Act_MlmeInvalidAction)"
    using c1(1) [of MT2_ACT_INVALID] s by (simp add: mlme_numbers action_map_def)
  show "perform_in (ActMachine st) (unat c) = Inr (Some (category_handler c))" if "c \<le> 21"
  proof -
    have u: "unat c = k \<longleftrightarrow> c = word_of_nat k" if "k < 256" for k
      using that by (auto simp: unat_of_nat take_bit_eq_mod)
    have "unat c < 28" using that by (simp add: word_le_nat_alt)
    then show ?thesis using c1(1) [of "unat c"] s that
      by (simp add: mlme_numbers action_map_def category_handler_def u not_less [symmetric] split: if_splits)
  qed
qed


subsection \<open>The task serves the queue\<close>

text \<open>
  Handlers may move the machines between their states and change their own part of the state, which
  \<open>J\<close> speaks of; they leave queue, flags and log alone. \<open>ok\<close> restricts the messages that come. A message can
  be served when it resets the machines, or is of a type that its machine has, or is for the control
  machine or for no machine.
\<close>

definition well_behaved :: "('a \<Rightarrow> bool) \<Rightarrow> (mlme_msg \<Rightarrow> bool) \<Rightarrow> 'a handlers \<Rightarrow> bool" where
  "well_behaved J ok perform \<longleftrightarrow> (\<forall>a m st. J (mlme.more st) \<and> mlme_wf st \<and> ok m \<and>
     mlme_dispatch st (ms_Machine m) (ms_MsgType m) = Inr (Some a) \<longrightarrow>
     (\<exists>st1. perform a m st = r_return st1 \<and> J (mlme.more st1) \<and> mlme_wf st1 \<and> ml_Queue st1 = ml_Queue st \<and>
       ml_Halted st1 = ml_Halted st \<and> ml_OpMode st1 = ml_OpMode st \<and> ml_trace st1 = ml_trace st))"

lemma well_behavedD:
  assumes "well_behaved J ok perform" "J (mlme.more st)" "mlme_wf st" "ok m"
    "mlme_dispatch st (ms_Machine m) (ms_MsgType m) = Inr (Some a)"
  obtains st1 where "perform a m st = r_return st1" "J (mlme.more st1)" "mlme_wf st1" "ml_Queue st1 = ml_Queue st"
    "ml_Halted st1 = ml_Halted st" "ml_OpMode st1 = ml_OpMode st" "ml_trace st1 = ml_trace st"
  using assms unfolding well_behaved_def by blast

fun servable :: "op_mode \<Rightarrow> mlme_body \<Rightarrow> bool" where
  "servable mode (M, T, b, p) \<longleftrightarrow> T = MT2_RESET_CONF \<or> (\<exists>(M', n)\<in>set (air_machines mode). M' = M \<and> T < n) \<or>
     M \<notin> {1, 2, 3, 4, 6, 9, 11, 12, 14, 23}"

lemma wf_update_simps [simp]:
  "mlme_wf (ml_Queue_update f st) = mlme_wf st" "mlme_wf (ml_trace_update g st) = mlme_wf st"
  "mlme_wf (ml_bRunning_update h st) = mlme_wf st"
  by (simp_all add: mlme_wf_def split: op_mode.split)

lemma dispatch_update_simps [simp]:
  "mlme_dispatch (ml_Queue_update f st) = mlme_dispatch st"
  "mlme_dispatch (ml_trace_update g st) = mlme_dispatch st"
  by (intro ext, simp add: mlme_dispatch_def)+

lemma machine_of_idle:
  assumes "good_init init n k" "machine_of init S"
  shows "machine_of init (to_idle 0 S)"
proof -
  obtain S0 where S0: "init = Inr S0" "to_idle (sm_CurrState S0) S = S0" using assms(2) by (auto simp: machine_of_def)
  have t: "table_ok n k S0" "sm_CurrState S0 = 0" "0 < n" using assms(1) S0(1) by (simp_all add: good_init_def)
  have "table_ok n k (to_idle 0 S)" using t(1) S0(2) t(2) by simp
  then have "sm_CurrState (to_idle 0 S) < sm_NrState (to_idle 0 S)"
    using t(3) unfolding table_ok_def by (simp add: to_idle_def)
  moreover have "to_idle (sm_CurrState S0) (to_idle 0 S) = S0" using S0(2) t(2) by (simp add: to_idle_def)
  ultimately show ?thesis using S0(1) unfolding machine_of_def by blast
qed

lemma restart_keeps:
  "mlme_wf st \<Longrightarrow> mlme_wf (MlmeRestartStateMachine st)"
  "ml_Queue (MlmeRestartStateMachine st) = ml_Queue st" "ml_Halted (MlmeRestartStateMachine st) = ml_Halted st"
  "ml_OpMode (MlmeRestartStateMachine st) = ml_OpMode st" "ml_trace (MlmeRestartStateMachine st) = ml_trace st"
  "mlme.more (MlmeRestartStateMachine st) = mlme.more st"
proof -
  note i = good_inits(4-8) [THEN machine_of_idle]
  show "mlme_wf (MlmeRestartStateMachine st)" if "mlme_wf st"
    using that i by (cases "ml_OpMode st") (simp_all add: MlmeRestartStateMachine_def mlme_wf_def mlme_numbers)
qed (simp_all add: MlmeRestartStateMachine_def split: op_mode.split)

lemma dispatch_servable:
  assumes "mlme_wf st" "servable (ml_OpMode st) (M, T, b, p)" "T \<noteq> MT2_RESET_CONF"
  shows "\<exists>a. mlme_dispatch st M T = Inr a \<and> (M \<in> fst ` set (air_machines (ml_OpMode st)) \<longrightarrow> a \<noteq> None)"
proof (cases "\<exists>n. (M, n) \<in> set (air_machines (ml_OpMode st)) \<and> T < n")
  case True
  then obtain n where "(M, n) \<in> set (air_machines (ml_OpMode st))" "T < n" by blast
  from dispatch_air [OF assms(1) this] show ?thesis by blast
next
  case False
  then have M: "M \<notin> {1, 2, 3, 4, 6, 9, 11, 12, 14, 23}" using assms(2,3) by auto
  then have "M \<notin> fst ` set (air_machines (ml_OpMode st))"
    by (cases "ml_OpMode st") (auto simp: air_machines_def mlme_numbers)
  moreover have "\<exists>a. mlme_dispatch st M T = Inr a" using M by (simp add: mlme_dispatch_def mlme_numbers)
  ultimately show ?thesis by blast
qed

lemma turn_serves:
  assumes "well_behaved J ok perform" "J (mlme.more st)" "mlme_wf st" "mq_inv (ml_Queue st)"
    "mq_msgs (ml_Queue st) = m # ms" "servable (ml_OpMode st) (mq_view m)" "ok m"
  shows "\<exists>st1 a. mlme_turn perform st = r_return st1 \<and> J (mlme.more st1) \<and> mlme_wf st1 \<and>
    ml_Queue st1 = snd (mq_next (ml_Queue st)) \<and> ml_Halted st1 = ml_Halted st \<and> ml_OpMode st1 = ml_OpMode st \<and>
    ml_trace st1 = ml_trace st @ (if ms_MsgType m = MT2_RESET_CONF then [] else [(a, mq_view m)]) \<and>
    (ms_MsgType m \<noteq> MT2_RESET_CONF \<longrightarrow> ms_Machine m \<in> fst ` set (air_machines (ml_OpMode st)) \<longrightarrow> a \<noteq> None)"
proof -
  obtain i q where d: "MlmeDequeue (ml_Queue st) = (i, q)" by (cases "MlmeDequeue (ml_Queue st)")
  have pos: "0 < q_Num (ml_Queue st)" using arg_cong [OF assms(5), of length] by simp
  note nx = mq_next_inv [OF assms(4) pos]
  note dq = mq_dequeue_ok [OF mq_invD(1) [OF assms(4)] pos, unfolded d fst_conv snd_conv]
  have m: "q_Entry q ! i = m" using nx(4) assms(5) dq(3,5) by simp
  have n: "mq_free i q = snd (mq_next (ml_Queue st))" by (simp add: mq_next_def d)
  have turn: "mlme_turn perform st =
     (let st1 = st\<lparr>ml_Queue := q\<rparr>; free = ml_Queue_update (mq_free i) in
      if ms_MsgType m = MT2_RESET_CONF then r_return (free (MlmeRestartStateMachine st1))
      else r_bind (r_lift (mlme_dispatch st1 (ms_Machine m) (ms_MsgType m))) (\<lambda>a.
        let st2 = st1\<lparr>ml_trace := ml_trace st1 @ [(a, mq_view m)]\<rparr> in
        r_bind (case a of None \<Rightarrow> r_return st2 | Some f \<Rightarrow> perform f m st2) (\<lambda>st3. r_return (free st3))))"
    unfolding mlme_turn_def d Let_def prod.case m by simp
  show ?thesis
  proof (cases "ms_MsgType m = MT2_RESET_CONF")
    case True
    then show ?thesis using assms(2,3) restart_keeps [of "st\<lparr>ml_Queue := q\<rparr>"] n by (simp add: turn)
  next
    case False
    have "servable (ml_OpMode st) (ms_Machine m, ms_MsgType m, take (ms_MsgLen m) (ms_Msg m), ms_Priv m)"
      using assms(6) by (simp only: mq_view_def)
    from dispatch_servable [OF assms(3) this False]
    obtain a where a: "mlme_dispatch st (ms_Machine m) (ms_MsgType m) = Inr a"
        "ms_Machine m \<in> fst ` set (air_machines (ml_OpMode st)) \<longrightarrow> a \<noteq> None"
      by blast
    show ?thesis
    proof (cases a)
      case None
      then show ?thesis using assms(2,3) a False n by (simp add: turn)
    next
      case (Some f)
      let ?st2 = "st\<lparr>ml_Queue := q, ml_trace := ml_trace st @ [(a, mq_view m)]\<rparr>"
      have h: "J (mlme.more ?st2)" "mlme_wf ?st2" "mlme_dispatch ?st2 (ms_Machine m) (ms_MsgType m) = Inr (Some f)"
        using assms(2,3) a(1) Some by simp_all
      obtain st3 where "perform f m ?st2 = r_return st3" "J (mlme.more st3)" "mlme_wf st3"
          "ml_Queue st3 = q" "ml_Halted st3 = ml_Halted st" "ml_OpMode st3 = ml_OpMode st"
          "ml_trace st3 = ml_trace st @ [(a, mq_view m)]"
        by (rule well_behavedD [OF assms(1) h(1,2) assms(7) h(3)]) simp
      then show ?thesis using a False Some n by (simp add: turn)
    qed
  qed
qed

lemma loop_serves:
  assumes "well_behaved J ok perform" "J (mlme.more st)" "mlme_wf st" "mq_inv (ml_Queue st)" "\<not> ml_Halted st"
    "\<forall>m\<in>set (mq_msgs (ml_Queue st)). servable (ml_OpMode st) (mq_view m) \<and> ok m"
  shows "\<exists>st1 served. mlme_loop perform st = r_return st1 \<and> J (mlme.more st1) \<and> q_Num (ml_Queue st1) = 0 \<and>
    mq_inv (ml_Queue st1) \<and> mlme_wf st1 \<and> ml_OpMode st1 = ml_OpMode st \<and> ml_trace st1 = ml_trace st @ served \<and>
    map snd served = map mq_view (filter (\<lambda>m. ms_MsgType m \<noteq> MT2_RESET_CONF) (mq_msgs (ml_Queue st))) \<and>
    (\<forall>(a, M, _)\<in>set served. M \<in> fst ` set (air_machines (ml_OpMode st)) \<longrightarrow> a \<noteq> None)"
  using assms(2-6)
proof (induction n \<equiv> "q_Num (ml_Queue st)" arbitrary: st)
  case 0
  then show ?case by (subst mlme_loop.simps) (auto simp: MlmeQueueEmpty_def mq_msgs_def r_return_def)
next
  case (Suc n)
  let ?q = "ml_Queue st" and ?air = "fst ` set (air_machines (ml_OpMode st))"
  have pos: "0 < q_Num ?q" using Suc.hyps(2) by simp
  note nx = mq_next_inv [OF Suc.prems(3) pos]
  obtain m where m: "mq_msgs ?q = m # mq_msgs (snd (mq_next ?q))" using nx(4) by blast
  have sv: "servable (ml_OpMode st) (mq_view m)" "ok m"
      "\<forall>m\<in>set (mq_msgs (snd (mq_next ?q))). servable (ml_OpMode st) (mq_view m) \<and> ok m"
    using Suc.prems(5) m by simp_all
  from turn_serves [OF assms(1) Suc.prems(1-3) m sv(1,2)]
  obtain st1 a where t: "mlme_turn perform st = r_return st1" "J (mlme.more st1)" "mlme_wf st1"
      "ml_Queue st1 = snd (mq_next ?q)" "ml_Halted st1 = ml_Halted st" "ml_OpMode st1 = ml_OpMode st"
      "ml_trace st1 = ml_trace st @ (if ms_MsgType m = MT2_RESET_CONF then [] else [(a, mq_view m)])"
      "ms_MsgType m \<noteq> MT2_RESET_CONF \<longrightarrow> ms_Machine m \<in> ?air \<longrightarrow> a \<noteq> None"
    by blast
  have "n = q_Num (ml_Queue st1)" using t(4) nx(3) Suc.hyps(2) by simp
  moreover have "\<forall>m\<in>set (mq_msgs (ml_Queue st1)). servable (ml_OpMode st1) (mq_view m) \<and> ok m"
    using sv(3) t(4,6) by simp
  moreover have "mq_inv (ml_Queue st1)" "\<not> ml_Halted st1" using nx(1) t(4,5) Suc.prems(4) by simp_all
  ultimately obtain st2 served where l: "mlme_loop perform st1 = r_return st2" "J (mlme.more st2)"
      "q_Num (ml_Queue st2) = 0" "mq_inv (ml_Queue st2)" "mlme_wf st2" "ml_OpMode st2 = ml_OpMode st1"
      "ml_trace st2 = ml_trace st1 @ served"
      "map snd served = map mq_view (filter (\<lambda>m. ms_MsgType m \<noteq> MT2_RESET_CONF) (mq_msgs (ml_Queue st1)))"
      "\<forall>(a, M, _)\<in>set served. M \<in> fst ` set (air_machines (ml_OpMode st1)) \<longrightarrow> a \<noteq> None"
    using Suc.hyps(1) [of st1] t(2,3) by blast
  let ?new = "(if ms_MsgType m = MT2_RESET_CONF then [] else [(a, mq_view m)]) @ served"
  have "mlme_loop perform st = r_return st2"
    using Suc.prems(4) pos t(1) l(1) by (subst mlme_loop.simps) (simp add: MlmeQueueEmpty_def r_return_def)
  moreover have "map snd ?new = map mq_view (filter (\<lambda>m. ms_MsgType m \<noteq> MT2_RESET_CONF) (mq_msgs ?q))"
    using l(8) t(4) m by simp
  moreover have "\<forall>(a, M, _)\<in>set ?new. M \<in> ?air \<longrightarrow> a \<noteq> None"
    using l(9) t(6,8) by (auto simp: mq_view_def)
  moreover have "ml_trace st2 = ml_trace st @ ?new" using l(7) t(7) by simp
  ultimately show ?case using l(2-6) t(6) by (intro exI [of _ st2] exI [of _ ?new]) simp
qed

lemma handler_serves:
  assumes "well_behaved J ok perform" "J (mlme.more st)" "mlme_wf st" "mq_inv (ml_Queue st)"
    "\<not> ml_bRunning st" "\<not> ml_Halted st"
    "\<forall>m\<in>set (mq_msgs (ml_Queue st)). servable (ml_OpMode st) (mq_view m) \<and> ok m"
  shows "\<exists>st1 served. MlmeHandler perform st = r_return st1 \<and> \<not> ml_bRunning st1 \<and> J (mlme.more st1) \<and>
    q_Num (ml_Queue st1) = 0 \<and> mq_inv (ml_Queue st1) \<and> mlme_wf st1 \<and> ml_trace st1 = ml_trace st @ served \<and>
    map snd served = map mq_view (filter (\<lambda>m. ms_MsgType m \<noteq> MT2_RESET_CONF) (mq_msgs (ml_Queue st))) \<and>
    (\<forall>(a, M, _)\<in>set served. M \<in> fst ` set (air_machines (ml_OpMode st)) \<longrightarrow> a \<noteq> None)"
proof -
  let ?st = "st\<lparr>ml_bRunning := True\<rparr>"
  have h: "J (mlme.more ?st)" "mlme_wf ?st" "mq_inv (ml_Queue ?st)" "\<not> ml_Halted ?st"
      "\<forall>m\<in>set (mq_msgs (ml_Queue ?st)). servable (ml_OpMode ?st) (mq_view m) \<and> ok m"
    using assms by simp_all
  obtain st1 served where l: "mlme_loop perform ?st = r_return st1" "J (mlme.more st1)" "q_Num (ml_Queue st1) = 0"
      "mq_inv (ml_Queue st1)" "mlme_wf st1" "ml_trace st1 = ml_trace ?st @ served"
      "map snd served = map mq_view (filter (\<lambda>m. ms_MsgType m \<noteq> MT2_RESET_CONF) (mq_msgs (ml_Queue ?st)))"
      "\<forall>(a, M, _)\<in>set served. M \<in> fst ` set (air_machines (ml_OpMode ?st)) \<longrightarrow> a \<noteq> None"
    using loop_serves [OF assms(1) h] by (elim exE conjE) (rule that)
  then show ?thesis using assms(5)
    by (intro exI [of _ "st1\<lparr>ml_bRunning := False\<rparr>"] exI [of _ served]) (simp add: MlmeHandler_def)
qed


subsection \<open>Instances\<close>

definition null_machine :: state_machine where
  "null_machine = \<lparr>sm_Base = 0, sm_NrState = 0, sm_NrMsg = 0, sm_CurrState = 0, sm_TransFunc = None\<rparr>"

definition sample_mlme :: "op_mode \<Rightarrow> mlme" where
  "sample_mlme mode = \<lparr>ml_OpMode = mode, ml_Queue = sample_queue 0, ml_bRunning = True, ml_Halted = False,
     CntlMachine = null_machine, AssocMachine = null_machine, AuthMachine = null_machine,
     AuthRspMachine = null_machine, SyncMachine = null_machine, WpaPskMachine = null_machine,
     ActMachine = null_machine, ApAssocMachine = null_machine, ApAuthMachine = null_machine,
     ApSyncMachine = null_machine, WpaMachine = null_machine, ml_trace = []\<rparr>"

lemma sample_mlme_init:
  obtains st where "MlmeInit (sample_mlme mode) = Inr st" "mlme_wf st" "mq_inv (ml_Queue st)"
    "q_Num (ml_Queue st) = 0" "\<not> ml_bRunning st" "\<not> ml_Halted st" "ml_OpMode st = mode" "ml_trace st = []"
proof -
  have "length (q_Entry (ml_Queue (sample_mlme mode))) = MAX_LEN_OF_MLME_QUEUE"
    by (simp add: sample_mlme_def sample_queue_def)
  from mlme_init_ready [OF this] that show thesis by (auto simp: sample_mlme_def)
qed




end
