(* ===== verification/WpaKeys.thy ===== *)
theory WpaKeys
  imports Hmac "HOL-Library.List_Lexorder"
begin

text \<open>
  The derivation of keys in \<^verbatim>\<open>common/cmm_wpa.c\<close>: the pseudo-random function over HMAC-SHA1 and the one
  over HMAC-SHA256, the hash of a pass phrase, the pairwise and group keys, and the byte counters.
\<close>

unbundle bit_operations_syntax

subsection \<open>Comparing buffers\<close>

text \<open>\<^verbatim>\<open>RTMPCompareMemory\<close> (\<^verbatim>\<open>common/rtmp_init.c\<close>).\<close>

fun RTMPCompareMemory :: "bytes \<Rightarrow> bytes \<Rightarrow> nat" where
  "RTMPCompareMemory (a # as) (b # bs) = (if b < a then 1 else if a < b then 2 else RTMPCompareMemory as bs)"
| "RTMPCompareMemory _ _ = 0"

subsection \<open>Pseudo-random functions\<close>

text \<open>
  The buffer of the input has 1024 bytes; \<open>output\<close> is the caller's buffer, which the blocks of 20 bytes
  are written to, also where the last one is longer than the length that was asked for.
\<close>

definition prf_round :: "bytes \<Rightarrow> bytes \<times> bytes \<Rightarrow> nat \<Rightarrow> c_fault + bytes \<times> bytes" where
  "prf_round key = (\<lambda>(inp, out) i.
     f_bind (RT_HMAC_SHA1 key inp 20) (\<lambda>mac.
       if length out < 20 * i + 20 then Inl OOBWrite
       else Inr (inp[length inp - 1 := last inp + 1], put_at (20 * i) mac out)))"

definition PRF :: "bool \<Rightarrow> bytes \<Rightarrow> bytes \<Rightarrow> bytes \<Rightarrow> bytes \<Rightarrow> nat \<Rightarrow> c_fault + bytes" where
  "PRF kmalloc_ok key label dat output len =
     (if \<not> kmalloc_ok then Inr output
      else if 1024 < length label + 1 + length dat + 1 then Inl OOBWrite
      else f_bind (fold_fault (prf_round key) (label @ [0] @ dat @ [0], output) [0..<(len + 19) div 20])
        (\<lambda>(_, out). Inr out))"

definition kdf_round :: "bytes \<Rightarrow> bytes \<times> bytes \<Rightarrow> nat \<Rightarrow> c_fault + bytes \<times> bytes" where
  "kdf_round key = (\<lambda>(inp, out) i.
     f_bind (RT_HMAC_SHA256 key inp 32) (\<lambda>mac.
       if length out < 32 * i + 32 then Inl OOBWrite
       else Inr (inp[0 := inp ! 0 + 1], put_at (32 * i) mac out)))"

definition KDF :: "bool \<Rightarrow> bytes \<Rightarrow> bytes \<Rightarrow> bytes \<Rightarrow> bytes \<Rightarrow> u16 \<Rightarrow> c_fault + bytes" where
  "KDF kmalloc_ok key label dat output len =
     (let bits = unat len * 8 in
      if \<not> kmalloc_ok then Inr output
      else if 1024 < 2 + length label + length dat + 2 then Inl OOBWrite
      else f_bind (fold_fault (kdf_round key)
          ([1, 0] @ label @ dat @ [word_of_nat (bits mod 256), word_of_nat (bits div 256 mod 256)], output)
          [0..<(bits + 255) div 256])
        (\<lambda>(_, out). Inr out))"

subsection \<open>The hash of a pass phrase\<close>

text \<open>
  \<^verbatim>\<open>F\<close>: a buffer of 36 bytes for the SSID with the block number, and one for the last digest. \<open>blk\<close> is 1 or 2.
\<close>

definition pbkdf_round :: "bytes \<Rightarrow> bytes \<times> bytes \<Rightarrow> nat \<Rightarrow> c_fault + bytes \<times> bytes" where
  "pbkdf_round password = (\<lambda>(digest1, out) _.
     f_bind (RT_HMAC_SHA1 password digest1 20) (\<lambda>digest. Inr (digest, xor_bytes out digest)))"

definition pbkdf_F :: "bytes \<Rightarrow> bytes \<Rightarrow> nat \<Rightarrow> nat \<Rightarrow> c_fault + bytes" where
  "pbkdf_F password ssid iterations blk =
     (if 36 < length ssid + 4 then Inl OOBWrite
      else f_bind (RT_HMAC_SHA1 password (ssid @ be32_bytes (word_of_nat blk)) 20) (\<lambda>digest1.
        f_bind (fold_fault (pbkdf_round password) (digest1, digest1) [1..<iterations]) (\<lambda>(_, out). Inr out)))"

definition RtmpPasswordHash :: "bytes \<Rightarrow> bytes \<Rightarrow> bytes \<Rightarrow> c_fault + nat \<times> bytes" where
  "RtmpPasswordHash password ssid output =
     (if 63 < length password \<or> 32 < length ssid then Inr (0, output)
      else if length output < 40 then Inl OOBWrite
      else f_bind (pbkdf_F password ssid 4096 1) (\<lambda>o1.
           f_bind (pbkdf_F password ssid 4096 2) (\<lambda>o2.
             Inr (1, put_at 20 o2 (put_at 0 o1 output)))))"

subsection \<open>Pairwise and group keys\<close>

definition label_pairwise :: bytes where
  "label_pairwise = [0x50, 0x61, 0x69, 0x72, 0x77, 0x69, 0x73, 0x65, 0x20, 0x6b, 0x65, 0x79, 0x20,
     0x65, 0x78, 0x70, 0x61, 0x6e, 0x73, 0x69, 0x6f, 0x6e]"

definition label_group :: bytes where
  "label_group = [0x47, 0x72, 0x6f, 0x75, 0x70, 0x20, 0x6b, 0x65, 0x79, 0x20,
     0x65, 0x78, 0x70, 0x61, 0x6e, 0x73, 0x69, 0x6f, 0x6e]"

definition label_pmk_name :: bytes where
  "label_pmk_name = [0x50, 0x4d, 0x4b, 0x20, 0x4e, 0x61, 0x6d, 0x65]"

text \<open>Equal nonces are replaced by the larger address.\<close>

definition WpaDerivePTK :: "bool \<Rightarrow> bytes \<Rightarrow> bytes \<Rightarrow> bytes \<Rightarrow> bytes \<Rightarrow> bytes \<Rightarrow> bytes \<Rightarrow> nat \<Rightarrow> c_fault + bytes" where
  "WpaDerivePTK kmalloc_ok PMK ANonce AA SNonce SA output len =
     (let lo = (if RTMPCompareMemory SA AA = 1 then AA else SA);
          hi = (if RTMPCompareMemory SA AA = 1 then SA else AA);
          temp = put_at 0 hi (replicate 32 0);
          nlo = (if RTMPCompareMemory ANonce SNonce = 0 then temp
                 else if RTMPCompareMemory ANonce SNonce = 1 then SNonce else ANonce);
          nhi = (if RTMPCompareMemory ANonce SNonce = 0 then temp
                 else if RTMPCompareMemory ANonce SNonce = 1 then ANonce else SNonce)
      in PRF kmalloc_ok PMK label_pairwise (lo @ hi @ nlo @ nhi) output len)"

definition WpaDeriveGTK :: "bool \<Rightarrow> bytes \<Rightarrow> bytes \<Rightarrow> bytes \<Rightarrow> bytes \<Rightarrow> bytes \<Rightarrow> nat \<Rightarrow> c_fault + bytes" where
  "WpaDeriveGTK kmalloc_ok GMK GNonce AA temp output len =
     f_bind (PRF kmalloc_ok GMK label_group (AA @ GNonce) temp len) (\<lambda>t.
       if length t < len then Inl OOBRead
       else if length output < len then Inl OOBWrite
       else Inr (put_at 0 (take len t) output))"

definition RTMPDerivePMKID :: "bytes \<Rightarrow> bytes \<Rightarrow> bytes \<Rightarrow> c_fault + bytes" where
  "RTMPDerivePMKID pAaddr pSpaddr pKey =
     f_bind (RT_HMAC_SHA1 pKey (label_pmk_name @ pAaddr @ pSpaddr) 20) (\<lambda>digest. Inr (take 16 digest))"

text \<open>
  \<^verbatim>\<open>GenRandom\<close>: \<open>clock\<close> holds the bytes of 32 readings of the system time. The key is a counter that is
  never changed.
\<close>

definition label_init_counter :: bytes where
  "label_init_counter = [0x49, 0x6e, 0x69, 0x74, 0x20, 0x43, 0x6f, 0x75, 0x6e, 0x74, 0x65, 0x72]"

definition gen_random_round :: "bool \<Rightarrow> bytes \<Rightarrow> bytes \<Rightarrow> nat \<times> bytes \<Rightarrow> c_fault + bytes" where
  "gen_random_round kmalloc_ok macAddr result = (\<lambda>(i, time).
     PRF kmalloc_ok (replicate 32 0) label_init_counter
       (macAddr @ time @ take 32 result @ [word_of_nat (i mod 256), word_of_nat (i div 256 mod 256)]) result 32)"

definition GenRandom :: "(nat \<Rightarrow> bool) \<Rightarrow> bytes \<Rightarrow> bytes list \<Rightarrow> c_fault + bytes" where
  "GenRandom kmalloc_ok macAddr clock =
     f_bind (fold_fault (\<lambda>result (i, time). gen_random_round (kmalloc_ok i) macAddr result (i, time))
         (replicate 80 0) (zip [0..<32] clock))
       (\<lambda>result. Inr (take 32 result))"

subsection \<open>Counters\<close>

text \<open>\<open>inc_from n\<close> is the loop of \<^verbatim>\<open>ADD_ONE_To_64BIT_VAR\<close> (\<^verbatim>\<open>include/wpa.h\<close>) and \<^verbatim>\<open>inc_byte_array\<close> at index \<open>n - 1\<close>.\<close>

fun inc_from :: "nat \<Rightarrow> bytes \<Rightarrow> bytes" where
  "inc_from 0 v = v"
| "inc_from (Suc n) v = (let v1 = v[n := v ! n + 1] in if v1 ! n = 0 then inc_from n v1 else v1)"

definition ADD_ONE_To_64BIT_VAR :: "bytes \<Rightarrow> bytes" where
  "ADD_ONE_To_64BIT_VAR v = inc_from 8 v"

definition inc_byte_array :: "bytes \<Rightarrow> bytes" where
  "inc_byte_array counter = inc_from (length counter) counter"

subsection \<open>Specifications\<close>

text \<open>IEEE 802.11-2007, 8.5.1.1, IEEE 802.11r, 8.5.1.5.2, and RFC 2898.\<close>

definition ieee_prf :: "bytes \<Rightarrow> bytes \<Rightarrow> bytes \<Rightarrow> nat \<Rightarrow> bytes" where
  "ieee_prf K A B len = take len (concat (map (\<lambda>i. rfc2104_hmac fips_sha1 K (A @ [0] @ B @ [word_of_nat i]))
     [0..<(len + 19) div 20]))"

definition ieee_kdf :: "bytes \<Rightarrow> bytes \<Rightarrow> bytes \<Rightarrow> nat \<Rightarrow> bytes" where
  "ieee_kdf K A B len = take len (concat (map (\<lambda>i. rfc2104_hmac fips_sha256 K
       ([word_of_nat (i mod 256), word_of_nat (i div 256)] @ A @ B @
        [word_of_nat (8 * len mod 256), word_of_nat (8 * len div 256)]))
     [1..<(8 * len + 255) div 256 + 1]))"

fun pbkdf2_U :: "bytes \<Rightarrow> bytes \<Rightarrow> nat \<Rightarrow> nat \<Rightarrow> bytes" where
  "pbkdf2_U P S i 0 = rfc2104_hmac fips_sha1 P (S @ be32_bytes (word_of_nat i))"
| "pbkdf2_U P S i (Suc j) = rfc2104_hmac fips_sha1 P (pbkdf2_U P S i j)"

definition pbkdf2_block :: "bytes \<Rightarrow> bytes \<Rightarrow> nat \<Rightarrow> nat \<Rightarrow> bytes" where
  "pbkdf2_block P S c i = foldl (\<lambda>acc j. xor_bytes acc (pbkdf2_U P S i j)) (pbkdf2_U P S i 0) [1..<c]"

definition ieee_ptk :: "bytes \<Rightarrow> bytes \<Rightarrow> bytes \<Rightarrow> bytes \<Rightarrow> bytes \<Rightarrow> nat \<Rightarrow> bytes" where
  "ieee_ptk PMK AA SPA ANonce SNonce =
     ieee_prf PMK label_pairwise
       ((if AA < SPA then AA else SPA) @ (if AA < SPA then SPA else AA) @
        (if ANonce < SNonce then ANonce else SNonce) @ (if ANonce < SNonce then SNonce else ANonce))"

subsection \<open>The code computes the standards\<close>

lemma put_at_append:
  assumes "length a = i" "i + length b \<le> length xs"
  shows "put_at i b (put_at 0 a xs) = put_at 0 (a @ b) xs"
  using assms by (simp add: put_at_def add.commute)

lemma take_put_at: "n \<le> length ys \<Longrightarrow> length ys \<le> length xs \<Longrightarrow> take n (put_at 0 ys xs) = take n ys"
  by (simp add: put_at_def)

lemma length_concat_const: "(\<And>x. length (f x) = k) \<Longrightarrow> length (concat (map f xs)) = k * length xs"
  by (induction xs) simp_all

lemma prf_run:
  assumes "64 + length K \<le> 2 ^ 32" "length A + length B \<le> 2000" "20 * n \<le> length out"
  shows "fold_fault (prf_round K) (A @ [0] @ B @ [0], out) [0..<n] = Inr (A @ [0] @ B @ [word_of_nat n],
    put_at 0 (concat (map (\<lambda>i. rfc2104_hmac fips_sha1 K (A @ [0] @ B @ [word_of_nat i])) [0..<n])) out)"
  (is "?L n = ?R n")
  using assms(3)
proof (induction n)
  case (Suc n)
  let ?T = "\<lambda>i. rfc2104_hmac fips_sha1 K (A @ [0] @ B @ [word_of_nat i])"
  have l: "length (concat (map ?T [0..<n])) = 20 * n" by (subst length_concat_const [where k = 20]) simp_all
  have "?L (Suc n) = f_bind (?L n) (\<lambda>s. prf_round K s n)"
    by (simp add: fold_fault_snoc)
  also have "\<dots> = prf_round K (A @ [0] @ B @ [word_of_nat n], put_at 0 (concat (map ?T [0..<n])) out) n"
    using Suc by simp
  also have "\<dots> = ?R (Suc n)"
    using Suc.prems assms(1,2) l
    by (simp add: prf_round_def RT_HMAC_eq put_at_append list_update_append add.commute)
  finally show ?case .
qed (simp add: put_at_def)

lemma PRF_run:
  assumes "64 + length K \<le> 2 ^ 32" "length A + length B \<le> 1022" "20 * ((len + 19) div 20) \<le> length out"
  shows "\<exists>out1. PRF True K A B out len = Inr out1 \<and> length out1 = length out \<and> take len out1 = ieee_prf K A B len"
proof -
  let ?n = "(len + 19) div 20"
  let ?T = "concat (map (\<lambda>i. rfc2104_hmac fips_sha1 K (A @ [0] @ B @ [word_of_nat i])) [0..<?n])"
  have l: "length ?T = 20 * ?n" by (subst length_concat_const [where k = 20]) simp_all
  have "len \<le> 20 * ?n" by presburger
  then show ?thesis using prf_run [of K A B ?n out] assms l
    by (simp add: PRF_def take_put_at ieee_prf_def)
qed

lemma length_ieee_prf [simp]: "length (ieee_prf K A B len) = len"
proof -
  have "len \<le> 20 * ((len + 19) div 20)" by presburger
  then show ?thesis unfolding ieee_prf_def by (subst length_take, subst length_concat_const [where k = 20]) simp_all
qed

lemma kdf_run:
  fixes D :: bytes
  assumes "64 + length K \<le> 2 ^ 32" "length D \<le> 2000" "32 * n \<le> length out" "n < 256"
  shows "fold_fault (kdf_round K) ([1, 0] @ D, out) [0..<n] = Inr ([word_of_nat (n + 1), 0] @ D,
    put_at 0 (concat (map (\<lambda>i. rfc2104_hmac fips_sha256 K ([word_of_nat (i + 1), 0] @ D)) [0..<n])) out)"
  (is "?L n = ?R n")
  using assms(3,4)
proof (induction n)
  case (Suc n)
  let ?T = "\<lambda>i. rfc2104_hmac fips_sha256 K ([word_of_nat (i + 1), 0] @ D)"
  have l: "length (concat (map ?T [0..<n])) = 32 * n" by (subst length_concat_const [where k = 32]) simp_all
  have "?L (Suc n) = f_bind (?L n) (\<lambda>s. kdf_round K s n)" by (simp add: fold_fault_snoc)
  also have "\<dots> = kdf_round K ([word_of_nat (n + 1), 0] @ D, put_at 0 (concat (map ?T [0..<n])) out) n"
    using Suc by simp
  also have "\<dots> = ?R (Suc n)"
    using Suc.prems assms(1,2) l by (simp add: kdf_round_def RT_HMAC_eq put_at_append add.commute)
  finally show ?case .
qed (simp add: put_at_def)

lemma KDF_run:
  assumes "64 + length K \<le> 2 ^ 32" "length A + length B \<le> 1020" "unat len \<le> 8160"
    "32 * ((8 * unat len + 255) div 256) \<le> length out"
  shows "\<exists>out1. KDF True K A B out len = Inr out1 \<and> take (unat len) out1 = ieee_kdf K A B (unat len)"
proof -
  let ?n = "(8 * unat len + 255) div 256" and ?b = "8 * unat len"
  let ?D = "A @ B @ [word_of_nat (?b mod 256), word_of_nat (?b div 256)]"
  let ?T = "concat (map (\<lambda>i. rfc2104_hmac fips_sha256 K ([word_of_nat (i + 1), 0] @ ?D)) [0..<?n])"
  have n: "?n < 256" "?b div 256 mod 256 = ?b div 256" using assms(3) by simp_all
  have l: "length ?T = 32 * ?n" by (subst length_concat_const [where k = 32]) simp_all
  have m: "unat len \<le> 32 * ?n"
    using div_mult_mod_eq [of "?b + 255" 256] mod_less_divisor [of 256 "?b + 255"] by linarith
  have "?T = concat (map (\<lambda>i. rfc2104_hmac fips_sha256 K
      ([word_of_nat (i mod 256), word_of_nat (i div 256)] @ ?D)) [1..<?n + 1])"
  proof -
    have "[1..<?n + 1] = map Suc [0..<?n]" by (simp add: map_Suc_upt)
    then show ?thesis using n(1) by (intro arg_cong [of _ _ concat]) simp
  qed
  then have "take (unat len) ?T = ieee_kdf K A B (unat len)" by (simp add: ieee_kdf_def)
  then show ?thesis using kdf_run [of K ?D ?n out] assms l n m
    by (simp add: KDF_def Let_def take_put_at mult.commute [of "unat len"])
qed

lemma length_pbkdf2_U [simp]: "length (pbkdf2_U P S i j) = 20"
  by (cases j) simp_all

lemma pbkdf_run:
  assumes "length P \<le> 63" "1 \<le> c"
  shows "fold_fault (pbkdf_round P) (pbkdf2_U P S i 0, pbkdf2_U P S i 0) [1..<c] =
    Inr (pbkdf2_U P S i (c - 1), pbkdf2_block P S c i)"
  using assms(2)
proof (induction c rule: dec_induct)
  case (step c)
  have "pbkdf2_U P S i c = rfc2104_hmac fips_sha1 P (pbkdf2_U P S i (c - 1))" using step(1) by (cases c) simp_all
  then show ?case using step assms(1)
    by (simp add: fold_fault_snoc pbkdf_round_def RT_HMAC_eq pbkdf2_block_def)
qed (simp add: pbkdf2_block_def)

lemma length_pbkdf2_block [simp]: "length (pbkdf2_block P S c i) = 20"
proof -
  have "length acc = 20 \<Longrightarrow> length (foldl (\<lambda>acc j. xor_bytes acc (pbkdf2_U P S i j)) acc js) = 20" for acc js
    by (induction js arbitrary: acc) simp_all
  then show ?thesis by (simp add: pbkdf2_block_def)
qed

lemma pbkdf_F_rfc: "length P \<le> 63 \<Longrightarrow> length S \<le> 32 \<Longrightarrow> 1 \<le> c \<Longrightarrow> pbkdf_F P S c i = Inr (pbkdf2_block P S c i)"
  using pbkdf_run [of P c S i] by (simp add: pbkdf_F_def RT_HMAC_eq)

lemma RTMPCompareMemory_less:
  assumes "length a = length b"
  shows "RTMPCompareMemory a b = (if b < a then 1 else if a < b then 2 else 0)"
  using assms by (induction a b rule: list_induct2) auto

lemma WpaDerivePTK_run:
  assumes "length PMK = 32" "length AA = 6" "length SPA = 6" "length ANonce = 32" "length SNonce = 32"
    "ANonce \<noteq> SNonce" "length out = 80"
  shows "\<exists>out1. WpaDerivePTK True PMK ANonce AA SNonce SPA out 64 = Inr out1 \<and> length out1 = 80 \<and>
    take 64 out1 = ieee_ptk PMK AA SPA ANonce SNonce 64"
proof -
  let ?B = "(if AA < SPA then AA else SPA) @ (if AA < SPA then SPA else AA) @
        (if ANonce < SNonce then ANonce else SNonce) @ (if ANonce < SNonce then SNonce else ANonce)"
  have "WpaDerivePTK True PMK ANonce AA SNonce SPA out 64 = PRF True PMK label_pairwise ?B out 64"
    using assms by (auto simp: WpaDerivePTK_def Let_def RTMPCompareMemory_less not_less_iff_gr_or_eq)
  then show ?thesis
    using PRF_run [of PMK label_pairwise ?B 64 out] assms by (simp add: label_pairwise_def ieee_ptk_def)
qed

subsection \<open>Counters\<close>

definition be_val :: "bytes \<Rightarrow> nat" where
  "be_val bs = foldl (\<lambda>n b. 256 * n + unat b) 0 bs"

lemma be_val_snoc [simp]: "be_val (xs @ [x]) = 256 * be_val xs + unat x"
  by (simp add: be_val_def)

lemma be_val_Nil [simp]: "be_val [] = 0"
  by (simp add: be_val_def)

lemma be_val_bound: "be_val xs < 256 ^ length xs"
proof (induction xs rule: rev_induct)
  case (snoc x xs)
  have "256 * be_val xs + 255 < 256 * 256 ^ length xs" using snoc by linarith
  moreover have "unat x \<le> 255" using unat_u8_less [of x] by linarith
  ultimately show ?case by simp
qed simp

lemma inc_from_append: "n \<le> length xs \<Longrightarrow> inc_from n (xs @ ys) = inc_from n xs @ ys"
proof (induction n arbitrary: xs)
  case (Suc n)
  then have "n < length xs" by simp
  then show ?case using Suc.IH [of "xs[n := xs ! n + 1]"]
    by (cases "xs ! n + 1 = 0") (simp_all add: nth_append list_update_append Let_def)
qed simp

lemma length_inc_from [simp]: "length (inc_from n v) = length v"
  by (induction n arbitrary: v) (simp_all add: Let_def)

lemma unat_inc: "unat (x + 1 :: u8) = (if x + 1 = 0 then 0 else unat x + 1)"
  using unatSuc [of x] by (auto simp: add.commute [of x])

lemma be_val_inc_from: "be_val (inc_from (length v) v) = (be_val v + 1) mod 256 ^ length v"
proof (induction v rule: rev_induct)
  case (snoc x xs)
  have step: "inc_from (length (xs @ [x])) (xs @ [x]) = (if x + 1 = 0 then inc_from (length xs) xs @ [x + 1] else xs @ [x + 1])"
    using inc_from_append [of "length xs" xs "[x + 1]"] by (cases "x + 1 = 0") (simp_all add: Let_def)
  show ?case
  proof (cases "x + 1 = 0")
    case True
    then have "x = - 1" by (simp add: eq_neg_iff_add_eq_0)
    then have x: "unat x = 255" by (simp add: unsigned_minus_1_eq_mask mask_eq_exp_minus_1)
    have "be_val (inc_from (length (xs @ [x])) (xs @ [x])) = 256 * ((be_val xs + 1) mod 256 ^ length xs)"
      using True snoc unfolding step by simp
    also have "\<dots> = (256 * (be_val xs + 1)) mod (256 * 256 ^ length xs)" by (simp only: mult_mod_right)
    finally show ?thesis using x by simp
  next
    case False
    have "be_val (xs @ [x + 1]) = be_val (xs @ [x]) + 1" using False unat_inc [of x] by simp
    moreover have "be_val (xs @ [x + 1]) < 256 ^ length (xs @ [x + 1])" by (rule be_val_bound)
    ultimately show ?thesis using False unfolding step by simp
  qed
qed simp

lemma ADD_ONE_val: "length v = 8 \<Longrightarrow> be_val (ADD_ONE_To_64BIT_VAR v) = (be_val v + 1) mod 2 ^ 64"
  using be_val_inc_from [of v] by (simp add: ADD_ONE_To_64BIT_VAR_def)

lemma length_ADD_ONE [simp]: "length (ADD_ONE_To_64BIT_VAR v) = length v"
  by (simp add: ADD_ONE_To_64BIT_VAR_def)

lemma be_val_Cons: "be_val (x # xs) = unat x * 256 ^ length xs + be_val xs"
  by (induction xs rule: rev_induct) (simp_all add: be_val_def algebra_simps)

text \<open>Comparing counters byte by byte compares their values.\<close>

lemma be_val_less_iff:
  assumes "length a = length b"
  shows "a < b \<longleftrightarrow> be_val a < be_val b"
  using assms
proof (induction a b rule: list_induct2)
  case (Cons x xs y ys)
  have bx: "be_val xs < 256 ^ length ys" "be_val ys < 256 ^ length ys"
    using be_val_bound [of xs] be_val_bound [of ys] Cons.hyps by simp_all
  have lt: "u * 256 ^ length ys + p < v * 256 ^ length ys + q" if "u < v" "p < 256 ^ length ys" for u v p q :: nat
  proof -
    have "u * 256 ^ length ys + p < (u + 1) * 256 ^ length ys" using that(2) by simp
    also have "\<dots> \<le> v * 256 ^ length ys" using that(1) by (intro mult_right_mono) simp_all
    finally show ?thesis by simp
  qed
  consider "x < y" | "x = y" | "y < x" by fastforce
  then show ?case
  proof cases
    case 1
    then show ?thesis using lt [of "unat x" "unat y"] bx Cons.hyps by (simp add: be_val_Cons word_less_nat_alt)
  next
    case 3
    then have "be_val (y # ys) < be_val (x # xs)"
      using lt [of "unat y" "unat x"] bx Cons.hyps by (simp add: be_val_Cons word_less_nat_alt)
    then show ?thesis using 3 by auto
  qed (use Cons in \<open>simp add: be_val_Cons\<close>)
qed simp

subsection \<open>Results\<close>

text \<open>C4: RtmpPasswordHash computes the 40 bytes of PBKDF2 with HMAC-SHA1 and 4096 iterations for a pass phrase of at most 63 characters and an SSID of at most 32 bytes, and refuses longer ones without touching the buffer.\<close>

theorem password_hash_is_pbkdf2:
  "if length P \<le> 63 \<and> length S \<le> 32
   then length out = 40 \<longrightarrow> RtmpPasswordHash P S out = Inr (1, pbkdf2_block P S 4096 1 @ pbkdf2_block P S 4096 2)
   else RtmpPasswordHash P S out = Inr (0, out)"
  by (simp add: RtmpPasswordHash_def pbkdf_F_rfc put_at_append) (simp add: put_at_def)

theorem password_hash_is_pbkdf2_witness:
  "RtmpPasswordHash [0x61, 0x62] [0x63] (replicate 40 0) =
    Inr (1, pbkdf2_block [0x61, 0x62] [0x63] 4096 1 @ pbkdf2_block [0x61, 0x62] [0x63] 4096 2)"
  using password_hash_is_pbkdf2 [of "[0x61, 0x62]" "[0x63]" "replicate 40 0"] by simp

text \<open>C3: WpaDerivePTK gives the pairwise key of IEEE 802.11, PRF-512 of the master key over the addresses and the nonces in order, whichever of the addresses and of the nonces is the smaller one, as long as the two nonces differ.\<close>

theorem pairwise_key_standard:
  assumes "length PMK = 32" "length AA = 6" "length SPA = 6" "length ANonce = 32" "length SNonce = 32"
    "ANonce \<noteq> SNonce" "length out = 80"
  shows "\<exists>out1. WpaDerivePTK True PMK ANonce AA SNonce SPA out 64 = Inr out1 \<and> length out1 = 80 \<and>
    take 64 out1 = ieee_ptk PMK AA SPA ANonce SNonce 64"
  by (rule WpaDerivePTK_run [OF assms])

theorem pairwise_key_standard_witness:
  "\<exists>out1. WpaDerivePTK True (replicate 32 1) (replicate 32 2) (replicate 6 3) (replicate 32 4) (replicate 6 5)
      (replicate 80 0) 64 = Inr out1 \<and> length out1 = 80 \<and>
    take 64 out1 = ieee_ptk (replicate 32 1) (replicate 6 3) (replicate 6 5) (replicate 32 2) (replicate 32 4) 64"
  by (rule pairwise_key_standard) simp_all

end
