(* ===== verification/PmkidCache.thy ===== *)
theory PmkidCache
  imports BaReorder
begin

text \<open>
  The cache of master keys of an access point, \<^verbatim>\<open>ap/ap_wpa.c\<close>: eight places, searched by address. The
  handshake names a master key that the station still has instead of running 802.1x again.
\<close>

subsection \<open>The code\<close>

record bssid_info =
  bi_Valid :: bool
  bi_MAC :: bytes
  bi_PMKID :: bytes
  bi_PMK :: bytes
  bi_RefreshTime :: ulong

definition MAX_PMKID_COUNT :: nat where "MAX_PMKID_COUNT = 8"

definition RTMPSearchPMKIDCache :: "bssid_info list \<Rightarrow> bytes \<Rightarrow> nat option" where
  "RTMPSearchPMKIDCache cache pAddr =
     find (\<lambda>i. bi_Valid (cache ! i) \<and> bi_MAC (cache ! i) = pAddr) [0..<MAX_PMKID_COUNT]"

text \<open>The place that gives way in a full cache; \<open>timestamp\<close> and \<open>idx\<close> are the variables of the loop.\<close>

definition pmkid_victim_step :: "bssid_info list \<Rightarrow> ulong \<times> nat \<Rightarrow> nat \<Rightarrow> ulong \<times> nat" where
  "pmkid_victim_step cache = (\<lambda>(timestamp, idx) i.
     if bi_Valid (cache ! i) \<and>
        ((timestamp = 0 \<and> idx = 0) \<or> (timestamp \<noteq> 0 \<and> timestamp < bi_RefreshTime (cache ! i)))
     then (bi_RefreshTime (cache ! i), i) else (timestamp, idx))"

definition pmkid_victim :: "bssid_info list \<Rightarrow> nat" where
  "pmkid_victim cache = snd (foldl (pmkid_victim_step cache) (0, 0) [0..<MAX_PMKID_COUNT])"

definition RTMPAddPMKIDCache :: "ulong \<Rightarrow> bssid_info list \<Rightarrow> bytes \<Rightarrow> bytes \<Rightarrow> bytes \<Rightarrow> bssid_info list" where
  "RTMPAddPMKIDCache now cache pAddr PMKID PMK =
     (case RTMPSearchPMKIDCache cache pAddr of
        Some i \<Rightarrow> cache[i := (cache ! i)\<lparr>bi_RefreshTime := now, bi_PMKID := PMKID, bi_PMK := PMK\<rparr>]
      | None \<Rightarrow>
          let i = (case find (\<lambda>i. \<not> bi_Valid (cache ! i)) [0..<MAX_PMKID_COUNT] of Some i \<Rightarrow> i | None \<Rightarrow> pmkid_victim cache)
          in cache[i := \<lparr>bi_Valid = True, bi_MAC = pAddr, bi_PMKID = PMKID, bi_PMK = PMK, bi_RefreshTime = now\<rparr>])"

definition RTMPDeletePMKIDCache :: "bssid_info list \<Rightarrow> nat \<Rightarrow> bssid_info list" where
  "RTMPDeletePMKIDCache cache idx = (if bi_Valid (cache ! idx) then cache[idx := (cache ! idx)\<lparr>bi_Valid := False\<rparr>] else cache)"

text \<open>\<^verbatim>\<open>RTMPMaintainPMKIDCache\<close> for one network.\<close>

definition RTMPMaintainPMKIDCache :: "ulong \<Rightarrow> ulong \<Rightarrow> bssid_info list \<Rightarrow> bssid_info list" where
  "RTMPMaintainPMKIDCache now period cache =
     foldl (\<lambda>c j. if bi_Valid (c ! j) \<and> RTMP_TIME_AFTER now (bi_RefreshTime (c ! j) + period)
        then RTMPDeletePMKIDCache c j else c) cache [0..<MAX_PMKID_COUNT]"

subsection \<open>The cache as a map\<close>

text \<open>Addresses of valid places are distinct; then the cache is a map from addresses to keys.\<close>

definition pmkid_inv :: "bssid_info list \<Rightarrow> bool" where
  "pmkid_inv cache \<longleftrightarrow> length cache = MAX_PMKID_COUNT \<and>
     (\<forall>i<MAX_PMKID_COUNT. \<forall>j<MAX_PMKID_COUNT.
        bi_Valid (cache ! i) \<and> bi_Valid (cache ! j) \<and> bi_MAC (cache ! i) = bi_MAC (cache ! j) \<longrightarrow> i = j)"

definition pmkid_map :: "bssid_info list \<Rightarrow> bytes \<rightharpoonup> bytes \<times> bytes" where
  "pmkid_map cache a = map_option (\<lambda>i. (bi_PMKID (cache ! i), bi_PMK (cache ! i))) (RTMPSearchPMKIDCache cache a)"

lemma search_Some:
  "RTMPSearchPMKIDCache cache a = Some i \<Longrightarrow> i < MAX_PMKID_COUNT \<and> bi_Valid (cache ! i) \<and> bi_MAC (cache ! i) = a"
  using find_upt_Some [of _ 0 MAX_PMKID_COUNT i] by (auto simp: RTMPSearchPMKIDCache_def)

lemma search_None:
  "RTMPSearchPMKIDCache cache a = None \<longleftrightarrow> (\<forall>i<MAX_PMKID_COUNT. \<not> (bi_Valid (cache ! i) \<and> bi_MAC (cache ! i) = a))"
  by (simp add: RTMPSearchPMKIDCache_def find_upt_None)

lemma search_iff:
  assumes "pmkid_inv cache"
  shows "RTMPSearchPMKIDCache cache a = Some i \<longleftrightarrow>
    i < MAX_PMKID_COUNT \<and> bi_Valid (cache ! i) \<and> bi_MAC (cache ! i) = a"
proof
  assume r: "i < MAX_PMKID_COUNT \<and> bi_Valid (cache ! i) \<and> bi_MAC (cache ! i) = a"
  then obtain j where j: "RTMPSearchPMKIDCache cache a = Some j" using search_None [of cache a] by (metis option.exhaust)
  then have "j = i" using search_Some [OF j] r assms by (simp add: pmkid_inv_def)
  then show "RTMPSearchPMKIDCache cache a = Some i" using j by simp
qed (rule search_Some)

lemma pmkid_victim_less: "pmkid_victim cache < MAX_PMKID_COUNT"
proof -
  have "snd (foldl (pmkid_victim_step cache) st is) < MAX_PMKID_COUNT"
    if "snd st < MAX_PMKID_COUNT" "\<forall>i\<in>set is. i < MAX_PMKID_COUNT" for st "is"
    using that by (induction "is" arbitrary: st) (auto simp: pmkid_victim_step_def split: prod.splits)
  then show ?thesis by (simp add: pmkid_victim_def MAX_PMKID_COUNT_def)
qed

text \<open>Writing an entry for \<open>a\<close> into place \<open>i\<close> of a cache that has no other entry for \<open>a\<close>.\<close>

lemma pmkid_write:
  assumes inv: "pmkid_inv cache" and i: "i < MAX_PMKID_COUNT"
    and v: "bi_Valid v" and no: "\<And>j. j < MAX_PMKID_COUNT \<Longrightarrow> bi_Valid (cache ! j) \<Longrightarrow> bi_MAC (cache ! j) = bi_MAC v \<Longrightarrow> j = i"
  shows "pmkid_inv (cache[i := v])"
    "pmkid_map (cache[i := v]) b = (if b = bi_MAC v then Some (bi_PMKID v, bi_PMK v)
       else if bi_Valid (cache ! i) \<and> bi_MAC (cache ! i) = b then None else pmkid_map cache b)"
proof -
  have l: "length cache = MAX_PMKID_COUNT" using inv by (simp add: pmkid_inv_def)
  have nth: "cache[i := v] ! j = (if j = i then v else cache ! j)" if "j < MAX_PMKID_COUNT" for j
    using that l by simp
  show inv1: "pmkid_inv (cache[i := v])"
    unfolding pmkid_inv_def
  proof (intro conjI allI impI)
    fix j k assume jk: "j < MAX_PMKID_COUNT" "k < MAX_PMKID_COUNT"
      "bi_Valid (cache[i := v] ! j) \<and> bi_Valid (cache[i := v] ! k) \<and> bi_MAC (cache[i := v] ! j) = bi_MAC (cache[i := v] ! k)"
    show "j = k"
    proof (cases "j = i \<or> k = i")
      case True
      then show ?thesis using jk no [of j] no [of k] nth by (auto split: if_splits)
    next
      case False
      then show ?thesis using jk inv nth by (simp add: pmkid_inv_def)
    qed
  qed (simp add: l)
  have s: "RTMPSearchPMKIDCache (cache[i := v]) b = (if b = bi_MAC v then Some i
      else if bi_Valid (cache ! i) \<and> bi_MAC (cache ! i) = b then None else RTMPSearchPMKIDCache cache b)"
  proof (cases "b = bi_MAC v")
    case True
    then show ?thesis using search_iff [OF inv1, of b i] i v l by simp
  next
    case False
    show ?thesis
    proof (cases "RTMPSearchPMKIDCache (cache[i := v]) b")
      case None
      then have "RTMPSearchPMKIDCache cache b = None \<or> bi_Valid (cache ! i) \<and> bi_MAC (cache ! i) = b"
        unfolding search_None using nth by (metis (full_types))
      then show ?thesis using None False by auto
    next
      case (Some j)
      then have j: "j < MAX_PMKID_COUNT" "j \<noteq> i" "bi_Valid (cache ! j)" "bi_MAC (cache ! j) = b"
        using search_Some [OF Some] nth [of j] False by (auto split: if_splits)
      moreover have "\<not> (bi_Valid (cache ! i) \<and> bi_MAC (cache ! i) = b)"
        using j i inv by (auto simp: pmkid_inv_def)
      ultimately show ?thesis using Some False search_iff [OF inv, of b j] by simp
    qed
  qed
  have "cache[i := v] ! j = cache ! j" if "RTMPSearchPMKIDCache cache b = Some j" "b \<noteq> bi_MAC v"
    "\<not> (bi_Valid (cache ! i) \<and> bi_MAC (cache ! i) = b)" for j
    using search_Some [OF that(1)] that nth [of j] by auto
  then show "pmkid_map (cache[i := v]) b = (if b = bi_MAC v then Some (bi_PMKID v, bi_PMK v)
       else if bi_Valid (cache ! i) \<and> bi_MAC (cache ! i) = b then None else pmkid_map cache b)"
    using i l unfolding pmkid_map_def s by (cases "RTMPSearchPMKIDCache cache b") auto
qed

lemma pmkid_delete:
  assumes inv: "pmkid_inv cache" and i: "i < MAX_PMKID_COUNT"
  shows "pmkid_inv (RTMPDeletePMKIDCache cache i)"
    "pmkid_map (RTMPDeletePMKIDCache cache i) b =
       (if bi_Valid (cache ! i) \<and> bi_MAC (cache ! i) = b then None else pmkid_map cache b)"
proof -
  let ?c = "RTMPDeletePMKIDCache cache i"
  have nth: "?c ! j = (if j = i then (cache ! i)\<lparr>bi_Valid := False\<rparr> else cache ! j)" if "j < MAX_PMKID_COUNT" for j
    using that inv i by (auto simp: RTMPDeletePMKIDCache_def pmkid_inv_def)
  show inv1: "pmkid_inv ?c"
    unfolding pmkid_inv_def
  proof (intro conjI allI impI)
    fix j k assume "j < MAX_PMKID_COUNT" "k < MAX_PMKID_COUNT"
      "bi_Valid (?c ! j) \<and> bi_Valid (?c ! k) \<and> bi_MAC (?c ! j) = bi_MAC (?c ! k)"
    then show "j = k" using inv nth by (auto simp: pmkid_inv_def split: if_splits)
  qed (use inv in \<open>simp add: RTMPDeletePMKIDCache_def pmkid_inv_def\<close>)
  have s: "RTMPSearchPMKIDCache ?c b = (if bi_Valid (cache ! i) \<and> bi_MAC (cache ! i) = b then None else RTMPSearchPMKIDCache cache b)"
  proof (cases "RTMPSearchPMKIDCache ?c b")
    case None
    then have "RTMPSearchPMKIDCache cache b = None \<or> bi_Valid (cache ! i) \<and> bi_MAC (cache ! i) = b"
      unfolding search_None using nth by (metis (full_types))
    then show ?thesis using None by auto
  next
    case (Some j)
    then have j: "j < MAX_PMKID_COUNT" "j \<noteq> i" "bi_Valid (cache ! j)" "bi_MAC (cache ! j) = b"
      using search_Some [OF Some] nth [of j] by (auto split: if_splits)
    moreover have "\<not> (bi_Valid (cache ! i) \<and> bi_MAC (cache ! i) = b)" using j i inv by (auto simp: pmkid_inv_def)
    ultimately show ?thesis using Some search_iff [OF inv, of b j] by simp
  qed
  have "?c ! j = cache ! j" if "RTMPSearchPMKIDCache cache b = Some j" "\<not> (bi_Valid (cache ! i) \<and> bi_MAC (cache ! i) = b)" for j
    using search_Some [OF that(1)] that nth [of j] by auto
  then show "pmkid_map ?c b = (if bi_Valid (cache ! i) \<and> bi_MAC (cache ! i) = b then None else pmkid_map cache b)"
    unfolding pmkid_map_def s by (cases "RTMPSearchPMKIDCache cache b") auto
qed

text \<open>A new station: the place that the two searches of \<^verbatim>\<open>RTMPAddPMKIDCache\<close> choose.\<close>

lemma pmkid_add:
  assumes inv: "pmkid_inv cache"
  shows "pmkid_inv (RTMPAddPMKIDCache now cache a pid pmk)"
    "pmkid_map (RTMPAddPMKIDCache now cache a pid pmk) b =
       (if b = a then Some (pid, pmk)
        else if RTMPSearchPMKIDCache cache a = None \<and> (\<forall>i<MAX_PMKID_COUNT. bi_Valid (cache ! i)) \<and>
          b = bi_MAC (cache ! pmkid_victim cache) then None
        else pmkid_map cache b)"
proof -
  let ?R = "RTMPAddPMKIDCache now cache a pid pmk"
  have "pmkid_inv ?R \<and> pmkid_map ?R b =
       (if b = a then Some (pid, pmk)
        else if RTMPSearchPMKIDCache cache a = None \<and> (\<forall>i<MAX_PMKID_COUNT. bi_Valid (cache ! i)) \<and>
          b = bi_MAC (cache ! pmkid_victim cache) then None
        else pmkid_map cache b)"
  proof (cases "RTMPSearchPMKIDCache cache a")
    case (Some i)
    note i = search_Some [OF Some]
    let ?v = "(cache ! i)\<lparr>bi_RefreshTime := now, bi_PMKID := pid, bi_PMK := pmk\<rparr>"
    have R: "?R = cache[i := ?v]" using Some by (simp add: RTMPAddPMKIDCache_def)
    have u: "j = i" if "j < MAX_PMKID_COUNT" "bi_Valid (cache ! j)" "bi_MAC (cache ! j) = bi_MAC ?v" for j
    proof -
      have "RTMPSearchPMKIDCache cache a = Some j" unfolding search_iff [OF inv] using that i by simp
      then show ?thesis using Some by simp
    qed
    have v: "bi_Valid ?v" using i by simp
    have w: "pmkid_inv ?R" "pmkid_map ?R b = (if b = bi_MAC ?v then Some (bi_PMKID ?v, bi_PMK ?v)
       else if bi_Valid (cache ! i) \<and> bi_MAC (cache ! i) = b then None else pmkid_map cache b)"
      unfolding R by (rule pmkid_write [OF inv conjunct1 [OF i] v u], assumption+)+
    then have "pmkid_map ?R b = (if b = a then Some (pid, pmk) else pmkid_map cache b)"
      using i by simp
    then show ?thesis using w(1) Some by simp
  next
    case None
    define i where "i = (case find (\<lambda>i. \<not> bi_Valid (cache ! i)) [0..<MAX_PMKID_COUNT] of Some i \<Rightarrow> i | None \<Rightarrow> pmkid_victim cache)"
    let ?v = "\<lparr>bi_Valid = True, bi_MAC = a, bi_PMKID = pid, bi_PMK = pmk, bi_RefreshTime = now\<rparr>"
    have R: "?R = cache[i := ?v]" using None by (simp add: RTMPAddPMKIDCache_def i_def Let_def)
    have i: "i < MAX_PMKID_COUNT" "bi_Valid (cache ! i) \<longleftrightarrow> (\<forall>i<MAX_PMKID_COUNT. bi_Valid (cache ! i))"
      "bi_Valid (cache ! i) \<Longrightarrow> i = pmkid_victim cache"
    proof -
      have "i < MAX_PMKID_COUNT \<and> (bi_Valid (cache ! i) \<longleftrightarrow> (\<forall>i<MAX_PMKID_COUNT. bi_Valid (cache ! i))) \<and>
        (bi_Valid (cache ! i) \<longrightarrow> i = pmkid_victim cache)"
      proof (cases "find (\<lambda>i. \<not> bi_Valid (cache ! i)) [0..<MAX_PMKID_COUNT]")
        case None
        have "i = pmkid_victim cache" unfolding i_def None by simp
        moreover have "\<forall>i<MAX_PMKID_COUNT. bi_Valid (cache ! i)" using None unfolding find_upt_None by simp
        ultimately show ?thesis using pmkid_victim_less [of cache] by blast
      next
        case (Some k)
        then have "i = k" by (simp add: i_def)
        with find_upt_Some [OF Some] show ?thesis by blast
      qed
      then show "i < MAX_PMKID_COUNT" "bi_Valid (cache ! i) \<longleftrightarrow> (\<forall>i<MAX_PMKID_COUNT. bi_Valid (cache ! i))"
        "bi_Valid (cache ! i) \<Longrightarrow> i = pmkid_victim cache" by blast+
    qed
    have "\<forall>j<MAX_PMKID_COUNT. \<not> (bi_Valid (cache ! j) \<and> bi_MAC (cache ! j) = a)" using None search_None by blast
    then have no: "j = i" if "j < MAX_PMKID_COUNT" "bi_Valid (cache ! j)" "bi_MAC (cache ! j) = bi_MAC ?v" for j
      using that by simp
    have v: "bi_Valid ?v" by simp
    have w: "pmkid_inv ?R" "pmkid_map ?R b = (if b = a then Some (pid, pmk)
       else if bi_Valid (cache ! i) \<and> bi_MAC (cache ! i) = b then None else pmkid_map cache b)"
      unfolding R using pmkid_write [OF inv i(1) v no] by simp_all
    have "bi_Valid (cache ! i) \<and> bi_MAC (cache ! i) = b \<longleftrightarrow>
        (\<forall>i<MAX_PMKID_COUNT. bi_Valid (cache ! i)) \<and> b = bi_MAC (cache ! pmkid_victim cache)"
      using i by metis
    then show ?thesis using w None by simp
  qed
  then show "pmkid_inv ?R" "pmkid_map ?R b =
       (if b = a then Some (pid, pmk)
        else if RTMPSearchPMKIDCache cache a = None \<and> (\<forall>i<MAX_PMKID_COUNT. bi_Valid (cache ! i)) \<and>
          b = bi_MAC (cache ! pmkid_victim cache) then None
        else pmkid_map cache b)" by simp_all
qed

subsection \<open>Results\<close>

text \<open>The place a full cache gives up holds the entry that was refreshed last.\<close>

lemma victim_newest:
  assumes valid: "\<forall>i<MAX_PMKID_COUNT. bi_Valid (cache ! i) \<and> bi_RefreshTime (cache ! i) \<noteq> 0"
    and n: "Suc n \<le> MAX_PMKID_COUNT"
  shows "case foldl (pmkid_victim_step cache) (0, 0) [0..<Suc n] of (ts, idx) \<Rightarrow>
    idx \<le> n \<and> ts = bi_RefreshTime (cache ! idx) \<and> (\<forall>i\<le>n. bi_RefreshTime (cache ! i) \<le> ts)"
  using n
proof (induction n)
  case 0
  then show ?case using valid by (simp add: pmkid_victim_step_def)
next
  case (Suc n)
  obtain ts idx where f: "foldl (pmkid_victim_step cache) (0, 0) [0..<Suc n] = (ts, idx)" by fastforce
  have ih: "idx \<le> n" "ts = bi_RefreshTime (cache ! idx)" "\<forall>i\<le>n. bi_RefreshTime (cache ! i) \<le> ts"
    using Suc.IH [OF Suc_leD [OF Suc.prems], unfolded f prod.case] by blast+
  have fs: "foldl (pmkid_victim_step cache) (0, 0) [0..<Suc (Suc n)] = pmkid_victim_step cache (ts, idx) (Suc n)"
    using f by (simp only: upt_Suc_append foldl_append foldl.simps zero_le)
  have "ts \<noteq> 0" "bi_Valid (cache ! Suc n)" using valid ih Suc.prems by auto
  then show ?case unfolding fs using ih
    by (auto simp: pmkid_victim_step_def le_Suc_eq)
qed

text \<open>C5: the cache of master keys is a map: adding the key of a station makes a search by its address find that key, and changes no other station's key except the one whose place a full cache gives up; deleting a place forgets its station only. No address ever has two places.\<close>

theorem pmkid_cache_is_map:
  assumes "pmkid_inv cache" "i < MAX_PMKID_COUNT"
  shows "pmkid_inv (RTMPAddPMKIDCache now cache a pid pmk) \<and>
    pmkid_map (RTMPAddPMKIDCache now cache a pid pmk) b =
       (if b = a then Some (pid, pmk)
        else if RTMPSearchPMKIDCache cache a = None \<and> (\<forall>i<MAX_PMKID_COUNT. bi_Valid (cache ! i)) \<and>
          b = bi_MAC (cache ! pmkid_victim cache) then None
        else pmkid_map cache b) \<and>
    pmkid_inv (RTMPDeletePMKIDCache cache i) \<and>
    pmkid_map (RTMPDeletePMKIDCache cache i) b =
       (if bi_Valid (cache ! i) \<and> bi_MAC (cache ! i) = b then None else pmkid_map cache b)"
  using pmkid_add [OF assms(1)] pmkid_delete [OF assms] by blast

definition sample_pmkid :: "nat \<Rightarrow> bssid_info" where
  "sample_pmkid i = \<lparr>bi_Valid = True, bi_MAC = replicate 6 (word_of_nat i), bi_PMKID = replicate 16 0,
     bi_PMK = replicate 32 0, bi_RefreshTime = word_of_nat (i + 1)\<rparr>"

lemma sample_cache:
  "length (map sample_pmkid [0..<8]) = 8" "i < 8 \<Longrightarrow> map sample_pmkid [0..<8] ! i = sample_pmkid i"
  by (simp_all del: upt_rec_numeral)

theorem pmkid_cache_is_map_witness:
  "pmkid_map (RTMPAddPMKIDCache 20 (replicate 8 ((sample_pmkid 0)\<lparr>bi_Valid := False\<rparr>)) [1, 2, 3, 4, 5, 6] [7] [8]) [1, 2, 3, 4, 5, 6] =
    Some ([7], [8])"
  using pmkid_cache_is_map [of "replicate 8 ((sample_pmkid 0)\<lparr>bi_Valid := False\<rparr>)" 0 20 "[1, 2, 3, 4, 5, 6]" "[7]" "[8]" "[1, 2, 3, 4, 5, 6]"]
  by (simp add: pmkid_inv_def MAX_PMKID_COUNT_def)

text \<open>A full cache gives up the entry that was refreshed last, so the newest master key of another station is lost and the oldest ones stay: RTMPAddPMKIDCache writes a new station over a place whose time no other place exceeds.\<close>

theorem pmkid_full_cache_drops_newest:
  assumes "length cache = MAX_PMKID_COUNT"
    and "\<forall>i<MAX_PMKID_COUNT. bi_Valid (cache ! i) \<and> bi_RefreshTime (cache ! i) \<noteq> 0 \<and> bi_MAC (cache ! i) \<noteq> a"
  shows "\<exists>k<MAX_PMKID_COUNT. (\<forall>i<MAX_PMKID_COUNT. bi_RefreshTime (cache ! i) \<le> bi_RefreshTime (cache ! k)) \<and>
    RTMPAddPMKIDCache now cache a pid pmk =
      cache[k := \<lparr>bi_Valid = True, bi_MAC = a, bi_PMKID = pid, bi_PMK = pmk, bi_RefreshTime = now\<rparr>]"
proof (intro exI conjI)
  show "pmkid_victim cache < MAX_PMKID_COUNT" by (rule pmkid_victim_less)
  show "\<forall>i<MAX_PMKID_COUNT. bi_RefreshTime (cache ! i) \<le> bi_RefreshTime (cache ! pmkid_victim cache)"
    using victim_newest [of cache 7] assms(2)
    by (auto simp: MAX_PMKID_COUNT_def pmkid_victim_def numeral_eq_Suc split: prod.splits)
  have "find (\<lambda>i. \<not> bi_Valid (cache ! i)) [0..<MAX_PMKID_COUNT] = None" "RTMPSearchPMKIDCache cache a = None"
    using assms(2) by (auto simp: find_None_iff search_None)
  then show "RTMPAddPMKIDCache now cache a pid pmk =
      cache[pmkid_victim cache := \<lparr>bi_Valid = True, bi_MAC = a, bi_PMKID = pid, bi_PMK = pmk, bi_RefreshTime = now\<rparr>]"
    by (simp add: RTMPAddPMKIDCache_def)
qed

theorem pmkid_full_cache_drops_newest_witness:
  "\<exists>k<MAX_PMKID_COUNT. (\<forall>i<MAX_PMKID_COUNT. bi_RefreshTime (map sample_pmkid [0..<8] ! i) \<le> bi_RefreshTime (map sample_pmkid [0..<8] ! k)) \<and>
    RTMPAddPMKIDCache 20 (map sample_pmkid [0..<8]) (replicate 6 9) [7] [8] =
      (map sample_pmkid [0..<8])[k := \<lparr>bi_Valid = True, bi_MAC = replicate 6 9, bi_PMKID = [7], bi_PMK = [8], bi_RefreshTime = 20\<rparr>]"
proof (rule pmkid_full_cache_drops_newest)
  have "list_all (\<lambda>i. bi_Valid (sample_pmkid i) \<and> bi_RefreshTime (sample_pmkid i) \<noteq> 0 \<and> bi_MAC (sample_pmkid i) \<noteq> replicate 6 9) [0..<8]"
    by code_simp
  then show "\<forall>i<MAX_PMKID_COUNT. bi_Valid (map sample_pmkid [0..<8] ! i) \<and> bi_RefreshTime (map sample_pmkid [0..<8] ! i) \<noteq> 0 \<and>
      bi_MAC (map sample_pmkid [0..<8] ! i) \<noteq> replicate 6 9"
    by (simp only: list_all_iff MAX_PMKID_COUNT_def sample_cache(2)) simp
qed (simp add: MAX_PMKID_COUNT_def)

end
