(* ===== verification/Eapol.thy ===== *)
theory Eapol
  imports WpaKeys AesCmac AesModes Arc4 MacTab PmkidCache
begin

text \<open>
  EAPOL key frames in \<^verbatim>\<open>common/cmm_wpa.c\<close>: the layout of the packet, its construction with key data and
  message integrity code, and the checks on a received one. A packet is the bytes of its buffer.
\<close>

unbundle bit_operations_syntax

subsection \<open>State\<close>

text \<open>Ciphers of an entry or a group, \<^verbatim>\<open>NDIS_802_11_WEP_STATUS\<close>.\<close>

datatype wep_status = WEPEnabled | WEPDisabled | WEPKeyAbsent | WEPNotSupported | TKIPEnable
  | Encryption2KeyAbsent | AESEnable | Encryption3KeyAbsent | TKIPAESMix | Encryption4KeyAbsent
  | GroupWEP40Enabled | GroupWEP104Enabled

datatype cipher_alg = CIPHER_NONE | CIPHER_WEP64 | CIPHER_WEP128 | CIPHER_TKIP | CIPHER_AES

record key_mat =
  CipherAlg :: cipher_alg
  KeyBytes :: bytes
  TxMic :: bytes
  RxMic :: bytes

definition zero_key :: key_mat where
  "zero_key = \<lparr>CipherAlg = CIPHER_NONE, KeyBytes = [], TxMic = replicate 8 0, RxMic = replicate 8 0\<rparr>"

datatype gtk_state = REKEY_NEGOTIATING | REKEY_ESTABLISHED | KEYERROR

datatype eapol_start = EAPOL_START_DISABLE | EAPOL_START_PSK | EAPOL_START_1X

text \<open>The fields of an entry of the station table that belong to the handshake.\<close>

record wpa_sta =
  ent_WepStatus :: wep_status
  R_Counter :: bytes
  ANonce :: bytes
  SNonce :: bytes
  PTK :: bytes
  PairwiseKey :: key_mat
  PrivacyAcceptAll :: bool
  GTKState :: gtk_state
  ReTryCounter :: u8
  PMKID_CacheIdx :: "nat option"
  EnqueueEapolStartTimerRunning :: eapol_start

text \<open>The fields of a network of the access point that belong to the handshake.\<close>

record ap_net =
  an_PMK :: bytes
  an_GTK :: bytes
  an_GMK :: bytes
  an_GNonce :: bytes
  an_GroupCipher :: wep_status
  an_DefaultKeyId :: nat
  an_RSN_IE :: "bytes \<times> bytes"
  an_PMKIDCache :: "bssid_info list"

text \<open>What leaves the modelled part: timers, frames, key tables of the chip, events.\<close>

datatype wpa_event = SetRetryTimer nat nat | ModRetryTimer nat nat | CancelRetryTimer nat
  | SendEapol nat bytes bytes bytes bool | AddPairwiseKey u8 key_mat | SetWcidIV u8 cipher_alg nat nat
  | AddSharedKey nat nat key_mat | RemovePairwiseKey u8 | WpaNotice bytes nat | StaPortSecured
  | WpaDeauth bytes u16 | CmdCounterMeasure mac_entry wpa_sta | SetCMTimer | CancelCMTimer | EnqueueEapolStart bytes
  | Dot1xTrigger bytes

text \<open>
  The station table with its handshake fields (\<open>w_Sta\<close>) and the networks with theirs (\<open>w_Net\<close>), the
  configuration of a station, and the shared keys of every network.
\<close>

record wpa_ad =
  w_tab :: mac_tab
  w_Sta :: "wpa_sta list"
  w_Net :: "ap_net list"
  w_Closing :: bool
  w_ReservedWcid :: nat
  CurrentAddress :: bytes
  StaPMK :: bytes
  StaPTK :: bytes
  StaGTK :: bytes
  StaGroupCipher :: wep_status
  StaRSN_IE :: bytes
  StaDefaultKeyId :: nat
  SharedKey :: "key_mat list list"
  MICFailureCounter :: u32
  ap_CMTimerRunning :: bool
  BANClass3Data :: bool
  w_PrevaMICFailTime :: ulong
  w_aMICFailTime :: ulong
  w_log :: "wpa_event list"

text \<open>
  What a handler finds outside: which of its allocations succeed, the uninitialised buffers on the stack and
  the heap, the readings of the clock, the transmit counters of the chip.
\<close>

datatype alloc = Alloc_KEYDATA | Alloc_PRF | Alloc_GenRandom nat | Alloc_mpool | Alloc_KeyData | Alloc_MIC
  | Alloc_wrap | Alloc_arc4 | Alloc_packet | Alloc_deauth nat

record wpa_env =
  e_mem :: "alloc \<Rightarrow> bool"
  e_junk :: bytes
  e_stk :: bytes
  e_clock :: "bytes list"
  e_TxTsc :: "nat \<Rightarrow> bytes"
  e_jiffies :: ulong
  e_ba :: "nat \<Rightarrow> nat \<Rightarrow> bool \<times> bool"

definition wpa_emit :: "wpa_event \<Rightarrow> wpa_ad \<Rightarrow> wpa_ad" where
  "wpa_emit ev ad = ad\<lparr>w_log := w_log ad @ [ev]\<rparr>"

abbreviation w_ent :: "wpa_ad \<Rightarrow> nat \<Rightarrow> mac_entry" where
  "w_ent ad i \<equiv> Content (w_tab ad) ! i"

definition upd_ent :: "nat \<Rightarrow> (mac_entry \<Rightarrow> mac_entry) \<Rightarrow> wpa_ad \<Rightarrow> wpa_ad" where
  "upd_ent i f ad = ad\<lparr>w_tab := upd_entry i f (w_tab ad)\<rparr>"

definition upd_sta :: "nat \<Rightarrow> (wpa_sta \<Rightarrow> wpa_sta) \<Rightarrow> wpa_ad \<Rightarrow> wpa_ad" where
  "upd_sta i f ad = ad\<lparr>w_Sta := (w_Sta ad)[i := f (w_Sta ad ! i)]\<rparr>"

definition upd_net :: "nat \<Rightarrow> (ap_net \<Rightarrow> ap_net) \<Rightarrow> wpa_ad \<Rightarrow> wpa_ad" where
  "upd_net n f ad = ad\<lparr>w_Net := (w_Net ad)[n := f (w_Net ad ! n)]\<rparr>"

text \<open>The order of the states, which the code compares.\<close>

fun wpa_state_number :: "wpa_state \<Rightarrow> nat" where
  "wpa_state_number AS_NOTUSE = 0" | "wpa_state_number AS_DISCONNECT = 1"
| "wpa_state_number AS_DISCONNECTED = 2" | "wpa_state_number AS_INITIALIZE = 3"
| "wpa_state_number AS_AUTHENTICATION = 4" | "wpa_state_number AS_AUTHENTICATION2 = 5"
| "wpa_state_number AS_INITPMK = 6" | "wpa_state_number AS_INITPSK = 7"
| "wpa_state_number AS_PTKSTART = 8" | "wpa_state_number AS_PTKINIT_NEGOTIATING = 9"
| "wpa_state_number AS_PTKINITDONE = 10" | "wpa_state_number AS_UPDATEKEYS = 11"
| "wpa_state_number AS_INTEGRITY_FAILURE = 12" | "wpa_state_number AS_KEYUPDATE = 13"

instantiation wpa_state :: linorder
begin

definition less_eq_wpa_state :: "wpa_state \<Rightarrow> wpa_state \<Rightarrow> bool" where
  "less_eq_wpa_state a b \<longleftrightarrow> wpa_state_number a \<le> wpa_state_number b"

definition less_wpa_state :: "wpa_state \<Rightarrow> wpa_state \<Rightarrow> bool" where
  "less_wpa_state a b \<longleftrightarrow> wpa_state_number a < wpa_state_number b"

instance
proof
  fix a b :: wpa_state
  assume "a \<le> b" "b \<le> a"
  then show "a = b" unfolding less_eq_wpa_state_def by (cases a; cases b; simp)
qed (auto simp: less_eq_wpa_state_def less_wpa_state_def)

end

text \<open>The choice of WPA2 that every function begins with.\<close>

definition wpa2_mode :: "auth_mode \<Rightarrow> bool" where
  "wpa2_mode am \<longleftrightarrow> am = AuthModeWPA2 \<or> am = AuthModeWPA2PSK"

subsection \<open>The packet\<close>

definition EAPOL_PAIR_MSG_1 :: nat where "EAPOL_PAIR_MSG_1 = 1"
definition EAPOL_PAIR_MSG_2 :: nat where "EAPOL_PAIR_MSG_2 = 2"
definition EAPOL_PAIR_MSG_3 :: nat where "EAPOL_PAIR_MSG_3 = 3"
definition EAPOL_PAIR_MSG_4 :: nat where "EAPOL_PAIR_MSG_4 = 4"
definition EAPOL_GROUP_MSG_1 :: nat where "EAPOL_GROUP_MSG_1 = 5"
definition EAPOL_GROUP_MSG_2 :: nat where "EAPOL_GROUP_MSG_2 = 6"

lemmas eapol_msg_defs = EAPOL_PAIR_MSG_1_def EAPOL_PAIR_MSG_2_def EAPOL_PAIR_MSG_3_def EAPOL_PAIR_MSG_4_def
  EAPOL_GROUP_MSG_1_def EAPOL_GROUP_MSG_2_def

definition KEY_DESC_TKIP :: u8 where "KEY_DESC_TKIP = 1"
definition KEY_DESC_AES :: u8 where "KEY_DESC_AES = 2"
definition KEY_DESC_EXT :: u8 where "KEY_DESC_EXT = 3"

definition LEN_EAPOL_KEY :: nat where "LEN_EAPOL_KEY = 99"
definition MAX_LEN_OF_RSNIE :: nat where "MAX_LEN_OF_RSNIE = 255"
definition MAX_LEN_GTK :: nat where "MAX_LEN_GTK = 32"
definition TX_EAPOL_BUFFER :: nat where "TX_EAPOL_BUFFER = 1500"

text \<open>\<^verbatim>\<open>KEY_INFO\<close>, the bit fields of two bytes in little-endian order.\<close>

record key_info =
  KeyMic :: bool
  Secure :: bool
  KeyError :: bool
  Request :: bool
  EKD_DL :: bool
  KeyDescVer :: u8
  KeyPairwise :: bool
  KeyIndex :: u8
  Install :: bool
  KeyAck :: bool

definition bit_byte :: "bool \<Rightarrow> nat \<Rightarrow> u8" where
  "bit_byte b n = (if b then push_bit n 1 else 0)"

definition key_info_bytes :: "key_info \<Rightarrow> bytes" where
  "key_info_bytes k =
     [bit_byte (KeyMic k) 0 OR bit_byte (Secure k) 1 OR bit_byte (KeyError k) 2 OR bit_byte (Request k) 3 OR
        bit_byte (EKD_DL k) 4,
      (KeyDescVer k AND 7) OR bit_byte (KeyPairwise k) 3 OR push_bit 4 (KeyIndex k AND 3) OR
        bit_byte (Install k) 6 OR bit_byte (KeyAck k) 7]"

definition get_key_info :: "bytes \<Rightarrow> key_info" where
  "get_key_info p =
     \<lparr>KeyMic = bit (p ! 5) 0, Secure = bit (p ! 5) 1, KeyError = bit (p ! 5) 2, Request = bit (p ! 5) 3,
      EKD_DL = bit (p ! 5) 4, KeyDescVer = (p ! 6) AND 7, KeyPairwise = bit (p ! 6) 3,
      KeyIndex = drop_bit 4 (p ! 6) AND 3, Install = bit (p ! 6) 6, KeyAck = bit (p ! 6) 7\<rparr>"

text \<open>Lengths of 16 bits in network order: \<^verbatim>\<open>CONV_ARRARY_TO_UINT16\<close>, \<^verbatim>\<open>SET_UINT16_TO_ARRARY\<close>.\<close>

definition get16 :: "nat \<Rightarrow> bytes \<Rightarrow> nat" where
  "get16 i p = 256 * unat (p ! i) + unat (p ! (i + 1))"

definition put16 :: "nat \<Rightarrow> nat \<Rightarrow> bytes \<Rightarrow> bytes" where
  "put16 i n p = put_at i [word_of_nat (n div 256), word_of_nat n] p"

text \<open>The offsets of the fields of \<^verbatim>\<open>EAPOL_PACKET\<close>.\<close>

abbreviation (input) "Body_Len_at \<equiv> 2 :: nat"
abbreviation (input) "KeyLength_at \<equiv> 7 :: nat"
abbreviation (input) "ReplayCounter_at \<equiv> 9 :: nat"
abbreviation (input) "KeyNonce_at \<equiv> 17 :: nat"
abbreviation (input) "KeyIv_at \<equiv> 49 :: nat"
abbreviation (input) "KeyRsc_at \<equiv> 65 :: nat"
abbreviation (input) "KeyMic_at \<equiv> 81 :: nat"
abbreviation (input) "KeyDataLen_at \<equiv> 97 :: nat"
abbreviation (input) "KeyData_at \<equiv> 99 :: nat"

definition OUI_WPA2 :: bytes where "OUI_WPA2 = [0x00, 0x0f, 0xac]"

subsection \<open>Integrity code and wrapping of key data\<close>

text \<open>The code of the first \<open>len\<close> bytes of a frame, zeros for an unknown version.\<close>

definition eapol_mic :: "u8 \<Rightarrow> bytes \<Rightarrow> bytes \<Rightarrow> nat \<Rightarrow> c_fault + bytes" where
  "eapol_mic ver ptk frame len =
     (if ver = KEY_DESC_TKIP then
        (if length frame < len then Inl OOBRead else RT_HMAC_MD5 (take 16 ptk) (take len frame) 16)
      else if ver = KEY_DESC_AES then
        (if length frame < len then Inl OOBRead
         else f_bind (RT_HMAC_SHA1 (take 16 ptk) (take len frame) 20) (\<lambda>digest. Inr (take 16 digest)))
      else if ver = KEY_DESC_EXT then
        f_bind (AES_CMAC frame len ptk 16 (replicate 16 0) 16) (\<lambda>(mic, _). Inr mic)
      else Inr (replicate 16 0))"

text \<open>The frame is copied into a buffer of 512 bytes first.\<close>

definition CalculateMIC :: "(alloc \<Rightarrow> bool) \<Rightarrow> u8 \<Rightarrow> bytes \<Rightarrow> bytes \<Rightarrow> c_fault + bytes" where
  "CalculateMIC mem ver ptk pMsg =
     (let len = get16 Body_Len_at pMsg + 4 in
      if \<not> mem Alloc_MIC then Inr pMsg
      else if length pMsg < len then Inl OOBRead
      else if 512 < len then Inl OOBWrite
      else f_bind (eapol_mic ver ptk pMsg len) (\<lambda>mic. Inr (put_at KeyMic_at mic pMsg)))"

definition TKIP_GTK_KEY_WRAP :: "(alloc \<Rightarrow> bool) \<Rightarrow> bytes \<Rightarrow> bytes \<Rightarrow> bytes \<Rightarrow> nat \<Rightarrow> bytes \<Rightarrow> c_fault + bytes" where
  "TKIP_GTK_KEY_WRAP mem key iv input_text input_len output_text =
     (if \<not> mem Alloc_arc4 then Inr output_text
      else f_bind (ARC4_INIT (iv @ key) 32) (\<lambda>c.
        if length input_text < input_len then Inl OOBRead
        else if length output_text < input_len then Inl OOBWrite
        else Inr (put_at 0 (snd (ARC4_Compute (ARC4_Discard_KeyLength c 256) (take input_len input_text))) output_text)))"

definition TKIP_GTK_KEY_UNWRAP :: "(alloc \<Rightarrow> bool) \<Rightarrow> bytes \<Rightarrow> bytes \<Rightarrow> bytes \<Rightarrow> nat \<Rightarrow> bytes \<Rightarrow> c_fault + bytes" where
  "TKIP_GTK_KEY_UNWRAP = TKIP_GTK_KEY_WRAP"

subsection \<open>Construction\<close>

text \<open>\<^verbatim>\<open>RTMPInsertRSNIE\<close> without a list of PMKIDs.\<close>

definition RTMPInsertRSNIE :: "bytes \<Rightarrow> bytes" where
  "RTMPInsertRSNIE rsnie =
     (if rsnie = [] then []
      else [if slice_at 2 3 rsnie = OUI_WPA2 then 0x30 else 0xdd, word_of_nat (length rsnie)] @ rsnie)"

definition WPA_ConstructKdeHdr :: "u8 \<Rightarrow> u8 \<Rightarrow> bytes" where
  "WPA_ConstructKdeHdr data_type data_len = [0xdd, 4 + data_len] @ OUI_WPA2 @ [data_type]"

definition gtk_length :: "wep_status \<Rightarrow> nat" where
  "gtk_length cipher = (if cipher = AESEnable then 16 else 32)"

text \<open>
  The key data are collected in a buffer of 512 bytes, wrapped into another one, whose contents are
  \<open>junk\<close> at first, when they contain the group key, and copied into the packet.
\<close>

definition key_data_plain :: "auth_mode \<Rightarrow> wep_status \<Rightarrow> nat \<Rightarrow> nat \<Rightarrow> bytes \<Rightarrow> bytes \<Rightarrow> c_fault + bytes" where
  "key_data_plain am GroupCipher MsgType KeyIdx gtk rsnie =
     (let ie = (if MsgType = EAPOL_PAIR_MSG_2 \<or> MsgType = EAPOL_PAIR_MSG_3 then RTMPInsertRSNIE rsnie else []);
          n = gtk_length GroupCipher in
      if (MsgType = EAPOL_PAIR_MSG_3 \<and> wpa2_mode am) \<or> MsgType = EAPOL_GROUP_MSG_1 then
        if length gtk < n then Inl OOBRead
        else Inr (ie @ (if wpa2_mode am
                        then WPA_ConstructKdeHdr 1 (2 + word_of_nat n) @ [word_of_nat KeyIdx AND 3, 0] else []) @
                  take n gtk)
      else Inr ie)"

definition ConstructEapolKeyData :: "(alloc \<Rightarrow> bool) \<Rightarrow> bytes \<Rightarrow> auth_mode \<Rightarrow> wpa_sta \<Rightarrow> wep_status \<Rightarrow> u8 \<Rightarrow> nat \<Rightarrow> nat \<Rightarrow> bytes \<Rightarrow>
    bytes \<Rightarrow> bytes \<Rightarrow> c_fault + bytes" where
  "ConstructEapolKeyData mem junk am e GroupCipher ver MsgType KeyIdx gtk rsnie pMsg =
     (if MsgType = EAPOL_PAIR_MSG_1 \<or> MsgType = EAPOL_PAIR_MSG_4 \<or> MsgType = EAPOL_GROUP_MSG_2 then Inr pMsg
      else if \<not> mem Alloc_KeyData then Inr pMsg
      else f_bind (key_data_plain am GroupCipher MsgType KeyIdx gtk rsnie) (\<lambda>kd.
        f_bind (if (MsgType = EAPOL_PAIR_MSG_3 \<and> wpa2_mode am) \<or> MsgType = EAPOL_GROUP_MSG_1 then
            if ver = KEY_DESC_AES then
              let pad = (8 - length kd mod 8) mod 8;
                  kd = kd @ (if pad = 0 then [] else 0xdd # replicate (pad - 1) 0)
              in f_bind (AES_Key_Wrap (mem Alloc_wrap) kd (length kd) (slice_at 16 16 (PTK e)) 16 junk 0)
                   (\<lambda>(_, eGTK, wrap_len). Inr (eGTK, wrap_len))
            else f_bind (TKIP_GTK_KEY_WRAP mem (slice_at 16 16 (PTK e)) (slice_at KeyIv_at 16 pMsg) kd (length kd) junk)
                   (\<lambda>eGTK. Inr (eGTK, length kd))
          else Inr (kd, length kd))
        (\<lambda>(dat, n).
          if 512 < length kd then Inl OOBWrite
          else if length dat < n then Inl OOBRead
          else if length pMsg < KeyData_at + n then Inl OOBWrite
          else
            let p = put_at KeyData_at (take n dat) (put16 KeyDataLen_at 0 pMsg);
                p = put16 KeyDataLen_at n p
            in Inr (put16 Body_Len_at (get16 Body_Len_at p + n) p))))"

definition ConstructEapolMsg :: "(alloc \<Rightarrow> bool) \<Rightarrow> bytes \<Rightarrow> auth_mode \<Rightarrow> wpa_sta \<Rightarrow> wep_status \<Rightarrow> nat \<Rightarrow> nat \<Rightarrow> bytes \<Rightarrow> bytes \<Rightarrow>
    bytes \<Rightarrow> bytes \<Rightarrow> bytes \<Rightarrow> c_fault + bytes" where
  "ConstructEapolMsg mem junk am e GroupCipher MsgType KeyIdx KeyNonce TxRSC gtk rsnie pMsg =
     (let wpa2 = wpa2_mode am;
          p = put_at 0 [1, 3] pMsg;
          p = put16 Body_Len_at 95 p;
          p = p[4 := if wpa2 then 0x02 else 0xfe];
          ver = (if ent_WepStatus e = AESEnable \<or> GroupCipher = AESEnable then KEY_DESC_AES else KEY_DESC_TKIP);
          k = get_key_info p;
          k = k\<lparr>KeyDescVer := ver, KeyPairwise := MsgType < EAPOL_GROUP_MSG_1\<rparr>;
          k = (if \<not> wpa2 \<and> EAPOL_GROUP_MSG_1 \<le> MsgType then k\<lparr>KeyIndex := word_of_nat KeyIdx\<rparr> else k);
          k = (if MsgType = EAPOL_PAIR_MSG_3 then k\<lparr>Install := True\<rparr> else k);
          k = (if MsgType = EAPOL_PAIR_MSG_1 \<or> MsgType = EAPOL_PAIR_MSG_3 \<or> MsgType = EAPOL_GROUP_MSG_1
               then k\<lparr>KeyAck := True\<rparr> else k);
          k = (if MsgType \<noteq> EAPOL_PAIR_MSG_1 then k\<lparr>KeyMic := True\<rparr> else k);
          k = (if (wpa2 \<and> EAPOL_PAIR_MSG_3 \<le> MsgType) \<or> (\<not> wpa2 \<and> EAPOL_GROUP_MSG_1 \<le> MsgType)
               then k\<lparr>Secure := True\<rparr> else k);
          k = (if wpa2 \<and> (MsgType = EAPOL_PAIR_MSG_3 \<or> MsgType = EAPOL_GROUP_MSG_1)
               then k\<lparr>EKD_DL := True\<rparr> else k);
          p = put_at 5 (key_info_bytes k) p;
          tk = (if ent_WepStatus e = TKIPEnable then 32 else 16);
          p = (if wpa2 then
                 if MsgType = EAPOL_PAIR_MSG_1 \<or> MsgType = EAPOL_PAIR_MSG_3 then p[KeyLength_at + 1 := tk] else p
               else if EAPOL_GROUP_MSG_1 \<le> MsgType then p[KeyLength_at + 1 := if GroupCipher = TKIPEnable then 32 else 16]
               else p[KeyLength_at + 1 := tk]);
          p = put_at ReplayCounter_at (R_Counter e) p;
          p = (if MsgType \<le> EAPOL_PAIR_MSG_3 \<or> (\<not> wpa2 \<and> MsgType = EAPOL_GROUP_MSG_1)
               then put_at KeyNonce_at (take 32 KeyNonce) p else p);
          p = (if \<not> wpa2 \<and> MsgType = EAPOL_GROUP_MSG_1
               then let q = put_at KeyIv_at (slice_at 16 16 KeyNonce) p in q[KeyIv_at + 15 := q ! (KeyIv_at + 15) + 2]
               else p);
          p = (if (MsgType = EAPOL_PAIR_MSG_3 \<and> wpa2) \<or> MsgType = EAPOL_GROUP_MSG_1
               then put_at KeyRsc_at (take 6 TxRSC) p else p);
          p = put_at KeyMic_at (replicate 16 0) p
      in f_bind (ConstructEapolKeyData mem junk am e GroupCipher ver MsgType KeyIdx gtk rsnie p) (\<lambda>p.
           if MsgType \<noteq> EAPOL_PAIR_MSG_1 then CalculateMIC mem ver (PTK e) p else Inr p))"

subsection \<open>Installing keys\<close>

definition BSS0 :: nat where "BSS0 = 0"

definition RTMPSetWcidSecurityInfo :: "cipher_alg \<Rightarrow> nat \<Rightarrow> nat \<Rightarrow> u8 \<Rightarrow> wpa_ad \<Rightarrow> wpa_ad" where
  "RTMPSetWcidSecurityInfo alg BssIdx KeyIdx wcid ad =
     (if alg = CIPHER_NONE then ad else wpa_emit (SetWcidIV wcid alg BssIdx KeyIdx) ad)"

definition pairwise_key :: "bool \<Rightarrow> wep_status \<Rightarrow> bytes \<Rightarrow> key_mat" where
  "pairwise_key bAE cipher ptk =
     (if cipher = TKIPEnable then
        \<lparr>CipherAlg = CIPHER_TKIP, KeyBytes = slice_at 32 16 ptk,
         TxMic = (if bAE then slice_at 48 8 ptk else slice_at 56 8 ptk),
         RxMic = (if bAE then slice_at 56 8 ptk else slice_at 48 8 ptk)\<rparr>
      else zero_key\<lparr>CipherAlg := CIPHER_AES, KeyBytes := slice_at 32 16 ptk\<rparr>)"

definition WPAInstallPairwiseKey :: "nat \<Rightarrow> nat \<Rightarrow> bool \<Rightarrow> wpa_ad \<Rightarrow> wpa_ad" where
  "WPAInstallPairwiseKey BssIdx i bAE ad =
     (let e = w_Sta ad ! i; wcid = ent_wcid (w_ent ad i) in
      if ent_WepStatus e \<noteq> TKIPEnable \<and> ent_WepStatus e \<noteq> AESEnable then upd_sta i (\<lambda>e. e\<lparr>PairwiseKey := zero_key\<rparr>) ad
      else
        let k = pairwise_key bAE (ent_WepStatus e) (PTK e) in
        RTMPSetWcidSecurityInfo (CipherAlg k) BssIdx 0 wcid
          (wpa_emit (AddPairwiseKey wcid k) (upd_sta i (\<lambda>e. e\<lparr>PairwiseKey := k\<rparr>) ad)))"

definition group_alg :: "wep_status \<Rightarrow> cipher_alg" where
  "group_alg c = (if c = GroupWEP40Enabled then CIPHER_WEP64 else if c = GroupWEP104Enabled then CIPHER_WEP128
     else if c = TKIPEnable then CIPHER_TKIP else if c = AESEnable then CIPHER_AES else CIPHER_NONE)"

definition set_shared :: "nat \<Rightarrow> nat \<Rightarrow> key_mat \<Rightarrow> wpa_ad \<Rightarrow> wpa_ad" where
  "set_shared b k key ad = ad\<lparr>SharedKey := (SharedKey ad)[b := (SharedKey ad ! b)[k := key]]\<rparr>"

text \<open>\<open>gtk\<close> is the buffer that \<^verbatim>\<open>pGtk\<close> points to.\<close>

definition WPAInstallSharedKey :: "wep_status \<Rightarrow> nat \<Rightarrow> nat \<Rightarrow> nat \<Rightarrow> bool \<Rightarrow> bytes \<Rightarrow> nat \<Rightarrow> wpa_ad \<Rightarrow> c_fault + wpa_ad" where
  "WPAInstallSharedKey GroupCipher BssIdx KeyIdx Wcid bAE gtk GtkLen ad =
     (let alg = group_alg GroupCipher; wep = (alg = CIPHER_WEP64 \<or> alg = CIPHER_WEP128);
          k0 = zero_key\<lparr>CipherAlg := alg\<rparr>;
          finish = (\<lambda>k. let ad1 = wpa_emit (AddSharedKey BssIdx KeyIdx k) (set_shared BssIdx KeyIdx k ad) in
            Inr (if Wcid \<noteq> 0 then RTMPSetWcidSecurityInfo alg BssIdx KeyIdx (word_of_nat Wcid) ad1 else ad1))
      in
      if unat (BcnMaxNum (w_tab ad)) \<le> BssIdx then Inr ad
      else if length (SharedKey ad) \<le> BssIdx \<or> 4 \<le> KeyIdx then Inl OOBWrite
      else if alg = CIPHER_NONE then Inr (set_shared BssIdx KeyIdx zero_key ad)
      else if wep then
        if GtkLen \<noteq> 5 \<and> GtkLen \<noteq> 13 then Inr (set_shared BssIdx KeyIdx k0 ad)
        else if length gtk < GtkLen then Inl OOBRead
        else finish (k0\<lparr>KeyBytes := take GtkLen gtk\<rparr>)
      else if GtkLen < 16 then Inr (set_shared BssIdx KeyIdx k0 ad)
      else if length gtk < (if alg = CIPHER_TKIP then 32 else 16) then Inl OOBRead
      else if alg = CIPHER_TKIP then
        finish (k0\<lparr>KeyBytes := take 16 gtk, TxMic := slice_at (if bAE then 16 else 24) 8 gtk,
          RxMic := slice_at (if bAE then 24 else 16) 8 gtk\<rparr>)
      else finish (k0\<lparr>KeyBytes := take 16 gtk\<rparr>))"

subsection \<open>Checks on a received packet\<close>

text \<open>
  The loop of \<^verbatim>\<open>RTMPParseEapolKeyData\<close> over the elements of the key data. The buffer is read at offsets
  that only the length in the packet bounds, and a group key is copied into 32 bytes. \<open>None\<close> is the return of
  false for a group key that is too short.
\<close>

function kde_loop :: "bytes \<Rightarrow> nat \<Rightarrow> nat \<Rightarrow> bytes \<times> nat \<times> nat \<Rightarrow> c_fault + (bytes \<times> nat \<times> nat) option" where
  "kde_loop buf len off acc =
     (if length buf \<le> off + 1 then Inl OOBRead
      else let l = unat (buf ! (off + 1)) in
        if len < off + 2 + l then Inr (Some acc)
        else if buf ! off = 0xdd then
          if length buf < off + 5 then Inl OOBRead
          else if slice_at (off + 2) 3 buf = OUI_WPA2 then
            if length buf \<le> off + 5 then Inl OOBRead
            else if buf ! (off + 5) = 1 then
              if length buf \<le> off + 6 then Inl OOBRead
              else let n = unat (buf ! (off + 1) - 6) in
                if n < 5 then Inr None
                else if length buf < off + 8 + n then Inl OOBRead
                else if MAX_LEN_GTK < n then Inl OOBWrite
                else kde_loop buf len (off + 2 + l)
                  (put_at 0 (slice_at (off + 8) n buf) (fst acc), n, unat (buf ! (off + 6) AND 3))
            else kde_loop buf len (off + 2 + l) acc
          else kde_loop buf len (off + 2 + l) acc
        else kde_loop buf len (off + 2 + l) acc)"
  by pat_completeness auto
termination
  by (relation "measure (\<lambda>(buf, len, off, acc). length buf - off)") (auto simp: Let_def)

declare kde_loop.simps [simp del]

text \<open>The length of the key data is passed as a byte.\<close>

definition RTMPParseEapolKeyData :: "bytes \<Rightarrow> u8 \<Rightarrow> nat \<Rightarrow> nat \<Rightarrow> bool \<Rightarrow> wpa_ad \<Rightarrow> c_fault + bool \<times> wpa_ad" where
  "RTMPParseEapolKeyData buf KeyDataLen GroupKeyIndex MsgType wpa2 ad =
     (if (MsgType = EAPOL_PAIR_MSG_2 \<or> MsgType = EAPOL_PAIR_MSG_3) \<and> \<not> (wpa2 \<and> MsgType = EAPOL_PAIR_MSG_3)
      then Inr (True, ad)
      else
        let len = unat KeyDataLen; GTK0 = replicate MAX_LEN_GTK 0 in
        f_bind (if wpa2 \<and> (MsgType = EAPOL_PAIR_MSG_3 \<or> MsgType = EAPOL_GROUP_MSG_1) then kde_loop buf len 0 (GTK0, 0, 0)
          else if \<not> wpa2 \<and> MsgType = EAPOL_GROUP_MSG_1 then
            if length buf < len then Inl OOBRead
            else if MAX_LEN_GTK < len then Inl OOBWrite
            else Inr (Some (put_at 0 (take len buf) GTK0, len, GroupKeyIndex))
          else Inr (Some (GTK0, 0, 0)))
        (\<lambda>r. case r of None \<Rightarrow> Inr (False, ad)
          | Some (GTK, GTKLEN, DefaultIdx) \<Rightarrow>
              if 3 < DefaultIdx then Inr (False, ad)
              else if \<not> mt_ap (w_tab ad) then
                let ad1 = ad\<lparr>StaGTK := put_at 0 (take GTKLEN GTK) (StaGTK ad), StaDefaultKeyId := DefaultIdx\<rparr> in
                f_bind (WPAInstallSharedKey (StaGroupCipher ad1) BSS0 DefaultIdx 0 False (StaGTK ad1) GTKLEN ad1)
                  (\<lambda>ad2. Inr (True, ad2))
              else Inr (True, ad)))"

definition IW_REPLAY_COUNTER_DIFF_EVENT_FLAG :: nat where "IW_REPLAY_COUNTER_DIFF_EVENT_FLAG = 0x0205"
definition IW_MIC_DIFF_EVENT_FLAG :: nat where "IW_MIC_DIFF_EVENT_FLAG = 0x0207"

definition replay_differs :: "nat \<Rightarrow> bytes \<Rightarrow> bytes \<Rightarrow> bool" where
  "replay_differs MsgType rc stored =
     (if MsgType = EAPOL_PAIR_MSG_1 \<or> MsgType = EAPOL_PAIR_MSG_3 \<or> MsgType = EAPOL_GROUP_MSG_1
      then RTMPCompareMemory rc stored \<noteq> 1 \<and> RTMPCompareMemory rc (replicate 8 0) \<noteq> 0
      else rc \<noteq> stored)"

text \<open>
  The packet is followed by the rest of the buffer of the queue element. Received length and code of the
  packet are cleared and overwritten in that buffer, which nothing reads afterwards.
\<close>

definition check_key_data :: "(alloc \<Rightarrow> bool) \<Rightarrow> bytes \<Rightarrow> nat \<Rightarrow> nat \<Rightarrow> wpa_ad \<Rightarrow> c_fault + bool \<times> wpa_ad" where
  "check_key_data mem pMsg MsgType i ad =
     (let e = w_Sta ad ! i; wpa2 = wpa2_mode (AuthMode (w_ent ad i)); k = get_key_info pMsg;
          KEYDATA = replicate MAX_LEN_OF_RSNIE 0;
          dlen = get16 KeyDataLen_at pMsg; dat = drop KeyData_at pMsg in
      if dlen = 0 then Inr (True, ad)
      else if (MsgType = EAPOL_PAIR_MSG_3 \<and> wpa2) \<or> MsgType = EAPOL_GROUP_MSG_1 then
        f_bind (if KeyDescVer k = KEY_DESC_EXT \<or> KeyDescVer k = KEY_DESC_AES then
            f_bind (AES_Key_Unwrap (mem Alloc_wrap) dat dlen (slice_at 16 16 (PTK e)) 16 KEYDATA 0)
              (\<lambda>(_, buf, n). Inr (buf, n))
          else f_bind (TKIP_GTK_KEY_UNWRAP mem (slice_at 16 16 (PTK e)) (slice_at KeyIv_at 16 pMsg) dat dlen KEYDATA)
              (\<lambda>buf. Inr (buf, dlen)))
        (\<lambda>(buf, n). RTMPParseEapolKeyData buf (word_of_nat n)
           (if \<not> wpa2 \<and> MsgType = EAPOL_GROUP_MSG_1 then unat (KeyIndex k) else 0) MsgType wpa2 ad)
      else if MsgType = EAPOL_PAIR_MSG_2 \<or> (MsgType = EAPOL_PAIR_MSG_3 \<and> \<not> wpa2) then
        if length dat < dlen then Inl OOBRead
        else if MAX_LEN_OF_RSNIE < dlen then Inl OOBWrite
        else RTMPParseEapolKeyData (put_at 0 (take dlen dat) KEYDATA) (word_of_nat dlen) 0 MsgType wpa2 ad
      else Inr (True, ad))"

definition PeerWpaMessageSanity :: "(alloc \<Rightarrow> bool) \<Rightarrow> bytes \<Rightarrow> nat \<Rightarrow> nat \<Rightarrow> wpa_ad \<Rightarrow> c_fault + bool \<times> wpa_ad" where
  "PeerWpaMessageSanity mem pMsg MsgType i ad =
     (let e = w_Sta ad ! i; a = Addr (w_ent ad i) in
      if \<not> mem Alloc_KEYDATA then Inr (False, ad)
      else if EAPOL_GROUP_MSG_2 < MsgType \<or> MsgType < EAPOL_PAIR_MSG_1 then Inr (False, ad)
      else if replay_differs MsgType (slice_at ReplayCounter_at 8 pMsg) (R_Counter e) then
        Inr (False, wpa_emit (WpaNotice a IW_REPLAY_COUNTER_DIFF_EVENT_FLAG) ad)
      else
        f_bind (if MsgType = EAPOL_PAIR_MSG_1 then Inr True
          else f_bind (eapol_mic (KeyDescVer (get_key_info pMsg)) (PTK e) (put_at KeyMic_at (replicate 16 0) pMsg)
              (get16 Body_Len_at pMsg + 4))
            (\<lambda>mic. Inr (slice_at KeyMic_at 16 pMsg = mic)))
        (\<lambda>mic_ok.
          if \<not> mic_ok then Inr (False, wpa_emit (WpaNotice a IW_MIC_DIFF_EVENT_FLAG) ad)
          else check_key_data mem pMsg MsgType i ad))"

end
