(* ===== verification/FourWay.thy ===== *)
theory FourWay
  imports Eapol MlmeFrames
begin

text \<open>
  The handlers of the four-way and the group key handshake, of key requests, countermeasures and retries, in
  \<^verbatim>\<open>common/cmm_wpa.c\<close> and \<^verbatim>\<open>ap/ap_wpa.c\<close>. A message of the queue is a buffer \<open>Msg\<close>, its first \<open>MsgLen\<close>
  bytes are the frame; \<open>i\<close> is the place of \<^verbatim>\<open>pEntry\<close> in the station table.
\<close>

unbundle bit_operations_syntax

subsection \<open>Constants\<close>

definition PEER_MSG1_RETRY_TIMER_CTR :: u8 where "PEER_MSG1_RETRY_TIMER_CTR = 0"
definition PEER_MSG3_RETRY_TIMER_CTR :: u8 where "PEER_MSG3_RETRY_TIMER_CTR = 10"
definition GROUP_MSG1_RETRY_TIMER_CTR :: u8 where "GROUP_MSG1_RETRY_TIMER_CTR = 20"
definition PEER_MSG1_RETRY_EXEC_INTV :: nat where "PEER_MSG1_RETRY_EXEC_INTV = 1000"
definition PEER_MSG3_RETRY_EXEC_INTV :: nat where "PEER_MSG3_RETRY_EXEC_INTV = 3000"
definition MIN_LEN_OF_EAPOL_KEY_MSG :: nat where "MIN_LEN_OF_EAPOL_KEY_MSG = 95"
definition LENGTH_EAPOL_H :: nat where "LENGTH_EAPOL_H = 4"
definition LEN_TKIP_GTK :: nat where "LEN_TKIP_GTK = 32"
definition LEN_PTK :: nat where "LEN_PTK = 64"
definition LEN_PMKID :: nat where "LEN_PMKID = 16"
definition REASON_MIC_FAILURE :: u16 where "REASON_MIC_FAILURE = 14"
definition REASON_4_WAY_TIMEOUT :: u16 where "REASON_4_WAY_TIMEOUT = 15"
definition REASON_GROUP_KEY_HS_TIMEOUT :: u16 where "REASON_GROUP_KEY_HS_TIMEOUT = 16"
definition IW_DEAUTH_EVENT_FLAG :: nat where "IW_DEAUTH_EVENT_FLAG = 0x0202"
definition IW_COUNTER_MEASURES_EVENT_FLAG :: nat where "IW_COUNTER_MEASURES_EVENT_FLAG = 0x0204"
definition IW_MIC_ERROR_EVENT_FLAG :: nat where "IW_MIC_ERROR_EVENT_FLAG = 0x0209"
definition IW_GROUP_HS_TIMEOUT_EVENT_FLAG :: nat where "IW_GROUP_HS_TIMEOUT_EVENT_FLAG = 0x020A"
definition IW_PAIRWISE_HS_TIMEOUT_EVENT_FLAG :: nat where "IW_PAIRWISE_HS_TIMEOUT_EVENT_FLAG = 0x020B"
definition IW_SET_KEY_DONE_WPA1_EVENT_FLAG :: nat where "IW_SET_KEY_DONE_WPA1_EVENT_FLAG = 0x020D"
definition IW_SET_KEY_DONE_WPA2_EVENT_FLAG :: nat where "IW_SET_KEY_DONE_WPA2_EVENT_FLAG = 0x020E"

lemmas fourway_lengths = MIN_LEN_OF_EAPOL_KEY_MSG_def LENGTH_802_11_def LENGTH_802_1_H_def LENGTH_EAPOL_H_def
  LEN_TKIP_GTK_def LEN_PTK_def LEN_PMKID_def TX_EAPOL_BUFFER_def

subsection \<open>Sending\<close>

definition client_or_apcli :: "mac_entry \<Rightarrow> bool" where
  "client_or_apcli e \<longleftrightarrow> EntryType e = ENTRY_CLIENT \<or> EntryType e = ENTRY_APCLI"

text \<open>\<open>dst\<close> and \<open>src\<close> are the addresses of the 802.3 header; the transmit path takes the packet over.\<close>

definition RTMPToWirelessSta :: "wpa_env \<Rightarrow> nat \<Rightarrow> bytes \<Rightarrow> bytes \<Rightarrow> bytes \<Rightarrow> nat \<Rightarrow> bool \<Rightarrow> wpa_ad \<Rightarrow> c_fault + wpa_ad" where
  "RTMPToWirelessSta env i dst src p DataLen bClearFrame ad =
     (if \<not> client_or_apcli (w_ent ad i) then Inr ad
      else if \<not> e_mem env Alloc_packet then Inr ad
      else if length p < DataLen then Inl OOBRead
      else Inr (wpa_emit (SendEapol i dst src (take DataLen p) bClearFrame) ad))"

definition STA_PORT_SECURED :: "wpa_ad \<Rightarrow> wpa_ad" where
  "STA_PORT_SECURED ad =
     wpa_emit StaPortSecured (upd_sta BSSID_WCID (\<lambda>e. e\<lparr>PrivacyAcceptAll := True\<rparr>)
       (upd_ent BSSID_WCID (\<lambda>e. e\<lparr>PortSecured := True\<rparr>) ad))"

subsection \<open>Message 1\<close>

text \<open>The key of the cache that the station named goes into message 1 and becomes the key of the network.\<close>

definition msg1_pmkid :: "nat \<Rightarrow> nat \<Rightarrow> bytes \<Rightarrow> wpa_ad \<Rightarrow> c_fault + bytes \<times> wpa_ad" where
  "msg1_pmkid i n p ad =
     (case PMKID_CacheIdx (w_Sta ad ! i) of
        Some k \<Rightarrow>
          if AuthMode (w_ent ad i) \<noteq> AuthModeWPA2 then Inr (p, ad)
          else if MAX_PMKID_COUNT \<le> k then Inl OOBRead
          else let c = an_PMKIDCache (w_Net ad ! n) ! k;
                   p = put_at KeyData_at ([0xdd, 0x14] @ OUI_WPA2 @ [4] @ bi_PMKID c) p;
                   p = put16 KeyDataLen_at (get16 KeyDataLen_at p + 22) p
               in Inr (put16 Body_Len_at (get16 Body_Len_at p + 22) p, upd_net n (\<lambda>a. a\<lparr>an_PMK := bi_PMK c\<rparr>) ad)
      | None \<Rightarrow> Inr (p, ad))"

definition WPAStart4WayHS :: "wpa_env \<Rightarrow> nat \<Rightarrow> nat \<Rightarrow> wpa_ad \<Rightarrow> c_fault + wpa_ad" where
  "WPAStart4WayHS env i TimeInterval ad =
     (let e = w_ent ad i; n = unat (ent_apidx e); bssid = mb_bssid (MBSSID (w_tab ad) ! n) in
      if w_Closing ad then Inr ad
      else if \<not> mt_ap (w_tab ad) \<or> EntryType e \<noteq> ENTRY_CLIENT then Inr ad
      else if AS_PTKSTART < WpaState e \<or> WpaState e < AS_INITPMK then Inr ad
      else if length (w_Net ad) \<le> n then Inl OOBRead
      else
        f_bind (GenRandom (\<lambda>j. e_mem env (Alloc_GenRandom j)) bssid (e_clock env)) (\<lambda>nonce.
        let ad1 = upd_sta i (\<lambda>s. s\<lparr>R_Counter := ADD_ONE_To_64BIT_VAR (R_Counter s), ANonce := nonce\<rparr>) ad in
        if \<not> e_mem env Alloc_mpool then Inr ad1
        else f_bind (ConstructEapolMsg (e_mem env) (e_junk env) (AuthMode e) (w_Sta ad1 ! i) (an_GroupCipher (w_Net ad ! n))
            EAPOL_PAIR_MSG_1 0 nonce [] [] [] (replicate TX_EAPOL_BUFFER 0)) (\<lambda>p.
        f_bind (msg1_pmkid i n p ad1) (\<lambda>(p, ad2).
        f_bind (RTMPToWirelessSta env i (Addr e) bssid p (get16 Body_Len_at p + 4) (\<not> PortSecured e) ad2) (\<lambda>ad3.
          Inr (upd_ent i (\<lambda>e. e\<lparr>WpaState := AS_PTKSTART\<rparr>) (wpa_emit (ModRetryTimer i TimeInterval) ad3)))))))"

definition PeerPairMsg1Action :: "wpa_env \<Rightarrow> nat \<Rightarrow> bytes \<Rightarrow> nat \<Rightarrow> wpa_ad \<Rightarrow> c_fault + wpa_ad" where
  "PeerPairMsg1Action env i Msg MsgLen ad =
     (let e = w_ent ad i; pMsg1 = drop (LENGTH_802_11 + LENGTH_802_1_H) Msg in
      if \<not> client_or_apcli e then Inr ad
      else if MsgLen < LENGTH_802_11 + LENGTH_802_1_H + LENGTH_EAPOL_H + MIN_LEN_OF_EAPOL_KEY_MSG then Inr ad
      else if mt_ap (w_tab ad) then Inr ad
      else f_bind (PeerWpaMessageSanity (e_mem env) pMsg1 EAPOL_PAIR_MSG_1 i ad) (\<lambda>(ok, ad1).
        if \<not> ok then Inr ad1
        else
          let anonce = slice_at KeyNonce_at 32 pMsg1;
              ad2 = upd_sta i (\<lambda>s. s\<lparr>R_Counter := slice_at ReplayCounter_at 8 pMsg1, ANonce := anonce\<rparr>) ad1
          in f_bind (GenRandom (\<lambda>j. e_mem env (Alloc_GenRandom j)) (CurrentAddress ad) (e_clock env)) (\<lambda>snonce.
             f_bind (WpaDerivePTK (e_mem env Alloc_PRF) (StaPMK ad) anonce (Addr e) snonce (CurrentAddress ad) (e_stk env) LEN_PTK)
               (\<lambda>ptk.
             let ad3 = upd_ent i (\<lambda>e. e\<lparr>WpaState := AS_PTKINIT_NEGOTIATING\<rparr>)
                   (upd_sta i (\<lambda>s. s\<lparr>SNonce := snonce, PTK := take LEN_PTK ptk\<rparr>) ad2)
             in if \<not> e_mem env Alloc_mpool then Inr ad3
                else f_bind (ConstructEapolMsg (e_mem env) (e_junk env) (AuthMode e) (w_Sta ad3 ! i) (StaGroupCipher ad)
                    EAPOL_PAIR_MSG_2 0 snonce [] [] (StaRSN_IE ad) (replicate TX_EAPOL_BUFFER 0)) (\<lambda>p.
                  RTMPToWirelessSta env i (Addr e) (CurrentAddress ad) p (get16 Body_Len_at p + 4) True ad3)))))"

subsection \<open>Message 2\<close>

text \<open>The information element of the network that message 3 repeats.\<close>

definition net_rsn_ie :: "auth_mode \<Rightarrow> auth_mode \<Rightarrow> ap_net \<Rightarrow> bytes" where
  "net_rsn_ie am wdev_am n =
     (if am = AuthModeWPA \<or> am = AuthModeWPAPSK then fst (an_RSN_IE n)
      else if wdev_am = AuthModeWPA1PSKWPA2PSK \<or> wdev_am = AuthModeWPA1WPA2 then snd (an_RSN_IE n)
      else fst (an_RSN_IE n))"

definition PeerPairMsg2Action :: "wpa_env \<Rightarrow> nat \<Rightarrow> bytes \<Rightarrow> nat \<Rightarrow> wpa_ad \<Rightarrow> c_fault + wpa_ad" where
  "PeerPairMsg2Action env i Msg MsgLen ad =
     (let e = w_ent ad i; n = unat (ent_apidx e); net = w_Net ad ! n; mb = MBSSID (w_tab ad) ! n;
          pMsg2 = drop (LENGTH_802_11 + LENGTH_802_1_H) Msg; snonce = slice_at KeyNonce_at 32 pMsg2;
          ad1 = upd_sta i (\<lambda>s. s\<lparr>SNonce := snonce\<rparr>) ad in
      if EntryType e \<noteq> ENTRY_CLIENT then Inr ad
      else if MsgLen < LENGTH_802_11 + LENGTH_802_1_H + LENGTH_EAPOL_H + MIN_LEN_OF_EAPOL_KEY_MSG then Inr ad
      else if WpaState e < AS_PTKSTART then Inr ad
      else if \<not> mt_ap (w_tab ad) then Inr ad1
      else if BssidNum (w_tab ad) \<le> ent_apidx e then Inr ad
      else f_bind (WpaDerivePTK (e_mem env Alloc_PRF) (an_PMK net) (ANonce (w_Sta ad ! i)) (mb_bssid mb) snonce (Addr e)
          (e_stk env) LEN_PTK) (\<lambda>ptk.
        f_bind (PeerWpaMessageSanity (e_mem env) pMsg2 EAPOL_PAIR_MSG_2 i (upd_sta i (\<lambda>s. s\<lparr>PTK := take LEN_PTK ptk\<rparr>) ad1))
        (\<lambda>(ok, ad2).
        if \<not> ok then Inr ad2
        else if \<not> e_mem env Alloc_mpool then Inr ad2
        else
          let ad3 = upd_sta i (\<lambda>s. s\<lparr>R_Counter := ADD_ONE_To_64BIT_VAR (R_Counter s)\<rparr>)
                (upd_ent i (\<lambda>e. e\<lparr>WpaState := AS_PTKINIT_NEGOTIATING\<rparr>) (wpa_emit (CancelRetryTimer i) ad2))
          in f_bind (ConstructEapolMsg (e_mem env) (e_junk env) (AuthMode e) (w_Sta ad3 ! i) (an_GroupCipher net)
                EAPOL_PAIR_MSG_3 (an_DefaultKeyId net) (ANonce (w_Sta ad3 ! i)) (e_TxTsc env n) (an_GTK net)
                (net_rsn_ie (AuthMode e) (mb_AuthMode mb) net) (replicate TX_EAPOL_BUFFER 0)) (\<lambda>p.
             f_bind (RTMPToWirelessSta env i (Addr e) (mb_bssid mb) p (get16 Body_Len_at p + 4) (\<not> PortSecured e) ad3) (\<lambda>ad4.
               Inr (wpa_emit (SetRetryTimer i PEER_MSG3_RETRY_EXEC_INTV)
                 (upd_sta i (\<lambda>s. s\<lparr>ReTryCounter := PEER_MSG3_RETRY_TIMER_CTR\<rparr>) ad4)))))))"

subsection \<open>Message 3\<close>

definition PeerPairMsg3Action :: "wpa_env \<Rightarrow> nat \<Rightarrow> bytes \<Rightarrow> nat \<Rightarrow> wpa_ad \<Rightarrow> c_fault + wpa_ad" where
  "PeerPairMsg3Action env i Msg MsgLen ad =
     (let e = w_ent ad i; pMsg3 = drop (LENGTH_802_11 + LENGTH_802_1_H) Msg in
      if \<not> client_or_apcli e then Inr ad
      else if MsgLen < LENGTH_802_11 + LENGTH_802_1_H + LENGTH_EAPOL_H + MIN_LEN_OF_EAPOL_KEY_MSG then Inr ad
      else if mt_ap (w_tab ad) then Inr ad
      else f_bind (PeerWpaMessageSanity (e_mem env) pMsg3 EAPOL_PAIR_MSG_3 i ad) (\<lambda>(ok, ad1).
        if \<not> ok then Inr ad1
        else
          let ad2 = upd_sta i (\<lambda>s. s\<lparr>R_Counter := slice_at ReplayCounter_at 8 pMsg3\<rparr>) ad1 in
          if ANonce (w_Sta ad2 ! i) \<noteq> slice_at KeyNonce_at 32 pMsg3 then Inr ad2
          else if \<not> e_mem env Alloc_mpool then Inr ad2
          else f_bind (ConstructEapolMsg (e_mem env) (e_junk env) (AuthMode e) (w_Sta ad2 ! i) (StaGroupCipher ad)
                EAPOL_PAIR_MSG_4 0 [] [] [] [] (replicate TX_EAPOL_BUFFER 0)) (\<lambda>p.
            let ad3 = upd_ent i (\<lambda>e. e\<lparr>WpaState := AS_PTKINITDONE\<rparr>) ad2;
                ad4 = WPAInstallPairwiseKey BSS0 i False (ad3\<lparr>StaPTK := PTK (w_Sta ad3 ! i)\<rparr>);
                ad5 = (if wpa2_mode (AuthMode e)
                       then STA_PORT_SECURED (upd_sta i (\<lambda>s. s\<lparr>PrivacyAcceptAll := True\<rparr>)
                              (upd_ent i (\<lambda>e. e\<lparr>PortSecured := True\<rparr>) ad4))
                       else ad4)
            in RTMPToWirelessSta env i (Addr e) (CurrentAddress ad) p (get16 Body_Len_at p + 4) True ad5)))"

subsection \<open>The group key handshake\<close>

text \<open>In station mode there is no group key to send, and the code copies from the null pointer.\<close>

definition WPAStart2WayGroupHS :: "wpa_env \<Rightarrow> nat \<Rightarrow> wpa_ad \<Rightarrow> c_fault + wpa_ad" where
  "WPAStart2WayGroupHS env i ad =
     (let e = w_ent ad i; n = unat (ent_apidx e); net = w_Net ad ! n; bssid = mb_bssid (MBSSID (w_tab ad) ! n);
          ad1 = upd_sta i (\<lambda>s. s\<lparr>R_Counter := ADD_ONE_To_64BIT_VAR (R_Counter s)\<rparr>) ad in
      if EntryType e \<noteq> ENTRY_CLIENT then Inr ad
      else if mt_ap (w_tab ad) \<and> BssidNum (w_tab ad) \<le> ent_apidx e then Inr ad
      else if \<not> e_mem env Alloc_mpool then Inr ad
      else if \<not> mt_ap (w_tab ad) then
        if wpa2_mode (AuthMode e) \<and> \<not> e_mem env Alloc_KeyData then Inr ad1 else Inl NullDeref
      else f_bind (ConstructEapolMsg (e_mem env) (e_junk env) (AuthMode e) (w_Sta ad1 ! i) (an_GroupCipher net)
            EAPOL_GROUP_MSG_1 (an_DefaultKeyId net) (an_GNonce net) (e_TxTsc env n) (an_GTK net) []
            (replicate TX_EAPOL_BUFFER 0)) (\<lambda>p.
          RTMPToWirelessSta env i (Addr e) bssid p (get16 Body_Len_at p + 4) False ad1))"

definition PeerGroupMsg1Action :: "wpa_env \<Rightarrow> nat \<Rightarrow> bytes \<Rightarrow> nat \<Rightarrow> wpa_ad \<Rightarrow> c_fault + wpa_ad" where
  "PeerGroupMsg1Action env i Msg MsgLen ad =
     (let e = w_ent ad i; pGroup = drop (LENGTH_802_11 + LENGTH_802_1_H) Msg in
      if \<not> client_or_apcli e then Inr ad
      else if mt_ap (w_tab ad) then Inr ad
      else f_bind (PeerWpaMessageSanity (e_mem env) pGroup EAPOL_GROUP_MSG_1 i ad) (\<lambda>(ok, ad1).
        if \<not> ok then Inr ad1
        else
          let ad2 = upd_sta i (\<lambda>s. s\<lparr>R_Counter := slice_at ReplayCounter_at 8 pGroup\<rparr>) ad1 in
          if \<not> e_mem env Alloc_mpool then Inr ad2
          else f_bind (ConstructEapolMsg (e_mem env) (e_junk env) (AuthMode e) (w_Sta ad2 ! i) (StaGroupCipher ad)
                EAPOL_GROUP_MSG_2 (StaDefaultKeyId ad) [] [] [] [] (replicate TX_EAPOL_BUFFER 0)) (\<lambda>p.
            RTMPToWirelessSta env i (Addr e) (CurrentAddress ad) p (get16 Body_Len_at p + 4) False
              (STA_PORT_SECURED (upd_sta i (\<lambda>s. s\<lparr>PrivacyAcceptAll := True\<rparr>)
                (upd_ent i (\<lambda>e. e\<lparr>PortSecured := True\<rparr>) ad2))))))"

definition PeerGroupMsg2Action :: "wpa_env \<Rightarrow> nat \<Rightarrow> bytes \<Rightarrow> nat \<Rightarrow> wpa_ad \<Rightarrow> c_fault + wpa_ad" where
  "PeerGroupMsg2Action env i Msg MsgLen ad =
     (let e = w_ent ad i in
      if EntryType e \<noteq> ENTRY_CLIENT then Inr ad
      else if MsgLen < LENGTH_802_1_H + LENGTH_EAPOL_H + MIN_LEN_OF_EAPOL_KEY_MSG then Inr ad
      else if WpaState e \<noteq> AS_PTKINITDONE then Inr ad
      else if mt_ap (w_tab ad) \<and> BssidNum (w_tab ad) \<le> ent_apidx e then Inr ad
      else f_bind (PeerWpaMessageSanity (e_mem env) (drop LENGTH_802_1_H Msg) EAPOL_GROUP_MSG_2 i ad) (\<lambda>(ok, ad1).
        if \<not> ok then Inr ad1
        else Inr (wpa_emit (WpaNotice (Addr e)
              (if wpa2_mode (AuthMode e) then IW_SET_KEY_DONE_WPA2_EVENT_FLAG else IW_SET_KEY_DONE_WPA1_EVENT_FLAG))
            (upd_sta i (\<lambda>s. s\<lparr>GTKState := REKEY_ESTABLISHED\<rparr>) (wpa_emit (CancelRetryTimer i) ad1)))))"

subsection \<open>Message 4\<close>

definition msg4_cache :: "wpa_env \<Rightarrow> nat \<Rightarrow> wpa_ad \<Rightarrow> c_fault + wpa_ad" where
  "msg4_cache env i ad =
     (let e = w_ent ad i; n = unat (ent_apidx e); net = w_Net ad ! n in
      if AuthMode e \<noteq> AuthModeWPA2 then Inr ad
      else if length (w_Net ad) \<le> n then Inl OOBRead
      else f_bind (RTMPDerivePMKID (mb_bssid (MBSSID (w_tab ad) ! n)) (Addr e) (an_PMK net)) (\<lambda>pmkid.
        Inr (upd_net n (\<lambda>a. a\<lparr>an_PMKIDCache :=
          RTMPAddPMKIDCache (e_jiffies env) (an_PMKIDCache a) (Addr e) pmkid (an_PMK net)\<rparr>) ad)))"

definition PeerPairMsg4Action :: "wpa_env \<Rightarrow> nat \<Rightarrow> bytes \<Rightarrow> nat \<Rightarrow> wpa_ad \<Rightarrow> c_fault + wpa_ad" where
  "PeerPairMsg4Action env i Msg MsgLen ad =
     (let e = w_ent ad i; pMsg4 = drop (LENGTH_802_11 + LENGTH_802_1_H) Msg in
      if EntryType e \<noteq> ENTRY_CLIENT then Inr ad
      else if MsgLen < LENGTH_802_11 + LENGTH_802_1_H + LENGTH_EAPOL_H + MIN_LEN_OF_EAPOL_KEY_MSG then Inr ad
      else if WpaState e < AS_PTKINIT_NEGOTIATING then Inr ad
      else if mt_ap (w_tab ad) \<and> BssidNum (w_tab ad) \<le> ent_apidx e then Inr ad
      else f_bind (PeerWpaMessageSanity (e_mem env) pMsg4 EAPOL_PAIR_MSG_4 i ad) (\<lambda>(ok, ad1).
        if \<not> ok then Inr ad1
        else
          let ad2 = upd_ent i (\<lambda>e. e\<lparr>WpaState := AS_PTKINITDONE, PortSecured := True\<rparr>)
                (upd_sta i (\<lambda>s. s\<lparr>PrivacyAcceptAll := True\<rparr>) (WPAInstallPairwiseKey (unat (ent_apidx e)) i True ad1))
          in if wpa2_mode (AuthMode e) then
               f_bind (msg4_cache env i (wpa_emit (CancelRetryTimer i) (upd_sta i (\<lambda>s. s\<lparr>GTKState := REKEY_ESTABLISHED\<rparr>) ad2)))
                 (\<lambda>ad3. Inr (wpa_emit (WpaNotice (Addr e) IW_SET_KEY_DONE_WPA2_EVENT_FLAG) ad3))
             else
               f_bind (WPAStart2WayGroupHS env i ad2) (\<lambda>ad3.
                 Inr (wpa_emit (ModRetryTimer i PEER_MSG3_RETRY_EXEC_INTV)
                   (upd_sta i (\<lambda>s. s\<lparr>ReTryCounter := GROUP_MSG1_RETRY_TIMER_CTR\<rparr>) ad3)))))"

subsection \<open>Key requests of a station\<close>

text \<open>\<open>envs\<close> is what the group handshake with each of the stations finds.\<close>

definition rekey_station :: "(nat \<Rightarrow> wpa_env) \<Rightarrow> u8 \<Rightarrow> wpa_ad \<Rightarrow> nat \<Rightarrow> c_fault + wpa_ad" where
  "rekey_station envs apidx ad i =
     (let e = w_ent ad i in
      if EntryType e = ENTRY_CLIENT \<and> WpaState e = AS_PTKINITDONE \<and> ent_apidx e = apidx then
        f_bind (WPAStart2WayGroupHS (envs i) i (upd_sta i (\<lambda>s. s\<lparr>GTKState := REKEY_NEGOTIATING\<rparr>) ad)) (\<lambda>ad1.
          Inr (wpa_emit (ModRetryTimer i PEER_MSG3_RETRY_EXEC_INTV)
            (upd_sta i (\<lambda>s. s\<lparr>ReTryCounter := GROUP_MSG1_RETRY_TIMER_CTR\<rparr>) ad1)))
      else Inr ad)"

definition group_key_request :: "wpa_env \<Rightarrow> (nat \<Rightarrow> wpa_env) \<Rightarrow> u8 \<Rightarrow> wpa_ad \<Rightarrow> c_fault + wpa_ad" where
  "group_key_request env envs apidx ad =
     (let n = unat apidx; bssid = mb_bssid (MBSSID (w_tab ad) ! n) in
      if length (w_Net ad) \<le> n then Inl OOBRead
      else f_bind (GenRandom (\<lambda>j. e_mem env (Alloc_GenRandom j)) bssid (e_clock env)) (\<lambda>nonce.
        let ad1 = upd_net n (\<lambda>a. a\<lparr>an_GNonce := nonce, an_DefaultKeyId := (if an_DefaultKeyId a = 1 then 2 else 1)\<rparr>) ad in
        f_bind (WpaDeriveGTK (e_mem env Alloc_PRF) (an_GMK (w_Net ad ! n)) nonce bssid (e_stk env) (an_GTK (w_Net ad ! n)) LEN_TKIP_GTK)
        (\<lambda>gtk.
        f_bind (fold_fault (rekey_station envs apidx) (upd_net n (\<lambda>a. a\<lparr>an_GTK := gtk\<rparr>) ad1) [0..<MAX_LEN_OF_MAC_TABLE]) (\<lambda>ad2.
          WPAInstallSharedKey (an_GroupCipher (w_Net ad2 ! n)) n (an_DefaultKeyId (w_Net ad2 ! n))
            ((w_ReservedWcid ad - 2 - unat (BcnMaxNum (w_tab ad)) + n) mod 256) True gtk LEN_TKIP_GTK ad2))))"

definition pairwise_key_request :: "wpa_env \<Rightarrow> nat \<Rightarrow> wpa_ad \<Rightarrow> c_fault + wpa_ad" where
  "pairwise_key_request env i ad =
     (let e = w_ent ad i;
          st = (if AuthMode e = AuthModeWPA \<or> AuthMode e = AuthModeWPA2 then AS_INITPMK
                else if AuthMode e = AuthModeWPAPSK \<or> AuthMode e = AuthModeWPA2PSK then AS_INITPSK else WpaState e);
          ad1 = wpa_emit (RemovePairwiseKey (ent_wcid e)) (upd_sta i (\<lambda>s. s\<lparr>PairwiseKey := zero_key\<rparr>) ad);
          ad2 = upd_sta i (\<lambda>s. s\<lparr>GTKState := REKEY_NEGOTIATING, PrivacyAcceptAll := False,
                  ReTryCounter := PEER_MSG1_RETRY_TIMER_CTR, R_Counter := replicate 8 0\<rparr>)
                (upd_ent i (\<lambda>e. e\<lparr>Sst := SST_ASSOC, WpaState := st, PortSecured := False\<rparr>) ad1)
      in WPAStart4WayHS env i PEER_MSG1_RETRY_EXEC_INTV ad2)"

subsection \<open>The two entry points\<close>

definition wpa_lookup :: "wpa_ad \<Rightarrow> bytes \<Rightarrow> nat option run" where
  "wpa_lookup ad a = MacTableLookup (w_tab ad) a"

definition WpaEAPOLStartAction :: "wpa_env \<Rightarrow> bytes \<Rightarrow> nat \<Rightarrow> wpa_ad \<Rightarrow> wpa_ad run" where
  "WpaEAPOLStartAction env Msg MsgLen ad =
     r_bind (wpa_lookup ad (if MsgLen = 6 then take 6 Msg else slice_at 10 6 Msg)) (\<lambda>p.
       case p of None \<Rightarrow> r_return ad
       | Some i \<Rightarrow>
           let e = w_ent ad i in
           if \<not> PortSecured e \<and> WpaState e < AS_PTKSTART \<and>
              (AuthMode e = AuthModeWPAPSK \<or> AuthMode e = AuthModeWPA2PSK \<or>
               (AuthMode e = AuthModeWPA2 \<and> PMKID_CacheIdx (w_Sta ad ! i) \<noteq> None))
           then r_lift (WPAStart4WayHS env i PEER_MSG1_RETRY_EXEC_INTV
             (upd_sta i (\<lambda>s. s\<lparr>PrivacyAcceptAll := False, R_Counter := replicate 8 0, ReTryCounter := PEER_MSG1_RETRY_TIMER_CTR\<rparr>)
               (upd_ent i (\<lambda>e. e\<lparr>WpaState := AS_INITPSK, PortSecured := False\<rparr>) ad)))
           else r_return ad)"

text \<open>The dispatch of a key frame of entry \<open>i\<close> by the bits of its key information.\<close>

definition key_frame :: "wpa_env \<Rightarrow> (nat \<Rightarrow> wpa_env) \<Rightarrow> nat \<Rightarrow> bytes \<Rightarrow> nat \<Rightarrow> wpa_ad \<Rightarrow> c_fault + wpa_ad" where
  "key_frame env envs i Msg MsgLen ad =
     (let p = drop (LENGTH_802_11 + LENGTH_802_1_H) Msg; k = get_key_info p; e = w_ent ad i in
      if KeyAck k then
        if \<not> Secure k \<and> \<not> Request k \<and> \<not> KeyError k \<and> KeyPairwise k then
          if \<not> KeyMic k then PeerPairMsg1Action env i Msg MsgLen ad else PeerPairMsg3Action env i Msg MsgLen ad
        else if Secure k \<and> KeyMic k \<and> \<not> Request k \<and> \<not> KeyError k then
          if KeyPairwise k then PeerPairMsg3Action env i Msg MsgLen ad else PeerGroupMsg1Action env i Msg MsgLen ad
        else Inr ad
      else if KeyMic k \<and> Request k \<and> KeyError k then Inr (wpa_emit (CmdCounterMeasure e (w_Sta ad ! i)) ad)
      else if \<not> Request k \<and> \<not> KeyError k \<and> KeyMic k then
        if \<not> Secure k \<and> KeyPairwise k then
          if get16 KeyDataLen_at p = 0 then PeerPairMsg4Action env i Msg MsgLen ad else PeerPairMsg2Action env i Msg MsgLen ad
        else if Secure k \<and> KeyPairwise k then PeerPairMsg4Action env i Msg MsgLen ad
        else if Secure k \<and> \<not> KeyPairwise k then
          PeerGroupMsg2Action env i (drop LENGTH_802_11 Msg) (MsgLen - LENGTH_802_11) ad
        else Inr ad
      else if Request k \<and> \<not> KeyError k then
        if \<not> KeyPairwise k then group_key_request env envs (ent_apidx e) ad else pairwise_key_request env i ad
      else Inr ad)"

text \<open>The difference of the lengths is unsigned and wraps around for a message shorter than its headers.\<close>

definition key_frame_ok :: "bytes \<Rightarrow> nat \<Rightarrow> mac_entry \<Rightarrow> wpa_sta \<Rightarrow> bool" where
  "key_frame_ok p MsgLen e s \<longleftrightarrow>
     client_or_apcli e \<and> AuthModeWPA \<le> AuthMode e \<and>
     \<not> (LENGTH_802_11 + LENGTH_802_1_H \<le> MsgLen \<and>
        MsgLen - LENGTH_802_11 - LENGTH_802_1_H < get16 Body_Len_at p + LENGTH_EAPOL_H) \<and>
     (p ! 0 = 1 \<or> p ! 0 = 2) \<and> (p ! 4 = 0xfe \<or> p ! 4 = 2) \<and>
     \<not> (ent_WepStatus s = TKIPEnable \<and> KeyDescVer (get_key_info p) \<noteq> KEY_DESC_TKIP) \<and>
     \<not> (ent_WepStatus s = AESEnable \<and> KeyDescVer (get_key_info p) \<noteq> KEY_DESC_AES \<and>
        KeyDescVer (get_key_info p) \<noteq> KEY_DESC_EXT) \<and>
     Sst e = SST_ASSOC \<and> AS_INITPSK \<le> WpaState e"

definition peer_key_frame :: "wpa_env \<Rightarrow> (nat \<Rightarrow> wpa_env) \<Rightarrow> nat \<Rightarrow> bytes \<Rightarrow> nat \<Rightarrow> wpa_ad \<Rightarrow> c_fault + wpa_ad" where
  "peer_key_frame env envs i Msg MsgLen ad =
     (if key_frame_ok (drop (LENGTH_802_11 + LENGTH_802_1_H) Msg) MsgLen (w_ent ad i) (w_Sta ad ! i)
      then key_frame env envs i Msg MsgLen ad else Inr ad)"

definition WpaEAPOLKeyAction :: "wpa_env \<Rightarrow> (nat \<Rightarrow> wpa_env) \<Rightarrow> bytes \<Rightarrow> nat \<Rightarrow> wpa_ad \<Rightarrow> wpa_ad run" where
  "WpaEAPOLKeyAction env envs Msg MsgLen ad =
     r_bind (wpa_lookup ad (slice_at 10 6 Msg)) (\<lambda>p.
       case p of None \<Rightarrow> r_return ad | Some i \<Rightarrow> r_lift (peer_key_frame env envs i Msg MsgLen ad))"

subsection \<open>Countermeasures, retries\<close>

definition MlmeDeAuthAction :: "wpa_env \<Rightarrow> nat \<Rightarrow> u16 \<Rightarrow> wpa_ad \<Rightarrow> wpa_ad run" where
  "MlmeDeAuthAction env i Reason ad =
     (let e = w_ent ad i in
      if \<not> e_mem env (Alloc_deauth i) then r_return ad
      else if mt_ap (w_tab ad) \<and> HW_BEACON_MAX_NUM \<le> unat (ent_apidx e) then Some (Inl OOBRead)
      else r_bind (MacTableDeleteEntry (e_ba env i) (unat (ent_wcid e)) (Addr e) (w_tab ad)) (\<lambda>(_, t).
        r_return (wpa_emit (WpaDeauth (Addr e) Reason) (wpa_emit (WpaNotice (Addr e) IW_DEAUTH_EVENT_FLAG)
          (ad\<lparr>w_tab := t\<rparr>)))))"

fun deauth_clients :: "wpa_env \<Rightarrow> nat list \<Rightarrow> wpa_ad \<Rightarrow> wpa_ad run" where
  "deauth_clients env [] ad = r_return ad"
| "deauth_clients env (i # is) ad =
     (if EntryType (w_ent ad i) = ENTRY_CLIENT
      then r_bind (MlmeDeAuthAction env i REASON_MIC_FAILURE ad) (deauth_clients env is)
      else deauth_clients env is ad)"

text \<open>
  \<open>e\<close> and \<open>s\<close> are the entry as it was when the report came: the command queue of the USB driver holds a copy,
  so the mark that the code puts on the entry is lost.
\<close>

definition HandleCounterMeasure :: "wpa_env \<Rightarrow> mac_entry \<Rightarrow> wpa_sta \<Rightarrow> wpa_ad \<Rightarrow> wpa_ad run" where
  "HandleCounterMeasure env e s ad =
     (if EntryType e = ENTRY_APCLI then r_return ad
      else if WpaState e < AS_PTKINITDONE \<or> GTKState s \<noteq> REKEY_ESTABLISHED then r_return ad
      else
        let ad1 = wpa_emit (WpaNotice (Addr e) IW_MIC_ERROR_EVENT_FLAG) (ad\<lparr>MICFailureCounter := MICFailureCounter ad + 1\<rparr>);
            n = unat (ent_apidx e) in
        r_bind
          (if \<not> ap_CMTimerRunning ad then r_return ad1
           else if length (w_Net ad) \<le> n then Some (Inl OOBRead)
           else r_bind (r_lift (GenRandom (\<lambda>j. e_mem env (Alloc_GenRandom j)) (mb_bssid (MBSSID (w_tab ad) ! n)) (e_clock env)))
             (\<lambda>nonce. r_bind (deauth_clients env [0..<MAX_LEN_OF_MAC_TABLE]
                 ((wpa_emit CancelCMTimer (upd_net n (\<lambda>a. a\<lparr>an_GNonce := nonce\<rparr>)
                    (wpa_emit (WpaNotice (Addr e) IW_COUNTER_MEASURES_EVENT_FLAG) ad1)))\<lparr>ap_CMTimerRunning := False\<rparr>))
               (\<lambda>ad2. r_return (ad2\<lparr>BANClass3Data := True\<rparr>))))
          (\<lambda>ad3. r_return ((wpa_emit SetCMTimer ad3)\<lparr>ap_CMTimerRunning := True, w_PrevaMICFailTime := w_aMICFailTime ad3,
             w_aMICFailTime := e_jiffies env\<rparr>)))"

definition CMTimerExec :: "wpa_ad \<Rightarrow> wpa_ad" where
  "CMTimerExec ad =
     (let ad1 = foldl (\<lambda>ad i. if EntryType (w_ent ad i) = ENTRY_CLIENT \<and> CMTimerRunning (w_ent ad i)
          then upd_ent i (\<lambda>e. e\<lparr>CMTimerRunning := False\<rparr>) ad else ad)
          (ad\<lparr>BANClass3Data := False\<rparr>) [0..<MAX_LEN_OF_MAC_TABLE]
      in ad1\<lparr>ap_CMTimerRunning := False\<rparr>)"

definition EnqueueStartForPSKExec :: "nat \<Rightarrow> wpa_ad \<Rightarrow> wpa_ad" where
  "EnqueueStartForPSKExec i ad =
     (let e = w_ent ad i;
          ad1 = (if EntryType e = ENTRY_CLIENT \<and> WpaState e < AS_PTKSTART then
                   case EnqueueEapolStartTimerRunning (w_Sta ad ! i) of
                     EAPOL_START_PSK \<Rightarrow> wpa_emit (EnqueueEapolStart (Addr e)) ad
                   | EAPOL_START_1X \<Rightarrow> wpa_emit (Dot1xTrigger (Addr e)) ad
                   | EAPOL_START_DISABLE \<Rightarrow> ad
                 else ad)
      in upd_sta i (\<lambda>s. s\<lparr>EnqueueEapolStartTimerRunning := EAPOL_START_DISABLE\<rparr>) ad1)"

definition WPARetryExec :: "wpa_env \<Rightarrow> nat \<Rightarrow> wpa_ad \<Rightarrow> wpa_ad run" where
  "WPARetryExec env i ad =
     (let e = w_ent ad i; c = ReTryCounter (w_Sta ad ! i) + 1; ad1 = upd_sta i (\<lambda>s. s\<lparr>ReTryCounter := c\<rparr>) ad in
      if EntryType e \<noteq> ENTRY_CLIENT then r_return ad
      else if AuthMode e \<noteq> AuthModeWPA \<and> AuthMode e \<noteq> AuthModeWPAPSK \<and> \<not> wpa2_mode (AuthMode e) then r_return ad1
      else if GROUP_MSG1_RETRY_TIMER_CTR + 1 < c then
        MlmeDeAuthAction env i REASON_GROUP_KEY_HS_TIMEOUT (wpa_emit (WpaNotice (Addr e) IW_GROUP_HS_TIMEOUT_EVENT_FLAG) ad1)
      else if GROUP_MSG1_RETRY_TIMER_CTR < c then
        if GTKState (w_Sta ad ! i) = REKEY_NEGOTIATING then
          r_bind (r_lift (WPAStart2WayGroupHS env i ad1)) (\<lambda>ad2.
            r_return (wpa_emit (SetRetryTimer i PEER_MSG3_RETRY_EXEC_INTV) ad2))
        else r_return ad1
      else if PEER_MSG1_RETRY_TIMER_CTR + 3 < c then
        MlmeDeAuthAction env i REASON_4_WAY_TIMEOUT (wpa_emit (WpaNotice (Addr e) IW_PAIRWISE_HS_TIMEOUT_EVENT_FLAG) ad1)
      else if c = PEER_MSG1_RETRY_TIMER_CTR + 3 then r_lift (WPAStart4WayHS env i PEER_MSG3_RETRY_EXEC_INTV ad1)
      else if WpaState e = AS_PTKSTART \<or> WpaState e = AS_INITPSK \<or> WpaState e = AS_INITPMK
      then r_lift (WPAStart4WayHS env i PEER_MSG1_RETRY_EXEC_INTV ad1)
      else r_return ad1)"

end
