(* ===== verification/EapolFrame.thy ===== *)
theory EapolFrame
  imports Eapol
begin

text \<open>
  The layout of an EAPOL key frame as a record of its fields: what the construction writes byte by byte, and
  what the checks read back.
\<close>

unbundle bit_operations_syntax

subsection \<open>Fields\<close>

record eapol_key =
  ek_hdr :: bytes
  ek_body :: bytes
  ek_type :: bytes
  ek_info :: bytes
  ek_klen :: bytes
  ek_rc :: bytes
  ek_nonce :: bytes
  ek_iv :: bytes
  ek_rsc :: bytes
  ek_id :: bytes
  ek_mic :: bytes
  ek_kdl :: bytes
  ek_data :: bytes

definition ek_enc :: "eapol_key \<Rightarrow> bytes" where
  "ek_enc f = ek_hdr f @ ek_body f @ ek_type f @ ek_info f @ ek_klen f @ ek_rc f @ ek_nonce f @ ek_iv f @ ek_rsc f @
     ek_id f @ ek_mic f @ ek_kdl f @ ek_data f"

definition ek_wf :: "eapol_key \<Rightarrow> bool" where
  "ek_wf f \<longleftrightarrow> length (ek_hdr f) = 2 \<and> length (ek_body f) = 2 \<and> length (ek_type f) = 1 \<and> length (ek_info f) = 2 \<and>
     length (ek_klen f) = 2 \<and> length (ek_rc f) = 8 \<and> length (ek_nonce f) = 32 \<and> length (ek_iv f) = 16 \<and>
     length (ek_rsc f) = 8 \<and> length (ek_id f) = 8 \<and> length (ek_mic f) = 16 \<and> length (ek_kdl f) = 2"

lemma length_ek_enc [simp]: "ek_wf f \<Longrightarrow> length (ek_enc f) = 99 + length (ek_data f)"
  by (simp add: ek_enc_def ek_wf_def)

lemma ek_put:
  assumes "ek_wf f"
  shows
    "length ys = 2 \<Longrightarrow> put_at 0 ys (ek_enc f) = ek_enc (f\<lparr>ek_hdr := ys\<rparr>)"
    "length ys = 2 \<Longrightarrow> put_at Body_Len_at ys (ek_enc f) = ek_enc (f\<lparr>ek_body := ys\<rparr>)"
    "length ys = 2 \<Longrightarrow> put_at 5 ys (ek_enc f) = ek_enc (f\<lparr>ek_info := ys\<rparr>)"
    "length ys = 8 \<Longrightarrow> put_at ReplayCounter_at ys (ek_enc f) = ek_enc (f\<lparr>ek_rc := ys\<rparr>)"
    "length ys = 32 \<Longrightarrow> put_at KeyNonce_at ys (ek_enc f) = ek_enc (f\<lparr>ek_nonce := ys\<rparr>)"
    "length ys = 6 \<Longrightarrow> put_at KeyRsc_at ys (ek_enc f) = ek_enc (f\<lparr>ek_rsc := ys @ drop 6 (ek_rsc f)\<rparr>)"
    "length ys = 16 \<Longrightarrow> put_at KeyMic_at ys (ek_enc f) = ek_enc (f\<lparr>ek_mic := ys\<rparr>)"
    "length ys = 2 \<Longrightarrow> put_at KeyDataLen_at ys (ek_enc f) = ek_enc (f\<lparr>ek_kdl := ys\<rparr>)"
    "put_at KeyData_at ys (ek_enc f) = ek_enc (f\<lparr>ek_data := ys @ drop (length ys) (ek_data f)\<rparr>)"
  using assms by (simp_all add: put_at_def ek_enc_def ek_wf_def)

lemma put_one: "i < length p \<Longrightarrow> p[i := x] = put_at i [x] p"
  by (simp add: put_at_def upd_conv_take_nth_drop)

lemma ek_put_byte:
  assumes "ek_wf f"
  shows "(ek_enc f)[4 := x] = ek_enc (f\<lparr>ek_type := [x]\<rparr>)"
    "(ek_enc f)[8 := x] = ek_enc (f\<lparr>ek_klen := [ek_klen f ! 0, x]\<rparr>)"
  using assms by (simp_all add: put_one, simp_all add: put_at_def ek_enc_def ek_wf_def take_Suc_conv_app_nth)

lemma ek_get:
  assumes "ek_wf f"
  shows "slice_at ReplayCounter_at 8 (ek_enc f) = ek_rc f" "slice_at KeyNonce_at 32 (ek_enc f) = ek_nonce f"
    "slice_at KeyMic_at 16 (ek_enc f) = ek_mic f" "drop KeyData_at (ek_enc f) = ek_data f"
    "get16 Body_Len_at (ek_enc f) = get16 0 (ek_body f)" "get16 KeyDataLen_at (ek_enc f) = get16 0 (ek_kdl f)"
    "ek_enc f ! 0 = ek_hdr f ! 0" "ek_enc f ! 4 = ek_type f ! 0"
    "ek_enc f ! 5 = ek_info f ! 0" "ek_enc f ! 6 = ek_info f ! 1"
  using assms by (simp_all add: slice_at_def get16_def ek_enc_def ek_wf_def nth_append)

lemma get_key_info_enc: "ek_wf f \<Longrightarrow> get_key_info (ek_enc f) = get_key_info ([0, 0, 0, 0, 0] @ ek_info f)"
  by (simp add: get_key_info_def ek_get nth_append)

lemma ek_put16:
  assumes "ek_wf f"
  shows "put16 Body_Len_at n (ek_enc f) = ek_enc (f\<lparr>ek_body := [word_of_nat (n div 256), word_of_nat n]\<rparr>)"
    "put16 KeyDataLen_at n (ek_enc f) = ek_enc (f\<lparr>ek_kdl := [word_of_nat (n div 256), word_of_nat n]\<rparr>)"
  using assms by (simp_all add: put16_def ek_put)

lemma get16_pair: "n < 65536 \<Longrightarrow> get16 0 [word_of_nat (n div 256), word_of_nat n] = n"
  by (simp add: get16_def unsigned_of_nat take_bit_eq_mod)

subsection \<open>Key information\<close>

lemma bit_bit_byte: "n < 8 \<Longrightarrow> bit (bit_byte b n) m \<longleftrightarrow> b \<and> m = n"
  by (auto simp: bit_byte_def bit_exp_iff)

lemma and_7_mask: "v AND 7 = take_bit 3 (v :: u8)"
proof -
  have "(7 :: u8) = mask 3" by (simp add: mask_eq_exp_minus_1)
  then show ?thesis by (simp add: take_bit_eq_mask)
qed

lemma and_3_mask: "v AND 3 = take_bit 2 (v :: u8)"
proof -
  have "(3 :: u8) = mask 2" by (simp add: mask_eq_exp_minus_1)
  then show ?thesis by (simp add: take_bit_eq_mask)
qed

lemma get_key_info_bytes:
  assumes "take_bit 3 (KeyDescVer k) = KeyDescVer k" "take_bit 2 (KeyIndex k) = KeyIndex k"
  shows "get_key_info ([0, 0, 0, 0, 0] @ key_info_bytes k) = k"
proof -
  have g: "\<not> bit v n" if "take_bit m v = v" "m \<le> n" for v :: u8 and m n
    using that by (metis bit_take_bit_iff not_le)
  have i: "bit (KeyIndex k) n \<Longrightarrow> n < 2" for n using g [OF assms(2), of n] by fastforce
  have v: "bit (KeyDescVer k) n \<Longrightarrow> n < 3" for n using g [OF assms(1), of n] by fastforce
  let ?b = "(KeyDescVer k AND 7) OR bit_byte (KeyPairwise k) 3 OR push_bit 4 (KeyIndex k AND 3) OR
        bit_byte (Install k) 6 OR bit_byte (KeyAck k) 7"
  have "?b AND 7 = KeyDescVer k"
    by (rule bit_word_eqI) (auto simp: and_7_mask and_3_mask assms bit_simps bit_bit_byte dest: v i)
  moreover have "drop_bit 4 ?b AND 3 = KeyIndex k"
    by (rule bit_word_eqI) (auto simp: and_7_mask and_3_mask assms bit_simps bit_bit_byte dest: v i)
  moreover have "bit ?b 3 = KeyPairwise k" "bit ?b 6 = Install k" "bit ?b 7 = KeyAck k"
    by (auto simp: and_7_mask and_3_mask assms bit_simps bit_bit_byte dest: v i)
  ultimately show ?thesis
    by (simp add: get_key_info_def key_info_bytes_def bit_simps bit_bit_byte)
qed

subsection \<open>The frames of a WPA2 handshake\<close>

text \<open>The key information and the other fields of message \<open>t\<close>, before key data and integrity code are filled in.\<close>

definition wpa2_key_info :: "u8 \<Rightarrow> nat \<Rightarrow> key_info" where
  "wpa2_key_info ver t =
     \<lparr>KeyMic = (t \<noteq> EAPOL_PAIR_MSG_1), Secure = (EAPOL_PAIR_MSG_3 \<le> t), KeyError = False, Request = False,
      EKD_DL = (t = EAPOL_PAIR_MSG_3 \<or> t = EAPOL_GROUP_MSG_1), KeyDescVer = ver, KeyPairwise = (t < EAPOL_GROUP_MSG_1),
      KeyIndex = 0, Install = (t = EAPOL_PAIR_MSG_3),
      KeyAck = (t = EAPOL_PAIR_MSG_1 \<or> t = EAPOL_PAIR_MSG_3 \<or> t = EAPOL_GROUP_MSG_1)\<rparr>"

definition wpa2_fields :: "wpa_sta \<Rightarrow> wep_status \<Rightarrow> nat \<Rightarrow> bytes \<Rightarrow> bytes \<Rightarrow> eapol_key" where
  "wpa2_fields e GroupCipher t nonce tsc =
     (let ver = (if ent_WepStatus e = AESEnable \<or> GroupCipher = AESEnable then KEY_DESC_AES else KEY_DESC_TKIP) in
      \<lparr>ek_hdr = [1, 3], ek_body = [0, 95], ek_type = [2], ek_info = key_info_bytes (wpa2_key_info ver t),
       ek_klen = [0, if t = EAPOL_PAIR_MSG_1 \<or> t = EAPOL_PAIR_MSG_3 then (if ent_WepStatus e = TKIPEnable then 32 else 16) else 0],
       ek_rc = R_Counter e, ek_nonce = (if t \<le> EAPOL_PAIR_MSG_3 then nonce else replicate 32 0),
       ek_iv = replicate 16 0,
       ek_rsc = (if t = EAPOL_PAIR_MSG_3 \<or> t = EAPOL_GROUP_MSG_1 then tsc @ replicate 2 0 else replicate 8 0),
       ek_id = replicate 8 0, ek_mic = replicate 16 0, ek_kdl = [0, 0], ek_data = replicate 1401 0\<rparr>)"

definition wpa2_ver :: "wpa_sta \<Rightarrow> wep_status \<Rightarrow> u8" where
  "wpa2_ver e GroupCipher = (if ent_WepStatus e = AESEnable \<or> GroupCipher = AESEnable then KEY_DESC_AES else KEY_DESC_TKIP)"

definition zero_fields :: eapol_key where
  "zero_fields = \<lparr>ek_hdr = replicate 2 0, ek_body = replicate 2 0, ek_type = replicate 1 0, ek_info = replicate 2 0,
     ek_klen = replicate 2 0, ek_rc = replicate 8 0, ek_nonce = replicate 32 0, ek_iv = replicate 16 0,
     ek_rsc = replicate 8 0, ek_id = replicate 8 0, ek_mic = replicate 16 0, ek_kdl = replicate 2 0,
     ek_data = replicate 1401 0\<rparr>"

lemma zero_fields_eq:
  "zero_fields = \<lparr>ek_hdr = [0, 0], ek_body = [0, 0], ek_type = [0], ek_info = [0, 0], ek_klen = [0, 0], ek_rc = replicate 8 0,
     ek_nonce = replicate 32 0, ek_iv = replicate 16 0, ek_rsc = replicate 8 0, ek_id = replicate 8 0,
     ek_mic = replicate 16 0, ek_kdl = [0, 0], ek_data = replicate 1401 0\<rparr>"
  by (simp add: zero_fields_def numeral_2_eq_2)

lemma zero_buffer: "replicate TX_EAPOL_BUFFER 0 = ek_enc zero_fields"
  unfolding ek_enc_def zero_fields_def TX_EAPOL_BUFFER_def eapol_key.simps
  by (simp only: replicate_add [symmetric]) simp

lemma zero_fields_wf [simp]: "ek_wf zero_fields"
  by (simp add: ek_wf_def zero_fields_def)

lemma length_key_info_bytes [simp]: "length (key_info_bytes k) = 2"
  by (simp add: key_info_bytes_def)

lemma get_key_info_zero: "get_key_info [0, 0, 0, 0, 0, 0, 0] =
  \<lparr>KeyMic = False, Secure = False, KeyError = False, Request = False, EKD_DL = False, KeyDescVer = 0, KeyPairwise = False,
   KeyIndex = 0, Install = False, KeyAck = False\<rparr>"
  by (simp add: get_key_info_def)

lemma eapol_msg_cases:
  assumes "1 \<le> t" "t \<le> EAPOL_GROUP_MSG_2"
  obtains "t = 1" | "t = 2" | "t = 3" | "t = 4" | "t = 5" | "t = 6"
  using assms by (fastforce simp: EAPOL_GROUP_MSG_2_def)

lemma ConstructEapolMsg_fields:
  assumes am: "wpa2_mode am" and t: "1 \<le> t" "t \<le> EAPOL_GROUP_MSG_2"
    and l: "length (R_Counter e) = 8" "t \<le> EAPOL_PAIR_MSG_3 \<Longrightarrow> length nonce = 32"
      "t = EAPOL_PAIR_MSG_3 \<or> t = EAPOL_GROUP_MSG_1 \<Longrightarrow> length tsc = 6"
  shows "ConstructEapolMsg m jk am e gc t kid nonce tsc gtk rsnie (replicate TX_EAPOL_BUFFER 0) =
    f_bind (ConstructEapolKeyData m jk am e gc (wpa2_ver e gc) t kid gtk rsnie (ek_enc (wpa2_fields e gc t nonce tsc)))
      (\<lambda>p. if t \<noteq> EAPOL_PAIR_MSG_1 then CalculateMIC m (wpa2_ver e gc) (PTK e) p else Inr p)"
proof -
  have d: "(if ent_WepStatus e = AESEnable \<or> gc = AESEnable then KEY_DESC_AES else KEY_DESC_TKIP) = wpa2_ver e gc"
    by (simp add: wpa2_ver_def)
  note rew = ConstructEapolMsg_def d wpa2_fields_def wpa2_key_info_def eapol_msg_defs
  show ?thesis
    using t
  proof (cases rule: eapol_msg_cases)
    case 1
    show ?thesis
      using l am unfolding 1 rew
      by (simp add: Let_def zero_buffer ek_put ek_put_byte ek_put16 get_key_info_enc get_key_info_zero ek_wf_def zero_fields_eq
         split del: if_split)
  next
    case 2
    show ?thesis
      using l am unfolding 2 rew
      by (simp add: Let_def zero_buffer ek_put ek_put_byte ek_put16 get_key_info_enc get_key_info_zero ek_wf_def zero_fields_eq
         split del: if_split)
  next
    case 3
    show ?thesis
      using l am unfolding 3 rew
      by (simp add: Let_def zero_buffer ek_put ek_put_byte ek_put16 get_key_info_enc get_key_info_zero ek_wf_def zero_fields_eq
         split del: if_split)
  next
    case 4
    show ?thesis
      using l am unfolding 4 rew
      by (simp add: Let_def zero_buffer ek_put ek_put_byte ek_put16 get_key_info_enc get_key_info_zero ek_wf_def zero_fields_eq
         split del: if_split)
  next
    case 5
    show ?thesis
      using l am unfolding 5 rew
      by (simp add: Let_def zero_buffer ek_put ek_put_byte ek_put16 get_key_info_enc get_key_info_zero ek_wf_def zero_fields_eq
         split del: if_split)
  next
    case 6
    show ?thesis
      using l am unfolding 6 rew
      by (simp add: Let_def zero_buffer ek_put ek_put_byte ek_put16 get_key_info_enc get_key_info_zero ek_wf_def zero_fields_eq
         split del: if_split)
  qed
qed

subsection \<open>The integrity code\<close>

definition aes_mic :: "bytes \<Rightarrow> bytes \<Rightarrow> bytes" where
  "aes_mic ptk m = take 16 (rfc2104_hmac fips_sha1 (take 16 ptk) m)"

lemma length_aes_mic [simp]: "length (aes_mic ptk m) = 16"
  by (simp add: aes_mic_def)

lemma eapol_mic_aes:
  assumes "len \<le> length frame" "len \<le> 65539"
  shows "eapol_mic KEY_DESC_AES ptk frame len = Inr (aes_mic ptk (take len frame))"
proof -
  have "64 + length (take 16 ptk) \<le> 2 ^ 32" "64 + length (take len frame) \<le> 2 ^ 32" using assms by simp_all
  then show ?thesis using assms RT_HMAC_eq(2) [of "take 16 ptk" "take len frame" 20]
    by (simp add: eapol_mic_def KEY_DESC_AES_def KEY_DESC_TKIP_def aes_mic_def)
qed

definition ek_seal :: "bytes \<Rightarrow> eapol_key \<Rightarrow> eapol_key" where
  "ek_seal ptk f = f\<lparr>ek_mic := aes_mic ptk (take (get16 0 (ek_body f) + 4) (ek_enc (f\<lparr>ek_mic := replicate 16 0\<rparr>)))\<rparr>"

lemma CalculateMIC_aes:
  assumes "ek_wf f" "m Alloc_MIC" "get16 0 (ek_body f) + 4 \<le> 512" "get16 0 (ek_body f) + 4 \<le> 99 + length (ek_data f)"
    "ek_mic f = replicate 16 0"
  shows "CalculateMIC m KEY_DESC_AES ptk (ek_enc f) = Inr (ek_enc (ek_seal ptk f))"
proof -
  have z: "f\<lparr>ek_mic := replicate 16 0\<rparr> = f" using assms(5) by simp
  show ?thesis
    using assms unfolding ek_seal_def z by (simp add: CalculateMIC_def Let_def ek_get eapol_mic_aes ek_put)
qed

lemma ek_seal_simps [simp]:
  "ek_hdr (ek_seal ptk f) = ek_hdr f" "ek_body (ek_seal ptk f) = ek_body f" "ek_type (ek_seal ptk f) = ek_type f"
  "ek_info (ek_seal ptk f) = ek_info f" "ek_rc (ek_seal ptk f) = ek_rc f" "ek_nonce (ek_seal ptk f) = ek_nonce f"
  "ek_kdl (ek_seal ptk f) = ek_kdl f" "ek_data (ek_seal ptk f) = ek_data f" "ek_wf f \<Longrightarrow> ek_wf (ek_seal ptk f)"
  by (simp_all add: ek_seal_def ek_wf_def)

text \<open>What the receiver computes over the frame as it arrived, followed by the rest of the buffer.\<close>

lemma ek_enc_data: "ek_enc (f\<lparr>ek_data := d @ d1\<rparr>) = ek_enc (f\<lparr>ek_data := d\<rparr>) @ d1"
  by (simp add: ek_enc_def)

lemma take_ek_enc:
  assumes "ek_wf f" "n \<le> length (ek_data f)"
  shows "take (99 + n) (ek_enc f) = ek_enc (f\<lparr>ek_data := take n (ek_data f)\<rparr>)"
proof -
  have "ek_enc f = ek_enc (f\<lparr>ek_data := take n (ek_data f) @ drop n (ek_data f)\<rparr>)" by simp
  also have "\<dots> = ek_enc (f\<lparr>ek_data := take n (ek_data f)\<rparr>) @ drop n (ek_data f)" by (simp only: ek_enc_data)
  finally show ?thesis using assms by (simp add: ek_wf_def)
qed

subsection \<open>Key data\<close>

definition pad8 :: "bytes \<Rightarrow> bytes" where
  "pad8 kd = kd @ (if (8 - length kd mod 8) mod 8 = 0 then [] else 0xdd # replicate ((8 - length kd mod 8) mod 8 - 1) 0)"

lemma length_pad8: "length (pad8 kd) = length kd + (8 - length kd mod 8) mod 8"
  by (simp add: pad8_def)

definition with_data :: "bytes \<Rightarrow> eapol_key \<Rightarrow> eapol_key" where
  "with_data d f = f\<lparr>ek_data := d @ drop (length d) (ek_data f),
     ek_kdl := [word_of_nat (length d div 256), word_of_nat (length d)],
     ek_body := [word_of_nat ((95 + length d) div 256), word_of_nat (95 + length d)]\<rparr>"

lemma put_key_data:
  assumes "ek_wf f" "ek_body f = [0, 95]" "length dat = n" "n \<le> length (ek_data f)"
  shows "(let p = put_at KeyData_at (take n dat) (put16 KeyDataLen_at 0 (ek_enc f)); p = put16 KeyDataLen_at n p
     in put16 Body_Len_at (get16 Body_Len_at p + n) p) = ek_enc (with_data dat f)"
proof -
  let ?g = "f\<lparr>ek_data := dat @ drop n (ek_data f), ek_kdl := [word_of_nat (n div 256), word_of_nat n]\<rparr>"
  have 1: "put16 KeyDataLen_at n (put_at KeyData_at (take n dat) (put16 KeyDataLen_at 0 (ek_enc f))) = ek_enc ?g"
    using assms by (simp add: ek_put16 ek_put ek_wf_def)
  have wf: "ek_wf ?g" using assms(1) by (simp add: ek_wf_def)
  have "get16 Body_Len_at (ek_enc ?g) = 95" unfolding ek_get(5) [OF wf] using assms(2) by (simp add: get16_def)
  then show ?thesis
    using assms(2,3) by (simp only: Let_def 1 ek_put16 [OF wf]) (simp add: with_data_def)
qed

lemma key_data_none:
  "t = EAPOL_PAIR_MSG_1 \<or> t = EAPOL_PAIR_MSG_4 \<or> t = EAPOL_GROUP_MSG_2 \<Longrightarrow>
   ConstructEapolKeyData m jk am e gc ver t kid gtk rsnie p = Inr p"
  by (auto simp: ConstructEapolKeyData_def)

lemma key_data_ie:
  assumes "ek_wf f" "ek_body f = [0, 95]" "m Alloc_KeyData" "length (RTMPInsertRSNIE rsnie) \<le> 512"
    "length (RTMPInsertRSNIE rsnie) \<le> length (ek_data f)"
  shows "ConstructEapolKeyData m jk am e gc ver EAPOL_PAIR_MSG_2 kid gtk rsnie (ek_enc f) =
    Inr (ek_enc (with_data (RTMPInsertRSNIE rsnie) f))"
  using assms put_key_data [of f "RTMPInsertRSNIE rsnie" "length (RTMPInsertRSNIE rsnie)"]
  by (simp add: ConstructEapolKeyData_def key_data_plain_def eapol_msg_defs Let_def)

definition wpa2_gtk_data :: "bytes \<Rightarrow> nat \<Rightarrow> bytes \<Rightarrow> bytes" where
  "wpa2_gtk_data rsnie kid key = pad8 (RTMPInsertRSNIE rsnie @ WPA_ConstructKdeHdr 1 (2 + word_of_nat (length key)) @
     [word_of_nat kid AND 3, 0] @ key)"

lemma length_RTMPInsertRSNIE: "length (RTMPInsertRSNIE r) = (if r = [] then 0 else 2 + length r)"
  by (simp add: RTMPInsertRSNIE_def)

lemma length_wpa2_gtk_data:
  "length (wpa2_gtk_data rsnie kid key) < length rsnie + length key + 18" "8 dvd length (wpa2_gtk_data rsnie kid key)"
proof -
  let ?n = "length (RTMPInsertRSNIE rsnie @ WPA_ConstructKdeHdr 1 (2 + word_of_nat (length key)) @ [word_of_nat kid AND 3, 0] @ key)"
  have n: "?n \<le> length rsnie + length key + 10"
    by (simp add: length_RTMPInsertRSNIE WPA_ConstructKdeHdr_def OUI_WPA2_def)
  have "(8 - ?n mod 8) mod 8 < 8" by simp
  then show "length (wpa2_gtk_data rsnie kid key) < length rsnie + length key + 18"
    using n unfolding wpa2_gtk_data_def length_pad8 by linarith
  have "8 dvd k + (8 - k mod 8) mod 8" for k :: nat
  proof -
    define q r where "q = k div 8" and "r = k mod 8"
    have "k = 8 * q + r" "r < 8" by (simp_all add: q_def r_def)
    then have "k + (8 - r) = 8 * (q + 1)" by simp
    then have "(k + (8 - k mod 8)) mod 8 = 0" by (simp only: r_def [symmetric]) simp
    then show ?thesis by (simp add: mod_add_right_eq dvd_eq_mod_eq_0)
  qed
  then show "8 dvd length (wpa2_gtk_data rsnie kid key)"
    unfolding wpa2_gtk_data_def length_pad8 by blast
qed

lemma AES_Key_Unwrap_append:
  assumes "length C = clen" "8 \<le> clen" "clen < 2 ^ 32"
  shows "AES_Key_Unwrap ok (C @ D) clen Key klen P ptl = AES_Key_Unwrap ok C clen Key klen P ptl"
proof -
  have "nat ((int clen - 8) mod 2 ^ 32) = clen - 8"
    using assms by (simp add: of_nat_diff [symmetric])
  then show ?thesis using assms by (simp add: AES_Key_Unwrap_def Let_def slice_at_def)
qed

lemma key_data_gtk:
  assumes "ek_wf f" "ek_body f = [0, 95]" "m Alloc_KeyData" "m Alloc_wrap" "length rsnie \<le> 200" "length gtk = 32"
    "length (PTK e) = 64" "length (ek_data f) = 1401" "length jk = 512" "wpa2_mode am"
    "t = EAPOL_PAIR_MSG_3 \<or> t = EAPOL_GROUP_MSG_1"
  shows "\<exists>cipher. ConstructEapolKeyData m jk am e AESEnable KEY_DESC_AES t kid gtk rsnie (ek_enc f) =
      Inr (ek_enc (with_data cipher f)) \<and>
    length cipher = length (wpa2_gtk_data (if t = EAPOL_PAIR_MSG_3 then rsnie else []) kid (take 16 gtk)) + 8 \<and>
    (\<forall>D. AES_Key_Unwrap True (cipher @ D) (length cipher) (slice_at 16 16 (PTK e)) 16 (replicate 255 0) 0 =
      Inr (0, wpa2_gtk_data (if t = EAPOL_PAIR_MSG_3 then rsnie else []) kid (take 16 gtk) @
         replicate (255 - length (wpa2_gtk_data (if t = EAPOL_PAIR_MSG_3 then rsnie else []) kid (take 16 gtk))) 0,
         length (wpa2_gtk_data (if t = EAPOL_PAIR_MSG_3 then rsnie else []) kid (take 16 gtk))))"
proof -
  let ?ie = "if t = EAPOL_PAIR_MSG_3 then rsnie else []" and ?kek = "slice_at 16 16 (PTK e)"
  let ?kd = "RTMPInsertRSNIE ?ie @ WPA_ConstructKdeHdr 1 (2 + word_of_nat 16) @ [word_of_nat kid AND 3, 0] @ take 16 gtk"
  let ?P = "wpa2_gtk_data ?ie kid (take 16 gtk)"
  have P: "?P = pad8 ?kd" using assms(6) by (simp add: wpa2_gtk_data_def)
  have lP: "length ?P < 234" using length_wpa2_gtk_data(1) [of ?ie kid "take 16 gtk"] assms(5,6)
    by (simp split: if_splits)
  obtain c where c: "AES_Key_Wrap True ?P (length ?P) ?kek 16 jk 0 = Inr (0, c @ drop (length ?P + 8) jk, length ?P + 8)"
    "length c = length ?P + 8"
    "AES_Key_Unwrap True c (length ?P + 8) ?kek 16 (replicate 255 0) 0 = Inr (0, ?P @ drop (length ?P) (replicate 255 0), length ?P)"
    using key_wrap_inverse [of 16 ?kek ?P jk "replicate 255 0" 0 0] assms(7,9) lP by auto
  have plain: "key_data_plain am AESEnable t kid gtk rsnie = Inr ?kd"
    using assms(6,10,11) by (auto simp: key_data_plain_def gtk_length_def eapol_msg_defs Let_def RTMPInsertRSNIE_def)
  have kdl: "length ?kd \<le> 512" using lP unfolding P length_pad8 by linarith
  have "ConstructEapolKeyData m jk am e AESEnable KEY_DESC_AES t kid gtk rsnie (ek_enc f) = Inr (ek_enc (with_data c f))"
  proof -
    have pad: "?kd @ (if (8 - length ?kd mod 8) mod 8 = 0 then [] else 0xdd # replicate ((8 - length ?kd mod 8) mod 8 - 1) 0) = ?P"
      unfolding P pad8_def by (rule refl)
    have pk: "(let p = put_at KeyData_at (take (length ?P + 8) (c @ drop (length ?P + 8) jk)) (put16 KeyDataLen_at 0 (ek_enc f));
         p = put16 KeyDataLen_at (length ?P + 8) p in put16 Body_Len_at (get16 Body_Len_at p + (length ?P + 8)) p) =
       ek_enc (with_data c f)"
      using put_key_data [of f c "length ?P + 8"] assms(1,2,8) c(2) lP by simp
    have t: "\<not> (t = EAPOL_PAIR_MSG_1 \<or> t = EAPOL_PAIR_MSG_4 \<or> t = EAPOL_GROUP_MSG_2)"
      "(t = EAPOL_PAIR_MSG_3 \<and> wpa2_mode am) \<or> t = EAPOL_GROUP_MSG_1"
      using assms(10,11) by (auto simp: eapol_msg_defs)
    have fit: "\<not> 512 < length ?kd" "\<not> length (c @ drop (length ?P + 8) jk) < length ?P + 8"
      "\<not> length (ek_enc f) < KeyData_at + (length ?P + 8)"
      using kdl c(2) assms(1,8) lP by simp_all
    have w: "f_bind (AES_Key_Wrap (m Alloc_wrap) ?P (length ?P) ?kek 16 jk 0) (\<lambda>(_, eGTK, wrap_len). Inr (eGTK, wrap_len)) =
        Inr (c @ drop (length ?P + 8) jk, length ?P + 8)"
      using c(1) assms(4) by simp
    show ?thesis
      unfolding ConstructEapolKeyData_def
      by (simp only: if_not_P [OF t(1)] assms(3) not_True_eq_False if_False if_True plain f_bind_simps if_P [OF t(2)] if_P [OF refl] Let_def
          pad w prod.case if_not_P [OF fit(1)] if_not_P [OF fit(2)] if_not_P [OF fit(3)] pk [unfolded Let_def])
  qed
  moreover have "AES_Key_Unwrap True (c @ D) (length c) ?kek 16 (replicate 255 0) 0 =
      Inr (0, ?P @ replicate (255 - length ?P) 0, length ?P)" for D
    using AES_Key_Unwrap_append [of c "length ?P + 8" True D ?kek 16] c lP by simp
  ultimately show ?thesis using c(2) by blast
qed

end
