(* ===== verification/EapolCheck.thy ===== *)
theory EapolCheck
  imports EapolFrame
begin

text \<open>
  The receiving side of a key frame: the frames that the construction builds pass the checks of
  \<^verbatim>\<open>PeerWpaMessageSanity\<close>, and the group key inside is found.
\<close>

unbundle bit_operations_syntax

subsection \<open>The walk over the key data\<close>

lemma slice_3: "i + 3 \<le> length xs \<Longrightarrow> slice_at i 3 xs = [xs ! i, xs ! (i + 1), xs ! (i + 2)]"
  by (rule nth_equalityI) (auto simp: slice_at_def nth_Cons' numeral_3_eq_3 numeral_2_eq_2 less_Suc_eq)

lemma kde_zero_tail:
  assumes "\<forall>k. off < k \<and> k < length buf \<longrightarrow> buf ! k = 0" "off \<le> len" "len + 6 \<le> length buf"
  shows "kde_loop buf len off acc = Inr (Some acc)"
  using assms
proof (induction "len - off" arbitrary: off rule: less_induct)
  case less
  have l: "buf ! (off + 1) = 0" using less.prems by simp
  show ?case
  proof (cases "len < off + 2")
    case True
    then show ?thesis using l less.prems by (subst kde_loop.simps) simp
  next
    case False
    have ih: "kde_loop buf len (off + 2) acc = Inr (Some acc)"
      using less.hyps [of "off + 2"] less.prems False by simp
    have "slice_at (off + 2) 3 buf ! 1 = 0" using less.prems False by (simp add: slice_3)
    then have "slice_at (off + 2) 3 buf \<noteq> OUI_WPA2" by (auto simp: OUI_WPA2_def)
    then show ?thesis using l ih less.prems(2,3) False by (subst kde_loop.simps) simp
  qed
qed

text \<open>An element that is no vendor element is skipped, the element of the group key is stored.\<close>

lemma kde_skip:
  assumes "buf = pre @ [t, word_of_nat (length v)] @ v @ post" "t \<noteq> 0xdd" "length v < 256" "length (pre @ [t, 0] @ v) \<le> len"
  shows "kde_loop buf len (length pre) acc = kde_loop buf len (length pre + 2 + length v) acc"
  using assms
  by (subst kde_loop.simps) (simp add: nth_append unsigned_of_nat take_bit_nat_eq_self Let_def)

lemma kde_gtk:
  assumes b: "buf = pre @ WPA_ConstructKdeHdr 1 (2 + word_of_nat (length key)) @ [x, 0] @ key @ post"
    and k: "5 \<le> length key" "length key \<le> 32" and len: "length pre + 8 + length key \<le> len"
  shows "kde_loop buf len (length pre) acc =
    kde_loop buf len (length pre + 8 + length key) (put_at 0 key (fst acc), length key, unat (x AND 3))"
proof -
  let ?l = "6 + word_of_nat (length key) :: u8"
  have b': "buf = pre @ [0xdd, ?l, 0, 0x0f, 0xac, 1, x, 0] @ key @ post"
    using b by (simp add: WPA_ConstructKdeHdr_def OUI_WPA2_def add.assoc [symmetric])
  have l: "unat ?l = 6 + length key" using k by (simp add: unat_word_ariths unsigned_of_nat take_bit_nat_eq_self)
  have n: "unat (word_of_nat (length key) :: u8) = length key" using k by (simp add: unsigned_of_nat take_bit_nat_eq_self)
  have nth: "buf ! length pre = 0xdd" "buf ! (length pre + 1) = ?l" "buf ! (length pre + 5) = 1" "buf ! (length pre + 6) = x"
    by (simp_all add: b' nth_append)
  have s: "slice_at (length pre + 2) 3 buf = OUI_WPA2" "slice_at (length pre + 8) (length key) buf = key"
    by (simp_all add: b' slice_at_def OUI_WPA2_def)
  have L: "length buf = length pre + 8 + length key + length post" by (simp add: b')
  show ?thesis
    using k len by (subst kde_loop.simps) (simp add: nth [simplified] l n s [simplified] L Let_def MAX_LEN_GTK_def add.assoc add.left_commute [of 8])
qed

lemma take_bit_2_kid: "kid < 4 \<Longrightarrow> unat (word_of_nat kid AND 3 AND (3 :: u8)) = kid"
  by (simp add: and_3_mask unsigned_take_bit_eq unsigned_of_nat take_bit_nat_eq_self)

lemma kde_wpa2_gtk_data:
  assumes "length rsnie \<le> 200" "rsnie \<noteq> [] \<Longrightarrow> slice_at 2 3 rsnie = OUI_WPA2" "length key = 16" "kid < 4"
  shows "kde_loop (wpa2_gtk_data rsnie kid key @ replicate (255 - length (wpa2_gtk_data rsnie kid key)) 0)
      (length (wpa2_gtk_data rsnie kid key)) 0 (GTK0, 0, 0) = Inr (Some (put_at 0 key GTK0, 16, kid))"
proof -
  define P where "P = wpa2_gtk_data rsnie kid key"
  define ie where "ie = RTMPInsertRSNIE rsnie"
  define x :: u8 where "x = word_of_nat kid AND 3"
  define kde where "kde = WPA_ConstructKdeHdr 1 (2 + word_of_nat (length key)) @ [x, 0] @ key"
  define buf where "buf = P @ replicate (255 - length P) 0"
  obtain pad where pad: "P = ie @ kde @ pad" "pad = [] \<or> (\<exists>n. pad = 0xdd # replicate n 0)"
    by (auto simp: P_def ie_def kde_def x_def wpa2_gtk_data_def pad8_def)
  have lP: "length P < 234" using length_wpa2_gtk_data(1) [of rsnie kid key] assms by (simp add: P_def)
  have lk: "length kde = 24" using assms(3) by (simp add: kde_def WPA_ConstructKdeHdr_def OUI_WPA2_def)
  have buf: "buf = ie @ kde @ (pad @ replicate (255 - length P) 0)" unfolding buf_def pad(1) by simp
  have L: "length P = length ie + 24 + length pad" unfolding pad(1) using lk by simp
  have 1: "kde_loop buf (length P) 0 (GTK0, 0, 0) = kde_loop buf (length P) (length ie) (GTK0, 0, 0)"
  proof (cases "rsnie = []")
    case False
    have e: "ie = [0x30, word_of_nat (length rsnie)] @ rsnie" using assms(2) False by (simp add: RTMPInsertRSNIE_def ie_def)
    have "buf = [] @ [0x30, word_of_nat (length rsnie)] @ rsnie @ (kde @ pad @ replicate (255 - length P) 0)"
      unfolding buf e by simp
    moreover have "length ([] @ [0x30 :: u8, 0] @ rsnie) \<le> length P" unfolding L e by simp
    moreover have "length ie = length [] + 2 + length rsnie" unfolding e by simp
    ultimately show ?thesis using kde_skip [of buf "[]" "0x30" rsnie _ "length P" "(GTK0, 0, 0)"] assms(1) by simp
  qed (simp add: RTMPInsertRSNIE_def ie_def)
  have "kde_loop buf (length P) (length ie) (GTK0, 0, 0) = kde_loop buf (length P) (length ie + 8 + length key)
      (put_at 0 key GTK0, length key, unat (x AND 3))"
    using kde_gtk [of buf ie key x "pad @ replicate (255 - length P) 0" "length P" "(GTK0, 0, 0)"] assms(3) L
    by (simp add: buf kde_def)
  then have 2: "kde_loop buf (length P) (length ie) (GTK0, 0, 0) =
      kde_loop buf (length P) (length (ie @ kde)) (put_at 0 key GTK0, 16, kid)"
    using take_bit_2_kid [OF assms(4)] assms(3) lk by (simp add: x_def add.assoc)
  have "kde_loop buf (length P) (length (ie @ kde)) (put_at 0 key GTK0, 16, kid) = Inr (Some (put_at 0 key GTK0, 16, kid))"
  proof (rule kde_zero_tail)
    have z: "(pad @ replicate m 0) ! j = 0" if "0 < j" "j < length pad + m" for j m
      using pad(2) that by (auto simp: nth_Cons' nth_append)
    show "\<forall>k. length (ie @ kde) < k \<and> k < length buf \<longrightarrow> buf ! k = 0"
    proof (intro allI impI)
      fix k assume k: "length (ie @ kde) < k \<and> k < length buf"
      have "buf ! k = (pad @ replicate (255 - length P) 0) ! (k - length (ie @ kde))"
        unfolding buf append_assoc [symmetric, of ie kde] using k by (subst nth_append) simp
      moreover have "0 < k - length (ie @ kde)" "k - length (ie @ kde) < length pad + (255 - length P)"
        using k unfolding buf by (auto simp: less_diff_conv)
      ultimately show "buf ! k = 0" using z by (simp only:)
    qed
  qed (use L lP lk in \<open>simp_all add: buf_def\<close>)
  then show ?thesis using 1 2 by (simp add: buf_def P_def)
qed

subsection \<open>The frame on the air\<close>

text \<open>A receiver finds the frame, \<open>n\<close> bytes of key data long, behind 32 bytes of headers; \<open>rest\<close> is what follows in its buffer.\<close>

definition ek_arrive :: "nat \<Rightarrow> bytes \<Rightarrow> eapol_key \<Rightarrow> eapol_key" where
  "ek_arrive n rest f = f\<lparr>ek_data := take n (ek_data f) @ rest\<rparr>"

lemma ek_arrive_simps [simp]:
  "ek_hdr (ek_arrive n r f) = ek_hdr f" "ek_body (ek_arrive n r f) = ek_body f" "ek_type (ek_arrive n r f) = ek_type f"
  "ek_info (ek_arrive n r f) = ek_info f" "ek_rc (ek_arrive n r f) = ek_rc f" "ek_nonce (ek_arrive n r f) = ek_nonce f"
  "ek_kdl (ek_arrive n r f) = ek_kdl f" "ek_mic (ek_arrive n r f) = ek_mic f"
  "ek_data (ek_arrive n r f) = take n (ek_data f) @ r" "ek_wf (ek_arrive n r f) = ek_wf f"
  by (simp_all add: ek_arrive_def ek_wf_def)

lemma ek_arrive:
  assumes "ek_wf f" "n \<le> length (ek_data f)" "length hdr = 32"
  shows "drop 32 (hdr @ take (99 + n) (ek_enc f) @ rest) = ek_enc (ek_arrive n rest f)"
  using assms by (simp add: take_ek_enc ek_arrive_def ek_enc_data)

definition mic_ok :: "bytes \<Rightarrow> eapol_key \<Rightarrow> bool" where
  "mic_ok ptk f \<longleftrightarrow> ek_mic f = aes_mic ptk (take (get16 0 (ek_body f) + 4) (ek_enc (f\<lparr>ek_mic := replicate 16 0\<rparr>)))"

lemma mic_ok_arrive:
  assumes "ek_wf f" "ek_mic f = replicate 16 0" "get16 0 (ek_body f) = 95 + n" "n \<le> length (ek_data f)"
  shows "mic_ok ptk (ek_arrive n rest (ek_seal ptk f))"
proof -
  let ?z = "replicate 16 0 :: bytes"
  have wf: "ek_wf (f\<lparr>ek_mic := ?z\<rparr>)" using assms(1) by (simp add: ek_wf_def)
  have "(ek_arrive n rest (ek_seal ptk f))\<lparr>ek_mic := ?z\<rparr> = ek_arrive n rest (f\<lparr>ek_mic := ?z\<rparr>)"
    by (simp add: ek_arrive_def ek_seal_def)
  moreover have "take (99 + n) (ek_enc (ek_arrive n rest (f\<lparr>ek_mic := ?z\<rparr>))) = take (99 + n) (ek_enc (f\<lparr>ek_mic := ?z\<rparr>))"
    using wf assms(4) by (simp add: take_ek_enc, simp add: ek_arrive_def)
  ultimately show ?thesis
    using assms(3) by (simp add: mic_ok_def, simp add: ek_seal_def)
qed

subsection \<open>The checks\<close>

text \<open>A matching replay counter and a matching code leave the key data to be checked (key descriptor version 2).\<close>

lemma sanity_aes:
  assumes wf: "ek_wf f" and t: "1 \<le> t" "t \<le> EAPOL_GROUP_MSG_2" and m: "m Alloc_KEYDATA"
    and ver: "KeyDescVer (get_key_info (ek_enc f)) = KEY_DESC_AES"
    and rc: "\<not> replay_differs t (ek_rc f) (R_Counter (w_Sta ad ! i))"
    and len: "get16 0 (ek_body f) + 4 \<le> 99 + length (ek_data f)" "get16 0 (ek_body f) + 4 \<le> 65539"
    and mic: "t \<noteq> EAPOL_PAIR_MSG_1 \<Longrightarrow> mic_ok (PTK (w_Sta ad ! i)) f"
  shows "PeerWpaMessageSanity m (ek_enc f) t i ad = check_key_data m (ek_enc f) t i ad"
proof -
  have wf0: "ek_wf (f\<lparr>ek_mic := replicate 16 0\<rparr>)" using wf by (simp add: ek_wf_def)
  have e: "eapol_mic KEY_DESC_AES (PTK (w_Sta ad ! i)) (ek_enc (f\<lparr>ek_mic := replicate 16 0\<rparr>)) (get16 0 (ek_body f) + 4) =
      Inr (aes_mic (PTK (w_Sta ad ! i)) (take (get16 0 (ek_body f) + 4) (ek_enc (f\<lparr>ek_mic := replicate 16 0\<rparr>))))"
    using wf0 len by (intro eapol_mic_aes) simp_all
  have tt: "\<not> (EAPOL_GROUP_MSG_2 < t \<or> t < EAPOL_PAIR_MSG_1)" using t by (simp add: EAPOL_PAIR_MSG_1_def)
  show ?thesis
    unfolding PeerWpaMessageSanity_def Let_def if_not_P [OF tt]
    using m rc mic
    by (cases "t = EAPOL_PAIR_MSG_1") (simp_all add: ek_get [OF wf] ek_put [OF wf] ver e mic_ok_def)
qed

lemma check_no_key_data:
  "ek_wf f \<Longrightarrow> get16 0 (ek_kdl f) = 0 \<Longrightarrow> check_key_data m (ek_enc f) t i ad = Inr (True, ad)"
  by (simp add: check_key_data_def Let_def ek_get)

text \<open>Message 2: the information element is copied and not looked at.\<close>

lemma check_msg2:
  assumes "ek_wf f" "get16 0 (ek_kdl f) \<le> length (ek_data f)" "get16 0 (ek_kdl f) \<le> 255"
  shows "check_key_data m (ek_enc f) EAPOL_PAIR_MSG_2 i ad = Inr (True, ad)"
  using assms by (simp add: check_key_data_def Let_def ek_get eapol_msg_defs RTMPParseEapolKeyData_def MAX_LEN_OF_RSNIE_def)

text \<open>Message 3 of WPA2 to a station: the group key is installed.\<close>

definition sta_gtk_installed :: "nat \<Rightarrow> bytes \<Rightarrow> wpa_ad \<Rightarrow> wpa_ad" where
  "sta_gtk_installed kid key ad =
     (let k = zero_key\<lparr>CipherAlg := CIPHER_AES, KeyBytes := key\<rparr> in
      wpa_emit (AddSharedKey 0 kid k) (set_shared 0 kid k (ad\<lparr>StaGTK := put_at 0 key (StaGTK ad), StaDefaultKeyId := kid\<rparr>)))"

lemma check_msg3:
  assumes wf: "ek_wf f" and am: "wpa2_mode (AuthMode (w_ent ad i))"
    and ver: "KeyDescVer (get_key_info (ek_enc f)) = KEY_DESC_AES"
    and kd: "P = wpa2_gtk_data rsnie kid key" "length rsnie \<le> 200" "rsnie \<noteq> [] \<Longrightarrow> slice_at 2 3 rsnie = OUI_WPA2" "length key = 16" "kid < 4"
    and kdl: "get16 0 (ek_kdl f) = length P + 8"
    and unwrap: "AES_Key_Unwrap True (ek_data f) (length P + 8) (slice_at 16 16 (PTK (w_Sta ad ! i))) 16 (replicate 255 0) 0 =
      Inr (0, P @ replicate (255 - length P) 0, length P)"
    and m: "m Alloc_wrap"
    and sta: "\<not> mt_ap (w_tab ad)" "StaGroupCipher ad = AESEnable" "BcnMaxNum (w_tab ad) \<noteq> 0" "SharedKey ad \<noteq> []" "length (StaGTK ad) = 32"
  shows "check_key_data m (ek_enc f) EAPOL_PAIR_MSG_3 i ad = Inr (True, sta_gtk_installed kid key ad)"
proof -
  have lP: "length P < 234" using length_wpa2_gtk_data(1) [of rsnie kid key] kd by simp
  have u: "unat (word_of_nat (length P) :: u8) = length P" using lP by (simp add: unsigned_of_nat take_bit_nat_eq_self)
  note loop = kde_wpa2_gtk_data [OF kd(2,3,4,5), of "replicate 32 0", folded kd(1)]
  have parse: "RTMPParseEapolKeyData (P @ replicate (255 - length P) 0) (word_of_nat (length P)) 0 EAPOL_PAIR_MSG_3 True ad =
      Inr (True, sta_gtk_installed kid key ad)"
    using sta kd(4,5) loop
    by (simp add: RTMPParseEapolKeyData_def u Let_def MAX_LEN_GTK_def WPAInstallSharedKey_def group_alg_def BSS0_def
        unat_eq_zero sta_gtk_installed_def put_at_def)
  show ?thesis
    using am m unwrap kdl
    by (simp add: check_key_data_def Let_def ek_get [OF wf] ver parse [simplified] parse MAX_LEN_OF_RSNIE_def)
qed

end
