(* ===== verification/FourWayProps.thy ===== *)
theory FourWayProps
  imports FourWay EapolCheck StationTable
begin

text \<open>
  The four-way handshake as a whole: an access point and a station that share the pairwise master key of a
  WPA2 network with CCMP, and a medium that carries the frames from one to the other.
\<close>

unbundle bit_operations_syntax

subsection \<open>Updates of the state\<close>

lemma wpa_upd [simp]:
  "w_tab (upd_sta i f ad) = w_tab ad" "w_Net (upd_sta i f ad) = w_Net ad" "w_log (upd_sta i f ad) = w_log ad"
  "w_Sta (upd_ent i g ad) = w_Sta ad" "w_Net (upd_ent i g ad) = w_Net ad" "w_log (upd_ent i g ad) = w_log ad"
  "w_tab (wpa_emit ev ad) = w_tab ad" "w_Sta (wpa_emit ev ad) = w_Sta ad" "w_Net (wpa_emit ev ad) = w_Net ad"
  "w_log (wpa_emit ev ad) = w_log ad @ [ev]"
  "w_Closing (upd_sta i f ad) = w_Closing ad" "w_Closing (upd_ent i g ad) = w_Closing ad" "w_Closing (wpa_emit ev ad) = w_Closing ad"
  "mt_ap (w_tab (upd_ent i g ad)) = mt_ap (w_tab ad)" "MBSSID (w_tab (upd_ent i g ad)) = MBSSID (w_tab ad)"
  "BssidNum (w_tab (upd_ent i g ad)) = BssidNum (w_tab ad)" "BcnMaxNum (w_tab (upd_ent i g ad)) = BcnMaxNum (w_tab ad)"
  "length (Content (w_tab (upd_ent i g ad))) = length (Content (w_tab ad))"
  "length (w_Sta (upd_sta i f ad)) = length (w_Sta ad)"
  by (simp_all add: upd_sta_def upd_ent_def upd_entry_def wpa_emit_def)

lemma wpa_upd_same [simp]:
  "i < length (w_Sta ad) \<Longrightarrow> w_Sta (upd_sta i f ad) ! i = f (w_Sta ad ! i)"
  "i < length (Content (w_tab ad)) \<Longrightarrow> w_ent (upd_ent i g ad) i = g (w_ent ad i)"
  by (simp_all add: upd_sta_def upd_ent_def upd_entry_def)

lemma wpa_upd_station [simp]:
  "CurrentAddress (upd_sta i f ad) = CurrentAddress ad" "CurrentAddress (upd_ent i g ad) = CurrentAddress ad"
  "CurrentAddress (wpa_emit ev ad) = CurrentAddress ad"
  "StaPMK (upd_sta i f ad) = StaPMK ad" "StaPMK (upd_ent i g ad) = StaPMK ad" "StaPMK (wpa_emit ev ad) = StaPMK ad"
  "StaGroupCipher (upd_sta i f ad) = StaGroupCipher ad" "StaGroupCipher (upd_ent i g ad) = StaGroupCipher ad"
  "StaGroupCipher (wpa_emit ev ad) = StaGroupCipher ad"
  "StaRSN_IE (upd_sta i f ad) = StaRSN_IE ad" "StaRSN_IE (upd_ent i g ad) = StaRSN_IE ad"
  "StaRSN_IE (wpa_emit ev ad) = StaRSN_IE ad"
  "StaGTK (upd_sta i f ad) = StaGTK ad" "StaGTK (upd_ent i g ad) = StaGTK ad" "StaGTK (wpa_emit ev ad) = StaGTK ad"
  "SharedKey (upd_sta i f ad) = SharedKey ad" "SharedKey (upd_ent i g ad) = SharedKey ad" "SharedKey (wpa_emit ev ad) = SharedKey ad"
  "StaPTK (upd_sta i f ad) = StaPTK ad" "StaPTK (upd_ent i g ad) = StaPTK ad" "StaPTK (wpa_emit ev ad) = StaPTK ad"
  by (simp_all add: upd_sta_def upd_ent_def wpa_emit_def)

subsection \<open>Keys and random numbers\<close>

definition good_env :: "wpa_env \<Rightarrow> bool" where
  "good_env env \<longleftrightarrow> (\<forall>a. e_mem env a) \<and> length (e_junk env) = 512 \<and> length (e_stk env) = 80 \<and>
     (\<forall>n. length (e_TxTsc env n) = 6) \<and> (\<forall>t\<in>set (e_clock env). length t = 8)"

lemma GenRandom_ok:
  assumes "\<forall>t\<in>set clk. length t = 8" "length mac = 6"
  shows "\<exists>n. GenRandom (\<lambda>_. True) mac clk = Inr n \<and> length n = 32"
proof -
  have "\<exists>r. fold_fault (\<lambda>result (i, time). gen_random_round True mac result (i, time)) r0 its = Inr r \<and> length r = 80"
    if "length r0 = 80" "\<forall>(i, t)\<in>set its. length t = 8" for r0 and its :: "(nat \<times> bytes) list"
    using that
  proof (induction its arbitrary: r0)
    case (Cons it its)
    obtain i t where it: "it = (i, t)" by fastforce
    then have t: "length t = 8" using Cons.prems(2) by simp
    let ?B = "mac @ t @ take 32 r0 @ [word_of_nat (i mod 256), word_of_nat (i div 256 mod 256)]"
    have "\<exists>r1. PRF True (replicate 32 0) label_init_counter ?B r0 32 = Inr r1 \<and> length r1 = length r0 \<and>
        take 32 r1 = ieee_prf (replicate 32 0) label_init_counter ?B 32"
      using assms(2) t Cons.prems(1) by (intro PRF_run) (simp_all add: label_init_counter_def)
    then obtain r1 where r1: "PRF True (replicate 32 0) label_init_counter ?B r0 32 = Inr r1" "length r1 = 80"
      using Cons.prems(1) by auto
    have "\<exists>r. fold_fault (\<lambda>result (i, time). gen_random_round True mac result (i, time)) r1 its = Inr r \<and> length r = 80"
      using Cons.IH [OF r1(2)] Cons.prems(2) by simp
    then show ?case using r1(1) by (simp add: it gen_random_round_def)
  qed simp
  moreover have "\<forall>(i, t)\<in>set (zip [0..<32] clk). length t = 8"
    using assms(1) by (auto simp: set_zip simp del: upt_rec_numeral)
  ultimately obtain r where "fold_fault (\<lambda>result (i, time). gen_random_round True mac result (i, time)) (replicate 80 0) (zip [0..<32] clk) = Inr r"
      "length r = 80"
    by (metis length_replicate)
  then show ?thesis by (simp add: GenRandom_def del: upt_rec_numeral)
qed

text \<open>The pairwise key that both ends compute, also for equal nonces.\<close>

definition wpa_ptk :: "bytes \<Rightarrow> bytes \<Rightarrow> bytes \<Rightarrow> bytes \<Rightarrow> bytes \<Rightarrow> bytes" where
  "wpa_ptk PMK AA SPA an sn =
     (if an \<noteq> sn then ieee_ptk PMK AA SPA an sn 64
      else let hi = (if AA < SPA then SPA else AA); z = hi @ replicate 26 0
           in ieee_prf PMK label_pairwise ((if AA < SPA then AA else SPA) @ hi @ z @ z) 64)"

lemma length_wpa_ptk [simp]: "length (wpa_ptk PMK AA SPA an sn) = 64"
  by (simp add: wpa_ptk_def ieee_ptk_def Let_def)

lemma WpaDerivePTK_wpa_ptk:
  assumes "length PMK = 32" "length AA = 6" "length SPA = 6" "length an = 32" "length sn = 32" "length out = 80"
  shows "\<exists>out1. WpaDerivePTK True PMK an AA sn SPA out 64 = Inr out1 \<and> take 64 out1 = wpa_ptk PMK AA SPA an sn"
proof (cases "an = sn")
  case False
  then show ?thesis using WpaDerivePTK_run [OF assms(1-5) False assms(6)] by (auto simp: wpa_ptk_def)
next
  case True
  let ?hi = "if AA < SPA then SPA else AA" and ?lo = "if AA < SPA then AA else SPA"
  let ?z = "?hi @ replicate 26 0"
  have z: "put_at 0 ?hi (replicate 32 0) = ?z" using assms(2,3) by (simp add: put_at_def)
  have "RTMPCompareMemory sn sn = 0" by (simp add: RTMPCompareMemory_less)
  then have "WpaDerivePTK True PMK an AA sn SPA out 64 = PRF True PMK label_pairwise (?lo @ ?hi @ ?z @ ?z) out 64"
    using assms(2,3) z by (auto simp: WpaDerivePTK_def Let_def RTMPCompareMemory_less True)
  moreover have "\<exists>out1. PRF True PMK label_pairwise (?lo @ ?hi @ ?z @ ?z) out 64 = Inr out1 \<and> length out1 = length out \<and>
      take 64 out1 = ieee_prf PMK label_pairwise (?lo @ ?hi @ ?z @ ?z) 64"
    by (rule PRF_run) (use assms in \<open>simp_all add: label_pairwise_def\<close>)
  ultimately show ?thesis by (auto simp: wpa_ptk_def True Let_def)
qed

subsection \<open>The two ends\<close>

text \<open>What the ends agree on: addresses, the master key, the group key and the information elements.\<close>

record hs_conf =
  hs_bssid :: bytes
  hs_spa :: bytes
  hs_pmk :: bytes
  hs_gtk :: bytes
  hs_kid :: nat
  hs_ap_ie :: bytes
  hs_sta_ie :: bytes

definition hs_wf :: "hs_conf \<Rightarrow> bool" where
  "hs_wf c \<longleftrightarrow> length (hs_bssid c) = 6 \<and> length (hs_spa c) = 6 \<and> length (hs_pmk c) = 32 \<and> length (hs_gtk c) = 32 \<and>
     hs_kid c < 4 \<and> length (hs_ap_ie c) \<le> 200 \<and> (hs_ap_ie c \<noteq> [] \<longrightarrow> slice_at 2 3 (hs_ap_ie c) = OUI_WPA2) \<and>
     hs_sta_ie c \<noteq> [] \<and> length (hs_sta_ie c) \<le> 200"

text \<open>The place of the peer in the table of either end.\<close>

definition peer_ready :: "nat \<Rightarrow> bytes \<Rightarrow> wpa_ad \<Rightarrow> bool" where
  "peer_ready i addr ad \<longleftrightarrow> i < length (Content (w_tab ad)) \<and> i < length (w_Sta ad) \<and>
     EntryType (w_ent ad i) = ENTRY_CLIENT \<and> AuthMode (w_ent ad i) = AuthModeWPA2PSK \<and> Sst (w_ent ad i) = SST_ASSOC \<and>
     Addr (w_ent ad i) = addr \<and> ent_WepStatus (w_Sta ad ! i) = AESEnable \<and> length (R_Counter (w_Sta ad ! i)) = 8"

definition ap_ready :: "hs_conf \<Rightarrow> nat \<Rightarrow> wpa_ad \<Rightarrow> bool" where
  "ap_ready c i ad \<longleftrightarrow> peer_ready i (hs_spa c) ad \<and> mt_ap (w_tab ad) \<and> \<not> w_Closing ad \<and>
     ent_apidx (w_ent ad i) < BssidNum (w_tab ad) \<and> unat (ent_apidx (w_ent ad i)) < length (w_Net ad) \<and>
     (let n = unat (ent_apidx (w_ent ad i)); net = w_Net ad ! n; mb = MBSSID (w_tab ad) ! n in
      mb_bssid mb = hs_bssid c \<and> an_PMK net = hs_pmk c \<and> an_GTK net = hs_gtk c \<and> an_GroupCipher net = AESEnable \<and>
      an_DefaultKeyId net = hs_kid c \<and> net_rsn_ie AuthModeWPA2PSK (mb_AuthMode mb) net = hs_ap_ie c)"

definition sta_ready :: "hs_conf \<Rightarrow> wpa_ad \<Rightarrow> bool" where
  "sta_ready c ad \<longleftrightarrow> peer_ready BSSID_WCID (hs_bssid c) ad \<and> \<not> mt_ap (w_tab ad) \<and> CurrentAddress ad = hs_spa c \<and>
     StaPMK ad = hs_pmk c \<and> StaGroupCipher ad = AESEnable \<and> StaRSN_IE ad = hs_sta_ie c \<and> length (StaGTK ad) = 32 \<and>
     BcnMaxNum (w_tab ad) \<noteq> 0 \<and> length (SharedKey ad) \<ge> 1 \<and> length (SharedKey ad ! 0) = 4"

text \<open>The frames of the handshake, in the order of \<^verbatim>\<open>ConstructEapolMsg\<close>.\<close>

definition hs_fields :: "nat \<Rightarrow> bytes \<Rightarrow> bytes \<Rightarrow> bytes \<Rightarrow> eapol_key" where
  "hs_fields t rc nonce tsc =
     \<lparr>ek_hdr = [1, 3], ek_body = [0, 95], ek_type = [2], ek_info = key_info_bytes (wpa2_key_info KEY_DESC_AES t),
       ek_klen = [0, if t = EAPOL_PAIR_MSG_1 \<or> t = EAPOL_PAIR_MSG_3 then 16 else 0],
       ek_rc = rc, ek_nonce = (if t \<le> EAPOL_PAIR_MSG_3 then nonce else replicate 32 0),
       ek_iv = replicate 16 0,
       ek_rsc = (if t = EAPOL_PAIR_MSG_3 \<or> t = EAPOL_GROUP_MSG_1 then tsc @ replicate 2 0 else replicate 8 0),
       ek_id = replicate 8 0, ek_mic = replicate 16 0, ek_kdl = [0, 0], ek_data = replicate 1401 0\<rparr>"

lemma wpa2_fields_hs: "ent_WepStatus e = AESEnable \<Longrightarrow> wpa2_fields e gc t nonce tsc = hs_fields t (R_Counter e) nonce tsc"
  by (simp add: wpa2_fields_def hs_fields_def Let_def)

lemma hs_fields_wf:
  assumes "length rc = 8" "t \<le> EAPOL_PAIR_MSG_3 \<Longrightarrow> length nonce = 32" "t = EAPOL_PAIR_MSG_3 \<or> t = EAPOL_GROUP_MSG_1 \<Longrightarrow> length tsc = 6"
  shows "ek_wf (hs_fields t rc nonce tsc)"
  using assms by (simp add: ek_wf_def hs_fields_def)

lemma hs_key_info:
  "ek_wf f \<Longrightarrow> ek_info f = key_info_bytes (wpa2_key_info KEY_DESC_AES t) \<Longrightarrow> get_key_info (ek_enc f) = wpa2_key_info KEY_DESC_AES t"
  by (simp only: get_key_info_enc) (rule get_key_info_bytes, simp_all add: wpa2_key_info_def KEY_DESC_AES_def)

lemma hs_fields_simps [simp]:
  "ek_hdr (hs_fields t rc n s) = [1, 3]" "ek_body (hs_fields t rc n s) = [0, 95]" "ek_type (hs_fields t rc n s) = [2]"
  "ek_info (hs_fields t rc n s) = key_info_bytes (wpa2_key_info KEY_DESC_AES t)" "ek_rc (hs_fields t rc n s) = rc"
  "ek_kdl (hs_fields t rc n s) = [0, 0]" "ek_mic (hs_fields t rc n s) = replicate 16 0"
  "ek_data (hs_fields t rc n s) = replicate 1401 0"
  "t \<le> EAPOL_PAIR_MSG_3 \<Longrightarrow> ek_nonce (hs_fields t rc n s) = n"
  by (simp_all add: hs_fields_def)

lemma get16_95 [simp]: "get16 0 [0, 95] = 95" "get16 0 [0, 0] = 0"
  by (simp_all add: get16_def)

lemma with_data_simps [simp]:
  "ek_hdr (with_data d f) = ek_hdr f" "ek_type (with_data d f) = ek_type f" "ek_info (with_data d f) = ek_info f"
  "ek_rc (with_data d f) = ek_rc f" "ek_nonce (with_data d f) = ek_nonce f" "ek_mic (with_data d f) = ek_mic f"
  "ek_data (with_data d f) = d @ drop (length d) (ek_data f)" "ek_wf f \<Longrightarrow> ek_wf (with_data d f)"
  by (simp_all add: with_data_def ek_wf_def)

lemma seal_data_wf:
  "ek_wf f \<Longrightarrow> ek_wf (ek_seal ptk f)" "ek_wf f \<Longrightarrow> ek_wf (ek_seal ptk (with_data d f))"
  by (simp_all add: ek_seal_def with_data_def ek_wf_def)

lemma with_data_lengths:
  "length d \<le> 1000 \<Longrightarrow> get16 0 (ek_body (with_data d f)) = 95 + length d"
  "length d \<le> 1000 \<Longrightarrow> get16 0 (ek_kdl (with_data d f)) = length d"
  using get16_pair [of "95 + length d"] get16_pair [of "length d"] by (simp_all add: with_data_def)

subsection \<open>The exchange\<close>

fun eapol_frames :: "wpa_event list \<Rightarrow> bytes list" where
  "eapol_frames [] = []"
| "eapol_frames (SendEapol i dst src f c # es) = f # eapol_frames es"
| "eapol_frames (_ # es) = eapol_frames es"

lemma eapol_frames_append [simp]: "eapol_frames (xs @ ys) = eapol_frames xs @ eapol_frames ys"
  by (induction xs rule: eapol_frames.induct) simp_all

definition last_frame :: "wpa_ad \<Rightarrow> bytes" where
  "last_frame ad = last (eapol_frames (w_log ad))"

text \<open>A frame arrives behind headers, in a buffer whose rest is left from before.\<close>

definition deliver :: "wpa_env \<Rightarrow> (nat \<Rightarrow> wpa_env) \<Rightarrow> nat \<Rightarrow> bytes \<Rightarrow> bytes \<Rightarrow> bytes \<Rightarrow> wpa_ad \<Rightarrow> c_fault + wpa_ad" where
  "deliver env envs i hdr rest f ad = peer_key_frame env envs i (hdr @ f @ rest) (32 + length f) ad"

definition four_way :: "(nat \<Rightarrow> wpa_env) \<Rightarrow> (nat \<Rightarrow> wpa_env) \<Rightarrow> nat \<Rightarrow> (nat \<Rightarrow> bytes) \<Rightarrow> (nat \<Rightarrow> bytes) \<Rightarrow>
    wpa_ad \<Rightarrow> wpa_ad \<Rightarrow> c_fault + wpa_ad \<times> wpa_ad" where
  "four_way env envs i hdr rest ap sta =
     f_bind (WPAStart4WayHS (env 1) i PEER_MSG1_RETRY_EXEC_INTV ap) (\<lambda>ap1.
     f_bind (deliver (env 2) envs BSSID_WCID (hdr 1) (rest 1) (last_frame ap1) sta) (\<lambda>sta1.
     f_bind (deliver (env 3) envs i (hdr 2) (rest 2) (last_frame sta1) ap1) (\<lambda>ap2.
     f_bind (deliver (env 4) envs BSSID_WCID (hdr 3) (rest 3) (last_frame ap2) sta1) (\<lambda>sta2.
     f_bind (deliver (env 5) envs i (hdr 4) (rest 4) (last_frame sta2) ap2) (\<lambda>ap3. Inr (ap3, sta2))))))"

lemma good_env_mem: "good_env env \<Longrightarrow> e_mem env = (\<lambda>_. True)"
  by (auto simp: good_env_def)

text \<open>The four frames as they are built.\<close>

lemma hs_build:
  assumes "ent_WepStatus e = AESEnable" "length (R_Counter e) = 8" "length (PTK e) = 64" "length jk = 512"
  shows
    "length an = 32 \<Longrightarrow> ConstructEapolMsg (\<lambda>_. True) jk AuthModeWPA2PSK e AESEnable EAPOL_PAIR_MSG_1 0 an [] [] []
      (replicate TX_EAPOL_BUFFER 0) = Inr (ek_enc (hs_fields EAPOL_PAIR_MSG_1 (R_Counter e) an []))" (is "_ \<Longrightarrow> ?A")
    "length sn = 32 \<Longrightarrow> length ie \<le> 200 \<Longrightarrow> ConstructEapolMsg (\<lambda>_. True) jk AuthModeWPA2PSK e AESEnable EAPOL_PAIR_MSG_2 0 sn [] [] ie
      (replicate TX_EAPOL_BUFFER 0) = Inr (ek_enc (ek_seal (PTK e) (with_data (RTMPInsertRSNIE ie) (hs_fields EAPOL_PAIR_MSG_2 (R_Counter e) sn []))))"
      (is "_ \<Longrightarrow> _ \<Longrightarrow> ?B")
    "ConstructEapolMsg (\<lambda>_. True) jk AuthModeWPA2PSK e AESEnable EAPOL_PAIR_MSG_4 0 [] [] [] []
      (replicate TX_EAPOL_BUFFER 0) = Inr (ek_enc (ek_seal (PTK e) (hs_fields EAPOL_PAIR_MSG_4 (R_Counter e) [] [])))"
proof -
  have v: "wpa2_ver e AESEnable = KEY_DESC_AES" and am: "wpa2_mode AuthModeWPA2PSK" by (simp_all add: wpa2_ver_def wpa2_mode_def)
  note C = ConstructEapolMsg_fields [OF am, where e = e and gc = AESEnable, unfolded v wpa2_fields_hs [OF assms(1)]]
  show ?A if "length an = 32"
    using C [of EAPOL_PAIR_MSG_1 an "[]"] assms(2) that by (simp add: eapol_msg_defs key_data_none)
  show ?B if "length sn = 32" "length ie \<le> 200"
  proof -
    let ?f = "hs_fields EAPOL_PAIR_MSG_2 (R_Counter e) sn []" and ?d = "RTMPInsertRSNIE ie"
    have wf: "ek_wf ?f" using assms(2) that by (intro hs_fields_wf) (simp_all add: eapol_msg_defs)
    have d: "length ?d \<le> 202" using that(2) by (simp add: length_RTMPInsertRSNIE)
    have k: "ConstructEapolKeyData (\<lambda>_. True) jk AuthModeWPA2PSK e AESEnable KEY_DESC_AES EAPOL_PAIR_MSG_2 0 [] ie (ek_enc ?f) =
        Inr (ek_enc (with_data ?d ?f))"
      using wf d by (intro key_data_ie) simp_all
    have "CalculateMIC (\<lambda>_. True) KEY_DESC_AES (PTK e) (ek_enc (with_data ?d ?f)) = Inr (ek_enc (ek_seal (PTK e) (with_data ?d ?f)))"
      using wf d by (intro CalculateMIC_aes) (simp_all add: with_data_lengths)
    then show ?thesis using C [of EAPOL_PAIR_MSG_2 sn "[]"] assms(2) that k by (simp add: eapol_msg_defs)
  qed
  let ?f = "hs_fields EAPOL_PAIR_MSG_4 (R_Counter e) [] []"
  have wf: "ek_wf ?f" using assms(2) by (intro hs_fields_wf) (simp_all add: eapol_msg_defs)
  have "CalculateMIC (\<lambda>_. True) KEY_DESC_AES (PTK e) (ek_enc ?f) = Inr (ek_enc (ek_seal (PTK e) ?f))"
    using wf by (intro CalculateMIC_aes) simp_all
  then show "ConstructEapolMsg (\<lambda>_. True) jk AuthModeWPA2PSK e AESEnable EAPOL_PAIR_MSG_4 0 [] [] [] []
      (replicate TX_EAPOL_BUFFER 0) = Inr (ek_enc (ek_seal (PTK e) ?f))"
    using C [of EAPOL_PAIR_MSG_4 "[]" "[]"] assms(2) by (simp add: eapol_msg_defs key_data_none)
qed

lemma hs_build_3:
  assumes e: "ent_WepStatus e = AESEnable" "length (R_Counter e) = 8" "length (PTK e) = 64" "length jk = 512"
    and l: "length an = 32" "length tsc = 6" "length gtk = 32" "length ie \<le> 200" and P: "P = wpa2_gtk_data ie kid (take 16 gtk)"
  shows "\<exists>cipher. ConstructEapolMsg (\<lambda>_. True) jk AuthModeWPA2PSK e AESEnable EAPOL_PAIR_MSG_3 kid an tsc gtk ie
      (replicate TX_EAPOL_BUFFER 0) = Inr (ek_enc (ek_seal (PTK e) (with_data cipher (hs_fields EAPOL_PAIR_MSG_3 (R_Counter e) an tsc)))) \<and>
    length cipher = length P + 8 \<and> length P < 234 \<and>
    (\<forall>D. AES_Key_Unwrap True (cipher @ D) (length P + 8) (slice_at 16 16 (PTK e)) 16 (replicate 255 0) 0 =
      Inr (0, P @ replicate (255 - length P) 0, length P))"
proof -
  have v: "wpa2_ver e AESEnable = KEY_DESC_AES" and am: "wpa2_mode AuthModeWPA2PSK" by (simp_all add: wpa2_ver_def wpa2_mode_def)
  let ?f = "hs_fields EAPOL_PAIR_MSG_3 (R_Counter e) an tsc"
  have lP: "length P < 234" using length_wpa2_gtk_data(1) [of ie kid "take 16 gtk"] l P by simp
  have wf: "ek_wf ?f" using e(2) l by (intro hs_fields_wf) simp_all
  obtain cipher where k: "ConstructEapolKeyData (\<lambda>_. True) jk AuthModeWPA2PSK e AESEnable KEY_DESC_AES EAPOL_PAIR_MSG_3 kid gtk ie (ek_enc ?f) =
      Inr (ek_enc (with_data cipher ?f))" "length cipher = length P + 8"
    "\<forall>D. AES_Key_Unwrap True (cipher @ D) (length P + 8) (slice_at 16 16 (PTK e)) 16 (replicate 255 0) 0 =
      Inr (0, P @ replicate (255 - length P) 0, length P)"
    using key_data_gtk [of ?f "\<lambda>_. True" ie gtk e jk AuthModeWPA2PSK EAPOL_PAIR_MSG_3 kid] wf e l am unfolding P by auto
  have "CalculateMIC (\<lambda>_. True) KEY_DESC_AES (PTK e) (ek_enc (with_data cipher ?f)) = Inr (ek_enc (ek_seal (PTK e) (with_data cipher ?f)))"
    using wf k(2) lP by (intro CalculateMIC_aes) (simp_all add: with_data_lengths)
  then have "ConstructEapolMsg (\<lambda>_. True) jk AuthModeWPA2PSK e AESEnable EAPOL_PAIR_MSG_3 kid an tsc gtk ie
      (replicate TX_EAPOL_BUFFER 0) = Inr (ek_enc (ek_seal (PTK e) (with_data cipher ?f)))"
    using ConstructEapolMsg_fields [OF am, of EAPOL_PAIR_MSG_3 e an tsc, where gc = AESEnable, unfolded v wpa2_fields_hs [OF e(1)]] e(2) l k(1)
    by (simp add: eapol_msg_defs)
  then show ?thesis using k lP by blast
qed

lemma msg1_pmkid_psk: "AuthMode (w_ent ad i) \<noteq> AuthModeWPA2 \<Longrightarrow> msg1_pmkid i n p ad = Inr (p, ad)"
  by (simp add: msg1_pmkid_def split: option.split)

lemma hs_message1:
  assumes ap: "ap_ready c i ad" "WpaState (w_ent ad i) = AS_INITPSK" and c: "hs_wf c" and env: "good_env env"
    and ptk: "length (PTK (w_Sta ad ! i)) = 64"
  shows "\<exists>an ad1. WPAStart4WayHS env i T ad = Inr ad1 \<and> length an = 32 \<and> ap_ready c i ad1 \<and>
    WpaState (w_ent ad1 i) = AS_PTKSTART \<and> R_Counter (w_Sta ad1 ! i) = ADD_ONE_To_64BIT_VAR (R_Counter (w_Sta ad ! i)) \<and>
    ANonce (w_Sta ad1 ! i) = an \<and>
    last_frame ad1 = take 99 (ek_enc (hs_fields EAPOL_PAIR_MSG_1 (ADD_ONE_To_64BIT_VAR (R_Counter (w_Sta ad ! i))) an []))"
proof -
  let ?e = "w_ent ad i" and ?n = "unat (ent_apidx (w_ent ad i))" and ?rc = "ADD_ONE_To_64BIT_VAR (R_Counter (w_Sta ad ! i))"
  have bssid: "mb_bssid (MBSSID (w_tab ad) ! ?n) = hs_bssid c" "length (hs_bssid c) = 6"
    using ap(1) c by (simp_all add: ap_ready_def hs_wf_def Let_def)
  obtain an where an: "GenRandom (\<lambda>_. True) (hs_bssid c) (e_clock env) = Inr an" "length an = 32"
    using GenRandom_ok [of "e_clock env" "hs_bssid c"] bssid(2) env by (auto simp: good_env_def)
  let ?s = "(w_Sta ad ! i)\<lparr>R_Counter := ?rc, ANonce := an\<rparr>"
  let ?f = "hs_fields EAPOL_PAIR_MSG_1 ?rc an []"
  have wf: "ek_wf ?f" using ap(1) an by (intro hs_fields_wf) (simp_all add: ap_ready_def peer_ready_def eapol_msg_defs)
  have build: "ConstructEapolMsg (\<lambda>_. True) (e_junk env) AuthModeWPA2PSK ?s AESEnable EAPOL_PAIR_MSG_1 0 an [] [] []
      (replicate TX_EAPOL_BUFFER 0) = Inr (ek_enc ?f)"
    using hs_build(1) [of ?s "e_junk env" an] ap(1) ptk an env by (simp add: ap_ready_def peer_ready_def good_env_def)
  have body: "get16 Body_Len_at (ek_enc ?f) = 95" by (simp add: ek_get(5) [OF wf] get16_95)
  have st: "\<not> (AS_PTKSTART < WpaState ?e \<or> WpaState ?e < AS_INITPMK)" by (simp add: ap(2) less_wpa_state_def)
  let ?ad1 = "upd_sta i (\<lambda>s. s\<lparr>R_Counter := ?rc, ANonce := an\<rparr>) ad"
  let ?ad2 = "upd_ent i (\<lambda>e. e\<lparr>WpaState := AS_PTKSTART\<rparr>) (wpa_emit (ModRetryTimer i T)
    (wpa_emit (SendEapol i (hs_spa c) (hs_bssid c) (take 99 (ek_enc ?f)) (\<not> PortSecured ?e)) ?ad1))"
  have ad1: "upd_sta i (\<lambda>s. s\<lparr>R_Counter := ADD_ONE_To_64BIT_VAR (R_Counter s), ANonce := an\<rparr>) ad = ?ad1"
    by (simp add: upd_sta_def)
  have len: "\<not> length (ek_enc ?f) < 99" using wf by simp
  have run: "WPAStart4WayHS env i T ad = Inr ?ad2"
    using ap(1) bssid(1) an build body len
    unfolding WPAStart4WayHS_def Let_def if_not_P [OF st]
    by (simp add: ap_ready_def peer_ready_def good_env_mem [OF env] RTMPToWirelessSta_def client_or_apcli_def Let_def ad1 msg1_pmkid_psk)
  show ?thesis
    by (intro exI [of _ an] exI [of _ ?ad2] conjI)
      (use ap(1) an(2) in \<open>simp_all add: run ap_ready_def peer_ready_def Let_def last_frame_def\<close>)
qed

text \<open>A frame of the handshake passes the tests before the dispatch.\<close>

lemma hs_frame_ok:
  assumes "ek_wf f" "ek_hdr f = [1, 3]" "ek_type f = [2]" "ek_info f = key_info_bytes (wpa2_key_info KEY_DESC_AES t)"
    "get16 0 (ek_body f) = 95 + n" "peer_ready i a ad" "AS_INITPSK \<le> WpaState (w_ent ad i)" "MsgLen = 131 + n"
  shows "key_frame_ok (ek_enc f) MsgLen (w_ent ad i) (w_Sta ad ! i)"
  using assms hs_key_info [OF assms(1,4)]
  by (simp add: key_frame_ok_def ek_get fourway_lengths peer_ready_def client_or_apcli_def less_eq_auth_mode_def wpa2_key_info_def
      KEY_DESC_AES_def)

lemma air_length: "ek_wf f \<Longrightarrow> n \<le> length (ek_data f) \<Longrightarrow> length (take (99 + n) (ek_enc f)) = 99 + n"
  by simp

lemma drop_headers: "drop (LENGTH_802_11 + LENGTH_802_1_H) xs = drop 32 xs"
  by (simp add: fourway_lengths)

lemma hs_message2:
  assumes sta: "sta_ready c ad" "AS_INITPSK \<le> WpaState (w_ent ad BSSID_WCID)" and c: "hs_wf c" and env: "good_env env"
    and rc: "length rc = 8" "\<not> replay_differs EAPOL_PAIR_MSG_1 rc (R_Counter (w_Sta ad ! BSSID_WCID))"
    and an: "length an = 32" and hdr: "length hdr = 32"
  shows "\<exists>sn ad1. deliver env envs BSSID_WCID hdr rest (take 99 (ek_enc (hs_fields EAPOL_PAIR_MSG_1 rc an []))) ad = Inr ad1 \<and>
    length sn = 32 \<and> sta_ready c ad1 \<and> WpaState (w_ent ad1 BSSID_WCID) = AS_PTKINIT_NEGOTIATING \<and>
    R_Counter (w_Sta ad1 ! BSSID_WCID) = rc \<and> ANonce (w_Sta ad1 ! BSSID_WCID) = an \<and>
    PTK (w_Sta ad1 ! BSSID_WCID) = wpa_ptk (hs_pmk c) (hs_bssid c) (hs_spa c) an sn \<and>
    last_frame ad1 = take (99 + length (RTMPInsertRSNIE (hs_sta_ie c))) (ek_enc (ek_seal (wpa_ptk (hs_pmk c) (hs_bssid c) (hs_spa c) an sn)
      (with_data (RTMPInsertRSNIE (hs_sta_ie c)) (hs_fields EAPOL_PAIR_MSG_2 rc sn []))))"
proof -
  let ?i = BSSID_WCID and ?F = "hs_fields EAPOL_PAIR_MSG_1 rc an []"
  let ?f = "ek_arrive 0 rest ?F" and ?Msg = "hdr @ take 99 (ek_enc ?F) @ rest"
  have wf: "ek_wf ?F" using rc an by (intro hs_fields_wf) (simp_all add: eapol_msg_defs)
  have p: "drop 32 ?Msg = ek_enc ?f" using ek_arrive [OF wf, of 0 hdr rest] hdr by simp
  have wff: "ek_wf ?f" using wf by simp
  have ki: "get_key_info (ek_enc ?f) = wpa2_key_info KEY_DESC_AES EAPOL_PAIR_MSG_1" by (rule hs_key_info [OF wff]) simp
  have ok: "key_frame_ok (ek_enc ?f) 131 (w_ent ad ?i) (w_Sta ad ! ?i)"
    using sta wff by (intro hs_frame_ok [where n = 0 and a = "hs_bssid c"]) (simp_all add: sta_ready_def)
  have sane: "PeerWpaMessageSanity (\<lambda>_. True) (ek_enc ?f) EAPOL_PAIR_MSG_1 ?i ad = Inr (True, ad)"
    using wff rc ki by (subst sanity_aes) (simp_all add: check_no_key_data eapol_msg_defs wpa2_key_info_def)
  obtain sn where sn: "GenRandom (\<lambda>_. True) (hs_spa c) (e_clock env) = Inr sn" "length sn = 32"
    using GenRandom_ok [of "e_clock env" "hs_spa c"] c env by (auto simp: good_env_def hs_wf_def)
  define ptk where "ptk = wpa_ptk (hs_pmk c) (hs_bssid c) (hs_spa c) an sn"
  obtain out where out: "WpaDerivePTK True (hs_pmk c) an (hs_bssid c) sn (hs_spa c) (e_stk env) 64 = Inr out" "take 64 out = ptk"
    using WpaDerivePTK_wpa_ptk [of "hs_pmk c" "hs_bssid c" "hs_spa c" an sn "e_stk env"] c an sn(2) env
    by (auto simp: hs_wf_def good_env_def ptk_def)
  let ?ad2 = "upd_sta ?i (\<lambda>s. s\<lparr>R_Counter := rc, ANonce := an\<rparr>) ad"
  let ?ad3 = "upd_ent ?i (\<lambda>e. e\<lparr>WpaState := AS_PTKINIT_NEGOTIATING\<rparr>) (upd_sta ?i (\<lambda>s. s\<lparr>SNonce := sn, PTK := ptk\<rparr>) ?ad2)"
  let ?G = "ek_seal ptk (with_data (RTMPInsertRSNIE (hs_sta_ie c)) (hs_fields EAPOL_PAIR_MSG_2 rc sn []))"
  let ?n = "length (RTMPInsertRSNIE (hs_sta_ie c))"
  have l: "?i < length (Content (w_tab ad))" "?i < length (w_Sta ad)" using sta(1) by (simp_all add: sta_ready_def peer_ready_def)
  have build: "ConstructEapolMsg (\<lambda>_. True) (e_junk env) AuthModeWPA2PSK (w_Sta ?ad3 ! ?i) AESEnable EAPOL_PAIR_MSG_2 0 sn [] []
      (hs_sta_ie c) (replicate TX_EAPOL_BUFFER 0) = Inr (ek_enc ?G)"
    using hs_build(2) [of "w_Sta ?ad3 ! ?i" "e_junk env" sn "hs_sta_ie c"] l sta(1) rc c sn(2) env
    by (simp add: sta_ready_def peer_ready_def hs_wf_def good_env_def ptk_def)
  have n: "?n \<le> 202" using c by (simp add: hs_wf_def length_RTMPInsertRSNIE)
  have wfG: "ek_wf ?G" using rc sn(2) by (intro seal_data_wf hs_fields_wf) (simp_all add: eapol_msg_defs)
  have body: "get16 Body_Len_at (ek_enc ?G) = 95 + ?n" using n by (simp add: ek_get(5) [OF wfG] with_data_lengths)
  have len: "\<not> length (ek_enc ?G) < 99 + ?n" using wfG n by simp
  let ?res = "wpa_emit (SendEapol ?i (hs_bssid c) (hs_spa c) (take (99 + ?n) (ek_enc ?G)) True) ?ad3"
  have get: "slice_at ReplayCounter_at 8 (ek_enc ?f) = rc" "slice_at KeyNonce_at 32 (ek_enc ?f) = an"
    using wff by (simp_all add: ek_get eapol_msg_defs)
  have "PeerPairMsg1Action env ?i ?Msg 131 ad = Inr ?res"
    using sta(1) l sn(1) out build body len sane
    unfolding PeerPairMsg1Action_def drop_headers p Let_def get
    by (simp add: sta_ready_def peer_ready_def client_or_apcli_def good_env_mem [OF env] fourway_lengths RTMPToWirelessSta_def)
  then have run: "deliver env envs ?i hdr rest (take 99 (ek_enc ?F)) ad = Inr ?res"
    using ok wf unfolding deliver_def peer_key_frame_def key_frame_def drop_headers p Let_def ki
    by (simp add: wpa2_key_info_def eapol_msg_defs)
  show ?thesis
    by (intro exI [of _ sn] exI [of _ ?res] conjI, rule run)
      (use sta(1) sn(2) l in \<open>simp_all add: sta_ready_def peer_ready_def last_frame_def ptk_def rc\<close>)
qed

lemma hs_message3:
  assumes ap: "ap_ready c i ad" "WpaState (w_ent ad i) = AS_PTKSTART" and c: "hs_wf c" and env: "good_env env"
    and rc: "R_Counter (w_Sta ad ! i) = rc" and an: "ANonce (w_Sta ad ! i) = an" "length an = 32" and sn: "length sn = 32"
    and hdr: "length hdr = 32" and ptk: "ptk = wpa_ptk (hs_pmk c) (hs_bssid c) (hs_spa c) an sn"
    and P: "P = wpa2_gtk_data (hs_ap_ie c) (hs_kid c) (take 16 (hs_gtk c))"
  shows "\<exists>cipher tsc ad1. deliver env envs i hdr rest (take (99 + length (RTMPInsertRSNIE (hs_sta_ie c)))
      (ek_enc (ek_seal ptk (with_data (RTMPInsertRSNIE (hs_sta_ie c)) (hs_fields EAPOL_PAIR_MSG_2 rc sn []))))) ad = Inr ad1 \<and>
    length tsc = 6 \<and> ap_ready c i ad1 \<and> WpaState (w_ent ad1 i) = AS_PTKINIT_NEGOTIATING \<and>
    R_Counter (w_Sta ad1 ! i) = ADD_ONE_To_64BIT_VAR rc \<and> PTK (w_Sta ad1 ! i) = ptk \<and>
    length cipher = length P + 8 \<and> length P < 234 \<and>
    (\<forall>D. AES_Key_Unwrap True (cipher @ D) (length P + 8) (slice_at 16 16 ptk) 16 (replicate 255 0) 0 =
      Inr (0, P @ replicate (255 - length P) 0, length P)) \<and>
    last_frame ad1 = take (99 + length cipher) (ek_enc (ek_seal ptk
      (with_data cipher (hs_fields EAPOL_PAIR_MSG_3 (ADD_ONE_To_64BIT_VAR rc) an tsc))))"
proof -
  let ?d = "RTMPInsertRSNIE (hs_sta_ie c)"
  let ?F = "ek_seal ptk (with_data ?d (hs_fields EAPOL_PAIR_MSG_2 rc sn []))"
  let ?n = "length ?d"
  let ?f = "ek_arrive ?n rest ?F" and ?Msg = "hdr @ take (99 + ?n) (ek_enc ?F) @ rest"
  let ?apidx = "unat (ent_apidx (w_ent ad i))"
  have l: "i < length (Content (w_tab ad))" "i < length (w_Sta ad)" "length rc = 8"
    using ap(1) rc by (simp_all add: ap_ready_def peer_ready_def)
  have n: "?n \<le> 202" "?n \<noteq> 0" using c by (simp_all add: hs_wf_def length_RTMPInsertRSNIE)
  have wf0: "ek_wf (hs_fields EAPOL_PAIR_MSG_2 rc sn [])" using l sn by (intro hs_fields_wf) (simp_all add: eapol_msg_defs)
  have wf: "ek_wf ?F" using wf0 by (rule seal_data_wf)
  have p: "drop 32 ?Msg = ek_enc ?f" using hdr n by (intro ek_arrive [OF wf]) simp_all
  have wff: "ek_wf ?f" using wf by simp
  have ki: "get_key_info (ek_enc ?f) = wpa2_key_info KEY_DESC_AES EAPOL_PAIR_MSG_2" by (rule hs_key_info [OF wff]) simp
  have ok: "key_frame_ok (ek_enc ?f) (131 + ?n) (w_ent ad i) (w_Sta ad ! i)"
    using ap wff n by (intro hs_frame_ok [where n = ?n and a = "hs_spa c"])
      (simp_all add: ap_ready_def with_data_lengths less_eq_wpa_state_def)
  let ?ad2 = "upd_sta i (\<lambda>s. s\<lparr>PTK := ptk\<rparr>) (upd_sta i (\<lambda>s. s\<lparr>SNonce := sn\<rparr>) ad)"
  have mic: "mic_ok ptk ?f" using wf0 n by (intro mic_ok_arrive) (simp_all add: with_data_lengths)
  have ver: "KeyDescVer (get_key_info (ek_enc ?f)) = KEY_DESC_AES" by (simp add: ki wpa2_key_info_def)
  have chk: "check_key_data (\<lambda>_. True) (ek_enc ?f) EAPOL_PAIR_MSG_2 i ?ad2 = Inr (True, ?ad2)"
    using n by (intro check_msg2 [OF wff]) (simp_all add: with_data_lengths)
  have "PeerWpaMessageSanity (\<lambda>_. True) (ek_enc ?f) EAPOL_PAIR_MSG_2 i ?ad2 =
      check_key_data (\<lambda>_. True) (ek_enc ?f) EAPOL_PAIR_MSG_2 i ?ad2"
    by (rule sanity_aes [OF wff _ _ _ ver])
      (use rc n mic l in \<open>simp_all add: with_data_lengths eapol_msg_defs replay_differs_def\<close>)
  then have sane: "PeerWpaMessageSanity (\<lambda>_. True) (ek_enc ?f) EAPOL_PAIR_MSG_2 i ?ad2 = Inr (True, ?ad2)" using chk by simp
  obtain out where out: "WpaDerivePTK True (hs_pmk c) an (hs_bssid c) sn (hs_spa c) (e_stk env) 64 = Inr out" "take 64 out = ptk"
    using WpaDerivePTK_wpa_ptk [of "hs_pmk c" "hs_bssid c" "hs_spa c" an sn "e_stk env"] c an sn(1) env
    by (auto simp: hs_wf_def good_env_def ptk)
  let ?rc1 = "ADD_ONE_To_64BIT_VAR rc" and ?tsc = "e_TxTsc env ?apidx"
  let ?ad3 = "upd_sta i (\<lambda>s. s\<lparr>R_Counter := ADD_ONE_To_64BIT_VAR (R_Counter s)\<rparr>)
    (upd_ent i (\<lambda>e. e\<lparr>WpaState := AS_PTKINIT_NEGOTIATING\<rparr>) (wpa_emit (CancelRetryTimer i) ?ad2))"
  have tsc: "length ?tsc = 6" using env by (simp add: good_env_def)
  obtain cipher where b: "ConstructEapolMsg (\<lambda>_. True) (e_junk env) AuthModeWPA2PSK (w_Sta ?ad3 ! i) AESEnable EAPOL_PAIR_MSG_3
      (hs_kid c) an ?tsc (hs_gtk c) (hs_ap_ie c) (replicate TX_EAPOL_BUFFER 0) =
      Inr (ek_enc (ek_seal ptk (with_data cipher (hs_fields EAPOL_PAIR_MSG_3 ?rc1 an ?tsc))))"
    "length cipher = length P + 8" "length P < 234"
    "\<forall>D. AES_Key_Unwrap True (cipher @ D) (length P + 8) (slice_at 16 16 ptk) 16 (replicate 255 0) 0 =
      Inr (0, P @ replicate (255 - length P) 0, length P)"
    using hs_build_3 [of "w_Sta ?ad3 ! i" "e_junk env" an ?tsc "hs_gtk c" "hs_ap_ie c" P "hs_kid c"] l ap(1) rc an c tsc env P
    by (auto simp: ap_ready_def peer_ready_def hs_wf_def good_env_def ptk)
  let ?G = "ek_seal ptk (with_data cipher (hs_fields EAPOL_PAIR_MSG_3 ?rc1 an ?tsc))"
  have wfG: "ek_wf ?G" using l an tsc by (intro seal_data_wf hs_fields_wf) (simp_all add: eapol_msg_defs)
  have body: "get16 Body_Len_at (ek_enc ?G) = 95 + length cipher" using b by (simp add: ek_get(5) [OF wfG] with_data_lengths)
  have len: "\<not> length (ek_enc ?G) < 99 + length cipher" using wfG b by simp
  let ?res = "wpa_emit (SetRetryTimer i PEER_MSG3_RETRY_EXEC_INTV) (upd_sta i (\<lambda>s. s\<lparr>ReTryCounter := PEER_MSG3_RETRY_TIMER_CTR\<rparr>)
    (wpa_emit (SendEapol i (hs_spa c) (hs_bssid c) (take (99 + length cipher) (ek_enc ?G)) (\<not> PortSecured (w_ent ad i))) ?ad3))"
  have get: "slice_at KeyNonce_at 32 (ek_enc ?f) = sn"
    using wff by (simp_all add: ek_get eapol_msg_defs)
  have st: "\<not> WpaState (w_ent ad i) < AS_PTKSTART" by (simp add: ap(2))
  have idx: "\<not> BssidNum (w_tab ad) \<le> ent_apidx (w_ent ad i)" using ap(1) by (simp add: ap_ready_def not_le)
  have "PeerPairMsg2Action env i ?Msg (131 + ?n) ad = Inr ?res"
    using ap(1) l out b(1) body len sane an rc idx
    unfolding PeerPairMsg2Action_def drop_headers p Let_def get if_not_P [OF st]
    by (simp add: ap_ready_def peer_ready_def good_env_mem [OF env] fourway_lengths RTMPToWirelessSta_def client_or_apcli_def
        Let_def)
  then have run: "deliver env envs i hdr rest (take (99 + ?n) (ek_enc ?F)) ad = Inr ?res"
    using ok wf n wff unfolding deliver_def peer_key_frame_def key_frame_def drop_headers p Let_def ki
    by (simp add: wpa2_key_info_def eapol_msg_defs ek_get with_data_lengths)
  show ?thesis
    by (intro exI [of _ cipher] exI [of _ ?tsc] exI [of _ ?res] conjI, rule run)
      (use ap(1) l b rc tsc in \<open>simp_all add: ap_ready_def peer_ready_def last_frame_def Let_def\<close>)
qed

lemma gtk_installed_simps [simp]:
  "w_tab (sta_gtk_installed kid key ad) = w_tab ad" "w_Sta (sta_gtk_installed kid key ad) = w_Sta ad"
  "CurrentAddress (sta_gtk_installed kid key ad) = CurrentAddress ad" "StaPMK (sta_gtk_installed kid key ad) = StaPMK ad"
  "StaGroupCipher (sta_gtk_installed kid key ad) = StaGroupCipher ad" "StaRSN_IE (sta_gtk_installed kid key ad) = StaRSN_IE ad"
  "StaGTK (sta_gtk_installed kid key ad) = put_at 0 key (StaGTK ad)"
  "SharedKey (sta_gtk_installed kid key ad) =
    (SharedKey ad)[0 := (SharedKey ad ! 0)[kid := zero_key\<lparr>CipherAlg := CIPHER_AES, KeyBytes := key\<rparr>]]"
  by (simp_all add: sta_gtk_installed_def Let_def set_shared_def wpa_emit_def)

text \<open>What the installation of a pairwise key and the opening of the port leave.\<close>

lemma install_aes:
  assumes "ent_WepStatus (w_Sta ad ! i) = AESEnable"
  shows "WPAInstallPairwiseKey b i bAE ad =
    wpa_emit (SetWcidIV (ent_wcid (w_ent ad i)) CIPHER_AES b 0)
      (wpa_emit (AddPairwiseKey (ent_wcid (w_ent ad i)) (pairwise_key bAE AESEnable (PTK (w_Sta ad ! i))))
        (upd_sta i (\<lambda>e. e\<lparr>PairwiseKey := pairwise_key bAE AESEnable (PTK (w_Sta ad ! i))\<rparr>) ad))"
  using assms by (simp add: WPAInstallPairwiseKey_def Let_def RTMPSetWcidSecurityInfo_def pairwise_key_def zero_key_def)

lemma hs_message4:
  assumes sta: "sta_ready c ad" "WpaState (w_ent ad BSSID_WCID) = AS_PTKINIT_NEGOTIATING" and c: "hs_wf c" and env: "good_env env"
    and rc: "length rc1 = 8" "\<not> replay_differs EAPOL_PAIR_MSG_3 rc1 (R_Counter (w_Sta ad ! BSSID_WCID))"
    and an: "ANonce (w_Sta ad ! BSSID_WCID) = an" "length an = 32" and tsc: "length tsc = 6" and hdr: "length hdr = 32"
    and ptk: "PTK (w_Sta ad ! BSSID_WCID) = ptk" "length ptk = 64"
    and P: "P = wpa2_gtk_data (hs_ap_ie c) (hs_kid c) (take 16 (hs_gtk c))"
    and cipher: "length cipher = length P + 8" "length P < 234"
      "\<forall>D. AES_Key_Unwrap True (cipher @ D) (length P + 8) (slice_at 16 16 ptk) 16 (replicate 255 0) 0 =
        Inr (0, P @ replicate (255 - length P) 0, length P)"
  shows "\<exists>ad1. deliver env envs BSSID_WCID hdr rest (take (99 + length cipher)
      (ek_enc (ek_seal ptk (with_data cipher (hs_fields EAPOL_PAIR_MSG_3 rc1 an tsc))))) ad = Inr ad1 \<and>
    WpaState (w_ent ad1 BSSID_WCID) = AS_PTKINITDONE \<and> PortSecured (w_ent ad1 BSSID_WCID) \<and>
    PTK (w_Sta ad1 ! BSSID_WCID) = ptk \<and> StaPTK ad1 = ptk \<and>
    PairwiseKey (w_Sta ad1 ! BSSID_WCID) = pairwise_key False AESEnable ptk \<and>
    take 16 (StaGTK ad1) = take 16 (hs_gtk c) \<and>
    SharedKey ad1 ! 0 ! hs_kid c = zero_key\<lparr>CipherAlg := CIPHER_AES, KeyBytes := take 16 (hs_gtk c)\<rparr> \<and>
    last_frame ad1 = take 99 (ek_enc (ek_seal ptk (hs_fields EAPOL_PAIR_MSG_4 rc1 [] [])))"
proof -
  let ?i = BSSID_WCID and ?key = "take 16 (hs_gtk c)" and ?n = "length cipher"
  let ?F = "ek_seal ptk (with_data cipher (hs_fields EAPOL_PAIR_MSG_3 rc1 an tsc))"
  let ?f = "ek_arrive ?n rest ?F" and ?Msg = "hdr @ take (99 + ?n) (ek_enc ?F) @ rest"
  have l: "?i < length (Content (w_tab ad))" "?i < length (w_Sta ad)" using sta(1) by (simp_all add: sta_ready_def peer_ready_def)
  have n: "?n \<le> 1000" "?n \<noteq> 0" using cipher by simp_all
  have wf0: "ek_wf (hs_fields EAPOL_PAIR_MSG_3 rc1 an tsc)" using rc an tsc by (intro hs_fields_wf) (simp_all add: eapol_msg_defs)
  have wf: "ek_wf ?F" using wf0 by (rule seal_data_wf)
  have p: "drop 32 ?Msg = ek_enc ?f" using hdr n by (intro ek_arrive [OF wf]) simp_all
  have wff: "ek_wf ?f" using wf by simp
  have ki: "get_key_info (ek_enc ?f) = wpa2_key_info KEY_DESC_AES EAPOL_PAIR_MSG_3" by (rule hs_key_info [OF wff]) simp
  have ver: "KeyDescVer (get_key_info (ek_enc ?f)) = KEY_DESC_AES" by (simp add: ki wpa2_key_info_def)
  have ok: "key_frame_ok (ek_enc ?f) (131 + ?n) (w_ent ad ?i) (w_Sta ad ! ?i)"
    using sta wff n by (intro hs_frame_ok [where n = ?n and a = "hs_bssid c"])
      (simp_all add: sta_ready_def with_data_lengths less_eq_wpa_state_def)
  have mic: "mic_ok ptk ?f" using wf0 n by (intro mic_ok_arrive) (simp_all add: with_data_lengths)
  let ?ad1 = "sta_gtk_installed (hs_kid c) ?key ad"
  have chk: "check_key_data (\<lambda>_. True) (ek_enc ?f) EAPOL_PAIR_MSG_3 ?i ad = Inr (True, ?ad1)"
  proof (rule check_msg3 [OF wff _ ver P])
    show "SharedKey ad \<noteq> []" using sta(1) by (auto simp: sta_ready_def)
    show "AES_Key_Unwrap True (ek_data ?f) (length P + 8) (slice_at 16 16 (PTK (w_Sta ad ! ?i))) 16 (replicate 255 0) 0 =
      Inr (0, P @ replicate (255 - length P) 0, length P)" using cipher ptk by simp
  qed (use sta(1) c n cipher in \<open>simp_all add: sta_ready_def peer_ready_def hs_wf_def wpa2_mode_def with_data_lengths\<close>)
  have "PeerWpaMessageSanity (\<lambda>_. True) (ek_enc ?f) EAPOL_PAIR_MSG_3 ?i ad =
      check_key_data (\<lambda>_. True) (ek_enc ?f) EAPOL_PAIR_MSG_3 ?i ad"
    by (rule sanity_aes [OF wff _ _ _ ver])
      (use rc n mic ptk in \<open>simp_all add: with_data_lengths eapol_msg_defs\<close>)
  then have sane: "PeerWpaMessageSanity (\<lambda>_. True) (ek_enc ?f) EAPOL_PAIR_MSG_3 ?i ad = Inr (True, ?ad1)" using chk by simp
  let ?ad2 = "upd_sta ?i (\<lambda>s. s\<lparr>R_Counter := rc1\<rparr>) ?ad1"
  have b: "ConstructEapolMsg (\<lambda>_. True) (e_junk env) AuthModeWPA2PSK (w_Sta ?ad2 ! ?i) AESEnable EAPOL_PAIR_MSG_4
      0 [] [] [] [] (replicate TX_EAPOL_BUFFER 0) = Inr (ek_enc (ek_seal ptk (hs_fields EAPOL_PAIR_MSG_4 rc1 [] [])))"
    using hs_build(3) [of "w_Sta ?ad2 ! ?i" "e_junk env"] l sta(1) rc ptk env
    by (simp add: sta_ready_def peer_ready_def good_env_def)
  let ?G = "ek_seal ptk (hs_fields EAPOL_PAIR_MSG_4 rc1 [] [])"
  have wfG: "ek_wf ?G" using rc by (intro seal_data_wf hs_fields_wf) (simp_all add: eapol_msg_defs)
  have body: "get16 Body_Len_at (ek_enc ?G) = 95" by (simp add: ek_get(5) [OF wfG])
  have len: "\<not> length (ek_enc ?G) < 99" using wfG by simp
  let ?ad3 = "(upd_ent ?i (\<lambda>e. e\<lparr>WpaState := AS_PTKINITDONE\<rparr>) ?ad2)\<lparr>StaPTK := ptk\<rparr>"
  let ?ad5 = "STA_PORT_SECURED (upd_sta ?i (\<lambda>s. s\<lparr>PrivacyAcceptAll := True\<rparr>) (upd_ent ?i (\<lambda>e. e\<lparr>PortSecured := True\<rparr>)
     (WPAInstallPairwiseKey BSS0 ?i False ?ad3)))"
  let ?res = "wpa_emit (SendEapol ?i (hs_bssid c) (hs_spa c) (take 99 (ek_enc ?G)) True) ?ad5"
  have get: "slice_at ReplayCounter_at 8 (ek_enc ?f) = rc1" "slice_at KeyNonce_at 32 (ek_enc ?f) = an"
    using wff by (simp_all add: ek_get eapol_msg_defs)
  have inst: "WPAInstallPairwiseKey BSS0 ?i False ?ad3 = wpa_emit (SetWcidIV (ent_wcid (w_ent ad ?i)) CIPHER_AES BSS0 0)
      (wpa_emit (AddPairwiseKey (ent_wcid (w_ent ad ?i)) (pairwise_key False AESEnable ptk))
        (upd_sta ?i (\<lambda>e. e\<lparr>PairwiseKey := pairwise_key False AESEnable ptk\<rparr>) ?ad3))"
    using sta(1) l ptk by (subst install_aes) (simp_all add: sta_ready_def peer_ready_def)
  have "PeerPairMsg3Action env ?i ?Msg (131 + ?n) ad = Inr ?res"
    using sta(1) l b body len sane an ptk
    unfolding PeerPairMsg3Action_def drop_headers p Let_def get
    by (simp add: sta_ready_def peer_ready_def good_env_mem [OF env] fourway_lengths RTMPToWirelessSta_def client_or_apcli_def
        wpa2_mode_def inst STA_PORT_SECURED_def)
  then have run: "deliver env envs ?i hdr rest (take (99 + ?n) (ek_enc ?F)) ad = Inr ?res"
    using ok wf n wff unfolding deliver_def peer_key_frame_def key_frame_def drop_headers p Let_def ki
    by (simp add: wpa2_key_info_def eapol_msg_defs)
  show ?thesis
    by (intro exI [of _ ?res] conjI, rule run)
      (use sta(1) l ptk c in \<open>simp_all add: inst STA_PORT_SECURED_def last_frame_def sta_ready_def peer_ready_def hs_wf_def put_at_def
         Suc_le_eq\<close>)
qed

lemma hs_message5:
  assumes ap: "ap_ready c i ad" "AS_PTKINIT_NEGOTIATING \<le> WpaState (w_ent ad i)" and c: "hs_wf c" and env: "good_env env"
    and rc: "R_Counter (w_Sta ad ! i) = rc1" and ptk: "PTK (w_Sta ad ! i) = ptk" and hdr: "length hdr = 32"
  shows "\<exists>ad1. deliver env envs i hdr rest (take 99 (ek_enc (ek_seal ptk (hs_fields EAPOL_PAIR_MSG_4 rc1 [] [])))) ad = Inr ad1 \<and>
    WpaState (w_ent ad1 i) = AS_PTKINITDONE \<and> PortSecured (w_ent ad1 i) \<and> GTKState (w_Sta ad1 ! i) = REKEY_ESTABLISHED \<and>
    PTK (w_Sta ad1 ! i) = ptk \<and> PairwiseKey (w_Sta ad1 ! i) = pairwise_key True AESEnable ptk \<and>
    ap_ready c i ad1 \<and> R_Counter (w_Sta ad1 ! i) = rc1 \<and> ent_wcid (w_ent ad1 i) = ent_wcid (w_ent ad i) \<and>
    ent_apidx (w_ent ad1 i) = ent_apidx (w_ent ad i) \<and>
    w_log ad1 = w_log ad @ [AddPairwiseKey (ent_wcid (w_ent ad i)) (pairwise_key True AESEnable ptk),
      SetWcidIV (ent_wcid (w_ent ad i)) CIPHER_AES (unat (ent_apidx (w_ent ad i))) 0, CancelRetryTimer i,
      WpaNotice (hs_spa c) IW_SET_KEY_DONE_WPA2_EVENT_FLAG]"
proof -
  let ?F = "ek_seal ptk (hs_fields EAPOL_PAIR_MSG_4 rc1 [] [])"
  let ?f = "ek_arrive 0 rest ?F" and ?Msg = "hdr @ take 99 (ek_enc ?F) @ rest"
  have l: "i < length (Content (w_tab ad))" "i < length (w_Sta ad)" "length rc1 = 8"
    using ap(1) rc by (simp_all add: ap_ready_def peer_ready_def)
  have wf0: "ek_wf (hs_fields EAPOL_PAIR_MSG_4 rc1 [] [])" using l by (intro hs_fields_wf) (simp_all add: eapol_msg_defs)
  have wf: "ek_wf ?F" using wf0 by (rule seal_data_wf)
  have p: "drop 32 ?Msg = ek_enc ?f" using ek_arrive [OF wf, of 0 hdr rest] hdr by simp
  have wff: "ek_wf ?f" using wf by simp
  have ki: "get_key_info (ek_enc ?f) = wpa2_key_info KEY_DESC_AES EAPOL_PAIR_MSG_4" by (rule hs_key_info [OF wff]) simp
  have ver: "KeyDescVer (get_key_info (ek_enc ?f)) = KEY_DESC_AES" by (simp add: ki wpa2_key_info_def)
  have ok: "key_frame_ok (ek_enc ?f) 131 (w_ent ad i) (w_Sta ad ! i)"
    using ap wff by (intro hs_frame_ok [where n = 0 and a = "hs_spa c"]) (simp_all add: ap_ready_def less_eq_wpa_state_def)
  have mic: "mic_ok ptk ?f" using wf0 by (intro mic_ok_arrive) simp_all
  have "PeerWpaMessageSanity (\<lambda>_. True) (ek_enc ?f) EAPOL_PAIR_MSG_4 i ad = check_key_data (\<lambda>_. True) (ek_enc ?f) EAPOL_PAIR_MSG_4 i ad"
    by (rule sanity_aes [OF wff _ _ _ ver]) (use rc mic ptk in \<open>simp_all add: eapol_msg_defs replay_differs_def\<close>)
  then have sane: "PeerWpaMessageSanity (\<lambda>_. True) (ek_enc ?f) EAPOL_PAIR_MSG_4 i ad = Inr (True, ad)"
    using check_no_key_data [OF wff] by simp
  have st: "\<not> WpaState (w_ent ad i) < AS_PTKINIT_NEGOTIATING" using ap(2) by (simp add: not_less)
  have idx: "\<not> BssidNum (w_tab ad) \<le> ent_apidx (w_ent ad i)" using ap(1) by (simp add: ap_ready_def not_le)
  have inst: "WPAInstallPairwiseKey (unat (ent_apidx (w_ent ad i))) i True ad =
      wpa_emit (SetWcidIV (ent_wcid (w_ent ad i)) CIPHER_AES (unat (ent_apidx (w_ent ad i))) 0)
      (wpa_emit (AddPairwiseKey (ent_wcid (w_ent ad i)) (pairwise_key True AESEnable ptk))
        (upd_sta i (\<lambda>e. e\<lparr>PairwiseKey := pairwise_key True AESEnable ptk\<rparr>) ad))"
    using ap(1) l ptk by (subst install_aes) (simp_all add: ap_ready_def peer_ready_def)
  let ?ad2 = "upd_ent i (\<lambda>e. e\<lparr>WpaState := AS_PTKINITDONE, PortSecured := True\<rparr>)
     (upd_sta i (\<lambda>s. s\<lparr>PrivacyAcceptAll := True\<rparr>) (WPAInstallPairwiseKey (unat (ent_apidx (w_ent ad i))) i True ad))"
  let ?res = "wpa_emit (WpaNotice (hs_spa c) IW_SET_KEY_DONE_WPA2_EVENT_FLAG) (wpa_emit (CancelRetryTimer i)
     (upd_sta i (\<lambda>s. s\<lparr>GTKState := REKEY_ESTABLISHED\<rparr>) ?ad2))"
  have "PeerPairMsg4Action env i ?Msg 131 ad = Inr ?res"
    using ap(1) l sane idx
    unfolding PeerPairMsg4Action_def drop_headers p Let_def if_not_P [OF st]
    by (simp add: ap_ready_def peer_ready_def good_env_mem [OF env] fourway_lengths wpa2_mode_def inst msg4_cache_def Let_def)
  then have run: "deliver env envs i hdr rest (take 99 (ek_enc ?F)) ad = Inr ?res"
    using ok wf wff unfolding deliver_def peer_key_frame_def key_frame_def drop_headers p Let_def ki
    by (simp add: wpa2_key_info_def eapol_msg_defs)
  show ?thesis
    by (intro exI [of _ ?res] conjI, rule run)
      (use l ptk rc ap(1) in \<open>simp_all add: inst ap_ready_def peer_ready_def Let_def\<close>)
qed

lemma replay_forward:
  assumes "length rc1 = 8" "length rc = 8" "be_val rc < be_val rc1" "t = EAPOL_PAIR_MSG_1 \<or> t = EAPOL_PAIR_MSG_3 \<or> t = EAPOL_GROUP_MSG_1"
  shows "\<not> replay_differs t rc1 rc"
proof -
  have "rc < rc1" using assms be_val_less_iff [of rc rc1] by simp
  then have "RTMPCompareMemory rc1 rc = 1" using assms(1,2) by (simp add: RTMPCompareMemory_less)
  then show ?thesis using assms(4) by (simp add: replay_differs_def)
qed

subsection \<open>Two concrete ends\<close>

definition sample_hs :: hs_conf where
  "sample_hs = \<lparr>hs_bssid = [2, 0, 0, 0, 0, 1], hs_spa = [2, 0, 0, 0, 0, 2], hs_pmk = replicate 32 7, hs_gtk = replicate 32 9,
     hs_kid = 1, hs_ap_ie = [1, 0, 0, 0x0f, 0xac, 4], hs_sta_ie = [1, 0, 0, 0x0f, 0xac, 4]\<rparr>"

definition sample_peer_entry :: "bytes \<Rightarrow> mac_entry" where
  "sample_peer_entry a = zero_entry\<lparr>EntryType := ENTRY_CLIENT, Addr := a, AuthMode := AuthModeWPA2PSK, Sst := SST_ASSOC,
     WpaState := AS_INITPSK\<rparr>"

definition sample_wpa_sta :: wpa_sta where
  "sample_wpa_sta = \<lparr>ent_WepStatus = AESEnable, R_Counter = replicate 8 0, ANonce = replicate 32 0, SNonce = replicate 32 0,
     PTK = replicate 64 0, PairwiseKey = zero_key, PrivacyAcceptAll = False, GTKState = REKEY_NEGOTIATING, ReTryCounter = 0,
     PMKID_CacheIdx = None, EnqueueEapolStartTimerRunning = EAPOL_START_DISABLE\<rparr>"

definition sample_net :: ap_net where
  "sample_net = \<lparr>an_PMK = hs_pmk sample_hs, an_GTK = hs_gtk sample_hs, an_GMK = replicate 32 0, an_GNonce = replicate 32 0,
     an_GroupCipher = AESEnable, an_DefaultKeyId = 1, an_RSN_IE = (hs_ap_ie sample_hs, []), an_PMKIDCache = []\<rparr>"

definition sample_wpa :: "bool \<Rightarrow> wpa_ad" where
  "sample_wpa is_ap =
     \<lparr>w_tab = sample_table\<lparr>mt_ap := is_ap,
        Content := replicate MAX_LEN_OF_MAC_TABLE (sample_peer_entry (if is_ap then hs_spa sample_hs else hs_bssid sample_hs))\<rparr>,
      w_Sta = replicate MAX_LEN_OF_MAC_TABLE sample_wpa_sta, w_Net = replicate HW_BEACON_MAX_NUM sample_net, w_Closing = False,
      w_ReservedWcid = 255, CurrentAddress = hs_spa sample_hs, StaPMK = hs_pmk sample_hs, StaPTK = replicate 64 0,
      StaGTK = replicate 32 0, StaGroupCipher = AESEnable, StaRSN_IE = hs_sta_ie sample_hs, StaDefaultKeyId = 0,
      SharedKey = replicate HW_BEACON_MAX_NUM (replicate 4 zero_key), MICFailureCounter = 0, ap_CMTimerRunning = False,
      BANClass3Data = False, w_PrevaMICFailTime = 0, w_aMICFailTime = 0, w_log = []\<rparr>"

definition sample_env :: wpa_env where
  "sample_env = \<lparr>e_mem = (\<lambda>_. True), e_junk = replicate 512 0, e_stk = replicate 80 0, e_clock = replicate 32 (replicate 8 1),
     e_TxTsc = (\<lambda>_. replicate 6 0), e_jiffies = 0, e_ba = (\<lambda>_ _. (True, True))\<rparr>"

lemmas sample_wpa_defs = sample_wpa_def sample_table_def sample_mbss_def sample_peer_entry_def sample_wpa_sta_def sample_net_def
  sample_hs_def zero_entry_def

lemma be_val_zeros: "be_val (replicate n 0) = 0"
  by (induction n) (simp_all add: be_val_Cons)

lemma sample_wpa_ok:
  "hs_wf sample_hs" "ap_ready sample_hs 2 (sample_wpa True)" "sta_ready sample_hs (sample_wpa False)" "good_env sample_env"
  "w_ent (sample_wpa True) 2 = sample_peer_entry (hs_spa sample_hs)" "w_Sta (sample_wpa b) ! 2 = sample_wpa_sta"
  "w_ent (sample_wpa False) BSSID_WCID = sample_peer_entry (hs_bssid sample_hs)" "w_Sta (sample_wpa b) ! BSSID_WCID = sample_wpa_sta"
proof -
  show "hs_wf sample_hs" by (simp add: hs_wf_def sample_hs_def slice_at_def OUI_WPA2_def)
  show e: "w_ent (sample_wpa True) 2 = sample_peer_entry (hs_spa sample_hs)" "w_Sta (sample_wpa b) ! 2 = sample_wpa_sta"
    "w_ent (sample_wpa False) BSSID_WCID = sample_peer_entry (hs_bssid sample_hs)" "w_Sta (sample_wpa b) ! BSSID_WCID = sample_wpa_sta" for b
    by (simp_all add: sample_wpa_def MAX_LEN_OF_MAC_TABLE_def BSSID_WCID_def)
  have l: "length (Content (w_tab (sample_wpa b))) = 116" "length (w_Sta (sample_wpa b)) = 116" for b
    by (simp_all add: sample_wpa_def MAX_LEN_OF_MAC_TABLE_def)
  have "BSSID_WCID < 116" by (simp add: BSSID_WCID_def)
  have "peer_ready 2 (hs_spa sample_hs) (sample_wpa True)" "peer_ready BSSID_WCID (hs_bssid sample_hs) (sample_wpa False)"
    using l \<open>BSSID_WCID < 116\<close> by (simp_all add: peer_ready_def e, simp_all add: sample_peer_entry_def sample_wpa_sta_def)
  then show "ap_ready sample_hs 2 (sample_wpa True)" "sta_ready sample_hs (sample_wpa False)"
    by (simp_all add: ap_ready_def sta_ready_def e Let_def, simp_all add: sample_wpa_defs net_rsn_ie_def HW_BEACON_MAX_NUM_def)
  show "good_env sample_env" by (simp add: good_env_def sample_env_def)
qed

subsection \<open>Results\<close>

text \<open>C1: the four-way handshake of a WPA2 network with a pre-shared key and CCMP reaches its end: from the start at the access point, four frames carried to the other side bring both ends to the state of a finished handshake with an open port, with the pairwise key that the standard derives from the master key, the addresses and the two nonces, the same key installed at both ends, and the group key of the access point installed at the station. No allocation fails, and the replay counter of the station is not ahead of that of the access point; headers and the rest of the receive buffers are arbitrary.\<close>

theorem four_way_handshake:
  assumes c: "hs_wf c" and ap: "ap_ready c i ap" "WpaState (w_ent ap i) = AS_INITPSK" "length (PTK (w_Sta ap ! i)) = 64"
    and sta: "sta_ready c sta" "AS_INITPSK \<le> WpaState (w_ent sta BSSID_WCID)"
    and env: "\<forall>k. good_env (env k)" "\<forall>k. length (hdr k) = 32"
    and rc: "be_val (R_Counter (w_Sta sta ! BSSID_WCID)) \<le> be_val (R_Counter (w_Sta ap ! i))"
      "be_val (R_Counter (w_Sta ap ! i)) + 2 < 2 ^ 64"
  shows "\<exists>ap3 sta2 an sn. four_way env envs i hdr rest ap sta = Inr (ap3, sta2) \<and>
    WpaState (w_ent ap3 i) = AS_PTKINITDONE \<and> WpaState (w_ent sta2 BSSID_WCID) = AS_PTKINITDONE \<and>
    PortSecured (w_ent ap3 i) \<and> PortSecured (w_ent sta2 BSSID_WCID) \<and>
    PTK (w_Sta ap3 ! i) = wpa_ptk (hs_pmk c) (hs_bssid c) (hs_spa c) an sn \<and>
    PTK (w_Sta sta2 ! BSSID_WCID) = PTK (w_Sta ap3 ! i) \<and>
    KeyBytes (PairwiseKey (w_Sta ap3 ! i)) = slice_at 32 16 (PTK (w_Sta ap3 ! i)) \<and>
    PairwiseKey (w_Sta sta2 ! BSSID_WCID) = PairwiseKey (w_Sta ap3 ! i) \<and>
    KeyBytes (SharedKey sta2 ! 0 ! hs_kid c) = take 16 (hs_gtk c)"
proof -
  let ?rc = "R_Counter (w_Sta ap ! i)" and ?P = "wpa2_gtk_data (hs_ap_ie c) (hs_kid c) (take 16 (hs_gtk c))"
  let ?rc1 = "ADD_ONE_To_64BIT_VAR ?rc" and ?rc2 = "ADD_ONE_To_64BIT_VAR (ADD_ONE_To_64BIT_VAR ?rc)"
  have l: "length ?rc = 8" "length (R_Counter (w_Sta sta ! BSSID_WCID)) = 8"
    using ap(1) sta(1) by (simp_all add: ap_ready_def sta_ready_def peer_ready_def)
  have v: "be_val ?rc1 = be_val ?rc + 1" "be_val ?rc2 = be_val ?rc + 2" using l rc(2) by (simp_all add: ADD_ONE_val)
  note e = spec [OF env(1)] and h = spec [OF env(2)]
  obtain an ap1 where 1: "WPAStart4WayHS (env 1) i PEER_MSG1_RETRY_EXEC_INTV ap = Inr ap1" "length an = 32" "ap_ready c i ap1"
    "WpaState (w_ent ap1 i) = AS_PTKSTART" "R_Counter (w_Sta ap1 ! i) = ?rc1" "ANonce (w_Sta ap1 ! i) = an"
    "last_frame ap1 = take 99 (ek_enc (hs_fields EAPOL_PAIR_MSG_1 ?rc1 an []))"
    using hs_message1 [OF ap(1,2) c e ap(3)] by blast
  have "length ?rc1 = 8" "\<not> replay_differs EAPOL_PAIR_MSG_1 ?rc1 (R_Counter (w_Sta sta ! BSSID_WCID))"
    using l rc(1) v by (simp, intro replay_forward) simp_all
  note 2 = hs_message2 [OF sta c e [of 2] this 1(2) h [of 1], of envs "rest 1"]
  then obtain sn sta1 ptk where 2: "deliver (env 2) envs BSSID_WCID (hdr 1) (rest 1) (last_frame ap1) sta = Inr sta1" "length sn = 32"
    "sta_ready c sta1" "WpaState (w_ent sta1 BSSID_WCID) = AS_PTKINIT_NEGOTIATING" "R_Counter (w_Sta sta1 ! BSSID_WCID) = ?rc1"
    "ANonce (w_Sta sta1 ! BSSID_WCID) = an" "PTK (w_Sta sta1 ! BSSID_WCID) = ptk"
    "last_frame sta1 = take (99 + length (RTMPInsertRSNIE (hs_sta_ie c))) (ek_enc (ek_seal ptk
      (with_data (RTMPInsertRSNIE (hs_sta_ie c)) (hs_fields EAPOL_PAIR_MSG_2 ?rc1 sn []))))"
    and ptk: "ptk = wpa_ptk (hs_pmk c) (hs_bssid c) (hs_spa c) an sn"
    using 1(7) by auto
  obtain cipher tsc ap2 where 3: "deliver (env 3) envs i (hdr 2) (rest 2) (last_frame sta1) ap1 = Inr ap2" "length tsc = 6"
    "ap_ready c i ap2" "WpaState (w_ent ap2 i) = AS_PTKINIT_NEGOTIATING" "R_Counter (w_Sta ap2 ! i) = ?rc2" "PTK (w_Sta ap2 ! i) = ptk"
    "last_frame ap2 = take (99 + length cipher) (ek_enc (ek_seal ptk (with_data cipher (hs_fields EAPOL_PAIR_MSG_3 ?rc2 an tsc))))"
    and cipher: "length cipher = length ?P + 8" "length ?P < 234"
      "\<forall>D. AES_Key_Unwrap True (cipher @ D) (length ?P + 8) (slice_at 16 16 ptk) 16 (replicate 255 0) 0 =
        Inr (0, ?P @ replicate (255 - length ?P) 0, length ?P)"
    unfolding 2(8) using hs_message3 [OF 1(3,4) c e [of 3] 1(5,6,2) 2(2) h [of 2] ptk refl, of envs "rest 2"] by blast
  have "length ?rc2 = 8" "\<not> replay_differs EAPOL_PAIR_MSG_3 ?rc2 (R_Counter (w_Sta sta1 ! BSSID_WCID))"
    using l v unfolding 2(5) by (simp, intro replay_forward) simp_all
  note 4 = hs_message4 [OF 2(3,4) c e [of 4] this 2(6) 1(2) 3(2) h [of 3] 2(7) _ refl cipher, of envs "rest 3"]
  then obtain sta2 where 4: "deliver (env 4) envs BSSID_WCID (hdr 3) (rest 3) (last_frame ap2) sta1 = Inr sta2"
    "WpaState (w_ent sta2 BSSID_WCID) = AS_PTKINITDONE" "PortSecured (w_ent sta2 BSSID_WCID)" "PTK (w_Sta sta2 ! BSSID_WCID) = ptk"
    "PairwiseKey (w_Sta sta2 ! BSSID_WCID) = pairwise_key False AESEnable ptk"
    "SharedKey sta2 ! 0 ! hs_kid c = zero_key\<lparr>CipherAlg := CIPHER_AES, KeyBytes := take 16 (hs_gtk c)\<rparr>"
    "last_frame sta2 = take 99 (ek_enc (ek_seal ptk (hs_fields EAPOL_PAIR_MSG_4 ?rc2 [] [])))"
    using 3(7) ptk by auto
  have st: "AS_PTKINIT_NEGOTIATING \<le> WpaState (w_ent ap2 i)" by (simp add: 3(4))
  obtain ap3 where 5: "deliver (env 5) envs i (hdr 4) (rest 4) (last_frame sta2) ap2 = Inr ap3"
    "WpaState (w_ent ap3 i) = AS_PTKINITDONE" "PortSecured (w_ent ap3 i)" "PTK (w_Sta ap3 ! i) = ptk"
    "PairwiseKey (w_Sta ap3 ! i) = pairwise_key True AESEnable ptk"
    unfolding 4(7) using hs_message5 [OF 3(3) st c e [of 5] 3(5,6) h [of 4], of envs "rest 4"] by blast
  have "four_way env envs i hdr rest ap sta = Inr (ap3, sta2)"
    by (simp only: four_way_def 1(1) 2(1) 3(1) 4(1) 5(1) f_bind_simps)
  then show ?thesis using 4(2-6) 5(2-5) ptk
    by (intro exI [of _ ap3] exI [of _ sta2] exI [of _ an] exI [of _ sn]) (simp add: pairwise_key_def)
qed

theorem four_way_handshake_witness:
  "\<exists>ap3 sta2 an sn. four_way (\<lambda>_. sample_env) (\<lambda>_. sample_env) 2 (\<lambda>_. replicate 32 0) (\<lambda>_. []) (sample_wpa True) (sample_wpa False) =
      Inr (ap3, sta2) \<and>
    WpaState (w_ent ap3 2) = AS_PTKINITDONE \<and> WpaState (w_ent sta2 BSSID_WCID) = AS_PTKINITDONE \<and>
    PortSecured (w_ent ap3 2) \<and> PortSecured (w_ent sta2 BSSID_WCID) \<and>
    PTK (w_Sta ap3 ! 2) = wpa_ptk (hs_pmk sample_hs) (hs_bssid sample_hs) (hs_spa sample_hs) an sn \<and>
    PTK (w_Sta sta2 ! BSSID_WCID) = PTK (w_Sta ap3 ! 2) \<and>
    KeyBytes (PairwiseKey (w_Sta ap3 ! 2)) = slice_at 32 16 (PTK (w_Sta ap3 ! 2)) \<and>
    PairwiseKey (w_Sta sta2 ! BSSID_WCID) = PairwiseKey (w_Sta ap3 ! 2) \<and>
    KeyBytes (SharedKey sta2 ! 0 ! hs_kid sample_hs) = take 16 (hs_gtk sample_hs)"
  by (rule four_way_handshake)
    (simp_all add: sample_wpa_ok, simp_all add: sample_peer_entry_def sample_wpa_sta_def be_val_zeros)

end
