(* ===== verification/FourWaySafety.thy ===== *)
theory FourWaySafety
  imports FourWayProps StationProps ApAuthProps
begin

text \<open>
  What the handlers of the handshake do with frames that no partner sent: which frames can open the port of a
  station, and what a forged, repeated or lost frame does.
\<close>

unbundle bit_operations_syntax

subsection \<open>What a passed check says\<close>

lemma f_bind_Inr: "f_bind r f = Inr y \<longleftrightarrow> (\<exists>x. r = Inr x \<and> f x = Inr y)"
  by (cases r) simp_all

text \<open>The replay counter is that of the entry and the code is right.\<close>

definition frame_authentic :: "bytes \<Rightarrow> wpa_sta \<Rightarrow> bool" where
  "frame_authentic p s \<longleftrightarrow> slice_at ReplayCounter_at 8 p = R_Counter s \<and>
     eapol_mic (KeyDescVer (get_key_info p)) (PTK s) (put_at KeyMic_at (replicate 16 0) p) (get16 Body_Len_at p + 4) =
       Inr (slice_at KeyMic_at 16 p)"

lemma sanity_authentic:
  assumes "PeerWpaMessageSanity mem p t i ad = Inr (True, ad1)" "t = EAPOL_PAIR_MSG_2 \<or> t = EAPOL_PAIR_MSG_4 \<or> t = EAPOL_GROUP_MSG_2"
  shows "frame_authentic p (w_Sta ad ! i)"
proof -
  have t: "t \<noteq> EAPOL_PAIR_MSG_1" "t \<noteq> EAPOL_PAIR_MSG_3" "t \<noteq> EAPOL_GROUP_MSG_1" using assms(2) by (auto simp: eapol_msg_defs)
  from assms(1) show ?thesis
    unfolding PeerWpaMessageSanity_def Let_def
    using t by (auto simp: f_bind_Inr replay_differs_def frame_authentic_def split: if_splits)
qed

text \<open>The checks themselves leave the station table alone.\<close>

lemma shared_key_tab:
  assumes "WPAInstallSharedKey gc b k w ae gtk n ad = Inr ad1"
  shows "w_tab ad1 = w_tab ad"
  using assms
  by (auto simp: WPAInstallSharedKey_def Let_def set_shared_def RTMPSetWcidSecurityInfo_def split: if_splits)

lemma parse_tab:
  assumes "RTMPParseEapolKeyData buf n g t w ad = Inr (ok, ad1)"
  shows "w_tab ad1 = w_tab ad"
proof -
  have "w_tab ad1 = w_tab ad"
    if "(case r of None \<Rightarrow> Inr (False, ad)
        | Some (GTK, GTKLEN, DefaultIdx) \<Rightarrow>
            if 3 < DefaultIdx then Inr (False, ad)
            else if \<not> mt_ap (w_tab ad) then
              let ad1 = ad\<lparr>StaGTK := put_at 0 (take GTKLEN GTK) (StaGTK ad), StaDefaultKeyId := DefaultIdx\<rparr> in
              f_bind (WPAInstallSharedKey (StaGroupCipher ad1) BSS0 DefaultIdx 0 False (StaGTK ad1) GTKLEN ad1)
                (\<lambda>ad2. Inr (True, ad2))
            else Inr (True, ad)) = Inr (ok, ad1)" for r
    using that by (cases r) (auto simp: Let_def f_bind_Inr split: if_splits dest!: shared_key_tab)
  then show ?thesis
    using assms unfolding RTMPParseEapolKeyData_def Let_def [of "unat n"] Let_def [of "replicate MAX_LEN_GTK 0"]
    by (simp only: f_bind_Inr split: if_split_asm) blast+
qed

lemma sanity_tab:
  assumes "PeerWpaMessageSanity mem p t i ad = Inr (ok, ad1)"
  shows "w_tab ad1 = w_tab ad"
proof -
  have "w_tab ad2 = w_tab ad" if "check_key_data mem p t i ad = Inr (ok, ad2)" for ad2
    using that unfolding check_key_data_def Let_def
    by (auto simp: f_bind_Inr split: if_splits dest: parse_tab)
  then show ?thesis
    using assms unfolding PeerWpaMessageSanity_def Let_def
    by (auto simp: f_bind_Inr split: if_splits)
qed

subsection \<open>Ports\<close>

text \<open>No port is open that was closed before.\<close>

definition ports_kept :: "wpa_ad \<Rightarrow> wpa_ad \<Rightarrow> bool" where
  "ports_kept ad ad1 \<longleftrightarrow> length (Content (w_tab ad1)) = length (Content (w_tab ad)) \<and>
     (\<forall>j<length (Content (w_tab ad)). PortSecured (w_ent ad1 j) \<longrightarrow> PortSecured (w_ent ad j))"

lemma ports_trans: "ports_kept a b \<Longrightarrow> ports_kept b c \<Longrightarrow> ports_kept a c"
  by (auto simp: ports_kept_def)

lemma ports_tab: "w_tab ad1 = w_tab ad \<Longrightarrow> ports_kept ad ad1"
  by (simp add: ports_kept_def)

lemma ports_refl [simp]: "ports_kept ad ad"
  by (simp add: ports_tab)

lemma upd_net_tab [simp]: "w_tab (upd_net n f ad) = w_tab ad"
  by (simp add: upd_net_def)

lemma ports_simps [simp]:
  "ports_kept ad (upd_sta i f ad1) = ports_kept ad ad1" "ports_kept ad (upd_net i g ad1) = ports_kept ad ad1"
  "ports_kept ad (wpa_emit ev ad1) = ports_kept ad ad1"
  "ports_kept (upd_sta i f ad) ad1 = ports_kept ad ad1" "ports_kept (upd_net i g ad) ad1 = ports_kept ad ad1"
  "ports_kept (wpa_emit ev ad) ad1 = ports_kept ad ad1"
  by (simp_all add: ports_kept_def)

lemma ports_upd_ent: "(\<And>e. PortSecured (h e) \<Longrightarrow> PortSecured e) \<Longrightarrow> ports_kept ad ad1 \<Longrightarrow> ports_kept ad (upd_ent i h ad1)"
  unfolding ports_kept_def upd_ent_def upd_entry_def
  by (cases "i < length (Content (w_tab ad1))") (auto simp: nth_list_update split: if_splits)

lemma ports_closed: "ports_kept ad (upd_ent i (\<lambda>e. e\<lparr>Sst := a, WpaState := b, PortSecured := False\<rparr>) ad)"
  "ports_kept ad (upd_ent i (\<lambda>e. e\<lparr>WpaState := b\<rparr>) ad)"
  by (rule ports_upd_ent; simp)+

text \<open>The ports are those before the check or the transmission.\<close>

lemma ports_cong: "w_tab ad1 = w_tab ad2 \<Longrightarrow> ports_kept ad ad2 \<Longrightarrow> ports_kept ad ad1"
  by (simp add: ports_kept_def)

lemma send_tab: "RTMPToWirelessSta env i d s p n c ad = Inr ad1 \<Longrightarrow> w_tab ad1 = w_tab ad"
  by (auto simp: RTMPToWirelessSta_def split: if_splits)

lemma msg1_pmkid_tab: "msg1_pmkid i n p ad = Inr (p1, ad1) \<Longrightarrow> w_tab ad1 = w_tab ad"
  by (auto simp: msg1_pmkid_def Let_def split: option.splits if_splits)

lemma start4_ports: "WPAStart4WayHS env i T ad = Inr ad1 \<Longrightarrow> ports_kept ad ad1"
  unfolding WPAStart4WayHS_def Let_def
  by (auto simp: f_bind_Inr split: if_splits dest!: send_tab msg1_pmkid_tab intro!: ports_upd_ent intro: ports_tab)

lemma start2_ports: "WPAStart2WayGroupHS env i ad = Inr ad1 \<Longrightarrow> ports_kept ad ad1"
  unfolding WPAStart2WayGroupHS_def Let_def
  by (auto simp: f_bind_Inr split: if_splits dest!: send_tab intro!: ports_tab)

lemma msg2_ports:
  assumes "PeerPairMsg2Action env i Msg n ad = Inr ad1"
  shows "ports_kept ad ad1"
proof -
  let ?upd = "\<lambda>b. upd_ent i (\<lambda>e. e\<lparr>WpaState := AS_PTKINIT_NEGOTIATING\<rparr>) b"
  have "ports_kept ad (?upd b)" if "w_tab b = w_tab ad" for b
    by (rule ports_upd_ent) (simp_all add: ports_tab that)
  then have "ports_kept ad x" if "w_tab x = w_tab (?upd (wpa_emit ev b))" "w_tab b = w_tab ad" for x b ev
    using that by (auto simp: ports_kept_def upd_ent_def upd_entry_def)
  then show ?thesis
    using assms unfolding PeerPairMsg2Action_def Let_def
    by (auto simp: f_bind_Inr split: if_splits dest!: send_tab sanity_tab intro: ports_tab)
qed

lemma group2_ports: "PeerGroupMsg2Action env i Msg n ad = Inr ad1 \<Longrightarrow> ports_kept ad ad1"
  unfolding PeerGroupMsg2Action_def Let_def
  by (auto simp: f_bind_Inr split: if_splits dest!: sanity_tab intro: ports_tab)

lemma fold_ports:
  assumes "fold_fault f ad js = Inr ad1" "\<And>a j b. f a j = Inr b \<Longrightarrow> ports_kept a b"
  shows "ports_kept ad ad1"
  using assms(1)
proof (induction js arbitrary: ad)
  case (Cons j js)
  then show ?case by (auto split: sum.splits dest!: assms(2) intro: ports_trans)
qed simp

lemma rekey_ports: "rekey_station envs x ad j = Inr ad1 \<Longrightarrow> ports_kept ad ad1"
  unfolding rekey_station_def Let_def
  by (auto simp: f_bind_Inr split: if_splits dest!: start2_ports)

lemma group_request_ports:
  assumes "group_key_request env envs x ad = Inr ad1"
  shows "ports_kept ad ad1"
proof -
  have "ports_kept a b" if "fold_fault (rekey_station envs x) (upd_net n f (upd_net n g a)) js = Inr b" for a b n f g js
    using fold_ports [OF that rekey_ports] by simp
  then show ?thesis
    using assms unfolding group_key_request_def Let_def
    by (auto simp: f_bind_Inr split: if_splits dest!: shared_key_tab intro: ports_cong)
qed

lemma pairwise_request_ports: "pairwise_key_request env i ad = Inr ad1 \<Longrightarrow> ports_kept ad ad1"
  unfolding pairwise_key_request_def Let_def
  by (drule start4_ports, erule ports_trans [rotated]) (auto intro!: ports_upd_ent)

lemma msg4_ports:
  assumes "PeerPairMsg4Action env i Msg n ad = Inr ad1" "j < length (Content (w_tab ad))"
    "\<not> PortSecured (w_ent ad j)" "PortSecured (w_ent ad1 j)"
  shows "j = i \<and> AS_PTKINIT_NEGOTIATING \<le> WpaState (w_ent ad i) \<and> frame_authentic (drop 32 Msg) (w_Sta ad ! i)"
proof -
  let ?p = "drop (LENGTH_802_11 + LENGTH_802_1_H) Msg"
  have ne: "ad1 \<noteq> ad" using assms(3,4) by auto
  then have st: "\<not> WpaState (w_ent ad i) < AS_PTKINIT_NEGOTIATING"
    using assms(1) unfolding PeerPairMsg4Action_def Let_def by (auto split: if_splits)
  obtain ok ad2 where s: "PeerWpaMessageSanity (e_mem env) ?p EAPOL_PAIR_MSG_4 i ad = Inr (ok, ad2)"
    using assms(1) ne unfolding PeerPairMsg4Action_def Let_def by (auto simp: f_bind_Inr split: if_splits)
  have ok: "ok"
  proof (rule ccontr)
    assume "\<not> ok"
    then have "w_tab ad1 = w_tab ad"
      using assms(1) ne s sanity_tab [OF s] unfolding PeerPairMsg4Action_def Let_def by (auto split: if_splits)
    then show False using assms(3,4) by simp
  qed
  let ?u = "upd_ent i (\<lambda>e. e\<lparr>WpaState := AS_PTKINITDONE, PortSecured := True\<rparr>)"
  have pair: "w_tab (WPAInstallPairwiseKey b i ae a) = w_tab a" for b ae a
    by (simp add: WPAInstallPairwiseKey_def Let_def RTMPSetWcidSecurityInfo_def)
  have cache: "w_tab b = w_tab a" if "msg4_cache env i a = Inr b" for a b
    using that unfolding msg4_cache_def Let_def by (auto simp: f_bind_Inr split: if_splits)
  have u: "ports_kept (?u a) b \<Longrightarrow> w_tab a = w_tab ad \<Longrightarrow> ports_kept (?u ad) b" for a b
    by (simp add: ports_kept_def upd_ent_def upd_entry_def)
  have v: "ports_kept (?u ad) b" if "w_tab b = w_tab (?u a)" "w_tab a = w_tab ad" for a b
    using that by (simp add: ports_kept_def upd_ent_def)
  have "ports_kept (?u ad) ad1"
    using assms(1) ne st ok sanity_tab [OF s] unfolding PeerPairMsg4Action_def Let_def s
    by (auto simp: f_bind_Inr pair split: if_splits dest!: cache start2_ports intro: u v)
  then have "PortSecured (w_ent (?u ad) j)" using assms(2,4) by (auto simp: ports_kept_def)
  then have "j = i" using assms(3) by (cases "i = j") (simp_all add: upd_ent_def upd_entry_def)
  then show ?thesis using st ok s sanity_authentic [of "e_mem env" ?p EAPOL_PAIR_MSG_4 i ad ad2]
    by (simp add: drop_headers not_less)
qed


lemma sample_message4:
  defines "ap \<equiv> upd_ent 2 (\<lambda>e. e\<lparr>WpaState := AS_PTKINIT_NEGOTIATING\<rparr>) (sample_wpa True)"
    and "f \<equiv> take 99 (ek_enc (ek_seal (replicate 64 0) (hs_fields EAPOL_PAIR_MSG_4 (replicate 8 0) [] [])))"
  shows "ap_ready sample_hs 2 ap" "WpaState (w_ent ap 2) = AS_PTKINIT_NEGOTIATING" "\<not> PortSecured (w_ent ap 2)" "mt_ap (w_tab ap)"
    "w_Sta ap ! 2 = sample_wpa_sta" "2 < length (Content (w_tab ap))"
    "\<exists>ad1. deliver sample_env envs 2 (replicate 32 0) [] f ap = Inr ad1 \<and> PortSecured (w_ent ad1 2)"
proof -
  note ok = sample_wpa_ok
  have l: "2 < length (Content (w_tab (sample_wpa True)))" "2 < length (w_Sta (sample_wpa True))"
    using ok(2) by (simp_all add: ap_ready_def peer_ready_def)
  show r: "ap_ready sample_hs 2 ap" using ok(2) l by (simp add: ap_ready_def peer_ready_def ap_def Let_def)
  show s: "WpaState (w_ent ap 2) = AS_PTKINIT_NEGOTIATING" "w_Sta ap ! 2 = sample_wpa_sta" using l ok(6) by (simp_all add: ap_def)
  show "\<not> PortSecured (w_ent ap 2)" "mt_ap (w_tab ap)" "2 < length (Content (w_tab ap))"
    using l ok(2,5) by (simp_all add: ap_def ap_ready_def sample_peer_entry_def zero_entry_def)
  show "\<exists>ad1. deliver sample_env envs 2 (replicate 32 0) [] f ap = Inr ad1 \<and> PortSecured (w_ent ad1 2)"
    using hs_message5 [OF r _ ok(1,4) refl refl, of "replicate 32 0" envs "[]"] unfolding f_def
    by (auto simp: s) (auto simp: sample_wpa_sta_def)
qed


subsection \<open>A repeated message 4\<close>

text \<open>C38: a message 4 that is received again is executed again. Its replay counter is still the one that the access point expects, so the second copy installs the pairwise key a second time, and the packet number and the replay windows of the chip start again from the beginning under a key that is in use.\<close>

theorem repeated_message4_reinstalls:
  assumes ap: "ap_ready c i ad" "AS_PTKINIT_NEGOTIATING \<le> WpaState (w_ent ad i)" and c: "hs_wf c"
    and env: "good_env env1" "good_env env2" and hdr: "length hdr = 32" "length hdr2 = 32"
    and f: "f = take 99 (ek_enc (ek_seal (PTK (w_Sta ad ! i)) (hs_fields EAPOL_PAIR_MSG_4 (R_Counter (w_Sta ad ! i)) [] [])))"
  shows "\<exists>ad1 ad2 evs. deliver env1 envs i hdr rest f ad = Inr ad1 \<and> deliver env2 envs2 i hdr2 rest2 f ad1 = Inr ad2 \<and>
    w_log ad1 = w_log ad @ evs \<and> w_log ad2 = w_log ad1 @ evs \<and>
    set evs \<supseteq> {AddPairwiseKey (ent_wcid (w_ent ad i)) (pairwise_key True AESEnable (PTK (w_Sta ad ! i))),
      SetWcidIV (ent_wcid (w_ent ad i)) CIPHER_AES (unat (ent_apidx (w_ent ad i))) 0}"
proof -
  let ?ptk = "PTK (w_Sta ad ! i)" and ?wcid = "ent_wcid (w_ent ad i)"
  let ?evs = "[AddPairwiseKey ?wcid (pairwise_key True AESEnable ?ptk), SetWcidIV ?wcid CIPHER_AES (unat (ent_apidx (w_ent ad i))) 0,
    CancelRetryTimer i, WpaNotice (hs_spa c) IW_SET_KEY_DONE_WPA2_EVENT_FLAG]"
  obtain ad1 where 1: "deliver env1 envs i hdr rest f ad = Inr ad1" "WpaState (w_ent ad1 i) = AS_PTKINITDONE"
    "PTK (w_Sta ad1 ! i) = ?ptk" "ap_ready c i ad1" "R_Counter (w_Sta ad1 ! i) = R_Counter (w_Sta ad ! i)"
    "ent_wcid (w_ent ad1 i) = ?wcid" "ent_apidx (w_ent ad1 i) = ent_apidx (w_ent ad i)" "w_log ad1 = w_log ad @ ?evs"
    using hs_message5 [OF ap c env(1) refl refl hdr(1), of envs rest] unfolding f by blast
  have "AS_PTKINIT_NEGOTIATING \<le> WpaState (w_ent ad1 i)" by (simp add: 1(2) less_eq_wpa_state_def)
  from hs_message5 [OF 1(4) this c env(2) refl refl hdr(2), of envs2 rest2]
  obtain ad2 where "deliver env2 envs2 i hdr2 rest2 f ad1 = Inr ad2" "w_log ad2 = w_log ad1 @ ?evs"
    unfolding f 1(3,5,6,7) by blast
  then show ?thesis using 1(1,8) by (intro exI [of _ ad1] exI [of _ ad2] exI [of _ ?evs]) simp
qed

theorem repeated_message4_reinstalls_witness:
  "\<exists>ad f ad1 ad2 evs. deliver sample_env (\<lambda>_. sample_env) 2 (replicate 32 0) [] f ad = Inr ad1 \<and>
    deliver sample_env (\<lambda>_. sample_env) 2 (replicate 32 0) [] f ad1 = Inr ad2 \<and> w_log ad2 = w_log ad1 @ evs \<and>
    AddPairwiseKey (ent_wcid (w_ent ad 2)) (pairwise_key True AESEnable (PTK (w_Sta ad ! 2))) \<in> set evs"
proof -
  have st: "AS_PTKINIT_NEGOTIATING \<le> WpaState (w_ent (upd_ent 2 (\<lambda>e. e\<lparr>WpaState := AS_PTKINIT_NEGOTIATING\<rparr>) (sample_wpa True)) 2)"
    by (simp add: sample_message4(2))
  show ?thesis
    using repeated_message4_reinstalls [OF sample_message4(1) st sample_wpa_ok(1,4,4) _ _ refl, of "replicate 32 0" "replicate 32 0"
        "\<lambda>_. sample_env" "[]" "\<lambda>_. sample_env" "[]"] by fastforce
qed

subsection \<open>A forged message 2\<close>

text \<open>The access point replaces the pairwise key of a station by one derived from the nonce of a message 2 before it checks anything of that message. A forged frame with a wrong replay counter, and without any integrity code, therefore changes the key that an established station's later key frames are checked with, while the key in the chip stays what it was.\<close>

theorem forged_message2_overwrites_ptk:
  assumes ap: "ap_ready c i ad" "AS_PTKSTART \<le> WpaState (w_ent ad i)" "length (ANonce (w_Sta ad ! i)) = 32"
    and c: "hs_wf c" and env: "good_env env" and Msg: "131 \<le> MsgLen" "131 \<le> length Msg"
    and forged: "slice_at 9 8 (drop 32 Msg) \<noteq> R_Counter (w_Sta ad ! i)"
  shows "\<exists>ad1. PeerPairMsg2Action env i Msg MsgLen ad = Inr ad1 \<and>
    PTK (w_Sta ad1 ! i) = wpa_ptk (hs_pmk c) (hs_bssid c) (hs_spa c) (ANonce (w_Sta ad ! i)) (slice_at 17 32 (drop 32 Msg)) \<and>
    PairwiseKey (w_Sta ad1 ! i) = PairwiseKey (w_Sta ad ! i) \<and> w_tab ad1 = w_tab ad \<and>
    w_log ad1 = w_log ad @ [WpaNotice (hs_spa c) IW_REPLAY_COUNTER_DIFF_EVENT_FLAG]"
proof -
  let ?p = "drop 32 Msg" and ?an = "ANonce (w_Sta ad ! i)"
  let ?sn = "slice_at 17 32 ?p"
  have sn: "length ?sn = 32" using Msg(2) by (simp add: slice_at_def)
  obtain out where out: "WpaDerivePTK True (hs_pmk c) ?an (hs_bssid c) ?sn (hs_spa c) (e_stk env) 64 = Inr out"
      "take 64 out = wpa_ptk (hs_pmk c) (hs_bssid c) (hs_spa c) ?an ?sn"
    using WpaDerivePTK_wpa_ptk [of "hs_pmk c" "hs_bssid c" "hs_spa c" ?an ?sn "e_stk env"] c ap(3) sn env
    by (auto simp: hs_wf_def good_env_def)
  have st: "\<not> WpaState (w_ent ad i) < AS_PTKSTART" using ap(2) by (simp add: not_less)
  have idx: "\<not> BssidNum (w_tab ad) \<le> ent_apidx (w_ent ad i)" using ap(1) by (simp add: ap_ready_def not_le)
  have l: "i < length (w_Sta ad)" using ap(1) by (simp add: ap_ready_def peer_ready_def)
  let ?ad1 = "upd_sta i (\<lambda>s. s\<lparr>PTK := take 64 out\<rparr>) (upd_sta i (\<lambda>s. s\<lparr>SNonce := ?sn\<rparr>) ad)"
  have "PeerWpaMessageSanity (\<lambda>_. True) ?p EAPOL_PAIR_MSG_2 i ?ad1 =
      Inr (False, wpa_emit (WpaNotice (hs_spa c) IW_REPLAY_COUNTER_DIFF_EVENT_FLAG) ?ad1)"
    using forged ap(1) l
    by (simp add: PeerWpaMessageSanity_def Let_def replay_differs_def eapol_msg_defs ap_ready_def peer_ready_def)
  then have "PeerPairMsg2Action env i Msg MsgLen ad = Inr (wpa_emit (WpaNotice (hs_spa c) IW_REPLAY_COUNTER_DIFF_EVENT_FLAG) ?ad1)"
    using ap(1) Msg(1) out
    unfolding PeerPairMsg2Action_def drop_headers Let_def if_not_P [OF st] if_not_P [OF idx]
    by (simp add: ap_ready_def peer_ready_def good_env_mem [OF env] fourway_lengths Let_def)
  then show ?thesis using l out by simp
qed

theorem forged_message2_overwrites_ptk_witness:
  "\<exists>ad1. PeerPairMsg2Action sample_env 2 (replicate 131 1) 131
      (upd_ent 2 (\<lambda>e. e\<lparr>WpaState := AS_PTKINIT_NEGOTIATING\<rparr>) (sample_wpa True)) = Inr ad1 \<and>
    PTK (w_Sta ad1 ! 2) = wpa_ptk (hs_pmk sample_hs) (hs_bssid sample_hs) (hs_spa sample_hs) (replicate 32 0) (replicate 32 1)"
proof -
  note ok = sample_message4(1,2,5)
  have "slice_at 9 8 (drop 32 (replicate 131 1)) \<noteq> R_Counter sample_wpa_sta"
    by (simp add: slice_at_def sample_wpa_sta_def numeral_eq_Suc)
  moreover have "slice_at 17 32 (drop 32 (replicate 131 (1::u8))) = replicate 32 1" by (simp add: slice_at_def)
  moreover have "ANonce sample_wpa_sta = replicate 32 0" by (simp add: sample_wpa_sta_def)
  ultimately show ?thesis
    using forged_message2_overwrites_ptk [OF ok(1) _ _ sample_wpa_ok(1,4), of 131 "replicate 131 1"]
    by (auto simp only: ok less_eq_wpa_state_def length_replicate) (auto simp: less_eq_wpa_state_def)
qed

subsection \<open>Long key data\<close>

text \<open>C40: the buffer for the key data of a received frame has 255 bytes, and the length of the key data in message 2 is not compared with it: an associated station, which can compute the integrity code, makes the access point write past the end of its buffer with a message 2 of 256 or more bytes of key data.\<close>

theorem long_key_data_overflows:
  assumes ap: "ap_ready c i ad" "AS_PTKSTART \<le> WpaState (w_ent ad i)" "length (ANonce (w_Sta ad ! i)) = 32"
    and c: "hs_wf c" and env: "good_env env" and Msg: "131 \<le> MsgLen"
    and long: "255 < get16 97 (drop 32 Msg)" "get16 97 (drop 32 Msg) \<le> length (drop 131 Msg)"
    and ptk: "ptk = wpa_ptk (hs_pmk c) (hs_bssid c) (hs_spa c) (ANonce (w_Sta ad ! i)) (slice_at 17 32 (drop 32 Msg))"
    and auth: "frame_authentic (drop 32 Msg) ((w_Sta ad ! i)\<lparr>PTK := ptk\<rparr>)"
  shows "PeerPairMsg2Action env i Msg MsgLen ad = Inl OOBWrite"
proof -
  let ?p = "drop 32 Msg" and ?an = "ANonce (w_Sta ad ! i)"
  let ?sn = "slice_at 17 32 ?p"
  have sn: "length ?sn = 32" using long by (simp add: slice_at_def)
  obtain out where out: "WpaDerivePTK True (hs_pmk c) ?an (hs_bssid c) ?sn (hs_spa c) (e_stk env) 64 = Inr out" "take 64 out = ptk"
    using WpaDerivePTK_wpa_ptk [of "hs_pmk c" "hs_bssid c" "hs_spa c" ?an ?sn "e_stk env"] c ap(3) sn env ptk
    by (auto simp: hs_wf_def good_env_def)
  have st: "\<not> WpaState (w_ent ad i) < AS_PTKSTART" using ap(2) by (simp add: not_less)
  have idx: "\<not> BssidNum (w_tab ad) \<le> ent_apidx (w_ent ad i)" using ap(1) by (simp add: ap_ready_def not_le)
  have l: "i < length (w_Sta ad)" using ap(1) by (simp add: ap_ready_def peer_ready_def)
  let ?ad1 = "upd_sta i (\<lambda>s. s\<lparr>PTK := take 64 out\<rparr>) (upd_sta i (\<lambda>s. s\<lparr>SNonce := ?sn\<rparr>) ad)"
  have key: "check_key_data (\<lambda>_. True) ?p EAPOL_PAIR_MSG_2 i ?ad1 = Inl OOBWrite"
    using long ap(1) by (simp add: check_key_data_def Let_def eapol_msg_defs MAX_LEN_OF_RSNIE_def add.commute)
  have "PeerWpaMessageSanity (\<lambda>_. True) ?p EAPOL_PAIR_MSG_2 i ?ad1 = Inl OOBWrite"
    using auth l out(2) key
    by (simp add: PeerWpaMessageSanity_def Let_def replay_differs_def eapol_msg_defs frame_authentic_def)
  then show ?thesis
    using ap(1) Msg out
    unfolding PeerPairMsg2Action_def drop_headers Let_def if_not_P [OF st] if_not_P [OF idx]
    by (simp add: ap_ready_def peer_ready_def good_env_mem [OF env] fourway_lengths Let_def)
qed

lemma frame_authentic_seal:
  assumes "ek_wf f" "ek_mic f = replicate 16 0" "get16 0 (ek_body f) = 95 + n" "n \<le> length (ek_data f)" "n \<le> 1000"
    "KeyDescVer (get_key_info (ek_enc f)) = KEY_DESC_AES" "ek_rc f = R_Counter s" "PTK s = ptk"
  shows "frame_authentic (ek_enc (ek_seal ptk f)) s"
proof -
  have wf: "ek_wf (ek_seal ptk f)" using assms(1) by (rule seal_data_wf)
  have id: "f\<lparr>ek_mic := replicate 16 0\<rparr> = f" using assms(2) by (cases f) simp
  then have z: "put_at KeyMic_at (replicate 16 0) (ek_enc (ek_seal ptk f)) = ek_enc f"
    by (simp add: ek_put(7) [OF wf]) (simp add: ek_seal_def)
  have v: "KeyDescVer (get_key_info (ek_enc (ek_seal ptk f))) = KEY_DESC_AES"
    using assms(6) by (simp add: get_key_info_enc wf assms(1))
  show ?thesis
    using assms eapol_mic_aes [of "95 + n + 4" "ek_enc f" ptk]
    by (simp add: frame_authentic_def z v ek_get [OF wf]) (simp add: ek_seal_def id)
qed

theorem long_key_data_overflows_witness:
  "\<exists>Msg. PeerPairMsg2Action sample_env 2 Msg 387
    (upd_ent 2 (\<lambda>e. e\<lparr>WpaState := AS_PTKINIT_NEGOTIATING\<rparr>) (sample_wpa True)) = Inl OOBWrite"
proof -
  note ok = sample_message4(1,2,5)
  let ?ptk = "wpa_ptk (hs_pmk sample_hs) (hs_bssid sample_hs) (hs_spa sample_hs) (replicate 32 0) (replicate 32 1)"
  let ?g = "with_data (replicate 256 0) (hs_fields EAPOL_PAIR_MSG_2 (replicate 8 0) (replicate 32 1) [])"
  let ?Msg = "replicate 32 0 @ ek_enc (ek_seal ?ptk ?g)"
  have wf0: "ek_wf (hs_fields EAPOL_PAIR_MSG_2 (replicate 8 0) (replicate 32 1) [])"
    by (rule hs_fields_wf) (simp_all add: eapol_msg_defs)
  have wf: "ek_wf ?g" "ek_wf (ek_seal ?ptk ?g)" using wf0 by (simp_all add: seal_data_wf)
  have d: "drop 32 ?Msg = ek_enc (ek_seal ?ptk ?g)" by simp
  have an: "ANonce sample_wpa_sta = replicate 32 0" "R_Counter sample_wpa_sta = replicate 8 0" by (simp_all add: sample_wpa_sta_def)
  have get: "get16 97 (drop 32 ?Msg) = 256" "slice_at 17 32 (drop 32 ?Msg) = replicate 32 1" "256 \<le> length (drop 131 ?Msg)"
    unfolding d using wf by (simp_all add: ek_get with_data_lengths eapol_msg_defs)
  have auth: "frame_authentic (drop 32 ?Msg) (sample_wpa_sta\<lparr>PTK := ?ptk\<rparr>)"
    unfolding d using wf wf0 by (intro frame_authentic_seal [where n = 256])
      (simp_all add: with_data_lengths hs_key_info an, simp add: wpa2_key_info_def)
  show ?thesis
    using long_key_data_overflows [OF ok(1) _ _ sample_wpa_ok(1,4), of 387 ?Msg ?ptk] get auth an
    by (intro exI [of _ ?Msg]) (simp add: ok(2) sample_wpa_ok(6) less_eq_wpa_state_def)
qed

subsection \<open>A forged key request\<close>

lemma rekey_null:
  assumes "\<not> mt_ap (w_tab ad)" "e_mem (envs j) = (\<lambda>_. True)"
  shows "rekey_station envs x ad j = (if EntryType (w_ent ad j) = ENTRY_CLIENT \<and> WpaState (w_ent ad j) = AS_PTKINITDONE \<and>
    ent_apidx (w_ent ad j) = x then Inl NullDeref else Inr ad)"
  using assms by (simp add: rekey_station_def WPAStart2WayGroupHS_def Let_def)

lemma fold_rekey_null:
  assumes "\<not> mt_ap (w_tab ad)" "\<forall>j. e_mem (envs j) = (\<lambda>_. True)" "i \<in> set js"
    "EntryType (w_ent ad i) = ENTRY_CLIENT" "WpaState (w_ent ad i) = AS_PTKINITDONE"
  shows "fold_fault (rekey_station envs (ent_apidx (w_ent ad i))) ad js = Inl NullDeref"
  using assms(3) by (induction js) (auto simp: rekey_null [OF assms(1) spec [OF assms(2)]] assms(4,5))

text \<open>C39: one unauthenticated key frame stops the driver of a connected station. A frame with the Request bit, and without Error, Key Ack and Pairwise, is taken for a request for a new group key, also in station mode, and no integrity code is looked at; the station then starts a group key handshake with its own access point, for which it has no group key, and copies from the null pointer.\<close>

theorem forged_request_crashes_station:
  assumes sta: "sta_ready c ad" "WpaState (w_ent ad BSSID_WCID) = AS_PTKINITDONE"
    and env: "good_env env" "\<forall>j. good_env (envs j)"
    and net: "n = unat (ent_apidx (w_ent ad BSSID_WCID))" "n < length (w_Net ad)" "length (mb_bssid (MBSSID (w_tab ad) ! n)) = 6"
      "length (an_GTK (w_Net ad ! n)) = 32" "length (an_GMK (w_Net ad ! n)) = 32"
    and frame: "key_frame_ok (drop 32 Msg) MsgLen (w_ent ad BSSID_WCID) (w_Sta ad ! BSSID_WCID)"
      "Request (get_key_info (drop 32 Msg))" "\<not> KeyError (get_key_info (drop 32 Msg))"
      "\<not> KeyAck (get_key_info (drop 32 Msg))" "\<not> KeyPairwise (get_key_info (drop 32 Msg))"
  shows "peer_key_frame env envs BSSID_WCID Msg MsgLen ad = Inl NullDeref"
proof -
  let ?i = BSSID_WCID
  let ?bssid = "mb_bssid (MBSSID (w_tab ad) ! n)"
  obtain nonce where n: "GenRandom (\<lambda>_. True) ?bssid (e_clock env) = Inr nonce" "length nonce = 32"
    using GenRandom_ok [of "e_clock env" ?bssid] env(1) net by (auto simp: good_env_def)
  obtain t where "PRF True (an_GMK (w_Net ad ! n)) label_group (?bssid @ nonce) (e_stk env) 32 = Inr t" "length t = 80"
    using PRF_run [of "an_GMK (w_Net ad ! n)" label_group "?bssid @ nonce" 32 "e_stk env"] net n env(1)
    by (auto simp: good_env_def label_group_def)
  then obtain gtk where gtk: "WpaDeriveGTK True (an_GMK (w_Net ad ! n)) nonce ?bssid (e_stk env) (an_GTK (w_Net ad ! n)) 32 = Inr gtk"
    using net by (simp add: WpaDeriveGTK_def)
  let ?ad1 = "upd_net n (\<lambda>a. a\<lparr>an_GTK := gtk\<rparr>)
    (upd_net n (\<lambda>a. a\<lparr>an_GNonce := nonce, an_DefaultKeyId := (if an_DefaultKeyId a = 1 then 2 else 1)\<rparr>) ad)"
  have "fold_fault (rekey_station envs (ent_apidx (w_ent ?ad1 ?i))) ?ad1 [0..<MAX_LEN_OF_MAC_TABLE] = Inl NullDeref"
    using sta env by (intro fold_rekey_null) (simp_all add: sta_ready_def peer_ready_def good_env_mem BSSID_WCID_def MAX_LEN_OF_MAC_TABLE_def
      del: upt_rec_numeral)
  then have "group_key_request env envs (ent_apidx (w_ent ad ?i)) ad = Inl NullDeref"
    using net n gtk unfolding group_key_request_def Let_def
    by (simp add: good_env_mem [OF env(1)] LEN_TKIP_GTK_def del: upt_rec_numeral)
  then show ?thesis
    using frame unfolding peer_key_frame_def key_frame_def drop_headers Let_def by simp
qed

theorem forged_request_crashes_station_witness:
  "peer_key_frame sample_env (\<lambda>_. sample_env) BSSID_WCID (replicate 32 0 @ [1, 3, 0, 95, 2, 8, 2] @ replicate 92 0) 131
    (upd_ent BSSID_WCID (\<lambda>e. e\<lparr>WpaState := AS_PTKINITDONE\<rparr>) (sample_wpa False)) = Inl NullDeref"
proof -
  let ?sta = "upd_ent BSSID_WCID (\<lambda>e. e\<lparr>WpaState := AS_PTKINITDONE\<rparr>) (sample_wpa False)"
  let ?p = "[1, 3, 0, 95, 2, 8, 2] @ replicate 92 (0 :: u8)"
  note ok = sample_wpa_ok
  have l: "BSSID_WCID < length (Content (w_tab (sample_wpa False)))" using ok(3) by (simp add: sta_ready_def peer_ready_def)
  have r: "sta_ready sample_hs ?sta" using ok(3) l by (simp add: sta_ready_def peer_ready_def)
  have e: "w_ent ?sta BSSID_WCID = (sample_peer_entry (hs_bssid sample_hs))\<lparr>WpaState := AS_PTKINITDONE\<rparr>" using l ok(7) by simp
  have p: "drop 32 (replicate 32 0 @ ?p) = ?p" by simp
  have k: "Request (get_key_info ?p)" "\<not> KeyError (get_key_info ?p)" "\<not> KeyAck (get_key_info ?p)" "\<not> KeyPairwise (get_key_info ?p)"
    "KeyDescVer (get_key_info ?p) = 2"
    by (simp_all add: get_key_info_def)
  have f: "key_frame_ok ?p 131 (w_ent ?sta BSSID_WCID) sample_wpa_sta"
    using k(5) by (simp add: key_frame_ok_def e sample_peer_entry_def sample_wpa_sta_def client_or_apcli_def fourway_lengths
      KEY_DESC_AES_def KEY_DESC_TKIP_def get16_def less_eq_auth_mode_def less_eq_wpa_state_def)
  have a: "ent_apidx (w_ent ?sta BSSID_WCID) = 0" by (simp add: e sample_peer_entry_def zero_entry_def)
  have n: "0 < length (w_Net ?sta)" "w_Net ?sta ! 0 = sample_net" "MBSSID (w_tab ?sta) ! 0 = sample_mbss"
    by (simp_all add: sample_wpa_def sample_table_def HW_BEACON_MAX_NUM_def)
  show ?thesis
    using forged_request_crashes_station [OF r _ ok(4) _ refl, of "\<lambda>_. sample_env" "replicate 32 0 @ ?p" 131]
    unfolding p a using k f n ok(4) by (simp add: e ok(8) sample_net_def sample_mbss_def sample_hs_def)
qed

subsection \<open>A lost message 3\<close>

text \<open>Message 3 is sent once. The retry timer set with it adds one to a counter that already stands at its constant for message 3, finds it above the limit for message 1, and removes the station from the table with the reason of a handshake timeout; the station of a lost message 3 has to associate again.\<close>

theorem lost_message3_removes_station:
  assumes inv: "station_inv (w_tab ad)" and i: "mac_map (w_tab ad) a = Some i" and ap: "mt_ap (w_tab ad)" "i < length (w_Sta ad)"
    and e: "EntryType (w_ent ad i) = ENTRY_CLIENT" "wpa2_mode (AuthMode (w_ent ad i))"
    and sent: "ReTryCounter (w_Sta ad ! i) = PEER_MSG3_RETRY_TIMER_CTR" and env: "e_mem env (Alloc_deauth i)" "e_ba env i = (\<lambda>_. (True, True))"
  shows "\<exists>ad1. WPARetryExec env i ad = r_return ad1 \<and> mac_map (w_tab ad1) = (mac_map (w_tab ad))(a := None) \<and> station_inv (w_tab ad1) \<and>
    eapol_frames (w_log ad1) = eapol_frames (w_log ad) \<and> last (w_log ad1) = WpaDeauth a REASON_4_WAY_TIMEOUT"
proof -
  note sl = mac_map_slot [OF i]
  have c: "unat (ent_wcid (w_ent ad i)) = i" "unat (ent_apidx (w_ent ad i)) < HW_BEACON_MAX_NUM"
    using station_invD(1) [OF inv] sl(1) e(1) by (simp_all add: mac_inv_def)
  obtain t where t: "MacTableDeleteEntry (e_ba env i) i a (w_tab ad) = r_return (True, t)" "station_inv t"
      "mac_map t = (mac_map (w_tab ad))(a := None)"
    using station_delete [OF inv i] env(2) by metis
  have n: "PEER_MSG3_RETRY_TIMER_CTR + 1 = 11" by (simp add: PEER_MSG3_RETRY_TIMER_CTR_def)
  let ?ad1 = "wpa_emit (WpaNotice (Addr (w_ent ad i)) IW_PAIRWISE_HS_TIMEOUT_EVENT_FLAG) (upd_sta i (\<lambda>s. s\<lparr>ReTryCounter := 11\<rparr>) ad)"
  let ?res = "wpa_emit (WpaDeauth a REASON_4_WAY_TIMEOUT) (wpa_emit (WpaNotice a IW_DEAUTH_EVENT_FLAG) (?ad1\<lparr>w_tab := t\<rparr>))"
  have "MlmeDeAuthAction env i REASON_4_WAY_TIMEOUT ?ad1 = r_return ?res"
    using env(1) c sl(2) t(1) by (simp add: MlmeDeAuthAction_def Let_def)
  then have run: "WPARetryExec env i ad = r_return ?res"
    using e unfolding WPARetryExec_def Let_def sent n
    by (auto simp: GROUP_MSG1_RETRY_TIMER_CTR_def PEER_MSG1_RETRY_TIMER_CTR_def wpa2_mode_def)
  show ?thesis
    by (intro exI [of _ ?res] conjI, rule run) (simp_all add: t)
qed

theorem lost_message3_removes_station_witness:
  "\<exists>ad ad1. mac_map (w_tab ad) [2, 0, 0, 0, 0, 9] = Some 1 \<and> WPARetryExec sample_env 1 ad = r_return ad1 \<and>
    mac_map (w_tab ad1) [2, 0, 0, 0, 0, 9] = None"
proof -
  let ?a = "[2, 0, 0, 0, 0, 9] :: bytes" and ?f = "\<lambda>e. e\<lparr>AuthMode := AuthModeWPA2PSK\<rparr>"
  let ?t = "upd_entry 1 ?f sample_busy_table"
  let ?ad = "(sample_wpa True)\<lparr>w_tab := ?t, w_Sta := [sample_wpa_sta, sample_wpa_sta\<lparr>ReTryCounter := PEER_MSG3_RETRY_TIMER_CTR\<rparr>]\<rparr>"
  note same = touch_ok [OF sample_busy_table_ok(1), of ?f 1]
  have m: "station_inv ?t" "mac_map ?t ?a = Some 1" using same sample_busy_table_ok(2) by (simp_all add: mac_key_def)
  have e: "EntryType (Content ?t ! 1) = ENTRY_CLIENT" "AuthMode (Content ?t ! 1) = AuthModeWPA2PSK" "mt_ap ?t"
    by (simp_all add: sample_busy_table_def sample_table_def MAX_LEN_OF_MAC_TABLE_def upd_entry_def)
  have "\<exists>ad1. WPARetryExec sample_env 1 ?ad = r_return ad1 \<and> mac_map (w_tab ad1) = (mac_map (w_tab ?ad))(?a := None) \<and>
      station_inv (w_tab ad1) \<and> eapol_frames (w_log ad1) = eapol_frames (w_log ?ad) \<and> last (w_log ad1) = WpaDeauth ?a REASON_4_WAY_TIMEOUT"
    by (rule lost_message3_removes_station) (use m e in \<open>simp_all add: wpa2_mode_def sample_env_def\<close>)
  then obtain ad1 where "WPARetryExec sample_env 1 ?ad = r_return ad1" "mac_map (w_tab ad1) = (mac_map (w_tab ?ad))(?a := None)" by blast
  then show ?thesis using m(2) by (intro exI [of _ ?ad] exI [of _ ad1]) simp
qed

end
