(* ===== verification/Michael.thy ===== *)
theory Michael
  imports Prelude
begin

text \<open>
  The Michael message integrity code of TKIP, \<^verbatim>\<open>common/cmm_tkip.c\<close>: the running state
  \<^verbatim>\<open>TKIP_KEY_INFO\<close> (\<^verbatim>\<open>include/rtmp.h\<close>), the byte-wise engine \<^verbatim>\<open>RTMPTkipSetMICKey\<close>,
  \<^verbatim>\<open>RTMPTkipAppendByte\<close>, \<^verbatim>\<open>RTMPTkipAppend\<close>, \<^verbatim>\<open>RTMPTkipGetMIC\<close>, and its two clients
  \<^verbatim>\<open>RTMPCalculateMICValue\<close> (transmit) and \<^verbatim>\<open>RTMPTkipCompareMICValue\<close> (receive). The driver keeps
  the state in \<^verbatim>\<open>ULONG\<close>s of 64 bits, with garbage in the upper halves; the lemmas show that the
  lower halves compute the 32-bit function of the standard.
\<close>

subsection \<open>The state\<close>

text \<open>
  The members of \<^verbatim>\<open>TKIP_KEY_INFO\<close> the engine uses; \<^verbatim>\<open>IV16\<close>, \<^verbatim>\<open>IV32\<close> and \<^verbatim>\<open>RC4KEY\<close> are not touched.
\<close>

record tkip_info =
  tk_nBytesInM :: u32
  tk_K0 :: ulong
  tk_K1 :: ulong
  tk_L :: ulong
  tk_R :: ulong
  tk_M :: ulong
  tk_MIC :: bytes

text \<open>
  A byte shifted as an \<^verbatim>\<open>int\<close> and then widened to \<^verbatim>\<open>ULONG\<close>: a byte of 0x80 or more in the top
  position sets the sign, and the widening copies it into the upper half.
\<close>

definition byte_shl :: "u8 \<Rightarrow> nat \<Rightarrow> ulong" where
  "byte_shl c n = scast (push_bit n (ucast c) :: u32)"

definition ROL32 :: "ulong \<Rightarrow> nat \<Rightarrow> ulong" where
  "ROL32 A n = push_bit n A OR (drop_bit (32 - n) A AND (push_bit n 1 - 1))"

definition ROR32 :: "ulong \<Rightarrow> nat \<Rightarrow> ulong" where
  "ROR32 A n = ROL32 A (32 - n)"

subsection \<open>Byte order\<close>

definition RTMPTkipGetUInt32 :: "bytes \<Rightarrow> ulong" where
  "RTMPTkipGetUInt32 pMICKey = foldl (\<lambda>res i. res OR byte_shl (pMICKey ! i) (8 * i)) 0 [0..<4]"

fun put_low_bytes :: "nat \<Rightarrow> ulong \<Rightarrow> bytes" where
  "put_low_bytes 0 val = []"
| "put_low_bytes (Suc n) val = ucast (val AND 0xff) # put_low_bytes n (drop_bit 8 val)"

definition RTMPTkipPutUInt32 :: "ulong \<Rightarrow> bytes" where
  "RTMPTkipPutUInt32 val = put_low_bytes 4 val"

subsection \<open>The engine\<close>

definition RTMPTkipSetMICKey :: "tkip_info \<Rightarrow> bytes \<Rightarrow> tkip_info" where
  "RTMPTkipSetMICKey pTkip pMICKey =
     (let k0 = RTMPTkipGetUInt32 pMICKey; k1 = RTMPTkipGetUInt32 (drop 4 pMICKey)
      in pTkip\<lparr>tk_K0 := k0, tk_K1 := k1, tk_L := k0, tk_R := k1, tk_nBytesInM := 0, tk_M := 0\<rparr>)"

text \<open>The exchange of the bytes inside the two halves of the lower word.\<close>

definition swap_halves :: "ulong \<Rightarrow> ulong" where
  "swap_halves x = drop_bit 8 (x AND 0xff00ff00) OR push_bit 8 (x AND 0x00ff00ff)"

text \<open>The block function: the statements that process a full word.\<close>

definition tkip_block :: "ulong \<Rightarrow> ulong \<Rightarrow> ulong \<Rightarrow> ulong \<times> ulong" where
  "tkip_block L0 R0 M0 =
     (let L1 = L0 XOR M0;
          R1 = R0 XOR ROL32 L1 17;
          L2 = L1 + R1;
          R2 = R1 XOR swap_halves L2;
          L3 = L2 + R2;
          R3 = R2 XOR ROL32 L3 3;
          L4 = L3 + R3;
          R4 = R3 XOR ROR32 L4 2;
          L5 = L4 + R4
      in (L5, R4))"

definition RTMPTkipAppendByte :: "tkip_info \<Rightarrow> u8 \<Rightarrow> tkip_info" where
  "RTMPTkipAppendByte pTkip uChar =
     (let m = tk_M pTkip OR byte_shl uChar (8 * unat (tk_nBytesInM pTkip));
          n = tk_nBytesInM pTkip + 1
      in if 4 \<le> n
         then let (l, r) = tkip_block (tk_L pTkip) (tk_R pTkip) m
              in pTkip\<lparr>tk_L := l, tk_R := r, tk_M := 0, tk_nBytesInM := 0\<rparr>
         else pTkip\<lparr>tk_M := m, tk_nBytesInM := n\<rparr>)"

fun RTMPTkipAppend :: "tkip_info \<Rightarrow> bytes \<Rightarrow> nat \<Rightarrow> c_fault + tkip_info" where
  "RTMPTkipAppend pTkip pSrc 0 = Inr pTkip"
| "RTMPTkipAppend pTkip [] (Suc nBytes) = Inl OOBRead"
| "RTMPTkipAppend pTkip (c # pSrc) (Suc nBytes) =
     RTMPTkipAppend (RTMPTkipAppendByte pTkip c) pSrc nBytes"

text \<open>The loop of \<^verbatim>\<open>RTMPTkipGetMIC\<close>: zeroes until the word is complete.\<close>

function tkip_fill :: "tkip_info \<Rightarrow> tkip_info" where
  "tkip_fill pTkip =
     (if tk_nBytesInM pTkip = 0 then pTkip else tkip_fill (RTMPTkipAppendByte pTkip 0))"
  by pat_completeness auto

lemma nBytesInM_AppendByte:
  "tk_nBytesInM (RTMPTkipAppendByte pTkip c) =
     (if 4 \<le> tk_nBytesInM pTkip + 1 then 0 else tk_nBytesInM pTkip + 1)"
  by (simp add: RTMPTkipAppendByte_def Let_def split: prod.split)

termination tkip_fill
proof (relation "measure (\<lambda>t. unat (- tk_nBytesInM t))", goal_cases)
  case (2 t)
  let ?n = "tk_nBytesInM t"
  have nz: "- ?n \<noteq> 0" using 2 by simp
  have "- (?n + 1) = - ?n - 1" by simp
  then have "unat (- (?n + 1)) = unat (- ?n) - 1" by (simp only: unat_minus_one [OF nz])
  moreover have "0 < unat (- ?n)" using nz by (simp add: unat_gt_0)
  ultimately show ?case by (simp add: nBytesInM_AppendByte)
qed simp

declare tkip_fill.simps [simp del]

definition RTMPTkipGetMIC :: "tkip_info \<Rightarrow> tkip_info" where
  "RTMPTkipGetMIC pTkip =
     (let t = tkip_fill (foldl RTMPTkipAppendByte pTkip [0x5a, 0, 0, 0, 0])
      in t\<lparr>tk_MIC := RTMPTkipPutUInt32 (tk_L t) @ RTMPTkipPutUInt32 (tk_R t)\<rparr>)"

subsection \<open>The clients\<close>

text \<open>\<^verbatim>\<open>(u8 *)&Priority\<close>: the low four bytes of a \<^verbatim>\<open>ULONG\<close> that holds one byte.\<close>

definition RTMPInitMICEngine :: "tkip_info \<Rightarrow> bytes \<Rightarrow> bytes \<Rightarrow> u8 \<Rightarrow> bytes \<Rightarrow> c_fault + tkip_info" where
  "RTMPInitMICEngine Tx pDA pSA UserPriority pMICKey =
     f_bind (RTMPTkipAppend (RTMPTkipSetMICKey Tx pMICKey) pDA 6) (\<lambda>t1.
     f_bind (RTMPTkipAppend t1 pSA 6) (\<lambda>t2.
     RTMPTkipAppend t2 [UserPriority, 0, 0, 0] 4))"

text \<open>
  The receive check works on \<^verbatim>\<open>PrivateInfo.Rx\<close>; the trailing code is copied out before the padding
  is appended.
\<close>

definition RTMPTkipCompareMICValue ::
    "tkip_info \<Rightarrow> bytes \<Rightarrow> bytes \<Rightarrow> bytes \<Rightarrow> bytes \<Rightarrow> u8 \<Rightarrow> nat \<Rightarrow> c_fault + bool \<times> tkip_info" where
  "RTMPTkipCompareMICValue Rx pSrc pDA pSA pMICKey UserPriority Len =
     f_bind (RTMPTkipAppend (RTMPTkipSetMICKey Rx pMICKey) pDA 6) (\<lambda>t1.
     f_bind (RTMPTkipAppend t1 pSA 6) (\<lambda>t2.
     f_bind (RTMPTkipAppend t2 [UserPriority, 0, 0, 0] 4) (\<lambda>t3.
     f_bind (RTMPTkipAppend t3 pSrc Len) (\<lambda>t4.
       if length pSrc < Len + 8 then Inl OOBRead
       else let OldMic = slice_at Len 8 pSrc; t5 = RTMPTkipGetMIC t4
            in Inr (tk_MIC t5 = OldMic, t5)))))"

text \<open>
  \<open>pSrc\<close> and \<open>SrcBufLen\<close> are the buffer and length of the \<^verbatim>\<open>sk_buff\<close>, \<open>UserPriority\<close> its priority.
  The subtraction of the header length wraps for a packet shorter than its header.
\<close>

definition RTMPCalculateMICValue ::
    "tkip_info \<Rightarrow> bytes \<Rightarrow> u32 \<Rightarrow> u8 \<Rightarrow> bytes option \<Rightarrow> bytes \<Rightarrow> c_fault + tkip_info" where
  "RTMPCalculateMICValue Tx pSrc SrcBufLen UserPriority pEncap TxMic =
     (if length pSrc < 14 then Inl OOBRead
      else
        let vlan_offset = (if pSrc ! 12 = 0x81 \<and> pSrc ! 13 = 0x00 then 4 else 0) in
        f_bind (RTMPInitMICEngine Tx pSrc (drop 6 pSrc) UserPriority TxMic) (\<lambda>t1.
        f_bind (case pEncap of
                  None \<Rightarrow> Inr t1
                | Some enc \<Rightarrow>
                    f_bind (RTMPTkipAppend t1 enc 6) (\<lambda>t2.
                    RTMPTkipAppend t2 (drop (12 + vlan_offset) pSrc) 2)) (\<lambda>t3.
        f_bind (RTMPTkipAppend t3 (drop (14 + vlan_offset) pSrc)
                  (unat (SrcBufLen - word_of_nat (14 + vlan_offset)))) (\<lambda>t4.
        Inr (RTMPTkipGetMIC t4)))))"

subsection \<open>The function of the standard\<close>

text \<open>
  IEEE 802.11, 11.4.2.3: 32-bit words, additions modulo \<open>2 ^ 32\<close>, a byte swap inside the two
  halves of a word; the message is closed by 0x5a and 4 to 7 zeroes.
\<close>

definition xswap :: "u32 \<Rightarrow> u32" where
  "xswap x = drop_bit 8 (x AND 0xff00ff00) OR push_bit 8 (x AND 0x00ff00ff)"

definition michael_block :: "u32 \<times> u32 \<Rightarrow> u32 \<Rightarrow> u32 \<times> u32" where
  "michael_block lr m =
     (let l0 = fst lr XOR m;
          r1 = snd lr XOR word_rotl 17 l0; l1 = l0 + r1;
          r2 = r1 XOR xswap l1; l2 = l1 + r2;
          r3 = r2 XOR word_rotl 3 l2; l3 = l2 + r3;
          r4 = r3 XOR word_rotr 2 l3
      in (l3 + r4, r4))"

fun michael_blocks :: "u32 \<times> u32 \<Rightarrow> bytes \<Rightarrow> u32 \<times> u32" where
  "michael_blocks s (a # b # c # d # bs) = michael_blocks (michael_block s (le32_word [a, b, c, d])) bs"
| "michael_blocks s bs = s"

definition michael :: "bytes \<Rightarrow> bytes \<Rightarrow> bytes" where
  "michael key msg =
     (let s = michael_blocks (le32_word (take 4 key), le32_word (drop 4 key))
                (msg @ 0x5a # replicate (7 - length msg mod 4) 0)
      in le32_bytes (fst s) @ le32_bytes (snd s))"

subsection \<open>The lower halves\<close>

text \<open>The part of a \<^verbatim>\<open>ULONG\<close> that counts.\<close>

definition lo32 :: "ulong \<Rightarrow> u32" where
  "lo32 x = ucast x"

lemma bit_lo32: "bit (lo32 x) n \<longleftrightarrow> n < 32 \<and> bit x n"
  by (auto simp: lo32_def bit_simps)

lemma lo32_xor [simp]: "lo32 (x XOR y) = lo32 x XOR lo32 y"
  by (rule bit_word_eqI) (simp add: bit_lo32 bit_simps)

lemma lo32_or [simp]: "lo32 (x OR y) = lo32 x OR lo32 y"
  by (rule bit_word_eqI) (simp add: bit_lo32 bit_simps)

lemma lo32_0 [simp]: "lo32 0 = 0"
  by (simp add: lo32_def)

lemma ucast_add_down:
  fixes x y :: "'a::len word"
  assumes "LENGTH('b) \<le> LENGTH('a)"
  shows "(ucast (x + y) :: 'b::len word) = ucast x + ucast y"
proof -
  have "take_bit LENGTH('b) (take_bit LENGTH('a) (uint x + uint y)) =
      take_bit LENGTH('b) (uint x + uint y)"
    using assms by simp
  then have "word_of_int (take_bit LENGTH('a) (uint x + uint y)) =
      (word_of_int (uint x + uint y) :: 'b word)"
    by (simp only: word_of_int_eq_iff)
  moreover have "uint (x + y) = take_bit LENGTH('a) (uint x + uint y)"
    by (simp only: uint_word_ariths take_bit_eq_mod)
  ultimately show ?thesis by (simp only: ucast_eq of_int_add)
qed

lemma lo32_add [simp]: "lo32 (x + y) = lo32 x + lo32 y"
  by (simp add: lo32_def ucast_add_down)

lemma lo32_byte_shl [simp]: "lo32 (byte_shl c n) = push_bit n (ucast c)"
  by (rule bit_word_eqI) (auto simp: bit_lo32 byte_shl_def bit_simps)

lemma lo32_shift_masked:
  assumes "take_bit 32 c = c"
  shows "lo32 (drop_bit n (x AND c)) = drop_bit n (lo32 x AND lo32 c)"
proof (rule bit_word_eqI)
  fix k assume "k < LENGTH(32)"
  moreover have "bit c (n + k) \<Longrightarrow> n + k < 32"
    using assms by (metis bit_take_bit_iff)
  ultimately show "bit (lo32 (drop_bit n (x AND c))) k = bit (drop_bit n (lo32 x AND lo32 c)) k"
    by (auto simp: bit_lo32 bit_simps)
qed

lemma lo32_push: "lo32 (push_bit n x) = push_bit n (lo32 x)"
  by (rule bit_word_eqI) (auto simp: bit_lo32 bit_simps)

lemma lo32_and: "lo32 (x AND y) = lo32 x AND lo32 y"
  by (rule bit_word_eqI) (simp add: bit_lo32 bit_simps)

lemma lo32_swap [simp]: "lo32 (swap_halves x) = xswap (lo32 x)"
proof -
  have c: "take_bit 32 (0xff00ff00 :: ulong) = 0xff00ff00"
      "lo32 0xff00ff00 = 0xff00ff00" "lo32 0x00ff00ff = 0x00ff00ff"
    by (simp_all add: lo32_def)
  show ?thesis
    by (simp only: swap_halves_def lo32_or lo32_shift_masked [OF c(1)] lo32_push lo32_and c(2,3) xswap_def)
qed

lemma lo32_ROL32: "0 < n \<Longrightarrow> n < 32 \<Longrightarrow> lo32 (ROL32 x n) = word_rotl n (lo32 x)"
proof (rule bit_word_eqI)
  fix k
  assume n: "0 < n" "n < 32" and k: "k < LENGTH(32)"
  have m: "(push_bit n 1 - 1 :: ulong) = mask n" by (simp add: mask_eq_exp_minus_1)
  have idx: "(k + 32 - n) mod 32 = (if k < n then 32 + k - n else k - n)"
    using n k by (auto simp: mod_if)
  have "bit (word_rotl n (lo32 x)) k = bit x (if k < n then 32 + k - n else k - n)"
    using n k idx by (auto simp: bit_word_rotl_iff bit_lo32)
  then show "bit (lo32 (ROL32 x n)) k = bit (word_rotl n (lo32 x)) k"
    using n k by (simp only: bit_lo32 ROL32_def m) (auto simp: bit_simps)
qed

lemma lo32_ROR32: "0 < n \<Longrightarrow> n < 32 \<Longrightarrow> lo32 (ROR32 x n) = word_rotr n (lo32 x)"
proof (rule bit_word_eqI)
  fix k
  assume n: "0 < n" "n < 32" and k: "k < LENGTH(32)"
  have "(k + n) mod 32 = (k + (32 - (32 - n))) mod 32" using n by simp
  then show "bit (lo32 (ROR32 x n)) k = bit (word_rotr n (lo32 x)) k"
    using n k by (simp add: ROR32_def lo32_ROL32 bit_word_rotl_iff bit_word_rotr_iff)
qed

lemma lo32_block:
  assumes "tkip_block L R M = (l, r)"
  shows "(lo32 l, lo32 r) = michael_block (lo32 L, lo32 R) (lo32 M)"
  using assms
  by (auto simp: tkip_block_def michael_block_def Let_def lo32_ROL32 lo32_ROR32)

subsection \<open>The state represents the message so far\<close>

text \<open>The bytes after the last complete word, and the value of an incomplete word.\<close>

fun rest4 :: "bytes \<Rightarrow> bytes" where
  "rest4 (a # b # c # d # bs) = rest4 bs"
| "rest4 bs = bs"

definition le_part :: "bytes \<Rightarrow> u32" where
  "le_part bs = foldl (\<lambda>w i. w OR push_bit (8 * i) (ucast (bs ! i))) 0 [0..<length bs]"

lemma length_rest4: "length (rest4 bs) = length bs mod 4"
  by (induction bs rule: rest4.induct) simp_all

lemma le_part_Nil [simp]: "le_part [] = 0"
  by (simp add: le_part_def)

lemma le_part_snoc: "le_part (bs @ [c]) = le_part bs OR push_bit (8 * length bs) (ucast c)"
proof -
  have "foldl (\<lambda>w i. w OR push_bit (8 * i) (ucast ((bs @ [c]) ! i))) 0 [0..<length bs] = le_part bs"
    unfolding le_part_def by (rule foldl_cong) (simp_all add: nth_append)
  then show ?thesis by (simp add: le_part_def)
qed

lemma le_part_1 [simp]: "le_part [c] = ucast c"
  using le_part_snoc [of "[]" c] by simp

lemma upt_0_4: "[0..<4] = [0, 1, 2, 3]"
  by (simp add: upt_rec numeral_eq_Suc)

lemma le_part_word: "length bs = 4 \<Longrightarrow> le_part bs = le32_word bs"
  by (simp add: le_part_def le32_word_def upt_0_4 or.assoc del: upt_rec_numeral)

lemma rest4_snoc:
  "rest4 (bs @ [c]) = (if length (rest4 bs) = 3 then [] else rest4 bs @ [c]) \<and>
   michael_blocks s (bs @ [c]) =
     (if length (rest4 bs) = 3 then michael_block (michael_blocks s bs) (le_part (rest4 bs @ [c]))
      else michael_blocks s bs)"
  by (induction bs arbitrary: s rule: rest4.induct) (simp_all add: le_part_word)

definition mic_rep :: "u32 \<times> u32 \<Rightarrow> tkip_info \<Rightarrow> bytes \<Rightarrow> bool" where
  "mic_rep key t msg \<longleftrightarrow>
     (lo32 (tk_L t), lo32 (tk_R t)) = michael_blocks key msg \<and>
     lo32 (tk_M t) = le_part (rest4 msg) \<and> tk_nBytesInM t = word_of_nat (length (rest4 msg))"

lemma small_word_eq_0: "n < 4 \<Longrightarrow> (word_of_nat n :: u32) = 0 \<longleftrightarrow> n = 0"
  by (cases "n = 0") (auto simp: word_of_nat_eq_0_iff dest: dvd_imp_le)

lemma not_4_le: "\<not> (4 :: u32) \<le> 1" "\<not> (4 :: u32) \<le> 2" "\<not> (4 :: u32) \<le> 3"
  by (simp_all add: word_le_nat_alt)

lemma mic_rep_snoc:
  assumes "mic_rep key t msg"
  shows "mic_rep key (RTMPTkipAppendByte t c) (msg @ [c])"
proof -
  have lt: "length (rest4 msg) < 4" by (simp add: length_rest4)
  then have "length (rest4 msg) = 0 \<or> length (rest4 msg) = 1 \<or> length (rest4 msg) = 2 \<or>
      length (rest4 msg) = 3" by linarith
  then consider "length (rest4 msg) = 0" | "length (rest4 msg) = 1" | "length (rest4 msg) = 2"
    | "length (rest4 msg) = 3" by blast
  moreover have n: "tk_nBytesInM t = word_of_nat (length (rest4 msg))"
    and m: "lo32 (tk_M t) = le_part (rest4 msg)"
    and lr: "(lo32 (tk_L t), lo32 (tk_R t)) = michael_blocks key msg"
    using assms by (simp_all add: mic_rep_def)
  ultimately show ?thesis
  proof cases
    case 4
    then have "tk_nBytesInM t = 3" using n by simp
    moreover obtain l r where lr': "tkip_block (tk_L t) (tk_R t) (tk_M t OR byte_shl c 24) = (l, r)"
      by (cases "tkip_block (tk_L t) (tk_R t) (tk_M t OR byte_shl c 24)") auto
    moreover have "(lo32 l, lo32 r) =
        michael_block (michael_blocks key msg) (le_part (rest4 msg @ [c]))"
      using lo32_block [OF lr'] lr m 4 by (simp add: le_part_snoc)
    ultimately show ?thesis
      using 4 by (simp add: mic_rep_def RTMPTkipAppendByte_def rest4_snoc)
  qed (use m lr n in \<open>simp_all add: mic_rep_def RTMPTkipAppendByte_def rest4_snoc le_part_snoc Let_def not_4_le\<close>)
qed

lemma mic_rep_foldl: "mic_rep key t msg \<Longrightarrow> mic_rep key (foldl RTMPTkipAppendByte t xs) (msg @ xs)"
proof (induction xs arbitrary: t msg)
  case (Cons x xs)
  show ?case using Cons.IH [OF mic_rep_snoc [OF Cons.prems]] by simp
qed simp

lemma RTMPTkipAppend_foldl:
  "RTMPTkipAppend t xs n =
     (if n \<le> length xs then Inr (foldl RTMPTkipAppendByte t (take n xs)) else Inl OOBRead)"
  by (induction t xs n rule: RTMPTkipAppend.induct) simp_all

lemma RTMPTkipAppend_rep:
  assumes "mic_rep key t msg" "n \<le> length xs"
  obtains t' where "RTMPTkipAppend t xs n = Inr t'" "mic_rep key t' (msg @ take n xs)"
  using mic_rep_foldl [OF assms(1)] assms(2) by (simp add: RTMPTkipAppend_foldl)

subsection \<open>Setting the key, closing the message\<close>

definition mic_key :: "bytes \<Rightarrow> u32 \<times> u32" where
  "mic_key key = (le32_word (take 4 key), le32_word (drop 4 key))"

lemma lo32_GetUInt32: "lo32 (RTMPTkipGetUInt32 bs) = le32_word bs"
  by (simp add: RTMPTkipGetUInt32_def upt_0_4 le32_word_def or.assoc del: upt_rec_numeral)

lemma mic_rep_SetMICKey: "4 \<le> length key \<Longrightarrow> mic_rep (mic_key key) (RTMPTkipSetMICKey t key) []"
  by (simp add: mic_rep_def RTMPTkipSetMICKey_def Let_def lo32_GetUInt32 mic_key_def le32_word_def)

lemma put_low_bytes_lo32: "RTMPTkipPutUInt32 x = le32_bytes (lo32 x)"
  by (simp add: RTMPTkipPutUInt32_def eval_nat_numeral le32_bytes_def and_ff_take_bit)
    (intro conjI bit_word_eqI; auto simp: bit_simps bit_lo32)

lemma mic_rep_fill:
  "mic_rep key t msg \<Longrightarrow>
   mic_rep key (tkip_fill t) (msg @ replicate ((4 - length msg mod 4) mod 4) 0)"
proof (induction t arbitrary: msg rule: tkip_fill.induct)
  case (1 t)
  have lt: "length msg mod 4 < 4" by simp
  have n: "tk_nBytesInM t = word_of_nat (length msg mod 4)"
    using 1(2) by (simp add: mic_rep_def length_rest4)
  then have zero: "tk_nBytesInM t = 0 \<longleftrightarrow> length msg mod 4 = 0"
    by (simp only: small_word_eq_0 [OF lt])
  show ?case
  proof (cases "length msg mod 4 = 0")
    case True
    with 1(2) zero show ?thesis by (simp add: tkip_fill.simps)
  next
    case False
    define k where "k = (4 - length (msg @ [0 :: u8]) mod 4) mod 4"
    have k: "(4 - length msg mod 4) mod 4 = Suc k"
      using False by (simp add: k_def mod_Suc) arith
    have "mic_rep key (tkip_fill (RTMPTkipAppendByte t 0)) ((msg @ [0]) @ replicate k 0)"
      unfolding k_def using False zero by (intro 1(1) mic_rep_snoc [OF 1(2)]) simp
    with False zero show ?thesis by (simp add: tkip_fill.simps [of t] k)
  qed
qed

lemma RTMPTkipGetMIC_is_michael:
  assumes "mic_rep (mic_key key) t msg"
  shows "tk_MIC (RTMPTkipGetMIC t) = michael key msg"
proof -
  let ?t = "foldl RTMPTkipAppendByte t [0x5a, 0, 0, 0, 0]"
  let ?m = "msg @ [0x5a, 0, 0, 0, 0]"
  have pad: "?m @ replicate ((4 - length ?m mod 4) mod 4) 0 =
      msg @ 0x5a # replicate (7 - length msg mod 4) 0"
  proof -
    have "7 - length msg mod 4 = 4 + (4 - length ?m mod 4) mod 4"
      by (simp add: mod_Suc) arith
    moreover have "replicate 4 (0 :: u8) = [0, 0, 0, 0]" by (simp add: numeral_eq_Suc)
    ultimately have "replicate (7 - length msg mod 4) 0 =
        [0, 0, 0, 0] @ replicate ((4 - length ?m mod 4) mod 4) (0 :: u8)"
      by (simp only: replicate_add)
    then show ?thesis by (simp only: append_assoc append_Cons append_Nil)
  qed
  have "mic_rep (mic_key key) (tkip_fill ?t) (?m @ replicate ((4 - length ?m mod 4) mod 4) 0)"
    by (intro mic_rep_fill mic_rep_foldl assms)
  then have "(lo32 (tk_L (tkip_fill ?t)), lo32 (tk_R (tkip_fill ?t))) =
      michael_blocks (mic_key key) (msg @ 0x5a # replicate (7 - length msg mod 4) 0)"
    unfolding pad by (simp add: mic_rep_def)
  from this [symmetric] show ?thesis
    by (simp add: RTMPTkipGetMIC_def Let_def michael_def mic_key_def put_low_bytes_lo32)
qed

subsection \<open>The clients compute the function\<close>

definition mic_header :: "bytes \<Rightarrow> bytes \<Rightarrow> u8 \<Rightarrow> bytes" where
  "mic_header da sa prio = da @ sa @ [prio, 0, 0, 0]"

lemma RTMPInitMICEngine_rep:
  assumes "8 \<le> length key" "6 \<le> length da" "6 \<le> length sa"
  obtains t where "RTMPInitMICEngine Tx da sa prio key = Inr t"
    "mic_rep (mic_key key) t (mic_header (take 6 da) (take 6 sa) prio)"
proof -
  have "mic_rep (mic_key key) (RTMPTkipSetMICKey Tx key) []"
    using assms(1) by (intro mic_rep_SetMICKey) simp
  then obtain t1 where t1: "RTMPTkipAppend (RTMPTkipSetMICKey Tx key) da 6 = Inr t1"
      "mic_rep (mic_key key) t1 ([] @ take 6 da)"
    using assms(2) by (rule RTMPTkipAppend_rep)
  from t1(2) assms(3) obtain t2 where t2: "RTMPTkipAppend t1 sa 6 = Inr t2"
      "mic_rep (mic_key key) t2 (([] @ take 6 da) @ take 6 sa)"
    by (rule RTMPTkipAppend_rep)
  have "4 \<le> length [prio, 0, 0, 0]" by simp
  with t2(2) obtain t3 where t3: "RTMPTkipAppend t2 [prio, 0, 0, 0] 4 = Inr t3"
      "mic_rep (mic_key key) t3 ((([] @ take 6 da) @ take 6 sa) @ take 4 [prio, 0, 0, 0])"
    by (rule RTMPTkipAppend_rep)
  show thesis
    using t1(1) t2(1) t3
    by (intro that [of t3]) (simp_all add: RTMPInitMICEngine_def mic_header_def)
qed

lemma RTMPTkipCompareMICValue_eq:
  "RTMPTkipCompareMICValue Rx pSrc pDA pSA pMICKey UserPriority Len =
     f_bind (RTMPInitMICEngine Rx pDA pSA UserPriority pMICKey) (\<lambda>t3.
     f_bind (RTMPTkipAppend t3 pSrc Len) (\<lambda>t4.
       if length pSrc < Len + 8 then Inl OOBRead
       else Inr (tk_MIC (RTMPTkipGetMIC t4) = slice_at Len 8 pSrc, RTMPTkipGetMIC t4)))"
  by (simp add: RTMPTkipCompareMICValue_def RTMPInitMICEngine_def f_bind_def Let_def split: sum.split)

lemma RTMPTkipCompareMICValue_iff:
  assumes "8 \<le> length key" "6 \<le> length da" "6 \<le> length sa" "Len + 8 \<le> length pSrc"
  shows "\<exists>r. RTMPTkipCompareMICValue Rx pSrc da sa key prio Len =
    Inr (slice_at Len 8 pSrc = michael key (mic_header (take 6 da) (take 6 sa) prio @ take Len pSrc), r)"
proof -
  obtain t where t: "RTMPInitMICEngine Rx da sa prio key = Inr t"
      "mic_rep (mic_key key) t (mic_header (take 6 da) (take 6 sa) prio)"
    using assms(1-3) by (rule RTMPInitMICEngine_rep)
  have "Len \<le> length pSrc" using assms(4) by simp
  with t(2) obtain t' where "RTMPTkipAppend t pSrc Len = Inr t'"
      "mic_rep (mic_key key) t' (mic_header (take 6 da) (take 6 sa) prio @ take Len pSrc)"
    by (rule RTMPTkipAppend_rep)
  with t(1) assms(4) show ?thesis
    by (auto simp: RTMPTkipCompareMICValue_eq RTMPTkipGetMIC_is_michael)
qed

text \<open>An Ethernet frame: two addresses, an optional VLAN tag, the type and the payload.\<close>

definition eth_frame :: "bytes \<Rightarrow> bytes \<Rightarrow> bytes \<Rightarrow> bytes \<Rightarrow> bytes \<Rightarrow> bytes" where
  "eth_frame da sa tag ty payload = da @ sa @ tag @ ty @ payload"

definition eth_frame_ok :: "bytes \<Rightarrow> bytes \<Rightarrow> bytes \<Rightarrow> bytes \<Rightarrow> bytes \<Rightarrow> bool" where
  "eth_frame_ok da sa tag ty payload \<longleftrightarrow> length da = 6 \<and> length sa = 6 \<and> length ty = 2 \<and>
     length payload < 2 ^ 16 \<and>
     (if tag = [] then ty \<noteq> [0x81, 0x00] else length tag = 4 \<and> take 2 tag = [0x81, 0x00])"

text \<open>The MSDU of the frame: behind the LLC header the type goes with the payload.\<close>

definition msdu :: "bytes option \<Rightarrow> bytes \<Rightarrow> bytes \<Rightarrow> bytes" where
  "msdu enc ty payload = (case enc of None \<Rightarrow> payload | Some e \<Rightarrow> e @ ty @ payload)"

lemma RTMPCalculateMICValue_eq:
  assumes fr: "eth_frame_ok da sa tag ty payload" and key: "8 \<le> length key"
    and enc: "case enc of None \<Rightarrow> True | Some e \<Rightarrow> length e = 6"
  defines "pkt \<equiv> eth_frame da sa tag ty payload"
  shows "\<exists>t. RTMPCalculateMICValue Tx pkt (word_of_nat (length pkt)) prio enc key = Inr t \<and>
    tk_MIC t = michael key (mic_header da sa prio @ msdu enc ty payload)"
proof -
  let ?v = "if pkt ! 12 = 0x81 \<and> pkt ! 13 = 0x00 then 4 else 0 :: nat"
  have len: "length da = 6" "length sa = 6" "length ty = 2" using fr by (simp_all add: eth_frame_ok_def)
  have "drop 12 pkt = tag @ ty @ payload" "12 \<le> length pkt"
    using len by (simp_all add: pkt_def eth_frame_def)
  then have at: "pkt ! 12 = (tag @ ty @ payload) ! 0" "pkt ! 13 = (tag @ ty @ payload) ! 1"
    using nth_drop [of 12 pkt 0] nth_drop [of 12 pkt 1] by simp_all
  have v: "?v = length tag"
  proof (cases "tag = []")
    case True
    with fr obtain a b where "ty = [a, b]" "\<not> (a = 0x81 \<and> b = 0)"
      by (auto simp: eth_frame_ok_def numeral_2_eq_2 length_Suc_conv)
    with True at show ?thesis by simp
  next
    case False
    with fr have "length tag = 4" "take 2 tag = [0x81, 0]" by (simp_all add: eth_frame_ok_def)
    then obtain c d where "tag = [0x81, 0, c, d]"
      by (auto simp: numeral_eq_Suc length_Suc_conv)
    with at show ?thesis by simp
  qed
  have d: "drop (12 + length tag) pkt = ty @ payload" "drop (14 + length tag) pkt = payload"
      "take 6 pkt = da" "take 6 (drop 6 pkt) = sa" "14 \<le> length pkt"
      "length pkt = length payload + (14 + length tag)"
    using len by (simp_all add: pkt_def eth_frame_def)
  have n: "unat (word_of_nat (length pkt) - word_of_nat (14 + length tag) :: u32) = length payload"
  proof -
    have "(word_of_nat (length pkt) :: u32) - word_of_nat (14 + length tag) = word_of_nat (length payload)"
      unfolding d(6) of_nat_add by simp
    then show ?thesis
      using fr by (simp add: eth_frame_ok_def unsigned_of_nat take_bit_nat_eq_self)
  qed
  have l: "6 \<le> length pkt" "6 \<le> length (drop 6 pkt)" using d(5) by simp_all
  obtain t1 where t1: "RTMPInitMICEngine Tx pkt (drop 6 pkt) prio key = Inr t1"
      "mic_rep (mic_key key) t1 (mic_header da sa prio)"
    using RTMPInitMICEngine_rep [OF key l, of Tx prio] d(3,4) by metis
  let ?llc = "case enc of None \<Rightarrow> Inr t1
      | Some e \<Rightarrow> f_bind (RTMPTkipAppend t1 e 6) (\<lambda>t2. RTMPTkipAppend t2 (ty @ payload) 2)"
  obtain t3 where t3: "?llc = Inr t3"
      "mic_rep (mic_key key) t3 (mic_header da sa prio @ (case enc of None \<Rightarrow> [] | Some e \<Rightarrow> e @ ty))"
    using t1(2) enc len(3)
    using mic_rep_foldl [OF t1(2), of "case enc of None \<Rightarrow> [] | Some e \<Rightarrow> e @ ty"]
    by (cases enc) (auto simp: RTMPTkipAppend_foldl)
  have t4: "mic_rep (mic_key key) (foldl RTMPTkipAppendByte t3 payload)
      (mic_header da sa prio @ msdu enc ty payload)"
    using mic_rep_foldl [OF t3(2), of payload] by (cases enc) (simp_all add: msdu_def)
  have nlt: "(length pkt < 14) = False" using d(5) by simp
  have app: "RTMPTkipAppend t3 payload (length payload) = Inr (foldl RTMPTkipAppendByte t3 payload)"
    by (simp add: RTMPTkipAppend_foldl)
  have "RTMPCalculateMICValue Tx pkt (word_of_nat (length pkt)) prio enc key =
      Inr (RTMPTkipGetMIC (foldl RTMPTkipAppendByte t3 payload))"
    by (simp only: RTMPCalculateMICValue_def v Let_def d(1-4) n nlt t1(1) f_bind_simps t3(1) app
        if_False)
  then show ?thesis using RTMPTkipGetMIC_is_michael [OF t4] by blast
qed

subsection \<open>Properties\<close>

text \<open>C15: whatever the two running states hold, the MIC that \<^verbatim>\<open>RTMPCalculateMICValue\<close> leaves for an
  Ethernet frame (with or without a VLAN tag, with or without an LLC header) is the Michael code of
  the standard, computed on 32-bit words, of addresses, priority and MSDU; and
  \<^verbatim>\<open>RTMPTkipCompareMICValue\<close> with the same key accepts the MSDU with exactly those eight bytes
  behind it.\<close>

theorem michael_transmit_receive:
  assumes "eth_frame_ok da sa tag ty payload" "8 \<le> length key"
    and "case enc of None \<Rightarrow> True | Some e \<Rightarrow> length e = 6"
  shows "\<exists>t. RTMPCalculateMICValue Tx (eth_frame da sa tag ty payload)
        (word_of_nat (length (eth_frame da sa tag ty payload))) prio enc key = Inr t \<and>
      tk_MIC t = michael key (mic_header da sa prio @ msdu enc ty payload) \<and>
      (\<forall>mic tail. length mic = 8 \<longrightarrow>
        (\<exists>r. RTMPTkipCompareMICValue Rx (msdu enc ty payload @ mic @ tail) da sa key prio
           (length (msdu enc ty payload)) = Inr (mic = tk_MIC t, r)))"
proof -
  obtain t where t: "RTMPCalculateMICValue Tx (eth_frame da sa tag ty payload)
        (word_of_nat (length (eth_frame da sa tag ty payload))) prio enc key = Inr t"
      "tk_MIC t = michael key (mic_header da sa prio @ msdu enc ty payload)"
    using RTMPCalculateMICValue_eq [OF assms] by blast
  have "\<exists>r. RTMPTkipCompareMICValue Rx (msdu enc ty payload @ mic @ tail) da sa key prio
           (length (msdu enc ty payload)) = Inr (mic = tk_MIC t, r)" if "length mic = 8" for mic tail
    using RTMPTkipCompareMICValue_iff [OF assms(2), of da sa "length (msdu enc ty payload)"
        "msdu enc ty payload @ mic @ tail" Rx prio] assms(1) that
    by (simp add: eth_frame_ok_def slice_at_def t(2))
  with t show ?thesis by blast
qed

lemma michael_transmit_receive_witness:
  "\<exists>t. RTMPCalculateMICValue
        \<lparr>tk_nBytesInM = 3, tk_K0 = 1, tk_K1 = 2, tk_L = 3, tk_R = 4, tk_M = 5, tk_MIC = []\<rparr>
        (eth_frame [2, 0, 0, 0, 0, 1] [2, 0, 0, 0, 0, 2] [] [8, 0] [0xff, 0xfe, 0xfd, 0xfc, 0x81])
        (word_of_nat (length
          (eth_frame [2, 0, 0, 0, 0, 1] [2, 0, 0, 0, 0, 2] [] [8, 0] [0xff, 0xfe, 0xfd, 0xfc, 0x81])))
        0 (Some [0xaa, 0xaa, 3, 0, 0, 0]) (replicate 8 0xf7) = Inr t \<and>
      tk_MIC t = michael (replicate 8 0xf7) (mic_header [2, 0, 0, 0, 0, 1] [2, 0, 0, 0, 0, 2] 0 @
        msdu (Some [0xaa, 0xaa, 3, 0, 0, 0]) [8, 0] [0xff, 0xfe, 0xfd, 0xfc, 0x81]) \<and>
      (\<forall>mic tail. length mic = 8 \<longrightarrow>
        (\<exists>r. RTMPTkipCompareMICValue
           \<lparr>tk_nBytesInM = 0, tk_K0 = 0, tk_K1 = 0, tk_L = 0, tk_R = 0, tk_M = 0, tk_MIC = []\<rparr>
           (msdu (Some [0xaa, 0xaa, 3, 0, 0, 0]) [8, 0] [0xff, 0xfe, 0xfd, 0xfc, 0x81] @ mic @ tail)
           [2, 0, 0, 0, 0, 1] [2, 0, 0, 0, 0, 2] (replicate 8 0xf7) 0
           (length (msdu (Some [0xaa, 0xaa, 3, 0, 0, 0]) [8, 0] [0xff, 0xfe, 0xfd, 0xfc, 0x81])) =
         Inr (mic = tk_MIC t, r)))"
  by (rule michael_transmit_receive) (simp_all add: eth_frame_ok_def)

text \<open>The test vector of the standard for the empty message and the zero key.\<close>

lemma michael_test_vector:
  "michael (replicate 8 0) [] = [0x82, 0x92, 0x5c, 0x1c, 0xa1, 0xd1, 0x30, 0xb8]"
  by code_simp

end
