(* ===== verification/Tkip.thy ===== *)
theory Tkip
  imports Michael Wep Aes
begin

text \<open>
  TKIP of \<^verbatim>\<open>common/cmm_tkip.c\<close>: the S-box \<^verbatim>\<open>tkip_sbox\<close> over its two tables, the rotation
  \<^verbatim>\<open>rotr1\<close>, the key mixing \<^verbatim>\<open>RTMPTkipMixKey\<close> on 32-bit variables, and \<^verbatim>\<open>RTMPSoftDecryptTKIP\<close>,
  which opens a protected frame in place. The mixing is proved equal to the two phases of the
  standard on 16-bit words, and the S-box to be made of the S-box of AES; the decryption accepts
  exactly the frames sealed with the mixed key, the ICV and the Michael code, although its return
  value never says so.
\<close>

subsection \<open>The tables\<close>

definition Tkip_Sbox_Lower :: "u32 list" where
  "Tkip_Sbox_Lower =
    [0xa5, 0x84, 0x99, 0x8d, 0x0d, 0xbd, 0xb1, 0x54, 0x50, 0x03, 0xa9, 0x7d, 0x19, 0x62, 0xe6, 0x9a,
     0x45, 0x9d, 0x40, 0x87, 0x15, 0xeb, 0xc9, 0x0b, 0xec, 0x67, 0xfd, 0xea, 0xbf, 0xf7, 0x96, 0x5b,
     0xc2, 0x1c, 0xae, 0x6a, 0x5a, 0x41, 0x02, 0x4f, 0x5c, 0xf4, 0x34, 0x08, 0x93, 0x73, 0x53, 0x3f,
     0x0c, 0x52, 0x65, 0x5e, 0x28, 0xa1, 0x0f, 0xb5, 0x09, 0x36, 0x9b, 0x3d, 0x26, 0x69, 0xcd, 0x9f,
     0x1b, 0x9e, 0x74, 0x2e, 0x2d, 0xb2, 0xee, 0xfb, 0xf6, 0x4d, 0x61, 0xce, 0x7b, 0x3e, 0x71, 0x97,
     0xf5, 0x68, 0x00, 0x2c, 0x60, 0x1f, 0xc8, 0xed, 0xbe, 0x46, 0xd9, 0x4b, 0xde, 0xd4, 0xe8, 0x4a,
     0x6b, 0x2a, 0xe5, 0x16, 0xc5, 0xd7, 0x55, 0x94, 0xcf, 0x10, 0x06, 0x81, 0xf0, 0x44, 0xba, 0xe3,
     0xf3, 0xfe, 0xc0, 0x8a, 0xad, 0xbc, 0x48, 0x04, 0xdf, 0xc1, 0x75, 0x63, 0x30, 0x1a, 0x0e, 0x6d,
     0x4c, 0x14, 0x35, 0x2f, 0xe1, 0xa2, 0xcc, 0x39, 0x57, 0xf2, 0x82, 0x47, 0xac, 0xe7, 0x2b, 0x95,
     0xa0, 0x98, 0xd1, 0x7f, 0x66, 0x7e, 0xab, 0x83, 0xca, 0x29, 0xd3, 0x3c, 0x79, 0xe2, 0x1d, 0x76,
     0x3b, 0x56, 0x4e, 0x1e, 0xdb, 0x0a, 0x6c, 0xe4, 0x5d, 0x6e, 0xef, 0xa6, 0xa8, 0xa4, 0x37, 0x8b,
     0x32, 0x43, 0x59, 0xb7, 0x8c, 0x64, 0xd2, 0xe0, 0xb4, 0xfa, 0x07, 0x25, 0xaf, 0x8e, 0xe9, 0x18,
     0xd5, 0x88, 0x6f, 0x72, 0x24, 0xf1, 0xc7, 0x51, 0x23, 0x7c, 0x9c, 0x21, 0xdd, 0xdc, 0x86, 0x85,
     0x90, 0x42, 0xc4, 0xaa, 0xd8, 0x05, 0x01, 0x12, 0xa3, 0x5f, 0xf9, 0xd0, 0x91, 0x58, 0x27, 0xb9,
     0x38, 0x13, 0xb3, 0x33, 0xbb, 0x70, 0x89, 0xa7, 0xb6, 0x22, 0x92, 0x20, 0x49, 0xff, 0x78, 0x7a,
     0x8f, 0xf8, 0x80, 0x17, 0xda, 0x31, 0xc6, 0xb8, 0xc3, 0xb0, 0x77, 0x11, 0xcb, 0xfc, 0xd6, 0x3a]"

definition Tkip_Sbox_Upper :: "u32 list" where
  "Tkip_Sbox_Upper =
    [0xc6, 0xf8, 0xee, 0xf6, 0xff, 0xd6, 0xde, 0x91, 0x60, 0x02, 0xce, 0x56, 0xe7, 0xb5, 0x4d, 0xec,
     0x8f, 0x1f, 0x89, 0xfa, 0xef, 0xb2, 0x8e, 0xfb, 0x41, 0xb3, 0x5f, 0x45, 0x23, 0x53, 0xe4, 0x9b,
     0x75, 0xe1, 0x3d, 0x4c, 0x6c, 0x7e, 0xf5, 0x83, 0x68, 0x51, 0xd1, 0xf9, 0xe2, 0xab, 0x62, 0x2a,
     0x08, 0x95, 0x46, 0x9d, 0x30, 0x37, 0x0a, 0x2f, 0x0e, 0x24, 0x1b, 0xdf, 0xcd, 0x4e, 0x7f, 0xea,
     0x12, 0x1d, 0x58, 0x34, 0x36, 0xdc, 0xb4, 0x5b, 0xa4, 0x76, 0xb7, 0x7d, 0x52, 0xdd, 0x5e, 0x13,
     0xa6, 0xb9, 0x00, 0xc1, 0x40, 0xe3, 0x79, 0xb6, 0xd4, 0x8d, 0x67, 0x72, 0x94, 0x98, 0xb0, 0x85,
     0xbb, 0xc5, 0x4f, 0xed, 0x86, 0x9a, 0x66, 0x11, 0x8a, 0xe9, 0x04, 0xfe, 0xa0, 0x78, 0x25, 0x4b,
     0xa2, 0x5d, 0x80, 0x05, 0x3f, 0x21, 0x70, 0xf1, 0x63, 0x77, 0xaf, 0x42, 0x20, 0xe5, 0xfd, 0xbf,
     0x81, 0x18, 0x26, 0xc3, 0xbe, 0x35, 0x88, 0x2e, 0x93, 0x55, 0xfc, 0x7a, 0xc8, 0xba, 0x32, 0xe6,
     0xc0, 0x19, 0x9e, 0xa3, 0x44, 0x54, 0x3b, 0x0b, 0x8c, 0xc7, 0x6b, 0x28, 0xa7, 0xbc, 0x16, 0xad,
     0xdb, 0x64, 0x74, 0x14, 0x92, 0x0c, 0x48, 0xb8, 0x9f, 0xbd, 0x43, 0xc4, 0x39, 0x31, 0xd3, 0xf2,
     0xd5, 0x8b, 0x6e, 0xda, 0x01, 0xb1, 0x9c, 0x49, 0xd8, 0xac, 0xf3, 0xcf, 0xca, 0xf4, 0x47, 0x10,
     0x6f, 0xf0, 0x4a, 0x5c, 0x38, 0x57, 0x73, 0x97, 0xcb, 0xa1, 0xe8, 0x3e, 0x96, 0x61, 0x0d, 0x0f,
     0xe0, 0x7c, 0x71, 0xcc, 0x90, 0x06, 0xf7, 0x1c, 0xc2, 0x6a, 0xae, 0x69, 0x17, 0x99, 0x3a, 0x27,
     0xd9, 0xeb, 0x2b, 0x22, 0xd2, 0xa9, 0x07, 0x33, 0x2d, 0x3c, 0x15, 0xc9, 0x87, 0xaa, 0x50, 0xa5,
     0x03, 0x59, 0x09, 0x1a, 0x65, 0xd7, 0x84, 0xd0, 0x82, 0x29, 0x5a, 0x1e, 0x7b, 0xa8, 0x6d, 0x2c]"

subsection \<open>S-box and rotation\<close>

definition tkip_sbox :: "u32 \<Rightarrow> u32" where
  "tkip_sbox index =
     (let index_low = index mod 256;
          index_high = drop_bit 8 index mod 256;
          left = Tkip_Sbox_Lower ! unat index_low + Tkip_Sbox_Upper ! unat index_low * 256;
          right = Tkip_Sbox_Upper ! unat index_high + Tkip_Sbox_Lower ! unat index_high * 256
      in left XOR right)"

definition rotr1 :: "u32 \<Rightarrow> u32" where
  "rotr1 a =
     (let b = (if a AND 0x01 = 0x01 then drop_bit 1 a OR 0x8000 else drop_bit 1 a AND 0x7fff)
      in b mod 65536)"

subsection \<open>Key mixing\<close>

text \<open>\<^verbatim>\<open>(256*key[1+n]) + key[n]\<close>.\<close>

definition key16 :: "bytes \<Rightarrow> nat \<Rightarrow> u32" where
  "key16 key n = 256 * ucast (key ! (1 + n)) + ucast (key ! n)"

text \<open>The five cells of \<^verbatim>\<open>p1k\<close>, and the body of the phase 1 loop.\<close>

type_synonym p1k = "u32 \<times> u32 \<times> u32 \<times> u32 \<times> u32"

definition tkip_p1_round :: "bytes \<Rightarrow> p1k \<Rightarrow> nat \<Rightarrow> p1k" where
  "tkip_p1_round key q i = (case q of (q0, q1, q2, q3, q4) \<Rightarrow>
      let j = 2 * (i mod 2);
          r0 = (q0 + tkip_sbox ((q4 XOR key16 key j) mod 65536)) mod 65536;
          r1 = (q1 + tkip_sbox ((r0 XOR key16 key (4 + j)) mod 65536)) mod 65536;
          r2 = (q2 + tkip_sbox ((r1 XOR key16 key (8 + j)) mod 65536)) mod 65536;
          r3 = (q3 + tkip_sbox ((r2 XOR key16 key (12 + j)) mod 65536)) mod 65536;
          r4 = (q4 + tkip_sbox ((r3 XOR key16 key j) mod 65536)) mod 65536
      in (r0, r1, r2, r3, (r4 + word_of_nat i) mod 65536))"

definition tkip_phase1 :: "bytes \<Rightarrow> bytes \<Rightarrow> u32 \<Rightarrow> u32 \<Rightarrow> p1k" where
  "tkip_phase1 key ta tsc0 tsc1 =
     foldl (tkip_p1_round key)
       (tsc1, tsc0, ucast (ta ! 0) + ucast (ta ! 1) * 256, ucast (ta ! 2) + ucast (ta ! 3) * 256,
        ucast (ta ! 4) + ucast (ta ! 5) * 256) [0..<8]"

text \<open>Phase 2 on the cells of \<^verbatim>\<open>p1k\<close>: the six variables grow beyond 16 bits.\<close>

definition tkip_phase2 :: "bytes \<Rightarrow> p1k \<Rightarrow> u32 \<Rightarrow> bytes" where
  "tkip_phase2 key q tsc2 = (case q of (q0, q1, q2, q3, q4) \<Rightarrow>
      let ppk5 = (q4 + tsc2) mod 65536;
          ppk0 = q0 + tkip_sbox ((ppk5 XOR key16 key 0) mod 65536);
          ppk1 = q1 + tkip_sbox ((ppk0 XOR key16 key 2) mod 65536);
          ppk2 = q2 + tkip_sbox ((ppk1 XOR key16 key 4) mod 65536);
          ppk3 = q3 + tkip_sbox ((ppk2 XOR key16 key 6) mod 65536);
          ppk4 = q4 + tkip_sbox ((ppk3 XOR key16 key 8) mod 65536);
          ppk5 = ppk5 + tkip_sbox ((ppk4 XOR key16 key 10) mod 65536);
          ppk0 = ppk0 + rotr1 (ppk5 XOR key16 key 12);
          ppk1 = ppk1 + rotr1 (ppk0 XOR key16 key 14);
          ppk2 = ppk2 + rotr1 ppk1;
          ppk3 = ppk3 + rotr1 ppk2;
          ppk4 = ppk4 + rotr1 ppk3;
          ppk5 = ppk5 + rotr1 ppk4
      in [ucast (drop_bit 8 tsc2 mod 256),
          ucast (((drop_bit 8 tsc2 mod 256) OR 0x20) AND 0x7f),
          ucast (tsc2 mod 256),
          ucast (drop_bit 1 (ppk5 XOR key16 key 0) mod 256),
          ucast (ppk0 mod 256), ucast (drop_bit 8 ppk0 mod 256),
          ucast (ppk1 mod 256), ucast (drop_bit 8 ppk1 mod 256),
          ucast (ppk2 mod 256), ucast (drop_bit 8 ppk2 mod 256),
          ucast (ppk3 mod 256), ucast (drop_bit 8 ppk3 mod 256),
          ucast (ppk4 mod 256), ucast (drop_bit 8 ppk4 mod 256),
          ucast (ppk5 mod 256), ucast (drop_bit 8 ppk5 mod 256)])"

text \<open>The result is the RC4 key and the scratch array the caller gets back.\<close>

definition RTMPTkipMixKey :: "bytes \<Rightarrow> bytes \<Rightarrow> ulong \<Rightarrow> ulong \<Rightarrow> bytes \<times> p1k" where
  "RTMPTkipMixKey key ta pnl pnh =
     (let tsc0 = ucast (drop_bit 16 pnh mod 65536);
          tsc1 = ucast (pnh mod 65536);
          tsc2 = ucast (pnl mod 65536);
          p1k = tkip_phase1 key ta tsc0 tsc1
      in (tkip_phase2 key p1k tsc2, p1k))"

subsection \<open>The key mixing of the standard\<close>

text \<open>
  IEEE 802.11, 11.4.2.5, on 16-bit words. The S-box entry of a byte holds two and three times (in
  the field of AES) the AES S-box of the byte.
\<close>

definition mk16 :: "u8 \<Rightarrow> u8 \<Rightarrow> u16" where
  "mk16 hi lo = 256 * ucast hi + ucast lo"

definition lo8 :: "u16 \<Rightarrow> u8" where "lo8 w = ucast w"
definition hi8 :: "u16 \<Rightarrow> u8" where "hi8 w = ucast (drop_bit 8 w)"

definition two_sub :: "u8 \<Rightarrow> u8" where "two_sub x = xtime (aes_sub x)"
definition three_sub :: "u8 \<Rightarrow> u8" where "three_sub x = xtime (aes_sub x) XOR aes_sub x"

definition std_sbox :: "u16 \<Rightarrow> u16" where
  "std_sbox v = mk16 (two_sub (lo8 v)) (three_sub (lo8 v)) XOR mk16 (three_sub (hi8 v)) (two_sub (hi8 v))"

definition tk16 :: "bytes \<Rightarrow> nat \<Rightarrow> u16" where
  "tk16 key n = mk16 (key ! (1 + n)) (key ! n)"

type_synonym ttak = "u16 \<times> u16 \<times> u16 \<times> u16 \<times> u16"

definition std_p1_round :: "bytes \<Rightarrow> ttak \<Rightarrow> nat \<Rightarrow> ttak" where
  "std_p1_round key t i = (case t of (t0, t1, t2, t3, t4) \<Rightarrow>
      let j = 2 * (i mod 2);
          u0 = t0 + std_sbox (t4 XOR tk16 key j);
          u1 = t1 + std_sbox (u0 XOR tk16 key (4 + j));
          u2 = t2 + std_sbox (u1 XOR tk16 key (8 + j));
          u3 = t3 + std_sbox (u2 XOR tk16 key (12 + j));
          u4 = t4 + std_sbox (u3 XOR tk16 key j) + word_of_nat i
      in (u0, u1, u2, u3, u4))"

definition std_phase1 :: "bytes \<Rightarrow> bytes \<Rightarrow> u32 \<Rightarrow> ttak" where
  "std_phase1 key ta iv32 =
     foldl (std_p1_round key)
       (ucast iv32, ucast (drop_bit 16 iv32), mk16 (ta ! 1) (ta ! 0), mk16 (ta ! 3) (ta ! 2),
        mk16 (ta ! 5) (ta ! 4)) [0..<8]"

definition std_phase2 :: "bytes \<Rightarrow> ttak \<Rightarrow> u16 \<Rightarrow> bytes" where
  "std_phase2 key t iv16 = (case t of (t0, t1, t2, t3, t4) \<Rightarrow>
      let k5 = t4 + iv16;
          k0 = t0 + std_sbox (k5 XOR tk16 key 0);
          k1 = t1 + std_sbox (k0 XOR tk16 key 2);
          k2 = t2 + std_sbox (k1 XOR tk16 key 4);
          k3 = t3 + std_sbox (k2 XOR tk16 key 6);
          k4 = t4 + std_sbox (k3 XOR tk16 key 8);
          k5 = k5 + std_sbox (k4 XOR tk16 key 10);
          k0 = k0 + word_rotr 1 (k5 XOR tk16 key 12);
          k1 = k1 + word_rotr 1 (k0 XOR tk16 key 14);
          k2 = k2 + word_rotr 1 k1;
          k3 = k3 + word_rotr 1 k2;
          k4 = k4 + word_rotr 1 k3;
          k5 = k5 + word_rotr 1 k4
      in [hi8 iv16, (hi8 iv16 OR 0x20) AND 0x7f, lo8 iv16,
          lo8 (drop_bit 1 (k5 XOR tk16 key 0)),
          lo8 k0, hi8 k0, lo8 k1, hi8 k1, lo8 k2, hi8 k2,
          lo8 k3, hi8 k3, lo8 k4, hi8 k4, lo8 k5, hi8 k5])"

definition tkip_seed :: "bytes \<Rightarrow> bytes \<Rightarrow> u16 \<Rightarrow> u32 \<Rightarrow> bytes" where
  "tkip_seed key ta iv16 iv32 = std_phase2 key (std_phase1 key ta iv32) iv16"

subsection \<open>The lower sixteen bits\<close>

definition lo16 :: "u32 \<Rightarrow> u16" where
  "lo16 x = ucast x"

lemma bit_lo16: "bit (lo16 x) n \<longleftrightarrow> n < 16 \<and> bit x n"
  by (auto simp: lo16_def bit_simps)

lemma lo16_xor [simp]: "lo16 (x XOR y) = lo16 x XOR lo16 y"
  by (rule bit_word_eqI) (simp add: bit_lo16 bit_simps)

lemma lo16_add [simp]: "lo16 (x + y) = lo16 x + lo16 y"
  by (simp add: lo16_def ucast_add_down)

lemma lo16_of_nat [simp]: "lo16 (word_of_nat n) = word_of_nat n"
  by (simp add: lo16_def unsigned_of_nat take_bit_nat_eq_self word_of_nat_eq_iff take_bit_take_bit
      ucast_eq)

lemma mod_65536: "(x :: 'a::len word) mod 65536 = take_bit 16 x"
  by (simp add: take_bit_eq_mod)

lemma mod_256: "(x :: 'a::len word) mod 256 = take_bit 8 x"
  by (simp add: take_bit_eq_mod)

lemma lo16_mod [simp]: "lo16 (x mod 65536) = lo16 x"
  by (rule bit_word_eqI) (auto simp: mod_65536 bit_lo16 bit_simps)

lemma times_256: "(x :: 'a::len word) * 256 = push_bit 8 x" "256 * (x :: 'a::len word) = push_bit 8 x"
  by (simp_all add: push_bit_eq_mult mult.commute)

lemma lo16_push [simp]: "lo16 (push_bit n x) = push_bit n (lo16 x)"
  by (rule bit_word_eqI) (auto simp: bit_lo16 bit_simps)

lemma lo16_u8 [simp]: "lo16 (ucast (c :: u8)) = ucast c"
  by (rule bit_word_eqI) (auto simp: bit_lo16 bit_simps)

lemma lo16_key16 [simp]: "lo16 (key16 key n) = tk16 key n"
  by (simp add: key16_def tk16_def mk16_def times_256)

lemma lo8_lo16: "lo8 (lo16 x) = ucast (x mod 256)"
  by (rule bit_word_eqI) (auto simp: lo8_def mod_256 bit_lo16 bit_simps)

lemma hi8_lo16: "hi8 (lo16 x) = ucast (drop_bit 8 x mod 256)"
  by (rule bit_word_eqI) (auto simp: hi8_def mod_256 bit_lo16 bit_simps)

lemma rotr1_even_odd:
  "rotr1 a = take_bit 16 (if odd a then drop_bit 1 a OR 2 ^ 15 else drop_bit 1 a AND mask 15)"
proof -
  have "(0x7fff :: u32) = mask 15" by (simp add: mask_eq_exp_minus_1)
  then show ?thesis by (simp add: rotr1_def and_1_odd mod_65536)
qed

lemma lo16_rotr1 [simp]: "lo16 (rotr1 a) = word_rotr 1 (lo16 a)"
proof (rule bit_word_eqI)
  fix k assume k: "k < LENGTH(16)"
  have "bit (word_rotr 1 (lo16 a)) k = bit a ((k + 1) mod 16)"
    using k by (auto simp: bit_word_rotr_iff bit_lo16)
  also have "(k + 1) mod 16 = (if k = 15 then 0 else k + 1)" using k by (auto simp: mod_Suc)
  moreover have "bit (2 ^ 15 :: u32) k \<longleftrightarrow> k = 15" by (simp only: bit_exp_iff) auto
  ultimately show "bit (lo16 (rotr1 a)) k = bit (word_rotr 1 (lo16 a)) k"
    using k by (auto simp: bit_lo16 rotr1_even_odd bit_simps bit_0)
qed

lemma Tkip_Sbox_Upper_eq:
  "Tkip_Sbox_Upper = map (\<lambda>y. ucast (xtime y)) aes_sbox_enc"
  by (simp add: Tkip_Sbox_Upper_def aes_sbox_enc_def xtime_def)

lemma Tkip_Sbox_Lower_eq:
  "Tkip_Sbox_Lower = map (\<lambda>y. ucast (xtime y XOR y)) aes_sbox_enc"
  by (simp add: Tkip_Sbox_Lower_def aes_sbox_enc_def xtime_def)

lemma length_aes_sbox_enc: "length aes_sbox_enc = 256"
  by (simp add: aes_sbox_enc_def)

lemma Tkip_Sbox_nth:
  "Tkip_Sbox_Upper ! unat (x :: u8) = ucast (two_sub x)"
  "Tkip_Sbox_Lower ! unat (x :: u8) = ucast (three_sub x)"
  by (simp_all add: Tkip_Sbox_Upper_eq Tkip_Sbox_Lower_eq length_aes_sbox_enc two_sub_def
      three_sub_def aes_sub_def)

lemma lo16_tkip_sbox [simp]: "lo16 (tkip_sbox (x mod 65536)) = std_sbox (lo16 x)"
proof -
  have idx: "unat (x mod 65536 mod 256) = unat (lo8 (lo16 x))"
      "unat (drop_bit 8 (x mod 65536) mod 256) = unat (hi8 (lo16 x))"
    by (simp_all add: mod_65536 mod_256 lo8_def hi8_def lo16_def unsigned_ucast_eq
        unsigned_take_bit_eq unsigned_drop_bit_eq take_bit_drop_bit)
  show ?thesis
    by (simp add: tkip_sbox_def Let_def idx Tkip_Sbox_nth std_sbox_def mk16_def times_256 add.commute)
qed

subsection \<open>The mixing agrees with the standard\<close>

fun lo16s :: "p1k \<Rightarrow> ttak" where
  "lo16s (q0, q1, q2, q3, q4) = (lo16 q0, lo16 q1, lo16 q2, lo16 q3, lo16 q4)"

lemma lo16s_round: "lo16s (tkip_p1_round key q i) = std_p1_round key (lo16s q) i"
  by (cases q) (simp add: tkip_p1_round_def std_p1_round_def Let_def)

lemma lo16s_foldl: "lo16s (foldl (tkip_p1_round key) q is) = foldl (std_p1_round key) (lo16s q) is"
  by (induction "is" arbitrary: q) (simp_all add: lo16s_round)

lemma lo8_drop_1: "ucast (drop_bit 1 x mod 256) = lo8 (drop_bit 1 (lo16 x))"
  by (rule bit_word_eqI) (auto simp: lo8_def mod_256 bit_lo16 bit_simps)

lemma tkip_phase2_std: "tkip_phase2 key q tsc2 = std_phase2 key (lo16s q) (lo16 tsc2)"
proof -
  obtain q0 q1 q2 q3 q4 where q: "q = (q0, q1, q2, q3, q4)" by (cases q)
  have seed1: "(ucast ((drop_bit 8 x mod 256 OR 0x20) AND 0x7f) :: u8) = (hi8 (lo16 x) OR 0x20) AND 0x7f"
    for x
    by (simp add: hi8_lo16 unsigned_or_eq unsigned_and_eq)
  show ?thesis
    by (simp only: q tkip_phase2_def std_phase2_def Let_def prod.case lo16s.simps seed1 lo8_drop_1
        hi8_lo16 [symmetric])
      (simp add: lo8_lo16 [symmetric])
qed

lemma RTMPTkipMixKey_std:
  "fst (RTMPTkipMixKey key ta pnl pnh) = tkip_seed key ta (ucast pnl) (ucast pnh)"
proof -
  have lo: "lo16 (ucast (pnh mod 65536)) = ucast (ucast pnh :: u32)"
      "lo16 (ucast (drop_bit 16 pnh mod 65536)) = ucast (drop_bit 16 (ucast pnh :: u32))"
      "lo16 (ucast (pnl mod 65536)) = ucast pnl"
    by (rule bit_word_eqI; auto simp: bit_lo16 mod_65536 bit_simps)+
  show ?thesis
    by (simp add: RTMPTkipMixKey_def Let_def tkip_phase2_std lo tkip_seed_def tkip_phase1_def
        std_phase1_def lo16s_foldl mk16_def times_256 add.commute)
qed

subsection \<open>RTMPSoftDecryptTKIP\<close>

text \<open>
  \<^verbatim>\<open>CIPHER_KEY\<close> (\<^verbatim>\<open>include/wpa_cmm.h\<close>) with the members TKIP and CCMP read. The status codes become a \<^verbatim>\<open>bool\<close> where a function of that type returns them.
\<close>

record soft_key = cipher_key +
  ck_TxMic :: bytes
  ck_RxMic :: bytes
  ck_TxTsc :: bytes
  ck_CipherAlg :: u8

definition c_bool :: "nat \<Rightarrow> bool" where
  "c_bool n \<longleftrightarrow> n \<noteq> 0"

text \<open>Destination, source and transmitter, selected by the two DS bits of the frame control.\<close>

definition tkip_addresses :: "bytes \<Rightarrow> c_fault + bytes \<times> bytes \<times> bytes" where
  "tkip_addresses pHdr =
     (if length pHdr < 24 then Inl OOBRead
      else let from_ds = drop_bit 1 (pHdr ! 1 AND 0x2); to_ds = pHdr ! 1 AND 0x1;
               Addr1 = slice_at 4 6 pHdr; Addr2 = slice_at 10 6 pHdr; Addr3 = slice_at 16 6 pHdr
        in if to_ds = 0 \<and> from_ds = 1 then Inr (Addr1, Addr3, Addr2)
           else if to_ds = 0 \<and> from_ds = 0 then Inr (Addr1, Addr2, Addr2)
           else if to_ds = 1 \<and> from_ds = 0 then Inr (Addr3, Addr2, Addr2)
           else if length pHdr < 30 then Inl OOBRead
           else Inr (Addr3, slice_at 24 6 pHdr, Addr2))"

text \<open>\<open>*((unsigned long *)p)\<close> reads eight bytes; \<^verbatim>\<open>cpu2le32\<close> keeps the lower four.\<close>

definition le64_word :: "bytes \<Rightarrow> ulong" where
  "le64_word bs = ucast (le32_word bs) OR push_bit 32 (ucast (le32_word (drop 4 bs)))"

text \<open>
  The engine works on \<open>Tx\<close>, the state \<^verbatim>\<open>pAd->PrivateInfo.Tx\<close>. The result is the returned \<^verbatim>\<open>bool\<close>,
  the data buffer, the byte count, that state, and whether a MIC failure was reported. The
  plaintext is written over the IV, eight bytes below the byte being read.
\<close>

definition RTMPSoftDecryptTKIP ::
    "tkip_info \<Rightarrow> bytes \<Rightarrow> u8 \<Rightarrow> soft_key \<Rightarrow> bytes \<Rightarrow> u16 \<Rightarrow>
     c_fault + bool \<times> bytes \<times> u16 \<times> tkip_info \<times> bool" where
  "RTMPSoftDecryptTKIP Tx pHdr UserPriority pKey pData DataByteCnt =
     (if ck_KeyLen pKey = 0 then Inr (c_bool NDIS_STATUS_FAILURE, pData, DataByteCnt, Tx, False)
      else f_bind (tkip_addresses pHdr) (\<lambda>(DA, SA, TA).
        if length pData < 12 then Inl OOBRead
        else
          let pnl = push_bit 8 (ucast (pData ! 0)) OR ucast (pData ! 2);
              pnh = ucast (ucast (le64_word (slice_at 4 8 pData)) :: u32);
              RC4Key = fst (RTMPTkipMixKey (ck_Key pKey) TA pnl pnh);
              ciphertext_len = (ucast DataByteCnt :: u32) - 8
          in if DataByteCnt \<le> 8
             then Inr (c_bool NDIS_STATUS_FAILURE, pData, DataByteCnt, Tx, False)
             else f_bind (ARC4_INIT RC4Key 16) (\<lambda>ctx.
               if length pData < 8 + unat ciphertext_len then Inl OOBRead
               else
                 let buf = put_at 0 (snd (ARC4_Compute ctx (slice_at 8 (unat ciphertext_len) pData)))
                             pData;
                     plaintext_len = ciphertext_len - 4
                 in if length buf < unat plaintext_len + 4 then Inl OOBRead
                    else f_bind (RTMP_CALC_FCS32 0xffffffff buf (sint plaintext_len)) (\<lambda>crc.
                      if crc XOR 0xffffffff \<noteq> le32_word (slice_at (unat plaintext_len) 4 buf)
                      then Inr (c_bool NDIS_STATUS_FAILURE, buf, DataByteCnt, Tx, False)
                      else
                        let text_len = plaintext_len - 8
                        in if length buf < unat text_len + 8 then Inl OOBRead
                           else
                             f_bind (RTMPInitMICEngine Tx DA SA UserPriority (ck_RxMic pKey)) (\<lambda>t1.
                             f_bind (RTMPTkipAppend t1 buf (unat text_len)) (\<lambda>t2.
                               let t3 = RTMPTkipGetMIC t2
                               in if tk_MIC t3 \<noteq> slice_at (unat text_len) 8 buf
                                  then Inr (c_bool NDIS_STATUS_MICERROR, buf, DataByteCnt, t3, True)
                                  else Inr (True, buf, ucast text_len, t3, False)))))))"

subsection \<open>The sealed frame\<close>

text \<open>The addresses as the standard defines them for the four combinations of the DS bits.\<close>

definition to_ds :: "bytes \<Rightarrow> bool" where "to_ds hdr \<longleftrightarrow> bit (hdr ! 1) 0"
definition from_ds :: "bytes \<Rightarrow> bool" where "from_ds hdr \<longleftrightarrow> bit (hdr ! 1) 1"

definition frame_DA :: "bytes \<Rightarrow> bytes" where
  "frame_DA hdr = (if to_ds hdr then slice_at 16 6 hdr else slice_at 4 6 hdr)"

definition frame_SA :: "bytes \<Rightarrow> bytes" where
  "frame_SA hdr = (if \<not> from_ds hdr then slice_at 10 6 hdr
     else if to_ds hdr then slice_at 24 6 hdr else slice_at 16 6 hdr)"

definition frame_TA :: "bytes \<Rightarrow> bytes" where
  "frame_TA hdr = slice_at 10 6 hdr"

definition hdr_ok :: "bytes \<Rightarrow> bool" where
  "hdr_ok hdr \<longleftrightarrow> 24 \<le> length hdr \<and> (to_ds hdr \<and> from_ds hdr \<longrightarrow> 30 \<le> length hdr)"

text \<open>The body the standard makes of a text: text, Michael code and ICV under the mixed key.\<close>

definition tkip_stream :: "bytes \<Rightarrow> bytes \<Rightarrow> bytes \<Rightarrow> bytes \<Rightarrow> bytes" where
  "tkip_stream key hdr iv xs =
     (case ARC4_INIT (tkip_seed key (frame_TA hdr) (mk16 (iv ! 0) (iv ! 2)) (le32_word (drop 4 iv))) 16
      of Inl e \<Rightarrow> [] | Inr ctx \<Rightarrow> snd (ARC4_Compute ctx xs))"

definition tkip_mic :: "bytes \<Rightarrow> bytes \<Rightarrow> u8 \<Rightarrow> bytes \<Rightarrow> bytes" where
  "tkip_mic mickey hdr prio data = michael mickey (mic_header (frame_DA hdr) (frame_SA hdr) prio @ data)"

definition tkip_seal :: "bytes \<Rightarrow> bytes \<Rightarrow> bytes \<Rightarrow> bytes \<Rightarrow> u8 \<Rightarrow> bytes \<Rightarrow> bytes" where
  "tkip_seal key mickey hdr iv prio data =
     (let plain = data @ tkip_mic mickey hdr prio data
      in tkip_stream key hdr iv (plain @ wep_icv plain))"

lemma ds_bits:
  shows from_ds_bit: "drop_bit 1 ((x :: u8) AND 0x2) = (if bit x 1 then 1 else 0)"
    and to_ds_bit: "x AND 0x1 = (if bit x 0 then 1 else 0)"
proof -
  have two: "bit (2 :: u8) (Suc n) \<longleftrightarrow> n = 0" for n by (simp add: bit_Suc bit_1_iff)
  show "drop_bit 1 (x AND 0x2) = (if bit x 1 then 1 else 0)"
    by (rule bit_word_eqI) (simp only: bit_drop_bit_eq bit_and_iff add_Suc add_0 two One_nat_def o_apply,
      auto simp: bit_1_iff intro: gr0I)
  show "x AND 0x1 = (if bit x 0 then 1 else 0)"
    by (simp add: and_one_eq bit_0 mod_2_eq_odd)
qed

lemma tkip_addresses_eq:
  "hdr_ok hdr \<Longrightarrow> tkip_addresses hdr = Inr (frame_DA hdr, frame_SA hdr, frame_TA hdr)"
  by (simp only: tkip_addresses_def Let_def ds_bits hdr_ok_def)
    (auto simp: frame_DA_def frame_SA_def frame_TA_def to_ds_def from_ds_def)

lemma length_frame_addr:
  assumes "hdr_ok hdr"
  shows "length (frame_DA hdr) = 6" "length (frame_SA hdr) = 6"
  using assms by (auto simp: hdr_ok_def frame_DA_def frame_SA_def)

lemma lo32_le64_word: "ucast (le64_word bs) = le32_word bs"
  by (rule bit_word_eqI) (auto simp: le64_word_def bit_simps)

lemma le32_word_take: "le32_word (take 4 bs) = le32_word bs"
  by (simp add: le32_word_def)

lemma pn_of_iv:
  "(ucast (push_bit 8 (ucast a) OR ucast b :: ulong) :: u16) = mk16 a b"
proof -
  have "mk16 a b = push_bit 8 (ucast a) OR ucast b"
    unfolding mk16_def times_256
    by (rule disjunctive_add_eq_or) (auto intro!: bit_word_eqI simp: bit_simps bit_u8_ge)
  also have "\<dots> = ucast (push_bit 8 (ucast a) OR ucast b :: ulong)"
    by (rule bit_word_eqI) (auto simp: bit_simps)
  finally show ?thesis ..
qed

lemma seed_of_frame:
  assumes "length iv = 8" "4 \<le> length rest"
  shows "fst (RTMPTkipMixKey key ta
      (push_bit 8 (ucast ((iv @ rest) ! 0)) OR ucast ((iv @ rest) ! 2))
      (ucast (ucast (le64_word (slice_at 4 8 (iv @ rest))) :: u32))) =
    tkip_seed key ta (mk16 (iv ! 0) (iv ! 2)) (le32_word (drop 4 iv))"
proof -
  have "take 4 (slice_at 4 8 (iv @ rest)) = drop 4 iv"
    using assms by (simp add: slice_at_def)
  then have "le32_word (slice_at 4 8 (iv @ rest)) = le32_word (drop 4 iv)"
    by (metis le32_word_take)
  moreover have "(ucast (ucast (w :: u32) :: ulong) :: u32) = w" for w
    by (rule bit_word_eqI) (auto simp: bit_simps)
  moreover have "iv \<noteq> []" using assms(1) by auto
  ultimately show ?thesis
    using assms(1) by (simp only: RTMPTkipMixKey_std lo32_le64_word pn_of_iv) (simp add: nth_append)
qed

lemma tkip_stream_ctx:
  obtains ctx where "ARC4_INIT (tkip_seed key ta iv16 iv32) 16 = Inr ctx"
proof -
  have "length (tkip_seed key ta iv16 iv32) = 16"
    by (simp add: tkip_seed_def std_phase2_def Let_def split: prod.split)
  then have "\<exists>ctx. ARC4_INIT (tkip_seed key ta iv16 iv32) 16 = Inr ctx"
    by (simp add: ARC4_INIT_def)
  with that show thesis by blast
qed

lemma tkip_stream_stream: "tkip_stream key hdr iv (tkip_stream key hdr iv xs) = xs"
proof -
  obtain ctx where "ARC4_INIT (tkip_seed key (frame_TA hdr) (mk16 (iv ! 0) (iv ! 2))
      (le32_word (drop 4 iv))) 16 = Inr ctx"
    by (rule tkip_stream_ctx)
  then show ?thesis by (simp add: tkip_stream_def arc4.crypt_crypt)
qed

lemma length_tkip_stream [simp]: "length (tkip_stream key hdr iv xs) = length xs"
proof -
  obtain ctx where "ARC4_INIT (tkip_seed key (frame_TA hdr) (mk16 (iv ! 0) (iv ! 2))
      (le32_word (drop 4 iv))) 16 = Inr ctx"
    by (rule tkip_stream_ctx)
  then show ?thesis by (simp add: tkip_stream_def)
qed

subsection \<open>What the decryption does with a frame\<close>

definition tkip_key_ok :: "soft_key \<Rightarrow> bool" where
  "tkip_key_ok k \<longleftrightarrow> 0 < ck_KeyLen k \<and> 8 \<le> length (ck_RxMic k)"

lemma RTMPSoftDecryptTKIP_eq:
  fixes tail :: bytes
  assumes key: "tkip_key_ok k" and hdr: "hdr_ok hdr" and iv: "length iv = 8"
    and n: "length body = n + 12" "n + 20 < 65536"
  defines "p \<equiv> tkip_stream (ck_Key k) hdr iv body"
  defines "buf \<equiv> put_at 0 p (iv @ body @ tail)"
  shows "\<exists>tx rep. RTMPSoftDecryptTKIP Tx hdr prio k (iv @ body @ tail) (word_of_nat (n + 20)) =
    Inr (True, buf,
      if wep_icv (take (n + 8) p) = drop (n + 8) p \<and>
         tkip_mic (ck_RxMic k) hdr prio (take n p) = slice_at n 8 p
      then word_of_nat n else word_of_nat (n + 20), tx, rep)"
proof -
  let ?seed = "tkip_seed (ck_Key k) (frame_TA hdr) (mk16 (iv ! 0) (iv ! 2)) (le32_word (drop 4 iv))"
  obtain ctx where ctx: "ARC4_INIT ?seed 16 = Inr ctx" by (rule tkip_stream_ctx)
  have p: "p = snd (ARC4_Compute ctx body)" by (simp add: p_def tkip_stream_def ctx)
  have lp: "length p = n + 12" by (simp add: p_def n)
  have un: "unat (word_of_nat m :: u32) = m" if "m < 65536" for m
    using that by (simp add: unsigned_of_nat take_bit_nat_eq_self)
  have cnt: "ucast (word_of_nat (n + 20) :: u16) = (word_of_nat (n + 20) :: u32)"
    using n(2) by (simp add: ucast_eq uint_nat unat_of_nat_u16 del: of_nat_add)
  have cn: "ucast (word_of_nat n :: u32) = (word_of_nat n :: u16)"
    using n(2) by (simp add: ucast_eq uint_nat un)
  have len: "(word_of_nat (n + 20) :: u32) - 8 = word_of_nat (n + 12)"
      "(word_of_nat (n + 12) :: u32) - 4 = word_of_nat (n + 8)"
      "(word_of_nat (n + 8) :: u32) - 8 = word_of_nat n"
    by simp_all
  have u: "unat (word_of_nat (n + 12) :: u32) = n + 12" "unat (word_of_nat (n + 8) :: u32) = n + 8"
      "unat (word_of_nat n :: u32) = n"
    using n(2) by (simp_all only: un)
  have gt: "\<not> (word_of_nat (n + 20) :: u16) \<le> 8"
    using n(2) by (simp add: word_le_nat_alt unat_of_nat_u16 del: of_nat_add)
  have si: "sint (word_of_nat (n + 8) :: u32) = int (n + 8)"
    using n(2) by (simp add: signed_of_nat signed_take_bit_int_eq_self del: of_nat_add)
  have lb: "length buf = length body + 8 + length tail"
    using iv n lp by (simp add: buf_def)
  have buf: "take (n + 12) buf = p" by (simp add: buf_def put_at_def lp)
  have tb: "take m buf = take m p" if "m \<le> n + 12" for m
    using that buf by (metis min.absorb1 take_take)
  have sb: "slice_at (n + 8) 4 buf = drop (n + 8) p" "slice_at n 8 buf = slice_at n 8 p"
  proof -
    have "slice_at (n + 8) 4 buf = drop (n + 8) (take (n + 12) buf)"
      by (simp add: slice_at_def drop_take)
    then show "slice_at (n + 8) 4 buf = drop (n + 8) p" by (simp only: buf)
    have "slice_at n 8 buf = take 8 (drop n (take (n + 12) buf))"
      by (simp add: slice_at_def drop_take)
    then show "slice_at n 8 buf = slice_at n 8 p" by (simp only: buf slice_at_def)
  qed
  have crc: "RTMP_CALC_FCS32 0xffffffff buf (int (n + 8)) =
      Inr (foldl fcs32_step 0xffffffff (take (n + 8) p))"
    using lb n(1) tb [of "n + 8"] by (simp add: RTMP_CALC_FCS32_foldl nat_add_distrib)
  have icv: "foldl fcs32_step 0xffffffff (take (n + 8) p) XOR 0xffffffff = le32_word (drop (n + 8) p)
      \<longleftrightarrow> wep_icv (take (n + 8) p) = drop (n + 8) p"
    using le32_word_inj [of "wep_icv (take (n + 8) p)" "drop (n + 8) p"] by (simp add: wep_icv_def lp)
  obtain t1 where t1: "RTMPInitMICEngine Tx (frame_DA hdr) (frame_SA hdr) prio (ck_RxMic k) = Inr t1"
      "mic_rep (mic_key (ck_RxMic k)) t1 (mic_header (frame_DA hdr) (frame_SA hdr) prio)"
    using RTMPInitMICEngine_rep [of "ck_RxMic k" "frame_DA hdr" "frame_SA hdr" Tx prio] key
      length_frame_addr [OF hdr] by (metis order_refl take_all tkip_key_ok_def)
  have "n \<le> length buf" using lb n(1) by simp
  with t1(2) obtain t2 where t2: "RTMPTkipAppend t1 buf n = Inr t2"
      "mic_rep (mic_key (ck_RxMic k)) t2 (mic_header (frame_DA hdr) (frame_SA hdr) prio @ take n buf)"
    by (rule RTMPTkipAppend_rep)
  have mic: "tk_MIC (RTMPTkipGetMIC t2) = tkip_mic (ck_RxMic k) hdr prio (take n p)"
    using RTMPTkipGetMIC_is_michael [OF t2(2)] tb [of n] by (simp add: tkip_mic_def)
  have seed: "fst (RTMPTkipMixKey (ck_Key k) (frame_TA hdr)
      (push_bit 8 (ucast ((iv @ body @ tail) ! 0)) OR ucast ((iv @ body @ tail) ! 2))
      (ucast (ucast (le64_word (slice_at 4 8 (iv @ body @ tail))) :: u32))) = ?seed"
    using iv n(1) by (intro seed_of_frame) simp_all
  have body: "slice_at 8 (n + 12) (iv @ body @ tail) = body"
    using iv n(1) by (simp add: slice_at_def)
  have bounds: "(length (iv @ body @ tail) < 12) = False"
      "(length (iv @ body @ tail) < 8 + (n + 12)) = False"
      "(length buf < n + 8 + 4) = False" "(length buf < n + 8) = False" "(ck_KeyLen k = 0) = False"
    using iv n lb key by (simp_all add: tkip_key_ok_def)
  show ?thesis
    by (simp only: RTMPSoftDecryptTKIP_def tkip_addresses_eq [OF hdr] f_bind_simps prod.case
        bounds if_False Let_def seed cnt len gt u ctx body p [symmetric] buf_def [symmetric] si crc
        sb icv t1(1) t2(1) mic)
      (auto simp: c_bool_def NDIS_STATUS_FAILURE_def NDIS_STATUS_MICERROR_def cn)
qed

text \<open>A body opens with matching codes exactly when it was sealed.\<close>

lemma tkip_open_iff:
  fixes key hdr iv body mickey :: bytes
  assumes "length body = n + 12" "length iv = 8"
  defines "p \<equiv> tkip_stream key hdr iv body"
  shows "wep_icv (take (n + 8) p) = drop (n + 8) p \<and> tkip_mic mickey hdr prio (take n p) = slice_at n 8 p
    \<longleftrightarrow> (\<exists>data. length data = n \<and> body = tkip_seal key mickey hdr iv prio data)"
    (is "?l \<longleftrightarrow> ?r")
proof
  have body: "body = tkip_stream key hdr iv p" by (simp add: p_def tkip_stream_stream)
  have split: "take (n + 8) p = take n p @ slice_at n 8 p" by (simp add: take_add slice_at_def)
  {
    assume l: ?l
    then have "p = take (n + 8) p @ wep_icv (take (n + 8) p)"
      by (metis append_take_drop_id)
    moreover have "take (n + 8) p = take n p @ tkip_mic mickey hdr prio (take n p)"
      using l split by simp
    ultimately have "body = tkip_seal key mickey hdr iv prio (take n p)"
      using body by (metis tkip_seal_def)
    moreover have "length (take n p) = n" using assms(1) by (simp add: p_def)
    ultimately show ?r by blast
  next
    assume ?r
    then obtain data where d: "length data = n" "body = tkip_seal key mickey hdr iv prio data" by blast
    let ?plain = "data @ tkip_mic mickey hdr prio data"
    have p: "p = ?plain @ wep_icv ?plain" using d(2) by (simp add: p_def tkip_seal_def Let_def tkip_stream_stream)
    have "length (tkip_mic mickey hdr prio data) = 8"
      by (simp add: tkip_mic_def michael_def Let_def)
    with p d(1) show ?l by (simp add: slice_at_def)
  }
qed

subsection \<open>Properties\<close>

text \<open>C14: the RC4 key that \<^verbatim>\<open>RTMPTkipMixKey\<close> derives, on 32-bit variables that overflow their
  sixteen bits, with its own tables, is the key of the two-phase mixing of the standard on 16-bit
  words, whose S-box is made of the AES S-box.\<close>

theorem tkip_mixing_standard:
  "fst (RTMPTkipMixKey key ta pnl pnh) = tkip_seed key ta (ucast pnl) (ucast pnh)"
  by (rule RTMPTkipMixKey_std)

text \<open>C13: \<^verbatim>\<open>RTMPSoftDecryptTKIP\<close> on a frame of at least 20 bytes behind the header stays inside its
  buffers and returns true; it sets the byte count to the length of the text exactly when the body
  is a text sealed with the mixed key, the Michael code for the addresses of the header and the ICV,
  and then the buffer starts with that text; any other body leaves the count as it was.\<close>

theorem tkip_accepts_exactly_sealed:
  assumes "tkip_key_ok k" "hdr_ok hdr" "length iv = 8" "length body = n + 12" "n + 20 < 65536"
  shows "\<exists>buf cnt tx rep.
    RTMPSoftDecryptTKIP Tx hdr prio k (iv @ body @ tail) (word_of_nat (n + 20)) =
      Inr (True, buf, cnt, tx, rep) \<and>
    (if \<exists>data. length data = n \<and> body = tkip_seal (ck_Key k) (ck_RxMic k) hdr iv prio data
     then cnt = word_of_nat n \<and>
       body = tkip_seal (ck_Key k) (ck_RxMic k) hdr iv prio (take n buf)
     else cnt = word_of_nat (n + 20))"
proof -
  let ?p = "tkip_stream (ck_Key k) hdr iv body"
  let ?buf = "put_at 0 ?p (iv @ body @ tail)"
  let ?sealed = "\<lambda>data. length data = n \<and> body = tkip_seal (ck_Key k) (ck_RxMic k) hdr iv prio data"
  have opens: "wep_icv (take (n + 8) ?p) = drop (n + 8) ?p \<and>
      tkip_mic (ck_RxMic k) hdr prio (take n ?p) = slice_at n 8 ?p \<longleftrightarrow> (\<exists>data. ?sealed data)"
    using assms(4,3) by (rule tkip_open_iff)
  obtain tx rep where eq: "RTMPSoftDecryptTKIP Tx hdr prio k (iv @ body @ tail) (word_of_nat (n + 20)) =
      Inr (True, ?buf, if \<exists>data. ?sealed data then word_of_nat n else word_of_nat (n + 20), tx, rep)"
    using RTMPSoftDecryptTKIP_eq [OF assms, of Tx prio tail] unfolding opens by blast
  have plain: "take n ?buf = data" if "?sealed data" for data
  proof -
    have "?p = (data @ tkip_mic (ck_RxMic k) hdr prio data) @
        wep_icv (data @ tkip_mic (ck_RxMic k) hdr prio data)"
      using that by (simp add: tkip_seal_def Let_def tkip_stream_stream)
    with that show ?thesis by (simp add: put_at_def)
  qed
  show ?thesis
  proof (cases "\<exists>data. ?sealed data")
    case True
    then obtain data where d: "?sealed data" by blast
    with plain [OF d] True eq show ?thesis
      by (intro exI [of _ ?buf] exI [of _ "word_of_nat n"] exI [of _ tx] exI [of _ rep])
        (simp only: if_True simp_thms)
  next
    case False
    with eq show ?thesis
      by (intro exI [of _ ?buf] exI [of _ "word_of_nat (n + 20)"] exI [of _ tx] exI [of _ rep])
        (simp only: if_False simp_thms)
  qed
qed

definition tkip_sample_key :: soft_key where
  "tkip_sample_key = \<lparr>ck_Key = replicate 16 1, ck_KeyLen = 16, ck_TxMic = replicate 8 2,
     ck_RxMic = replicate 8 3, ck_TxTsc = replicate 16 0, ck_CipherAlg = 3\<rparr>"

definition tkip_sample_body :: bytes where
  "tkip_sample_body = tkip_seal (ck_Key tkip_sample_key) (ck_RxMic tkip_sample_key) (replicate 24 8)
     [0, 32, 1, 32, 0, 0, 0, 0] 0 [7, 9]"

lemma tkip_accepts_exactly_sealed_witness:
  "\<exists>buf cnt tx rep.
    RTMPSoftDecryptTKIP
      \<lparr>tk_nBytesInM = 0, tk_K0 = 0, tk_K1 = 0, tk_L = 0, tk_R = 0, tk_M = 0, tk_MIC = []\<rparr>
      (replicate 24 8) 0 tkip_sample_key ([0, 32, 1, 32, 0, 0, 0, 0] @ tkip_sample_body @ [])
      (word_of_nat (2 + 20)) = Inr (True, buf, cnt, tx, rep) \<and>
    (if \<exists>data. length data = 2 \<and> tkip_sample_body =
          tkip_seal (ck_Key tkip_sample_key) (ck_RxMic tkip_sample_key) (replicate 24 8)
            [0, 32, 1, 32, 0, 0, 0, 0] 0 data
     then cnt = word_of_nat 2 \<and> tkip_sample_body =
       tkip_seal (ck_Key tkip_sample_key) (ck_RxMic tkip_sample_key) (replicate 24 8)
         [0, 32, 1, 32, 0, 0, 0, 0] 0 (take 2 buf)
     else cnt = word_of_nat (2 + 20))"
  by (rule tkip_accepts_exactly_sealed)
    (simp_all add: tkip_key_ok_def tkip_sample_key_def hdr_ok_def to_ds_def from_ds_def
      bit_numeral_rec tkip_sample_body_def tkip_seal_def Let_def tkip_mic_def michael_def)

end
