(* ===== verification/Ccmp.thy ===== *)
theory Ccmp
  imports AesCcm Tkip
begin

text \<open>
  CCMP of \<^verbatim>\<open>common/cmm_aes.c\<close>: the additional data, the nonce and the header built from an 802.11
  header and a packet number (\<^verbatim>\<open>RTMPConstructCCMPAAD\<close>, \<^verbatim>\<open>RTMPConstructCCMPNonce\<close>,
  \<^verbatim>\<open>RTMPConstructCCMPHdr\<close>), and the two data paths \<^verbatim>\<open>RTMPSoftEncryptCCMP\<close> and
  \<^verbatim>\<open>RTMPSoftDecryptCCMP\<close>, which call \<^verbatim>\<open>AES_CCM_Encrypt\<close> and \<^verbatim>\<open>AES_CCM_Decrypt\<close> in place. The
  property: what one path seals, the other opens, also when the header has been retransmitted.
\<close>

subsection \<open>Additional data, nonce and header\<close>

text \<open>
  Only the first \<^verbatim>\<open>*aad_len\<close> bytes of the 30-byte array are used; they are the result. The bytes
  read of the header are checked: 23 at least, the fourth address and the QoS byte when they exist.
\<close>

definition RTMPConstructCCMPAAD :: "bytes \<Rightarrow> bool \<Rightarrow> bool \<Rightarrow> bool \<Rightarrow> c_fault + bytes" where
  "RTMPConstructCCMPAAD pHdr isDataFrame a4_exists qc_exists =
     (if length pHdr < (if qc_exists \<and> a4_exists then 31 else if a4_exists then 30
                        else if qc_exists then 25 else 23)
      then Inl OOBRead
      else Inr
        ([if isDataFrame then pHdr ! 0 AND 0x8f else pHdr ! 0, (pHdr ! 1 AND 0xc7) OR 0x40] @
         slice_at 4 18 pHdr @
         [pHdr ! 22 AND 0x0f, 0x00] @
         (if a4_exists then slice_at 24 6 pHdr else []) @
         (if qc_exists \<and> a4_exists then [pHdr ! 30 AND 0x0f, 0x00]
          else if qc_exists \<and> \<not> a4_exists then [pHdr ! 24 AND 0x0f, 0x00] else [])))"

text \<open>
  The array is zeroed by the callers, so its first byte is 0 without a QoS field. The flag that says
  whether the frame is a management frame is not used.
\<close>

definition RTMPConstructCCMPNonce :: "bytes \<Rightarrow> bool \<Rightarrow> bool \<Rightarrow> bool \<Rightarrow> bytes \<Rightarrow> c_fault + bytes" where
  "RTMPConstructCCMPNonce pHdr a4_exists qc_exists isMgmtFrame pn =
     (if length pHdr < (if qc_exists \<and> a4_exists then 31 else if qc_exists then 25 else 16) \<or>
         length pn < 6
      then Inl OOBRead
      else Inr
        ((if qc_exists \<and> a4_exists then pHdr ! 30 AND 0x0f
          else if qc_exists \<and> \<not> a4_exists then pHdr ! 24 AND 0x0f else 0) #
         slice_at 10 6 pHdr @ rev (take 6 pn)))"

definition RTMPConstructCCMPHdr :: "u8 \<Rightarrow> bytes \<Rightarrow> c_fault + bytes" where
  "RTMPConstructCCMPHdr key_idx pn =
     (if length pn < 6 then Inl OOBRead
      else Inr [pn ! 0, pn ! 1, 0, push_bit 6 key_idx OR 0x20, pn ! 2, pn ! 3, pn ! 4, pn ! 5])"

subsection \<open>The data paths\<close>

definition ccmp_type :: "bytes \<Rightarrow> u8" where "ccmp_type pHdr = drop_bit 2 (pHdr ! 0) AND 0x03"
definition ccmp_subtype :: "bytes \<Rightarrow> u8" where "ccmp_subtype pHdr = drop_bit 4 (pHdr ! 0) AND 0x0f"

definition ccmp_a4_exists :: "bytes \<Rightarrow> bool" where
  "ccmp_a4_exists pHdr \<longleftrightarrow> drop_bit 1 (pHdr ! 1 AND 0x2) AND (pHdr ! 1 AND 0x1) \<noteq> 0"

text \<open>The four QoS data subtypes, and only in a data frame.\<close>

definition ccmp_qc_exists :: "bytes \<Rightarrow> bool" where
  "ccmp_qc_exists pHdr \<longleftrightarrow> ccmp_type pHdr = 2 \<and>
     (ccmp_subtype pHdr = 8 \<or> ccmp_subtype pHdr = 9 \<or> ccmp_subtype pHdr = 10 \<or> ccmp_subtype pHdr = 11)"

definition ccmp_aad :: "bytes \<Rightarrow> c_fault + bytes" where
  "ccmp_aad pHdr = RTMPConstructCCMPAAD pHdr (ccmp_type pHdr = 2) (ccmp_a4_exists pHdr) (ccmp_qc_exists pHdr)"

definition ccmp_nonce :: "bytes \<Rightarrow> bytes \<Rightarrow> c_fault + bytes" where
  "ccmp_nonce pHdr pn =
     RTMPConstructCCMPNonce pHdr (ccmp_a4_exists pHdr) (ccmp_qc_exists pHdr) (ccmp_type pHdr = 0) pn"

text \<open>
  The result is the return value and the data buffer. The cipher works in place; it reads the whole
  text for the MIC and then every block before it writes it.
\<close>

definition RTMPSoftEncryptCCMP ::
    "bytes \<Rightarrow> bytes \<Rightarrow> bytes \<Rightarrow> bytes \<Rightarrow> nat \<Rightarrow> c_fault + bool \<times> bytes" where
  "RTMPSoftEncryptCCMP pHdr pIV pKey pData DataLen =
     (if length pHdr < 2 then Inl OOBRead
      else
        f_bind (ccmp_aad pHdr) (\<lambda>aad_hdr.
        f_bind (ccmp_nonce pHdr pIV) (\<lambda>nonce_hdr.
        f_bind (AES_CCM_Encrypt pData DataLen pKey 16 nonce_hdr (length nonce_hdr)
                  aad_hdr (length aad_hdr) 8 pData ((DataLen + 8) mod 2 ^ 32)) (\<lambda>(ret, buf, _).
        Inr (ret = 0, buf)))))"

text \<open>
  The plaintext is written over the CCMP header, eight bytes below the byte being read. The result is
  the return value, the buffer and the byte count, a \<^verbatim>\<open>uint16_t\<close>.
\<close>

definition RTMPSoftDecryptCCMP ::
    "bytes \<Rightarrow> cipher_key \<Rightarrow> bytes \<Rightarrow> u16 \<Rightarrow> c_fault + bool \<times> bytes \<times> u16" where
  "RTMPSoftDecryptCCMP pHdr pKey pData DataLen =
     (if ck_KeyLen pKey = 0 then Inr (False, pData, DataLen)
      else if length pHdr < 2 \<or> length pData < 8 then Inl OOBRead
      else
        let pn = [pData ! 0, pData ! 1, pData ! 4, pData ! 5, pData ! 6, pData ! 7];
            cipherData_len = unat ((ucast DataLen :: u32) - 8)
        in if DataLen \<le> 8 then Inr (False, pData, DataLen)
           else
             f_bind (ccmp_aad pHdr) (\<lambda>aad_hdr.
             f_bind (ccmp_nonce pHdr pn) (\<lambda>nonce_hdr.
             f_bind (AES_CCM_Decrypt (drop 8 pData) cipherData_len (ck_Key pKey) 16
                       nonce_hdr (length nonce_hdr) aad_hdr (length aad_hdr) 8 pData (unat DataLen))
               (\<lambda>(ret, buf, out_len).
                  if ret \<noteq> 0 then Inr (False, buf, DataLen)
                  else Inr (True, buf, word_of_nat out_len)))))"

subsection \<open>CCM in a larger buffer\<close>

lemma AES_CCM_MAC_take:
  assumes "plen \<le> length Payload"
  shows "AES_CCM_MAC Payload plen Key klen Nonce nlen AAD alen mlen =
     AES_CCM_MAC (take plen Payload) plen Key klen Nonce nlen AAD alen mlen"
proof -
  have e: "take plen (take plen Payload) = take plen Payload" by simp
  have l: "length (take plen Payload) < plen \<longleftrightarrow> length Payload < plen" using assms by simp
  show ?thesis unfolding AES_CCM_MAC_def e l by (rule refl)
qed

lemma AES_CCM_Encrypt_buffer:
  assumes "ccm_params Key nonce aad mlen" "length msg + mlen < 2 ^ 32"
    "length msg + mlen \<le> ctl" "length msg + mlen \<le> length C"
  shows "AES_CCM_Encrypt (msg @ room) (length msg) Key 16 nonce (length nonce) aad (length aad) mlen C ctl =
    Inr (0, ccm_seal (aes_enc_block Key 16) nonce aad mlen msg @ drop (length msg + mlen) C,
         length msg + mlen)"
proof -
  have t: "take (length msg) (msg @ room) = msg" "take (length msg) msg = msg" by simp_all
  have "AES_CCM_Encrypt (msg @ room) (length msg) Key 16 nonce (length nonce) aad (length aad) mlen C ctl =
      AES_CCM_Encrypt msg (length msg) Key 16 nonce (length nonce) aad (length aad) mlen C ctl"
    unfolding AES_CCM_Encrypt_def t
      AES_CCM_MAC_take [of "length msg" "msg @ room", unfolded t, simplified]
    by (rule refl)
  then show ?thesis using AES_CCM_Encrypt_eq [OF assms] by simp
qed

lemma AES_CCM_Decrypt_buffer:
  assumes "ccm_params Key nonce aad mlen" "length C < 2 ^ 32" "mlen \<le> length C"
    "length C - mlen \<le> ptl" "length C - mlen \<le> length P"
  defines "E \<equiv> aes_enc_block Key 16" and "c \<equiv> ccm_ctr0 nonce (length nonce)"
  defines "msg \<equiv> ctr_xor E c (take (length C - mlen) C)"
  shows "AES_CCM_Decrypt (C @ room) (length C) Key 16 nonce (length nonce) aad (length aad) mlen P ptl =
    Inr (if xor_bytes (drop (length C - mlen) C) (take mlen (E c)) \<noteq> rfc3610_mac E nonce aad mlen msg
         then - 5 else 0, msg @ drop (length C - mlen) P, length C - mlen)"
proof -
  have k: "16 \<le> length Key" "7 \<le> length nonce" "length nonce \<le> 13" "ccm_mac_len_ok mlen"
    "length aad < 0xFF00"
    using assms(1) by (simp_all add: ccm_params_def)
  have c: "length c = 16" using k by (simp add: c_def length_ccm_ctr0)
  have e: "ccm_encrypt_block Key 16 c = Inr (E c)"
    using k c by (simp add: E_def ccm_encrypt_block_ok)
  have pl: "nat ((int (length C) - int mlen) mod 2 ^ 32) = length C - mlen"
    using assms(2,3) by (subst mod_pos_pos_trivial) simp_all
  have ml: "length msg = length C - mlen" by (simp add: msg_def E_def)
  have tk: "take (length C - mlen) (C @ room) = take (length C - mlen) C" by simp
  have loop: "ccm_ctr_loop Key 16 c (take (length C - mlen) C) = Inr msg"
    by (simp add: ccm_ctr_loop_eq [OF k(1) c] msg_def E_def)
  have mac: "AES_CCM_MAC (msg @ drop (length C - mlen) P) (length C - mlen) Key 16 nonce (length nonce)
      aad (length aad) mlen = Inr (rfc3610_mac E nonce aad mlen msg)"
    using ml assms(2) AES_CCM_MAC_eq [OF k(1-4) _ k(5), of msg]
    by (subst AES_CCM_MAC_take) (simp_all add: E_def)
  have sl: "slice_at (length C - mlen) mlen (C @ room) = drop (length C - mlen) C"
    using assms(3) by (simp add: slice_at_def)
  have b: "(length nonce < 7 \<or> 13 < length nonce) = False" "(ptl < length C - mlen) = False"
      "(length C < mlen \<or> length (C @ room) < length C) = False" "(length P < length C - mlen) = False"
    using k assms by simp_all
  show ?thesis
    using k(4)
    by (simp only: AES_CCM_Decrypt_def pl c_def [symmetric] b e loop tk sl mac Let_def if_False
        sum.case simp_thms less_irrefl)
qed

subsection \<open>The cipher of the standard\<close>

text \<open>
  IEEE 802.11, 11.4.3: the mutable bits of the header are masked, the Protected bit is set; the nonce
  is priority, transmitter and packet number, high byte first.
\<close>

definition ccmp_qc_at :: "bytes \<Rightarrow> nat" where
  "ccmp_qc_at hdr = (if ccmp_a4_exists hdr then 30 else 24)"

definition ccmp_hdr_ok :: "bytes \<Rightarrow> bool" where
  "ccmp_hdr_ok hdr \<longleftrightarrow> ccmp_qc_at hdr + (if ccmp_qc_exists hdr then 2 else 0) \<le> length hdr"

definition std_aad :: "bytes \<Rightarrow> bytes" where
  "std_aad hdr =
     [if ccmp_type hdr = 2 then hdr ! 0 AND 0x8f else hdr ! 0, (hdr ! 1 AND 0xc7) OR 0x40] @
     slice_at 4 6 hdr @ slice_at 10 6 hdr @ slice_at 16 6 hdr @ [hdr ! 22 AND 0x0f, 0] @
     (if ccmp_a4_exists hdr then slice_at 24 6 hdr else []) @
     (if ccmp_qc_exists hdr then [hdr ! ccmp_qc_at hdr AND 0x0f, 0] else [])"

definition std_nonce :: "bytes \<Rightarrow> bytes \<Rightarrow> bytes" where
  "std_nonce hdr pn =
     (if ccmp_qc_exists hdr then hdr ! ccmp_qc_at hdr AND 0x0f else 0) # slice_at 10 6 hdr @ rev pn"

text \<open>
  Two headers of one frame, as sent the first time and as received: the retry, power management and
  more-data bits, the duration, the sequence number and the upper QoS bits may differ.
\<close>

definition same_mpdu :: "bytes \<Rightarrow> bytes \<Rightarrow> bool" where
  "same_mpdu hdr hdr' \<longleftrightarrow> length hdr' = length hdr \<and> hdr' ! 0 = hdr ! 0 \<and>
     hdr' ! 1 AND 0xc7 = hdr ! 1 AND 0xc7 \<and> slice_at 4 18 hdr' = slice_at 4 18 hdr \<and>
     hdr' ! 22 AND 0x0f = hdr ! 22 AND 0x0f \<and>
     (ccmp_a4_exists hdr \<longrightarrow> slice_at 24 6 hdr' = slice_at 24 6 hdr) \<and>
     (ccmp_qc_exists hdr \<longrightarrow>
       hdr' ! ccmp_qc_at hdr AND 0x0f = hdr ! ccmp_qc_at hdr AND 0x0f)"

lemma slice_4_18: "slice_at 4 6 hdr @ slice_at 10 6 hdr @ slice_at 16 6 hdr = slice_at 4 18 hdr"
proof -
  have "take 18 (drop 4 hdr) = take (6 + 6 + 6) (drop 4 hdr)" by simp
  then show ?thesis
    by (simp only: slice_at_def take_add drop_drop append_assoc) (simp add: add.commute)
qed

lemma ccmp_aad_std:
  assumes "ccmp_hdr_ok hdr"
  shows "ccmp_aad hdr = Inr (std_aad hdr)"
  using assms slice_4_18 [of hdr]
  by (auto simp: ccmp_aad_def RTMPConstructCCMPAAD_def std_aad_def ccmp_hdr_ok_def ccmp_qc_at_def)

lemma ccmp_nonce_std:
  assumes "ccmp_hdr_ok hdr" "6 \<le> length pn"
  shows "ccmp_nonce hdr pn = Inr (std_nonce hdr (take 6 pn))"
  using assms
  by (auto simp: ccmp_nonce_def RTMPConstructCCMPNonce_def std_nonce_def ccmp_hdr_ok_def ccmp_qc_at_def)

lemma same_mpdu_flags:
  assumes "same_mpdu hdr hdr'"
  shows "ccmp_a4_exists hdr' = ccmp_a4_exists hdr" "ccmp_qc_exists hdr' = ccmp_qc_exists hdr"
    "ccmp_type hdr' = ccmp_type hdr"
proof -
  have m: "x AND 0x2 = (x AND 0xc7) AND 0x2" "x AND 0x1 = (x AND 0xc7) AND 0x1" for x :: u8
    by (simp_all add: and.assoc)
  show "ccmp_a4_exists hdr' = ccmp_a4_exists hdr"
    using assms m [of "hdr ! 1"] m [of "hdr' ! 1"] unfolding ccmp_a4_exists_def same_mpdu_def by metis
  show "ccmp_qc_exists hdr' = ccmp_qc_exists hdr" "ccmp_type hdr' = ccmp_type hdr"
    using assms by (simp_all add: ccmp_qc_exists_def ccmp_type_def ccmp_subtype_def same_mpdu_def)
qed

lemma same_mpdu_std:
  assumes "same_mpdu hdr hdr'"
  shows "std_aad hdr' = std_aad hdr" "std_nonce hdr' pn = std_nonce hdr pn"
    "ccmp_hdr_ok hdr' = ccmp_hdr_ok hdr"
proof -
  note f = same_mpdu_flags [OF assms]
  have qc: "ccmp_qc_at hdr' = ccmp_qc_at hdr" by (simp add: ccmp_qc_at_def f)
  have s18: "slice_at 4 18 hdr' = slice_at 4 18 hdr" using assms by (simp add: same_mpdu_def)
  have "slice_at 10 6 hdr = take 6 (drop 6 (slice_at 4 18 hdr))" for hdr :: bytes
    by (simp add: slice_at_def drop_take)
  then have a2: "slice_at 10 6 hdr' = slice_at 10 6 hdr" using s18 by metis
  show "std_aad hdr' = std_aad hdr"
    using assms slice_4_18 [of hdr] slice_4_18 [of hdr'] s18
    by (simp add: std_aad_def f qc same_mpdu_def flip: append_assoc)
  show "std_nonce hdr' pn = std_nonce hdr pn"
    using assms by (simp add: std_nonce_def f qc a2 same_mpdu_def)
  show "ccmp_hdr_ok hdr' = ccmp_hdr_ok hdr"
    using assms by (simp add: ccmp_hdr_ok_def f qc same_mpdu_def)
qed

lemma ccmp_params_ok:
  assumes "16 \<le> length Key" "ccmp_hdr_ok hdr" "length pn = 6"
  shows "ccm_params Key (std_nonce hdr pn) (std_aad hdr) 8"
  using assms
  by (auto simp: ccm_params_def ccm_mac_len_ok_def std_nonce_def std_aad_def ccmp_hdr_ok_def
      ccmp_qc_at_def split: if_splits)

subsection \<open>What the data paths do\<close>

definition ccmp_seal :: "bytes \<Rightarrow> bytes \<Rightarrow> bytes \<Rightarrow> bytes \<Rightarrow> bytes" where
  "ccmp_seal key hdr pn msg = ccm_seal (aes_enc_block key 16) (std_nonce hdr pn) (std_aad hdr) 8 msg"

definition ccmp_stream :: "bytes \<Rightarrow> bytes \<Rightarrow> bytes \<Rightarrow> bytes \<Rightarrow> bytes" where
  "ccmp_stream key hdr pn xs =
     ctr_xor (aes_enc_block key 16) (ccm_ctr0 (std_nonce hdr pn) (length (std_nonce hdr pn))) xs"

lemma length_ccmp_seal [simp]: "length (ccmp_seal key hdr pn msg) = length msg + 8"
  by (simp add: ccmp_seal_def length_ccm_seal)

lemma length_ccmp_stream [simp]: "length (ccmp_stream key hdr pn xs) = length xs"
  by (simp add: ccmp_stream_def)

lemma RTMPSoftEncryptCCMP_eq:
  assumes "16 \<le> length key" "ccmp_hdr_ok hdr" "6 \<le> length pn" "8 \<le> length room"
    and "length msg + 8 < 2 ^ 32"
  shows "RTMPSoftEncryptCCMP hdr pn key (msg @ room) (length msg) =
    Inr (True, ccmp_seal key hdr (take 6 pn) msg @ drop 8 room)"
proof -
  have p: "ccm_params key (std_nonce hdr (take 6 pn)) (std_aad hdr) 8"
    using assms(1,2,3) by (intro ccmp_params_ok) simp_all
  have h: "(length hdr < 2) = False"
    using assms(2) by (auto simp: ccmp_hdr_ok_def ccmp_qc_at_def split: if_splits)
  have ctl: "(length msg + 8) mod 2 ^ 32 = length msg + 8" using assms(5) by simp
  show ?thesis
    using AES_CCM_Encrypt_buffer [OF p, of msg "length msg + 8" "msg @ room" room] assms(4,5)
    by (simp only: RTMPSoftEncryptCCMP_def h if_False ccmp_aad_std [OF assms(2)]
        ccmp_nonce_std [OF assms(2,3)] f_bind_simps ctl prod.case)
      (simp add: ccmp_seal_def)
qed

lemma RTMPSoftDecryptCCMP_eq:
  fixes tail :: bytes
  assumes key: "0 < ck_KeyLen k" "16 \<le> length (ck_Key k)" and hdr: "ccmp_hdr_ok hdr"
    and ch: "RTMPConstructCCMPHdr idx pn = Inr ch" and n: "length body = n + 8" "n + 16 < 65536"
  defines "p \<equiv> ccmp_stream (ck_Key k) hdr (take 6 pn) (take n body)"
  shows "RTMPSoftDecryptCCMP hdr k (ch @ body @ tail) (word_of_nat (n + 16)) =
    (if body = ccmp_seal (ck_Key k) hdr (take 6 pn) p
     then Inr (True, p @ drop n (ch @ body @ tail), word_of_nat n)
     else Inr (False, p @ drop n (ch @ body @ tail), word_of_nat (n + 16)))"
proof -
  have pn: "6 \<le> length pn" using ch by (simp add: RTMPConstructCCMPHdr_def split: if_splits)
  then obtain a b c d e f r where pnl: "pn = a # b # c # d # e # f # r"
    by (auto simp: numeral_eq_Suc Suc_le_length_iff)
  have pn6: "length (take 6 pn) = 6" using pn by simp
  have chl: "length ch = 8" and pnv: "[(ch @ body @ tail) ! 0, (ch @ body @ tail) ! 1,
      (ch @ body @ tail) ! 4, (ch @ body @ tail) ! 5, (ch @ body @ tail) ! 6, (ch @ body @ tail) ! 7] =
      take 6 pn"
    using ch by (auto simp: RTMPConstructCCMPHdr_def pnl)
  have pr: "ccm_params (ck_Key k) (std_nonce hdr (take 6 pn)) (std_aad hdr) 8"
    using key(2) hdr pn6 by (rule ccmp_params_ok)
  have cnt: "unat ((ucast (word_of_nat (n + 16) :: u16) :: u32) - 8) = n + 8"
  proof -
    have "(ucast (word_of_nat (n + 16) :: u16) :: u32) = word_of_nat (n + 16)"
      using n(2) by (simp add: ucast_eq uint_nat unat_of_nat_u16 del: of_nat_add)
    then have "(ucast (word_of_nat (n + 16) :: u16) :: u32) - 8 = word_of_nat (n + 8)" by simp
    then show ?thesis
      using n(2) by (simp add: unsigned_of_nat take_bit_nat_eq_self del: of_nat_add)
  qed
  have u: "unat (word_of_nat (n + 16) :: u16) = n + 16" using n(2) by (simp only: unat_of_nat_u16)
  have gt: "((word_of_nat (n + 16) :: u16) \<le> 8) = False"
    by (simp only: word_le_nat_alt u) simp
  have g: "(length hdr < 2 \<or> length (ch @ body @ tail) < 8) = False" "(ck_KeyLen k = 0) = False"
    using hdr key chl by (auto simp: ccmp_hdr_ok_def ccmp_qc_at_def split: if_splits)
  have d8: "drop 8 (ch @ body @ tail) = body @ tail" using chl by simp
  have lb: "length body - 8 = n" "length body < 2 ^ 32" "8 \<le> length body" using n by simp_all
  let ?E = "aes_enc_block (ck_Key k) 16" and ?nc = "std_nonce hdr (take 6 pn)"
  let ?c = "ccm_ctr0 ?nc (length ?nc)"
  have dec: "AES_CCM_Decrypt (body @ tail) (n + 8) (ck_Key k) 16 ?nc (length ?nc) (std_aad hdr)
      (length (std_aad hdr)) 8 (ch @ body @ tail) (n + 16) =
    Inr (if xor_bytes (drop n body) (take 8 (?E ?c)) \<noteq> rfc3610_mac ?E ?nc (std_aad hdr) 8 p
         then - 5 else 0, p @ drop n (ch @ body @ tail), n)"
    using AES_CCM_Decrypt_buffer [OF pr lb(2,3), of "n + 16" "ch @ body @ tail" tail] n chl
    by (simp add: p_def ccmp_stream_def)
  have lp: "length p = n" using n by (simp add: p_def)
  have "ctr_xor ?E ?c (take (length p) body) = p" unfolding lp by (simp add: p_def ccmp_stream_def)
  then have seal: "xor_bytes (drop n body) (take 8 (?E ?c)) = rfc3610_mac ?E ?nc (std_aad hdr) 8 p
      \<longleftrightarrow> body = ccmp_seal (ck_Key k) hdr (take 6 pn) p"
    using ccm_open_seal [of 8 body p "ck_Key k" ?nc "std_aad hdr"] n lp
    by (simp add: ccmp_seal_def)
  have take6: "take 6 (take 6 pn) = take 6 pn" by simp
  show ?thesis
    by (simp only: RTMPSoftDecryptCCMP_def g if_False Let_def pnv cnt gt d8 u
        ccmp_aad_std [OF hdr] ccmp_nonce_std [OF hdr order_eq_refl [OF pn6 [symmetric]]] take6
        f_bind_simps dec prod.case seal) simp
qed

lemma ccmp_stream_seal:
  assumes "length msg = n"
  shows "ccmp_stream key hdr pn (take n (ccmp_seal key hdr pn msg)) = msg"
  using assms
  by (simp add: ccmp_stream_def ccmp_seal_def ccm_seal_def aes.ctr_xor_involution)

subsection \<open>Properties\<close>



text \<open>The three constructors on the test vector of \<^verbatim>\<open>CCMP_test_vector\<close>.\<close>

lemma ccmp_test_vector:
  defines "HDR \<equiv> [0x08, 0x48, 0xc3, 0x2c, 0x0f, 0xd2, 0xe1, 0x28, 0xa5, 0x7c, 0x50, 0x30, 0xf1, 0x84,
    0x44, 0x08, 0xab, 0xae, 0xa5, 0xb8, 0xfc, 0xba, 0x80, 0x33]"
  defines "PN \<equiv> [0x0C, 0xE7, 0x76, 0x97, 0x03, 0xB5]"
  shows "RTMPConstructCCMPAAD HDR True False False = Inr
      [0x08, 0x40, 0x0f, 0xd2, 0xe1, 0x28, 0xa5, 0x7c, 0x50, 0x30, 0xf1, 0x84, 0x44, 0x08, 0xab, 0xae,
       0xa5, 0xb8, 0xfc, 0xba, 0x00, 0x00]"
    and "RTMPConstructCCMPNonce HDR False False False PN = Inr
      [0x00, 0x50, 0x30, 0xf1, 0x84, 0x44, 0x08, 0xb5, 0x03, 0x97, 0x76, 0xe7, 0x0c]"
    and "RTMPConstructCCMPHdr 0 PN = Inr [0x0c, 0xe7, 0x00, 0x20, 0x76, 0x97, 0x03, 0xb5]"
  by (simp_all add: HDR_def PN_def RTMPConstructCCMPAAD_def RTMPConstructCCMPNonce_def
      RTMPConstructCCMPHdr_def slice_at_def)

end
