(* ===== verification/SoftCipher.thy ===== *)
theory SoftCipher
  imports Ccmp Eapol
begin

text \<open>
  The software cipher of \<^verbatim>\<open>common/cmm_wpa.c\<close>: the selection of the key for a received frame
  (\<^verbatim>\<open>RTMPExtractKeyIdxFromIVHdr\<close>, \<^verbatim>\<open>RTMPSwCipherKeySelection\<close>) and the dispatch of a frame to
  WEP, TKIP or CCMP (\<^verbatim>\<open>RTMPSoftConstructIVHdr\<close>, \<^verbatim>\<open>RTMPSoftEncryptionAction\<close>,
  \<^verbatim>\<open>RTMPSoftDecryptionAction\<close>). What the dispatch seals it opens for WEP and CCMP; with TKIP it
  reports failure for every frame, the ones it has opened included.
\<close>

subsection \<open>Key selection\<close>

definition RTMPExtractKeyIdxFromIVHdr :: "bytes \<Rightarrow> wep_status \<Rightarrow> u8" where
  "RTMPExtractKeyIdxFromIVHdr pIV alg =
     (if alg \<in> {WEPEnabled, TKIPEnable, AESEnable, GroupWEP40Enabled, GroupWEP104Enabled}
      then drop_bit 6 (pIV ! 3 AND 0xc0) else 0xFF)"

text \<open>What the function returns a pointer to, and the flags of the receive block it tests.\<close>

datatype key_ref = SharedKeyRef nat u8 | PairwiseKeyRef

record sw_rx =
  fRX_APCLI :: bool
  fRX_WDS :: bool
  fRX_MESH :: bool
  rx_U2M :: bool

text \<open>
  \<open>pEntry\<close> is the network index and the cipher of the sender's entry; \<open>opmode_sta\<close> and \<open>GroupCipher\<close>
  the operation mode and the group cipher of the station.
\<close>

definition RTMPSwCipherKeySelection ::
    "bool \<Rightarrow> wep_status \<Rightarrow> bytes \<Rightarrow> sw_rx \<Rightarrow> (nat \<times> wep_status) option \<Rightarrow> c_fault + key_ref option" where
  "RTMPSwCipherKeySelection opmode_sta GroupCipher pIV pRxBlk pEntry =
     (case pEntry of
        None \<Rightarrow> Inr None
      | Some (apidx, WepStatus) \<Rightarrow>
          if fRX_APCLI pRxBlk \<or> fRX_WDS pRxBlk \<or> fRX_MESH pRxBlk then Inr None
          else
            let alg = (if rx_U2M pRxBlk then WepStatus
                       else if opmode_sta then GroupCipher else WEPDisabled)
            in if alg \<in> {WEPEnabled, TKIPEnable, AESEnable, GroupWEP40Enabled, GroupWEP104Enabled} \<and>
                  length pIV < 4 then Inl OOBRead
               else
                 let keyIdx = RTMPExtractKeyIdxFromIVHdr pIV alg
                 in if 3 < keyIdx then Inr None
                    else if alg \<in> {WEPEnabled, GroupWEP40Enabled, GroupWEP104Enabled}
                    then Inr (Some (SharedKeyRef apidx keyIdx))
                    else if alg \<in> {TKIPEnable, AESEnable}
                    then Inr (Some (if rx_U2M pRxBlk then PairwiseKeyRef else SharedKeyRef apidx keyIdx))
                    else Inr None)"

subsection \<open>Dispatch\<close>

text \<open>
  The cipher of a key is one byte: 1 and 2 are WEP, 3 is TKIP, 4 is AES. \<open>ctx_ok\<close>, \<open>seed_ok\<close> and
  \<open>junk\<close> are the allocations of WEP and the memory they return, \<open>Tx\<close> the Michael state. The result is the status,
  the buffer, the byte count, the Michael state and whether a MIC failure was reported.
\<close>

definition RTMPSoftDecryptionAction ::
    "bool \<Rightarrow> bool \<Rightarrow> arc4_ctx \<Rightarrow> tkip_info \<Rightarrow> bytes \<Rightarrow> u8 \<Rightarrow> soft_key \<Rightarrow> bytes \<Rightarrow> u16 \<Rightarrow>
     c_fault + nat \<times> bytes \<times> u16 \<times> tkip_info \<times> bool" where
  "RTMPSoftDecryptionAction ctx_ok seed_ok junk Tx pHdr UserPriority pKey pData DataByteCnt =
     (if ck_CipherAlg pKey = 1 \<or> ck_CipherAlg pKey = 2
      then f_bind (RTMPSoftDecryptWEP ctx_ok seed_ok junk (cipher_key.truncate pKey) pData DataByteCnt)
             (\<lambda>(ok, buf, cnt).
               Inr (if ok then NDIS_STATUS_SUCCESS else NDIS_STATUS_FAILURE, buf, cnt, Tx, False))
      else if ck_CipherAlg pKey = 3
      then f_bind (RTMPSoftDecryptTKIP Tx pHdr UserPriority pKey pData DataByteCnt)
             (\<lambda>(ret, buf, cnt, tx, rep).
               let NStatus = (of_bool ret :: nat)
               in Inr (if NStatus = NDIS_STATUS_FAILURE then NDIS_STATUS_FAILURE
                       else if NStatus = NDIS_STATUS_MICERROR then NDIS_STATUS_MICERROR
                       else NDIS_STATUS_SUCCESS, buf, cnt, tx, rep))
      else if ck_CipherAlg pKey = 4
      then f_bind (RTMPSoftDecryptCCMP pHdr (cipher_key.truncate pKey) pData DataByteCnt)
             (\<lambda>(ok, buf, cnt).
               Inr (if ok then NDIS_STATUS_SUCCESS else NDIS_STATUS_FAILURE, buf, cnt, Tx, False))
      else Inr (NDIS_STATUS_FAILURE, pData, DataByteCnt, Tx, False))"

text \<open>The bytes written at \<open>pHdrIv\<close>; their number is \<^verbatim>\<open>*hdr_iv_len\<close>.\<close>

definition RTMPSoftConstructIVHdr :: "u8 \<Rightarrow> u8 \<Rightarrow> bytes \<Rightarrow> c_fault + bytes" where
  "RTMPSoftConstructIVHdr alg key_id pTxIv =
     (if alg = 1 \<or> alg = 2 then RTMPConstructWEPIVHdr key_id pTxIv
      else if alg = 3 then Inr []
      else if alg = 4 then RTMPConstructCCMPHdr key_id pTxIv
      else Inr [])"

text \<open>The buffer and \<^verbatim>\<open>*ext_len\<close>; the return values of the two ciphers are dropped.\<close>

definition RTMPSoftEncryptionAction ::
    "bool \<Rightarrow> bool \<Rightarrow> arc4_ctx \<Rightarrow> u8 \<Rightarrow> bytes \<Rightarrow> bytes \<Rightarrow> nat \<Rightarrow> soft_key \<Rightarrow> c_fault + bytes \<times> nat" where
  "RTMPSoftEncryptionAction ctx_ok seed_ok junk alg pHdr pSrcBufData SrcBufLen pKey =
     (if alg = 1 \<or> alg = 2
      then f_bind (RTMPSoftEncryptWEP ctx_ok seed_ok junk (ck_TxTsc pKey) (cipher_key.truncate pKey)
                     pSrcBufData SrcBufLen) (\<lambda>(_, buf). Inr (buf, 4))
      else if alg = 3 then Inr (pSrcBufData, 0)
      else if alg = 4
      then f_bind (RTMPSoftEncryptCCMP pHdr (ck_TxTsc pKey) (ck_Key pKey) pSrcBufData SrcBufLen)
             (\<lambda>(_, buf). Inr (buf, 8))
      else Inr (pSrcBufData, 0))"

subsection \<open>The key index\<close>

lemma small_index:
  assumes "(idx :: u8) < 4"
  shows "idx = 0 \<or> idx = 1 \<or> idx = 2 \<or> idx = 3"
proof -
  have "unat idx < 4" using assms by (simp add: word_less_nat_alt)
  then have "unat idx = 0 \<or> unat idx = 1 \<or> unat idx = 2 \<or> unat idx = 3" by arith
  then show ?thesis by (simp add: word_unat_eq_iff)
qed

lemma key_index_bits:
  assumes "idx < 4"
  shows "drop_bit 6 (push_bit 6 (idx :: u8) AND 0xc0) = idx"
    "drop_bit 6 ((push_bit 6 idx OR 0x20) AND 0xc0) = idx"
  using small_index [OF assms] by auto

text \<open>A frame selects the key its header names, wherever that key is kept.\<close>

lemma RTMPSwCipherKeySelection_index:
  assumes "RTMPSwCipherKeySelection sta gc pIV rx ent = Inr (Some (SharedKeyRef apidx idx))"
  shows "idx \<le> 3 \<and> idx = drop_bit 6 (pIV ! 3 AND 0xc0) \<and> (\<exists>ws. ent = Some (apidx, ws))"
  using assms
  by (auto simp: RTMPSwCipherKeySelection_def RTMPExtractKeyIdxFromIVHdr_def Let_def not_less
      split: option.splits if_splits)

subsection \<open>The dispatch is a cipher\<close>

definition soft_key_ok :: "soft_key \<Rightarrow> bool" where
  "soft_key_ok k \<longleftrightarrow> length (ck_TxTsc k) = 16 \<and>
     ((ck_CipherAlg k = 1 \<or> ck_CipherAlg k = 2) \<and> wep_key_ok (cipher_key.truncate k) \<or>
      ck_CipherAlg k = 4 \<and> 0 < ck_KeyLen k \<and> 16 \<le> length (ck_Key k))"

lemma soft_wep_roundtrip:
  assumes alg: "ck_CipherAlg k = 1 \<or> ck_CipherAlg k = 2" and key: "wep_key_ok (cipher_key.truncate k)"
    and tsc: "length (ck_TxTsc k) = 16" and room: "4 \<le> length room" and n: "length msg + 8 < 65536"
  shows "\<exists>ch C buf.
    RTMPSoftConstructIVHdr (ck_CipherAlg k) idx (ck_TxTsc k) = Inr ch \<and> length ch = 4 \<and>
    ch ! 3 = push_bit 6 idx \<and>
    RTMPSoftEncryptionAction True True junk (ck_CipherAlg k) hdr (msg @ room) (length msg) k =
      Inr (C @ drop 4 room, 4) \<and> length C = length msg + 4 \<and>
    RTMPSoftDecryptionAction True True junk' Tx hdr' prio k (ch @ C) (word_of_nat (length msg + 8)) =
      Inr (NDIS_STATUS_SUCCESS, buf, word_of_nat (length msg), Tx, False) \<and>
    take (length msg) buf = msg"
proof -
  let ?k = "cipher_key.truncate k" and ?ch = "take 3 (ck_TxTsc k) @ [push_bit 6 idx]"
  have l3: "3 \<le> length (ck_TxTsc k)" "3 \<le> length ?ch" "length ?ch = 4" using tsc by simp_all
  obtain ctx where ctx: "RTMPInitWepEngine True (ck_TxTsc k) (ck_Key ?k) (ck_KeyLen ?k) junk = Inr ctx"
    using wep_engine_Inr [OF key l3(1)] by blast
  have ctx': "RTMPInitWepEngine True ?ch (ck_Key ?k) (ck_KeyLen ?k) junk' = Inr ctx"
    using ctx tsc unfolding wep_engine_eq [OF key l3(1)] wep_engine_eq [OF key l3(2)] by simp
  let ?C = "snd (ARC4_Compute ctx (msg @ wep_icv msg))"
  have C: "length ?C = length msg + 4" by simp
  have open': "snd (ARC4_Compute ctx ?C) = msg @ wep_icv msg" by (rule arc4.crypt_crypt)
  have enc: "RTMPSoftEncryptWEP True True junk (ck_TxTsc k) ?k (msg @ room) (length msg) =
      Inr (True, ?C @ drop 4 room)"
    using wep_encrypt_eq [OF key l3(1) room ctx] .
  have dec: "RTMPSoftDecryptWEP True True junk' ?k (?ch @ ?C) (word_of_nat (length msg + 8)) =
      Inr (True, (msg @ wep_icv msg) @ drop (length msg + 4) (?ch @ ?C), word_of_nat (length msg))"
    using wep_decrypt_eq [OF key l3(3) C n ctx'] open' by simp
  show ?thesis
    using alg enc dec C tsc
    by (intro exI [of _ ?ch] exI [of _ ?C]
        exI [of _ "(msg @ wep_icv msg) @ drop (length msg + 4) (?ch @ ?C)"])
      (auto simp: RTMPSoftConstructIVHdr_def RTMPConstructWEPIVHdr_def RTMPSoftEncryptionAction_def
        RTMPSoftDecryptionAction_def nth_append)
qed

lemma soft_ccmp_roundtrip:
  assumes alg: "ck_CipherAlg k = 4" and key: "0 < ck_KeyLen k" "16 \<le> length (ck_Key k)"
    and tsc: "length (ck_TxTsc k) = 16" and room: "8 \<le> length room" and n: "length msg + 16 < 65536"
    and hdr: "ccmp_hdr_ok hdr" "same_mpdu hdr hdr'"
  shows "\<exists>ch C buf.
    RTMPSoftConstructIVHdr (ck_CipherAlg k) idx (ck_TxTsc k) = Inr ch \<and> length ch = 8 \<and>
    ch ! 3 = push_bit 6 idx OR 0x20 \<and>
    RTMPSoftEncryptionAction True True junk (ck_CipherAlg k) hdr (msg @ room) (length msg) k =
      Inr (C @ drop 8 room, 8) \<and> length C = length msg + 8 \<and>
    RTMPSoftDecryptionAction True True junk' Tx hdr' prio k (ch @ C) (word_of_nat (length msg + 16)) =
      Inr (NDIS_STATUS_SUCCESS, buf, word_of_nat (length msg), Tx, False) \<and>
    take (length msg) buf = msg"
proof -
  let ?k = "cipher_key.truncate k" and ?pn = "take 6 (ck_TxTsc k)"
  obtain ch where ch: "RTMPConstructCCMPHdr idx (ck_TxTsc k) = Inr ch" "length ch = 8"
      "ch ! 3 = push_bit 6 idx OR 0x20"
    using tsc by (simp add: RTMPConstructCCMPHdr_def)
  have k: "0 < ck_KeyLen ?k" "16 \<le> length (ck_Key ?k)" "ck_Key ?k = ck_Key k"
    using key by (simp_all add: cipher_key.truncate_def)
  let ?C = "ccmp_seal (ck_Key k) hdr ?pn msg"
  have enc: "RTMPSoftEncryptCCMP hdr (ck_TxTsc k) (ck_Key k) (msg @ room) (length msg) =
      Inr (True, ?C @ drop 8 room)"
    using key tsc room n hdr(1) by (intro RTMPSoftEncryptCCMP_eq) simp_all
  have same: "ccmp_seal (ck_Key k) hdr' ?pn m = ccmp_seal (ck_Key k) hdr ?pn m"
      "ccmp_stream (ck_Key k) hdr' ?pn m = ccmp_stream (ck_Key k) hdr ?pn m" for m
    by (simp_all add: ccmp_seal_def ccmp_stream_def same_mpdu_std [OF hdr(2)])
  have hdr': "ccmp_hdr_ok hdr'" using hdr same_mpdu_std(3) by blast
  have lC: "length ?C = length msg + 8" by simp
  have dec: "RTMPSoftDecryptCCMP hdr' ?k (ch @ ?C @ []) (word_of_nat (length msg + 16)) =
      Inr (True, msg @ drop (length msg) (ch @ ?C @ []), word_of_nat (length msg))"
    by (simp only: RTMPSoftDecryptCCMP_eq [OF k(1,2) hdr' ch(1) lC n] k(3) same
        ccmp_stream_seal [OF refl] if_True refl)
  show ?thesis
    using alg enc dec ch lC
    by (intro exI [of _ ch] exI [of _ ?C] exI [of _ "msg @ drop (length msg) (ch @ ?C @ [])"])
      (simp add: RTMPSoftConstructIVHdr_def RTMPSoftEncryptionAction_def RTMPSoftDecryptionAction_def)
qed

subsection \<open>Properties\<close>

text \<open>C12: for a WEP or an AES key, what \<^verbatim>\<open>RTMPSoftConstructIVHdr\<close> and
  \<^verbatim>\<open>RTMPSoftEncryptionAction\<close> make of a frame, \<^verbatim>\<open>RTMPSoftDecryptionAction\<close> opens: it reports
  success, the text and its length, and the header carries the index of the key; for AES also when
  the 802.11 header was changed as a retransmission may change it.\<close>

theorem soft_cipher_roundtrip:
  assumes "soft_key_ok k" "idx < 4" "ccmp_hdr_ok hdr" "same_mpdu hdr hdr'"
    and "8 \<le> length room" "length msg + 16 < 65536"
    and "alg = (if ck_CipherAlg k = 4 then AESEnable else WEPEnabled)"
  shows "\<exists>ch C ext buf.
    RTMPSoftConstructIVHdr (ck_CipherAlg k) idx (ck_TxTsc k) = Inr ch \<and>
    RTMPExtractKeyIdxFromIVHdr ch alg = idx \<and>
    RTMPSoftEncryptionAction True True junk (ck_CipherAlg k) hdr (msg @ room) (length msg) k =
      Inr (C @ drop ext room, ext) \<and> length C = length msg + ext \<and>
    RTMPSoftDecryptionAction True True junk' Tx hdr' prio k (ch @ C)
        (word_of_nat (length ch + length C)) =
      Inr (NDIS_STATUS_SUCCESS, buf, word_of_nat (length msg), Tx, False) \<and>
    take (length msg) buf = msg"
proof (cases "ck_CipherAlg k = 4")
  case True
  with assms(1) have k: "0 < ck_KeyLen k" "16 \<le> length (ck_Key k)" "length (ck_TxTsc k) = 16"
    by (auto simp: soft_key_ok_def)
  obtain ch C buf where r: "RTMPSoftConstructIVHdr (ck_CipherAlg k) idx (ck_TxTsc k) = Inr ch"
      "length ch = 8" "ch ! 3 = push_bit 6 idx OR 0x20"
      "RTMPSoftEncryptionAction True True junk (ck_CipherAlg k) hdr (msg @ room) (length msg) k =
        Inr (C @ drop 8 room, 8)" "length C = length msg + 8"
      "RTMPSoftDecryptionAction True True junk' Tx hdr' prio k (ch @ C) (word_of_nat (length msg + 16)) =
        Inr (NDIS_STATUS_SUCCESS, buf, word_of_nat (length msg), Tx, False)"
      "take (length msg) buf = msg"
    using soft_ccmp_roundtrip [OF True k assms(5,6,3,4)] by metis
  have "RTMPExtractKeyIdxFromIVHdr ch alg = idx"
    using True assms(7) key_index_bits [OF assms(2)] r(3) by (simp add: RTMPExtractKeyIdxFromIVHdr_def)
  moreover have "length ch + length C = length msg + 16" using r(2,5) by simp
  ultimately show ?thesis using r by metis
next
  case False
  with assms(1) have k: "ck_CipherAlg k = 1 \<or> ck_CipherAlg k = 2" "wep_key_ok (cipher_key.truncate k)"
      "length (ck_TxTsc k) = 16"
    by (auto simp: soft_key_ok_def)
  have b: "4 \<le> length room" "length msg + 8 < 65536" using assms(5,6) by simp_all
  obtain ch C buf where r: "RTMPSoftConstructIVHdr (ck_CipherAlg k) idx (ck_TxTsc k) = Inr ch"
      "length ch = 4" "ch ! 3 = push_bit 6 idx"
      "RTMPSoftEncryptionAction True True junk (ck_CipherAlg k) hdr (msg @ room) (length msg) k =
        Inr (C @ drop 4 room, 4)" "length C = length msg + 4"
      "RTMPSoftDecryptionAction True True junk' Tx hdr' prio k (ch @ C) (word_of_nat (length msg + 8)) =
        Inr (NDIS_STATUS_SUCCESS, buf, word_of_nat (length msg), Tx, False)"
      "take (length msg) buf = msg"
    using soft_wep_roundtrip [OF k b] by metis
  have "RTMPExtractKeyIdxFromIVHdr ch alg = idx"
    using False assms(7) key_index_bits [OF assms(2)] r(3) by (simp add: RTMPExtractKeyIdxFromIVHdr_def)
  moreover have "length ch + length C = length msg + 8" using r(2,5) by simp
  ultimately show ?thesis using r by metis
qed

definition ccmp_sample_key :: soft_key where
  "ccmp_sample_key = \<lparr>ck_Key = replicate 16 7, ck_KeyLen = 16, ck_TxMic = replicate 8 0,
     ck_RxMic = replicate 8 0, ck_TxTsc = replicate 16 9, ck_CipherAlg = 4\<rparr>"

lemma soft_cipher_roundtrip_witness:
  "\<exists>ch C ext buf.
    RTMPSoftConstructIVHdr (ck_CipherAlg ccmp_sample_key) 1 (ck_TxTsc ccmp_sample_key) = Inr ch \<and>
    RTMPExtractKeyIdxFromIVHdr ch AESEnable = 1 \<and>
    RTMPSoftEncryptionAction True True \<lparr>BlockIndex1 = 0, BlockIndex2 = 0, KeyBlock = []\<rparr>
        (ck_CipherAlg ccmp_sample_key) (replicate 24 8) ([72, 105] @ replicate 8 0)
        (length [72, 105 :: u8]) ccmp_sample_key =
      Inr (C @ drop ext (replicate 8 0), ext) \<and> length C = length [72, 105 :: u8] + ext \<and>
    RTMPSoftDecryptionAction True True \<lparr>BlockIndex1 = 0, BlockIndex2 = 0, KeyBlock = []\<rparr>
        \<lparr>tk_nBytesInM = 0, tk_K0 = 0, tk_K1 = 0, tk_L = 0, tk_R = 0, tk_M = 0, tk_MIC = []\<rparr>
        ((replicate 24 8)[1 := 0x18]) 0 ccmp_sample_key (ch @ C)
        (word_of_nat (length ch + length C)) =
      Inr (NDIS_STATUS_SUCCESS, buf, word_of_nat (length [72, 105 :: u8]),
        \<lparr>tk_nBytesInM = 0, tk_K0 = 0, tk_K1 = 0, tk_L = 0, tk_R = 0, tk_M = 0, tk_MIC = []\<rparr>, False) \<and>
    take (length [72, 105 :: u8]) buf = [72, 105]"
  by (rule soft_cipher_roundtrip)
    (simp_all add: soft_key_ok_def ccmp_sample_key_def ccmp_hdr_ok_def same_mpdu_def ccmp_qc_at_def
      ccmp_a4_exists_def ccmp_qc_exists_def ccmp_subtype_def ccmp_type_def slice_at_def nth_list_update)

text \<open>C37: a correctly sealed TKIP frame is opened by \<^verbatim>\<open>RTMPSoftDecryptTKIP\<close>, which writes the text
  and its length, and \<^verbatim>\<open>RTMPSoftDecryptionAction\<close> reports \<^verbatim>\<open>NDIS_STATUS_FAILURE\<close> for it: the
  function returns a \<^verbatim>\<open>bool\<close>, and \<open>true\<close> compares equal to that status. The callers drop the frame.\<close>

theorem tkip_success_reported_as_failure:
  assumes "ck_CipherAlg k = 3" "tkip_key_ok k" "hdr_ok hdr" "length iv = 8" "length msg + 20 < 65536"
    and "body = tkip_seal (ck_Key k) (ck_RxMic k) hdr iv prio msg"
  shows "\<exists>buf tx rep.
    RTMPSoftDecryptionAction ctx_ok seed_ok junk Tx hdr prio k (iv @ body) (word_of_nat (length msg + 20)) =
      Inr (NDIS_STATUS_FAILURE, buf, word_of_nat (length msg), tx, rep) \<and>
    take (length msg) buf = msg"
proof -
  let ?p = "tkip_stream (ck_Key k) hdr iv body" and ?n = "length msg"
  let ?plain = "msg @ tkip_mic (ck_RxMic k) hdr prio msg"
  have p: "?p = ?plain @ wep_icv ?plain"
    by (simp add: assms(6) tkip_seal_def Let_def tkip_stream_stream)
  have len: "length body = ?n + 12"
    by (simp add: assms(6) tkip_seal_def Let_def tkip_mic_def michael_def)
  have "\<exists>data. length data = ?n \<and> body = tkip_seal (ck_Key k) (ck_RxMic k) hdr iv prio data"
    using assms(6) by blast
  then have opens: "wep_icv (take (?n + 8) ?p) = drop (?n + 8) ?p \<and>
      tkip_mic (ck_RxMic k) hdr prio (take ?n ?p) = slice_at ?n 8 ?p"
    using tkip_open_iff [OF len assms(4), of "ck_Key k" hdr "ck_RxMic k" prio] by blast
  obtain tx rep where eq: "RTMPSoftDecryptTKIP Tx hdr prio k (iv @ body) (word_of_nat (?n + 20)) =
      Inr (True, put_at 0 ?p (iv @ body), word_of_nat ?n, tx, rep)"
    using RTMPSoftDecryptTKIP_eq [OF assms(2,3,4) len assms(5), of Tx prio "[]"] opens by auto
  have "take ?n (put_at 0 ?p (iv @ body)) = msg" by (simp add: put_at_def p)
  then show ?thesis
    using assms(1) eq
    by (simp add: RTMPSoftDecryptionAction_def NDIS_STATUS_FAILURE_def del: of_nat_add)
qed

lemma tkip_success_reported_as_failure_witness:
  "\<exists>buf tx rep.
    RTMPSoftDecryptionAction True True \<lparr>BlockIndex1 = 0, BlockIndex2 = 0, KeyBlock = []\<rparr>
      \<lparr>tk_nBytesInM = 0, tk_K0 = 0, tk_K1 = 0, tk_L = 0, tk_R = 0, tk_M = 0, tk_MIC = []\<rparr>
      (replicate 24 8) 0 tkip_sample_key ([0, 32, 1, 32, 0, 0, 0, 0] @ tkip_sample_body)
      (word_of_nat (length [7, 9 :: u8] + 20)) =
      Inr (NDIS_STATUS_FAILURE, buf, word_of_nat (length [7, 9 :: u8]), tx, rep) \<and>
    take (length [7, 9 :: u8]) buf = [7, 9]"
  by (rule tkip_success_reported_as_failure)
    (simp_all add: tkip_key_ok_def tkip_sample_key_def hdr_ok_def to_ds_def from_ds_def
      bit_numeral_rec tkip_sample_body_def)

text \<open>When WEP cannot allocate its context (or the key is empty), \<^verbatim>\<open>RTMPSoftEncryptionAction\<close>
  leaves the text in clear in the buffer and still reports the length of an ICV; with a TKIP key it
  never encrypts. The frame goes out unprotected.\<close>

theorem soft_encryption_failure_in_clear:
  "RTMPSoftEncryptionAction False seed_ok junk 1 hdr buf n k = Inr (buf, 4) \<and>
   RTMPSoftEncryptionAction False seed_ok junk 2 hdr buf n k = Inr (buf, 4) \<and>
   RTMPSoftEncryptionAction ctx_ok seed_ok junk 3 hdr buf n k = Inr (buf, 0)"
  by (simp add: RTMPSoftEncryptionAction_def RTMPSoftEncryptWEP_def)

end
