(* ===== verification/Links.thy ===== *)
theory Links
  imports Prelude
begin

text \<open>
  Lists in memory that are linked by a next pointer, as the command queue and the timer queue keep
  them: \<open>nx\<close> gives the successor of a node, a node is its address or its index in a pool. The lemmas
  say what the assignments that append, unlink and push a node do to the path from a first pointer.
\<close>

fun link_path :: "(nat \<Rightarrow> nat option) \<Rightarrow> nat option \<Rightarrow> nat list \<Rightarrow> bool" where
  "link_path nx p [] \<longleftrightarrow> p = None"
| "link_path nx p (i # is) \<longleftrightarrow> p = Some i \<and> link_path nx (nx i) is"

lemma link_path_None [simp]: "link_path nx None is \<longleftrightarrow> is = []"
  by (cases "is") auto

lemma link_path_Some: "link_path nx (Some i) is \<longleftrightarrow> (\<exists>js. is = i # js \<and> link_path nx (nx i) js)"
  by (cases "is") auto

lemma link_path_unique: "link_path nx p is \<Longrightarrow> link_path nx p js \<Longrightarrow> is = js"
  by (induction "is" arbitrary: p js) (auto simp: link_path_Some)

lemma link_path_suffix: "link_path nx p (is @ j # js) \<Longrightarrow> link_path nx (Some j) (j # js)"
  by (induction "is" arbitrary: p) auto

lemma link_path_distinct: "link_path nx p is \<Longrightarrow> distinct is"
proof (induction "is" arbitrary: p)
  case (Cons i "is")
  have "i \<notin> set is"
  proof
    assume "i \<in> set is"
    then obtain xs ys where s: "is = xs @ i # ys" by (meson split_list)
    then have "link_path nx (Some i) (i # ys)" "link_path nx (Some i) (i # is)"
      using Cons.prems link_path_suffix [of nx "Some i" "i # xs" i ys] by simp_all
    from link_path_unique [OF this] have "ys = is" by simp
    then have "length is = length xs + Suc (length is)" using s by (metis length_append length_Cons)
    then show False by simp
  qed
  then show ?case using Cons by auto
qed simp

lemma link_path_cong:
  "link_path nx p is \<Longrightarrow> (\<And>i. i \<in> set is \<Longrightarrow> nx' i = nx i) \<Longrightarrow> link_path nx' p is"
  by (induction "is" arbitrary: p) auto

text \<open>The next pointer of the last node is set to a new node, whose own is null.\<close>

lemma link_path_snoc:
  assumes "link_path nx p is" "is \<noteq> []" "i \<notin> set is" "nx' (last is) = Some i" "nx' i = None"
    and "\<And>j. j \<in> set (butlast is) \<Longrightarrow> nx' j = nx j"
  shows "link_path nx' p (is @ [i])"
  using assms
proof (induction "is" arbitrary: p)
  case (Cons j js)
  then show ?case by (cases "js = []") auto
qed simp

text \<open>The next pointer of the node before \<open>i\<close> is set to the successor of \<open>i\<close>.\<close>

lemma link_path_unlink:
  assumes "link_path nx p (xs @ i # ys)" "xs \<noteq> []" "nx' (last xs) = nx i"
    and "\<And>j. j \<in> set (butlast xs) \<or> j \<in> set ys \<Longrightarrow> nx' j = nx j"
  shows "link_path nx' p (xs @ ys)"
  using assms
proof (induction xs arbitrary: p)
  case (Cons x xs)
  show ?case
  proof (cases "xs = []")
    case True
    then show ?thesis using Cons.prems link_path_cong [of nx "nx i" ys nx'] by auto
  next
    case False
    then show ?thesis using Cons by auto
  qed
qed simp

lemma link_path_head: "link_path nx p (i # is) \<Longrightarrow> link_path nx (nx i) is"
  by simp

lemma link_path_hd: "link_path nx p is \<Longrightarrow> p = (if is = [] then None else Some (hd is))"
  by (cases "is") auto

end
