(* ===== verification/CmdQueue.thy ===== *)
theory CmdQueue
  imports Links
begin

text \<open>
  The command queue: requests that touch the chip are put into a linked list by any context
  (\<^verbatim>\<open>common/cmm_cmd.c\<close>, \<^verbatim>\<open>include/rtmp_cmd.h\<close>) and carried out by a thread
  (\<^verbatim>\<open>RTUSBCmdThread\<close> in \<^verbatim>\<open>os/linux/rt_usb.c\<close>, \<^verbatim>\<open>CMDHandler\<close> in \<^verbatim>\<open>common/rtusb_io.c\<close>).
  Elements and their buffers live in memory under addresses; an access to memory that is not
  allocated is a fault, so that the properties also say that nothing is used after it was freed,
  freed twice or lost.
\<close>

subsection \<open>Data\<close>

record cmd_elmt =
  ce_command :: u32
  ce_buffer :: "nat option"
  ce_bufferlength :: ulong
  ce_CmdFromNdis :: bool
  ce_SetOperation :: bool
  ce_next :: "nat option"

record cmdq =
  cq_size :: u32
  cq_head :: "nat option"
  cq_tail :: "nat option"
  CmdQState :: nat

text \<open>The functions of the dispatch table, by name.\<close>

datatype cmd_hdlr =
    ResetBulkOutHdlr | ResetBulkInHdlr | CheckGPIOHdlr | SetAsicWcidHdlr | DelAsicWcidHdlr
  | SetClientMACEntryHdlr | SetPSMBitHdlr | ForceWakeUpHdlr | ForceSleepAutoWakeupHdlr
  | QkeriodicExecutHdlr | APUpdateCapabilityAndErpieHdlr | APEnableTXBurstHdlr
  | APDisableTXBurstHdlr | APAdjustEXPAckTimeHdlr | APRecoverEXPAckTimeHdlr | ChannelRescanHdlr
  | SetWcidSecInfoHdlr | SetAsicWcidIVEIVHdlr | SetAsicWcidAttrHdlr | SETAsicSharedKeyHdlr
  | SetAsicPairwiseKeyHdlr | RemovePairwiseKeyHdlr | SetPortSecuredHdlr
  | CounterMeasureHdlr_802_11 | UpdateProtectHdlr | RegHintHdlr | RegHint11DHdlr
  | RT_Mac80211_ScanEnd | RT_Mac80211_ConnResultInfom

text \<open>
  The state: the queue, the memory of elements and of buffers, the two adapter flags the thread
  tests, the log of commands carried out and of wake-ups of the thread, each with the command it is for.
\<close>

datatype cmd_event = CmdRun cmd_hdlr u32 "bytes option" | CmdUp u32 "bytes option"

record cmd_sys =
  CmdQ :: cmdq
  ce_mem :: "nat \<Rightarrow> cmd_elmt option"
  cb_mem :: "nat \<Rightarrow> bytes option"
  fNIC_NOT_EXIST :: bool
  fHALT_IN_PROGRESS :: bool
  cmd_log :: "cmd_event list"

definition cmd_emit :: "cmd_event \<Rightarrow> cmd_sys \<Rightarrow> cmd_sys" where
  "cmd_emit ev s = s\<lparr>cmd_log := cmd_log s @ [ev]\<rparr>"

definition cmd_elmt_at :: "nat \<Rightarrow> cmd_sys \<Rightarrow> c_fault + cmd_elmt" where
  "cmd_elmt_at a s = (case ce_mem s a of None \<Rightarrow> Inl OOBRead | Some e \<Rightarrow> Inr e)"

definition upd_elmt :: "nat \<Rightarrow> (cmd_elmt \<Rightarrow> cmd_elmt) \<Rightarrow> cmd_sys \<Rightarrow> c_fault + cmd_sys" where
  "upd_elmt a f s = (case ce_mem s a of None \<Rightarrow> Inl OOBWrite
     | Some e \<Rightarrow> Inr (s\<lparr>ce_mem := (ce_mem s)(a \<mapsto> f e)\<rparr>))"

subsection \<open>The queue\<close>

definition RTInitializeCmdQ :: "cmd_sys \<Rightarrow> cmd_sys" where
  "RTInitializeCmdQ s =
     s\<lparr>CmdQ := \<lparr>cq_size = 0, cq_head = None, cq_tail = None, CmdQState = RTMP_TASK_STAT_INITED\<rparr>\<rparr>"

definition EnqueueCmd :: "nat \<Rightarrow> cmd_sys \<Rightarrow> c_fault + cmd_sys" where
  "EnqueueCmd a s =
     f_bind (if cq_size (CmdQ s) = 0 then Inr (s\<lparr>CmdQ := (CmdQ s)\<lparr>cq_head := Some a\<rparr>\<rparr>)
             else case cq_tail (CmdQ s) of
                    None \<Rightarrow> Inl NullDeref
                  | Some t \<Rightarrow> upd_elmt t (\<lambda>e. e\<lparr>ce_next := Some a\<rparr>) s) (\<lambda>s1.
     f_bind (upd_elmt a (\<lambda>e. e\<lparr>ce_next := None\<rparr>)
               (s1\<lparr>CmdQ := (CmdQ s1)\<lparr>cq_tail := Some a\<rparr>\<rparr>)) (\<lambda>s2.
     Inr (s2\<lparr>CmdQ := (CmdQ s2)\<lparr>cq_size := cq_size (CmdQ s2) + 1\<rparr>\<rparr>)))"

definition RTThreadDequeueCmd :: "cmd_sys \<Rightarrow> c_fault + nat option \<times> cmd_sys" where
  "RTThreadDequeueCmd s =
     (case cq_head (CmdQ s) of
        None \<Rightarrow> Inr (None, s)
      | Some a \<Rightarrow>
          f_bind (cmd_elmt_at a s) (\<lambda>e.
            let q = CmdQ s; n = cq_size q - 1
            in Inr (Some a, s\<lparr>CmdQ := q\<lparr>cq_head := ce_next e, cq_size := n,
                 cq_tail := (if n = 0 then None else cq_tail q)\<rparr>\<rparr>)))"

text \<open>
  \<open>mem\<close> and \<open>buf\<close> are what the two calls of \<^verbatim>\<open>kmalloc\<close> return. The status that is returned is
  \<^verbatim>\<open>NDIS_STATUS_SUCCESS\<close> also when the queue does not take the command.
\<close>

definition RTEnqueueInternalCmd ::
    "nat option \<Rightarrow> nat option \<Rightarrow> u32 \<Rightarrow> bytes \<Rightarrow> u32 \<Rightarrow> cmd_sys \<Rightarrow> c_fault + nat \<times> cmd_sys" where
  "RTEnqueueInternalCmd mem buf Oid pInformationBuffer InformationBufferLength s =
     (case mem of
        None \<Rightarrow> Inr (NDIS_STATUS_RESOURCES, s)
      | Some a \<Rightarrow>
          let e0 = \<lparr>ce_command = 0, ce_buffer = None, ce_bufferlength = 0, ce_CmdFromNdis = False,
                    ce_SetOperation = False, ce_next = None\<rparr>;
              len = unat InformationBufferLength
          in if 0 < InformationBufferLength \<and> buf = None then Inr (NDIS_STATUS_RESOURCES, s)
             else if 0 < InformationBufferLength \<and> length pInformationBuffer < len then Inl OOBRead
             else
               let s1 = (if 0 < InformationBufferLength
                         then s\<lparr>cb_mem := (cb_mem s)(the buf \<mapsto> take len pInformationBuffer)\<rparr> else s);
                   e1 = (if 0 < InformationBufferLength
                         then e0\<lparr>ce_buffer := buf, ce_bufferlength := ucast InformationBufferLength\<rparr>
                         else e0);
                   s2 = s1\<lparr>ce_mem := (ce_mem s1)(a \<mapsto> e1\<lparr>ce_command := Oid, ce_CmdFromNdis := False\<rparr>)\<rparr>
               in if RTMP_TASK_CAN_DO_INSERT (CmdQState (CmdQ s2))
                  then f_bind (EnqueueCmd a s2) (\<lambda>s3. Inr (NDIS_STATUS_SUCCESS,
                         cmd_emit (CmdUp Oid (if 0 < InformationBufferLength
                                              then Some (take len pInformationBuffer) else None)) s3))
                  else
                    let s3 = (case ce_buffer e1 of None \<Rightarrow> s2
                              | Some b \<Rightarrow> s2\<lparr>cb_mem := (cb_mem s2)(b := None)\<rparr>)
                    in Inr (NDIS_STATUS_SUCCESS, s3\<lparr>ce_mem := (ce_mem s3)(a := None)\<rparr>))"

subsection \<open>Carrying out\<close>

text \<open>
  The table depends on the configuration: \<open>sta\<close>, \<open>ap\<close> and \<open>cfg80211\<close> are
  \<^verbatim>\<open>CONFIG_STA_SUPPORT\<close>, \<^verbatim>\<open>CONFIG_AP_SUPPORT\<close> and \<^verbatim>\<open>RT_CFG80211_SUPPORT\<close> (under \<^verbatim>\<open>LINUX\<close>).
\<close>

definition CMDTHREAD_FIRST_CMD_ID :: u32 where "CMDTHREAD_FIRST_CMD_ID = 0x0D730101"

definition CMDHdlrTable :: "bool \<Rightarrow> bool \<Rightarrow> bool \<Rightarrow> cmd_hdlr option list" where
  "CMDHdlrTable sta ap cfg80211 =
     [Some ResetBulkOutHdlr, Some ResetBulkInHdlr, Some CheckGPIOHdlr, Some SetAsicWcidHdlr,
      Some DelAsicWcidHdlr, Some SetClientMACEntryHdlr] @
     (if sta then [Some SetPSMBitHdlr, Some ForceWakeUpHdlr, Some ForceSleepAutoWakeupHdlr,
        Some QkeriodicExecutHdlr] else replicate 4 None) @
     (if ap then [Some APUpdateCapabilityAndErpieHdlr, Some APEnableTXBurstHdlr,
        Some APDisableTXBurstHdlr, Some APAdjustEXPAckTimeHdlr, Some APRecoverEXPAckTimeHdlr,
        Some ChannelRescanHdlr] else replicate 6 None) @
     [None, None, Some SetWcidSecInfoHdlr, Some SetAsicWcidIVEIVHdlr, Some SetAsicWcidAttrHdlr,
      Some SETAsicSharedKeyHdlr, Some SetAsicPairwiseKeyHdlr, Some RemovePairwiseKeyHdlr,
      if sta then Some SetPortSecuredHdlr else None,
      if ap then Some CounterMeasureHdlr_802_11 else None, Some UpdateProtectHdlr] @
     (if cfg80211 then [Some RegHintHdlr, Some RegHint11DHdlr, Some RT_Mac80211_ScanEnd,
        Some RT_Mac80211_ConnResultInfom] else replicate 4 None) @
     [None, None, None, None]"

text \<open>The index is cut to a \<^verbatim>\<open>short\<close>; the call afterwards uses the whole of it.\<close>

definition ValidCMD :: "cmd_hdlr option list \<Rightarrow> u32 \<Rightarrow> bool" where
  "ValidCMD table cmd \<longleftrightarrow>
     (let CMDIndex = sint (ucast (cmd - CMDTHREAD_FIRST_CMD_ID) :: 16 word)
      in 0 \<le> CMDIndex \<and> CMDIndex < int (length table) \<and> table ! nat CMDIndex \<noteq> None)"

text \<open>\<^verbatim>\<open>(*CMDHdlrTable[i])(pAd, cmdqelmt)\<close>; \<open>h\<close> is what the function of a name does.\<close>

definition cmd_call ::
    "(cmd_hdlr \<Rightarrow> cmd_elmt \<Rightarrow> cmd_sys \<Rightarrow> c_fault + cmd_sys) \<Rightarrow> cmd_hdlr option list \<Rightarrow>
     cmd_elmt \<Rightarrow> cmd_sys \<Rightarrow> c_fault + cmd_sys" where
  "cmd_call h table e s =
     (let i = unat (ce_command e - CMDTHREAD_FIRST_CMD_ID)
      in if length table \<le> i then Inl OOBRead
         else case table ! i of
                None \<Rightarrow> Inl NullDeref
              | Some f \<Rightarrow> h f e s)"

definition cmd_execute ::
    "(cmd_hdlr \<Rightarrow> cmd_elmt \<Rightarrow> cmd_sys \<Rightarrow> c_fault + cmd_sys) \<Rightarrow> cmd_hdlr option list \<Rightarrow>
     nat \<Rightarrow> cmd_sys \<Rightarrow> c_fault + cmd_sys" where
  "cmd_execute h table a s =
     f_bind (cmd_elmt_at a s) (\<lambda>e.
       if \<not> (fNIC_NOT_EXIST s \<or> fHALT_IN_PROGRESS s) \<and> ValidCMD table (ce_command e)
       then cmd_call h table e s
       else Inr s)"

text \<open>\<^verbatim>\<open>kfree\<close> of a buffer and of an element.\<close>

definition free_buffer :: "nat option \<Rightarrow> cmd_sys \<Rightarrow> c_fault + cmd_sys" where
  "free_buffer p s = (case p of None \<Rightarrow> Inr s
     | Some b \<Rightarrow> if cb_mem s b = None then Inl OOBWrite else Inr (s\<lparr>cb_mem := (cb_mem s)(b := None)\<rparr>))"

definition free_cmd :: "nat \<Rightarrow> cmd_sys \<Rightarrow> c_fault + cmd_sys" where
  "free_cmd a s =
     f_bind (cmd_elmt_at a s) (\<lambda>e.
     f_bind (if ce_CmdFromNdis e then free_buffer (ce_buffer e) s
             else if ce_buffer e \<noteq> None \<and> ce_bufferlength e \<noteq> 0 then free_buffer (ce_buffer e) s
             else Inr s) (\<lambda>s1.
     Inr (s1\<lparr>ce_mem := (ce_mem s1)(a := None)\<rparr>)))"

partial_function (option) CMDHandler ::
    "(cmd_hdlr \<Rightarrow> cmd_elmt \<Rightarrow> cmd_sys \<Rightarrow> c_fault + cmd_sys) \<Rightarrow> cmd_hdlr option list \<Rightarrow>
     cmd_sys \<Rightarrow> cmd_sys run" where
  "CMDHandler h table s =
     (if cq_size (CmdQ s) = 0 then r_return s
      else case RTThreadDequeueCmd s of
             Inl f \<Rightarrow> Some (Inl f)
           | Inr (None, s1) \<Rightarrow> r_return s1
           | Inr (Some a, s1) \<Rightarrow>
               (case f_bind (cmd_execute h table a s1) (free_cmd a) of
                  Inl f \<Rightarrow> Some (Inl f)
                | Inr s2 \<Rightarrow> CMDHandler h table s2))"

text \<open>The end of the thread: what is left in the queue is freed.\<close>

partial_function (option) cmd_clear :: "cmd_sys \<Rightarrow> cmd_sys run" where
  "cmd_clear s =
     (if cq_size (CmdQ s) = 0 then r_return s
      else case RTThreadDequeueCmd s of
             Inl f \<Rightarrow> Some (Inl f)
           | Inr (None, s1) \<Rightarrow> cmd_clear s1
           | Inr (Some a, s1) \<Rightarrow>
               (case free_cmd a s1 of
                  Inl f \<Rightarrow> Some (Inl f)
                | Inr s2 \<Rightarrow> cmd_clear s2))"

definition set_CmdQState :: "nat \<Rightarrow> cmd_sys \<Rightarrow> cmd_sys" where
  "set_CmdQState st s = s\<lparr>CmdQ := (CmdQ s)\<lparr>CmdQState := st\<rparr>\<rparr>"

text \<open>
  The thread as steps: its start, the test at the head of its loop, what follows a wait
  (\<open>woken\<close> is what \<^verbatim>\<open>RtmpOSTaskWait\<close> returns, \<open>suspended\<close> is \<^verbatim>\<open>PM_FlgSuspend\<close>), and its end. Other
  contexts act in between.
\<close>

datatype cmd_pc = CmdStart | CmdTest | CmdWait | CmdExit | CmdGone

definition RTUSBCmdThread ::
    "(cmd_hdlr \<Rightarrow> cmd_elmt \<Rightarrow> cmd_sys \<Rightarrow> c_fault + cmd_sys) \<Rightarrow> cmd_hdlr option list \<Rightarrow>
     bool \<Rightarrow> bool \<Rightarrow> cmd_pc \<Rightarrow> cmd_sys \<Rightarrow> (cmd_pc \<times> cmd_sys) run" where
  "RTUSBCmdThread h table woken suspended pc s =
     (case pc of
        CmdStart \<Rightarrow> r_return (CmdTest, set_CmdQState RTMP_TASK_STAT_RUNNING s)
      | CmdTest \<Rightarrow>
          r_return (if CmdQState (CmdQ s) = RTMP_TASK_STAT_RUNNING then CmdWait else CmdExit, s)
      | CmdWait \<Rightarrow>
          if \<not> woken then r_return (CmdExit, s\<lparr>fHALT_IN_PROGRESS := True\<rparr>)
          else if CmdQState (CmdQ s) = RTMP_TASK_STAT_STOPED then r_return (CmdExit, s)
          else if suspended then r_return (CmdTest, s)
          else r_bind (CMDHandler h table s) (\<lambda>s1. r_return (CmdTest, s1))
      | CmdExit \<Rightarrow>
          if suspended then r_return (CmdGone, s)
          else r_bind (cmd_clear (set_CmdQState RTMP_TASK_STAT_STOPED s)) (\<lambda>s1. r_return (CmdGone, s1))
      | CmdGone \<Rightarrow> r_return (CmdGone, s))"

end
