(* ===== verification/CmdQueueProps.thy ===== *)
theory CmdQueueProps
  imports CmdQueue
begin

text \<open>
  The command queue is a first-in first-out list of commands that owns its memory: the elements and
  buffers that are allocated are those of the commands in the queue and of the one being carried out.
\<close>

subsection \<open>The invariant\<close>

definition cmd_succ :: "cmd_sys \<Rightarrow> nat \<Rightarrow> nat option" where
  "cmd_succ s a = (case ce_mem s a of None \<Rightarrow> None | Some e \<Rightarrow> ce_next e)"

definition cmd_data :: "cmd_sys \<Rightarrow> cmd_elmt \<Rightarrow> bytes option" where
  "cmd_data s e = (case ce_buffer e of None \<Rightarrow> None | Some b \<Rightarrow> cb_mem s b)"

text \<open>The links and the fields of the queue; \<open>is\<close> are the addresses of its elements.\<close>

definition cmd_links :: "cmd_sys \<Rightarrow> nat list \<Rightarrow> bool" where
  "cmd_links s is \<longleftrightarrow> link_path (cmd_succ s) (cq_head (CmdQ s)) is \<and>
     cq_size (CmdQ s) = word_of_nat (length is) \<and> length is < 2 ^ 32 \<and>
     cq_tail (CmdQ s) = (if is = [] then None else Some (last is))"

text \<open>The memory: \<open>as\<close> are the addresses of all elements in use.\<close>

definition cmd_owns :: "cmd_sys \<Rightarrow> nat \<Rightarrow> nat \<Rightarrow> bool" where
  "cmd_owns s a b \<longleftrightarrow> (case ce_mem s a of None \<Rightarrow> False | Some e \<Rightarrow> ce_buffer e = Some b)"

definition cmd_elmt_ok :: "cmd_elmt \<Rightarrow> bool" where
  "cmd_elmt_ok e \<longleftrightarrow> \<not> ce_CmdFromNdis e \<and> (ce_buffer e \<noteq> None \<longrightarrow> ce_bufferlength e \<noteq> 0)"

definition cmd_memory :: "cmd_sys \<Rightarrow> nat set \<Rightarrow> bool" where
  "cmd_memory s as \<longleftrightarrow> (\<forall>a. ce_mem s a \<noteq> None \<longleftrightarrow> a \<in> as) \<and>
     (\<forall>a. case ce_mem s a of None \<Rightarrow> True | Some e \<Rightarrow> cmd_elmt_ok e) \<and>
     (\<forall>b. cb_mem s b \<noteq> None \<longleftrightarrow> (\<exists>a. cmd_owns s a b)) \<and>
     (\<forall>a a' b. cmd_owns s a b \<longrightarrow> cmd_owns s a' b \<longrightarrow> a = a')"

definition cmd_inv :: "cmd_sys \<Rightarrow> nat list \<Rightarrow> nat option \<Rightarrow> bool" where
  "cmd_inv s is cur \<longleftrightarrow> cmd_links s is \<and> cmd_memory s (set is \<union> set_option cur) \<and>
     set is \<inter> set_option cur = {}"

text \<open>A command as its identifier and data.\<close>

definition cmd_at :: "cmd_sys \<Rightarrow> nat \<Rightarrow> u32 \<times> bytes option" where
  "cmd_at s a = (case ce_mem s a of None \<Rightarrow> (0, None) | Some e \<Rightarrow> (ce_command e, cmd_data s e))"

definition cmd_view :: "cmd_sys \<Rightarrow> nat list \<Rightarrow> (u32 \<times> bytes option) list" where
  "cmd_view s is = map (cmd_at s) is"

text \<open>They depend on the links and the memory only.\<close>

lemma cmd_cong:
  assumes "ce_mem t = ce_mem s" "cb_mem t = cb_mem s" "cq_head (CmdQ t) = cq_head (CmdQ s)"
    "cq_tail (CmdQ t) = cq_tail (CmdQ s)" "cq_size (CmdQ t) = cq_size (CmdQ s)"
  shows "cmd_links t is = cmd_links s is" "cmd_memory t as = cmd_memory s as" "cmd_inv t is cur = cmd_inv s is cur"
    "cmd_at t = cmd_at s" "cmd_view t is = cmd_view s is"
proof -
  have "cmd_succ t = cmd_succ s" by (simp add: cmd_succ_def fun_eq_iff assms(1))
  then show 1: "cmd_links t is = cmd_links s is" by (simp add: cmd_links_def assms(3-5))
  show 2: "cmd_memory t as = cmd_memory s as" for as by (simp add: cmd_memory_def cmd_owns_def assms(1,2))
  show "cmd_inv t is cur = cmd_inv s is cur" by (simp add: cmd_inv_def 1 2)
  show 3: "cmd_at t = cmd_at s" by (simp add: cmd_at_def cmd_data_def fun_eq_iff assms(1,2) cong: option.case_cong)
  show "cmd_view t is = cmd_view s is" by (simp add: cmd_view_def 3)
qed

subsection \<open>What the operations do to it\<close>

lemma word_len_0:
  assumes "n < 2 ^ 32"
  shows "(word_of_nat n :: u32) = 0 \<longleftrightarrow> n = 0"
proof -
  have "unat (word_of_nat n :: u32) = n" using assms by (simp add: unat_of_nat take_bit_nat_eq_self)
  then show ?thesis by (simp only: unat_eq_0 [symmetric])
qed

text \<open>Everything an operation on the links leaves alone.\<close>

definition same_cmds :: "cmd_sys \<Rightarrow> cmd_sys \<Rightarrow> bool" where
  "same_cmds s s1 \<longleftrightarrow> cmd_at s1 = cmd_at s \<and> cmd_log s1 = cmd_log s \<and>
     fNIC_NOT_EXIST s1 = fNIC_NOT_EXIST s \<and> fHALT_IN_PROGRESS s1 = fHALT_IN_PROGRESS s \<and>
     CmdQState (CmdQ s1) = CmdQState (CmdQ s)"

lemma cmd_memory_mem: "cmd_memory s as \<Longrightarrow> a \<in> as \<Longrightarrow> \<exists>e. ce_mem s a = Some e"
  unfolding cmd_memory_def by auto

lemma same_cmds_links [simp]: "cmd_at (s\<lparr>CmdQ := q\<rparr>) = cmd_at s"
  by (simp add: cmd_at_def cmd_data_def fun_eq_iff cong: option.case_cong)

lemma cmd_memory_links [simp]: "cmd_memory (s\<lparr>CmdQ := q\<rparr>) as = cmd_memory s as"
  by (simp add: cmd_memory_def cmd_owns_def)

lemma cmd_succ_links [simp]: "cmd_succ (s\<lparr>CmdQ := q\<rparr>) = cmd_succ s"
  by (simp add: cmd_succ_def fun_eq_iff)

lemma dequeue_inv:
  assumes "cmd_inv s (a # js) None"
  shows "\<exists>s1. RTThreadDequeueCmd s = Inr (Some a, s1) \<and> cmd_inv s1 js (Some a) \<and> same_cmds s s1"
proof -
  have l: "cmd_links s (a # js)" and m: "cmd_memory s (set (a # js))"
    using assms by (simp_all add: cmd_inv_def)
  obtain e where e: "ce_mem s a = Some e" using cmd_memory_mem [OF m] by auto
  let ?q = "CmdQ s" and ?n = "cq_size (CmdQ s) - 1"
  let ?s = "s\<lparr>CmdQ := ?q\<lparr>cq_head := ce_next e, cq_size := ?n,
    cq_tail := (if ?n = 0 then None else cq_tail ?q)\<rparr>\<rparr>"
  have n: "?n = word_of_nat (length js)" "length js < 2 ^ 32"
    using l by (simp_all add: cmd_links_def)
  have p: "link_path (cmd_succ s) (cq_head (CmdQ s)) (a # js)" using l by (simp add: cmd_links_def)
  have "distinct (a # js)" by (rule link_path_distinct [OF p])
  moreover have "cmd_links ?s js"
    using l n by (auto simp: cmd_links_def word_len_0 cmd_succ_def [of s a] e)
  moreover have "cmd_memory ?s (set (a # js))" using m by simp
  ultimately have "cmd_inv ?s js (Some a)" by (simp add: cmd_inv_def)
  moreover have "RTThreadDequeueCmd s = Inr (Some a, ?s)"
    using l e by (simp add: RTThreadDequeueCmd_def cmd_links_def cmd_elmt_at_def Let_def)
  moreover have "same_cmds s ?s" by (simp add: same_cmds_def)
  ultimately show ?thesis by blast
qed

text \<open>A change of a next pointer.\<close>

lemma set_next:
  fixes p :: "nat option"
  assumes "ce_mem s a = Some e"
  defines "t \<equiv> s\<lparr>ce_mem := (ce_mem s)(a \<mapsto> e\<lparr>ce_next := p\<rparr>)\<rparr>"
  shows "upd_elmt a (\<lambda>e. e\<lparr>ce_next := p\<rparr>) s = Inr t" "cmd_succ t = (cmd_succ s)(a := p)"
    "cmd_at t = cmd_at s" "cmd_memory s as \<Longrightarrow> cmd_memory t as"
proof -
  show "upd_elmt a (\<lambda>e. e\<lparr>ce_next := p\<rparr>) s = Inr t" "cmd_succ t = (cmd_succ s)(a := p)"
    using assms(1) by (simp_all add: t_def upd_elmt_def cmd_succ_def fun_eq_iff)
  show "cmd_at t = cmd_at s"
    using assms(1) by (auto simp: t_def cmd_at_def cmd_data_def fun_eq_iff split: option.splits)
  assume m: "cmd_memory s as"
  have b: "cmd_owns t = cmd_owns s" using assms(1) by (simp add: t_def cmd_owns_def fun_eq_iff)
  have "(case ce_mem t x of None \<Rightarrow> True | Some e \<Rightarrow> cmd_elmt_ok e) =
      (case ce_mem s x of None \<Rightarrow> True | Some e \<Rightarrow> cmd_elmt_ok e)" for x
    using assms(1) by (simp add: t_def cmd_elmt_ok_def)
  moreover have "ce_mem t x \<noteq> None \<longleftrightarrow> ce_mem s x \<noteq> None" for x using assms(1) by (simp add: t_def)
  moreover have "cb_mem t = cb_mem s" by (simp add: t_def)
  ultimately show "cmd_memory t as" using m unfolding cmd_memory_def b by simp
qed

lemma EnqueueCmd_inv:
  assumes "cmd_links s is" "cmd_memory s as" "a \<in> as" "a \<notin> set is" "set is \<subseteq> as" "length is + 1 < 2 ^ 32"
  shows "\<exists>s1. EnqueueCmd a s = Inr s1 \<and> cmd_links s1 (is @ [a]) \<and> cmd_memory s1 as \<and> same_cmds s s1"
proof -
  note l = assms(1)
  obtain ea where ea: "ce_mem s a = Some ea" using cmd_memory_mem assms(2,3) by blast
  have sz: "cq_size (CmdQ s) = 0 \<longleftrightarrow> is = []" using l by (auto simp: cmd_links_def word_len_0)
  show ?thesis
  proof (cases "is = []")
    case True
    let ?s1 = "s\<lparr>CmdQ := (CmdQ s)\<lparr>cq_head := Some a\<rparr>\<rparr>"
    let ?s2 = "?s1\<lparr>CmdQ := (CmdQ ?s1)\<lparr>cq_tail := Some a\<rparr>\<rparr>"
    have e2: "ce_mem ?s2 a = Some ea" using ea by simp
    note sn = set_next [OF e2, where p = None]
    let ?s3 = "?s2\<lparr>ce_mem := (ce_mem ?s2)(a \<mapsto> ea\<lparr>ce_next := None\<rparr>)\<rparr>"
    let ?s4 = "?s3\<lparr>CmdQ := (CmdQ ?s3)\<lparr>cq_size := cq_size (CmdQ ?s3) + 1\<rparr>\<rparr>"
    have "EnqueueCmd a s = Inr ?s4" using True sz sn(1) by (simp add: EnqueueCmd_def)
    moreover have "cmd_links ?s4 (is @ [a])"
      using True l by (simp add: cmd_links_def cmd_succ_def)
    moreover have "cmd_memory ?s4 as"
      using sn(4) assms(2) by (simp only: cmd_memory_links)
    moreover have "same_cmds s ?s4"
      unfolding same_cmds_def same_cmds_links sn(3) by simp
    ultimately show ?thesis by blast
  next
    case False
    let ?t = "last is"
    have t: "cq_tail (CmdQ s) = Some ?t" "?t \<in> as" "?t \<noteq> a"
      using False l assms(4,5) by (auto simp: cmd_links_def)
    obtain et where et: "ce_mem s ?t = Some et" using cmd_memory_mem assms(2) t(2) by blast
    note st = set_next [OF et, where p = "Some a"]
    let ?s1 = "s\<lparr>ce_mem := (ce_mem s)(?t \<mapsto> et\<lparr>ce_next := Some a\<rparr>)\<rparr>"
    let ?s2 = "?s1\<lparr>CmdQ := (CmdQ ?s1)\<lparr>cq_tail := Some a\<rparr>\<rparr>"
    have e2: "ce_mem ?s2 a = Some ea" using ea t(3) by simp
    note sn = set_next [OF e2, where p = None]
    let ?s3 = "?s2\<lparr>ce_mem := (ce_mem ?s2)(a \<mapsto> ea\<lparr>ce_next := None\<rparr>)\<rparr>"
    let ?s4 = "?s3\<lparr>CmdQ := (CmdQ ?s3)\<lparr>cq_size := cq_size (CmdQ ?s3) + 1\<rparr>\<rparr>"
    have "EnqueueCmd a s = Inr ?s4" using False sz st(1) sn(1) t(1) by (simp add: EnqueueCmd_def)
    moreover have "cmd_links ?s4 (is @ [a])"
    proof -
      have succ: "cmd_succ ?s4 = (cmd_succ s)(?t := Some a, a := None)"
        using et ea t(3) by (auto simp: fun_eq_iff cmd_succ_def)
      have p: "link_path (cmd_succ s) (cq_head (CmdQ s)) is" using l by (simp add: cmd_links_def)
      have "distinct (butlast is @ [?t])" using link_path_distinct [OF p] False by simp
      then have nl: "j \<noteq> ?t" "j \<noteq> a" if "j \<in> set (butlast is)" for j
        using that assms(4) by (auto dest: in_set_butlastD)
      have "link_path (cmd_succ ?s4) (cq_head (CmdQ s)) (is @ [a])"
        unfolding succ by (rule link_path_snoc [OF p False assms(4)]) (use t(3) nl in simp_all)
      then show ?thesis using l False assms(6) by (simp add: cmd_links_def)
    qed
    moreover have "cmd_memory ?s4 as"
      using sn(4) st(4) assms(2) by (simp only: cmd_memory_links)
    moreover have "same_cmds s ?s4"
      unfolding same_cmds_def same_cmds_links sn(3) st(3) by simp
    ultimately show ?thesis by blast
  qed
qed

lemma memory_owner:
  assumes "cmd_memory s as"
  shows "cb_mem s b \<noteq> None \<longleftrightarrow> (\<exists>a. cmd_owns s a b)"
    "cmd_owns s a b \<Longrightarrow> cmd_owns s a' b \<Longrightarrow> a = a'"
    "ce_mem s a = Some e \<Longrightarrow> cmd_elmt_ok e"
    "ce_mem s a \<noteq> None \<longleftrightarrow> a \<in> as"
proof -
  note m = assms [unfolded cmd_memory_def]
  show "cb_mem s b \<noteq> None \<longleftrightarrow> (\<exists>a. cmd_owns s a b)" using m by blast
  show "cmd_owns s a b \<Longrightarrow> cmd_owns s a' b \<Longrightarrow> a = a'" using m by blast
  show "ce_mem s a \<noteq> None \<longleftrightarrow> a \<in> as" using m by blast
  assume e: "ce_mem s a = Some e"
  have "case ce_mem s a of None \<Rightarrow> True | Some e \<Rightarrow> cmd_elmt_ok e" using m by blast
  then show "cmd_elmt_ok e" using e by simp
qed

lemma cmd_owns_at: "ce_mem s a = Some e \<Longrightarrow> cmd_owns s a b \<longleftrightarrow> ce_buffer e = Some b"
  by (simp add: cmd_owns_def)

text \<open>An element and its buffer come into memory, and leave it.\<close>

lemma memory_add:
  assumes "cmd_memory s as" "ce_mem s a = None" "cmd_elmt_ok e"
    and "case ce_buffer e of None \<Rightarrow> cb = cb_mem s
         | Some b \<Rightarrow> cb_mem s b = None \<and> (\<exists>d. cb = (cb_mem s)(b \<mapsto> d))"
  shows "cmd_memory (s\<lparr>cb_mem := cb, ce_mem := (ce_mem s)(a \<mapsto> e)\<rparr>) (insert a as)"
proof -
  let ?t = "s\<lparr>cb_mem := cb, ce_mem := (ce_mem s)(a \<mapsto> e)\<rparr>"
  have owns: "cmd_owns ?t x b \<longleftrightarrow> (if x = a then ce_buffer e = Some b else cmd_owns s x b)" for x b
    by (simp add: cmd_owns_def)
  have old: "\<not> cmd_owns s a b" for b using assms(2) by (simp add: cmd_owns_def)
  have "\<not> cmd_owns s x b" if "ce_buffer e = Some b" for x b
    using assms(4) that memory_owner(1) [OF assms(1), of b] by auto
  moreover have "cb b \<noteq> None \<longleftrightarrow> cb_mem s b \<noteq> None \<or> ce_buffer e = Some b" for b
    using assms(4) by (auto split: option.splits)
  ultimately have "cb b \<noteq> None \<longleftrightarrow> (\<exists>x. cmd_owns ?t x b)"
    "cmd_owns ?t x b \<Longrightarrow> cmd_owns ?t y b \<Longrightarrow> x = y" for b x y
    using memory_owner(1,2) [OF assms(1)] old unfolding owns by metis+
  moreover have "(case ce_mem ?t x of None \<Rightarrow> True | Some e \<Rightarrow> cmd_elmt_ok e)" for x
    using assms(1,3) unfolding cmd_memory_def by simp
  moreover have "ce_mem ?t x \<noteq> None \<longleftrightarrow> x \<in> insert a as" for x
    using memory_owner(4) [OF assms(1), of x] by simp
  ultimately show ?thesis unfolding cmd_memory_def by simp
qed

lemma memory_remove:
  assumes "cmd_memory s as" "ce_mem s a = Some e"
    and "cb = (case ce_buffer e of None \<Rightarrow> cb_mem s | Some b \<Rightarrow> (cb_mem s)(b := None))"
  shows "cmd_memory (s\<lparr>cb_mem := cb, ce_mem := (ce_mem s)(a := None)\<rparr>) (as - {a})"
proof -
  let ?t = "s\<lparr>cb_mem := cb, ce_mem := (ce_mem s)(a := None)\<rparr>"
  have owns: "cmd_owns ?t x b \<longleftrightarrow> x \<noteq> a \<and> cmd_owns s x b" for x b by (simp add: cmd_owns_def)
  have a: "cmd_owns s a b \<longleftrightarrow> ce_buffer e = Some b" for b using assms(2) by (simp add: cmd_owns_def)
  have "cb b \<noteq> None \<longleftrightarrow> cb_mem s b \<noteq> None \<and> \<not> cmd_owns s a b" for b
    unfolding a using assms(3) by (auto split: option.splits)
  then have "cb b \<noteq> None \<longleftrightarrow> (\<exists>x. x \<noteq> a \<and> cmd_owns s x b)" for b
    using memory_owner(1,2) [OF assms(1)] by metis
  then show ?thesis
    using assms(1) unfolding cmd_memory_def owns by auto
qed

lemma free_cmd_inv:
  assumes "cmd_inv s is (Some a)"
  shows "\<exists>s1. free_cmd a s = Inr s1 \<and> cmd_inv s1 is None \<and> cmd_view s1 is = cmd_view s is \<and>
    CmdQ s1 = CmdQ s \<and> cmd_log s1 = cmd_log s \<and>
    fNIC_NOT_EXIST s1 = fNIC_NOT_EXIST s \<and> fHALT_IN_PROGRESS s1 = fHALT_IN_PROGRESS s"
proof -
  have m: "cmd_memory s (insert a (set is))" and na: "a \<notin> set is" and l: "cmd_links s is"
    using assms by (auto simp: cmd_inv_def)
  obtain e where e: "ce_mem s a = Some e" using cmd_memory_mem [OF m] by auto
  note ok = memory_owner(3) [OF m e] and own = cmd_owns_at [OF e]
  let ?cb = "case ce_buffer e of None \<Rightarrow> cb_mem s | Some b \<Rightarrow> (cb_mem s)(b := None)"
  let ?t = "s\<lparr>cb_mem := ?cb, ce_mem := (ce_mem s)(a := None)\<rparr>"
  have alive: "ce_buffer e = Some b \<Longrightarrow> cb_mem s b \<noteq> None" for b
    using memory_owner(1) [OF m] own by blast
  have "free_cmd a s = Inr ?t"
    using e ok alive
    by (auto simp: free_cmd_def cmd_elmt_at_def cmd_elmt_ok_def free_buffer_def split: option.splits)
  moreover have at: "cmd_at ?t x = cmd_at s x" if "x \<noteq> a" "x \<in> set is" for x
  proof -
    note ne = that(1) and mem = that(2)
    obtain ex where ex: "ce_mem s x = Some ex" using cmd_memory_mem [OF m] mem by auto
    have "ce_buffer e = Some b \<Longrightarrow> ce_buffer ex \<noteq> Some b" for b
      using memory_owner(2) [OF m, of x b a] own cmd_owns_at [OF ex] ne by blast
    then show ?thesis using ex ne by (auto simp: cmd_at_def cmd_data_def split: option.splits)
  qed
  moreover have "cmd_links ?t is"
  proof -
    have "link_path (cmd_succ ?t) (cq_head (CmdQ s)) is"
      by (rule link_path_cong [of "cmd_succ s"])
        (use l na in \<open>auto simp: cmd_links_def cmd_succ_def\<close>)
    then show ?thesis using l by (simp add: cmd_links_def)
  qed
  moreover have "cmd_memory ?t (set is)"
    using memory_remove [OF m e refl] na by simp
  moreover have "cmd_view ?t is = cmd_view s is"
    unfolding cmd_view_def by (rule map_cong [OF refl]) (metis at na)
  ultimately show ?thesis
    by (intro exI [of _ ?t]) (simp add: cmd_inv_def)
qed

text \<open>A command that the queue takes, and one that it does not.\<close>

definition enqueue_ok :: "nat option \<Rightarrow> nat option \<Rightarrow> bytes \<Rightarrow> u32 \<Rightarrow> cmd_sys \<Rightarrow> bool" where
  "enqueue_ok mem buf info len s \<longleftrightarrow>
     (case mem of None \<Rightarrow> True | Some a \<Rightarrow> ce_mem s a = None) \<and>
     (case buf of None \<Rightarrow> True | Some b \<Rightarrow> cb_mem s b = None) \<and> unat len \<le> length info"

definition cmd_info :: "bytes \<Rightarrow> u32 \<Rightarrow> bytes option" where
  "cmd_info info len = (if 0 < len then Some (take (unat len) info) else None)"

lemma enqueue_inv:
  assumes inv: "cmd_inv s is cur" and ok: "enqueue_ok (Some a) buf info len s"
    and "0 < len \<longrightarrow> buf \<noteq> None" "length is + 1 < 2 ^ 32" "RTMP_TASK_CAN_DO_INSERT (CmdQState (CmdQ s))"
  shows "\<exists>s1. RTEnqueueInternalCmd (Some a) buf Oid info len s = Inr (NDIS_STATUS_SUCCESS, s1) \<and>
    cmd_inv s1 (is @ [a]) cur \<and> cmd_view s1 (is @ [a]) = cmd_view s is @ [(Oid, cmd_info info len)] \<and>
    (\<forall>c. cur = Some c \<longrightarrow> cmd_at s1 c = cmd_at s c) \<and>
    cmd_log s1 = cmd_log s @ [CmdUp Oid (cmd_info info len)] \<and>
    fNIC_NOT_EXIST s1 = fNIC_NOT_EXIST s \<and> fHALT_IN_PROGRESS s1 = fHALT_IN_PROGRESS s \<and>
    CmdQState (CmdQ s1) = CmdQState (CmdQ s)"
proof -
  let ?as = "set is \<union> set_option cur"
  have l: "cmd_links s is" and m: "cmd_memory s ?as" and dj: "set is \<inter> set_option cur = {}"
    using inv by (simp_all add: cmd_inv_def)
  have fresh: "ce_mem s a = None" "0 < len \<Longrightarrow> cb_mem s (the buf) = None" "unat len \<le> length info"
    using ok assms(3) by (auto simp: enqueue_ok_def split: option.splits)
  have na: "a \<notin> ?as" using memory_owner(4) [OF m, of a] fresh(1) by simp
  define e where "e = \<lparr>ce_command = Oid, ce_buffer = (if 0 < len then buf else None),
    ce_bufferlength = (if 0 < len then ucast len else 0), ce_CmdFromNdis = False,
    ce_SetOperation = False, ce_next = None\<rparr>"
  define cb where "cb = (if 0 < len then (cb_mem s)(the buf \<mapsto> take (unat len) info) else cb_mem s)"
  define s2 where "s2 = s\<lparr>cb_mem := cb, ce_mem := (ce_mem s)(a \<mapsto> e)\<rparr>"
  have "(ucast len :: ulong) = 0 \<longleftrightarrow> len = 0" by transfer (simp add: min_def)
  then have len0: "(ucast len :: ulong) \<noteq> 0" if "0 < len" using that by auto
  have "cmd_elmt_ok e" using len0 by (simp add: e_def cmd_elmt_ok_def)
  then have m2: "cmd_memory s2 (insert a ?as)"
    unfolding s2_def using fresh assms(3)
    by (intro memory_add [OF m]) (auto simp: e_def cb_def)
  have at2: "cmd_at s2 x = (if x = a then (Oid, cmd_info info len) else cmd_at s x)"
    if "x \<in> insert a ?as" for x
  proof (cases "x = a")
    case True
    then show ?thesis
      using assms(3) by (auto simp: s2_def cmd_at_def cmd_data_def e_def cb_def cmd_info_def)
  next
    case False
    then have "x \<in> ?as" using that by simp
    then obtain ex where ex: "ce_mem s x = Some ex" using cmd_memory_mem [OF m] by blast
    have "0 < len \<Longrightarrow> ce_buffer ex \<noteq> Some (the buf)"
      using memory_owner(1) [OF m, of "the buf"] cmd_owns_at [OF ex, of "the buf"] fresh(2) by auto
    then show ?thesis
      using False ex by (auto simp: s2_def cmd_at_def cmd_data_def cb_def split: option.splits)
  qed
  have "link_path (cmd_succ s2) (cq_head (CmdQ s)) is"
    by (rule link_path_cong [of "cmd_succ s"])
      (use l na in \<open>auto simp: cmd_links_def cmd_succ_def s2_def\<close>)
  then have l2: "cmd_links s2 is" using l by (simp add: cmd_links_def s2_def)
  obtain s3 where s3: "EnqueueCmd a s2 = Inr s3" "cmd_links s3 (is @ [a])"
      "cmd_memory s3 (insert a ?as)" "same_cmds s2 s3"
    using EnqueueCmd_inv [OF l2 m2 _ _ _ assms(4)] na by auto
  let ?s = "cmd_emit (CmdUp Oid (cmd_info info len)) s3"
  have enq: "RTEnqueueInternalCmd (Some a) buf Oid info len s = Inr (NDIS_STATUS_SUCCESS, ?s)"
  proof (cases "0 < len")
    case True
    then have s2: "s2 = s\<lparr>cb_mem := (cb_mem s)(the buf \<mapsto> take (unat len) info),
      ce_mem := (ce_mem s)(a \<mapsto> \<lparr>ce_command = Oid, ce_buffer = buf, ce_bufferlength = ucast len,
        ce_CmdFromNdis = False, ce_SetOperation = False, ce_next = None\<rparr>)\<rparr>"
      by (simp add: s2_def cb_def e_def)
    show ?thesis
      using True assms(3,5) fresh(3) s3(1)
      by (auto simp: RTEnqueueInternalCmd_def Let_def s2 cmd_info_def)
  next
    case False
    then have s2: "s2 = s\<lparr>ce_mem := (ce_mem s)(a \<mapsto> \<lparr>ce_command = Oid, ce_buffer = None,
        ce_bufferlength = 0, ce_CmdFromNdis = False, ce_SetOperation = False, ce_next = None\<rparr>)\<rparr>"
      by (simp add: s2_def cb_def e_def)
    show ?thesis
      using False assms(5) s3(1)
      by (simp add: RTEnqueueInternalCmd_def Let_def s2 cmd_info_def)
  qed
  have at3: "cmd_at ?s = cmd_at s2"
    using s3(4) cmd_cong(4) [of ?s s3] by (simp add: same_cmds_def cmd_emit_def)
  have "cmd_links ?s (is @ [a])" "cmd_memory ?s (insert a ?as)"
    using s3(2,3) cmd_cong(1,2) [of ?s s3] by (simp_all add: cmd_emit_def)
  moreover have "set (is @ [a]) \<union> set_option cur = insert a ?as" by auto
  ultimately have "cmd_inv ?s (is @ [a]) cur"
    using na dj by (auto simp: cmd_inv_def)
  moreover have "cmd_view ?s (is @ [a]) = cmd_view s is @ [(Oid, cmd_info info len)]"
  proof -
    have "map (cmd_at ?s) is = map (cmd_at s) is"
      by (rule map_cong [OF refl]) (use at2 at3 na in auto)
    then show ?thesis using at2 [of a] at3 by (simp add: cmd_view_def)
  qed
  moreover have "\<forall>c. cur = Some c \<longrightarrow> cmd_at ?s c = cmd_at s c"
    using at2 at3 na by auto
  moreover have "cmd_log ?s = cmd_log s @ [CmdUp Oid (cmd_info info len)]"
      "fNIC_NOT_EXIST ?s = fNIC_NOT_EXIST s" "fHALT_IN_PROGRESS ?s = fHALT_IN_PROGRESS s"
      "CmdQState (CmdQ ?s) = CmdQState (CmdQ s)"
    using s3(4) by (simp_all add: same_cmds_def cmd_emit_def s2_def)
  ultimately show ?thesis using enq by blast
qed

text \<open>A command is not taken for lack of memory, or because the thread has stopped.\<close>

lemma enqueue_refused:
  assumes "enqueue_ok mem buf info len s"
    and "mem = None \<or> (0 < len \<and> buf = None) \<or> \<not> RTMP_TASK_CAN_DO_INSERT (CmdQState (CmdQ s))"
  shows "\<exists>st. RTEnqueueInternalCmd mem buf Oid info len s = Inr (st, s)"
proof (cases mem)
  case None
  then show ?thesis by (simp add: RTEnqueueInternalCmd_def)
next
  case (Some a)
  then have a: "(ce_mem s)(a := None) = ce_mem s" using assms(1) by (simp add: enqueue_ok_def fun_upd_idem)
  show ?thesis
  proof (cases "0 < len \<and> buf \<noteq> None")
    case True
    then obtain b where b: "buf = Some b" by auto
    then have "(cb_mem s)(b := None) = cb_mem s" using assms(1) by (simp add: enqueue_ok_def fun_upd_idem)
    then show ?thesis
      using assms Some True b a
      by (auto simp: RTEnqueueInternalCmd_def Let_def enqueue_ok_def)
  next
    case False
    then show ?thesis using assms Some a by (auto simp: RTEnqueueInternalCmd_def Let_def)
  qed
qed

subsection \<open>A list of commands\<close>

text \<open>
  The function of a command, if it has one. An identifier whose distance to the first does not fit
  16 bits would pass \<^verbatim>\<open>ValidCMD\<close> and index past the table; the driver has none.
\<close>

definition cmd_function :: "cmd_hdlr option list \<Rightarrow> u32 \<Rightarrow> cmd_hdlr option" where
  "cmd_function table c =
     (let i = unat (c - CMDTHREAD_FIRST_CMD_ID) in if i < length table then table ! i else None)"

definition short_id :: "u32 \<Rightarrow> bool" where
  "short_id c \<longleftrightarrow> unat (c - CMDTHREAD_FIRST_CMD_ID) < 2 ^ 16"

lemma sint_16:
  fixes w :: "16 word"
  shows "sint w = (if unat w < 2 ^ 15 then int (unat w) else int (unat w) - 2 ^ 16)"
proof -
  obtain n where n: "unat w = n" by blast
  have b: "n < 2 ^ 16" using unsigned_less [of w, where 'a = nat] n by simp
  have s: "sint w = signed_take_bit 15 (int n)" by (simp add: sint_uint flip: n)
  show ?thesis
  proof (cases "n < 2 ^ 15")
    case True
    then have "signed_take_bit 15 (int n) = int n" by (intro signed_take_bit_int_eq_self) simp_all
    then show ?thesis unfolding n s using True by simp
  next
    case False
    have "take_bit (Suc 15) (int n - 2 ^ 16) = take_bit (Suc 15) (int n)" by (simp add: take_bit_eq_mod)
    then have "signed_take_bit 15 (int n) = signed_take_bit 15 (int n - 2 ^ 16)"
      by (simp only: signed_take_bit_eq_iff_take_bit_eq)
    also have "\<dots> = int n - 2 ^ 16" using False b by (intro signed_take_bit_int_eq_self) simp_all
    finally show ?thesis unfolding n s using False by simp
  qed
qed

lemma ValidCMD_function:
  assumes "short_id c" "length table < 2 ^ 15"
  shows "ValidCMD table c \<longleftrightarrow> cmd_function table c \<noteq> None"
proof -
  let ?d = "c - CMDTHREAD_FIRST_CMD_ID"
  obtain n where n: "unat ?d = n" by blast
  have b: "n < 2 ^ 16" using assms(1) n by (simp add: short_id_def)
  then have "unat (ucast ?d :: 16 word) = n"
    unfolding unsigned_ucast_eq n by (simp add: take_bit_nat_eq_self)
  then have "sint (ucast ?d :: 16 word) = (if n < 2 ^ 15 then int n else int n - 2 ^ 16)"
    by (simp only: sint_16)
  then show ?thesis
    unfolding ValidCMD_def cmd_function_def Let_def n using b assms(2) by (auto split: if_splits)
qed

text \<open>A function that does nothing but write down that it was called.\<close>

definition log_call :: "cmd_hdlr \<Rightarrow> cmd_elmt \<Rightarrow> cmd_sys \<Rightarrow> c_fault + cmd_sys" where
  "log_call f e s = Inr (cmd_emit (CmdRun f (ce_command e) (cmd_data s e)) s)"

definition cmd_runs :: "cmd_hdlr option list \<Rightarrow> bool \<Rightarrow> u32 \<times> bytes option \<Rightarrow> cmd_event list" where
  "cmd_runs table gone c =
     (if gone then [] else case cmd_function table (fst c) of None \<Rightarrow> [] | Some f \<Rightarrow> [CmdRun f (fst c) (snd c)])"

abbreviation "cmd_gone s \<equiv> fNIC_NOT_EXIST s \<or> fHALT_IN_PROGRESS s"

lemma execute_log:
  assumes "cmd_inv s is (Some a)" "short_id (fst (cmd_at s a))" "length table < 2 ^ 15"
  shows "\<exists>s1. cmd_execute log_call table a s = Inr s1 \<and> cmd_inv s1 is (Some a) \<and> cmd_at s1 = cmd_at s \<and>
    CmdQ s1 = CmdQ s \<and> cmd_log s1 = cmd_log s @ cmd_runs table (cmd_gone s) (cmd_at s a) \<and>
    fNIC_NOT_EXIST s1 = fNIC_NOT_EXIST s \<and> fHALT_IN_PROGRESS s1 = fHALT_IN_PROGRESS s"
proof -
  have m: "cmd_memory s (insert a (set is))" using assms(1) by (simp add: cmd_inv_def)
  obtain e where e: "ce_mem s a = Some e" using cmd_memory_mem [OF m] by auto
  have at: "cmd_at s a = (ce_command e, cmd_data s e)" using e by (simp add: cmd_at_def)
  note v = ValidCMD_function [OF assms(2,3), unfolded at fst_conv]
  let ?s = "s\<lparr>cmd_log := cmd_log s @ cmd_runs table (cmd_gone s) (cmd_at s a)\<rparr>"
  have "cmd_execute log_call table a s = Inr ?s"
    using e v
    by (auto simp: cmd_execute_def cmd_elmt_at_def cmd_call_def log_call_def cmd_emit_def cmd_runs_def at
        cmd_function_def Let_def split: option.splits if_splits)
  moreover have "cmd_inv ?s is (Some a)" "cmd_at ?s = cmd_at s"
    using assms(1) cmd_cong(3,4) [of ?s s] by simp_all
  ultimately show ?thesis by (intro exI [of _ ?s]) simp
qed

subsection \<open>Runs\<close>

text \<open>
  What contexts do to the queue, in steps that a lock or the single thread keeps apart: a command is
  enqueued by any context (also by the function that is being carried out); the thread takes a command
  and carries it out; it frees the command; the state of the queue and the flags of the adapter are
  set; the thread ends and clears the queue. The thread has at most one command in hand.
\<close>

datatype cmd_op =
    OpEnqueue "nat option" "nat option" u32 bytes u32
  | OpTake
  | OpFree
  | OpState nat
  | OpFlags bool bool
  | OpEnd

fun cmd_step :: "cmd_hdlr option list \<Rightarrow> cmd_op \<Rightarrow> cmd_sys \<times> nat option \<Rightarrow> (cmd_sys \<times> nat option) run" where
  "cmd_step table (OpEnqueue mem buf Oid info len) (s, cur) =
     r_bind (r_lift (RTEnqueueInternalCmd mem buf Oid info len s)) (\<lambda>(st, s1). r_return (s1, cur))"
| "cmd_step table OpTake (s, cur) =
     (if cur \<noteq> None \<or> cq_size (CmdQ s) = 0 then r_return (s, cur)
      else r_bind (r_lift (RTThreadDequeueCmd s)) (\<lambda>(p, s1).
        case p of
          None \<Rightarrow> r_return (s1, None)
        | Some a \<Rightarrow> r_bind (r_lift (cmd_execute log_call table a s1)) (\<lambda>s2. r_return (s2, Some a))))"
| "cmd_step table OpFree (s, cur) =
     (case cur of
        None \<Rightarrow> r_return (s, None)
      | Some a \<Rightarrow> r_bind (r_lift (free_cmd a s)) (\<lambda>s1. r_return (s1, None)))"
| "cmd_step table (OpState st) (s, cur) = r_return (set_CmdQState st s, cur)"
| "cmd_step table (OpFlags nic halt) (s, cur) =
     r_return (s\<lparr>fNIC_NOT_EXIST := nic, fHALT_IN_PROGRESS := halt\<rparr>, cur)"
| "cmd_step table OpEnd (s, cur) =
     (if cur \<noteq> None then r_return (s, cur)
      else r_bind (cmd_clear (set_CmdQState RTMP_TASK_STAT_STOPED s)) (\<lambda>s1. r_return (s1, None)))"

text \<open>The same on a list of commands: queue, command in hand, log, state and flags.\<close>

record cmd_list =
  cl_queue :: "(u32 \<times> bytes option) list"
  cl_hand :: "(u32 \<times> bytes option) option"
  cl_log :: "cmd_event list"
  cl_state :: nat
  cl_gone :: bool

fun cmd_list_step :: "cmd_hdlr option list \<Rightarrow> cmd_op \<Rightarrow> cmd_list \<Rightarrow> cmd_list" where
  "cmd_list_step table (OpEnqueue mem buf Oid info len) c =
     (if mem = None \<or> (0 < len \<and> buf = None) \<or> \<not> RTMP_TASK_CAN_DO_INSERT (cl_state c) then c
      else c\<lparr>cl_queue := cl_queue c @ [(Oid, cmd_info info len)],
             cl_log := cl_log c @ [CmdUp Oid (cmd_info info len)]\<rparr>)"
| "cmd_list_step table OpTake c =
     (case (cl_hand c, cl_queue c) of
        (None, x # xs) \<Rightarrow> c\<lparr>cl_queue := xs, cl_hand := Some x,
                           cl_log := cl_log c @ cmd_runs table (cl_gone c) x\<rparr>
      | _ \<Rightarrow> c)"
| "cmd_list_step table OpFree c = c\<lparr>cl_hand := None\<rparr>"
| "cmd_list_step table (OpState st) c = c\<lparr>cl_state := st\<rparr>"
| "cmd_list_step table (OpFlags nic halt) c = c\<lparr>cl_gone := nic \<or> halt\<rparr>"
| "cmd_list_step table OpEnd c =
     (if cl_hand c \<noteq> None then c else c\<lparr>cl_queue := [], cl_state := RTMP_TASK_STAT_STOPED\<rparr>)"

definition cmd_abs :: "cmd_sys \<Rightarrow> nat list \<Rightarrow> nat option \<Rightarrow> cmd_list" where
  "cmd_abs s is cur = \<lparr>cl_queue = cmd_view s is, cl_hand = map_option (cmd_at s) cur, cl_log = cmd_log s,
     cl_state = CmdQState (CmdQ s), cl_gone = cmd_gone s\<rparr>"

text \<open>\<^verbatim>\<open>kmalloc\<close> returns memory that is not in use; the caller passes as many bytes as it says.\<close>

fun cmd_op_ok :: "cmd_op \<Rightarrow> cmd_sys \<Rightarrow> bool" where
  "cmd_op_ok (OpEnqueue mem buf Oid info len) s \<longleftrightarrow> enqueue_ok mem buf info len s \<and> short_id Oid"
| "cmd_op_ok _ s \<longleftrightarrow> True"

definition cmd_good :: "cmd_sys \<Rightarrow> nat list \<Rightarrow> nat option \<Rightarrow> bool" where
  "cmd_good s is cur \<longleftrightarrow> cmd_inv s is cur \<and> (\<forall>c \<in> set (cmd_view s is). short_id (fst c))"

lemma clear_run:
  assumes "cmd_inv s is None"
  shows "\<exists>s1. cmd_clear s = r_return s1 \<and> cmd_inv s1 [] None \<and> cmd_log s1 = cmd_log s \<and>
    fNIC_NOT_EXIST s1 = fNIC_NOT_EXIST s \<and> fHALT_IN_PROGRESS s1 = fHALT_IN_PROGRESS s \<and>
    CmdQState (CmdQ s1) = CmdQState (CmdQ s)"
  using assms
proof (induction "is" arbitrary: s)
  case Nil
  then have "cq_size (CmdQ s) = 0" by (simp add: cmd_inv_def cmd_links_def)
  then show ?case using Nil by (subst cmd_clear.simps) simp
next
  case (Cons a js)
  then have sz: "cq_size (CmdQ s) \<noteq> 0"
    using word_len_0 [of "length (a # js)"] by (auto simp: cmd_inv_def cmd_links_def)
  obtain s1 where s1: "RTThreadDequeueCmd s = Inr (Some a, s1)" "cmd_inv s1 js (Some a)" "same_cmds s s1"
    using dequeue_inv [OF Cons.prems] by blast
  obtain s2 where s2: "free_cmd a s1 = Inr s2" "cmd_inv s2 js None" "CmdQ s2 = CmdQ s1"
      "cmd_log s2 = cmd_log s1" "fNIC_NOT_EXIST s2 = fNIC_NOT_EXIST s1"
      "fHALT_IN_PROGRESS s2 = fHALT_IN_PROGRESS s1"
    using free_cmd_inv [OF s1(2)] by blast
  obtain s3 where s3: "cmd_clear s2 = r_return s3" "cmd_inv s3 [] None" "cmd_log s3 = cmd_log s2"
      "fNIC_NOT_EXIST s3 = fNIC_NOT_EXIST s2" "fHALT_IN_PROGRESS s3 = fHALT_IN_PROGRESS s2"
      "CmdQState (CmdQ s3) = CmdQState (CmdQ s2)"
    using Cons.IH [OF s2(2)] by blast
  have "cmd_clear s = r_return s3"
    using sz s1(1) s2(1) s3(1) by (subst cmd_clear.simps) simp
  then show ?case using s1(3) s2 s3 by (simp add: same_cmds_def)
qed

lemma cmd_gap: "cmd_links s is \<Longrightarrow> cq_size (CmdQ s) = 0 \<longleftrightarrow> is = []"
  using word_len_0 [of "length is"] by (auto simp: cmd_links_def)

lemma take_run:
  assumes "cmd_good s (a # js) None" "length table < 2 ^ 15"
  shows "\<exists>s1 s2. RTThreadDequeueCmd s = Inr (Some a, s1) \<and> cmd_execute log_call table a s1 = Inr s2 \<and>
    cmd_good s2 js (Some a) \<and> cmd_at s2 = cmd_at s \<and>
    cmd_log s2 = cmd_log s @ cmd_runs table (cmd_gone s) (cmd_at s a) \<and>
    fNIC_NOT_EXIST s2 = fNIC_NOT_EXIST s \<and> fHALT_IN_PROGRESS s2 = fHALT_IN_PROGRESS s \<and>
    CmdQState (CmdQ s2) = CmdQState (CmdQ s)"
proof -
  have inv: "cmd_inv s (a # js) None" and short: "\<forall>x \<in> set (a # js). short_id (fst (cmd_at s x))"
    using assms(1) by (simp_all add: cmd_good_def cmd_view_def)
  obtain s1 where s1: "RTThreadDequeueCmd s = Inr (Some a, s1)" "cmd_inv s1 js (Some a)" "same_cmds s s1"
    using dequeue_inv [OF inv] by blast
  have at: "cmd_at s1 = cmd_at s" using s1(3) by (simp add: same_cmds_def)
  obtain s2 where s2: "cmd_execute log_call table a s1 = Inr s2" "cmd_inv s2 js (Some a)"
      "cmd_at s2 = cmd_at s1" "CmdQ s2 = CmdQ s1"
      "cmd_log s2 = cmd_log s1 @ cmd_runs table (cmd_gone s1) (cmd_at s1 a)"
      "fNIC_NOT_EXIST s2 = fNIC_NOT_EXIST s1" "fHALT_IN_PROGRESS s2 = fHALT_IN_PROGRESS s1"
    using execute_log [OF s1(2) _ assms(2)] short at by auto
  have "cmd_good s2 js (Some a)" using s2(2,3) at short by (simp add: cmd_good_def cmd_view_def)
  then show ?thesis using s1 s2 at by (simp add: same_cmds_def)
qed

lemma cmd_step_refines:
  assumes "cmd_good s is cur" "cmd_op_ok op s" "length is + 1 < 2 ^ 32" "length table < 2 ^ 15"
  shows "\<exists>s1 js cur1. cmd_step table op (s, cur) = r_return (s1, cur1) \<and> cmd_good s1 js cur1 \<and>
    cmd_abs s1 js cur1 = cmd_list_step table op (cmd_abs s is cur) \<and> length js \<le> length is + 1"
proof (cases op)
  case (OpEnqueue mem buf Oid info len)
  have ok: "enqueue_ok mem buf info len s" "short_id Oid" using assms(2) OpEnqueue by simp_all
  show ?thesis
  proof (cases "mem = None \<or> (0 < len \<and> buf = None) \<or> \<not> RTMP_TASK_CAN_DO_INSERT (CmdQState (CmdQ s))")
    case True
    then obtain st where "RTEnqueueInternalCmd mem buf Oid info len s = Inr (st, s)"
      using enqueue_refused ok(1) by blast
    then show ?thesis
      using True assms(1) OpEnqueue
      by (intro exI [of _ s] exI [of _ "is"] exI [of _ cur]) (auto simp: cmd_abs_def)
  next
    case False
    then obtain a where a: "mem = Some a" by auto
    have inv: "cmd_inv s is cur" using assms(1) by (simp add: cmd_good_def)
    obtain s1 where s1: "RTEnqueueInternalCmd (Some a) buf Oid info len s = Inr (NDIS_STATUS_SUCCESS, s1)"
        "cmd_inv s1 (is @ [a]) cur" "cmd_view s1 (is @ [a]) = cmd_view s is @ [(Oid, cmd_info info len)]"
        "\<forall>c. cur = Some c \<longrightarrow> cmd_at s1 c = cmd_at s c"
        "cmd_log s1 = cmd_log s @ [CmdUp Oid (cmd_info info len)]"
        "fNIC_NOT_EXIST s1 = fNIC_NOT_EXIST s" "fHALT_IN_PROGRESS s1 = fHALT_IN_PROGRESS s"
        "CmdQState (CmdQ s1) = CmdQState (CmdQ s)"
      using enqueue_inv [OF inv ok(1) [unfolded a], of Oid] False assms(3) by auto
    have "cmd_good s1 (is @ [a]) cur"
      using s1(2,3) assms(1) ok(2) by (auto simp: cmd_good_def)
    moreover have "map_option (cmd_at s1) cur = map_option (cmd_at s) cur" using s1(4) by (cases cur) simp_all
    ultimately show ?thesis
      using s1 False a OpEnqueue
      by (intro exI [of _ s1] exI [of _ "is @ [a]"] exI [of _ cur]) (auto simp: cmd_abs_def)
  qed
next
  case OpTake
  have l: "cmd_links s is" using assms(1) by (simp add: cmd_good_def cmd_inv_def)
  show ?thesis
  proof (cases "cur \<noteq> None \<or> is = []")
    case True
    then show ?thesis
      using assms(1) cmd_gap [OF l] OpTake
      by (intro exI [of _ s] exI [of _ "is"] exI [of _ cur]) (auto simp: cmd_abs_def cmd_view_def split: option.splits)
  next
    case False
    then obtain a js where a: "is = a # js" "cur = None" by (cases "is") auto
    obtain s1 s2 where s2: "RTThreadDequeueCmd s = Inr (Some a, s1)" "cmd_execute log_call table a s1 = Inr s2"
        "cmd_good s2 js (Some a)" "cmd_at s2 = cmd_at s"
        "cmd_log s2 = cmd_log s @ cmd_runs table (cmd_gone s) (cmd_at s a)"
        "fNIC_NOT_EXIST s2 = fNIC_NOT_EXIST s" "fHALT_IN_PROGRESS s2 = fHALT_IN_PROGRESS s"
        "CmdQState (CmdQ s2) = CmdQState (CmdQ s)"
      using take_run [OF assms(1) [unfolded a] assms(4)] by blast
    then show ?thesis
      using a cmd_gap [OF l] OpTake
      by (intro exI [of _ s2] exI [of _ js] exI [of _ "Some a"]) (simp add: cmd_abs_def cmd_view_def)
  qed
next
  case OpFree
  show ?thesis
  proof (cases cur)
    case None
    then show ?thesis
      using assms(1) OpFree by (intro exI [of _ s] exI [of _ "is"] exI [of _ cur]) (simp add: cmd_abs_def)
  next
    case (Some a)
    obtain s1 where s1: "free_cmd a s = Inr s1" "cmd_inv s1 is None" "cmd_view s1 is = cmd_view s is"
        "CmdQ s1 = CmdQ s" "cmd_log s1 = cmd_log s" "fNIC_NOT_EXIST s1 = fNIC_NOT_EXIST s"
        "fHALT_IN_PROGRESS s1 = fHALT_IN_PROGRESS s"
      using free_cmd_inv assms(1) Some unfolding cmd_good_def by blast
    then show ?thesis
      using assms(1) OpFree Some
      by (intro exI [of _ s1] exI [of _ "is"] exI [of _ None]) (simp add: cmd_abs_def cmd_good_def)
  qed
next
  case (OpState st)
  note c = cmd_cong [of "set_CmdQState st s" s]
  show ?thesis
    using assms(1) OpState c
    by (intro exI [of _ "set_CmdQState st s"] exI [of _ "is"] exI [of _ cur])
      (simp add: cmd_abs_def cmd_good_def set_CmdQState_def)
next
  case (OpFlags nic halt)
  note c = cmd_cong [of "s\<lparr>fNIC_NOT_EXIST := nic, fHALT_IN_PROGRESS := halt\<rparr>" s]
  show ?thesis
    using assms(1) OpFlags c
    by (intro exI [of _ "s\<lparr>fNIC_NOT_EXIST := nic, fHALT_IN_PROGRESS := halt\<rparr>"] exI [of _ "is"] exI [of _ cur])
      (simp add: cmd_abs_def cmd_good_def)
next
  case OpEnd
  show ?thesis
  proof (cases cur)
    case None
    let ?s = "set_CmdQState RTMP_TASK_STAT_STOPED s"
    have "cmd_inv ?s is None"
      using assms(1) None cmd_cong(3) [of ?s s] by (simp add: cmd_good_def set_CmdQState_def)
    then obtain s1 where s1: "cmd_clear ?s = r_return s1" "cmd_inv s1 [] None" "cmd_log s1 = cmd_log ?s"
        "fNIC_NOT_EXIST s1 = fNIC_NOT_EXIST ?s" "fHALT_IN_PROGRESS s1 = fHALT_IN_PROGRESS ?s"
        "CmdQState (CmdQ s1) = CmdQState (CmdQ ?s)"
      using clear_run by blast
    then show ?thesis
      using OpEnd None
      by (intro exI [of _ s1] exI [of _ "[]"] exI [of _ None])
        (simp add: cmd_abs_def cmd_good_def cmd_view_def set_CmdQState_def)
  next
    case (Some a)
    then show ?thesis
      using assms(1) OpEnd by (intro exI [of _ s] exI [of _ "is"] exI [of _ cur]) (simp add: cmd_abs_def)
  qed
qed

fun cmd_run :: "cmd_hdlr option list \<Rightarrow> cmd_op list \<Rightarrow> cmd_sys \<times> nat option \<Rightarrow> (cmd_sys \<times> nat option) run" where
  "cmd_run table [] st = r_return st"
| "cmd_run table (op # ops) st = r_bind (cmd_step table op st) (cmd_run table ops)"

fun cmd_ops_ok :: "cmd_hdlr option list \<Rightarrow> cmd_op list \<Rightarrow> cmd_sys \<times> nat option \<Rightarrow> bool" where
  "cmd_ops_ok table [] st \<longleftrightarrow> True"
| "cmd_ops_ok table (op # ops) st \<longleftrightarrow> cmd_op_ok op (fst st) \<and>
     (case cmd_step table op st of Some (Inr st1) \<Rightarrow> cmd_ops_ok table ops st1 | _ \<Rightarrow> True)"

lemma cmd_run_refines:
  assumes "cmd_good s is cur" "cmd_ops_ok table ops (s, cur)" "length is + length ops < 2 ^ 32"
    "length table < 2 ^ 15"
  shows "\<exists>s1 js cur1. cmd_run table ops (s, cur) = r_return (s1, cur1) \<and> cmd_good s1 js cur1 \<and>
    cmd_abs s1 js cur1 = fold (cmd_list_step table) ops (cmd_abs s is cur)"
  using assms
proof (induction ops arbitrary: s "is" cur)
  case Nil
  then show ?case by (intro exI [of _ s] exI [of _ "is"] exI [of _ cur]) simp
next
  case (Cons op ops)
  have ok: "cmd_op_ok op s" using Cons.prems(2) by simp
  obtain s1 js cur1 where s1: "cmd_step table op (s, cur) = r_return (s1, cur1)" "cmd_good s1 js cur1"
      "cmd_abs s1 js cur1 = cmd_list_step table op (cmd_abs s is cur)" "length js \<le> length is + 1"
    using cmd_step_refines [OF Cons.prems(1) ok _ Cons.prems(4)] Cons.prems(3) by auto
  have "cmd_ops_ok table ops (s1, cur1)" using Cons.prems(2) s1(1) by (simp add: r_return_def)
  then show ?case
    using Cons.IH [OF s1(2) _ _ Cons.prems(4)] Cons.prems(3) s1 by simp
qed

lemma length_CMDHdlrTable: "length (CMDHdlrTable sta ap cfg80211) = 35"
  by (simp add: CMDHdlrTable_def)

subsection \<open>Properties\<close>

text \<open>C20: in any run of enqueuing contexts and the command thread no access goes wrong and the queue
  behaves as a list: commands that are taken are carried out once each, in the order they came, by the
  function the table has for them; and the elements and buffers in memory are those of the commands
  that wait or are in hand, so that none is lost, freed twice or used after it was freed.\<close>

theorem command_queue_is_list:
  assumes "ce_mem s = (\<lambda>_. None)" "cb_mem s = (\<lambda>_. None)" "length ops < 2 ^ 32"
    and "table = CMDHdlrTable sta ap cfg80211" "cmd_ops_ok table ops (RTInitializeCmdQ s, None)"
  shows "\<exists>s1 is cur. cmd_run table ops (RTInitializeCmdQ s, None) = r_return (s1, cur) \<and>
    cmd_abs s1 is cur = fold (cmd_list_step table) ops
      \<lparr>cl_queue = [], cl_hand = None, cl_log = cmd_log s, cl_state = RTMP_TASK_STAT_INITED,
       cl_gone = (fNIC_NOT_EXIST s \<or> fHALT_IN_PROGRESS s)\<rparr> \<and>
    (\<forall>a. ce_mem s1 a \<noteq> None \<longleftrightarrow> a \<in> set is \<or> cur = Some a) \<and>
    (\<forall>b. cb_mem s1 b \<noteq> None \<longleftrightarrow> (\<exists>a. cmd_owns s1 a b))"
proof -
  let ?s = "RTInitializeCmdQ s"
  have good: "cmd_good ?s [] None"
    using assms(1,2)
    by (simp add: cmd_good_def cmd_inv_def cmd_links_def cmd_memory_def cmd_view_def RTInitializeCmdQ_def
        cmd_owns_def)
  obtain s1 "is" cur where s1: "cmd_run table ops (?s, None) = r_return (s1, cur)" "cmd_good s1 is cur"
      "cmd_abs s1 is cur = fold (cmd_list_step table) ops (cmd_abs ?s [] None)"
    using cmd_run_refines [OF good assms(5)] assms(3,4) by (auto simp: length_CMDHdlrTable)
  have m: "cmd_memory s1 (set is \<union> set_option cur)" using s1(2) by (simp add: cmd_good_def cmd_inv_def)
  have "cmd_abs ?s [] None = \<lparr>cl_queue = [], cl_hand = None, cl_log = cmd_log s,
      cl_state = RTMP_TASK_STAT_INITED, cl_gone = cmd_gone s\<rparr>"
    by (simp add: cmd_abs_def cmd_view_def RTInitializeCmdQ_def)
  moreover have "ce_mem s1 a \<noteq> None \<longleftrightarrow> a \<in> set is \<or> cur = Some a" for a
    using memory_owner(4) [OF m, of a] by simp
  moreover note memory_owner(1) [OF m]
  ultimately show ?thesis using s1 by (intro exI [of _ s1] exI [of _ "is"] exI [of _ cur]) simp
qed

definition sample_cmds :: cmd_sys where
  "sample_cmds = \<lparr>CmdQ = \<lparr>cq_size = 0, cq_head = None, cq_tail = None, CmdQState = 0\<rparr>, ce_mem = (\<lambda>_. None),
     cb_mem = (\<lambda>_. None), fNIC_NOT_EXIST = False, fHALT_IN_PROGRESS = False, cmd_log = []\<rparr>"

definition sample_ops :: "cmd_op list" where
  "sample_ops = [OpEnqueue (Some 7) (Some 3) 0x0D730113 [1, 2] 2, OpTake, OpEnqueue (Some 8) None 0x0D730103 [] 0,
     OpFree, OpTake]"

lemma sample_ops_ok: "cmd_ops_ok (CMDHdlrTable True True False) sample_ops (RTInitializeCmdQ sample_cmds, None)"
  by (simp add: sample_ops_def sample_cmds_def RTInitializeCmdQ_def enqueue_ok_def short_id_def
      CMDTHREAD_FIRST_CMD_ID_def RTEnqueueInternalCmd_def Let_def EnqueueCmd_def upd_elmt_def
      RTMP_TASK_CAN_DO_INSERT_def RTMP_TASK_STAT_INITED_def RTMP_TASK_STAT_RUNNING_def cmd_emit_def
      RTThreadDequeueCmd_def cmd_elmt_at_def cmd_execute_def cmd_call_def ValidCMD_def CMDHdlrTable_def
      log_call_def free_cmd_def free_buffer_def cmd_data_def r_lift_def r_bind_def r_return_def)

lemma command_queue_is_list_witness:
  "\<exists>s1 is cur. cmd_run (CMDHdlrTable True True False) sample_ops (RTInitializeCmdQ sample_cmds, None) = r_return (s1, cur) \<and>
    cmd_abs s1 is cur = fold (cmd_list_step (CMDHdlrTable True True False)) sample_ops
      \<lparr>cl_queue = [], cl_hand = None, cl_log = cmd_log sample_cmds, cl_state = RTMP_TASK_STAT_INITED,
       cl_gone = (fNIC_NOT_EXIST sample_cmds \<or> fHALT_IN_PROGRESS sample_cmds)\<rparr> \<and>
    (\<forall>a. ce_mem s1 a \<noteq> None \<longleftrightarrow> a \<in> set is \<or> cur = Some a) \<and>
    (\<forall>b. cb_mem s1 b \<noteq> None \<longleftrightarrow> (\<exists>a. cmd_owns s1 a b))"
  by (rule command_queue_is_list [OF _ _ _ refl sample_ops_ok]) (simp_all add: sample_cmds_def sample_ops_def)

text \<open>C21: with a thread that is alone \<^verbatim>\<open>CMDHandler\<close> returns, with an empty queue and all memory freed, and
  has called for each valid command in order the function of the table, with the data it was enqueued
  with.\<close>

theorem command_handler_drains:
  assumes "cmd_good s is None" "table = CMDHdlrTable sta ap cfg80211"
  shows "\<exists>s1. CMDHandler log_call table s = r_return s1 \<and>
    cmd_log s1 = cmd_log s @ concat (map (cmd_runs table (fNIC_NOT_EXIST s \<or> fHALT_IN_PROGRESS s)) (cmd_view s is)) \<and>
    ce_mem s1 = (\<lambda>_. None) \<and> cb_mem s1 = (\<lambda>_. None)"
  using assms(1)
proof (induction "is" arbitrary: s)
  case Nil
  then have m: "cmd_memory s {}" and "cq_size (CmdQ s) = 0"
    by (simp_all add: cmd_good_def cmd_inv_def cmd_links_def)
  moreover have "ce_mem s a = None" for a using memory_owner(4) [OF m, of a] by simp
  moreover have "cb_mem s b = None" for b
    using memory_owner(1) [OF m, of b] calculation(3) by (simp add: cmd_owns_def)
  ultimately show ?case by (subst CMDHandler.simps) (simp add: fun_eq_iff cmd_view_def)
next
  case (Cons a js)
  have l: "cmd_links s (a # js)" using Cons.prems by (simp add: cmd_good_def cmd_inv_def)
  have t: "length table < 2 ^ 15" by (simp add: assms(2) length_CMDHdlrTable)
  obtain s1 s2 where s2: "RTThreadDequeueCmd s = Inr (Some a, s1)" "cmd_execute log_call table a s1 = Inr s2"
      "cmd_good s2 js (Some a)" "cmd_at s2 = cmd_at s"
      "cmd_log s2 = cmd_log s @ cmd_runs table (cmd_gone s) (cmd_at s a)"
      "fNIC_NOT_EXIST s2 = fNIC_NOT_EXIST s" "fHALT_IN_PROGRESS s2 = fHALT_IN_PROGRESS s"
    using take_run [OF Cons.prems t] by blast
  obtain s3 where s3: "free_cmd a s2 = Inr s3" "cmd_inv s3 js None" "cmd_view s3 js = cmd_view s2 js"
      "cmd_log s3 = cmd_log s2" "fNIC_NOT_EXIST s3 = fNIC_NOT_EXIST s2"
      "fHALT_IN_PROGRESS s3 = fHALT_IN_PROGRESS s2"
    using free_cmd_inv s2(3) unfolding cmd_good_def by blast
  have "cmd_good s3 js None" using s3(2,3) s2(3) by (simp add: cmd_good_def)
  from Cons.IH [OF this] obtain s4 where s4: "CMDHandler log_call table s3 = r_return s4"
      "cmd_log s4 = cmd_log s3 @ concat (map (cmd_runs table (cmd_gone s3)) (cmd_view s3 js))"
      "ce_mem s4 = (\<lambda>_. None)" "cb_mem s4 = (\<lambda>_. None)"
    by blast
  have "CMDHandler log_call table s = r_return s4"
    using cmd_gap [OF l] s2(1,2) s3(1) s4(1) by (subst CMDHandler.simps) simp
  moreover have "cmd_view s3 js = cmd_view s js" using s3(3) by (simp add: cmd_view_def s2(4))
  moreover have "cmd_view s (a # js) = cmd_at s a # cmd_view s js" by (simp add: cmd_view_def)
  ultimately show ?case using s2 s3(4-6) s4 by simp
qed

lemma two_commands:
  "\<exists>s is. cmd_good s is None \<and> cmd_view s is = [(0x0D730113, Some [1, 2]), (0x0D730103, None)] \<and>
    cmd_log s = [CmdUp 0x0D730113 (Some [1, 2]), CmdUp 0x0D730103 None] \<and> \<not> cmd_gone s"
proof -
  let ?s = "RTInitializeCmdQ sample_cmds"
  have ini: "cmd_inv ?s [] None" "enqueue_ok (Some 7) (Some 3) [1, 2] 2 ?s"
      "RTMP_TASK_CAN_DO_INSERT (CmdQState (CmdQ ?s))"
    by (simp_all add: cmd_inv_def cmd_links_def cmd_memory_def RTInitializeCmdQ_def cmd_owns_def sample_cmds_def
        enqueue_ok_def RTMP_TASK_CAN_DO_INSERT_def RTMP_TASK_STAT_INITED_def RTMP_TASK_STAT_RUNNING_def)
  obtain s1 where s1: "cmd_inv s1 [7] None" "cmd_view s1 [7] = [(0x0D730113, Some [1, 2])]"
      "cmd_log s1 = [CmdUp 0x0D730113 (Some [1, 2])]" "\<not> cmd_gone s1" "CmdQState (CmdQ s1) = CmdQState (CmdQ ?s)"
    using enqueue_inv [OF ini(1,2) _ _ ini(3), where Oid = "0x0D730113"]
    by (auto simp: cmd_view_def cmd_info_def sample_cmds_def RTInitializeCmdQ_def)
  have m: "cmd_memory s1 {7}" using s1(1) by (simp add: cmd_inv_def)
  have "enqueue_ok (Some 8) None [] 0 s1" using memory_owner(4) [OF m, of 8] by (simp add: enqueue_ok_def)
  from enqueue_inv [OF s1(1) this, where Oid = "0x0D730103"] ini(3) s1(5)
  obtain s2 where s2: "cmd_inv s2 [7, 8] None" "cmd_view s2 [7, 8] = cmd_view s1 [7] @ [(0x0D730103, None)]"
      "cmd_log s2 = cmd_log s1 @ [CmdUp 0x0D730103 None]" "cmd_gone s2 = cmd_gone s1"
    by (auto simp: cmd_info_def)
  then show ?thesis
    using s1 by (intro exI [of _ s2] exI [of _ "[7, 8]"])
      (simp add: cmd_good_def short_id_def CMDTHREAD_FIRST_CMD_ID_def)
qed

lemma command_handler_drains_witness:
  "\<exists>s is s1. cmd_view s is = [(0x0D730113, Some [1, 2]), (0x0D730103, None)] \<and>
    CMDHandler log_call (CMDHdlrTable True True False) s = r_return s1 \<and>
    cmd_log s1 = cmd_log s @ concat (map (cmd_runs (CMDHdlrTable True True False)
      (fNIC_NOT_EXIST s \<or> fHALT_IN_PROGRESS s)) (cmd_view s is)) \<and>
    ce_mem s1 = (\<lambda>_. None) \<and> cb_mem s1 = (\<lambda>_. None)"
  using two_commands command_handler_drains [where table = "CMDHdlrTable True True False"] by metis

text \<open>The identifiers of \<^verbatim>\<open>include/rtusb_io.h\<close> and the places of the table agree.\<close>

lemma command_functions:
  "map (cmd_function (CMDHdlrTable True True cfg80211))
     [0x0D730101, 0x0D730102, 0x0D730103, 0x0D730104, 0x0D730105, 0x0D730106, 0x0D730107, 0x0D730108,
      0x0D730109, 0x0D73010A, 0x0D73010B, 0x0D73010C, 0x0D73010D, 0x0D73010E, 0x0D73010F, 0x0D730110] =
   map Some [ResetBulkOutHdlr, ResetBulkInHdlr, CheckGPIOHdlr, SetAsicWcidHdlr, DelAsicWcidHdlr,
      SetClientMACEntryHdlr, SetPSMBitHdlr, ForceWakeUpHdlr, ForceSleepAutoWakeupHdlr, QkeriodicExecutHdlr,
      APUpdateCapabilityAndErpieHdlr, APEnableTXBurstHdlr, APDisableTXBurstHdlr, APAdjustEXPAckTimeHdlr,
      APRecoverEXPAckTimeHdlr, ChannelRescanHdlr]"
  "map (cmd_function (CMDHdlrTable True True cfg80211))
     [0x0D730113, 0x0D730114, 0x0D730115, 0x0D730116, 0x0D730117, 0x0D730118, 0x0D730119, 0x0D73011A,
      0x0D73011B] =
   map Some [SetWcidSecInfoHdlr, SetAsicWcidIVEIVHdlr, SetAsicWcidAttrHdlr, SETAsicSharedKeyHdlr,
      SetAsicPairwiseKeyHdlr, RemovePairwiseKeyHdlr, SetPortSecuredHdlr, CounterMeasureHdlr_802_11,
      UpdateProtectHdlr]"
  "map (cmd_function (CMDHdlrTable True True True)) [0x0D73011C, 0x0D73011D, 0x0D73011E, 0x0D73011F] =
   map Some [RegHintHdlr, RegHint11DHdlr, RT_Mac80211_ScanEnd, RT_Mac80211_ConnResultInfom]"
  by (simp_all add: cmd_function_def CMDHdlrTable_def CMDTHREAD_FIRST_CMD_ID_def)

text \<open>A command that the queue does not take is reported as taken.\<close>

lemma refused_command_reported_as_taken:
  assumes "\<not> RTMP_TASK_CAN_DO_INSERT (CmdQState (CmdQ s))" "ce_mem s a = None"
  shows "RTEnqueueInternalCmd (Some a) buf Oid [] 0 s = Inr (NDIS_STATUS_SUCCESS, s)"
  using assms by (simp add: RTEnqueueInternalCmd_def Let_def fun_upd_idem)

end
