(* ===== verification/TimerQueue.thy ===== *)
theory TimerQueue
  imports Links Fifo
begin

text \<open>
  The queue of expired timers, \<^verbatim>\<open>common/rtmp_timer.c\<close> and \<^verbatim>\<open>include/rtmp_timer.h\<close>: timers expire in
  interrupt context, where the chip cannot be reached over USB; their functions put them into this
  queue and a task carries them out. The nodes come from a pool of 128 that is linked to a free list.
  The pool is memory that is allocated and freed; a node is its index, a timer its address.
\<close>

subsection \<open>Data\<close>

record timer_node =
  pRaTimer :: "nat option"
  tn_next :: "nat option"

record timer_q =
  tq_status :: nat
  pTimerQPoll :: "timer_node list option"
  pQPollFreeList :: "nat option"
  pQHead :: "nat option"
  pQTail :: "nat option"

definition TIMER_QUEUE_SIZE_MAX :: nat where "TIMER_QUEUE_SIZE_MAX = 128"

definition tq_node :: "nat \<Rightarrow> timer_q \<Rightarrow> c_fault + timer_node" where
  "tq_node i q = (case pTimerQPoll q of None \<Rightarrow> Inl OOBRead
     | Some ns \<Rightarrow> if i < length ns then Inr (ns ! i) else Inl OOBRead)"

definition tq_update :: "nat \<Rightarrow> (timer_node \<Rightarrow> timer_node) \<Rightarrow> timer_q \<Rightarrow> c_fault + timer_q" where
  "tq_update i f q = (case pTimerQPoll q of None \<Rightarrow> Inl OOBWrite
     | Some ns \<Rightarrow> if i < length ns then Inr (q\<lparr>pTimerQPoll := Some (ns[i := f (ns ! i)])\<rparr>)
                 else Inl OOBWrite)"

subsection \<open>Operations\<close>

text \<open>The loop that links the pool: each node points to the one before it.\<close>

definition tq_link_pool :: "timer_node list \<Rightarrow> timer_node list \<times> nat option" where
  "tq_link_pool ns =
     foldl (\<lambda>(ns, pEntry) i. (ns[i := (ns ! i)\<lparr>tn_next := pEntry\<rparr>], Some i)) (ns, None)
       [0..<TIMER_QUEUE_SIZE_MAX]"

text \<open>\<open>mem\<close> says whether \<^verbatim>\<open>kmalloc\<close> finds memory.\<close>

definition RtmpTimerQInit :: "bool \<Rightarrow> timer_q" where
  "RtmpTimerQInit mem =
     (if mem
      then let (ns, pEntry) = tq_link_pool (replicate TIMER_QUEUE_SIZE_MAX \<lparr>pRaTimer = None, tn_next = None\<rparr>)
           in \<lparr>tq_status = RTMP_TASK_STAT_INITED, pTimerQPoll = Some ns, pQPollFreeList = pEntry,
               pQHead = None, pQTail = None\<rparr>
      else \<lparr>tq_status = RTMP_TASK_STAT_UNKNOWN, pTimerQPoll = None, pQPollFreeList = None,
            pQHead = None, pQTail = None\<rparr>)"

text \<open>The result is the node taken, if any; when there is one the task is woken.\<close>

definition RtmpTimerQInsert :: "nat \<Rightarrow> timer_q \<Rightarrow> c_fault + nat option \<times> timer_q" where
  "RtmpTimerQInsert pTimer q =
     (if \<not> RTMP_TASK_CAN_DO_INSERT (tq_status q) then Inr (None, q)
      else case pQPollFreeList q of
             None \<Rightarrow> Inr (None, q)
           | Some pQNode \<Rightarrow>
               f_bind (tq_node pQNode q) (\<lambda>n.
               f_bind (tq_update pQNode (\<lambda>n. \<lparr>pRaTimer = Some pTimer, tn_next = None\<rparr>)
                         (q\<lparr>pQPollFreeList := tn_next n\<rparr>)) (\<lambda>q1.
               f_bind (case pQTail q1 of
                         None \<Rightarrow> Inr q1
                       | Some t \<Rightarrow> tq_update t (\<lambda>n. n\<lparr>tn_next := Some pQNode\<rparr>) q1) (\<lambda>q2.
               let q3 = q2\<lparr>pQTail := Some pQNode\<rparr>
               in Inr (Some pQNode,
                    if pQHead q3 = None then q3\<lparr>pQHead := Some pQNode\<rparr> else q3)))))"

text \<open>
  What the task does under the lock: the timer of the first node, which goes to the free list. The
  result is nothing when the queue is empty.
\<close>

definition tq_take :: "timer_q \<Rightarrow> c_fault + nat option option \<times> timer_q" where
  "tq_take q =
     (case pQHead q of
        None \<Rightarrow> Inr (None, q)
      | Some pEntry \<Rightarrow>
          f_bind (tq_node pEntry q) (\<lambda>n.
          let q1 = q\<lparr>pQHead := tn_next n\<rparr>;
              q2 = (if Some pEntry = pQTail q1 then q1\<lparr>pQTail := None\<rparr> else q1)
          in f_bind (tq_update pEntry (\<lambda>n. n\<lparr>tn_next := pQPollFreeList q2\<rparr>) q2) (\<lambda>q3.
             Inr (Some (pRaTimer n), q3\<lparr>pQPollFreeList := Some pEntry\<rparr>))))"

text \<open>The search of \<^verbatim>\<open>RtmpTimerQRemove\<close>: \<open>pPrev\<close> and \<open>pNode\<close> at its end.\<close>

partial_function (option) tq_search ::
    "nat \<Rightarrow> timer_q \<Rightarrow> nat option \<Rightarrow> nat option \<Rightarrow> (nat option \<times> nat option) run" where
  "tq_search pTimer q pPrev pNode =
     (if pNode = None then r_return (pPrev, None)
      else case tq_node (the pNode) q of
             Inl f \<Rightarrow> Some (Inl f)
           | Inr n \<Rightarrow> if pRaTimer n = Some pTimer then r_return (pPrev, pNode)
                      else tq_search pTimer q pNode (tn_next n))"

definition tq_unlink :: "nat option \<Rightarrow> nat \<Rightarrow> timer_q \<Rightarrow> c_fault + timer_q" where
  "tq_unlink pPrev pNode q =
     f_bind (tq_node pNode q) (\<lambda>n.
     let q1 = (if Some pNode = pQHead q then q\<lparr>pQHead := tn_next n\<rparr> else q);
         q2 = (if Some pNode = pQTail q1 then q1\<lparr>pQTail := pPrev\<rparr> else q1)
     in f_bind (case pPrev of
                  None \<Rightarrow> Inr q2
                | Some p \<Rightarrow> tq_update p (\<lambda>m. m\<lparr>tn_next := tn_next n\<rparr>) q2) (\<lambda>q3.
        f_bind (tq_update pNode (\<lambda>m. m\<lparr>tn_next := pQPollFreeList q3\<rparr>) q3) (\<lambda>q4.
        Inr (q4\<lparr>pQPollFreeList := Some pNode\<rparr>))))"

definition RtmpTimerQRemove :: "nat \<Rightarrow> timer_q \<Rightarrow> timer_q run" where
  "RtmpTimerQRemove pTimer q =
     (if tq_status q < RTMP_TASK_STAT_INITED then r_return q
      else r_bind (tq_search pTimer q None (pQHead q)) (\<lambda>(pPrev, pNode).
        case pNode of
          None \<Rightarrow> r_return q
        | Some i \<Rightarrow> r_lift (tq_unlink pPrev i q)))"

partial_function (option) tq_drain :: "timer_q \<Rightarrow> timer_q run" where
  "tq_drain q =
     (case pQHead q of
        None \<Rightarrow> r_return q
      | Some i \<Rightarrow>
          (case tq_node i q of
             Inl f \<Rightarrow> Some (Inl f)
           | Inr n \<Rightarrow> tq_drain (q\<lparr>pQHead := tn_next n\<rparr>)))"

definition RtmpTimerQExit :: "timer_q \<Rightarrow> timer_q run" where
  "RtmpTimerQExit q =
     r_bind (tq_drain q) (\<lambda>q1.
       r_return (q1\<lparr>pQPollFreeList := None, pTimerQPoll := None, pQTail := None, pQHead := None,
                   tq_status := RTMP_TASK_STAT_STOPED\<rparr>))"

subsection \<open>The invariant\<close>

definition tq_succ :: "timer_q \<Rightarrow> nat \<Rightarrow> nat option" where
  "tq_succ q i = (case pTimerQPoll q of None \<Rightarrow> None | Some ns \<Rightarrow> tn_next (ns ! i))"

text \<open>\<open>is\<close> are the nodes in the queue, \<open>fs\<close> the free ones.\<close>

definition tq_inv :: "timer_q \<Rightarrow> nat list \<Rightarrow> nat list \<Rightarrow> bool" where
  "tq_inv q is fs \<longleftrightarrow> (\<exists>ns. pTimerQPoll q = Some ns \<and> length ns = TIMER_QUEUE_SIZE_MAX \<and>
     (\<forall>i \<in> set is. pRaTimer (ns ! i) \<noteq> None)) \<and>
     link_path (tq_succ q) (pQHead q) is \<and> link_path (tq_succ q) (pQPollFreeList q) fs \<and>
     distinct (is @ fs) \<and> set (is @ fs) = {..<TIMER_QUEUE_SIZE_MAX} \<and>
     pQTail q = (if is = [] then None else Some (last is))"

definition tq_timer :: "timer_q \<Rightarrow> nat \<Rightarrow> nat" where
  "tq_timer q i = (case pTimerQPoll q of None \<Rightarrow> 0 | Some ns \<Rightarrow> the (pRaTimer (ns ! i)))"

lemma tq_pool:
  assumes "pTimerQPoll q = Some ns"
  shows "tq_succ q = (\<lambda>i. tn_next (ns ! i))" "tq_timer q = (\<lambda>i. the (pRaTimer (ns ! i)))"
    "i < length ns \<Longrightarrow> tq_node i q = Inr (ns ! i)"
    "i < length ns \<Longrightarrow> tq_update i f q = Inr (q\<lparr>pTimerQPoll := Some (ns[i := f (ns ! i)])\<rparr>)"
  using assms by (simp_all add: tq_succ_def tq_timer_def tq_node_def tq_update_def fun_eq_iff)

lemma tq_inv_nodes:
  assumes "tq_inv q is fs"
  obtains ns where "pTimerQPoll q = Some ns" "length ns = TIMER_QUEUE_SIZE_MAX"
    "\<forall>i \<in> set is. pRaTimer (ns ! i) = Some (tq_timer q i)" "\<forall>i \<in> set is \<union> set fs. i < length ns"
proof -
  obtain ns where ns: "pTimerQPoll q = Some ns" "length ns = TIMER_QUEUE_SIZE_MAX"
      "\<forall>i \<in> set is. pRaTimer (ns ! i) \<noteq> None" "set (is @ fs) = {..<TIMER_QUEUE_SIZE_MAX}"
    using assms by (auto simp: tq_inv_def)
  have "\<forall>i \<in> set is \<union> set fs. i < length ns"
    using ns(2,4) by (metis lessThan_iff set_append)
  then show thesis using that ns(1,2,3) by (auto simp: tq_pool)
qed

lemma tq_invI:
  assumes "pTimerQPoll q = Some ns" "length ns = TIMER_QUEUE_SIZE_MAX"
    and "\<And>i. i \<in> set is \<Longrightarrow> pRaTimer (ns ! i) \<noteq> None"
    and "link_path (\<lambda>i. tn_next (ns ! i)) (pQHead q) is" "link_path (\<lambda>i. tn_next (ns ! i)) (pQPollFreeList q) fs"
    and "distinct (is @ fs)" "set (is @ fs) = {..<TIMER_QUEUE_SIZE_MAX}"
    and "pQTail q = (if is = [] then None else Some (last is))"
  shows "tq_inv q is fs"
  using assms by (auto simp: tq_inv_def tq_pool [OF assms(1)])

lemma tq_inv_length: "tq_inv q is fs \<Longrightarrow> length is + length fs = TIMER_QUEUE_SIZE_MAX"
proof -
  assume a: "tq_inv q is fs"
  then have "distinct (is @ fs)" "set (is @ fs) = {..<TIMER_QUEUE_SIZE_MAX}" by (simp_all add: tq_inv_def)
  then have "length (is @ fs) = card {..<TIMER_QUEUE_SIZE_MAX}" by (metis distinct_card)
  then show ?thesis by simp
qed

definition tq_view :: "timer_q \<Rightarrow> nat list \<Rightarrow> nat list" where
  "tq_view q is = map (tq_timer q) is"

subsection \<open>Insertion\<close>

lemma insert_inv:
  assumes "tq_inv q is (f # fs)" "RTMP_TASK_CAN_DO_INSERT (tq_status q)"
  shows "\<exists>q1. RtmpTimerQInsert t q = Inr (Some f, q1) \<and> tq_inv q1 (is @ [f]) fs \<and>
    tq_view q1 (is @ [f]) = tq_view q is @ [t] \<and> tq_status q1 = tq_status q"
proof -
  obtain ns where ns: "pTimerQPoll q = Some ns" "length ns = TIMER_QUEUE_SIZE_MAX"
      "\<forall>i \<in> set is. pRaTimer (ns ! i) = Some (tq_timer q i)" "\<forall>i \<in> set is \<union> set (f # fs). i < length ns"
    using tq_inv_nodes [OF assms(1)] by blast
  have q: "link_path (\<lambda>i. tn_next (ns ! i)) (pQHead q) is"
      "link_path (\<lambda>i. tn_next (ns ! i)) (pQPollFreeList q) (f # fs)"
      "distinct (is @ f # fs)" "set (is @ f # fs) = {..<TIMER_QUEUE_SIZE_MAX}"
      "pQTail q = (if is = [] then None else Some (last is))"
    using assms(1) by (simp_all add: tq_inv_def tq_pool [OF ns(1)])
  have f: "f < length ns" "f \<notin> set is" "f \<notin> set fs" using ns(4) q(3) by auto
  let ?ns1 = "ns[f := \<lparr>pRaTimer = Some t, tn_next = None\<rparr>]"
  let ?ns = "if is = [] then ?ns1 else ?ns1[last is := (ns ! last is)\<lparr>tn_next := Some f\<rparr>]"
  let ?q = "q\<lparr>pQPollFreeList := tn_next (ns ! f), pTimerQPoll := Some ?ns, pQTail := Some f,
    pQHead := (if is = [] then Some f else pQHead q)\<rparr>"
  have hd: "pQHead q = None \<longleftrightarrow> is = []" using link_path_hd [OF q(1)] by simp
  have last: "last is < length ns" "last is \<noteq> f" "f \<noteq> last is" if "is \<noteq> []"
    using that ns(4) f(2) last_in_set [OF that] by auto
  have run: "RtmpTimerQInsert t q = Inr (Some f, ?q)"
    using assms(2) q(2,5) hd last f(1)
    by (cases "is = []") (simp_all add: RtmpTimerQInsert_def Let_def tq_node_def tq_update_def ns(1))
  have other: "?ns ! i = ns ! i" if "i \<noteq> f" "is \<noteq> [] \<longrightarrow> i \<noteq> last is" for i using that by auto
  have at_f: "?ns ! f = \<lparr>pRaTimer = Some t, tn_next = None\<rparr>" using f(1) last by simp
  have timer: "pRaTimer (?ns ! i) = pRaTimer (ns ! i)" if "i \<in> set is" for i
    using that f(2) ns(4) by (auto simp: nth_list_update)
  have "tq_inv ?q (is @ [f]) fs"
  proof (rule tq_invI)
    show "link_path (\<lambda>i. tn_next (?ns ! i)) (pQHead ?q) (is @ [f])"
    proof (cases "is = []")
      case True
      then show ?thesis using f(1) by simp
    next
      case False
      have "distinct (butlast is @ [last is])" using q(3) False by simp
      then have o: "?ns ! j = ns ! j" if "j \<in> set (butlast is)" for j
        using that f(2) by (intro other) (auto dest: in_set_butlastD)
      have "link_path (\<lambda>i. tn_next (?ns ! i)) (pQHead q) (is @ [f])"
        by (rule link_path_snoc [OF q(1) False f(2)]) (use False last at_f o in simp_all)
      then show ?thesis using False by simp
    qed
    show "link_path (\<lambda>i. tn_next (?ns ! i)) (pQPollFreeList ?q) fs"
    proof (rule link_path_cong)
      show "link_path (\<lambda>i. tn_next (ns ! i)) (pQPollFreeList ?q) fs" using q(2) by simp
      show "tn_next (?ns ! i) = tn_next (ns ! i)" if "i \<in> set fs" for i
      proof -
        have "i \<noteq> f" "is \<noteq> [] \<longrightarrow> i \<noteq> last is"
          using that q(3) f(3) last_in_set [of "is"] by (auto simp: disjoint_iff)
        then show ?thesis using other by simp
      qed
    qed
  qed (use q(3,4) ns(2,3) timer at_f in auto)
  moreover have "tq_view ?q (is @ [f]) = tq_view q is @ [t]"
    using at_f timer f(1) by (simp add: tq_view_def tq_timer_def ns(1))
  ultimately show ?thesis using run by (intro exI [of _ ?q]) simp
qed

lemma insert_refused:
  assumes "tq_inv q is []"
  shows "RtmpTimerQInsert t q = Inr (None, q)"
  using assms by (simp add: RtmpTimerQInsert_def tq_inv_def)

subsection \<open>Removal\<close>

text \<open>A node leaves the queue for the free list; \<open>pPrev\<close> is the one before it.\<close>

lemma unlink_inv:
  assumes "tq_inv q (xs @ i # ys) fs"
  shows "\<exists>q1. tq_unlink (if xs = [] then None else Some (last xs)) i q = Inr q1 \<and>
    tq_inv q1 (xs @ ys) (i # fs) \<and> tq_timer q1 = tq_timer q \<and> tq_status q1 = tq_status q"
proof -
  obtain ns where ns: "pTimerQPoll q = Some ns" "length ns = TIMER_QUEUE_SIZE_MAX"
      "\<forall>j \<in> set (xs @ i # ys). pRaTimer (ns ! j) = Some (tq_timer q j)"
      "\<forall>j \<in> set (xs @ i # ys) \<union> set fs. j < length ns"
    using tq_inv_nodes [OF assms] by blast
  have q: "link_path (\<lambda>i. tn_next (ns ! i)) (pQHead q) (xs @ i # ys)"
      "link_path (\<lambda>i. tn_next (ns ! i)) (pQPollFreeList q) fs"
      "distinct ((xs @ i # ys) @ fs)" "set ((xs @ i # ys) @ fs) = {..<TIMER_QUEUE_SIZE_MAX}"
      "pQTail q = Some (last (xs @ i # ys))"
    using assms by (simp_all add: tq_inv_def tq_pool [OF ns(1)])
  let ?prev = "if xs = [] then None else Some (last xs)"
  let ?n = "tn_next (ns ! i)"
  let ?ns1 = "if xs = [] then ns else ns[last xs := (ns ! last xs)\<lparr>tn_next := ?n\<rparr>]"
  let ?ns = "?ns1[i := (ns ! i)\<lparr>tn_next := pQPollFreeList q\<rparr>]"
  let ?q = "q\<lparr>pQHead := (if xs = [] then ?n else pQHead q), pQTail := (if ys = [] then ?prev else pQTail q),
    pTimerQPoll := Some ?ns, pQPollFreeList := Some i\<rparr>"
  have i: "i < length ns" "i \<notin> set xs" "i \<notin> set ys" "i \<notin> set fs" using ns(4) q(3) by auto
  have hd: "Some i = pQHead q \<longleftrightarrow> xs = []"
    using link_path_hd [OF q(1)] i(2) by (cases xs) auto
  have tl: "Some i = pQTail q \<longleftrightarrow> ys = []"
    using q(5) i(3) last_in_set [of ys] by auto
  have last: "last xs < length ns" "last xs \<noteq> i" "i \<noteq> last xs" if "xs \<noteq> []"
    using that ns(4) i(2) last_in_set [OF that] by auto
  have run: "tq_unlink ?prev i q = Inr ?q"
    using hd tl last i(1)
    by (cases "xs = []"; cases "ys = []") (simp_all add: tq_unlink_def Let_def tq_node_def tq_update_def ns(1))
  have other: "?ns ! j = ns ! j" if "j \<noteq> i" "xs \<noteq> [] \<longrightarrow> j \<noteq> last xs" for j using that by auto
  have timer: "pRaTimer (?ns ! j) = pRaTimer (ns ! j)" for j
    using last i(1) by (cases "j = i"; cases "xs \<noteq> [] \<and> j = last xs") auto
  have d: "j \<noteq> i \<and> (xs \<noteq> [] \<longrightarrow> j \<noteq> last xs)" if "j \<in> set ys \<or> j \<in> set fs" for j
    using that i q(3) last_in_set [of xs] by (auto simp: disjoint_iff)
  have same: "tn_next (?ns ! j) = tn_next (ns ! j)" if "j \<in> set ys \<or> j \<in> set fs" for j
  proof -
    have "?ns ! j = ns ! j" using that d by (intro other) blast+
    then show ?thesis by (rule arg_cong)
  qed
  have "tq_inv ?q (xs @ ys) (i # fs)"
  proof (rule tq_invI)
    show "link_path (\<lambda>j. tn_next (?ns ! j)) (pQHead ?q) (xs @ ys)"
    proof (cases "xs = []")
      case True
      then have "link_path (\<lambda>j. tn_next (ns ! j)) ?n ys" using q(1) by simp
      moreover have "tn_next (?ns ! j) = tn_next (ns ! j)" if "j \<in> set ys" for j
        using same that by blast
      ultimately have "link_path (\<lambda>j. tn_next (?ns ! j)) ?n ys" by (rule link_path_cong)
      then show ?thesis using True by simp
    next
      case False
      have "distinct (butlast xs @ [last xs])" using q(3) False by simp
      then have o: "?ns ! j = ns ! j" if "j \<in> set (butlast xs) \<or> j \<in> set ys" for j
        using that i(2) d by (intro other) (auto dest: in_set_butlastD)
      have "link_path (\<lambda>j. tn_next (?ns ! j)) (pQHead q) (xs @ ys)"
        by (rule link_path_unlink [OF q(1) False]) (use False last o in simp_all)
      then show ?thesis using False by simp
    qed
    have "link_path (\<lambda>j. tn_next (?ns ! j)) (pQPollFreeList q) fs"
      using q(2) by (rule link_path_cong) (use same in blast)
    then show "link_path (\<lambda>j. tn_next (?ns ! j)) (pQPollFreeList ?q) (i # fs)"
      using i(1) last by (cases "xs = []") simp_all
    show "pQTail ?q = (if xs @ ys = [] then None else Some (last (xs @ ys)))"
      using q(5) by auto
    show "pRaTimer (?ns ! j) \<noteq> None" if "j \<in> set (xs @ ys)" for j
      unfolding timer using that ns(3) by auto
  qed (use q(3,4) ns(2) in auto)
  moreover have "tq_timer ?q = tq_timer q"
  proof -
    have "tq_timer ?q = (\<lambda>j. the (pRaTimer (?ns ! j)))" by (rule tq_pool(2)) simp
    also have "\<dots> = (\<lambda>j. the (pRaTimer (ns ! j)))" by (simp only: timer)
    also have "\<dots> = tq_timer q" by (rule tq_pool(2) [OF ns(1), symmetric])
    finally show ?thesis .
  qed
  ultimately show ?thesis using run by (intro exI [of _ ?q]) simp
qed

lemma take_unlink:
  "tq_take q = (case pQHead q of None \<Rightarrow> Inr (None, q)
     | Some i \<Rightarrow> f_bind (tq_node i q) (\<lambda>n. f_bind (tq_unlink None i q) (\<lambda>q1. Inr (Some (pRaTimer n), q1))))"
  by (simp add: tq_take_def tq_unlink_def Let_def f_bind_def split: option.split sum.split)

lemma take_inv:
  assumes "tq_inv q (i # ys) fs"
  shows "\<exists>q1. tq_take q = Inr (Some (Some (tq_timer q i)), q1) \<and> tq_inv q1 ys (i # fs) \<and>
    tq_view q1 ys = tq_view q ys \<and> tq_status q1 = tq_status q"
proof -
  obtain ns where ns: "pTimerQPoll q = Some ns" "pRaTimer (ns ! i) = Some (tq_timer q i)" "i < length ns"
  proof (rule tq_inv_nodes [OF assms])
    fix ns
    assume "pTimerQPoll q = Some ns" "\<forall>j \<in> set (i # ys). pRaTimer (ns ! j) = Some (tq_timer q j)"
      "\<forall>j \<in> set (i # ys) \<union> set fs. j < length ns"
    then show thesis using that by simp
  qed
  have hd: "pQHead q = Some i" using assms by (simp add: tq_inv_def)
  obtain q1 where "tq_unlink None i q = Inr q1" "tq_inv q1 ys (i # fs)" "tq_timer q1 = tq_timer q"
      "tq_status q1 = tq_status q"
    using unlink_inv [of q "[]" i ys fs] assms by auto
  then show ?thesis
    using hd ns(2) tq_pool(3) [OF ns(1,3)] by (simp add: take_unlink tq_view_def)
qed

lemma search_path:
  assumes "pTimerQPoll q = Some ns" "link_path (\<lambda>i. tn_next (ns ! i)) p is"
    and "\<forall>i \<in> set is. i < length ns \<and> pRaTimer (ns ! i) = Some (tq_timer q i)"
  shows "t \<notin> set (tq_view q is) \<Longrightarrow> \<exists>pp. tq_search t q prev p = r_return (pp, None)"
    and "is = xs @ i # ys \<Longrightarrow> t \<notin> set (tq_view q xs) \<Longrightarrow> tq_timer q i = t \<Longrightarrow>
      tq_search t q prev p = r_return (if xs = [] then prev else Some (last xs), Some i)"
proof -
  note node = tq_pool(3) [OF assms(1)]
  show "\<exists>pp. tq_search t q prev p = r_return (pp, None)" if "t \<notin> set (tq_view q is)"
    using assms(2,3) that
  proof (induction "is" arbitrary: p prev)
    case Nil
    then show ?case by (subst tq_search.simps) auto
  next
    case (Cons i "is")
    then show ?case by (subst tq_search.simps) (simp add: node tq_view_def)
  qed
  show "tq_search t q prev p = r_return (if xs = [] then prev else Some (last xs), Some i)"
    if "is = xs @ i # ys" "t \<notin> set (tq_view q xs)" "tq_timer q i = t"
    using assms(2,3) that
  proof (induction xs arbitrary: p prev "is")
    case Nil
    then show ?case by (subst tq_search.simps) (simp add: node)
  next
    case (Cons x xs)
    then show ?case by (subst tq_search.simps) (simp add: node tq_view_def)
  qed
qed

lemma remove_inv:
  assumes "tq_inv q is fs" "RTMP_TASK_STAT_INITED \<le> tq_status q"
  shows "\<exists>q1 js gs. RtmpTimerQRemove t q = r_return q1 \<and> tq_inv q1 js gs \<and>
    tq_view q1 js = remove1 t (tq_view q is) \<and> tq_status q1 = tq_status q"
proof -
  obtain ns where ns: "pTimerQPoll q = Some ns" "length ns = TIMER_QUEUE_SIZE_MAX"
      "\<forall>i \<in> set is. pRaTimer (ns ! i) = Some (tq_timer q i)" "\<forall>i \<in> set is \<union> set fs. i < length ns"
    by (rule tq_inv_nodes [OF assms(1)])
  have p: "link_path (\<lambda>i. tn_next (ns ! i)) (pQHead q) is"
    using assms(1) by (simp add: tq_inv_def tq_pool [OF ns(1)])
  have nodes: "\<forall>i \<in> set is. i < length ns \<and> pRaTimer (ns ! i) = Some (tq_timer q i)"
    using ns by simp
  note search = search_path [OF ns(1) p nodes]
  show ?thesis
  proof (cases "t \<in> set (tq_view q is)")
    case False
    then obtain pp where "tq_search t q None (pQHead q) = r_return (pp, None)"
      using search(1) [OF False] by blast
    then have "RtmpTimerQRemove t q = r_return q" using assms(2) by (simp add: RtmpTimerQRemove_def)
    then show ?thesis
      using assms False by (intro exI [of _ q] exI [of _ "is"] exI [of _ fs]) (simp add: remove1_idem)
  next
    case True
    obtain xs i ys where s: "is = xs @ i # ys" "tq_timer q i = t" "t \<notin> set (tq_view q xs)"
    proof -
      have "\<exists>i \<in> set is. tq_timer q i = t" using True by (auto simp: tq_view_def)
      then obtain xs i ys where s: "is = xs @ i # ys" "tq_timer q i = t" "\<forall>x \<in> set xs. tq_timer q x \<noteq> t"
        by (rule split_list_first_propE)
      have "t \<notin> set (tq_view q xs)" using s(3) by (auto simp: tq_view_def)
      then show thesis using that s(1,2) by blast
    qed
    have "tq_search t q None (pQHead q) = r_return (if xs = [] then None else Some (last xs), Some i)"
      using search(2) [OF s(1,3,2)] by simp
    moreover obtain q1 where q1: "tq_unlink (if xs = [] then None else Some (last xs)) i q = Inr q1"
        "tq_inv q1 (xs @ ys) (i # fs)" "tq_timer q1 = tq_timer q" "tq_status q1 = tq_status q"
      using unlink_inv [OF assms(1) [unfolded s(1)]] by blast
    ultimately have "RtmpTimerQRemove t q = r_return q1"
      using assms(2) by (simp add: RtmpTimerQRemove_def)
    moreover have "tq_view q1 (xs @ ys) = remove1 t (tq_view q is)"
      using s q1(3) by (simp add: tq_view_def remove1_append)
    ultimately show ?thesis
      using q1 by (intro exI [of _ q1] exI [of _ "xs @ ys"] exI [of _ "i # fs"]) simp
  qed
qed

subsection \<open>Set-up and end\<close>

lemma link_pool:
  assumes "n \<le> length ns"
  shows "\<exists>ms. foldl (\<lambda>(ns, pEntry) i. (ns[i := (ns ! i)\<lparr>tn_next := pEntry\<rparr>], Some i)) (ns, None) [0..<n] =
      (ms, if n = 0 then None else Some (n - 1)) \<and> length ms = length ns \<and>
    link_path (\<lambda>i. tn_next (ms ! i)) (if n = 0 then None else Some (n - 1)) (rev [0..<n])"
  using assms
proof (induction n)
  case 0
  then show ?case by simp
next
  case (Suc n)
  then obtain ms where ms: "foldl (\<lambda>(ns, pEntry) i. (ns[i := (ns ! i)\<lparr>tn_next := pEntry\<rparr>], Some i)) (ns, None) [0..<n] =
      (ms, if n = 0 then None else Some (n - 1))" "length ms = length ns"
      "link_path (\<lambda>i. tn_next (ms ! i)) (if n = 0 then None else Some (n - 1)) (rev [0..<n])"
    by auto
  let ?ms = "ms[n := (ms ! n)\<lparr>tn_next := (if n = 0 then None else Some (n - 1))\<rparr>]"
  have "link_path (\<lambda>i. tn_next (?ms ! i)) (if n = 0 then None else Some (n - 1)) (rev [0..<n])"
    using ms(3) by (rule link_path_cong) simp
  moreover have "n < length ms" using ms(2) Suc.prems by simp
  ultimately show ?case using ms(1,2) by (intro exI [of _ ?ms]) (cases "n = 0"; simp)
qed

lemma init_inv: "tq_inv (RtmpTimerQInit True) [] (rev [0..<TIMER_QUEUE_SIZE_MAX])"
    and init_status: "tq_status (RtmpTimerQInit True) = RTMP_TASK_STAT_INITED"
proof -
  let ?ns = "replicate TIMER_QUEUE_SIZE_MAX \<lparr>pRaTimer = None, tn_next = None\<rparr> :: timer_node list"
  obtain ms where ms: "tq_link_pool ?ns = (ms, Some (TIMER_QUEUE_SIZE_MAX - 1))"
      "length ms = TIMER_QUEUE_SIZE_MAX"
      "link_path (\<lambda>i. tn_next (ms ! i)) (Some (TIMER_QUEUE_SIZE_MAX - 1)) (rev [0..<TIMER_QUEUE_SIZE_MAX])"
    using link_pool [of TIMER_QUEUE_SIZE_MAX ?ns]
    by (auto simp: tq_link_pool_def TIMER_QUEUE_SIZE_MAX_def simp del: upt_rec_numeral)
  have q: "RtmpTimerQInit True = \<lparr>tq_status = RTMP_TASK_STAT_INITED, pTimerQPoll = Some ms,
      pQPollFreeList = Some (TIMER_QUEUE_SIZE_MAX - 1), pQHead = None, pQTail = None\<rparr>"
    unfolding RtmpTimerQInit_def ms(1) by simp
  show "tq_inv (RtmpTimerQInit True) [] (rev [0..<TIMER_QUEUE_SIZE_MAX])"
    unfolding q by (rule tq_invI [where ns = ms]) (use ms in \<open>simp_all add: atLeast0LessThan\<close>)
  show "tq_status (RtmpTimerQInit True) = RTMP_TASK_STAT_INITED" unfolding q by simp
qed

lemma exit_run:
  assumes "tq_inv q is fs"
  shows "\<exists>q1. RtmpTimerQExit q = r_return q1 \<and> pTimerQPoll q1 = None \<and> pQHead q1 = None \<and>
    tq_status q1 = RTMP_TASK_STAT_STOPED"
proof -
  obtain ns where ns: "pTimerQPoll q = Some ns" "length ns = TIMER_QUEUE_SIZE_MAX"
      "\<forall>i \<in> set is. pRaTimer (ns ! i) = Some (tq_timer q i)" "\<forall>i \<in> set is \<union> set fs. i < length ns"
    by (rule tq_inv_nodes [OF assms])
  have "link_path (\<lambda>i. tn_next (ns ! i)) (pQHead q) is"
    using assms by (simp add: tq_inv_def tq_pool [OF ns(1)])
  then have "\<exists>q1. tq_drain q = r_return q1"
    using ns(1,4)
  proof (induction "is" arbitrary: q)
    case Nil
    then show ?case by (subst tq_drain.simps) simp
  next
    case (Cons i "is")
    then show ?case by (subst tq_drain.simps) (simp add: tq_node_def)
  qed
  then show ?thesis by (auto simp: RtmpTimerQExit_def)
qed

subsection \<open>The queue provides the interface\<close>

text \<open>The nodes from a pointer on, at most as many as there are; and the timers in the queue.\<close>

fun tq_walk :: "nat \<Rightarrow> timer_q \<Rightarrow> nat option \<Rightarrow> nat list" where
  "tq_walk (Suc k) q (Some i) = i # tq_walk k q (tq_succ q i)"
| "tq_walk _ q _ = []"

definition tq_abs :: "timer_q \<Rightarrow> nat list" where
  "tq_abs q = tq_view q (tq_walk TIMER_QUEUE_SIZE_MAX q (pQHead q))"

definition tq_ok :: "timer_q \<Rightarrow> bool" where
  "tq_ok q \<longleftrightarrow> RTMP_TASK_CAN_DO_INSERT (tq_status q) \<and> (\<exists>is fs. tq_inv q is fs)"

definition tq_put :: "nat \<Rightarrow> timer_q \<Rightarrow> bool \<times> timer_q" where
  "tq_put t q = (case RtmpTimerQInsert t q of
     Inr (Some i, q1) \<Rightarrow> (True, q1) | Inr (None, q1) \<Rightarrow> (False, q1) | Inl f \<Rightarrow> (False, q))"

definition tq_get :: "timer_q \<Rightarrow> nat \<times> timer_q" where
  "tq_get q = (case tq_take q of Inr (Some (Some t), q1) \<Rightarrow> (t, q1) | _ \<Rightarrow> (0, q))"

lemma walk_path: "link_path (tq_succ q) p is \<Longrightarrow> length is \<le> k \<Longrightarrow> tq_walk k q p = is"
proof (induction "is" arbitrary: p k)
  case (Cons i "is")
  then show ?case by (cases k) auto
qed (cases k; simp)

lemma abs_view: "tq_inv q is fs \<Longrightarrow> tq_abs q = tq_view q is"
  using walk_path [of q "pQHead q" "is" TIMER_QUEUE_SIZE_MAX] tq_inv_length [of q "is" fs]
  by (simp add: tq_abs_def tq_inv_def)

lemma length_view [simp]: "length (tq_view q is) = length is"
  by (simp add: tq_view_def)

lemma put_get:
  assumes "tq_ok q"
  shows "fst (tq_put t q) = (length (tq_abs q) < TIMER_QUEUE_SIZE_MAX)"
    "tq_ok (snd (tq_put t q))"
    "tq_abs (snd (tq_put t q)) = (if length (tq_abs q) < TIMER_QUEUE_SIZE_MAX then tq_abs q @ [t] else tq_abs q)"
    "tq_abs q \<noteq> [] \<Longrightarrow> fst (tq_get q) = hd (tq_abs q)"
    "tq_abs q \<noteq> [] \<Longrightarrow> tq_ok (snd (tq_get q))"
    "tq_abs q \<noteq> [] \<Longrightarrow> tq_abs (snd (tq_get q)) = tl (tq_abs q)"
proof -
  obtain "is" fs where q: "tq_inv q is fs" "RTMP_TASK_CAN_DO_INSERT (tq_status q)"
    using assms by (auto simp: tq_ok_def)
  note len = tq_inv_length [OF q(1)] and abs = abs_view [OF q(1)]
  have put: "fst (tq_put t q) = (length (tq_abs q) < TIMER_QUEUE_SIZE_MAX) \<and> tq_ok (snd (tq_put t q)) \<and>
    tq_abs (snd (tq_put t q)) = (if length (tq_abs q) < TIMER_QUEUE_SIZE_MAX then tq_abs q @ [t] else tq_abs q)"
  proof (cases fs)
    case Nil
    then have "RtmpTimerQInsert t q = Inr (None, q)" using insert_refused [of q "is" t] q by simp
    then show ?thesis using Nil len abs assms by (simp add: tq_put_def)
  next
    case (Cons f gs)
    obtain q1 where q1: "RtmpTimerQInsert t q = Inr (Some f, q1)" "tq_inv q1 (is @ [f]) gs"
        "tq_view q1 (is @ [f]) = tq_view q is @ [t]" "tq_status q1 = tq_status q"
      using insert_inv [OF q(1) [unfolded Cons] q(2), of t] by blast
    then show ?thesis
      using Cons len abs abs_view [OF q1(2)] q(2) by (auto simp: tq_put_def tq_ok_def)
  qed
  then show "fst (tq_put t q) = (length (tq_abs q) < TIMER_QUEUE_SIZE_MAX)"
    "tq_ok (snd (tq_put t q))"
    "tq_abs (snd (tq_put t q)) = (if length (tq_abs q) < TIMER_QUEUE_SIZE_MAX then tq_abs q @ [t] else tq_abs q)"
    by blast+
  have "fst (tq_get q) = hd (tq_abs q) \<and> tq_ok (snd (tq_get q)) \<and> tq_abs (snd (tq_get q)) = tl (tq_abs q)"
    if "tq_abs q \<noteq> []"
  proof -
    obtain i ys where i: "is = i # ys" using \<open>tq_abs q \<noteq> []\<close> abs by (cases "is") (auto simp: tq_view_def)
    obtain q1 where q1: "tq_take q = Inr (Some (Some (tq_timer q i)), q1)" "tq_inv q1 ys (i # fs)"
        "tq_view q1 ys = tq_view q ys" "tq_status q1 = tq_status q"
      using take_inv [OF q(1) [unfolded i]] by blast
    have "tq_abs q = tq_timer q i # tq_view q ys" using abs i by (simp add: tq_view_def)
    then show ?thesis
      using q1 q(2) abs_view [OF q1(2)] by (auto simp: tq_get_def tq_ok_def)
  qed
  then show "tq_abs q \<noteq> [] \<Longrightarrow> fst (tq_get q) = hd (tq_abs q)"
    "tq_abs q \<noteq> [] \<Longrightarrow> tq_ok (snd (tq_get q))"
    "tq_abs q \<noteq> [] \<Longrightarrow> tq_abs (snd (tq_get q)) = tl (tq_abs q)" by blast+
qed

interpretation timerq: bounded_fifo tq_ok tq_abs TIMER_QUEUE_SIZE_MAX "\<lambda>t. True" tq_put tq_get
  by unfold_locales (rule put_get; assumption)+

subsection \<open>Any sequence of operations\<close>

datatype tq_op = TQInsert nat | TQTake | TQRemove nat
datatype tq_result = Inserted bool | Taken "nat option" | Removed

fun tq_step :: "tq_op \<Rightarrow> timer_q \<Rightarrow> (tq_result \<times> timer_q) run" where
  "tq_step (TQInsert t) q =
     r_bind (r_lift (RtmpTimerQInsert t q)) (\<lambda>(i, q1). r_return (Inserted (i \<noteq> None), q1))"
| "tq_step TQTake q =
     r_bind (r_lift (tq_take q)) (\<lambda>(t, q1). r_return (Taken (Option.bind t id), q1))"
| "tq_step (TQRemove t) q = r_bind (RtmpTimerQRemove t q) (\<lambda>q1. r_return (Removed, q1))"

fun tq_run :: "tq_op list \<Rightarrow> timer_q \<Rightarrow> (tq_result list \<times> timer_q) run" where
  "tq_run [] q = r_return ([], q)"
| "tq_run (op # ops) q =
     r_bind (tq_step op q) (\<lambda>(r, q1). r_bind (tq_run ops q1) (\<lambda>(rs, q2). r_return (r # rs, q2)))"

text \<open>The same on a list of at most 128 timers.\<close>

fun timer_list_step :: "tq_op \<Rightarrow> nat list \<Rightarrow> tq_result \<times> nat list" where
  "timer_list_step (TQInsert t) ts = (if length ts < 128 then (Inserted True, ts @ [t]) else (Inserted False, ts))"
| "timer_list_step TQTake ts = (case ts of [] \<Rightarrow> (Taken None, []) | t # us \<Rightarrow> (Taken (Some t), us))"
| "timer_list_step (TQRemove t) ts = (Removed, remove1 t ts)"

fun timer_list_run :: "tq_op list \<Rightarrow> nat list \<Rightarrow> tq_result list \<times> nat list" where
  "timer_list_run [] ts = ([], ts)"
| "timer_list_run (op # ops) ts =
     (let (r, us) = timer_list_step op ts; (rs, vs) = timer_list_run ops us in (r # rs, vs))"

lemma can_insert_inited: "RTMP_TASK_CAN_DO_INSERT st \<Longrightarrow> RTMP_TASK_STAT_INITED \<le> st"
  by (cases st) (simp_all add: RTMP_TASK_CAN_DO_INSERT_def RTMP_TASK_STAT_INITED_def)

lemma tq_step_refines:
  assumes "tq_inv q is fs" "RTMP_TASK_CAN_DO_INSERT (tq_status q)"
  shows "\<exists>r q1 js gs. tq_step op q = r_return (r, q1) \<and> tq_inv q1 js gs \<and> tq_status q1 = tq_status q \<and>
    timer_list_step op (tq_view q is) = (r, tq_view q1 js)"
proof (cases op)
  case (TQInsert t)
  note len = tq_inv_length [OF assms(1)]
  show ?thesis
  proof (cases fs)
    case Nil
    then have "RtmpTimerQInsert t q = Inr (None, q)"
      using insert_refused [of q "is" t] assms(1) by simp
    then show ?thesis
      using assms TQInsert Nil len
      by (intro exI [of _ "Inserted False"] exI [of _ q] exI [of _ "is"] exI [of _ fs])
        (simp add: TIMER_QUEUE_SIZE_MAX_def)
  next
    case (Cons f gs)
    obtain q1 where q1: "RtmpTimerQInsert t q = Inr (Some f, q1)" "tq_inv q1 (is @ [f]) gs"
        "tq_view q1 (is @ [f]) = tq_view q is @ [t]" "tq_status q1 = tq_status q"
      using insert_inv [OF assms(1) [unfolded Cons] assms(2), of t] by blast
    then show ?thesis
      using TQInsert Cons len
      by (intro exI [of _ "Inserted True"] exI [of _ q1] exI [of _ "is @ [f]"] exI [of _ gs])
        (simp add: TIMER_QUEUE_SIZE_MAX_def)
  qed
next
  case TQTake
  show ?thesis
  proof (cases "is")
    case Nil
    then have "tq_take q = Inr (None, q)" using assms(1) by (simp add: tq_take_def tq_inv_def)
    then show ?thesis
      using assms TQTake Nil
      by (intro exI [of _ "Taken None"] exI [of _ q] exI [of _ "is"] exI [of _ fs]) (simp add: tq_view_def)
  next
    case (Cons i ys)
    obtain q1 where q1: "tq_take q = Inr (Some (Some (tq_timer q i)), q1)" "tq_inv q1 ys (i # fs)"
        "tq_view q1 ys = tq_view q ys" "tq_status q1 = tq_status q"
      using take_inv [OF assms(1) [unfolded Cons]] by blast
    then show ?thesis
      using TQTake Cons
      by (intro exI [of _ "Taken (Some (tq_timer q i))"] exI [of _ q1] exI [of _ ys] exI [of _ "i # fs"])
        (simp add: tq_view_def)
  qed
next
  case (TQRemove t)
  obtain q1 js gs where "RtmpTimerQRemove t q = r_return q1" "tq_inv q1 js gs"
      "tq_view q1 js = remove1 t (tq_view q is)" "tq_status q1 = tq_status q"
    using remove_inv [OF assms(1) can_insert_inited [OF assms(2)], of t] by blast
  then show ?thesis
    using TQRemove by (intro exI [of _ Removed] exI [of _ q1] exI [of _ js] exI [of _ gs]) simp
qed

lemma tq_run_refines:
  assumes "tq_inv q is fs" "RTMP_TASK_CAN_DO_INSERT (tq_status q)"
  shows "\<exists>rs q1 js gs. tq_run ops q = r_return (rs, q1) \<and> tq_inv q1 js gs \<and> tq_status q1 = tq_status q \<and>
    timer_list_run ops (tq_view q is) = (rs, tq_view q1 js)"
  using assms
proof (induction ops arbitrary: q "is" fs)
  case Nil
  then show ?case by (intro exI [of _ "[]"] exI [of _ q] exI [of _ "is"] exI [of _ fs]) simp
next
  case (Cons op ops)
  obtain r q1 js gs where q1: "tq_step op q = r_return (r, q1)" "tq_inv q1 js gs" "tq_status q1 = tq_status q"
      "timer_list_step op (tq_view q is) = (r, tq_view q1 js)"
    using tq_step_refines [OF Cons.prems] by blast
  obtain rs q2 ks hs where q2: "tq_run ops q1 = r_return (rs, q2)" "tq_inv q2 ks hs" "tq_status q2 = tq_status q1"
      "timer_list_run ops (tq_view q1 js) = (rs, tq_view q2 ks)"
    using Cons.IH [OF q1(2)] Cons.prems(2) q1(3) by auto
  show ?case
    using q1 q2 by (intro exI [of _ "r # rs"] exI [of _ q2] exI [of _ ks] exI [of _ hs]) simp
qed

text \<open>C22: in any sequence of insertions, takings and removals on a fresh queue nothing goes wrong or
  hangs, and the linked pool behaves as a list of at most 128 timers: what is inserted goes to the end,
  the first is taken, removal deletes the first occurrence; at the end the pool can be freed.\<close>

theorem timer_queue_is_list:
  "\<exists>rs q. tq_run ops (RtmpTimerQInit True) = r_return (rs, q) \<and> timer_list_run ops [] = (rs, tq_abs q) \<and>
     (\<exists>q1. RtmpTimerQExit q = r_return q1 \<and> pTimerQPoll q1 = None \<and> RtmpTimerQInsert t q1 = Inr (None, q1))"
proof -
  have can: "RTMP_TASK_CAN_DO_INSERT (tq_status (RtmpTimerQInit True))"
    by (simp add: init_status RTMP_TASK_CAN_DO_INSERT_def RTMP_TASK_STAT_INITED_def RTMP_TASK_STAT_RUNNING_def)
  obtain rs q js gs where q: "tq_run ops (RtmpTimerQInit True) = r_return (rs, q)" "tq_inv q js gs"
      "timer_list_run ops [] = (rs, tq_view q js)"
    using tq_run_refines [OF init_inv can, of ops] by (auto simp: tq_view_def)
  obtain q1 where "RtmpTimerQExit q = r_return q1" "pTimerQPoll q1 = None" "tq_status q1 = RTMP_TASK_STAT_STOPED"
    using exit_run [OF q(2)] by blast
  then have "RtmpTimerQExit q = r_return q1 \<and> pTimerQPoll q1 = None \<and> RtmpTimerQInsert t q1 = Inr (None, q1)"
    by (simp add: RtmpTimerQInsert_def RTMP_TASK_CAN_DO_INSERT_def RTMP_TASK_STAT_INITED_def
        RTMP_TASK_STAT_RUNNING_def RTMP_TASK_STAT_STOPED_def)
  then show ?thesis using q(1,3) abs_view [OF q(2)] by auto
qed

end
