(* ===== verification/Timers.thy ===== *)
theory Timers
  imports TimerQueue
begin

text \<open>
  Timers: the objects and their operations (\<^verbatim>\<open>RTMPInitTimer\<close> to \<^verbatim>\<open>RTMPReleaseTimer\<close> of
  \<^verbatim>\<open>common/rtmp_init.c\<close> over \<^verbatim>\<open>RTMP_OS_Add_Timer\<close> etc. of \<^verbatim>\<open>os/linux/rt_linux.c\<close>), the function that
  runs when a timer expires (\<^verbatim>\<open>BUILD_TIMER_FUNCTION\<close>), and the task that carries the timers out
  (\<^verbatim>\<open>RtmpTimerQHandle\<close>), as steps of one machine in which interrupts, the task and other contexts
  interleave. The timers of the kernel are not under \<^verbatim>\<open>src\<close>: they are a parameter.
\<close>

subsection \<open>The kernel\<close>

text \<open>
  The functions of \<^verbatim>\<open>linux/timer.h\<close> the driver calls on a state \<open>'k\<close>, and \<open>timer_expires\<close>, by which the
  kernel takes an expired timer off its lists before it calls the function of the timer.
\<close>

record 'k kernel_timers =
  timer_pending :: "'k \<Rightarrow> nat \<Rightarrow> bool"
  add_timer :: "nat \<Rightarrow> ulong \<Rightarrow> 'k \<Rightarrow> 'k"
  mod_timer :: "nat \<Rightarrow> ulong \<Rightarrow> 'k \<Rightarrow> 'k"
  del_timer_sync :: "nat \<Rightarrow> 'k \<Rightarrow> bool \<times> 'k"
  timer_expires :: "nat \<Rightarrow> 'k \<Rightarrow> 'k"

text \<open>What they are documented to do to pending timers.\<close>

definition kernel_law :: "'k kernel_timers \<Rightarrow> bool" where
  "kernel_law K \<longleftrightarrow>
     (\<forall>t e k u. timer_pending K (add_timer K t e k) u \<longleftrightarrow> u = t \<or> timer_pending K k u) \<and>
     (\<forall>t e k u. timer_pending K (mod_timer K t e k) u \<longleftrightarrow> u = t \<or> timer_pending K k u) \<and>
     (\<forall>t k. fst (del_timer_sync K t k) \<longleftrightarrow> timer_pending K k t) \<and>
     (\<forall>t k u. timer_pending K (snd (del_timer_sync K t k)) u \<longleftrightarrow> u \<noteq> t \<and> timer_pending K k u) \<and>
     (\<forall>t k u. timer_pending K (timer_expires K t k) u \<longleftrightarrow> u \<noteq> t \<and> timer_pending K k u)"

subsection \<open>State\<close>

record timer_obj =
  tm_Valid :: bool
  tm_State :: bool
  PeriodicType :: bool
  Repeat :: bool
  TimerValue :: ulong
  tm_handle :: bool

text \<open>
  Where the task is: it waits, has returned to the test of the queue, is about to take the lock, to call the
  function of \<^verbatim>\<open>pTimer\<close>, to see whether the timer repeats, or has ended.
\<close>

datatype task_pc = TaskWaits | TaskTests | TaskLocks | TaskCalls | TaskRepeats | TaskEnded

text \<open>
  The log: calls of the function of a timer by the task, and calls of \<^verbatim>\<open>add_timer\<close> for a timer that is
  already pending, which the kernel forbids.
\<close>

datatype timer_event = TimerRun nat | AddPending nat

record 'k timer_sys =
  ts_q :: timer_q
  ts_timer :: "nat \<Rightarrow> timer_obj"
  ts_kernel :: 'k
  ts_jiffies :: ulong
  ts_firing :: "nat list"
  ts_pc :: task_pc
  ts_pTimer :: "nat option"
  ts_status :: bool
  ts_HALT_IN_PROGRESS :: bool
  ts_NIC_NOT_EXIST :: bool
  PM_FlgSuspend :: bool
  ts_log :: "timer_event list"

definition upd_timer :: "nat \<Rightarrow> (timer_obj \<Rightarrow> timer_obj) \<Rightarrow> 'k timer_sys \<Rightarrow> 'k timer_sys" where
  "upd_timer t f s = s\<lparr>ts_timer := (ts_timer s)(t := f (ts_timer s t))\<rparr>"

definition timer_emit :: "timer_event \<Rightarrow> 'k timer_sys \<Rightarrow> 'k timer_sys" where
  "timer_emit ev s = s\<lparr>ts_log := ts_log s @ [ev]\<rparr>"

subsection \<open>The kernel's timers, wrapped\<close>

text \<open>\<open>hz\<close> is \<^verbatim>\<open>OS_HZ\<close>; times are in milliseconds.\<close>

definition timer_due :: "ulong \<Rightarrow> ulong \<Rightarrow> 'k timer_sys \<Rightarrow> ulong" where
  "timer_due hz timeout s = ts_jiffies s + timeout * hz div 1000"

definition RTMP_SetPeriodicTimer ::
    "'k kernel_timers \<Rightarrow> ulong \<Rightarrow> nat \<Rightarrow> ulong \<Rightarrow> 'k timer_sys \<Rightarrow> 'k timer_sys" where
  "RTMP_SetPeriodicTimer K hz t timeout s =
     (let s1 = s\<lparr>ts_kernel := add_timer K t (timer_due hz timeout s) (ts_kernel s)\<rparr>
      in if timer_pending K (ts_kernel s) t then timer_emit (AddPending t) s1 else s1)"

definition RTMP_OS_Add_Timer ::
    "'k kernel_timers \<Rightarrow> ulong \<Rightarrow> nat \<Rightarrow> ulong \<Rightarrow> 'k timer_sys \<Rightarrow> 'k timer_sys" where
  "RTMP_OS_Add_Timer K hz t timeout s =
     (if timer_pending K (ts_kernel s) t then s
      else s\<lparr>ts_kernel := add_timer K t (timer_due hz timeout s) (ts_kernel s)\<rparr>)"

definition RTMP_OS_Mod_Timer ::
    "'k kernel_timers \<Rightarrow> ulong \<Rightarrow> nat \<Rightarrow> ulong \<Rightarrow> 'k timer_sys \<Rightarrow> 'k timer_sys" where
  "RTMP_OS_Mod_Timer K hz t timeout s =
     s\<lparr>ts_kernel := mod_timer K t (timer_due hz timeout s) (ts_kernel s)\<rparr>"

text \<open>The result is what is written to \<^verbatim>\<open>*pCancelled\<close>.\<close>

definition RTMP_OS_Del_Timer ::
    "'k kernel_timers \<Rightarrow> nat \<Rightarrow> 'k timer_sys \<Rightarrow> bool \<times> 'k timer_sys" where
  "RTMP_OS_Del_Timer K t s =
     (if timer_pending K (ts_kernel s) t
      then let (c, k) = del_timer_sync K t (ts_kernel s) in (c, s\<lparr>ts_kernel := k\<rparr>)
      else (True, s))"

subsection \<open>The operations\<close>

text \<open>
  The lists of all timers, kept for the release at the end, are left out; \<^verbatim>\<open>RTMP_OS_Init_Timer\<close> sets the
  function of a timer that is not pending and changes nothing else.
\<close>

definition RTMPInitTimer :: "nat \<Rightarrow> bool \<Rightarrow> 'k timer_sys \<Rightarrow> 'k timer_sys" where
  "RTMPInitTimer t Repeat0 s =
     upd_timer t (\<lambda>o1. o1\<lparr>tm_Valid := True, PeriodicType := Repeat0, tm_State := False\<rparr>) s"

definition RTMPSetTimer :: "'k kernel_timers \<Rightarrow> ulong \<Rightarrow> nat \<Rightarrow> ulong \<Rightarrow> 'k timer_sys \<Rightarrow> 'k timer_sys" where
  "RTMPSetTimer K hz t v s =
     (if \<not> tm_Valid (ts_timer s t) then s
      else if ts_HALT_IN_PROGRESS s \<or> ts_NIC_NOT_EXIST s then s
      else
        let s1 = upd_timer t (\<lambda>o1. o1\<lparr>TimerValue := v, tm_State := False\<rparr>) s
        in if PeriodicType (ts_timer s1 t)
           then RTMP_SetPeriodicTimer K hz t v (upd_timer t (\<lambda>o1. o1\<lparr>Repeat := True\<rparr>) s1)
           else RTMP_OS_Add_Timer K hz t v (upd_timer t (\<lambda>o1. o1\<lparr>Repeat := False\<rparr>) s1))"

definition RTMPCancelTimer :: "'k kernel_timers \<Rightarrow> nat \<Rightarrow> 'k timer_sys \<Rightarrow> 'k timer_sys run" where
  "RTMPCancelTimer K t s =
     (if \<not> tm_Valid (ts_timer s t) then r_return s
      else
        let s1 = (if \<not> tm_State (ts_timer s t) then upd_timer t (\<lambda>o1. o1\<lparr>Repeat := False\<rparr>) s else s);
            (c, s2) = RTMP_OS_Del_Timer K t s1;
            s3 = (if c then upd_timer t (\<lambda>o1. o1\<lparr>tm_State := True\<rparr>) s2 else s2)
        in r_bind (RtmpTimerQRemove t (ts_q s3)) (\<lambda>q. r_return (s3\<lparr>ts_q := q\<rparr>)))"

definition RTMPModTimer ::
    "'k kernel_timers \<Rightarrow> ulong \<Rightarrow> nat \<Rightarrow> ulong \<Rightarrow> 'k timer_sys \<Rightarrow> 'k timer_sys run" where
  "RTMPModTimer K hz t v s =
     (if \<not> tm_Valid (ts_timer s t) then r_return s
      else
        let s1 = upd_timer t (\<lambda>o1. o1\<lparr>TimerValue := v, tm_State := False\<rparr>) s
        in if PeriodicType (ts_timer s1 t)
           then r_bind (RTMPCancelTimer K t s1) (\<lambda>s2. r_return (RTMPSetTimer K hz t v s2))
           else r_return (RTMP_OS_Mod_Timer K hz t v s1))"

definition RTMPReleaseTimer :: "'k kernel_timers \<Rightarrow> nat \<Rightarrow> 'k timer_sys \<Rightarrow> 'k timer_sys run" where
  "RTMPReleaseTimer K t s =
     (if \<not> tm_Valid (ts_timer s t) then r_return s
      else
        let s1 = (if \<not> tm_State (ts_timer s t) then upd_timer t (\<lambda>o1. o1\<lparr>Repeat := False\<rparr>) s else s);
            (c, s2) = RTMP_OS_Del_Timer K t s1;
            s3 = (if c then upd_timer t (\<lambda>o1. o1\<lparr>tm_State := True\<rparr>) s2 else s2)
        in r_bind (RtmpTimerQRemove t (ts_q s3)) (\<lambda>q.
             r_return (upd_timer t (\<lambda>o1. o1\<lparr>tm_Valid := False\<rparr>) (s3\<lparr>ts_q := q\<rparr>))))"

subsection \<open>Interrupt and task\<close>

text \<open>The function the kernel calls, \<^verbatim>\<open>rtmp_timer_##_func\<close>.\<close>

definition rtmp_timer_func :: "'k kernel_timers \<Rightarrow> ulong \<Rightarrow> nat \<Rightarrow> 'k timer_sys \<Rightarrow> c_fault + 'k timer_sys" where
  "rtmp_timer_func K hz t s =
     (let s1 = upd_timer t (\<lambda>o1. o1\<lparr>tm_handle := True\<rparr>) s
      in f_bind (RtmpTimerQInsert t (ts_q s1)) (\<lambda>(pQNode, q).
           let s2 = s1\<lparr>ts_q := q\<rparr>
           in Inr (if pQNode = None \<and> RTMP_TASK_CAN_DO_INSERT (tq_status q)
                   then RTMP_OS_Add_Timer K hz t hz s2 else s2)))"

text \<open>
  One step of the task. \<open>killed\<close> is \<^verbatim>\<open>RTMP_OS_TASK_IS_KILLED\<close>; \<open>woken\<close> and \<open>status\<close> are what
  \<^verbatim>\<open>RtmpOSTaskWait\<close> returns and writes. The queue is tested without the lock; \<^verbatim>\<open>pTimer\<close> is set to null
  only before the wait.
\<close>

definition RtmpTimerQHandle ::
    "'k kernel_timers \<Rightarrow> ulong \<Rightarrow> bool \<Rightarrow> bool \<Rightarrow> bool \<Rightarrow> 'k timer_sys \<Rightarrow> c_fault + 'k timer_sys" where
  "RtmpTimerQHandle K hz killed woken status s =
     (case ts_pc s of
        TaskWaits \<Rightarrow>
          if killed then Inr (s\<lparr>ts_pc := TaskEnded\<rparr>)
          else
            let s1 = s\<lparr>ts_pTimer := None, ts_status := status\<rparr>
            in if \<not> woken then Inr (s1\<lparr>ts_HALT_IN_PROGRESS := True, ts_pc := TaskEnded\<rparr>)
               else if tq_status (ts_q s1) = RTMP_TASK_STAT_STOPED then Inr (s1\<lparr>ts_pc := TaskEnded\<rparr>)
               else Inr (s1\<lparr>ts_pc := TaskTests\<rparr>)
      | TaskTests \<Rightarrow>
          if pQHead (ts_q s) \<noteq> None then Inr (s\<lparr>ts_pc := TaskLocks\<rparr>)
          else if ts_status s
          then Inr (s\<lparr>ts_q := (ts_q s)\<lparr>tq_status := RTMP_TASK_STAT_STOPED\<rparr>, ts_HALT_IN_PROGRESS := True,
                      ts_pc := TaskEnded\<rparr>)
          else Inr (s\<lparr>ts_pc := TaskWaits\<rparr>)
      | TaskLocks \<Rightarrow>
          f_bind (tq_take (ts_q s)) (\<lambda>(taken, q).
            let s1 = s\<lparr>ts_q := q, ts_pTimer := (case taken of None \<Rightarrow> ts_pTimer s | Some t \<Rightarrow> t)\<rparr>
            in Inr (s1\<lparr>ts_pc := (if ts_pTimer s1 = None then TaskTests else TaskCalls)\<rparr>))
      | TaskCalls \<Rightarrow>
          (case ts_pTimer s of
             None \<Rightarrow> Inl NullDeref
           | Some t \<Rightarrow>
               let s1 = (if tm_handle (ts_timer s t) \<and> \<not> PM_FlgSuspend s
                         then timer_emit (TimerRun t) s else s)
               in Inr (s1\<lparr>ts_pc := TaskRepeats\<rparr>))
      | TaskRepeats \<Rightarrow>
          (case ts_pTimer s of
             None \<Rightarrow> Inl NullDeref
           | Some t \<Rightarrow>
               let s1 = (if Repeat (ts_timer s t) \<and> \<not> tm_State (ts_timer s t)
                         then RTMP_OS_Add_Timer K hz t (TimerValue (ts_timer s t)) s else s)
               in Inr (s1\<lparr>ts_pc := TaskTests\<rparr>))
      | TaskEnded \<Rightarrow> Inr s)"

subsection \<open>Runs\<close>

text \<open>
  A step of some context. \<open>OpExpire\<close> is the kernel's: a pending timer expires; \<open>OpFire\<close>: its function runs.
  \<^verbatim>\<open>del_timer_sync\<close> waits for a function that is running: a cancellation that calls it does not go on
  while the timer is firing.
\<close>

datatype timer_op =
    OpInit nat bool
  | OpSet nat ulong
  | OpMod nat ulong
  | OpCancel nat
  | OpRelease nat
  | OpExpire nat
  | OpFire nat
  | OpTask bool bool bool
  | OpExit
  | OpClock ulong
  | OpAdapter bool bool bool

definition del_waits :: "'k kernel_timers \<Rightarrow> nat \<Rightarrow> 'k timer_sys \<Rightarrow> bool" where
  "del_waits K t s \<longleftrightarrow> t \<in> set (ts_firing s) \<and> timer_pending K (ts_kernel s) t"

fun timer_step :: "'k kernel_timers \<Rightarrow> ulong \<Rightarrow> timer_op \<Rightarrow> 'k timer_sys \<Rightarrow> 'k timer_sys run" where
  "timer_step K hz (OpInit t r) s = r_return (RTMPInitTimer t r s)"
| "timer_step K hz (OpSet t v) s = r_return (RTMPSetTimer K hz t v s)"
| "timer_step K hz (OpMod t v) s = (if del_waits K t s then r_return s else RTMPModTimer K hz t v s)"
| "timer_step K hz (OpCancel t) s = (if del_waits K t s then r_return s else RTMPCancelTimer K t s)"
| "timer_step K hz (OpRelease t) s = (if del_waits K t s then r_return s else RTMPReleaseTimer K t s)"
| "timer_step K hz (OpExpire t) s = r_return
     (if timer_pending K (ts_kernel s) t
      then s\<lparr>ts_kernel := timer_expires K t (ts_kernel s), ts_firing := ts_firing s @ [t]\<rparr> else s)"
| "timer_step K hz (OpFire t) s =
     (if t \<in> set (ts_firing s)
      then r_lift (rtmp_timer_func K hz t (s\<lparr>ts_firing := remove1 t (ts_firing s)\<rparr>)) else r_return s)"
| "timer_step K hz (OpTask killed woken status) s = r_lift (RtmpTimerQHandle K hz killed woken status s)"
| "timer_step K hz OpExit s = r_bind (RtmpTimerQExit (ts_q s)) (\<lambda>q. r_return (s\<lparr>ts_q := q\<rparr>))"
| "timer_step K hz (OpClock j) s = r_return (s\<lparr>ts_jiffies := j\<rparr>)"
| "timer_step K hz (OpAdapter halt gone susp) s = r_return
     (s\<lparr>ts_HALT_IN_PROGRESS := halt, ts_NIC_NOT_EXIST := gone, PM_FlgSuspend := susp\<rparr>)"

fun timer_run :: "'k kernel_timers \<Rightarrow> ulong \<Rightarrow> timer_op list \<Rightarrow> 'k timer_sys \<Rightarrow> 'k timer_sys run" where
  "timer_run K hz [] s = r_return s"
| "timer_run K hz (op # ops) s = r_bind (timer_step K hz op s) (timer_run K hz ops)"

text \<open>The adapter after its timer queue and task were set up, before any timer was.\<close>

definition timer_start :: "bool \<Rightarrow> 'k \<Rightarrow> 'k timer_sys" where
  "timer_start mem k =
     \<lparr>ts_q = RtmpTimerQInit mem,
      ts_timer = (\<lambda>t. \<lparr>tm_Valid = False, tm_State = False, PeriodicType = False, Repeat = False,
                        TimerValue = 0, tm_handle = False\<rparr>),
      ts_kernel = k, ts_jiffies = 0, ts_firing = [], ts_pc = TaskWaits, ts_pTimer = None, ts_status = False,
      ts_HALT_IN_PROGRESS = False, ts_NIC_NOT_EXIST = False, PM_FlgSuspend = False, ts_log = []\<rparr>"

end
