(* ===== verification/TimersProps.thy ===== *)
theory TimersProps
  imports Timers
begin

text \<open>
  What the timers guarantee and what not: no step goes wrong; a timer that was cancelled while it was
  in no other place than the kernel or once in the queue does not run again until it is set; in
  the other places it can run after it was cancelled.
\<close>

subsection \<open>The queue in any state\<close>

definition tq_sane :: "timer_q \<Rightarrow> bool" where
  "tq_sane q \<longleftrightarrow> RTMP_TASK_STAT_INITED \<le> tq_status q \<and> (\<exists>is fs. tq_inv q is fs) \<or>
     pTimerQPoll q = None \<and> pQHead q = None \<and> pQTail q = None \<and> pQPollFreeList q = None"

lemma abs_dead: "pQHead q = None \<Longrightarrow> tq_abs q = []"
  by (cases TIMER_QUEUE_SIZE_MAX) (simp_all add: tq_abs_def tq_view_def)

lemma sane_cases:
  assumes "tq_sane q"
  obtains "is" fs where "tq_inv q is fs" "tq_abs q = tq_view q is" "RTMP_TASK_STAT_INITED \<le> tq_status q"
  | "pTimerQPoll q = None" "pQHead q = None" "pQTail q = None" "pQPollFreeList q = None" "tq_abs q = []"
  using assms abs_view abs_dead by (auto simp: tq_sane_def)

lemma sane_inv: "tq_inv q is fs \<Longrightarrow> RTMP_TASK_STAT_INITED \<le> tq_status q \<Longrightarrow> tq_sane q"
  by (auto simp: tq_sane_def)

lemma sane_insert:
  assumes "tq_sane q"
  shows "\<exists>p q1. RtmpTimerQInsert t q = Inr (p, q1) \<and> tq_sane q1 \<and>
    tq_abs q1 = (if p = None then tq_abs q else tq_abs q @ [t])"
  using assms
proof (cases rule: sane_cases)
  case (1 "is" fs)
  show ?thesis
  proof (cases "fs = [] \<or> \<not> RTMP_TASK_CAN_DO_INSERT (tq_status q)")
    case True
    then have "RtmpTimerQInsert t q = Inr (None, q)"
      using insert_refused [of q "is" t] 1(1) by (auto simp: RtmpTimerQInsert_def)
    then show ?thesis using assms by simp
  next
    case False
    then obtain f gs where f: "fs = f # gs" by (cases fs) auto
    obtain q1 where "RtmpTimerQInsert t q = Inr (Some f, q1)" "tq_inv q1 (is @ [f]) gs"
        "tq_view q1 (is @ [f]) = tq_view q is @ [t]" "tq_status q1 = tq_status q"
      using insert_inv [OF 1(1) [unfolded f], of t] False by blast
    then show ?thesis
      using 1(2,3) abs_view sane_inv by (intro exI [of _ "Some f"] exI [of _ q1]) auto
  qed
next
  case 2
  then have "RtmpTimerQInsert t q = Inr (None, q)" by (simp add: RtmpTimerQInsert_def)
  then show ?thesis using assms by simp
qed

lemma sane_take:
  assumes "tq_sane q"
  shows "\<exists>q1. tq_take q = Inr (case tq_abs q of [] \<Rightarrow> None | t # ts \<Rightarrow> Some (Some t), q1) \<and> tq_sane q1 \<and>
    tq_abs q1 = tl (tq_abs q)"
  using assms
proof (cases rule: sane_cases)
  case (1 "is" fs)
  show ?thesis
  proof (cases "is")
    case Nil
    then show ?thesis using 1 assms by (simp add: tq_take_def tq_inv_def tq_view_def)
  next
    case (Cons i ys)
    obtain q1 where "tq_take q = Inr (Some (Some (tq_timer q i)), q1)" "tq_inv q1 ys (i # fs)"
        "tq_view q1 ys = tq_view q ys" "tq_status q1 = tq_status q"
      using take_inv [OF 1(1) [unfolded Cons]] by blast
    then show ?thesis
      using 1(2,3) Cons abs_view sane_inv by (intro exI [of _ q1]) (auto simp: tq_view_def)
  qed
next
  case 2
  then show ?thesis using assms by (simp add: tq_take_def)
qed

lemma sane_remove:
  assumes "tq_sane q"
  shows "\<exists>q1. RtmpTimerQRemove t q = r_return q1 \<and> tq_sane q1 \<and> tq_abs q1 = remove1 t (tq_abs q)"
  using assms
proof (cases rule: sane_cases)
  case (1 "is" fs)
  obtain q1 js gs where "RtmpTimerQRemove t q = r_return q1" "tq_inv q1 js gs"
      "tq_view q1 js = remove1 t (tq_view q is)" "tq_status q1 = tq_status q"
    using remove_inv [OF 1(1,3), of t] by blast
  then show ?thesis using 1(2,3) abs_view sane_inv by (intro exI [of _ q1]) auto
next
  case 2
  then have "tq_search t q None (pQHead q) = r_return (None, None)" by (subst tq_search.simps) simp
  then show ?thesis using 2 assms by (simp add: RtmpTimerQRemove_def)
qed

lemma sane_exit:
  assumes "tq_sane q"
  shows "\<exists>q1. RtmpTimerQExit q = r_return q1 \<and> tq_sane q1 \<and> tq_abs q1 = []"
proof -
  have "\<exists>q1. tq_drain q = r_return q1"
    using assms
  proof (cases rule: sane_cases)
    case (1 "is" fs)
    then show ?thesis using exit_run [OF 1(1)] by (auto simp: RtmpTimerQExit_def r_bind_eq_return)
  next
    case 2
    then show ?thesis by (subst tq_drain.simps) simp
  qed
  then show ?thesis
    by (auto simp: RtmpTimerQExit_def tq_sane_def abs_dead RTMP_TASK_STAT_INITED_def RTMP_TASK_STAT_STOPED_def)
qed

subsection \<open>No step goes wrong, and what is quiet stays quiet\<close>

definition timer_ok :: "'k timer_sys \<Rightarrow> bool" where
  "timer_ok s \<longleftrightarrow> tq_sane (ts_q s) \<and> (ts_pc s \<in> {TaskCalls, TaskRepeats} \<longrightarrow> ts_pTimer s \<noteq> None)"

text \<open>The task will not call the function of the timer from what it has at hand.\<close>

definition not_at_hand :: "nat \<Rightarrow> 'k timer_sys \<Rightarrow> bool" where
  "not_at_hand t s \<longleftrightarrow> ts_pc s \<in> {TaskWaits, TaskEnded} \<or> ts_pTimer s \<noteq> Some t"

definition timer_quiet :: "'k kernel_timers \<Rightarrow> nat \<Rightarrow> 'k timer_sys \<Rightarrow> bool" where
  "timer_quiet K t s \<longleftrightarrow> \<not> timer_pending K (ts_kernel s) t \<and> t \<notin> set (ts_firing s) \<and>
     t \<notin> set (tq_abs (ts_q s)) \<and> not_at_hand t s"

definition timer_runs :: "nat \<Rightarrow> 'k timer_sys \<Rightarrow> nat" where
  "timer_runs t s = count_list (ts_log s) (TimerRun t)"

fun sets_timer :: "nat \<Rightarrow> timer_op \<Rightarrow> bool" where
  "sets_timer t (OpSet u v) \<longleftrightarrow> u = t"
| "sets_timer t (OpMod u v) \<longleftrightarrow> u = t"
| "sets_timer t _ \<longleftrightarrow> False"

lemma kernel_lawD:
  assumes "kernel_law K"
  shows "timer_pending K (add_timer K t e k) u \<longleftrightarrow> u = t \<or> timer_pending K k u"
    "timer_pending K (mod_timer K t e k) u \<longleftrightarrow> u = t \<or> timer_pending K k u"
    "fst (del_timer_sync K t k) \<longleftrightarrow> timer_pending K k t"
    "timer_pending K (snd (del_timer_sync K t k)) u \<longleftrightarrow> u \<noteq> t \<and> timer_pending K k u"
    "timer_pending K (timer_expires K t k) u \<longleftrightarrow> u \<noteq> t \<and> timer_pending K k u"
  using assms by (auto simp: kernel_law_def)

text \<open>The parts a step of the kernel's timers leaves alone.\<close>

definition same_task :: "'k timer_sys \<Rightarrow> 'k timer_sys \<Rightarrow> bool" where
  "same_task s s1 \<longleftrightarrow> ts_pc s1 = ts_pc s \<and> ts_pTimer s1 = ts_pTimer s \<and> ts_firing s1 = ts_firing s \<and>
     (\<forall>t. timer_runs t s1 = timer_runs t s)"

lemma same_task_refl [simp]: "same_task s s"
  by (simp add: same_task_def)

lemma same_task_trans: "same_task s s1 \<Longrightarrow> same_task s1 s2 \<Longrightarrow> same_task s s2"
  by (simp add: same_task_def)

lemma upd_timer_same [simp]:
  "same_task s (upd_timer t f s)" "ts_q (upd_timer t f s) = ts_q s" "ts_kernel (upd_timer t f s) = ts_kernel s"
  by (simp_all add: same_task_def upd_timer_def timer_runs_def)

lemma add_timers:
  assumes "kernel_law K"
  shows "same_task s (RTMP_OS_Add_Timer K hz u v s)" "ts_q (RTMP_OS_Add_Timer K hz u v s) = ts_q s"
    "timer_pending K (ts_kernel (RTMP_OS_Add_Timer K hz u v s)) t \<longleftrightarrow> t = u \<or> timer_pending K (ts_kernel s) t"
    "same_task s (RTMP_SetPeriodicTimer K hz u v s)" "ts_q (RTMP_SetPeriodicTimer K hz u v s) = ts_q s"
    "timer_pending K (ts_kernel (RTMP_SetPeriodicTimer K hz u v s)) t \<longleftrightarrow> t = u \<or> timer_pending K (ts_kernel s) t"
    "same_task s (RTMP_OS_Mod_Timer K hz u v s)" "ts_q (RTMP_OS_Mod_Timer K hz u v s) = ts_q s"
    "timer_pending K (ts_kernel (RTMP_OS_Mod_Timer K hz u v s)) t \<longleftrightarrow> t = u \<or> timer_pending K (ts_kernel s) t"
  using kernel_lawD [OF assms]
  by (auto simp: RTMP_OS_Add_Timer_def RTMP_SetPeriodicTimer_def RTMP_OS_Mod_Timer_def same_task_def
      timer_runs_def Let_def timer_emit_def)

lemma set_timer:
  assumes K: "kernel_law K"
  shows "same_task s (RTMPSetTimer K hz u v s)" "ts_q (RTMPSetTimer K hz u v s) = ts_q s"
    "t \<noteq> u \<Longrightarrow> timer_pending K (ts_kernel (RTMPSetTimer K hz u v s)) t \<longleftrightarrow> timer_pending K (ts_kernel s) t"
proof -
  let ?a = "upd_timer u (\<lambda>o1. o1\<lparr>TimerValue := v, tm_State := False\<rparr>) s"
  let ?p = "upd_timer u (\<lambda>o1. o1\<lparr>Repeat := True\<rparr>) ?a" and ?o = "upd_timer u (\<lambda>o1. o1\<lparr>Repeat := False\<rparr>) ?a"
  have cases: "RTMPSetTimer K hz u v s \<in> {s, RTMP_SetPeriodicTimer K hz u v ?p, RTMP_OS_Add_Timer K hz u v ?o}"
    by (simp add: RTMPSetTimer_def Let_def)
  have p: "same_task s ?p" and o: "same_task s ?o"
    by (rule same_task_trans [OF upd_timer_same(1) upd_timer_same(1)])+
  show "same_task s (RTMPSetTimer K hz u v s)"
    using cases same_task_trans [OF p add_timers(4) [OF K]] same_task_trans [OF o add_timers(1) [OF K]] by auto
  show "ts_q (RTMPSetTimer K hz u v s) = ts_q s"
    using cases by (auto simp: add_timers [OF K])
  show "t \<noteq> u \<Longrightarrow> timer_pending K (ts_kernel (RTMPSetTimer K hz u v s)) t \<longleftrightarrow> timer_pending K (ts_kernel s) t"
    using cases by (auto simp: add_timers [OF K])
qed

lemma del_timer:
  assumes "kernel_law K" "RTMP_OS_Del_Timer K u s = (c, s1)"
  shows "same_task s s1" "ts_q s1 = ts_q s" "c"
    "timer_pending K (ts_kernel s1) t \<longleftrightarrow> t \<noteq> u \<and> timer_pending K (ts_kernel s) t"
proof -
  have d: "fst (del_timer_sync K u (ts_kernel s)) \<longleftrightarrow> timer_pending K (ts_kernel s) u"
    "timer_pending K (snd (del_timer_sync K u (ts_kernel s))) t \<longleftrightarrow> t \<noteq> u \<and> timer_pending K (ts_kernel s) t"
    by (rule kernel_lawD [OF assms(1)])+
  show "same_task s s1" "ts_q s1 = ts_q s" "c"
    "timer_pending K (ts_kernel s1) t \<longleftrightarrow> t \<noteq> u \<and> timer_pending K (ts_kernel s) t"
    using assms(2) d
    by (auto simp: RTMP_OS_Del_Timer_def same_task_def timer_runs_def case_prod_unfold split: if_splits)
qed

text \<open>Cancelling, and what a release does besides.\<close>

lemma cancel_timer:
  assumes K: "kernel_law K" and q: "tq_sane (ts_q s)"
  shows "\<exists>s1. RTMPCancelTimer K u s = r_return s1 \<and> same_task s s1 \<and> tq_sane (ts_q s1) \<and>
    (if tm_Valid (ts_timer s u)
     then tq_abs (ts_q s1) = remove1 u (tq_abs (ts_q s)) \<and>
       (\<forall>t. timer_pending K (ts_kernel s1) t \<longleftrightarrow> t \<noteq> u \<and> timer_pending K (ts_kernel s) t)
     else s1 = s)"
proof (cases "tm_Valid (ts_timer s u)")
  case True
  define a where "a = (if \<not> tm_State (ts_timer s u) then upd_timer u (\<lambda>o1. o1\<lparr>Repeat := False\<rparr>) s else s)"
  obtain c b where d: "RTMP_OS_Del_Timer K u a = (c, b)" by fastforce
  define e where "e = (if c then upd_timer u (\<lambda>o1. o1\<lparr>tm_State := True\<rparr>) b else b)"
  have a: "same_task s a" "ts_q a = ts_q s" "ts_kernel a = ts_kernel s" by (simp_all add: a_def)
  have e: "same_task b e" "ts_q e = ts_q b" "ts_kernel e = ts_kernel b" by (simp_all add: e_def)
  obtain q1 where q1: "RtmpTimerQRemove u (ts_q e) = r_return q1" "tq_sane q1"
      "tq_abs q1 = remove1 u (tq_abs (ts_q e))"
    using sane_remove [of "ts_q e" u] q e(2) a(2) del_timer(2) [OF K d] by auto
  have run: "RTMPCancelTimer K u s = r_return (e\<lparr>ts_q := q1\<rparr>)"
    using True d q1(1) by (simp add: RTMPCancelTimer_def Let_def a_def [symmetric] e_def [symmetric])
  have "same_task s e"
    by (rule same_task_trans [OF same_task_trans [OF a(1) del_timer(1) [OF K d]] e(1)])
  then have "same_task s (e\<lparr>ts_q := q1\<rparr>)" by (simp add: same_task_def timer_runs_def)
  then show ?thesis
    using True run q1(2,3) e(2,3) a(2,3) del_timer(2,4) [OF K d] by (intro exI [of _ "e\<lparr>ts_q := q1\<rparr>"]) simp
next
  case False
  then show ?thesis using q by (simp add: RTMPCancelTimer_def)
qed

lemma release_is_cancel:
  assumes K: "kernel_law K" and q: "tq_sane (ts_q s)"
  shows "RTMPReleaseTimer K u s =
    (if tm_Valid (ts_timer s u)
     then r_bind (RTMPCancelTimer K u s) (\<lambda>s1. r_return (upd_timer u (\<lambda>o1. o1\<lparr>tm_Valid := False\<rparr>) s1))
     else r_return s)"
  by (simp add: RTMPReleaseTimer_def RTMPCancelTimer_def Let_def case_prod_unfold r_bind_assoc)

subsection \<open>Steps\<close>

text \<open>A step goes well, and if \<open>t\<close> was quiet it stays so and its function was not called.\<close>

definition step_ok :: "'k kernel_timers \<Rightarrow> nat \<Rightarrow> 'k timer_sys \<Rightarrow> 'k timer_sys \<Rightarrow> bool" where
  "step_ok K t s s1 \<longleftrightarrow> timer_ok s1 \<and>
     (timer_quiet K t s \<longrightarrow> timer_quiet K t s1 \<and> timer_runs t s1 = timer_runs t s)"

lemma quiet_frame:
  assumes "timer_ok s" "same_task s s1" "tq_sane (ts_q s1)"
    "timer_quiet K t s \<Longrightarrow> set (tq_abs (ts_q s1)) \<subseteq> set (tq_abs (ts_q s)) \<union> - {t}"
    "timer_quiet K t s \<Longrightarrow> \<not> timer_pending K (ts_kernel s1) t"
  shows "step_ok K t s s1"
  using assms by (auto simp: step_ok_def timer_ok_def timer_quiet_def same_task_def not_at_hand_def)

lemma init_step: "timer_ok s \<Longrightarrow> step_ok K t s (RTMPInitTimer u r s)"
  by (rule quiet_frame) (simp_all add: RTMPInitTimer_def timer_ok_def timer_quiet_def)

lemma set_step: "kernel_law K \<Longrightarrow> timer_ok s \<Longrightarrow> t \<noteq> u \<Longrightarrow> step_ok K t s (RTMPSetTimer K hz u v s)"
  by (rule quiet_frame) (auto simp: set_timer timer_ok_def timer_quiet_def)

lemma cancel_step:
  assumes "kernel_law K" "timer_ok s"
  shows "\<exists>s1. RTMPCancelTimer K u s = r_return s1 \<and> step_ok K t s s1"
proof -
  have q: "tq_sane (ts_q s)" using assms(2) by (simp add: timer_ok_def)
  obtain s1 where s1: "RTMPCancelTimer K u s = r_return s1" "same_task s s1" "tq_sane (ts_q s1)"
      "if tm_Valid (ts_timer s u)
       then tq_abs (ts_q s1) = remove1 u (tq_abs (ts_q s)) \<and>
         (\<forall>t. timer_pending K (ts_kernel s1) t \<longleftrightarrow> t \<noteq> u \<and> timer_pending K (ts_kernel s) t)
       else s1 = s"
    using cancel_timer [OF assms(1) q, of u] by blast
  have "step_ok K t s s1"
    by (rule quiet_frame [OF assms(2) s1(2,3)])
       (use s1(4) notin_set_remove1 in \<open>auto simp: timer_quiet_def split: if_splits\<close>)
  then show ?thesis using s1(1) by blast
qed

lemma step_ok_trans: "step_ok K t s s1 \<Longrightarrow> step_ok K t s1 s2 \<Longrightarrow> step_ok K t s s2"
  by (auto simp: step_ok_def)

lemma upd_step: "timer_ok s \<Longrightarrow> step_ok K t s (upd_timer u f s)"
  by (rule quiet_frame) (simp_all add: timer_ok_def timer_quiet_def)

lemma release_step:
  assumes "kernel_law K" "timer_ok s"
  shows "\<exists>s1. RTMPReleaseTimer K u s = r_return s1 \<and> step_ok K t s s1"
proof -
  have q: "tq_sane (ts_q s)" using assms(2) by (simp add: timer_ok_def)
  obtain s1 where s1: "RTMPCancelTimer K u s = r_return s1" "step_ok K t s s1"
    using cancel_step [OF assms] by blast
  have "step_ok K t s (upd_timer u (\<lambda>o1. o1\<lparr>tm_Valid := False\<rparr>) s1)"
    using s1(2) step_ok_trans [OF s1(2) upd_step] by (simp add: step_ok_def)
  moreover have "step_ok K t s s" using assms(2) by (simp add: step_ok_def)
  ultimately show ?thesis by (simp add: release_is_cancel [OF assms(1) q] s1(1))
qed

lemma mod_step:
  assumes "kernel_law K" "timer_ok s" "t \<noteq> u"
  shows "\<exists>s1. RTMPModTimer K hz u v s = r_return s1 \<and> step_ok K t s s1"
proof -
  let ?a = "upd_timer u (\<lambda>o1. o1\<lparr>TimerValue := v, tm_State := False\<rparr>) s"
  have a: "step_ok K t s ?a" by (rule upd_step [OF assms(2)])
  then have ok: "timer_ok ?a" by (simp add: step_ok_def)
  obtain b where b: "RTMPCancelTimer K u ?a = r_return b" "step_ok K t ?a b"
    using cancel_step [OF assms(1) ok] by blast
  have c: "step_ok K t b (RTMPSetTimer K hz u v b)"
    using set_step [OF assms(1) _ assms(3)] b(2) by (simp add: step_ok_def)
  have m: "step_ok K t ?a (RTMP_OS_Mod_Timer K hz u v ?a)"
    by (rule quiet_frame [OF ok]) (use ok assms(3) in \<open>auto simp: add_timers [OF assms(1)] timer_ok_def timer_quiet_def\<close>)
  have "step_ok K t s s" using assms(2) by (simp add: step_ok_def)
  then show ?thesis
    using step_ok_trans [OF a step_ok_trans [OF b(2) c]] step_ok_trans [OF a m]
    by (simp add: RTMPModTimer_def Let_def b(1))
qed

lemma func_step:
  assumes K: "kernel_law K" and ok: "timer_ok s" and f: "u \<in> set (ts_firing s)"
  shows "\<exists>s1. rtmp_timer_func K hz u (s\<lparr>ts_firing := remove1 u (ts_firing s)\<rparr>) = Inr s1 \<and> step_ok K t s s1"
proof -
  define a where "a = upd_timer u (\<lambda>o1. o1\<lparr>tm_handle := True\<rparr>) (s\<lparr>ts_firing := remove1 u (ts_firing s)\<rparr>)"
  have a: "ts_q a = ts_q s" "ts_kernel a = ts_kernel s" "ts_pc a = ts_pc s" "ts_pTimer a = ts_pTimer s"
      "ts_firing a = remove1 u (ts_firing s)" "timer_runs v a = timer_runs v s" for v
    by (simp_all add: a_def upd_timer_def timer_runs_def)
  obtain p q where q: "RtmpTimerQInsert u (ts_q a) = Inr (p, q)" "tq_sane q"
      "tq_abs q = (if p = None then tq_abs (ts_q a) else tq_abs (ts_q a) @ [u])"
    using sane_insert [of "ts_q a" u] ok a(1) by (auto simp: timer_ok_def)
  define b where "b = a\<lparr>ts_q := q\<rparr>"
  define e where "e = (if p = None \<and> RTMP_TASK_CAN_DO_INSERT (tq_status q) then RTMP_OS_Add_Timer K hz u hz b else b)"
  have run: "rtmp_timer_func K hz u (s\<lparr>ts_firing := remove1 u (ts_firing s)\<rparr>) = Inr e"
    using q(1) by (simp add: rtmp_timer_func_def Let_def a_def [symmetric] b_def [symmetric] e_def)
  have same: "same_task a e"
    using same_task_trans [OF _ add_timers(1) [OF K], of a b hz u hz]
    by (simp add: e_def b_def same_task_def timer_runs_def)
  have eq: "ts_q e = q" by (simp add: e_def b_def add_timers [OF K])
  have "timer_pending K (ts_kernel e) t \<Longrightarrow> t = u \<or> timer_pending K (ts_kernel s) t"
    by (simp add: e_def b_def add_timers [OF K] a(2) split: if_splits)
  then have "step_ok K t s e"
    using ok f q(2,3) same eq a set_remove1_subset [of u "ts_firing s"]
    by (auto simp: step_ok_def timer_ok_def timer_quiet_def same_task_def not_at_hand_def split: if_splits)
  then show ?thesis using run by blast
qed

lemma wait_step:
  assumes "timer_ok s" "ts_pc s \<in> {TaskWaits, TaskTests, TaskEnded}"
  shows "\<exists>s1. RtmpTimerQHandle K hz killed woken status s = Inr s1 \<and> step_ok K t s s1"
proof -
  have stop: "tq_sane (ts_q s) \<Longrightarrow> pQHead (ts_q s) = None \<Longrightarrow> tq_sane ((ts_q s)\<lparr>tq_status := RTMP_TASK_STAT_STOPED\<rparr>)"
    by (auto simp: tq_sane_def tq_inv_def RTMP_TASK_STAT_INITED_def RTMP_TASK_STAT_STOPED_def tq_succ_def [abs_def])
  show ?thesis
    using assms stop
    by (auto simp: RtmpTimerQHandle_def Let_def step_ok_def timer_ok_def timer_quiet_def not_at_hand_def
        timer_runs_def abs_dead)
qed

lemma lock_step:
  assumes "timer_ok s" "ts_pc s = TaskLocks"
  shows "\<exists>s1. RtmpTimerQHandle K hz killed woken status s = Inr s1 \<and> step_ok K t s s1"
proof -
  obtain q where q: "tq_take (ts_q s) = Inr (case tq_abs (ts_q s) of [] \<Rightarrow> None | t # ts \<Rightarrow> Some (Some t), q)"
      "tq_sane q" "tq_abs q = tl (tq_abs (ts_q s))"
    using sane_take [of "ts_q s"] assms(1) by (auto simp: timer_ok_def)
  show ?thesis
    using assms q
    by (cases "tq_abs (ts_q s)")
       (auto simp: RtmpTimerQHandle_def Let_def step_ok_def timer_ok_def timer_quiet_def not_at_hand_def timer_runs_def)
qed

lemma call_step:
  assumes K: "kernel_law K" and "timer_ok s" "ts_pc s \<in> {TaskCalls, TaskRepeats}"
  shows "\<exists>s1. RtmpTimerQHandle K hz killed woken status s = Inr s1 \<and> step_ok K t s s1"
proof -
  obtain u where u: "ts_pTimer s = Some u" using assms(2,3) by (auto simp: timer_ok_def)
  have same: "same_task s (RTMP_OS_Add_Timer K hz u v s)" for v by (rule add_timers(1) [OF K])
  show ?thesis
    using assms u same
    by (auto simp: RtmpTimerQHandle_def Let_def step_ok_def timer_ok_def timer_quiet_def not_at_hand_def
        timer_emit_def add_timers [OF K] same_task_def timer_runs_def)
qed

lemma task_step:
  assumes "kernel_law K" "timer_ok s"
  shows "\<exists>s1. RtmpTimerQHandle K hz killed woken status s = Inr s1 \<and> step_ok K t s s1"
  using wait_step [OF assms(2)] lock_step [OF assms(2)] call_step [OF assms] by (cases "ts_pc s") auto

lemma exit_step:
  assumes "timer_ok s"
  shows "\<exists>q1. RtmpTimerQExit (ts_q s) = r_return q1 \<and> step_ok K t s (s\<lparr>ts_q := q1\<rparr>)"
proof -
  obtain q1 where q1: "RtmpTimerQExit (ts_q s) = r_return q1" "tq_sane q1" "tq_abs q1 = []"
    using sane_exit [of "ts_q s"] assms by (auto simp: timer_ok_def)
  have "step_ok K t s (s\<lparr>ts_q := q1\<rparr>)"
    by (rule quiet_frame [OF assms]) (use q1 in \<open>auto simp: same_task_def timer_runs_def timer_quiet_def\<close>)
  then show ?thesis using q1(1) by blast
qed

lemma expire_step:
  assumes "kernel_law K" "timer_ok s" "timer_pending K (ts_kernel s) u"
  shows "step_ok K t s (s\<lparr>ts_kernel := timer_expires K u (ts_kernel s), ts_firing := ts_firing s @ [u]\<rparr>)"
  using assms(2,3) kernel_lawD(5) [OF assms(1)]
  by (auto simp: step_ok_def timer_ok_def timer_quiet_def not_at_hand_def timer_runs_def)

lemma step_goes_well:
  assumes K: "kernel_law K" and ok: "timer_ok s" and op: "\<not> sets_timer t op"
  shows "\<exists>s1. timer_step K hz op s = r_return s1 \<and> step_ok K t s s1"
proof -
  have refl: "step_ok K t s s" using ok by (simp add: step_ok_def)
  show ?thesis
  proof (cases op)
    case (OpInit u r)
    then show ?thesis using init_step [OF ok] by simp
  next
    case (OpSet u v)
    then show ?thesis using set_step [OF K ok] op by simp
  next
    case (OpMod u v)
    then show ?thesis using mod_step [OF K ok] op refl by simp
  next
    case (OpCancel u)
    then show ?thesis using cancel_step [OF K ok] refl by simp
  next
    case (OpRelease u)
    then show ?thesis using release_step [OF K ok] refl by simp
  next
    case (OpExpire u)
    then show ?thesis using expire_step [OF K ok] refl by simp
  next
    case (OpFire u)
    then show ?thesis using func_step [OF K ok, of u hz t] refl by (auto simp: r_return_def)
  next
    case (OpTask a b c)
    then show ?thesis using task_step [OF K ok, of hz a b c t] by (auto simp: r_return_def)
  next
    case OpExit
    then show ?thesis using exit_step [OF ok, of K t] by auto
  next
    case (OpClock j)
    then show ?thesis using ok by (simp add: step_ok_def timer_ok_def timer_quiet_def not_at_hand_def timer_runs_def)
  next
    case (OpAdapter a b c)
    then show ?thesis using ok by (simp add: step_ok_def timer_ok_def timer_quiet_def not_at_hand_def timer_runs_def)
  qed
qed

lemma step_keeps_ok:
  assumes "kernel_law K" "timer_ok s"
  shows "\<exists>s1. timer_step K hz op s = r_return s1 \<and> timer_ok s1"
proof -
  have "\<not> sets_timer 0 op \<or> \<not> sets_timer 1 op" by (cases op) auto
  then obtain t where "\<not> sets_timer t op" by blast
  then show ?thesis using step_goes_well [OF assms] by (fastforce simp: step_ok_def)
qed

lemma start_ok: "timer_ok (timer_start mem k)"
proof -
  have "tq_sane (RtmpTimerQInit mem)"
    using sane_inv [OF init_inv] init_status by (cases mem) (simp, simp add: RtmpTimerQInit_def tq_sane_def)
  then show ?thesis by (simp add: timer_ok_def timer_start_def)
qed

lemma run_goes_well:
  assumes "kernel_law K" "timer_ok s"
  shows "\<exists>s1. timer_run K hz ops s = r_return s1 \<and> timer_ok s1"
  using assms(2)
proof (induction ops arbitrary: s)
  case (Cons op ops)
  obtain s1 where "timer_step K hz op s = r_return s1" "timer_ok s1"
    using step_keeps_ok [OF assms(1) Cons.prems] by blast
  then show ?case using Cons.IH [of s1] by simp
qed simp

lemma quiet_run:
  assumes "kernel_law K" "timer_ok s" "timer_quiet K t s" "\<forall>op \<in> set ops. \<not> sets_timer t op"
  shows "\<exists>s1. timer_run K hz ops s = r_return s1 \<and> timer_runs t s1 = timer_runs t s"
  using assms(2-)
proof (induction ops arbitrary: s)
  case (Cons op ops)
  have op: "\<not> sets_timer t op" using Cons.prems(3) by simp
  obtain s1 where s1: "timer_step K hz op s = r_return s1" "step_ok K t s s1"
    using step_goes_well [OF assms(1) Cons.prems(1) op] by blast
  then have "timer_ok s1" "timer_quiet K t s1" "timer_runs t s1 = timer_runs t s"
    using Cons.prems(2) by (simp_all add: step_ok_def)
  then show ?case using Cons.IH [of s1] Cons.prems(3) s1(1) by simp
qed simp

lemma cancel_quiet:
  assumes K: "kernel_law K" and ok: "timer_ok s" and v: "tm_Valid (ts_timer s t)"
    and f: "t \<notin> set (ts_firing s)" and once: "count_list (tq_abs (ts_q s)) t \<le> 1" and h: "not_at_hand t s"
  shows "\<exists>s1. timer_step K hz (OpCancel t) s = r_return s1 \<and> timer_ok s1 \<and> timer_quiet K t s1 \<and>
    timer_runs t s1 = timer_runs t s"
proof -
  obtain s1 where s1: "RTMPCancelTimer K t s = r_return s1" "same_task s s1" "tq_sane (ts_q s1)"
      "tq_abs (ts_q s1) = remove1 t (tq_abs (ts_q s))" "\<not> timer_pending K (ts_kernel s1) t"
    using cancel_timer [OF K, of s t] ok v by (auto simp: timer_ok_def)
  have "count_list (tq_abs (ts_q s1)) t = 0"
    using once by (simp add: s1(4) count_list_remove1)
  then have "t \<notin> set (tq_abs (ts_q s1))" by (simp add: count_list_0_iff)
  then show ?thesis
    using s1 ok f h by (auto simp: del_waits_def timer_ok_def timer_quiet_def same_task_def not_at_hand_def)
qed

subsection \<open>A kernel\<close>

text \<open>A kernel that keeps the set of the pending timers.\<close>

definition set_kernel :: "(nat \<Rightarrow> bool) kernel_timers" where
  "set_kernel =
     \<lparr>timer_pending = (\<lambda>k. k), add_timer = (\<lambda>t e k. k(t := True)), mod_timer = (\<lambda>t e k. k(t := True)),
      del_timer_sync = (\<lambda>t k. (k t, k(t := False))), timer_expires = (\<lambda>t k. k(t := False))\<rparr>"

lemma set_kernel_law: "kernel_law set_kernel"
  by (simp add: kernel_law_def set_kernel_def)

text \<open>
  Runs on it: how often the function of timer 0 was called, and whether the timer counts as cancelled.
\<close>

definition runs_in :: "timer_op list \<Rightarrow> (nat \<times> bool) run" where
  "runs_in ops = r_bind (timer_run set_kernel 1000 ops (timer_start True (\<lambda>_. False)))
     (\<lambda>s. r_return (timer_runs 0 s, tm_State (ts_timer s 0)))"

definition task_goes :: timer_op where "task_goes = OpTask False True False"

text \<open>
  Timer 0 has expired and its function is about to run; its function has run, and the task has taken it out
  of the queue; it has expired, was set and has expired again before the task came; its function has been
  called, and timer 1 has expired and the task has seen that the queue is not empty.
\<close>

definition in_flight :: "timer_op list" where
  "in_flight = [OpInit 0 False, OpSet 0 5, OpExpire 0]"

definition at_hand :: "timer_op list" where
  "at_hand = in_flight @ [OpFire 0, task_goes, task_goes, task_goes]"

definition queued_twice :: "timer_op list" where
  "queued_twice = in_flight @ [OpFire 0, OpSet 0 5, OpExpire 0, OpFire 0]"

definition stale_timer :: "timer_op list" where
  "stale_timer = at_hand @ [task_goes, OpInit 1 False, OpSet 1 5, OpExpire 1, OpFire 1, task_goes, task_goes]"

declare tq_search.simps [code]

lemma queued_once:
  "r_bind (timer_run set_kernel 1000 (in_flight @ [OpFire 0]) (timer_start True (\<lambda>_. False)))
     (\<lambda>s. r_return (tm_Valid (ts_timer s 0) \<and> ts_firing s = [] \<and> tq_abs (ts_q s) = [0] \<and> not_at_hand 0 s)) =
   r_return True"
  by code_simp

subsection \<open>Properties\<close>

text \<open>C23: No run of timer operations, expiries and steps of the task that starts from the initialised driver
  reads or writes outside the pool of nodes, follows a null pointer or does not return, whatever the kernel's
  timers do within their contract. A timer that is cancelled while its interrupt function is not about to run,
  it is in the queue at most once, and the task does not have it at hand, is not run by the task afterwards,
  in whatever order the contexts go on, until it is set again.\<close>

theorem cancelled_timer_stays_quiet:
  assumes "kernel_law K" and "\<forall>op \<in> set after. \<not> sets_timer t op"
  shows "\<exists>s. timer_run K hz before (timer_start mem k) = r_return s \<and>
    (tm_Valid (ts_timer s t) \<and> t \<notin> set (ts_firing s) \<and> count_list (tq_abs (ts_q s)) t \<le> 1 \<and> not_at_hand t s \<longrightarrow>
     (\<exists>s1. timer_run K hz (OpCancel t # after) s = r_return s1 \<and> timer_runs t s1 = timer_runs t s))"
proof -
  obtain s where s: "timer_run K hz before (timer_start mem k) = r_return s" "timer_ok s"
    using run_goes_well [OF assms(1) start_ok] by blast
  have "\<exists>s1. timer_run K hz (OpCancel t # after) s = r_return s1 \<and> timer_runs t s1 = timer_runs t s"
    if c: "tm_Valid (ts_timer s t)" "t \<notin> set (ts_firing s)" "count_list (tq_abs (ts_q s)) t \<le> 1" "not_at_hand t s"
  proof -
    obtain s1 where s1: "timer_step K hz (OpCancel t) s = r_return s1" "timer_ok s1" "timer_quiet K t s1"
        "timer_runs t s1 = timer_runs t s"
      using cancel_quiet [OF assms(1) s(2) c] by blast
    then show ?thesis using quiet_run [OF assms(1) s1(2,3) assms(2)] by (auto simp del: timer_step.simps)
  qed
  then show ?thesis using s(1) by blast
qed

text \<open>Timer 0 has expired and is in the queue; it is cancelled, and the task goes on.\<close>

theorem cancelled_timer_stays_quiet_witness:
  "kernel_law set_kernel \<and> \<not> sets_timer 0 task_goes \<and>
   (\<exists>s s1. timer_run set_kernel 1000 (in_flight @ [OpFire 0]) (timer_start True (\<lambda>_. False)) = r_return s \<and>
      tq_abs (ts_q s) = [0] \<and>
      timer_run set_kernel 1000 (OpCancel 0 # [task_goes, task_goes, task_goes]) s = r_return s1 \<and>
      timer_runs 0 s1 = timer_runs 0 s)"
proof -
  have no: "\<forall>op \<in> set [task_goes, task_goes, task_goes]. \<not> sets_timer 0 op" by (simp add: task_goes_def)
  obtain s where s: "timer_run set_kernel 1000 (in_flight @ [OpFire 0]) (timer_start True (\<lambda>_. False)) = r_return s"
      "tm_Valid (ts_timer s 0) \<and> 0 \<notin> set (ts_firing s) \<and> count_list (tq_abs (ts_q s)) 0 \<le> 1 \<and> not_at_hand 0 s \<longrightarrow>
       (\<exists>s1. timer_run set_kernel 1000 (OpCancel 0 # [task_goes, task_goes, task_goes]) s = r_return s1 \<and>
          timer_runs 0 s1 = timer_runs 0 s)"
    using cancelled_timer_stays_quiet [OF set_kernel_law no, of 1000 "in_flight @ [OpFire 0]" True "\<lambda>_. False"]
    by blast
  have "tm_Valid (ts_timer s 0) \<and> ts_firing s = [] \<and> tq_abs (ts_q s) = [0] \<and> not_at_hand 0 s"
    using queued_once s(1) by (simp add: r_return_def)
  then show ?thesis using s no set_kernel_law by auto
qed

text \<open>C24: In each of the other places a timer that was cancelled, so that it counts as cancelled, can still run:
  when its function is about to run in interrupt context, since the cancellation does not wait for the function of
  a timer that is no longer pending; when the task has it at hand; and when it is in the queue twice, since the
  cancellation takes one entry out. And a timer that expired once can run twice: when the entry the task
  saw in the queue is removed before the task takes the lock, the task calls the function of the timer before it
  again.\<close>

theorem cancelled_timer_runs:
  "runs_in (in_flight @ [OpCancel 0]) = r_return (0, True) \<and>
   runs_in (in_flight @ [OpCancel 0, OpFire 0, task_goes, task_goes, task_goes, task_goes]) = r_return (1, True) \<and>
   runs_in (at_hand @ [OpCancel 0]) = r_return (0, True) \<and>
   runs_in (at_hand @ [OpCancel 0, task_goes]) = r_return (1, True) \<and>
   runs_in (queued_twice @ [OpCancel 0]) = r_return (0, True) \<and>
   runs_in (queued_twice @ [OpCancel 0, task_goes, task_goes, task_goes, task_goes]) = r_return (1, True) \<and>
   runs_in stale_timer = r_return (1, False) \<and>
   runs_in (stale_timer @ [OpCancel 1, task_goes, task_goes]) = r_return (2, False)"
proof (intro conjI)
  show "runs_in (in_flight @ [OpCancel 0]) = r_return (0, True)" by code_simp
  show "runs_in (in_flight @ [OpCancel 0, OpFire 0, task_goes, task_goes, task_goes, task_goes]) = r_return (1, True)"
    by code_simp
  show "runs_in (at_hand @ [OpCancel 0]) = r_return (0, True)" by code_simp
  show "runs_in (at_hand @ [OpCancel 0, task_goes]) = r_return (1, True)" by code_simp
  show "runs_in (queued_twice @ [OpCancel 0]) = r_return (0, True)" by code_simp
  show "runs_in (queued_twice @ [OpCancel 0, task_goes, task_goes, task_goes, task_goes]) = r_return (1, True)"
    by code_simp
  show "runs_in stale_timer = r_return (1, False)" by code_simp
  show "runs_in (stale_timer @ [OpCancel 1, task_goes, task_goes]) = r_return (2, False)" by code_simp
qed

end
