(* ===== verification/Spec2Isabelle.thy ===== *)
theory Spec2Isabelle
  imports Arc4 Wep Aes AesModes AesCcm AesCmac Hmac ApAuthProps MlmeTaskProps FourWaySafety SoftCipher
    CmdQueueProps TimersProps
begin

text \<open>
  A model of core logic of the mt7612u driver, a Linux driver in C for a USB wireless chip that runs as
  a station or as an access point, and the proofs that the modelled parts are right.

  \<^bold>\<open>The parts and how they interact.\<close> Frames come from the chip through the receive path. Data frames of
  a block-ack session pass the reordering buffer (\<^verbatim>\<open>common/ba_action.c\<close>) and go up in sequence;
  management frames pass the MLME queue (\<^verbatim>\<open>common/mlme.c\<close>), which a task empties into state machines, to
  the handlers, among them the authentication of stations by the access point (\<^verbatim>\<open>ap/ap_auth.c\<close>) and the
  block-ack action frames. The handlers keep the stations in
  a hash table (\<^verbatim>\<open>mgmt/mgmt_entrytb.c\<close>); a station that leaves ends its block-ack sessions. Key frames
  run the four-way and the group key handshake (\<^verbatim>\<open>common/cmm_wpa.c\<close>, \<^verbatim>\<open>ap/ap_wpa.c\<close>) on the entries of
  that table, on either side; they install keys and open the port of a station. Ciphers in
  software (\<^verbatim>\<open>common/crypt_*.c\<close>, \<^verbatim>\<open>common/cmm_wep.c\<close>, \<^verbatim>\<open>common/cmm_tkip.c\<close>, \<^verbatim>\<open>common/cmm_aes.c\<close>) serve the
  security code and open the frames that the chip could not. Since the chip is behind a USB bus, where
  a request sleeps, contexts that must not sleep pass their requests on: to the command queue
  (\<^verbatim>\<open>common/cmm_cmd.c\<close>, \<^verbatim>\<open>common/rtusb_io.c\<close>), which a thread serves, and expired timers
  (\<^verbatim>\<open>common/rtmp_init.c\<close>, \<^verbatim>\<open>os/linux/rt_linux.c\<close>) to the timer queue (\<^verbatim>\<open>common/rtmp_timer.c\<close>) and its task.

  \<^bold>\<open>The theories.\<close>
  \<^item> Prelude: types of the C integers, byte strings, faults (\<open>c_fault\<close>: an access out of bounds and the
    like is a value) and the type \<open>run\<close>, whose nothing is a loop that does not end.
  \<^item> Arc4, Wep, Aes, AesModes, AesCcm: ARC4 and WEP, AES with its key expansion, CBC, key wrap and CCM.
    Each routine has its own definition under the name it has in C; tables are the C tables. Shown:
    round trips, equality of tables and optimised code with reference definitions (multiplication in
    GF(2^8), bitwise CRC-32, the CBC-MAC of RFC 3610), rejection of corrupted frames, and inputs on which
    the C code reads out of bounds or accepts what it must not.
  \<^item> AesCmac, StreamHash, Md5, Sha, Hmac: CMAC and its subkeys; the context that MD5, SHA-1 and SHA-256
    share, with the interface \<open>stream_hash\<close> of a hash fed in pieces, its interpretation for each of the three,
    and HMAC over it. Shown: equality with RFC 4493, RFC 1321, FIPS 180-4 and RFC 2104.
  \<^item> BaSeq, BaReorder: sequence numbers of 12 bits and the receive side of one session, with its buffer,
    the pool of blocks it takes entries from, and the log of buffers delivered or freed. BaReorderProps:
    order of delivery, window, conservation of buffers and blocks, progress by timeouts, two leaks.
  \<^item> BaSession: the tables of sessions and the handlers that set them up and end them. BaSessionProps and
    BaSessionOps: the invariant that ties the indices kept by the peers to the entries of the tables,
    preserved by each operation. BaSystem: the handlers as one machine with its runs, and the properties.
  \<^item> MacTab: the station table, an array of entries and hash chains of indices that stand for \<^verbatim>\<open>pNext\<close>.
    The loops over chains are partial functions. MacTabProps: chains as paths, the table as a map from
    addresses to indices, effect of each operation on the map. StationTable: the table together with the
    sessions of its stations, and the interface \<open>station_store\<close> with its interpretation on the model.
    StationProps: refinement of a map by any sequence of operations, termination of look-ups, reset, and
    the session that survives its station.
  \<^item> ApAuth, ApAuthProps: the authentication handlers of the access point on that table, the verdict that
    the settings call for, and the invariant over runs of the handlers.
  \<^item> MlmeFrames: the numbers of machines and messages and the classification of received frames. MlmeQueue:
    the ring of 40 messages with an interpretation of \<open>bounded_fifo\<close>, refinement of a list, and the message that is lost when a full queue is served. MlmeMachine: the engine with its
    tables of handlers. MlmeTask: the tables of every machine, the set-up and the task. MlmeTaskProps: a
    table as a map of its actions, frames find their handler, the task serves the queue and ends.
  \<^item> Links: lists linked by addresses or indices. Fifo: the interface \<open>bounded_fifo\<close> of a queue of limited
    length, interpreted for the MLME ring and for the timer queue.
  \<^item> CmdQueue, CmdQueueProps: the linked queue of commands in a memory of elements and buffers, the dispatch
    table, the handler and its thread. Shown: refinement of a list in any interleaving with enqueuing contexts,
    no use after free and no leak, and that the handler ends with everything done and freed.
  \<^item> TimerQueue: the queue of expired timers with its pool of nodes, a bounded list. Timers, TimersProps: the
    operations on timers, the interrupt function and the task as one machine. Shown: no run of it goes
    wrong, when a cancelled timer stays quiet, and the four interleavings in which one runs after all or twice.
  \<^item> WpaKeys: the pseudo-random functions, the hash of a pass phrase, the derivation of pairwise and group
    keys and of nonces, equal to IEEE 802.11 and PBKDF2. PmkidCache: the cache of master keys as a map, and
    what a full cache gives up.
  \<^item> Eapol: the state of the handshake, the layout and construction of key frames, installation of keys and
    the checks on a received frame. EapolFrame, EapolCheck: a key frame as a record of its fields, what
    construction and checks do to the fields, the search for the group key in the key data.
  \<^item> FourWay: the handlers of both sides, key requests, countermeasures and retries. FourWayProps: the
    handshake of two ends, message by message, and the whole. FourWaySafety: which frame opens a port, and
    what forged, repeated, overlong and lost frames do.
  \<^item> Michael, Tkip, Ccmp: the integrity code of TKIP in 64-bit variables, its key mixing and the receive
    path of TKIP, and CCMP in both directions with its additional data, nonce and header. SoftCipher: the
    choice of a key for a received frame and the dispatch to WEP, TKIP and CCMP. Shown: equality with IEEE
    802.11, which frames are accepted, round trips through the dispatch, and that it takes each TKIP frame
    for a failure.

  \<^bold>\<open>State and conventions.\<close> A struct is a record with the fields the modelled code uses, a pointer to an
  array element its index, a function that writes to memory a function from state to state. Whether a
  \<^verbatim>\<open>kmalloc\<close> succeeds, the random bytes drawn and the contents of uninitialised buffers are arguments.
  Frames and events that leave the modelled part, timers and accesses to the chip are entries of logs.
  Integers that can wrap are words; the others are \<open>nat\<close> or \<open>int\<close>. Locks are not modelled: each operation
  runs to its end; where code runs without the lock, in the threads of the two queues, it is cut into steps.
  The timers of the kernel are a parameter with the laws \<open>kernel_law\<close>, the functions of the command table
  and of the MLME machines are arguments. Debug output and statistics are left out.

  \<^bold>\<open>Bounds.\<close> No fuel is used: loops over arrays are structural or have a measure, loops over chains are
  partial functions for which the properties show that they end in the states that can be reached.

  \<^bold>\<open>Not modelled.\<close> Register access, firmware, radio and calibration code (hardware); the glue to the
  kernel and to configuration tools; rate adaptation; frame assembly. The MLME task and the command thread call their
  handlers through an argument, since most of them are not modelled. The lists of all timers, kept for
  the release of a device, and the vendor requests of the USB code are left out. Of the handshake the messages to an 802.1X daemon
  and the periodic renewal of the group key are left out.
\<close>

end
